(* ===== verification/Prelude.thy ===== *)
theory Prelude
  imports Main "HOL-Library.Word" "HOL-Library.Monad_Syntax"
begin

text \<open>
  Shared vocabulary of the development: the C integer types, the return codes of
  the GNUnet convention, C strings held in fixed-size arrays, and the small calculus
  used for code that threads a state and may abort.

  A C function that can fail a \<^verbatim>\<open>GNUNET_assert\<close> is modelled by a function into
  \<open>option\<close>: \<open>None\<close> is the abort of the process. A function that also changes the
  database session returns \<open>Some (result, session)\<close>. The predicate \<open>wp\<close> states total
  correctness of such a computation (it does not abort, and its result satisfies the
  postcondition); the collection \<open>wp\<close> holds its rules.
\<close>

section \<open>Proof automation\<close>

named_theorems wp \<open>rules that push a postcondition through a computation\<close>

named_theorems amount_simps \<open>what the amount operations compute\<close>

text \<open>Quantifiers over pairs are left as they are.\<close>

declare split_paired_All [simp del] split_paired_Ex [simp del]

section \<open>Machine integers and return codes\<close>

type_synonym u32 = "32 word"

type_synonym u64 = "64 word"

text \<open>\<^verbatim>\<open>enum GNUNET_GenericReturnValue\<close>\<close>

abbreviation (input) GNUNET_OK :: int where "GNUNET_OK \<equiv> 1"

abbreviation (input) GNUNET_YES :: int where "GNUNET_YES \<equiv> 1"

abbreviation (input) GNUNET_NO :: int where "GNUNET_NO \<equiv> 0"

abbreviation (input) GNUNET_SYSERR :: int where "GNUNET_SYSERR \<equiv> - 1"

text \<open>\<^verbatim>\<open>enum GNUNET_DB_QueryStatus\<close>; a multi-row query answers with the number of rows.\<close>

abbreviation (input) GNUNET_DB_STATUS_HARD_ERROR :: int where "GNUNET_DB_STATUS_HARD_ERROR \<equiv> - 2"

abbreviation (input) GNUNET_DB_STATUS_SOFT_ERROR :: int where "GNUNET_DB_STATUS_SOFT_ERROR \<equiv> - 1"

abbreviation (input) GNUNET_DB_STATUS_SUCCESS_NO_RESULTS :: int where
  "GNUNET_DB_STATUS_SUCCESS_NO_RESULTS \<equiv> 0"

abbreviation (input) GNUNET_DB_STATUS_SUCCESS_ONE_RESULT :: int where
  "GNUNET_DB_STATUS_SUCCESS_ONE_RESULT \<equiv> 1"

section \<open>Assertions\<close>

definition GNUNET_assert :: "bool \<Rightarrow> unit option" where
  "GNUNET_assert b = (if b then Some () else None)"

lemma GNUNET_assert_eq_Some [simp]: "GNUNET_assert b = Some u \<longleftrightarrow> b"
  by (simp add: GNUNET_assert_def)

lemma GNUNET_assert_True [simp]: "GNUNET_assert True = Some ()"
  by (simp add: GNUNET_assert_def)

lemma GNUNET_assert_False [simp]: "GNUNET_assert False = None"
  by (simp add: GNUNET_assert_def)

lemma GNUNET_assert_bind [simp]:
  "Option.bind (GNUNET_assert b) f = (if b then f () else None)"
  by (simp add: GNUNET_assert_def)

section \<open>Total correctness of state-passing computations\<close>

definition wp :: "('a \<times> 's) option \<Rightarrow> ('a \<Rightarrow> 's \<Rightarrow> bool) \<Rightarrow> bool" where
  "wp m Q = (case m of None \<Rightarrow> False | Some (a, s) \<Rightarrow> Q a s)"

lemma wp_Some [simp, wp]: "wp (Some (a, s)) Q = Q a s"
  by (simp add: wp_def)

lemma wp_None [simp]: "\<not> wp None Q"
  by (simp add: wp_def)

lemma wp_bind [wp]: "wp (Option.bind m f) Q = wp m (\<lambda>a s. wp (f (a, s)) Q)"
  by (cases m) (auto simp: wp_def)

lemma wp_assert [wp]: "wp (Option.bind (GNUNET_assert b) f) Q = (b \<and> wp (f ()) Q)"
  by (simp add: GNUNET_assert_def)

lemma wp_if [wp]: "wp (if b then m else n) Q = (if b then wp m Q else wp n Q)"
  by simp

lemma wp_mono: "wp m P \<Longrightarrow> (\<And>a s. P a s \<Longrightarrow> Q a s) \<Longrightarrow> wp m Q"
  by (auto simp: wp_def split: option.splits)

lemma wp_bindI: "wp m P \<Longrightarrow> (\<And>a s. P a s \<Longrightarrow> wp (f (a, s)) Q) \<Longrightarrow> wp (Option.bind m f) Q"
  unfolding wp_bind by (rule wp_mono)

lemma wp_conj: "wp m P \<Longrightarrow> wp m Q \<Longrightarrow> wp m (\<lambda>a s. P a s \<and> Q a s)"
  by (auto simp: wp_def split: option.splits)

lemma wp_iff: "wp m Q \<longleftrightarrow> (\<exists>a s. m = Some (a, s) \<and> Q a s)"
  by (auto simp: wp_def split: option.splits)

lemma wpD: "wp m Q \<Longrightarrow> m = Some (a, s) \<Longrightarrow> Q a s"
  by (simp add: wp_iff)

text \<open>The same for a computation that may also abort, but only if \<open>b\<close> holds\<close>

definition wpa :: "bool \<Rightarrow> ('a \<times> 's) option \<Rightarrow> ('a \<Rightarrow> 's \<Rightarrow> bool) \<Rightarrow> bool" where
  "wpa b m Q = (case m of None \<Rightarrow> b | Some (a, s) \<Rightarrow> Q a s)"

lemma wpa_simps [simp]: "wpa b (Some (a, s)) Q = Q a s" "wpa b None Q = b" "wpa False m Q = wp m Q"
  by (auto simp: wpa_def wp_def)

lemma wpaI: "wp m Q \<Longrightarrow> wpa b m Q"
  by (auto simp: wpa_def wp_def split: option.splits)

lemma wpa_mono: "wpa b m P \<Longrightarrow> (\<And>a s. P a s \<Longrightarrow> Q a s) \<Longrightarrow> wpa b m Q"
  by (auto simp: wpa_def split: option.splits)

lemma wpa_weaken: "wpa b m P \<Longrightarrow> b \<longrightarrow> b' \<Longrightarrow> (\<And>a s. P a s \<Longrightarrow> Q a s) \<Longrightarrow> wpa b' m Q"
  by (auto simp: wpa_def split: option.splits)

lemma wpa_bindI: "wpa b m P \<Longrightarrow> (\<And>a s. P a s \<Longrightarrow> wpa b (f (a, s)) Q) \<Longrightarrow> wpa b (Option.bind m f) Q"
  by (cases m) (auto simp: wpa_def)

lemma wpa_wp: "wpa b m Q \<Longrightarrow> \<not> b \<Longrightarrow> wp m Q"
  by simp

lemma wpaD: "wpa b m Q \<Longrightarrow> m = Some (a, s) \<Longrightarrow> Q a s"
  by simp

section \<open>C strings in character arrays\<close>

abbreviation NUL :: char where "NUL \<equiv> CHR 0x00"

definition cstr :: "string \<Rightarrow> string" where
  "cstr b = takeWhile (\<lambda>c. c \<noteq> NUL) b"

definition strlen :: "string \<Rightarrow> nat" where
  "strlen b = length (cstr b)"

definition tolower :: "char \<Rightarrow> char" where
  "tolower c = (if 65 \<le> (of_char c :: nat) \<and> (of_char c :: nat) \<le> 90
                then char_of ((of_char c :: nat) + 32) else c)"

definition strcasecmp_eq :: "string \<Rightarrow> string \<Rightarrow> bool" where
  "strcasecmp_eq a b \<longleftrightarrow> map tolower (cstr a) = map tolower (cstr b)"

lemma NUL_notin_cstr [simp]: "NUL \<notin> set (cstr b)"
  by (auto simp: cstr_def dest: set_takeWhileD)

lemma cstr_idem [simp]: "cstr (cstr b) = cstr b"
  by (simp add: cstr_def takeWhile_idem)

lemma cstr_id: "NUL \<notin> set b \<Longrightarrow> cstr b = b"
  by (auto simp: cstr_def takeWhile_eq_all_conv)

lemma cstr_append_NUL: "NUL \<notin> set a \<Longrightarrow> cstr (a @ NUL # b) = a"
  by (induction a) (auto simp: cstr_def)

lemma cstr_replicate_NUL [simp]: "cstr (replicate n NUL) = []"
  by (cases n) (simp_all add: cstr_def)

lemma cstr_pad: "NUL \<notin> set a \<Longrightarrow> cstr (a @ replicate n NUL) = a"
  by (cases n) (simp_all add: cstr_append_NUL cstr_id)

lemma strcasecmp_eq_refl [simp]: "strcasecmp_eq a a"
  by (simp add: strcasecmp_eq_def)

lemma strcasecmp_eq_sym: "strcasecmp_eq a b \<Longrightarrow> strcasecmp_eq b a"
  by (simp add: strcasecmp_eq_def)

lemma strcasecmp_eq_trans: "strcasecmp_eq a b \<Longrightarrow> strcasecmp_eq b c \<Longrightarrow> strcasecmp_eq a c"
  by (simp add: strcasecmp_eq_def)

lemma strlen_le: "strlen b \<le> length b"
  by (simp add: strlen_def cstr_def length_takeWhile_le)

section \<open>Words\<close>

lemma unat_u64_less: "unat (x :: u64) < 18446744073709551616"
  using unsigned_less [of x] by simp

lemma unat_u32_less: "unat (x :: u32) < 4294967296"
  using unsigned_less [of x] by simp

lemma unat_add_u64:
  "unat (x :: u64) + unat y < 18446744073709551616 \<Longrightarrow> unat (x + y) = unat x + unat y"
  by (simp add: unat_word_ariths)

lemma unat_add_u32:
  "unat (x :: u32) + unat y < 4294967296 \<Longrightarrow> unat (x + y) = unat x + unat y"
  by (simp add: unat_word_ariths)

lemma unat_ucast_u32_u64 [simp]: "unat (ucast (x :: u32) :: u64) = unat x"
  using unat_u32_less [of x] by (simp add: unsigned_ucast_eq take_bit_nat_eq_self_iff)

section \<open>Lists\<close>

lemma sum_list_int_nonneg: "(\<And>x. x \<in> set xs \<Longrightarrow> 0 \<le> f x) \<Longrightarrow> 0 \<le> (\<Sum>x\<leftarrow>xs. f x :: int)"
  by (rule sum_list_nonneg) auto

lemma sum_list_rev_map: "(\<Sum>x\<leftarrow>rev xs. f x) = (\<Sum>x\<leftarrow>xs. f x :: int)"
  by (simp add: rev_map [symmetric])

text \<open>Joining a list with a table over a key of the table: the entries of the table that match are
  at most one.\<close>

lemma filter_key_unique:
  assumes "distinct (map key ds)" and "d \<in> set ds"
  shows "filter (\<lambda>x. key x = key d) ds = [d]"
  using assms
proof (induction ds)
  case (Cons e ds)
  show ?case
  proof (cases "e = d")
    case True
    with Cons.prems(1) have "\<forall>x\<in>set ds. key x \<noteq> key d" by (auto simp: image_iff)
    with True show ?thesis by (simp add: filter_empty_conv)
  next
    case False
    with Cons.prems have "d \<in> set ds" "key e \<noteq> key d" by force+
    with Cons show ?thesis by simp
  qed
qed simp

lemma concat_map_if: "concat (map (\<lambda>x. if P x then f x else []) xs) = concat (map f (filter P xs))"
  by (induction xs) simp_all

lemma join_key:
  assumes "distinct (map key ds)" and "d \<in> set ds"
  shows "concat (map (\<lambda>x. if key x = key d then f x else []) ds) = f d"
  using assms by (simp add: concat_map_if filter_key_unique)

lemma join_key':
  assumes "distinct (map key ds)" and "d \<in> set ds"
  shows "concat (map (\<lambda>x. if key d = key x then f x else []) ds) = f d"
  using join_key [OF assms, of f] by (simp add: eq_commute)

lemma sum_concat_map:
  "(\<And>x. x \<in> set xs \<Longrightarrow> (\<Sum>y\<leftarrow>f x. g y) = (if P x then h x else 0)) \<Longrightarrow>
     (\<Sum>y\<leftarrow>concat (map f xs). g y :: int) = (\<Sum>x\<leftarrow>filter P xs. h x)"
  by (induction xs) simp_all

lemma those_map_Some:
  "those (map f xs) = Some ys \<longleftrightarrow> list_all2 (\<lambda>x y. f x = Some y) xs ys"
proof (induction xs arbitrary: ys)
  case (Cons x xs)
  then show ?case
    by (cases ys) (auto split: option.splits)
qed auto

lemma those_map_exists: "\<forall>x\<in>set xs. f x \<noteq> None \<Longrightarrow> \<exists>ys. those (map f xs) = Some ys"
  by (induction xs) auto

lemma sum_those_map:
  assumes "those (map f xs) = Some ys" and "\<And>x y. x \<in> set xs \<Longrightarrow> f x = Some y \<Longrightarrow> h y = (g x :: int)"
  shows "(\<Sum>y\<leftarrow>ys. h y) = (\<Sum>x\<leftarrow>xs. g x)"
  using assms(1) [unfolded those_map_Some] assms(2)
  by (induction rule: list_all2_induct) simp_all

end
