(* ===== verification/Amount.thy ===== *)
theory Amount
  imports Prelude
begin

text \<open>
  Monetary amounts: \<^verbatim>\<open>src/util/amount.c\<close> without the text format (which is in the
  theory \<open>Amount_Text\<close>). \<open>TALER_Amount\<close> is \<^verbatim>\<open>struct TALER_Amount\<close>, with the 64-bit
  value, the 32-bit fraction and the 12-byte currency array as they are in memory.
  A function with an output parameter returns its result code together with what it
  stored; a function that can fail a \<^verbatim>\<open>GNUNET_assert\<close> returns an \<open>option\<close>.
  The lemmas relate every operation to integer arithmetic on \<open>amt\<close>, the number of
  fractional units the amount stands for.
\<close>

section \<open>Data\<close>

record TALER_Amount =
  amt_value :: u64
  amt_fraction :: u32
  amt_currency :: string

text \<open>\<^verbatim>\<open>TALER_CURRENCY_LEN\<close>, \<^verbatim>\<open>TALER_AMOUNT_FRAC_BASE\<close>, \<^verbatim>\<open>TALER_AMOUNT_FRAC_LEN\<close>,
  \<^verbatim>\<open>MAX_AMOUNT_VALUE\<close>\<close>

definition TALER_CURRENCY_LEN :: nat where
  "TALER_CURRENCY_LEN = 12"

definition TALER_AMOUNT_FRAC_BASE :: nat where
  "TALER_AMOUNT_FRAC_BASE = 100000000"

definition TALER_AMOUNT_FRAC_LEN :: nat where
  "TALER_AMOUNT_FRAC_LEN = 8"

definition MAX_AMOUNT_VALUE :: u64 where
  "MAX_AMOUNT_VALUE = push_bit 52 1"

text \<open>\<^verbatim>\<open>enum TALER_AmountArithmeticResult\<close>\<close>

abbreviation (input) TALER_AAR_RESULT_POSITIVE :: int where
  "TALER_AAR_RESULT_POSITIVE \<equiv> 1"

abbreviation (input) TALER_AAR_RESULT_ZERO :: int where
  "TALER_AAR_RESULT_ZERO \<equiv> 0"

abbreviation (input) TALER_AAR_INVALID_NEGATIVE_RESULT :: int where
  "TALER_AAR_INVALID_NEGATIVE_RESULT \<equiv> - 1"

abbreviation (input) TALER_AAR_INVALID_RESULT_OVERFLOW :: int where
  "TALER_AAR_INVALID_RESULT_OVERFLOW \<equiv> - 2"

abbreviation (input) TALER_AAR_INVALID_NORMALIZATION_FAILED :: int where
  "TALER_AAR_INVALID_NORMALIZATION_FAILED \<equiv> - 3"

abbreviation (input) TALER_AAR_INVALID_CURRENCIES_INCOMPATIBLE :: int where
  "TALER_AAR_INVALID_CURRENCIES_INCOMPATIBLE \<equiv> - 4"

section \<open>Operations\<close>

text \<open>\<^verbatim>\<open>invalidate\<close>: the whole structure is zeroed.\<close>

definition invalidate :: TALER_Amount where
  "invalidate = \<lparr>amt_value = 0, amt_fraction = 0,
                 amt_currency = replicate TALER_CURRENCY_LEN NUL\<rparr>"

definition TALER_amount_is_valid :: "TALER_Amount \<Rightarrow> bool" where
  "TALER_amount_is_valid a \<longleftrightarrow> amt_currency a \<noteq> [] \<and> hd (amt_currency a) \<noteq> NUL"

definition TALER_amount_get_zero :: "string \<Rightarrow> TALER_Amount \<Rightarrow> int \<times> TALER_Amount" where
  "TALER_amount_get_zero cur amount =
     (let slen = strlen cur
      in if slen \<ge> TALER_CURRENCY_LEN then (GNUNET_SYSERR, amount)
         else (GNUNET_OK,
               \<lparr>amt_value = 0, amt_fraction = 0,
                amt_currency = cstr cur @ replicate (TALER_CURRENCY_LEN - slen) NUL\<rparr>))"

definition TALER_amount_cmp_currency :: "TALER_Amount \<Rightarrow> TALER_Amount \<Rightarrow> int" where
  "TALER_amount_cmp_currency a1 a2 =
     (if \<not> TALER_amount_is_valid a1 \<or> \<not> TALER_amount_is_valid a2 then GNUNET_SYSERR
      else if strcasecmp_eq (amt_currency a1) (amt_currency a2) then GNUNET_YES
      else GNUNET_NO)"

definition TALER_amount_normalize :: "TALER_Amount \<Rightarrow> int \<times> TALER_Amount" where
  "TALER_amount_normalize a =
     (if \<not> TALER_amount_is_valid a then (GNUNET_SYSERR, a)
      else if amt_fraction a < of_nat TALER_AMOUNT_FRAC_BASE then (GNUNET_NO, a)
      else let overflow = amt_fraction a div of_nat TALER_AMOUNT_FRAC_BASE;
               frac = amt_fraction a mod of_nat TALER_AMOUNT_FRAC_BASE;
               val = amt_value a + ucast overflow
           in if val < ucast overflow \<or> val > MAX_AMOUNT_VALUE
              then (GNUNET_SYSERR, invalidate)
              else (GNUNET_OK, a\<lparr>amt_fraction := frac, amt_value := val\<rparr>))"

definition TALER_amount_cmp :: "TALER_Amount \<Rightarrow> TALER_Amount \<Rightarrow> int option" where
  "TALER_amount_cmp a1 a2 = do {
     GNUNET_assert (TALER_amount_cmp_currency a1 a2 = GNUNET_YES);
     let (r1, n1) = TALER_amount_normalize a1;
     GNUNET_assert (r1 \<noteq> GNUNET_SYSERR);
     let (r2, n2) = TALER_amount_normalize a2;
     GNUNET_assert (r2 \<noteq> GNUNET_SYSERR);
     Some (if amt_value n1 = amt_value n2
           then (if amt_fraction n1 < amt_fraction n2 then - 1
                 else if amt_fraction n1 > amt_fraction n2 then 1
                 else 0)
           else if amt_value n1 < amt_value n2 then - 1
           else 1)
   }"

definition TALER_amount_subtract ::
    "TALER_Amount \<Rightarrow> TALER_Amount \<Rightarrow> TALER_Amount \<Rightarrow> (int \<times> TALER_Amount) option" where
  "TALER_amount_subtract diff a1 a2 =
     (if TALER_amount_cmp_currency a1 a2 \<noteq> GNUNET_YES
      then Some (TALER_AAR_INVALID_CURRENCIES_INCOMPATIBLE, invalidate)
      else let (r1, n1) = TALER_amount_normalize a1;
               (r2, n2) = TALER_amount_normalize a2
           in if r1 = GNUNET_SYSERR \<or> r2 = GNUNET_SYSERR
              then Some (TALER_AAR_INVALID_NORMALIZATION_FAILED, invalidate)
              else if amt_fraction n1 < amt_fraction n2 \<and> amt_value n1 = 0
              then Some (TALER_AAR_INVALID_NEGATIVE_RESULT, invalidate)
              else let n1 = (if amt_fraction n1 < amt_fraction n2
                             then n1\<lparr>amt_fraction := amt_fraction n1
                                                     + of_nat TALER_AMOUNT_FRAC_BASE,
                                     amt_value := amt_value n1 - 1\<rparr>
                             else n1)
                   in if amt_value n1 < amt_value n2
                      then Some (TALER_AAR_INVALID_NEGATIVE_RESULT, invalidate)
                      else do {
                        let (r, diff) = TALER_amount_get_zero (amt_currency n1) diff;
                        GNUNET_assert (r = GNUNET_OK);
                        GNUNET_assert (amt_fraction n1 \<ge> amt_fraction n2);
                        let diff = diff\<lparr>amt_fraction := amt_fraction n1 - amt_fraction n2\<rparr>;
                        GNUNET_assert (amt_value n1 \<ge> amt_value n2);
                        let diff = diff\<lparr>amt_value := amt_value n1 - amt_value n2\<rparr>;
                        Some (if amt_fraction diff = 0 \<and> amt_value diff = 0
                              then TALER_AAR_RESULT_ZERO else TALER_AAR_RESULT_POSITIVE,
                              diff)
                      })"

definition TALER_amount_add ::
    "TALER_Amount \<Rightarrow> TALER_Amount \<Rightarrow> (int \<times> TALER_Amount) option" where
  "TALER_amount_add a1 a2 =
     (if TALER_amount_cmp_currency a1 a2 \<noteq> GNUNET_YES
      then Some (TALER_AAR_INVALID_CURRENCIES_INCOMPATIBLE, invalidate)
      else let (r1, n1) = TALER_amount_normalize a1;
               (r2, n2) = TALER_amount_normalize a2
           in if r1 = GNUNET_SYSERR \<or> r2 = GNUNET_SYSERR
              then Some (TALER_AAR_INVALID_NORMALIZATION_FAILED, invalidate)
              else do {
                let (r, res) = TALER_amount_get_zero (amt_currency a1) invalidate;
                GNUNET_assert (r = GNUNET_OK);
                let res = res\<lparr>amt_value := amt_value n1 + amt_value n2\<rparr>;
                if amt_value res < amt_value n1
                then Some (TALER_AAR_INVALID_RESULT_OVERFLOW, invalidate)
                else if amt_value res > MAX_AMOUNT_VALUE
                then Some (TALER_AAR_INVALID_RESULT_OVERFLOW, invalidate)
                else let (r, res) = TALER_amount_normalize
                                      (res\<lparr>amt_fraction := amt_fraction n1 + amt_fraction n2\<rparr>)
                     in if r = GNUNET_SYSERR
                        then Some (TALER_AAR_INVALID_RESULT_OVERFLOW, invalidate)
                        else Some (if amt_fraction res = 0 \<and> amt_value res = 0
                                   then TALER_AAR_RESULT_ZERO else TALER_AAR_RESULT_POSITIVE,
                                   res)
              })"

definition TALER_amount_divide :: "TALER_Amount \<Rightarrow> u32 \<Rightarrow> TALER_Amount option" where
  "TALER_amount_divide dividend divisor = do {
     GNUNET_assert (divisor \<noteq> 0);
     let (r, result) = TALER_amount_normalize dividend;
     GNUNET_assert (r \<noteq> GNUNET_SYSERR);
     if divisor = 1 then Some result
     else do {
       let modr = amt_value result mod ucast divisor;
       let result = result\<lparr>amt_value := amt_value result div ucast divisor\<rparr>;
       let modr = modr * of_nat TALER_AMOUNT_FRAC_BASE + ucast (amt_fraction result);
       let result = result\<lparr>amt_fraction := ucast (modr div ucast divisor)\<rparr>;
       let (r, result) = TALER_amount_normalize result;
       GNUNET_assert (r \<noteq> GNUNET_SYSERR);
       Some result
     }
   }"

definition TALER_amount_round_down ::
    "TALER_Amount \<Rightarrow> TALER_Amount \<Rightarrow> int \<times> TALER_Amount" where
  "TALER_amount_round_down amount round_unit =
     (if TALER_amount_cmp_currency amount round_unit \<noteq> GNUNET_OK then (GNUNET_SYSERR, amount)
      else if amt_fraction round_unit \<noteq> 0 \<and> amt_value round_unit \<noteq> 0
      then (GNUNET_SYSERR, amount)
      else if amt_fraction round_unit = 0 \<and> amt_value round_unit = 0 then (GNUNET_NO, amount)
      else if amt_fraction round_unit \<noteq> 0
      then let delta = amt_fraction amount mod amt_fraction round_unit
           in if delta = 0 then (GNUNET_NO, amount)
              else (GNUNET_OK, amount\<lparr>amt_fraction := amt_fraction amount - delta\<rparr>)
      else let delta = amt_value amount mod amt_value round_unit
           in if delta = 0 then (GNUNET_NO, amount)
              else (GNUNET_OK, amount\<lparr>amt_value := amt_value amount - delta,
                                      amt_fraction := 0\<rparr>))"

subsection \<open>Network byte order\<close>

text \<open>\<^verbatim>\<open>struct TALER_AmountNBO\<close>. The C library's \<^verbatim>\<open>htonl\<close> and \<^verbatim>\<open>ntohl\<close> swap the bytes of a
  32-bit integer; the 64-bit conversions \<^verbatim>\<open>GNUNET_htonll\<close> and \<^verbatim>\<open>GNUNET_ntohll\<close> belong to
  GNUnet and are parameters.\<close>

record TALER_AmountNBO =
  nbo_value :: u64
  nbo_fraction :: u32
  nbo_currency :: string

definition htonl :: "u32 \<Rightarrow> u32" where
  "htonl x = or (push_bit 24 (take_bit 8 x))
               (or (push_bit 16 (take_bit 8 (drop_bit 8 x)))
                  (or (push_bit 8 (take_bit 8 (drop_bit 16 x))) (drop_bit 24 x)))"

abbreviation ntohl :: "u32 \<Rightarrow> u32" where
  "ntohl \<equiv> htonl"

definition TALER_amount_hton ::
    "(u64 \<Rightarrow> u64) \<Rightarrow> TALER_Amount \<Rightarrow> TALER_AmountNBO option" where
  "TALER_amount_hton GNUNET_htonll d = do {
     GNUNET_assert (TALER_amount_is_valid d);
     Some \<lparr>nbo_value = GNUNET_htonll (amt_value d), nbo_fraction = htonl (amt_fraction d),
           nbo_currency = amt_currency d\<rparr>
   }"

definition TALER_amount_ntoh ::
    "(u64 \<Rightarrow> u64) \<Rightarrow> TALER_AmountNBO \<Rightarrow> TALER_Amount option" where
  "TALER_amount_ntoh GNUNET_ntohll dn = do {
     let res = \<lparr>amt_value = GNUNET_ntohll (nbo_value dn), amt_fraction = ntohl (nbo_fraction dn),
                amt_currency = nbo_currency dn\<rparr>;
     GNUNET_assert (TALER_amount_is_valid res);
     Some res
   }"

definition test_valid_nbo :: "TALER_AmountNBO \<Rightarrow> bool" where
  "test_valid_nbo a \<longleftrightarrow> nbo_currency a \<noteq> [] \<and> hd (nbo_currency a) \<noteq> NUL"

definition TALER_amount_cmp_currency_nbo :: "TALER_AmountNBO \<Rightarrow> TALER_AmountNBO \<Rightarrow> int" where
  "TALER_amount_cmp_currency_nbo a1 a2 =
     (if \<not> test_valid_nbo a1 \<or> \<not> test_valid_nbo a2 then GNUNET_SYSERR
      else if strcasecmp_eq (nbo_currency a1) (nbo_currency a2) then GNUNET_YES
      else GNUNET_NO)"

section \<open>What an amount stands for\<close>

text \<open>\<open>amt a\<close> is the amount in units of the fraction; \<open>AMT_LIMIT\<close> is the first number of
  units that is too large to be legal (\<^verbatim>\<open>MAX_AMOUNT_VALUE\<close> and the largest fraction are
  still legal).\<close>

definition amount_units :: "TALER_Amount \<Rightarrow> nat" where
  "amount_units a = unat (amt_value a) * 100000000 + unat (amt_fraction a)"

definition amt :: "TALER_Amount \<Rightarrow> int" where
  "amt a = int (amount_units a)"

definition AMT_LIMIT :: int where
  "AMT_LIMIT = (2 ^ 52 + 1) * 100000000"

text \<open>An amount with a non-empty, terminated currency; one that is moreover normalized and
  within the legal range; and one of the latter in a given currency.\<close>

definition amount_wf :: "TALER_Amount \<Rightarrow> bool" where
  "amount_wf a \<longleftrightarrow> TALER_amount_is_valid a \<and> strlen (amt_currency a) < TALER_CURRENCY_LEN"

definition amount_normal :: "TALER_Amount \<Rightarrow> bool" where
  "amount_normal a \<longleftrightarrow> unat (amt_fraction a) < 100000000 \<and> amt a < AMT_LIMIT"

definition amount_in :: "string \<Rightarrow> TALER_Amount \<Rightarrow> bool" where
  "amount_in c a \<longleftrightarrow> amount_wf a \<and> amount_normal a \<and> strcasecmp_eq c (amt_currency a)"

lemma amt_nonneg [simp]: "0 \<le> amt a"
  by (simp add: amt_def)

lemma amt_diff_less: "amt a < l \<Longrightarrow> amt a - amt b < l"
  using amt_nonneg [of b] by linarith

lemma amt_eq_0_iff: "amt a = 0 \<longleftrightarrow> amt_value a = 0 \<and> amt_fraction a = 0"
  unfolding amt_def of_nat_eq_0_iff amount_units_def by (auto simp: unat_eq_zero)

lemma amt_less_LIMIT: "amt a < AMT_LIMIT \<longleftrightarrow> amount_units a < 450359962737049700000000"
  by (simp add: amt_def AMT_LIMIT_def)

lemma unat_MAX_AMOUNT_VALUE [simp]: "unat MAX_AMOUNT_VALUE = 4503599627370496"
  by (simp add: MAX_AMOUNT_VALUE_def push_bit_eq_mult)

lemma unat_FRAC_BASE_u32 [simp]: "unat (of_nat TALER_AMOUNT_FRAC_BASE :: u32) = 100000000"
  by (simp add: TALER_AMOUNT_FRAC_BASE_def)

lemma unat_FRAC_BASE_u64 [simp]: "unat (of_nat TALER_AMOUNT_FRAC_BASE :: u64) = 100000000"
  by (simp add: TALER_AMOUNT_FRAC_BASE_def)

lemma amt_less_LIMIT_iff:
  "unat (amt_fraction a) < 100000000 \<Longrightarrow>
     amt a < AMT_LIMIT \<longleftrightarrow> unat (amt_value a) \<le> 4503599627370496"
  unfolding amt_less_LIMIT amount_units_def by linarith

lemma amount_in_wf [dest]: "amount_in c a \<Longrightarrow> amount_wf a"
  by (simp add: amount_in_def)

lemma amount_in_normal [dest]: "amount_in c a \<Longrightarrow> amount_normal a"
  by (simp add: amount_in_def)

lemma amount_wf_valid [dest]: "amount_wf a \<Longrightarrow> TALER_amount_is_valid a"
  by (simp add: amount_wf_def)

lemma not_valid_invalidate [simp]: "\<not> TALER_amount_is_valid invalidate"
  by (simp add: TALER_amount_is_valid_def invalidate_def TALER_CURRENCY_LEN_def numeral_eq_Suc)

lemma cmp_currency_YES_iff [amount_simps]:
  "TALER_amount_cmp_currency a b = GNUNET_YES \<longleftrightarrow>
     TALER_amount_is_valid a \<and> TALER_amount_is_valid b
     \<and> strcasecmp_eq (amt_currency a) (amt_currency b)"
  by (auto simp: TALER_amount_cmp_currency_def)

lemma amount_in_cmp_currency [simp]:
  "amount_in c a \<Longrightarrow> amount_in c b \<Longrightarrow> TALER_amount_cmp_currency a b = GNUNET_YES"
  by (auto simp: amount_in_def amount_wf_def cmp_currency_YES_iff
      dest: strcasecmp_eq_sym intro: strcasecmp_eq_trans)

text \<open>An amount written down by its currency, value and fraction.\<close>

definition mk_amount :: "string \<Rightarrow> u64 \<Rightarrow> u32 \<Rightarrow> TALER_Amount" where
  "mk_amount c v f = \<lparr>amt_value = v, amt_fraction = f,
                      amt_currency = cstr c @ replicate (TALER_CURRENCY_LEN - strlen c) NUL\<rparr>"

lemma mk_amount_sels [simp]:
  "amt_value (mk_amount c v f) = v" "amt_fraction (mk_amount c v f) = f"
  by (simp_all add: mk_amount_def)

lemma amt_mk_amount [simp]: "amt (mk_amount c v f) = uint v * 100000000 + uint f"
  by (simp add: amt_def amount_units_def)

subsection \<open>Normalization\<close>

lemma normalize_small [amount_simps]:
  "TALER_amount_is_valid a \<Longrightarrow> unat (amt_fraction a) < 100000000 \<Longrightarrow>
     TALER_amount_normalize a = (GNUNET_NO, a)"
  by (simp add: TALER_amount_normalize_def word_less_nat_alt)

lemma normalize_carry:
  assumes "TALER_amount_is_valid a" and "100000000 \<le> unat (amt_fraction a)"
  shows "TALER_amount_normalize a =
     (if amt a < AMT_LIMIT
      then (GNUNET_OK, a\<lparr>amt_fraction := amt_fraction a mod of_nat TALER_AMOUNT_FRAC_BASE,
                         amt_value := amt_value a
                           + ucast (amt_fraction a div of_nat TALER_AMOUNT_FRAC_BASE)\<rparr>)
      else (GNUNET_SYSERR, invalidate))"
proof -
  let ?ov = "ucast (amt_fraction a div of_nat TALER_AMOUNT_FRAC_BASE) :: u64"
  have ov: "unat ?ov = unat (amt_fraction a) div 100000000"
    by (simp add: unat_div)
  have sum: "unat (amt_value a + ?ov) = (unat (amt_value a) + unat ?ov) mod 18446744073709551616"
    by (simp add: unat_word_ariths)
  have small: "unat ?ov < 43"
    unfolding ov using unat_u32_less [of "amt_fraction a"] by linarith
  have lim: "amt a < AMT_LIMIT \<longleftrightarrow> unat (amt_value a) + unat ?ov \<le> 4503599627370496"
    unfolding amt_less_LIMIT amount_units_def ov by linarith
  have guard: "(amt_value a + ?ov < ?ov \<or> amt_value a + ?ov > MAX_AMOUNT_VALUE)
      \<longleftrightarrow> \<not> amt a < AMT_LIMIT"
  proof (cases "unat (amt_value a) + unat ?ov < 18446744073709551616")
    case True
    then show ?thesis by (simp add: word_less_nat_alt sum lim not_le)
  next
    case False
    then have "unat (amt_value a + ?ov) < unat ?ov"
      unfolding sum using unat_u64_less [of "amt_value a"] small by (simp add: mod_if) linarith
    with False show ?thesis by (simp add: word_less_nat_alt lim)
  qed
  show ?thesis
    using assms guard by (auto simp: TALER_amount_normalize_def word_less_nat_alt Let_def)
qed

lemma normalize_spec:
  assumes "TALER_amount_is_valid a" and "amt a < AMT_LIMIT"
  obtains r n where "TALER_amount_normalize a = (r, n)" and "r \<noteq> GNUNET_SYSERR"
    and "amt n = amt a" and "amount_normal n" and "amt_currency n = amt_currency a"
proof (cases "unat (amt_fraction a) < 100000000")
  case True
  with assms show ?thesis
    by (intro that [of GNUNET_NO a]) (auto simp: normalize_small amount_normal_def)
next
  case False
  let ?ov = "ucast (amt_fraction a div of_nat TALER_AMOUNT_FRAC_BASE) :: u64"
  let ?n = "a\<lparr>amt_fraction := amt_fraction a mod of_nat TALER_AMOUNT_FRAC_BASE,
              amt_value := amt_value a + ?ov\<rparr>"
  have ov: "unat ?ov = unat (amt_fraction a) div 100000000"
    by (simp add: unat_div)
  have "unat (amt_value a) + unat ?ov \<le> 4503599627370496"
    using assms(2) unfolding amt_less_LIMIT amount_units_def ov by linarith
  then have "unat (amt_value a) + unat ?ov < 18446744073709551616"
    by linarith
  from unat_add_u64 [OF this]
  have v: "unat (amt_value a + ?ov) = unat (amt_value a) + unat (amt_fraction a) div 100000000"
    by (simp only: ov)
  have amt_n: "amt ?n = amt a"
    by (simp add: amt_def amount_units_def v unat_mod)
  show ?thesis
  proof (rule that [of GNUNET_OK ?n])
    show "TALER_amount_normalize a = (GNUNET_OK, ?n)"
      using normalize_carry [OF assms(1)] False assms(2) by simp
    show "amount_normal ?n"
      unfolding amount_normal_def amt_n using assms(2) by (simp add: unat_mod)
  qed (use amt_n in auto)
qed

lemma normalize_fails:
  assumes "TALER_amount_is_valid a" and "\<not> amt a < AMT_LIMIT"
  shows "TALER_amount_normalize a =
     (if unat (amt_fraction a) < 100000000 then (GNUNET_NO, a) else (GNUNET_SYSERR, invalidate))"
  using assms by (simp add: normalize_small normalize_carry)

subsection \<open>Comparison, addition, subtraction\<close>

text \<open>The currency array of a result is the zero-padded currency of the first operand.\<close>

definition pad_currency :: "string \<Rightarrow> string" where
  "pad_currency c = cstr c @ replicate (TALER_CURRENCY_LEN - strlen c) NUL"

lemma get_zero_terminated [amount_simps]:
  "strlen c < TALER_CURRENCY_LEN \<Longrightarrow>
     TALER_amount_get_zero c a =
       (GNUNET_OK, \<lparr>amt_value = 0, amt_fraction = 0, amt_currency = pad_currency c\<rparr>)"
  by (simp add: TALER_amount_get_zero_def Let_def pad_currency_def)

lemma cstr_pad_currency [simp]: "cstr (pad_currency c) = cstr c"
  by (simp add: cstr_pad pad_currency_def)

lemma strlen_pad_currency [simp]: "strlen (pad_currency c) = strlen c"
  by (simp add: strlen_def)

lemma strcasecmp_eq_pad [simp]: "strcasecmp_eq a (pad_currency b) = strcasecmp_eq a b"
  by (simp add: strcasecmp_eq_def)

lemma valid_iff_cstr: "TALER_amount_is_valid a \<longleftrightarrow> cstr (amt_currency a) \<noteq> []"
  by (cases "amt_currency a") (auto simp: TALER_amount_is_valid_def cstr_def)

lemma amount_wf_iff:
  "amount_wf a \<longleftrightarrow> cstr (amt_currency a) \<noteq> [] \<and> length (cstr (amt_currency a)) < TALER_CURRENCY_LEN"
  by (simp add: amount_wf_def valid_iff_cstr strlen_def)

lemma amount_wf_cong:
  "cstr (amt_currency a) = cstr (amt_currency b) \<Longrightarrow> amount_wf b \<Longrightarrow> amount_wf a"
  by (simp add: amount_wf_iff)

lemma amount_normalD: "amount_normal a \<Longrightarrow> unat (amt_fraction a) < 100000000"
  by (simp add: amount_normal_def)

lemma amount_normal_value: "amount_normal a \<Longrightarrow> unat (amt_value a) \<le> 4503599627370496"
  by (auto simp: amount_normal_def amt_less_LIMIT_iff)

lemma amount_units_div_mod:
  assumes "unat (amt_fraction a) < 100000000"
  shows "unat (amt_value a) = amount_units a div 100000000"
    and "unat (amt_fraction a) = amount_units a mod 100000000"
  using assms by (simp_all add: amount_units_def)

lemma amt_eq_iff:
  assumes "unat (amt_fraction a) < 100000000" and "unat (amt_fraction b) < 100000000"
  shows "amt a = amt b \<longleftrightarrow> amt_value a = amt_value b \<and> amt_fraction a = amt_fraction b"
  unfolding word_unat_eq_iff amount_units_div_mod [OF assms(1)] amount_units_div_mod [OF assms(2)]
    amt_def of_nat_eq_iff by (metis div_mult_mod_eq)

lemma amt_less_iff:
  assumes "unat (amt_fraction a) < 100000000" and "unat (amt_fraction b) < 100000000"
  shows "amt a < amt b \<longleftrightarrow>
     amt_value a < amt_value b \<or> amt_value a = amt_value b \<and> amt_fraction a < amt_fraction b"
  using assms unfolding amt_def amount_units_def of_nat_less_iff word_less_nat_alt
    word_unat_eq_iff by linarith

lemma cmp_normal:
  assumes "TALER_amount_cmp_currency a b = GNUNET_YES"
    and "unat (amt_fraction a) < 100000000" and "unat (amt_fraction b) < 100000000"
  shows "TALER_amount_cmp a b = Some (sgn (amt a - amt b))"
proof -
  have val: "TALER_amount_is_valid a" "TALER_amount_is_valid b"
    using assms(1) by (simp_all add: cmp_currency_YES_iff)
  have cmp: "TALER_amount_cmp a b =
      Some (if amt_value a = amt_value b
            then (if amt_fraction a < amt_fraction b then - 1
                  else if amt_fraction a > amt_fraction b then 1 else 0)
            else if amt_value a < amt_value b then - 1 else 1)"
    unfolding TALER_amount_cmp_def normalize_small [OF val(1) assms(2)]
      normalize_small [OF val(2) assms(3)] using assms(1) by simp
  consider "amt a < amt b" | "amt a = amt b" | "amt b < amt a" by linarith
  then show ?thesis
  proof cases
    case 1
    then show ?thesis using amt_less_iff [OF assms(2,3)] unfolding cmp by auto
  next
    case 2
    then show ?thesis using amt_eq_iff [OF assms(2,3)] unfolding cmp by auto
  next
    case 3
    then show ?thesis using amt_less_iff [OF assms(3,2)] unfolding cmp by auto
  qed
qed

lemma cmp_in [simp, amount_simps]:
  "amount_in c a \<Longrightarrow> amount_in c b \<Longrightarrow> TALER_amount_cmp a b = Some (sgn (amt a - amt b))"
  by (rule cmp_normal) (auto dest: amount_normalD)

text \<open>Addition of two normalized amounts, then of arbitrary ones.\<close>

lemma add_normal:
  assumes cur: "TALER_amount_cmp_currency a b = GNUNET_YES" and "amount_wf a"
    and na: "unat (amt_fraction a) < 100000000" and nb: "unat (amt_fraction b) < 100000000"
    and lim: "amt a + amt b < AMT_LIMIT"
  obtains s where "TALER_amount_add a b = Some (if amt a + amt b = 0 then 0 else 1, s)"
    and "amount_wf s" and "amount_normal s" and "amt s = amt a + amt b"
    and "cstr (amt_currency s) = cstr (amt_currency a)"
proof -
  have units: "amount_units a + amount_units b < 450359962737049700000000"
    using lim by (simp add: amt_def AMT_LIMIT_def)
  then have vv: "unat (amt_value a) + unat (amt_value b) \<le> 4503599627370496"
    unfolding amount_units_def by linarith
  have ff: "unat (amt_fraction a) + unat (amt_fraction b) < 4294967296"
    using na nb by linarith
  let ?m = "\<lparr>amt_value = amt_value a + amt_value b, amt_fraction = amt_fraction a + amt_fraction b,
             amt_currency = pad_currency (amt_currency a)\<rparr>"
  have v: "unat (amt_value a + amt_value b) = unat (amt_value a) + unat (amt_value b)"
    using vv by (intro unat_add_u64) linarith
  have amt_m: "amt ?m = amt a + amt b"
    by (simp add: amt_def amount_units_def v unat_add_u32 [OF ff])
  have wf_m: "amount_wf ?m" using \<open>amount_wf a\<close> by (auto intro: amount_wf_cong)
  then have "TALER_amount_is_valid ?m" and "amt ?m < AMT_LIMIT"
    using lim amt_m by auto
  then obtain r n where n: "TALER_amount_normalize ?m = (r, n)" "r \<noteq> GNUNET_SYSERR"
    "amt n = amt ?m" "amount_normal n" "amt_currency n = amt_currency ?m"
    by (rule normalize_spec)
  have guard: "\<not> amt_value a + amt_value b < amt_value a"
      "\<not> MAX_AMOUNT_VALUE < amt_value a + amt_value b"
    using vv by (simp_all add: word_less_nat_alt v)
  have "TALER_amount_add a b = Some (if amt_fraction n = 0 \<and> amt_value n = 0 then 0 else 1, n)"
    using cur na nb n(1,2) guard \<open>amount_wf a\<close>
    by (simp add: TALER_amount_add_def cmp_currency_YES_iff normalize_small amount_wf_def
        get_zero_terminated)
  then show ?thesis
    using n(3-5) amt_m \<open>amount_wf a\<close> amt_eq_0_iff [of n]
    by (intro that [of n]) (auto intro: amount_wf_cong)
qed

lemma add_normal_overflow:
  assumes cur: "TALER_amount_cmp_currency a b = GNUNET_YES" and "amount_wf a"
    and na: "unat (amt_fraction a) < 100000000" and nb: "unat (amt_fraction b) < 100000000"
    and lim: "AMT_LIMIT \<le> amt a + amt b"
  shows "TALER_amount_add a b = Some (TALER_AAR_INVALID_RESULT_OVERFLOW, invalidate)"
proof -
  let ?m = "\<lparr>amt_value = amt_value a + amt_value b, amt_fraction = amt_fraction a + amt_fraction b,
             amt_currency = pad_currency (amt_currency a)\<rparr>"
  have units: "450359962737049700000000 \<le> amount_units a + amount_units b"
    using lim by (simp add: amt_def AMT_LIMIT_def)
  have add: "TALER_amount_add a b =
      (if amt_value a + amt_value b < amt_value a \<or> MAX_AMOUNT_VALUE < amt_value a + amt_value b
       then Some (TALER_AAR_INVALID_RESULT_OVERFLOW, invalidate)
       else let (r, res) = TALER_amount_normalize ?m
            in if r = GNUNET_SYSERR then Some (TALER_AAR_INVALID_RESULT_OVERFLOW, invalidate)
               else Some (if amt_fraction res = 0 \<and> amt_value res = 0 then 0 else 1, res))"
    using cur na nb \<open>amount_wf a\<close>
    by (simp add: TALER_amount_add_def cmp_currency_YES_iff normalize_small amount_wf_def
        get_zero_terminated Let_def)
  consider (wrap) "18446744073709551616 \<le> unat (amt_value a) + unat (amt_value b)"
    | (no_wrap) "unat (amt_value a) + unat (amt_value b) < 18446744073709551616" by linarith
  then show ?thesis
  proof cases
    case wrap
    then have "unat (amt_value a + amt_value b) < unat (amt_value a)"
      using unat_u64_less [of "amt_value a"] unat_u64_less [of "amt_value b"]
      by (simp add: unat_word_ariths mod_if) linarith
    then show ?thesis unfolding add by (simp add: word_less_nat_alt)
  next
    case no_wrap
    note v = unat_add_u64 [OF no_wrap]
    show ?thesis
    proof (cases "MAX_AMOUNT_VALUE < amt_value a + amt_value b")
      case True
      then show ?thesis unfolding add by simp
    next
      case False
      have ff: "unat (amt_fraction a) + unat (amt_fraction b) < 4294967296"
        using na nb by linarith
      have "amount_units ?m = amount_units a + amount_units b"
        by (simp add: amount_units_def v unat_add_u32 [OF ff])
      then have lim_m: "\<not> amt ?m < AMT_LIMIT"
        using units unfolding amt_less_LIMIT by linarith
      have "unat (amt_value a) + unat (amt_value b) \<le> 4503599627370496"
        using False by (simp add: word_less_nat_alt v)
      then have "100000000 \<le> unat (amt_fraction ?m)"
        using units unfolding amount_units_def by (simp add: unat_add_u32 [OF ff])
      moreover have "TALER_amount_is_valid ?m"
        using \<open>amount_wf a\<close> by (simp add: valid_iff_cstr amount_wf_iff)
      ultimately have "TALER_amount_normalize ?m = (GNUNET_SYSERR, invalidate)"
        using lim_m by (simp add: normalize_fails)
      then show ?thesis unfolding add by simp
    qed
  qed
qed

text \<open>The operations only look at the normalized operands.\<close>

lemma add_normalize:
  assumes "TALER_amount_cmp_currency a b = GNUNET_YES"
    and "TALER_amount_normalize a = (r, n)" and "r \<noteq> GNUNET_SYSERR"
    and "TALER_amount_normalize b = (r', m)" and "r' \<noteq> GNUNET_SYSERR"
    and "amt_currency n = amt_currency a" and "amt_currency m = amt_currency b"
    and "unat (amt_fraction n) < 100000000" and "unat (amt_fraction m) < 100000000"
  shows "TALER_amount_add a b = TALER_amount_add n m"
proof -
  have "TALER_amount_is_valid n" "TALER_amount_is_valid m"
    "TALER_amount_cmp_currency n m = GNUNET_YES"
    using assms by (simp_all add: cmp_currency_YES_iff valid_iff_cstr)
  with assms show ?thesis
    by (simp add: TALER_amount_add_def normalize_small)
qed

lemma subtract_normalize:
  assumes "TALER_amount_cmp_currency a b = GNUNET_YES"
    and "TALER_amount_normalize a = (r, n)" and "r \<noteq> GNUNET_SYSERR"
    and "TALER_amount_normalize b = (r', m)" and "r' \<noteq> GNUNET_SYSERR"
    and "amt_currency n = amt_currency a" and "amt_currency m = amt_currency b"
    and "unat (amt_fraction n) < 100000000" and "unat (amt_fraction m) < 100000000"
  shows "TALER_amount_subtract d a b = TALER_amount_subtract d n m"
proof -
  have "TALER_amount_is_valid n" "TALER_amount_is_valid m"
    "TALER_amount_cmp_currency n m = GNUNET_YES"
    using assms by (simp_all add: cmp_currency_YES_iff valid_iff_cstr)
  with assms show ?thesis
    by (simp add: TALER_amount_subtract_def normalize_small)
qed

lemma subtract_operands:
  assumes cur: "TALER_amount_cmp_currency a b = GNUNET_YES" and "amount_wf a"
    and na: "unat (amt_fraction a) < 100000000" and nb: "unat (amt_fraction b) < 100000000"
    and units: "amount_units b \<le> amount_units a"
  obtains v f where "unat v * 100000000 + unat f = amount_units a"
    and "amt_value b \<le> v" and "amt_fraction b \<le> f"
    and "unat f < unat (amt_fraction b) + 100000000"
    and "TALER_amount_subtract d a b =
      Some (if f - amt_fraction b = 0 \<and> v - amt_value b = 0 then 0 else 1,
            \<lparr>amt_value = v - amt_value b, amt_fraction = f - amt_fraction b,
             amt_currency = pad_currency (amt_currency a)\<rparr>)"
proof (cases "amt_fraction a < amt_fraction b")
  case True
  let ?v = "amt_value a - 1" and ?f = "amt_fraction a + of_nat TALER_AMOUNT_FRAC_BASE"
  have frac: "unat (amt_fraction a) < unat (amt_fraction b)"
    using True by (simp add: word_less_nat_alt)
  have f: "unat ?f = unat (amt_fraction a) + 100000000"
    using na by (simp add: unat_add_u32)
  have pos: "unat (amt_value b) < unat (amt_value a)"
    using units na nb frac unfolding amount_units_def by linarith
  have "amt_value a \<noteq> 0"
    using pos by auto
  then have v: "unat ?v = unat (amt_value a) - 1"
    by (rule unat_minus_one)
  have vle: "amt_value b \<le> ?v"
    unfolding word_le_nat_alt v using pos by linarith
  have fle: "amt_fraction b \<le> ?f"
    unfolding word_le_nat_alt f using nb by linarith
  have vnlt: "\<not> ?v < amt_value b"
    using vle by simp
  show ?thesis
  proof (rule that [of ?v ?f])
    show "unat ?v * 100000000 + unat ?f = amount_units a"
      unfolding v f amount_units_def using pos by (cases "unat (amt_value a)") simp_all
    show "unat ?f < unat (amt_fraction b) + 100000000"
      unfolding f using frac by linarith
    show "TALER_amount_subtract d a b =
      Some (if ?f - amt_fraction b = 0 \<and> ?v - amt_value b = 0 then 0 else 1,
            \<lparr>amt_value = ?v - amt_value b, amt_fraction = ?f - amt_fraction b,
             amt_currency = pad_currency (amt_currency a)\<rparr>)"
      using cur na nb \<open>amount_wf a\<close> vle fle True \<open>amt_value a \<noteq> 0\<close> vnlt
      by (simp add: TALER_amount_subtract_def cmp_currency_YES_iff normalize_small amount_wf_def
          get_zero_terminated Let_def)
  qed (use vle fle in auto)
next
  case False
  have vle: "amt_value b \<le> amt_value a"
    using units na nb unfolding word_le_nat_alt amount_units_def by linarith
  show ?thesis
  proof (rule that [of "amt_value a" "amt_fraction a"])
    show "TALER_amount_subtract d a b =
      Some (if amt_fraction a - amt_fraction b = 0 \<and> amt_value a - amt_value b = 0 then 0 else 1,
            \<lparr>amt_value = amt_value a - amt_value b, amt_fraction = amt_fraction a - amt_fraction b,
             amt_currency = pad_currency (amt_currency a)\<rparr>)"
      using cur na nb \<open>amount_wf a\<close> vle False
      by (simp add: TALER_amount_subtract_def cmp_currency_YES_iff normalize_small amount_wf_def
          get_zero_terminated Let_def not_less)
  qed (use vle False na in \<open>auto simp: amount_units_def not_less\<close>)
qed

lemma subtract_normal:
  assumes "TALER_amount_cmp_currency a b = GNUNET_YES" and "amount_wf a"
    and "unat (amt_fraction a) < 100000000" and nb: "unat (amt_fraction b) < 100000000"
    and le: "amt b \<le> amt a"
  obtains s where "TALER_amount_subtract d a b = Some (if amt a = amt b then 0 else 1, s)"
    and "amount_wf s" and "unat (amt_fraction s) < 100000000" and "amt s = amt a - amt b"
    and "cstr (amt_currency s) = cstr (amt_currency a)"
proof -
  have "amount_units b \<le> amount_units a"
    using le by (simp add: amt_def)
  with assms(1-4) obtain v f where vf: "unat v * 100000000 + unat f = amount_units a"
      "amt_value b \<le> v" "amt_fraction b \<le> f" "unat f < unat (amt_fraction b) + 100000000"
    and sub: "TALER_amount_subtract d a b =
      Some (if f - amt_fraction b = 0 \<and> v - amt_value b = 0 then 0 else 1,
            \<lparr>amt_value = v - amt_value b, amt_fraction = f - amt_fraction b,
             amt_currency = pad_currency (amt_currency a)\<rparr>)"
    by (rule subtract_operands)
  let ?s = "\<lparr>amt_value = v - amt_value b, amt_fraction = f - amt_fraction b,
             amt_currency = pad_currency (amt_currency a)\<rparr>"
  have v: "unat (v - amt_value b) = unat v - unat (amt_value b)" "unat (amt_value b) \<le> unat v"
    using vf(2) by (simp_all add: unat_sub word_le_nat_alt)
  have f: "unat (f - amt_fraction b) = unat f - unat (amt_fraction b)"
      "unat (amt_fraction b) \<le> unat f"
    using vf(3) by (simp_all add: unat_sub word_le_nat_alt)
  have "amount_units ?s + amount_units b = amount_units a"
    using v f vf(1) by (simp add: amount_units_def [of ?s] amount_units_def [of b])
  then have amt_s: "amt ?s = amt a - amt b"
    unfolding amt_def by linarith
  have "unat (amt_fraction ?s) < 100000000"
    using vf(4) f by simp
  then show ?thesis
    using sub amt_s \<open>amount_wf a\<close> amt_eq_0_iff [of ?s]
    by (intro that [of ?s]) (auto intro: amount_wf_cong)
qed

lemma subtract_normal_negative:
  assumes "TALER_amount_cmp_currency a b = GNUNET_YES"
    and "unat (amt_fraction a) < 100000000" and "unat (amt_fraction b) < 100000000"
    and "amt a < amt b"
  shows "TALER_amount_subtract d a b = Some (TALER_AAR_INVALID_NEGATIVE_RESULT, invalidate)"
proof -
  have lt: "amt_value a < amt_value b \<or> amt_value a = amt_value b \<and> amt_fraction a < amt_fraction b"
    using assms(4) amt_less_iff [OF assms(2,3)] by simp
  have "amt_value a \<noteq> 0 \<Longrightarrow> amt_value a - 1 < amt_value a"
    by (simp add: word_less_nat_alt unat_minus_one unat_gt_0)
  then have "amt_fraction a < amt_fraction b \<Longrightarrow> amt_value a \<noteq> 0 \<Longrightarrow> amt_value a - 1 < amt_value b"
    using lt by (auto dest: less_trans)
  with lt assms show ?thesis
    by (auto simp: TALER_amount_subtract_def cmp_currency_YES_iff normalize_small Let_def)
qed

lemma normalized_operands:
  assumes cur: "TALER_amount_cmp_currency a b = GNUNET_YES" and "amount_wf a"
    and "amt a < AMT_LIMIT" and "amt b < AMT_LIMIT"
  obtains n m where "TALER_amount_add a b = TALER_amount_add n m"
    and "\<And>d. TALER_amount_subtract d a b = TALER_amount_subtract d n m"
    and "TALER_amount_cmp a b = TALER_amount_cmp n m"
    and "TALER_amount_cmp_currency n m = GNUNET_YES" and "amt n = amt a" and "amt m = amt b"
    and "unat (amt_fraction n) < 100000000" and "unat (amt_fraction m) < 100000000"
    and "amount_wf n" and "cstr (amt_currency n) = cstr (amt_currency a)"
proof -
  have val: "TALER_amount_is_valid a" "TALER_amount_is_valid b"
    using cur by (simp_all add: cmp_currency_YES_iff)
  obtain r n where n: "TALER_amount_normalize a = (r, n)" "r \<noteq> GNUNET_SYSERR" "amt n = amt a"
    "amount_normal n" "amt_currency n = amt_currency a"
    using normalize_spec [OF val(1) assms(3)] .
  obtain r' m where m: "TALER_amount_normalize b = (r', m)" "r' \<noteq> GNUNET_SYSERR" "amt m = amt b"
    "amount_normal m" "amt_currency m = amt_currency b"
    using normalize_spec [OF val(2) assms(4)] .
  note fr = amount_normalD [OF n(4)] amount_normalD [OF m(4)]
  have val': "TALER_amount_is_valid n" "TALER_amount_is_valid m"
    using val n(5) m(5) by (simp_all add: valid_iff_cstr)
  have cur': "TALER_amount_cmp_currency n m = GNUNET_YES"
    using cur n(5) m(5) val' by (simp add: cmp_currency_YES_iff)
  have "TALER_amount_cmp a b = TALER_amount_cmp n m"
    using cur cur' n(1,2) m(1,2) fr val' by (simp add: TALER_amount_cmp_def normalize_small)
  moreover have "amount_wf n"
    using \<open>amount_wf a\<close> n(5) by (auto intro: amount_wf_cong)
  ultimately show ?thesis
    using that add_normalize [OF cur n(1,2) m(1,2) n(5) m(5) fr]
      subtract_normalize [OF cur n(1,2) m(1,2) n(5) m(5) fr] cur' n m fr by metis
qed

lemma amount_in_cong:
  "amount_in c a \<Longrightarrow> cstr (amt_currency s) = cstr (amt_currency a) \<Longrightarrow> amount_normal s \<Longrightarrow>
     amount_in c s"
  by (auto simp: amount_in_def strcasecmp_eq_def amount_wf_iff)

text \<open>The operations on amounts of one currency, as the rest of the program uses them.\<close>

lemma add_in:
  assumes "amount_in c a" and "amount_in c b" and "amt a + amt b < AMT_LIMIT"
  obtains s where "TALER_amount_add a b = Some (if amt a + amt b = 0 then 0 else 1, s)"
    and "amount_in c s" and "amt s = amt a + amt b"
proof -
  from assms(1,2) have "TALER_amount_cmp_currency a b = GNUNET_YES" "amount_wf a"
    "unat (amt_fraction a) < 100000000" "unat (amt_fraction b) < 100000000"
    by (auto dest: amount_normalD)
  from this assms(3) obtain s where "TALER_amount_add a b = Some (if amt a + amt b = 0 then 0 else 1, s)"
    "amount_normal s" "amt s = amt a + amt b" "cstr (amt_currency s) = cstr (amt_currency a)"
    by (rule add_normal)
  then show ?thesis
    using that amount_in_cong [OF assms(1)] by simp
qed

lemma add_in_overflow [simp]:
  assumes "amount_in c a" and "amount_in c b" and "AMT_LIMIT \<le> amt a + amt b"
  shows "TALER_amount_add a b = Some (TALER_AAR_INVALID_RESULT_OVERFLOW, invalidate)"
  using assms by (intro add_normal_overflow) (auto dest: amount_normalD)

lemma subtract_in:
  assumes a: "amount_in c a" and b: "amount_in c b" and le: "amt b \<le> amt a"
  obtains s where "TALER_amount_subtract d a b = Some (if amt a = amt b then 0 else 1, s)"
    and "amount_in c s" and "amt s = amt a - amt b"
proof -
  from a b have "TALER_amount_cmp_currency a b = GNUNET_YES" "amount_wf a"
    "unat (amt_fraction a) < 100000000" "unat (amt_fraction b) < 100000000"
    by (auto dest: amount_normalD)
  from this le obtain s where s: "TALER_amount_subtract d a b = Some (if amt a = amt b then 0 else 1, s)"
    "unat (amt_fraction s) < 100000000" "amt s = amt a - amt b"
    "cstr (amt_currency s) = cstr (amt_currency a)"
    by (rule subtract_normal)
  moreover have "amt s < AMT_LIMIT"
    using s(3) a by (auto dest!: amount_in_normal simp: amount_normal_def amt_diff_less)
  ultimately show ?thesis
    using that a by (simp add: amount_in_cong amount_normal_def)
qed

lemma subtract_in_negative [simp]:
  assumes "amount_in c a" and "amount_in c b" and "amt a < amt b"
  shows "TALER_amount_subtract d a b = Some (TALER_AAR_INVALID_NEGATIVE_RESULT, invalidate)"
  using assms by (intro subtract_normal_negative) (auto dest: amount_normalD)

lemma amount_in_limit: "amount_in c a \<Longrightarrow> amt a < AMT_LIMIT"
  by (simp add: amount_in_def amount_normal_def)

lemma amount_add_wp:
  assumes "amount_in c a" and "amount_in c b"
  shows "wp (TALER_amount_add a b) (\<lambda>r s.
     (0 > r \<longleftrightarrow> \<not> amt a + amt b < AMT_LIMIT) \<and> (r = 0 \<longleftrightarrow> amt a + amt b = 0)
     \<and> (0 \<le> r \<longrightarrow> amount_in c s \<and> amt s = amt a + amt b))"
proof (cases "amt a + amt b < AMT_LIMIT")
  case True
  with assms obtain s where "TALER_amount_add a b = Some (if amt a + amt b = 0 then 0 else 1, s)"
    "amount_in c s" "amt s = amt a + amt b"
    by (rule add_in)
  with True show ?thesis by simp
next
  case False
  moreover have "0 < AMT_LIMIT" by (simp add: AMT_LIMIT_def)
  ultimately show ?thesis using assms by simp
qed

lemma amount_subtract_wp:
  assumes "amount_in c a" and "amount_in c b"
  shows "wp (TALER_amount_subtract d a b) (\<lambda>r s.
     (0 > r \<longleftrightarrow> amt a < amt b) \<and> (r = 0 \<longleftrightarrow> amt a = amt b)
     \<and> (0 \<le> r \<longrightarrow> amount_in c s \<and> amt s = amt a - amt b))"
proof (cases "amt b \<le> amt a")
  case True
  with assms obtain s where "TALER_amount_subtract d a b = Some (if amt a = amt b then 0 else 1, s)"
    "amount_in c s" "amt s = amt a - amt b"
    by (rule subtract_in)
  with True show ?thesis by simp
next
  case False
  with assms show ?thesis by simp
qed

text \<open>What concrete amounts evaluate by.\<close>

lemmas amount_sample_simps = cmp_currency_YES_iff TALER_amount_is_valid_def amount_wf_def
  strcasecmp_eq_def strlen_def cstr_def tolower_def TALER_CURRENCY_LEN_def AMT_LIMIT_def mk_amount_def
  amt_def amount_units_def amount_normal_def char_of_def bit_0

lemma mk_amount_in_EUR:
  assumes "f < 100000000" and "v < 1000"
  shows "amount_in ''EUR'' (mk_amount ''EUR'' v f)"
proof -
  have "unat f < 100000000" "unat v < 1000"
    using assms by (simp_all add: word_less_nat_alt)
  then have "amount_normal (mk_amount ''EUR'' v f)"
    unfolding amount_normal_def using amt_less_LIMIT_iff [of "mk_amount ''EUR'' v f"] by simp
  then show ?thesis
    by (simp add: amount_in_def amount_wf_def TALER_amount_is_valid_def mk_amount_def strlen_def
        cstr_def TALER_CURRENCY_LEN_def strcasecmp_eq_def)
qed

section \<open>Properties\<close>

text \<open>C27. Addition of two amounts of the same currency, normalized or not, is exact: if the
  sum is legal the result is the normalized sum in the currency of the first operand and the
  code says whether it is zero; otherwise the code is the overflow code and the result is the
  invalid amount. No assertion of the function can fail.\<close>

theorem TALER_amount_add_exact:
  assumes cur: "TALER_amount_cmp_currency a b = GNUNET_YES" and "amount_wf a"
    and "amt a < AMT_LIMIT" and "amt b < AMT_LIMIT"
  shows "\<exists>r s. TALER_amount_add a b = Some (r, s) \<and>
     (if amt a + amt b < AMT_LIMIT
      then r = (if amt a + amt b = 0 then TALER_AAR_RESULT_ZERO else TALER_AAR_RESULT_POSITIVE)
           \<and> amt s = amt a + amt b \<and> amount_normal s
           \<and> cstr (amt_currency s) = cstr (amt_currency a)
      else r = TALER_AAR_INVALID_RESULT_OVERFLOW \<and> s = invalidate)"
proof -
  obtain n m where eq: "TALER_amount_add a b = TALER_amount_add n m"
    and nm: "TALER_amount_cmp_currency n m = GNUNET_YES" "amount_wf n"
      "unat (amt_fraction n) < 100000000" "unat (amt_fraction m) < 100000000"
      "amt n = amt a" "amt m = amt b" "cstr (amt_currency n) = cstr (amt_currency a)"
    using normalized_operands [OF assms] by metis
  show ?thesis
  proof (cases "amt a + amt b < AMT_LIMIT")
    case True
    with nm(5,6) have "amt n + amt m < AMT_LIMIT" by simp
    from nm(1-4) this obtain s where
      "TALER_amount_add n m = Some (if amt n + amt m = 0 then 0 else 1, s)"
      "amount_normal s" "amt s = amt n + amt m" "cstr (amt_currency s) = cstr (amt_currency n)"
      by (rule add_normal)
    with True nm(5-7) show ?thesis unfolding eq by auto
  next
    case False
    with nm(5,6) have "AMT_LIMIT \<le> amt n + amt m" by simp
    from add_normal_overflow [OF nm(1-4) this] False show ?thesis unfolding eq by simp
  qed
qed

theorem TALER_amount_add_exact_witness:
  "\<exists>r s. TALER_amount_add (mk_amount ''KUDOS'' 1 160000000) (mk_amount ''kudos'' 2 50000000) = Some (r, s)
     \<and> r = TALER_AAR_RESULT_POSITIVE \<and> amt s = 510000000 \<and> amount_normal s"
  using TALER_amount_add_exact [of "mk_amount ''KUDOS'' 1 160000000" "mk_amount ''kudos'' 2 50000000"]
  by (auto simp: amount_sample_simps)

text \<open>C28. Subtraction of two amounts of the same currency, normalized or not, is exact: if the
  first is at least the second the result is the normalized difference and the code says
  whether it is zero; otherwise the code is the negative-result code and the result is the
  invalid amount. No assertion of the function can fail.\<close>

theorem TALER_amount_subtract_exact:
  assumes cur: "TALER_amount_cmp_currency a b = GNUNET_YES" and "amount_wf a"
    and "amt a < AMT_LIMIT" and "amt b < AMT_LIMIT"
  shows "\<exists>r s. TALER_amount_subtract d a b = Some (r, s) \<and>
     (if amt b \<le> amt a
      then r = (if amt a = amt b then TALER_AAR_RESULT_ZERO else TALER_AAR_RESULT_POSITIVE)
           \<and> amt s = amt a - amt b \<and> amount_normal s
           \<and> cstr (amt_currency s) = cstr (amt_currency a)
      else r = TALER_AAR_INVALID_NEGATIVE_RESULT \<and> s = invalidate)"
proof -
  obtain n m where eq: "TALER_amount_subtract d a b = TALER_amount_subtract d n m"
    and nm: "TALER_amount_cmp_currency n m = GNUNET_YES" "amount_wf n"
      "unat (amt_fraction n) < 100000000" "unat (amt_fraction m) < 100000000"
      "amt n = amt a" "amt m = amt b" "cstr (amt_currency n) = cstr (amt_currency a)"
    using normalized_operands [OF assms] by metis
  show ?thesis
  proof (cases "amt b \<le> amt a")
    case True
    with nm(5,6) have "amt m \<le> amt n" by simp
    from nm(1-4) this obtain s where
      "TALER_amount_subtract d n m = Some (if amt n = amt m then 0 else 1, s)"
      "unat (amt_fraction s) < 100000000" "amt s = amt n - amt m"
      "cstr (amt_currency s) = cstr (amt_currency n)"
      by (rule subtract_normal)
    moreover from this have "amount_normal s"
      using assms(3) nm(5) by (simp add: amount_normal_def amt_diff_less)
    ultimately show ?thesis using True nm(5-7) unfolding eq by auto
  next
    case False
    with nm(5,6) have "amt n < amt m" by simp
    from subtract_normal_negative [OF nm(1,3,4) this] False show ?thesis unfolding eq by simp
  qed
qed

theorem TALER_amount_subtract_exact_witness:
  "\<exists>r s. TALER_amount_subtract invalidate (mk_amount ''KUDOS'' 3 10000000) (mk_amount ''kudos'' 1 50000000)
       = Some (r, s) \<and> r = TALER_AAR_RESULT_POSITIVE \<and> amt s = 160000000 \<and> amount_normal s"
  using TALER_amount_subtract_exact [of "mk_amount ''KUDOS'' 3 10000000"
      "mk_amount ''kudos'' 1 50000000" invalidate]
  by (auto simp: amount_sample_simps)

text \<open>Comparison of two amounts of the same currency returns the sign of their difference,
  whether or not the operands are normalized, and never aborts.\<close>

theorem TALER_amount_cmp_sgn:
  assumes "TALER_amount_cmp_currency a b = GNUNET_YES" and "amount_wf a"
    and "amt a < AMT_LIMIT" and "amt b < AMT_LIMIT"
  shows "TALER_amount_cmp a b = Some (sgn (amt a - amt b))"
proof -
  obtain n m where "TALER_amount_cmp a b = TALER_amount_cmp n m"
    and "TALER_amount_cmp_currency n m = GNUNET_YES"
    and "unat (amt_fraction n) < 100000000" "unat (amt_fraction m) < 100000000"
    and "amt n = amt a" "amt m = amt b"
    using normalized_operands [OF assms] by metis
  then show ?thesis by (simp add: cmp_normal)
qed

theorem TALER_amount_cmp_sgn_witness:
  "TALER_amount_cmp (mk_amount ''KUDOS'' 3 0) (mk_amount ''KUDOS'' 2 100000000) = Some 0"
  using TALER_amount_cmp_sgn [of "mk_amount ''KUDOS'' 3 0" "mk_amount ''KUDOS'' 2 100000000"]
  by (simp add: amount_sample_simps)

lemma div_value_fraction:
  fixes v f d :: nat
  assumes "f < 100000000" and "0 < d"
  shows "(v * 100000000 + f) div d = (v div d) * 100000000 + ((v mod d) * 100000000 + f) div d"
    and "((v mod d) * 100000000 + f) div d < 100000000"
proof -
  have "v * 100000000 + f = (v mod d + v div d * d) * 100000000 + f"
    by simp
  then have "v * 100000000 + f = (v mod d * 100000000 + f) + (v div d * 100000000) * d"
    by (simp only: algebra_simps)
  then show "(v * 100000000 + f) div d = (v div d) * 100000000 + ((v mod d) * 100000000 + f) div d"
    using \<open>0 < d\<close> by (simp only: div_mult_self1)
  have "v mod d \<le> d - 1" 
    using mod_less_divisor [OF \<open>0 < d\<close>, of v] by linarith
  then have "(v mod d) * 100000000 + f < d * 100000000"
    using assms by linarith
  then show "((v mod d) * 100000000 + f) div d < 100000000"
    by (simp add: less_mult_imp_div_less mult.commute)
qed

lemma divide_normal:
  assumes "TALER_amount_is_valid a" and na: "amount_normal a" and "d \<noteq> 0"
  obtains q where "TALER_amount_divide a d = Some q" and "amount_normal q"
    and "amt q = amt a div int (unat d)" and "amt_currency q = amt_currency a"
proof (cases "d = 1")
  case True
  with assms show ?thesis
    by (intro that [of a]) (auto simp: TALER_amount_divide_def normalize_small dest: amount_normalD)
next
  case False
  let ?v = "unat (amt_value a)" and ?f = "unat (amt_fraction a)" and ?d = "unat d"
  let ?m = "amt_value a mod ucast d * of_nat TALER_AMOUNT_FRAC_BASE + ucast (amt_fraction a) :: u64"
  let ?q = "a\<lparr>amt_value := amt_value a div ucast d, amt_fraction := ucast (?m div ucast d)\<rparr>"
  have d: "0 < ?d" "?d < 4294967296"
    using \<open>d \<noteq> 0\<close> unat_u32_less [of d] by (simp_all add: unat_gt_0)
  have f: "?f < 100000000"
    using na by (rule amount_normalD)
  note div = div_value_fraction [OF f d(1), of ?v]
  have "?v mod ?d < 4294967296"
    using d by (meson less_trans mod_less_divisor)
  then have m: "unat ?m = (?v mod ?d) * 100000000 + ?f"
    using f by (simp add: unat_word_ariths unat_mod)
  have fr: "unat (amt_fraction ?q) = ((?v mod ?d) * 100000000 + ?f) div ?d"
    using div(2) by (simp add: unsigned_ucast_eq unat_div m take_bit_nat_eq_self_iff)
  have "amount_units ?q = amount_units a div ?d"
    unfolding amount_units_def fr div(1) by (simp add: unat_div)
  then have amt_q: "amt ?q = amt a div int ?d"
    by (simp add: amt_def zdiv_int)
  have "amt a div int ?d \<le> amt a"
    unfolding amt_def zdiv_int [symmetric] of_nat_le_iff by (rule div_le_dividend)
  then have nq: "amount_normal ?q"
    using na div(2) unfolding amount_normal_def fr amt_q by linarith
  have "TALER_amount_is_valid ?q"
    using assms(1) by (simp add: TALER_amount_is_valid_def)
  then have "TALER_amount_divide a d = Some ?q"
    using assms(1) f False \<open>d \<noteq> 0\<close> amount_normalD [OF nq]
    by (simp add: TALER_amount_divide_def normalize_small Let_def)
  then show ?thesis using that nq amt_q by auto
qed

text \<open>Dividing a legal amount by a positive integer yields the quotient rounded down to
  the unit of the fraction, normalized and in the same currency, and never aborts: in
  particular the intermediate 64-bit product and the narrowing to 32 bits lose nothing.\<close>

theorem TALER_amount_divide_floor:
  assumes "TALER_amount_is_valid a" and "amt a < AMT_LIMIT" and "d \<noteq> 0"
  shows "\<exists>q. TALER_amount_divide a d = Some q \<and> amt q = amt a div int (unat d)
     \<and> amount_normal q \<and> amt_currency q = amt_currency a"
proof -
  obtain r n where n: "TALER_amount_normalize a = (r, n)" "r \<noteq> GNUNET_SYSERR" "amt n = amt a"
    "amount_normal n" "amt_currency n = amt_currency a"
    using normalize_spec [OF assms(1,2)] .
  have v: "TALER_amount_is_valid n"
    using assms(1) n(5) by (simp add: TALER_amount_is_valid_def)
  from this n(4) assms(3) obtain q where "TALER_amount_divide n d = Some q" "amount_normal q"
    "amt q = amt n div int (unat d)" "amt_currency q = amt_currency n"
    by (rule divide_normal)
  moreover have "TALER_amount_divide a d = TALER_amount_divide n d"
    using n(1,2) v amount_normalD [OF n(4)]
    by (simp add: TALER_amount_divide_def normalize_small)
  ultimately show ?thesis using n(3,5) by simp
qed

theorem TALER_amount_divide_floor_witness:
  "\<exists>q. TALER_amount_divide (mk_amount ''KUDOS'' 10 0) 3 = Some q \<and> amt q = 333333333"
  using TALER_amount_divide_floor [of "mk_amount ''KUDOS'' 10 0" 3]
  by (auto simp: amount_sample_simps)

text \<open>Rounding down with a unit that divides the fraction base, or with a unit of whole
  value, yields the largest multiple of the unit that is not above the amount. The one
  exception is a whole-value unit when the value is already a multiple of it: then the amount
  is returned unchanged, with its fraction.\<close>

theorem TALER_amount_round_down_spec:
  assumes "TALER_amount_cmp_currency a u = GNUNET_YES" and "unat (amt_fraction a) < 100000000"
    and "amt_value u = 0 \<and> unat (amt_fraction u) dvd 100000000
         \<or> amt_value u \<noteq> 0 \<and> amt_fraction u = 0"
  shows "amt (snd (TALER_amount_round_down a u)) =
     (if amt_value u \<noteq> 0 \<and> amt_value a mod amt_value u = 0 then amt a
      else amt a - amt a mod amt u)"
  using assms(3)
proof
  assume u: "amt_value u = 0 \<and> unat (amt_fraction u) dvd 100000000"
  then have ne: "amt_fraction u \<noteq> 0" by auto
  have md: "amount_units a mod amount_units u = unat (amt_fraction a mod amt_fraction u)"
  proof -
    obtain k where "100000000 = unat (amt_fraction u) * k"
      using u unfolding dvd_def by blast
    then have "amount_units a = unat (amt_fraction a) + (unat (amt_value a) * k) * unat (amt_fraction u)"
      by (simp only: amount_units_def ac_simps)
    then show ?thesis
      using u by (simp only: mod_mult_self1 unat_mod) (simp add: amount_units_def)
  qed
  have le: "unat (amt_fraction a mod amt_fraction u) \<le> unat (amt_fraction a)"
    by (simp add: unat_mod)
  then have "unat (amt_fraction a - amt_fraction a mod amt_fraction u)
      = unat (amt_fraction a) - unat (amt_fraction a mod amt_fraction u)"
    by (intro unat_sub) (simp add: word_le_nat_alt)
  with assms(1) u ne le show ?thesis
    by (simp add: TALER_amount_round_down_def Let_def amt_def md flip: zmod_int)
      (simp add: amount_units_def)
next
  assume u: "amt_value u \<noteq> 0 \<and> amt_fraction u = 0"
  let ?v = "unat (amt_value a)" and ?w = "unat (amt_value u)" and ?f = "unat (amt_fraction a)"
  have w: "0 < ?w" using u by (simp add: unat_gt_0)
  have le: "unat (amt_value a mod amt_value u) \<le> ?v"
    by (simp add: unat_mod)
  then have sub: "unat (amt_value a - amt_value a mod amt_value u) = ?v - ?v mod ?w"
    by (simp add: unat_sub word_le_nat_alt unat_mod)
  have "?v mod ?w \<le> ?w - 1"
    using mod_less_divisor [OF w, of ?v] by linarith
  then have less: "?v mod ?w * 100000000 + ?f < ?w * 100000000"
    using assms(2) w by linarith
  have "?v * 100000000 + ?f = (?v mod ?w + ?v div ?w * ?w) * 100000000 + ?f"
    by simp
  then have "?v * 100000000 + ?f = (?v mod ?w * 100000000 + ?f) + ?v div ?w * (?w * 100000000)"
    by (simp only: algebra_simps)
  then have "(?v * 100000000 + ?f) mod (?w * 100000000) = ?v mod ?w * 100000000 + ?f"
    using less by (simp only: mod_mult_self1 mod_less)
  then have md: "amount_units a mod amount_units u = ?v mod ?w * 100000000 + ?f"
    using u by (simp add: amount_units_def)
  let ?r = "a\<lparr>amt_value := amt_value a - amt_value a mod amt_value u, amt_fraction := 0\<rparr>"
  have "?v mod ?w \<le> ?v" by simp
  then have "amount_units ?r + amount_units a mod amount_units u = amount_units a"
    unfolding md by (simp add: amount_units_def sub) (use mod_less_eq_dividend [of ?v ?w] in linarith)
  then have "amt ?r = amt a - amt a mod amt u"
    unfolding amt_def zmod_int [symmetric] by linarith
  then show ?thesis
    using assms(1) u by (simp add: TALER_amount_round_down_def Let_def)
qed

theorem TALER_amount_round_down_spec_witness:
  "amt (snd (TALER_amount_round_down (mk_amount ''KUDOS'' 12 70000000) (mk_amount ''KUDOS'' 5 0)))
     = 1000000000"
  using TALER_amount_round_down_spec [of "mk_amount ''KUDOS'' 12 70000000" "mk_amount ''KUDOS'' 5 0"]
  by (simp add: amount_sample_simps)

lemma bit_u32_beyond: "32 \<le> n \<Longrightarrow> \<not> bit (x :: u32) n"
  using bit_imp_le_length [of x n] by auto

lemma bit_htonl:
  assumes "j < 8"
  shows "bit (htonl x) j = bit x (24 + j)" and "bit (htonl x) (8 + j) = bit x (16 + j)"
    and "bit (htonl x) (16 + j) = bit x (8 + j)" and "bit (htonl x) (24 + j) = bit x j"
  using assms by (simp_all add: htonl_def bit_simps bit_u32_beyond)

lemma htonl_htonl [simp]: "htonl (htonl x) = x"
proof (rule bit_word_eqI)
  fix n assume "n < LENGTH(32)"
  then obtain j where "j < 8" and "n = j \<or> n = 8 + j \<or> n = 16 + j \<or> n = 24 + j"
    by (rule_tac that [of "n mod 8"]) (simp, simp, presburger)
  then show "bit (htonl (htonl x)) n = bit x n"
    by (auto simp: bit_htonl)
qed

text \<open>An amount that is converted to network byte order and back is unchanged, provided
  GNUnet's 64-bit conversions are inverse to each other; the conversion aborts exactly on
  invalid amounts.\<close>

theorem TALER_amount_hton_ntoh:
  assumes "\<And>x. GNUNET_ntohll (GNUNET_htonll x) = x"
  shows "Option.bind (TALER_amount_hton GNUNET_htonll a) (TALER_amount_ntoh GNUNET_ntohll) =
     (if TALER_amount_is_valid a then Some a else None)"
  using assms by (simp add: TALER_amount_hton_def TALER_amount_ntoh_def TALER_amount_is_valid_def)

theorem TALER_amount_hton_ntoh_witness:
  "Option.bind (TALER_amount_hton (\<lambda>x. not x) (mk_amount ''KUDOS'' 12 7)) (TALER_amount_ntoh (\<lambda>x. not x))
     = Some (mk_amount ''KUDOS'' 12 7)"
  using TALER_amount_hton_ntoh [of "\<lambda>x. not x" "\<lambda>x. not x" "mk_amount ''KUDOS'' 12 7"]
  by (simp add: amount_sample_simps)

end
