(* ===== verification/Amount_Text.thy ===== *)
theory Amount_Text
  imports Amount
begin

text \<open>
  The text format of amounts: \<^verbatim>\<open>TALER_string_to_amount\<close>, \<^verbatim>\<open>TALER_string_to_amount_nbo\<close>,
  \<^verbatim>\<open>TALER_amount_to_string\<close> and \<^verbatim>\<open>TALER_amount2s\<close> of \<^verbatim>\<open>src/util/amount.c\<close>. A C string is the list
  of its characters; the end of the list is the terminating zero byte. The loops over the
  characters are structural recursions. The lemmas show what number a parsed string denotes
  and that printing and parsing are inverse.
\<close>

section \<open>Parsing\<close>

text \<open>\<^verbatim>\<open>isspace\<close> of the C locale\<close>

definition isspace :: "char \<Rightarrow> bool" where
  "isspace c \<longleftrightarrow> (of_char c :: nat) = 32 \<or> 9 \<le> (of_char c :: nat) \<and> (of_char c :: nat) \<le> 13"

definition isdigit :: "char \<Rightarrow> bool" where
  "isdigit c \<longleftrightarrow> 48 \<le> (of_char c :: nat) \<and> (of_char c :: nat) \<le> 57"

definition digit_val :: "char \<Rightarrow> nat" where
  "digit_val c = of_char c - 48"

text \<open>The loop that parses the value stops at the end of the string, at the dot (with the
  characters after it), or with an error.\<close>

datatype value_result = Value_End u64 | Value_Dot u64 string | Value_Error

fun parse_value :: "u64 \<Rightarrow> string \<Rightarrow> value_result" where
  "parse_value v [] = Value_End v"
| "parse_value v (c # cs) =
     (if c = CHR ''.'' then Value_Dot v cs
      else if \<not> isdigit c then Value_Error
      else let n = of_nat (digit_val c)
           in if v * 10 < v \<or> v * 10 + n < v \<or> v > MAX_AMOUNT_VALUE \<or> v * 10 + n > MAX_AMOUNT_VALUE
              then Value_Error
              else parse_value (v * 10 + n) cs)"

fun parse_fraction :: "u32 \<Rightarrow> u32 \<Rightarrow> string \<Rightarrow> u32 option" where
  "parse_fraction b f [] = Some f"
| "parse_fraction b f (c # cs) =
     (if b = 0 then None
      else if \<not> isdigit c then None
      else parse_fraction (b div 10) (f + of_nat (digit_val c) * b) cs)"

definition TALER_string_to_amount :: "string \<Rightarrow> int \<times> TALER_Amount" where
  "TALER_string_to_amount s =
     (let str = dropWhile isspace (cstr s);
          cur = takeWhile (\<lambda>c. c \<noteq> CHR '':'') str;
          val = drop (length cur + 1) str
      in if str = [] then (GNUNET_SYSERR, invalidate)
         else if CHR '':'' \<notin> set str \<or> length cur \<ge> TALER_CURRENCY_LEN
         then (GNUNET_SYSERR, invalidate)
         else let currency = cur @ replicate (TALER_CURRENCY_LEN - length cur) NUL
              in if val = [] then (GNUNET_SYSERR, invalidate)
                 else case parse_value 0 val of
                   Value_End v \<Rightarrow>
                     (GNUNET_OK, \<lparr>amt_value = v, amt_fraction = 0, amt_currency = currency\<rparr>)
                 | Value_Error \<Rightarrow> (GNUNET_SYSERR, invalidate)
                 | Value_Dot v frac \<Rightarrow>
                     (if frac = [] then (GNUNET_SYSERR, invalidate)
                      else case parse_fraction (of_nat (TALER_AMOUNT_FRAC_BASE div 10)) 0 frac of
                        None \<Rightarrow> (GNUNET_SYSERR, invalidate)
                      | Some f \<Rightarrow>
                          (GNUNET_OK, \<lparr>amt_value = v, amt_fraction = f, amt_currency = currency\<rparr>)))"

definition TALER_string_to_amount_nbo ::
    "(u64 \<Rightarrow> u64) \<Rightarrow> string \<Rightarrow> TALER_AmountNBO \<Rightarrow> (int \<times> TALER_AmountNBO) option" where
  "TALER_string_to_amount_nbo GNUNET_htonll str amount_nbo = do {
     let (r, amount) = TALER_string_to_amount str;
     if r \<noteq> GNUNET_OK then Some (GNUNET_SYSERR, amount_nbo)
     else do {
       nbo \<leftarrow> TALER_amount_hton GNUNET_htonll amount;
       Some (GNUNET_OK, nbo)
     }
   }"

section \<open>Printing\<close>

definition digit_char :: "nat \<Rightarrow> char" where
  "digit_char d = char_of (48 + d)"

text \<open>\<^verbatim>\<open>amount_to_tail\<close>: at most \<^verbatim>\<open>TALER_AMOUNT_FRAC_LEN\<close> digits, until nothing is left.\<close>

fun tail_digits :: "nat \<Rightarrow> u32 \<Rightarrow> string" where
  "tail_digits 0 n = []"
| "tail_digits (Suc i) n =
     (if n = 0 then []
      else digit_char (unat (n div of_nat (TALER_AMOUNT_FRAC_BASE div 10)))
           # tail_digits i ((n * 10) mod of_nat TALER_AMOUNT_FRAC_BASE))"

definition amount_to_tail :: "TALER_Amount \<Rightarrow> string" where
  "amount_to_tail amount = tail_digits TALER_AMOUNT_FRAC_LEN (amt_fraction amount)"

text \<open>The \<^verbatim>\<open>%llu\<close> conversion\<close>

fun print_llu :: "nat \<Rightarrow> string" where
  "print_llu n = (if n < 10 then [digit_char n] else print_llu (n div 10) @ [digit_char (n mod 10)])"

declare print_llu.simps [simp del]

text \<open>\<open>None\<close> is the null pointer.\<close>

definition TALER_amount_to_string :: "TALER_Amount \<Rightarrow> string option" where
  "TALER_amount_to_string amount =
     (if \<not> TALER_amount_is_valid amount then None
      else let norm = snd (TALER_amount_normalize amount)
           in if amt_fraction norm \<noteq> 0
              then Some (cstr (amt_currency norm) @ '':'' @ print_llu (unat (amt_value norm))
                         @ ''.'' @ amount_to_tail norm)
              else Some (cstr (amt_currency norm) @ '':'' @ print_llu (unat (amt_value norm))))"

text \<open>\<^verbatim>\<open>TALER_amount2s\<close> prints into a static buffer with \<^verbatim>\<open>GNUNET_snprintf\<close>, a function of
  GNUnet and a parameter here, which is given the size of the buffer and may abort.\<close>

definition AMOUNT2S_BUFFER :: nat where
  "AMOUNT2S_BUFFER = TALER_AMOUNT_FRAC_LEN + TALER_CURRENCY_LEN + 3 + 24"

definition TALER_amount2s ::
    "(nat \<Rightarrow> string \<Rightarrow> string option) \<Rightarrow> TALER_Amount \<Rightarrow> string option option" where
  "TALER_amount2s GNUNET_snprintf amount =
     (if \<not> TALER_amount_is_valid amount then Some None
      else do {
        let norm = snd (TALER_amount_normalize amount);
        if amt_fraction norm \<noteq> 0
        then do {
          result \<leftarrow> GNUNET_snprintf AMOUNT2S_BUFFER
                     (cstr (amt_currency norm) @ '':'' @ print_llu (unat (amt_value norm))
                      @ ''.'' @ amount_to_tail norm);
          Some (Some result)
        }
        else do {
          result \<leftarrow> GNUNET_snprintf AMOUNT2S_BUFFER
                     (cstr (amt_currency norm) @ '':'' @ print_llu (unat (amt_value norm)));
          Some (Some result)
        }
      })"

section \<open>The number a digit string denotes\<close>

definition decimal :: "nat \<Rightarrow> string \<Rightarrow> nat" where
  "decimal v ds = foldl (\<lambda>v c. v * 10 + digit_val c) v ds"

fun frac_units :: "nat \<Rightarrow> string \<Rightarrow> nat" where
  "frac_units k [] = 0"
| "frac_units k (c # cs) = digit_val c * 10 ^ (k - 1) + frac_units (k - 1) cs"

lemma decimal_simps [simp]:
  "decimal v [] = v" "decimal v (c # cs) = decimal (v * 10 + digit_val c) cs"
  "decimal v (cs @ [c]) = decimal v cs * 10 + digit_val c"
  by (simp_all add: decimal_def)

lemma decimal_ge: "v \<le> decimal v ds"
proof (induction ds arbitrary: v)
  case (Cons c cs)
  have "v \<le> v * 10 + digit_val c" by simp
  also have "\<dots> \<le> decimal (v * 10 + digit_val c) cs" by (rule Cons.IH)
  finally show ?case by simp
qed simp

lemma digit_val_less: "isdigit c \<Longrightarrow> digit_val c < 10"
  unfolding isdigit_def digit_val_def by linarith

lemma not_isdigit_dot [simp]: "\<not> isdigit CHR ''.''"
  by (simp add: isdigit_def)

lemma parse_value_digits:
  assumes "\<forall>c\<in>set ds. isdigit c" and "unat v \<le> 4503599627370496"
  shows "parse_value v (ds @ rest) =
     (if decimal (unat v) ds \<le> 4503599627370496
      then parse_value (of_nat (decimal (unat v) ds)) rest else Value_Error)"
  using assms
proof (induction ds arbitrary: v)
  case (Cons c cs)
  let ?n = "of_nat (digit_val c) :: u64"
  have d: "isdigit c" "digit_val c < 10"
    using Cons.prems(1) digit_val_less by auto
  have n: "unat ?n = digit_val c"
    using d(2) by (simp add: unat_of_nat)
  have v10: "unat (v * 10) = unat v * 10"
    using Cons.prems(2) by (simp add: unat_word_ariths)
  then have w: "unat (v * 10 + ?n) = unat v * 10 + digit_val c"
    using Cons.prems(2) d(2) n by (simp add: unat_word_ariths)
  have ne: "c \<noteq> CHR ''.''" using d(1) by auto
  have step: "parse_value v (c # (cs @ rest)) =
      (if unat v * 10 + digit_val c \<le> 4503599627370496
       then parse_value (v * 10 + ?n) (cs @ rest) else Value_Error)"
    using d ne Cons.prems(2) by (simp add: Let_def word_less_nat_alt v10 w)
  show ?case
  proof (cases "unat v * 10 + digit_val c \<le> 4503599627370496")
    case True
    with Cons.IH [of "v * 10 + ?n"] Cons.prems(1) w step show ?thesis by simp
  next
    case False
    with decimal_ge [of "unat v * 10 + digit_val c" cs] step show ?thesis by simp
  qed
qed simp

lemma FRAC_step:
  assumes "k \<le> 7"
  shows "(of_nat (10 ^ Suc k div 10) :: u32) div 10 = of_nat (10 ^ k div 10)"
    and "(of_nat (10 ^ Suc k div 10) :: u32) \<noteq> 0"
proof -
  have "k = 0 \<or> k = 1 \<or> k = 2 \<or> k = 3 \<or> k = 4 \<or> k = 5 \<or> k = 6 \<or> k = 7"
    using assms by linarith
  then show "(of_nat (10 ^ Suc k div 10) :: u32) div 10 = of_nat (10 ^ k div 10)"
    and "(of_nat (10 ^ Suc k div 10) :: u32) \<noteq> 0"
    by (elim disjE; simp)+
qed

lemma parse_fraction_digits:
  assumes "\<forall>c\<in>set fs. isdigit c" and "k \<le> 8"
  shows "parse_fraction (of_nat (10 ^ k div 10)) f fs =
     (if length fs \<le> k then Some (f + of_nat (frac_units k fs)) else None)"
  using assms
proof (induction fs arbitrary: k f)
  case (Cons c cs)
  show ?case
  proof (cases k)
    case (Suc j)
    then have "j \<le> 7" using Cons.prems by simp
    with Cons Suc FRAC_step [OF this] show ?thesis by (simp add: algebra_simps)
  qed simp
qed simp

lemma frac_units_less:
  "\<forall>c\<in>set fs. isdigit c \<Longrightarrow> length fs \<le> k \<Longrightarrow> frac_units k fs < 10 ^ k"
proof (induction fs arbitrary: k)
  case (Cons c cs)
  then obtain j where k: "k = Suc j" "length cs \<le> j" by (cases k) auto
  then have "frac_units j cs < 10 ^ j" "digit_val c < 10"
    using Cons digit_val_less by auto
  moreover from this(2) have "digit_val c * 10 ^ j \<le> 9 * 10 ^ j"
    by (intro mult_right_mono) auto
  ultimately show ?case unfolding k(1) by (simp only: frac_units.simps power_Suc diff_Suc_1)
qed simp

section \<open>What is printed\<close>

lemma digit_char [simp]:
  assumes "d < 10"
  shows "isdigit (digit_char d)" and "digit_val (digit_char d) = d"
  using assms by (simp_all add: digit_char_def isdigit_def digit_val_def of_char_of)

lemma print_llu_digits [simp]: "c \<in> set (print_llu n) \<Longrightarrow> isdigit c"
proof (induction n rule: print_llu.induct)
  case (1 n)
  then show ?case by (subst (asm) (2) print_llu.simps) (auto split: if_splits)
qed

lemma decimal_print_llu [simp]: "decimal 0 (print_llu n) = n"
proof (induction n rule: print_llu.induct)
  case (1 n)
  then show ?case by (subst print_llu.simps) simp
qed

lemma print_llu_ne [simp]: "print_llu n \<noteq> []"
  by (subst print_llu.simps) simp

lemma length_print_llu: "n < 10 ^ Suc k \<Longrightarrow> length (print_llu n) \<le> Suc k"
proof (induction k arbitrary: n)
  case 0
  then show ?case by (subst print_llu.simps) simp
next
  case (Suc k)
  then show ?case by (subst print_llu.simps) (auto simp: less_mult_imp_div_less)
qed

lemma tail_step:
  fixes n :: u32
  assumes "unat n = 10 ^ (8 - Suc k) * m" and "m < 10 ^ Suc k" and "k \<le> 7"
  shows "unat (n div of_nat (TALER_AMOUNT_FRAC_BASE div 10)) = m div 10 ^ k"
    and "unat ((n * 10) mod of_nat TALER_AMOUNT_FRAC_BASE) = 10 ^ (8 - k) * (m mod 10 ^ k)"
proof -
  have pow: "10 ^ (8 - Suc k) * 10 ^ Suc k = (100000000 :: nat)"
    using assms(3) by (simp flip: power_add power_Suc)
  have "unat n < 10 ^ (8 - Suc k) * 10 ^ Suc k"
    unfolding assms(1) using assms(2) by (intro mult_strict_left_mono) auto
  then have less: "unat n < 100000000" by (simp only: pow)
  have "10 ^ (8 - Suc k) * 10 ^ k = (10000000 :: nat)"
    using pow by (simp add: mult.commute)
  then have "unat n div 10000000 = (10 ^ (8 - Suc k) * m) div (10 ^ (8 - Suc k) * 10 ^ k)"
    by (simp only: assms(1))
  then show "unat (n div of_nat (TALER_AMOUNT_FRAC_BASE div 10)) = m div 10 ^ k"
    by (simp add: unat_div TALER_AMOUNT_FRAC_BASE_def)
  have pow': "10 ^ (8 - k) * 10 ^ k = (100000000 :: nat)" "10 * 10 ^ (8 - Suc k) = (10 ^ (8 - k) :: nat)"
    using assms(3) by (simp_all add: Suc_diff_le flip: power_add power_Suc)
  have "unat n * 10 = (10 * 10 ^ (8 - Suc k)) * m" unfolding assms(1) by simp
  then have "unat n * 10 mod 100000000 = (10 ^ (8 - k) * m) mod (10 ^ (8 - k) * 10 ^ k)"
    by (simp only: pow')
  then have "unat n * 10 mod 100000000 = 10 ^ (8 - k) * (m mod 10 ^ k)"
    by (simp only: mult_mod_right)
  then show "unat ((n * 10) mod of_nat TALER_AMOUNT_FRAC_BASE) = 10 ^ (8 - k) * (m mod 10 ^ k)"
    using less by (simp add: unat_mod unat_word_ariths)
qed

lemma frac_units_tail:
  assumes "unat n = 10 ^ (8 - k) * m" and "m < 10 ^ k" and "k \<le> 8"
  shows "frac_units k (tail_digits k n) = m" and "\<forall>c\<in>set (tail_digits k n). isdigit c"
    and "length (tail_digits k n) \<le> k"
proof -
  have "frac_units k (tail_digits k n) = m \<and> (\<forall>c\<in>set (tail_digits k n). isdigit c)
      \<and> length (tail_digits k n) \<le> k"
    using assms
  proof (induction k arbitrary: n m)
    case (Suc k)
    note st = tail_step [OF Suc.prems(1,2)]
    have "m mod 10 ^ k < 10 ^ k" by simp
    note IH = Suc.IH [OF st(2) this]
    have d: "m div 10 ^ k < 10"
      using Suc.prems(2) by (simp add: less_mult_imp_div_less)
    show ?case
    proof (cases "n = 0")
      case True
      with Suc.prems(1) show ?thesis by simp
    next
      case False
      with st IH d Suc.prems(3) show ?thesis by (simp add: div_mult_mod_eq)
    qed
  qed simp
  then show "frac_units k (tail_digits k n) = m" and "\<forall>c\<in>set (tail_digits k n). isdigit c"
    and "length (tail_digits k n) \<le> k" by simp_all
qed

lemma amount_to_tail:
  assumes "unat (amt_fraction a) < 100000000"
  shows "frac_units 8 (amount_to_tail a) = unat (amt_fraction a)"
    and "\<forall>c\<in>set (amount_to_tail a). isdigit c" and "length (amount_to_tail a) \<le> 8"
  using frac_units_tail [of "amt_fraction a" 8 "unat (amt_fraction a)"] assms
  by (simp_all add: amount_to_tail_def TALER_AMOUNT_FRAC_LEN_def)

lemma tail_digits_Nil: "tail_digits k n = [] \<longleftrightarrow> k = 0 \<or> n = 0"
  by (cases k) simp_all

lemma amount_to_tail_Nil [simp]: "amount_to_tail a = [] \<longleftrightarrow> amt_fraction a = 0"
  by (simp add: amount_to_tail_def tail_digits_Nil TALER_AMOUNT_FRAC_LEN_def)

section \<open>Properties\<close>

text \<open>A currency that survives printing and parsing.\<close>

definition currency_ok :: "string \<Rightarrow> bool" where
  "currency_ok c \<longleftrightarrow> c \<noteq> [] \<and> length c < TALER_CURRENCY_LEN \<and> NUL \<notin> set c \<and> CHR '':'' \<notin> set c
     \<and> \<not> isspace (hd c)"

text \<open>What is accepted before the colon: the currency may be empty, and the amount is invalid then.\<close>

definition currency_text :: "string \<Rightarrow> bool" where
  "currency_text c \<longleftrightarrow> length c < TALER_CURRENCY_LEN \<and> NUL \<notin> set c \<and> CHR '':'' \<notin> set c
     \<and> (c = [] \<or> \<not> isspace (hd c))"

lemma currency_ok_text: "currency_ok c \<Longrightarrow> currency_text c"
  by (simp add: currency_ok_def currency_text_def)

text \<open>The text of an amount: currency, digits of the value and, if there are any, digits of
  the fraction.\<close>

definition amount_text :: "string \<Rightarrow> string \<Rightarrow> string \<Rightarrow> string" where
  "amount_text c ds fs = c @ '':'' @ ds @ (if fs = [] then [] else ''.'' @ fs)"

lemma isdigit_no_NUL: "\<forall>c\<in>set ds. isdigit c \<Longrightarrow> NUL \<notin> set ds"
  by (auto simp: isdigit_def)

lemma string_to_amount_text:
  assumes "currency_text c" and "\<forall>x\<in>set ws. isspace x"
    and ds: "\<forall>x\<in>set ds. isdigit x" and fs: "\<forall>x\<in>set fs. isdigit x" and ne: "ds \<noteq> [] \<or> fs \<noteq> []"
  shows "TALER_string_to_amount (ws @ amount_text c ds fs) =
     (if decimal 0 ds \<le> 4503599627370496 \<and> length fs \<le> 8
      then (GNUNET_OK, mk_amount c (of_nat (decimal 0 ds)) (of_nat (frac_units 8 fs)))
      else (GNUNET_SYSERR, invalidate))"
proof -
  let ?t = "amount_text c ds fs" and ?v = "ds @ (if fs = [] then [] else ''.'' @ fs)"
  have "NUL \<notin> set (ws @ ?t)"
    using assms isdigit_no_NUL [OF ds] isdigit_no_NUL [OF fs]
    by (auto simp: amount_text_def currency_text_def isspace_def)
  then have cs: "cstr (ws @ ?t) = ws @ ?t" by (rule cstr_id)
  have dw: "dropWhile isspace (ws @ ?t) = ?t"
    using assms(1,2) by (cases c) (auto simp: amount_text_def currency_text_def isspace_def)
  have tw: "takeWhile (\<lambda>c. c \<noteq> CHR '':'') ?t = c" and dr: "drop (length c + 1) ?t = ?v"
    and mem: "CHR '':'' \<in> set ?t" "?t \<noteq> []"
    using assms(1) by (simp_all add: amount_text_def currency_text_def takeWhile_append)
  have "NUL \<notin> set c" and len: "length c < TALER_CURRENCY_LEN"
    using assms(1) by (simp_all add: currency_text_def)
  then have c: "cstr c = c" "strlen c = length c" by (simp_all add: cstr_id strlen_def)
  have pv: "parse_value 0 ?v = (if decimal 0 ds \<le> 4503599627370496
      then parse_value (of_nat (decimal 0 ds)) (if fs = [] then [] else ''.'' @ fs) else Value_Error)"
    using parse_value_digits [OF ds, of 0] by simp
  have pf: "parse_fraction (of_nat (TALER_AMOUNT_FRAC_BASE div 10)) 0 fs =
      (if length fs \<le> 8 then Some (of_nat (frac_units 8 fs)) else None)"
    using parse_fraction_digits [OF fs, of 8 0] by (simp add: TALER_AMOUNT_FRAC_BASE_def)
  have "?v \<noteq> []" using ne by auto
  then show ?thesis
    unfolding TALER_string_to_amount_def Let_def cs dw tw dr pv
    using len mem c pf by (auto simp: mk_amount_def)
qed

lemma mk_amount_decimal:
  assumes "\<forall>x\<in>set fs. isdigit x" and "decimal 0 ds \<le> 4503599627370496" and "length fs \<le> 8"
  shows "amt (mk_amount c (of_nat (decimal 0 ds)) (of_nat (frac_units 8 fs))) = int (decimal 0 ds * 100000000 + frac_units 8 fs)"
    and "amount_normal (mk_amount c (of_nat (decimal 0 ds)) (of_nat (frac_units 8 fs)))"
proof -
  let ?a = "mk_amount c (of_nat (decimal 0 ds)) (of_nat (frac_units 8 fs))"
  have less: "frac_units 8 fs < 100000000"
    using frac_units_less [OF assms(1), of 8] assms(3) by simp
  then have f: "unat (amt_fraction ?a) = frac_units 8 fs"
    by (simp add: unat_of_nat)
  have v: "unat (amt_value ?a) = decimal 0 ds"
    using assms(2) by (simp add: unat_of_nat)
  show "amt ?a = int (decimal 0 ds * 100000000 + frac_units 8 fs)"
    by (simp only: amt_def amount_units_def f v)
  show "amount_normal ?a"
    unfolding amount_normal_def using f v less amt_less_LIMIT_iff [of ?a] assms(2) by linarith
qed

lemma parse_value_End: "parse_value v cs = Value_End w \<Longrightarrow> \<forall>c\<in>set cs. isdigit c"
  by (induction v cs rule: parse_value.induct) (auto simp: Let_def split: if_splits)

lemma parse_value_Dot:
  "parse_value v cs = Value_Dot w fs \<Longrightarrow> \<exists>ds. cs = ds @ CHR ''.'' # fs \<and> (\<forall>c\<in>set ds. isdigit c)"
proof (induction v cs rule: parse_value.induct)
  case (2 v c cs)
  show ?case
  proof (cases "c = CHR ''.''")
    case False
    with 2(2) have d: "isdigit c" "\<exists>v'. parse_value v' cs = Value_Dot w fs" by (auto simp: Let_def split: if_splits)
    with 2 False obtain ds where "cs = ds @ CHR ''.'' # fs" "\<forall>c\<in>set ds. isdigit c"
      by (auto simp: Let_def split: if_splits)
    with d(1) show ?thesis by (intro exI [of _ "c # ds"]) simp
  qed (use 2 in simp)
qed simp

lemma parse_fraction_Some: "parse_fraction b f fs = Some x \<Longrightarrow> \<forall>c\<in>set fs. isdigit c"
  by (induction b f fs rule: parse_fraction.induct) (auto split: if_splits)

text \<open>A text is the one of an amount: white space, a currency, a colon, digits of the value, and digits of a fraction after a dot. The
  value may only be missing if there is a fraction.\<close>

definition amount_syntax :: "string \<Rightarrow> string \<Rightarrow> string \<Rightarrow> string \<Rightarrow> bool" where
  "amount_syntax s c ds fs \<longleftrightarrow> currency_text c \<and> (\<exists>ws. cstr s = ws @ amount_text c ds fs \<and> (\<forall>x\<in>set ws. isspace x))
     \<and> (\<forall>x\<in>set ds. isdigit x) \<and> (\<forall>x\<in>set fs. isdigit x) \<and> (ds \<noteq> [] \<or> fs \<noteq> [])"

lemma string_to_amount_cstr: "TALER_string_to_amount (cstr s) = TALER_string_to_amount s"
  by (simp add: TALER_string_to_amount_def cstr_def)

lemma string_to_amount_syntax:
  assumes "amount_syntax s c ds fs"
  shows "TALER_string_to_amount s =
     (if decimal 0 ds \<le> 4503599627370496 \<and> length fs \<le> 8
      then (GNUNET_OK, mk_amount c (of_nat (decimal 0 ds)) (of_nat (frac_units 8 fs)))
      else (GNUNET_SYSERR, invalidate))"
proof -
  obtain ws where "cstr s = ws @ amount_text c ds fs" "\<forall>x\<in>set ws. isspace x" using assms by (auto simp: amount_syntax_def)
  with string_to_amount_text [of c ws ds fs] assms string_to_amount_cstr [of s] show ?thesis by (simp add: amount_syntax_def)
qed

lemma takeWhile_split:
  "x \<in> set xs \<Longrightarrow> xs = takeWhile (\<lambda>c. c \<noteq> x) xs @ x # drop (length (takeWhile (\<lambda>c. c \<noteq> x) xs) + 1) xs"
  by (induction xs) auto

text \<open>What is accepted has this form, and what is not accepted is invalidated.\<close>

lemma string_to_amount_accepts:
  assumes "TALER_string_to_amount s = (r, a)"
  shows "r = GNUNET_OK \<and> (\<exists>c ds fs. amount_syntax s c ds fs) \<or> r = GNUNET_SYSERR \<and> a = invalidate"
proof (rule disjCI)
  assume no: "\<not> (r = GNUNET_SYSERR \<and> a = invalidate)"
  let ?str = "dropWhile isspace (cstr s)" and ?ws = "takeWhile isspace (cstr s)"
  let ?c = "takeWhile (\<lambda>c. c \<noteq> CHR '':'') ?str"
  let ?val = "drop (length ?c + 1) ?str"
  define cur where "cur = ?c @ replicate (TALER_CURRENCY_LEN - length ?c) NUL"
  define X where "X = (case parse_value 0 ?val of
       Value_End v \<Rightarrow> (GNUNET_OK, \<lparr>amt_value = v, amt_fraction = 0, amt_currency = cur\<rparr>)
     | Value_Error \<Rightarrow> (GNUNET_SYSERR, invalidate)
     | Value_Dot v frac \<Rightarrow>
         (if frac = [] then (GNUNET_SYSERR, invalidate)
          else case parse_fraction (of_nat (TALER_AMOUNT_FRAC_BASE div 10)) 0 frac of
            None \<Rightarrow> (GNUNET_SYSERR, invalidate)
          | Some f \<Rightarrow> (GNUNET_OK, \<lparr>amt_value = v, amt_fraction = f, amt_currency = cur\<rparr>)))"
  have guards: "(if ?str = [] then (GNUNET_SYSERR, invalidate)
      else if CHR '':'' \<notin> set ?str \<or> length ?c \<ge> TALER_CURRENCY_LEN then (GNUNET_SYSERR, invalidate)
      else if ?val = [] then (GNUNET_SYSERR, invalidate) else X) = (r, a)"
    unfolding X_def cur_def using assms unfolding TALER_string_to_amount_def Let_def .
  have rej: "(r, a) \<noteq> (GNUNET_SYSERR, invalidate)" using no by simp
  have guarded: "\<not> A \<and> \<not> B \<and> \<not> C \<and> \<not> D \<and> x = y"
    if "(if A then e else if B \<or> C then e else if D then e else x) = y" "y \<noteq> e" for A B C D and e x y :: "int \<times> TALER_Amount"
    using that by (cases A; cases B; cases C; cases D) simp_all
  note g = guarded [OF guards rej]
  have colon: "CHR '':'' \<in> set ?str" using g by blast
  have len: "length ?c < TALER_CURRENCY_LEN" using g by (metis not_le)
  have val: "?val \<noteq> []" using g by blast
  have d: "X = (r, a)" using g by blast
  note d = d [unfolded X_def]
  have ok: "r = GNUNET_OK"
  proof (cases "parse_value 0 ?val")
    case (Value_End v)
    then show ?thesis using d by (simp only: value_result.case prod.inject)
  next
    case (Value_Dot v frac)
    note d' = d [unfolded Value_Dot value_result.case]
    show ?thesis
    proof (cases "frac = []")
      case True
      from d' [unfolded if_P [OF True]] rej show ?thesis by blast
    next
      case False
      note d'' = d' [unfolded if_not_P [OF False]]
      show ?thesis
      proof (cases "parse_fraction (of_nat (TALER_AMOUNT_FRAC_BASE div 10)) 0 frac")
        case None
        from d'' [unfolded None option.case] rej show ?thesis by blast
      next
        case (Some f)
        from d'' [unfolded Some option.case] show ?thesis by (simp only: prod.inject)
      qed
    qed
  next
    case Value_Error
    from d [unfolded Value_Error value_result.case] rej show ?thesis by blast
  qed
  have parts: "?str = ?c @ CHR '':'' # ?val" using takeWhile_split [OF colon] .
  have whole: "cstr s = ?ws @ ?c @ CHR '':'' # ?val"
    using arg_cong [OF parts, of "\<lambda>x. ?ws @ x"] by (simp only: takeWhile_dropWhile_id)
  have "NUL \<notin> set (cstr s)" by (auto simp: cstr_def dest: set_takeWhileD)
  then have "NUL \<notin> set ?c" by (auto dest!: set_takeWhileD set_dropWhileD)
  moreover have "\<not> isspace (hd ?c)" if "?c \<noteq> []"
  proof -
    have "hd ?str = hd ?c" using that by (cases ?str) (auto split: if_splits)
    moreover have "?str \<noteq> []" using colon by (cases ?str) simp_all
    ultimately show ?thesis using hd_dropWhile [of isspace "cstr s"] by simp
  qed
  ultimately have c: "currency_text ?c" using len by (auto simp: currency_text_def dest: set_takeWhileD)
  obtain ds fs where v: "?val = ds @ (if fs = [] then [] else CHR ''.'' # fs)" "\<forall>x\<in>set ds. isdigit x" "\<forall>x\<in>set fs. isdigit x" "ds \<noteq> [] \<or> fs \<noteq> []"
  proof (cases "parse_value 0 ?val")
    case (Value_End v)
    with that [of ?val "[]"] parse_value_End [OF Value_End] val show ?thesis by simp
  next
    case (Value_Dot v fs)
    then have "(if fs = [] then (GNUNET_SYSERR, invalidate)
        else case parse_fraction (of_nat (TALER_AMOUNT_FRAC_BASE div 10)) 0 fs of
            None \<Rightarrow> (GNUNET_SYSERR, invalidate)
          | Some f \<Rightarrow> (GNUNET_OK, \<lparr>amt_value = v, amt_fraction = f, amt_currency = cur\<rparr>)) = (r, a)"
      using d by (simp only: value_result.case)
    then obtain f where f: "fs \<noteq> []" "parse_fraction (of_nat (TALER_AMOUNT_FRAC_BASE div 10)) 0 fs = Some f"
      using ok by (auto split: if_splits option.splits)
    from parse_value_Dot [OF Value_Dot] obtain ds where "?val = ds @ CHR ''.'' # fs" "\<forall>x\<in>set ds. isdigit x" by blast
    with that [of ds fs] f(1) parse_fraction_Some [OF f(2)] show ?thesis by simp
  next
    case Value_Error
    then have "r = GNUNET_SYSERR" using d by (simp only: value_result.case prod.inject)
    with ok show ?thesis by simp
  qed
  have "cstr s = ?ws @ amount_text ?c ds fs" unfolding amount_text_def append_Cons append_Nil by (rule whole [unfolded v(1)])
  moreover have "\<forall>x\<in>set ?ws. isspace x" by (auto dest: set_takeWhileD)
  ultimately have "amount_syntax s ?c ds fs" using c v(2-4) unfolding amount_syntax_def by blast
  with ok show "r = GNUNET_OK \<and> (\<exists>c ds fs. amount_syntax s c ds fs)" by blast
qed

text \<open>What is filled in on success\<close>

lemma string_to_amount_parsed:
  assumes "TALER_string_to_amount s = (GNUNET_OK, a)"
  shows "strlen (amt_currency a) < TALER_CURRENCY_LEN \<and> amount_normal a"
proof -
  obtain c ds fs where t: "amount_syntax s c ds fs" using string_to_amount_accepts [OF assms] by auto
  with string_to_amount_syntax [OF t] assms
  have a: "decimal 0 ds \<le> 4503599627370496" "length fs \<le> 8" "a = mk_amount c (of_nat (decimal 0 ds)) (of_nat (frac_units 8 fs))"
    by (auto split: if_splits)
  have "amount_normal a" unfolding a(3) using mk_amount_decimal [of fs ds c] t a by (simp add: amount_syntax_def)
  moreover have "cstr (amt_currency a) = c"
    using t by (simp add: a(3) mk_amount_def cstr_pad amount_syntax_def currency_text_def cstr_id)
  moreover have "length c < TALER_CURRENCY_LEN" using t by (simp add: amount_syntax_def currency_text_def)
  ultimately show ?thesis by (simp add: strlen_def)
qed

text \<open>C30. Of all strings, exactly those are accepted that are white space, a currency of at most 11 characters, a colon, and a decimal number with
  digits only, whose value is at most the maximum and whose fraction has at most eight digits; the result is the amount of that value and fraction
  in that currency. Every other string is rejected, and the amount is set to invalid. The currency may be
  empty: then the text is accepted, although the amount is not valid.\<close>

theorem TALER_string_to_amount_value:
  "case TALER_string_to_amount s of (r, a) \<Rightarrow>
     if \<exists>c ds fs. amount_syntax s c ds fs \<and> decimal 0 ds \<le> unat MAX_AMOUNT_VALUE \<and> length fs \<le> TALER_AMOUNT_FRAC_LEN
     then r = GNUNET_OK \<and> amount_normal a \<and> (\<exists>c ds fs. amount_syntax s c ds fs
            \<and> amt a = int (decimal 0 ds * 100000000 + frac_units 8 fs) \<and> cstr (amt_currency a) = c
            \<and> (TALER_amount_is_valid a \<longleftrightarrow> c \<noteq> []))
     else r = GNUNET_SYSERR \<and> a = invalidate"
proof -
  obtain r a where ra: "TALER_string_to_amount s = (r, a)" by (cases "TALER_string_to_amount s")
  have bounds: "unat MAX_AMOUNT_VALUE = 4503599627370496" "TALER_AMOUNT_FRAC_LEN = 8" by (simp_all add: TALER_AMOUNT_FRAC_LEN_def)
  show ?thesis
  proof (cases "\<exists>c ds fs. amount_syntax s c ds fs \<and> decimal 0 ds \<le> 4503599627370496 \<and> length fs \<le> 8")
    case True
    then obtain c ds fs where t: "amount_syntax s c ds fs" "decimal 0 ds \<le> 4503599627370496" "length fs \<le> 8" by blast
    with string_to_amount_syntax [OF t(1)] ra
    have a: "r = GNUNET_OK" "a = mk_amount c (of_nat (decimal 0 ds)) (of_nat (frac_units 8 fs))" by simp_all
    have "amt a = int (decimal 0 ds * 100000000 + frac_units 8 fs)" "amount_normal a"
      unfolding a(2) using mk_amount_decimal [of fs ds c] t by (simp_all add: amount_syntax_def)
    moreover have "cstr (amt_currency a) = c"
      using t(1) by (simp add: a(2) mk_amount_def cstr_pad amount_syntax_def currency_text_def cstr_id)
    moreover from this have "TALER_amount_is_valid a \<longleftrightarrow> c \<noteq> []" by (simp add: valid_iff_cstr)
    ultimately show ?thesis using True t(1) a(1) ra by (auto simp: bounds)
  next
    case False
    from string_to_amount_accepts [OF ra] have "r = GNUNET_SYSERR \<and> a = invalidate"
    proof
      assume "r = GNUNET_OK \<and> (\<exists>c ds fs. amount_syntax s c ds fs)"
      then obtain c ds fs where "amount_syntax s c ds fs" by blast
      with False string_to_amount_syntax [OF this] ra show ?thesis by (auto split: if_splits)
    qed
    with False ra show ?thesis by (simp add: bounds)
  qed
qed

lemma sample_amount_text: "cstr '' EUR:12.05'' = '' '' @ amount_text ''EUR'' ''12'' ''05''"
  by (simp add: amount_text_def cstr_def)

theorem TALER_string_to_amount_value_witness:
  "\<exists>a. TALER_string_to_amount '' EUR:12.05'' = (GNUNET_OK, a) \<and> amount_normal a"
proof -
  have "amount_syntax '' EUR:12.05'' ''EUR'' ''12'' ''05''"
    unfolding amount_syntax_def sample_amount_text by (auto simp: currency_text_def isspace_def isdigit_def TALER_CURRENCY_LEN_def)
  moreover have "decimal 0 ''12'' \<le> unat MAX_AMOUNT_VALUE \<and> length ''05'' \<le> TALER_AMOUNT_FRAC_LEN"
    by (simp add: digit_val_def TALER_AMOUNT_FRAC_LEN_def)
  ultimately have legal: "\<exists>c ds fs. amount_syntax '' EUR:12.05'' c ds fs \<and> decimal 0 ds \<le> unat MAX_AMOUNT_VALUE \<and> length fs \<le> TALER_AMOUNT_FRAC_LEN"
    by blast
  obtain r a where ra: "TALER_string_to_amount '' EUR:12.05'' = (r, a)" by (cases "TALER_string_to_amount '' EUR:12.05''")
  from TALER_string_to_amount_value [of "'' EUR:12.05''", unfolded ra prod.case if_P [OF legal]] ra show ?thesis by blast
qed

lemma amount_to_string_normal:
  assumes "TALER_amount_is_valid a" and "unat (amt_fraction a) < 100000000"
  shows "TALER_amount_to_string a =
     Some (amount_text (cstr (amt_currency a)) (print_llu (unat (amt_value a))) (amount_to_tail a))"
  using assms by (simp add: TALER_amount_to_string_def normalize_small amount_text_def)

text \<open>C29. Printing a legal amount and parsing the text gives back the normalized amount.\<close>

theorem TALER_amount_to_string_parse:
  assumes "currency_ok (cstr (amt_currency a))" and "amt a < AMT_LIMIT"
  shows "\<exists>t n. TALER_amount_to_string a = Some t \<and> TALER_string_to_amount t = (GNUNET_OK, n)
     \<and> amt n = amt a \<and> amount_normal n \<and> cstr (amt_currency n) = cstr (amt_currency a)"
proof -
  let ?c = "cstr (amt_currency a)"
  have val: "TALER_amount_is_valid a"
    using assms(1) by (simp add: valid_iff_cstr currency_ok_def)
  obtain r n where n: "TALER_amount_normalize a = (r, n)" "amt n = amt a" "amount_normal n"
    "amt_currency n = amt_currency a"
    using normalize_spec [OF val assms(2)] by metis
  have fr: "unat (amt_fraction n) < 100000000" using n(3) by (rule amount_normalD)
  have val': "TALER_amount_is_valid n" using val n(4) by (simp add: valid_iff_cstr)
  let ?t = "amount_text ?c (print_llu (unat (amt_value n))) (amount_to_tail n)"
  have "TALER_amount_to_string a = TALER_amount_to_string n"
    using n(1) fr val val' by (simp add: TALER_amount_to_string_def normalize_small)
  then have t: "TALER_amount_to_string a = Some ?t"
    using amount_to_string_normal [OF val' fr] n(4) by simp
  have "TALER_string_to_amount ([] @ ?t) = (GNUNET_OK, mk_amount ?c (amt_value n) (amt_fraction n))"
    using string_to_amount_text [OF currency_ok_text [OF assms(1)], of "[]" "print_llu (unat (amt_value n))" "amount_to_tail n"]
      amount_to_tail [OF fr] amount_normal_value [OF n(3)] by simp
  moreover have "amt (mk_amount ?c (amt_value n) (amt_fraction n)) = amt n"
    by (simp add: amt_def amount_units_def)
  moreover have "cstr (amt_currency (mk_amount ?c (amt_value n) (amt_fraction n))) = ?c"
    by (simp add: mk_amount_def cstr_pad)
  ultimately show ?thesis
    using t n(2,3) by (simp add: amount_normal_def)
qed

theorem TALER_amount_to_string_parse_witness:
  "\<exists>t n. TALER_amount_to_string (mk_amount ''EUR'' 12 150000000) = Some t
     \<and> TALER_string_to_amount t = (GNUNET_OK, n) \<and> amt n = 1350000000"
proof -
  have "currency_ok (cstr (amt_currency (mk_amount ''EUR'' 12 150000000)))"
    by (simp add: currency_ok_def mk_amount_def cstr_def strlen_def TALER_CURRENCY_LEN_def isspace_def)
  from TALER_amount_to_string_parse [OF this] show ?thesis
    by (auto simp: AMT_LIMIT_def)
qed

text \<open>The static buffer of \<^verbatim>\<open>TALER_amount2s\<close> is large enough for every amount with a terminated
  currency: if \<^verbatim>\<open>GNUNET_snprintf\<close> prints every text that fits into the buffer, the function
  never aborts and returns the same text as \<^verbatim>\<open>TALER_amount_to_string\<close>.\<close>

theorem TALER_amount2s_fits:
  assumes snprintf: "\<And>n t. length t < n \<Longrightarrow> GNUNET_snprintf n t = Some t"
    and cur: "strlen (amt_currency a) < TALER_CURRENCY_LEN"
  shows "TALER_amount2s GNUNET_snprintf a = Some (TALER_amount_to_string a)"
proof -
  let ?n = "snd (TALER_amount_normalize a)"
  have "amt_currency ?n = amt_currency a \<or> cstr (amt_currency ?n) = []"
    by (auto simp: TALER_amount_normalize_def invalidate_def Let_def)
  then have c: "length (cstr (amt_currency ?n)) \<le> 11"
    using cur by (auto simp: strlen_def TALER_CURRENCY_LEN_def)
  have "unat (amt_value ?n) < 10 ^ Suc 19"
    using unat_u64_less [of "amt_value ?n"] by simp
  then have v: "length (print_llu (unat (amt_value ?n))) \<le> 20"
    using length_print_llu [of _ 19] by fastforce
  have "length (tail_digits k m) \<le> k" for k m
    by (induction k arbitrary: m) auto
  then have "length (amount_to_tail ?n) \<le> 8"
    by (simp add: amount_to_tail_def TALER_AMOUNT_FRAC_LEN_def)
  with c v show ?thesis
    by (simp add: TALER_amount2s_def TALER_amount_to_string_def Let_def snprintf AMOUNT2S_BUFFER_def
        TALER_CURRENCY_LEN_def TALER_AMOUNT_FRAC_LEN_def)
qed

theorem TALER_amount2s_fits_witness:
  "TALER_amount2s (\<lambda>n t. if length t < n then Some t else None) (mk_amount ''EUR'' 12 5)
     = Some (TALER_amount_to_string (mk_amount ''EUR'' 12 5))"
  by (rule TALER_amount2s_fits) (simp_all add: mk_amount_def cstr_def strlen_def TALER_CURRENCY_LEN_def)

text \<open>A text without a currency before the colon is accepted with an invalid amount, so that
  the variant that converts to network byte order aborts on such an input.\<close>

theorem TALER_string_to_amount_nbo_empty_currency:
  "fst (TALER_string_to_amount '':4'') = GNUNET_OK
   \<and> \<not> TALER_amount_is_valid (snd (TALER_string_to_amount '':4''))
   \<and> TALER_string_to_amount_nbo GNUNET_htonll '':4'' amount_nbo = None"
proof -
  have "TALER_string_to_amount '':4'' = (GNUNET_OK, mk_amount [] 4 0)"
    by (simp add: TALER_string_to_amount_def cstr_def isspace_def TALER_CURRENCY_LEN_def isdigit_def
        digit_val_def mk_amount_def strlen_def MAX_AMOUNT_VALUE_def)
  then show ?thesis
    by (simp add: TALER_string_to_amount_nbo_def TALER_amount_hton_def mk_amount_def
        TALER_amount_is_valid_def cstr_def TALER_CURRENCY_LEN_def strlen_def)
qed

end
