(* ===== verification/Exchangedb_Types.thy ===== *)
theory Exchangedb_Types
  imports Amount
begin

text \<open>
  The data the exchange and its database exchange: the structures of
  \<^verbatim>\<open>src/include/taler_exchangedb_plugin.h\<close> and of \<^verbatim>\<open>src/include/taler_crypto_lib.h\<close> that the modelled
  operations use. Keys, hash codes, signatures and blinding secrets are opaque to this code
  (it only stores and compares them) and are natural numbers; absolute times are the 64-bit
  number of microseconds of \<^verbatim>\<open>struct GNUNET_TIME_Absolute\<close>; accounts are strings. A union with
  a type tag is a datatype whose constructors are the tags.
\<close>

type_synonym pub_key = nat

type_synonym hash_code = nat

type_synonym signature = nat

type_synonym blinding_key = nat

type_synonym abs_time = u64

text \<open>\<^verbatim>\<open>struct TALER_CoinPublicInfo\<close>\<close>

record TALER_CoinPublicInfo =
  coin_pub :: pub_key
  coin_denom_pub_hash :: hash_code
  coin_denom_sig :: signature

section \<open>Reserves\<close>

record TALER_EXCHANGEDB_Reserve =
  reserve_pub :: pub_key
  reserve_balance :: TALER_Amount
  reserve_expiry :: abs_time
  reserve_gc :: abs_time

record TALER_EXCHANGEDB_BankTransfer =
  bt_reserve_pub :: pub_key
  bt_amount :: TALER_Amount
  bt_execution_date :: abs_time
  bt_sender_account_details :: string
  bt_wire_reference :: u64

record TALER_EXCHANGEDB_ClosingTransfer =
  ct_reserve_pub :: pub_key
  ct_amount :: TALER_Amount
  ct_closing_fee :: TALER_Amount
  ct_execution_date :: abs_time
  ct_receiver_account_details :: string
  ct_wtid :: nat

record TALER_EXCHANGEDB_CollectableBlindcoin =
  cb_sig :: signature
  cb_denom_pub_hash :: hash_code
  cb_amount_with_fee :: TALER_Amount
  cb_withdraw_fee :: TALER_Amount
  cb_reserve_pub :: pub_key
  cb_h_coin_envelope :: hash_code
  cb_reserve_sig :: signature

record TALER_EXCHANGEDB_Recoup =
  rec_coin :: TALER_CoinPublicInfo
  rec_coin_blind :: blinding_key
  rec_coin_sig :: signature
  rec_reserve_pub :: pub_key
  rec_value :: TALER_Amount
  rec_timestamp :: abs_time

text \<open>\<^verbatim>\<open>struct TALER_EXCHANGEDB_ReserveHistory\<close>: the list itself is a list of these entries.\<close>

datatype TALER_EXCHANGEDB_ReserveHistory =
    TALER_EXCHANGEDB_RO_BANK_TO_EXCHANGE TALER_EXCHANGEDB_BankTransfer
  | TALER_EXCHANGEDB_RO_WITHDRAW_COIN TALER_EXCHANGEDB_CollectableBlindcoin
  | TALER_EXCHANGEDB_RO_RECOUP_COIN TALER_EXCHANGEDB_Recoup
  | TALER_EXCHANGEDB_RO_EXCHANGE_TO_BANK TALER_EXCHANGEDB_ClosingTransfer

section \<open>Coins\<close>

record TALER_EXCHANGEDB_Deposit =
  dep_coin :: TALER_CoinPublicInfo
  dep_csig :: signature
  dep_merchant_pub :: pub_key
  dep_h_contract_terms :: hash_code
  dep_h_wire :: hash_code
  dep_receiver_wire_account :: string
  dep_timestamp :: abs_time
  dep_refund_deadline :: abs_time
  dep_wire_deadline :: abs_time
  dep_amount_with_fee :: TALER_Amount
  dep_deposit_fee :: TALER_Amount

record TALER_EXCHANGEDB_DepositListEntry =
  dle_csig :: signature
  dle_merchant_pub :: pub_key
  dle_h_contract_terms :: hash_code
  dle_h_wire :: hash_code
  dle_receiver_wire_account :: string
  dle_timestamp :: abs_time
  dle_refund_deadline :: abs_time
  dle_wire_deadline :: abs_time
  dle_amount_with_fee :: TALER_Amount
  dle_deposit_fee :: TALER_Amount

record TALER_EXCHANGEDB_RefundListEntry =
  rle_merchant_pub :: pub_key
  rle_merchant_sig :: signature
  rle_h_contract_terms :: hash_code
  rle_rtransaction_id :: u64
  rle_refund_amount :: TALER_Amount
  rle_refund_fee :: TALER_Amount

record TALER_EXCHANGEDB_Refund =
  ref_coin :: TALER_CoinPublicInfo
  ref_details :: TALER_EXCHANGEDB_RefundListEntry

record TALER_EXCHANGEDB_Refresh =
  rf_coin :: TALER_CoinPublicInfo
  rf_coin_sig :: signature
  rf_rc :: hash_code
  rf_amount_with_fee :: TALER_Amount
  rf_noreveal_index :: u32

record TALER_EXCHANGEDB_MeltListEntry =
  mle_coin_sig :: signature
  mle_rc :: hash_code
  mle_amount_with_fee :: TALER_Amount
  mle_melt_fee :: TALER_Amount
  mle_noreveal_index :: u32

record TALER_EXCHANGEDB_Melt =
  melt_session :: TALER_EXCHANGEDB_Refresh
  melt_melt_fee :: TALER_Amount

record TALER_EXCHANGEDB_RecoupListEntry =
  recl_coin_blind :: blinding_key
  recl_coin_sig :: signature
  recl_reserve_pub :: pub_key
  recl_value :: TALER_Amount
  recl_timestamp :: abs_time

record TALER_EXCHANGEDB_RecoupRefreshListEntry =
  rrl_coin :: TALER_CoinPublicInfo
  rrl_coin_blind :: blinding_key
  rrl_coin_sig :: signature
  rrl_old_coin_pub :: pub_key
  rrl_value :: TALER_Amount
  rrl_timestamp :: abs_time

text \<open>\<^verbatim>\<open>struct TALER_EXCHANGEDB_TransactionList\<close>: a list of entries with their serial number and the
  details selected by the type tag.\<close>

datatype TALER_EXCHANGEDB_TransactionDetails =
    TALER_EXCHANGEDB_TT_DEPOSIT TALER_EXCHANGEDB_DepositListEntry
  | TALER_EXCHANGEDB_TT_MELT TALER_EXCHANGEDB_MeltListEntry
  | TALER_EXCHANGEDB_TT_REFUND TALER_EXCHANGEDB_RefundListEntry
  | TALER_EXCHANGEDB_TT_OLD_COIN_RECOUP TALER_EXCHANGEDB_RecoupRefreshListEntry
  | TALER_EXCHANGEDB_TT_RECOUP TALER_EXCHANGEDB_RecoupListEntry
  | TALER_EXCHANGEDB_TT_RECOUP_REFRESH TALER_EXCHANGEDB_RecoupRefreshListEntry

record TALER_EXCHANGEDB_TransactionList =
  tl_serial_id :: u64
  tl_details :: TALER_EXCHANGEDB_TransactionDetails

end
