(* ===== verification/Pq.thy ===== *)
theory Pq
  imports Exchangedb_Types
begin

text \<open>
  The database connection: what \<^verbatim>\<open>src/pq\<close> and the plugin of
  \<^verbatim>\<open>src/exchangedb/plugin_exchangedb_postgres.c\<close> rely on. GNUnet's time functions and
  the status with which its Postgres wrapper reports a failed statement are parameters, the record
  \<open>gnunet\<close>; \<open>gnunet_ok\<close> collects what is documented about them.

  A session holds the state as the current transaction sees it, the committed state, the server's
  transaction status and the outcomes the environment still has in store: every statement takes the
  next outcome, so that a theorem for every list of outcomes covers every pattern of serialization
  failures, hard errors and rows that cannot be extracted. Transactions run at isolation level
  SERIALIZABLE, hence one transaction at a time. A statement that fails inside a transaction
  leaves the transaction in the failed state, in which every further statement fails and
  \<^verbatim>\<open>COMMIT\<close> rolls back. All serial numbers come from one sequence, which is not
  transactional.
\<close>

datatype pq_error =
    PQ_UNIQUE_VIOLATION
  | PQ_FOREIGN_KEY_VIOLATION
  | PQ_SERIALIZATION_FAILURE
  | PQ_FAILED_TRANSACTION
  | PQ_OTHER_ERROR

datatype pq_outcome = PQ_RUN | PQ_EXTRACT_FAIL | PQ_SOFT | PQ_HARD

record gnunet =
  GNUNET_TIME_round_abs :: "abs_time \<Rightarrow> abs_time"
  GNUNET_TIME_absolute_add :: "abs_time \<Rightarrow> u64 \<Rightarrow> abs_time"
  GNUNET_TIME_absolute_max :: "abs_time \<Rightarrow> abs_time \<Rightarrow> abs_time"
  pq_status :: "pq_error \<Rightarrow> int"

definition gnunet_ok :: "gnunet \<Rightarrow> bool" where
  "gnunet_ok g \<longleftrightarrow>
     (\<forall>t. GNUNET_TIME_round_abs g (GNUNET_TIME_round_abs g t) = GNUNET_TIME_round_abs g t)
     \<and> pq_status g PQ_UNIQUE_VIOLATION = GNUNET_DB_STATUS_SUCCESS_NO_RESULTS
     \<and> pq_status g PQ_FOREIGN_KEY_VIOLATION = GNUNET_DB_STATUS_HARD_ERROR
     \<and> pq_status g PQ_SERIALIZATION_FAILURE = GNUNET_DB_STATUS_SOFT_ERROR
     \<and> pq_status g PQ_FAILED_TRANSACTION = GNUNET_DB_STATUS_HARD_ERROR
     \<and> pq_status g PQ_OTHER_ERROR = GNUNET_DB_STATUS_HARD_ERROR"

record 'db session =
  s_db :: 'db
  s_committed :: 'db
  s_in_tx :: bool
  s_failed :: bool
  s_transaction_name :: "string option"
  s_outcomes :: "pq_outcome list"
  s_serial :: u64

definition next_outcome :: "'db session \<Rightarrow> pq_outcome \<times> 'db session" where
  "next_outcome s = (case s_outcomes s of
      [] \<Rightarrow> (PQ_RUN, s)
    | x # xs \<Rightarrow> (x, s\<lparr>s_outcomes := xs\<rparr>))"

definition pq_fail :: "'db session \<Rightarrow> 'db session" where
  "pq_fail s = s\<lparr>s_failed := s_in_tx s\<rparr>"

text \<open>The error with which a statement cannot even be executed\<close>

definition pq_denied :: "pq_outcome \<Rightarrow> 'db session \<Rightarrow> pq_error option" where
  "pq_denied x s =
     (if x = PQ_SOFT then Some PQ_SERIALIZATION_FAILURE
      else if x = PQ_HARD then Some PQ_OTHER_ERROR
      else if s_failed s then Some PQ_FAILED_TRANSACTION
      else None)"

section \<open>Executing statements\<close>

text \<open>An inserting or updating statement takes the next serial number and the tables, and yields the
  number of rows it touched.\<close>

type_synonym 'db update = "u64 \<Rightarrow> 'db \<Rightarrow> pq_error + nat \<times> 'db"

definition pq_non_select ::
    "gnunet \<Rightarrow> 'db update \<Rightarrow> 'db session \<Rightarrow> (int \<times> 'db session) option" where
  "pq_non_select g stmt s =
     (let (x, s) = next_outcome s
      in case pq_denied x s of
           Some e \<Rightarrow> Some (pq_status g e, pq_fail s)
         | None \<Rightarrow>
             (case stmt (s_serial s) (s_db s) of
                Inl e \<Rightarrow> Some (pq_status g e, pq_fail (s\<lparr>s_serial := s_serial s + 1\<rparr>))
              | Inr (n, db) \<Rightarrow>
                  Some (int n, s\<lparr>s_serial := s_serial s + 1, s_db := db,
                                 s_committed := (if s_in_tx s then s_committed s else db)\<rparr>)))"

text \<open>A query with at most one row\<close>

definition pq_singleton_select ::
    "gnunet \<Rightarrow> ('db \<Rightarrow> 'r list) \<Rightarrow> 'db session \<Rightarrow> ((int \<times> 'r option) \<times> 'db session) option" where
  "pq_singleton_select g query s =
     (let (x, s) = next_outcome s
      in case pq_denied x s of
           Some e \<Rightarrow> Some ((pq_status g e, None), pq_fail s)
         | None \<Rightarrow>
             (case query (s_db s) of
                [] \<Rightarrow> Some ((GNUNET_DB_STATUS_SUCCESS_NO_RESULTS, None), s)
              | [r] \<Rightarrow>
                  (if x = PQ_EXTRACT_FAIL then Some ((GNUNET_DB_STATUS_HARD_ERROR, None), s)
                   else Some ((GNUNET_DB_STATUS_SUCCESS_ONE_RESULT, Some r), s))
              | _ \<Rightarrow> Some ((GNUNET_DB_STATUS_HARD_ERROR, None), s)))"

text \<open>A query whose rows are handed to a callback; the flag says that the callback could not extract
  one of them.\<close>

definition pq_multi_select ::
    "gnunet \<Rightarrow> ('db \<Rightarrow> 'r list) \<Rightarrow> 'db session \<Rightarrow> ((int \<times> 'r list \<times> bool) \<times> 'db session) option" where
  "pq_multi_select g query s =
     (let (x, s) = next_outcome s
      in case pq_denied x s of
           Some e \<Rightarrow> Some ((pq_status g e, [], False), pq_fail s)
         | None \<Rightarrow>
             (let rows = query (s_db s)
              in Some ((int (length rows), rows, x = PQ_EXTRACT_FAIL \<and> rows \<noteq> []), s)))"

section \<open>Transactions\<close>

definition end_transaction :: "'db session \<Rightarrow> 'db session" where
  "end_transaction s = s\<lparr>s_db := s_committed s, s_in_tx := False, s_failed := False\<rparr>"

text \<open>The statement \<^verbatim>\<open>ROLLBACK\<close>, as used by \<^verbatim>\<open>postgres_preflight\<close> and \<^verbatim>\<open>postgres_rollback\<close>: it can
  only fail with the connection, and then the server forgets the transaction as well.\<close>

definition exec_rollback :: "'db session \<Rightarrow> 'db session" where
  "exec_rollback s = end_transaction (snd (next_outcome s))"

definition postgres_preflight :: "'db session \<Rightarrow> 'db session" where
  "postgres_preflight s =
     (if s_transaction_name s = None then s
      else (exec_rollback s)\<lparr>s_transaction_name := None\<rparr>)"

definition postgres_start :: "string \<Rightarrow> 'db session \<Rightarrow> (int \<times> 'db session) option" where
  "postgres_start name s =
     (let s = postgres_preflight s;
          (x, s) = next_outcome s
      in if x = PQ_SOFT \<or> x = PQ_HARD then Some (GNUNET_SYSERR, s)
         else Some (GNUNET_OK,
                    (if s_in_tx s then s else s\<lparr>s_db := s_committed s, s_in_tx := True\<rparr>)
                      \<lparr>s_transaction_name := Some name\<rparr>))"

definition postgres_rollback :: "'db session \<Rightarrow> 'db session" where
  "postgres_rollback s = (exec_rollback s)\<lparr>s_transaction_name := None\<rparr>"

text \<open>\<^verbatim>\<open>COMMIT\<close> touches no rows; in the failed state the server rolls back and reports no error.\<close>

definition postgres_commit :: "gnunet \<Rightarrow> 'db session \<Rightarrow> (int \<times> 'db session) option" where
  "postgres_commit g s =
     (let (x, s) = next_outcome s
      in if x = PQ_SOFT \<or> x = PQ_HARD
         then Some (pq_status g (if x = PQ_SOFT then PQ_SERIALIZATION_FAILURE else PQ_OTHER_ERROR),
                    (end_transaction s)\<lparr>s_transaction_name := None\<rparr>)
         else Some (GNUNET_DB_STATUS_SUCCESS_NO_RESULTS,
                    (end_transaction
                       (if s_in_tx s \<and> \<not> s_failed s then s\<lparr>s_committed := s_db s\<rparr> else s))
                      \<lparr>s_transaction_name := None\<rparr>))"

section \<open>What a statement does to the session\<close>

text \<open>After a query, or a statement that failed, only the failed flag, the outcomes and the sequence
  may differ; after a successful update the tables do as well.\<close>

definition unchanged :: "'db session \<Rightarrow> 'db session \<Rightarrow> bool" where
  "unchanged s s' \<longleftrightarrow> s_db s' = s_db s \<and> s_committed s' = s_committed s \<and> s_in_tx s' = s_in_tx s
     \<and> s_transaction_name s' = s_transaction_name s \<and> (s_failed s \<longrightarrow> s_failed s')
     \<and> (s_failed s' \<longrightarrow> s_failed s \<or> s_in_tx s)"

definition updated :: "'db session \<Rightarrow> 'db \<Rightarrow> 'db session \<Rightarrow> bool" where
  "updated s db s' \<longleftrightarrow> s_db s' = db \<and> s_committed s' = (if s_in_tx s then s_committed s else db)
     \<and> s_in_tx s' = s_in_tx s \<and> s_transaction_name s' = s_transaction_name s \<and> \<not> s_failed s'"

lemma unchanged_refl [simp]: "unchanged s s"
  by (simp add: unchanged_def)

lemma unchanged_trans [trans]: "unchanged s s' \<Longrightarrow> unchanged s' s'' \<Longrightarrow> unchanged s s''"
  by (auto simp: unchanged_def)

lemma unchanged_updated [trans]: "unchanged s s' \<Longrightarrow> updated s' db s'' \<Longrightarrow> updated s db s''"
  by (auto simp: unchanged_def updated_def)

lemma updated_unchanged:
  "updated s db s' \<Longrightarrow> unchanged s' s'' \<Longrightarrow> \<not> s_failed s'' \<Longrightarrow> updated s db s''"
  by (auto simp: unchanged_def updated_def)

lemma updated_updated [trans]: "updated s db s' \<Longrightarrow> updated s' db' s'' \<Longrightarrow> updated s db' s''"
  by (auto simp: updated_def)

lemma unchanged_sels:
  assumes "unchanged s s'"
  shows "s_db s' = s_db s" "s_committed s' = s_committed s" "s_in_tx s' = s_in_tx s"
    "s_transaction_name s' = s_transaction_name s"
  using assms by (simp_all add: unchanged_def)

lemma next_outcome_unchanged: "next_outcome s = (x, s') \<Longrightarrow> unchanged s s' \<and> s_failed s' = s_failed s \<and> s_serial s' = s_serial s"
  by (auto simp: next_outcome_def unchanged_def split: list.splits)

lemma pq_denied_status:
  assumes "gnunet_ok g" and "pq_denied x s = Some e"
  shows "pq_status g e = GNUNET_DB_STATUS_SOFT_ERROR \<or> pq_status g e = GNUNET_DB_STATUS_HARD_ERROR"
  using assms by (auto simp: pq_denied_def gnunet_ok_def split: if_splits)

text \<open>Only a transaction can be in the failed state.\<close>

definition session_ok :: "'db session \<Rightarrow> bool" where
  "session_ok s \<longleftrightarrow> (s_failed s \<longrightarrow> s_in_tx s) \<and> (\<not> s_in_tx s \<longrightarrow> s_db s = s_committed s)"

lemma session_ok_unchanged: "session_ok s \<Longrightarrow> unchanged s s' \<Longrightarrow> session_ok s'"
  by (auto simp: session_ok_def unchanged_def)

lemma session_ok_updated: "session_ok s \<Longrightarrow> updated s db s' \<Longrightarrow> session_ok s'"
  by (auto simp: session_ok_def updated_def)

lemma pq_fail_unchanged:
  assumes "session_ok s" and "next_outcome s = (x, s1)"
  shows "unchanged s (pq_fail s1)" "unchanged s (pq_fail (s1\<lparr>s_serial := n\<rparr>))"
  using assms next_outcome_unchanged [OF assms(2)]
  by (auto simp: unchanged_def session_ok_def pq_fail_def)

lemma pq_singleton_select_wp:
  assumes "gnunet_ok g" and "session_ok s"
  shows "wp (pq_singleton_select g query s) (\<lambda>(qs, r) s'. unchanged s s' \<and>
     ((qs = GNUNET_DB_STATUS_SOFT_ERROR \<or> qs = GNUNET_DB_STATUS_HARD_ERROR) \<and> r = None
      \<or> qs = GNUNET_DB_STATUS_SUCCESS_NO_RESULTS \<and> r = None \<and> query (s_db s) = [] \<and> \<not> s_failed s'
      \<or> (\<exists>x. qs = GNUNET_DB_STATUS_SUCCESS_ONE_RESULT \<and> r = Some x \<and> query (s_db s) = [x]
            \<and> \<not> s_failed s')))"
proof -
  obtain x s1 where n: "next_outcome s = (x, s1)" by (cases "next_outcome s")
  have s1: "unchanged s s1" "s_failed s1 = s_failed s" "s_db s1 = s_db s"
    using next_outcome_unchanged [OF n] by (auto simp: unchanged_def)
  show ?thesis
  proof (cases "pq_denied x s1")
    case None
    then have "\<not> s_failed s1" by (auto simp: pq_denied_def split: if_splits)
    with None s1 n show ?thesis
      by (auto simp: pq_singleton_select_def split: list.splits)
  next
    case (Some e)
    with pq_fail_unchanged [OF assms(2) n] n pq_denied_status [OF assms(1) Some] show ?thesis
      by (auto simp: pq_singleton_select_def)
  qed
qed

lemma pq_multi_select_wp:
  assumes "gnunet_ok g" and "session_ok s"
  shows "wp (pq_multi_select g query s) (\<lambda>(qs, rows, bad) s'. unchanged s s' \<and>
     ((qs = GNUNET_DB_STATUS_SOFT_ERROR \<or> qs = GNUNET_DB_STATUS_HARD_ERROR) \<and> rows = [] \<and> \<not> bad
      \<or> qs = int (length rows) \<and> rows = query (s_db s) \<and> \<not> s_failed s'))"
proof -
  obtain x s1 where n: "next_outcome s = (x, s1)" by (cases "next_outcome s")
  have s1: "unchanged s s1" "s_failed s1 = s_failed s" "s_db s1 = s_db s"
    using next_outcome_unchanged [OF n] by (auto simp: unchanged_def)
  show ?thesis
  proof (cases "pq_denied x s1")
    case None
    then have "\<not> s_failed s1" by (auto simp: pq_denied_def split: if_splits)
    with None s1 n show ?thesis
      by (auto simp: pq_multi_select_def Let_def)
  next
    case (Some e)
    with pq_fail_unchanged [OF assms(2) n] n pq_denied_status [OF assms(1) Some] show ?thesis
      by (auto simp: pq_multi_select_def)
  qed
qed

lemma pq_non_select_wp:
  assumes "gnunet_ok g" and "session_ok s"
  shows "wp (pq_non_select g stmt s) (\<lambda>qs s'.
     (\<exists>k. qs = int k \<and> (\<exists>n db. stmt n (s_db s) = Inr (k, db) \<and> updated s db s'))
     \<or> (unchanged s s' \<and> (qs = GNUNET_DB_STATUS_SOFT_ERROR \<or> qs = GNUNET_DB_STATUS_HARD_ERROR
           \<or> qs = GNUNET_DB_STATUS_SUCCESS_NO_RESULTS \<and> s_failed s' = s_in_tx s
              \<and> (\<exists>n. stmt n (s_db s) = Inl PQ_UNIQUE_VIOLATION))))"
proof -
  obtain x s1 where n: "next_outcome s = (x, s1)" by (cases "next_outcome s")
  have s1: "unchanged s s1" "s_failed s1 = s_failed s" "s_db s1 = s_db s"
    using next_outcome_unchanged [OF n] by (auto simp: unchanged_def)
  let ?s1 = "s1\<lparr>s_serial := s_serial s1 + 1\<rparr>"
  note fail = pq_fail_unchanged [OF assms(2) n]
  show ?thesis
  proof (cases "pq_denied x s1")
    case None
    then have nf: "\<not> s_failed s1" by (auto simp: pq_denied_def split: if_splits)
    show ?thesis
    proof (cases "stmt (s_serial s1) (s_db s1)")
      case (Inl e)
      with n None fail s1 assms(1) show ?thesis
        by (cases e) (auto simp: pq_non_select_def gnunet_ok_def pq_fail_def unchanged_sels)
    next
      case (Inr p)
      with n None nf s1 show ?thesis
        by (cases p) (fastforce simp: pq_non_select_def updated_def unchanged_def)
    qed
  next
    case (Some e)
    with n fail(1) pq_denied_status [OF assms(1) Some] show ?thesis
      by (auto simp: pq_non_select_def)
  qed
qed

end
