(* ===== verification/Exchangedb_Tables.thy ===== *)
theory Exchangedb_Tables
  imports Pq
begin

text \<open>
  The tables of \<^verbatim>\<open>src/exchangedb/exchange-0001.sql\<close> that the modelled operations use, the
  conversions of amounts and times between C and SQL of \<^verbatim>\<open>src/pq\<close>, and the prepared
  statements of \<^verbatim>\<open>plugin_exchangedb_postgres.c\<close> as functions on the tables. A table is the
  list of its rows; an amount is the pair of its \<^verbatim>\<open>_val\<close> and \<^verbatim>\<open>_frac\<close> columns. An inserting
  statement checks the primary key, the unique constraints and the foreign keys of its table.
\<close>

section \<open>Plugin state and column conversions\<close>

text \<open>\<^verbatim>\<open>struct PostgresClosure\<close>\<close>

record PostgresClosure =
  pg_currency :: string
  pg_idle_reserve_expiration_time :: u64
  pg_legal_reserve_expiration_time :: u64

type_synonym sql_amount = "u64 \<times> u32"

text \<open>\<^verbatim>\<open>qconv_amount\<close> and \<^verbatim>\<open>qconv_round_time\<close>: the conversion of an invalid amount or of a time that
  is not rounded aborts.\<close>

definition TALER_PQ_query_param_amount :: "TALER_Amount \<Rightarrow> sql_amount option" where
  "TALER_PQ_query_param_amount x = do {
     GNUNET_assert (TALER_amount_is_valid x);
     Some (amt_value x, amt_fraction x)
   }"

definition TALER_PQ_query_param_absolute_time :: "gnunet \<Rightarrow> abs_time \<Rightarrow> abs_time option" where
  "TALER_PQ_query_param_absolute_time g x = do {
     GNUNET_assert (GNUNET_TIME_round_abs g x = x);
     Some x
   }"

text \<open>\<^verbatim>\<open>extract_amount\<close>: the currency of the plugin, cut to the length of the array, is added.\<close>

definition TALER_PQ_result_spec_amount :: "string \<Rightarrow> sql_amount \<Rightarrow> TALER_Amount option" where
  "TALER_PQ_result_spec_amount currency x = do {
     let len = min (TALER_CURRENCY_LEN - 1) (strlen currency);
     let a = \<lparr>amt_value = fst x, amt_fraction = snd x,
              amt_currency = take len (cstr currency) @ replicate (TALER_CURRENCY_LEN - len) NUL\<rparr>;
     GNUNET_assert (TALER_amount_is_valid a);
     Some a
   }"

definition TALER_PQ_result_spec_absolute_time :: "gnunet \<Rightarrow> abs_time \<Rightarrow> abs_time" where
  "TALER_PQ_result_spec_absolute_time g x = GNUNET_TIME_round_abs g x"

section \<open>Tables\<close>

record denominations_row =
  dn_denom_pub_hash :: hash_code
  dn_denom_pub :: nat
  dn_expire_withdraw :: abs_time
  dn_expire_deposit :: abs_time
  dn_expire_legal :: abs_time
  dn_coin :: sql_amount
  dn_fee_withdraw :: sql_amount
  dn_fee_deposit :: sql_amount
  dn_fee_refresh :: sql_amount
  dn_fee_refund :: sql_amount

record reserves_row =
  rv_reserve_pub :: pub_key
  rv_account_details :: string
  rv_current_balance :: sql_amount
  rv_expiration_date :: abs_time
  rv_gc_date :: abs_time

record reserves_in_row =
  ri_serial_id :: u64
  ri_reserve_pub :: pub_key
  ri_wire_reference :: u64
  ri_credit :: sql_amount
  ri_sender_account_details :: string
  ri_exchange_account_section :: string
  ri_execution_date :: abs_time

record reserves_close_row =
  rcl_close_uuid :: u64
  rcl_reserve_pub :: pub_key
  rcl_execution_date :: abs_time
  rcl_wtid :: nat
  rcl_receiver_account :: string
  rcl_amount :: sql_amount
  rcl_closing_fee :: sql_amount

record reserves_out_row =
  ro_serial_id :: u64
  ro_h_blind_ev :: hash_code
  ro_denom_pub_hash :: hash_code
  ro_denom_sig :: signature
  ro_reserve_pub :: pub_key
  ro_reserve_sig :: signature
  ro_execution_date :: abs_time
  ro_amount_with_fee :: sql_amount

record known_coins_row =
  kc_coin_pub :: pub_key
  kc_denom_pub_hash :: hash_code
  kc_denom_sig :: signature

record refresh_commitments_row =
  rcm_melt_serial_id :: u64
  rcm_rc :: hash_code
  rcm_old_coin_pub :: pub_key
  rcm_old_coin_sig :: signature
  rcm_amount_with_fee :: sql_amount
  rcm_noreveal_index :: u32

record refresh_revealed_coins_row =
  rrc_rc :: hash_code
  rrc_freshcoin_index :: u32
  rrc_link_sig :: signature
  rrc_denom_pub_hash :: hash_code
  rrc_coin_ev :: string
  rrc_h_coin_ev :: hash_code
  rrc_ev_sig :: signature

record refresh_transfer_keys_row =
  rtk_rc :: hash_code
  rtk_transfer_pub :: pub_key
  rtk_transfer_privs :: "nat list"

record deposits_row =
  dp_deposit_serial_id :: u64
  dp_coin_pub :: pub_key
  dp_amount_with_fee :: sql_amount
  dp_timestamp :: abs_time
  dp_refund_deadline :: abs_time
  dp_wire_deadline :: abs_time
  dp_merchant_pub :: pub_key
  dp_h_contract_terms :: hash_code
  dp_h_wire :: hash_code
  dp_coin_sig :: signature
  dp_wire :: string
  dp_tiny :: bool
  dp_done :: bool

record refunds_row =
  rd_refund_serial_id :: u64
  rd_coin_pub :: pub_key
  rd_merchant_pub :: pub_key
  rd_merchant_sig :: signature
  rd_h_contract_terms :: hash_code
  rd_rtransaction_id :: u64
  rd_amount_with_fee :: sql_amount

record recoup_row =
  rp_recoup_uuid :: u64
  rp_coin_pub :: pub_key
  rp_coin_sig :: signature
  rp_coin_blind :: blinding_key
  rp_amount :: sql_amount
  rp_timestamp :: abs_time
  rp_h_blind_ev :: hash_code

record wire_out_row =
  wo_wireout_uuid :: u64
  wo_execution_date :: abs_time
  wo_wtid_raw :: nat
  wo_wire_target :: string
  wo_exchange_account_section :: string
  wo_amount :: sql_amount

record aggregation_tracking_row =
  at_aggregation_serial_id :: u64
  at_deposit_serial_id :: u64
  at_wtid_raw :: nat

record wire_fee_row =
  wf_wire_method :: string
  wf_start_date :: abs_time
  wf_end_date :: abs_time
  wf_wire_fee :: sql_amount
  wf_closing_fee :: sql_amount
  wf_master_sig :: signature

record prewire_row =
  pw_prewire_uuid :: u64
  pw_type :: string
  pw_finished :: bool
  pw_buf :: string

text \<open>The tables \<^verbatim>\<open>recoup\<close> and \<^verbatim>\<open>recoup_refresh\<close> have the same columns.\<close>

record tables =
  t_denominations :: "denominations_row list"
  t_reserves :: "reserves_row list"
  t_reserves_in :: "reserves_in_row list"
  t_reserves_close :: "reserves_close_row list"
  t_reserves_out :: "reserves_out_row list"
  t_known_coins :: "known_coins_row list"
  t_refresh_commitments :: "refresh_commitments_row list"
  t_refresh_revealed_coins :: "refresh_revealed_coins_row list"
  t_refresh_transfer_keys :: "refresh_transfer_keys_row list"
  t_deposits :: "deposits_row list"
  t_refunds :: "refunds_row list"
  t_recoup :: "recoup_row list"
  t_recoup_refresh :: "recoup_row list"
  t_wire_out :: "wire_out_row list"
  t_aggregation_tracking :: "aggregation_tracking_row list"
  t_wire_fee :: "wire_fee_row list"
  t_prewire :: "prewire_row list"

section \<open>Prepared statements on reserves\<close>

definition sql_reserves_get :: "pub_key \<Rightarrow> tables \<Rightarrow> reserves_row list" where
  "sql_reserves_get pub db = take 1 (filter (\<lambda>r. rv_reserve_pub r = pub) (t_reserves db))"

definition reserve_known :: "tables \<Rightarrow> pub_key \<Rightarrow> bool" where
  "reserve_known db pub \<longleftrightarrow> (\<exists>r\<in>set (t_reserves db). rv_reserve_pub r = pub)"

definition sql_reserve_create :: "reserves_row \<Rightarrow> tables update" where
  "sql_reserve_create row n db =
     (if reserve_known db (rv_reserve_pub row) then Inl PQ_UNIQUE_VIOLATION
      else Inr (1, db\<lparr>t_reserves := t_reserves db @ [row]\<rparr>))"

definition sql_reserve_update ::
    "abs_time \<Rightarrow> abs_time \<Rightarrow> sql_amount \<Rightarrow> pub_key \<Rightarrow> tables update" where
  "sql_reserve_update expiration gc balance pub n db =
     Inr (length (filter (\<lambda>r. rv_reserve_pub r = pub) (t_reserves db)),
          db\<lparr>t_reserves := map (\<lambda>r. if rv_reserve_pub r = pub
                                    then r\<lparr>rv_expiration_date := expiration, rv_gc_date := gc,
                                           rv_current_balance := balance\<rparr>
                                    else r) (t_reserves db)\<rparr>)"

definition sql_reserves_in_add_transaction ::
    "(u64 \<Rightarrow> reserves_in_row) \<Rightarrow> tables update" where
  "sql_reserves_in_add_transaction row n db =
     (if \<exists>r\<in>set (t_reserves_in db). ri_reserve_pub r = ri_reserve_pub (row n)
          \<and> ri_wire_reference r = ri_wire_reference (row n)
      then Inr (0, db)
      else if \<not> reserve_known db (ri_reserve_pub (row n)) then Inl PQ_FOREIGN_KEY_VIOLATION
      else Inr (1, db\<lparr>t_reserves_in := t_reserves_in db @ [row n]\<rparr>))"

definition sql_reserves_close_insert :: "(u64 \<Rightarrow> reserves_close_row) \<Rightarrow> tables update" where
  "sql_reserves_close_insert row n db =
     (if \<not> reserve_known db (rcl_reserve_pub (row n)) then Inl PQ_FOREIGN_KEY_VIOLATION
      else Inr (1, db\<lparr>t_reserves_close := t_reserves_close db @ [row n]\<rparr>))"

definition denom_known :: "tables \<Rightarrow> hash_code \<Rightarrow> bool" where
  "denom_known db h \<longleftrightarrow> (\<exists>d\<in>set (t_denominations db). dn_denom_pub_hash d = h)"

definition sql_insert_withdraw_info :: "(u64 \<Rightarrow> reserves_out_row) \<Rightarrow> tables update" where
  "sql_insert_withdraw_info row n db =
     (if \<exists>r\<in>set (t_reserves_out db). ro_h_blind_ev r = ro_h_blind_ev (row n)
      then Inl PQ_UNIQUE_VIOLATION
      else if \<not> denom_known db (ro_denom_pub_hash (row n))
              \<or> \<not> reserve_known db (ro_reserve_pub (row n))
      then Inl PQ_FOREIGN_KEY_VIOLATION
      else Inr (1, db\<lparr>t_reserves_out := t_reserves_out db @ [row n]\<rparr>))"

definition sql_get_withdraw_info ::
    "hash_code \<Rightarrow> tables \<Rightarrow> (reserves_out_row \<times> denominations_row) list" where
  "sql_get_withdraw_info h db =
     [(r, d). r \<leftarrow> t_reserves_out db, d \<leftarrow> t_denominations db,
              dn_denom_pub_hash d = ro_denom_pub_hash r, ro_h_blind_ev r = h]"

definition sql_reserves_in_get_transactions :: "pub_key \<Rightarrow> tables \<Rightarrow> reserves_in_row list" where
  "sql_reserves_in_get_transactions pub db =
     filter (\<lambda>r. ri_reserve_pub r = pub) (t_reserves_in db)"

definition sql_get_reserves_out ::
    "pub_key \<Rightarrow> tables \<Rightarrow> (reserves_out_row \<times> denominations_row) list" where
  "sql_get_reserves_out pub db =
     [(r, d). r \<leftarrow> t_reserves_out db, d \<leftarrow> t_denominations db,
              dn_denom_pub_hash d = ro_denom_pub_hash r, ro_reserve_pub r = pub]"

definition sql_recoup_by_reserve ::
    "pub_key \<Rightarrow> tables \<Rightarrow> (recoup_row \<times> known_coins_row) list" where
  "sql_recoup_by_reserve pub db =
     [(p, k). p \<leftarrow> t_recoup db, k \<leftarrow> t_known_coins db, kc_coin_pub k = rp_coin_pub p,
              r \<leftarrow> t_reserves_out db, ro_h_blind_ev r = rp_h_blind_ev p, ro_reserve_pub r = pub]"

definition sql_close_by_reserve :: "pub_key \<Rightarrow> tables \<Rightarrow> reserves_close_row list" where
  "sql_close_by_reserve pub db = filter (\<lambda>r. rcl_reserve_pub r = pub) (t_reserves_close db)"

definition sql_reserve_by_h_blind :: "hash_code \<Rightarrow> tables \<Rightarrow> pub_key list" where
  "sql_reserve_by_h_blind h db =
     take 1 [ro_reserve_pub r. r \<leftarrow> t_reserves_out db, ro_h_blind_ev r = h]"

section \<open>Prepared statements on coins\<close>

definition coin_known :: "tables \<Rightarrow> pub_key \<Rightarrow> bool" where
  "coin_known db pub \<longleftrightarrow> (\<exists>k\<in>set (t_known_coins db). kc_coin_pub k = pub)"

definition sql_get_known_coin :: "pub_key \<Rightarrow> tables \<Rightarrow> known_coins_row list" where
  "sql_get_known_coin pub db = filter (\<lambda>k. kc_coin_pub k = pub) (t_known_coins db)"

definition sql_get_coin_denomination :: "pub_key \<Rightarrow> tables \<Rightarrow> hash_code list" where
  "sql_get_coin_denomination pub db = map kc_denom_pub_hash (sql_get_known_coin pub db)"

definition sql_insert_known_coin :: "known_coins_row \<Rightarrow> tables update" where
  "sql_insert_known_coin row n db =
     (if coin_known db (kc_coin_pub row) then Inl PQ_UNIQUE_VIOLATION
      else if \<not> denom_known db (kc_denom_pub_hash row) then Inl PQ_FOREIGN_KEY_VIOLATION
      else Inr (1, db\<lparr>t_known_coins := t_known_coins db @ [row]\<rparr>))"

definition sql_insert_melt :: "(u64 \<Rightarrow> refresh_commitments_row) \<Rightarrow> tables update" where
  "sql_insert_melt row n db =
     (if \<exists>r\<in>set (t_refresh_commitments db). rcm_rc r = rcm_rc (row n)
      then Inl PQ_UNIQUE_VIOLATION
      else if \<not> coin_known db (rcm_old_coin_pub (row n)) then Inl PQ_FOREIGN_KEY_VIOLATION
      else Inr (1, db\<lparr>t_refresh_commitments := t_refresh_commitments db @ [row n]\<rparr>))"

definition sql_get_melt ::
    "hash_code \<Rightarrow> tables \<Rightarrow> (refresh_commitments_row \<times> known_coins_row \<times> denominations_row) list" where
  "sql_get_melt rc db =
     [(m, k, d). m \<leftarrow> t_refresh_commitments db, k \<leftarrow> t_known_coins db,
                 rcm_old_coin_pub m = kc_coin_pub k, d \<leftarrow> t_denominations db,
                 kc_denom_pub_hash k = dn_denom_pub_hash d, rcm_rc m = rc]"

definition sql_get_melt_index :: "hash_code \<Rightarrow> tables \<Rightarrow> u32 list" where
  "sql_get_melt_index rc db =
     [rcm_noreveal_index m. m \<leftarrow> t_refresh_commitments db, rcm_rc m = rc]"

definition sql_insert_refresh_revealed_coin :: "refresh_revealed_coins_row \<Rightarrow> tables update" where
  "sql_insert_refresh_revealed_coin row n db =
     (if \<exists>r\<in>set (t_refresh_revealed_coins db). rrc_coin_ev r = rrc_coin_ev row \<or> rrc_h_coin_ev r = rrc_h_coin_ev row
          \<or> rrc_rc r = rrc_rc row \<and> rrc_freshcoin_index r = rrc_freshcoin_index row
      then Inl PQ_UNIQUE_VIOLATION
      else if \<not> denom_known db (rrc_denom_pub_hash row)
              \<or> (\<forall>m\<in>set (t_refresh_commitments db). rcm_rc m \<noteq> rrc_rc row)
      then Inl PQ_FOREIGN_KEY_VIOLATION
      else Inr (1, db\<lparr>t_refresh_revealed_coins := t_refresh_revealed_coins db @ [row]\<rparr>))"

definition sql_get_refresh_revealed_coins ::
    "hash_code \<Rightarrow> tables \<Rightarrow> (refresh_revealed_coins_row \<times> denominations_row) list" where
  "sql_get_refresh_revealed_coins rc db =
     sort_key (\<lambda>(r, d). unat (rrc_freshcoin_index r))
       [(r, d). r \<leftarrow> t_refresh_revealed_coins db, d \<leftarrow> t_denominations db,
                dn_denom_pub_hash d = rrc_denom_pub_hash r, rrc_rc r = rc]"

definition sql_insert_refresh_transfer_keys :: "refresh_transfer_keys_row \<Rightarrow> tables update" where
  "sql_insert_refresh_transfer_keys row n db =
     (if \<exists>r\<in>set (t_refresh_transfer_keys db). rtk_rc r = rtk_rc row then Inl PQ_UNIQUE_VIOLATION
      else if \<forall>m\<in>set (t_refresh_commitments db). rcm_rc m \<noteq> rtk_rc row then Inl PQ_FOREIGN_KEY_VIOLATION
      else Inr (1, db\<lparr>t_refresh_transfer_keys := t_refresh_transfer_keys db @ [row]\<rparr>))"

definition sql_get_refresh_transfer_keys :: "hash_code \<Rightarrow> tables \<Rightarrow> refresh_transfer_keys_row list" where
  "sql_get_refresh_transfer_keys rc db = filter (\<lambda>r. rtk_rc r = rc) (t_refresh_transfer_keys db)"

definition sql_insert_deposit :: "(u64 \<Rightarrow> deposits_row) \<Rightarrow> tables update" where
  "sql_insert_deposit row n db =
     (if \<exists>r\<in>set (t_deposits db). dp_coin_pub r = dp_coin_pub (row n)
          \<and> dp_merchant_pub r = dp_merchant_pub (row n)
          \<and> dp_h_contract_terms r = dp_h_contract_terms (row n)
      then Inl PQ_UNIQUE_VIOLATION
      else if \<not> coin_known db (dp_coin_pub (row n)) then Inl PQ_FOREIGN_KEY_VIOLATION
      else Inr (1, db\<lparr>t_deposits := t_deposits db @ [row n]\<rparr>))"

definition sql_get_deposit ::
    "pub_key \<Rightarrow> hash_code \<Rightarrow> pub_key \<Rightarrow> tables \<Rightarrow> deposits_row list" where
  "sql_get_deposit coin h_contract_terms merchant db =
     filter (\<lambda>r. dp_coin_pub r = coin \<and> dp_merchant_pub r = merchant
                 \<and> dp_h_contract_terms r = h_contract_terms) (t_deposits db)"

definition sql_test_deposit_done ::
    "pub_key \<Rightarrow> pub_key \<Rightarrow> hash_code \<Rightarrow> hash_code \<Rightarrow> tables \<Rightarrow> bool list" where
  "sql_test_deposit_done coin merchant h_contract_terms h_wire db =
     map dp_done (filter (\<lambda>r. dp_coin_pub r = coin \<and> dp_merchant_pub r = merchant
                 \<and> dp_h_contract_terms r = h_contract_terms \<and> dp_h_wire r = h_wire) (t_deposits db))"

definition sql_mark_deposit_tiny :: "u64 \<Rightarrow> tables update" where
  "sql_mark_deposit_tiny rowid n db =
     Inr (length (filter (\<lambda>r. dp_deposit_serial_id r = rowid) (t_deposits db)),
          db\<lparr>t_deposits := map (\<lambda>r. if dp_deposit_serial_id r = rowid then r\<lparr>dp_tiny := True\<rparr> else r)
                             (t_deposits db)\<rparr>)"

definition sql_mark_deposit_done :: "u64 \<Rightarrow> tables update" where
  "sql_mark_deposit_done rowid n db =
     Inr (length (filter (\<lambda>r. dp_deposit_serial_id r = rowid) (t_deposits db)),
          db\<lparr>t_deposits := map (\<lambda>r. if dp_deposit_serial_id r = rowid then r\<lparr>dp_done := True\<rparr> else r)
                             (t_deposits db)\<rparr>)"

definition sql_insert_refund :: "(u64 \<Rightarrow> refunds_row) \<Rightarrow> tables update" where
  "sql_insert_refund row n db =
     (if \<exists>r\<in>set (t_refunds db). rd_coin_pub r = rd_coin_pub (row n)
          \<and> rd_merchant_pub r = rd_merchant_pub (row n)
          \<and> rd_h_contract_terms r = rd_h_contract_terms (row n)
          \<and> rd_rtransaction_id r = rd_rtransaction_id (row n)
      then Inl PQ_UNIQUE_VIOLATION
      else if \<not> coin_known db (rd_coin_pub (row n)) then Inl PQ_FOREIGN_KEY_VIOLATION
      else Inr (1, db\<lparr>t_refunds := t_refunds db @ [row n]\<rparr>))"

definition sql_get_refunds_by_coin_and_contract ::
    "pub_key \<Rightarrow> pub_key \<Rightarrow> hash_code \<Rightarrow> tables \<Rightarrow> refunds_row list" where
  "sql_get_refunds_by_coin_and_contract coin merchant h_contract db =
     filter (\<lambda>r. rd_coin_pub r = coin \<and> rd_merchant_pub r = merchant
                 \<and> rd_h_contract_terms r = h_contract) (t_refunds db)"

definition sql_recoup_insert :: "(u64 \<Rightarrow> recoup_row) \<Rightarrow> tables update" where
  "sql_recoup_insert row n db =
     (if \<not> coin_known db (rp_coin_pub (row n))
         \<or> (\<forall>r\<in>set (t_reserves_out db). ro_h_blind_ev r \<noteq> rp_h_blind_ev (row n))
      then Inl PQ_FOREIGN_KEY_VIOLATION
      else Inr (1, db\<lparr>t_recoup := t_recoup db @ [row n]\<rparr>))"

definition sql_recoup_refresh_insert :: "(u64 \<Rightarrow> recoup_row) \<Rightarrow> tables update" where
  "sql_recoup_refresh_insert row n db =
     (if \<not> coin_known db (rp_coin_pub (row n))
         \<or> (\<forall>r\<in>set (t_refresh_revealed_coins db). rrc_h_coin_ev r \<noteq> rp_h_blind_ev (row n))
      then Inl PQ_FOREIGN_KEY_VIOLATION
      else Inr (1, db\<lparr>t_recoup_refresh := t_recoup_refresh db @ [row n]\<rparr>))"

definition sql_old_coin_by_h_blind :: "hash_code \<Rightarrow> tables \<Rightarrow> pub_key list" where
  "sql_old_coin_by_h_blind h db =
     take 1 [rcm_old_coin_pub m. r \<leftarrow> t_refresh_revealed_coins db, m \<leftarrow> t_refresh_commitments db,
                                 rrc_rc r = rcm_rc m, rrc_h_coin_ev r = h]"

text \<open>The queries for the history of a coin\<close>

definition sql_get_deposit_with_coin_pub ::
    "pub_key \<Rightarrow> tables \<Rightarrow> (deposits_row \<times> denominations_row) list" where
  "sql_get_deposit_with_coin_pub pub db =
     [(r, d). r \<leftarrow> t_deposits db, k \<leftarrow> t_known_coins db, kc_coin_pub k = dp_coin_pub r,
              d \<leftarrow> t_denominations db, dn_denom_pub_hash d = kc_denom_pub_hash k,
              dp_coin_pub r = pub]"

definition sql_get_refresh_session_by_coin ::
    "pub_key \<Rightarrow> tables \<Rightarrow> (refresh_commitments_row \<times> denominations_row) list" where
  "sql_get_refresh_session_by_coin pub db =
     [(m, d). m \<leftarrow> t_refresh_commitments db, k \<leftarrow> t_known_coins db,
              rcm_old_coin_pub m = kc_coin_pub k, d \<leftarrow> t_denominations db,
              dn_denom_pub_hash d = kc_denom_pub_hash k, rcm_old_coin_pub m = pub]"

definition sql_get_refunds_by_coin ::
    "pub_key \<Rightarrow> tables \<Rightarrow> (refunds_row \<times> denominations_row) list" where
  "sql_get_refunds_by_coin pub db =
     [(r, d). r \<leftarrow> t_refunds db, k \<leftarrow> t_known_coins db, kc_coin_pub k = rd_coin_pub r,
              d \<leftarrow> t_denominations db, dn_denom_pub_hash d = kc_denom_pub_hash k,
              rd_coin_pub r = pub]"

definition sql_recoup_by_old_coin ::
    "pub_key \<Rightarrow> tables \<Rightarrow> (recoup_row \<times> known_coins_row) list" where
  "sql_recoup_by_old_coin pub db =
     [(p, k). p \<leftarrow> t_recoup_refresh db, k \<leftarrow> t_known_coins db, kc_coin_pub k = rp_coin_pub p,
              rp_h_blind_ev p \<in> set [rrc_h_coin_ev r. m \<leftarrow> t_refresh_commitments db,
                                      r \<leftarrow> t_refresh_revealed_coins db, rrc_rc r = rcm_rc m,
                                      rcm_old_coin_pub m = pub]]"

definition sql_recoup_by_coin ::
    "pub_key \<Rightarrow> tables \<Rightarrow> (recoup_row \<times> reserves_out_row) list" where
  "sql_recoup_by_coin pub db =
     [(p, r). p \<leftarrow> t_recoup db, r \<leftarrow> t_reserves_out db, ro_h_blind_ev r = rp_h_blind_ev p,
              rp_coin_pub p = pub]"

definition sql_recoup_by_refreshed_coin ::
    "pub_key \<Rightarrow> tables \<Rightarrow> (recoup_row \<times> refresh_commitments_row \<times> known_coins_row) list" where
  "sql_recoup_by_refreshed_coin pub db =
     [(p, m, k). p \<leftarrow> t_recoup_refresh db, r \<leftarrow> t_refresh_revealed_coins db,
                 rrc_h_coin_ev r = rp_h_blind_ev p, m \<leftarrow> t_refresh_commitments db,
                 rrc_rc r = rcm_rc m, k \<leftarrow> t_known_coins db, kc_coin_pub k = rp_coin_pub p,
                 rp_coin_pub p = pub]"

section \<open>Amounts and times in the tables\<close>

definition sqlamt :: "sql_amount \<Rightarrow> int" where
  "sqlamt x = uint (fst x) * 100000000 + uint (snd x)"

definition sql_normal :: "sql_amount \<Rightarrow> bool" where
  "sql_normal x \<longleftrightarrow> unat (snd x) < 100000000 \<and> sqlamt x < AMT_LIMIT"

text \<open>A configured currency that fits into an amount\<close>

definition pg_ok :: "PostgresClosure \<Rightarrow> bool" where
  "pg_ok pg \<longleftrightarrow> cstr (pg_currency pg) \<noteq> [] \<and> strlen (pg_currency pg) < TALER_CURRENCY_LEN"

lemma sqlamt_nonneg [simp]: "0 \<le> sqlamt x"
  by (simp add: sqlamt_def)

lemma amt_uint: "amt a = uint (amt_value a) * 100000000 + uint (amt_fraction a)"
  by (simp add: amt_def amount_units_def)

lemma query_param_amount:
  assumes "amount_in c a"
  obtains x where "TALER_PQ_query_param_amount a = Some x" and "sqlamt x = amt a" and "sql_normal x"
  using assms
  by (intro that [of "(amt_value a, amt_fraction a)"])
    (auto simp: TALER_PQ_query_param_amount_def amount_in_def amount_wf_def amount_normal_def
      sql_normal_def sqlamt_def amt_uint)

lemma result_spec_amount:
  assumes "pg_ok pg" and "sql_normal x"
  obtains a where "TALER_PQ_result_spec_amount (pg_currency pg) x = Some a"
    and "amount_in (pg_currency pg) a" and "amt a = sqlamt x"
proof
  let ?c = "pg_currency pg"
  let ?a = "\<lparr>amt_value = fst x, amt_fraction = snd x,
              amt_currency = cstr ?c @ replicate (TALER_CURRENCY_LEN - strlen ?c) NUL\<rparr>"
  have c: "cstr (amt_currency ?a) = cstr ?c" by (simp add: cstr_pad)
  then have v: "TALER_amount_is_valid ?a"
    using assms(1) by (simp add: valid_iff_cstr pg_ok_def)
  have len: "min (TALER_CURRENCY_LEN - 1) (strlen ?c) = strlen ?c"
    using assms(1) by (auto simp: pg_ok_def min_def)
  have take: "take (strlen ?c) (cstr ?c) = cstr ?c" by (simp add: strlen_def)
  show "TALER_PQ_result_spec_amount ?c x = Some ?a"
    unfolding TALER_PQ_result_spec_amount_def Let_def len take using v by simp
  show amt: "amt ?a = sqlamt x" by (simp add: amt_uint sqlamt_def)
  show "amount_in ?c ?a"
    unfolding amount_in_def amount_normal_def amt amount_wf_def
    using v c assms by (simp add: sql_normal_def strcasecmp_eq_def strlen_def pg_ok_def)
qed

lemma query_param_rounded:
  "gnunet_ok g \<Longrightarrow> TALER_PQ_query_param_absolute_time g (GNUNET_TIME_round_abs g t)
     = Some (GNUNET_TIME_round_abs g t)"
  by (simp add: TALER_PQ_query_param_absolute_time_def gnunet_ok_def)

end
