(* ===== verification/Exchangedb_Reserves.thy ===== *)
theory Exchangedb_Reserves
  imports Exchangedb_Tables
begin

text \<open>
  The operations of \<^verbatim>\<open>src/exchangedb/plugin_exchangedb_postgres.c\<close> on reserves: incoming wire
  transfers, withdrawals, recoups into a reserve, closing, and the history of a reserve. Each
  operation threads the session; an output structure is returned as an \<open>option\<close>, \<open>None\<close> where
  the C code leaves it unset. The clock reading of an operation is an argument.

  The main result is that every operation that reports success keeps the balance of every
  reserve equal to what its history adds up to, and the integrity of the tables.
\<close>

section \<open>Operations\<close>

definition postgres_reserves_get ::
    "gnunet \<Rightarrow> PostgresClosure \<Rightarrow> pub_key \<Rightarrow> tables session
       \<Rightarrow> ((int \<times> TALER_EXCHANGEDB_Reserve option) \<times> tables session) option" where
  "postgres_reserves_get g pg pub s = do {
     ((qs, row), s) \<leftarrow> pq_singleton_select g (sql_reserves_get pub) s;
     case row of
       None \<Rightarrow> Some ((qs, None), s)
     | Some r \<Rightarrow> do {
         balance \<leftarrow> TALER_PQ_result_spec_amount (pg_currency pg) (rv_current_balance r);
         Some ((qs, Some \<lparr>reserve_pub = pub, reserve_balance = balance,
                          reserve_expiry = TALER_PQ_result_spec_absolute_time g (rv_expiration_date r),
                          reserve_gc = TALER_PQ_result_spec_absolute_time g (rv_gc_date r)\<rparr>), s)
       }
   }"

definition reserves_update ::
    "gnunet \<Rightarrow> TALER_EXCHANGEDB_Reserve \<Rightarrow> tables session \<Rightarrow> (int \<times> tables session) option" where
  "reserves_update g reserve s = do {
     expiry \<leftarrow> TALER_PQ_query_param_absolute_time g (reserve_expiry reserve);
     gc \<leftarrow> TALER_PQ_query_param_absolute_time g (reserve_gc reserve);
     balance \<leftarrow> TALER_PQ_query_param_amount (reserve_balance reserve);
     pq_non_select g (sql_reserve_update expiry gc balance (reserve_pub reserve)) s
   }"

text \<open>The part of \<^verbatim>\<open>postgres_reserves_in_insert\<close> that runs after the incoming transfer was stored\<close>

definition reserves_in_update ::
    "gnunet \<Rightarrow> abs_time \<Rightarrow> TALER_Amount \<Rightarrow> TALER_EXCHANGEDB_Reserve \<Rightarrow> tables session
       \<Rightarrow> (int \<times> tables session) option" where
  "reserves_in_update g expiry balance reserve s = do {
     (r, sum) \<leftarrow> TALER_amount_add (reserve_balance reserve) balance;
     if 0 > r then Some (GNUNET_DB_STATUS_HARD_ERROR, s)
     else do {
       let up_expiry = GNUNET_TIME_round_abs g (GNUNET_TIME_absolute_max g expiry (reserve_expiry reserve));
       let up_gc = GNUNET_TIME_round_abs g (GNUNET_TIME_absolute_max g up_expiry (reserve_gc reserve));
       reserves_update g \<lparr>reserve_pub = reserve_pub reserve, reserve_balance = sum,
                          reserve_expiry = up_expiry, reserve_gc = up_gc\<rparr> s
     }
   }"

text \<open>The part that stores the incoming transfer\<close>

definition reserves_in_store ::
    "gnunet \<Rightarrow> pub_key \<Rightarrow> TALER_Amount \<Rightarrow> abs_time \<Rightarrow> string \<Rightarrow> string \<Rightarrow> u64 \<Rightarrow> abs_time \<Rightarrow> int
       \<Rightarrow> TALER_EXCHANGEDB_Reserve option \<Rightarrow> tables session \<Rightarrow> (int \<times> tables session) option" where
  "reserves_in_store g pub balance execution_time sender_account_details exchange_account_section
       wire_ref expiry reserve_exists reserve s = do {
     credit \<leftarrow> TALER_PQ_query_param_amount balance;
     execution_date \<leftarrow> TALER_PQ_query_param_absolute_time g execution_time;
     (qs, s) \<leftarrow> pq_non_select g (sql_reserves_in_add_transaction
                  (\<lambda>n. \<lparr>ri_serial_id = n, ri_reserve_pub = pub, ri_wire_reference = wire_ref,
                        ri_credit = credit, ri_sender_account_details = sender_account_details,
                        ri_exchange_account_section = exchange_account_section,
                        ri_execution_date = execution_date\<rparr>)) s;
     if qs \<noteq> GNUNET_DB_STATUS_SUCCESS_ONE_RESULT then Some (qs, s)
     else if reserve_exists = GNUNET_DB_STATUS_SUCCESS_ONE_RESULT
     then (case reserve of None \<Rightarrow> None | Some r \<Rightarrow> reserves_in_update g expiry balance r s)
     else Some (GNUNET_DB_STATUS_SUCCESS_ONE_RESULT, s)
   }"

definition postgres_reserves_in_insert ::
    "gnunet \<Rightarrow> PostgresClosure \<Rightarrow> pub_key \<Rightarrow> TALER_Amount \<Rightarrow> abs_time \<Rightarrow> string \<Rightarrow> string \<Rightarrow> u64
       \<Rightarrow> tables session \<Rightarrow> (int \<times> tables session) option" where
  "postgres_reserves_in_insert g pg pub balance execution_time sender_account_details
       exchange_account_section wire_ref s = do {
     ((reserve_exists, reserve), s) \<leftarrow> postgres_reserves_get g pg pub s;
     if 0 > reserve_exists then Some (reserve_exists, s)
     else do {
       let expiry = GNUNET_TIME_round_abs g
                      (GNUNET_TIME_absolute_add g execution_time (pg_idle_reserve_expiration_time pg));
       (qs, s) \<leftarrow>
         (if reserve_exists = GNUNET_DB_STATUS_SUCCESS_NO_RESULTS
          then do {
            credit \<leftarrow> TALER_PQ_query_param_amount balance;
            e \<leftarrow> TALER_PQ_query_param_absolute_time g expiry;
            (qs, s) \<leftarrow> pq_non_select g (sql_reserve_create
                         \<lparr>rv_reserve_pub = pub, rv_account_details = sender_account_details,
                          rv_current_balance = credit, rv_expiration_date = e, rv_gc_date = e\<rparr>) s;
            if qs = GNUNET_DB_STATUS_SUCCESS_NO_RESULTS then Some (GNUNET_DB_STATUS_SOFT_ERROR, s)
            else Some (qs, s)
          }
          else Some (GNUNET_DB_STATUS_SUCCESS_ONE_RESULT, s));
       if 0 > qs then Some (qs, s)
       else reserves_in_store g pub balance execution_time sender_account_details
              exchange_account_section wire_ref expiry reserve_exists reserve s
     }
   }"

definition postgres_get_withdraw_info ::
    "gnunet \<Rightarrow> PostgresClosure \<Rightarrow> hash_code \<Rightarrow> tables session
       \<Rightarrow> ((int \<times> TALER_EXCHANGEDB_CollectableBlindcoin option) \<times> tables session) option" where
  "postgres_get_withdraw_info g pg h_blind s = do {
     ((qs, row), s) \<leftarrow> pq_singleton_select g (sql_get_withdraw_info h_blind) s;
     case row of
       None \<Rightarrow> Some ((qs, None), s)
     | Some (r, d) \<Rightarrow> do {
         amount_with_fee \<leftarrow> TALER_PQ_result_spec_amount (pg_currency pg) (ro_amount_with_fee r);
         withdraw_fee \<leftarrow> TALER_PQ_result_spec_amount (pg_currency pg) (dn_fee_withdraw d);
         Some ((qs, Some \<lparr>cb_sig = ro_denom_sig r, cb_denom_pub_hash = ro_denom_pub_hash r,
                          cb_amount_with_fee = amount_with_fee, cb_withdraw_fee = withdraw_fee,
                          cb_reserve_pub = ro_reserve_pub r, cb_h_coin_envelope = h_blind,
                          cb_reserve_sig = ro_reserve_sig r\<rparr>), s)
       }
   }"

definition postgres_insert_withdraw_info ::
    "gnunet \<Rightarrow> PostgresClosure \<Rightarrow> abs_time \<Rightarrow> TALER_EXCHANGEDB_CollectableBlindcoin
       \<Rightarrow> tables session \<Rightarrow> (int \<times> tables session) option" where
  "postgres_insert_withdraw_info g pg clock collectable s = do {
     let now = GNUNET_TIME_round_abs g clock;
     execution_date \<leftarrow> TALER_PQ_query_param_absolute_time g now;
     amount \<leftarrow> TALER_PQ_query_param_amount (cb_amount_with_fee collectable);
     (qs, s) \<leftarrow> pq_non_select g (sql_insert_withdraw_info
                  (\<lambda>n. \<lparr>ro_serial_id = n, ro_h_blind_ev = cb_h_coin_envelope collectable,
                        ro_denom_pub_hash = cb_denom_pub_hash collectable,
                        ro_denom_sig = cb_sig collectable,
                        ro_reserve_pub = cb_reserve_pub collectable,
                        ro_reserve_sig = cb_reserve_sig collectable,
                        ro_execution_date = execution_date, ro_amount_with_fee = amount\<rparr>)) s;
     if qs \<noteq> GNUNET_DB_STATUS_SUCCESS_ONE_RESULT then Some (qs, s)
     else do {
       ((qs, reserve), s) \<leftarrow> postgres_reserves_get g pg (cb_reserve_pub collectable) s;
       case reserve of
         None \<Rightarrow> Some (if qs = GNUNET_DB_STATUS_SUCCESS_NO_RESULTS
                       then GNUNET_DB_STATUS_HARD_ERROR else qs, s)
       | Some reserve \<Rightarrow> do {
           (r, diff) \<leftarrow> TALER_amount_subtract (reserve_balance reserve) (reserve_balance reserve)
                          (cb_amount_with_fee collectable);
           if 0 > r then Some (GNUNET_DB_STATUS_SOFT_ERROR, s)
           else do {
             let expiry = GNUNET_TIME_absolute_add g now (pg_legal_reserve_expiration_time pg);
             let gc = GNUNET_TIME_round_abs g (GNUNET_TIME_absolute_max g expiry (reserve_gc reserve));
             (qs, s) \<leftarrow> reserves_update g (reserve\<lparr>reserve_balance := diff, reserve_gc := gc\<rparr>) s;
             Some (if qs = GNUNET_DB_STATUS_SUCCESS_NO_RESULTS
                   then GNUNET_DB_STATUS_HARD_ERROR else qs, s)
           }
         }
     }
   }"

definition postgres_insert_reserve_closed ::
    "gnunet \<Rightarrow> PostgresClosure \<Rightarrow> pub_key \<Rightarrow> abs_time \<Rightarrow> string \<Rightarrow> nat \<Rightarrow> TALER_Amount \<Rightarrow> TALER_Amount
       \<Rightarrow> tables session \<Rightarrow> (int \<times> tables session) option" where
  "postgres_insert_reserve_closed g pg pub execution_date receiver_account wtid amount_with_fee
       closing_fee s = do {
     date \<leftarrow> TALER_PQ_query_param_absolute_time g execution_date;
     amount \<leftarrow> TALER_PQ_query_param_amount amount_with_fee;
     fee \<leftarrow> TALER_PQ_query_param_amount closing_fee;
     (qs, s) \<leftarrow> pq_non_select g (sql_reserves_close_insert
                  (\<lambda>n. \<lparr>rcl_close_uuid = n, rcl_reserve_pub = pub, rcl_execution_date = date,
                        rcl_wtid = wtid, rcl_receiver_account = receiver_account,
                        rcl_amount = amount, rcl_closing_fee = fee\<rparr>)) s;
     if qs \<noteq> GNUNET_DB_STATUS_SUCCESS_ONE_RESULT then Some (qs, s)
     else do {
       ((qs, reserve), s) \<leftarrow> postgres_reserves_get g pg pub s;
       case reserve of
         None \<Rightarrow> Some (if qs = GNUNET_DB_STATUS_SUCCESS_NO_RESULTS
                       then GNUNET_DB_STATUS_HARD_ERROR else qs, s)
       | Some reserve \<Rightarrow> do {
           (r, diff) \<leftarrow> TALER_amount_subtract (reserve_balance reserve) (reserve_balance reserve)
                          amount_with_fee;
           if r < 0 then Some (GNUNET_DB_STATUS_HARD_ERROR, s)
           else reserves_update g (reserve\<lparr>reserve_balance := diff\<rparr>) s
         }
     }
   }"

definition postgres_insert_recoup_request ::
    "gnunet \<Rightarrow> PostgresClosure \<Rightarrow> pub_key \<Rightarrow> TALER_CoinPublicInfo \<Rightarrow> signature \<Rightarrow> blinding_key
       \<Rightarrow> TALER_Amount \<Rightarrow> hash_code \<Rightarrow> abs_time \<Rightarrow> tables session \<Rightarrow> (int \<times> tables session) option" where
  "postgres_insert_recoup_request g pg pub coin coin_sig coin_blind amount h_blind_ev timestamp s = do {
     sql_amount \<leftarrow> TALER_PQ_query_param_amount amount;
     date \<leftarrow> TALER_PQ_query_param_absolute_time g timestamp;
     (qs, s) \<leftarrow> pq_non_select g (sql_recoup_insert
                  (\<lambda>n. \<lparr>rp_recoup_uuid = n, rp_coin_pub = coin_pub coin, rp_coin_sig = coin_sig,
                        rp_coin_blind = coin_blind, rp_amount = sql_amount, rp_timestamp = date,
                        rp_h_blind_ev = h_blind_ev\<rparr>)) s;
     if 0 > qs then Some (qs, s)
     else do {
       ((qs, reserve), s) \<leftarrow> postgres_reserves_get g pg pub s;
       case reserve of
         None \<Rightarrow> Some (qs, s)
       | Some reserve \<Rightarrow> do {
           (r, sum) \<leftarrow> TALER_amount_add (reserve_balance reserve) amount;
           if 0 > r then Some (GNUNET_DB_STATUS_HARD_ERROR, s)
           else do {
             let gc = GNUNET_TIME_round_abs g (GNUNET_TIME_absolute_max g
                        (GNUNET_TIME_absolute_add g timestamp (pg_legal_reserve_expiration_time pg))
                        (reserve_gc reserve));
             let expiry = GNUNET_TIME_round_abs g (GNUNET_TIME_absolute_max g
                        (GNUNET_TIME_absolute_add g timestamp (pg_idle_reserve_expiration_time pg))
                        (reserve_expiry reserve));
             reserves_update g (reserve\<lparr>reserve_balance := sum, reserve_gc := gc,
                                        reserve_expiry := expiry\<rparr>) s
           }
         }
     }
   }"

definition postgres_get_reserve_by_h_blind ::
    "gnunet \<Rightarrow> hash_code \<Rightarrow> tables session \<Rightarrow> ((int \<times> pub_key option) \<times> tables session) option" where
  "postgres_get_reserve_by_h_blind g h_blind_ev s = pq_singleton_select g (sql_reserve_by_h_blind h_blind_ev) s"

section \<open>The history of a reserve\<close>

text \<open>The callbacks that turn a row into an entry\<close>

definition add_bank_to_exchange ::
    "gnunet \<Rightarrow> PostgresClosure \<Rightarrow> pub_key \<Rightarrow> reserves_in_row \<Rightarrow> TALER_EXCHANGEDB_ReserveHistory option" where
  "add_bank_to_exchange g pg pub r = do {
     amount \<leftarrow> TALER_PQ_result_spec_amount (pg_currency pg) (ri_credit r);
     Some (TALER_EXCHANGEDB_RO_BANK_TO_EXCHANGE
       \<lparr>bt_reserve_pub = pub, bt_amount = amount,
        bt_execution_date = TALER_PQ_result_spec_absolute_time g (ri_execution_date r),
        bt_sender_account_details = ri_sender_account_details r,
        bt_wire_reference = ri_wire_reference r\<rparr>)
   }"

definition add_withdraw_coin ::
    "PostgresClosure \<Rightarrow> pub_key \<Rightarrow> reserves_out_row \<times> denominations_row
       \<Rightarrow> TALER_EXCHANGEDB_ReserveHistory option" where
  "add_withdraw_coin pg pub = (\<lambda>(r, d). do {
     amount_with_fee \<leftarrow> TALER_PQ_result_spec_amount (pg_currency pg) (ro_amount_with_fee r);
     withdraw_fee \<leftarrow> TALER_PQ_result_spec_amount (pg_currency pg) (dn_fee_withdraw d);
     Some (TALER_EXCHANGEDB_RO_WITHDRAW_COIN
       \<lparr>cb_sig = ro_denom_sig r, cb_denom_pub_hash = ro_denom_pub_hash r,
        cb_amount_with_fee = amount_with_fee, cb_withdraw_fee = withdraw_fee,
        cb_reserve_pub = pub, cb_h_coin_envelope = ro_h_blind_ev r,
        cb_reserve_sig = ro_reserve_sig r\<rparr>)
   })"

definition add_recoup ::
    "gnunet \<Rightarrow> PostgresClosure \<Rightarrow> pub_key \<Rightarrow> recoup_row \<times> known_coins_row
       \<Rightarrow> TALER_EXCHANGEDB_ReserveHistory option" where
  "add_recoup g pg pub = (\<lambda>(p, k). do {
     amount \<leftarrow> TALER_PQ_result_spec_amount (pg_currency pg) (rp_amount p);
     Some (TALER_EXCHANGEDB_RO_RECOUP_COIN
       \<lparr>rec_coin = \<lparr>coin_pub = rp_coin_pub p, coin_denom_pub_hash = kc_denom_pub_hash k,
                    coin_denom_sig = kc_denom_sig k\<rparr>,
        rec_coin_blind = rp_coin_blind p, rec_coin_sig = rp_coin_sig p, rec_reserve_pub = pub,
        rec_value = amount,
        rec_timestamp = TALER_PQ_result_spec_absolute_time g (rp_timestamp p)\<rparr>)
   })"

definition add_exchange_to_bank ::
    "gnunet \<Rightarrow> PostgresClosure \<Rightarrow> pub_key \<Rightarrow> reserves_close_row \<Rightarrow> TALER_EXCHANGEDB_ReserveHistory option" where
  "add_exchange_to_bank g pg pub r = do {
     amount \<leftarrow> TALER_PQ_result_spec_amount (pg_currency pg) (rcl_amount r);
     fee \<leftarrow> TALER_PQ_result_spec_amount (pg_currency pg) (rcl_closing_fee r);
     Some (TALER_EXCHANGEDB_RO_EXCHANGE_TO_BANK
       \<lparr>ct_reserve_pub = pub, ct_amount = amount, ct_closing_fee = fee,
        ct_execution_date = TALER_PQ_result_spec_absolute_time g (rcl_execution_date r),
        ct_receiver_account_details = rcl_receiver_account r, ct_wtid = rcl_wtid r\<rparr>)
   }"

text \<open>One entry of the table \<^verbatim>\<open>work\<close>: a query whose rows are processed from the last to the first; the
  flag is the error status of the callback context.\<close>

definition history_select ::
    "gnunet \<Rightarrow> (tables \<Rightarrow> 'r list) \<Rightarrow> ('r \<Rightarrow> 'e option) \<Rightarrow> tables session
       \<Rightarrow> ((int \<times> 'e list \<times> bool) \<times> tables session) option" where
  "history_select g query cb s = do {
     ((qs, rows, bad), s) \<leftarrow> pq_multi_select g query s;
     if bad then Some ((qs, [], True), s)
     else do {
       entries \<leftarrow> those (map cb (rev rows));
       Some ((qs, entries, False), s)
     }
   }"

fun reserve_history_work ::
    "(tables session \<Rightarrow> ((int \<times> 'e list \<times> bool) \<times> tables session) option) list \<Rightarrow> int \<Rightarrow> 'e list
       \<Rightarrow> tables session \<Rightarrow> ((int \<times> 'e list) \<times> tables session) option" where
  "reserve_history_work [] qs rh s = Some ((qs, rh), s)"
| "reserve_history_work (w # ws) _ rh s = do {
     ((qs, entries, bad), s) \<leftarrow> w s;
     if 0 > qs then Some ((qs, []), s)
     else if bad then Some ((GNUNET_DB_STATUS_HARD_ERROR, []), s)
     else reserve_history_work ws qs (rh @ entries) s
   }"

definition postgres_get_reserve_history ::
    "gnunet \<Rightarrow> PostgresClosure \<Rightarrow> pub_key \<Rightarrow> tables session
       \<Rightarrow> ((int \<times> TALER_EXCHANGEDB_ReserveHistory list) \<times> tables session) option" where
  "postgres_get_reserve_history g pg pub s =
     reserve_history_work
       [history_select g (sql_reserves_in_get_transactions pub) (add_bank_to_exchange g pg pub),
        history_select g (sql_get_reserves_out pub) (add_withdraw_coin pg pub),
        history_select g (sql_recoup_by_reserve pub) (add_recoup g pg pub),
        history_select g (sql_close_by_reserve pub) (add_exchange_to_bank g pg pub)]
       GNUNET_DB_STATUS_SUCCESS_NO_RESULTS [] s"

section \<open>Integrity of the reserve tables\<close>

text \<open>What the history of a reserve adds up to\<close>

definition blind_of_reserve :: "tables \<Rightarrow> pub_key \<Rightarrow> hash_code \<Rightarrow> bool" where
  "blind_of_reserve db pub h \<longleftrightarrow>
     (\<exists>r\<in>set (t_reserves_out db). ro_h_blind_ev r = h \<and> ro_reserve_pub r = pub)"

definition reserve_in_total :: "tables \<Rightarrow> pub_key \<Rightarrow> int" where
  "reserve_in_total db pub = (\<Sum>r\<leftarrow>filter (\<lambda>r. ri_reserve_pub r = pub) (t_reserves_in db). sqlamt (ri_credit r))"

definition reserve_out_total :: "tables \<Rightarrow> pub_key \<Rightarrow> int" where
  "reserve_out_total db pub =
     (\<Sum>r\<leftarrow>filter (\<lambda>r. ro_reserve_pub r = pub) (t_reserves_out db). sqlamt (ro_amount_with_fee r))"

definition reserve_recoup_total :: "tables \<Rightarrow> pub_key \<Rightarrow> int" where
  "reserve_recoup_total db pub =
     (\<Sum>p\<leftarrow>filter (\<lambda>p. blind_of_reserve db pub (rp_h_blind_ev p)) (t_recoup db). sqlamt (rp_amount p))"

definition reserve_close_total :: "tables \<Rightarrow> pub_key \<Rightarrow> int" where
  "reserve_close_total db pub =
     (\<Sum>r\<leftarrow>filter (\<lambda>r. rcl_reserve_pub r = pub) (t_reserves_close db). sqlamt (rcl_amount r))"

definition reserve_net :: "tables \<Rightarrow> pub_key \<Rightarrow> int" where
  "reserve_net db pub = reserve_in_total db pub + reserve_recoup_total db pub
     - reserve_out_total db pub - reserve_close_total db pub"

text \<open>Keys, foreign keys and legal amounts of the tables that make up the history\<close>

definition reserve_tables_ok :: "tables \<Rightarrow> bool" where
  "reserve_tables_ok db \<longleftrightarrow>
     distinct (map dn_denom_pub_hash (t_denominations db))
     \<and> (\<forall>d\<in>set (t_denominations db). sql_normal (dn_fee_withdraw d))
     \<and> distinct (map ro_h_blind_ev (t_reserves_out db))
     \<and> (\<forall>r\<in>set (t_reserves_in db). sql_normal (ri_credit r))
     \<and> (\<forall>r\<in>set (t_reserves_out db). sql_normal (ro_amount_with_fee r)
           \<and> denom_known db (ro_denom_pub_hash r))
     \<and> (\<forall>r\<in>set (t_reserves_close db). sql_normal (rcl_amount r) \<and> sql_normal (rcl_closing_fee r))
     \<and> distinct (map kc_coin_pub (t_known_coins db))
     \<and> (\<forall>p\<in>set (t_recoup db). sql_normal (rp_amount p) \<and> coin_known db (rp_coin_pub p)
           \<and> (\<exists>r\<in>set (t_reserves_out db). ro_h_blind_ev r = rp_h_blind_ev p))"

text \<open>Every reserve has one row, whose balance is what its history adds up to.\<close>

definition reserves_ok :: "tables \<Rightarrow> bool" where
  "reserves_ok db \<longleftrightarrow> distinct (map rv_reserve_pub (t_reserves db)) \<and>
     (\<forall>r\<in>set (t_reserves db). sql_normal (rv_current_balance r)
         \<and> sqlamt (rv_current_balance r) = reserve_net db (rv_reserve_pub r))
     \<and> (\<forall>r\<in>set (t_reserves_in db). reserve_known db (ri_reserve_pub r))
     \<and> (\<forall>r\<in>set (t_reserves_out db). reserve_known db (ro_reserve_pub r))
     \<and> (\<forall>r\<in>set (t_reserves_close db). reserve_known db (rcl_reserve_pub r))"

text \<open>The tables after \<^verbatim>\<open>reserve_update\<close>\<close>

definition reserve_set :: "abs_time \<Rightarrow> abs_time \<Rightarrow> sql_amount \<Rightarrow> pub_key \<Rightarrow> tables \<Rightarrow> tables" where
  "reserve_set expiration gc balance pub db =
     db\<lparr>t_reserves := map (\<lambda>r. if rv_reserve_pub r = pub
                               then r\<lparr>rv_expiration_date := expiration, rv_gc_date := gc,
                                      rv_current_balance := balance\<rparr>
                               else r) (t_reserves db)\<rparr>"

lemma sql_reserve_update_Inr:
  "sql_reserve_update e gc b pub n db =
     Inr (length (filter (\<lambda>r. rv_reserve_pub r = pub) (t_reserves db)), reserve_set e gc b pub db)"
  by (simp add: sql_reserve_update_def reserve_set_def)

lemma reserve_set_sels [simp]:
  "t_reserves_in (reserve_set e gc b pub db) = t_reserves_in db"
  "t_reserves_out (reserve_set e gc b pub db) = t_reserves_out db"
  "t_reserves_close (reserve_set e gc b pub db) = t_reserves_close db"
  "t_recoup (reserve_set e gc b pub db) = t_recoup db"
  "t_recoup_refresh (reserve_set e gc b pub db) = t_recoup_refresh db"
  "t_known_coins (reserve_set e gc b pub db) = t_known_coins db"
  "t_denominations (reserve_set e gc b pub db) = t_denominations db"
  "t_deposits (reserve_set e gc b pub db) = t_deposits db"
  "t_refunds (reserve_set e gc b pub db) = t_refunds db"
  "t_refresh_commitments (reserve_set e gc b pub db) = t_refresh_commitments db"
  "t_refresh_revealed_coins (reserve_set e gc b pub db) = t_refresh_revealed_coins db"
  by (simp_all add: reserve_set_def)

lemma reserve_known_iff: "reserve_known db p \<longleftrightarrow> p \<in> set (map rv_reserve_pub (t_reserves db))"
  by (auto simp: reserve_known_def)

lemma map_pub_reserve_set [simp]:
  "map rv_reserve_pub (t_reserves (reserve_set e gc b pub db)) = map rv_reserve_pub (t_reserves db)"
  by (simp add: reserve_set_def)

lemma reserve_known_set [simp]: "reserve_known (reserve_set e gc b pub db) p = reserve_known db p"
  unfolding reserve_known_iff map_pub_reserve_set ..

lemmas reserve_total_defs = reserve_net_def reserve_in_total_def reserve_out_total_def
  reserve_recoup_total_def reserve_close_total_def blind_of_reserve_def

lemma reserve_net_set [simp]: "reserve_net (reserve_set e gc b pub db) p = reserve_net db p"
  by (simp add: reserve_total_defs)

lemma reserve_net_reserves [simp]: "reserve_net (db\<lparr>t_reserves := x\<rparr>) p = reserve_net db p"
  by (simp add: reserve_total_defs)

lemma reserve_net_in [simp]:
  "reserve_net (db\<lparr>t_reserves_in := t_reserves_in db @ [x]\<rparr>) p =
     reserve_net db p + (if ri_reserve_pub x = p then sqlamt (ri_credit x) else 0)"
  by (simp add: reserve_total_defs)

lemma reserve_net_close [simp]:
  "reserve_net (db\<lparr>t_reserves_close := t_reserves_close db @ [x]\<rparr>) p =
     reserve_net db p - (if rcl_reserve_pub x = p then sqlamt (rcl_amount x) else 0)"
  by (simp add: reserve_total_defs)

lemma reserve_net_recoup [simp]:
  "reserve_net (db\<lparr>t_recoup := t_recoup db @ [x]\<rparr>) p =
     reserve_net db p + (if blind_of_reserve db p (rp_h_blind_ev x) then sqlamt (rp_amount x) else 0)"
  by (auto simp: reserve_total_defs)

lemma reserve_net_out:
  assumes "reserve_tables_ok db" and "\<forall>r\<in>set (t_reserves_out db). ro_h_blind_ev r \<noteq> ro_h_blind_ev x"
  shows "reserve_net (db\<lparr>t_reserves_out := t_reserves_out db @ [x]\<rparr>) p =
     reserve_net db p - (if ro_reserve_pub x = p then sqlamt (ro_amount_with_fee x) else 0)"
proof -
  have "filter (\<lambda>q. blind_of_reserve (db\<lparr>t_reserves_out := t_reserves_out db @ [x]\<rparr>) p (rp_h_blind_ev q)) (t_recoup db)
      = filter (\<lambda>q. blind_of_reserve db p (rp_h_blind_ev q)) (t_recoup db)"
    using assms by (intro filter_cong) (auto simp: blind_of_reserve_def reserve_tables_ok_def)
  then show ?thesis
    by (simp add: reserve_net_def reserve_in_total_def reserve_out_total_def
        reserve_recoup_total_def reserve_close_total_def)
qed

text \<open>If the history of one reserve changes by some amount and its balance by the same amount, all
  balances still agree.\<close>

lemma reserves_ok_change:
  assumes ok: "reserves_ok db" and row: "row \<in> set (t_reserves db)" "rv_reserve_pub row = pub"
    and same: "t_reserves db1 = t_reserves db"
    and net: "\<And>p. reserve_net db1 p = reserve_net db p + (if p = pub then delta else 0)"
    and fk: "\<forall>r\<in>set (t_reserves_in db1). reserve_known db1 (ri_reserve_pub r)"
      "\<forall>r\<in>set (t_reserves_out db1). reserve_known db1 (ro_reserve_pub r)"
      "\<forall>r\<in>set (t_reserves_close db1). reserve_known db1 (rcl_reserve_pub r)"
    and bal: "sql_normal b" "sqlamt b = sqlamt (rv_current_balance row) + delta"
  shows "reserves_ok (reserve_set e gc b pub db1)"
proof -
  have d: "distinct (map rv_reserve_pub (t_reserves db))" using ok by (simp add: reserves_ok_def)
  have keys: "map rv_reserve_pub (t_reserves (reserve_set e gc b pub db1)) = map rv_reserve_pub (t_reserves db)"
    by (simp add: same)
  have "sql_normal (rv_current_balance r) \<and> sqlamt (rv_current_balance r) = reserve_net db1 (rv_reserve_pub r)"
    if r: "r \<in> set (t_reserves (reserve_set e gc b pub db1))" for r
  proof -
    from r obtain r0 where r0: "r0 \<in> set (t_reserves db)"
      "r = (if rv_reserve_pub r0 = pub then r0\<lparr>rv_expiration_date := e, rv_gc_date := gc,
                                      rv_current_balance := b\<rparr> else r0)"
      by (auto simp: reserve_set_def same)
    show ?thesis
    proof (cases "rv_reserve_pub r0 = pub")
      case True
      with r0(1) row d have "r0 = row" by (auto simp: distinct_map dest: inj_onD)
      with True r0 bal net ok row show ?thesis by (auto simp: reserves_ok_def)
    next
      case False
      with r0 net ok show ?thesis by (auto simp: reserves_ok_def)
    qed
  qed
  with d keys fk show ?thesis by (auto simp: reserves_ok_def)
qed

section \<open>What the operations do\<close>

text \<open>Whatever happens, an operation inside a transaction leaves the committed state and the
  transaction itself alone.\<close>

definition tx_kept :: "'db session \<Rightarrow> 'db session \<Rightarrow> bool" where
  "tx_kept s s' \<longleftrightarrow> s_committed s' = s_committed s \<and> s_in_tx s' \<and>
     s_transaction_name s' = s_transaction_name s"

lemma tx_kept_unchanged: "s_in_tx s \<Longrightarrow> unchanged s s' \<Longrightarrow> tx_kept s s'"
  by (simp add: tx_kept_def unchanged_def)

lemma tx_kept_updated: "s_in_tx s \<Longrightarrow> updated s db s' \<Longrightarrow> tx_kept s s'"
  by (simp add: tx_kept_def updated_def)

lemma tx_kept_trans: "tx_kept s s' \<Longrightarrow> tx_kept s' s'' \<Longrightarrow> tx_kept s s''"
  by (simp add: tx_kept_def)

lemma updated_sels:
  assumes "updated s db s'"
  shows "s_db s' = db" "s_in_tx s' = s_in_tx s" "\<not> s_failed s'"
  using assms by (simp_all add: updated_def)

lemma round_round: "gnunet_ok g \<Longrightarrow> GNUNET_TIME_round_abs g (GNUNET_TIME_round_abs g t) = GNUNET_TIME_round_abs g t"
  by (simp add: gnunet_ok_def)

lemma reserves_get_wp:
  assumes g: "gnunet_ok g" and s: "session_ok s" and pg: "pg_ok pg"
    and normal: "\<forall>r\<in>set (t_reserves (s_db s)). sql_normal (rv_current_balance r)"
  shows "wp (postgres_reserves_get g pg pub s) (\<lambda>(qs, r) s'. unchanged s s' \<and>
     ((qs = GNUNET_DB_STATUS_SOFT_ERROR \<or> qs = GNUNET_DB_STATUS_HARD_ERROR) \<and> r = None
      \<or> qs = GNUNET_DB_STATUS_SUCCESS_NO_RESULTS \<and> r = None \<and> \<not> reserve_known (s_db s) pub
          \<and> \<not> s_failed s'
      \<or> (\<exists>row res. qs = GNUNET_DB_STATUS_SUCCESS_ONE_RESULT \<and> r = Some res
            \<and> row \<in> set (t_reserves (s_db s)) \<and> rv_reserve_pub row = pub \<and> reserve_pub res = pub
            \<and> amount_in (pg_currency pg) (reserve_balance res)
            \<and> amt (reserve_balance res) = sqlamt (rv_current_balance row)
            \<and> GNUNET_TIME_round_abs g (reserve_expiry res) = reserve_expiry res
            \<and> GNUNET_TIME_round_abs g (reserve_gc res) = reserve_gc res \<and> \<not> s_failed s')))"
  unfolding postgres_reserves_get_def
proof (rule wp_bindI [OF pq_singleton_select_wp [OF g s]], goal_cases)
  case (1 a s')
  obtain qs r where a: "a = (qs, r)" by (cases a)
  show ?case
  proof (cases r)
    case None
    with 1 a show ?thesis
      by (auto simp: sql_reserves_get_def reserve_known_def filter_empty_conv)
  next
    case (Some row)
    with 1 a have q: "sql_reserves_get pub (s_db s) = [row]" "qs = 1" "unchanged s s'" "\<not> s_failed s'"
      by auto
    then have "row \<in> set (take 1 (filter (\<lambda>r. rv_reserve_pub r = pub) (t_reserves (s_db s))))"
      by (simp add: sql_reserves_get_def)
    then have row: "row \<in> set (t_reserves (s_db s))" "rv_reserve_pub row = pub"
      by (auto dest: in_set_takeD)
    obtain b where "TALER_PQ_result_spec_amount (pg_currency pg) (rv_current_balance row) = Some b"
      "amount_in (pg_currency pg) b" "amt b = sqlamt (rv_current_balance row)"
      using result_spec_amount [OF pg] normal row(1) by blast
    with q row a Some show ?thesis
      by (auto simp: TALER_PQ_result_spec_absolute_time_def round_round [OF g])
  qed
qed

lemma reserves_update_wp:
  assumes g: "gnunet_ok g" and s: "session_ok s" and bal: "amount_in c (reserve_balance res)"
    and t: "GNUNET_TIME_round_abs g (reserve_expiry res) = reserve_expiry res"
      "GNUNET_TIME_round_abs g (reserve_gc res) = reserve_gc res"
  shows "wp (reserves_update g res s) (\<lambda>qs s'.
     (\<exists>b. sqlamt b = amt (reserve_balance res) \<and> sql_normal b
         \<and> qs = int (length (filter (\<lambda>r. rv_reserve_pub r = reserve_pub res) (t_reserves (s_db s))))
         \<and> updated s (reserve_set (reserve_expiry res) (reserve_gc res) b (reserve_pub res) (s_db s)) s')
     \<or> unchanged s s' \<and> (qs = GNUNET_DB_STATUS_SOFT_ERROR \<or> qs = GNUNET_DB_STATUS_HARD_ERROR))"
proof -
  obtain b where b: "TALER_PQ_query_param_amount (reserve_balance res) = Some b"
    "sqlamt b = amt (reserve_balance res)" "sql_normal b"
    using query_param_amount [OF bal] .
  show ?thesis
    using b t
    by (simp add: reserves_update_def TALER_PQ_query_param_absolute_time_def)
      (rule wp_mono [OF pq_non_select_wp [OF g s]],
        auto simp: sql_reserve_update_Inr)
qed

lemma reserve_tables_ok_set [simp]:
  "reserve_tables_ok (reserve_set e gc b pub db) = reserve_tables_ok db"
  by (simp add: reserve_tables_ok_def denom_known_def coin_known_def)

lemma reserves_okD:
  assumes "reserves_ok db"
  shows "\<forall>r\<in>set (t_reserves db). sql_normal (rv_current_balance r)"
    and "distinct (map rv_reserve_pub (t_reserves db))"
  using assms by (simp_all add: reserves_ok_def)

lemma one_reserve_row:
  assumes "distinct (map rv_reserve_pub (t_reserves db))"
    and "row \<in> set (t_reserves db)" and "rv_reserve_pub row = pub"
  shows "length (filter (\<lambda>r. rv_reserve_pub r = pub) (t_reserves db)) = 1"
proof -
  have "distinct (t_reserves db)" using assms(1) by (simp add: distinct_map)
  moreover have "set (filter (\<lambda>r. rv_reserve_pub r = pub) (t_reserves db)) = {row}"
    using assms by (auto simp: distinct_map dest: inj_onD)
  ultimately show ?thesis
    by (metis distinct_card distinct_filter card.empty card.insert empty_iff finite.emptyI One_nat_def)
qed

text \<open>Adding rows to the history tables keeps their integrity.\<close>

lemma reserve_tables_ok_in:
  "reserve_tables_ok db \<Longrightarrow> sql_normal (ri_credit x) \<Longrightarrow>
     reserve_tables_ok (db\<lparr>t_reserves_in := t_reserves_in db @ [x]\<rparr>)"
  by (auto simp: reserve_tables_ok_def denom_known_def coin_known_def)

lemma reserve_tables_ok_close:
  "reserve_tables_ok db \<Longrightarrow> sql_normal (rcl_amount x) \<Longrightarrow> sql_normal (rcl_closing_fee x) \<Longrightarrow>
     reserve_tables_ok (db\<lparr>t_reserves_close := t_reserves_close db @ [x]\<rparr>)"
  by (auto simp: reserve_tables_ok_def denom_known_def coin_known_def)

lemma reserve_tables_ok_out:
  "reserve_tables_ok db \<Longrightarrow> sql_normal (ro_amount_with_fee x) \<Longrightarrow>
     \<forall>r\<in>set (t_reserves_out db). ro_h_blind_ev r \<noteq> ro_h_blind_ev x \<Longrightarrow> denom_known db (ro_denom_pub_hash x) \<Longrightarrow>
     reserve_tables_ok (db\<lparr>t_reserves_out := t_reserves_out db @ [x]\<rparr>)"
  by (auto simp: reserve_tables_ok_def denom_known_def coin_known_def)

lemma reserve_tables_ok_recoup:
  "reserve_tables_ok db \<Longrightarrow> sql_normal (rp_amount x) \<Longrightarrow> coin_known db (rp_coin_pub x) \<Longrightarrow>
     \<exists>r\<in>set (t_reserves_out db). ro_h_blind_ev r = rp_h_blind_ev x \<Longrightarrow>
     reserve_tables_ok (db\<lparr>t_recoup := t_recoup db @ [x]\<rparr>)"
  by (auto simp: reserve_tables_ok_def denom_known_def coin_known_def)

text \<open>The effect of a successful withdrawal\<close>

definition withdraw_effect ::
    "TALER_EXCHANGEDB_CollectableBlindcoin \<Rightarrow> tables \<Rightarrow> tables \<Rightarrow> bool" where
  "withdraw_effect cb db db' \<longleftrightarrow> (\<exists>row e gc b.
     db' = reserve_set e gc b (cb_reserve_pub cb) (db\<lparr>t_reserves_out := t_reserves_out db @ [row]\<rparr>)
     \<and> ro_h_blind_ev row = cb_h_coin_envelope cb \<and> ro_reserve_pub row = cb_reserve_pub cb
     \<and> ro_denom_pub_hash row = cb_denom_pub_hash cb \<and> ro_denom_sig row = cb_sig cb
     \<and> ro_reserve_sig row = cb_reserve_sig cb
     \<and> sqlamt (ro_amount_with_fee row) = amt (cb_amount_with_fee cb)
     \<and> reserves_ok db' \<and> reserve_tables_ok db')"

lemma withdraw_effectI:
  assumes ok: "reserves_ok db" "reserve_tables_ok db"
    and row: "ro_h_blind_ev row = cb_h_coin_envelope cb" "ro_reserve_pub row = cb_reserve_pub cb"
      "ro_denom_pub_hash row = cb_denom_pub_hash cb" "ro_denom_sig row = cb_sig cb"
      "ro_reserve_sig row = cb_reserve_sig cb"
      "sqlamt (ro_amount_with_fee row) = amt (cb_amount_with_fee cb)" "sql_normal (ro_amount_with_fee row)"
    and ins: "sql_insert_withdraw_info (\<lambda>_. row) n db = Inr (1, db1)"
    and res: "r \<in> set (t_reserves db)" "rv_reserve_pub r = cb_reserve_pub cb"
    and b: "sql_normal b" "sqlamt b = sqlamt (rv_current_balance r) - amt (cb_amount_with_fee cb)"
  shows "withdraw_effect cb db (reserve_set e gc b (cb_reserve_pub cb) db1)"
proof -
  have new: "\<forall>x\<in>set (t_reserves_out db). ro_h_blind_ev x \<noteq> ro_h_blind_ev row"
    and dk: "denom_known db (ro_denom_pub_hash row)" and rk: "reserve_known db (ro_reserve_pub row)"
    and db1: "db1 = db\<lparr>t_reserves_out := t_reserves_out db @ [row]\<rparr>"
    using ins by (auto simp: sql_insert_withdraw_info_def split: if_splits)
  have "reserve_net db1 p = reserve_net db p + (if p = cb_reserve_pub cb then - amt (cb_amount_with_fee cb) else 0)" for p
    unfolding db1 using reserve_net_out [OF ok(2) new] row(2,6) by simp
  then have "reserves_ok (reserve_set e gc b (cb_reserve_pub cb) db1)"
    using ok(1) res b rk
    by (intro reserves_ok_change [where db = db and delta = "- amt (cb_amount_with_fee cb)"])
      (auto simp: db1 reserves_ok_def reserve_known_def)
  moreover have "reserve_tables_ok db1"
    unfolding db1 using ok(2) row(7) new dk by (rule reserve_tables_ok_out)
  ultimately show ?thesis
    unfolding withdraw_effect_def db1 using row(1-6) by auto
qed

definition op_failed :: "'db session \<Rightarrow> int \<Rightarrow> 'db session \<Rightarrow> bool" where
  "op_failed s qs s' \<longleftrightarrow> tx_kept s s' \<and> session_ok s' \<and>
     (qs = GNUNET_DB_STATUS_SOFT_ERROR \<or> qs = GNUNET_DB_STATUS_HARD_ERROR)"

lemma op_failed_after: "s_in_tx s \<Longrightarrow> updated s db s1 \<Longrightarrow> op_failed s1 qs s2 \<Longrightarrow> op_failed s qs s2"
  by (auto simp: op_failed_def intro: tx_kept_trans [OF tx_kept_updated])

text \<open>A read of a reserve followed by an update of its row, the common tail of the operations that
  change a balance\<close>

lemma reserve_row_update_wp:
  assumes g: "gnunet_ok g" and s: "session_ok s" "s_in_tx s"
    and d: "distinct (map rv_reserve_pub (t_reserves (s_db s)))"
    and row: "row \<in> set (t_reserves (s_db s))" "rv_reserve_pub row = reserve_pub res"
    and bal: "amount_in c (reserve_balance res)"
    and t: "GNUNET_TIME_round_abs g (reserve_expiry res) = reserve_expiry res"
      "GNUNET_TIME_round_abs g (reserve_gc res) = reserve_gc res"
  shows "wp (reserves_update g res s) (\<lambda>qs s'.
     qs = GNUNET_DB_STATUS_SUCCESS_ONE_RESULT
       \<and> (\<exists>e gc b. sqlamt b = amt (reserve_balance res) \<and> sql_normal b
            \<and> updated s (reserve_set e gc b (reserve_pub res) (s_db s)) s')
     \<or> op_failed s qs s')"
  using one_reserve_row [OF d row] s
  by (intro wp_mono [OF reserves_update_wp [OF g s(1) bal t]])
    (auto simp: op_failed_def intro: tx_kept_unchanged session_ok_unchanged)

lemma reserves_get_tail_wp:
  assumes g: "gnunet_ok g" and s: "session_ok s" and pg: "pg_ok pg"
    and normal: "\<forall>r\<in>set (t_reserves (s_db s)). sql_normal (rv_current_balance r)"
    and none: "\<And>qs s'. unchanged s s' \<Longrightarrow> qs = GNUNET_DB_STATUS_SOFT_ERROR \<or> qs = GNUNET_DB_STATUS_HARD_ERROR
        \<or> qs = GNUNET_DB_STATUS_SUCCESS_NO_RESULTS \<and> \<not> reserve_known (s_db s) pub \<and> \<not> s_failed s' \<Longrightarrow>
        wp (kn qs s') Q"
    and some: "\<And>row res s'. unchanged s s' \<Longrightarrow> \<not> s_failed s' \<Longrightarrow> row \<in> set (t_reserves (s_db s)) \<Longrightarrow>
        rv_reserve_pub row = pub \<Longrightarrow> reserve_pub res = pub \<Longrightarrow>
        amount_in (pg_currency pg) (reserve_balance res) \<Longrightarrow>
        amt (reserve_balance res) = sqlamt (rv_current_balance row) \<Longrightarrow>
        GNUNET_TIME_round_abs g (reserve_expiry res) = reserve_expiry res \<Longrightarrow>
        GNUNET_TIME_round_abs g (reserve_gc res) = reserve_gc res \<Longrightarrow> wp (ks res s') Q"
  shows "wp (do { ((qs, r), s) \<leftarrow> postgres_reserves_get g pg pub s;
                  case r of None \<Rightarrow> kn qs s | Some res \<Rightarrow> ks res s }) Q"
  by (rule wp_bindI [OF reserves_get_wp [OF g s pg normal]])
    (auto intro: none some)

definition rounded :: "gnunet \<Rightarrow> TALER_EXCHANGEDB_Reserve \<Rightarrow> bool" where
  "rounded g res \<longleftrightarrow> GNUNET_TIME_round_abs g (reserve_expiry res) = reserve_expiry res
     \<and> GNUNET_TIME_round_abs g (reserve_gc res) = reserve_gc res"

text \<open>Read a reserve, compute a new balance, write the reserve: the tail that withdrawal, closing and
  recoup share. \<open>kn\<close> is the answer if there is no reserve, \<open>err\<close> the answer if the
  arithmetic fails, \<open>f\<close> what becomes of the status of the update.\<close>

definition balance_change ::
    "gnunet \<Rightarrow> PostgresClosure \<Rightarrow> pub_key \<Rightarrow> (int \<Rightarrow> int) \<Rightarrow> (TALER_Amount \<Rightarrow> (int \<times> TALER_Amount) option)
       \<Rightarrow> int \<Rightarrow> (TALER_EXCHANGEDB_Reserve \<Rightarrow> TALER_Amount \<Rightarrow> TALER_EXCHANGEDB_Reserve) \<Rightarrow> (int \<Rightarrow> int)
       \<Rightarrow> tables session \<Rightarrow> (int \<times> tables session) option" where
  "balance_change g pg pub kn arith err upd f s = do {
     ((qs, reserve), s) \<leftarrow> postgres_reserves_get g pg pub s;
     case reserve of
       None \<Rightarrow> Some (kn qs, s)
     | Some res \<Rightarrow> do {
         (x, bal) \<leftarrow> arith (reserve_balance res);
         if 0 > x then Some (err, s)
         else do { (qs, s) \<leftarrow> reserves_update g (upd res bal) s; Some (f qs, s) }
       }
   }"

lemma balance_change_wp:
  assumes g: "gnunet_ok g" and s: "session_ok s" "s_in_tx s" and pg: "pg_ok pg"
    and ok: "\<forall>r\<in>set (t_reserves (s_db s)). sql_normal (rv_current_balance r)"
      "distinct (map rv_reserve_pub (t_reserves (s_db s)))"
    and arith: "\<And>a. amount_in (pg_currency pg) a \<Longrightarrow>
        wp (arith a) (\<lambda>x b. 0 \<le> x \<longrightarrow> amount_in (pg_currency pg) b \<and> amt b = amt a + delta)"
    and upd: "\<And>res b. reserve_pub (upd res b) = reserve_pub res" "\<And>res b. reserve_balance (upd res b) = b"
      "\<And>res b. rounded g res \<Longrightarrow> rounded g (upd res b)"
    and f: "f 1 = 1" "f (- 1) = - 1" "f (- 2) = - 2" and kn: "kn (- 1) = - 1" "kn (- 2) = - 2"
    and err: "err = - 1 \<or> err = - 2"
  shows "wp (balance_change g pg pub kn arith err upd f s) (\<lambda>qs s'.
     qs = GNUNET_DB_STATUS_SUCCESS_ONE_RESULT
       \<and> (\<exists>row e gc b. row \<in> set (t_reserves (s_db s)) \<and> rv_reserve_pub row = pub \<and> sql_normal b
            \<and> sqlamt b = sqlamt (rv_current_balance row) + delta
            \<and> updated s (reserve_set e gc b pub (s_db s)) s')
     \<or> qs = kn 0 \<and> \<not> reserve_known (s_db s) pub \<and> unchanged s s' \<or> op_failed s qs s')"
  unfolding balance_change_def
proof (rule reserves_get_tail_wp [OF g s(1) pg ok(1)], goal_cases)
  case (1 qs s')
  then show ?case
    using s kn by (auto simp: op_failed_def intro: tx_kept_unchanged session_ok_unchanged)
next
  case (2 row res s')
  note s' = session_ok_unchanged [OF s(1) 2(1)] unchanged_sels [OF 2(1)]
  show ?case
  proof (rule wp_bindI [OF arith [OF 2(6)]], goal_cases)
    case (1 x b)
    note bal = this
    show ?case
    proof (cases "0 > x")
      case True
      with s 2(1) s'(1) err show ?thesis by (auto simp: op_failed_def intro: tx_kept_unchanged)
    next
      case False
      have "wp (reserves_update g (upd res b) s') (\<lambda>qs s''.
          qs = 1 \<and> (\<exists>e gc b'. sqlamt b' = amt b \<and> sql_normal b'
              \<and> updated s' (reserve_set e gc b' pub (s_db s')) s'') \<or> op_failed s' qs s'')"
        using reserve_row_update_wp [OF g s'(1), of row "upd res b" "pg_currency pg"] False bal 2 s s' ok(2)
          upd(1,2) upd(3) [of res b]
        by (simp add: rounded_def)
      then show ?thesis
        unfolding if_not_P [OF False] prod.case
      proof (rule wp_bindI, goal_cases)
        case (1 qs s'')
        then consider (upd) e gc b' where "qs = 1" "sqlamt b' = amt b" "sql_normal b'"
            "updated s' (reserve_set e gc b' pub (s_db s')) s''" | (failed) "op_failed s' qs s''"
          by blast
        then show ?case
        proof cases
          case upd
          with unchanged_updated [OF 2(1) upd(4)] f bal False 2(3,4,7) s' show ?thesis by fastforce
        next
          case failed
          with f s' show ?thesis by (auto simp: op_failed_def tx_kept_def)
        qed
      qed
    qed
  qed
qed

lemma bind_pair_id [simp]: "Option.bind m (\<lambda>(a, b). Some (a, b)) = m"
  by (cases m) auto

text \<open>An insertion into a history table followed by the change of the balance\<close>

lemma insert_balance_wp:
  assumes g: "gnunet_ok g" and s: "session_ok s" "s_in_tx s" and pg: "pg_ok pg"
    and ok: "reserves_ok (s_db s)"
    and keep: "\<And>n k db. stmt n (s_db s) = Inr (k, db) \<Longrightarrow> k = 1 \<and> t_reserves db = t_reserves (s_db s)"
    and arith: "\<And>a. amount_in (pg_currency pg) a \<Longrightarrow>
        wp (arith a) (\<lambda>x b. 0 \<le> x \<longrightarrow> amount_in (pg_currency pg) b \<and> amt b = amt a + delta)"
    and upd: "\<And>res b. reserve_pub (upd res b) = reserve_pub res" "\<And>res b. reserve_balance (upd res b) = b"
      "\<And>res b. rounded g res \<Longrightarrow> rounded g (upd res b)"
    and f: "f 1 = 1" "f (- 1) = - 1" "f (- 2) = - 2" and kn: "kn (- 1) = - 1" "kn (- 2) = - 2"
    and err: "err = - 1 \<or> err = - 2"
    and stop: "\<not> stop 1" "stop (- 1)" "stop (- 2)"
      "stop 0 \<or> (\<forall>n. stmt n (s_db s) \<noteq> Inl PQ_UNIQUE_VIOLATION)"
  shows "wp (do { (qs, s) \<leftarrow> pq_non_select g stmt s;
                  if stop qs then Some (qs, s) else balance_change g pg pub kn arith err upd f s })
    (\<lambda>qs s'.
      qs = GNUNET_DB_STATUS_SUCCESS_ONE_RESULT
        \<and> (\<exists>n db row e gc b. stmt n (s_db s) = Inr (1, db) \<and> row \<in> set (t_reserves (s_db s))
             \<and> rv_reserve_pub row = pub \<and> sql_normal b
             \<and> sqlamt b = sqlamt (rv_current_balance row) + delta
             \<and> updated s (reserve_set e gc b pub db) s')
      \<or> qs = kn 0 \<and> \<not> reserve_known (s_db s) pub \<and> tx_kept s s' \<and> session_ok s'
      \<or> qs = 0 \<and> unchanged s s' \<and> s_failed s' \<and> (\<exists>n. stmt n (s_db s) = Inl PQ_UNIQUE_VIOLATION)
      \<or> op_failed s qs s')"
proof (rule wp_bindI [OF pq_non_select_wp [OF g s(1)]], goal_cases)
  case (1 qs s1)
  then consider (ins) n db where "qs = 1" "stmt n (s_db s) = Inr (1, db)" "updated s db s1"
    | (unique) n where "qs = 0" "stop qs" "unchanged s s1" "s_failed s1" "stmt n (s_db s) = Inl PQ_UNIQUE_VIOLATION"
    | (failed) "stop qs" "op_failed s qs s1"
  proof (elim disjE exE conjE, goal_cases)
    case (1 k n db)
    with keep [OF 1(5)] show ?case by simp
  next
    case 2
    with s stop(2) show ?case by (simp add: op_failed_def tx_kept_unchanged session_ok_unchanged)
  next
    case 3
    with s stop(3) show ?case by (simp add: op_failed_def tx_kept_unchanged session_ok_unchanged)
  next
    case (4 n)
    with s stop(4) show ?case by auto
  qed
  then show ?case
  proof cases
    case ins
    note s1 = session_ok_updated [OF s(1) ins(3)] updated_sels [OF ins(3)]
    have same: "t_reserves db = t_reserves (s_db s)"
      using keep [OF ins(2)] by simp
    have known: "reserve_known db pub = reserve_known (s_db s) pub"
      by (simp add: reserve_known_def same)
    have "wp (balance_change g pg pub kn arith err upd f s1) (\<lambda>qs s'.
       qs = GNUNET_DB_STATUS_SUCCESS_ONE_RESULT
         \<and> (\<exists>row e gc b. row \<in> set (t_reserves (s_db s1)) \<and> rv_reserve_pub row = pub \<and> sql_normal b
              \<and> sqlamt b = sqlamt (rv_current_balance row) + delta
              \<and> updated s1 (reserve_set e gc b pub (s_db s1)) s')
       \<or> qs = kn 0 \<and> \<not> reserve_known (s_db s1) pub \<and> unchanged s1 s' \<or> op_failed s1 qs s')"
      using reserves_okD [OF ok] s s1
      by (intro balance_change_wp [OF g s1(1) _ pg]) (auto simp: same arith upd f kn err)
    then show ?thesis
      unfolding prod.case ins(1) if_not_P [OF stop(1)] s1(2) same known
    proof (rule wp_mono, elim disjE, goal_cases)
      case (1 qs s')
      with ins(2) updated_updated [OF ins(3)] show ?case by blast
    next
      case (2 qs s')
      with s s1 tx_kept_trans [OF tx_kept_updated [OF s(2) ins(3)] tx_kept_unchanged]
        session_ok_unchanged [OF s1(1)] show ?case by simp
    next
      case (3 qs s')
      with op_failed_after [OF s(2) ins(3)] show ?case by blast
    qed
  qed (auto)
qed

lemma insert_withdraw_info_wp:
  assumes g: "gnunet_ok g" and s: "session_ok s" "s_in_tx s" and pg: "pg_ok pg"
    and ok: "reserves_ok (s_db s)" "reserve_tables_ok (s_db s)"
    and amount: "amount_in (pg_currency pg) (cb_amount_with_fee cb)"
  shows "wp (postgres_insert_withdraw_info g pg clock cb s) (\<lambda>qs s'.
     qs = GNUNET_DB_STATUS_SUCCESS_ONE_RESULT
       \<and> (\<exists>db. updated s db s' \<and> withdraw_effect cb (s_db s) db)
     \<or> qs = GNUNET_DB_STATUS_SUCCESS_NO_RESULTS \<and> unchanged s s' \<and> s_failed s'
       \<and> (\<exists>r\<in>set (t_reserves_out (s_db s)). ro_h_blind_ev r = cb_h_coin_envelope cb)
     \<or> op_failed s qs s')"
proof -
  obtain a where a: "TALER_PQ_query_param_amount (cb_amount_with_fee cb) = Some a"
    "sqlamt a = amt (cb_amount_with_fee cb)" "sql_normal a"
    using query_param_amount [OF amount] .
  let ?row = "\<lambda>n. \<lparr>ro_serial_id = n, ro_h_blind_ev = cb_h_coin_envelope cb,
      ro_denom_pub_hash = cb_denom_pub_hash cb, ro_denom_sig = cb_sig cb,
      ro_reserve_pub = cb_reserve_pub cb, ro_reserve_sig = cb_reserve_sig cb,
      ro_execution_date = GNUNET_TIME_round_abs g clock, ro_amount_with_fee = a\<rparr>"
  let ?f = "\<lambda>qs. if qs = GNUNET_DB_STATUS_SUCCESS_NO_RESULTS then GNUNET_DB_STATUS_HARD_ERROR else qs"
  let ?upd = "\<lambda>res diff. res\<lparr>reserve_balance := diff, reserve_gc := GNUNET_TIME_round_abs g
      (GNUNET_TIME_absolute_max g (GNUNET_TIME_absolute_add g (GNUNET_TIME_round_abs g clock)
         (pg_legal_reserve_expiration_time pg)) (reserve_gc res))\<rparr>"
  have eq: "postgres_insert_withdraw_info g pg clock cb s = do {
      (qs, s) \<leftarrow> pq_non_select g (sql_insert_withdraw_info ?row) s;
      if qs \<noteq> GNUNET_DB_STATUS_SUCCESS_ONE_RESULT then Some (qs, s)
      else balance_change g pg (cb_reserve_pub cb) ?f
             (\<lambda>a. TALER_amount_subtract a a (cb_amount_with_fee cb)) GNUNET_DB_STATUS_SOFT_ERROR ?upd ?f s }"
    unfolding postgres_insert_withdraw_info_def balance_change_def Let_def query_param_rounded [OF g] a(1)
      Option.bind.simps by (rule refl)
  have "wp (postgres_insert_withdraw_info g pg clock cb s) (\<lambda>qs s'.
      qs = GNUNET_DB_STATUS_SUCCESS_ONE_RESULT
        \<and> (\<exists>n db row e gc b. sql_insert_withdraw_info ?row n (s_db s) = Inr (1, db)
             \<and> row \<in> set (t_reserves (s_db s)) \<and> rv_reserve_pub row = cb_reserve_pub cb \<and> sql_normal b
             \<and> sqlamt b = sqlamt (rv_current_balance row) + - amt (cb_amount_with_fee cb)
             \<and> updated s (reserve_set e gc b (cb_reserve_pub cb) db) s')
      \<or> qs = ?f 0 \<and> \<not> reserve_known (s_db s) (cb_reserve_pub cb) \<and> tx_kept s s' \<and> session_ok s'
      \<or> qs = 0 \<and> unchanged s s' \<and> s_failed s' \<and> (\<exists>n. sql_insert_withdraw_info ?row n (s_db s) = Inl PQ_UNIQUE_VIOLATION)
      \<or> op_failed s qs s')"
    unfolding eq
  proof (rule insert_balance_wp [OF g s pg ok(1)], goal_cases)
    case (2 x)
    show ?case
      by (rule wp_mono [OF amount_subtract_wp [OF 2 amount]]) auto
  qed (auto simp: sql_insert_withdraw_info_def rounded_def round_round [OF g] split: if_splits)
  then show ?thesis
  proof (rule wp_mono, goal_cases)
    case (1 qs s')
    have "withdraw_effect cb (s_db s) (reserve_set e gc b (cb_reserve_pub cb) db)"
      if "sql_insert_withdraw_info ?row n (s_db s) = Inr (1, db)" "row \<in> set (t_reserves (s_db s))"
        "rv_reserve_pub row = cb_reserve_pub cb" "sql_normal b"
        "sqlamt b = sqlamt (rv_current_balance row) + - amt (cb_amount_with_fee cb)" for n db row e gc b
      using that a ok
      by (intro withdraw_effectI [where row = "?row n" and n = n and r = row])
        (auto simp: sql_insert_withdraw_info_def)
    with 1 show ?case
      by (elim disjE) (blast, auto simp: op_failed_def sql_insert_withdraw_info_def split: if_splits)
  qed
qed

text \<open>Recoup into the reserve that the coin was withdrawn from\<close>

definition recoup_effect ::
    "pub_key \<Rightarrow> pub_key \<Rightarrow> hash_code \<Rightarrow> int \<Rightarrow> tables \<Rightarrow> tables \<Rightarrow> bool" where
  "recoup_effect pub coin h_blind amount db db' \<longleftrightarrow> (\<exists>row e gc b.
     db' = reserve_set e gc b pub (db\<lparr>t_recoup := t_recoup db @ [row]\<rparr>)
     \<and> rp_coin_pub row = coin \<and> rp_h_blind_ev row = h_blind \<and> sqlamt (rp_amount row) = amount
     \<and> sql_normal (rp_amount row) \<and> reserves_ok db' \<and> reserve_tables_ok db')"

lemma blind_of_reserve_unique:
  "reserve_tables_ok db \<Longrightarrow> blind_of_reserve db p h \<Longrightarrow> blind_of_reserve db q h \<longleftrightarrow> q = p"
  by (auto simp: blind_of_reserve_def reserve_tables_ok_def distinct_map dest: inj_onD)

lemma recoup_effectI:
  assumes ok: "reserves_ok db" "reserve_tables_ok db" and blind: "blind_of_reserve db pub (rp_h_blind_ev row)"
    and row: "sql_normal (rp_amount row)"
    and ins: "sql_recoup_insert (\<lambda>_. row) n db = Inr (1, db1)"
    and res: "r \<in> set (t_reserves db)" "rv_reserve_pub r = pub"
    and b: "sql_normal b" "sqlamt b = sqlamt (rv_current_balance r) + sqlamt (rp_amount row)"
  shows "recoup_effect pub (rp_coin_pub row) (rp_h_blind_ev row) (sqlamt (rp_amount row)) db
           (reserve_set e gc b pub db1)"
proof -
  have ck: "coin_known db (rp_coin_pub row)"
    and h: "\<exists>r\<in>set (t_reserves_out db). ro_h_blind_ev r = rp_h_blind_ev row"
    and db1: "db1 = db\<lparr>t_recoup := t_recoup db @ [row]\<rparr>"
    using ins by (auto simp: sql_recoup_insert_def split: if_splits)
  have "reserve_net db1 p = reserve_net db p + (if p = pub then sqlamt (rp_amount row) else 0)" for p
    unfolding db1 using blind_of_reserve_unique [OF ok(2) blind] by simp
  then have "reserves_ok (reserve_set e gc b pub db1)"
    using ok(1) res b
    by (intro reserves_ok_change [where db = db and delta = "sqlamt (rp_amount row)"])
      (auto simp: db1 reserves_ok_def reserve_known_def)
  moreover have "reserve_tables_ok db1"
    unfolding db1 using ok(2) row ck h by (rule reserve_tables_ok_recoup)
  ultimately show ?thesis
    unfolding recoup_effect_def db1 using row by auto
qed

lemma insert_recoup_request_wp:
  assumes g: "gnunet_ok g" and s: "session_ok s" "s_in_tx s" and pg: "pg_ok pg"
    and ok: "reserves_ok (s_db s)" "reserve_tables_ok (s_db s)"
    and amount: "amount_in (pg_currency pg) amount" and t: "GNUNET_TIME_round_abs g timestamp = timestamp"
    and blind: "blind_of_reserve (s_db s) pub h_blind"
  shows "wp (postgres_insert_recoup_request g pg pub coin coin_sig coin_blind amount h_blind timestamp s)
    (\<lambda>qs s'.
      qs = GNUNET_DB_STATUS_SUCCESS_ONE_RESULT
        \<and> (\<exists>db. updated s db s' \<and> recoup_effect pub (coin_pub coin) h_blind (amt amount) (s_db s) db)
      \<or> op_failed s qs s')"
proof -
  obtain a where a: "TALER_PQ_query_param_amount amount = Some a" "sqlamt a = amt amount" "sql_normal a"
    using query_param_amount [OF amount] .
  let ?row = "\<lambda>n. \<lparr>rp_recoup_uuid = n, rp_coin_pub = coin_pub coin, rp_coin_sig = coin_sig,
      rp_coin_blind = coin_blind, rp_amount = a, rp_timestamp = timestamp, rp_h_blind_ev = h_blind\<rparr>"
  let ?upd = "\<lambda>res sum. res\<lparr>reserve_balance := sum,
      reserve_gc := GNUNET_TIME_round_abs g (GNUNET_TIME_absolute_max g
         (GNUNET_TIME_absolute_add g timestamp (pg_legal_reserve_expiration_time pg)) (reserve_gc res)),
      reserve_expiry := GNUNET_TIME_round_abs g (GNUNET_TIME_absolute_max g
         (GNUNET_TIME_absolute_add g timestamp (pg_idle_reserve_expiration_time pg)) (reserve_expiry res))\<rparr>"
  have date: "TALER_PQ_query_param_absolute_time g timestamp = Some timestamp"
    using t by (simp add: TALER_PQ_query_param_absolute_time_def)
  have eq: "postgres_insert_recoup_request g pg pub coin coin_sig coin_blind amount h_blind timestamp s = do {
      (qs, s) \<leftarrow> pq_non_select g (sql_recoup_insert ?row) s;
      if 0 > qs then Some (qs, s)
      else balance_change g pg pub (\<lambda>qs. qs) (\<lambda>x. TALER_amount_add x amount)
             GNUNET_DB_STATUS_HARD_ERROR ?upd (\<lambda>qs. qs) s }"
    unfolding postgres_insert_recoup_request_def balance_change_def Let_def date a(1) bind_pair_id
      Option.bind.simps by (rule refl)
  have known: "reserve_known (s_db s) pub"
    using blind ok(1) by (auto simp: blind_of_reserve_def reserves_ok_def)
  have "wp (postgres_insert_recoup_request g pg pub coin coin_sig coin_blind amount h_blind timestamp s)
    (\<lambda>qs s'.
      qs = GNUNET_DB_STATUS_SUCCESS_ONE_RESULT
        \<and> (\<exists>n db row e gc b. sql_recoup_insert ?row n (s_db s) = Inr (1, db)
             \<and> row \<in> set (t_reserves (s_db s)) \<and> rv_reserve_pub row = pub \<and> sql_normal b
             \<and> sqlamt b = sqlamt (rv_current_balance row) + amt amount
             \<and> updated s (reserve_set e gc b pub db) s')
      \<or> qs = 0 \<and> \<not> reserve_known (s_db s) pub \<and> tx_kept s s' \<and> session_ok s'
      \<or> qs = 0 \<and> unchanged s s' \<and> s_failed s' \<and> (\<exists>n. sql_recoup_insert ?row n (s_db s) = Inl PQ_UNIQUE_VIOLATION)
      \<or> op_failed s qs s')"
    unfolding eq
  proof (rule insert_balance_wp [OF g s pg ok(1)], goal_cases)
    case (2 x)
    show ?case
      by (rule wp_mono [OF amount_add_wp [OF 2 amount]]) auto
  qed (auto simp: sql_recoup_insert_def rounded_def round_round [OF g] split: if_splits)
  then show ?thesis
  proof (rule wp_mono, goal_cases)
    case (1 qs s')
    have "recoup_effect pub (coin_pub coin) h_blind (amt amount) (s_db s) (reserve_set e gc b pub db)"
      if "sql_recoup_insert ?row n (s_db s) = Inr (1, db)" "row \<in> set (t_reserves (s_db s))"
        "rv_reserve_pub row = pub" "sql_normal b"
        "sqlamt b = sqlamt (rv_current_balance row) + amt amount" for n db row e gc b
      using that a ok blind recoup_effectI [of "s_db s" pub "?row n" n db row b e gc]
      by (auto simp: sql_recoup_insert_def)
    with 1 known show ?case
      by (elim disjE) (blast, auto simp: sql_recoup_insert_def split: if_splits)
  qed
qed

text \<open>Closing a reserve\<close>

definition close_effect :: "pub_key \<Rightarrow> string \<Rightarrow> int \<Rightarrow> tables \<Rightarrow> tables \<Rightarrow> bool" where
  "close_effect pub receiver amount db db' \<longleftrightarrow> (\<exists>row e gc b.
     db' = reserve_set e gc b pub (db\<lparr>t_reserves_close := t_reserves_close db @ [row]\<rparr>)
     \<and> rcl_reserve_pub row = pub \<and> rcl_receiver_account row = receiver \<and> sqlamt (rcl_amount row) = amount
     \<and> reserves_ok db' \<and> reserve_tables_ok db')"

lemma close_effectI:
  assumes ok: "reserves_ok db" "reserve_tables_ok db"
    and row: "sql_normal (rcl_amount row)" "sql_normal (rcl_closing_fee row)"
    and ins: "sql_reserves_close_insert (\<lambda>_. row) n db = Inr (1, db1)"
    and res: "r \<in> set (t_reserves db)" "rv_reserve_pub r = rcl_reserve_pub row"
    and b: "sql_normal b" "sqlamt b = sqlamt (rv_current_balance r) - sqlamt (rcl_amount row)"
  shows "close_effect (rcl_reserve_pub row) (rcl_receiver_account row) (sqlamt (rcl_amount row)) db
           (reserve_set e gc b (rcl_reserve_pub row) db1)"
proof -
  have rk: "reserve_known db (rcl_reserve_pub row)"
    and db1: "db1 = db\<lparr>t_reserves_close := t_reserves_close db @ [row]\<rparr>"
    using ins by (auto simp: sql_reserves_close_insert_def split: if_splits)
  have "reserve_net db1 p = reserve_net db p
      + (if p = rcl_reserve_pub row then - sqlamt (rcl_amount row) else 0)" for p
    unfolding db1 by simp
  then have "reserves_ok (reserve_set e gc b (rcl_reserve_pub row) db1)"
    using ok(1) res b rk
    by (intro reserves_ok_change [where db = db and delta = "- sqlamt (rcl_amount row)"])
      (auto simp: db1 reserves_ok_def reserve_known_def)
  moreover have "reserve_tables_ok db1"
    unfolding db1 using ok(2) row by (rule reserve_tables_ok_close)
  ultimately show ?thesis
    unfolding close_effect_def db1 by auto
qed

lemma insert_reserve_closed_wp:
  assumes g: "gnunet_ok g" and s: "session_ok s" "s_in_tx s" and pg: "pg_ok pg"
    and ok: "reserves_ok (s_db s)" "reserve_tables_ok (s_db s)"
    and amount: "amount_in (pg_currency pg) amount" and fee: "amount_in (pg_currency pg) closing_fee"
    and t: "GNUNET_TIME_round_abs g date = date"
  shows "wp (postgres_insert_reserve_closed g pg pub date receiver wtid amount closing_fee s) (\<lambda>qs s'.
      qs = GNUNET_DB_STATUS_SUCCESS_ONE_RESULT
        \<and> (\<exists>db. updated s db s' \<and> close_effect pub receiver (amt amount) (s_db s) db)
      \<or> op_failed s qs s')"
proof -
  obtain a where a: "TALER_PQ_query_param_amount amount = Some a" "sqlamt a = amt amount" "sql_normal a"
    using query_param_amount [OF amount] .
  obtain f where f: "TALER_PQ_query_param_amount closing_fee = Some f" "sql_normal f"
    using query_param_amount [OF fee] by metis
  let ?row = "\<lambda>n. \<lparr>rcl_close_uuid = n, rcl_reserve_pub = pub, rcl_execution_date = date,
      rcl_wtid = wtid, rcl_receiver_account = receiver, rcl_amount = a, rcl_closing_fee = f\<rparr>"
  let ?kn = "\<lambda>qs. if qs = GNUNET_DB_STATUS_SUCCESS_NO_RESULTS then GNUNET_DB_STATUS_HARD_ERROR else qs"
  have date: "TALER_PQ_query_param_absolute_time g date = Some date"
    using t by (simp add: TALER_PQ_query_param_absolute_time_def)
  have eq: "postgres_insert_reserve_closed g pg pub date receiver wtid amount closing_fee s = do {
      (qs, s) \<leftarrow> pq_non_select g (sql_reserves_close_insert ?row) s;
      if qs \<noteq> GNUNET_DB_STATUS_SUCCESS_ONE_RESULT then Some (qs, s)
      else balance_change g pg pub ?kn (\<lambda>x. TALER_amount_subtract x x amount)
             GNUNET_DB_STATUS_HARD_ERROR (\<lambda>res diff. res\<lparr>reserve_balance := diff\<rparr>) (\<lambda>qs. qs) s }"
    unfolding postgres_insert_reserve_closed_def balance_change_def Let_def date a(1) f(1) bind_pair_id
      Option.bind.simps by (rule refl)
  have "wp (postgres_insert_reserve_closed g pg pub date receiver wtid amount closing_fee s) (\<lambda>qs s'.
      qs = GNUNET_DB_STATUS_SUCCESS_ONE_RESULT
        \<and> (\<exists>n db row e gc b. sql_reserves_close_insert ?row n (s_db s) = Inr (1, db)
             \<and> row \<in> set (t_reserves (s_db s)) \<and> rv_reserve_pub row = pub \<and> sql_normal b
             \<and> sqlamt b = sqlamt (rv_current_balance row) + - amt amount
             \<and> updated s (reserve_set e gc b pub db) s')
      \<or> qs = ?kn 0 \<and> \<not> reserve_known (s_db s) pub \<and> tx_kept s s' \<and> session_ok s'
      \<or> qs = 0 \<and> unchanged s s' \<and> s_failed s'
          \<and> (\<exists>n. sql_reserves_close_insert ?row n (s_db s) = Inl PQ_UNIQUE_VIOLATION)
      \<or> op_failed s qs s')"
    unfolding eq
  proof (rule insert_balance_wp [OF g s pg ok(1)], goal_cases)
    case (2 x)
    show ?case
      by (rule wp_mono [OF amount_subtract_wp [OF 2 amount]]) auto
  qed (auto simp: sql_reserves_close_insert_def rounded_def split: if_splits)
  then show ?thesis
  proof (rule wp_mono, goal_cases)
    case (1 qs s')
    have "close_effect pub receiver (amt amount) (s_db s) (reserve_set e gc b pub db)"
      if "sql_reserves_close_insert ?row n (s_db s) = Inr (1, db)" "row \<in> set (t_reserves (s_db s))"
        "rv_reserve_pub row = pub" "sql_normal b"
        "sqlamt b = sqlamt (rv_current_balance row) + - amt amount" for n db row e gc b
      using that a f ok close_effectI [of "s_db s" "?row n" n db row b e gc]
      by (auto simp: sql_reserves_close_insert_def)
    with 1 show ?case
      by (elim disjE) (blast, auto simp: op_failed_def sql_reserves_close_insert_def split: if_splits)
  qed
qed

text \<open>An incoming wire transfer\<close>

definition transfer_known :: "tables \<Rightarrow> pub_key \<Rightarrow> u64 \<Rightarrow> bool" where
  "transfer_known db pub wire_ref \<longleftrightarrow>
     (\<exists>r\<in>set (t_reserves_in db). ri_reserve_pub r = pub \<and> ri_wire_reference r = wire_ref)"

definition credit_effect :: "pub_key \<Rightarrow> string \<Rightarrow> u64 \<Rightarrow> int \<Rightarrow> tables \<Rightarrow> tables \<Rightarrow> bool" where
  "credit_effect pub account wire_ref amount db db' \<longleftrightarrow> \<not> transfer_known db pub wire_ref \<and> (\<exists>row.
     db' = db\<lparr>t_reserves_in := t_reserves_in db @ [row], t_reserves := t_reserves db'\<rparr>
     \<and> ri_reserve_pub row = pub \<and> ri_exchange_account_section row = account \<and> ri_wire_reference row = wire_ref
     \<and> sqlamt (ri_credit row) = amount
     \<and> reserve_known db' pub \<and> reserves_ok db' \<and> reserve_tables_ok db')"

lemma credit_effect_existing:
  assumes ok: "reserves_ok db" "reserve_tables_ok db"
    and row: "sql_normal (ri_credit row)" and fresh: "\<not> transfer_known db (ri_reserve_pub row) (ri_wire_reference row)"
    and res: "r \<in> set (t_reserves db)" "rv_reserve_pub r = ri_reserve_pub row"
    and b: "sql_normal b" "sqlamt b = sqlamt (rv_current_balance r) + sqlamt (ri_credit row)"
  shows "credit_effect (ri_reserve_pub row) (ri_exchange_account_section row) (ri_wire_reference row) (sqlamt (ri_credit row)) db
     (reserve_set e gc b (ri_reserve_pub row) (db\<lparr>t_reserves_in := t_reserves_in db @ [row]\<rparr>))"
proof -
  let ?db1 = "db\<lparr>t_reserves_in := t_reserves_in db @ [row]\<rparr>"
  have "reserve_known db (ri_reserve_pub row)" using res by (auto simp: reserve_known_def)
  then have "reserves_ok (reserve_set e gc b (ri_reserve_pub row) ?db1)"
    using ok(1) res b
    by (intro reserves_ok_change [where db = db and delta = "sqlamt (ri_credit row)"])
      (auto simp: reserves_ok_def reserve_known_def)
  moreover have "reserve_tables_ok ?db1"
    using ok(2) row by (rule reserve_tables_ok_in)
  moreover have "reserve_known ?db1 (ri_reserve_pub row)"
    using \<open>reserve_known db (ri_reserve_pub row)\<close> by (simp add: reserve_known_def)
  moreover have "reserve_set e gc b p ?db1 =
      db\<lparr>t_reserves_in := t_reserves_in db @ [row], t_reserves := t_reserves (reserve_set e gc b p ?db1)\<rparr>" for p
    by (simp add: reserve_set_def)
  ultimately show ?thesis
    unfolding credit_effect_def using fresh by (intro exI [of _ row] conjI) simp_all
qed

lemma reserve_net_unknown:
  assumes "reserves_ok db" and "reserve_tables_ok db" and "\<not> reserve_known db pub"
  shows "reserve_net db pub = 0"
proof -
  have "filter (\<lambda>r. ri_reserve_pub r = pub) (t_reserves_in db) = []"
    and "filter (\<lambda>r. ro_reserve_pub r = pub) (t_reserves_out db) = []"
    and "filter (\<lambda>r. rcl_reserve_pub r = pub) (t_reserves_close db) = []"
    and "filter (\<lambda>p. blind_of_reserve db pub (rp_h_blind_ev p)) (t_recoup db) = []"
    using assms by (auto simp: filter_empty_conv reserves_ok_def blind_of_reserve_def)
  then show ?thesis
    by (simp add: reserve_net_def reserve_in_total_def reserve_out_total_def
        reserve_recoup_total_def reserve_close_total_def)
qed

lemma credit_effect_new:
  assumes ok: "reserves_ok db" "reserve_tables_ok db"
    and row: "sql_normal (ri_credit row)" and new: "\<not> reserve_known db (ri_reserve_pub row)"
    and r: "rv_reserve_pub r = ri_reserve_pub row" "rv_current_balance r = ri_credit row"
  shows "credit_effect (ri_reserve_pub row) (ri_exchange_account_section row) (ri_wire_reference row) (sqlamt (ri_credit row)) db
     (db\<lparr>t_reserves := t_reserves db @ [r], t_reserves_in := t_reserves_in db @ [row]\<rparr>)"
proof -
  let ?db1 = "db\<lparr>t_reserves := t_reserves db @ [r], t_reserves_in := t_reserves_in db @ [row]\<rparr>"
  have eq: "?db1 = (db\<lparr>t_reserves_in := t_reserves_in db @ [row]\<rparr>)\<lparr>t_reserves := t_reserves db @ [r]\<rparr>"
    by simp
  have net: "reserve_net ?db1 p = reserve_net db p + (if ri_reserve_pub row = p then sqlamt (ri_credit row) else 0)" for p
    unfolding eq reserve_net_reserves by (rule reserve_net_in)
  have "reserves_ok ?db1"
    unfolding reserves_ok_def net
    using ok(1) row new r reserve_net_unknown [OF ok new]
    by (auto simp: reserves_ok_def reserve_known_def)
  moreover have "reserve_tables_ok ?db1"
    using ok(2) row by (auto simp: reserve_tables_ok_def denom_known_def coin_known_def)
  moreover have "reserve_known ?db1 (ri_reserve_pub row)"
    using r by (simp add: reserve_known_def)
  moreover have "\<not> transfer_known db (ri_reserve_pub row) (ri_wire_reference row)"
    using ok(1) new by (auto simp: transfer_known_def reserves_ok_def)
  ultimately show ?thesis
    unfolding credit_effect_def by (intro conjI exI [of _ row]) simp_all
qed

text \<open>The insertion of the transfer itself: done, already there, or an error.\<close>

lemma reserves_in_add_wp:
  assumes g: "gnunet_ok g" and s: "session_ok s" "s_in_tx s"
    and known: "reserve_known (s_db s) pub"
    and row: "\<And>n. ri_reserve_pub (row n) = pub" "\<And>n. ri_wire_reference (row n) = wire_ref"
  shows "wp (pq_non_select g (sql_reserves_in_add_transaction row) s) (\<lambda>qs s'.
     qs = 1 \<and> \<not> transfer_known (s_db s) pub wire_ref
       \<and> (\<exists>n. updated s ((s_db s)\<lparr>t_reserves_in := t_reserves_in (s_db s) @ [row n]\<rparr>) s')
     \<or> qs = 0 \<and> transfer_known (s_db s) pub wire_ref \<and> updated s (s_db s) s'
     \<or> op_failed s qs s')"
proof (rule wp_mono [OF pq_non_select_wp [OF g s(1)]], elim disjE exE conjE, goal_cases)
  case (1 qs s' k n db)
  then show ?case
    using known row by (auto simp: sql_reserves_in_add_transaction_def transfer_known_def split: if_splits)
next
  case (4 qs s' n)
  then show ?case
    by (simp add: sql_reserves_in_add_transaction_def split: if_splits)
qed (use s in \<open>auto simp: op_failed_def intro: tx_kept_unchanged session_ok_unchanged\<close>)

lemma reserves_in_update_wp:
  assumes g: "gnunet_ok g" and s: "session_ok s" "s_in_tx s"
    and d: "distinct (map rv_reserve_pub (t_reserves (s_db s)))"
    and r: "r \<in> set (t_reserves (s_db s))" "rv_reserve_pub r = reserve_pub res"
    and res: "amount_in c (reserve_balance res)" "amt (reserve_balance res) = sqlamt (rv_current_balance r)"
    and bal: "amount_in c balance"
  shows "wp (reserves_in_update g expiry balance res s) (\<lambda>qs s'.
     qs = 1 \<and> (\<exists>e gc b. sql_normal b \<and> sqlamt b = sqlamt (rv_current_balance r) + amt balance
                   \<and> updated s (reserve_set e gc b (reserve_pub res) (s_db s)) s')
     \<or> op_failed s qs s')"
  unfolding reserves_in_update_def
proof (rule wp_bindI [OF amount_add_wp [OF res(1) bal]], goal_cases)
  case (1 x sum)
  show ?case
  proof (cases "0 > x")
    case True
    with s show ?thesis by (simp add: op_failed_def tx_kept_def)
  next
    case False
    with 1 have sum: "amount_in c sum" "amt sum = sqlamt (rv_current_balance r) + amt balance"
      using res(2) by auto
    show ?thesis
      unfolding prod.case if_not_P [OF False] Let_def
      by (rule wp_mono [OF reserve_row_update_wp [OF g s d r(1), where c = c]])
        (use r sum in \<open>auto simp: round_round [OF g]\<close>)
  qed
qed

lemma reserve_create_wp:
  assumes g: "gnunet_ok g" and s: "session_ok s" "s_in_tx s"
    and new: "\<not> reserve_known (s_db s) (rv_reserve_pub row)"
  shows "wp (do { (qs, s) \<leftarrow> pq_non_select g (sql_reserve_create row) s;
                  if qs = GNUNET_DB_STATUS_SUCCESS_NO_RESULTS then Some (GNUNET_DB_STATUS_SOFT_ERROR, s)
                  else Some (qs, s) }) (\<lambda>qs s'.
     qs = 1 \<and> updated s ((s_db s)\<lparr>t_reserves := t_reserves (s_db s) @ [row]\<rparr>) s' \<or> op_failed s qs s')"
  using new s
  by (intro wp_bindI [OF pq_non_select_wp [OF g s(1)]])
    (auto simp: sql_reserve_create_def op_failed_def intro: tx_kept_unchanged session_ok_unchanged)

lemma op_failed_unchanged:
  "s_in_tx s \<Longrightarrow> session_ok s \<Longrightarrow> unchanged s s1 \<Longrightarrow> op_failed s qs s1 \<longleftrightarrow> qs = - 1 \<or> qs = - 2"
  by (auto simp: op_failed_def intro: tx_kept_unchanged session_ok_unchanged)

lemma op_failed_from_unchanged: "unchanged s s1 \<Longrightarrow> op_failed s1 qs s2 \<Longrightarrow> op_failed s qs s2"
  by (auto simp: op_failed_def tx_kept_def unchanged_def)

text \<open>Storing the transfer for a reserve that existed before, and for one just created\<close>

lemma reserves_in_store_old_wp:
  assumes g: "gnunet_ok g" and s: "session_ok s" "s_in_tx s"
    and ok: "reserves_ok (s_db s)" "reserve_tables_ok (s_db s)"
    and bal: "amount_in c balance" and t: "GNUNET_TIME_round_abs g time = time"
    and r: "r \<in> set (t_reserves (s_db s))" "rv_reserve_pub r = pub" "reserve_pub res = pub"
    and res: "amount_in c (reserve_balance res)" "amt (reserve_balance res) = sqlamt (rv_current_balance r)"
  shows "wp (reserves_in_store g pub balance time sender section wire_ref expiry 1 (Some res) s) (\<lambda>qs s'.
     qs = 1 \<and> (\<exists>db. updated s db s' \<and> credit_effect pub section wire_ref (amt balance) (s_db s) db)
     \<or> qs = 0 \<and> transfer_known (s_db s) pub wire_ref \<and> updated s (s_db s) s'
     \<or> op_failed s qs s')"
proof -
  obtain a where a: "TALER_PQ_query_param_amount balance = Some a" "sqlamt a = amt balance" "sql_normal a"
    using query_param_amount [OF bal] .
  have time: "TALER_PQ_query_param_absolute_time g time = Some time"
    using t by (simp add: TALER_PQ_query_param_absolute_time_def)
  have known: "reserve_known (s_db s) pub" using r by (auto simp: reserve_known_def)
  let ?row = "\<lambda>n. \<lparr>ri_serial_id = n, ri_reserve_pub = pub, ri_wire_reference = wire_ref, ri_credit = a,
      ri_sender_account_details = sender, ri_exchange_account_section = section, ri_execution_date = time\<rparr>"
  show ?thesis
    unfolding reserves_in_store_def a(1) time Option.bind.simps
  proof (rule wp_bindI [OF reserves_in_add_wp [OF g s known, where wire_ref = wire_ref]],
      goal_cases)
    case (3 qs s1)
    then show ?case
    proof (elim disjE conjE exE, goal_cases)
      case (1 n)
      note s1 = session_ok_updated [OF s(1) 1(3)] updated_sels [OF 1(3)]
      have "wp (reserves_in_update g expiry balance res s1) (\<lambda>qs s'.
          qs = 1 \<and> (\<exists>e gc b. sql_normal b \<and> sqlamt b = sqlamt (rv_current_balance r) + amt balance
                   \<and> updated s1 (reserve_set e gc b (reserve_pub res) (s_db s1)) s')
          \<or> op_failed s1 qs s')"
        using reserves_okD(2) [OF ok(1)] r s s1 res bal
        by (intro reserves_in_update_wp [OF g s1(1), where c = c]) auto
      then have "wp (reserves_in_update g expiry balance res s1) (\<lambda>qs s'.
          qs = 1 \<and> (\<exists>db. updated s db s' \<and> credit_effect pub section wire_ref (amt balance) (s_db s) db)
          \<or> op_failed s qs s')"
      proof (rule wp_mono, elim disjE conjE exE, goal_cases)
        case (1 qs s2 e gc b)
        then show ?case
          using credit_effect_existing [OF ok, of "?row n" r b e gc] updated_updated [OF \<open>updated s _ s1\<close>]
            a r s1(2) \<open>\<not> transfer_known (s_db s) pub wire_ref\<close> by auto
      qed (use op_failed_after [OF s(2) 1(3)] in auto)
      with 1(1) show ?case by (auto elim: wp_mono)
    qed (auto simp: op_failed_def)
  qed auto
qed

lemma reserves_in_store_new_wp:
  assumes g: "gnunet_ok g" and s: "session_ok s" "s_in_tx s"
    and ok: "reserves_ok db" "reserve_tables_ok db" and new: "\<not> reserve_known db pub"
    and bal: "amount_in c balance" and t: "GNUNET_TIME_round_abs g time = time"
    and r: "rv_reserve_pub r = pub" "TALER_PQ_query_param_amount balance = Some (rv_current_balance r)"
    and db: "s_db s = db\<lparr>t_reserves := t_reserves db @ [r]\<rparr>"
  shows "wp (reserves_in_store g pub balance time sender section wire_ref expiry 0 None s) (\<lambda>qs s'.
     qs = 1 \<and> (\<exists>db'. updated s db' s' \<and> credit_effect pub section wire_ref (amt balance) db db')
     \<or> op_failed s qs s')"
proof -
  have a: "sqlamt (rv_current_balance r) = amt balance" "sql_normal (rv_current_balance r)"
    using query_param_amount [OF bal] r(2) by (metis option.inject)+
  have time: "TALER_PQ_query_param_absolute_time g time = Some time"
    using t by (simp add: TALER_PQ_query_param_absolute_time_def)
  have known: "reserve_known (s_db s) pub" using r db by (auto simp: reserve_known_def)
  have none: "\<not> transfer_known (s_db s) pub wire_ref"
    using ok(1) new db by (auto simp: transfer_known_def reserves_ok_def)
  let ?row = "\<lambda>n. \<lparr>ri_serial_id = n, ri_reserve_pub = pub, ri_wire_reference = wire_ref,
      ri_credit = rv_current_balance r,
      ri_sender_account_details = sender, ri_exchange_account_section = section, ri_execution_date = time\<rparr>"
  show ?thesis
    unfolding reserves_in_store_def r(2) time Option.bind.simps
  proof (rule wp_bindI [OF reserves_in_add_wp [OF g s known, where wire_ref = wire_ref]], goal_cases)
    case (3 qs s1)
    then show ?case
      using credit_effect_new [OF ok, of "?row _" r] a new r(1) db none
      by (auto simp: op_failed_def)
  qed auto
qed

lemma reserves_in_insert_wp:
  assumes g: "gnunet_ok g" and s: "session_ok s" "s_in_tx s" and pg: "pg_ok pg"
    and ok: "reserves_ok (s_db s)" "reserve_tables_ok (s_db s)"
    and bal: "amount_in (pg_currency pg) balance" and t: "GNUNET_TIME_round_abs g time = time"
  shows "wp (postgres_reserves_in_insert g pg pub balance time sender section wire_ref s) (\<lambda>qs s'.
     qs = 1 \<and> (\<exists>db. updated s db s' \<and> credit_effect pub section wire_ref (amt balance) (s_db s) db)
     \<or> qs = 0 \<and> transfer_known (s_db s) pub wire_ref \<and> updated s (s_db s) s'
     \<or> op_failed s qs s')" (is "wp _ ?Q")
  unfolding postgres_reserves_in_insert_def
proof (rule wp_bindI [OF reserves_get_wp [OF g s(1) pg reserves_okD(1) [OF ok(1)]]], goal_cases)
  case (1 x s1)
  obtain a where a: "TALER_PQ_query_param_amount balance = Some a"
    using query_param_amount [OF bal] .
  obtain qs r where x: "x = (qs, r)" by (cases x)
  from 1 x have s1: "unchanged s s1" by simp
  note s1' = session_ok_unchanged [OF s(1) s1] unchanged_sels [OF s1]
  from 1 x consider (error) "qs = - 1 \<or> qs = - 2"
    | (new) "qs = 0" "r = None" "\<not> reserve_known (s_db s) pub"
    | (old) row res where "qs = 1" "r = Some res" "row \<in> set (t_reserves (s_db s))"
        "rv_reserve_pub row = pub" "reserve_pub res = pub"
        "amount_in (pg_currency pg) (reserve_balance res)"
        "amt (reserve_balance res) = sqlamt (rv_current_balance row)"
    by auto
  then show ?case
  proof cases
    case error
    with x s s1 show ?thesis by (auto simp: op_failed_unchanged)
  next
    case old
    have "wp (reserves_in_store g pub balance time sender section wire_ref expiry 1 (Some res) s1) ?Q" for expiry
      using old ok s s1' bal t updated_updated unchanged_updated [OF s1] op_failed_from_unchanged [OF s1]
      by (intro wp_mono [OF reserves_in_store_old_wp [OF g s1'(1), where c = "pg_currency pg" and r = row]]) auto
    with x old show ?thesis by (simp add: Let_def)
  next
    case new
    let ?exp = "GNUNET_TIME_round_abs g (GNUNET_TIME_absolute_add g time (pg_idle_reserve_expiration_time pg))"
    let ?new = "\<lparr>rv_reserve_pub = pub, rv_account_details = sender, rv_current_balance = a,
        rv_expiration_date = ?exp, rv_gc_date = ?exp\<rparr>"
    have create: "wp (do { (qs, s) \<leftarrow> pq_non_select g (sql_reserve_create ?new) s1;
                   if qs = 0 then Some (- 1, s) else Some (qs, s) }) (\<lambda>qs s'.
        qs = 1 \<and> updated s1 ((s_db s1)\<lparr>t_reserves := t_reserves (s_db s1) @ [?new]\<rparr>) s' \<or> op_failed s1 qs s')"
      using new s s1' by (intro reserve_create_wp [OF g]) auto
    have "wp (do { (qs, s) \<leftarrow> (do { (qs, s) \<leftarrow> pq_non_select g (sql_reserve_create ?new) s1;
                   if qs = 0 then Some (- 1, s) else Some (qs, s) });
               if 0 > qs then Some (qs, s)
               else reserves_in_store g pub balance time sender section wire_ref ?exp 0 None s }) ?Q"
    proof (rule wp_bindI [OF create], elim disjE conjE, goal_cases)
      case (1 qs s2)
      note s2 = session_ok_updated [OF s1'(1) 1(2)] updated_sels [OF 1(2)] unchanged_updated [OF s1 1(2)]
      have "wp (reserves_in_store g pub balance time sender section wire_ref ?exp 0 None s2) ?Q"
        using new ok s s1' s2(2-4) bal t updated_updated [OF s2(5)] op_failed_after [OF s(2) s2(5)] a
        by (intro wp_mono [OF reserves_in_store_new_wp [OF g s2(1), where c = "pg_currency pg"
                and r = ?new and db = "s_db s"]]) auto
      with 1(1) show ?case by simp
    next
      case (2 qs s2)
      with op_failed_from_unchanged [OF s1] show ?case by (auto simp: op_failed_def)
    qed
    with x new a show ?thesis
      by (simp add: Let_def query_param_rounded [OF g] bind_assoc)
  qed
qed

end
