(* ===== verification/Reserve_History.thy ===== *)
theory Reserve_History
  imports Exchangedb_Reserves
begin

text \<open>
  The history of a reserve as \<^verbatim>\<open>postgres_get_reserve_history\<close> delivers it adds up to the balance that
  the tables account for, and the properties of the reserve operations of the database plugin.
\<close>

section \<open>The entries add up\<close>

lemma sum_list_uminus: "(\<Sum>x\<leftarrow>xs. - f x) = - (\<Sum>x\<leftarrow>xs. f x :: int)"
  by (induction xs) simp_all

lemma those_map_set:
  assumes "those (map f xs) = Some ys" and "y \<in> set ys"
  shows "\<exists>x\<in>set xs. f x = Some y"
  using assms(1) [unfolded those_map_Some] assms(2) by (induction rule: list_all2_induct) auto

text \<open>What an entry adds to the balance\<close>

fun rh_value :: "TALER_EXCHANGEDB_ReserveHistory \<Rightarrow> int" where
  "rh_value (TALER_EXCHANGEDB_RO_BANK_TO_EXCHANGE bt) = amt (bt_amount bt)"
| "rh_value (TALER_EXCHANGEDB_RO_WITHDRAW_COIN cb) = - amt (cb_amount_with_fee cb)"
| "rh_value (TALER_EXCHANGEDB_RO_RECOUP_COIN rp) = amt (rec_value rp)"
| "rh_value (TALER_EXCHANGEDB_RO_EXCHANGE_TO_BANK ct) = - amt (ct_amount ct)"

fun rh_in :: "string \<Rightarrow> TALER_EXCHANGEDB_ReserveHistory \<Rightarrow> bool" where
  "rh_in c (TALER_EXCHANGEDB_RO_BANK_TO_EXCHANGE bt) \<longleftrightarrow> amount_in c (bt_amount bt)"
| "rh_in c (TALER_EXCHANGEDB_RO_WITHDRAW_COIN cb) \<longleftrightarrow>
     amount_in c (cb_amount_with_fee cb) \<and> amount_in c (cb_withdraw_fee cb)"
| "rh_in c (TALER_EXCHANGEDB_RO_RECOUP_COIN rp) \<longleftrightarrow> amount_in c (rec_value rp)"
| "rh_in c (TALER_EXCHANGEDB_RO_EXCHANGE_TO_BANK ct) \<longleftrightarrow>
     amount_in c (ct_amount ct) \<and> amount_in c (ct_closing_fee ct)"

lemma result_spec_amount_wp:
  assumes "pg_ok pg" and "sql_normal x"
  shows "\<exists>a. TALER_PQ_result_spec_amount (pg_currency pg) x = Some a
     \<and> amount_in (pg_currency pg) a \<and> amt a = sqlamt x"
  using result_spec_amount [OF assms] by metis

text \<open>Each callback succeeds on the rows of its query and keeps the amount.\<close>

lemma add_bank_to_exchange_ok:
  "pg_ok pg \<Longrightarrow> sql_normal (ri_credit r) \<Longrightarrow>
     \<exists>e. add_bank_to_exchange g pg pub r = Some e \<and> rh_in (pg_currency pg) e \<and> rh_value e = sqlamt (ri_credit r)"
  using result_spec_amount_wp [of pg "ri_credit r"] by (auto simp: add_bank_to_exchange_def)

lemma add_withdraw_coin_ok:
  "pg_ok pg \<Longrightarrow> sql_normal (ro_amount_with_fee (fst x)) \<Longrightarrow> sql_normal (dn_fee_withdraw (snd x)) \<Longrightarrow>
     \<exists>e. add_withdraw_coin pg pub x = Some e \<and> rh_in (pg_currency pg) e
       \<and> rh_value e = - sqlamt (ro_amount_with_fee (fst x))"
  using result_spec_amount_wp [of pg "ro_amount_with_fee (fst x)"]
    result_spec_amount_wp [of pg "dn_fee_withdraw (snd x)"]
  by (cases x) (auto simp: add_withdraw_coin_def)

lemma add_recoup_ok:
  "pg_ok pg \<Longrightarrow> sql_normal (rp_amount (fst x)) \<Longrightarrow>
     \<exists>e. add_recoup g pg pub x = Some e \<and> rh_in (pg_currency pg) e \<and> rh_value e = sqlamt (rp_amount (fst x))"
  using result_spec_amount_wp [of pg "rp_amount (fst x)"] by (cases x) (auto simp: add_recoup_def)

lemma add_exchange_to_bank_ok:
  "pg_ok pg \<Longrightarrow> sql_normal (rcl_amount r) \<Longrightarrow> sql_normal (rcl_closing_fee r) \<Longrightarrow>
     \<exists>e. add_exchange_to_bank g pg pub r = Some e \<and> rh_in (pg_currency pg) e
       \<and> rh_value e = - sqlamt (rcl_amount r)"
  using result_spec_amount_wp [of pg "rcl_amount r"] result_spec_amount_wp [of pg "rcl_closing_fee r"]
  by (auto simp: add_exchange_to_bank_def)

lemma history_select_wp:
  assumes g: "gnunet_ok g" and s: "session_ok s"
    and cb: "\<And>x. x \<in> set (query (s_db s)) \<Longrightarrow> \<exists>e. cb x = Some e \<and> P e \<and> h e = v x"
  shows "wp (history_select g query cb s) (\<lambda>(qs, es, bad) s'. unchanged s s' \<and>
     ((qs = - 1 \<or> qs = - 2) \<and> es = [] \<and> \<not> bad \<or> 0 \<le> qs \<and> bad
      \<or> 0 \<le> qs \<and> \<not> bad \<and> \<not> s_failed s' \<and> (\<forall>e\<in>set es. P e)
         \<and> (\<Sum>e\<leftarrow>es. h e) = (\<Sum>x\<leftarrow>query (s_db s). v x :: int)))"
  unfolding history_select_def
proof (rule wp_bindI [OF pq_multi_select_wp [OF g s]], goal_cases)
  case (1 x s')
  obtain qs rows bad where x: "x = (qs, rows, bad)" by (cases x)
  show ?case
  proof (cases "rows = []")
    case True
    with 1 x show ?thesis by auto
  next
    case False
    with 1 x have rows: "rows = query (s_db s)" "0 \<le> qs" "unchanged s s'" "\<not> s_failed s'" by auto
    have "\<forall>x\<in>set (rev rows). cb x \<noteq> None" using cb rows(1) by fastforce
    then obtain es where es: "those (map cb (rev rows)) = Some es"
      using those_map_exists by blast
    have "(\<Sum>e\<leftarrow>es. h e) = (\<Sum>x\<leftarrow>rev rows. v x)"
      using cb rows(1) by (intro sum_those_map [OF es]) force
    moreover have "\<forall>e\<in>set es. P e"
      using those_map_set [OF es] cb rows(1) by fastforce
    ultimately show ?thesis
      using x rows es by (auto simp: sum_list_rev_map simp flip: rev_map)
  qed
qed

section \<open>The joins of the queries\<close>

lemma sum_get_reserves_out:
  assumes "reserve_tables_ok db"
  shows "(\<Sum>x\<leftarrow>sql_get_reserves_out pub db. - sqlamt (ro_amount_with_fee (fst x))) = - reserve_out_total db pub"
proof -
  have "(\<Sum>x\<leftarrow>sql_get_reserves_out pub db. - sqlamt (ro_amount_with_fee (fst x)))
      = (\<Sum>r\<leftarrow>filter (\<lambda>r. ro_reserve_pub r = pub) (t_reserves_out db). - sqlamt (ro_amount_with_fee r))"
    unfolding sql_get_reserves_out_def
  proof (rule sum_concat_map)
    fix r assume "r \<in> set (t_reserves_out db)"
    with assms obtain d where "d \<in> set (t_denominations db)" "dn_denom_pub_hash d = ro_denom_pub_hash r"
      and "distinct (map dn_denom_pub_hash (t_denominations db))"
      by (auto simp: reserve_tables_ok_def denom_known_def)
    then show "(\<Sum>x\<leftarrow>concat (map (\<lambda>d. if dn_denom_pub_hash d = ro_denom_pub_hash r
            then if ro_reserve_pub r = pub then [(r, d)] else [] else []) (t_denominations db)).
          - sqlamt (ro_amount_with_fee (fst x)))
        = (if ro_reserve_pub r = pub then - sqlamt (ro_amount_with_fee r) else 0)"
      using join_key [of dn_denom_pub_hash "t_denominations db" d
          "\<lambda>d. if ro_reserve_pub r = pub then [(r, d)] else []"] by simp
  qed
  also have "\<dots> = - reserve_out_total db pub"
    by (simp only: reserve_out_total_def sum_list_uminus)
  finally show ?thesis .
qed

lemma sum_recoup_by_reserve:
  assumes "reserve_tables_ok db"
  shows "(\<Sum>x\<leftarrow>sql_recoup_by_reserve pub db. sqlamt (rp_amount (fst x))) = reserve_recoup_total db pub"
  unfolding sql_recoup_by_reserve_def reserve_recoup_total_def
proof (rule sum_concat_map)
  fix p assume p: "p \<in> set (t_recoup db)"
  with assms obtain k r where k: "k \<in> set (t_known_coins db)" "kc_coin_pub k = rp_coin_pub p"
    and r: "r \<in> set (t_reserves_out db)" "ro_h_blind_ev r = rp_h_blind_ev p"
    and d: "distinct (map kc_coin_pub (t_known_coins db))" "distinct (map ro_h_blind_ev (t_reserves_out db))"
    by (auto simp: reserve_tables_ok_def coin_known_def)
  have "blind_of_reserve db pub (rp_h_blind_ev p) \<longleftrightarrow> ro_reserve_pub r = pub"
    using r d(2) by (auto simp: blind_of_reserve_def distinct_map) (metis inj_onD)
  then show "(\<Sum>x\<leftarrow>concat (map (\<lambda>k. if kc_coin_pub k = rp_coin_pub p
        then concat (map (\<lambda>r. if ro_h_blind_ev r = rp_h_blind_ev p
               then if ro_reserve_pub r = pub then [(p, k)] else [] else []) (t_reserves_out db))
        else []) (t_known_coins db)). sqlamt (rp_amount (fst x)))
      = (if blind_of_reserve db pub (rp_h_blind_ev p) then sqlamt (rp_amount p) else 0)"
    using join_key [OF d(1) k(1), of "\<lambda>k. concat (map (\<lambda>r. if ro_h_blind_ev r = rp_h_blind_ev p
               then if ro_reserve_pub r = pub then [(p, k)] else [] else []) (t_reserves_out db))"]
      join_key [OF d(2) r(1), of "\<lambda>r. if ro_reserve_pub r = pub then [(p, k)] else []"] k(2) r(2)
    by simp
qed

lemma sum_reserves_in:
  "(\<Sum>r\<leftarrow>sql_reserves_in_get_transactions pub db. sqlamt (ri_credit r)) = reserve_in_total db pub"
  by (simp add: sql_reserves_in_get_transactions_def reserve_in_total_def)

lemma sum_close_by_reserve:
  "(\<Sum>r\<leftarrow>sql_close_by_reserve pub db. - sqlamt (rcl_amount r)) = - reserve_close_total db pub"
  by (simp only: sql_close_by_reserve_def reserve_close_total_def sum_list_uminus)

section \<open>The whole history\<close>

text \<open>One step of the loop over the queries\<close>

lemma history_work_step:
  assumes w: "\<And>s1. unchanged s s1 \<Longrightarrow> session_ok s1 \<Longrightarrow> wp (w s1) (\<lambda>(qs, es, bad) s'. unchanged s1 s' \<and>
       ((qs = - 1 \<or> qs = - 2) \<and> es = [] \<and> \<not> bad \<or> 0 \<le> qs \<and> bad
        \<or> 0 \<le> qs \<and> \<not> bad \<and> \<not> s_failed s' \<and> (\<forall>e\<in>set es. P e) \<and> (\<Sum>e\<leftarrow>es. h e) = (v :: int)))"
    and rest: "\<And>qs es s1. unchanged s s1 \<Longrightarrow> session_ok s1 \<Longrightarrow> 0 \<le> qs \<Longrightarrow> \<not> s_failed s1 \<Longrightarrow> \<forall>e\<in>set es. P e \<Longrightarrow>
       (\<Sum>e\<leftarrow>es. h e) = v \<Longrightarrow> wp (reserve_history_work ws qs (rh @ es) s1) Q"
    and fail: "\<And>qs s1. unchanged s s1 \<Longrightarrow> qs = - 1 \<or> qs = - 2 \<Longrightarrow> Q (qs, []) s1"
    and s: "unchanged s s0" "session_ok s"
  shows "wp (reserve_history_work (w # ws) q rh s0) Q"
  unfolding reserve_history_work.simps
proof (rule wp_bindI [OF w [OF s(1) session_ok_unchanged [OF s(2,1)]]], goal_cases)
  case (1 x s1)
  obtain qs es bad where x: "x = (qs, es, bad)" by (cases x)
  have s1: "unchanged s s1" using 1 x s(1) by (auto intro: unchanged_trans)
  then have "session_ok s1" by (rule session_ok_unchanged [OF s(2)])
  with 1 x s1 rest [OF s1] fail [OF s1] show ?case by auto
qed

lemma get_reserve_history_wp:
  assumes g: "gnunet_ok g" and s: "session_ok s" and pg: "pg_ok pg" and ok: "reserve_tables_ok (s_db s)"
  shows "wp (postgres_get_reserve_history g pg pub s) (\<lambda>(qs, rh) s'. unchanged s s' \<and>
     ((qs = - 1 \<or> qs = - 2) \<and> rh = []
      \<or> 0 \<le> qs \<and> \<not> s_failed s' \<and> (\<forall>e\<in>set rh. rh_in (pg_currency pg) e)
         \<and> (\<Sum>e\<leftarrow>rh. rh_value e) = reserve_net (s_db s) pub))"
proof -
  let ?sel = "\<lambda>q cb v s1. wp (history_select g q cb s1) (\<lambda>(qs, es, bad) s'. unchanged s1 s' \<and>
       ((qs = - 1 \<or> qs = - 2) \<and> es = [] \<and> \<not> bad \<or> 0 \<le> qs \<and> bad
        \<or> 0 \<le> qs \<and> \<not> bad \<and> \<not> s_failed s' \<and> (\<forall>e\<in>set es. rh_in (pg_currency pg) e)
           \<and> (\<Sum>e\<leftarrow>es. rh_value e) = v))"
  have sel: "?sel (sql_reserves_in_get_transactions pub) (add_bank_to_exchange g pg pub)
        (reserve_in_total (s_db s) pub) s1"
      "?sel (sql_get_reserves_out pub) (add_withdraw_coin pg pub) (- reserve_out_total (s_db s) pub) s1"
      "?sel (sql_recoup_by_reserve pub) (add_recoup g pg pub) (reserve_recoup_total (s_db s) pub) s1"
      "?sel (sql_close_by_reserve pub) (add_exchange_to_bank g pg pub) (- reserve_close_total (s_db s) pub) s1"
    if "unchanged s s1" "session_ok s1" for s1
  proof -
    have db: "s_db s1 = s_db s" using that(1) by (simp add: unchanged_def)
    note ok' = ok [unfolded reserve_tables_ok_def]
    have "?sel (sql_reserves_in_get_transactions pub) (add_bank_to_exchange g pg pub)
        (\<Sum>r\<leftarrow>sql_reserves_in_get_transactions pub (s_db s1). sqlamt (ri_credit r)) s1"
      using ok' by (intro history_select_wp [OF g that(2)] add_bank_to_exchange_ok [OF pg])
        (auto simp: db sql_reserves_in_get_transactions_def)
    then show "?sel (sql_reserves_in_get_transactions pub) (add_bank_to_exchange g pg pub)
        (reserve_in_total (s_db s) pub) s1"
      by (simp only: db sum_reserves_in)
    have "?sel (sql_get_reserves_out pub) (add_withdraw_coin pg pub)
        (\<Sum>x\<leftarrow>sql_get_reserves_out pub (s_db s1). - sqlamt (ro_amount_with_fee (fst x))) s1"
      using ok' by (intro history_select_wp [OF g that(2)] add_withdraw_coin_ok [OF pg])
        (auto simp: db sql_get_reserves_out_def split: if_splits)
    then show "?sel (sql_get_reserves_out pub) (add_withdraw_coin pg pub) (- reserve_out_total (s_db s) pub) s1"
      by (simp only: db sum_get_reserves_out [OF ok])
    have "?sel (sql_recoup_by_reserve pub) (add_recoup g pg pub)
        (\<Sum>x\<leftarrow>sql_recoup_by_reserve pub (s_db s1). sqlamt (rp_amount (fst x))) s1"
      using ok' by (intro history_select_wp [OF g that(2)] add_recoup_ok [OF pg])
        (auto simp: db sql_recoup_by_reserve_def split: if_splits)
    then show "?sel (sql_recoup_by_reserve pub) (add_recoup g pg pub) (reserve_recoup_total (s_db s) pub) s1"
      by (simp only: db sum_recoup_by_reserve [OF ok])
    have "?sel (sql_close_by_reserve pub) (add_exchange_to_bank g pg pub)
        (\<Sum>r\<leftarrow>sql_close_by_reserve pub (s_db s1). - sqlamt (rcl_amount r)) s1"
      using ok' by (intro history_select_wp [OF g that(2)] add_exchange_to_bank_ok [OF pg])
        (auto simp: db sql_close_by_reserve_def)
    then show "?sel (sql_close_by_reserve pub) (add_exchange_to_bank g pg pub) (- reserve_close_total (s_db s) pub) s1"
      by (simp only: db sum_close_by_reserve)
  qed
  show ?thesis
    unfolding postgres_get_reserve_history_def
    by (rule history_work_step [OF sel(1) history_work_step [OF sel(2) history_work_step [OF sel(3)
          history_work_step [OF sel(4)]]]])
      (use s in \<open>auto simp: reserve_net_def intro: unchanged_trans\<close>)
qed

section \<open>Properties\<close>

lemma credit_effect_net:
  "credit_effect pub x w a db db' \<Longrightarrow>
     reserve_net db' p = reserve_net db p + (if p = pub then a else 0)"
proof -
  assume "credit_effect pub x w a db db'"
  then obtain row where e: "db' = (db\<lparr>t_reserves_in := t_reserves_in db @ [row]\<rparr>)\<lparr>t_reserves := t_reserves db'\<rparr>"
    and r: "ri_reserve_pub row = pub" "sqlamt (ri_credit row) = a"
    by (auto simp: credit_effect_def)
  show ?thesis
    by (subst e) (use r in \<open>simp only: reserve_net_reserves reserve_net_in\<close>, auto)
qed

lemma withdraw_effect_net:
  assumes "withdraw_effect cb db db'" and "reserve_tables_ok db"
    and "\<forall>r\<in>set (t_reserves_out db). ro_h_blind_ev r \<noteq> cb_h_coin_envelope cb"
  shows "reserve_net db' p = reserve_net db p - (if p = cb_reserve_pub cb then amt (cb_amount_with_fee cb) else 0)"
  using assms by (auto simp: withdraw_effect_def reserve_net_out)

lemma recoup_effect_net:
  assumes "recoup_effect pub coin h a db db'" and "reserve_tables_ok db" and "blind_of_reserve db pub h"
  shows "reserve_net db' p = reserve_net db p + (if p = pub then a else 0)"
proof -
  obtain row e gc b where db': "db' = reserve_set e gc b pub (db\<lparr>t_recoup := t_recoup db @ [row]\<rparr>)"
    and row: "rp_h_blind_ev row = h" "sqlamt (rp_amount row) = a"
    using assms(1) by (auto simp: recoup_effect_def)
  show ?thesis
    unfolding db' reserve_net_set reserve_net_recoup row
    by (simp add: blind_of_reserve_unique [OF assms(2,3)])
qed

lemma withdraw_effect_fresh:
  assumes "withdraw_effect cb db db'"
  shows "\<forall>r\<in>set (t_reserves_out db). ro_h_blind_ev r \<noteq> cb_h_coin_envelope cb"
    and "\<exists>r\<in>set (t_reserves_out db'). ro_h_blind_ev r = cb_h_coin_envelope cb"
proof -
  obtain row e gc b where
      db': "db' = reserve_set e gc b (cb_reserve_pub cb) (db\<lparr>t_reserves_out := t_reserves_out db @ [row]\<rparr>)"
    and row: "ro_h_blind_ev row = cb_h_coin_envelope cb" and ok: "reserve_tables_ok db'"
    using assms by (auto simp: withdraw_effect_def)
  have "distinct (map ro_h_blind_ev (t_reserves_out db @ [row]))"
    using ok unfolding db' reserve_tables_ok_set by (simp add: reserve_tables_ok_def)
  with row show "\<forall>r\<in>set (t_reserves_out db). ro_h_blind_ev r \<noteq> cb_h_coin_envelope cb" by (auto simp: image_iff)
  show "\<exists>r\<in>set (t_reserves_out db'). ro_h_blind_ev r = cb_h_coin_envelope cb"
    unfolding db' using row by simp
qed

text \<open>C23. An incoming wire transfer is credited exactly once: if the plugin reports one row, the transfer
  was not recorded before, the table of incoming transfers has grown by exactly the one row of this transfer, which is now
  recorded exactly once, the balance of the reserve has grown by exactly its amount and all balances still agree
  with the histories; if it reports no row, the transfer was recorded before and nothing has
  changed. The committed state is not touched and nothing aborts, whatever the database answers.\<close>

theorem reserves_in_insert_once:
  assumes "gnunet_ok g" and "session_ok s" and "s_in_tx s" and "pg_ok pg"
    and "reserves_ok (s_db s)" and "reserve_tables_ok (s_db s)"
    and "amount_in (pg_currency pg) balance" and "GNUNET_TIME_round_abs g time = time"
  shows "wp (postgres_reserves_in_insert g pg pub balance time sender section wire_ref s) (\<lambda>qs s'.
     s_committed s' = s_committed s
     \<and> (qs = 1 \<longrightarrow> \<not> transfer_known (s_db s) pub wire_ref
          \<and> (\<exists>row. t_reserves_in (s_db s') = t_reserves_in (s_db s) @ [row] \<and> ri_reserve_pub row = pub
                \<and> ri_wire_reference row = wire_ref \<and> sqlamt (ri_credit row) = amt balance)
          \<and> reserves_ok (s_db s') \<and> reserve_tables_ok (s_db s')
          \<and> (\<forall>p. reserve_net (s_db s') p = reserve_net (s_db s) p + (if p = pub then amt balance else 0))
          \<and> length (filter (\<lambda>r. ri_reserve_pub r = pub \<and> ri_wire_reference r = wire_ref) (t_reserves_in (s_db s'))) = 1)
     \<and> (qs = 0 \<longrightarrow> transfer_known (s_db s) pub wire_ref \<and> s_db s' = s_db s)
     \<and> qs \<in> {- 2, - 1, 0, 1})"
proof (rule wp_mono [OF reserves_in_insert_wp [OF assms, of pub sender "section" wire_ref]], elim disjE conjE exE, goal_cases)
  case (1 qs s' db)
  then have db: "s_db s' = db" "s_committed s' = s_committed s"
    using assms(3) by (simp_all add: updated_def)
  from 1(3) obtain row where fresh: "\<not> transfer_known (s_db s) pub wire_ref"
    and row: "t_reserves_in db = t_reserves_in (s_db s) @ [row]" "ri_reserve_pub row = pub"
      "ri_wire_reference row = wire_ref" "sqlamt (ri_credit row) = amt balance"
    by (auto simp: credit_effect_def dest!: arg_cong [where f = t_reserves_in])
  moreover from fresh row have
    "length (filter (\<lambda>r. ri_reserve_pub r = pub \<and> ri_wire_reference r = wire_ref) (t_reserves_in db)) = 1"
    by (auto simp: transfer_known_def filter_empty_conv)
  moreover have "reserves_ok db" "reserve_tables_ok db"
    using 1(3) by (auto simp: credit_effect_def)
  ultimately show ?case
    unfolding db(1) using db(2) 1(1) credit_effect_net [OF 1(3)] by auto
qed (use assms(3) in \<open>auto simp: op_failed_def tx_kept_def updated_def\<close>)

text \<open>C22. A withdrawal that the plugin reports as stored has lowered the balance of the reserve by exactly
  the amount with fee, which the reserve had; the envelope was not recorded before and is now,
  and all balances still agree with the histories. If no row is reported the envelope was
  recorded before. The committed state is not touched and nothing aborts.\<close>

theorem insert_withdraw_info_conserves:
  assumes "gnunet_ok g" and "session_ok s" and "s_in_tx s" and "pg_ok pg"
    and "reserves_ok (s_db s)" and "reserve_tables_ok (s_db s)"
    and "amount_in (pg_currency pg) (cb_amount_with_fee cb)"
  shows "wp (postgres_insert_withdraw_info g pg clock cb s) (\<lambda>qs s'.
     s_committed s' = s_committed s
     \<and> (qs = 1 \<longrightarrow> reserves_ok (s_db s') \<and> reserve_tables_ok (s_db s')
          \<and> (\<forall>p. reserve_net (s_db s') p = reserve_net (s_db s) p
                    - (if p = cb_reserve_pub cb then amt (cb_amount_with_fee cb) else 0))
          \<and> (\<forall>r\<in>set (t_reserves_out (s_db s)). ro_h_blind_ev r \<noteq> cb_h_coin_envelope cb)
          \<and> (\<exists>r\<in>set (t_reserves_out (s_db s')). ro_h_blind_ev r = cb_h_coin_envelope cb))
     \<and> (qs = 0 \<longrightarrow> (\<exists>r\<in>set (t_reserves_out (s_db s)). ro_h_blind_ev r = cb_h_coin_envelope cb))
     \<and> qs \<in> {- 2, - 1, 0, 1})"
proof (rule wp_mono [OF insert_withdraw_info_wp [OF assms, of clock]], elim disjE conjE exE, goal_cases)
  case (1 qs s' db)
  then have db: "s_db s' = db" "s_committed s' = s_committed s"
    using assms(3) by (simp_all add: updated_def)
  note fresh = withdraw_effect_fresh [OF 1(3)]
  have "reserves_ok db" "reserve_tables_ok db"
    using 1(3) by (auto simp: withdraw_effect_def)
  with fresh show ?case
    unfolding db(1) using db(2) 1(1) withdraw_effect_net [OF 1(3) assms(6) fresh(1)] by simp
qed (use assms(3) in \<open>auto simp: op_failed_def tx_kept_def unchanged_def\<close>)

text \<open>C25. A recoup that is reported as stored has raised the balance of the reserve the coin came from by
  exactly the recouped amount, and all balances still agree with the histories. The committed state
  is not touched and nothing aborts.\<close>

theorem insert_recoup_request_conserves:
  assumes "gnunet_ok g" and "session_ok s" and "s_in_tx s" and "pg_ok pg"
    and "reserves_ok (s_db s)" and "reserve_tables_ok (s_db s)"
    and "amount_in (pg_currency pg) amount" and "GNUNET_TIME_round_abs g timestamp = timestamp"
    and "blind_of_reserve (s_db s) pub h_blind"
  shows "wp (postgres_insert_recoup_request g pg pub coin coin_sig coin_blind amount h_blind timestamp s)
    (\<lambda>qs s'. s_committed s' = s_committed s
     \<and> (qs = 1 \<longrightarrow> reserves_ok (s_db s') \<and> reserve_tables_ok (s_db s')
          \<and> (\<forall>p. reserve_net (s_db s') p = reserve_net (s_db s) p + (if p = pub then amt amount else 0)))
     \<and> qs \<in> {- 2, - 1, 1})"
proof (rule wp_mono [OF insert_recoup_request_wp [OF assms, of coin coin_sig coin_blind]],
    elim disjE conjE exE, goal_cases)
  case (1 qs s' db)
  then have db: "s_db s' = db" "s_committed s' = s_committed s"
    using assms(3) by (simp_all add: updated_def)
  have "reserves_ok db" "reserve_tables_ok db"
    using 1(3) by (auto simp: recoup_effect_def)
  then show ?case
    unfolding db(1) using db(2) 1(1) recoup_effect_net [OF 1(3) assms(6,9)] by simp
qed (auto simp: op_failed_def tx_kept_def)

text \<open>Closing a reserve, when reported as done, has lowered its balance by exactly the closed amount,
  which the reserve had, and all balances still agree with the histories. The committed state is
  not touched and nothing aborts.\<close>

theorem insert_reserve_closed_conserves:
  assumes "gnunet_ok g" and "session_ok s" and "s_in_tx s" and "pg_ok pg"
    and "reserves_ok (s_db s)" and "reserve_tables_ok (s_db s)"
    and "amount_in (pg_currency pg) amount" and "amount_in (pg_currency pg) closing_fee"
    and "GNUNET_TIME_round_abs g date = date"
  shows "wp (postgres_insert_reserve_closed g pg pub date receiver wtid amount closing_fee s)
    (\<lambda>qs s'. s_committed s' = s_committed s
     \<and> (qs = 1 \<longrightarrow> reserves_ok (s_db s') \<and> reserve_tables_ok (s_db s')
          \<and> (\<forall>p. reserve_net (s_db s') p = reserve_net (s_db s) p - (if p = pub then amt amount else 0)))
     \<and> qs \<in> {- 2, - 1, 1})"
proof (rule wp_mono [OF insert_reserve_closed_wp [OF assms, of pub receiver wtid]],
    elim disjE conjE exE, goal_cases)
  case (1 qs s' db)
  then have db: "s_db s' = db" "s_committed s' = s_committed s"
    using assms(3) by (simp_all add: updated_def)
  have "reserves_ok db" "reserve_tables_ok db"
    "reserve_net db p = reserve_net (s_db s) p - (if p = pub then amt amount else 0)" for p
    using 1(3) by (auto simp: close_effect_def)
  then show ?case
    unfolding db(1) using db(2) 1(1) by simp
qed (auto simp: op_failed_def tx_kept_def)

text \<open>C26. The history of a reserve, when it is delivered, adds up to the current balance of the reserve:
  credits and recoups minus withdrawals and closings, over the joins of the four queries. Otherwise
  an error is reported with an empty history. Nothing aborts.\<close>

theorem get_reserve_history_adds_up:
  assumes "gnunet_ok g" and "session_ok s" and "pg_ok pg"
    and "reserves_ok (s_db s)" and "reserve_tables_ok (s_db s)"
  shows "wp (postgres_get_reserve_history g pg pub s) (\<lambda>(qs, rh) s'. s_db s' = s_db s \<and>
     (qs < 0 \<and> rh = []
      \<or> 0 \<le> qs \<and> (\<forall>r\<in>set (t_reserves (s_db s)). rv_reserve_pub r = pub \<longrightarrow>
                      (\<Sum>e\<leftarrow>rh. rh_value e) = sqlamt (rv_current_balance r))))"
  using assms(4)
  by (intro wp_mono [OF get_reserve_history_wp [OF assms(1,2,3,5)]]) (auto simp: unchanged_def reserves_ok_def)

section \<open>A sample database\<close>

definition sample_gnunet :: gnunet where
  "sample_gnunet = \<lparr>GNUNET_TIME_round_abs = (\<lambda>t. t), GNUNET_TIME_absolute_add = (+),
     GNUNET_TIME_absolute_max = max,
     pq_status = (\<lambda>e. case e of PQ_UNIQUE_VIOLATION \<Rightarrow> 0 | PQ_SERIALIZATION_FAILURE \<Rightarrow> - 1 | _ \<Rightarrow> - 2)\<rparr>"

definition sample_pg :: PostgresClosure where
  "sample_pg = \<lparr>pg_currency = ''EUR'', pg_idle_reserve_expiration_time = 100,
                pg_legal_reserve_expiration_time = 1000\<rparr>"

text \<open>One denomination of value 5, a reserve that received 10 and one coin withdrawn from it for 5 and
  a fee of 1\<close>

definition sample_db :: tables where
  "sample_db = \<lparr>
     t_denominations = [\<lparr>dn_denom_pub_hash = 7, dn_denom_pub = 7, dn_expire_withdraw = 500, dn_expire_deposit = 600,
        dn_expire_legal = 700, dn_coin = (5, 0), dn_fee_withdraw = (1, 0), dn_fee_deposit = (1, 0),
        dn_fee_refresh = (1, 0), dn_fee_refund = (1, 0)\<rparr>],
     t_reserves = [\<lparr>rv_reserve_pub = 3, rv_account_details = ''payto'', rv_current_balance = (4, 0),
        rv_expiration_date = 200, rv_gc_date = 200\<rparr>],
     t_reserves_in = [\<lparr>ri_serial_id = 1, ri_reserve_pub = 3, ri_wire_reference = 5, ri_credit = (10, 0),
        ri_sender_account_details = ''payto'', ri_exchange_account_section = ''acct'', ri_execution_date = 100\<rparr>],
     t_reserves_close = [],
     t_reserves_out = [\<lparr>ro_serial_id = 2, ro_h_blind_ev = 40, ro_denom_pub_hash = 7, ro_denom_sig = 0,
        ro_reserve_pub = 3, ro_reserve_sig = 0, ro_execution_date = 110, ro_amount_with_fee = (6, 0)\<rparr>],
     t_known_coins = [\<lparr>kc_coin_pub = 20, kc_denom_pub_hash = 7, kc_denom_sig = 0\<rparr>],
     t_refresh_commitments = [], t_refresh_revealed_coins = [], t_refresh_transfer_keys = [], t_deposits = [], t_refunds = [],
     t_recoup = [], t_recoup_refresh = [],
     t_wire_out = [], t_aggregation_tracking = [], t_wire_fee = [], t_prewire = []\<rparr>"

definition sample_session :: "tables session" where
  "sample_session = \<lparr>s_db = sample_db, s_committed = sample_db, s_in_tx = True, s_failed = False,
     s_transaction_name = Some ''sample'', s_outcomes = [], s_serial = 3\<rparr>"

lemma sample_ok:
  "gnunet_ok sample_gnunet" "pg_ok sample_pg" "session_ok sample_session" "s_in_tx sample_session"
  "GNUNET_TIME_round_abs sample_gnunet t = t" "pg_currency sample_pg = ''EUR''" "s_db sample_session = sample_db"
  "s_committed sample_session = sample_db"
  by (simp_all add: gnunet_ok_def sample_gnunet_def pg_ok_def sample_pg_def session_ok_def
      sample_session_def cstr_def strlen_def TALER_CURRENCY_LEN_def)

lemma sample_db_ok: "reserves_ok sample_db" "reserve_tables_ok sample_db" "blind_of_reserve sample_db 3 40"
  by (simp_all add: reserves_ok_def reserve_tables_ok_def sample_db_def reserve_total_defs sql_normal_def
      sqlamt_def AMT_LIMIT_def reserve_known_def denom_known_def coin_known_def)

definition sample_cb :: TALER_EXCHANGEDB_CollectableBlindcoin where
  "sample_cb = \<lparr>cb_sig = 0, cb_denom_pub_hash = 7, cb_amount_with_fee = mk_amount ''EUR'' 3 0,
     cb_withdraw_fee = mk_amount ''EUR'' 1 0, cb_reserve_pub = 3, cb_h_coin_envelope = 41, cb_reserve_sig = 0\<rparr>"

theorem reserves_in_insert_once_witness:
  "wp (postgres_reserves_in_insert sample_gnunet sample_pg 3 (mk_amount ''EUR'' 2 0) 120 ''payto'' ''acct'' 6
        sample_session)
     (\<lambda>qs s'. s_committed s' = sample_db \<and>
        (qs = 1 \<longrightarrow> reserve_net (s_db s') 3 = reserve_net sample_db 3 + 200000000))"
  by (rule wp_mono [OF reserves_in_insert_once [OF sample_ok(1,3,4,2)]])
    (auto simp: sample_ok sample_db_ok mk_amount_in_EUR)

theorem insert_withdraw_info_conserves_witness:
  "wp (postgres_insert_withdraw_info sample_gnunet sample_pg 320 sample_cb sample_session)
     (\<lambda>qs s'. qs = 1 \<longrightarrow> reserve_net (s_db s') 3 = reserve_net sample_db 3 - 300000000)"
  by (rule wp_mono [OF insert_withdraw_info_conserves [OF sample_ok(1,3,4,2)]])
    (auto simp: sample_ok sample_db_ok mk_amount_in_EUR sample_cb_def)

theorem insert_recoup_request_conserves_witness:
  "wp (postgres_insert_recoup_request sample_gnunet sample_pg 3
         \<lparr>coin_pub = 20, coin_denom_pub_hash = 7, coin_denom_sig = 0\<rparr> 0 0 (mk_amount ''EUR'' 2 0) 40 130
         sample_session)
     (\<lambda>qs s'. qs = 1 \<longrightarrow> reserve_net (s_db s') 3 = reserve_net sample_db 3 + 200000000)"
  by (rule wp_mono [OF insert_recoup_request_conserves [OF sample_ok(1,3,4,2)]])
    (auto simp: sample_ok sample_db_ok mk_amount_in_EUR)

theorem insert_reserve_closed_conserves_witness:
  "wp (postgres_insert_reserve_closed sample_gnunet sample_pg 3 130 ''payto'' 9 (mk_amount ''EUR'' 4 0)
         (mk_amount ''EUR'' 1 0) sample_session)
     (\<lambda>qs s'. qs = 1 \<longrightarrow> reserve_net (s_db s') 3 = reserve_net sample_db 3 - 400000000)"
  by (rule wp_mono [OF insert_reserve_closed_conserves [OF sample_ok(1,3,4,2)]])
    (auto simp: sample_ok sample_db_ok mk_amount_in_EUR)

theorem get_reserve_history_adds_up_witness:
  "wp (postgres_get_reserve_history sample_gnunet sample_pg 3 sample_session)
     (\<lambda>(qs, rh) s'. qs < 0 \<or> (\<Sum>e\<leftarrow>rh. rh_value e) = 400000000)"
  by (rule wp_mono [OF get_reserve_history_adds_up [OF sample_ok(1,3,2)]])
    (auto simp: sample_ok sample_db_ok, auto simp: sample_db_def sqlamt_def)

end
