(* ===== verification/Coin_History.thy ===== *)
theory Coin_History
  imports Exchangedb_Types
begin

text \<open>
  \<^verbatim>\<open>src/exchangedb/exchangedb_transactions.c\<close>: the total that a coin's transaction history
  has spent. The local variables of the C function are a record; the variable
  \<^verbatim>\<open>deposit_fee\<close> is not initialised before the loop, so it is an \<open>option\<close>, and reading it
  before a deposit was seen has no defined result (\<open>None\<close>, as for an abort).
\<close>

record tl_totals =
  tot_spent :: TALER_Amount
  tot_refunded :: TALER_Amount
  tot_deposit_fee :: "TALER_Amount option"
  tot_have_refund :: bool
  tot_have_deposit_or_melt :: bool

text \<open>\<^verbatim>\<open>spent += a\<close> and \<^verbatim>\<open>refunded += a\<close>, with the result code of the addition\<close>

definition spent_add :: "TALER_Amount \<Rightarrow> tl_totals \<Rightarrow> (int \<times> tl_totals) option" where
  "spent_add a t = do {
     (r, s) \<leftarrow> TALER_amount_add (tot_spent t) a;
     Some (r, t\<lparr>tot_spent := s\<rparr>)
   }"

definition refunded_add :: "TALER_Amount \<Rightarrow> tl_totals \<Rightarrow> (int \<times> tl_totals) option" where
  "refunded_add a t = do {
     (r, s) \<leftarrow> TALER_amount_add (tot_refunded t) a;
     Some (r, t\<lparr>tot_refunded := s\<rparr>)
   }"

text \<open>The \<^verbatim>\<open>switch\<close> of the loop body\<close>

fun totals_entry ::
    "TALER_EXCHANGEDB_TransactionDetails \<Rightarrow> tl_totals \<Rightarrow> (int \<times> tl_totals) option" where
  "totals_entry (TALER_EXCHANGEDB_TT_DEPOSIT d) t = do {
     let t = t\<lparr>tot_have_deposit_or_melt := True\<rparr>;
     (r, t) \<leftarrow> spent_add (dle_amount_with_fee d) t;
     if 0 > r then Some (GNUNET_SYSERR, t)
     else Some (GNUNET_OK, t\<lparr>tot_deposit_fee := Some (dle_deposit_fee d)\<rparr>)
   }"
| "totals_entry (TALER_EXCHANGEDB_TT_MELT m) t = do {
     let t = t\<lparr>tot_have_deposit_or_melt := True\<rparr>;
     (r, t) \<leftarrow> spent_add (mle_amount_with_fee m) t;
     if 0 > r then Some (GNUNET_SYSERR, t) else Some (GNUNET_OK, t)
   }"
| "totals_entry (TALER_EXCHANGEDB_TT_REFUND d) t = do {
     (r, t) \<leftarrow> refunded_add (rle_refund_amount d) t;
     if 0 > r then Some (GNUNET_SYSERR, t)
     else do {
       (r, t) \<leftarrow> spent_add (rle_refund_fee d) t;
       if 0 > r then Some (GNUNET_SYSERR, t)
       else Some (GNUNET_OK, t\<lparr>tot_have_refund := True\<rparr>)
     }
   }"
| "totals_entry (TALER_EXCHANGEDB_TT_OLD_COIN_RECOUP d) t = do {
     (r, t) \<leftarrow> refunded_add (rrl_value d) t;
     if 0 > r then Some (GNUNET_SYSERR, t) else Some (GNUNET_OK, t)
   }"
| "totals_entry (TALER_EXCHANGEDB_TT_RECOUP d) t = do {
     (r, t) \<leftarrow> spent_add (recl_value d) t;
     if 0 > r then Some (GNUNET_SYSERR, t) else Some (GNUNET_OK, t)
   }"
| "totals_entry (TALER_EXCHANGEDB_TT_RECOUP_REFRESH d) t = do {
     (r, t) \<leftarrow> spent_add (rrl_value d) t;
     if 0 > r then Some (GNUNET_SYSERR, t) else Some (GNUNET_OK, t)
   }"

fun totals_loop ::
    "TALER_EXCHANGEDB_TransactionList list \<Rightarrow> tl_totals \<Rightarrow> (int \<times> tl_totals) option" where
  "totals_loop [] t = Some (GNUNET_OK, t)"
| "totals_loop (pos # next) t = do {
     (r, t) \<leftarrow> totals_entry (tl_details pos) t;
     if r = GNUNET_SYSERR then Some (GNUNET_SYSERR, t) else totals_loop next t
   }"

definition TALER_EXCHANGEDB_calculate_transaction_list_totals ::
    "TALER_EXCHANGEDB_TransactionList list \<Rightarrow> TALER_Amount \<Rightarrow> TALER_Amount
       \<Rightarrow> (int \<times> TALER_Amount) option" where
  "TALER_EXCHANGEDB_calculate_transaction_list_totals tlist off ret = do {
     let (r, refunded) = TALER_amount_get_zero (amt_currency off) invalidate;
     GNUNET_assert (r = GNUNET_OK);
     (r, t) \<leftarrow> totals_loop tlist \<lparr>tot_spent = off, tot_refunded = refunded, tot_deposit_fee = None,
                               tot_have_refund = False, tot_have_deposit_or_melt = False\<rparr>;
     if r = GNUNET_SYSERR then Some (GNUNET_SYSERR, ret)
     else do {
       (r, t) \<leftarrow> (if tot_have_refund t
                  then do { deposit_fee \<leftarrow> tot_deposit_fee t; refunded_add deposit_fee t }
                  else Some (0, t));
       if 0 > r then Some (GNUNET_SYSERR, ret)
       else do {
         (r, spent) \<leftarrow> TALER_amount_subtract (tot_spent t) (tot_spent t) (tot_refunded t);
         if 0 > r then Some (GNUNET_SYSERR, ret)
         else Some (GNUNET_OK, spent)
       }
     }
   }"

section \<open>The reference total\<close>

text \<open>What each entry adds to the two sums, and the deposit fee that is discounted when there
  was a refund.\<close>

fun tl_debit :: "TALER_EXCHANGEDB_TransactionDetails \<Rightarrow> int" where
  "tl_debit (TALER_EXCHANGEDB_TT_DEPOSIT d) = amt (dle_amount_with_fee d)"
| "tl_debit (TALER_EXCHANGEDB_TT_MELT m) = amt (mle_amount_with_fee m)"
| "tl_debit (TALER_EXCHANGEDB_TT_REFUND d) = amt (rle_refund_fee d)"
| "tl_debit (TALER_EXCHANGEDB_TT_OLD_COIN_RECOUP d) = 0"
| "tl_debit (TALER_EXCHANGEDB_TT_RECOUP d) = amt (recl_value d)"
| "tl_debit (TALER_EXCHANGEDB_TT_RECOUP_REFRESH d) = amt (rrl_value d)"

fun tl_credit :: "TALER_EXCHANGEDB_TransactionDetails \<Rightarrow> int" where
  "tl_credit (TALER_EXCHANGEDB_TT_REFUND d) = amt (rle_refund_amount d)"
| "tl_credit (TALER_EXCHANGEDB_TT_OLD_COIN_RECOUP d) = amt (rrl_value d)"
| "tl_credit _ = 0"

fun tl_amounts_in :: "string \<Rightarrow> TALER_EXCHANGEDB_TransactionDetails \<Rightarrow> bool" where
  "tl_amounts_in c (TALER_EXCHANGEDB_TT_DEPOSIT d) \<longleftrightarrow>
     amount_in c (dle_amount_with_fee d) \<and> amount_in c (dle_deposit_fee d)"
| "tl_amounts_in c (TALER_EXCHANGEDB_TT_MELT m) \<longleftrightarrow>
     amount_in c (mle_amount_with_fee m) \<and> amount_in c (mle_melt_fee m)"
| "tl_amounts_in c (TALER_EXCHANGEDB_TT_REFUND d) \<longleftrightarrow>
     amount_in c (rle_refund_amount d) \<and> amount_in c (rle_refund_fee d)"
| "tl_amounts_in c (TALER_EXCHANGEDB_TT_OLD_COIN_RECOUP d) \<longleftrightarrow> amount_in c (rrl_value d)"
| "tl_amounts_in c (TALER_EXCHANGEDB_TT_RECOUP d) \<longleftrightarrow> amount_in c (recl_value d)"
| "tl_amounts_in c (TALER_EXCHANGEDB_TT_RECOUP_REFRESH d) \<longleftrightarrow> amount_in c (rrl_value d)"

fun tl_is_refund :: "TALER_EXCHANGEDB_TransactionDetails \<Rightarrow> bool" where
  "tl_is_refund (TALER_EXCHANGEDB_TT_REFUND d) = True"
| "tl_is_refund _ = False"

fun tl_fee :: "TALER_EXCHANGEDB_TransactionDetails \<Rightarrow> TALER_Amount option" where
  "tl_fee (TALER_EXCHANGEDB_TT_DEPOSIT d) = Some (dle_deposit_fee d)"
| "tl_fee _ = None"

fun tl_last_fee ::
    "TALER_Amount option \<Rightarrow> TALER_EXCHANGEDB_TransactionList list \<Rightarrow> TALER_Amount option" where
  "tl_last_fee f [] = f"
| "tl_last_fee f (e # es) =
     tl_last_fee (case tl_fee (tl_details e) of None \<Rightarrow> f | Some x \<Rightarrow> Some x) es"

definition tl_debits :: "TALER_EXCHANGEDB_TransactionList list \<Rightarrow> int" where
  "tl_debits tlist = (\<Sum>e\<leftarrow>tlist. tl_debit (tl_details e))"

definition tl_credits :: "TALER_EXCHANGEDB_TransactionList list \<Rightarrow> int" where
  "tl_credits tlist = (\<Sum>e\<leftarrow>tlist. tl_credit (tl_details e))"

definition tl_refunds :: "TALER_EXCHANGEDB_TransactionList list \<Rightarrow> bool" where
  "tl_refunds tlist \<longleftrightarrow> (\<exists>e\<in>set tlist. tl_is_refund (tl_details e))"

definition tl_fee_discount :: "TALER_EXCHANGEDB_TransactionList list \<Rightarrow> int" where
  "tl_fee_discount tlist =
     (if tl_refunds tlist then (case tl_last_fee None tlist of None \<Rightarrow> 0 | Some f \<Rightarrow> amt f) else 0)"

definition tl_in :: "string \<Rightarrow> TALER_EXCHANGEDB_TransactionList list \<Rightarrow> bool" where
  "tl_in c tlist \<longleftrightarrow> (\<forall>e\<in>set tlist. tl_amounts_in c (tl_details e))"

section \<open>The loop computes the reference total\<close>

lemma tl_debit_nonneg [simp]: "0 \<le> tl_debit e"
  by (cases e) simp_all

lemma tl_credit_nonneg [simp]: "0 \<le> tl_credit e"
  by (cases e) simp_all

lemma tl_debits_simps [simp]:
  "tl_debits [] = 0" "tl_debits (e # es) = tl_debit (tl_details e) + tl_debits es"
  by (simp_all add: tl_debits_def)

lemma tl_credits_simps [simp]:
  "tl_credits [] = 0" "tl_credits (e # es) = tl_credit (tl_details e) + tl_credits es"
  by (simp_all add: tl_credits_def)

lemma tl_debits_nonneg [simp]: "0 \<le> tl_debits es"
  by (induction es) simp_all

lemma tl_credits_nonneg [simp]: "0 \<le> tl_credits es"
  by (induction es) simp_all

lemma tl_refunds_simps [simp]:
  "\<not> tl_refunds []" "tl_refunds (e # es) \<longleftrightarrow> tl_is_refund (tl_details e) \<or> tl_refunds es"
  by (simp_all add: tl_refunds_def)

lemma tl_in_simps [simp]:
  "tl_in c []" "tl_in c (e # es) \<longleftrightarrow> tl_amounts_in c (tl_details e) \<and> tl_in c es"
  by (simp_all add: tl_in_def)

definition totals_in :: "string \<Rightarrow> tl_totals \<Rightarrow> bool" where
  "totals_in c t \<longleftrightarrow> amount_in c (tot_spent t) \<and> amount_in c (tot_refunded t)
     \<and> (\<forall>f. tot_deposit_fee t = Some f \<longrightarrow> amount_in c f)"

definition totals_after ::
    "string \<Rightarrow> tl_totals \<Rightarrow> int \<Rightarrow> int \<Rightarrow> TALER_Amount option \<Rightarrow> bool \<Rightarrow> int \<Rightarrow> tl_totals \<Rightarrow> bool" where
  "totals_after c t debit credit fee refund r t' \<longleftrightarrow>
     (if amt (tot_spent t) + debit < AMT_LIMIT \<and> amt (tot_refunded t) + credit < AMT_LIMIT
      then r = GNUNET_OK \<and> totals_in c t' \<and> amt (tot_spent t') = amt (tot_spent t) + debit
           \<and> amt (tot_refunded t') = amt (tot_refunded t) + credit
           \<and> tot_deposit_fee t' = fee \<and> tot_have_refund t' = (tot_have_refund t \<or> refund)
      else r = GNUNET_SYSERR)"

lemma spent_add_wp:
  "totals_in c t \<Longrightarrow> amount_in c a \<Longrightarrow>
     wp (spent_add a t) (\<lambda>r t'.
       (0 > r \<longleftrightarrow> \<not> amt (tot_spent t) + amt a < AMT_LIMIT)
       \<and> (0 \<le> r \<longrightarrow> (\<exists>s. t' = t\<lparr>tot_spent := s\<rparr> \<and> amount_in c s \<and> amt s = amt (tot_spent t) + amt a)))"
  unfolding spent_add_def wp_bind
  by (rule wp_mono [OF amount_add_wp [of c]]) (auto simp: totals_in_def)

lemma refunded_add_wp:
  "totals_in c t \<Longrightarrow> amount_in c a \<Longrightarrow>
     wp (refunded_add a t) (\<lambda>r t'.
       (0 > r \<longleftrightarrow> \<not> amt (tot_refunded t) + amt a < AMT_LIMIT)
       \<and> (0 \<le> r \<longrightarrow> (\<exists>s. t' = t\<lparr>tot_refunded := s\<rparr> \<and> amount_in c s \<and> amt s = amt (tot_refunded t) + amt a)))"
  unfolding refunded_add_def wp_bind
  by (rule wp_mono [OF amount_add_wp [of c]]) (auto simp: totals_in_def)

lemma totals_in_limit: "totals_in c t \<Longrightarrow> amt (tot_spent t) < AMT_LIMIT \<and> amt (tot_refunded t) < AMT_LIMIT"
  by (auto simp: totals_in_def amount_in_def amount_normal_def)

lemma totals_in_upd:
  assumes "totals_in c t"
  shows "amount_in c s \<Longrightarrow> totals_in c (t\<lparr>tot_spent := s\<rparr>)"
    and "amount_in c s \<Longrightarrow> totals_in c (t\<lparr>tot_refunded := s\<rparr>)"
    and "amount_in c s \<Longrightarrow> totals_in c (t\<lparr>tot_deposit_fee := Some s\<rparr>)"
    and "totals_in c (t\<lparr>tot_have_refund := b\<rparr>)"
    and "totals_in c (t\<lparr>tot_have_deposit_or_melt := b\<rparr>)"
  using assms by (simp_all add: totals_in_def)

lemma totals_entry_wp:
  assumes "tl_amounts_in c e" and "totals_in c t"
  shows "wp (totals_entry e t)
     (totals_after c t (tl_debit e) (tl_credit e)
        (case tl_fee e of None \<Rightarrow> tot_deposit_fee t | Some f \<Rightarrow> Some f) (tl_is_refund e))"
proof (cases e)
  case (TALER_EXCHANGEDB_TT_DEPOSIT d)
  with assms totals_in_limit [OF assms(2)] show ?thesis
    by (auto simp: wp_bind totals_after_def totals_in_upd
        intro!: wp_mono [OF spent_add_wp [of c]])
next
  case (TALER_EXCHANGEDB_TT_MELT m)
  with assms totals_in_limit [OF assms(2)] show ?thesis
    by (auto simp: wp_bind totals_after_def totals_in_upd
        intro!: wp_mono [OF spent_add_wp [of c]])
next
  case (TALER_EXCHANGEDB_TT_REFUND d)
  with assms totals_in_limit [OF assms(2)] show ?thesis
    by (auto simp: wp_bind totals_after_def totals_in_upd
        intro!: wp_mono [OF refunded_add_wp [of c]] wp_mono [OF spent_add_wp [of c]])
next
  case (TALER_EXCHANGEDB_TT_OLD_COIN_RECOUP d)
  with assms totals_in_limit [OF assms(2)] show ?thesis
    by (auto simp: wp_bind totals_after_def totals_in_upd
        intro!: wp_mono [OF refunded_add_wp [of c]])
next
  case (TALER_EXCHANGEDB_TT_RECOUP d)
  with assms totals_in_limit [OF assms(2)] show ?thesis
    by (auto simp: wp_bind totals_after_def totals_in_upd
        intro!: wp_mono [OF spent_add_wp [of c]])
next
  case (TALER_EXCHANGEDB_TT_RECOUP_REFRESH d)
  with assms totals_in_limit [OF assms(2)] show ?thesis
    by (auto simp: wp_bind totals_after_def totals_in_upd
        intro!: wp_mono [OF spent_add_wp [of c]])
qed

lemma totals_loop_wp:
  assumes "tl_in c es" and "totals_in c t"
  shows "wp (totals_loop es t)
     (totals_after c t (tl_debits es) (tl_credits es) (tl_last_fee (tot_deposit_fee t) es) (tl_refunds es))"
  using assms
proof (induction es arbitrary: t)
  case Nil
  with totals_in_limit [OF Nil(2)] show ?case by (simp add: totals_after_def)
next
  case (Cons e es)
  let ?e = "tl_details e"
  have step: "wp (totals_entry ?e t)
     (totals_after c t (tl_debit ?e) (tl_credit ?e)
        (case tl_fee ?e of None \<Rightarrow> tot_deposit_fee t | Some f \<Rightarrow> Some f) (tl_is_refund ?e))"
    using Cons.prems by (intro totals_entry_wp) auto
  show ?case
    unfolding totals_loop.simps
  proof (rule wp_bindI [OF step], goal_cases)
    case (1 r t')
    have "wp (totals_loop es t')
       (totals_after c t (tl_debits (e # es)) (tl_credits (e # es))
          (tl_last_fee (tot_deposit_fee t) (e # es)) (tl_refunds (e # es)))" if "r \<noteq> GNUNET_SYSERR"
    proof (rule wp_mono [OF Cons.IH])
      show "tl_in c es" "totals_in c t'"
        using that 1 Cons.prems by (auto simp: totals_after_def split: if_splits)
    qed (use that 1 in \<open>auto simp: totals_after_def algebra_simps split: if_splits option.splits\<close>)
    moreover have "totals_after c t (tl_debits (e # es)) (tl_credits (e # es))
        (tl_last_fee (tot_deposit_fee t) (e # es)) (tl_refunds (e # es)) r t'" if "r = GNUNET_SYSERR"
      using that 1 tl_debits_nonneg [of es] tl_credits_nonneg [of es]
      unfolding totals_after_def tl_debits_simps tl_credits_simps
      by (auto split: if_splits) (use tl_debits_nonneg [of es] tl_credits_nonneg [of es] in linarith)+
    ultimately show ?case by simp
  qed
qed

lemma get_zero_in:
  assumes "amount_in c a"
  obtains z where "TALER_amount_get_zero (amt_currency a) x = (GNUNET_OK, z)" and "amount_in c z"
    and "amt z = 0"
proof
  let ?z = "\<lparr>amt_value = 0, amt_fraction = 0, amt_currency = pad_currency (amt_currency a)\<rparr>"
  show "TALER_amount_get_zero (amt_currency a) x = (GNUNET_OK, ?z)"
    using assms by (simp add: get_zero_terminated amount_in_def amount_wf_def)
  show "amt ?z = 0" by (simp add: amt_eq_0_iff)
  then show "amount_in c ?z"
    using assms by (intro amount_in_cong [OF assms]) (auto simp: amount_normal_def AMT_LIMIT_def)
qed

lemma calculate_totals_wp:
  assumes off: "amount_in c off" and "tl_in c tlist"
    and fee: "tl_refunds tlist \<Longrightarrow> tl_last_fee None tlist \<noteq> None"
  shows "wp (TALER_EXCHANGEDB_calculate_transaction_list_totals tlist off ret) (\<lambda>r s.
     if amt off + tl_debits tlist < AMT_LIMIT
        \<and> tl_credits tlist + tl_fee_discount tlist < AMT_LIMIT
        \<and> tl_credits tlist + tl_fee_discount tlist \<le> amt off + tl_debits tlist
     then r = GNUNET_OK \<and> amount_in c s
          \<and> amt s = amt off + tl_debits tlist - tl_credits tlist - tl_fee_discount tlist
     else r = GNUNET_SYSERR \<and> s = ret)" (is "wp _ ?Q")
proof -
  obtain z where z: "TALER_amount_get_zero (amt_currency off) invalidate = (GNUNET_OK, z)"
    "amount_in c z" "amt z = 0"
    using get_zero_in [OF off] .
  let ?t = "\<lparr>tot_spent = off, tot_refunded = z, tot_deposit_fee = None,
             tot_have_refund = False, tot_have_deposit_or_melt = False\<rparr>"
  have t: "totals_in c ?t" using off z(2) by (simp add: totals_in_def)
  have disc: "0 \<le> tl_fee_discount tlist" by (simp add: tl_fee_discount_def split: option.splits)
  show ?thesis
    unfolding TALER_EXCHANGEDB_calculate_transaction_list_totals_def z(1) Let_def prod.case
      GNUNET_assert_bind simp_thms if_True
  proof (rule wp_bindI [OF totals_loop_wp [OF assms(2) t]], goal_cases)
    case (1 r t')
    show ?case
    proof (cases "amt off + tl_debits tlist < AMT_LIMIT \<and> tl_credits tlist < AMT_LIMIT")
      case False
      with 1 z disc show ?thesis by (auto simp: totals_after_def split: if_splits)
    next
      case True
      with 1 z have t': "r = GNUNET_OK" "totals_in c t'" "amt (tot_spent t') = amt off + tl_debits tlist"
        "amt (tot_refunded t') = tl_credits tlist" "tot_deposit_fee t' = tl_last_fee None tlist"
        "tot_have_refund t' = tl_refunds tlist"
        by (simp_all add: totals_after_def)
      have spent: "amount_in c (tot_spent t')" using t'(2) by (simp add: totals_in_def)
      have fin: "wp (do { (r, s) \<leftarrow> TALER_amount_subtract d (tot_spent t') x;
                          if 0 > r then Some (GNUNET_SYSERR, ret) else Some (GNUNET_OK, s) }) ?Q"
        if x: "amount_in c x" "amt x = tl_credits tlist + tl_fee_discount tlist" for x d
        using True t'(3) x amount_in_limit [OF x(1)]
        by (intro wp_bindI [OF amount_subtract_wp [OF spent x(1)]]) (auto split: if_splits)
      show ?thesis
      proof (cases "tl_refunds tlist")
        case False
        with fin [of "tot_refunded t'"] t' show ?thesis
          by (simp add: totals_in_def tl_fee_discount_def)
      next
        case refund: True
        with fee t'(2,5) obtain f where f: "tl_last_fee None tlist = Some f" "amount_in c f"
          by (auto simp: totals_in_def)
        have d: "tl_fee_discount tlist = amt f" using refund f by (simp add: tl_fee_discount_def)
        have "wp (do { (r, t) \<leftarrow> refunded_add f t';
                       if 0 > r then Some (GNUNET_SYSERR, ret)
                       else do { (r, s) \<leftarrow> TALER_amount_subtract (tot_spent t) (tot_spent t) (tot_refunded t);
                                 if 0 > r then Some (GNUNET_SYSERR, ret) else Some (GNUNET_OK, s) } }) ?Q"
        proof (rule wp_bindI [OF refunded_add_wp [OF t'(2) f(2)]], goal_cases)
          case (1 r t'')
          then show ?case
          proof (cases "0 > r")
            case False
            with 1 obtain s where "t'' = t'\<lparr>tot_refunded := s\<rparr>" "amount_in c s"
              "amt s = tl_credits tlist + tl_fee_discount tlist"
              using t'(4) d by auto
            with fin [of s] False show ?thesis by simp
          qed (use t'(4) d in auto)
        qed
        with t' refund f show ?thesis by simp
      qed
    qed
  qed
qed

section \<open>Properties\<close>

text \<open>C24. The total computed for a coin history is exactly the starting value plus the deposits,
  melts, recoups and refund fees, minus the refunds, the recoups of coins refreshed from it and
  one deposit fee if there was a refund. It is an error exactly if one of the two sums is not
  legal or the result would be negative, and then the output is left alone. Nothing aborts, as
  long as a history with a refund also has a deposit.\<close>

theorem calculate_transaction_list_totals_exact:
  assumes "amount_in c off" and "tl_in c tlist"
    and "tl_refunds tlist \<Longrightarrow> tl_last_fee None tlist \<noteq> None"
  shows "\<exists>r s. TALER_EXCHANGEDB_calculate_transaction_list_totals tlist off ret = Some (r, s) \<and>
     (if amt off + tl_debits tlist < AMT_LIMIT
         \<and> tl_credits tlist + tl_fee_discount tlist < AMT_LIMIT
         \<and> tl_credits tlist + tl_fee_discount tlist \<le> amt off + tl_debits tlist
      then r = GNUNET_OK \<and> amount_in c s
           \<and> amt s = amt off + tl_debits tlist - tl_credits tlist - tl_fee_discount tlist
      else r = GNUNET_SYSERR \<and> s = ret)"
  using calculate_totals_wp [OF assms] by (auto simp: wp_iff)

text \<open>A history for the samples: a deposit of 10 with fee 1 and a refund of 4 with fee 2.\<close>

definition sample_deposit :: "TALER_Amount \<Rightarrow> TALER_Amount \<Rightarrow> TALER_EXCHANGEDB_TransactionList" where
  "sample_deposit a fee = \<lparr>tl_serial_id = 1, tl_details = TALER_EXCHANGEDB_TT_DEPOSIT
     \<lparr>dle_csig = 0, dle_merchant_pub = 1, dle_h_contract_terms = 2, dle_h_wire = 3,
      dle_receiver_wire_account = [], dle_timestamp = 0, dle_refund_deadline = 0,
      dle_wire_deadline = 0, dle_amount_with_fee = a, dle_deposit_fee = fee\<rparr>\<rparr>"

definition sample_refund :: "TALER_Amount \<Rightarrow> TALER_Amount \<Rightarrow> TALER_EXCHANGEDB_TransactionList" where
  "sample_refund a fee = \<lparr>tl_serial_id = 2, tl_details = TALER_EXCHANGEDB_TT_REFUND
     \<lparr>rle_merchant_pub = 1, rle_merchant_sig = 0, rle_h_contract_terms = 2, rle_rtransaction_id = 1,
      rle_refund_amount = a, rle_refund_fee = fee\<rparr>\<rparr>"

theorem calculate_transaction_list_totals_exact_witness:
  "\<exists>s. TALER_EXCHANGEDB_calculate_transaction_list_totals
        [sample_refund (mk_amount ''EUR'' 4 0) (mk_amount ''EUR'' 2 0),
         sample_deposit (mk_amount ''EUR'' 10 0) (mk_amount ''EUR'' 1 0)]
        (mk_amount ''EUR'' 3 0) invalidate = Some (GNUNET_OK, s) \<and> amt s = 1000000000"
  using calculate_transaction_list_totals_exact [of "''EUR''" "mk_amount ''EUR'' 3 0"
      "[sample_refund (mk_amount ''EUR'' 4 0) (mk_amount ''EUR'' 2 0),
        sample_deposit (mk_amount ''EUR'' 10 0) (mk_amount ''EUR'' 1 0)]" invalidate]
  by (auto simp: sample_refund_def sample_deposit_def mk_amount_in_EUR tl_fee_discount_def AMT_LIMIT_def)

end
