(* ===== verification/Exchangedb_Coins.thy ===== *)
theory Exchangedb_Coins
  imports Exchangedb_Reserves Coin_History
begin

text \<open>
  The coin operations of \<^verbatim>\<open>src/exchangedb/plugin_exchangedb_postgres.c\<close>: known coins, deposits,
  refunds, melts, recoups of refreshed coins and the history of a coin. As for the reserves, an
  operation yields its query status and the session, and \<open>None\<close> is a failed assertion.
\<close>

section \<open>Operations\<close>

definition postgres_have_deposit ::
    "gnunet \<Rightarrow> PostgresClosure \<Rightarrow> TALER_EXCHANGEDB_Deposit \<Rightarrow> bool \<Rightarrow> tables session
       \<Rightarrow> (int \<times> tables session) option" where
  "postgres_have_deposit g pg deposit check_extras s = do {
     ((qs, row), s) \<leftarrow> pq_singleton_select g
        (sql_get_deposit (coin_pub (dep_coin deposit)) (dep_h_contract_terms deposit) (dep_merchant_pub deposit)) s;
     case row of
       None \<Rightarrow> Some (qs, s)
     | Some r \<Rightarrow> do {
         amount_with_fee2 \<leftarrow> TALER_PQ_result_spec_amount (pg_currency pg) (dp_amount_with_fee r);
         extras \<leftarrow> (if check_extras
                    then do {
                      c \<leftarrow> TALER_amount_cmp (dep_amount_with_fee deposit) amount_with_fee2;
                      Some (c \<noteq> 0 \<or> dep_timestamp deposit \<noteq> TALER_PQ_result_spec_absolute_time g (dp_timestamp r))
                    }
                    else Some False);
         if extras
            \<or> dep_refund_deadline deposit \<noteq> TALER_PQ_result_spec_absolute_time g (dp_refund_deadline r)
            \<or> dep_h_wire deposit \<noteq> dp_h_wire r
         then Some (0, s)
         else Some (1, s)
       }
   }"

definition postgres_mark_deposit_tiny ::
    "gnunet \<Rightarrow> u64 \<Rightarrow> tables session \<Rightarrow> (int \<times> tables session) option" where
  "postgres_mark_deposit_tiny g rowid s = pq_non_select g (sql_mark_deposit_tiny rowid) s"

definition postgres_test_deposit_done ::
    "gnunet \<Rightarrow> pub_key \<Rightarrow> pub_key \<Rightarrow> hash_code \<Rightarrow> hash_code \<Rightarrow> tables session
       \<Rightarrow> (int \<times> tables session) option" where
  "postgres_test_deposit_done g coin merchant h_contract_terms h_wire s = do {
     ((qs, row), s) \<leftarrow> pq_singleton_select g (sql_test_deposit_done coin merchant h_contract_terms h_wire) s;
     if qs < 0 then Some (qs, s)
     else if qs = GNUNET_DB_STATUS_SUCCESS_NO_RESULTS then Some (GNUNET_DB_STATUS_HARD_ERROR, s)
     else Some (if row = Some True then GNUNET_DB_STATUS_SUCCESS_ONE_RESULT
                else GNUNET_DB_STATUS_SUCCESS_NO_RESULTS, s)
   }"

definition postgres_mark_deposit_done ::
    "gnunet \<Rightarrow> u64 \<Rightarrow> tables session \<Rightarrow> (int \<times> tables session) option" where
  "postgres_mark_deposit_done g rowid s = pq_non_select g (sql_mark_deposit_done rowid) s"

definition postgres_get_known_coin ::
    "gnunet \<Rightarrow> pub_key \<Rightarrow> tables session
       \<Rightarrow> ((int \<times> TALER_CoinPublicInfo option) \<times> tables session) option" where
  "postgres_get_known_coin g pub s = do {
     ((qs, row), s) \<leftarrow> pq_singleton_select g (sql_get_known_coin pub) s;
     Some ((qs, map_option (\<lambda>k. \<lparr>coin_pub = pub, coin_denom_pub_hash = kc_denom_pub_hash k,
                                 coin_denom_sig = kc_denom_sig k\<rparr>) row), s)
   }"

definition postgres_get_coin_denomination ::
    "gnunet \<Rightarrow> pub_key \<Rightarrow> tables session \<Rightarrow> ((int \<times> hash_code option) \<times> tables session) option" where
  "postgres_get_coin_denomination g pub s = pq_singleton_select g (sql_get_coin_denomination pub) s"

definition insert_known_coin ::
    "gnunet \<Rightarrow> TALER_CoinPublicInfo \<Rightarrow> tables session \<Rightarrow> (int \<times> tables session) option" where
  "insert_known_coin g coin s =
     pq_non_select g (sql_insert_known_coin
       \<lparr>kc_coin_pub = coin_pub coin, kc_denom_pub_hash = coin_denom_pub_hash coin,
        kc_denom_sig = coin_denom_sig coin\<rparr>) s"

definition postgres_ensure_coin_known ::
    "gnunet \<Rightarrow> TALER_CoinPublicInfo \<Rightarrow> tables session \<Rightarrow> (int \<times> tables session) option" where
  "postgres_ensure_coin_known g coin s = do {
     ((qs, known_coin), s) \<leftarrow> postgres_get_known_coin g (coin_pub coin) s;
     if 0 > qs then Some (GNUNET_SYSERR, s)
     else if qs = GNUNET_DB_STATUS_SUCCESS_ONE_RESULT then Some (GNUNET_DB_STATUS_SUCCESS_NO_RESULTS, s)
     else do {
       GNUNET_assert (qs = GNUNET_DB_STATUS_SUCCESS_NO_RESULTS);
       (qs, s) \<leftarrow> insert_known_coin g coin s;
       if 0 \<ge> qs
       then Some (if qs = GNUNET_DB_STATUS_SUCCESS_NO_RESULTS then GNUNET_DB_STATUS_HARD_ERROR else qs, s)
       else Some (qs, s)
     }
   }"

definition postgres_insert_deposit ::
    "gnunet \<Rightarrow> TALER_EXCHANGEDB_Deposit \<Rightarrow> tables session \<Rightarrow> (int \<times> tables session) option" where
  "postgres_insert_deposit g deposit s = do {
     amount_with_fee \<leftarrow> TALER_PQ_query_param_amount (dep_amount_with_fee deposit);
     timestamp \<leftarrow> TALER_PQ_query_param_absolute_time g (dep_timestamp deposit);
     refund_deadline \<leftarrow> TALER_PQ_query_param_absolute_time g (dep_refund_deadline deposit);
     wire_deadline \<leftarrow> TALER_PQ_query_param_absolute_time g (dep_wire_deadline deposit);
     pq_non_select g (sql_insert_deposit (\<lambda>n.
       \<lparr>dp_deposit_serial_id = n, dp_coin_pub = coin_pub (dep_coin deposit),
        dp_amount_with_fee = amount_with_fee, dp_timestamp = timestamp,
        dp_refund_deadline = refund_deadline, dp_wire_deadline = wire_deadline,
        dp_merchant_pub = dep_merchant_pub deposit, dp_h_contract_terms = dep_h_contract_terms deposit,
        dp_h_wire = dep_h_wire deposit, dp_coin_sig = dep_csig deposit,
        dp_wire = dep_receiver_wire_account deposit, dp_tiny = False, dp_done = False\<rparr>)) s
   }"

definition postgres_insert_refund ::
    "gnunet \<Rightarrow> TALER_EXCHANGEDB_Refund \<Rightarrow> tables session \<Rightarrow> (int \<times> tables session) option" where
  "postgres_insert_refund g refund s = do {
     GNUNET_assert (TALER_amount_cmp_currency (rle_refund_amount (ref_details refund))
                      (rle_refund_fee (ref_details refund)) = GNUNET_YES);
     amount_with_fee \<leftarrow> TALER_PQ_query_param_amount (rle_refund_amount (ref_details refund));
     pq_non_select g (sql_insert_refund (\<lambda>n.
       \<lparr>rd_refund_serial_id = n, rd_coin_pub = coin_pub (ref_coin refund),
        rd_merchant_pub = rle_merchant_pub (ref_details refund),
        rd_merchant_sig = rle_merchant_sig (ref_details refund),
        rd_h_contract_terms = rle_h_contract_terms (ref_details refund),
        rd_rtransaction_id = rle_rtransaction_id (ref_details refund),
        rd_amount_with_fee = amount_with_fee\<rparr>)) s
   }"

text \<open>The callback of the caller gets each amount in turn and may stop the iteration; a row that
  cannot be extracted makes the whole query fail.\<close>

fun get_refunds_cb ::
    "PostgresClosure \<Rightarrow> (TALER_Amount \<Rightarrow> 'c \<Rightarrow> (int \<times> 'c) option) \<Rightarrow> refunds_row list \<Rightarrow> 'c \<Rightarrow> 'c option" where
  "get_refunds_cb pg cb [] c = Some c"
| "get_refunds_cb pg cb (r # rows) c = do {
     amount_with_fee \<leftarrow> TALER_PQ_result_spec_amount (pg_currency pg) (rd_amount_with_fee r);
     (ret, c) \<leftarrow> cb amount_with_fee c;
     if ret \<noteq> GNUNET_OK then Some c else get_refunds_cb pg cb rows c
   }"

definition postgres_select_refunds_by_coin ::
    "gnunet \<Rightarrow> PostgresClosure \<Rightarrow> pub_key \<Rightarrow> pub_key \<Rightarrow> hash_code
       \<Rightarrow> (TALER_Amount \<Rightarrow> 'c \<Rightarrow> (int \<times> 'c) option) \<Rightarrow> 'c \<Rightarrow> tables session
       \<Rightarrow> ((int \<times> 'c) \<times> tables session) option" where
  "postgres_select_refunds_by_coin g pg coin merchant h_contract cb c s = do {
     ((qs, rows, bad), s) \<leftarrow> pq_multi_select g (sql_get_refunds_by_coin_and_contract coin merchant h_contract) s;
     if bad then Some ((GNUNET_DB_STATUS_HARD_ERROR, c), s)
     else do {
       c \<leftarrow> get_refunds_cb pg cb rows c;
       Some ((qs, c), s)
     }
   }"

text \<open>The signature of the coin is not fetched (\<^verbatim>\<open>NULL\<close>, here \<open>0\<close>).\<close>

definition postgres_get_melt ::
    "gnunet \<Rightarrow> PostgresClosure \<Rightarrow> hash_code \<Rightarrow> tables session
       \<Rightarrow> ((int \<times> TALER_EXCHANGEDB_Melt option) \<times> tables session) option" where
  "postgres_get_melt g pg rc s = do {
     ((qs, row), s) \<leftarrow> pq_singleton_select g (sql_get_melt rc) s;
     case row of
       None \<Rightarrow> Some ((qs, None), s)
     | Some (m, k, d) \<Rightarrow> do {
         melt_fee \<leftarrow> TALER_PQ_result_spec_amount (pg_currency pg) (dn_fee_refresh d);
         amount_with_fee \<leftarrow> TALER_PQ_result_spec_amount (pg_currency pg) (rcm_amount_with_fee m);
         Some ((qs, Some \<lparr>melt_session =
             \<lparr>rf_coin = \<lparr>coin_pub = rcm_old_coin_pub m, coin_denom_pub_hash = kc_denom_pub_hash k,
                         coin_denom_sig = 0\<rparr>,
              rf_coin_sig = rcm_old_coin_sig m, rf_rc = rc, rf_amount_with_fee = amount_with_fee,
              rf_noreveal_index = rcm_noreveal_index m\<rparr>, melt_melt_fee = melt_fee\<rparr>), s)
       }
   }"

definition postgres_get_melt_index ::
    "gnunet \<Rightarrow> hash_code \<Rightarrow> tables session \<Rightarrow> ((int \<times> u32 option) \<times> tables session) option" where
  "postgres_get_melt_index g rc s = pq_singleton_select g (sql_get_melt_index rc) s"

definition postgres_insert_melt ::
    "gnunet \<Rightarrow> TALER_EXCHANGEDB_Refresh \<Rightarrow> tables session \<Rightarrow> (int \<times> tables session) option" where
  "postgres_insert_melt g refresh_session s = do {
     amount_with_fee \<leftarrow> TALER_PQ_query_param_amount (rf_amount_with_fee refresh_session);
     pq_non_select g (sql_insert_melt (\<lambda>n.
       \<lparr>rcm_melt_serial_id = n, rcm_rc = rf_rc refresh_session,
        rcm_old_coin_pub = coin_pub (rf_coin refresh_session),
        rcm_old_coin_sig = rf_coin_sig refresh_session, rcm_amount_with_fee = amount_with_fee,
        rcm_noreveal_index = rf_noreveal_index refresh_session\<rparr>)) s
   }"

definition postgres_insert_recoup_refresh_request ::
    "gnunet \<Rightarrow> TALER_CoinPublicInfo \<Rightarrow> signature \<Rightarrow> blinding_key \<Rightarrow> TALER_Amount \<Rightarrow> hash_code \<Rightarrow> abs_time
       \<Rightarrow> tables session \<Rightarrow> (int \<times> tables session) option" where
  "postgres_insert_recoup_refresh_request g coin coin_sig coin_blind amount h_blind_ev timestamp s = do {
     amount' \<leftarrow> TALER_PQ_query_param_amount amount;
     timestamp' \<leftarrow> TALER_PQ_query_param_absolute_time g timestamp;
     pq_non_select g (sql_recoup_refresh_insert (\<lambda>n.
       \<lparr>rp_recoup_uuid = n, rp_coin_pub = coin_pub coin, rp_coin_sig = coin_sig, rp_coin_blind = coin_blind,
        rp_amount = amount', rp_timestamp = timestamp', rp_h_blind_ev = h_blind_ev\<rparr>)) s
   }"

definition postgres_get_old_coin_by_h_blind ::
    "gnunet \<Rightarrow> hash_code \<Rightarrow> tables session \<Rightarrow> ((int \<times> pub_key option) \<times> tables session) option" where
  "postgres_get_old_coin_by_h_blind g h_blind_ev s = pq_singleton_select g (sql_old_coin_by_h_blind h_blind_ev) s"

section \<open>The history of a coin\<close>

definition add_coin_deposit ::
    "gnunet \<Rightarrow> PostgresClosure \<Rightarrow> deposits_row \<times> denominations_row \<Rightarrow> TALER_EXCHANGEDB_TransactionList option" where
  "add_coin_deposit g pg x = (case x of (r, d) \<Rightarrow> do {
     amount_with_fee \<leftarrow> TALER_PQ_result_spec_amount (pg_currency pg) (dp_amount_with_fee r);
     deposit_fee \<leftarrow> TALER_PQ_result_spec_amount (pg_currency pg) (dn_fee_deposit d);
     Some \<lparr>tl_serial_id = dp_deposit_serial_id r, tl_details = TALER_EXCHANGEDB_TT_DEPOSIT
       \<lparr>dle_csig = dp_coin_sig r, dle_merchant_pub = dp_merchant_pub r,
        dle_h_contract_terms = dp_h_contract_terms r, dle_h_wire = dp_h_wire r,
        dle_receiver_wire_account = dp_wire r,
        dle_timestamp = TALER_PQ_result_spec_absolute_time g (dp_timestamp r),
        dle_refund_deadline = TALER_PQ_result_spec_absolute_time g (dp_refund_deadline r),
        dle_wire_deadline = TALER_PQ_result_spec_absolute_time g (dp_wire_deadline r),
        dle_amount_with_fee = amount_with_fee, dle_deposit_fee = deposit_fee\<rparr>\<rparr>
   })"

text \<open>The field \<^verbatim>\<open>noreveal_index\<close> is not filled in: the entry comes zeroed from \<^verbatim>\<open>GNUNET_new\<close>.\<close>

definition add_coin_melt ::
    "PostgresClosure \<Rightarrow> refresh_commitments_row \<times> denominations_row \<Rightarrow> TALER_EXCHANGEDB_TransactionList option" where
  "add_coin_melt pg x = (case x of (m, d) \<Rightarrow> do {
     amount_with_fee \<leftarrow> TALER_PQ_result_spec_amount (pg_currency pg) (rcm_amount_with_fee m);
     melt_fee \<leftarrow> TALER_PQ_result_spec_amount (pg_currency pg) (dn_fee_refresh d);
     Some \<lparr>tl_serial_id = rcm_melt_serial_id m, tl_details = TALER_EXCHANGEDB_TT_MELT
       \<lparr>mle_coin_sig = rcm_old_coin_sig m, mle_rc = rcm_rc m, mle_amount_with_fee = amount_with_fee,
        mle_melt_fee = melt_fee, mle_noreveal_index = 0\<rparr>\<rparr>
   })"

definition add_coin_refund ::
    "PostgresClosure \<Rightarrow> refunds_row \<times> denominations_row \<Rightarrow> TALER_EXCHANGEDB_TransactionList option" where
  "add_coin_refund pg x = (case x of (r, d) \<Rightarrow> do {
     refund_amount \<leftarrow> TALER_PQ_result_spec_amount (pg_currency pg) (rd_amount_with_fee r);
     refund_fee \<leftarrow> TALER_PQ_result_spec_amount (pg_currency pg) (dn_fee_refund d);
     Some \<lparr>tl_serial_id = rd_refund_serial_id r, tl_details = TALER_EXCHANGEDB_TT_REFUND
       \<lparr>rle_merchant_pub = rd_merchant_pub r, rle_merchant_sig = rd_merchant_sig r,
        rle_h_contract_terms = rd_h_contract_terms r, rle_rtransaction_id = rd_rtransaction_id r,
        rle_refund_amount = refund_amount, rle_refund_fee = refund_fee\<rparr>\<rparr>
   })"

definition add_old_coin_recoup ::
    "gnunet \<Rightarrow> PostgresClosure \<Rightarrow> pub_key \<Rightarrow> recoup_row \<times> known_coins_row
       \<Rightarrow> TALER_EXCHANGEDB_TransactionList option" where
  "add_old_coin_recoup g pg pub x = (case x of (p, k) \<Rightarrow> do {
     value \<leftarrow> TALER_PQ_result_spec_amount (pg_currency pg) (rp_amount p);
     Some \<lparr>tl_serial_id = rp_recoup_uuid p, tl_details = TALER_EXCHANGEDB_TT_OLD_COIN_RECOUP
       \<lparr>rrl_coin = \<lparr>coin_pub = rp_coin_pub p, coin_denom_pub_hash = kc_denom_pub_hash k,
                    coin_denom_sig = kc_denom_sig k\<rparr>,
        rrl_coin_blind = rp_coin_blind p, rrl_coin_sig = rp_coin_sig p, rrl_old_coin_pub = pub,
        rrl_value = value, rrl_timestamp = TALER_PQ_result_spec_absolute_time g (rp_timestamp p)\<rparr>\<rparr>
   })"

definition add_coin_recoup ::
    "gnunet \<Rightarrow> PostgresClosure \<Rightarrow> recoup_row \<times> reserves_out_row \<Rightarrow> TALER_EXCHANGEDB_TransactionList option" where
  "add_coin_recoup g pg x = (case x of (p, r) \<Rightarrow> do {
     value \<leftarrow> TALER_PQ_result_spec_amount (pg_currency pg) (rp_amount p);
     Some \<lparr>tl_serial_id = rp_recoup_uuid p, tl_details = TALER_EXCHANGEDB_TT_RECOUP
       \<lparr>recl_coin_blind = rp_coin_blind p, recl_coin_sig = rp_coin_sig p,
        recl_reserve_pub = ro_reserve_pub r, recl_value = value,
        recl_timestamp = TALER_PQ_result_spec_absolute_time g (rp_timestamp p)\<rparr>\<rparr>
   })"

definition add_coin_recoup_refresh ::
    "gnunet \<Rightarrow> PostgresClosure \<Rightarrow> pub_key \<Rightarrow> recoup_row \<times> refresh_commitments_row \<times> known_coins_row
       \<Rightarrow> TALER_EXCHANGEDB_TransactionList option" where
  "add_coin_recoup_refresh g pg pub x = (case x of (p, m, k) \<Rightarrow> do {
     value \<leftarrow> TALER_PQ_result_spec_amount (pg_currency pg) (rp_amount p);
     Some \<lparr>tl_serial_id = rp_recoup_uuid p, tl_details = TALER_EXCHANGEDB_TT_RECOUP_REFRESH
       \<lparr>rrl_coin = \<lparr>coin_pub = pub, coin_denom_pub_hash = kc_denom_pub_hash k, coin_denom_sig = kc_denom_sig k\<rparr>,
        rrl_coin_blind = rp_coin_blind p, rrl_coin_sig = rp_coin_sig p,
        rrl_old_coin_pub = rcm_old_coin_pub m, rrl_value = value,
        rrl_timestamp = TALER_PQ_result_spec_absolute_time g (rp_timestamp p)\<rparr>\<rparr>
   })"

text \<open>The loop over the queries of \<^verbatim>\<open>work\<close>: each callback puts its entries in front of the list, the
  last row first.\<close>

fun coin_history_work ::
    "(tables session \<Rightarrow> ((int \<times> 'e list \<times> bool) \<times> tables session) option) list \<Rightarrow> 'e list
       \<Rightarrow> tables session \<Rightarrow> ((int \<times> 'e list) \<times> tables session) option" where
  "coin_history_work [] head s =
     Some ((if head = [] then GNUNET_DB_STATUS_SUCCESS_NO_RESULTS
            else GNUNET_DB_STATUS_SUCCESS_ONE_RESULT, head), s)"
| "coin_history_work (w # ws) head s = do {
     ((qs, entries, bad), s) \<leftarrow> w s;
     if 0 > qs \<or> bad then Some ((if bad then GNUNET_DB_STATUS_HARD_ERROR else qs, []), s)
     else coin_history_work ws (entries @ head) s
   }"

definition postgres_get_coin_transactions ::
    "gnunet \<Rightarrow> PostgresClosure \<Rightarrow> pub_key \<Rightarrow> bool \<Rightarrow> tables session
       \<Rightarrow> ((int \<times> TALER_EXCHANGEDB_TransactionList list) \<times> tables session) option" where
  "postgres_get_coin_transactions g pg pub include_recoup s =
     (let work_op =
            [history_select g (sql_get_deposit_with_coin_pub pub) (add_coin_deposit g pg),
             history_select g (sql_get_refresh_session_by_coin pub) (add_coin_melt pg),
             history_select g (sql_get_refunds_by_coin pub) (add_coin_refund pg)];
          work_wp = work_op @
            [history_select g (sql_recoup_by_old_coin pub) (add_old_coin_recoup g pg pub),
             history_select g (sql_recoup_by_coin pub) (add_coin_recoup g pg),
             history_select g (sql_recoup_by_refreshed_coin pub) (add_coin_recoup_refresh g pg pub)]
      in coin_history_work (if include_recoup then work_wp else work_op) [] s)"

end
