(* ===== verification/Coin_Ledger.thy ===== *)
theory Coin_Ledger
  imports Exchangedb_Coins Reserve_History
begin

text \<open>
  The accounting of a coin over the tables: what the deposits, melts, refunds and recoups of a coin add
  up to, the integrity of the tables involved, and that the history which
  \<^verbatim>\<open>postgres_get_coin_transactions\<close> delivers is exactly the one of the tables, so that the total of
  \<^verbatim>\<open>TALER_EXCHANGEDB_calculate_transaction_list_totals\<close> is the accounting total.
\<close>

section \<open>What a coin has spent\<close>

text \<open>The denomination of a known coin: a list with at most one element if the tables are in order\<close>

definition coin_denoms :: "tables \<Rightarrow> pub_key \<Rightarrow> denominations_row list" where
  "coin_denoms db pub = [d. k \<leftarrow> t_known_coins db, kc_coin_pub k = pub,
                            d \<leftarrow> t_denominations db, dn_denom_pub_hash d = kc_denom_pub_hash k]"

definition coin_fee :: "(denominations_row \<Rightarrow> sql_amount) \<Rightarrow> tables \<Rightarrow> pub_key \<Rightarrow> int" where
  "coin_fee f db pub = (case coin_denoms db pub of [] \<Rightarrow> 0 | d # _ \<Rightarrow> sqlamt (f d))"

definition coin_deposited :: "tables \<Rightarrow> pub_key \<Rightarrow> int" where
  "coin_deposited db pub = (\<Sum>r\<leftarrow>filter (\<lambda>r. dp_coin_pub r = pub) (t_deposits db). sqlamt (dp_amount_with_fee r))"

definition coin_melted :: "tables \<Rightarrow> pub_key \<Rightarrow> int" where
  "coin_melted db pub =
     (\<Sum>m\<leftarrow>filter (\<lambda>m. rcm_old_coin_pub m = pub) (t_refresh_commitments db). sqlamt (rcm_amount_with_fee m))"

definition coin_refunds :: "tables \<Rightarrow> pub_key \<Rightarrow> refunds_row list" where
  "coin_refunds db pub = filter (\<lambda>r. rd_coin_pub r = pub) (t_refunds db)"

definition coin_refunded :: "tables \<Rightarrow> pub_key \<Rightarrow> int" where
  "coin_refunded db pub = (\<Sum>r\<leftarrow>coin_refunds db pub. sqlamt (rd_amount_with_fee r))"

definition coin_recouped :: "tables \<Rightarrow> pub_key \<Rightarrow> int" where
  "coin_recouped db pub = (\<Sum>p\<leftarrow>filter (\<lambda>p. rp_coin_pub p = pub) (t_recoup db). sqlamt (rp_amount p))"

definition coin_recoup_refreshed :: "tables \<Rightarrow> pub_key \<Rightarrow> int" where
  "coin_recoup_refreshed db pub =
     (\<Sum>p\<leftarrow>filter (\<lambda>p. rp_coin_pub p = pub) (t_recoup_refresh db). sqlamt (rp_amount p))"

text \<open>The envelopes of the coins that the melts of a coin have paid for\<close>

definition blind_of_old_coin :: "tables \<Rightarrow> pub_key \<Rightarrow> hash_code \<Rightarrow> bool" where
  "blind_of_old_coin db pub h \<longleftrightarrow>
     (\<exists>m\<in>set (t_refresh_commitments db). rcm_old_coin_pub m = pub \<and>
        (\<exists>r\<in>set (t_refresh_revealed_coins db). rrc_rc r = rcm_rc m \<and> rrc_h_coin_ev r = h))"

definition coin_old_recouped :: "tables \<Rightarrow> pub_key \<Rightarrow> int" where
  "coin_old_recouped db pub =
     (\<Sum>p\<leftarrow>filter (\<lambda>p. blind_of_old_coin db pub (rp_h_blind_ev p)) (t_recoup_refresh db). sqlamt (rp_amount p))"

text \<open>The flag says whether recoups count.\<close>

definition coin_debits :: "bool \<Rightarrow> tables \<Rightarrow> pub_key \<Rightarrow> int" where
  "coin_debits recoup db pub = coin_deposited db pub + coin_melted db pub
     + int (length (coin_refunds db pub)) * coin_fee dn_fee_refund db pub
     + (if recoup then coin_recouped db pub + coin_recoup_refreshed db pub else 0)"

definition coin_credits :: "bool \<Rightarrow> tables \<Rightarrow> pub_key \<Rightarrow> int" where
  "coin_credits recoup db pub =
     coin_refunded db pub + (if recoup then coin_old_recouped db pub else 0)"

definition coin_discount :: "tables \<Rightarrow> pub_key \<Rightarrow> int" where
  "coin_discount db pub = (if coin_refunds db pub = [] then 0 else coin_fee dn_fee_deposit db pub)"

definition coin_spent :: "bool \<Rightarrow> tables \<Rightarrow> pub_key \<Rightarrow> int" where
  "coin_spent recoup db pub = coin_debits recoup db pub - coin_credits recoup db pub - coin_discount db pub"

section \<open>Integrity of the coin tables\<close>

definition deposit_key :: "deposits_row \<Rightarrow> pub_key \<times> pub_key \<times> hash_code" where
  "deposit_key r = (dp_coin_pub r, dp_merchant_pub r, dp_h_contract_terms r)"

definition refund_key :: "refunds_row \<Rightarrow> pub_key \<times> pub_key \<times> hash_code" where
  "refund_key r = (rd_coin_pub r, rd_merchant_pub r, rd_h_contract_terms r)"

definition coin_tables_ok :: "tables \<Rightarrow> bool" where
  "coin_tables_ok db \<longleftrightarrow> reserve_tables_ok db
     \<and> (\<forall>d\<in>set (t_denominations db). sql_normal (dn_coin d) \<and> sql_normal (dn_fee_deposit d)
           \<and> sql_normal (dn_fee_refresh d) \<and> sql_normal (dn_fee_refund d))
     \<and> (\<forall>k\<in>set (t_known_coins db). denom_known db (kc_denom_pub_hash k))
     \<and> distinct (map deposit_key (t_deposits db))
     \<and> (\<forall>r\<in>set (t_deposits db). sql_normal (dp_amount_with_fee r) \<and> coin_known db (dp_coin_pub r))
     \<and> distinct (map refund_key (t_refunds db))
     \<and> (\<forall>r\<in>set (t_refunds db). sql_normal (rd_amount_with_fee r) \<and> coin_known db (rd_coin_pub r)
           \<and> refund_key r \<in> deposit_key ` set (t_deposits db))
     \<and> distinct (map rcm_rc (t_refresh_commitments db))
     \<and> (\<forall>m\<in>set (t_refresh_commitments db). sql_normal (rcm_amount_with_fee m) \<and> coin_known db (rcm_old_coin_pub m))
     \<and> distinct (map rrc_h_coin_ev (t_refresh_revealed_coins db))
     \<and> (\<forall>r\<in>set (t_refresh_revealed_coins db). rrc_rc r \<in> rcm_rc ` set (t_refresh_commitments db))
     \<and> (\<forall>p\<in>set (t_recoup_refresh db). sql_normal (rp_amount p) \<and> coin_known db (rp_coin_pub p)
           \<and> rp_h_blind_ev p \<in> rrc_h_coin_ev ` set (t_refresh_revealed_coins db))"

lemma coin_tables_ok_reserve: "coin_tables_ok db \<Longrightarrow> reserve_tables_ok db"
  by (simp add: coin_tables_ok_def)

lemma coin_denoms_cases:
  assumes "coin_tables_ok db"
  obtains "\<not> coin_known db pub" "coin_denoms db pub = []"
  | k d where "k \<in> set (t_known_coins db)" "kc_coin_pub k = pub" "d \<in> set (t_denominations db)"
    "dn_denom_pub_hash d = kc_denom_pub_hash k" "coin_denoms db pub = [d]"
proof (cases "coin_known db pub")
  case False
  then have "coin_denoms db pub = []"
    by (auto simp: coin_denoms_def coin_known_def)
  with False that(1) show ?thesis by blast
next
  case True
  then obtain k where k: "k \<in> set (t_known_coins db)" "kc_coin_pub k = pub"
    by (auto simp: coin_known_def)
  with assms obtain d where d: "d \<in> set (t_denominations db)" "dn_denom_pub_hash d = kc_denom_pub_hash k"
    by (auto simp: coin_tables_ok_def denom_known_def)
  have u: "distinct (map kc_coin_pub (t_known_coins db))" "distinct (map dn_denom_pub_hash (t_denominations db))"
    using assms by (simp_all add: coin_tables_ok_def reserve_tables_ok_def)
  have "coin_denoms db pub = [d]"
    using join_key [OF u(1) k(1), of "\<lambda>k. concat (map (\<lambda>d. if dn_denom_pub_hash d = kc_denom_pub_hash k
        then [d] else []) (t_denominations db))"] join_key [OF u(2) d(1), of "\<lambda>d. [d]"] k(2) d(2)
    by (simp only: coin_denoms_def)
  with that(2) k d show ?thesis by blast
qed

section \<open>The joins of the queries\<close>

lemma concat_map_Nil [simp]: "concat (map (\<lambda>x. []) xs) = []"
  by (induction xs) simp_all

lemma coin_join:
  fixes key :: "'a \<Rightarrow> pub_key"
  shows "concat (map (\<lambda>r. concat (map (\<lambda>k. if kc_coin_pub k = key r
       then concat (map (\<lambda>d. if dn_denom_pub_hash d = kc_denom_pub_hash k
              then if key r = pub then [(r, d)] else [] else []) (t_denominations db))
       else []) (t_known_coins db))) xs)
   = concat (map (\<lambda>r. if key r = pub then map (Pair r) (coin_denoms db pub) else []) xs)"
proof -
  have "map (Pair r) (coin_denoms db pub) = concat (map (\<lambda>k. if kc_coin_pub k = pub
       then concat (map (\<lambda>d. if dn_denom_pub_hash d = kc_denom_pub_hash k then [(r, d)] else []) (t_denominations db))
       else []) (t_known_coins db))" for r :: 'a
    by (simp add: coin_denoms_def map_concat comp_def if_distrib [where f = "map (Pair r)"]
        if_distrib [where f = concat] cong: if_cong)
  moreover have "concat (map (\<lambda>k. if kc_coin_pub k = key r
       then concat (map (\<lambda>d. if dn_denom_pub_hash d = kc_denom_pub_hash k
              then if key r = pub then [(r, d)] else [] else []) (t_denominations db))
       else []) (t_known_coins db)) = []" if "key r \<noteq> pub" for r
    using that by auto
  ultimately show ?thesis
    by (intro arg_cong [where f = concat] map_cong refl) (case_tac "key x = pub"; simp only: if_True if_False simp_thms)
qed

lemma join_fk:
  assumes "coin_tables_ok db" and "\<forall>r\<in>set xs. coin_known db (key r)"
  shows "concat (map (\<lambda>r. if key r = pub then map (Pair r) (coin_denoms db pub) else []) xs)
    = map (\<lambda>r. (r, hd (coin_denoms db pub))) (filter (\<lambda>r. key r = pub) xs)"
proof (cases rule: coin_denoms_cases [OF assms(1), of pub])
  case 1
  have "filter (\<lambda>r. key r = pub) xs = []"
    using 1(1) assms(2) by (auto simp: filter_empty_conv)
  with 1(2) show ?thesis by auto
next
  case (2 k d)
  then show ?thesis by (induction xs) simp_all
qed

lemma get_deposit_with_coin_pub_eq:
  assumes "coin_tables_ok db"
  shows "sql_get_deposit_with_coin_pub pub db =
     map (\<lambda>r. (r, hd (coin_denoms db pub))) (filter (\<lambda>r. dp_coin_pub r = pub) (t_deposits db))"
  using assms unfolding sql_get_deposit_with_coin_pub_def coin_join
  by (intro join_fk) (auto simp: coin_tables_ok_def)

lemma get_refresh_session_by_coin_eq:
  assumes "coin_tables_ok db"
  shows "sql_get_refresh_session_by_coin pub db =
     map (\<lambda>r. (r, hd (coin_denoms db pub))) (filter (\<lambda>r. rcm_old_coin_pub r = pub) (t_refresh_commitments db))"
  using assms unfolding sql_get_refresh_session_by_coin_def eq_commute [of "rcm_old_coin_pub _" "kc_coin_pub _"] coin_join
  by (intro join_fk) (auto simp: coin_tables_ok_def)

lemma get_refunds_by_coin_eq:
  assumes "coin_tables_ok db"
  shows "sql_get_refunds_by_coin pub db = map (\<lambda>r. (r, hd (coin_denoms db pub))) (coin_refunds db pub)"
  using assms unfolding sql_get_refunds_by_coin_def coin_join coin_refunds_def
  by (intro join_fk) (auto simp: coin_tables_ok_def)

lemma sum_recoup_by_old_coin:
  assumes "coin_tables_ok db"
  shows "(\<Sum>x\<leftarrow>sql_recoup_by_old_coin pub db. sqlamt (rp_amount (fst x))) = coin_old_recouped db pub"
  unfolding sql_recoup_by_old_coin_def coin_old_recouped_def
proof (rule sum_concat_map)
  fix p assume p: "p \<in> set (t_recoup_refresh db)"
  with assms obtain k where k: "k \<in> set (t_known_coins db)" "kc_coin_pub k = rp_coin_pub p"
    and d: "distinct (map kc_coin_pub (t_known_coins db))"
    by (auto simp: coin_tables_ok_def reserve_tables_ok_def coin_known_def)
  let ?hs = "concat (map (\<lambda>m. concat (map (\<lambda>r. if rrc_rc r = rcm_rc m
      then if rcm_old_coin_pub m = pub then [rrc_h_coin_ev r] else [] else [])
      (t_refresh_revealed_coins db))) (t_refresh_commitments db))"
  have "rp_h_blind_ev p \<in> set ?hs \<longleftrightarrow> blind_of_old_coin db pub (rp_h_blind_ev p)"
    by (auto simp: blind_of_old_coin_def split: if_splits)
      (fastforce, metis (mono_tags, lifting) IntI mem_Collect_eq)
  then show "(\<Sum>x\<leftarrow>concat (map (\<lambda>k. if kc_coin_pub k = rp_coin_pub p
        then if rp_h_blind_ev p \<in> set ?hs then [(p, k)] else [] else []) (t_known_coins db)).
          sqlamt (rp_amount (fst x)))
      = (if blind_of_old_coin db pub (rp_h_blind_ev p) then sqlamt (rp_amount p) else 0)"
    using join_key [OF d k(1), of "\<lambda>k. if rp_h_blind_ev p \<in> set ?hs then [(p, k)] else []"] k(2)
    by (simp only: k(2)) simp
qed

lemma sum_recoup_by_coin:
  assumes "coin_tables_ok db"
  shows "(\<Sum>x\<leftarrow>sql_recoup_by_coin pub db. sqlamt (rp_amount (fst x))) = coin_recouped db pub"
  unfolding sql_recoup_by_coin_def coin_recouped_def
proof (rule sum_concat_map)
  fix p assume "p \<in> set (t_recoup db)"
  with assms obtain r where r: "r \<in> set (t_reserves_out db)" "ro_h_blind_ev r = rp_h_blind_ev p"
    and d: "distinct (map ro_h_blind_ev (t_reserves_out db))"
    by (auto simp: coin_tables_ok_def reserve_tables_ok_def)
  show "(\<Sum>x\<leftarrow>concat (map (\<lambda>r. if ro_h_blind_ev r = rp_h_blind_ev p
        then if rp_coin_pub p = pub then [(p, r)] else [] else []) (t_reserves_out db)).
          sqlamt (rp_amount (fst x)))
      = (if rp_coin_pub p = pub then sqlamt (rp_amount p) else 0)"
    using join_key [OF d r(1), of "\<lambda>r. if rp_coin_pub p = pub then [(p, r)] else []"] r(2)
    by (simp only: r(2)) simp
qed

lemma sum_recoup_by_refreshed_coin:
  assumes "coin_tables_ok db"
  shows "(\<Sum>x\<leftarrow>sql_recoup_by_refreshed_coin pub db. sqlamt (rp_amount (fst x))) = coin_recoup_refreshed db pub"
  unfolding sql_recoup_by_refreshed_coin_def coin_recoup_refreshed_def
proof (rule sum_concat_map)
  fix p assume "p \<in> set (t_recoup_refresh db)"
  with assms obtain k r where k: "k \<in> set (t_known_coins db)" "kc_coin_pub k = rp_coin_pub p"
    and r: "r \<in> set (t_refresh_revealed_coins db)" "rrc_h_coin_ev r = rp_h_blind_ev p"
    by (auto simp: coin_tables_ok_def coin_known_def)
  from assms r obtain m where m: "m \<in> set (t_refresh_commitments db)" "rcm_rc m = rrc_rc r"
    by (fastforce simp: coin_tables_ok_def)
  have d: "distinct (map kc_coin_pub (t_known_coins db))" "distinct (map rcm_rc (t_refresh_commitments db))"
      "distinct (map rrc_h_coin_ev (t_refresh_revealed_coins db))"
    using assms by (simp_all add: coin_tables_ok_def reserve_tables_ok_def)
  let ?K = "\<lambda>m. concat (map (\<lambda>k. if kc_coin_pub k = rp_coin_pub p
      then if rp_coin_pub p = pub then [(p, m, k)] else [] else []) (t_known_coins db))"
  let ?M = "\<lambda>r. concat (map (\<lambda>m. if rrc_rc r = rcm_rc m then ?K m else []) (t_refresh_commitments db))"
  have "concat (map (\<lambda>r. if rrc_h_coin_ev r = rp_h_blind_ev p then ?M r else []) (t_refresh_revealed_coins db))
      = (if rp_coin_pub p = pub then [(p, m, k)] else [])"
    using join_key [OF d(3) r(1), of ?M] join_key' [OF d(2) m(1), of ?K]
      join_key [OF d(1) k(1), of "\<lambda>k. if rp_coin_pub p = pub then [(p, m, k)] else []"]
    by (simp only: r(2) m(2) k(2))
  then show "(\<Sum>x\<leftarrow>concat (map (\<lambda>r. if rrc_h_coin_ev r = rp_h_blind_ev p then ?M r else [])
        (t_refresh_revealed_coins db)). sqlamt (rp_amount (fst x)))
      = (if rp_coin_pub p = pub then sqlamt (rp_amount p) else 0)"
    by (simp only:) simp
qed

section \<open>The history as a function of the tables\<close>

text \<open>What the callback of one query adds to the list\<close>

definition history_entries :: "('r \<Rightarrow> 'e option) \<Rightarrow> 'r list \<Rightarrow> 'e list option" where
  "history_entries cb rows = those (map cb (rev rows))"

definition coin_history ::
    "gnunet \<Rightarrow> PostgresClosure \<Rightarrow> pub_key \<Rightarrow> bool \<Rightarrow> tables \<Rightarrow> TALER_EXCHANGEDB_TransactionList list option" where
  "coin_history g pg pub recoup db = do {
     ds \<leftarrow> history_entries (add_coin_deposit g pg) (sql_get_deposit_with_coin_pub pub db);
     ms \<leftarrow> history_entries (add_coin_melt pg) (sql_get_refresh_session_by_coin pub db);
     rs \<leftarrow> history_entries (add_coin_refund pg) (sql_get_refunds_by_coin pub db);
     if \<not> recoup then Some (rs @ ms @ ds)
     else do {
       os \<leftarrow> history_entries (add_old_coin_recoup g pg pub) (sql_recoup_by_old_coin pub db);
       ps \<leftarrow> history_entries (add_coin_recoup g pg) (sql_recoup_by_coin pub db);
       qs \<leftarrow> history_entries (add_coin_recoup_refresh g pg pub) (sql_recoup_by_refreshed_coin pub db);
       Some (qs @ ps @ os @ rs @ ms @ ds)
     }
   }"

lemma history_select_entries_wp:
  assumes g: "gnunet_ok g" and s: "session_ok s" and es: "history_entries cb (query (s_db s)) = Some es"
  shows "wp (history_select g query cb s) (\<lambda>(qs, es', bad) s'. unchanged s s' \<and>
     ((qs = - 1 \<or> qs = - 2) \<and> \<not> bad \<or> 0 \<le> qs \<and> bad \<or> 0 \<le> qs \<and> \<not> bad \<and> \<not> s_failed s' \<and> es' = es))"
  unfolding history_select_def
proof (rule wp_bindI [OF pq_multi_select_wp [OF g s]], goal_cases)
  case (1 x s')
  obtain qs rows bad where x: "x = (qs, rows, bad)" by (cases x)
  have "those (map cb (rev rows)) \<noteq> None" if "\<not> bad"
    using 1 x es by (cases "rows = []") (auto simp: history_entries_def)
  with 1 x es show ?case by (auto simp: history_entries_def)
qed

lemma coin_history_work_step:
  assumes g: "gnunet_ok g" and s: "session_ok s" "unchanged s s0"
    and es: "history_entries cb (query (s_db s)) = Some es"
    and rest: "\<And>s1. unchanged s s1 \<Longrightarrow> \<not> s_failed s1 \<Longrightarrow> wp (coin_history_work ws (es @ head) s1) Q"
    and fail: "\<And>qs s1. unchanged s s1 \<Longrightarrow> qs = - 1 \<or> qs = - 2 \<Longrightarrow> Q (qs, []) s1"
  shows "wp (coin_history_work (history_select g query cb # ws) head s0) Q"
proof -
  have s0: "session_ok s0" "s_db s0 = s_db s"
    using s by (auto intro: session_ok_unchanged simp: unchanged_def)
  show ?thesis
    unfolding coin_history_work.simps
  proof (rule wp_bindI [OF history_select_entries_wp [OF g s0(1), of cb query es]], goal_cases)
    case 1
    then show ?case using es s0(2) by simp
  next
    case (2 x s1)
    obtain qs es' bad where x: "x = (qs, es', bad)" by (cases x)
    have u: "unchanged s s1" using 2 x s(2) by (auto intro: unchanged_trans)
    from 2 x rest [OF u] fail [OF u] show ?case by auto
  qed
qed

text \<open>The loop delivers the history of the tables or an error.\<close>

lemma get_coin_transactions_wp:
  assumes g: "gnunet_ok g" and s: "session_ok s" and h: "coin_history g pg pub recoup (s_db s) = Some txs"
  shows "wp (postgres_get_coin_transactions g pg pub recoup s) (\<lambda>(qs, txs') s'. unchanged s s' \<and>
     ((qs = - 1 \<or> qs = - 2) \<and> txs' = [] \<or> (qs = 0 \<or> qs = 1) \<and> \<not> s_failed s' \<and> txs' = txs))"
proof (cases recoup)
  case False
  with h obtain ds ms rs where
    "history_entries (add_coin_deposit g pg) (sql_get_deposit_with_coin_pub pub (s_db s)) = Some ds"
    "history_entries (add_coin_melt pg) (sql_get_refresh_session_by_coin pub (s_db s)) = Some ms"
    "history_entries (add_coin_refund pg) (sql_get_refunds_by_coin pub (s_db s)) = Some rs"
    "txs = rs @ ms @ ds"
    by (auto simp: coin_history_def bind_eq_Some_conv)
  then show ?thesis
    unfolding postgres_get_coin_transactions_def Let_def using False
    by (simp del: coin_history_work.simps) (intro coin_history_work_step [OF g s], auto)
next
  case True
  with h obtain ds ms rs os ps qs where
    "history_entries (add_coin_deposit g pg) (sql_get_deposit_with_coin_pub pub (s_db s)) = Some ds"
    "history_entries (add_coin_melt pg) (sql_get_refresh_session_by_coin pub (s_db s)) = Some ms"
    "history_entries (add_coin_refund pg) (sql_get_refunds_by_coin pub (s_db s)) = Some rs"
    "history_entries (add_old_coin_recoup g pg pub) (sql_recoup_by_old_coin pub (s_db s)) = Some os"
    "history_entries (add_coin_recoup g pg) (sql_recoup_by_coin pub (s_db s)) = Some ps"
    "history_entries (add_coin_recoup_refresh g pg pub) (sql_recoup_by_refreshed_coin pub (s_db s)) = Some qs"
    "txs = qs @ ps @ os @ rs @ ms @ ds"
    by (auto simp: coin_history_def bind_eq_Some_conv)
  then show ?thesis
    unfolding postgres_get_coin_transactions_def Let_def using True
    by (simp del: coin_history_work.simps) (intro coin_history_work_step [OF g s], auto)
qed

section \<open>The history accounts for the coin\<close>

definition entry_ok :: "string \<Rightarrow> int \<Rightarrow> int \<Rightarrow> TALER_EXCHANGEDB_TransactionList \<Rightarrow> bool" where
  "entry_ok c debit credit e \<longleftrightarrow> tl_amounts_in c (tl_details e)
     \<and> tl_debit (tl_details e) = debit \<and> tl_credit (tl_details e) = credit"

definition deposit_entry :: "deposits_row \<times> denominations_row \<Rightarrow> TALER_EXCHANGEDB_TransactionList \<Rightarrow> bool" where
  "deposit_entry x e \<longleftrightarrow> (\<exists>d. tl_details e = TALER_EXCHANGEDB_TT_DEPOSIT d
     \<and> dle_merchant_pub d = dp_merchant_pub (fst x) \<and> dle_h_contract_terms d = dp_h_contract_terms (fst x)
     \<and> dle_h_wire d = dp_h_wire (fst x) \<and> amt (dle_amount_with_fee d) = sqlamt (dp_amount_with_fee (fst x))
     \<and> amt (dle_deposit_fee d) = sqlamt (dn_fee_deposit (snd x)))"

definition refund_entry :: "refunds_row \<times> denominations_row \<Rightarrow> TALER_EXCHANGEDB_TransactionList \<Rightarrow> bool" where
  "refund_entry x e \<longleftrightarrow> (\<exists>d. tl_details e = TALER_EXCHANGEDB_TT_REFUND d
     \<and> rle_merchant_pub d = rd_merchant_pub (fst x) \<and> rle_h_contract_terms d = rd_h_contract_terms (fst x)
     \<and> rle_rtransaction_id d = rd_rtransaction_id (fst x))"

fun other_entry :: "TALER_EXCHANGEDB_TransactionDetails \<Rightarrow> bool" where
  "other_entry (TALER_EXCHANGEDB_TT_DEPOSIT d) = False"
| "other_entry (TALER_EXCHANGEDB_TT_REFUND d) = False"
| "other_entry _ = True"

lemma history_entries_all2:
  assumes "\<And>x. x \<in> set rows \<Longrightarrow> \<exists>e. cb x = Some e \<and> R x e"
  obtains es where "history_entries cb rows = Some es" and "list_all2 R (rev rows) es"
proof -
  have "\<forall>x\<in>set (rev rows). cb x \<noteq> None" using assms by fastforce
  then obtain es where es: "those (map cb (rev rows)) = Some es" using those_map_exists by blast
  then have "list_all2 (\<lambda>x e. cb x = Some e) (rev rows) es" by (simp add: those_map_Some)
  then have "list_all2 R (rev rows) es"
    by (rule list.rel_mono_strong) (use assms in fastforce)
  with es that show ?thesis by (simp add: history_entries_def)
qed

lemma entries_all2:
  assumes "list_all2 (\<lambda>x e. entry_ok c (v x) (w x) e \<and> S x e) (rev rows) es"
  shows "tl_in c es" and "tl_debits es = (\<Sum>x\<leftarrow>rows. v x)" and "tl_credits es = (\<Sum>x\<leftarrow>rows. w x)"
proof -
  have "tl_in c es \<and> tl_debits es = (\<Sum>x\<leftarrow>rev rows. v x) \<and> tl_credits es = (\<Sum>x\<leftarrow>rev rows. w x)"
    using assms by (induction rule: list_all2_induct) (simp_all add: entry_ok_def)
  then show "tl_in c es" "tl_debits es = (\<Sum>x\<leftarrow>rows. v x)" "tl_credits es = (\<Sum>x\<leftarrow>rows. w x)"
    by (simp_all add: sum_list_rev_map)
qed

lemma all2_set:
  assumes "list_all2 (\<lambda>x e. P x e \<and> S x e) (rev rows) es"
  shows "\<forall>e\<in>set es. \<exists>x\<in>set rows. S x e" and "\<forall>x\<in>set rows. \<exists>e\<in>set es. S x e"
proof -
  have "(\<forall>e\<in>set es. \<exists>x\<in>set (rev rows). S x e) \<and> (\<forall>x\<in>set (rev rows). \<exists>e\<in>set es. S x e)"
    using assms by (induction rule: list_all2_induct) auto
  then show "\<forall>e\<in>set es. \<exists>x\<in>set rows. S x e" "\<forall>x\<in>set rows. \<exists>e\<in>set es. S x e" by simp_all
qed

lemma add_coin_deposit_ok:
  assumes "pg_ok pg" "sql_normal (dp_amount_with_fee (fst x))" "sql_normal (dn_fee_deposit (snd x))"
  shows "\<exists>e. add_coin_deposit g pg x = Some e
     \<and> entry_ok (pg_currency pg) (sqlamt (dp_amount_with_fee (fst x))) 0 e \<and> deposit_entry x e"
  using result_spec_amount_wp [OF assms(1,2)] result_spec_amount_wp [OF assms(1,3)]
  by (cases x) (auto simp: add_coin_deposit_def entry_ok_def deposit_entry_def)

lemma add_coin_melt_ok:
  assumes "pg_ok pg" "sql_normal (rcm_amount_with_fee (fst x))" "sql_normal (dn_fee_refresh (snd x))"
  shows "\<exists>e. add_coin_melt pg x = Some e
     \<and> entry_ok (pg_currency pg) (sqlamt (rcm_amount_with_fee (fst x))) 0 e \<and> other_entry (tl_details e)"
  using result_spec_amount_wp [OF assms(1,2)] result_spec_amount_wp [OF assms(1,3)]
  by (cases x) (auto simp: add_coin_melt_def entry_ok_def)

lemma add_coin_refund_ok:
  assumes "pg_ok pg" "sql_normal (rd_amount_with_fee (fst x))" "sql_normal (dn_fee_refund (snd x))"
  shows "\<exists>e. add_coin_refund pg x = Some e
     \<and> entry_ok (pg_currency pg) (sqlamt (dn_fee_refund (snd x))) (sqlamt (rd_amount_with_fee (fst x))) e
     \<and> refund_entry x e"
  using result_spec_amount_wp [OF assms(1,2)] result_spec_amount_wp [OF assms(1,3)]
  by (cases x) (auto simp: add_coin_refund_def entry_ok_def refund_entry_def)

lemma add_recoups_ok:
  assumes "pg_ok pg"
  shows "sql_normal (rp_amount (fst x)) \<Longrightarrow> \<exists>e. add_old_coin_recoup g pg pub x = Some e
     \<and> entry_ok (pg_currency pg) 0 (sqlamt (rp_amount (fst x))) e \<and> other_entry (tl_details e)"
    and "sql_normal (rp_amount (fst y)) \<Longrightarrow> \<exists>e. add_coin_recoup g pg y = Some e
     \<and> entry_ok (pg_currency pg) (sqlamt (rp_amount (fst y))) 0 e \<and> other_entry (tl_details e)"
    and "sql_normal (rp_amount (fst z)) \<Longrightarrow> \<exists>e. add_coin_recoup_refresh g pg pub z = Some e
     \<and> entry_ok (pg_currency pg) (sqlamt (rp_amount (fst z))) 0 e \<and> other_entry (tl_details e)"
  using result_spec_amount_wp [OF assms, of "rp_amount (fst x)"]
    result_spec_amount_wp [OF assms, of "rp_amount (fst y)"] result_spec_amount_wp [OF assms, of "rp_amount (fst z)"]
  by (cases x; cases y; cases z;
      auto simp: add_old_coin_recoup_def add_coin_recoup_def add_coin_recoup_refresh_def entry_ok_def)+

lemma tl_append [simp]:
  "tl_debits (xs @ ys) = tl_debits xs + tl_debits ys"
  "tl_credits (xs @ ys) = tl_credits xs + tl_credits ys"
  "tl_in c (xs @ ys) \<longleftrightarrow> tl_in c xs \<and> tl_in c ys"
  "tl_refunds (xs @ ys) \<longleftrightarrow> tl_refunds xs \<or> tl_refunds ys"
  by (auto simp: tl_debits_def tl_credits_def tl_in_def tl_refunds_def)

lemma tl_last_fee_ex:
  "(\<exists>e\<in>set es. tl_fee (tl_details e) \<noteq> None) \<or> f \<noteq> None \<Longrightarrow>
   (\<forall>e\<in>set es. \<forall>x. tl_fee (tl_details e) = Some x \<longrightarrow> P x) \<Longrightarrow> (\<forall>x. f = Some x \<longrightarrow> P x) \<Longrightarrow>
   \<exists>x. tl_last_fee f es = Some x \<and> P x"
  by (induction es arbitrary: f) (auto split: option.splits)

text \<open>What the handlers rely on: the amounts of the history are legal and add up to the accounting
  totals, a deposit fee is at hand if there is a refund, the deposits and refunds of the history are
  those of the tables.\<close>

definition history_ok ::
    "string \<Rightarrow> bool \<Rightarrow> tables \<Rightarrow> pub_key \<Rightarrow> TALER_EXCHANGEDB_TransactionList list \<Rightarrow> bool" where
  "history_ok c recoup db pub txs \<longleftrightarrow> tl_in c txs
     \<and> tl_debits txs = coin_debits recoup db pub \<and> tl_credits txs = coin_credits recoup db pub
     \<and> (tl_refunds txs \<longrightarrow> tl_last_fee None txs \<noteq> None) \<and> tl_fee_discount txs = coin_discount db pub
     \<and> (\<forall>e\<in>set txs. \<forall>d. tl_details e = TALER_EXCHANGEDB_TT_DEPOSIT d \<longrightarrow>
          (\<exists>r\<in>set (t_deposits db). dp_coin_pub r = pub \<and> dle_merchant_pub d = dp_merchant_pub r
             \<and> dle_h_contract_terms d = dp_h_contract_terms r \<and> dle_h_wire d = dp_h_wire r
             \<and> amt (dle_amount_with_fee d) = sqlamt (dp_amount_with_fee r)))
     \<and> (\<forall>r\<in>set (t_refunds db). rd_coin_pub r = pub \<longrightarrow>
          (\<exists>e\<in>set txs. \<exists>d. tl_details e = TALER_EXCHANGEDB_TT_REFUND d \<and> rle_merchant_pub d = rd_merchant_pub r
             \<and> rle_h_contract_terms d = rd_h_contract_terms r \<and> rle_rtransaction_id d = rd_rtransaction_id r))"

lemma other_entry_no: "other_entry d \<Longrightarrow> tl_fee d = None" "other_entry d \<Longrightarrow> \<not> tl_is_refund d"
  "other_entry d \<Longrightarrow> d \<noteq> TALER_EXCHANGEDB_TT_DEPOSIT x"
  by (cases d; simp)+

lemma history_okI:
  assumes txs: "txs = xs @ rs @ ms @ ds" and ok: "coin_tables_ok db"
    and ds: "list_all2 (\<lambda>x e. entry_ok c (sqlamt (dp_amount_with_fee (fst x))) 0 e \<and> deposit_entry x e)
               (rev (sql_get_deposit_with_coin_pub pub db)) ds"
    and ms: "list_all2 (\<lambda>x e. entry_ok c (sqlamt (rcm_amount_with_fee (fst x))) 0 e \<and> other_entry (tl_details e))
               (rev (sql_get_refresh_session_by_coin pub db)) ms"
    and rs: "list_all2 (\<lambda>x e. entry_ok c (sqlamt (dn_fee_refund (snd x))) (sqlamt (rd_amount_with_fee (fst x))) e
                 \<and> refund_entry x e) (rev (sql_get_refunds_by_coin pub db)) rs"
    and xs: "tl_in c xs" "\<forall>e\<in>set xs. other_entry (tl_details e)"
      "tl_debits xs = (if recoup then coin_recouped db pub + coin_recoup_refreshed db pub else 0)"
      "tl_credits xs = (if recoup then coin_old_recouped db pub else 0)"
  shows "history_ok c recoup db pub txs"
proof -
  note D = entries_all2 [OF ds] all2_set [OF ds] and M = entries_all2 [OF ms] all2_set [OF ms]
    and R = entries_all2 [OF rs] all2_set [OF rs]
  note eqs = get_deposit_with_coin_pub_eq [OF ok] get_refresh_session_by_coin_eq [OF ok] get_refunds_by_coin_eq [OF ok]
  have fee: "sqlamt (f (hd (coin_denoms db pub))) = coin_fee f db pub"
    if "coin_refunds db pub \<noteq> []" for f
    using that ok
    by (cases rule: coin_denoms_cases [OF ok, of pub])
      (auto simp: coin_fee_def coin_refunds_def coin_tables_ok_def filter_empty_conv)
  have deb: "tl_debits txs = coin_debits recoup db pub"
    using D(2) M(2) R(2) xs(3) fee [of dn_fee_refund]
    by (cases "coin_refunds db pub = []")
      (simp_all add: txs eqs coin_debits_def coin_deposited_def coin_melted_def comp_def sum_list_triv)
  have cred: "tl_credits txs = coin_credits recoup db pub"
    using D(3) M(3) R(3) xs(4) by (simp add: txs eqs coin_credits_def coin_refunded_def comp_def)
  have depE: "deposit_entry x e \<Longrightarrow> \<not> tl_is_refund (tl_details e) \<and> tl_fee (tl_details e) \<noteq> None"
    and refE: "refund_entry y e \<Longrightarrow> tl_is_refund (tl_details e) \<and> tl_fee (tl_details e) = None" for x y e
    by (auto simp: deposit_entry_def refund_entry_def)
  have refunds: "tl_refunds txs \<longleftrightarrow> coin_refunds db pub \<noteq> []"
    using R(4,5) M(4) D(4) xs(2) depE refE other_entry_no(2)
    by (fastforce simp: txs tl_refunds_def eqs neq_Nil_conv)
  have last: "\<exists>f. tl_last_fee None txs = Some f \<and> amt f = coin_fee dn_fee_deposit db pub"
    if r: "coin_refunds db pub \<noteq> []"
  proof (rule tl_last_fee_ex)
    from r ok obtain x where "x \<in> set (sql_get_deposit_with_coin_pub pub db)"
      by (fastforce simp: eqs coin_refunds_def coin_tables_ok_def filter_empty_conv refund_key_def deposit_key_def)
    with D(5) depE show "(\<exists>e\<in>set txs. tl_fee (tl_details e) \<noteq> None) \<or> None \<noteq> None"
      unfolding txs by fastforce
    show "\<forall>e\<in>set txs. \<forall>x. tl_fee (tl_details e) = Some x \<longrightarrow> amt x = coin_fee dn_fee_deposit db pub"
      using D(4) M(4) R(4) xs(2) refE other_entry_no(1) fee [OF r, of dn_fee_deposit]
      by (fastforce simp: txs eqs deposit_entry_def)
  qed simp
  have disc: "tl_fee_discount txs = coin_discount db pub"
    using last by (auto simp: tl_fee_discount_def coin_discount_def refunds)
  have dep: "\<exists>r\<in>set (t_deposits db). dp_coin_pub r = pub \<and> dle_merchant_pub d = dp_merchant_pub r
             \<and> dle_h_contract_terms d = dp_h_contract_terms r \<and> dle_h_wire d = dp_h_wire r
             \<and> amt (dle_amount_with_fee d) = sqlamt (dp_amount_with_fee r)"
    if "e \<in> set txs" "tl_details e = TALER_EXCHANGEDB_TT_DEPOSIT d" for e d
    using that D(4) M(4) R(4) xs(2) by (fastforce simp: txs eqs deposit_entry_def refund_entry_def)
  have ref: "\<exists>e\<in>set txs. \<exists>d. tl_details e = TALER_EXCHANGEDB_TT_REFUND d \<and> rle_merchant_pub d = rd_merchant_pub r
             \<and> rle_h_contract_terms d = rd_h_contract_terms r \<and> rle_rtransaction_id d = rd_rtransaction_id r"
    if "r \<in> set (t_refunds db)" "rd_coin_pub r = pub" for r
    using that R(5) by (fastforce simp: txs eqs coin_refunds_def refund_entry_def)
  have "tl_in c txs" using D(1) M(1) R(1) xs(1) by (simp add: txs)
  moreover have "tl_refunds txs \<longrightarrow> tl_last_fee None txs \<noteq> None" using last refunds by auto
  ultimately show ?thesis
    unfolding history_ok_def using deb cred disc dep ref by blast
qed

lemma coin_history_ok:
  assumes pg: "pg_ok pg" and ok: "coin_tables_ok db"
  obtains txs where "coin_history g pg pub recoup db = Some txs"
    and "history_ok (pg_currency pg) recoup db pub txs"
proof -
  let ?c = "pg_currency pg"
  have dn: "sql_normal (dn_fee_deposit (hd (coin_denoms db pub)))" "sql_normal (dn_fee_refresh (hd (coin_denoms db pub)))"
      "sql_normal (dn_fee_refund (hd (coin_denoms db pub)))" if "coin_known db pub"
    using that ok by (cases rule: coin_denoms_cases [OF ok, of pub]; auto simp: coin_tables_ok_def)+
  note eqs = get_deposit_with_coin_pub_eq [OF ok] get_refresh_session_by_coin_eq [OF ok]
    get_refunds_by_coin_eq [OF ok] coin_refunds_def
  have D: "sql_normal (dp_amount_with_fee (fst x)) \<and> sql_normal (dn_fee_deposit (snd x))"
    if "x \<in> set (sql_get_deposit_with_coin_pub pub db)" for x
    using that ok dn by (auto simp: eqs coin_tables_ok_def)
  have M: "sql_normal (rcm_amount_with_fee (fst x)) \<and> sql_normal (dn_fee_refresh (snd x))"
    if "x \<in> set (sql_get_refresh_session_by_coin pub db)" for x
    using that ok dn by (auto simp: eqs coin_tables_ok_def)
  have R: "sql_normal (rd_amount_with_fee (fst x)) \<and> sql_normal (dn_fee_refund (snd x))"
    if "x \<in> set (sql_get_refunds_by_coin pub db)" for x
    using that ok dn by (auto simp: eqs coin_tables_ok_def)
  have O: "x \<in> set (sql_recoup_by_old_coin pub db) \<Longrightarrow> sql_normal (rp_amount (fst x))"
    and P: "y \<in> set (sql_recoup_by_coin pub db) \<Longrightarrow> sql_normal (rp_amount (fst y))"
    and Q: "z \<in> set (sql_recoup_by_refreshed_coin pub db) \<Longrightarrow> sql_normal (rp_amount (fst z))" for x y z
    using ok by (auto simp: sql_recoup_by_old_coin_def sql_recoup_by_coin_def sql_recoup_by_refreshed_coin_def
        coin_tables_ok_def reserve_tables_ok_def split: if_splits)
  obtain ds where ds: "history_entries (add_coin_deposit g pg) (sql_get_deposit_with_coin_pub pub db) = Some ds"
    "list_all2 (\<lambda>x e. entry_ok ?c (sqlamt (dp_amount_with_fee (fst x))) 0 e \<and> deposit_entry x e)
               (rev (sql_get_deposit_with_coin_pub pub db)) ds"
    by (rule history_entries_all2, rule add_coin_deposit_ok [OF pg]) (use D M R in blast)+
  obtain ms where ms: "history_entries (add_coin_melt pg) (sql_get_refresh_session_by_coin pub db) = Some ms"
    "list_all2 (\<lambda>x e. entry_ok ?c (sqlamt (rcm_amount_with_fee (fst x))) 0 e \<and> other_entry (tl_details e))
               (rev (sql_get_refresh_session_by_coin pub db)) ms"
    by (rule history_entries_all2, rule add_coin_melt_ok [OF pg]) (use D M R in blast)+
  obtain rs where rs: "history_entries (add_coin_refund pg) (sql_get_refunds_by_coin pub db) = Some rs"
    "list_all2 (\<lambda>x e. entry_ok ?c (sqlamt (dn_fee_refund (snd x))) (sqlamt (rd_amount_with_fee (fst x))) e
                 \<and> refund_entry x e) (rev (sql_get_refunds_by_coin pub db)) rs"
    by (rule history_entries_all2, rule add_coin_refund_ok [OF pg]) (use D M R in blast)+
  show ?thesis
  proof (cases recoup)
    case False
    have "history_ok ?c recoup db pub ([] @ rs @ ms @ ds)"
      using False by (intro history_okI [OF refl ok ds(2) ms(2) rs(2)]) auto
    with False ds(1) ms(1) rs(1) that show ?thesis by (simp add: coin_history_def)
  next
    case True
    obtain os where os: "history_entries (add_old_coin_recoup g pg pub) (sql_recoup_by_old_coin pub db) = Some os"
      "list_all2 (\<lambda>x e. entry_ok ?c 0 (sqlamt (rp_amount (fst x))) e \<and> other_entry (tl_details e))
         (rev (sql_recoup_by_old_coin pub db)) os"
      by (rule history_entries_all2, rule add_recoups_ok(1) [OF pg]) (use O in blast)
    obtain ps where ps: "history_entries (add_coin_recoup g pg) (sql_recoup_by_coin pub db) = Some ps"
      "list_all2 (\<lambda>x e. entry_ok ?c (sqlamt (rp_amount (fst x))) 0 e \<and> other_entry (tl_details e))
         (rev (sql_recoup_by_coin pub db)) ps"
      by (rule history_entries_all2, rule add_recoups_ok(2) [OF pg]) (use P in blast)
    obtain qs where qs: "history_entries (add_coin_recoup_refresh g pg pub) (sql_recoup_by_refreshed_coin pub db) = Some qs"
      "list_all2 (\<lambda>x e. entry_ok ?c (sqlamt (rp_amount (fst x))) 0 e \<and> other_entry (tl_details e))
         (rev (sql_recoup_by_refreshed_coin pub db)) qs"
      by (rule history_entries_all2, rule add_recoups_ok(3) [OF pg]) (use Q in blast)
    note sums = entries_all2 [OF os(2)] entries_all2 [OF ps(2)] entries_all2 [OF qs(2)]
      all2_set(1) [OF os(2)] all2_set(1) [OF ps(2)] all2_set(1) [OF qs(2)]
    have "history_ok ?c recoup db pub ((qs @ ps @ os) @ rs @ ms @ ds)"
      using True sums
      by (intro history_okI [OF refl ok ds(2) ms(2) rs(2)])
        (auto simp: sum_recoup_by_old_coin [OF ok] sum_recoup_by_coin [OF ok] sum_recoup_by_refreshed_coin [OF ok])
    with True ds(1) ms(1) rs(1) os(1) ps(1) qs(1) that show ?thesis by (simp add: coin_history_def)
  qed
qed

text \<open>The total that is computed from such a history is the accounting total.\<close>

lemma coin_totals_wp:
  assumes "history_ok c recoup db pub txs" and "amount_in c off"
  shows "wp (TALER_EXCHANGEDB_calculate_transaction_list_totals txs off ret) (\<lambda>r t.
     if amt off + coin_debits recoup db pub < AMT_LIMIT
        \<and> coin_credits recoup db pub + coin_discount db pub < AMT_LIMIT
        \<and> 0 \<le> amt off + coin_spent recoup db pub
     then r = GNUNET_OK \<and> amount_in c t \<and> amt t = amt off + coin_spent recoup db pub
     else r = GNUNET_SYSERR \<and> t = ret)"
  using assms(1) calculate_totals_wp [of c off txs ret]
  by (intro wp_mono [OF calculate_totals_wp [of c off txs ret]])
    (auto simp: history_ok_def assms(2) coin_spent_def split: if_splits)

section \<open>Property\<close>

text \<open>C32. The history that is fetched for a coin together with the total that is computed from it
  implement the accounting on the tables: fetching changes nothing and fails only with a database
  error, and the total on top of an offset is the offset plus everything the coin has spent
  according to the tables. It is refused exactly if one of the sums is not a legal amount or the
  result is negative.\<close>

theorem coin_transactions_account:
  assumes "gnunet_ok g" and "session_ok s" and "pg_ok pg" and "coin_tables_ok (s_db s)"
    and "amount_in (pg_currency pg) off"
  shows "wp (postgres_get_coin_transactions g pg pub recoup s) (\<lambda>(qs, txs) s'.
     s_db s' = s_db s \<and> s_committed s' = s_committed s \<and>
     (qs < 0 \<or> (\<exists>r t. TALER_EXCHANGEDB_calculate_transaction_list_totals txs off ret = Some (r, t) \<and>
        (if amt off + coin_debits recoup (s_db s) pub < AMT_LIMIT
            \<and> coin_credits recoup (s_db s) pub + coin_discount (s_db s) pub < AMT_LIMIT
            \<and> 0 \<le> amt off + coin_spent recoup (s_db s) pub
         then r = GNUNET_OK \<and> amt t = amt off + coin_spent recoup (s_db s) pub
         else r = GNUNET_SYSERR))))"
proof -
  obtain txs where h: "coin_history g pg pub recoup (s_db s) = Some txs"
    and ok: "history_ok (pg_currency pg) recoup (s_db s) pub txs"
    using coin_history_ok [OF assms(3,4)] by blast
  show ?thesis
    using coin_totals_wp [OF ok assms(5), of ret]
    by (intro wp_mono [OF get_coin_transactions_wp [OF assms(1,2) h]])
      (auto simp: unchanged_def wp_iff split: if_splits)
qed

text \<open>The coin of the sample database with a deposit of 3\<close>

definition sample_deposit_db :: tables where
  "sample_deposit_db = sample_db\<lparr>t_deposits := [\<lparr>dp_deposit_serial_id = 3, dp_coin_pub = 20,
      dp_amount_with_fee = (3, 0), dp_timestamp = 130, dp_refund_deadline = 140, dp_wire_deadline = 150,
      dp_merchant_pub = 50, dp_h_contract_terms = 51, dp_h_wire = 52, dp_coin_sig = 20, dp_wire = ''payto'',
      dp_tiny = False, dp_done = False\<rparr>]\<rparr>"

lemma sample_deposit_db_ok: "coin_tables_ok sample_deposit_db" "reserves_ok sample_deposit_db" "reserves_ok sample_db"
  "coin_tables_ok sample_db"
  by (simp_all add: coin_tables_ok_def reserves_ok_def reserve_tables_ok_def sample_deposit_db_def sample_db_def
      reserve_total_defs sql_normal_def sqlamt_def AMT_LIMIT_def reserve_known_def denom_known_def coin_known_def)

lemma sample_deposit_db_totals:
  "coin_debits r sample_deposit_db 20 = 300000000" "coin_credits r sample_deposit_db 20 = 0"
  "coin_discount sample_deposit_db 20 = 0"
  by (simp_all add: coin_debits_def coin_credits_def coin_discount_def coin_deposited_def coin_melted_def coin_refunds_def
      coin_refunded_def coin_recouped_def coin_recoup_refreshed_def coin_old_recouped_def sample_deposit_db_def
      sample_db_def sqlamt_def)

theorem coin_transactions_account_witness:
  "wp (postgres_get_coin_transactions sample_gnunet sample_pg 20 True (sample_session\<lparr>s_db := sample_deposit_db\<rparr>))
     (\<lambda>(qs, txs) s'. qs < 0 \<or> (\<exists>t. TALER_EXCHANGEDB_calculate_transaction_list_totals txs (mk_amount ''EUR'' 1 0) invalidate
        = Some (GNUNET_OK, t) \<and> amt t = 400000000))"
proof -
  have "session_ok (sample_session\<lparr>s_db := sample_deposit_db\<rparr>)" by (simp add: session_ok_def sample_session_def)
  then show ?thesis
    by (rule wp_mono [OF coin_transactions_account [OF sample_ok(1) _ sample_ok(2),
          where off = "mk_amount ''EUR'' 1 0" and ret = invalidate]])
      (auto simp: sample_ok sample_deposit_db_ok mk_amount_in_EUR sample_deposit_db_totals coin_spent_def AMT_LIMIT_def)
qed

end
