(* ===== verification/Coin_Updates.thy ===== *)
theory Coin_Updates
  imports Coin_Ledger
begin

text \<open>
  How the coin operations of the plugin change the accounting of a coin, and that they keep the
  integrity of the tables.
\<close>

section \<open>Rows that are added\<close>

definition db_ok :: "tables \<Rightarrow> bool" where
  "db_ok db \<longleftrightarrow> reserves_ok db \<and> coin_tables_ok db"

lemmas coin_total_defs = coin_spent_def coin_debits_def coin_credits_def coin_discount_def
  coin_deposited_def coin_melted_def coin_refunds_def coin_refunded_def coin_recouped_def
  coin_recoup_refreshed_def coin_old_recouped_def

lemma known_sels [simp]:
  "coin_known (db\<lparr>t_deposits := x1\<rparr>) p = coin_known db p" "denom_known (db\<lparr>t_deposits := x1\<rparr>) h = denom_known db h"
  "coin_known (db\<lparr>t_refunds := x2\<rparr>) p = coin_known db p" "denom_known (db\<lparr>t_refunds := x2\<rparr>) h = denom_known db h"
  "coin_known (db\<lparr>t_refresh_commitments := x3\<rparr>) p = coin_known db p"
  "denom_known (db\<lparr>t_refresh_commitments := x3\<rparr>) h = denom_known db h"
  "coin_known (db\<lparr>t_recoup := x4\<rparr>) p = coin_known db p" "denom_known (db\<lparr>t_recoup := x4\<rparr>) h = denom_known db h"
  "coin_known (db\<lparr>t_recoup_refresh := x5\<rparr>) p = coin_known db p"
  "denom_known (db\<lparr>t_recoup_refresh := x5\<rparr>) h = denom_known db h"
  "denom_known (db\<lparr>t_known_coins := x6\<rparr>) h = denom_known db h"
  "coin_known (db\<lparr>t_reserves_out := x7\<rparr>) p = coin_known db p"
  "denom_known (db\<lparr>t_reserves_out := x7\<rparr>) h = denom_known db h"
  by (simp_all add: coin_known_def denom_known_def)

lemma reserves_ok_sels [simp]:
  "reserves_ok (db\<lparr>t_deposits := x1\<rparr>) = reserves_ok db"
  "reserves_ok (db\<lparr>t_refunds := x2\<rparr>) = reserves_ok db"
  "reserves_ok (db\<lparr>t_refresh_commitments := x3\<rparr>) = reserves_ok db"
  "reserves_ok (db\<lparr>t_recoup_refresh := x5\<rparr>) = reserves_ok db"
  "reserves_ok (db\<lparr>t_known_coins := x6\<rparr>) = reserves_ok db"
  by (simp_all add: reserves_ok_def reserve_known_def reserve_total_defs)

lemma reserve_tables_ok_sels [simp]:
  "reserve_tables_ok (db\<lparr>t_deposits := x1\<rparr>) = reserve_tables_ok db"
  "reserve_tables_ok (db\<lparr>t_refunds := x2\<rparr>) = reserve_tables_ok db"
  "reserve_tables_ok (db\<lparr>t_refresh_commitments := x3\<rparr>) = reserve_tables_ok db"
  "reserve_tables_ok (db\<lparr>t_recoup_refresh := x5\<rparr>) = reserve_tables_ok db"
  by (simp_all add: reserve_tables_ok_def)

lemma coin_denoms_sels [simp]:
  "coin_denoms (db\<lparr>t_deposits := x1\<rparr>) = coin_denoms db"
  "coin_denoms (db\<lparr>t_refunds := x2\<rparr>) = coin_denoms db"
  "coin_denoms (db\<lparr>t_refresh_commitments := x3\<rparr>) = coin_denoms db"
  "coin_denoms (db\<lparr>t_recoup := x4\<rparr>) = coin_denoms db"
  "coin_denoms (db\<lparr>t_recoup_refresh := x5\<rparr>) = coin_denoms db"
  "coin_denoms (db\<lparr>t_reserves_out := x7\<rparr>) = coin_denoms db"
  by (simp_all add: coin_denoms_def fun_eq_iff cong: if_cong)

lemma coin_fee_sels [simp]:
  "coin_fee f (db\<lparr>t_deposits := x1\<rparr>) = coin_fee f db"
  "coin_fee f (db\<lparr>t_refunds := x2\<rparr>) = coin_fee f db"
  "coin_fee f (db\<lparr>t_refresh_commitments := x3\<rparr>) = coin_fee f db"
  "coin_fee f (db\<lparr>t_recoup := x4\<rparr>) = coin_fee f db"
  "coin_fee f (db\<lparr>t_recoup_refresh := x5\<rparr>) = coin_fee f db"
  by (simp_all add: coin_fee_def fun_eq_iff)

lemma blind_of_old_coin_sels [simp]:
  "blind_of_old_coin (db\<lparr>t_deposits := x1\<rparr>) = blind_of_old_coin db"
  "blind_of_old_coin (db\<lparr>t_refunds := x2\<rparr>) = blind_of_old_coin db"
  "blind_of_old_coin (db\<lparr>t_recoup := x4\<rparr>) = blind_of_old_coin db"
  "blind_of_old_coin (db\<lparr>t_recoup_refresh := x5\<rparr>) = blind_of_old_coin db"
  "blind_of_old_coin (db\<lparr>t_known_coins := x6\<rparr>) = blind_of_old_coin db"
  by (simp_all add: blind_of_old_coin_def fun_eq_iff)

text \<open>A deposit, a melt and a recoup spend, a refund and the recoup of a refreshed coin give back.\<close>

lemma coin_spent_deposit:
  "coin_spent recoup (db\<lparr>t_deposits := t_deposits db @ [r]\<rparr>) p =
     coin_spent recoup db p + (if dp_coin_pub r = p then sqlamt (dp_amount_with_fee r) else 0)"
  by (simp add: coin_total_defs)

lemma coin_spent_melt:
  assumes "coin_tables_ok db" and "rcm_rc m \<notin> rcm_rc ` set (t_refresh_commitments db)"
  shows "coin_spent recoup (db\<lparr>t_refresh_commitments := t_refresh_commitments db @ [m]\<rparr>) p =
     coin_spent recoup db p + (if rcm_old_coin_pub m = p then sqlamt (rcm_amount_with_fee m) else 0)"
proof -
  have "blind_of_old_coin (db\<lparr>t_refresh_commitments := t_refresh_commitments db @ [m]\<rparr>) p h
      = blind_of_old_coin db p h" for h
  proof -
    have "\<forall>r\<in>set (t_refresh_revealed_coins db). rrc_rc r \<noteq> rcm_rc m"
      using assms unfolding coin_tables_ok_def by metis
    then show ?thesis by (auto simp: blind_of_old_coin_def)
  qed
  then show ?thesis
    by (simp add: coin_total_defs)
qed

lemma coin_spent_refund:
  "coin_spent recoup (db\<lparr>t_refunds := t_refunds db @ [r]\<rparr>) p =
     coin_spent recoup db p + (if rd_coin_pub r = p
       then coin_fee dn_fee_refund db p - sqlamt (rd_amount_with_fee r)
            - (if coin_refunds db p = [] then coin_fee dn_fee_deposit db p else 0)
       else 0)"
  by (simp add: coin_total_defs ring_distribs)

lemma coin_spent_recoup:
  "coin_spent recoup (db\<lparr>t_recoup := t_recoup db @ [r]\<rparr>) p =
     coin_spent recoup db p + (if recoup \<and> rp_coin_pub r = p then sqlamt (rp_amount r) else 0)"
  by (simp add: coin_total_defs)

lemma coin_spent_recoup_refresh:
  "coin_spent recoup (db\<lparr>t_recoup_refresh := t_recoup_refresh db @ [r]\<rparr>) p =
     coin_spent recoup db p + (if recoup \<and> rp_coin_pub r = p then sqlamt (rp_amount r) else 0)
     - (if recoup \<and> blind_of_old_coin db p (rp_h_blind_ev r) then sqlamt (rp_amount r) else 0)"
  by (simp add: coin_total_defs)

lemma coin_denoms_known:
  assumes "coin_known db p" "\<not> coin_known db (kc_coin_pub k)"
  shows "coin_denoms (db\<lparr>t_known_coins := t_known_coins db @ [k]\<rparr>) p = coin_denoms db p"
  using assms by (auto simp: coin_denoms_def cong: if_cong)

text \<open>A coin that becomes known has not spent anything.\<close>

lemma coin_totals_known:
  assumes "coin_tables_ok db" and "\<not> coin_known db (kc_coin_pub k)"
  shows "coin_debits recoup (db\<lparr>t_known_coins := t_known_coins db @ [k]\<rparr>) p = coin_debits recoup db p"
    and "coin_credits recoup (db\<lparr>t_known_coins := t_known_coins db @ [k]\<rparr>) p = coin_credits recoup db p"
    and "coin_discount (db\<lparr>t_known_coins := t_known_coins db @ [k]\<rparr>) p = coin_discount db p"
proof -
  let ?db = "db\<lparr>t_known_coins := t_known_coins db @ [k]\<rparr>"
  have "coin_refunds db p \<noteq> [] \<Longrightarrow> coin_known db p"
    using assms(1) by (auto simp: coin_refunds_def coin_tables_ok_def filter_empty_conv)
  then have "coin_refunds db p \<noteq> [] \<Longrightarrow> coin_denoms ?db p = coin_denoms db p"
    by (rule coin_denoms_known [OF _ assms(2)])
  then have fee: "coin_refunds db p \<noteq> [] \<Longrightarrow> coin_fee f ?db p = coin_fee f db p" for f
    by (simp add: coin_fee_def)
  have refunds: "coin_refunds ?db p = coin_refunds db p" by (simp add: coin_refunds_def)
  show "coin_debits recoup ?db p = coin_debits recoup db p"
    using fee by (cases "coin_refunds db p = []")
      (simp_all add: refunds coin_debits_def coin_deposited_def coin_melted_def coin_recouped_def coin_recoup_refreshed_def)
  show "coin_credits recoup ?db p = coin_credits recoup db p"
    by (simp add: coin_credits_def coin_refunded_def coin_old_recouped_def refunds)
  show "coin_discount ?db p = coin_discount db p"
    using fee by (simp add: coin_discount_def refunds)
qed

lemma coin_spent_known:
  assumes "coin_tables_ok db" and "\<not> coin_known db (kc_coin_pub k)"
  shows "coin_spent recoup (db\<lparr>t_known_coins := t_known_coins db @ [k]\<rparr>) p = coin_spent recoup db p"
  by (simp add: coin_spent_def coin_totals_known [OF assms])

section \<open>Integrity is kept\<close>

lemma coin_tables_ok_deposit:
  "coin_tables_ok db \<Longrightarrow> sql_normal (dp_amount_with_fee r) \<Longrightarrow> coin_known db (dp_coin_pub r) \<Longrightarrow>
     deposit_key r \<notin> deposit_key ` set (t_deposits db) \<Longrightarrow>
     coin_tables_ok (db\<lparr>t_deposits := t_deposits db @ [r]\<rparr>)"
  by (auto simp: coin_tables_ok_def)

lemma coin_tables_ok_refund:
  "coin_tables_ok db \<Longrightarrow> sql_normal (rd_amount_with_fee r) \<Longrightarrow> coin_known db (rd_coin_pub r) \<Longrightarrow>
     refund_key r \<notin> refund_key ` set (t_refunds db) \<Longrightarrow> refund_key r \<in> deposit_key ` set (t_deposits db) \<Longrightarrow>
     coin_tables_ok (db\<lparr>t_refunds := t_refunds db @ [r]\<rparr>)"
  by (auto simp: coin_tables_ok_def)

lemma coin_tables_ok_melt:
  "coin_tables_ok db \<Longrightarrow> sql_normal (rcm_amount_with_fee m) \<Longrightarrow> coin_known db (rcm_old_coin_pub m) \<Longrightarrow>
     rcm_rc m \<notin> rcm_rc ` set (t_refresh_commitments db) \<Longrightarrow>
     coin_tables_ok (db\<lparr>t_refresh_commitments := t_refresh_commitments db @ [m]\<rparr>)"
  by (auto simp: coin_tables_ok_def)

lemma coin_tables_ok_recoup_refresh:
  "coin_tables_ok db \<Longrightarrow> sql_normal (rp_amount r) \<Longrightarrow> coin_known db (rp_coin_pub r) \<Longrightarrow>
     rp_h_blind_ev r \<in> rrc_h_coin_ev ` set (t_refresh_revealed_coins db) \<Longrightarrow>
     coin_tables_ok (db\<lparr>t_recoup_refresh := t_recoup_refresh db @ [r]\<rparr>)"
  by (auto simp: coin_tables_ok_def)

lemma coin_tables_ok_recoup:
  "coin_tables_ok db \<Longrightarrow> sql_normal (rp_amount r) \<Longrightarrow> coin_known db (rp_coin_pub r) \<Longrightarrow>
     \<exists>x\<in>set (t_reserves_out db). ro_h_blind_ev x = rp_h_blind_ev r \<Longrightarrow>
     coin_tables_ok (db\<lparr>t_recoup := t_recoup db @ [r]\<rparr>)"
  using reserve_tables_ok_recoup [of db r] by (auto simp: coin_tables_ok_def)

lemma coin_tables_ok_known:
  "coin_tables_ok db \<Longrightarrow> \<not> coin_known db (kc_coin_pub k) \<Longrightarrow> denom_known db (kc_denom_pub_hash k) \<Longrightarrow>
     coin_tables_ok (db\<lparr>t_known_coins := t_known_coins db @ [k]\<rparr>)"
  by (auto simp: coin_tables_ok_def reserve_tables_ok_def coin_known_def)

section \<open>What the operations do\<close>

lemma bex_key_iff: "(\<exists>x\<in>A. f x = y) \<longleftrightarrow> y \<in> f ` A"
  by (auto simp: image_iff)

text \<open>An insertion adds its row, or fails; a violated uniqueness constraint is reported as no rows, but
  leaves the transaction in the failed state.\<close>

definition insert_ok ::
    "('r \<Rightarrow> tables \<Rightarrow> tables) \<Rightarrow> (tables \<Rightarrow> 'r \<Rightarrow> bool) \<Rightarrow> (tables \<Rightarrow> bool) \<Rightarrow> tables session \<Rightarrow> int
       \<Rightarrow> tables session \<Rightarrow> bool" where
  "insert_ok add new dup s qs s' \<longleftrightarrow>
     qs = GNUNET_DB_STATUS_SUCCESS_ONE_RESULT \<and> (\<exists>row. new (s_db s) row \<and> updated s (add row (s_db s)) s')
     \<or> unchanged s s' \<and> (qs = GNUNET_DB_STATUS_SOFT_ERROR \<or> qs = GNUNET_DB_STATUS_HARD_ERROR
         \<or> qs = GNUNET_DB_STATUS_SUCCESS_NO_RESULTS \<and> s_failed s' = s_in_tx s \<and> dup (s_db s))"

lemma insert_wp:
  assumes "gnunet_ok g" and "session_ok s"
    and stmt: "\<And>n. stmt n (s_db s) = Inl PQ_UNIQUE_VIOLATION \<and> dup (s_db s)
        \<or> stmt n (s_db s) = Inl PQ_FOREIGN_KEY_VIOLATION
        \<or> (\<exists>row. new (s_db s) row \<and> stmt n (s_db s) = Inr (1, add row (s_db s)))"
  shows "wp (pq_non_select g stmt s) (insert_ok add new dup s)"
proof (rule wp_mono [OF pq_non_select_wp [OF assms(1,2)]], goal_cases)
  case (1 qs s')
  then show ?case
  proof (elim disjE exE conjE, goal_cases)
    case (1 k n db)
    with stmt [of n] show ?case by (auto simp: insert_ok_def)
  next
    case (4 n)
    with stmt [of n] show ?case by (auto simp: insert_ok_def)
  qed (auto simp: insert_ok_def)
qed

abbreviation add_deposit :: "deposits_row \<Rightarrow> tables \<Rightarrow> tables" where
  "add_deposit r db \<equiv> db\<lparr>t_deposits := t_deposits db @ [r]\<rparr>"

abbreviation add_refund :: "refunds_row \<Rightarrow> tables \<Rightarrow> tables" where
  "add_refund r db \<equiv> db\<lparr>t_refunds := t_refunds db @ [r]\<rparr>"

abbreviation add_melt :: "refresh_commitments_row \<Rightarrow> tables \<Rightarrow> tables" where
  "add_melt r db \<equiv> db\<lparr>t_refresh_commitments := t_refresh_commitments db @ [r]\<rparr>"

abbreviation add_recoup_refresh :: "recoup_row \<Rightarrow> tables \<Rightarrow> tables" where
  "add_recoup_refresh r db \<equiv> db\<lparr>t_recoup_refresh := t_recoup_refresh db @ [r]\<rparr>"

abbreviation add_known_coin :: "known_coins_row \<Rightarrow> tables \<Rightarrow> tables" where
  "add_known_coin r db \<equiv> db\<lparr>t_known_coins := t_known_coins db @ [r]\<rparr>"

text \<open>The rows that an operation may add\<close>

definition new_deposit :: "TALER_EXCHANGEDB_Deposit \<Rightarrow> tables \<Rightarrow> deposits_row \<Rightarrow> bool" where
  "new_deposit d db r \<longleftrightarrow> dp_coin_pub r = coin_pub (dep_coin d) \<and> dp_merchant_pub r = dep_merchant_pub d
     \<and> dp_h_contract_terms r = dep_h_contract_terms d \<and> dp_h_wire r = dep_h_wire d
     \<and> dp_timestamp r = dep_timestamp d \<and> dp_refund_deadline r = dep_refund_deadline d
     \<and> dp_wire_deadline r = dep_wire_deadline d \<and> dp_coin_sig r = dep_csig d
     \<and> dp_wire r = dep_receiver_wire_account d \<and> \<not> dp_tiny r \<and> \<not> dp_done r
     \<and> sqlamt (dp_amount_with_fee r) = amt (dep_amount_with_fee d) \<and> sql_normal (dp_amount_with_fee r)
     \<and> coin_known db (dp_coin_pub r) \<and> deposit_key r \<notin> deposit_key ` set (t_deposits db)"

definition new_refund :: "TALER_EXCHANGEDB_Refund \<Rightarrow> tables \<Rightarrow> refunds_row \<Rightarrow> bool" where
  "new_refund d db r \<longleftrightarrow> rd_coin_pub r = coin_pub (ref_coin d) \<and> rd_merchant_pub r = rle_merchant_pub (ref_details d)
     \<and> rd_h_contract_terms r = rle_h_contract_terms (ref_details d)
     \<and> rd_rtransaction_id r = rle_rtransaction_id (ref_details d)
     \<and> rd_merchant_sig r = rle_merchant_sig (ref_details d)
     \<and> sqlamt (rd_amount_with_fee r) = amt (rle_refund_amount (ref_details d)) \<and> sql_normal (rd_amount_with_fee r)
     \<and> coin_known db (rd_coin_pub r)"

definition new_melt :: "TALER_EXCHANGEDB_Refresh \<Rightarrow> tables \<Rightarrow> refresh_commitments_row \<Rightarrow> bool" where
  "new_melt d db r \<longleftrightarrow> rcm_rc r = rf_rc d \<and> rcm_old_coin_pub r = coin_pub (rf_coin d)
     \<and> rcm_old_coin_sig r = rf_coin_sig d \<and> rcm_noreveal_index r = rf_noreveal_index d
     \<and> sqlamt (rcm_amount_with_fee r) = amt (rf_amount_with_fee d) \<and> sql_normal (rcm_amount_with_fee r)
     \<and> coin_known db (rcm_old_coin_pub r) \<and> rcm_rc r \<notin> rcm_rc ` set (t_refresh_commitments db)"

definition new_recoup_refresh :: "pub_key \<Rightarrow> int \<Rightarrow> hash_code \<Rightarrow> tables \<Rightarrow> recoup_row \<Rightarrow> bool" where
  "new_recoup_refresh coin a h db r \<longleftrightarrow> rp_coin_pub r = coin \<and> rp_h_blind_ev r = h
     \<and> sqlamt (rp_amount r) = a \<and> sql_normal (rp_amount r) \<and> coin_known db (rp_coin_pub r)
     \<and> rp_h_blind_ev r \<in> rrc_h_coin_ev ` set (t_refresh_revealed_coins db)"

lemma query_param_time:
  "GNUNET_TIME_round_abs g t = t \<Longrightarrow> TALER_PQ_query_param_absolute_time g t = Some t"
  by (simp add: TALER_PQ_query_param_absolute_time_def)

lemma sql_insert_deposit_cases:
  "sql_insert_deposit row n db = Inl PQ_UNIQUE_VIOLATION \<and> deposit_key (row n) \<in> deposit_key ` set (t_deposits db)
   \<or> sql_insert_deposit row n db = Inl PQ_FOREIGN_KEY_VIOLATION
   \<or> coin_known db (dp_coin_pub (row n)) \<and> deposit_key (row n) \<notin> deposit_key ` set (t_deposits db)
     \<and> sql_insert_deposit row n db = Inr (1, add_deposit (row n) db)"
  by (auto simp: sql_insert_deposit_def deposit_key_def image_iff) metis+

lemma insert_deposit_wp:
  assumes "gnunet_ok g" and "session_ok s" and "amount_in c (dep_amount_with_fee d)"
    and "GNUNET_TIME_round_abs g (dep_timestamp d) = dep_timestamp d"
    and "GNUNET_TIME_round_abs g (dep_refund_deadline d) = dep_refund_deadline d"
    and "GNUNET_TIME_round_abs g (dep_wire_deadline d) = dep_wire_deadline d"
  shows "wp (postgres_insert_deposit g d s) (insert_ok add_deposit (new_deposit d)
     (\<lambda>db. (coin_pub (dep_coin d), dep_merchant_pub d, dep_h_contract_terms d) \<in> deposit_key ` set (t_deposits db)) s)"
proof -
  obtain a where a: "TALER_PQ_query_param_amount (dep_amount_with_fee d) = Some a"
    "sqlamt a = amt (dep_amount_with_fee d)" "sql_normal a"
    using query_param_amount [OF assms(3)] .
  show ?thesis
    unfolding postgres_insert_deposit_def a(1) query_param_time [OF assms(4)] query_param_time [OF assms(5)]
      query_param_time [OF assms(6)] bind.bind_lunit
  proof (rule insert_wp [OF assms(1,2)], goal_cases)
    case (1 n)
    let ?row = "\<lambda>n. \<lparr>dp_deposit_serial_id = n, dp_coin_pub = coin_pub (dep_coin d),
        dp_amount_with_fee = a, dp_timestamp = dep_timestamp d, dp_refund_deadline = dep_refund_deadline d,
        dp_wire_deadline = dep_wire_deadline d, dp_merchant_pub = dep_merchant_pub d,
        dp_h_contract_terms = dep_h_contract_terms d, dp_h_wire = dep_h_wire d, dp_coin_sig = dep_csig d,
        dp_wire = dep_receiver_wire_account d, dp_tiny = False, dp_done = False\<rparr>"
    have key: "deposit_key (?row n) = (coin_pub (dep_coin d), dep_merchant_pub d, dep_h_contract_terms d)"
      by (simp add: deposit_key_def)
    have "new_deposit d (s_db s) (?row n)" if "coin_known (s_db s) (coin_pub (dep_coin d))"
      "deposit_key (?row n) \<notin> deposit_key ` set (t_deposits (s_db s))"
      using that a by (simp add: new_deposit_def)
    with sql_insert_deposit_cases [of ?row n "s_db s"] key show ?case
      by (auto simp del: One_nat_def)
  qed
qed

lemma insert_refund_wp:
  assumes "gnunet_ok g" and "session_ok s" and "amount_in c (rle_refund_amount (ref_details d))"
    and "amount_in c (rle_refund_fee (ref_details d))"
  shows "wp (postgres_insert_refund g d s) (insert_ok add_refund (new_refund d)
     (\<lambda>db. \<exists>r\<in>set (t_refunds db). refund_key r =
        (coin_pub (ref_coin d), rle_merchant_pub (ref_details d), rle_h_contract_terms (ref_details d))
        \<and> rd_rtransaction_id r = rle_rtransaction_id (ref_details d)) s)"
proof -
  obtain a where a: "TALER_PQ_query_param_amount (rle_refund_amount (ref_details d)) = Some a"
    "sqlamt a = amt (rle_refund_amount (ref_details d))" "sql_normal a"
    using query_param_amount [OF assms(3)] .
  have cur: "TALER_amount_cmp_currency (rle_refund_amount (ref_details d)) (rle_refund_fee (ref_details d)) = GNUNET_YES"
    using assms(3,4) by (rule amount_in_cmp_currency)
  let ?row = "\<lambda>n. \<lparr>rd_refund_serial_id = n, rd_coin_pub = coin_pub (ref_coin d),
        rd_merchant_pub = rle_merchant_pub (ref_details d), rd_merchant_sig = rle_merchant_sig (ref_details d),
        rd_h_contract_terms = rle_h_contract_terms (ref_details d),
        rd_rtransaction_id = rle_rtransaction_id (ref_details d), rd_amount_with_fee = a\<rparr>"
  have "wp (pq_non_select g (sql_insert_refund ?row) s) (insert_ok add_refund (new_refund d)
     (\<lambda>db. \<exists>r\<in>set (t_refunds db). refund_key r =
        (coin_pub (ref_coin d), rle_merchant_pub (ref_details d), rle_h_contract_terms (ref_details d))
        \<and> rd_rtransaction_id r = rle_rtransaction_id (ref_details d)) s)"
  proof (rule insert_wp [OF assms(1,2)], goal_cases)
    case (1 n)
    have "new_refund d (s_db s) (?row n)" if "coin_known (s_db s) (coin_pub (ref_coin d))"
      using that a by (simp add: new_refund_def)
    then show ?case
      by (auto simp: sql_insert_refund_def refund_key_def simp del: One_nat_def)
  qed
  then show ?thesis
    by (simp add: postgres_insert_refund_def cur a(1))
qed

lemma insert_melt_wp:
  assumes "gnunet_ok g" and "session_ok s" and "amount_in c (rf_amount_with_fee d)"
  shows "wp (postgres_insert_melt g d s) (insert_ok add_melt (new_melt d)
     (\<lambda>db. rf_rc d \<in> rcm_rc ` set (t_refresh_commitments db)) s)"
proof -
  obtain a where a: "TALER_PQ_query_param_amount (rf_amount_with_fee d) = Some a"
    "sqlamt a = amt (rf_amount_with_fee d)" "sql_normal a"
    using query_param_amount [OF assms(3)] .
  let ?row = "\<lambda>n. \<lparr>rcm_melt_serial_id = n, rcm_rc = rf_rc d, rcm_old_coin_pub = coin_pub (rf_coin d),
        rcm_old_coin_sig = rf_coin_sig d, rcm_amount_with_fee = a, rcm_noreveal_index = rf_noreveal_index d\<rparr>"
  have "wp (pq_non_select g (sql_insert_melt ?row) s) (insert_ok add_melt (new_melt d)
     (\<lambda>db. rf_rc d \<in> rcm_rc ` set (t_refresh_commitments db)) s)"
  proof (rule insert_wp [OF assms(1,2)], goal_cases)
    case (1 n)
    have "new_melt d (s_db s) (?row n)" if "coin_known (s_db s) (coin_pub (rf_coin d))"
      "rf_rc d \<notin> rcm_rc ` set (t_refresh_commitments (s_db s))"
      using that a by (simp add: new_melt_def)
    moreover have "(\<exists>r\<in>set (t_refresh_commitments (s_db s)). rcm_rc r = rf_rc d)
        \<longleftrightarrow> rf_rc d \<in> rcm_rc ` set (t_refresh_commitments (s_db s))"
      by (rule bex_key_iff)
    ultimately show ?case
      by (auto simp: sql_insert_melt_def simp del: One_nat_def)
  qed
  then show ?thesis
    by (simp add: postgres_insert_melt_def a(1))
qed

lemma insert_recoup_refresh_wp:
  assumes "gnunet_ok g" and "session_ok s" and "amount_in c amount" and "GNUNET_TIME_round_abs g t = t"
  shows "wp (postgres_insert_recoup_refresh_request g coin coin_sig coin_blind amount h t s)
     (insert_ok add_recoup_refresh (new_recoup_refresh (coin_pub coin) (amt amount) h) (\<lambda>db. False) s)"
proof -
  obtain a where a: "TALER_PQ_query_param_amount amount = Some a" "sqlamt a = amt amount" "sql_normal a"
    using query_param_amount [OF assms(3)] .
  let ?row = "\<lambda>n. \<lparr>rp_recoup_uuid = n, rp_coin_pub = coin_pub coin, rp_coin_sig = coin_sig,
      rp_coin_blind = coin_blind, rp_amount = a, rp_timestamp = t, rp_h_blind_ev = h\<rparr>"
  have "wp (pq_non_select g (sql_recoup_refresh_insert ?row) s)
     (insert_ok add_recoup_refresh (new_recoup_refresh (coin_pub coin) (amt amount) h) (\<lambda>db. False) s)"
  proof (rule insert_wp [OF assms(1,2)], goal_cases)
    case (1 n)
    have "new_recoup_refresh (coin_pub coin) (amt amount) h (s_db s) (?row n)"
      if "coin_known (s_db s) (coin_pub coin)" "h \<in> rrc_h_coin_ev ` set (t_refresh_revealed_coins (s_db s))"
      using that a by (simp add: new_recoup_refresh_def)
    moreover have "(\<forall>r\<in>set (t_refresh_revealed_coins (s_db s)). rrc_h_coin_ev r \<noteq> h)
        \<longleftrightarrow> h \<notin> rrc_h_coin_ev ` set (t_refresh_revealed_coins (s_db s))"
      by blast
    ultimately show ?case
      by (auto simp: sql_recoup_refresh_insert_def simp del: One_nat_def)
  qed
  then show ?thesis
    by (simp add: postgres_insert_recoup_refresh_request_def a(1) query_param_time [OF assms(4)])
qed

definition known_row :: "TALER_CoinPublicInfo \<Rightarrow> known_coins_row" where
  "known_row coin = \<lparr>kc_coin_pub = coin_pub coin, kc_denom_pub_hash = coin_denom_pub_hash coin,
                     kc_denom_sig = coin_denom_sig coin\<rparr>"

lemma known_row_sels [simp]:
  "kc_coin_pub (known_row coin) = coin_pub coin" "kc_denom_pub_hash (known_row coin) = coin_denom_pub_hash coin"
  by (simp_all add: known_row_def)

lemma ensure_coin_known_wp:
  assumes "gnunet_ok g" and "session_ok s"
  shows "wp (postgres_ensure_coin_known g coin s) (\<lambda>qs s'.
     qs = GNUNET_DB_STATUS_SUCCESS_ONE_RESULT \<and> \<not> coin_known (s_db s) (coin_pub coin)
        \<and> denom_known (s_db s) (coin_denom_pub_hash coin) \<and> updated s (add_known_coin (known_row coin) (s_db s)) s'
     \<or> unchanged s s' \<and> (qs = GNUNET_DB_STATUS_SOFT_ERROR \<or> qs = GNUNET_DB_STATUS_HARD_ERROR
        \<or> qs = GNUNET_DB_STATUS_SUCCESS_NO_RESULTS \<and> \<not> s_failed s' \<and> coin_known (s_db s) (coin_pub coin)))"
  unfolding postgres_ensure_coin_known_def postgres_get_known_coin_def bind_assoc
proof (rule wp_bindI [OF pq_singleton_select_wp [OF assms]], goal_cases)
  case (1 x s1)
  obtain qs row where x: "x = (qs, row)" by (cases x)
  have u: "unchanged s s1" using 1 x by auto
  then have s1: "session_ok s1" "s_db s1 = s_db s"
    using session_ok_unchanged [OF assms(2)] by (auto simp: unchanged_def)
  have ins: "wp (insert_known_coin g coin s1) (insert_ok add_known_coin
      (\<lambda>db r. r = known_row coin \<and> \<not> coin_known db (coin_pub coin) \<and> denom_known db (coin_denom_pub_hash coin))
      (\<lambda>db. coin_known db (coin_pub coin)) s1)"
    unfolding insert_known_coin_def
    by (rule insert_wp [OF assms(1) s1(1)])
      (auto simp: sql_insert_known_coin_def known_row_def simp del: One_nat_def)
  consider "qs = - 1 \<or> qs = - 2" | "qs = 0" "sql_get_known_coin (coin_pub coin) (s_db s) = []"
    | r where "qs = 1" "sql_get_known_coin (coin_pub coin) (s_db s) = [r]" "\<not> s_failed s1"
    using 1 x by auto
  then show ?case
  proof cases
    case 1
    with x u show ?thesis by auto
  next
    case 2
    then have "\<not> coin_known (s_db s) (coin_pub coin)"
      by (auto simp: sql_get_known_coin_def coin_known_def filter_empty_conv)
    then have "wp (insert_known_coin g coin s1 \<bind> (\<lambda>(qs, s). if qs \<le> 0
          then Some (if qs = 0 then - 2 else qs, s) else Some (qs, s)))
        (\<lambda>qs s'. qs = 1 \<and> \<not> coin_known (s_db s) (coin_pub coin)
            \<and> denom_known (s_db s) (coin_denom_pub_hash coin) \<and> updated s (add_known_coin (known_row coin) (s_db s)) s'
         \<or> unchanged s s' \<and> (qs = - 1 \<or> qs = - 2 \<or> qs = 0 \<and> \<not> s_failed s' \<and> coin_known (s_db s) (coin_pub coin)))"
      using u s1(2)
      by (intro wp_bindI [OF ins]) (auto simp: insert_ok_def intro: unchanged_trans unchanged_updated)
    with 2 x show ?thesis by simp
  next
    case (3 r)
    then have "r \<in> set (sql_get_known_coin (coin_pub coin) (s_db s))" by simp
    then have "coin_known (s_db s) (coin_pub coin)"
      by (auto simp: sql_get_known_coin_def coin_known_def)
    with 3 x u show ?thesis by auto
  qed
qed

text \<open>A deposit that is found has the same key and, if asked for, the same amount and time.\<close>

definition same_deposit :: "gnunet \<Rightarrow> TALER_EXCHANGEDB_Deposit \<Rightarrow> bool \<Rightarrow> deposits_row \<Rightarrow> bool" where
  "same_deposit g d extras r \<longleftrightarrow>
     deposit_key r = (coin_pub (dep_coin d), dep_merchant_pub d, dep_h_contract_terms d)
     \<and> dp_h_wire r = dep_h_wire d
     \<and> TALER_PQ_result_spec_absolute_time g (dp_refund_deadline r) = dep_refund_deadline d
     \<and> (extras \<longrightarrow> sqlamt (dp_amount_with_fee r) = amt (dep_amount_with_fee d)
           \<and> TALER_PQ_result_spec_absolute_time g (dp_timestamp r) = dep_timestamp d)"

lemma have_deposit_wp:
  assumes g: "gnunet_ok g" and s: "session_ok s" and pg: "pg_ok pg" and ok: "coin_tables_ok (s_db s)"
    and a: "amount_in (pg_currency pg) (dep_amount_with_fee d)"
  shows "wp (postgres_have_deposit g pg d extras s) (\<lambda>qs s'. unchanged s s' \<and>
     (qs = GNUNET_DB_STATUS_SOFT_ERROR \<or> qs = GNUNET_DB_STATUS_HARD_ERROR
      \<or> \<not> s_failed s' \<and> (if \<exists>r\<in>set (t_deposits (s_db s)). same_deposit g d extras r
                           then qs = GNUNET_DB_STATUS_SUCCESS_ONE_RESULT
                           else qs = GNUNET_DB_STATUS_SUCCESS_NO_RESULTS)))"
  unfolding postgres_have_deposit_def
proof (rule wp_bindI [OF pq_singleton_select_wp [OF g s]], goal_cases)
  case (1 x s1)
  obtain qs row where x: "x = (qs, row)" by (cases x)
  let ?q = "sql_get_deposit (coin_pub (dep_coin d)) (dep_h_contract_terms d) (dep_merchant_pub d) (s_db s)"
  have q: "r \<in> set ?q \<longleftrightarrow> r \<in> set (t_deposits (s_db s))
      \<and> deposit_key r = (coin_pub (dep_coin d), dep_merchant_pub d, dep_h_contract_terms d)" for r
    by (auto simp: sql_get_deposit_def deposit_key_def)
  show ?case
  proof (cases row)
    case None
    with 1 x q show ?thesis by (auto simp: same_deposit_def)
  next
    case (Some r)
    with 1 x have r: "?q = [r]" "unchanged s s1" "\<not> s_failed s1" by auto
    then have rin: "r \<in> set (t_deposits (s_db s))"
      "deposit_key r = (coin_pub (dep_coin d), dep_merchant_pub d, dep_h_contract_terms d)"
      using q [of r] by auto
    have uniq: "(\<exists>r\<in>set (t_deposits (s_db s)). same_deposit g d extras r) \<longleftrightarrow> same_deposit g d extras r"
    proof -
      have "r' = r" if "r' \<in> set (t_deposits (s_db s))" "same_deposit g d extras r'" for r'
        using q [of r'] r(1) that by (simp add: same_deposit_def)
      with rin(1) show ?thesis by blast
    qed
    have n: "sql_normal (dp_amount_with_fee r)" using ok rin(1) by (simp add: coin_tables_ok_def)
    obtain b where b: "TALER_PQ_result_spec_amount (pg_currency pg) (dp_amount_with_fee r) = Some b"
      "amount_in (pg_currency pg) b" "amt b = sqlamt (dp_amount_with_fee r)"
      using result_spec_amount [OF pg n] .
    show ?thesis
      unfolding x Some prod.case option.case b(1) bind.bind_lunit uniq cmp_in [OF a b(2)]
      using r(2,3) rin(2) b(3) by (cases extras) (auto simp: same_deposit_def sgn_if)
  qed
qed

lemma test_deposit_done_wp:
  assumes "gnunet_ok g" and "session_ok s"
  shows "wp (postgres_test_deposit_done g coin merchant h_contract h_wire s) (\<lambda>qs s'. unchanged s s' \<and>
     (qs = GNUNET_DB_STATUS_SOFT_ERROR \<or> qs = GNUNET_DB_STATUS_HARD_ERROR
      \<or> \<not> s_failed s' \<and> (\<exists>r\<in>set (t_deposits (s_db s)). deposit_key r = (coin, merchant, h_contract)
            \<and> dp_h_wire r = h_wire \<and> qs = (if dp_done r then 1 else 0))))"
  unfolding postgres_test_deposit_done_def
proof (rule wp_bindI [OF pq_singleton_select_wp [OF assms]], goal_cases)
  case (1 x s1)
  obtain qs row where x: "x = (qs, row)" by (cases x)
  show ?case
  proof (cases row)
    case None
    with 1 x show ?thesis by auto
  next
    case (Some b)
    with 1 x have r: "sql_test_deposit_done coin merchant h_contract h_wire (s_db s) = [b]"
      "unchanged s s1" "\<not> s_failed s1" "qs = 1" by auto
    from r(1) have "b \<in> set (sql_test_deposit_done coin merchant h_contract h_wire (s_db s))" by simp
    then obtain r' where "r' \<in> set (t_deposits (s_db s))" "deposit_key r' = (coin, merchant, h_contract)"
      "dp_h_wire r' = h_wire" "b = dp_done r'"
      by (auto simp: sql_test_deposit_done_def deposit_key_def)
    with x Some r(2-) show ?thesis by auto
  qed
qed

end
