(* ===== verification/Replies.thy ===== *)
theory Replies
  imports Exchangedb_Types
begin

text \<open>
  What a request handler queues on the connection: an error reply with a status and one of the codes of
  \<^verbatim>\<open>src/include/taler_error_codes.h\<close>, or a reply of its own, whose content is a type of the
  handler. Whether libmicrohttpd accepts the reply (the value of \<^verbatim>\<open>MHD_RESULT\<close>) is not
  modelled; the marker \<open>-1\<close> of \<^verbatim>\<open>TEH_DB_run_transaction\<close> for "no reply" is \<open>None\<close>.
\<close>

type_synonym TALER_ErrorCode = nat

datatype 'a reply =
    TALER_MHD_reply_with_error nat TALER_ErrorCode
  | reply_ok nat 'a

section \<open>HTTP status codes\<close>

abbreviation (input) MHD_HTTP_OK :: nat where "MHD_HTTP_OK \<equiv> 200"

abbreviation (input) MHD_HTTP_BAD_REQUEST :: nat where "MHD_HTTP_BAD_REQUEST \<equiv> 400"

abbreviation (input) MHD_HTTP_UNAUTHORIZED :: nat where "MHD_HTTP_UNAUTHORIZED \<equiv> 401"

abbreviation (input) MHD_HTTP_FORBIDDEN :: nat where "MHD_HTTP_FORBIDDEN \<equiv> 403"

abbreviation (input) MHD_HTTP_NOT_FOUND :: nat where "MHD_HTTP_NOT_FOUND \<equiv> 404"

abbreviation (input) MHD_HTTP_CONFLICT :: nat where "MHD_HTTP_CONFLICT \<equiv> 409"

abbreviation (input) MHD_HTTP_GONE :: nat where "MHD_HTTP_GONE \<equiv> 410"

abbreviation (input) MHD_HTTP_PRECONDITION_FAILED :: nat where "MHD_HTTP_PRECONDITION_FAILED \<equiv> 412"

abbreviation (input) MHD_HTTP_INTERNAL_SERVER_ERROR :: nat where "MHD_HTTP_INTERNAL_SERVER_ERROR \<equiv> 500"

abbreviation (input) MHD_HTTP_SERVICE_UNAVAILABLE :: nat where "MHD_HTTP_SERVICE_UNAVAILABLE \<equiv> 503"

section \<open>Error codes\<close>

abbreviation (input) TALER_EC_COIN_HISTORY_DB_ERROR_INSUFFICIENT_FUNDS :: TALER_ErrorCode where "TALER_EC_COIN_HISTORY_DB_ERROR_INSUFFICIENT_FUNDS \<equiv> 1010"

abbreviation (input) TALER_EC_DB_COIN_HISTORY_STORE_ERROR :: TALER_ErrorCode where "TALER_EC_DB_COIN_HISTORY_STORE_ERROR \<equiv> 1014"

abbreviation (input) TALER_EC_DB_COMMIT_FAILED_HARD :: TALER_ErrorCode where "TALER_EC_DB_COMMIT_FAILED_HARD \<equiv> 1003"

abbreviation (input) TALER_EC_DB_COMMIT_FAILED_ON_RETRY :: TALER_ErrorCode where "TALER_EC_DB_COMMIT_FAILED_ON_RETRY \<equiv> 1004"

abbreviation (input) TALER_EC_DB_SETUP_FAILED :: TALER_ErrorCode where "TALER_EC_DB_SETUP_FAILED \<equiv> 1001"

abbreviation (input) TALER_EC_DB_START_FAILED :: TALER_ErrorCode where "TALER_EC_DB_START_FAILED \<equiv> 1002"

abbreviation (input) TALER_EC_DENOMINATION_KEY_LOST :: TALER_ErrorCode where "TALER_EC_DENOMINATION_KEY_LOST \<equiv> 1116"

abbreviation (input) TALER_EC_DEPOSIT_COIN_SIGNATURE_INVALID :: TALER_ErrorCode where "TALER_EC_DEPOSIT_COIN_SIGNATURE_INVALID \<equiv> 1205"

abbreviation (input) TALER_EC_DEPOSIT_CURRENCY_MISMATCH :: TALER_ErrorCode where "TALER_EC_DEPOSIT_CURRENCY_MISMATCH \<equiv> 1222"

abbreviation (input) TALER_EC_DEPOSIT_DENOMINATION_EXPIRED :: TALER_ErrorCode where "TALER_EC_DEPOSIT_DENOMINATION_EXPIRED \<equiv> 1220"

abbreviation (input) TALER_EC_DEPOSIT_DENOMINATION_KEY_UNKNOWN :: TALER_ErrorCode where "TALER_EC_DEPOSIT_DENOMINATION_KEY_UNKNOWN \<equiv> 1204"

abbreviation (input) TALER_EC_DEPOSIT_DENOMINATION_SIGNATURE_INVALID :: TALER_ErrorCode where "TALER_EC_DEPOSIT_DENOMINATION_SIGNATURE_INVALID \<equiv> 1206"

abbreviation (input) TALER_EC_DEPOSIT_DENOMINATION_VALIDITY_IN_FUTURE :: TALER_ErrorCode where "TALER_EC_DEPOSIT_DENOMINATION_VALIDITY_IN_FUTURE \<equiv> 1219"

abbreviation (input) TALER_EC_DEPOSIT_HISTORY_DB_ERROR :: TALER_ErrorCode where "TALER_EC_DEPOSIT_HISTORY_DB_ERROR \<equiv> 1201"

abbreviation (input) TALER_EC_DEPOSIT_INSUFFICIENT_FUNDS :: TALER_ErrorCode where "TALER_EC_DEPOSIT_INSUFFICIENT_FUNDS \<equiv> 1200"

abbreviation (input) TALER_EC_DEPOSIT_INVALID_TIMESTAMP :: TALER_ErrorCode where "TALER_EC_DEPOSIT_INVALID_TIMESTAMP \<equiv> 1218"

abbreviation (input) TALER_EC_DEPOSIT_INVALID_WIRE_FORMAT_CONTRACT_HASH_CONFLICT :: TALER_ErrorCode where "TALER_EC_DEPOSIT_INVALID_WIRE_FORMAT_CONTRACT_HASH_CONFLICT \<equiv> 1211"

abbreviation (input) TALER_EC_DEPOSIT_INVALID_WIRE_FORMAT_JSON :: TALER_ErrorCode where "TALER_EC_DEPOSIT_INVALID_WIRE_FORMAT_JSON \<equiv> 1210"

abbreviation (input) TALER_EC_DEPOSIT_NEGATIVE_VALUE_AFTER_FEE :: TALER_ErrorCode where "TALER_EC_DEPOSIT_NEGATIVE_VALUE_AFTER_FEE \<equiv> 1207"

abbreviation (input) TALER_EC_DEPOSIT_REFUND_DEADLINE_AFTER_WIRE_DEADLINE :: TALER_ErrorCode where "TALER_EC_DEPOSIT_REFUND_DEADLINE_AFTER_WIRE_DEADLINE \<equiv> 1208"

abbreviation (input) TALER_EC_DEPOSIT_STORE_DB_ERROR :: TALER_ErrorCode where "TALER_EC_DEPOSIT_STORE_DB_ERROR \<equiv> 1202"

abbreviation (input) TALER_EC_EXCHANGE_BAD_CONFIGURATION :: TALER_ErrorCode where "TALER_EC_EXCHANGE_BAD_CONFIGURATION \<equiv> 4"

abbreviation (input) TALER_EC_MELT_COIN_EXPIRED_NO_ZOMBIE :: TALER_ErrorCode where "TALER_EC_MELT_COIN_EXPIRED_NO_ZOMBIE \<equiv> 1309"

abbreviation (input) TALER_EC_MELT_COIN_HISTORY_COMPUTATION_FAILED :: TALER_ErrorCode where "TALER_EC_MELT_COIN_HISTORY_COMPUTATION_FAILED \<equiv> 1302"

abbreviation (input) TALER_EC_MELT_COIN_SIGNATURE_INVALID :: TALER_ErrorCode where "TALER_EC_MELT_COIN_SIGNATURE_INVALID \<equiv> 1307"

abbreviation (input) TALER_EC_MELT_CURRENCY_MISMATCH :: TALER_ErrorCode where "TALER_EC_MELT_CURRENCY_MISMATCH \<equiv> 1311"

abbreviation (input) TALER_EC_MELT_DB_FETCH_ERROR :: TALER_ErrorCode where "TALER_EC_MELT_DB_FETCH_ERROR \<equiv> 1303"

abbreviation (input) TALER_EC_MELT_DB_STORE_SESSION_ERROR :: TALER_ErrorCode where "TALER_EC_MELT_DB_STORE_SESSION_ERROR \<equiv> 1304"

abbreviation (input) TALER_EC_MELT_DENOMINATION_SIGNATURE_INVALID :: TALER_ErrorCode where "TALER_EC_MELT_DENOMINATION_SIGNATURE_INVALID \<equiv> 1306"

abbreviation (input) TALER_EC_MELT_FEES_EXCEED_CONTRIBUTION :: TALER_ErrorCode where "TALER_EC_MELT_FEES_EXCEED_CONTRIBUTION \<equiv> 1305"

abbreviation (input) TALER_EC_MELT_HISTORY_DB_ERROR_INSUFFICIENT_FUNDS :: TALER_ErrorCode where "TALER_EC_MELT_HISTORY_DB_ERROR_INSUFFICIENT_FUNDS \<equiv> 1308"

abbreviation (input) TALER_EC_MELT_INSUFFICIENT_FUNDS :: TALER_ErrorCode where "TALER_EC_MELT_INSUFFICIENT_FUNDS \<equiv> 1300"

abbreviation (input) TALER_EC_RECOUP_BLINDING_FAILED :: TALER_ErrorCode where "TALER_EC_RECOUP_BLINDING_FAILED \<equiv> 1858"

abbreviation (input) TALER_EC_RECOUP_COIN_BALANCE_NEGATIVE :: TALER_ErrorCode where "TALER_EC_RECOUP_COIN_BALANCE_NEGATIVE \<equiv> 1859"

abbreviation (input) TALER_EC_RECOUP_COIN_BALANCE_ZERO :: TALER_ErrorCode where "TALER_EC_RECOUP_COIN_BALANCE_ZERO \<equiv> 1857"

abbreviation (input) TALER_EC_RECOUP_DB_FETCH_FAILED :: TALER_ErrorCode where "TALER_EC_RECOUP_DB_FETCH_FAILED \<equiv> 1853"

abbreviation (input) TALER_EC_RECOUP_DB_PUT_FAILED :: TALER_ErrorCode where "TALER_EC_RECOUP_DB_PUT_FAILED \<equiv> 1856"

abbreviation (input) TALER_EC_RECOUP_DENOMINATION_KEY_UNKNOWN :: TALER_ErrorCode where "TALER_EC_RECOUP_DENOMINATION_KEY_UNKNOWN \<equiv> 1850"

abbreviation (input) TALER_EC_RECOUP_DENOMINATION_SIGNATURE_INVALID :: TALER_ErrorCode where "TALER_EC_RECOUP_DENOMINATION_SIGNATURE_INVALID \<equiv> 1852"

abbreviation (input) TALER_EC_RECOUP_DENOMINATION_VALIDITY_IN_FUTURE :: TALER_ErrorCode where "TALER_EC_RECOUP_DENOMINATION_VALIDITY_IN_FUTURE \<equiv> 1860"

abbreviation (input) TALER_EC_RECOUP_HISTORY_DB_ERROR :: TALER_ErrorCode where "TALER_EC_RECOUP_HISTORY_DB_ERROR \<equiv> 1855"

abbreviation (input) TALER_EC_RECOUP_SIGNATURE_INVALID :: TALER_ErrorCode where "TALER_EC_RECOUP_SIGNATURE_INVALID \<equiv> 1851"

abbreviation (input) TALER_EC_RECOUP_WITHDRAW_NOT_FOUND :: TALER_ErrorCode where "TALER_EC_RECOUP_WITHDRAW_NOT_FOUND \<equiv> 1854"

abbreviation (input) TALER_EC_REFRESH_RECOUP_DENOMINATION_EXPIRED :: TALER_ErrorCode where "TALER_EC_REFRESH_RECOUP_DENOMINATION_EXPIRED \<equiv> 1353"

abbreviation (input) TALER_EC_REFRESH_RECOUP_DENOMINATION_KEY_NOT_FOUND :: TALER_ErrorCode where "TALER_EC_REFRESH_RECOUP_DENOMINATION_KEY_NOT_FOUND \<equiv> 1351"

abbreviation (input) TALER_EC_REFRESH_RECOUP_DENOMINATION_VALIDITY_IN_FUTURE :: TALER_ErrorCode where "TALER_EC_REFRESH_RECOUP_DENOMINATION_VALIDITY_IN_FUTURE \<equiv> 1352"

abbreviation (input) TALER_EC_REFRESH_ZOMBIE_DENOMINATION_EXPIRED :: TALER_ErrorCode where "TALER_EC_REFRESH_ZOMBIE_DENOMINATION_EXPIRED \<equiv> 1354"

abbreviation (input) TALER_EC_REFUND_COIN_NOT_FOUND :: TALER_ErrorCode where "TALER_EC_REFUND_COIN_NOT_FOUND \<equiv> 1500"

abbreviation (input) TALER_EC_REFUND_CONFLICT :: TALER_ErrorCode where "TALER_EC_REFUND_CONFLICT \<equiv> 1501"

abbreviation (input) TALER_EC_REFUND_CURRENCY_MISMATCH :: TALER_ErrorCode where "TALER_EC_REFUND_CURRENCY_MISMATCH \<equiv> 1504"

abbreviation (input) TALER_EC_REFUND_DB_INCONSISTENT :: TALER_ErrorCode where "TALER_EC_REFUND_DB_INCONSISTENT \<equiv> 1505"

abbreviation (input) TALER_EC_REFUND_DEPOSIT_NOT_FOUND :: TALER_ErrorCode where "TALER_EC_REFUND_DEPOSIT_NOT_FOUND \<equiv> 1503"

abbreviation (input) TALER_EC_REFUND_FEE_ABOVE_AMOUNT :: TALER_ErrorCode where "TALER_EC_REFUND_FEE_ABOVE_AMOUNT \<equiv> 1512"

abbreviation (input) TALER_EC_REFUND_FEE_CURRENCY_MISMATCH :: TALER_ErrorCode where "TALER_EC_REFUND_FEE_CURRENCY_MISMATCH \<equiv> 1511"

abbreviation (input) TALER_EC_REFUND_FEE_TOO_LOW :: TALER_ErrorCode where "TALER_EC_REFUND_FEE_TOO_LOW \<equiv> 1509"

abbreviation (input) TALER_EC_REFUND_INSUFFICIENT_FUNDS :: TALER_ErrorCode where "TALER_EC_REFUND_INSUFFICIENT_FUNDS \<equiv> 1507"

abbreviation (input) TALER_EC_REFUND_MERCHANT_ALREADY_PAID :: TALER_ErrorCode where "TALER_EC_REFUND_MERCHANT_ALREADY_PAID \<equiv> 1506"

abbreviation (input) TALER_EC_REFUND_MERCHANT_SIGNATURE_INVALID :: TALER_ErrorCode where "TALER_EC_REFUND_MERCHANT_SIGNATURE_INVALID \<equiv> 1513"

abbreviation (input) TALER_EC_REFUND_STORE_DB_ERROR :: TALER_ErrorCode where "TALER_EC_REFUND_STORE_DB_ERROR \<equiv> 1510"

abbreviation (input) TALER_EC_RESERVES_INVALID_RESERVE_PUB :: TALER_ErrorCode where "TALER_EC_RESERVES_INVALID_RESERVE_PUB \<equiv> 1051"

abbreviation (input) TALER_EC_WITHDRAW_AMOUNT_FEE_OVERFLOW :: TALER_ErrorCode where "TALER_EC_WITHDRAW_AMOUNT_FEE_OVERFLOW \<equiv> 1102"

abbreviation (input) TALER_EC_WITHDRAW_DB_FETCH_ERROR :: TALER_ErrorCode where "TALER_EC_WITHDRAW_DB_FETCH_ERROR \<equiv> 1109"

abbreviation (input) TALER_EC_WITHDRAW_DB_STORE_ERROR :: TALER_ErrorCode where "TALER_EC_WITHDRAW_DB_STORE_ERROR \<equiv> 1108"

abbreviation (input) TALER_EC_WITHDRAW_DENOMINATION_KEY_NOT_FOUND :: TALER_ErrorCode where "TALER_EC_WITHDRAW_DENOMINATION_KEY_NOT_FOUND \<equiv> 1110"

abbreviation (input) TALER_EC_WITHDRAW_HISTORY_DB_ERROR_INSUFFICIENT_FUNDS :: TALER_ErrorCode where "TALER_EC_WITHDRAW_HISTORY_DB_ERROR_INSUFFICIENT_FUNDS \<equiv> 1112"

abbreviation (input) TALER_EC_WITHDRAW_INSUFFICIENT_FUNDS :: TALER_ErrorCode where "TALER_EC_WITHDRAW_INSUFFICIENT_FUNDS \<equiv> 1100"

abbreviation (input) TALER_EC_WITHDRAW_RESERVE_BALANCE_CORRUPT :: TALER_ErrorCode where "TALER_EC_WITHDRAW_RESERVE_BALANCE_CORRUPT \<equiv> 1117"

abbreviation (input) TALER_EC_WITHDRAW_RESERVE_SIGNATURE_INVALID :: TALER_ErrorCode where "TALER_EC_WITHDRAW_RESERVE_SIGNATURE_INVALID \<equiv> 1111"

abbreviation (input) TALER_EC_WITHDRAW_RESERVE_UNKNOWN :: TALER_ErrorCode where "TALER_EC_WITHDRAW_RESERVE_UNKNOWN \<equiv> 1101"

abbreviation (input) TALER_EC_WITHDRAW_SIGNATURE_FAILED :: TALER_ErrorCode where "TALER_EC_WITHDRAW_SIGNATURE_FAILED \<equiv> 1107"

abbreviation (input) TALER_EC_WITHDRAW_VALIDITY_IN_FUTURE :: TALER_ErrorCode where "TALER_EC_WITHDRAW_VALIDITY_IN_FUTURE \<equiv> 1114"

abbreviation (input) TALER_EC_WITHDRAW_VALIDITY_IN_PAST :: TALER_ErrorCode where "TALER_EC_WITHDRAW_VALIDITY_IN_PAST \<equiv> 1115"

abbreviation (input) TALER_EC_INTERNAL_INVARIANT_FAILURE :: TALER_ErrorCode where "TALER_EC_INTERNAL_INVARIANT_FAILURE \<equiv> 5"

abbreviation (input) TALER_EC_JSON_INVALID_WITH_DETAILS :: TALER_ErrorCode where "TALER_EC_JSON_INVALID_WITH_DETAILS \<equiv> 1007"

abbreviation (input) TALER_EC_OPERATION_INVALID :: TALER_ErrorCode where "TALER_EC_OPERATION_INVALID \<equiv> 9"

abbreviation (input) TALER_EC_REVEAL_AMOUNT_INSUFFICIENT :: TALER_ErrorCode where "TALER_EC_REVEAL_AMOUNT_INSUFFICIENT \<equiv> 1380"

abbreviation (input) TALER_EC_REVEAL_CNC_TRANSFER_ARRAY_SIZE_INVALID :: TALER_ErrorCode where "TALER_EC_REVEAL_CNC_TRANSFER_ARRAY_SIZE_INVALID \<equiv> 1376"

abbreviation (input) TALER_EC_REVEAL_COMMITMENT_VIOLATION :: TALER_ErrorCode where "TALER_EC_REVEAL_COMMITMENT_VIOLATION \<equiv> 1370"

abbreviation (input) TALER_EC_REVEAL_COST_CALCULATION_OVERFLOW :: TALER_ErrorCode where "TALER_EC_REVEAL_COST_CALCULATION_OVERFLOW \<equiv> 1379"

abbreviation (input) TALER_EC_REVEAL_DB_COMMIT_ERROR :: TALER_ErrorCode where "TALER_EC_REVEAL_DB_COMMIT_ERROR \<equiv> 1375"

abbreviation (input) TALER_EC_REVEAL_DB_FETCH_REVEAL_ERROR :: TALER_ErrorCode where "TALER_EC_REVEAL_DB_FETCH_REVEAL_ERROR \<equiv> 1374"

abbreviation (input) TALER_EC_REVEAL_DB_FETCH_SESSION_ERROR :: TALER_ErrorCode where "TALER_EC_REVEAL_DB_FETCH_SESSION_ERROR \<equiv> 1373"

abbreviation (input) TALER_EC_REVEAL_INVALID_RCH :: TALER_ErrorCode where "TALER_EC_REVEAL_INVALID_RCH \<equiv> 1384"

abbreviation (input) TALER_EC_REVEAL_KEYS_MISSING :: TALER_ErrorCode where "TALER_EC_REVEAL_KEYS_MISSING \<equiv> 1383"

abbreviation (input) TALER_EC_REVEAL_LINK_SIGNATURE_INVALID :: TALER_ErrorCode where "TALER_EC_REVEAL_LINK_SIGNATURE_INVALID \<equiv> 1382"

abbreviation (input) TALER_EC_REVEAL_NEW_DENOMS_ARRAY_SIZE_EXCESSIVE :: TALER_ErrorCode where "TALER_EC_REVEAL_NEW_DENOMS_ARRAY_SIZE_EXCESSIVE \<equiv> 1377"

abbreviation (input) TALER_EC_REVEAL_NEW_DENOMS_ARRAY_SIZE_MISMATCH :: TALER_ErrorCode where "TALER_EC_REVEAL_NEW_DENOMS_ARRAY_SIZE_MISMATCH \<equiv> 1378"

abbreviation (input) TALER_EC_REVEAL_SESSION_UNKNOWN :: TALER_ErrorCode where "TALER_EC_REVEAL_SESSION_UNKNOWN \<equiv> 1372"

abbreviation (input) TALER_EC_REVEAL_SIGNING_ERROR :: TALER_ErrorCode where "TALER_EC_REVEAL_SIGNING_ERROR \<equiv> 1371"

end
