(* ===== verification/Transaction_Runner.thy ===== *)
theory Transaction_Runner
  imports Coin_Updates Replies
begin

text \<open>
  \<^verbatim>\<open>src/exchange/taler-exchange-httpd_db.c\<close>: running a database transaction for a request, with up
  to \<^verbatim>\<open>MAX_TRANSACTION_COMMIT_RETRIES\<close> attempts. A callback gets its context and the session and yields a
  status, the reply it queued, and the context and session afterwards. What the comments demand of
  a callback is the locale \<open>db_transaction_aborting\<close>, in which a callback may abort on some tables;
  \<open>db_transaction\<close> is the case of a callback that never does, and that a hard error comes with a reply is the
  extension \<open>db_transaction_replying\<close>. What the runner then guarantees is proved once in the
  locales.
\<close>

section \<open>The runner\<close>

type_synonym ('c, 'a, 'db) transaction =
  "'c \<Rightarrow> 'db session \<Rightarrow> ((int \<times> 'a reply option \<times> 'c) \<times> 'db session) option"

abbreviation (input) MAX_TRANSACTION_COMMIT_RETRIES :: nat where
  "MAX_TRANSACTION_COMMIT_RETRIES \<equiv> 100"

text \<open>The session of the thread: connecting may fail.\<close>

definition postgres_get_session :: "'db session \<Rightarrow> bool \<times> 'db session" where
  "postgres_get_session s = (let (x, s) = next_outcome s in (x \<noteq> PQ_HARD, s))"

text \<open>The loop, by the number of attempts that are left\<close>

fun run_attempts ::
    "nat \<Rightarrow> gnunet \<Rightarrow> string \<Rightarrow> ('c, 'a, 'db) transaction \<Rightarrow> ('c, 'a, 'db) transaction" where
  "run_attempts 0 g name cb cls s =
     Some ((GNUNET_SYSERR,
            Some (TALER_MHD_reply_with_error MHD_HTTP_INTERNAL_SERVER_ERROR TALER_EC_DB_COMMIT_FAILED_ON_RETRY),
            cls), s)"
| "run_attempts (Suc n) g name cb cls s = do {
     (ok, s) \<leftarrow> postgres_start name s;
     if ok \<noteq> GNUNET_OK
     then Some ((GNUNET_SYSERR,
                 Some (TALER_MHD_reply_with_error MHD_HTTP_INTERNAL_SERVER_ERROR TALER_EC_DB_START_FAILED),
                 cls), s)
     else do {
       ((qs, mhd_ret, cls), s) \<leftarrow> cb cls s;
       let s = (if 0 > qs then postgres_rollback s else s);
       if qs = GNUNET_DB_STATUS_HARD_ERROR then Some ((GNUNET_SYSERR, mhd_ret, cls), s)
       else do {
         (qs, s) \<leftarrow> (if 0 \<le> qs then postgres_commit g s else Some (qs, s));
         if qs = GNUNET_DB_STATUS_HARD_ERROR
         then Some ((GNUNET_SYSERR,
                     Some (TALER_MHD_reply_with_error MHD_HTTP_INTERNAL_SERVER_ERROR TALER_EC_DB_COMMIT_FAILED_HARD),
                     cls), s)
         else do {
           GNUNET_assert (mhd_ret = None);
           if 0 \<le> qs then Some ((GNUNET_OK, None, cls), s)
           else run_attempts n g name cb cls s
         }
       }
     }
   }"

definition TEH_DB_run_transaction ::
    "gnunet \<Rightarrow> string \<Rightarrow> ('c, 'a, 'db) transaction \<Rightarrow> ('c, 'a, 'db) transaction" where
  "TEH_DB_run_transaction g name cb cls s =
     (let (ok, s) = postgres_get_session s
      in if \<not> ok
         then Some ((GNUNET_SYSERR,
                     Some (TALER_MHD_reply_with_error MHD_HTTP_INTERNAL_SERVER_ERROR TALER_EC_DB_SETUP_FAILED),
                     cls), s)
         else run_attempts MAX_TRANSACTION_COMMIT_RETRIES g name cb cls s)"

text \<open>The transaction that makes a coin known, whose context is the coin\<close>

definition TEH_DB_know_coin_transaction :: "gnunet \<Rightarrow> (TALER_CoinPublicInfo, 'a, tables) transaction" where
  "TEH_DB_know_coin_transaction g coin s = do {
     (qs, s) \<leftarrow> postgres_ensure_coin_known g coin s;
     if qs = GNUNET_DB_STATUS_HARD_ERROR
     then Some ((GNUNET_DB_STATUS_HARD_ERROR,
                 Some (TALER_MHD_reply_with_error MHD_HTTP_INTERNAL_SERVER_ERROR TALER_EC_DB_COIN_HISTORY_STORE_ERROR),
                 coin), s)
     else Some ((qs, None, coin), s)
   }"

section \<open>Starting and ending transactions\<close>

text \<open>Between transactions a session is idle; \<open>in_fresh_tx\<close> is what a callback starts with, and
  \<open>tx_outcome\<close> is what a commit would make durable.\<close>

definition idle :: "'db session \<Rightarrow> bool" where
  "idle s \<longleftrightarrow> \<not> s_in_tx s \<and> \<not> s_failed s \<and> s_db s = s_committed s"

definition in_fresh_tx :: "'db session \<Rightarrow> bool" where
  "in_fresh_tx s \<longleftrightarrow> session_ok s \<and> s_in_tx s \<and> \<not> s_failed s \<and> s_db s = s_committed s"

definition tx_outcome :: "'db session \<Rightarrow> 'db" where
  "tx_outcome s = (if s_in_tx s \<and> \<not> s_failed s then s_db s else s_committed s)"

lemma idle_session_ok: "idle s \<Longrightarrow> session_ok s"
  by (simp add: idle_def session_ok_def)

lemma next_outcome_idle: "next_outcome s = (x, s') \<Longrightarrow> idle s \<Longrightarrow> idle s' \<and> s_committed s' = s_committed s"
  by (auto simp: idle_def dest!: next_outcome_unchanged simp: unchanged_def)

lemma get_session_idle:
  "postgres_get_session s = (ok, s') \<Longrightarrow> idle s \<Longrightarrow> idle s' \<and> s_committed s' = s_committed s"
  by (auto simp: postgres_get_session_def split: prod.splits dest: next_outcome_idle)

lemma exec_rollback_idle: "idle (exec_rollback s)" "s_committed (exec_rollback s) = s_committed s"
  using next_outcome_unchanged [of s]
  by (cases "next_outcome s"; simp add: exec_rollback_def end_transaction_def idle_def unchanged_def)+

lemma idle_name [simp]: "idle (s\<lparr>s_transaction_name := x\<rparr>) = idle s"
  by (simp add: idle_def)

lemma rollback_idle: "idle (postgres_rollback s)" "s_committed (postgres_rollback s) = s_committed s"
  by (simp_all add: postgres_rollback_def exec_rollback_idle)

lemma start_wp:
  assumes "idle s"
  shows "wp (postgres_start name s) (\<lambda>ok s'. s_committed s' = s_committed s \<and>
     (ok = GNUNET_OK \<and> in_fresh_tx s' \<or> ok \<noteq> GNUNET_OK \<and> idle s'))"
proof -
  have "idle (postgres_preflight s)" "s_committed (postgres_preflight s) = s_committed s"
    using assms exec_rollback_idle [of s] by (simp_all add: postgres_preflight_def)
  moreover obtain x s1 where n: "next_outcome (postgres_preflight s) = (x, s1)"
    by (cases "next_outcome (postgres_preflight s)")
  ultimately have "idle s1" "s_committed s1 = s_committed s"
    using next_outcome_idle [OF n] by auto
  with n show ?thesis
    by (simp add: postgres_start_def idle_def in_fresh_tx_def session_ok_def)
qed

lemma commit_wp:
  assumes "gnunet_ok g"
  shows "wp (postgres_commit g s) (\<lambda>qs s'. idle s' \<and>
     (qs = GNUNET_DB_STATUS_SUCCESS_NO_RESULTS \<and> s_committed s' = tx_outcome s
      \<or> (qs = GNUNET_DB_STATUS_SOFT_ERROR \<or> qs = GNUNET_DB_STATUS_HARD_ERROR) \<and> s_committed s' = s_committed s))"
proof -
  obtain x s1 where n: "next_outcome s = (x, s1)" by (cases "next_outcome s")
  have "unchanged s s1" "s_failed s1 = s_failed s" using next_outcome_unchanged [OF n] by auto
  with n assms show ?thesis
    by (auto simp: postgres_commit_def end_transaction_def idle_def tx_outcome_def gnunet_ok_def unchanged_def)
qed

section \<open>The contract of a callback\<close>

text \<open>\<open>Inv\<close> is what holds of the tables between transactions, \<open>Cls\<close> of the context; \<open>Post\<close>
  relates context and tables before the transaction to those after it, and \<open>Hard\<close> says which
  replies a hard error may come with, given the tables.\<close>

definition callback_ok ::
    "('db \<Rightarrow> bool) \<Rightarrow> ('c \<Rightarrow> bool) \<Rightarrow> ('c \<Rightarrow> 'db \<Rightarrow> 'c \<Rightarrow> 'db \<Rightarrow> bool) \<Rightarrow> ('db \<Rightarrow> 'a reply option \<Rightarrow> bool)
       \<Rightarrow> 'c \<Rightarrow> 'db \<Rightarrow> int \<times> 'a reply option \<times> 'c \<Rightarrow> 'db session \<Rightarrow> bool" where
  "callback_ok Inv Cls Post Hard c db = (\<lambda>(qs, mhd_ret, c') s'. s_committed s' = db \<and> Cls c' \<and>
     (qs = GNUNET_DB_STATUS_HARD_ERROR \<and> Hard db mhd_ret
      \<or> qs = GNUNET_DB_STATUS_SOFT_ERROR \<and> mhd_ret = None
      \<or> 0 \<le> qs \<and> mhd_ret = None \<and> Inv (tx_outcome s') \<and> Post c db c' (tx_outcome s')))"

text \<open>What the runner makes of it\<close>

definition run_ok ::
    "('db \<Rightarrow> bool) \<Rightarrow> ('c \<Rightarrow> bool) \<Rightarrow> ('c \<Rightarrow> 'db \<Rightarrow> 'c \<Rightarrow> 'db \<Rightarrow> bool) \<Rightarrow> ('db \<Rightarrow> 'a reply option \<Rightarrow> bool)
       \<Rightarrow> 'db \<Rightarrow> int \<times> 'a reply option \<times> 'c \<Rightarrow> 'db session \<Rightarrow> bool" where
  "run_ok Inv Cls Post Hard db = (\<lambda>(ret, mhd_ret, c') s'. idle s' \<and> Cls c' \<and> Inv (s_committed s') \<and>
     (ret = GNUNET_OK \<and> mhd_ret = None \<and> (\<exists>c. Cls c \<and> Post c db c' (s_committed s'))
      \<or> ret = GNUNET_SYSERR \<and> Hard db mhd_ret \<and> s_committed s' = db))"

text \<open>A callback may abort the process, but only if the tables are such that \<open>Abort\<close> holds.\<close>

locale db_transaction_aborting =
  fixes g :: gnunet
    and cb :: "('c, 'a, 'db) transaction"
    and Inv :: "'db \<Rightarrow> bool"
    and Cls :: "'c \<Rightarrow> bool"
    and Post :: "'c \<Rightarrow> 'db \<Rightarrow> 'c \<Rightarrow> 'db \<Rightarrow> bool"
    and Hard :: "'db \<Rightarrow> 'a reply option \<Rightarrow> bool"
    and Abort :: "'db \<Rightarrow> bool"
  assumes status: "Cls c \<Longrightarrow> gnunet_ok g"
    and error_reply: "Hard db (Some (TALER_MHD_reply_with_error hc ec))"
    and callback: "Cls c \<Longrightarrow> in_fresh_tx s \<Longrightarrow> Inv (s_db s) \<Longrightarrow>
      wpa (Abort (s_db s)) (cb c s) (callback_ok Inv Cls Post Hard c (s_db s))"
begin

text \<open>If the transaction succeeds, the committed state has made exactly the step of a callback; if not,
  it is unchanged. The runner itself never aborts.\<close>

lemma after_callback_wpa:
  assumes x: "callback_ok Inv Cls Post Hard c db (qs, mhd_ret, c') s" and "Inv db"
    and rest: "\<And>s'. idle s' \<Longrightarrow> s_committed s' = db \<Longrightarrow> Cls c' \<Longrightarrow> wpa b (k s') (run_ok Inv Cls Post Hard db)"
    and "Cls c"
  shows "wpa b (let s = (if 0 > qs then postgres_rollback s else s) in
       if qs = GNUNET_DB_STATUS_HARD_ERROR then Some ((GNUNET_SYSERR, mhd_ret, c'), s)
       else do {
         (qs, s) \<leftarrow> (if 0 \<le> qs then postgres_commit g s else Some (qs, s));
         if qs = GNUNET_DB_STATUS_HARD_ERROR
         then Some ((GNUNET_SYSERR, Some (TALER_MHD_reply_with_error hc ec), c'), s)
         else do {
           GNUNET_assert (mhd_ret = None);
           if 0 \<le> qs then Some ((GNUNET_OK, None, c'), s) else k s
         }
       }) (run_ok Inv Cls Post Hard db)"
proof (cases "0 \<le> qs")
  case False
  with x assms(2) rest [OF rollback_idle(1), of s] rollback_idle [of s] show ?thesis
    by (auto simp: callback_ok_def run_ok_def)
next
  case True
  then have c': "s_committed s = db" "Cls c'" "mhd_ret = None" "Inv (tx_outcome s)" "Post c db c' (tx_outcome s)"
    using x by (auto simp: callback_ok_def)
  have "wpa b (do { (qs, s) \<leftarrow> postgres_commit g s;
         if qs = - 2 then Some ((- 1, Some (TALER_MHD_reply_with_error hc ec), c'), s)
         else if 0 \<le> qs then Some ((1, None, c'), s) else k s }) (run_ok Inv Cls Post Hard db)"
    using c' assms(2,4) rest error_reply
    by (intro wpa_bindI [OF wpaI [OF commit_wp [OF status [OF \<open>Cls c\<close>]]]]) (auto simp: run_ok_def)
  with True show ?thesis
    unfolding c'(3) GNUNET_assert_bind simp_thms if_True by simp
qed

lemma run_attempts_wpa:
  assumes "Cls c" and "idle s" and "Inv (s_committed s)"
  shows "wpa (Abort (s_committed s)) (run_attempts n g name cb c s) (run_ok Inv Cls Post Hard (s_committed s))"
  using assms
proof (induction n arbitrary: c s)
  case (Suc n)
  show ?case
    unfolding run_attempts.simps
  proof (rule wpa_bindI [OF wpaI [OF start_wp [OF Suc.prems(2)]]], unfold prod.case, goal_cases)
    case (1 ok s1)
    show ?case
    proof (cases "ok = GNUNET_OK")
      case False
      with 1 Suc.prems error_reply show ?thesis by (auto simp: run_ok_def)
    next
      case True
      with 1 have s1: "in_fresh_tx s1" "s_committed s1 = s_committed s" by auto
      then have db: "s_db s1 = s_committed s" by (simp add: in_fresh_tx_def)
      have "wpa (Abort (s_committed s)) (cb c s1) (callback_ok Inv Cls Post Hard c (s_committed s))"
        using callback [OF Suc.prems(1) s1(1)] Suc.prems(3) db by simp
      then show ?thesis
        unfolding True simp_thms if_False
      proof (rule wpa_bindI, goal_cases)
        case (1 x s2)
        obtain qs mhd_ret c' where x: "x = (qs, mhd_ret, c')" by (cases x)
        have rest: "wpa (Abort (s_committed s)) (run_attempts n g name cb c' s') (run_ok Inv Cls Post Hard (s_committed s))"
          if "idle s'" "s_committed s' = s_committed s" "Cls c'" for s'
          using Suc.IH [OF that(3,1)] Suc.prems(3) that(2) by simp
        show ?case
          unfolding x prod.case
          by (rule after_callback_wpa [OF 1 [unfolded x] Suc.prems(3) rest Suc.prems(1)])
      qed
    qed
  qed
qed (simp add: run_ok_def error_reply)

lemma run_transaction_wpa:
  assumes "Cls c" and "idle s" and "Inv (s_committed s)"
  shows "wpa (Abort (s_committed s)) (TEH_DB_run_transaction g name cb c s) (run_ok Inv Cls Post Hard (s_committed s))"
proof -
  obtain ok s1 where n: "postgres_get_session s = (ok, s1)" by (cases "postgres_get_session s")
  with assms(2) have "idle s1" "s_committed s1 = s_committed s" by (auto dest: get_session_idle)
  with n assms error_reply run_attempts_wpa [OF assms(1) \<open>idle s1\<close>, of MAX_TRANSACTION_COMMIT_RETRIES name]
  show ?thesis by (simp add: TEH_DB_run_transaction_def run_ok_def)
qed

end

text \<open>Most callbacks never abort.\<close>

locale db_transaction =
  fixes g :: gnunet
    and cb :: "('c, 'a, 'db) transaction"
    and Inv :: "'db \<Rightarrow> bool"
    and Cls :: "'c \<Rightarrow> bool"
    and Post :: "'c \<Rightarrow> 'db \<Rightarrow> 'c \<Rightarrow> 'db \<Rightarrow> bool"
    and Hard :: "'db \<Rightarrow> 'a reply option \<Rightarrow> bool"
  assumes status: "Cls c \<Longrightarrow> gnunet_ok g"
    and error_reply: "Hard db (Some (TALER_MHD_reply_with_error hc ec))"
    and callback: "Cls c \<Longrightarrow> in_fresh_tx s \<Longrightarrow> Inv (s_db s) \<Longrightarrow>
      wp (cb c s) (callback_ok Inv Cls Post Hard c (s_db s))"

sublocale db_transaction \<subseteq> never: db_transaction_aborting g cb Inv Cls Post Hard "\<lambda>_. False"
  by unfold_locales (simp_all add: status error_reply callback)

context db_transaction
begin

lemma run_transaction_wp:
  assumes "Cls c" and "idle s" and "Inv (s_committed s)"
  shows "wp (TEH_DB_run_transaction g name cb c s) (run_ok Inv Cls Post Hard (s_committed s))"
  using never.run_transaction_wpa [OF assms] by simp

end

text \<open>The full contract: a hard error comes with a reply. Then a failed transaction has queued one.\<close>

locale db_transaction_replying = db_transaction +
  assumes replies: "Hard db mhd_ret \<Longrightarrow> mhd_ret \<noteq> None"
begin

lemma run_transaction_replies:
  assumes "Cls c" and "idle s" and "Inv (s_committed s)"
  shows "wp (TEH_DB_run_transaction g name cb c s) (\<lambda>(ret, mhd_ret, c') s'. ret = GNUNET_OK \<longleftrightarrow> mhd_ret = None)"
  by (rule wp_mono [OF run_transaction_wp [OF assms]]) (auto simp: run_ok_def dest: replies)

end

section \<open>Making a coin known\<close>

text \<open>Either the coin was known, whatever the denomination it was known under, or it is known now under
  the denomination of the request.\<close>

definition known_effect :: "TALER_CoinPublicInfo \<Rightarrow> tables \<Rightarrow> tables \<Rightarrow> bool" where
  "known_effect coin db db' \<longleftrightarrow> coin_known db (coin_pub coin) \<and> db' = db
     \<or> \<not> coin_known db (coin_pub coin) \<and> denom_known db (coin_denom_pub_hash coin)
       \<and> db' = add_known_coin (known_row coin) db"

definition error_replied :: "'a reply option \<Rightarrow> bool" where
  "error_replied mhd_ret \<longleftrightarrow> (\<exists>hc ec. mhd_ret = Some (TALER_MHD_reply_with_error hc ec))"

lemma error_replied_simps [simp]:
  "error_replied (Some (TALER_MHD_reply_with_error hc ec))" "\<not> error_replied None" "\<not> error_replied (Some (reply_ok hc x))"
  by (simp_all add: error_replied_def)

lemma known_effect_ok: "known_effect coin db db' \<Longrightarrow> db_ok db \<Longrightarrow> db_ok db'"
  by (auto simp: known_effect_def db_ok_def intro: coin_tables_ok_known)

lemma known_effect_known: "known_effect coin db db' \<Longrightarrow> coin_known db' (coin_pub coin)"
  by (auto simp: known_effect_def coin_known_def)

lemma tx_outcome_updated: "updated s db s' \<Longrightarrow> s_in_tx s \<Longrightarrow> tx_outcome s' = db"
  by (simp add: tx_outcome_def updated_def)

lemma tx_outcome_unchanged: "unchanged s s' \<Longrightarrow> s_db s = s_committed s \<Longrightarrow> tx_outcome s' = s_db s"
  by (simp add: tx_outcome_def unchanged_def)

lemma in_fresh_txD:
  assumes "in_fresh_tx s"
  shows "session_ok s" "s_in_tx s" "\<not> s_failed s" "s_committed s = s_db s"
  using assms by (simp_all add: in_fresh_tx_def)

lemma know_coin_callback:
  assumes "gnunet_ok g" and "in_fresh_tx s" and "db_ok (s_db s)"
  shows "wp (TEH_DB_know_coin_transaction g coin s) (callback_ok db_ok (\<lambda>c. c = coin \<and> gnunet_ok g)
    (\<lambda>c db c' db'. known_effect coin db db') (\<lambda>db. error_replied) coin (s_db s))"
  unfolding TEH_DB_know_coin_transaction_def
proof (rule wp_bindI [OF ensure_coin_known_wp [OF assms(1) in_fresh_txD(1) [OF assms(2)]]], goal_cases)
  case (1 qs s')
  note s = in_fresh_txD [OF assms(2)]
  have "known_effect coin (s_db s) (tx_outcome s')" if "0 \<le> qs"
    using 1 that s by (auto simp: known_effect_def tx_outcome_updated tx_outcome_unchanged)
  then have "0 \<le> qs \<Longrightarrow> known_effect coin (s_db s) (tx_outcome s') \<and> db_ok (tx_outcome s')"
    using known_effect_ok [OF _ assms(3)] by blast
  moreover have "s_committed s' = s_db s" "qs = - 2 \<or> qs = - 1 \<or> 0 \<le> qs"
    using 1 s by (auto simp: unchanged_def updated_def)
  ultimately show ?case
    using assms(1) by (auto simp: callback_ok_def)
qed

interpretation know_coin: db_transaction_replying g "TEH_DB_know_coin_transaction g" db_ok
    "\<lambda>c. c = coin \<and> gnunet_ok g" "\<lambda>c db c' db'. known_effect coin db db'" "\<lambda>db. error_replied"
    for g coin
proof unfold_locales
  fix c s assume "c = coin \<and> gnunet_ok g" "in_fresh_tx s" "db_ok (s_db s)"
  then show "wp (TEH_DB_know_coin_transaction g c s) (callback_ok db_ok (\<lambda>c. c = coin \<and> gnunet_ok g)
    (\<lambda>c db c' db'. known_effect coin db db') (\<lambda>db. error_replied) c (s_db s))"
    by (elim conjE) (hypsubst, rule know_coin_callback)
qed (auto simp: error_replied_def)

section \<open>Properties\<close>

text \<open>A callback that also counts how often it is called\<close>

definition counted :: "('c, 'a, 'db) transaction \<Rightarrow> ('c \<times> nat, 'a, 'db) transaction" where
  "counted cb = (\<lambda>(c, n) s. map_option (\<lambda>((qs, mhd_ret, c'), s'). ((qs, mhd_ret, c', Suc n), s')) (cb c s))"

definition same_run ::
    "nat \<Rightarrow> ((int \<times> 'a reply option \<times> 'c \<times> nat) \<times> 'db session) option
       \<Rightarrow> ((int \<times> 'a reply option \<times> 'c) \<times> 'db session) option \<Rightarrow> bool" where
  "same_run k x y \<longleftrightarrow> (case x of
      None \<Rightarrow> y = None
    | Some ((ret, mhd_ret, c, n), s) \<Rightarrow> y = Some ((ret, mhd_ret, c), s) \<and> n \<le> k)"

lemma same_run_bind:
  "(\<And>x. m = Some x \<Longrightarrow> same_run k (f x) (f' x)) \<Longrightarrow> same_run k (Option.bind m f) (Option.bind m f')"
  by (cases m) (simp_all add: same_run_def)

lemma same_run_counted:
  "(\<And>qs mhd_ret c' s'. cb c s = Some ((qs, mhd_ret, c'), s') \<Longrightarrow>
      same_run k (f ((qs, mhd_ret, c', Suc n), s')) (f' ((qs, mhd_ret, c'), s'))) \<Longrightarrow>
   same_run k (Option.bind (counted cb (c, n) s) f) (Option.bind (cb c s) f')"
  by (cases "cb c s") (auto simp: same_run_def counted_def)

lemma same_run_if:
  "(b \<Longrightarrow> same_run k x x') \<Longrightarrow> (\<not> b \<Longrightarrow> same_run k y y') \<Longrightarrow>
     same_run k (if b then x else y) (if b then x' else y')"
  by simp

lemma same_run_Some [simp]: "same_run k (Some ((ret, mhd_ret, c, n), s)) (Some ((ret, mhd_ret, c), s)) \<longleftrightarrow> n \<le> k"
  by (simp add: same_run_def)

lemma run_attempts_counted:
  "same_run (n + k) (run_attempts k g name (counted cb) (c, n) s) (run_attempts k g name cb c s)"
proof (induction k arbitrary: c n s)
  case (Suc k)
  have IH: "same_run (n + Suc k) (run_attempts k g name (counted cb) (c', Suc n) s') (run_attempts k g name cb c' s')"
    for c' s' using Suc.IH [of "Suc n"] by simp
  show ?case
    unfolding run_attempts.simps Let_def
  proof (rule same_run_bind, clarify, rule same_run_if, goal_cases)
    case (2 ok s1)
    show ?case
    proof (rule same_run_counted, unfold prod.case, rule same_run_if, goal_cases)
      case (2 qs mhd_ret c' s2)
      show ?case
        by (rule same_run_bind, clarify, intro same_run_if same_run_bind) (simp_all add: IH [simplified])
    qed simp
  qed simp
qed simp

text \<open>C34. A transaction is attempted a hundred times at most, however often the database reports
  a serialization failure: counting the calls of the callback changes nothing else, and the count
  is a hundred at most.\<close>

theorem run_transaction_attempts:
  "case TEH_DB_run_transaction g name (counted cb) (c, 0) s of
     None \<Rightarrow> TEH_DB_run_transaction g name cb c s = None
   | Some ((ret, mhd_ret, c', n), s') \<Rightarrow>
       TEH_DB_run_transaction g name cb c s = Some ((ret, mhd_ret, c'), s') \<and> n \<le> 100"
proof -
  obtain ok s1 where "postgres_get_session s = (ok, s1)" by (cases "postgres_get_session s")
  with run_attempts_counted [of 0 100 g name cb c s1] show ?thesis
    by (cases ok) (auto simp: TEH_DB_run_transaction_def same_run_def split: option.splits)
qed

text \<open>C33. Making a coin known is all or nothing, whatever errors the database reports: the run
  ends outside of any transaction, and either it succeeded without a reply, the coin is known
  and nothing else has changed, or it failed with a reply and nothing has changed at all. The
  integrity of the database is kept in both cases.\<close>

theorem know_coin_atomic:
  assumes "gnunet_ok g" and "idle s" and "db_ok (s_committed s)"
  shows "\<exists>ret mhd_ret s'. TEH_DB_run_transaction g name (TEH_DB_know_coin_transaction g) coin s
       = Some ((ret, mhd_ret, coin), s') \<and> idle s' \<and> db_ok (s_committed s') \<and>
     (ret = GNUNET_OK \<and> mhd_ret = None \<and> coin_known (s_committed s') (coin_pub coin)
        \<and> (s_committed s' = s_committed s \<or> s_committed s' = add_known_coin (known_row coin) (s_committed s))
      \<or> ret = GNUNET_SYSERR \<and> mhd_ret \<noteq> None \<and> s_committed s' = s_committed s)"
proof -
  have "coin = coin \<and> gnunet_ok g" using assms(1) by simp
  from know_coin.run_transaction_wp [OF this assms(2,3), of name]
  show ?thesis
    by (auto simp: wp_iff run_ok_def known_effect_def coin_known_def error_replied_def)
qed

definition sample_idle :: "tables \<Rightarrow> pq_outcome list \<Rightarrow> tables session" where
  "sample_idle db xs = \<lparr>s_db = db, s_committed = db, s_in_tx = False, s_failed = False,
     s_transaction_name = None, s_outcomes = xs, s_serial = 3\<rparr>"

lemma sample_idle [simp]: "idle (sample_idle db xs)" "s_committed (sample_idle db xs) = db" "s_db (sample_idle db xs) = db"
  "s_outcomes (sample_idle db xs) = xs"
  by (simp_all add: idle_def sample_idle_def)

theorem know_coin_atomic_witness:
  "\<exists>ret mhd_ret s'. TEH_DB_run_transaction sample_gnunet ''know coin'' (TEH_DB_know_coin_transaction sample_gnunet)
       \<lparr>coin_pub = 21, coin_denom_pub_hash = 7, coin_denom_sig = 28\<rparr> (sample_idle sample_db [PQ_RUN, PQ_RUN, PQ_RUN, PQ_SOFT])
       = Some ((ret, mhd_ret, \<lparr>coin_pub = 21, coin_denom_pub_hash = 7, coin_denom_sig = 28\<rparr>), s')
     \<and> (ret = GNUNET_OK \<longrightarrow> coin_known (s_committed s') 21)"
  using know_coin_atomic [OF sample_ok(1), of "sample_idle sample_db [PQ_RUN, PQ_RUN, PQ_RUN, PQ_SOFT]" "''know coin''"
      "\<lparr>coin_pub = 21, coin_denom_pub_hash = 7, coin_denom_sig = 28\<rparr> :: TALER_CoinPublicInfo"]
  by (auto simp: db_ok_def sample_db_ok sample_deposit_db_ok)

end
