(* ===== verification/Keystate.thy ===== *)
theory Keystate
  imports Replies Coin_Ledger
begin

text \<open>
  \<^verbatim>\<open>src/exchange/taler-exchange-httpd_keystate.c\<close>: finding the denomination key for a request and
  signing replies, and \<^verbatim>\<open>TALER_test_coin_valid\<close> of \<^verbatim>\<open>src/util/crypto.c\<close>. The
  cryptography of GNUnet and the clock are parameters, the record \<open>crypto\<close>; a signed message is a
  value with the fields of its packed struct.
\<close>

section \<open>Signed messages and cryptography\<close>

datatype signed_message =
    TALER_DepositRequestPS hash_code hash_code abs_time abs_time TALER_AmountNBO TALER_AmountNBO pub_key pub_key
  | TALER_DepositConfirmationPS hash_code hash_code abs_time abs_time TALER_AmountNBO pub_key pub_key
  | TALER_LinkDataPS hash_code pub_key pub_key hash_code
  | TALER_WithdrawRequestPS pub_key TALER_AmountNBO TALER_AmountNBO hash_code hash_code
  | TALER_RefreshMeltCoinAffirmationPS hash_code TALER_AmountNBO TALER_AmountNBO pub_key
  | TALER_RefreshMeltConfirmationPS hash_code u32
  | TALER_RefundRequestPS hash_code pub_key pub_key u64 TALER_AmountNBO TALER_AmountNBO
  | TALER_RefundConfirmationPS hash_code pub_key pub_key u64 TALER_AmountNBO TALER_AmountNBO
  | TALER_RecoupRequestPS pub_key hash_code blinding_key
  | TALER_RecoupConfirmationPS abs_time TALER_AmountNBO pub_key pub_key
  | TALER_RecoupRefreshConfirmationPS abs_time TALER_AmountNBO pub_key pub_key
  | TALER_ReserveCloseConfirmationPS abs_time TALER_AmountNBO TALER_AmountNBO pub_key hash_code nat
  | TALER_MasterWireDetailsPS hash_code
  | TALER_MasterWireDetailsPS_merchant hash_code

text \<open>What is read into a \<^verbatim>\<open>struct GNUNET_HashContext\<close>: the hash is a function of the sequence of these.\<close>

datatype hash_part =
    Hash_transfer_pub pub_key
  | Hash_rsa_public_key nat
  | Hash_coin_pub pub_key
  | Hash_amount TALER_AmountNBO
  | Hash_data string

record crypto =
  GNUNET_CRYPTO_eddsa_verify :: "signed_message \<Rightarrow> signature \<Rightarrow> pub_key \<Rightarrow> bool"
  GNUNET_CRYPTO_eddsa_sign :: "nat \<Rightarrow> signed_message \<Rightarrow> signature"
  GNUNET_CRYPTO_rsa_verify :: "hash_code \<Rightarrow> signature \<Rightarrow> nat \<Rightarrow> bool"
  GNUNET_CRYPTO_rsa_public_key_hash :: "nat \<Rightarrow> hash_code"
  GNUNET_CRYPTO_rsa_blind :: "hash_code \<Rightarrow> blinding_key \<Rightarrow> nat \<Rightarrow> string option"
  GNUNET_CRYPTO_rsa_sign_blinded :: "nat \<Rightarrow> string \<Rightarrow> signature option"
  GNUNET_CRYPTO_rsa_unblind :: "signature \<Rightarrow> blinding_key \<Rightarrow> nat \<Rightarrow> signature"
  GNUNET_CRYPTO_ecdhe_key_get_public :: "nat \<Rightarrow> pub_key"
  GNUNET_CRYPTO_eddsa_key_get_public :: "nat \<Rightarrow> pub_key"
  GNUNET_CRYPTO_ecdh_eddsa :: "nat \<Rightarrow> pub_key \<Rightarrow> nat option"
  GNUNET_CRYPTO_eddsa_ecdh :: "nat \<Rightarrow> pub_key \<Rightarrow> nat option"
  GNUNET_CRYPTO_kdf_planchet :: "u32 \<Rightarrow> nat \<Rightarrow> string \<Rightarrow> (nat \<times> blinding_key) option"
  GNUNET_CRYPTO_hash_context :: "hash_part list \<Rightarrow> hash_code"
  GNUNET_CRYPTO_hash_key :: "pub_key \<Rightarrow> hash_code"
  GNUNET_CRYPTO_hash_data :: "string \<Rightarrow> hash_code"
  GNUNET_CRYPTO_kdf :: "string \<Rightarrow> string \<Rightarrow> string list \<Rightarrow> hash_code"
  GNUNET_htonll :: "u64 \<Rightarrow> u64"
  GNUNET_ntohll :: "u64 \<Rightarrow> u64"

section \<open>Denomination keys\<close>

text \<open>\<^verbatim>\<open>struct TALER_DenominationKeyValidityPS\<close>; the times are those in host byte order.\<close>

record TALER_DenominationKeyValidityPS =
  dk_start :: abs_time
  dk_expire_withdraw :: abs_time
  dk_expire_deposit :: abs_time
  dk_expire_legal :: abs_time
  dk_value :: TALER_AmountNBO
  dk_fee_withdraw :: TALER_AmountNBO
  dk_fee_deposit :: TALER_AmountNBO
  dk_fee_refresh :: TALER_AmountNBO
  dk_fee_refund :: TALER_AmountNBO
  dk_denom_hash :: hash_code

record TALER_EXCHANGEDB_DenominationKey =
  denom_priv :: "nat option"
  denom_pub :: nat
  issue_properties :: TALER_DenominationKeyValidityPS

record TEH_KS_StateHandle =
  denomkey_map :: "hash_code \<Rightarrow> TALER_EXCHANGEDB_DenominationKey option"
  revoked_map :: "hash_code \<Rightarrow> TALER_EXCHANGEDB_DenominationKey option"
  signkey_pub :: pub_key
  signkey_priv :: nat

datatype TEH_KS_DenominationKeyUse =
    TEH_KS_DKU_WITHDRAW | TEH_KS_DKU_DEPOSIT | TEH_KS_DKU_RECOUP | TEH_KS_DKU_ZOMBIE

text \<open>The function reads the clock twice.\<close>

definition TEH_KS_denomination_key_lookup_by_hash ::
    "abs_time \<Rightarrow> abs_time \<Rightarrow> TEH_KS_StateHandle \<Rightarrow> hash_code \<Rightarrow> TEH_KS_DenominationKeyUse
       \<Rightarrow> TALER_ErrorCode \<times> nat + TALER_EXCHANGEDB_DenominationKey" where
  "TEH_KS_denomination_key_lookup_by_hash now now' key_state denom_pub_hash use =
     (let map = (if use = TEH_KS_DKU_RECOUP then revoked_map key_state else denomkey_map key_state);
          dki = map denom_pub_hash;
          dki = (if dki = None \<and> use = TEH_KS_DKU_ZOMBIE then revoked_map key_state denom_pub_hash else dki)
      in case dki of
           None \<Rightarrow>
             Inl (case use of
                    TEH_KS_DKU_RECOUP \<Rightarrow> TALER_EC_RECOUP_DENOMINATION_KEY_UNKNOWN
                  | TEH_KS_DKU_ZOMBIE \<Rightarrow> TALER_EC_REFRESH_RECOUP_DENOMINATION_KEY_NOT_FOUND
                  | TEH_KS_DKU_WITHDRAW \<Rightarrow> TALER_EC_WITHDRAW_DENOMINATION_KEY_NOT_FOUND
                  | TEH_KS_DKU_DEPOSIT \<Rightarrow> TALER_EC_DEPOSIT_DENOMINATION_KEY_UNKNOWN, MHD_HTTP_NOT_FOUND)
         | Some dki \<Rightarrow>
             (if now < dk_start (issue_properties dki)
              then Inl (case use of
                    TEH_KS_DKU_RECOUP \<Rightarrow> TALER_EC_RECOUP_DENOMINATION_VALIDITY_IN_FUTURE
                  | TEH_KS_DKU_ZOMBIE \<Rightarrow> TALER_EC_REFRESH_RECOUP_DENOMINATION_VALIDITY_IN_FUTURE
                  | TEH_KS_DKU_WITHDRAW \<Rightarrow> TALER_EC_WITHDRAW_VALIDITY_IN_FUTURE
                  | TEH_KS_DKU_DEPOSIT \<Rightarrow> TALER_EC_DEPOSIT_DENOMINATION_VALIDITY_IN_FUTURE,
                    MHD_HTTP_PRECONDITION_FAILED)
              else (case use of
                    TEH_KS_DKU_WITHDRAW \<Rightarrow>
                      (if now' > dk_expire_withdraw (issue_properties dki)
                       then Inl (TALER_EC_WITHDRAW_VALIDITY_IN_PAST, MHD_HTTP_GONE)
                       else if denom_priv dki = None
                       then Inl (TALER_EC_DENOMINATION_KEY_LOST, MHD_HTTP_SERVICE_UNAVAILABLE)
                       else Inr dki)
                  | TEH_KS_DKU_DEPOSIT \<Rightarrow>
                      (if now' > dk_expire_deposit (issue_properties dki)
                       then Inl (TALER_EC_DEPOSIT_DENOMINATION_EXPIRED, MHD_HTTP_GONE) else Inr dki)
                  | TEH_KS_DKU_RECOUP \<Rightarrow>
                      (if now' > dk_expire_deposit (issue_properties dki)
                       then Inl (TALER_EC_REFRESH_RECOUP_DENOMINATION_EXPIRED, MHD_HTTP_GONE) else Inr dki)
                  | TEH_KS_DKU_ZOMBIE \<Rightarrow>
                      (if now' > dk_expire_legal (issue_properties dki)
                       then Inl (TALER_EC_REFRESH_ZOMBIE_DENOMINATION_EXPIRED, MHD_HTTP_GONE) else Inr dki))))"

section \<open>Signing and verifying\<close>

text \<open>The first argument is what \<^verbatim>\<open>TEH_KS_acquire\<close> returns.\<close>

definition TEH_KS_sign ::
    "crypto \<Rightarrow> TEH_KS_StateHandle option \<Rightarrow> signed_message \<Rightarrow> (pub_key \<times> signature) option" where
  "TEH_KS_sign cr key_state msg = (case key_state of
      None \<Rightarrow> None
    | Some ks \<Rightarrow> Some (signkey_pub ks, GNUNET_CRYPTO_eddsa_sign cr (signkey_priv ks) msg))"

text \<open>With \<^verbatim>\<open>ENABLE_SANITY_CHECKS\<close>, as set in \<^verbatim>\<open>src/include/platform.h\<close>, the hash of the public
  key is asserted.\<close>

definition TALER_test_coin_valid :: "crypto \<Rightarrow> TALER_CoinPublicInfo \<Rightarrow> nat \<Rightarrow> int option" where
  "TALER_test_coin_valid cr coin pub = do {
     GNUNET_assert (GNUNET_CRYPTO_rsa_public_key_hash cr pub = coin_denom_pub_hash coin);
     if \<not> GNUNET_CRYPTO_rsa_verify cr (GNUNET_CRYPTO_hash_key cr (coin_pub coin)) (coin_denom_sig coin) pub
     then Some GNUNET_NO
     else Some GNUNET_YES
   }"

section \<open>What a lookup guarantees\<close>

text \<open>The map a use looks into and the time it ends, as the comments of the header file have them\<close>

definition denomination_key_for ::
    "TEH_KS_StateHandle \<Rightarrow> TEH_KS_DenominationKeyUse \<Rightarrow> hash_code \<Rightarrow> TALER_EXCHANGEDB_DenominationKey option" where
  "denomination_key_for ks use h = (case use of
      TEH_KS_DKU_RECOUP \<Rightarrow> revoked_map ks h
    | TEH_KS_DKU_ZOMBIE \<Rightarrow> (case denomkey_map ks h of None \<Rightarrow> revoked_map ks h | Some d \<Rightarrow> Some d)
    | _ \<Rightarrow> denomkey_map ks h)"

definition expiration_for :: "TEH_KS_DenominationKeyUse \<Rightarrow> TALER_DenominationKeyValidityPS \<Rightarrow> abs_time" where
  "expiration_for use p = (case use of
      TEH_KS_DKU_WITHDRAW \<Rightarrow> dk_expire_withdraw p
    | TEH_KS_DKU_ZOMBIE \<Rightarrow> dk_expire_legal p
    | _ \<Rightarrow> dk_expire_deposit p)"

text \<open>A denomination key is handed out only for the uses its validity allows: never before its start,
  for withdrawals only until the end of the withdraw period, with the private key and if it is not
  revoked only, for deposits only until the deposit expiration and if it is not revoked, for recoups
  only if it is revoked and before the deposit expiration, and for zombie coins until the legal
  expiration. An unknown key is reported as not found.\<close>

theorem lookup_by_hash_valid:
  "(TEH_KS_denomination_key_lookup_by_hash now now' ks h use = Inr dki \<longleftrightarrow>
      denomination_key_for ks use h = Some dki
      \<and> dk_start (issue_properties dki) \<le> now \<and> now' \<le> expiration_for use (issue_properties dki)
      \<and> (use = TEH_KS_DKU_WITHDRAW \<longrightarrow> denom_priv dki \<noteq> None))
   \<and> ((\<exists>ec. TEH_KS_denomination_key_lookup_by_hash now now' ks h use = Inl (ec, MHD_HTTP_NOT_FOUND)) \<longleftrightarrow>
      denomination_key_for ks use h = None)"
  by (cases use)
    (auto simp: TEH_KS_denomination_key_lookup_by_hash_def denomination_key_for_def expiration_for_def Let_def
      not_less not_le split: option.splits)

definition sample_crypto :: crypto where
  "sample_crypto = \<lparr>GNUNET_CRYPTO_eddsa_verify = (\<lambda>m s p. s = p), GNUNET_CRYPTO_eddsa_sign = (\<lambda>k m. k),
     GNUNET_CRYPTO_rsa_verify = (\<lambda>h s p. s = h + p), GNUNET_CRYPTO_rsa_public_key_hash = id,
     GNUNET_CRYPTO_rsa_blind = (\<lambda>h b p. Some (replicate (h + b + p) NUL)),
     GNUNET_CRYPTO_rsa_sign_blinded = (\<lambda>k m. Some (k + length m)), GNUNET_CRYPTO_rsa_unblind = (\<lambda>s b p. s - b - 9),
     GNUNET_CRYPTO_ecdhe_key_get_public = id, GNUNET_CRYPTO_eddsa_key_get_public = id,
     GNUNET_CRYPTO_ecdh_eddsa = (\<lambda>k p. Some (k + p)), GNUNET_CRYPTO_eddsa_ecdh = (\<lambda>k p. Some (p + k)),
     GNUNET_CRYPTO_kdf_planchet = (\<lambda>i t c. Some (t + unat i, t)), GNUNET_CRYPTO_hash_context = length,
     GNUNET_CRYPTO_hash_key = id,
     GNUNET_CRYPTO_hash_data = length,
     GNUNET_CRYPTO_kdf = (\<lambda>salt skm ctx. length salt + length skm), GNUNET_htonll = id, GNUNET_ntohll = id\<rparr>"

definition sample_nbo :: "u64 \<Rightarrow> TALER_AmountNBO" where
  "sample_nbo v = \<lparr>nbo_value = v, nbo_fraction = 0, nbo_currency = ''EUR'' @ replicate 9 NUL\<rparr>"

definition sample_denomination :: TALER_EXCHANGEDB_DenominationKey where
  "sample_denomination = \<lparr>denom_priv = Some 9, denom_pub = 7, issue_properties =
     \<lparr>dk_start = 100, dk_expire_withdraw = 500, dk_expire_deposit = 600, dk_expire_legal = 700,
      dk_value = sample_nbo 5, dk_fee_withdraw = sample_nbo 1, dk_fee_deposit = sample_nbo 1,
      dk_fee_refresh = sample_nbo 1, dk_fee_refund = sample_nbo 1, dk_denom_hash = 7\<rparr>\<rparr>"

definition sample_keys :: TEH_KS_StateHandle where
  "sample_keys = \<lparr>denomkey_map = Map.empty(7 \<mapsto> sample_denomination), revoked_map = Map.empty,
     signkey_pub = 4, signkey_priv = 4\<rparr>"

theorem lookup_by_hash_valid_witness:
  "TEH_KS_denomination_key_lookup_by_hash 150 150 sample_keys 7 TEH_KS_DKU_WITHDRAW = Inr sample_denomination
   \<and> TEH_KS_denomination_key_lookup_by_hash 150 550 sample_keys 7 TEH_KS_DKU_WITHDRAW \<noteq> Inr sample_denomination"
  using lookup_by_hash_valid [of 150 150 sample_keys 7 TEH_KS_DKU_WITHDRAW sample_denomination]
    lookup_by_hash_valid [of 150 550 sample_keys 7 TEH_KS_DKU_WITHDRAW sample_denomination]
  by (simp add: sample_keys_def sample_denomination_def denomination_key_for_def expiration_for_def)

lemma lookup_InrD:
  assumes "TEH_KS_denomination_key_lookup_by_hash now now' ks h use = Inr dki"
  shows "(use = TEH_KS_DKU_WITHDRAW \<or> use = TEH_KS_DKU_DEPOSIT \<longrightarrow> denomkey_map ks h = Some dki)
     \<and> (use = TEH_KS_DKU_RECOUP \<longrightarrow> revoked_map ks h = Some dki)
     \<and> (denomkey_map ks h = Some dki \<or> revoked_map ks h = Some dki)
     \<and> (use = TEH_KS_DKU_WITHDRAW \<longrightarrow> denom_priv dki \<noteq> None)"
  using assms
  by (cases use) (auto simp: TEH_KS_denomination_key_lookup_by_hash_def Let_def split: option.splits if_splits)

end
