(* ===== verification/Responses.thy ===== *)
theory Responses
  imports Keystate
begin

text \<open>
  \<^verbatim>\<open>src/exchange/taler-exchange-httpd_responses.c\<close>: the histories that are sent to a client as a proof
  that funds are insufficient. A JSON object is a value of the datatypes below. The outer option of
  a result is the abort of an assertion, the inner one the result \<^verbatim>\<open>NULL\<close>; running out of memory
  is not modelled.
\<close>

section \<open>The history of a coin\<close>

datatype coin_json =
    J_DEPOSIT TALER_Amount TALER_Amount abs_time abs_time pub_key hash_code hash_code signature
  | J_MELT TALER_Amount TALER_Amount hash_code signature
  | J_REFUND TALER_Amount TALER_Amount hash_code pub_key u64 signature
  | J_OLD_COIN_RECOUP TALER_Amount signature pub_key pub_key abs_time
  | J_COIN_RECOUP TALER_Amount signature pub_key pub_key abs_time
  | J_RECOUP_REFRESH TALER_Amount signature pub_key pub_key abs_time

definition compile_coin_deposit ::
    "crypto \<Rightarrow> pub_key \<Rightarrow> TALER_EXCHANGEDB_DepositListEntry \<Rightarrow> coin_json option option" where
  [simp]: "compile_coin_deposit cr coin d = do {
     amount_with_fee \<leftarrow> TALER_amount_hton (GNUNET_htonll cr) (dle_amount_with_fee d);
     deposit_fee \<leftarrow> TALER_amount_hton (GNUNET_htonll cr) (dle_deposit_fee d);
     let dr = TALER_DepositRequestPS (dle_h_contract_terms d) (dle_h_wire d) (dle_timestamp d)
                (dle_refund_deadline d) amount_with_fee deposit_fee (dle_merchant_pub d) coin;
     Some (if \<not> GNUNET_CRYPTO_eddsa_verify cr dr (dle_csig d) coin then None
           else Some (J_DEPOSIT (dle_amount_with_fee d) (dle_deposit_fee d) (dle_timestamp d)
                        (dle_refund_deadline d) (dle_merchant_pub d) (dle_h_contract_terms d)
                        (dle_h_wire d) (dle_csig d)))
   }"

definition compile_coin_melt ::
    "crypto \<Rightarrow> pub_key \<Rightarrow> TALER_EXCHANGEDB_MeltListEntry \<Rightarrow> coin_json option option" where
  [simp]: "compile_coin_melt cr coin m = do {
     amount_with_fee \<leftarrow> TALER_amount_hton (GNUNET_htonll cr) (mle_amount_with_fee m);
     melt_fee \<leftarrow> TALER_amount_hton (GNUNET_htonll cr) (mle_melt_fee m);
     let ms = TALER_RefreshMeltCoinAffirmationPS (mle_rc m) amount_with_fee melt_fee coin;
     Some (if \<not> GNUNET_CRYPTO_eddsa_verify cr ms (mle_coin_sig m) coin then None
           else Some (J_MELT (mle_amount_with_fee m) (mle_melt_fee m) (mle_rc m) (mle_coin_sig m)))
   }"

definition compile_coin_refund ::
    "crypto \<Rightarrow> pub_key \<Rightarrow> TALER_EXCHANGEDB_RefundListEntry \<Rightarrow> coin_json option option" where
  [simp]: "compile_coin_refund cr coin d = do {
     refund_amount \<leftarrow> TALER_amount_hton (GNUNET_htonll cr) (rle_refund_amount d);
     refund_fee \<leftarrow> TALER_amount_hton (GNUNET_htonll cr) (rle_refund_fee d);
     let rr = TALER_RefundRequestPS (rle_h_contract_terms d) coin (rle_merchant_pub d)
                (rle_rtransaction_id d) refund_amount refund_fee;
     if \<not> GNUNET_CRYPTO_eddsa_verify cr rr (rle_merchant_sig d) (rle_merchant_pub d) then Some None
     else do {
       (r, value) \<leftarrow> TALER_amount_subtract invalidate (rle_refund_amount d) (rle_refund_fee d);
       Some (if 0 > r then None
             else Some (J_REFUND value (rle_refund_fee d) (rle_h_contract_terms d) (rle_merchant_pub d)
                          (rle_rtransaction_id d) (rle_merchant_sig d)))
     }
   }"

definition compile_old_coin_recoup ::
    "crypto \<Rightarrow> TEH_KS_StateHandle option \<Rightarrow> pub_key \<Rightarrow> TALER_EXCHANGEDB_RecoupRefreshListEntry \<Rightarrow> coin_json option option" where
  [simp]: "compile_old_coin_recoup cr ks coin p = do {
     recoup_amount \<leftarrow> TALER_amount_hton (GNUNET_htonll cr) (rrl_value p);
     Some (case TEH_KS_sign cr ks (TALER_RecoupRefreshConfirmationPS (rrl_timestamp p) recoup_amount coin
                                     (rrl_old_coin_pub p)) of
             None \<Rightarrow> None
           | Some (epub, esig) \<Rightarrow>
               Some (J_OLD_COIN_RECOUP (rrl_value p) esig epub (coin_pub (rrl_coin p)) (rrl_timestamp p)))
   }"

definition compile_coin_recoup ::
    "crypto \<Rightarrow> TEH_KS_StateHandle option \<Rightarrow> pub_key \<Rightarrow> TALER_EXCHANGEDB_RecoupListEntry \<Rightarrow> coin_json option option" where
  [simp]: "compile_coin_recoup cr ks coin p = do {
     recoup_amount \<leftarrow> TALER_amount_hton (GNUNET_htonll cr) (recl_value p);
     Some (case TEH_KS_sign cr ks (TALER_RecoupConfirmationPS (recl_timestamp p) recoup_amount coin
                                     (recl_reserve_pub p)) of
             None \<Rightarrow> None
           | Some (epub, esig) \<Rightarrow>
               Some (J_COIN_RECOUP (recl_value p) esig epub (recl_reserve_pub p) (recl_timestamp p)))
   }"

definition compile_coin_recoup_refresh ::
    "crypto \<Rightarrow> TEH_KS_StateHandle option \<Rightarrow> pub_key \<Rightarrow> TALER_EXCHANGEDB_RecoupRefreshListEntry \<Rightarrow> coin_json option option" where
  [simp]: "compile_coin_recoup_refresh cr ks coin p = do {
     recoup_amount \<leftarrow> TALER_amount_hton (GNUNET_htonll cr) (rrl_value p);
     Some (case TEH_KS_sign cr ks (TALER_RecoupRefreshConfirmationPS (rrl_timestamp p) recoup_amount coin
                                     (rrl_old_coin_pub p)) of
             None \<Rightarrow> None
           | Some (epub, esig) \<Rightarrow>
               Some (J_RECOUP_REFRESH (rrl_value p) esig epub (rrl_old_coin_pub p) (rrl_timestamp p)))
   }"

fun compile_coin_entry ::
    "crypto \<Rightarrow> TEH_KS_StateHandle option \<Rightarrow> pub_key \<Rightarrow> TALER_EXCHANGEDB_TransactionDetails
       \<Rightarrow> coin_json option option" where
  "compile_coin_entry cr ks coin (TALER_EXCHANGEDB_TT_DEPOSIT d) = compile_coin_deposit cr coin d"
| "compile_coin_entry cr ks coin (TALER_EXCHANGEDB_TT_MELT m) = compile_coin_melt cr coin m"
| "compile_coin_entry cr ks coin (TALER_EXCHANGEDB_TT_REFUND d) = compile_coin_refund cr coin d"
| "compile_coin_entry cr ks coin (TALER_EXCHANGEDB_TT_OLD_COIN_RECOUP p) = compile_old_coin_recoup cr ks coin p"
| "compile_coin_entry cr ks coin (TALER_EXCHANGEDB_TT_RECOUP p) = compile_coin_recoup cr ks coin p"
| "compile_coin_entry cr ks coin (TALER_EXCHANGEDB_TT_RECOUP_REFRESH p) = compile_coin_recoup_refresh cr ks coin p"

fun TEH_RESPONSE_compile_transaction_history ::
    "crypto \<Rightarrow> TEH_KS_StateHandle option \<Rightarrow> pub_key \<Rightarrow> TALER_EXCHANGEDB_TransactionList list
       \<Rightarrow> coin_json list option option" where
  "TEH_RESPONSE_compile_transaction_history cr ks coin [] = Some (Some [])"
| "TEH_RESPONSE_compile_transaction_history cr ks coin (pos # rest) = do {
     e \<leftarrow> compile_coin_entry cr ks coin (tl_details pos);
     case e of
       None \<Rightarrow> Some None
     | Some j \<Rightarrow> do {
         h \<leftarrow> TEH_RESPONSE_compile_transaction_history cr ks coin rest;
         Some (map_option (\<lambda>js. j # js) h)
       }
   }"

section \<open>The history of a reserve\<close>

datatype reserve_json =
    J_CREDIT abs_time string u64 TALER_Amount
  | J_WITHDRAW signature hash_code hash_code TALER_Amount TALER_Amount
  | J_RESERVE_RECOUP pub_key signature abs_time TALER_Amount pub_key
  | J_CLOSING string nat pub_key signature abs_time TALER_Amount TALER_Amount

text \<open>A total that is initialised by the first amount and added to by the others\<close>

definition total_add ::
    "TALER_Amount option \<Rightarrow> TALER_Amount \<Rightarrow> (int \<times> TALER_Amount option) option" where
  "total_add old a = (case old of
      None \<Rightarrow> Some (0, Some a)
    | Some t \<Rightarrow> do { (r, t) \<leftarrow> TALER_amount_add t a; Some (r, Some t) })"

definition compile_bank_to_exchange ::
    "TALER_EXCHANGEDB_BankTransfer \<Rightarrow> TALER_Amount option \<Rightarrow> TALER_Amount option
       \<Rightarrow> (reserve_json \<times> TALER_Amount option \<times> TALER_Amount option) option option" where
  [simp]: "compile_bank_to_exchange bank credit withdraw = do {
     (r, credit) \<leftarrow> total_add credit (bt_amount bank);
     Some (if 0 > r then None
           else Some (J_CREDIT (bt_execution_date bank) (bt_sender_account_details bank) (bt_wire_reference bank)
                        (bt_amount bank), credit, withdraw))
   }"

definition compile_withdraw_coin ::
    "TALER_EXCHANGEDB_CollectableBlindcoin \<Rightarrow> TALER_Amount option \<Rightarrow> TALER_Amount option
       \<Rightarrow> (reserve_json \<times> TALER_Amount option \<times> TALER_Amount option) option option" where
  [simp]: "compile_withdraw_coin w credit withdraw = do {
     (r, withdraw) \<leftarrow> total_add withdraw (cb_amount_with_fee w);
     Some (if 0 > r then None
           else Some (J_WITHDRAW (cb_reserve_sig w) (cb_h_coin_envelope w) (cb_denom_pub_hash w)
                        (cb_withdraw_fee w) (cb_amount_with_fee w), credit, withdraw))
   }"

definition compile_recoup_coin ::
    "crypto \<Rightarrow> TEH_KS_StateHandle option \<Rightarrow> TALER_EXCHANGEDB_Recoup \<Rightarrow> TALER_Amount option \<Rightarrow> TALER_Amount option
       \<Rightarrow> (reserve_json \<times> TALER_Amount option \<times> TALER_Amount option) option option" where
  [simp]: "compile_recoup_coin cr ks p credit withdraw = do {
     (r, credit) \<leftarrow> total_add credit (rec_value p);
     if 0 > r then Some None
     else do {
       recoup_amount \<leftarrow> TALER_amount_hton (GNUNET_htonll cr) (rec_value p);
       Some (case TEH_KS_sign cr ks (TALER_RecoupConfirmationPS (rec_timestamp p) recoup_amount
                                       (coin_pub (rec_coin p)) (rec_reserve_pub p)) of
               None \<Rightarrow> None
             | Some (pub, sig) \<Rightarrow>
                 Some (J_RESERVE_RECOUP pub sig (rec_timestamp p) (rec_value p) (coin_pub (rec_coin p)),
                       credit, withdraw))
     }
   }"

definition compile_exchange_to_bank ::
    "crypto \<Rightarrow> TEH_KS_StateHandle option \<Rightarrow> TALER_EXCHANGEDB_ClosingTransfer \<Rightarrow> TALER_Amount option \<Rightarrow> TALER_Amount option
       \<Rightarrow> (reserve_json \<times> TALER_Amount option \<times> TALER_Amount option) option option" where
  [simp]: "compile_exchange_to_bank cr ks c credit withdraw = do {
     (r, withdraw) \<leftarrow> total_add withdraw (ct_amount c);
     if 0 > r then Some None
     else do {
       closing_amount \<leftarrow> TALER_amount_hton (GNUNET_htonll cr) (ct_amount c);
       closing_fee \<leftarrow> TALER_amount_hton (GNUNET_htonll cr) (ct_closing_fee c);
       Some (case TEH_KS_sign cr ks (TALER_ReserveCloseConfirmationPS (ct_execution_date c) closing_amount
                 closing_fee (ct_reserve_pub c)
                 (GNUNET_CRYPTO_hash_data cr (ct_receiver_account_details c @ [NUL])) (ct_wtid c)) of
               None \<Rightarrow> None
             | Some (pub, sig) \<Rightarrow>
                 Some (J_CLOSING (ct_receiver_account_details c) (ct_wtid c) pub sig (ct_execution_date c)
                         (ct_amount c) (ct_closing_fee c), credit, withdraw))
     }
   }"

fun compile_reserve_entry ::
    "crypto \<Rightarrow> TEH_KS_StateHandle option \<Rightarrow> TALER_EXCHANGEDB_ReserveHistory
       \<Rightarrow> TALER_Amount option \<times> TALER_Amount option
       \<Rightarrow> (reserve_json \<times> TALER_Amount option \<times> TALER_Amount option) option option" where
  "compile_reserve_entry cr ks (TALER_EXCHANGEDB_RO_BANK_TO_EXCHANGE bank) (credit, withdraw) = compile_bank_to_exchange bank credit withdraw"
| "compile_reserve_entry cr ks (TALER_EXCHANGEDB_RO_WITHDRAW_COIN w) (credit, withdraw) = compile_withdraw_coin w credit withdraw"
| "compile_reserve_entry cr ks (TALER_EXCHANGEDB_RO_RECOUP_COIN p) (credit, withdraw) = compile_recoup_coin cr ks p credit withdraw"
| "compile_reserve_entry cr ks (TALER_EXCHANGEDB_RO_EXCHANGE_TO_BANK c) (credit, withdraw) = compile_exchange_to_bank cr ks c credit withdraw"

fun compile_reserve_loop ::
    "crypto \<Rightarrow> TEH_KS_StateHandle option \<Rightarrow> TALER_EXCHANGEDB_ReserveHistory list
       \<Rightarrow> TALER_Amount option \<times> TALER_Amount option
       \<Rightarrow> (reserve_json list \<times> TALER_Amount option \<times> TALER_Amount option) option option" where
  "compile_reserve_loop cr ks [] t = Some (Some ([], t))"
| "compile_reserve_loop cr ks (pos # rest) t = do {
     e \<leftarrow> compile_reserve_entry cr ks pos t;
     case e of
       None \<Rightarrow> Some None
     | Some (j, t) \<Rightarrow> do {
         h \<leftarrow> compile_reserve_loop cr ks rest t;
         Some (map_option (\<lambda>(js, t). (j # js, t)) h)
       }
   }"

definition TEH_RESPONSE_compile_reserve_history ::
    "crypto \<Rightarrow> TEH_KS_StateHandle option \<Rightarrow> TALER_EXCHANGEDB_ReserveHistory list
       \<Rightarrow> (reserve_json list \<times> TALER_Amount) option option" where
  "TEH_RESPONSE_compile_reserve_history cr ks rh = do {
     h \<leftarrow> compile_reserve_loop cr ks rh (None, None);
     case h of
       None \<Rightarrow> Some None
     | Some (js, None, withdraw) \<Rightarrow> Some None
     | Some (js, Some credit_total, withdraw) \<Rightarrow> do {
         withdraw_total \<leftarrow> (case withdraw of
            Some w \<Rightarrow> Some w
          | None \<Rightarrow> do {
              let (r, z) = TALER_amount_get_zero (amt_currency credit_total) invalidate;
              GNUNET_assert (r = GNUNET_OK);
              Some z
            });
         (r, balance) \<leftarrow> TALER_amount_subtract invalidate credit_total withdraw_total;
         Some (if 0 > r then None else Some (js, balance))
       }
   }"

section \<open>The replies of the handlers\<close>

datatype exchange_reply =
    insufficient_funds TALER_ErrorCode "coin_json list"
  | melt_insufficient_funds TALER_ErrorCode pub_key TALER_Amount TALER_Amount TALER_Amount "coin_json list"
  | withdraw_insufficient_funds TALER_ErrorCode TALER_Amount "reserve_json list"
  | refund_conflict TALER_ErrorCode "coin_json list option"
  | DEPOSIT_OK signature pub_key
  | MELT_OK u32 signature pub_key
  | REFUND_OK signature pub_key
  | WITHDRAW_OK signature
  | RECOUP_OK pub_key bool
  | REVEAL_OK "signature list"
  | reveal_commitment_violation TALER_ErrorCode hash_code

definition TEH_RESPONSE_reply_coin_insufficient_funds ::
    "crypto \<Rightarrow> TEH_KS_StateHandle option \<Rightarrow> TALER_ErrorCode \<Rightarrow> pub_key \<Rightarrow> TALER_EXCHANGEDB_TransactionList list
       \<Rightarrow> exchange_reply reply option" where
  "TEH_RESPONSE_reply_coin_insufficient_funds cr ks ec coin txs = do {
     history \<leftarrow> TEH_RESPONSE_compile_transaction_history cr ks coin txs;
     Some (case history of
             None \<Rightarrow> TALER_MHD_reply_with_error MHD_HTTP_INTERNAL_SERVER_ERROR
                       TALER_EC_COIN_HISTORY_DB_ERROR_INSUFFICIENT_FUNDS
           | Some h \<Rightarrow> reply_ok MHD_HTTP_CONFLICT (insufficient_funds ec h))
   }"

section \<open>Compiling a coin history does not abort\<close>

lemma hton_in: "amount_in c a \<Longrightarrow> \<exists>n. TALER_amount_hton h a = Some n"
  by (simp add: TALER_amount_hton_def amount_in_def amount_wf_def)

lemma subtract_in_Some: "amount_in c a \<Longrightarrow> amount_in c b \<Longrightarrow> \<exists>r s. TALER_amount_subtract d a b = Some (r, s)"
  using amount_subtract_wp [of c a b d] by (auto simp: wp_iff)

lemma compile_coin_entry_total:
  assumes "tl_amounts_in c e"
  shows "\<exists>x. compile_coin_entry cr ks coin e = Some x"
proof (cases e)
  case (TALER_EXCHANGEDB_TT_REFUND d)
  with assms have a: "amount_in c (rle_refund_amount d)" "amount_in c (rle_refund_fee d)" by simp_all
  from subtract_in_Some [OF this, of invalidate] hton_in [OF a(1), of "GNUNET_htonll cr"]
    hton_in [OF a(2), of "GNUNET_htonll cr"] TALER_EXCHANGEDB_TT_REFUND
  show ?thesis by auto
qed (use assms in \<open>auto simp: Let_def dest!: hton_in [where h = "GNUNET_htonll cr"]\<close>)

lemma compile_transaction_history_total:
  "tl_in c txs \<Longrightarrow> \<exists>x. TEH_RESPONSE_compile_transaction_history cr ks coin txs = Some x"
proof (induction txs)
  case (Cons e txs)
  then obtain x y where "compile_coin_entry cr ks coin (tl_details e) = Some x"
    "TEH_RESPONSE_compile_transaction_history cr ks coin txs = Some y"
    using compile_coin_entry_total by fastforce
  then show ?case by (cases x) simp_all
qed simp

lemma reply_insufficient_total:
  assumes "tl_in c txs"
  obtains r where "TEH_RESPONSE_reply_coin_insufficient_funds cr ks ec coin txs = Some r"
    and "\<And>hc x. r = reply_ok hc x \<Longrightarrow> hc = MHD_HTTP_CONFLICT"
proof -
  obtain x where x: "TEH_RESPONSE_compile_transaction_history cr ks coin txs = Some x"
    using compile_transaction_history_total [OF assms] by blast
  show ?thesis
  proof (rule that)
    show "TEH_RESPONSE_reply_coin_insufficient_funds cr ks ec coin txs
      = Some (case x of
             None \<Rightarrow> TALER_MHD_reply_with_error MHD_HTTP_INTERNAL_SERVER_ERROR
                       TALER_EC_COIN_HISTORY_DB_ERROR_INSUFFICIENT_FUNDS
           | Some h \<Rightarrow> reply_ok MHD_HTTP_CONFLICT (insufficient_funds ec h))"
      by (simp only: TEH_RESPONSE_reply_coin_insufficient_funds_def x Option.bind.bind_lunit)
  qed (auto split: option.splits)
qed

section \<open>The balance of a compiled history\<close>

fun rh_credit :: "TALER_EXCHANGEDB_ReserveHistory \<Rightarrow> TALER_Amount option" where
  "rh_credit (TALER_EXCHANGEDB_RO_BANK_TO_EXCHANGE b) = Some (bt_amount b)"
| "rh_credit (TALER_EXCHANGEDB_RO_RECOUP_COIN p) = Some (rec_value p)"
| "rh_credit _ = None"

fun rh_debit :: "TALER_EXCHANGEDB_ReserveHistory \<Rightarrow> TALER_Amount option" where
  "rh_debit (TALER_EXCHANGEDB_RO_WITHDRAW_COIN w) = Some (cb_amount_with_fee w)"
| "rh_debit (TALER_EXCHANGEDB_RO_EXCHANGE_TO_BANK c) = Some (ct_amount c)"
| "rh_debit _ = None"

definition total_of :: "(TALER_EXCHANGEDB_ReserveHistory \<Rightarrow> TALER_Amount option) \<Rightarrow> TALER_EXCHANGEDB_ReserveHistory list \<Rightarrow> int" where
  "total_of f rh = (\<Sum>a\<leftarrow>List.map_filter f rh. amt a)"

definition tot :: "TALER_Amount option \<Rightarrow> int" where
  "tot t = (case t of None \<Rightarrow> 0 | Some a \<Rightarrow> amt a)"

definition tot_in :: "string \<Rightarrow> TALER_Amount option \<Rightarrow> bool" where
  "tot_in c t \<longleftrightarrow> (\<forall>a. t = Some a \<longrightarrow> amount_in c a)"

lemma total_of_simps [simp]:
  "total_of f [] = 0"
  "total_of f (e # es) = tot (f e) + total_of f es"
  by (simp_all add: total_of_def tot_def map_filter_simps split: option.split)

lemma tot_None [simp]: "tot None = 0"
  by (simp add: tot_def)

lemma tot_nonneg [simp]: "0 \<le> tot t"
  by (simp add: tot_def split: option.splits)

lemma total_of_nonneg [simp]: "0 \<le> total_of f rh"
  by (induction rh) simp_all

lemma total_add_in:
  assumes "tot_in c t" and "amount_in c a"
  shows "\<exists>r t'. total_add t a = Some (r, t') \<and> (0 > r \<longleftrightarrow> AMT_LIMIT \<le> tot t + amt a)
     \<and> (0 \<le> r \<longrightarrow> t' \<noteq> None \<and> tot_in c t' \<and> tot t' = tot t + amt a)"
proof (cases t)
  case None
  with assms(2) show ?thesis by (auto simp: total_add_def tot_in_def tot_def dest: amount_in_limit)
next
  case (Some b)
  with assms have "amount_in c b" by (simp add: tot_in_def)
  from amount_add_wp [OF this assms(2)] Some show ?thesis
    by (auto simp: wp_iff total_add_def tot_in_def tot_def)
qed

lemma tot_in_limit: "tot_in c t \<Longrightarrow> tot t < AMT_LIMIT"
  by (cases t) (auto simp: tot_in_def tot_def AMT_LIMIT_def dest: amount_in_limit)

text \<open>One entry, with a signing key at hand\<close>

lemma compile_reserve_entry_in:
  assumes "rh_in c e" and "tot_in c t" and "tot_in c w"
  shows "\<exists>x. compile_reserve_entry cr (Some ks) e (t, w) = Some x \<and>
     (if tot t + tot (rh_credit e) < AMT_LIMIT \<and> tot w + tot (rh_debit e) < AMT_LIMIT
      then \<exists>j t' w'. x = Some (j, t', w') \<and> tot_in c t' \<and> tot_in c w'
             \<and> tot t' = tot t + tot (rh_credit e) \<and> tot w' = tot w + tot (rh_debit e)
             \<and> (t' = None \<longleftrightarrow> t = None \<and> rh_credit e = None)
      else x = None)"
proof (cases e)
  case (TALER_EXCHANGEDB_RO_BANK_TO_EXCHANGE b)
  with assms(1) have "amount_in c (bt_amount b)" by simp
  from total_add_in [OF assms(2) this] TALER_EXCHANGEDB_RO_BANK_TO_EXCHANGE assms(2,3) tot_in_limit [OF assms(2)]
    tot_in_limit [OF assms(3)] show ?thesis
    by (auto simp: tot_def)
next
  case (TALER_EXCHANGEDB_RO_WITHDRAW_COIN b)
  with assms(1) have "amount_in c (cb_amount_with_fee b)" by simp
  from total_add_in [OF assms(3) this] TALER_EXCHANGEDB_RO_WITHDRAW_COIN assms(2,3) tot_in_limit [OF assms(2)]
    tot_in_limit [OF assms(3)] show ?thesis
    by (auto simp: tot_def)
next
  case (TALER_EXCHANGEDB_RO_RECOUP_COIN b)
  with assms(1) have "amount_in c (rec_value b)" by simp
  from total_add_in [OF assms(2) this] hton_in [OF this, of "GNUNET_htonll cr"] TALER_EXCHANGEDB_RO_RECOUP_COIN assms(2,3) tot_in_limit [OF assms(2)]
    tot_in_limit [OF assms(3)] show ?thesis
    by (auto simp: tot_def TEH_KS_sign_def)
next
  case (TALER_EXCHANGEDB_RO_EXCHANGE_TO_BANK b)
  with assms(1) have "amount_in c (ct_amount b)" "amount_in c (ct_closing_fee b)" by simp_all
  from total_add_in [OF assms(3) this(1)] hton_in [OF this(1), of "GNUNET_htonll cr"]
    hton_in [OF this(2), of "GNUNET_htonll cr"]
    TALER_EXCHANGEDB_RO_EXCHANGE_TO_BANK assms(2,3) tot_in_limit [OF assms(2)]
    tot_in_limit [OF assms(3)] show ?thesis
    by (auto simp: tot_def TEH_KS_sign_def)
qed

lemma compile_reserve_loop_in:
  assumes "\<forall>e\<in>set rh. rh_in c e" and "tot_in c t" and "tot_in c w"
  shows "\<exists>x. compile_reserve_loop cr (Some ks) rh (t, w) = Some x \<and>
     (if tot t + total_of rh_credit rh < AMT_LIMIT \<and> tot w + total_of rh_debit rh < AMT_LIMIT
      then \<exists>js t' w'. x = Some (js, t', w') \<and> length js = length rh \<and> tot_in c t' \<and> tot_in c w'
             \<and> tot t' = tot t + total_of rh_credit rh \<and> tot w' = tot w + total_of rh_debit rh
             \<and> (t' = None \<longleftrightarrow> t = None \<and> (\<forall>e\<in>set rh. rh_credit e = None))
      else x = None)"
  using assms
proof (induction rh arbitrary: t w)
  case Nil
  then show ?case by (auto dest: tot_in_limit)
next
  case (Cons e rh)
  from Cons.prems(1) have "rh_in c e" and rh: "\<forall>e\<in>set rh. rh_in c e" by simp_all
  from compile_reserve_entry_in [OF this(1) Cons.prems(2,3), of cr ks] obtain x where
    x: "compile_reserve_entry cr (Some ks) e (t, w) = Some x"
    and x_ok: "if tot t + tot (rh_credit e) < AMT_LIMIT \<and> tot w + tot (rh_debit e) < AMT_LIMIT
      then \<exists>j t' w'. x = Some (j, t', w') \<and> tot_in c t' \<and> tot_in c w'
             \<and> tot t' = tot t + tot (rh_credit e) \<and> tot w' = tot w + tot (rh_debit e)
             \<and> (t' = None \<longleftrightarrow> t = None \<and> rh_credit e = None)
      else x = None" by blast
  note nonneg = total_of_nonneg [of rh_credit rh] total_of_nonneg [of rh_debit rh]
  show ?case
  proof (cases x)
    case None
    then have "\<not> (tot t + tot (rh_credit e) < AMT_LIMIT \<and> tot w + tot (rh_debit e) < AMT_LIMIT)"
      using x_ok by (auto split: if_splits)
    with nonneg have "\<not> (tot t + total_of rh_credit (e # rh) < AMT_LIMIT
        \<and> tot w + total_of rh_debit (e # rh) < AMT_LIMIT)"
      unfolding total_of_simps by linarith
    with x None show ?thesis by simp
  next
    case (Some y)
    then obtain j t' w' where y: "x = Some (j, t', w')" "tot_in c t'" "tot_in c w'"
      "tot t' = tot t + tot (rh_credit e)" "tot w' = tot w + tot (rh_debit e)"
      "t' = None \<longleftrightarrow> t = None \<and> rh_credit e = None"
      using x_ok by (auto split: if_splits)
    from Cons.IH [OF rh y(2,3)] obtain z where
      z: "compile_reserve_loop cr (Some ks) rh (t', w') = Some z"
      and z_ok: "if tot t' + total_of rh_credit rh < AMT_LIMIT \<and> tot w' + total_of rh_debit rh < AMT_LIMIT
      then \<exists>js t'' w''. z = Some (js, t'', w'') \<and> length js = length rh \<and> tot_in c t'' \<and> tot_in c w''
             \<and> tot t'' = tot t' + total_of rh_credit rh \<and> tot w'' = tot w' + total_of rh_debit rh
             \<and> (t'' = None \<longleftrightarrow> t' = None \<and> (\<forall>e\<in>set rh. rh_credit e = None))
      else z = None" by blast
    have sums: "tot t + total_of rh_credit (e # rh) = tot t' + total_of rh_credit rh"
      "tot w + total_of rh_debit (e # rh) = tot w' + total_of rh_debit rh"
      using y(4,5) by simp_all
    show ?thesis
      unfolding sums using x y(1,6) z z_ok by (auto split: if_splits)
  qed
qed

lemma sum_rh_value: "(\<Sum>e\<leftarrow>rh. rh_value e) = total_of rh_credit rh - total_of rh_debit rh"
proof (induction rh)
  case (Cons e rh)
  then show ?case by (cases e) (simp_all add: tot_def)
qed simp

lemma compile_reserve_history_in:
  assumes "\<forall>e\<in>set rh. rh_in c e"
  shows "\<exists>x. TEH_RESPONSE_compile_reserve_history cr (Some ks) rh = Some x \<and>
     (if (\<exists>e\<in>set rh. rh_credit e \<noteq> None) \<and> total_of rh_credit rh < AMT_LIMIT
         \<and> total_of rh_debit rh \<le> total_of rh_credit rh
      then \<exists>js balance. x = Some (js, balance) \<and> length js = length rh \<and> amount_in c balance
             \<and> amt balance = (\<Sum>e\<leftarrow>rh. rh_value e)
      else x = None)"
proof -
  have "tot_in c None" by (simp add: tot_in_def)
  from compile_reserve_loop_in [OF assms this this, of cr ks, unfolded tot_None add_0 simp_thms] obtain y where
    y: "compile_reserve_loop cr (Some ks) rh (None, None) = Some y"
    and y_ok: "if total_of rh_credit rh < AMT_LIMIT \<and> total_of rh_debit rh < AMT_LIMIT
      then \<exists>js t w. y = Some (js, t, w) \<and> length js = length rh \<and> tot_in c t \<and> tot_in c w
             \<and> tot t = total_of rh_credit rh \<and> tot w = total_of rh_debit rh
             \<and> (t = None \<longleftrightarrow> (\<forall>e\<in>set rh. rh_credit e = None))
      else y = None"
    by blast
  show ?thesis
  proof (cases y)
    case None
    with y y_ok show ?thesis
      by (auto simp: TEH_RESPONSE_compile_reserve_history_def split: if_splits)
  next
    case (Some p)
    then obtain js t w where p: "y = Some (js, t, w)" "length js = length rh" "tot_in c t" "tot_in c w"
      "tot t = total_of rh_credit rh" "tot w = total_of rh_debit rh"
      "t = None \<longleftrightarrow> (\<forall>e\<in>set rh. rh_credit e = None)" "total_of rh_credit rh < AMT_LIMIT"
      using y_ok by (auto split: if_splits)
    show ?thesis
    proof (cases t)
      case None
      with y p show ?thesis by (auto simp: TEH_RESPONSE_compile_reserve_history_def)
    next
      case (Some a)
      then have a: "amount_in c a" "amt a = total_of rh_credit rh" "\<exists>e\<in>set rh. rh_credit e \<noteq> None"
        using p(3,5,7) by (auto simp: tot_in_def tot_def)
      obtain z where z: "TALER_amount_get_zero (amt_currency a) invalidate = (GNUNET_OK, z)"
        "amount_in c z" "amt z = 0"
        using get_zero_in [OF a(1)] .
      let ?w = "case w of Some b \<Rightarrow> b | None \<Rightarrow> z"
      have w: "amount_in c ?w" "amt ?w = total_of rh_debit rh"
        using p(4,6) z by (cases w; simp add: tot_in_def tot_def)+
      have def: "TEH_RESPONSE_compile_reserve_history cr (Some ks) rh =
          Option.bind (TALER_amount_subtract invalidate a ?w)
            (\<lambda>(r, balance). Some (if 0 > r then None else Some (js, balance)))"
        using y p(1) Some z(1) by (cases w) (simp_all add: TEH_RESPONSE_compile_reserve_history_def)
      show ?thesis
        using amount_subtract_wp [OF a(1) w(1), of invalidate] a(2,3) w(2) p(2,8)
        by (auto simp: def wp_iff sum_rh_value)
    qed
  qed
qed

text \<open>Without a signing key the compilation fails or does not need one.\<close>

lemma compile_reserve_entry_no_keys:
  "compile_reserve_entry cr (Some ks) e t = Some x \<Longrightarrow>
     compile_reserve_entry cr None e t = Some x \<or> compile_reserve_entry cr None e t = Some None"
  by (cases t; cases e) (auto simp: TEH_KS_sign_def bind_eq_Some_conv split: if_splits)

lemma compile_reserve_loop_no_keys:
  "compile_reserve_loop cr (Some ks) rh t = Some x \<Longrightarrow>
     compile_reserve_loop cr None rh t = Some x \<or> compile_reserve_loop cr None rh t = Some None"
proof (induction rh arbitrary: t x)
  case (Cons e rh)
  from Cons.prems obtain y where y: "compile_reserve_entry cr (Some ks) e t = Some y"
    by (auto simp: bind_eq_Some_conv)
  from compile_reserve_entry_no_keys [OF y] show ?case
  proof
    assume "compile_reserve_entry cr None e t = Some y"
    with y Cons.prems Cons.IH show ?thesis
      by (cases y) (fastforce simp: bind_eq_Some_conv)+
  qed simp
qed simp

lemma compile_reserve_history_total:
  assumes "\<forall>e\<in>set rh. rh_in c e"
  obtains x where "TEH_RESPONSE_compile_reserve_history cr ks rh = Some x"
    and "\<And>js balance. x = Some (js, balance) \<Longrightarrow> amount_in c balance \<and> amt balance = (\<Sum>e\<leftarrow>rh. rh_value e)"
proof -
  have keys: "\<exists>x. TEH_RESPONSE_compile_reserve_history cr (Some k) rh = Some x
      \<and> (\<forall>js balance. x = Some (js, balance) \<longrightarrow> amount_in c balance \<and> amt balance = (\<Sum>e\<leftarrow>rh. rh_value e))" for k
    using compile_reserve_history_in [OF assms, of cr k] by (elim exE conjE) (auto split: if_splits)
  show ?thesis
  proof (cases ks)
    case (Some k)
    with keys [of k] that show ?thesis by blast
  next
    case None
    fix k
    obtain x where x: "TEH_RESPONSE_compile_reserve_history cr (Some k) rh = Some x"
      "\<And>js balance. x = Some (js, balance) \<Longrightarrow> amount_in c balance \<and> amt balance = (\<Sum>e\<leftarrow>rh. rh_value e)"
      using keys [of k] by blast
    then obtain y where "compile_reserve_loop cr (Some k) rh (None, None) = Some y"
      by (auto simp: TEH_RESPONSE_compile_reserve_history_def bind_eq_Some_conv)
    from compile_reserve_loop_no_keys [OF this] show ?thesis
    proof
      assume "compile_reserve_loop cr None rh (None, None) = Some y"
      with \<open>compile_reserve_loop cr (Some k) rh (None, None) = Some y\<close> x(1)
      have "TEH_RESPONSE_compile_reserve_history cr None rh = Some x"
        by (simp add: TEH_RESPONSE_compile_reserve_history_def)
      with None that x(2) show ?thesis by blast
    next
      assume "compile_reserve_loop cr None rh (None, None) = Some None"
      then have "TEH_RESPONSE_compile_reserve_history cr None rh = Some None"
        by (simp add: TEH_RESPONSE_compile_reserve_history_def)
      with None that show ?thesis by blast
    qed
  qed
qed

text \<open>The balance that is compiled from a reserve history is what its entries add up to. The
  compilation fails exactly if there is no credit at all, a total is not representable, or more was
  taken out than came in; every entry is part of the result.\<close>

theorem compile_reserve_history_balance:
  assumes "\<forall>e\<in>set rh. rh_in c e"
  shows "\<exists>x. TEH_RESPONSE_compile_reserve_history cr (Some ks) rh = Some x \<and>
     (if (\<exists>e\<in>set rh. rh_credit e \<noteq> None) \<and> total_of rh_credit rh < AMT_LIMIT
         \<and> total_of rh_debit rh \<le> total_of rh_credit rh
      then \<exists>js balance. x = Some (js, balance) \<and> length js = length rh \<and> amount_in c balance
             \<and> amt balance = (\<Sum>e\<leftarrow>rh. rh_value e)
      else x = None)"
  using assms by (rule compile_reserve_history_in)

theorem compile_reserve_history_balance_witness:
  "\<exists>js balance. TEH_RESPONSE_compile_reserve_history sample_crypto (Some sample_keys)
       [TALER_EXCHANGEDB_RO_WITHDRAW_COIN sample_cb,
        TALER_EXCHANGEDB_RO_BANK_TO_EXCHANGE
          \<lparr>bt_reserve_pub = 3, bt_amount = mk_amount ''EUR'' 10 0, bt_execution_date = 100,
           bt_sender_account_details = ''payto'', bt_wire_reference = 5\<rparr>] = Some (Some (js, balance))
     \<and> length js = 2 \<and> amt balance = 700000000"
  using compile_reserve_history_balance [of "[TALER_EXCHANGEDB_RO_WITHDRAW_COIN sample_cb,
        TALER_EXCHANGEDB_RO_BANK_TO_EXCHANGE
          \<lparr>bt_reserve_pub = 3, bt_amount = mk_amount ''EUR'' 10 0, bt_execution_date = 100,
           bt_sender_account_details = ''payto'', bt_wire_reference = 5\<rparr>]" "''EUR''" sample_crypto sample_keys]
  by (auto simp: sample_cb_def mk_amount_in_EUR tot_def AMT_LIMIT_def)

end
