(* ===== verification/Url.thy ===== *)
theory Url
  imports Prelude
begin

text \<open>
  \<^verbatim>\<open>src/util/url.c\<close>: encoding texts for URLs and putting URLs together. A buffer of GNUnet is what was
  written to it and its capacity; by how much GNUnet grows a buffer is a parameter. The code writes
  characters that need no encoding directly into the memory of the buffer: \<open>None\<close> is such a
  write behind the end of the memory. \<^verbatim>\<open>char\<close> is signed, so a character above 127 is passed to
  \<^verbatim>\<open>%02X\<close> as a negative number, which prints as eight digits.
\<close>

section \<open>Buffers\<close>

record GNUNET_Buffer =
  buf_mem :: string
  buf_capacity :: nat

text \<open>The first argument of the parameter is the capacity, the second the capacity that is needed.\<close>

type_synonym grow = "nat \<Rightarrow> nat \<Rightarrow> nat"

definition grow_ok :: "grow \<Rightarrow> bool" where
  "grow_ok grow \<longleftrightarrow> (\<forall>c n. n \<le> grow c n)"

definition GNUNET_buffer_ensure_remaining :: "grow \<Rightarrow> GNUNET_Buffer \<Rightarrow> nat \<Rightarrow> GNUNET_Buffer" where
  "GNUNET_buffer_ensure_remaining grow buf n =
     (if length (buf_mem buf) + n \<le> buf_capacity buf then buf
      else buf\<lparr>buf_capacity := grow (buf_capacity buf) (length (buf_mem buf) + n)\<rparr>)"

definition GNUNET_buffer_write_str :: "grow \<Rightarrow> GNUNET_Buffer \<Rightarrow> string \<Rightarrow> GNUNET_Buffer" where
  "GNUNET_buffer_write_str grow buf s =
     (let buf = GNUNET_buffer_ensure_remaining grow buf (length s + 1)
      in buf\<lparr>buf_mem := buf_mem buf @ s\<rparr>)"

section \<open>Encoding\<close>

definition is_reserved :: "char \<Rightarrow> bool" where
  "is_reserved c \<longleftrightarrow> \<not> (let n = (of_char c :: nat) in
     48 \<le> n \<and> n \<le> 57 \<or> 97 \<le> n \<and> n \<le> 122 \<or> 65 \<le> n \<and> n \<le> 90
     \<or> c = CHR ''-'' \<or> c = CHR ''.'' \<or> c = CHR ''_'' \<or> c = CHR ''~'')"

fun urlencode_len :: "string \<Rightarrow> nat" where
  "urlencode_len [] = 0"
| "urlencode_len (c # s) = 1 + (if is_reserved c then 2 else 0) + urlencode_len s"

definition hex_digit :: "nat \<Rightarrow> char" where
  "hex_digit n = (if n < 10 then char_of (48 + n) else char_of (55 + n))"

text \<open>\<^verbatim>\<open>%02X\<close> of a \<^verbatim>\<open>char\<close>\<close>

definition fmt_02X :: "char \<Rightarrow> string" where
  "fmt_02X c = (if 128 \<le> (of_char c :: nat) then ''FFFFFF'' else [])
     @ [hex_digit (of_char c div 16), hex_digit (of_char c mod 16)]"

text \<open>The loop of \<^verbatim>\<open>buffer_write_urlencode\<close>\<close>

fun write_urlencode :: "grow \<Rightarrow> GNUNET_Buffer \<Rightarrow> string \<Rightarrow> GNUNET_Buffer option" where
  "write_urlencode grow buf [] = Some buf"
| "write_urlencode grow buf (c # s) = do {
     buf \<leftarrow> (if is_reserved c
             then Some (GNUNET_buffer_write_str grow buf (CHR ''%'' # fmt_02X c))
             else if length (buf_mem buf) < buf_capacity buf
             then Some (buf\<lparr>buf_mem := buf_mem buf @ [c]\<rparr>)
             else None);
     write_urlencode grow buf s
   }"

definition buffer_write_urlencode :: "grow \<Rightarrow> GNUNET_Buffer \<Rightarrow> string \<Rightarrow> GNUNET_Buffer option" where
  "buffer_write_urlencode grow buf s =
     (let ulen = urlencode_len s
      in write_urlencode grow (GNUNET_buffer_ensure_remaining grow buf (ulen + 1)) s)"

definition TALER_urlencode :: "grow \<Rightarrow> string \<Rightarrow> string option" where
  "TALER_urlencode grow s =
     map_option buf_mem (buffer_write_urlencode grow \<lparr>buf_mem = [], buf_capacity = 0\<rparr> s)"

section \<open>Putting URLs together\<close>

text \<open>The arguments are keys with values; a value may be \<^verbatim>\<open>NULL\<close>.\<close>

fun calculate_argument_length :: "(string \<times> string option) list \<Rightarrow> nat" where
  "calculate_argument_length [] = 0"
| "calculate_argument_length ((key, None) # args) = calculate_argument_length args"
| "calculate_argument_length ((key, Some value) # args) =
     urlencode_len value + length key + 2 + calculate_argument_length args"

fun serialize_arguments ::
    "grow \<Rightarrow> nat \<Rightarrow> (string \<times> string option) list \<Rightarrow> GNUNET_Buffer \<Rightarrow> GNUNET_Buffer option" where
  "serialize_arguments grow iparam [] buf = Some buf"
| "serialize_arguments grow iparam ((key, None) # args) buf = serialize_arguments grow iparam args buf"
| "serialize_arguments grow iparam ((key, Some value) # args) buf = do {
     let buf = GNUNET_buffer_write_str grow buf (if iparam = 0 then ''?'' else ''&'');
     let buf = GNUNET_buffer_write_str grow buf key;
     let buf = GNUNET_buffer_write_str grow buf ''='';
     buf \<leftarrow> buffer_write_urlencode grow buf value;
     serialize_arguments grow 1 args buf
   }"

text \<open>The outer option is the write outside of the buffer, the inner one the result \<^verbatim>\<open>NULL\<close>.\<close>

definition TALER_url_join ::
    "grow \<Rightarrow> string \<Rightarrow> string \<Rightarrow> (string \<times> string option) list \<Rightarrow> string option option" where
  "TALER_url_join grow base_url path args =
     (if base_url = [] then Some None
      else if last base_url \<noteq> CHR ''/'' then Some None
      else if path \<noteq> [] \<and> hd path = CHR ''/'' then Some None
      else do {
        let len = length base_url + length path + 1 + calculate_argument_length args;
        let buf = \<lparr>buf_mem = [], buf_capacity = len\<rparr>;
        let buf = GNUNET_buffer_write_str grow buf base_url;
        let buf = GNUNET_buffer_write_str grow buf path;
        buf \<leftarrow> serialize_arguments grow 0 args buf;
        Some (Some (buf_mem buf))
      })"

text \<open>\<^verbatim>\<open>GNUNET_buffer_write_path\<close> is a parameter.\<close>

definition TALER_url_absolute_raw_va ::
    "grow \<Rightarrow> (GNUNET_Buffer \<Rightarrow> string \<Rightarrow> GNUNET_Buffer) \<Rightarrow> string \<Rightarrow> string \<Rightarrow> string \<Rightarrow> string
       \<Rightarrow> (string \<times> string option) list \<Rightarrow> string option" where
  "TALER_url_absolute_raw_va grow write_path proto host prefix path args = do {
     let len = length proto + length ''://'' + length host + length prefix + length path
               + calculate_argument_length args + 1;
     let buf = \<lparr>buf_mem = [], buf_capacity = len\<rparr>;
     let buf = GNUNET_buffer_write_str grow buf proto;
     let buf = GNUNET_buffer_write_str grow buf ''://'';
     let buf = GNUNET_buffer_write_str grow buf host;
     let buf = write_path buf prefix;
     let buf = write_path buf path;
     buf \<leftarrow> serialize_arguments grow 0 args buf;
     Some (buf_mem buf)
   }"

section \<open>What is written\<close>

definition urlencode :: "string \<Rightarrow> string" where
  "urlencode s = concat (map (\<lambda>c. if is_reserved c then CHR ''%'' # fmt_02X c else [c]) s)"

definition ascii :: "string \<Rightarrow> bool" where
  "ascii s \<longleftrightarrow> (\<forall>c\<in>set s. (of_char c :: nat) < 128)"

fun arguments :: "bool \<Rightarrow> (string \<times> string option) list \<Rightarrow> string" where
  "arguments first [] = []"
| "arguments first ((key, None) # args) = arguments first args"
| "arguments first ((key, Some value) # args) =
     (if first then CHR ''?'' else CHR ''&'') # key @ CHR ''='' # urlencode value @ arguments False args"

lemma urlencode_simps [simp]:
  "urlencode [] = []"
  "urlencode (c # s) = (if is_reserved c then CHR ''%'' # fmt_02X c else [c]) @ urlencode s"
  by (simp_all add: urlencode_def)

lemma ascii_simps [simp]: "ascii []" "ascii (c # s) \<longleftrightarrow> (of_char c :: nat) < 128 \<and> ascii s"
  by (simp_all add: ascii_def)

lemma length_urlencode: "ascii s \<Longrightarrow> length (urlencode s) = urlencode_len s"
  by (induction s) (auto simp: fmt_02X_def)

lemma ensure_remaining_sels [simp]:
  "buf_mem (GNUNET_buffer_ensure_remaining grow buf n) = buf_mem buf"
  "grow_ok grow \<Longrightarrow> length (buf_mem buf) + n \<le> buf_capacity (GNUNET_buffer_ensure_remaining grow buf n)"
  by (simp_all add: GNUNET_buffer_ensure_remaining_def grow_ok_def)

lemma write_str_enough:
  "length (buf_mem buf) + length s < buf_capacity buf \<Longrightarrow>
     GNUNET_buffer_write_str grow buf s = buf\<lparr>buf_mem := buf_mem buf @ s\<rparr>"
  by (simp add: GNUNET_buffer_write_str_def GNUNET_buffer_ensure_remaining_def)

lemma write_urlencode_ascii:
  assumes "ascii s" and "length (buf_mem buf) + urlencode_len s < buf_capacity buf"
  shows "write_urlencode grow buf s = Some (buf\<lparr>buf_mem := buf_mem buf @ urlencode s\<rparr>)"
  using assms
proof (induction s arbitrary: buf)
  case (Cons c s)
  then have "length (buf_mem buf) + length (CHR ''%'' # fmt_02X c) < buf_capacity buf" if "is_reserved c"
    using that by (simp add: fmt_02X_def)
  with Cons show ?case
    by (auto simp: write_str_enough fmt_02X_def)
qed simp

lemma buffer_write_urlencode_ascii:
  assumes "grow_ok grow" and "ascii s"
  shows "\<exists>c. buffer_write_urlencode grow buf s = Some \<lparr>buf_mem = buf_mem buf @ urlencode s, buf_capacity = c\<rparr>"
proof -
  let ?buf = "GNUNET_buffer_ensure_remaining grow buf (urlencode_len s + 1)"
  have "length (buf_mem ?buf) + urlencode_len s < buf_capacity ?buf"
    using ensure_remaining_sels(2) [OF assms(1), of buf "urlencode_len s + 1"] by simp
  from write_urlencode_ascii [OF assms(2) this, of grow] show ?thesis
    unfolding buffer_write_urlencode_def Let_def by (cases ?buf) auto
qed

lemma serialize_arguments_ascii:
  assumes "grow_ok grow" and "\<forall>(key, value)\<in>set args. \<forall>v. value = Some v \<longrightarrow> ascii v"
  shows "\<exists>c. serialize_arguments grow iparam args buf
    = Some \<lparr>buf_mem = buf_mem buf @ arguments (iparam = 0) args, buf_capacity = c\<rparr>"
  using assms(2)
proof (induction "iparam = 0" args arbitrary: iparam buf rule: arguments.induct)
  case 1
  then show ?case by (cases buf) simp
next
  case (2 key args)
  then show ?case by simp
next
  case (3 key v args)
  let ?buf = "GNUNET_buffer_write_str grow (GNUNET_buffer_write_str grow (GNUNET_buffer_write_str grow buf
      (if iparam = 0 then ''?'' else ''&'')) key) ''=''"
  from "3.prems" obtain c where c: "buffer_write_urlencode grow ?buf v
      = Some \<lparr>buf_mem = buf_mem ?buf @ urlencode v, buf_capacity = c\<rparr>"
    using buffer_write_urlencode_ascii [OF assms(1)] by fastforce
  have "buf_mem ?buf = buf_mem buf @ (if iparam = 0 then CHR ''?'' else CHR ''&'') # key @ ''=''"
    by (simp add: GNUNET_buffer_write_str_def Let_def)
  with c "3.hyps" [of 1 "\<lparr>buf_mem = buf_mem ?buf @ urlencode v, buf_capacity = c\<rparr>"] "3.prems" show ?case by simp
qed

section \<open>Properties\<close>

text \<open>Decoding as of RFC 3986\<close>

definition hex_value :: "char \<Rightarrow> nat" where
  "hex_value c = (let n = of_char c in if n \<le> 57 then n - 48 else n - 55)"

fun urldecode :: "string \<Rightarrow> string" where
  "urldecode (c # d # e # s) =
     (if c = CHR ''%'' then char_of (16 * hex_value d + hex_value e) # urldecode s else c # urldecode (d # e # s))"
| "urldecode s = s"

lemma hex_value_digit: "n < 16 \<Longrightarrow> hex_value (hex_digit n) = n"
  by (auto simp: hex_value_def hex_digit_def Let_def)

lemma urldecode_plain: "c \<noteq> CHR ''%'' \<Longrightarrow> urldecode (c # s) = c # urldecode s"
  by (cases s rule: remdups_adj.cases) auto

lemma urldecode_urlencode: "ascii s \<Longrightarrow> urldecode (urlencode s) = s"
proof (induction s)
  case (Cons c s)
  have "(of_char c :: nat) div 16 < 16" "(of_char c :: nat) mod 16 < 16" using Cons.prems by auto
  moreover have "\<not> is_reserved c \<Longrightarrow> c \<noteq> CHR ''%''" by (auto simp: is_reserved_def Let_def)
  ultimately show ?case
    using Cons by (auto simp: fmt_02X_def hex_value_digit urldecode_plain)
qed simp

text \<open>C37. Encoding an ASCII text never writes outside of the buffer, whatever the policy by which
  buffers grow; the result has the length that was computed for it and decodes to the text. For other
  texts neither holds: the letter with code \<^verbatim>\<open>0xE9\<close> is encoded as \<^verbatim>\<open>%FFFFFFE9\<close>, and if buffers
  at least double when they grow, seven letters behind it are enough to write outside.\<close>

theorem TALER_urlencode_safe:
  assumes "grow_ok grow"
  shows "(ascii s \<longrightarrow> (\<exists>r. TALER_urlencode grow s = Some r \<and> length r = urlencode_len s \<and> urldecode r = s))
    \<and> TALER_urlencode grow [CHR 0xE9] = Some ''%FFFFFFE9''
    \<and> TALER_urlencode (\<lambda>c n. max n (2 * c)) (CHR 0xE9 # replicate 7 CHR ''a'') = None"
proof (intro conjI impI)
  show "\<exists>r. TALER_urlencode grow s = Some r \<and> length r = urlencode_len s \<and> urldecode r = s" if "ascii s"
    using buffer_write_urlencode_ascii [OF assms that, of "\<lparr>buf_mem = [], buf_capacity = 0\<rparr>"]
      length_urlencode [OF that] urldecode_urlencode [OF that]
    by (auto simp: TALER_urlencode_def)
  have E9: "is_reserved (CHR 0xE9)" "fmt_02X (CHR 0xE9) = ''FFFFFFE9''" "\<not> is_reserved CHR ''a''"
    by code_simp+
  show "TALER_urlencode grow [CHR 0xE9] = Some ''%FFFFFFE9''"
    by (simp add: TALER_urlencode_def buffer_write_urlencode_def Let_def E9 GNUNET_buffer_write_str_def)
  show "TALER_urlencode (\<lambda>c n. max n (2 * c)) (CHR 0xE9 # replicate 7 CHR ''a'') = None"
    by (simp add: TALER_urlencode_def buffer_write_urlencode_def E9 GNUNET_buffer_write_str_def
        GNUNET_buffer_ensure_remaining_def Let_def eval_nat_numeral)
qed

theorem TALER_urlencode_safe_witness:
  "\<exists>r. TALER_urlencode (\<lambda>c n. max n (2 * c)) ''a b'' = Some r \<and> length r = 5 \<and> urldecode r = ''a b''"
proof -
  have len: "urlencode_len ''a b'' = 5" by (simp add: is_reserved_def)
  have "grow_ok (\<lambda>c n. max n (2 * c))" by (simp add: grow_ok_def)
  from TALER_urlencode_safe [OF this, of "''a b''"] show ?thesis
    by (simp add: len del: urlencode_len.simps)
qed

text \<open>A joined URL consists of the base URL, the path and the arguments with a value, separated by
  \<^verbatim>\<open>?\<close> and \<^verbatim>\<open>&\<close>; the buffer that is allocated in advance has exactly the size that is needed. There is no
  result exactly if the base URL does not end in a slash or the path starts with one.\<close>

theorem TALER_url_join_spec:
  assumes "grow_ok grow" and "\<forall>(key, v)\<in>set args. \<forall>x. v = Some x \<longrightarrow> ascii x"
  shows "TALER_url_join grow base_url path args =
      Some (if base_url = [] \<or> last base_url \<noteq> CHR ''/'' \<or> path \<noteq> [] \<and> hd path = CHR ''/'' then None
            else Some (base_url @ path @ arguments True args))
    \<and> length (arguments True args) = calculate_argument_length args"
proof
  have "length (arguments b args) = calculate_argument_length args" for b
    using assms(2) by (induction b args rule: arguments.induct) (auto simp: length_urlencode)
  then show "length (arguments True args) = calculate_argument_length args" .
  have "buf_mem (GNUNET_buffer_write_str grow (GNUNET_buffer_write_str grow buf a) b) = buf_mem buf @ a @ b" for buf a b
    by (simp add: GNUNET_buffer_write_str_def Let_def)
  then show "TALER_url_join grow base_url path args =
      Some (if base_url = [] \<or> last base_url \<noteq> CHR ''/'' \<or> path \<noteq> [] \<and> hd path = CHR ''/'' then None
            else Some (base_url @ path @ arguments True args))"
    using serialize_arguments_ascii [OF assms, of 0 "GNUNET_buffer_write_str grow (GNUNET_buffer_write_str grow
       \<lparr>buf_mem = [], buf_capacity = length base_url + length path + 1 + calculate_argument_length args\<rparr> base_url) path"]
    by (auto simp: TALER_url_join_def Let_def)
qed

theorem TALER_url_join_spec_witness:
  "TALER_url_join (\<lambda>c n. n) ''http://x/'' ''transfers'' [(''a'', None), (''b'', Some ''1''), (''c'', Some ''2'')]
     = Some (Some ''http://x/transfers?b=1&c=2'')"
proof -
  have "grow_ok (\<lambda>c n. n)" by (simp add: grow_ok_def)
  from TALER_url_join_spec [OF this, of "[(''a'', None), (''b'', Some ''1''), (''c'', Some ''2'')]" "''http://x/''" "''transfers''"]
  show ?thesis by (simp add: is_reserved_def)
qed

end
