(* ===== verification/Payto.thy ===== *)
theory Payto
  imports Prelude
begin

text \<open>
  \<^verbatim>\<open>src/util/payto.c\<close> and the account checks of \<^verbatim>\<open>src/json/json_wire.c\<close>: the parts of a
  \<^verbatim>\<open>payto://\<close> URI and the check of an IBAN. A C string is the list of its characters, without the
  terminator; \<open>None\<close> is a failed assertion or a copy outside of an array. The check sum is computed
  partly in \<^verbatim>\<open>double\<close>, modelled as IEEE 754 double precision with rounding to the nearest even.
\<close>

section \<open>C library functions\<close>

text \<open>\<^verbatim>\<open>0 == strncasecmp (s, prefix, strlen (prefix))\<close>\<close>

definition has_prefix_nocase :: "string \<Rightarrow> string \<Rightarrow> bool" where
  "has_prefix_nocase s prefix \<longleftrightarrow> map tolower (take (length prefix) s) = map tolower prefix"

text \<open>\<^verbatim>\<open>strchr\<close>: what is in front of the first such character and what is behind it\<close>

definition strchr :: "string \<Rightarrow> char \<Rightarrow> (string \<times> string) option" where
  "strchr s c = (case dropWhile (\<lambda>x. x \<noteq> c) s of
      [] \<Rightarrow> None
    | _ # rest \<Rightarrow> Some (takeWhile (\<lambda>x. x \<noteq> c) s, rest))"

definition isdigit :: "char \<Rightarrow> bool" where
  "isdigit c \<longleftrightarrow> 48 \<le> (of_char c :: nat) \<and> (of_char c :: nat) \<le> 57"

definition isalpha :: "char \<Rightarrow> bool" where
  "isalpha c \<longleftrightarrow> 65 \<le> (of_char c :: nat) \<and> (of_char c :: nat) \<le> 90
     \<or> 97 \<le> (of_char c :: nat) \<and> (of_char c :: nat) \<le> 122"

text \<open>Binary search in the range from \<open>l\<close> to \<open>u\<close> of an array\<close>

function bsearch :: "('a \<Rightarrow> int) \<Rightarrow> 'a list \<Rightarrow> nat \<Rightarrow> nat \<Rightarrow> nat option" where
  "bsearch cmp xs l u =
     (if l < u
      then let idx = (l + u) div 2; c = cmp (xs ! idx)
           in if c < 0 then bsearch cmp xs l idx
              else if 0 < c then bsearch cmp xs (idx + 1) u
              else Some idx
      else None)"
  by pat_completeness auto
termination
  by (relation "measure (\<lambda>(cmp, xs, l, u). u - l)") auto

declare bsearch.simps [simp del]

text \<open>The conversion of an integer to \<^verbatim>\<open>double\<close>: 53 significant bits, rounded to the nearest, to even on
  a tie\<close>

fun double_exponent :: "nat \<Rightarrow> nat" where
  "double_exponent n = (if n < 2 ^ 53 then 0 else Suc (double_exponent (n div 2)))"

declare double_exponent.simps [simp del]

definition double_of :: "nat \<Rightarrow> nat" where
  "double_of n =
     (let ulp = 2 ^ double_exponent n; q = n div ulp; r = n mod ulp
      in (if ulp < 2 * r \<or> 2 * r = ulp \<and> odd q then q + 1 else q) * ulp)"

section \<open>The parts of a payto URI\<close>

abbreviation (input) PAYTO :: string where "PAYTO \<equiv> ''payto://''"

definition TALER_payto_get_method :: "string \<Rightarrow> string option" where
  "TALER_payto_get_method payto_uri =
     (if \<not> has_prefix_nocase payto_uri PAYTO then None
      else case strchr (drop (length PAYTO) payto_uri) CHR ''/'' of
             None \<Rightarrow> None
           | Some (method, _) \<Rightarrow> Some method)"

definition TALER_xtalerbank_account_from_payto :: "string \<Rightarrow> string option" where
  "TALER_xtalerbank_account_from_payto payto =
     (if \<not> has_prefix_nocase payto (PAYTO @ ''x-taler-bank/'') then None
      else case strchr (drop (length (PAYTO @ ''x-taler-bank/'')) payto) CHR ''/'' of
             None \<Rightarrow> None
           | Some (_, beg) \<Rightarrow>
               (case strchr beg CHR ''?'' of
                  None \<Rightarrow> Some beg
                | Some (account, _) \<Rightarrow> Some account))"

section \<open>The check of an IBAN\<close>

definition country_table :: "string list" where
  "country_table = [
     ''AE'', ''AF'', ''AL'', ''AM'', ''AN'', ''AR'', ''AT'', ''AU'', ''AZ'', ''BA'', ''BD'', ''BE'', ''BG'', ''BH'', ''BN'', ''BO'',
     ''BR'', ''BT'', ''BY'', ''BZ'', ''CA'', ''CG'', ''CH'', ''CI'', ''CL'', ''CM'', ''CN'', ''CO'', ''CR'', ''CS'', ''CZ'', ''DE'',
     ''DK'', ''DO'', ''DZ'', ''EC'', ''EE'', ''EG'', ''ER'', ''ES'', ''ET'', ''FI'', ''FO'', ''FR'', ''GB'', ''GD'', ''GE'', ''GL'',
     ''GR'', ''GT'', ''HK'', ''HK'', ''HN'', ''HR'', ''HT'', ''HU'', ''ID'', ''IE'', ''IL'', ''IN'', ''IQ'', ''IR'', ''IS'', ''IT'',
     ''JM'', ''JO'', ''JP'', ''KE'', ''KG'', ''KH'', ''KR'', ''KW'', ''KZ'', ''LA'', ''LB'', ''LI'', ''LK'', ''LT'', ''LU'', ''LV'',
     ''LY'', ''MA'', ''MC'', ''MD'', ''MD'', ''ME'', ''MK'', ''ML'', ''MM'', ''MN'', ''MO'', ''MT'', ''MV'', ''MX'', ''MY'', ''NG'',
     ''NI'', ''NL'', ''NO'', ''NP'', ''NZ'', ''OM'', ''PA'', ''PE'', ''PH'', ''PK'', ''PL'', ''PR'', ''PT'', ''PY'', ''QA'', ''RE'',
     ''RO'', ''RS'', ''RU'', ''RW'', ''SA'', ''SE'', ''SG'', ''SI'', ''SK'', ''SN'', ''SO'', ''SR'', ''SV'', ''SY'', ''TH'', ''TJ'',
     ''TM'', ''TN'', ''TR'', ''TT'', ''TW'', ''TZ'', ''UA'', ''US'', ''UY'', ''VA'', ''VE'', ''VN'', ''YE'', ''ZA'', ''ZW'']"

text \<open>\<^verbatim>\<open>memcmp\<close> of two codes of two characters\<close>

definition cmp_country_code :: "string \<Rightarrow> string \<Rightarrow> int" where
  "cmp_country_code cc1 cc2 =
     (let d = int (of_char (cc1 ! 0)) - int (of_char (cc2 ! 0))
      in if d \<noteq> 0 then d else int (of_char (cc1 ! 1)) - int (of_char (cc2 ! 1)))"

text \<open>The digits that stand for a character: a letter has two. The characters \<^verbatim>\<open>'0'\<close> to \<^verbatim>\<open>'9'\<close> stand for
  themselves, any other would fail the assertion.\<close>

fun iban_digits :: "string \<Rightarrow> nat list option" where
  "iban_digits [] = Some []"
| "iban_digits (c # cs) = do {
     ds \<leftarrow> (if isalpha c
            then Some [(of_char c - 65 + 10) div 10, (of_char c - 65 + 10) mod 10]
            else if isdigit c then Some [of_char c - 48] else None);
     rest \<leftarrow> iban_digits cs;
     Some (ds @ rest)
   }"

text \<open>The value of a sequence of digits, as \<^verbatim>\<open>sscanf\<close> reads it\<close>

definition digits_value :: "nat list \<Rightarrow> nat" where
  "digits_value ds = foldl (\<lambda>n d. 10 * n + d) 0 ds"

text \<open>The loop over chunks of 16 digits; a sum with a \<^verbatim>\<open>double\<close> is a \<^verbatim>\<open>double\<close>.\<close>

function iban_remainder :: "nat list \<Rightarrow> nat \<Rightarrow> nat" where
  "iban_remainder ds remainder =
     (if ds = [] then remainder
      else let chunk = take 16 ds;
               dividend = digits_value chunk;
               dividend = (if remainder \<noteq> 0
                           then double_of (double_of dividend + double_of (remainder * double_of (10 ^ length chunk)))
                           else dividend)
           in iban_remainder (drop 16 ds) (dividend mod 97))"
  by pat_completeness auto
termination
  by (relation "measure (\<lambda>(ds, r). length ds)") auto

declare iban_remainder.simps [simp del]

definition validate_iban :: "string \<Rightarrow> int option" where
  "validate_iban iban =
     (if length iban > 34 then Some GNUNET_NO
      else if length iban < 4 then None
      else let cc = take 2 iban; ibancpy = drop 4 iban @ take 4 iban
           in if bsearch (cmp_country_code cc) country_table 0 (length country_table) = None
              then Some GNUNET_NO
              else do {
                nbuf \<leftarrow> iban_digits ibancpy;
                Some (if iban_remainder nbuf 0 \<noteq> 1 then GNUNET_NO else GNUNET_YES)
              })"

definition validate_payto_iban :: "string \<Rightarrow> int option" where
  "validate_payto_iban account_url =
     (if \<not> has_prefix_nocase account_url ''payto://iban/'' then Some GNUNET_NO
      else let iban = drop (length ''payto://iban/'') account_url;
               result = (case strchr iban CHR ''?'' of None \<Rightarrow> iban | Some (before, _) \<Rightarrow> before)
           in do {
                r \<leftarrow> validate_iban result;
                Some (if r \<noteq> GNUNET_OK then GNUNET_SYSERR else GNUNET_YES)
              })"

definition validate_payto :: "string \<Rightarrow> int option" where
  "validate_payto account_url =
     (if \<not> has_prefix_nocase account_url PAYTO then Some GNUNET_SYSERR
      else do {
        ret \<leftarrow> validate_payto_iban account_url;
        if ret \<noteq> GNUNET_NO then Some ret else Some GNUNET_NO
      })"

section \<open>Searching the table\<close>

lemma bsearch_None_iff:
  assumes "u \<le> length xs"
    and "\<And>i j. i \<le> j \<Longrightarrow> j < length xs \<Longrightarrow> 0 < cmp (xs ! j) \<Longrightarrow> 0 < cmp (xs ! i)"
    and "\<And>i j. i \<le> j \<Longrightarrow> j < length xs \<Longrightarrow> cmp (xs ! i) < 0 \<Longrightarrow> cmp (xs ! j) < 0"
  shows "bsearch cmp xs l u = None \<longleftrightarrow> (\<forall>i. l \<le> i \<and> i < u \<longrightarrow> cmp (xs ! i) \<noteq> 0)"
  using assms
proof (induction cmp xs l u rule: bsearch.induct)
  case (1 cmp xs l u)
  let ?m = "(l + u) div 2"
  show ?case
  proof (cases "l < u")
    case True
    then have m: "l \<le> ?m" "?m < u" by auto
    consider "cmp (xs ! ?m) < 0" | "0 < cmp (xs ! ?m)" | "cmp (xs ! ?m) = 0" by linarith
    then show ?thesis
    proof cases
      case 1
      have "cmp (xs ! i) < 0" if "?m \<le> i" "i < u" for i
        using "1.prems"(3) [of ?m i] that 1 "1.prems"(1) by auto
      then have "(\<forall>i. l \<le> i \<and> i < u \<longrightarrow> cmp (xs ! i) \<noteq> 0) \<longleftrightarrow> (\<forall>i. l \<le> i \<and> i < ?m \<longrightarrow> cmp (xs ! i) \<noteq> 0)"
        using m by (metis less_trans not_le order_less_irrefl)
      with "1.IH"(1) [OF True refl refl 1] "1.prems" True 1 m show ?thesis
        by (subst bsearch.simps) (auto simp: Let_def)
    next
      case 2
      have pos: "0 < cmp (xs ! i)" if "l \<le> i" "i \<le> ?m" for i
        using "1.prems"(2) [of i ?m] that 2 m "1.prems"(1) by auto
      have "(\<forall>i. l \<le> i \<and> i < u \<longrightarrow> cmp (xs ! i) \<noteq> 0) \<longleftrightarrow> (\<forall>i. ?m + 1 \<le> i \<and> i < u \<longrightarrow> cmp (xs ! i) \<noteq> 0)"
      proof (intro iffI allI impI, goal_cases)
        case (2 i)
        then show ?case using pos [of i] by (cases "i \<le> ?m") auto
      qed (use m in auto)
      with "1.IH"(2) [OF True refl refl _ 2] "1.prems" True 2 m show ?thesis
        by (subst bsearch.simps) (auto simp: Let_def)
    next
      case 3
      with True m show ?thesis
        by (subst bsearch.simps) (auto simp: Let_def intro!: exI [of _ ?m])
    qed
  next
    case False
    then show ?thesis by (subst bsearch.simps) auto
  qed
qed

definition code_value :: "string \<Rightarrow> int" where
  "code_value cc = 256 * int (of_char (cc ! 0)) + int (of_char (cc ! 1))"

lemma of_char_bound: "int (of_char c) < 256" "0 \<le> int (of_char c)"
  by (simp_all add: of_char_def)

lemma cmp_country_code_sgn:
  "cmp_country_code a b < 0 \<longleftrightarrow> code_value a < code_value b" "0 < cmp_country_code a b \<longleftrightarrow> code_value b < code_value a"
  using of_char_bound [of "a ! 0"] of_char_bound [of "a ! 1"] of_char_bound [of "b ! 0"] of_char_bound [of "b ! 1"]
  unfolding cmp_country_code_def code_value_def Let_def by (split if_split, linarith)+

lemma country_table_sorted: "sorted (map code_value country_table)"
  by (simp add: country_table_def code_value_def sorted2_simps del: sorted_wrt.simps)

lemma country_table_length: "\<forall>c\<in>set country_table. length c = 2"
  by (simp add: country_table_def)

text \<open>The codes of the table have two characters, so the comparison finds exactly them.\<close>

lemma code_value_inj:
  assumes "length a = 2" "length b = 2" "code_value a = code_value b"
  shows "a = b"
proof -
  obtain a0 a1 b0 b1 where ab: "a = [a0, a1]" "b = [b0, b1]"
    using assms(1,2) by (auto simp: numeral_2_eq_2 length_Suc_conv)
  with assms(3) have "256 * int (of_char a0) + int (of_char a1) = 256 * int (of_char b0) + int (of_char b1)"
    by (simp add: code_value_def)
  moreover have "x = (256 * x + y) div 256" "y = (256 * x + y) mod 256" if "0 \<le> y" "y < 256" for x y :: int
    using that by simp_all
  ultimately have "int (of_char a0) = int (of_char b0)" "int (of_char a1) = int (of_char b1)"
    using of_char_bound [of a1] of_char_bound [of b1] by metis+
  with ab show ?thesis by simp
qed

lemma bsearch_country_table:
  assumes "length cc = 2"
  shows "bsearch (cmp_country_code cc) country_table 0 (length country_table) = None \<longleftrightarrow> cc \<notin> set country_table"
proof -
  have mono: "code_value (country_table ! i) \<le> code_value (country_table ! j)" if "i \<le> j" "j < length country_table" for i j
    using sorted_nth_mono [OF country_table_sorted, of i j] that by simp
  have "cmp_country_code cc x = 0 \<longleftrightarrow> cc = x" if "x \<in> set country_table" for x
    using cmp_country_code_sgn [of cc x] code_value_inj [OF assms, of x] country_table_length that
    by (metis less_irrefl linorder_cases)
  then show ?thesis
    using mono
    by (subst bsearch_None_iff) (auto simp: cmp_country_code_sgn in_set_conv_nth intro: less_le_trans le_less_trans)
qed

section \<open>The check sum\<close>

lemma double_of_exact [simp]: "n < 2 ^ 53 \<Longrightarrow> double_of n = n"
  by (subst double_of_def, subst double_exponent.simps) simp

lemma digits_value_append: "digits_value (xs @ ys) = digits_value xs * 10 ^ length ys + digits_value ys"
proof (induction ys rule: rev_induct)
  case (snoc y ys)
  then show ?case by (simp add: digits_value_def algebra_simps)
qed (simp add: digits_value_def)

lemma digits_value_less: "\<forall>d\<in>set ds. d < 10 \<Longrightarrow> digits_value ds < 10 ^ length ds"
  by (induction ds rule: rev_induct) (auto simp: digits_value_def)

lemma iban_digits_less: "iban_digits cs = Some ds \<Longrightarrow> d \<in> set ds \<Longrightarrow> d < 10"
proof (induction cs arbitrary: ds)
  case (Cons c cs)
  then show ?case
    by (auto simp: bind_eq_Some_conv isalpha_def isdigit_def split: if_splits)
qed simp

lemma iban_digits_None: "iban_digits cs = None \<longleftrightarrow> (\<exists>c\<in>set cs. \<not> isalpha c \<and> \<not> isdigit c)"
  by (induction cs) auto

text \<open>Up to 29 digits every intermediate result fits into the 53 bits.\<close>

lemma iban_remainder_exact:
  assumes "length ds \<le> 29" and "\<forall>d\<in>set ds. d < 10"
  shows "iban_remainder ds 0 = digits_value ds mod 97"
proof (cases "length ds \<le> 16")
  case True
  then show ?thesis
    by (cases "ds = []") (simp_all add: iban_remainder.simps Let_def digits_value_def)
next
  case False
  let ?a = "take 16 ds" and ?b = "drop 16 ds"
  define r where "r = digits_value ?a mod 97"
  have len: "length ?b \<le> 13" "?b \<noteq> []" using False assms(1) by auto
  have b: "digits_value ?b < 10 ^ length ?b"
    using assms(2) by (intro digits_value_less) (auto dest: in_set_dropD)
  have p: "(10::nat) ^ length ?b \<le> 10 ^ 13" using len(1) by (intro power_increasing) auto
  have r: "r \<le> 96" by (simp add: r_def)
  then have rp: "r * 10 ^ length ?b \<le> 96 * 10 ^ 13" using p by (intro mult_mono) auto
  have d: "double_of (double_of (digits_value ?b) + double_of (r * double_of (10 ^ length ?b)))
      = digits_value ?b + r * 10 ^ length ?b"
    using b p rp by simp
  have "iban_remainder ds 0 = iban_remainder ?b r"
    using False by (subst iban_remainder.simps) (auto simp: Let_def r_def)
  also have "\<dots> = (digits_value ?b + r * 10 ^ length ?b) mod 97"
    using len d by (subst iban_remainder.simps) (simp add: Let_def iban_remainder.simps [of "[]"])
  also have "\<dots> = (digits_value ?a * 10 ^ length ?b + digits_value ?b) mod 97"
    by (metis r_def add.commute mod_add_left_eq mod_mult_left_eq)
  also have "\<dots> = digits_value ds mod 97"
    using digits_value_append [of ?a ?b] by simp
  finally show ?thesis .
qed

section \<open>Properties\<close>

text \<open>The check of the standard: a known country, and the number that is formed by moving the first
  four characters to the end and replacing letters leaves remainder 1.\<close>

definition iban_valid :: "string \<Rightarrow> bool" where
  "iban_valid iban \<longleftrightarrow> take 2 iban \<in> set country_table \<and>
     (\<exists>ds. iban_digits (drop 4 iban @ take 4 iban) = Some ds \<and> digits_value ds mod 97 = 1)"

text \<open>C35. For an IBAN that stands for a number of at most 29 digits the check, which works on chunks
  of 16 digits, partly in floating point arithmetic, and looks up the country by binary search, is
  the check of the standard.\<close>

theorem validate_iban_mod97:
  assumes "4 \<le> length iban" and "length iban \<le> 34"
    and "iban_digits (drop 4 iban @ take 4 iban) = Some ds" and "length ds \<le> 29"
  shows "validate_iban iban = Some (if iban_valid iban then GNUNET_YES else GNUNET_NO)"
proof -
  have cc: "length (take 2 iban) = 2" using assms(1) by simp
  have "iban_remainder ds 0 = digits_value ds mod 97"
    using assms(4) iban_digits_less [OF assms(3)] by (intro iban_remainder_exact) auto
  with assms bsearch_country_table [OF cc] show ?thesis
    by (auto simp: validate_iban_def iban_valid_def Let_def)
qed

theorem validate_iban_mod97_witness:
  "validate_iban ''DE89370400440532013000'' = Some GNUNET_YES"
proof -
  have "iban_valid ''DE89370400440532013000''"
    by (simp add: iban_valid_def country_table_def isalpha_def isdigit_def digits_value_def)
  then show ?thesis
    using validate_iban_mod97 [of "''DE89370400440532013000''"]
    by (simp add: isalpha_def isdigit_def)
qed

text \<open>C36. Checking an IBAN aborts the process exactly for texts of less than four characters, and for
  texts that start with a known country code but have a character that is neither a digit nor
  a letter. Polish IBANs, which stand for numbers of 30 digits, are beyond the precision of the floating
  point arithmetic: there is one that satisfies the standard and is refused.\<close>

theorem validate_iban_aborts:
  "(validate_iban iban = None \<longleftrightarrow> length iban < 4
      \<or> length iban \<le> 34 \<and> take 2 iban \<in> set country_table \<and> (\<exists>c\<in>set iban. \<not> isalpha c \<and> \<not> isdigit c))
   \<and> iban_valid ''PL03109010140000003212345678'' \<and> validate_iban ''PL03109010140000003212345678'' = Some GNUNET_NO"
proof (intro conjI)
  have "set (drop 4 iban @ take 4 iban) = set iban"
    by (metis Un_commute append_take_drop_id set_append)
  then show "validate_iban iban = None \<longleftrightarrow> length iban < 4
      \<or> length iban \<le> 34 \<and> take 2 iban \<in> set country_table \<and> (\<exists>c\<in>set iban. \<not> isalpha c \<and> \<not> isdigit c)"
    using bsearch_country_table [of "take 2 iban"] iban_digits_None [of "drop 4 iban @ take 4 iban"]
    by (cases "length iban < 4") (auto simp: validate_iban_def Let_def bind_eq_None_conv)
  show "iban_valid ''PL03109010140000003212345678''"
    by (simp add: iban_valid_def country_table_def isalpha_def isdigit_def digits_value_def)
  have "double_of 9012345678252103 = 9012345678252104"
    by (simp add: double_of_def double_exponent.simps [of 9012345678252103] double_exponent.simps [of 4506172839126051])
  then have "iban_remainder [1, 2, 3, 4, 5, 6, 7, 8, 2, 5, 2, 1, 0, 3] 90 = 2"
    by (subst iban_remainder.simps) (simp add: Let_def digits_value_def iban_remainder.simps [of "[]"])
  then have "iban_remainder [1, 0, 9, 0, 1, 0, 1, 4, 0, 0, 0, 0, 0, 0, 3, 2, 1, 2, 3, 4, 5, 6, 7, 8, 2, 5, 2, 1, 0, 3] 0 = 2"
    by (subst iban_remainder.simps) (simp add: Let_def digits_value_def)
  with bsearch_country_table [of "''PL''"] show "validate_iban ''PL03109010140000003212345678'' = Some GNUNET_NO"
    by (simp add: validate_iban_def Let_def isalpha_def isdigit_def country_table_def)
qed

end
