(* ===== verification/Json_Wire.thy ===== *)
theory Json_Wire
  imports Keystate Payto
begin

text \<open>
  \<^verbatim>\<open>src/util/crypto_wire.c\<close> and the part of \<^verbatim>\<open>src/json/json_wire.c\<close> that hashes and signs accounts.
  A JSON object is its text; what the JSON library finds as the string of a field of it is
  the parameter \<open>json_string\<close>.
\<close>

section \<open>Hashing and signing accounts\<close>

definition TALER_exchange_wire_signature_hash :: "crypto \<Rightarrow> string \<Rightarrow> hash_code" where
  "TALER_exchange_wire_signature_hash cr payto_uri =
     GNUNET_CRYPTO_kdf cr (payto_uri @ [NUL]) ''exchange-wire-signature'' []"

definition TALER_exchange_wire_signature_check :: "crypto \<Rightarrow> string \<Rightarrow> pub_key \<Rightarrow> signature \<Rightarrow> bool" where
  "TALER_exchange_wire_signature_check cr payto_uri master_pub master_sig =
     GNUNET_CRYPTO_eddsa_verify cr
       (TALER_MasterWireDetailsPS (TALER_exchange_wire_signature_hash cr payto_uri)) master_sig master_pub"

definition TALER_exchange_wire_signature_make :: "crypto \<Rightarrow> string \<Rightarrow> nat \<Rightarrow> signature" where
  "TALER_exchange_wire_signature_make cr payto_uri master_priv =
     GNUNET_CRYPTO_eddsa_sign cr master_priv
       (TALER_MasterWireDetailsPS (TALER_exchange_wire_signature_hash cr payto_uri))"

definition TALER_merchant_wire_signature_hash :: "crypto \<Rightarrow> string \<Rightarrow> string \<Rightarrow> hash_code" where
  "TALER_merchant_wire_signature_hash cr payto_uri salt =
     GNUNET_CRYPTO_kdf cr (salt @ [NUL]) (payto_uri @ [NUL]) [''merchant-wire-signature'']"

definition TALER_merchant_wire_signature_check :: "crypto \<Rightarrow> string \<Rightarrow> string \<Rightarrow> pub_key \<Rightarrow> signature \<Rightarrow> bool" where
  "TALER_merchant_wire_signature_check cr payto_uri salt merch_pub merch_sig =
     GNUNET_CRYPTO_eddsa_verify cr
       (TALER_MasterWireDetailsPS_merchant (TALER_merchant_wire_signature_hash cr payto_uri salt)) merch_sig merch_pub"

definition TALER_merchant_wire_signature_make :: "crypto \<Rightarrow> string \<Rightarrow> string \<Rightarrow> nat \<Rightarrow> signature" where
  "TALER_merchant_wire_signature_make cr payto_uri salt merch_priv =
     GNUNET_CRYPTO_eddsa_sign cr merch_priv
       (TALER_MasterWireDetailsPS_merchant (TALER_merchant_wire_signature_hash cr payto_uri salt))"

section \<open>JSON\<close>

type_synonym json_string = "string \<Rightarrow> string \<Rightarrow> string option"

text \<open>The outer option is the abort of the process, the inner one the result \<^verbatim>\<open>GNUNET_SYSERR\<close> or \<^verbatim>\<open>NULL\<close>.\<close>

definition TALER_JSON_merchant_wire_signature_hash ::
    "crypto \<Rightarrow> json_string \<Rightarrow> string \<Rightarrow> hash_code option option" where
  "TALER_JSON_merchant_wire_signature_hash cr json_string wire_s =
     (case (json_string wire_s ''payto_uri'', json_string wire_s ''salt'') of
        (Some payto_uri, Some salt) \<Rightarrow> do {
          r \<leftarrow> validate_payto payto_uri;
          Some (if r = GNUNET_SYSERR then None
                else Some (TALER_merchant_wire_signature_hash cr payto_uri salt))
        }
      | _ \<Rightarrow> Some None)"

text \<open>The signature of the object is parsed by the JSON library as well.\<close>

definition TALER_JSON_exchange_wire_signature_check ::
    "crypto \<Rightarrow> json_string \<Rightarrow> (string \<Rightarrow> string \<Rightarrow> signature option) \<Rightarrow> string \<Rightarrow> pub_key \<Rightarrow> int option" where
  "TALER_JSON_exchange_wire_signature_check cr json_string json_fixed wire_s master_pub =
     (case (json_string wire_s ''payto_uri'', json_fixed wire_s ''master_sig'') of
        (Some payto_uri, Some master_sig) \<Rightarrow> do {
          r \<leftarrow> validate_payto payto_uri;
          Some (if r = GNUNET_SYSERR then GNUNET_SYSERR
                else if TALER_exchange_wire_signature_check cr payto_uri master_pub master_sig
                then GNUNET_OK else GNUNET_SYSERR)
        }
      | _ \<Rightarrow> Some GNUNET_SYSERR)"

definition TALER_JSON_exchange_wire_signature_make ::
    "crypto \<Rightarrow> string \<Rightarrow> nat \<Rightarrow> (string \<times> signature) option option" where
  "TALER_JSON_exchange_wire_signature_make cr payto_uri master_priv = do {
     r \<leftarrow> validate_payto payto_uri;
     Some (if r = GNUNET_SYSERR then None
           else Some (payto_uri, TALER_exchange_wire_signature_make cr payto_uri master_priv))
   }"

definition TALER_JSON_wire_to_payto :: "json_string \<Rightarrow> string \<Rightarrow> string option option" where
  "TALER_JSON_wire_to_payto json_string wire_s =
     (case json_string wire_s ''payto_uri'' of
        None \<Rightarrow> Some None
      | Some payto_str \<Rightarrow> do {
          r \<leftarrow> validate_payto payto_str;
          Some (if r = GNUNET_SYSERR then None else Some payto_str)
        })"

definition TALER_JSON_wire_to_method :: "json_string \<Rightarrow> string \<Rightarrow> string option" where
  "TALER_JSON_wire_to_method json_string wire_s =
     (case json_string wire_s ''payto_uri'' of
        None \<Rightarrow> None
      | Some payto_str \<Rightarrow> TALER_payto_get_method payto_str)"

section \<open>Property\<close>

text \<open>A statement about an account of the exchange that was made with the master key is
  accepted under the master public key: the account is checked when the statement is made and when
  it is read, with the same result.\<close>

theorem exchange_wire_signature_roundtrip:
  assumes "\<And>m. GNUNET_CRYPTO_eddsa_verify cr m (GNUNET_CRYPTO_eddsa_sign cr priv m) pub"
    and "TALER_JSON_exchange_wire_signature_make cr payto_uri priv = Some (Some (uri, sig))"
    and "json_string wire ''payto_uri'' = Some uri" and "json_fixed wire ''master_sig'' = Some sig"
  shows "TALER_JSON_exchange_wire_signature_check cr json_string json_fixed wire pub = Some GNUNET_OK
     \<and> TALER_JSON_wire_to_payto json_string wire = Some (Some payto_uri)"
  using assms
  by (auto simp: TALER_JSON_exchange_wire_signature_make_def TALER_JSON_exchange_wire_signature_check_def
      TALER_exchange_wire_signature_check_def TALER_exchange_wire_signature_make_def TALER_JSON_wire_to_payto_def
      bind_eq_Some_conv split: if_splits)

theorem exchange_wire_signature_roundtrip_witness:
  "TALER_JSON_exchange_wire_signature_check sample_crypto (\<lambda>w f. Some ''payto://x-taler-bank/h/42'')
     (\<lambda>w f. Some 4) ''wire'' 4 = Some GNUNET_OK"
  using exchange_wire_signature_roundtrip [of sample_crypto 4 4 "''payto://x-taler-bank/h/42''" "''payto://x-taler-bank/h/42''" 4
      "\<lambda>w f. Some ''payto://x-taler-bank/h/42''" "''wire''" "\<lambda>w f. Some 4"]
  by (simp add: sample_crypto_def TALER_JSON_exchange_wire_signature_make_def validate_payto_def
      TALER_exchange_wire_signature_make_def validate_payto_iban_def has_prefix_nocase_def tolower_def)

end
