(* ===== verification/Handler_Context.thy ===== *)
theory Handler_Context
  imports Responses Transaction_Runner Json_Wire Amount_Text
begin

text \<open>
  What the request handlers of \<^verbatim>\<open>src/exchange\<close> have in common: the database plugin, the
  cryptography, the clock and the key state that a request finds. The key state is acquired once
  for the checks of a request and again whenever a reply is signed; another thread may have
  replaced it in between. A handler starts with the fields of the request, as the JSON parser has
  filled them in, and yields the reply it queued; \<open>None\<close> instead of a reply is the return
  value \<open>-1\<close> with which no reply was queued.
\<close>

record TEH =
  teh_gnunet :: gnunet
  teh_pg :: PostgresClosure
  teh_crypto :: crypto
  teh_json_string :: json_string
  teh_now :: "nat \<Rightarrow> abs_time"
  teh_duration :: "abs_time \<Rightarrow> u64"
  teh_remaining :: "abs_time \<Rightarrow> u64"
  teh_keys :: "TEH_KS_StateHandle option"
  teh_sign_keys :: "TEH_KS_StateHandle option"

abbreviation teh_currency :: "TEH \<Rightarrow> string" where
  "teh_currency teh \<equiv> pg_currency (teh_pg teh)"

abbreviation teh_hton :: "TEH \<Rightarrow> TALER_Amount \<Rightarrow> TALER_AmountNBO option" where
  "teh_hton teh \<equiv> TALER_amount_hton (GNUNET_htonll (teh_crypto teh))"

abbreviation teh_ntoh :: "TEH \<Rightarrow> TALER_AmountNBO \<Rightarrow> TALER_Amount option" where
  "teh_ntoh teh \<equiv> TALER_amount_ntoh (GNUNET_ntohll (teh_crypto teh))"

text \<open>The lookup of a denomination key reads the clock twice.\<close>

abbreviation teh_lookup ::
    "TEH \<Rightarrow> TEH_KS_StateHandle \<Rightarrow> hash_code \<Rightarrow> TEH_KS_DenominationKeyUse
       \<Rightarrow> TALER_ErrorCode \<times> nat + TALER_EXCHANGEDB_DenominationKey" where
  "teh_lookup teh \<equiv> TEH_KS_denomination_key_lookup_by_hash (teh_now teh 0) (teh_now teh 1)"

section \<open>What holds of the context\<close>

text \<open>The keys that were loaded are indexed by the hash of the public key, and their amounts are
  legal amounts in the currency of the exchange.\<close>

definition denomination_ok :: "TEH \<Rightarrow> hash_code \<Rightarrow> TALER_EXCHANGEDB_DenominationKey \<Rightarrow> bool" where
  "denomination_ok teh h dki \<longleftrightarrow>
     GNUNET_CRYPTO_rsa_public_key_hash (teh_crypto teh) (denom_pub dki) = h
     \<and> (\<forall>sel\<in>{dk_value, dk_fee_withdraw, dk_fee_deposit, dk_fee_refresh, dk_fee_refund}.
          \<exists>a. teh_ntoh teh (sel (issue_properties dki)) = Some a \<and> amount_in (teh_currency teh) a)"

definition keys_ok :: "TEH \<Rightarrow> TEH_KS_StateHandle \<Rightarrow> bool" where
  "keys_ok teh ks \<longleftrightarrow> (\<forall>h dki. denomkey_map ks h = Some dki \<or> revoked_map ks h = Some dki \<longrightarrow> denomination_ok teh h dki)"

definition teh_ok :: "TEH \<Rightarrow> bool" where
  "teh_ok teh \<longleftrightarrow> gnunet_ok (teh_gnunet teh) \<and> pg_ok (teh_pg teh) \<and> (\<forall>ks. teh_keys teh = Some ks \<longrightarrow> keys_ok teh ks)"

lemma teh_okD:
  assumes "teh_ok teh"
  shows "gnunet_ok (teh_gnunet teh)" "pg_ok (teh_pg teh)" "teh_keys teh = Some ks \<Longrightarrow> keys_ok teh ks"
  using assms by (simp_all add: teh_ok_def)

lemma lookup_denomination_ok:
  assumes "keys_ok teh ks" and "TEH_KS_denomination_key_lookup_by_hash now now' ks h use = Inr dki"
  shows "denomination_ok teh h dki"
  using assms lookup_InrD [OF assms(2)] by (auto simp: keys_ok_def)

lemma denomination_okD:
  assumes "denomination_ok teh h dki"
  shows "GNUNET_CRYPTO_rsa_public_key_hash (teh_crypto teh) (denom_pub dki) = h"
    and "\<exists>a. teh_ntoh teh (dk_value (issue_properties dki)) = Some a \<and> amount_in (teh_currency teh) a"
    and "\<exists>a. teh_ntoh teh (dk_fee_withdraw (issue_properties dki)) = Some a \<and> amount_in (teh_currency teh) a"
    and "\<exists>a. teh_ntoh teh (dk_fee_deposit (issue_properties dki)) = Some a \<and> amount_in (teh_currency teh) a"
    and "\<exists>a. teh_ntoh teh (dk_fee_refresh (issue_properties dki)) = Some a \<and> amount_in (teh_currency teh) a"
    and "\<exists>a. teh_ntoh teh (dk_fee_refund (issue_properties dki)) = Some a \<and> amount_in (teh_currency teh) a"
  using assms by (auto simp: denomination_ok_def)

lemma test_coin_valid_Some:
  "GNUNET_CRYPTO_rsa_public_key_hash cr pub = coin_denom_pub_hash coin \<Longrightarrow>
     TALER_test_coin_valid cr coin pub = Some (if GNUNET_CRYPTO_rsa_verify cr (GNUNET_CRYPTO_hash_key cr (coin_pub coin))
       (coin_denom_sig coin) pub then GNUNET_YES else GNUNET_NO)"
  by (simp add: TALER_test_coin_valid_def)

text \<open>The amounts of a request: what the JSON parser fills in comes from \<^verbatim>\<open>TALER_string_to_amount\<close>. The currency fits into its
  field, but it may be empty; that it is a currency is known only once the handler has compared it with another one.\<close>

definition request_amount :: "TALER_Amount \<Rightarrow> bool" where
  "request_amount a \<longleftrightarrow> strlen (amt_currency a) < TALER_CURRENCY_LEN \<and> amount_normal a"

lemma request_amount_parsed: "TALER_string_to_amount s = (GNUNET_OK, a) \<Longrightarrow> request_amount a"
  using string_to_amount_parsed [of s a] by (simp add: request_amount_def)

lemma request_amount_in:
  assumes "request_amount a" and "amount_in c b" and "TALER_amount_cmp_currency a b = GNUNET_YES"
  shows "amount_in c a"
  using assms
  by (auto simp: request_amount_def amount_in_def cmp_currency_YES_iff amount_wf_def
      dest: strcasecmp_eq_sym intro: strcasecmp_eq_trans)

text \<open>The wire details of a request abort the process if they cannot be hashed: the validation of the
  account fails an assertion, as it does for some IBANs.\<close>

definition wire_details_abort :: "TEH \<Rightarrow> string \<Rightarrow> bool" where
  "wire_details_abort teh wire \<longleftrightarrow>
     TALER_JSON_merchant_wire_signature_hash (teh_crypto teh) (teh_json_string teh) wire = None"

lemma wire_details_abort_iff:
  "wire_details_abort teh wire \<longleftrightarrow> (\<exists>uri salt. teh_json_string teh wire ''payto_uri'' = Some uri
     \<and> teh_json_string teh wire ''salt'' = Some salt \<and> validate_payto uri = None)"
  by (cases "teh_json_string teh wire ''payto_uri''"; cases "teh_json_string teh wire ''salt''")
    (auto simp: wire_details_abort_def TALER_JSON_merchant_wire_signature_hash_def bind_eq_None_conv)

section \<open>Rules for the transactions\<close>

text \<open>Fetching the history of a coin and computing its total\<close>

lemma coin_transactions_bind_wpa:
  assumes "gnunet_ok g" and "session_ok s" and u: "unchanged s s1"
    and h: "coin_history g pg pub recoup (s_db s) = Some txs"
    and "\<And>s'. unchanged s s' \<Longrightarrow> wpa b (f ((GNUNET_DB_STATUS_SOFT_ERROR, []), s')) Q"
    and "\<And>s'. unchanged s s' \<Longrightarrow> wpa b (f ((GNUNET_DB_STATUS_HARD_ERROR, []), s')) Q"
    and "\<And>qs s'. unchanged s s' \<Longrightarrow> 0 \<le> qs \<Longrightarrow> wpa b (f ((qs, txs), s')) Q"
  shows "wpa b (postgres_get_coin_transactions g pg pub recoup s1 \<bind> f) Q"
proof -
  have s1: "session_ok s1" "s_db s1 = s_db s"
    using session_ok_unchanged [OF assms(2) u] u by (auto simp: unchanged_def)
  show ?thesis
    using assms(5-7) unchanged_trans [OF u] h s1(2)
    by (intro wpa_bindI [OF wpaI [OF get_coin_transactions_wp [OF assms(1) s1(1), of pg pub recoup txs]]]) auto
qed

lemma coin_totals_bind_wpa:
  assumes "history_ok c recoup db pub txs" and "amount_in c off"
    and "\<And>t. wpa b (f (GNUNET_SYSERR, t)) Q"
    and "\<And>t. amount_in c t \<Longrightarrow> amt t = amt off + coin_spent recoup db pub \<Longrightarrow> wpa b (f (GNUNET_OK, t)) Q"
  shows "wpa b (TALER_EXCHANGEDB_calculate_transaction_list_totals txs off ret \<bind> f) Q"
  by (rule wpa_bindI [OF wpaI [OF coin_totals_wp [OF assms(1,2)]]]) (use assms(3,4) in \<open>auto split: if_splits\<close>)

lemmas coin_transactions_bind = coin_transactions_bind_wpa [where b = False, unfolded wpa_simps(3)]
lemmas coin_totals_bind = coin_totals_bind_wpa [where b = False, unfolded wpa_simps(3)]

text \<open>The reply for insufficient funds never is a success.\<close>

lemma insufficient_no_success:
  assumes "tl_in c txs"
  obtains r where "TEH_RESPONSE_reply_coin_insufficient_funds cr ks ec coin txs = Some r"
    and "\<And>x. r \<noteq> reply_ok MHD_HTTP_OK x"
proof -
  obtain r where r: "TEH_RESPONSE_reply_coin_insufficient_funds cr ks ec coin txs = Some r"
    "\<And>hc x. r = reply_ok hc x \<Longrightarrow> hc = MHD_HTTP_CONFLICT"
    using reply_insufficient_total [OF assms] by blast
  show ?thesis
    by (rule that [OF r(1)]) (use r(2) [of MHD_HTTP_OK] in auto)
qed

lemma unchanged_fresh:
  assumes "in_fresh_tx s" and "unchanged s s'"
  shows "session_ok s'" "s_db s' = s_db s" "s_committed s' = s_db s" "s_in_tx s'" "tx_outcome s' = s_db s"
  using session_ok_unchanged [OF in_fresh_txD(1) [OF assms(1)] assms(2)] in_fresh_txD [OF assms(1)] assms(2)
  by (auto simp: unchanged_def tx_outcome_def)

text \<open>Inserting a row at the end of a transaction\<close>

lemma insert_callback:
  assumes s: "in_fresh_tx s" and u: "unchanged s s'"
    and ins: "wp m (insert_ok add new dup s')"
    and Cls: "Cls c" and inv: "Inv (s_db s)"
    and new: "\<And>row. new (s_db s) row \<Longrightarrow> Inv (add row (s_db s)) \<and> Post c (s_db s) c (add row (s_db s))"
    and dup: "dup (s_db s) \<Longrightarrow> Post c (s_db s) c (s_db s)"
    and hard: "\<And>hc ec. Hard (s_db s) (Some (TALER_MHD_reply_with_error hc ec))"
  shows "wp (m \<bind> (\<lambda>(qs, s). Some ((qs, if qs = GNUNET_DB_STATUS_HARD_ERROR then Some (TALER_MHD_reply_with_error hc ec)
       else None, c), s))) (callback_ok Inv Cls Post Hard c (s_db s))"
proof (rule wp_bindI [OF ins], goal_cases)
  case (1 qs s'')
  note f = unchanged_fresh [OF s u]
  consider row where "qs = 1" "new (s_db s) row" "updated s' (add row (s_db s)) s''"
    | "qs = - 1 \<or> qs = - 2" "unchanged s' s''"
    | "qs = 0" "unchanged s' s''" "s_failed s'' = s_in_tx s'" "dup (s_db s)"
    using 1 f(2) by (auto simp: insert_ok_def)
  then show ?case
  proof cases
    case (1 row)
    then have "tx_outcome s'' = add row (s_db s)" "s_committed s'' = s_db s"
      using f by (auto simp: tx_outcome_def updated_def)
    with 1 new [OF 1(2)] Cls show ?thesis by (auto simp: callback_ok_def)
  next
    case 2
    with f Cls hard show ?thesis by (auto simp: callback_ok_def unchanged_def)
  next
    case 3
    then have "tx_outcome s'' = s_db s" "s_committed s'' = s_db s"
      using f by (auto simp: tx_outcome_def unchanged_def)
    with 3 dup inv Cls show ?thesis by (auto simp: callback_ok_def)
  qed
qed

text \<open>What the transaction that makes a coin known does, whether or not it succeeds\<close>

definition made_known :: "TALER_CoinPublicInfo \<Rightarrow> tables \<Rightarrow> tables \<Rightarrow> bool" where
  "made_known coin db db' \<longleftrightarrow> db' = db \<or> known_effect coin db db'"

lemma made_known_refl [simp]: "made_known coin db db"
  by (simp add: made_known_def)

lemma made_known_effect: "known_effect coin db db' \<Longrightarrow> made_known coin db db'"
  by (simp add: made_known_def)

lemma made_known_sels:
  assumes "made_known coin db db1"
  shows "t_deposits db1 = t_deposits db" "t_refunds db1 = t_refunds db" "t_refresh_commitments db1 = t_refresh_commitments db"
    "t_refresh_revealed_coins db1 = t_refresh_revealed_coins db" "t_recoup db1 = t_recoup db"
    "t_recoup_refresh db1 = t_recoup_refresh db" "t_reserves_out db1 = t_reserves_out db" "reserve_net db1 p = reserve_net db p"
  using assms by (auto simp: made_known_def known_effect_def reserve_total_defs)

lemma made_known_spent:
  "made_known coin db db1 \<Longrightarrow> coin_tables_ok db \<Longrightarrow> coin_spent r db1 p = coin_spent r db p"
  using coin_spent_known [of db "known_row coin"] by (auto simp: made_known_def known_effect_def)

text \<open>Amounts that \<^verbatim>\<open>memset\<close> has set to zero\<close>

definition zero_amount :: TALER_Amount where
  "zero_amount = \<lparr>amt_value = 0, amt_fraction = 0, amt_currency = replicate TALER_CURRENCY_LEN NUL\<rparr>"

text \<open>An operation of the plugin that is called without a session takes the one of the thread; it does not check
  that there is one.\<close>

definition with_thread_session ::
    "('db session \<Rightarrow> ('a \<times> 'db session) option) \<Rightarrow> 'db session \<Rightarrow> ('a \<times> 'db session) option" where
  "with_thread_session op s = (let (ok, s) = postgres_get_session s in if ok then op s else None)"

definition connected :: "'db session \<Rightarrow> bool" where
  "connected s \<longleftrightarrow> fst (postgres_get_session s)"

lemma unchanged_idle: "unchanged s s' \<Longrightarrow> idle s \<Longrightarrow> idle s' \<and> s_committed s' = s_committed s"
  by (auto simp: unchanged_def idle_def)

lemma with_thread_session_wp:
  assumes "connected s" and "idle s"
    and "\<And>s1. idle s1 \<Longrightarrow> s_committed s1 = s_committed s \<Longrightarrow> wp (op s1) Q"
  shows "wp (with_thread_session op s) Q"
  using assms get_session_idle [of s] by (auto simp: with_thread_session_def connected_def split: prod.splits)

lemma with_thread_session_wpa:
  assumes "idle s" and "\<not> connected s \<longrightarrow> b"
    and "\<And>s1. idle s1 \<Longrightarrow> s_committed s1 = s_committed s \<Longrightarrow> wpa b (op s1) Q"
  shows "wpa b (with_thread_session op s) Q"
  using assms get_session_idle [of s] by (auto simp: with_thread_session_def connected_def split: prod.splits)

lemma with_thread_session_unconnected: "\<not> connected s \<Longrightarrow> with_thread_session op s = None"
  by (cases "postgres_get_session s") (simp add: with_thread_session_def connected_def)

lemma get_coin_denomination_known:
  assumes "gnunet_ok g" and "idle s"
  shows "wp (postgres_get_coin_denomination g p s) (\<lambda>(qs, _) s'. idle s' \<and> s_committed s' = s_committed s
     \<and> (qs = GNUNET_DB_STATUS_SUCCESS_ONE_RESULT \<longrightarrow> coin_known (s_committed s) p))"
  unfolding postgres_get_coin_denomination_def
proof (rule wp_mono [OF pq_singleton_select_wp [OF assms(1) idle_session_ok [OF assms(2)]]], goal_cases)
  case (1 x s')
  have "coin_known (s_db s) p" if "sql_get_coin_denomination p (s_db s) = [h]" for h
  proof -
    have "h \<in> set (sql_get_coin_denomination p (s_db s))" using that by simp
    then show ?thesis by (auto simp: sql_get_coin_denomination_def sql_get_known_coin_def coin_known_def)
  qed
  with 1 assms(2) unchanged_idle [of s s'] show ?case by (auto simp: idle_def)
qed

text \<open>The entries of a history come from rows.\<close>

lemma history_entries_mem:
  "history_entries cb rows = Some es \<Longrightarrow> e \<in> set es \<Longrightarrow> \<exists>r\<in>set rows. cb r = Some e"
  unfolding history_entries_def by (drule (1) those_map_set) simp

text \<open>The amounts of a request that name a currency are amounts in that currency.\<close>

lemma request_amount_self: "request_amount a \<Longrightarrow> TALER_amount_is_valid a \<Longrightarrow> amount_in (amt_currency a) a"
  by (simp add: request_amount_def amount_in_def amount_wf_def)

section \<open>A sample\<close>

definition sample_teh :: TEH where
  "sample_teh = \<lparr>teh_gnunet = sample_gnunet, teh_pg = sample_pg, teh_crypto = sample_crypto,
     teh_json_string = (\<lambda>w f. Some ''payto://x-taler-bank/h/42''), teh_now = (\<lambda>_. 150), teh_duration = (\<lambda>_. 0),
     teh_remaining = (\<lambda>_. 0), teh_keys = Some sample_keys, teh_sign_keys = Some sample_keys\<rparr>"

lemma sample_teh_sels [simp]:
  "teh_gnunet sample_teh = sample_gnunet" "teh_pg sample_teh = sample_pg" "teh_crypto sample_teh = sample_crypto"
  "teh_keys sample_teh = Some sample_keys" "teh_sign_keys sample_teh = Some sample_keys"
  "teh_now sample_teh i = 150" "teh_duration sample_teh t = 0" "teh_remaining sample_teh t = 0"
  by (simp_all add: sample_teh_def)

lemma sample_nbo: "TALER_amount_ntoh (GNUNET_ntohll sample_crypto) (sample_nbo v) = Some (mk_amount ''EUR'' v 0)"
  by (simp add: sample_nbo_def TALER_amount_ntoh_def sample_crypto_def mk_amount_def TALER_CURRENCY_LEN_def
      TALER_amount_is_valid_def htonl_def cstr_def strlen_def)

lemma sample_teh_ok: "teh_ok sample_teh" "teh_currency sample_teh = ''EUR''" "keys_ok sample_teh sample_keys"
proof -
  show "keys_ok sample_teh sample_keys"
    by (auto simp: keys_ok_def sample_keys_def denomination_ok_def sample_denomination_def sample_nbo sample_ok
        mk_amount_in_EUR) (simp add: sample_crypto_def)
  then show "teh_ok sample_teh" by (simp add: teh_ok_def sample_ok)
  show "teh_currency sample_teh = ''EUR''" by (simp add: sample_ok)
qed

lemma sample_lookup:
  "use \<noteq> TEH_KS_DKU_RECOUP \<Longrightarrow>
     TEH_KS_denomination_key_lookup_by_hash 150 150 sample_keys 7 use = Inr sample_denomination"
  by (cases use) (simp_all add: TEH_KS_denomination_key_lookup_by_hash_def sample_keys_def sample_denomination_def)

end
