(* ===== verification/Undisturbed.thy ===== *)
theory Undisturbed
  imports Handler_Context
begin

text \<open>
  The database without errors: no statement fails for reasons outside of the exchange. Then the
  queries answer and the transactions are committed, which is what the statements that
  a request succeeds rest on.
\<close>

definition undisturbed :: "'db session \<Rightarrow> bool" where
  "undisturbed s \<longleftrightarrow> s_outcomes s = [] \<and> \<not> s_failed s"

lemma next_outcome_undisturbed [simp]: "undisturbed s \<Longrightarrow> next_outcome s = (PQ_RUN, s)"
  by (simp add: undisturbed_def next_outcome_def)

lemma denied_undisturbed [simp]: "undisturbed s \<Longrightarrow> pq_denied PQ_RUN s = None"
  by (simp add: undisturbed_def pq_denied_def)

lemma undisturbed_sels [simp]:
  "undisturbed (s\<lparr>s_transaction_name := n\<rparr>) = undisturbed s" "undisturbed (s\<lparr>s_db := db\<rparr>) = undisturbed s"
  "undisturbed (s\<lparr>s_committed := db\<rparr>) = undisturbed s" "undisturbed (s\<lparr>s_in_tx := b\<rparr>) = undisturbed s"
  "undisturbed (s\<lparr>s_serial := k\<rparr>) = undisturbed s"
  "undisturbed s \<Longrightarrow> undisturbed (end_transaction s)"
  by (simp_all add: undisturbed_def end_transaction_def)

section \<open>Statements\<close>

lemma singleton_undisturbed:
  assumes "undisturbed s"
  shows "query (s_db s) = [] \<Longrightarrow> pq_singleton_select g query s = Some ((GNUNET_DB_STATUS_SUCCESS_NO_RESULTS, None), s)"
    and "query (s_db s) = [r] \<Longrightarrow> pq_singleton_select g query s = Some ((GNUNET_DB_STATUS_SUCCESS_ONE_RESULT, Some r), s)"
  using assms by (simp_all add: pq_singleton_select_def)

lemma history_select_undisturbed:
  assumes "undisturbed s" and "history_entries cb (query (s_db s)) = Some es"
  shows "\<exists>qs. history_select g query cb s = Some ((qs, es, False), s) \<and> 0 \<le> qs"
  using assms by (auto simp: history_select_def pq_multi_select_def history_entries_def Let_def)

lemma history_work_undisturbed:
  assumes "undisturbed s" and "history_entries cb (query (s_db s)) = Some es"
  shows "coin_history_work (history_select g query cb # ws) head s = coin_history_work ws (es @ head) s"
  using history_select_undisturbed [where cb = cb and query = query, OF assms, of g] by auto

lemma insert_undisturbed:
  assumes "undisturbed s" and "stmt (s_serial s) (s_db s) = Inr (1, db)"
  shows "\<exists>s'. pq_non_select g stmt s = Some (1, s') \<and> undisturbed s'"
  using assms by (simp add: pq_non_select_def)

lemma coin_transactions_undisturbed:
  assumes "undisturbed s" and "coin_history g pg pub recoup (s_db s) = Some txs"
  shows "\<exists>qs. postgres_get_coin_transactions g pg pub recoup s = Some ((qs, txs), s) \<and> 0 \<le> qs"
  using assms(2)
  by (cases recoup)
    (auto simp: coin_history_def bind_eq_Some_conv postgres_get_coin_transactions_def Let_def
      history_work_undisturbed [OF assms(1)] simp del: coin_history_work.simps(2))

section \<open>Transactions\<close>

text \<open>A unique violation in the callback leaves the transaction in the failed state, which does not disturb the commit.\<close>

lemma run_transaction_undisturbed_outcomes:
  assumes s: "undisturbed s" "idle s"
    and cb: "\<And>s1. undisturbed s1 \<Longrightarrow> in_fresh_tx s1 \<Longrightarrow> s_db s1 = s_committed s \<Longrightarrow>
      \<exists>qs c' s2. cb c s1 = Some ((qs, None, c'), s2) \<and> 0 \<le> qs \<and> s_outcomes s2 = [] \<and> P c'"
  shows "\<exists>c' s'. TEH_DB_run_transaction g name cb c s = Some ((GNUNET_OK, None, c'), s') \<and> undisturbed s' \<and> P c'"
proof -
  have "idle (postgres_preflight s)" "undisturbed (postgres_preflight s)"
    "s_committed (postgres_preflight s) = s_committed s"
    using s by (auto simp: postgres_preflight_def exec_rollback_def end_transaction_def idle_def undisturbed_def)
  moreover define s1 where "s1 = postgres_preflight s\<lparr>s_db := s_committed s, s_in_tx := True, s_transaction_name := Some name\<rparr>"
  ultimately have s1: "postgres_start name s = Some (GNUNET_OK, s1)" "undisturbed s1" "in_fresh_tx s1" "s_db s1 = s_committed s"
    by (simp_all add: postgres_start_def Let_def idle_def in_fresh_tx_def session_ok_def undisturbed_def)
  from cb [OF s1(2-)] obtain qs c' s2 where s2: "cb c s1 = Some ((qs, None, c'), s2)" "0 \<le> qs" "s_outcomes s2 = []" "P c'"
    by blast
  have "\<exists>s3. postgres_commit g s2 = Some (0, s3) \<and> undisturbed s3"
    using s2(3) by (simp add: postgres_commit_def next_outcome_def undisturbed_def end_transaction_def)
  with s1(1) s2 s(1) show ?thesis
    by (auto simp: TEH_DB_run_transaction_def postgres_get_session_def eval_nat_numeral)
qed

lemma run_transaction_undisturbed_context:
  assumes "undisturbed s" "idle s"
    and "\<And>s1. undisturbed s1 \<Longrightarrow> in_fresh_tx s1 \<Longrightarrow> s_db s1 = s_committed s \<Longrightarrow>
      \<exists>qs c' s2. cb c s1 = Some ((qs, None, c'), s2) \<and> 0 \<le> qs \<and> undisturbed s2 \<and> P c'"
  shows "\<exists>c' s'. TEH_DB_run_transaction g name cb c s = Some ((GNUNET_OK, None, c'), s') \<and> undisturbed s' \<and> P c'"
  by (rule run_transaction_undisturbed_outcomes [OF assms(1,2)]) (use assms(3) in \<open>fastforce simp: undisturbed_def\<close>)

lemmas run_transaction_undisturbed = run_transaction_undisturbed_context [where P = "\<lambda>_. True", simplified]

text \<open>A coin that is known, or of a denomination that is, can be made known.\<close>

lemma know_coin_undisturbed:
  assumes "undisturbed s" and "coin_tables_ok (s_db s)"
    and "coin_known (s_db s) (coin_pub coin) \<or> denom_known (s_db s) (coin_denom_pub_hash coin)"
  shows "\<exists>qs c' s'. TEH_DB_know_coin_transaction g coin s = Some ((qs, None, c'), s') \<and> 0 \<le> qs \<and> undisturbed s'"
proof (cases "coin_known (s_db s) (coin_pub coin)")
  case True
  then obtain k where k: "k \<in> set (t_known_coins (s_db s))" "kc_coin_pub k = coin_pub coin"
    by (auto simp: coin_known_def)
  have "distinct (map kc_coin_pub (t_known_coins (s_db s)))"
    using assms(2) by (simp add: coin_tables_ok_def reserve_tables_ok_def)
  from filter_key_unique [OF this k(1)] have "sql_get_known_coin (coin_pub coin) (s_db s) = [k]"
    by (simp add: sql_get_known_coin_def k(2))
  then show ?thesis
    using assms(1)
    by (simp add: TEH_DB_know_coin_transaction_def postgres_ensure_coin_known_def postgres_get_known_coin_def singleton_undisturbed)
next
  case False
  then have "sql_get_known_coin (coin_pub coin) (s_db s) = []"
    by (simp add: sql_get_known_coin_def coin_known_def filter_empty_conv)
  moreover have "\<exists>s'. insert_known_coin g coin s = Some (1, s') \<and> undisturbed s'"
    unfolding insert_known_coin_def
    using False assms(1,3) by (intro insert_undisturbed) (auto simp: sql_insert_known_coin_def)
  ultimately show ?thesis
    using assms(1)
    by (auto simp: TEH_DB_know_coin_transaction_def postgres_ensure_coin_known_def postgres_get_known_coin_def singleton_undisturbed)
qed

end
