(* ===== verification/Deposit.thy ===== *)
theory Deposit
  imports Undisturbed
begin

text \<open>
  \<^verbatim>\<open>src/exchange/taler-exchange-httpd_deposit.c\<close>: depositing a coin. The transaction is an instance
  of the contract of the transaction runner; what follows for a whole request is proved at the end.
\<close>

section \<open>The request\<close>

record DepositContext =
  dc_deposit :: TALER_EXCHANGEDB_Deposit
  dc_value :: TALER_Amount

definition reply_deposit_success ::
    "TEH \<Rightarrow> pub_key \<Rightarrow> hash_code \<Rightarrow> hash_code \<Rightarrow> abs_time \<Rightarrow> abs_time \<Rightarrow> pub_key \<Rightarrow> TALER_Amount
       \<Rightarrow> exchange_reply reply option" where
  "reply_deposit_success teh coin h_wire h_contract_terms timestamp refund_deadline merchant amount_without_fee = do {
     amount' \<leftarrow> teh_hton teh amount_without_fee;
     let dc = TALER_DepositConfirmationPS h_contract_terms h_wire timestamp refund_deadline amount' coin merchant;
     Some (case TEH_KS_sign (teh_crypto teh) (teh_sign_keys teh) dc of
             None \<Rightarrow> TALER_MHD_reply_with_error MHD_HTTP_INTERNAL_SERVER_ERROR TALER_EC_EXCHANGE_BAD_CONFIGURATION
           | Some (pub, sig) \<Rightarrow> reply_ok MHD_HTTP_OK (DEPOSIT_OK sig pub))
   }"

text \<open>The same for the fields of a deposit, after subtracting the fee\<close>

definition deposit_success :: "TEH \<Rightarrow> TALER_EXCHANGEDB_Deposit \<Rightarrow> exchange_reply reply option" where
  "deposit_success teh deposit = do {
     (r, amount_without_fee) \<leftarrow> TALER_amount_subtract invalidate (dep_amount_with_fee deposit) (dep_deposit_fee deposit);
     GNUNET_assert (0 \<le> r);
     reply_deposit_success teh (coin_pub (dep_coin deposit)) (dep_h_wire deposit) (dep_h_contract_terms deposit)
       (dep_timestamp deposit) (dep_refund_deadline deposit) (dep_merchant_pub deposit) amount_without_fee
   }"

definition deposit_transaction :: "TEH \<Rightarrow> (DepositContext, exchange_reply, tables) transaction" where
  "deposit_transaction teh dc s = do {
     let g = teh_gnunet teh;
     let pg = teh_pg teh;
     let deposit = dc_deposit dc;
     (qs, s) \<leftarrow> postgres_have_deposit g pg deposit True s;
     if qs < 0
     then Some ((qs, if qs = GNUNET_DB_STATUS_HARD_ERROR
                     then Some (TALER_MHD_reply_with_error MHD_HTTP_INTERNAL_SERVER_ERROR TALER_EC_DEPOSIT_HISTORY_DB_ERROR)
                     else None, dc), s)
     else if qs = GNUNET_DB_STATUS_SUCCESS_ONE_RESULT
     then do {
       mhd_ret \<leftarrow> deposit_success teh deposit;
       Some ((GNUNET_DB_STATUS_HARD_ERROR, Some mhd_ret, dc), s)
     }
     else do {
       let spent = dep_amount_with_fee deposit;
       ((qs, tl), s) \<leftarrow> postgres_get_coin_transactions g pg (coin_pub (dep_coin deposit)) False s;
       if 0 > qs
       then Some ((qs, if qs = GNUNET_DB_STATUS_HARD_ERROR
                       then Some (TALER_MHD_reply_with_error MHD_HTTP_INTERNAL_SERVER_ERROR TALER_EC_DEPOSIT_HISTORY_DB_ERROR)
                       else None, dc), s)
       else do {
         (r, spent) \<leftarrow> TALER_EXCHANGEDB_calculate_transaction_list_totals tl spent spent;
         if r \<noteq> GNUNET_OK
         then Some ((GNUNET_DB_STATUS_HARD_ERROR,
                     Some (TALER_MHD_reply_with_error MHD_HTTP_INTERNAL_SERVER_ERROR TALER_EC_DEPOSIT_HISTORY_DB_ERROR), dc), s)
         else do {
           c \<leftarrow> TALER_amount_cmp spent (dc_value dc);
           if 0 < c
           then do {
             mhd_ret \<leftarrow> TEH_RESPONSE_reply_coin_insufficient_funds (teh_crypto teh) (teh_sign_keys teh)
                          TALER_EC_DEPOSIT_INSUFFICIENT_FUNDS (coin_pub (dep_coin deposit)) tl;
             Some ((GNUNET_DB_STATUS_HARD_ERROR, Some mhd_ret, dc), s)
           }
           else do {
             (qs, s) \<leftarrow> postgres_insert_deposit g deposit s;
             Some ((qs, if qs = GNUNET_DB_STATUS_HARD_ERROR
                        then Some (TALER_MHD_reply_with_error MHD_HTTP_INTERNAL_SERVER_ERROR TALER_EC_DEPOSIT_STORE_DB_ERROR)
                        else None, dc), s)
           }
         }
       }
     }
   }"

text \<open>\<^verbatim>\<open>GNUNET_TIME_UNIT_MONTHS\<close>, in microseconds\<close>

abbreviation (input) GNUNET_TIME_UNIT_MONTHS :: u64 where
  "GNUNET_TIME_UNIT_MONTHS \<equiv> 2592000000000"

definition check_timestamp_current :: "TEH \<Rightarrow> abs_time \<Rightarrow> int" where
  "check_timestamp_current teh ts =
     (if teh_duration teh ts > GNUNET_TIME_UNIT_MONTHS then GNUNET_SYSERR
      else if teh_remaining teh ts > GNUNET_TIME_UNIT_MONTHS then GNUNET_SYSERR
      else GNUNET_OK)"

text \<open>The handler up to the point where the coin is looked at, which yields the deposit fee and the
  value of the coin or an error\<close>

definition deposit_check_denomination ::
    "TEH \<Rightarrow> TALER_EXCHANGEDB_Deposit \<Rightarrow> (exchange_reply reply + DepositContext) option" where
  "deposit_check_denomination teh deposit =
     (case teh_keys teh of
        None \<Rightarrow> Some (Inl (TALER_MHD_reply_with_error MHD_HTTP_INTERNAL_SERVER_ERROR TALER_EC_EXCHANGE_BAD_CONFIGURATION))
      | Some key_state \<Rightarrow>
          (case teh_lookup teh key_state (coin_denom_pub_hash (dep_coin deposit)) TEH_KS_DKU_DEPOSIT of
             Inl (ec, hc) \<Rightarrow> Some (Inl (TALER_MHD_reply_with_error hc ec))
           | Inr dki \<Rightarrow> do {
               deposit_fee \<leftarrow> teh_ntoh teh (dk_fee_deposit (issue_properties dki));
               let deposit = deposit\<lparr>dep_deposit_fee := deposit_fee\<rparr>;
               if TALER_amount_cmp_currency (dep_amount_with_fee deposit) deposit_fee \<noteq> GNUNET_YES
               then Some (Inl (TALER_MHD_reply_with_error MHD_HTTP_BAD_REQUEST TALER_EC_DEPOSIT_CURRENCY_MISMATCH))
               else do {
                 valid \<leftarrow> TALER_test_coin_valid (teh_crypto teh) (dep_coin deposit) (denom_pub dki);
                 if valid \<noteq> GNUNET_YES
                 then Some (Inl (TALER_MHD_reply_with_error MHD_HTTP_UNAUTHORIZED
                                   TALER_EC_DEPOSIT_DENOMINATION_SIGNATURE_INVALID))
                 else do {
                   value \<leftarrow> teh_ntoh teh (dk_value (issue_properties dki));
                   c \<leftarrow> TALER_amount_cmp deposit_fee (dep_amount_with_fee deposit);
                   if 0 < c
                   then Some (Inl (TALER_MHD_reply_with_error MHD_HTTP_BAD_REQUEST
                                     TALER_EC_DEPOSIT_NEGATIVE_VALUE_AFTER_FEE))
                   else Some (Inr \<lparr>dc_deposit = deposit, dc_value = value\<rparr>)
                 }
               }
             }))"

definition deposit_signed :: "TEH \<Rightarrow> TALER_EXCHANGEDB_Deposit \<Rightarrow> bool option" where
  "deposit_signed teh deposit = do {
     amount_with_fee \<leftarrow> teh_hton teh (dep_amount_with_fee deposit);
     deposit_fee \<leftarrow> teh_hton teh (dep_deposit_fee deposit);
     let dr = TALER_DepositRequestPS (dep_h_contract_terms deposit) (dep_h_wire deposit) (dep_timestamp deposit)
                (dep_refund_deadline deposit) amount_with_fee deposit_fee (dep_merchant_pub deposit)
                (coin_pub (dep_coin deposit));
     Some (GNUNET_CRYPTO_eddsa_verify (teh_crypto teh) dr (dep_csig deposit) (coin_pub (dep_coin deposit)))
   }"

definition TEH_handler_deposit ::
    "TEH \<Rightarrow> TALER_EXCHANGEDB_Deposit \<Rightarrow> tables session \<Rightarrow> (exchange_reply reply option \<times> tables session) option" where
  "TEH_handler_deposit teh deposit s =
     (if dep_refund_deadline deposit > dep_wire_deadline deposit
      then Some (Some (TALER_MHD_reply_with_error MHD_HTTP_BAD_REQUEST
                         TALER_EC_DEPOSIT_REFUND_DEADLINE_AFTER_WIRE_DEADLINE), s)
      else if check_timestamp_current teh (dep_timestamp deposit) \<noteq> GNUNET_OK
      then Some (Some (TALER_MHD_reply_with_error MHD_HTTP_BAD_REQUEST TALER_EC_DEPOSIT_INVALID_TIMESTAMP), s)
      else do {
        my_h_wire \<leftarrow> TALER_JSON_merchant_wire_signature_hash (teh_crypto teh) (teh_json_string teh)
                       (dep_receiver_wire_account deposit);
        if my_h_wire = None
        then Some (Some (TALER_MHD_reply_with_error MHD_HTTP_BAD_REQUEST TALER_EC_DEPOSIT_INVALID_WIRE_FORMAT_JSON), s)
        else if my_h_wire \<noteq> Some (dep_h_wire deposit)
        then Some (Some (TALER_MHD_reply_with_error MHD_HTTP_BAD_REQUEST
                           TALER_EC_DEPOSIT_INVALID_WIRE_FORMAT_CONTRACT_HASH_CONFLICT), s)
        else do {
          d \<leftarrow> deposit_check_denomination teh deposit;
          case d of
            Inl reply \<Rightarrow> Some (Some reply, s)
          | Inr dc \<Rightarrow> do {
              let deposit = dc_deposit dc;
              ((ret, mhd_ret, _), s) \<leftarrow> TEH_DB_run_transaction (teh_gnunet teh) ''know coin for deposit''
                 (TEH_DB_know_coin_transaction (teh_gnunet teh)) (dep_coin deposit) s;
              if ret \<noteq> GNUNET_OK then Some (mhd_ret, s)
              else do {
                ok \<leftarrow> deposit_signed teh deposit;
                if \<not> ok
                then Some (Some (TALER_MHD_reply_with_error MHD_HTTP_UNAUTHORIZED TALER_EC_DEPOSIT_COIN_SIGNATURE_INVALID), s)
                else do {
                  ((ret, mhd_ret, _), s) \<leftarrow> TEH_DB_run_transaction (teh_gnunet teh) ''execute deposit''
                     (deposit_transaction teh) dc s;
                  if ret \<noteq> GNUNET_OK then Some (mhd_ret, s)
                  else do {
                    reply \<leftarrow> deposit_success teh deposit;
                    Some (Some reply, s)
                  }
                }
              }
            }
        }
      })"

section \<open>The transaction\<close>

definition deposit_context_ok :: "TEH \<Rightarrow> DepositContext \<Rightarrow> bool" where
  "deposit_context_ok teh dc \<longleftrightarrow> teh_ok teh
     \<and> amount_in (teh_currency teh) (dep_amount_with_fee (dc_deposit dc))
     \<and> amount_in (teh_currency teh) (dep_deposit_fee (dc_deposit dc))
     \<and> amt (dep_deposit_fee (dc_deposit dc)) \<le> amt (dep_amount_with_fee (dc_deposit dc))
     \<and> amount_in (teh_currency teh) (dc_value dc)
     \<and> (\<forall>t\<in>{dep_timestamp (dc_deposit dc), dep_refund_deadline (dc_deposit dc), dep_wire_deadline (dc_deposit dc)}.
          GNUNET_TIME_round_abs (teh_gnunet teh) t = t)"

text \<open>What a committed transaction has done: the deposit was stored and the coin has not spent more
  than its value, or nothing was stored because another deposit of the coin has the same merchant and
  contract.\<close>

definition deposit_key_of :: "TALER_EXCHANGEDB_Deposit \<Rightarrow> pub_key \<times> pub_key \<times> hash_code" where
  "deposit_key_of d = (coin_pub (dep_coin d), dep_merchant_pub d, dep_h_contract_terms d)"

definition deposit_effect :: "gnunet \<Rightarrow> DepositContext \<Rightarrow> tables \<Rightarrow> tables \<Rightarrow> bool" where
  "deposit_effect g dc db db' \<longleftrightarrow>
     (\<exists>row. new_deposit (dc_deposit dc) db row \<and> db' = add_deposit row db
        \<and> coin_spent False db (coin_pub (dep_coin (dc_deposit dc))) + amt (dep_amount_with_fee (dc_deposit dc))
            \<le> amt (dc_value dc))
     \<or> db' = db \<and> deposit_key_of (dc_deposit dc) \<in> deposit_key ` set (t_deposits db)
        \<and> \<not> (\<exists>r\<in>set (t_deposits db). same_deposit g (dc_deposit dc) True r)"

definition deposit_refused :: "gnunet \<Rightarrow> DepositContext \<Rightarrow> tables \<Rightarrow> exchange_reply reply option \<Rightarrow> bool" where
  "deposit_refused g dc db mhd_ret \<longleftrightarrow> mhd_ret \<noteq> None \<and>
     (\<forall>sig pub. mhd_ret = Some (reply_ok MHD_HTTP_OK (DEPOSIT_OK sig pub)) \<longrightarrow>
        (\<exists>r\<in>set (t_deposits db). same_deposit g (dc_deposit dc) True r))"

lemma deposit_success_total:
  assumes "deposit_context_ok teh dc"
  obtains r where "deposit_success teh (dc_deposit dc) = Some r"
proof -
  let ?d = "dc_deposit dc"
  obtain r a where "TALER_amount_subtract invalidate (dep_amount_with_fee ?d) (dep_deposit_fee ?d) = Some (r, a)"
    "0 \<le> r" "amount_in (teh_currency teh) a"
    using assms amount_subtract_wp [of "teh_currency teh" "dep_amount_with_fee ?d" "dep_deposit_fee ?d" invalidate]
    by (auto simp: deposit_context_ok_def wp_iff not_less)
  with hton_in [of "teh_currency teh" a "GNUNET_htonll (teh_crypto teh)"] that show ?thesis
    by (fastforce simp: deposit_success_def reply_deposit_success_def)
qed

lemma deposit_callback:
  assumes ok: "deposit_context_ok teh dc" and s: "in_fresh_tx s" and inv: "db_ok (s_db s)"
  shows "wp (deposit_transaction teh dc s)
     (callback_ok db_ok (\<lambda>c. c = dc \<and> deposit_context_ok teh dc) (\<lambda>c db c' db'. deposit_effect (teh_gnunet teh) dc db db')
       (deposit_refused (teh_gnunet teh) dc) dc (s_db s))" (is "wp _ ?Q")
proof -
  let ?d = "dc_deposit dc"
  note fresh = in_fresh_txD [OF s]
  have g: "gnunet_ok (teh_gnunet teh)" and pg: "pg_ok (teh_pg teh)" and a: "amount_in (teh_currency teh) (dep_amount_with_fee ?d)"
    and val: "amount_in (teh_currency teh) (dc_value dc)"
    using ok by (auto simp: deposit_context_ok_def teh_ok_def)
  have ct: "coin_tables_ok (s_db s)" using inv by (simp add: db_ok_def)
  have soft: "?Q (- 1, None, dc) s'" if "unchanged s s'" for s'
    using unchanged_fresh [OF s that] ok by (simp add: callback_ok_def)
  have hard: "?Q (- 2, Some r, dc) s'" if "unchanged s s'" "\<And>x. r \<noteq> reply_ok MHD_HTTP_OK x" for s' r
    using unchanged_fresh [OF s that(1)] that(2) ok by (simp add: callback_ok_def deposit_refused_def)
  obtain r where succ: "deposit_success teh ?d = Some r" using deposit_success_total [OF ok] .
  obtain txs where h: "coin_history (teh_gnunet teh) (teh_pg teh) (coin_pub (dep_coin ?d)) False (s_db s) = Some txs"
    and hok: "history_ok (teh_currency teh) False (s_db s) (coin_pub (dep_coin ?d)) txs"
    using coin_history_ok [OF pg ct] by blast
  obtain ir where ir: "TEH_RESPONSE_reply_coin_insufficient_funds (teh_crypto teh) (teh_sign_keys teh)
      TALER_EC_DEPOSIT_INSUFFICIENT_FUNDS (coin_pub (dep_coin ?d)) txs = Some ir" "\<And>x. ir \<noteq> reply_ok MHD_HTTP_OK x"
    using insufficient_no_success hok unfolding history_ok_def by metis
  have insert: "wp (postgres_insert_deposit (teh_gnunet teh) ?d s2 \<bind> (\<lambda>(qs, s).
       Some ((qs, if qs = GNUNET_DB_STATUS_HARD_ERROR then Some (TALER_MHD_reply_with_error hc ec) else None, dc), s))) ?Q"
    if u: "unchanged s s2" and new: "\<not> (\<exists>r\<in>set (t_deposits (s_db s)). same_deposit (teh_gnunet teh) ?d True r)"
      and funds: "coin_spent False (s_db s) (coin_pub (dep_coin ?d)) + amt (dep_amount_with_fee ?d) \<le> amt (dc_value dc)"
    for s2 hc ec
    using insert_deposit_wp [OF g unchanged_fresh(1) [OF s u] a] ok new funds inv
    by (intro insert_callback [OF s u, of _ add_deposit "new_deposit ?d"
          "\<lambda>db. deposit_key_of ?d \<in> deposit_key ` set (t_deposits db)"])
      (auto simp: deposit_context_ok_def deposit_key_of_def deposit_effect_def deposit_refused_def db_ok_def
        new_deposit_def intro!: coin_tables_ok_deposit)
  show ?thesis
    unfolding deposit_transaction_def Let_def
  proof (rule wp_bindI [OF have_deposit_wp [OF g fresh(1) pg ct a]], unfold prod.case, goal_cases)
    case (1 qs s1)
    then have u1: "unchanged s s1" by simp
    consider (serialization) "qs = - 1" | (error) "qs = - 2"
      | (same) "qs = 1" "\<exists>r\<in>set (t_deposits (s_db s)). same_deposit (teh_gnunet teh) ?d True r"
      | (new) "qs = 0" "\<not> (\<exists>r\<in>set (t_deposits (s_db s)). same_deposit (teh_gnunet teh) ?d True r)"
      using 1 by (auto split: if_splits)
    then show ?case
    proof cases
      case serialization
      then show ?thesis using soft [OF u1] by simp
    next
      case error
      then show ?thesis using hard [OF u1] by simp
    next
      case same
      with unchanged_fresh [OF s u1] ok succ show ?thesis
        by (simp add: callback_ok_def deposit_refused_def)
    next
      case new
      have funds: "wp (TALER_amount_cmp t (dc_value dc) \<bind> (\<lambda>c. if 0 < c
            then TEH_RESPONSE_reply_coin_insufficient_funds (teh_crypto teh) (teh_sign_keys teh)
                   TALER_EC_DEPOSIT_INSUFFICIENT_FUNDS (coin_pub (dep_coin ?d)) txs
                 \<bind> (\<lambda>mhd_ret. Some ((- 2, Some mhd_ret, dc), s2))
            else postgres_insert_deposit (teh_gnunet teh) ?d s2 \<bind> (\<lambda>(qs, s). Some ((qs, if qs = - 2
              then Some (TALER_MHD_reply_with_error hc ec) else None, dc), s)))) ?Q"
        if "unchanged s s2" "amount_in (teh_currency teh) t"
          "amt t = amt (dep_amount_with_fee ?d) + coin_spent False (s_db s) (coin_pub (dep_coin ?d))" for s2 t hc ec
        using that val ir hard [OF that(1)] insert [OF that(1) new(2), of hc ec]
        by (cases "amt (dc_value dc) < amt t") simp_all
      show ?thesis
        unfolding new(1)
        by simp (rule coin_transactions_bind [OF g fresh(1) u1 h], simp add: soft, simp add: hard, simp,
            rule coin_totals_bind [OF hok a], simp add: hard, simp add: funds)
    qed
  qed
qed

interpretation deposit: db_transaction_replying "teh_gnunet teh" "deposit_transaction teh" db_ok
    "\<lambda>c. c = dc \<and> deposit_context_ok teh dc" "\<lambda>c db c' db'. deposit_effect (teh_gnunet teh) dc db db'"
    "deposit_refused (teh_gnunet teh) dc" for teh dc
proof unfold_locales
  fix c s assume "c = dc \<and> deposit_context_ok teh dc" "in_fresh_tx s" "db_ok (s_db s)"
  then show "wp (deposit_transaction teh c s) (callback_ok db_ok (\<lambda>c. c = dc \<and> deposit_context_ok teh dc)
    (\<lambda>c db c' db'. deposit_effect (teh_gnunet teh) dc db db') (deposit_refused (teh_gnunet teh) dc) c (s_db s))"
    by (elim conjE) (hypsubst, rule deposit_callback)
qed (simp_all add: deposit_refused_def deposit_context_ok_def teh_ok_def)

section \<open>The whole request\<close>

text \<open>What the parser guarantees for a request: a normalized amount, times that are rounded to seconds\<close>

definition deposit_request_ok :: "TEH \<Rightarrow> TALER_EXCHANGEDB_Deposit \<Rightarrow> bool" where
  "deposit_request_ok teh d \<longleftrightarrow> request_amount (dep_amount_with_fee d)
     \<and> (\<forall>t\<in>{dep_timestamp d, dep_refund_deadline d, dep_wire_deadline d}. GNUNET_TIME_round_abs (teh_gnunet teh) t = t)"

text \<open>A coin that passed the checks: it is signed by a denomination key that is valid for deposits.\<close>

definition deposit_checked :: "TEH \<Rightarrow> TALER_EXCHANGEDB_Deposit \<Rightarrow> DepositContext \<Rightarrow> bool" where
  "deposit_checked teh d dc \<longleftrightarrow> (\<exists>ks dki fee.
     teh_keys teh = Some ks \<and> denomkey_map ks (coin_denom_pub_hash (dep_coin d)) = Some dki
     \<and> teh_ntoh teh (dk_value (issue_properties dki)) = Some (dc_value dc)
     \<and> teh_ntoh teh (dk_fee_deposit (issue_properties dki)) = Some fee
     \<and> GNUNET_CRYPTO_rsa_verify (teh_crypto teh) (GNUNET_CRYPTO_hash_key (teh_crypto teh) (coin_pub (dep_coin d)))
         (coin_denom_sig (dep_coin d)) (denom_pub dki)
     \<and> dc_deposit dc = d\<lparr>dep_deposit_fee := fee\<rparr>)"

lemma deposit_check_denomination_ok:
  assumes "teh_ok teh" and "deposit_request_ok teh d"
  shows "(\<exists>r. deposit_check_denomination teh d = Some (Inl r) \<and> (\<forall>x. r \<noteq> reply_ok MHD_HTTP_OK x))
     \<or> (\<exists>dc. deposit_check_denomination teh d = Some (Inr dc) \<and> deposit_context_ok teh dc \<and> deposit_checked teh d dc)"
proof (cases "teh_keys teh")
  case (Some ks)
  show ?thesis
  proof (cases "teh_lookup teh ks (coin_denom_pub_hash (dep_coin d)) TEH_KS_DKU_DEPOSIT")
    case (Inr dki)
    note dk = denomination_okD [OF lookup_denomination_ok [OF teh_okD(3) [OF assms(1) Some] Inr]]
    from dk(2,4) obtain val fee where v: "teh_ntoh teh (dk_value (issue_properties dki)) = Some val"
      "teh_ntoh teh (dk_fee_deposit (issue_properties dki)) = Some fee"
      "amount_in (teh_currency teh) val" "amount_in (teh_currency teh) fee"
      by blast
    have key: "denomkey_map ks (coin_denom_pub_hash (dep_coin d)) = Some dki"
      using lookup_InrD [OF Inr] by simp
    have a: "amount_in (teh_currency teh) (dep_amount_with_fee d)"
      if "TALER_amount_cmp_currency (dep_amount_with_fee d) fee = GNUNET_YES"
      using request_amount_in [OF _ v(4) that] assms(2) by (simp add: deposit_request_ok_def)
    show ?thesis
    proof (cases "TALER_amount_cmp_currency (dep_amount_with_fee d) fee = GNUNET_YES
        \<and> GNUNET_CRYPTO_rsa_verify (teh_crypto teh) (GNUNET_CRYPTO_hash_key (teh_crypto teh) (coin_pub (dep_coin d)))
            (coin_denom_sig (dep_coin d)) (denom_pub dki) \<and> amt fee \<le> amt (dep_amount_with_fee d)")
      case True
      then have "deposit_check_denomination teh d = Some (Inr \<lparr>dc_deposit = d\<lparr>dep_deposit_fee := fee\<rparr>, dc_value = val\<rparr>)"
        using Some Inr v a dk(1) by (simp add: deposit_check_denomination_def test_coin_valid_Some)
      with True a assms v key Some show ?thesis
        by (auto simp: deposit_context_ok_def deposit_checked_def deposit_request_ok_def)
    next
      case False
      with Some Inr v a dk(1) show ?thesis
        by (intro disjI1, cases "TALER_amount_cmp_currency (dep_amount_with_fee d) fee = GNUNET_YES")
          (auto simp: deposit_check_denomination_def test_coin_valid_Some Let_def)
    qed
  qed (use Some in \<open>auto simp: deposit_check_denomination_def\<close>)
qed (simp add: deposit_check_denomination_def)

lemma deposit_signed_total: "deposit_context_ok teh dc \<Longrightarrow> \<exists>b. deposit_signed teh (dc_deposit dc) = Some b"
  using hton_in [of "teh_currency teh" "dep_amount_with_fee (dc_deposit dc)" "GNUNET_htonll (teh_crypto teh)"]
    hton_in [of "teh_currency teh" "dep_deposit_fee (dc_deposit dc)" "GNUNET_htonll (teh_crypto teh)"]
  by (auto simp: deposit_signed_def deposit_context_ok_def)

text \<open>What a request may do to the database: make the coin known, and then store the deposit if the
  coin is valid, the request is signed by it, and it has the funds.\<close>

definition deposit_stored :: "TEH \<Rightarrow> TALER_EXCHANGEDB_Deposit \<Rightarrow> tables \<Rightarrow> tables \<Rightarrow> bool" where
  "deposit_stored teh d db db' \<longleftrightarrow> (\<exists>dc row. deposit_checked teh d dc
     \<and> deposit_signed teh (dc_deposit dc) = Some True
     \<and> db' = add_deposit row db \<and> deposit_key row = deposit_key_of d
     \<and> sqlamt (dp_amount_with_fee row) = amt (dep_amount_with_fee d) \<and> dp_h_wire row = dep_h_wire d
     \<and> deposit_key_of d \<notin> deposit_key ` set (t_deposits db)
     \<and> coin_spent False db' (coin_pub (dep_coin d)) = coin_spent False db (coin_pub (dep_coin d)) + amt (dep_amount_with_fee d)
     \<and> coin_spent False db' (coin_pub (dep_coin d)) \<le> amt (dc_value dc))"

lemma deposit_stored_effect:
  assumes "deposit_effect g dc db db'" and "deposit_checked teh d dc" and "deposit_signed teh (dc_deposit dc) = Some True"
  shows "deposit_stored teh d db db' \<or> db' = db \<and> deposit_key_of d \<in> deposit_key ` set (t_deposits db)"
proof -
  have d: "dep_coin (dc_deposit dc) = dep_coin d" "dep_amount_with_fee (dc_deposit dc) = dep_amount_with_fee d"
    "deposit_key_of (dc_deposit dc) = deposit_key_of d" "dep_h_wire (dc_deposit dc) = dep_h_wire d"
    using assms(2) by (auto simp: deposit_checked_def deposit_key_of_def)
  from assms(1) consider (new) row where "new_deposit (dc_deposit dc) db row" "db' = add_deposit row db"
      "coin_spent False db (coin_pub (dep_coin d)) + amt (dep_amount_with_fee d) \<le> amt (dc_value dc)"
    | (old) "db' = db" "deposit_key_of d \<in> deposit_key ` set (t_deposits db)"
    unfolding deposit_effect_def d by blast
  then show ?thesis
  proof cases
    case new
    then have "deposit_key row = deposit_key_of d" "dp_coin_pub row = coin_pub (dep_coin d)"
      "sqlamt (dp_amount_with_fee row) = amt (dep_amount_with_fee d)" "dp_h_wire row = dep_h_wire d"
      "deposit_key row \<notin> deposit_key ` set (t_deposits db)"
      using d by (auto simp: new_deposit_def deposit_key_def deposit_key_of_def)
    with new assms(2,3) show ?thesis
      by (auto simp: deposit_stored_def coin_spent_deposit)
  qed simp
qed

definition deposit_executed ::
    "TEH \<Rightarrow> TALER_EXCHANGEDB_Deposit \<Rightarrow> tables \<Rightarrow> exchange_reply reply option \<Rightarrow> tables session \<Rightarrow> bool" where
  "deposit_executed teh d db r s' \<longleftrightarrow> r \<noteq> None \<and> idle s' \<and> db_ok (s_committed s')
     \<and> (s_committed s' = db \<or> deposit_stored teh d db (s_committed s'))
     \<and> (\<forall>sig pub. r = Some (reply_ok MHD_HTTP_OK (DEPOSIT_OK sig pub)) \<longrightarrow>
          deposit_key_of d \<in> deposit_key ` set (t_deposits (s_committed s')))"

definition deposit_answered ::
    "TEH \<Rightarrow> TALER_EXCHANGEDB_Deposit \<Rightarrow> tables \<Rightarrow> exchange_reply reply option \<Rightarrow> tables session \<Rightarrow> bool" where
  "deposit_answered teh d db r s' \<longleftrightarrow> (\<exists>db1. made_known (dep_coin d) db db1 \<and> deposit_executed teh d db1 r s')"

lemma deposit_execute_wp:
  assumes dc: "deposit_context_ok teh dc" "deposit_checked teh d dc" "deposit_signed teh (dc_deposit dc) = Some True"
    and s: "idle s" "db_ok (s_committed s)"
  shows "wp (TEH_DB_run_transaction (teh_gnunet teh) name (deposit_transaction teh) dc s \<bind> (\<lambda>((ret, mhd_ret, _), s).
       if ret \<noteq> GNUNET_OK then Some (mhd_ret, s)
       else deposit_success teh (dc_deposit dc) \<bind> (\<lambda>reply. Some (Some reply, s))))
     (deposit_executed teh d (s_committed s))"
proof (rule wp_bindI [OF deposit.run_transaction_wp [OF conjI [OF refl dc(1)] s]], goal_cases)
  case (1 x s')
  obtain ret mhd_ret c where x: "x = (ret, mhd_ret, c)" by (cases x)
  obtain r where r: "deposit_success teh (dc_deposit dc) = Some r" using deposit_success_total [OF dc(1)] .
  have same: "same_deposit g (dc_deposit dc) True row \<Longrightarrow> deposit_key row = deposit_key_of d" for g row
    using dc(2) by (auto simp: same_deposit_def deposit_checked_def deposit_key_of_def)
  consider "ret = 1" "mhd_ret = None" "deposit_effect (teh_gnunet teh) dc (s_committed s) (s_committed s')"
    | "ret = - 1" "deposit_refused (teh_gnunet teh) dc (s_committed s) mhd_ret" "s_committed s' = s_committed s"
    using 1 x by (auto simp: run_ok_def)
  then show ?case
  proof cases
    case 1
    with deposit_stored_effect [OF 1(3) dc(2,3)] \<open>run_ok _ _ _ _ _ x s'\<close> x r show ?thesis
      by (auto simp: deposit_executed_def run_ok_def deposit_stored_def)
  next
    case 2
    with \<open>run_ok _ _ _ _ _ x s'\<close> x same show ?thesis
      by (force simp: deposit_executed_def run_ok_def deposit_refused_def image_iff)
  qed
qed

lemma deposit_handler_wpa:
  assumes "teh_ok teh" and "deposit_request_ok teh d" and "idle s" and "db_ok (s_committed s)"
  shows "wpa (wire_details_abort teh (dep_receiver_wire_account d)) (TEH_handler_deposit teh d s)
     (deposit_answered teh d (s_committed s))"
proof -
  let ?Q = "deposit_answered teh d (s_committed s)"
  have g: "gnunet_ok (teh_gnunet teh)" using assms(1) by (simp add: teh_ok_def)
  have err: "?Q (Some r) s" if "\<And>x. r \<noteq> reply_ok MHD_HTTP_OK x" for r
    using that assms(3,4) by (auto simp: deposit_answered_def deposit_executed_def intro!: exI [of _ "s_committed s"])
  have main: "wp (TEH_DB_run_transaction (teh_gnunet teh) name (TEH_DB_know_coin_transaction (teh_gnunet teh))
        (dep_coin (dc_deposit dc)) s \<bind> (\<lambda>((ret, mhd_ret, _), s).
          if ret \<noteq> GNUNET_OK then Some (mhd_ret, s)
          else deposit_signed teh (dc_deposit dc) \<bind> (\<lambda>ok.
            if \<not> ok then Some (Some (TALER_MHD_reply_with_error hc ec), s)
            else TEH_DB_run_transaction (teh_gnunet teh) name' (deposit_transaction teh) dc s \<bind> (\<lambda>((ret, mhd_ret, _), s).
              if ret \<noteq> GNUNET_OK then Some (mhd_ret, s)
              else deposit_success teh (dc_deposit dc) \<bind> (\<lambda>reply. Some (Some reply, s)))))) ?Q"
    if dc: "deposit_context_ok teh dc" "deposit_checked teh d dc" for dc name name' hc ec
  proof (rule wp_bindI [OF know_coin.run_transaction_wp [OF conjI [OF refl g] assms(3,4)]], goal_cases)
    case (1 x s1)
    obtain ret mhd_ret c where x: "x = (ret, mhd_ret, c)" by (cases x)
    obtain ok where ok: "deposit_signed teh (dc_deposit dc) = Some ok" using deposit_signed_total [OF dc(1)] by blast
    show ?case
    proof (cases "ret = GNUNET_OK")
      case True
      with 1 x have k: "known_effect (dep_coin (dc_deposit dc)) (s_committed s) (s_committed s1)" "idle s1" "db_ok (s_committed s1)"
        by (auto simp: run_ok_def)
      have d: "dep_coin (dc_deposit dc) = dep_coin d" using dc(2) by (auto simp: deposit_checked_def)
      have mk: "deposit_executed teh d (s_committed s1) r s' \<Longrightarrow> ?Q r s'" for r s'
        using made_known_effect [OF k(1)] d by (auto simp: deposit_answered_def)
      have "wp (TEH_DB_run_transaction (teh_gnunet teh) name' (deposit_transaction teh) dc s1 \<bind> (\<lambda>((ret, mhd_ret, _), s).
              if ret \<noteq> GNUNET_OK then Some (mhd_ret, s)
              else deposit_success teh (dc_deposit dc) \<bind> (\<lambda>reply. Some (Some reply, s)))) ?Q" if ok
        using deposit_execute_wp [OF dc ok [unfolded eqTrueI [OF that]] k(2,3), of name'] by (rule wp_mono) (rule mk)
      with True x ok k mk show ?thesis
        by (cases ok) (simp_all add: deposit_executed_def)
    next
      case False
      with 1 x show ?thesis
        by (auto simp: run_ok_def deposit_answered_def deposit_executed_def error_replied_def intro!: exI [of _ "s_committed s"])
    qed
  qed
  show ?thesis
  proof (cases "TALER_JSON_merchant_wire_signature_hash (teh_crypto teh) (teh_json_string teh) (dep_receiver_wire_account d)")
    case None
    then show ?thesis by (simp add: TEH_handler_deposit_def wire_details_abort_def err)
  next
    case (Some h)
    from deposit_check_denomination_ok [OF assms(1,2)] have "wp (TEH_handler_deposit teh d s) ?Q"
      unfolding TEH_handler_deposit_def Some bind.bind_lunit
    proof (elim disjE exE conjE, goal_cases)
      case (1 r)
      then show ?case by (simp add: err)
    next
      case (2 dc)
      then show ?case using main [OF 2(2,3)] by (simp add: err Let_def)
    qed
    then show ?thesis by (rule wpaI)
  qed
qed

section \<open>Properties\<close>


text \<open>What a request needs to succeed: the checks pass, the coin is known or its denomination is in
  the database, it was not deposited for this contract before, and it has the funds.\<close>

definition deposit_covered :: "TEH \<Rightarrow> TALER_EXCHANGEDB_Deposit \<Rightarrow> DepositContext \<Rightarrow> tables \<Rightarrow> bool" where
  "deposit_covered teh d dc db \<longleftrightarrow>
     (coin_known db (coin_pub (dep_coin d)) \<or> denom_known db (coin_denom_pub_hash (dep_coin d)))
     \<and> deposit_key_of d \<notin> deposit_key ` set (t_deposits db)
     \<and> amt (dep_amount_with_fee d) + coin_debits False db (coin_pub (dep_coin d)) < AMT_LIMIT
     \<and> coin_credits False db (coin_pub (dep_coin d)) + coin_discount db (coin_pub (dep_coin d)) < AMT_LIMIT
     \<and> 0 \<le> amt (dep_amount_with_fee d) + coin_spent False db (coin_pub (dep_coin d))
     \<and> amt (dep_amount_with_fee d) + coin_spent False db (coin_pub (dep_coin d)) \<le> amt (dc_value dc)"

definition deposit_acceptable :: "TEH \<Rightarrow> TALER_EXCHANGEDB_Deposit \<Rightarrow> DepositContext \<Rightarrow> bool" where
  "deposit_acceptable teh d dc \<longleftrightarrow> dep_refund_deadline d \<le> dep_wire_deadline d
     \<and> check_timestamp_current teh (dep_timestamp d) = GNUNET_OK
     \<and> TALER_JSON_merchant_wire_signature_hash (teh_crypto teh) (teh_json_string teh) (dep_receiver_wire_account d)
         = Some (Some (dep_h_wire d))
     \<and> deposit_check_denomination teh d = Some (Inr dc)
     \<and> deposit_signed teh (dc_deposit dc) = Some True \<and> teh_sign_keys teh \<noteq> None"

lemma deposit_transaction_undisturbed:
  assumes dc: "deposit_context_ok teh dc" "deposit_checked teh d dc"
    and cov: "deposit_covered teh d dc (s_db s)" "coin_known (s_db s) (coin_pub (dep_coin d))"
    and s: "undisturbed s" "coin_tables_ok (s_db s)"
  shows "\<exists>qs c' s'. deposit_transaction teh dc s = Some ((qs, None, c'), s') \<and> 0 \<le> qs \<and> undisturbed s'"
proof -
  let ?d = "dc_deposit dc" and ?p = "coin_pub (dep_coin d)"
  have d: "dep_coin ?d = dep_coin d" "dep_amount_with_fee ?d = dep_amount_with_fee d" "dep_merchant_pub ?d = dep_merchant_pub d"
    "dep_h_contract_terms ?d = dep_h_contract_terms d"
    using dc(2) by (auto simp: deposit_checked_def)
  have a: "amount_in (teh_currency teh) (dep_amount_with_fee d)" "amount_in (teh_currency teh) (dc_value dc)" "pg_ok (teh_pg teh)"
    using dc(1) d by (auto simp: deposit_context_ok_def teh_ok_def)
  have none: "sql_get_deposit ?p (dep_h_contract_terms d) (dep_merchant_pub d) (s_db s) = []"
    using cov(1) by (force simp: deposit_covered_def sql_get_deposit_def filter_empty_conv deposit_key_def deposit_key_of_def image_iff)
  obtain txs where txs: "coin_history (teh_gnunet teh) (teh_pg teh) ?p False (s_db s) = Some txs"
    "history_ok (teh_currency teh) False (s_db s) ?p txs"
    using coin_history_ok [OF a(3) s(2)] by blast
  obtain qs where tl: "postgres_get_coin_transactions (teh_gnunet teh) (teh_pg teh) ?p False s = Some ((qs, txs), s)" "0 \<le> qs"
    using coin_transactions_undisturbed [OF s(1) txs(1)] by blast
  obtain t where t: "TALER_EXCHANGEDB_calculate_transaction_list_totals txs (dep_amount_with_fee d) (dep_amount_with_fee d)
      = Some (GNUNET_OK, t)" "amount_in (teh_currency teh) t" "amt t \<le> amt (dc_value dc)"
    using coin_totals_wp [OF txs(2) a(1), of "dep_amount_with_fee d"] cov(1) by (auto simp: wp_iff deposit_covered_def)
  have "\<exists>s'. postgres_insert_deposit (teh_gnunet teh) ?d s = Some (1, s') \<and> undisturbed s'"
  proof -
    obtain b where "TALER_PQ_query_param_amount (dep_amount_with_fee d) = Some b"
      using query_param_amount [OF a(1)] by blast
    moreover have "\<forall>r\<in>set (t_deposits (s_db s)). deposit_key r \<noteq> deposit_key_of d"
      using cov(1) by (force simp: deposit_covered_def)
    ultimately show ?thesis
      using dc(1) cov(2) d s(1)
      by (simp add: postgres_insert_deposit_def deposit_context_ok_def query_param_time sql_insert_deposit_def deposit_key_of_def
          deposit_key_def insert_undisturbed Let_def)
  qed
  with none tl t a d s(1) show ?thesis
    by (auto simp: deposit_transaction_def postgres_have_deposit_def singleton_undisturbed)
qed

lemma deposit_covered_known:
  assumes "known_effect (dep_coin d) db db1" and "deposit_covered teh d dc db" and "coin_tables_ok db"
  shows "deposit_covered teh d dc db1"
  using assms coin_totals_known [OF assms(3), of "known_row (dep_coin d)"]
  by (auto simp: known_effect_def deposit_covered_def coin_spent_def coin_known_def)

lemma deposit_success_signed:
  assumes "deposit_context_ok teh dc" and "teh_sign_keys teh = Some ks"
  shows "\<exists>sig pub. deposit_success teh (dc_deposit dc) = Some (reply_ok MHD_HTTP_OK (DEPOSIT_OK sig pub))"
proof -
  obtain r where r: "deposit_success teh (dc_deposit dc) = Some r" using deposit_success_total [OF assms(1)] .
  then have "\<exists>sig pub. r = reply_ok MHD_HTTP_OK (DEPOSIT_OK sig pub)"
    using assms(2)
    by (auto simp: deposit_success_def reply_deposit_success_def bind_eq_Some_conv TEH_KS_sign_def Let_def
        split: if_splits)
  with r show ?thesis by simp
qed

lemma deposit_is_accepted:
  assumes "teh_ok teh" and "deposit_request_ok teh d" and "idle s" and "s_outcomes s = []" and "db_ok (s_committed s)"
    and "deposit_acceptable teh d dc" and "deposit_covered teh d dc (s_committed s)"
  shows "\<exists>sig pub s'. TEH_handler_deposit teh d s = Some (Some (reply_ok MHD_HTTP_OK (DEPOSIT_OK sig pub)), s')
     \<and> (\<exists>db1. made_known (dep_coin d) (s_committed s) db1 \<and> deposit_stored teh d db1 (s_committed s'))"
proof -
  have dc: "deposit_context_ok teh dc" "deposit_checked teh d dc"
    using deposit_check_denomination_ok [OF assms(1,2)] assms(6) by (auto simp: deposit_acceptable_def)
  have s: "undisturbed s" using assms(3,4) by (simp add: undisturbed_def idle_def)
  have g: "gnunet_ok (teh_gnunet teh)" using assms(1) by (simp add: teh_ok_def)
  have d: "dep_coin (dc_deposit dc) = dep_coin d" using dc(2) by (auto simp: deposit_checked_def)
  have "\<exists>c' s'. TEH_DB_run_transaction (teh_gnunet teh) ''know coin for deposit'' (TEH_DB_know_coin_transaction (teh_gnunet teh))
      (dep_coin d) s = Some ((1, None :: exchange_reply reply option, c'), s') \<and> undisturbed s'"
    by (rule run_transaction_undisturbed [OF s assms(3)], rule know_coin_undisturbed)
      (use assms(5,7) in \<open>auto simp: db_ok_def deposit_covered_def\<close>)
  then obtain c' s1 where s1: "TEH_DB_run_transaction (teh_gnunet teh) ''know coin for deposit''
      (TEH_DB_know_coin_transaction (teh_gnunet teh)) (dep_coin d) s = Some ((1, None :: exchange_reply reply option, c'), s1)" "undisturbed s1"
    by blast
  have k: "known_effect (dep_coin d) (s_committed s) (s_committed s1)" "idle s1" "db_ok (s_committed s1)"
    using wpD [OF know_coin.run_transaction_wp [OF conjI [OF refl g] assms(3,5)] s1(1)] by (auto simp: run_ok_def)
  have cov: "deposit_covered teh d dc (s_committed s1)" "coin_known (s_committed s1) (coin_pub (dep_coin d))"
    using deposit_covered_known [OF k(1) assms(7)] known_effect_known [OF k(1)] assms(5) by (simp_all add: db_ok_def)
  have "\<exists>c' s'. TEH_DB_run_transaction (teh_gnunet teh) ''execute deposit'' (deposit_transaction teh) dc s1
      = Some ((1, None, c'), s') \<and> undisturbed s'"
    by (rule run_transaction_undisturbed [OF s1(2) k(2)], rule deposit_transaction_undisturbed [OF dc])
      (use cov k(3) in \<open>auto simp: db_ok_def\<close>)
  then obtain c'' s2 where s2: "TEH_DB_run_transaction (teh_gnunet teh) ''execute deposit'' (deposit_transaction teh) dc s1
      = Some ((1, None, c''), s2)"
    by blast
  obtain sig pub where r: "deposit_success teh (dc_deposit dc) = Some (reply_ok MHD_HTTP_OK (DEPOSIT_OK sig pub))"
    using deposit_success_signed [OF dc(1)] assms(6) by (auto simp: deposit_acceptable_def)
  have "TEH_handler_deposit teh d s = Some (Some (reply_ok MHD_HTTP_OK (DEPOSIT_OK sig pub)), s2)"
    using assms(6) s1 s2 r d by (simp add: TEH_handler_deposit_def deposit_acceptable_def Let_def not_less)
  moreover have "\<exists>db1. made_known (dep_coin d) (s_committed s) db1 \<and> deposit_stored teh d db1 (s_committed s2)"
    using wpaD [OF deposit_handler_wpa [OF assms(1-3,5)] calculation] assms(7)
    by (auto simp: deposit_answered_def deposit_executed_def deposit_covered_def made_known_sels)
  ultimately show ?thesis by blast
qed

text \<open>C6. If the database reports no errors, every deposit of a valid coin that has enough funds left,
  for a contract that it was not deposited for yet, is stored and confirmed.\<close>

theorem deposit_request_accepted:
  assumes "teh_ok teh" and "deposit_request_ok teh d" and "idle s" and "s_outcomes s = []" and "db_ok (s_committed s)"
    and "deposit_acceptable teh d dc" and "deposit_covered teh d dc (s_committed s)"
  shows "\<exists>sig pub s'. TEH_handler_deposit teh d s = Some (Some (reply_ok MHD_HTTP_OK (DEPOSIT_OK sig pub)), s')
     \<and> (\<exists>db1. made_known (dep_coin d) (s_committed s) db1 \<and> deposit_stored teh d db1 (s_committed s'))"
  using deposit_is_accepted [OF assms] .

section \<open>A sample\<close>

definition sample_deposit :: "pub_key \<Rightarrow> u64 \<Rightarrow> TALER_EXCHANGEDB_Deposit" where
  "sample_deposit coin amount = \<lparr>dep_coin = \<lparr>coin_pub = coin, coin_denom_pub_hash = 7, coin_denom_sig = coin + 7\<rparr>,
     dep_csig = coin, dep_merchant_pub = 50, dep_h_contract_terms = 51, dep_h_wire = 52,
     dep_receiver_wire_account = ''wire'', dep_timestamp = 130, dep_refund_deadline = 140, dep_wire_deadline = 150,
     dep_amount_with_fee = mk_amount ''EUR'' amount 0, dep_deposit_fee = mk_amount ''EUR'' 0 0\<rparr>"

definition sample_deposit_context :: "pub_key \<Rightarrow> u64 \<Rightarrow> DepositContext" where
  "sample_deposit_context coin amount =
     \<lparr>dc_deposit = (sample_deposit coin amount)\<lparr>dep_deposit_fee := mk_amount ''EUR'' 1 0\<rparr>, dc_value = mk_amount ''EUR'' 5 0\<rparr>"

lemma sample_deposit_hash:
  "TALER_JSON_merchant_wire_signature_hash (teh_crypto sample_teh) (teh_json_string sample_teh)
     (dep_receiver_wire_account (sample_deposit coin amount)) = Some (Some 52)"
  by (simp add: TALER_JSON_merchant_wire_signature_hash_def sample_teh_def validate_payto_def validate_payto_iban_def
      has_prefix_nocase_def TALER_merchant_wire_signature_hash_def tolower_def)
    (simp add: sample_crypto_def)

lemma sample_deposit_ok: "deposit_request_ok sample_teh (sample_deposit coin 3)"
  unfolding deposit_request_ok_def
  using mk_amount_in_EUR [of 0 3] by (simp add: sample_deposit_def request_amount_def amount_in_def amount_wf_def sample_ok)

lemma sample_deposit_acceptable: "deposit_acceptable sample_teh (sample_deposit coin 3) (sample_deposit_context coin 3)"
proof -
  have "TALER_test_coin_valid sample_crypto \<lparr>coin_pub = coin, coin_denom_pub_hash = 7, coin_denom_sig = coin + 7\<rparr> 7 = Some GNUNET_YES"
    by (simp add: TALER_test_coin_valid_def sample_crypto_def)
  moreover have "amount_in ''EUR'' (mk_amount ''EUR'' 1 0)" "amount_in ''EUR'' (mk_amount ''EUR'' 3 0)"
    "amt (mk_amount ''EUR'' 1 0) \<le> amt (mk_amount ''EUR'' 3 0)"
    by (simp_all add: mk_amount_in_EUR)
  moreover have "deposit_signed sample_teh (dc_deposit (sample_deposit_context coin 3)) = Some True"
    using hton_in [OF calculation(2), of id] hton_in [OF calculation(3), of id]
    by (auto simp: deposit_signed_def sample_deposit_context_def sample_deposit_def sample_crypto_def)
  ultimately show ?thesis
    unfolding deposit_acceptable_def sample_deposit_hash
    by (simp add: sample_deposit_def check_timestamp_current_def deposit_check_denomination_def sample_lookup sample_nbo
        sample_denomination_def sample_deposit_context_def)
qed


lemma sample_db_covers: "deposit_covered sample_teh (sample_deposit 20 3) (sample_deposit_context 20 3) sample_db"
  by (simp add: deposit_covered_def sample_deposit_def sample_deposit_context_def coin_spent_def coin_debits_def coin_credits_def
      coin_discount_def coin_deposited_def coin_melted_def coin_refunds_def coin_refunded_def coin_recouped_def
      coin_recoup_refreshed_def coin_old_recouped_def coin_known_def sample_db_def AMT_LIMIT_def)

theorem deposit_request_accepted_witness:
  "\<exists>sig pub s'. TEH_handler_deposit sample_teh (sample_deposit 20 3) (sample_idle sample_db [])
       = Some (Some (reply_ok MHD_HTTP_OK (DEPOSIT_OK sig pub)), s')"
  using deposit_request_accepted [OF sample_teh_ok(1) sample_deposit_ok _ _ _ sample_deposit_acceptable,
      of "sample_idle sample_db []" 20] sample_db_covers
  by (auto simp: db_ok_def sample_deposit_db_ok)

end
