(* ===== verification/Melt.thy ===== *)
theory Melt
  imports Undisturbed
begin

text \<open>
  \<^verbatim>\<open>src/exchange/taler-exchange-httpd_melt.c\<close>: melting a coin, the first half of a refresh.
\<close>

section \<open>The request\<close>

text \<open>The context also has the random numbers that \<^verbatim>\<open>GNUNET_CRYPTO_random_u32\<close> will deliver.\<close>

record MeltContext =
  rmc_refresh_session :: TALER_EXCHANGEDB_Refresh
  rmc_coin_value :: TALER_Amount
  rmc_coin_refresh_fee :: TALER_Amount
  rmc_zombie_required :: bool
  rmc_random :: "nat \<Rightarrow> u32"

definition reply_melt_insufficient_funds ::
    "TEH \<Rightarrow> pub_key \<Rightarrow> TALER_Amount \<Rightarrow> TALER_EXCHANGEDB_TransactionList list \<Rightarrow> TALER_Amount \<Rightarrow> TALER_Amount
       \<Rightarrow> exchange_reply reply option" where
  "reply_melt_insufficient_funds teh pub coin_value txs requested residual = do {
     history \<leftarrow> TEH_RESPONSE_compile_transaction_history (teh_crypto teh) (teh_sign_keys teh) pub txs;
     Some (case history of
             None \<Rightarrow> TALER_MHD_reply_with_error MHD_HTTP_INTERNAL_SERVER_ERROR
                       TALER_EC_MELT_HISTORY_DB_ERROR_INSUFFICIENT_FUNDS
           | Some h \<Rightarrow> reply_ok MHD_HTTP_CONFLICT
               (melt_insufficient_funds TALER_EC_MELT_INSUFFICIENT_FUNDS pub coin_value residual requested h))
   }"

definition reply_melt_success :: "TEH \<Rightarrow> hash_code \<Rightarrow> u32 \<Rightarrow> exchange_reply reply" where
  "reply_melt_success teh rc noreveal_index =
     (case TEH_KS_sign (teh_crypto teh) (teh_sign_keys teh) (TALER_RefreshMeltConfirmationPS rc noreveal_index) of
        None \<Rightarrow> TALER_MHD_reply_with_error MHD_HTTP_INTERNAL_SERVER_ERROR TALER_EC_EXCHANGE_BAD_CONFIGURATION
      | Some (pub, sig) \<Rightarrow> reply_ok MHD_HTTP_OK (MELT_OK noreveal_index sig pub))"

fun is_old_coin_recoup :: "TALER_EXCHANGEDB_TransactionDetails \<Rightarrow> bool" where
  "is_old_coin_recoup (TALER_EXCHANGEDB_TT_OLD_COIN_RECOUP _) = True"
| "is_old_coin_recoup _ = False"

definition refresh_check_melt :: "TEH \<Rightarrow> (MeltContext, exchange_reply, tables) transaction" where
  "refresh_check_melt teh rmc s = do {
     let spent = rf_amount_with_fee (rmc_refresh_session rmc);
     let pub = coin_pub (rf_coin (rmc_refresh_session rmc));
     ((qs, tl), s) \<leftarrow> postgres_get_coin_transactions (teh_gnunet teh) (teh_pg teh) pub True s;
     if 0 > qs
     then Some ((qs, if qs = GNUNET_DB_STATUS_HARD_ERROR
                     then Some (TALER_MHD_reply_with_error MHD_HTTP_INTERNAL_SERVER_ERROR TALER_EC_MELT_DB_FETCH_ERROR)
                     else None, rmc), s)
     else do {
       let rmc = (if rmc_zombie_required rmc \<and> (\<exists>tp\<in>set tl. is_old_coin_recoup (tl_details tp))
                  then rmc\<lparr>rmc_zombie_required := False\<rparr> else rmc);
       if rmc_zombie_required rmc
       then Some ((GNUNET_DB_STATUS_HARD_ERROR,
                   Some (TALER_MHD_reply_with_error MHD_HTTP_BAD_REQUEST TALER_EC_MELT_COIN_EXPIRED_NO_ZOMBIE), rmc), s)
       else do {
         (r, spent) \<leftarrow> TALER_EXCHANGEDB_calculate_transaction_list_totals tl spent spent;
         if r \<noteq> GNUNET_OK
         then Some ((GNUNET_DB_STATUS_HARD_ERROR,
                     Some (TALER_MHD_reply_with_error MHD_HTTP_INTERNAL_SERVER_ERROR
                             TALER_EC_MELT_COIN_HISTORY_COMPUTATION_FAILED), rmc), s)
         else do {
           c \<leftarrow> TALER_amount_cmp (rmc_coin_value rmc) spent;
           if 0 > c
           then do {
             (r, coin_residual) \<leftarrow> TALER_amount_subtract invalidate spent (rf_amount_with_fee (rmc_refresh_session rmc));
             GNUNET_assert (0 \<le> r);
             mhd_ret \<leftarrow> reply_melt_insufficient_funds teh pub (rmc_coin_value rmc) tl
                          (rf_amount_with_fee (rmc_refresh_session rmc)) coin_residual;
             Some ((GNUNET_DB_STATUS_HARD_ERROR, Some mhd_ret, rmc), s)
           }
           else Some ((GNUNET_DB_STATUS_SUCCESS_ONE_RESULT, None, rmc), s)
         }
       }
     }
   }"

definition melt_transaction :: "TEH \<Rightarrow> (MeltContext, exchange_reply, tables) transaction" where
  "melt_transaction teh rmc s = do {
     ((qs, noreveal_index), s) \<leftarrow> postgres_get_melt_index (teh_gnunet teh) (rf_rc (rmc_refresh_session rmc)) s;
     case noreveal_index of
       Some noreveal_index \<Rightarrow>
         Some ((GNUNET_DB_STATUS_HARD_ERROR,
                Some (reply_melt_success teh (rf_rc (rmc_refresh_session rmc)) noreveal_index), rmc), s)
     | None \<Rightarrow>
         (if 0 > qs
          then Some ((qs, if qs = GNUNET_DB_STATUS_HARD_ERROR
                          then Some (TALER_MHD_reply_with_error MHD_HTTP_INTERNAL_SERVER_ERROR TALER_EC_MELT_DB_FETCH_ERROR)
                          else None, rmc), s)
          else do {
            ((qs, mhd_ret, rmc), s) \<leftarrow> refresh_check_melt teh rmc s;
            if 0 > qs then Some ((qs, mhd_ret, rmc), s)
            else do {
              let noreveal_index = rmc_random rmc 0;
              let rmc = rmc\<lparr>rmc_refresh_session := (rmc_refresh_session rmc)\<lparr>rf_noreveal_index := noreveal_index\<rparr>,
                            rmc_random := \<lambda>i. rmc_random rmc (Suc i)\<rparr>;
              (qs, s) \<leftarrow> postgres_insert_melt (teh_gnunet teh) (rmc_refresh_session rmc) s;
              if 0 \<ge> qs
              then (if qs \<noteq> GNUNET_DB_STATUS_SOFT_ERROR
                    then Some ((GNUNET_DB_STATUS_HARD_ERROR,
                                Some (TALER_MHD_reply_with_error MHD_HTTP_INTERNAL_SERVER_ERROR
                                        TALER_EC_MELT_DB_STORE_SESSION_ERROR), rmc), s)
                    else Some ((qs, mhd_ret, rmc), s))
              else Some ((GNUNET_DB_STATUS_SUCCESS_ONE_RESULT, mhd_ret, rmc), s)
            }
          })
   }"

definition melt_signed :: "TEH \<Rightarrow> MeltContext \<Rightarrow> bool option" where
  "melt_signed teh rmc = do {
     let refresh = rmc_refresh_session rmc;
     amount_with_fee \<leftarrow> teh_hton teh (rf_amount_with_fee refresh);
     melt_fee \<leftarrow> teh_hton teh (rmc_coin_refresh_fee rmc);
     let body = TALER_RefreshMeltCoinAffirmationPS (rf_rc refresh) amount_with_fee melt_fee (coin_pub (rf_coin refresh));
     Some (GNUNET_CRYPTO_eddsa_verify (teh_crypto teh) body (rf_coin_sig refresh) (coin_pub (rf_coin refresh)))
   }"

definition handle_melt ::
    "TEH \<Rightarrow> MeltContext \<Rightarrow> tables session \<Rightarrow> (exchange_reply reply option \<times> tables session) option" where
  "handle_melt teh rmc s = do {
     ok \<leftarrow> melt_signed teh rmc;
     if \<not> ok
     then Some (Some (TALER_MHD_reply_with_error MHD_HTTP_FORBIDDEN TALER_EC_MELT_COIN_SIGNATURE_INVALID), s)
     else do {
       ((ret, mhd_ret, rmc), s) \<leftarrow> TEH_DB_run_transaction (teh_gnunet teh) ''run melt'' (melt_transaction teh) rmc s;
       if ret \<noteq> GNUNET_OK then Some (mhd_ret, s)
       else Some (Some (reply_melt_success teh (rf_rc (rmc_refresh_session rmc))
                          (rf_noreveal_index (rmc_refresh_session rmc))), s)
     }
   }"

text \<open>Finding the denomination key: a key valid for deposits, or a revoked one if the coin was seen
  before, or a key of an expired denomination if the coin turns out to be a zombie. The flag says that the coin is
  dirty.\<close>

definition melt_denomination ::
    "TEH \<Rightarrow> TEH_KS_StateHandle \<Rightarrow> MeltContext \<Rightarrow> tables session
       \<Rightarrow> ((exchange_reply reply + TALER_EXCHANGEDB_DenominationKey \<times> bool \<times> MeltContext) \<times> tables session) option" where
  "melt_denomination teh key_state rmc s =
     (let coin = rf_coin (rmc_refresh_session rmc);
          lookup = (\<lambda>i. TEH_KS_denomination_key_lookup_by_hash (teh_now teh (2 * i)) (teh_now teh (2 * i + 1))
                          key_state (coin_denom_pub_hash coin))
      in case lookup 0 TEH_KS_DKU_DEPOSIT of
           Inr dki \<Rightarrow> Some (Inr (dki, False, rmc), s)
         | Inl _ \<Rightarrow> do {
             (dki, s) \<leftarrow> (case lookup 1 TEH_KS_DKU_RECOUP of
                  Inl _ \<Rightarrow> Some (Inr None, s)
                | Inr dki \<Rightarrow> do {
                    ((qs, _), s) \<leftarrow> with_thread_session (postgres_get_coin_denomination (teh_gnunet teh) (coin_pub coin)) s;
                    Some (if 0 > qs
                          then Inl (TALER_MHD_reply_with_error MHD_HTTP_INTERNAL_SERVER_ERROR TALER_EC_MELT_DB_FETCH_ERROR)
                          else if qs \<noteq> GNUNET_DB_STATUS_SUCCESS_ONE_RESULT then Inr None else Inr (Some dki), s)
                  });
             case dki of
               Inl reply \<Rightarrow> Some (Inl reply, s)
             | Inr (Some dki) \<Rightarrow> Some (Inr (dki, True, rmc), s)
             | Inr None \<Rightarrow>
                 (case lookup 2 TEH_KS_DKU_ZOMBIE of
                    Inl (ec, hc) \<Rightarrow> Some (Inl (TALER_MHD_reply_with_error hc ec), s)
                  | Inr dki \<Rightarrow> Some (Inr (dki, False, rmc\<lparr>rmc_zombie_required := True\<rparr>), s))
           })"

definition check_for_denomination_key ::
    "TEH \<Rightarrow> MeltContext \<Rightarrow> tables session \<Rightarrow> (exchange_reply reply option \<times> tables session) option" where
  "check_for_denomination_key teh rmc s =
     (case teh_keys teh of
        None \<Rightarrow> Some (Some (TALER_MHD_reply_with_error MHD_HTTP_INTERNAL_SERVER_ERROR
                              TALER_EC_EXCHANGE_BAD_CONFIGURATION), s)
      | Some key_state \<Rightarrow> do {
          (d, s) \<leftarrow> melt_denomination teh key_state rmc s;
          case d of
            Inl reply \<Rightarrow> Some (Some reply, s)
          | Inr (dki, coin_is_dirty, rmc) \<Rightarrow> do {
              refresh_fee \<leftarrow> teh_ntoh teh (dk_fee_refresh (issue_properties dki));
              value \<leftarrow> teh_ntoh teh (dk_value (issue_properties dki));
              let rmc = rmc\<lparr>rmc_coin_refresh_fee := refresh_fee, rmc_coin_value := value\<rparr>;
              let coin = rf_coin (rmc_refresh_session rmc);
              let amount_with_fee = rf_amount_with_fee (rmc_refresh_session rmc);
              if TALER_amount_cmp_currency amount_with_fee value \<noteq> GNUNET_YES
              then Some (Some (TALER_MHD_reply_with_error MHD_HTTP_BAD_REQUEST TALER_EC_MELT_CURRENCY_MISMATCH), s)
              else do {
                valid \<leftarrow> TALER_test_coin_valid (teh_crypto teh) coin (denom_pub dki);
                if valid \<noteq> GNUNET_OK
                then Some (Some (TALER_MHD_reply_with_error MHD_HTTP_FORBIDDEN
                                   TALER_EC_MELT_DENOMINATION_SIGNATURE_INVALID), s)
                else do {
                  ((ret, mhd_ret), s) \<leftarrow> (if coin_is_dirty then Some ((GNUNET_OK, None), s)
                     else do {
                       ((ret, mhd_ret, _), s) \<leftarrow> TEH_DB_run_transaction (teh_gnunet teh) ''know coin for melt''
                          (TEH_DB_know_coin_transaction (teh_gnunet teh)) coin s;
                       Some ((ret, mhd_ret), s)
                     });
                  if ret \<noteq> GNUNET_OK then Some (mhd_ret, s)
                  else do {
                    c \<leftarrow> TALER_amount_cmp refresh_fee amount_with_fee;
                    if 0 < c
                    then Some (Some (TALER_MHD_reply_with_error MHD_HTTP_BAD_REQUEST
                                       TALER_EC_MELT_FEES_EXCEED_CONTRIBUTION), s)
                    else handle_melt teh rmc s
                  }
                }
              }
            }
        })"

text \<open>The handler is given the part of the request that the parser fills in.\<close>

definition TEH_handler_melt ::
    "TEH \<Rightarrow> TALER_EXCHANGEDB_Refresh \<Rightarrow> (nat \<Rightarrow> u32) \<Rightarrow> tables session
       \<Rightarrow> (exchange_reply reply option \<times> tables session) option" where
  "TEH_handler_melt teh refresh random s =
     check_for_denomination_key teh
       \<lparr>rmc_refresh_session = refresh\<lparr>rf_noreveal_index := 0\<rparr>, rmc_coin_value = zero_amount,
        rmc_coin_refresh_fee = zero_amount, rmc_zombie_required = False, rmc_random = random\<rparr> s"

section \<open>Zombies\<close>

text \<open>A coin from which another coin was refreshed that was then recouped\<close>

definition coin_zombie :: "tables \<Rightarrow> pub_key \<Rightarrow> bool" where
  "coin_zombie db p \<longleftrightarrow> (\<exists>q\<in>set (t_recoup_refresh db). blind_of_old_coin db p (rp_h_blind_ev q))"

lemma coin_history_zombie:
  assumes "coin_history g pg p True db = Some txs" and "\<exists>e\<in>set txs. is_old_coin_recoup (tl_details e)"
  shows "coin_zombie db p"
proof -
  from assms(2) obtain e where e: "e \<in> set txs" "is_old_coin_recoup (tl_details e)" by blast
  have no: "is_old_coin_recoup (tl_details e) \<Longrightarrow> add_coin_deposit g pg x1 \<noteq> Some e"
    "is_old_coin_recoup (tl_details e) \<Longrightarrow> add_coin_melt pg x2 \<noteq> Some e"
    "is_old_coin_recoup (tl_details e) \<Longrightarrow> add_coin_refund pg x3 \<noteq> Some e"
    "is_old_coin_recoup (tl_details e) \<Longrightarrow> add_coin_recoup g pg x4 \<noteq> Some e"
    "is_old_coin_recoup (tl_details e) \<Longrightarrow> add_coin_recoup_refresh g pg p x5 \<noteq> Some e" for x1 x2 x3 x4 x5
    by (auto simp: add_coin_deposit_def add_coin_melt_def add_coin_refund_def add_coin_recoup_def
        add_coin_recoup_refresh_def bind_eq_Some_conv split: prod.splits)
  from assms(1) e no obtain x where x: "x \<in> set (sql_recoup_by_old_coin p db)"
    by (auto simp: coin_history_def bind_eq_Some_conv dest!: history_entries_mem [of _ _ _ e])
  then show ?thesis
    by (auto simp: sql_recoup_by_old_coin_def coin_zombie_def blind_of_old_coin_def split: if_splits) metis
qed

lemma coin_zombie_melt:
  assumes "coin_tables_ok db" and "rcm_rc m \<notin> rcm_rc ` set (t_refresh_commitments db)"
  shows "coin_zombie (add_melt m db) p = coin_zombie db p"
proof -
  have "\<forall>r\<in>set (t_refresh_revealed_coins db). rrc_rc r \<noteq> rcm_rc m"
    using assms unfolding coin_tables_ok_def by metis
  then show ?thesis by (auto simp: coin_zombie_def blind_of_old_coin_def)
qed

section \<open>The transaction\<close>

definition melt_context_ok :: "TEH \<Rightarrow> MeltContext \<Rightarrow> bool" where
  "melt_context_ok teh rmc \<longleftrightarrow> teh_ok teh
     \<and> amount_in (teh_currency teh) (rf_amount_with_fee (rmc_refresh_session rmc))
     \<and> amount_in (teh_currency teh) (rmc_coin_value rmc) \<and> amount_in (teh_currency teh) (rmc_coin_refresh_fee rmc)
     \<and> (\<forall>i. rmc_random rmc i < 3)"

text \<open>The part of the context that the transaction does not change, and the flag, which it only clears for a
  zombie\<close>

definition melt_same :: "bool \<Rightarrow> MeltContext \<Rightarrow> MeltContext \<Rightarrow> bool" where
  "melt_same zombie rmc c \<longleftrightarrow>
     (rmc_refresh_session c)\<lparr>rf_noreveal_index := 0\<rparr> = (rmc_refresh_session rmc)\<lparr>rf_noreveal_index := 0\<rparr>
     \<and> rmc_coin_value c = rmc_coin_value rmc \<and> rmc_coin_refresh_fee c = rmc_coin_refresh_fee rmc
     \<and> (rmc_zombie_required rmc \<and> \<not> rmc_zombie_required c \<longrightarrow> zombie)"

lemma melt_same_sels:
  assumes "melt_same z rmc c"
  shows "rf_coin (rmc_refresh_session c) = rf_coin (rmc_refresh_session rmc)"
    and "rf_coin_sig (rmc_refresh_session c) = rf_coin_sig (rmc_refresh_session rmc)"
    and "rf_rc (rmc_refresh_session c) = rf_rc (rmc_refresh_session rmc)"
    and "rf_amount_with_fee (rmc_refresh_session c) = rf_amount_with_fee (rmc_refresh_session rmc)"
    and "rmc_coin_value c = rmc_coin_value rmc"
  using assms
  by (cases "rmc_refresh_session c"; cases "rmc_refresh_session rmc"; simp add: melt_same_def)+

definition melt_inv :: "bool \<Rightarrow> pub_key \<Rightarrow> tables \<Rightarrow> bool" where
  "melt_inv zombie p db \<longleftrightarrow> db_ok db \<and> coin_zombie db p = zombie"

definition melt_effect :: "MeltContext \<Rightarrow> tables \<Rightarrow> tables \<Rightarrow> bool" where
  "melt_effect c db db' \<longleftrightarrow> (\<exists>row. new_melt (rmc_refresh_session c) db row \<and> db' = add_melt row db
     \<and> rcm_noreveal_index row < 3
     \<and> coin_spent True db (coin_pub (rf_coin (rmc_refresh_session c))) + amt (rf_amount_with_fee (rmc_refresh_session c))
         \<le> amt (rmc_coin_value c)
     \<and> \<not> rmc_zombie_required c)"

definition melt_refused :: "hash_code \<Rightarrow> tables \<Rightarrow> exchange_reply reply option \<Rightarrow> bool" where
  "melt_refused rc db mhd_ret \<longleftrightarrow> mhd_ret \<noteq> None \<and>
     (\<forall>i sig pub. mhd_ret = Some (reply_ok MHD_HTTP_OK (MELT_OK i sig pub)) \<longrightarrow>
        (\<exists>m\<in>set (t_refresh_commitments db). rcm_rc m = rc \<and> rcm_noreveal_index m = i))"

lemma reply_melt_insufficient_total:
  assumes "tl_in c txs"
  obtains r where "reply_melt_insufficient_funds teh p val txs req res = Some r" and "\<And>x. r \<noteq> reply_ok MHD_HTTP_OK x"
  using compile_transaction_history_total [OF assms, of "teh_crypto teh" "teh_sign_keys teh" p]
  by (auto simp: reply_melt_insufficient_funds_def split: option.splits)

text \<open>The check of the coin does not change the tables, and it only aborts if refunds exceed what the coin has spent.\<close>

lemma refresh_check_melt_wpa:
  assumes ok: "melt_context_ok teh c" and s: "in_fresh_tx s" and u: "unchanged s s1"
    and inv: "melt_inv z (coin_pub (rf_coin (rmc_refresh_session c))) (s_db s)"
  shows "wpa (coin_spent True (s_db s) (coin_pub (rf_coin (rmc_refresh_session c))) < 0) (refresh_check_melt teh c s1)
    (\<lambda>(qs, mhd_ret, c') s'. unchanged s s' \<and>
      (\<exists>b. c' = c\<lparr>rmc_zombie_required := b\<rparr> \<and> (rmc_zombie_required c \<and> \<not> b \<longrightarrow> z) \<and> (b \<longrightarrow> rmc_zombie_required c)) \<and>
      (qs = GNUNET_DB_STATUS_SOFT_ERROR \<and> mhd_ret = None
       \<or> qs = GNUNET_DB_STATUS_HARD_ERROR \<and> melt_refused rc (s_db s) mhd_ret
       \<or> qs = GNUNET_DB_STATUS_SUCCESS_ONE_RESULT \<and> mhd_ret = None \<and> \<not> rmc_zombie_required c'
         \<and> coin_spent True (s_db s) (coin_pub (rf_coin (rmc_refresh_session c))) + amt (rf_amount_with_fee (rmc_refresh_session c))
             \<le> amt (rmc_coin_value c)))" (is "wpa ?neg _ ?Q")
proof -
  let ?p = "coin_pub (rf_coin (rmc_refresh_session c))" and ?a = "rf_amount_with_fee (rmc_refresh_session c)"
  have g: "gnunet_ok (teh_gnunet teh)" and pg: "pg_ok (teh_pg teh)" and a: "amount_in (teh_currency teh) ?a"
    and val: "amount_in (teh_currency teh) (rmc_coin_value c)"
    using ok by (auto simp: melt_context_ok_def teh_ok_def)
  have ct: "coin_tables_ok (s_db s)" and z: "coin_zombie (s_db s) ?p = z"
    using inv by (simp_all add: melt_inv_def db_ok_def)
  obtain txs where h: "coin_history (teh_gnunet teh) (teh_pg teh) ?p True (s_db s) = Some txs"
    and hok: "history_ok (teh_currency teh) True (s_db s) ?p txs"
    using coin_history_ok [OF pg ct] by blast
  have zb: "\<exists>tp\<in>set txs. is_old_coin_recoup (tl_details tp) \<Longrightarrow> z"
    using coin_history_zombie [OF h] z by simp
  have tl: "tl_in (teh_currency teh) txs" using hok by (simp add: history_ok_def)
  have hard: "?Q (- 2, Some r, c\<lparr>rmc_zombie_required := b\<rparr>) s'"
    if "unchanged s s'" "\<And>x. r \<noteq> reply_ok MHD_HTTP_OK x" "rmc_zombie_required c \<and> \<not> b \<longrightarrow> z" "b \<longrightarrow> rmc_zombie_required c" for r s' b
    using that by (auto simp: melt_refused_def)
  have funds: "wpa ?neg (TALER_amount_cmp (rmc_coin_value c) t \<bind> (\<lambda>x. if 0 > x
       then TALER_amount_subtract invalidate t ?a \<bind> (\<lambda>(r, residual). GNUNET_assert (0 \<le> r) \<bind> (\<lambda>_.
              reply_melt_insufficient_funds teh ?p (rmc_coin_value c) txs ?a residual \<bind> (\<lambda>mhd_ret.
                Some ((- 2, Some mhd_ret, c'), s'))))
       else Some ((1, None, c'), s'))) ?Q"
    if "unchanged s s'" "amount_in (teh_currency teh) t" "amt t = amt ?a + coin_spent True (s_db s) ?p"
      "c' = c\<lparr>rmc_zombie_required := False\<rparr>" "rmc_zombie_required c \<longrightarrow> z" for t s' c'
  proof (cases "amt (rmc_coin_value c) < amt t")
    case True
    note prem = that
    obtain r res where "TALER_amount_subtract invalidate t ?a = Some (r, res)" "0 \<le> r \<or> ?neg"
      using amount_subtract_wp [OF prem(2) a, of invalidate] prem(3) by (auto simp: wp_iff)
    moreover obtain rep where "reply_melt_insufficient_funds teh ?p (rmc_coin_value c) txs ?a res = Some rep"
      "\<And>x. rep \<noteq> reply_ok MHD_HTTP_OK x"
      using reply_melt_insufficient_total [OF tl, of teh ?p "rmc_coin_value c" ?a res] by metis
    ultimately show ?thesis
      using True val prem hard [OF prem(1), of rep False] by (cases "0 \<le> r") simp_all
  qed (use that val in auto)
  show ?thesis
    unfolding refresh_check_melt_def Let_def
  proof (rule coin_transactions_bind_wpa [OF g in_fresh_txD(1) [OF s] u h], goal_cases)
    case (3 qs s')
    show ?case
    proof (cases "rmc_zombie_required c \<and> \<not> (\<exists>tp\<in>set txs. is_old_coin_recoup (tl_details tp))")
      case True
      with 3 hard [OF 3(1), of _ True] show ?thesis by (auto simp: melt_refused_def intro: exI [of _ True])
    next
      case False
      define c' where "c' = c\<lparr>rmc_zombie_required := False\<rparr>"
      have e: "(if rmc_zombie_required c \<and> (\<exists>tp\<in>set txs. is_old_coin_recoup (tl_details tp))
          then c\<lparr>rmc_zombie_required := False\<rparr> else c) = c'"
        using False by (auto simp: c'_def)
      have c': "rmc_zombie_required c' = False" "rmc_coin_value c' = rmc_coin_value c"
        "rmc_refresh_session c' = rmc_refresh_session c" "(qs < 0) = False"
        using 3(2) by (simp_all add: c'_def)
      have zz: "rmc_zombie_required c \<longrightarrow> z" using False zb by blast
      show ?thesis
        unfolding prod.case e c' if_False
      proof (rule coin_totals_bind_wpa [OF hok a], goal_cases)
        case (1 t)
        show ?case using 3(1) zz by (auto simp: c'_def melt_refused_def)
      next
        case (2 t)
        show ?case using funds [OF 3(1) 2 c'_def zz] by simp
      qed
    qed
  qed (auto simp: melt_refused_def intro: exI [of _ "rmc_zombie_required c"])
qed

lemma get_melt_index_wp:
  assumes "gnunet_ok g" and "session_ok s"
  shows "wp (postgres_get_melt_index g rc s) (\<lambda>(qs, r) s'. unchanged s s' \<and>
     ((qs = GNUNET_DB_STATUS_SOFT_ERROR \<or> qs = GNUNET_DB_STATUS_HARD_ERROR) \<and> r = None
      \<or> qs = GNUNET_DB_STATUS_SUCCESS_NO_RESULTS \<and> r = None
      \<or> (\<exists>m\<in>set (t_refresh_commitments (s_db s)). rcm_rc m = rc \<and> r = Some (rcm_noreveal_index m))))"
  unfolding postgres_get_melt_index_def
proof (rule wp_mono [OF pq_singleton_select_wp [OF assms]], goal_cases)
  case (1 x s')
  have "\<exists>m\<in>set (t_refresh_commitments (s_db s)). rcm_rc m = rc \<and> i = rcm_noreveal_index m"
    if "sql_get_melt_index rc (s_db s) = [i]" for i
  proof -
    have "i \<in> set (sql_get_melt_index rc (s_db s))" using that by simp
    then show ?thesis by (auto simp: sql_get_melt_index_def)
  qed
  with 1 show ?case by auto
qed

lemma melt_callback:
  assumes ok: "melt_context_ok teh c" and same: "melt_same z rmc c" and s: "in_fresh_tx s"
    and inv: "melt_inv z (coin_pub (rf_coin (rmc_refresh_session rmc))) (s_db s)"
  shows "wpa (coin_spent True (s_db s) (coin_pub (rf_coin (rmc_refresh_session rmc))) < 0) (melt_transaction teh c s)
     (callback_ok (melt_inv z (coin_pub (rf_coin (rmc_refresh_session rmc)))) (\<lambda>c. melt_same z rmc c \<and> melt_context_ok teh c)
       (\<lambda>c db c' db'. melt_effect c' db db') (melt_refused (rf_rc (rmc_refresh_session rmc))) c (s_db s))" (is "wpa ?neg _ ?Q")
proof -
  note fresh = in_fresh_txD [OF s] and sels = melt_same_sels [OF same]
  let ?p = "coin_pub (rf_coin (rmc_refresh_session rmc))"
  have g: "gnunet_ok (teh_gnunet teh)" using ok by (simp add: melt_context_ok_def teh_ok_def)
  have inv': "melt_inv z (coin_pub (rf_coin (rmc_refresh_session c))) (s_db s)" using inv sels by simp
  have insert: "wp (postgres_insert_melt (teh_gnunet teh) (rmc_refresh_session c2) s2 \<bind> (\<lambda>(qs, s).
       if 0 \<ge> qs then (if qs \<noteq> GNUNET_DB_STATUS_SOFT_ERROR
         then Some ((GNUNET_DB_STATUS_HARD_ERROR, Some (TALER_MHD_reply_with_error hc ec), c2), s)
         else Some ((qs, None, c2), s))
       else Some ((GNUNET_DB_STATUS_SUCCESS_ONE_RESULT, None, c2), s))) ?Q"
    if u: "unchanged s s2" and c2: "melt_same z rmc c2" "melt_context_ok teh c2" "\<not> rmc_zombie_required c2"
      "rf_noreveal_index (rmc_refresh_session c2) < 3"
      and funds: "coin_spent True (s_db s) ?p + amt (rf_amount_with_fee (rmc_refresh_session c2)) \<le> amt (rmc_coin_value c2)"
    for s2 c2 hc ec
  proof -
    note f = unchanged_fresh [OF s u]
    have a: "amount_in (teh_currency teh) (rf_amount_with_fee (rmc_refresh_session c2))"
      using c2(2) by (simp add: melt_context_ok_def)
    have eff: "melt_inv z ?p (add_melt row (s_db s)) \<and> melt_effect c2 (s_db s) (add_melt row (s_db s))"
      if "new_melt (rmc_refresh_session c2) (s_db s) row" for row
      using that c2 funds inv melt_same_sels [OF c2(1)]
      by (auto simp: melt_inv_def melt_effect_def db_ok_def new_melt_def coin_spent_melt coin_zombie_melt
          intro!: coin_tables_ok_melt exI [of _ row])
    show ?thesis
    proof (rule wp_bindI [OF insert_melt_wp [OF g f(1) a]], goal_cases)
      case (1 qs s')
      then consider row where "qs = 1" "new_melt (rmc_refresh_session c2) (s_db s) row" "updated s2 (add_melt row (s_db s)) s'"
        | "qs = - 1 \<or> qs = - 2 \<or> qs = 0" "unchanged s2 s'"
        using f(2) by (auto simp: insert_ok_def)
      then show ?case
      proof cases
        case (1 row)
        then have "tx_outcome s' = add_melt row (s_db s)" "s_committed s' = s_db s"
          using f by (auto simp: tx_outcome_def updated_def)
        with 1 eff [OF 1(2)] c2 show ?thesis by (simp add: callback_ok_def)
      next
        case 2
        then show ?thesis using f c2 by (auto simp: callback_ok_def melt_refused_def unchanged_def)
      qed
    qed
  qed
  show ?thesis
    unfolding melt_transaction_def
  proof (rule wpa_bindI [OF wpaI [OF get_melt_index_wp [OF g fresh(1)]]], unfold prod.case, goal_cases)
    case (1 x s1)
    obtain qs i where x: "x = (qs, i)" by (cases x)
    have u: "unchanged s s1" using 1 x by simp
    note f = unchanged_fresh [OF s u]
    show ?case
    proof (cases i)
      case (Some i')
      with 1 x obtain m where "m \<in> set (t_refresh_commitments (s_db s))" "rcm_rc m = rf_rc (rmc_refresh_session c)"
        "i' = rcm_noreveal_index m" by auto
      then have "melt_refused (rf_rc (rmc_refresh_session rmc)) (s_db s)
          (Some (reply_melt_success teh (rf_rc (rmc_refresh_session c)) i'))"
        using sels by (auto simp: melt_refused_def reply_melt_success_def split: option.splits)
      with Some x f same ok show ?thesis by (simp add: callback_ok_def)
    next
      case None
      show ?thesis
      proof (cases "0 > qs")
        case True
        with None 1 x f same ok show ?thesis by (auto simp: callback_ok_def melt_refused_def)
      next
        case False
        have "wpa ?neg (refresh_check_melt teh c s1 \<bind> (\<lambda>((qs, mhd_ret, rmc), s).
            if 0 > qs then Some ((qs, mhd_ret, rmc), s)
            else let noreveal_index = rmc_random rmc 0;
              rmc = rmc\<lparr>rmc_refresh_session := (rmc_refresh_session rmc)\<lparr>rf_noreveal_index := noreveal_index\<rparr>,
                            rmc_random := \<lambda>i. rmc_random rmc (Suc i)\<rparr>
            in postgres_insert_melt (teh_gnunet teh) (rmc_refresh_session rmc) s \<bind> (\<lambda>(qs, s).
               if 0 \<ge> qs then (if qs \<noteq> GNUNET_DB_STATUS_SOFT_ERROR
                 then Some ((GNUNET_DB_STATUS_HARD_ERROR, Some (TALER_MHD_reply_with_error hc ec), rmc), s)
                 else Some ((qs, mhd_ret, rmc), s))
               else Some ((GNUNET_DB_STATUS_SUCCESS_ONE_RESULT, mhd_ret, rmc), s)))) ?Q" for hc ec
        proof (rule wpa_bindI [OF refresh_check_melt_wpa [OF ok s u inv', where rc = "rf_rc (rmc_refresh_session rmc)", unfolded sels(1)]], goal_cases)
          case (1 y s2)
          then obtain qs' mhd_ret b where y: "y = (qs', mhd_ret, c\<lparr>rmc_zombie_required := b\<rparr>)" "unchanged s s2"
            "rmc_zombie_required c \<and> \<not> b \<longrightarrow> z" "b \<longrightarrow> rmc_zombie_required c"
            by (auto split: prod.splits)
          define c1 where "c1 = c\<lparr>rmc_zombie_required := b\<rparr>"
          note y = y [folded c1_def]
          have c1: "rmc_refresh_session c1 = rmc_refresh_session c" "rmc_coin_value c1 = rmc_coin_value c" by (simp_all add: c1_def)
          have c: "melt_same z rmc c1" "melt_context_ok teh c1"
            using same ok y(3,4) by (auto simp: melt_same_def melt_context_ok_def c1_def)
          show ?case
          proof (cases "0 > qs'")
            case True
            with 1 y c unchanged_fresh [OF s y(2)] show ?thesis by (auto simp: callback_ok_def)
          next
            case False
            let ?c2 = "c1\<lparr>rmc_refresh_session := (rmc_refresh_session c1)\<lparr>rf_noreveal_index := rmc_random c1 0\<rparr>,
                            rmc_random := \<lambda>i. rmc_random c1 (Suc i)\<rparr>"
            have "melt_same z rmc ?c2" "melt_context_ok teh ?c2" "rf_noreveal_index (rmc_refresh_session ?c2) < 3"
              using c by (auto simp: melt_same_def melt_context_ok_def)
            moreover have "\<not> rmc_zombie_required ?c2" "mhd_ret = None"
              "coin_spent True (s_db s) ?p + amt (rf_amount_with_fee (rmc_refresh_session ?c2)) \<le> amt (rmc_coin_value ?c2)"
              using 1 y False sels c1 by auto
            ultimately show ?thesis
              using wpaI [OF insert [OF y(2), of ?c2 hc ec]] y(1) False by (simp add: Let_def)
          qed
        qed
        with None False x show ?thesis by simp
      qed
    qed
  qed
qed

interpretation melt: db_transaction_aborting "teh_gnunet teh" "melt_transaction teh"
    "melt_inv z (coin_pub (rf_coin (rmc_refresh_session rmc)))" "\<lambda>c. melt_same z rmc c \<and> melt_context_ok teh c"
    "\<lambda>c db c' db'. melt_effect c' db db'" "melt_refused (rf_rc (rmc_refresh_session rmc))"
    "\<lambda>db. coin_spent True db (coin_pub (rf_coin (rmc_refresh_session rmc))) < 0" for teh z rmc
proof unfold_locales
  fix c s assume "melt_same z rmc c \<and> melt_context_ok teh c" "in_fresh_tx s"
    "melt_inv z (coin_pub (rf_coin (rmc_refresh_session rmc))) (s_db s)"
  then show "wpa (coin_spent True (s_db s) (coin_pub (rf_coin (rmc_refresh_session rmc))) < 0) (melt_transaction teh c s)
     (callback_ok (melt_inv z (coin_pub (rf_coin (rmc_refresh_session rmc)))) (\<lambda>c. melt_same z rmc c \<and> melt_context_ok teh c)
       (\<lambda>c db c' db'. melt_effect c' db db') (melt_refused (rf_rc (rmc_refresh_session rmc))) c (s_db s))"
    by (elim conjE) (rule melt_callback)
qed (auto simp: melt_refused_def melt_context_ok_def teh_ok_def)

section \<open>The whole request\<close>

text \<open>The denomination keys that a melt may use: one valid for deposits, a revoked one if the coin was known,
  or an expired one if the coin is a zombie\<close>

definition melt_key :: "TEH_KS_StateHandle \<Rightarrow> tables \<Rightarrow> TALER_CoinPublicInfo \<Rightarrow> TALER_EXCHANGEDB_DenominationKey \<Rightarrow> bool" where
  "melt_key ks db coin dki \<longleftrightarrow> (\<exists>now now' use.
     TEH_KS_denomination_key_lookup_by_hash now now' ks (coin_denom_pub_hash coin) use = Inr dki
     \<and> (use = TEH_KS_DKU_DEPOSIT \<or> use = TEH_KS_DKU_RECOUP \<and> coin_known db (coin_pub coin)
        \<or> use = TEH_KS_DKU_ZOMBIE \<and> coin_zombie db (coin_pub coin)))"

definition melt_checked :: "TEH \<Rightarrow> TALER_EXCHANGEDB_Refresh \<Rightarrow> tables \<Rightarrow> MeltContext \<Rightarrow> bool" where
  "melt_checked teh d db rmc \<longleftrightarrow> rmc_refresh_session rmc = d\<lparr>rf_noreveal_index := 0\<rparr> \<and> (\<exists>ks dki.
     teh_keys teh = Some ks \<and> (\<not> rmc_zombie_required rmc \<or> coin_zombie db (coin_pub (rf_coin d)) \<longrightarrow> melt_key ks db (rf_coin d) dki)
     \<and> teh_ntoh teh (dk_value (issue_properties dki)) = Some (rmc_coin_value rmc)
     \<and> teh_ntoh teh (dk_fee_refresh (issue_properties dki)) = Some (rmc_coin_refresh_fee rmc)
     \<and> GNUNET_CRYPTO_rsa_verify (teh_crypto teh) (GNUNET_CRYPTO_hash_key (teh_crypto teh) (coin_pub (rf_coin d)))
         (coin_denom_sig (rf_coin d)) (denom_pub dki))"

text \<open>\<open>db1\<close> is \<open>db\<close> after the coin was made known.\<close>

definition melt_stored :: "TEH \<Rightarrow> TALER_EXCHANGEDB_Refresh \<Rightarrow> tables \<Rightarrow> tables \<Rightarrow> tables \<Rightarrow> bool" where
  "melt_stored teh d db db1 db' \<longleftrightarrow> (\<exists>rmc row. melt_checked teh d db rmc \<and> melt_signed teh rmc = Some True
     \<and> (rmc_zombie_required rmc \<longrightarrow> coin_zombie db (coin_pub (rf_coin d)))
     \<and> amt (rmc_coin_refresh_fee rmc) \<le> amt (rf_amount_with_fee d)
     \<and> db' = add_melt row db1 \<and> rcm_rc row = rf_rc d
     \<and> rcm_old_coin_pub row = coin_pub (rf_coin d) \<and> sqlamt (rcm_amount_with_fee row) = amt (rf_amount_with_fee d)
     \<and> rcm_noreveal_index row < 3 \<and> rf_rc d \<notin> rcm_rc ` set (t_refresh_commitments db1)
     \<and> coin_spent True db' (coin_pub (rf_coin d)) = coin_spent True db1 (coin_pub (rf_coin d)) + amt (rf_amount_with_fee d)
     \<and> coin_spent True db' (coin_pub (rf_coin d)) \<le> amt (rmc_coin_value rmc))"

definition melt_executed ::
    "TEH \<Rightarrow> TALER_EXCHANGEDB_Refresh \<Rightarrow> tables \<Rightarrow> tables \<Rightarrow> exchange_reply reply option \<Rightarrow> tables session \<Rightarrow> bool" where
  "melt_executed teh d db db1 r s' \<longleftrightarrow> r \<noteq> None \<and> idle s' \<and> db_ok (s_committed s')
     \<and> (s_committed s' = db1 \<or> melt_stored teh d db db1 (s_committed s'))
     \<and> (\<forall>i sig pub. r = Some (reply_ok MHD_HTTP_OK (MELT_OK i sig pub)) \<longrightarrow>
          (\<exists>m\<in>set (t_refresh_commitments (s_committed s')). rcm_rc m = rf_rc d \<and> rcm_noreveal_index m = i))"

definition melt_answered ::
    "TEH \<Rightarrow> TALER_EXCHANGEDB_Refresh \<Rightarrow> tables \<Rightarrow> exchange_reply reply option \<Rightarrow> tables session \<Rightarrow> bool" where
  "melt_answered teh d db r s' \<longleftrightarrow> (\<exists>db1. made_known (rf_coin d) db db1 \<and> melt_executed teh d db db1 r s')"

lemma melt_signed_total: "melt_context_ok teh rmc \<Longrightarrow> \<exists>b. melt_signed teh rmc = Some b"
  using hton_in [of "teh_currency teh" "rf_amount_with_fee (rmc_refresh_session rmc)" "GNUNET_htonll (teh_crypto teh)"]
    hton_in [of "teh_currency teh" "rmc_coin_refresh_fee rmc" "GNUNET_htonll (teh_crypto teh)"]
  by (auto simp: melt_signed_def melt_context_ok_def Let_def)

lemma handle_melt_wpa:
  assumes ok: "melt_context_ok teh rmc" and chk: "melt_checked teh d db rmc"
    and fee: "amt (rmc_coin_refresh_fee rmc) \<le> amt (rf_amount_with_fee d)"
    and s: "idle s" "db_ok (s_committed s)"
    and db: "coin_zombie db (coin_pub (rf_coin d)) = coin_zombie (s_committed s) (coin_pub (rf_coin d))"
  shows "wpa (coin_spent True (s_committed s) (coin_pub (rf_coin d)) < 0) (handle_melt teh rmc s)
     (melt_executed teh d db (s_committed s))" (is "wpa ?neg _ _")
proof -
  let ?p = "coin_pub (rf_coin d)" and ?z = "coin_zombie (s_committed s) (coin_pub (rf_coin d))"
  have r: "rmc_refresh_session rmc = d\<lparr>rf_noreveal_index := 0\<rparr>" using chk by (simp add: melt_checked_def)
  have same: "melt_same ?z rmc rmc" by (simp add: melt_same_def)
  have inv: "melt_inv ?z ?p (s_committed s)" using s by (simp add: melt_inv_def)
  obtain b where b: "melt_signed teh rmc = Some b" using melt_signed_total [OF ok] by blast
  have run: "wpa ?neg (TEH_DB_run_transaction (teh_gnunet teh) name (melt_transaction teh) rmc s)
     (run_ok (melt_inv ?z ?p) (\<lambda>c. melt_same ?z rmc c \<and> melt_context_ok teh c) (\<lambda>c db c' db'. melt_effect c' db db')
       (melt_refused (rf_rc d)) (s_committed s))" for name
    using melt.run_transaction_wpa [OF conjI [OF same ok] s(1), of name] inv by (simp add: r)
  have "wpa ?neg (TEH_DB_run_transaction (teh_gnunet teh) name (melt_transaction teh) rmc s \<bind> (\<lambda>((ret, mhd_ret, rmc), s).
       if ret \<noteq> GNUNET_OK then Some (mhd_ret, s)
       else Some (Some (reply_melt_success teh (rf_rc (rmc_refresh_session rmc))
                          (rf_noreveal_index (rmc_refresh_session rmc))), s))) (melt_executed teh d db (s_committed s))"
    if sig: "melt_signed teh rmc = Some True" for name
  proof (rule wpa_bindI [OF run], goal_cases)
    case (1 x s')
    then obtain ret mhd_ret c where x: "x = (ret, mhd_ret, c)"
      and c: "melt_same ?z rmc c" "idle s'" "melt_inv ?z ?p (s_committed s')"
      and cases: "ret = 1 \<and> melt_effect c (s_committed s) (s_committed s')
        \<or> ret = - 1 \<and> melt_refused (rf_rc d) (s_committed s) mhd_ret \<and> s_committed s' = s_committed s"
      by (auto simp: run_ok_def r split: prod.splits)
    note sels = melt_same_sels [OF c(1), unfolded r, simplified]
    from cases show ?case
    proof
      assume "ret = 1 \<and> melt_effect c (s_committed s) (s_committed s')"
      then obtain row where row: "ret = 1" "new_melt (rmc_refresh_session c) (s_committed s) row"
        "s_committed s' = add_melt row (s_committed s)" "rcm_noreveal_index row < 3" "\<not> rmc_zombie_required c"
        "coin_spent True (s_committed s) ?p + amt (rf_amount_with_fee d) \<le> amt (rmc_coin_value rmc)"
        using sels by (auto simp: melt_effect_def)
      have z: "rmc_zombie_required rmc \<longrightarrow> ?z" using c(1) row(5) by (simp add: melt_same_def)
      have "melt_stored teh d db (s_committed s) (s_committed s')"
        using row chk sig fee z sels s(2) db
        by (auto simp: melt_stored_def new_melt_def db_ok_def coin_spent_melt intro!: exI [of _ rmc])
      with row x c sels show ?thesis
        by (auto simp: melt_executed_def melt_inv_def reply_melt_success_def new_melt_def split: option.splits)
    next
      assume "ret = - 1 \<and> melt_refused (rf_rc d) (s_committed s) mhd_ret \<and> s_committed s' = s_committed s"
      with x c db show ?thesis
        by (auto simp: melt_executed_def melt_inv_def melt_refused_def)
    qed
  qed
  with b s db show ?thesis
    by (cases b) (simp_all add: handle_melt_def melt_executed_def)
qed

text \<open>The key that is found\<close>

definition melt_found ::
    "TEH \<Rightarrow> TEH_KS_StateHandle \<Rightarrow> MeltContext \<Rightarrow> tables
       \<Rightarrow> exchange_reply reply + TALER_EXCHANGEDB_DenominationKey \<times> bool \<times> MeltContext \<Rightarrow> bool" where
  "melt_found teh ks rmc db x = (case x of
       Inl reply \<Rightarrow> (\<exists>hc ec. reply = TALER_MHD_reply_with_error hc ec)
     | Inr (dki, dirty, rmc') \<Rightarrow> denomination_ok teh (coin_denom_pub_hash (rf_coin (rmc_refresh_session rmc))) dki
         \<and> (\<exists>b. rmc' = rmc\<lparr>rmc_zombie_required := b\<rparr>)
         \<and> (\<not> rmc_zombie_required rmc' \<or> coin_zombie db (coin_pub (rf_coin (rmc_refresh_session rmc)))
              \<longrightarrow> melt_key ks db (rf_coin (rmc_refresh_session rmc)) dki))"

lemma melt_denomination_wpa:
  assumes "teh_ok teh" and ks: "keys_ok teh ks" and s: "idle s" "\<not> connected s \<longrightarrow> b" and z: "\<not> rmc_zombie_required rmc"
  shows "wpa b (melt_denomination teh ks rmc s) (\<lambda>x s'. idle s' \<and> s_committed s' = s_committed s
     \<and> melt_found teh ks rmc (s_committed s) x)" (is "wpa _ _ ?Q")
proof -
  let ?coin = "rf_coin (rmc_refresh_session rmc)"
  let ?l = "\<lambda>i. TEH_KS_denomination_key_lookup_by_hash (teh_now teh (2 * i)) (teh_now teh (2 * i + 1)) ks (coin_denom_pub_hash ?coin)"
  have g: "gnunet_ok (teh_gnunet teh)" using assms(1) by (simp add: teh_ok_def)
  have rmc: "rmc\<lparr>rmc_zombie_required := False\<rparr> = rmc" using z by simp
  have same: "\<exists>b. rmc = rmc\<lparr>rmc_zombie_required := b\<rparr>" by (rule exI [of _ False]) (simp add: rmc)
  have zombie: "wpa b (case ?l 2 TEH_KS_DKU_ZOMBIE of
                    Inl (ec, hc) \<Rightarrow> Some (Inl (TALER_MHD_reply_with_error hc ec), s')
                  | Inr dki \<Rightarrow> Some (Inr (dki, False, rmc\<lparr>rmc_zombie_required := True\<rparr>), s')) ?Q"
    if "idle s'" "s_committed s' = s_committed s" for s'
  proof (cases "?l 2 TEH_KS_DKU_ZOMBIE")
    case (Inr dki)
    then have "coin_zombie (s_committed s) (coin_pub ?coin) \<Longrightarrow> melt_key ks (s_committed s) ?coin dki"
      unfolding melt_key_def by blast
    with that Inr lookup_denomination_ok [OF ks Inr] show ?thesis by (auto simp: melt_found_def)
  qed (use that in \<open>auto simp: melt_found_def\<close>)
  show ?thesis
  proof (cases "?l 0 TEH_KS_DKU_DEPOSIT")
    case (Inr dki)
    then have "melt_key ks (s_committed s) ?coin dki" unfolding melt_key_def by blast
    with Inr s same lookup_denomination_ok [OF ks Inr] show ?thesis
      by (simp add: melt_denomination_def melt_found_def)
  next
    case (Inl e)
    note dep = Inl
    show ?thesis
    proof (cases "?l 1 TEH_KS_DKU_RECOUP")
      case (Inl e')
      with dep zombie [OF s(1) refl] show ?thesis by (simp add: melt_denomination_def)
    next
      case (Inr dki)
      have key: "melt_key ks (s_committed s) ?coin dki" if "coin_known (s_committed s) (coin_pub ?coin)"
        using that Inr unfolding melt_key_def by blast
      have w: "wpa b (with_thread_session (postgres_get_coin_denomination (teh_gnunet teh) (coin_pub ?coin)) s)
          (\<lambda>(qs, _) s'. idle s' \<and> s_committed s' = s_committed s
             \<and> (qs = GNUNET_DB_STATUS_SUCCESS_ONE_RESULT \<longrightarrow> coin_known (s_committed s) (coin_pub ?coin)))"
        by (rule with_thread_session_wpa [OF s])
          (use wpaI [OF wp_mono [OF get_coin_denomination_known [OF g]]] in fastforce)
      show ?thesis
        unfolding melt_denomination_def Let_def dep sum.case Inr bind_assoc
      proof (rule wpa_bindI [OF w], goal_cases)
        case (1 x s')
        note prem = 1
        obtain qs h where x: "x = (qs, h)" by (cases x)
        consider "0 > qs" | "qs = 1" | "\<not> 0 > qs" "qs \<noteq> 1" by linarith
        then show ?case
        proof cases
          case 1
          with prem x show ?thesis by (simp add: melt_found_def)
        next
          case 2
          with prem x key same lookup_denomination_ok [OF ks Inr] show ?thesis by (simp add: melt_found_def)
        next
          case 3
          with prem x zombie [of s'] show ?thesis by simp
        qed
      qed
    qed
  qed
qed

lemma melt_known: "made_known coin db db1 \<Longrightarrow> coin_zombie db1 p = coin_zombie db p"
  by (auto simp: made_known_def known_effect_def coin_zombie_def)

text \<open>What the parser guarantees for a request, and the library for the random numbers\<close>

definition melt_request_ok :: "TALER_EXCHANGEDB_Refresh \<Rightarrow> (nat \<Rightarrow> u32) \<Rightarrow> bool" where
  "melt_request_ok d random \<longleftrightarrow> request_amount (rf_amount_with_fee d) \<and> (\<forall>i. random i < 3)"

text \<open>The two cases in which a request may abort the process: the thread cannot connect to the database, or the coin has been
  refunded more than it has spent\<close>

definition melt_may_abort :: "TALER_EXCHANGEDB_Refresh \<Rightarrow> tables session \<Rightarrow> bool" where
  "melt_may_abort d s \<longleftrightarrow> \<not> connected s \<or> coin_spent True (s_committed s) (coin_pub (rf_coin d)) < 0"

lemma melt_handler_wpa:
  assumes teh: "teh_ok teh" and req: "melt_request_ok d random" and s: "idle s"
    and db: "db_ok (s_committed s)"
  shows "wpa (melt_may_abort d s) (TEH_handler_melt teh d random s) (melt_answered teh d (s_committed s))"
proof (cases "teh_keys teh")
  case None
  with s db show ?thesis
    by (auto simp: TEH_handler_melt_def check_for_denomination_key_def melt_answered_def melt_executed_def
        intro!: exI [of _ "s_committed s"])
next
  case (Some ks)
  let ?coin = "rf_coin d" and ?a = "rf_amount_with_fee d"
  let ?Q = "melt_answered teh d (s_committed s)" and ?b = "melt_may_abort d s"
  define rmc where "rmc = \<lparr>rmc_refresh_session = d\<lparr>rf_noreveal_index := 0\<rparr>, rmc_coin_value = zero_amount,
        rmc_coin_refresh_fee = zero_amount, rmc_zombie_required = False, rmc_random = random\<rparr>"
  have rmc: "\<not> rmc_zombie_required rmc" "rmc_refresh_session rmc = d\<lparr>rf_noreveal_index := 0\<rparr>" "rmc_random rmc = random"
    by (simp_all add: rmc_def)
  have g: "gnunet_ok (teh_gnunet teh)" using teh by (simp add: teh_ok_def)
  have ct: "coin_tables_ok (s_committed s)" using db by (simp add: db_ok_def)
  have err: "?Q (Some (TALER_MHD_reply_with_error hc ec)) s'" if "idle s'" "s_committed s' = s_committed s" for hc ec s'
    using that db by (auto simp: melt_answered_def melt_executed_def intro!: exI [of _ "s_committed s"])
  show ?thesis
    unfolding TEH_handler_melt_def rmc_def [symmetric] check_for_denomination_key_def Some option.case
  proof (rule wpa_bindI, rule melt_denomination_wpa [OF teh teh_okD(3) [OF teh Some] s _ rmc(1)], goal_cases)
    case 1
    show ?case by (simp add: melt_may_abort_def)
  next
    case (2 x s1)
    then have s1: "idle s1" "s_committed s1 = s_committed s" and f: "melt_found teh ks rmc (s_committed s) x" by auto
    show ?case
    proof (cases x)
      case (Inl r)
      with f s1 err [OF s1] show ?thesis by (auto simp: melt_found_def)
    next
      case (Inr y)
      obtain dki dirty rmc' where y: "y = (dki, dirty, rmc')" by (cases y)
      from f Inr y obtain zb where dk: "denomination_ok teh (coin_denom_pub_hash ?coin) dki"
        and zb: "rmc' = rmc\<lparr>rmc_zombie_required := zb\<rparr>"
        and key: "\<not> zb \<or> coin_zombie (s_committed s) (coin_pub ?coin) \<longrightarrow> melt_key ks (s_committed s) ?coin dki"
        by (auto simp: melt_found_def rmc)
      obtain val fee where v: "teh_ntoh teh (dk_value (issue_properties dki)) = Some val" "amount_in (teh_currency teh) val"
        "teh_ntoh teh (dk_fee_refresh (issue_properties dki)) = Some fee" "amount_in (teh_currency teh) fee"
        using denomination_okD(2,5) [OF dk] by blast
      define c where "c = rmc'\<lparr>rmc_coin_refresh_fee := fee, rmc_coin_value := val\<rparr>"
      have c: "rmc_refresh_session c = d\<lparr>rf_noreveal_index := 0\<rparr>" "rmc_random c = random" "rmc_coin_value c = val"
        "rmc_coin_refresh_fee c = fee" "rmc_zombie_required c = zb"
        by (simp_all add: c_def zb rmc)
      let ?valid = "GNUNET_CRYPTO_rsa_verify (teh_crypto teh) (GNUNET_CRYPTO_hash_key (teh_crypto teh) (coin_pub ?coin))
            (coin_denom_sig ?coin) (denom_pub dki)"
      have test: "TALER_test_coin_valid (teh_crypto teh) ?coin (denom_pub dki) = Some (if ?valid then GNUNET_YES else GNUNET_NO)"
        by (rule test_coin_valid_Some) (rule denomination_okD(1) [OF dk])
      have main: "wpa ?b ((if dirty then Some ((GNUNET_OK, None), s1)
            else TEH_DB_run_transaction (teh_gnunet teh) name (TEH_DB_know_coin_transaction (teh_gnunet teh)) ?coin s1 \<bind>
              (\<lambda>((ret, mhd_ret, _), s). Some ((ret, mhd_ret), s))) \<bind> (\<lambda>((ret, mhd_ret), s).
            if ret \<noteq> GNUNET_OK then Some (mhd_ret, s)
            else TALER_amount_cmp fee ?a \<bind> (\<lambda>x. if 0 < x then Some (Some (TALER_MHD_reply_with_error hc ec), s)
              else handle_melt teh c s))) ?Q"
        if valid: "?valid" and a: "amount_in (teh_currency teh) ?a" for name hc ec
      proof -
        have chk: "melt_checked teh d (s_committed s) c" "melt_context_ok teh c"
          using Some v valid key a c req teh by (auto simp: melt_checked_def melt_context_ok_def melt_request_ok_def)
        have "wp (if dirty then Some ((GNUNET_OK, None), s1)
            else TEH_DB_run_transaction (teh_gnunet teh) name (TEH_DB_know_coin_transaction (teh_gnunet teh)) ?coin s1 \<bind>
              (\<lambda>((ret, mhd_ret, _), s). Some ((ret, mhd_ret), s)))
           (\<lambda>(ret, mhd_ret :: exchange_reply reply option) s2. idle s2 \<and> db_ok (s_committed s2) \<and>
             (ret = GNUNET_OK \<and> (known_effect ?coin (s_committed s) (s_committed s2) \<or> s_committed s2 = s_committed s)
              \<or> ret \<noteq> GNUNET_OK \<and> error_replied mhd_ret \<and> s_committed s2 = s_committed s))"
          using s1 db wp_mono [OF know_coin.run_transaction_wp [OF conjI [OF refl g] s1(1)]]
          by (auto simp: run_ok_def wp_bind split: prod.splits intro!: wp_mono [OF know_coin.run_transaction_wp [OF conjI [OF refl g] s1(1)]])
        then show ?thesis
        proof (rule wpa_bindI [OF wpaI], goal_cases)
          case (1 z s2)
          obtain ret mhd_ret where z: "z = (ret, mhd_ret)" by (cases z)
          show ?case
          proof (cases "ret = GNUNET_OK")
            case False
            with 1 z err [of s2] show ?thesis by (auto simp: error_replied_def)
          next
            case True
            with 1 z have mk: "made_known ?coin (s_committed s) (s_committed s2)" and s2: "idle s2" "db_ok (s_committed s2)"
              by (auto simp: made_known_def)
            have spent: "coin_spent True (s_committed s2) (coin_pub ?coin) < 0 \<longrightarrow> ?b"
              using made_known_spent [OF mk ct] by (simp add: melt_may_abort_def)
            have Q: "melt_executed teh d (s_committed s) (s_committed s2) r s' \<Longrightarrow> ?Q r s'" for r s'
              using mk by (auto simp: melt_answered_def)
            show ?thesis
            proof (cases "amt fee \<le> amt ?a")
              case fee: True
              have "wpa ?b (handle_melt teh c s2) ?Q"
                by (rule wpa_weaken [OF handle_melt_wpa [OF chk(2,1) _ s2] spent Q]) (use fee c melt_known [OF mk] in auto)
              with fee True z v a show ?thesis by simp
            next
              case False
              with True z v a s2 Q show ?thesis by (simp add: melt_executed_def)
            qed
          qed
        qed
      qed
      have a: "amount_in (teh_currency teh) ?a" if "TALER_amount_cmp_currency ?a val = GNUNET_YES"
        using request_amount_in [OF _ v(2) that] req by (simp add: melt_request_ok_def)
      have sel: "rf_coin (d\<lparr>rf_noreveal_index := 0\<rparr>) = ?coin" "rf_amount_with_fee (d\<lparr>rf_noreveal_index := 0\<rparr>) = ?a"
        by simp_all
      show ?thesis
        unfolding Inr y prod.case sum.case v(1,3) bind.bind_lunit Let_def c_def [symmetric] c sel test
        using main a err [OF s1]
        by (cases "TALER_amount_cmp_currency ?a val = GNUNET_YES"; cases ?valid) simp_all
    qed
  qed
qed

section \<open>Properties\<close>

text \<open>C8. Whatever the request and whatever errors the database reports, a melt request is answered and keeps the integrity of the
  database, with two exceptions, in which the process may abort or crash: the thread cannot connect to the database (the denomination of the coin is then
  looked up with a null session), or refunds and the fee that comes back with them exceed what the coin has spent. Apart
  from making the coin known, either nothing changes, or exactly one melt is added: of a coin that is signed by a denomination key which may be used for it (valid
  for deposits; revoked, and the coin was known; expired, and the coin is a zombie), with a request that is signed
  by the coin and covers the fee, and after it the coin has spent no more than the value of the
  denomination, as the exchange accounts for it. If the melt is confirmed, the index of the answer is the one in the database.\<close>

theorem melt_request_safe:
  assumes "teh_ok teh" and "melt_request_ok d random" and "idle s" and "db_ok (s_committed s)"
  shows "case TEH_handler_melt teh d random s of
       None \<Rightarrow> \<not> connected s \<or> coin_spent True (s_committed s) (coin_pub (rf_coin d)) < 0
     | Some (reply, s') \<Rightarrow> reply \<noteq> None \<and> idle s' \<and> db_ok (s_committed s')
         \<and> (\<exists>db1. made_known (rf_coin d) (s_committed s) db1
              \<and> (s_committed s' = db1 \<or> melt_stored teh d (s_committed s) db1 (s_committed s')))
         \<and> (\<forall>i sig pub. reply = Some (reply_ok MHD_HTTP_OK (MELT_OK i sig pub)) \<longrightarrow>
              (\<exists>m\<in>set (t_refresh_commitments (s_committed s')). rcm_rc m = rf_rc d \<and> rcm_noreveal_index m = i))"
  using melt_handler_wpa [OF assms]
  by (auto simp: wpa_def melt_may_abort_def melt_answered_def melt_executed_def split: option.splits)

text \<open>C38. The exception for coins is real: if refunds and the deposit fee that comes back with them
  exceed what the coin has spent, a melt for too large an amount fails an assertion, and the
  exchange aborts instead of answering that the funds are insufficient.\<close>

theorem melt_negative_aborts:
  assumes "melt_context_ok teh rmc" and "undisturbed s" and "coin_tables_ok (s_db s)" and "\<not> rmc_zombie_required rmc"
    and "rf_rc (rmc_refresh_session rmc) \<notin> rcm_rc ` set (t_refresh_commitments (s_db s))"
    and "p = coin_pub (rf_coin (rmc_refresh_session rmc))" and "a = amt (rf_amount_with_fee (rmc_refresh_session rmc))"
    and "a + coin_debits True (s_db s) p < AMT_LIMIT" and "coin_credits True (s_db s) p + coin_discount (s_db s) p < AMT_LIMIT"
    and "coin_spent True (s_db s) p < 0" and "amt (rmc_coin_value rmc) < a + coin_spent True (s_db s) p"
  shows "melt_transaction teh rmc s = None"
proof -
  let ?a = "rf_amount_with_fee (rmc_refresh_session rmc)"
  have c: "amount_in (teh_currency teh) ?a" "amount_in (teh_currency teh) (rmc_coin_value rmc)" "pg_ok (teh_pg teh)"
    using assms(1) by (auto simp: melt_context_ok_def teh_ok_def)
  have none: "sql_get_melt_index (rf_rc (rmc_refresh_session rmc)) (s_db s) = []"
    using assms(5) by (force simp: sql_get_melt_index_def filter_empty_conv)
  obtain txs where txs: "coin_history (teh_gnunet teh) (teh_pg teh) p True (s_db s) = Some txs"
    "history_ok (teh_currency teh) True (s_db s) p txs"
    using coin_history_ok [OF c(3) assms(3)] by blast
  obtain qs where tl: "postgres_get_coin_transactions (teh_gnunet teh) (teh_pg teh) p True s = Some ((qs, txs), s)" "0 \<le> qs"
    using coin_transactions_undisturbed [OF assms(2) txs(1)] by blast
  have "0 \<le> amt (rmc_coin_value rmc)" by simp
  with assms(11) have "0 \<le> a + coin_spent True (s_db s) p" by linarith
  then obtain t where t: "TALER_EXCHANGEDB_calculate_transaction_list_totals txs ?a ?a = Some (GNUNET_OK, t)"
    "amount_in (teh_currency teh) t" "amt t = a + coin_spent True (s_db s) p"
    using coin_totals_wp [OF txs(2) c(1), of ?a] assms(7-11) by (auto simp: wp_iff)
  obtain r d where "TALER_amount_subtract invalidate t ?a = Some (r, d)" "r < 0"
    using amount_subtract_wp [OF t(2) c(1), of invalidate] t(3) assms(7,10) by (auto simp: wp_iff)
  then have "refresh_check_melt teh rmc s = None"
    using tl t c assms(4,6,11) by (simp add: refresh_check_melt_def Let_def)
  with none assms(2) show ?thesis
    by (simp add: melt_transaction_def postgres_get_melt_index_def singleton_undisturbed)
qed

section \<open>A sample\<close>

definition sample_melt :: "u64 \<Rightarrow> TALER_EXCHANGEDB_Refresh" where
  "sample_melt amount = \<lparr>rf_coin = \<lparr>coin_pub = 20, coin_denom_pub_hash = 7, coin_denom_sig = 27\<rparr>, rf_coin_sig = 20,
     rf_rc = 60, rf_amount_with_fee = mk_amount ''EUR'' amount 0, rf_noreveal_index = 0\<rparr>"

theorem melt_request_safe_witness:
  "\<exists>reply s'. TEH_handler_melt sample_teh (sample_melt 2) (\<lambda>_. 1) (sample_idle sample_deposit_db [PQ_RUN, PQ_SOFT])
       = Some (Some reply, s') \<and> idle s' \<and> db_ok (s_committed s')"
proof -
  have "melt_request_ok (sample_melt 2) (\<lambda>_. 1)"
    using mk_amount_in_EUR [of 0 2] by (simp add: melt_request_ok_def sample_melt_def request_amount_def amount_in_def amount_wf_def)
  moreover have "connected (sample_idle sample_deposit_db [PQ_RUN, PQ_SOFT])"
    by (simp add: connected_def postgres_get_session_def next_outcome_def sample_idle_def)
  moreover have "0 \<le> coin_spent True sample_deposit_db (coin_pub (rf_coin (sample_melt 2)))"
    by (simp add: sample_melt_def coin_spent_def sample_deposit_db_totals)
  ultimately show ?thesis
    using melt_request_safe [OF sample_teh_ok(1), of "sample_melt 2" "\<lambda>_. 1" "sample_idle sample_deposit_db [PQ_RUN, PQ_SOFT]"]
    by (auto simp: db_ok_def sample_deposit_db_ok split: option.splits)
qed

text \<open>A deposit of 3 that was refunded in full, without a refund fee\<close>

definition sample_refund_db :: tables where
  "sample_refund_db = sample_deposit_db\<lparr>t_denominations := [\<lparr>dn_denom_pub_hash = 7, dn_denom_pub = 7, dn_expire_withdraw = 500,
        dn_expire_deposit = 600, dn_expire_legal = 700, dn_coin = (5, 0), dn_fee_withdraw = (1, 0), dn_fee_deposit = (1, 0),
        dn_fee_refresh = (1, 0), dn_fee_refund = (0, 0)\<rparr>],
      t_refunds := [\<lparr>rd_refund_serial_id = 4, rd_coin_pub = 20, rd_merchant_pub = 50, rd_merchant_sig = 0,
        rd_h_contract_terms = 51, rd_rtransaction_id = 1, rd_amount_with_fee = (3, 0)\<rparr>]\<rparr>"

lemma sample_refund_db_ok: "coin_tables_ok sample_refund_db"
  by (simp add: coin_tables_ok_def reserve_tables_ok_def sample_refund_db_def sample_deposit_db_def sample_db_def
      deposit_key_def refund_key_def sql_normal_def sqlamt_def AMT_LIMIT_def reserve_known_def denom_known_def coin_known_def)

lemma sample_refund_db_totals:
  "coin_debits r sample_refund_db 20 = 300000000" "coin_credits r sample_refund_db 20 = 300000000"
  "coin_discount sample_refund_db 20 = 100000000"
  by (simp_all add: coin_debits_def coin_credits_def coin_discount_def coin_deposited_def coin_melted_def coin_refunds_def
      coin_refunded_def coin_recouped_def coin_recoup_refreshed_def coin_old_recouped_def coin_fee_def coin_denoms_def
      sample_refund_db_def sample_deposit_db_def sample_db_def sqlamt_def)

definition sample_melt_context :: "u64 \<Rightarrow> MeltContext" where
  "sample_melt_context amount = \<lparr>rmc_refresh_session = sample_melt amount, rmc_coin_value = mk_amount ''EUR'' 5 0,
     rmc_coin_refresh_fee = mk_amount ''EUR'' 1 0, rmc_zombie_required = False, rmc_random = \<lambda>_. 1\<rparr>"

theorem melt_negative_aborts_witness:
  "melt_transaction sample_teh (sample_melt_context 7) (sample_idle sample_refund_db []) = None"
  by (rule melt_negative_aborts [where p = 20 and a = 700000000])
    (simp_all add: melt_context_ok_def sample_melt_context_def sample_melt_def sample_teh_ok sample_ok mk_amount_in_EUR
      sample_refund_db_ok undisturbed_def coin_spent_def sample_refund_db_totals AMT_LIMIT_def,
     simp_all add: sample_refund_db_def sample_deposit_db_def sample_db_def sample_idle_def)

end
