(* ===== verification/Withdraw.thy ===== *)
theory Withdraw
  imports Undisturbed
begin

text \<open>
  \<^verbatim>\<open>src/exchange/taler-exchange-httpd_withdraw.c\<close>: withdrawing a coin from a reserve, with
  \<^verbatim>\<open>OPTIMISTIC_SIGN\<close>, as the file sets it.
\<close>

section \<open>The request\<close>

text \<open>Of \<^verbatim>\<open>wsrd\<close> the context keeps the fields that are read again. It also has the times that the
  clock will show.\<close>

record WithdrawContext =
  wc_reserve_pub :: pub_key
  wc_h_coin_envelope :: hash_code
  wc_amount_required :: TALER_Amount
  wc_denom_pub_hash :: hash_code
  wc_signature :: signature
  wc_dki :: TALER_EXCHANGEDB_DenominationKey
  wc_collectable :: TALER_EXCHANGEDB_CollectableBlindcoin
  wc_clock :: "nat \<Rightarrow> abs_time"

definition reply_withdraw_insufficient_funds ::
    "TEH \<Rightarrow> TALER_Amount \<Rightarrow> TALER_EXCHANGEDB_ReserveHistory list \<Rightarrow> exchange_reply reply option" where
  "reply_withdraw_insufficient_funds teh ebalance rh = do {
     h \<leftarrow> TEH_RESPONSE_compile_reserve_history (teh_crypto teh) (teh_sign_keys teh) rh;
     case h of
       None \<Rightarrow> Some (TALER_MHD_reply_with_error MHD_HTTP_INTERNAL_SERVER_ERROR
                       TALER_EC_WITHDRAW_HISTORY_DB_ERROR_INSUFFICIENT_FUNDS)
     | Some (json_history, balance) \<Rightarrow> do {
         c \<leftarrow> TALER_amount_cmp balance ebalance;
         Some (if c \<noteq> 0
               then TALER_MHD_reply_with_error MHD_HTTP_INTERNAL_SERVER_ERROR TALER_EC_WITHDRAW_RESERVE_BALANCE_CORRUPT
               else reply_ok MHD_HTTP_CONFLICT
                      (withdraw_insufficient_funds TALER_EC_WITHDRAW_INSUFFICIENT_FUNDS balance json_history))
       }
   }"

definition withdraw_transaction :: "TEH \<Rightarrow> (WithdrawContext, exchange_reply, tables) transaction" where
  "withdraw_transaction teh wc s = do {
     let g = teh_gnunet teh;
     let pg = teh_pg teh;
     let denom_sig = cb_sig (wc_collectable wc);
     ((qs, collectable), s) \<leftarrow> postgres_get_withdraw_info g pg (wc_h_coin_envelope wc) s;
     if 0 > qs
     then Some ((qs, if qs = GNUNET_DB_STATUS_HARD_ERROR
                     then Some (TALER_MHD_reply_with_error MHD_HTTP_INTERNAL_SERVER_ERROR TALER_EC_WITHDRAW_DB_FETCH_ERROR)
                     else None, wc), s)
     else case collectable of
       Some collectable \<Rightarrow>
         Some ((GNUNET_DB_STATUS_SUCCESS_ONE_RESULT, None, wc\<lparr>wc_collectable := collectable\<rparr>), s)
     | None \<Rightarrow> do {
         GNUNET_assert (qs = GNUNET_DB_STATUS_SUCCESS_NO_RESULTS);
         ((qs, r), s) \<leftarrow> postgres_reserves_get g pg (wc_reserve_pub wc) s;
         if 0 > qs
         then Some ((qs, if qs = GNUNET_DB_STATUS_HARD_ERROR
                         then Some (TALER_MHD_reply_with_error MHD_HTTP_INTERNAL_SERVER_ERROR TALER_EC_WITHDRAW_DB_FETCH_ERROR)
                         else None, wc), s)
         else case r of
           None \<Rightarrow> Some ((GNUNET_DB_STATUS_HARD_ERROR,
                          Some (TALER_MHD_reply_with_error MHD_HTTP_NOT_FOUND TALER_EC_WITHDRAW_RESERVE_UNKNOWN), wc), s)
         | Some r \<Rightarrow> do {
             c \<leftarrow> TALER_amount_cmp (wc_amount_required wc) (reserve_balance r);
             if 0 < c
             then do {
               ((qs, rh), s) \<leftarrow> postgres_get_reserve_history g pg (wc_reserve_pub wc) s;
               if rh = []
               then Some ((GNUNET_DB_STATUS_HARD_ERROR,
                           if qs = GNUNET_DB_STATUS_HARD_ERROR
                           then Some (TALER_MHD_reply_with_error MHD_HTTP_INTERNAL_SERVER_ERROR TALER_EC_WITHDRAW_DB_FETCH_ERROR)
                           else None, wc), s)
               else do {
                 mhd_ret \<leftarrow> reply_withdraw_insufficient_funds teh (reserve_balance r) rh;
                 Some ((GNUNET_DB_STATUS_HARD_ERROR, Some mhd_ret, wc), s)
               }
             }
             else do {
               withdraw_fee \<leftarrow> teh_ntoh teh (dk_fee_withdraw (issue_properties (wc_dki wc)));
               let collectable = \<lparr>cb_sig = denom_sig, cb_denom_pub_hash = wc_denom_pub_hash wc,
                                  cb_amount_with_fee = wc_amount_required wc, cb_withdraw_fee = withdraw_fee,
                                  cb_reserve_pub = wc_reserve_pub wc, cb_h_coin_envelope = wc_h_coin_envelope wc,
                                  cb_reserve_sig = wc_signature wc\<rparr>;
               (qs, s) \<leftarrow> postgres_insert_withdraw_info g pg (wc_clock wc 0) collectable s;
               let wc = wc\<lparr>wc_collectable := collectable, wc_clock := \<lambda>i. wc_clock wc (Suc i)\<rparr>;
               Some ((qs, if qs = GNUNET_DB_STATUS_HARD_ERROR
                          then Some (TALER_MHD_reply_with_error MHD_HTTP_INTERNAL_SERVER_ERROR TALER_EC_WITHDRAW_DB_STORE_ERROR)
                          else None, wc), s)
             }
           }
       }
   }"

text \<open>A request: the public key of the reserve from the path (\<open>None\<close> if it is malformed), the blinded
  planchet, the hash of the denomination key and the signature\<close>

record withdraw_request =
  wr_reserve_pub :: "pub_key option"
  wr_coin_ev :: string
  wr_denom_pub_hash :: hash_code
  wr_reserve_sig :: signature

text \<open>The amounts of the request and the message that is signed\<close>

definition withdraw_amounts ::
    "TEH \<Rightarrow> pub_key \<Rightarrow> withdraw_request \<Rightarrow> TALER_EXCHANGEDB_DenominationKey \<Rightarrow> (TALER_Amount \<times> signed_message) option option" where
  "withdraw_amounts teh pub req dki = do {
     amount \<leftarrow> teh_ntoh teh (dk_value (issue_properties dki));
     fee_withdraw \<leftarrow> teh_ntoh teh (dk_fee_withdraw (issue_properties dki));
     (r, amount_required) \<leftarrow> TALER_amount_add amount fee_withdraw;
     if 0 > r then Some None
     else do {
       amount_with_fee \<leftarrow> teh_hton teh amount_required;
       withdraw_fee \<leftarrow> teh_hton teh fee_withdraw;
       Some (Some (amount_required, TALER_WithdrawRequestPS pub amount_with_fee withdraw_fee (wr_denom_pub_hash req)
                     (GNUNET_CRYPTO_hash_data (teh_crypto teh) (wr_coin_ev req))))
     }
   }"

text \<open>The fields of \<^verbatim>\<open>collectable\<close> other than the signature are not initialised; \<open>uninit\<close> is what is in
  them.\<close>

definition TEH_handler_withdraw ::
    "TEH \<Rightarrow> withdraw_request \<Rightarrow> TALER_EXCHANGEDB_CollectableBlindcoin \<Rightarrow> (nat \<Rightarrow> abs_time) \<Rightarrow> tables session
       \<Rightarrow> (exchange_reply reply option \<times> tables session) option" where
  "TEH_handler_withdraw teh req uninit clock s =
     (case wr_reserve_pub req of
        None \<Rightarrow> Some (Some (TALER_MHD_reply_with_error MHD_HTTP_BAD_REQUEST TALER_EC_RESERVES_INVALID_RESERVE_PUB), s)
      | Some pub \<Rightarrow>
     (case teh_keys teh of
        None \<Rightarrow> Some (Some (TALER_MHD_reply_with_error MHD_HTTP_INTERNAL_SERVER_ERROR TALER_EC_EXCHANGE_BAD_CONFIGURATION), s)
      | Some key_state \<Rightarrow>
     (case teh_lookup teh key_state (wr_denom_pub_hash req) TEH_KS_DKU_WITHDRAW of
        Inl (ec, hc) \<Rightarrow> Some (Some (TALER_MHD_reply_with_error hc ec), s)
      | Inr dki \<Rightarrow> do {
          denom_priv \<leftarrow> denom_priv dki;
          a \<leftarrow> withdraw_amounts teh pub req dki;
          case a of
            None \<Rightarrow> Some (Some (TALER_MHD_reply_with_error MHD_HTTP_INTERNAL_SERVER_ERROR
                                  TALER_EC_WITHDRAW_AMOUNT_FEE_OVERFLOW), s)
          | Some (amount_required, wsrd) \<Rightarrow>
              (if \<not> GNUNET_CRYPTO_eddsa_verify (teh_crypto teh) wsrd (wr_reserve_sig req) pub
               then Some (Some (TALER_MHD_reply_with_error MHD_HTTP_FORBIDDEN
                                  TALER_EC_WITHDRAW_RESERVE_SIGNATURE_INVALID), s)
               else case GNUNET_CRYPTO_rsa_sign_blinded (teh_crypto teh) denom_priv (wr_coin_ev req) of
                 None \<Rightarrow> Some (Some (TALER_MHD_reply_with_error MHD_HTTP_INTERNAL_SERVER_ERROR
                                       TALER_EC_WITHDRAW_SIGNATURE_FAILED), s)
               | Some sig \<Rightarrow> do {
                   let wc = \<lparr>wc_reserve_pub = pub,
                             wc_h_coin_envelope = GNUNET_CRYPTO_hash_data (teh_crypto teh) (wr_coin_ev req),
                             wc_amount_required = amount_required, wc_denom_pub_hash = wr_denom_pub_hash req,
                             wc_signature = wr_reserve_sig req, wc_dki = dki,
                             wc_collectable = uninit\<lparr>cb_sig := sig\<rparr>, wc_clock = clock\<rparr>;
                   ((ret, mhd_ret, wc), s) \<leftarrow> TEH_DB_run_transaction (teh_gnunet teh) ''run withdraw''
                      (withdraw_transaction teh) wc s;
                   if ret \<noteq> GNUNET_OK then Some (mhd_ret, s)
                   else Some (Some (reply_ok MHD_HTTP_OK (WITHDRAW_OK (cb_sig (wc_collectable wc)))), s)
                 })
        })))"

section \<open>The transaction\<close>

definition withdraw_context_ok :: "TEH \<Rightarrow> WithdrawContext \<Rightarrow> bool" where
  "withdraw_context_ok teh wc \<longleftrightarrow> teh_ok teh \<and> amount_in (teh_currency teh) (wc_amount_required wc)
     \<and> (\<exists>fee. teh_ntoh teh (dk_fee_withdraw (issue_properties (wc_dki wc))) = Some fee)"

text \<open>The transaction only changes the collectable; its signature is one of a given set.\<close>

definition withdraw_same :: "signature set \<Rightarrow> WithdrawContext \<Rightarrow> WithdrawContext \<Rightarrow> bool" where
  "withdraw_same S wc c \<longleftrightarrow> wc_reserve_pub c = wc_reserve_pub wc \<and> wc_h_coin_envelope c = wc_h_coin_envelope wc
     \<and> wc_amount_required c = wc_amount_required wc \<and> wc_denom_pub_hash c = wc_denom_pub_hash wc
     \<and> wc_signature c = wc_signature wc \<and> wc_dki c = wc_dki wc \<and> cb_sig (wc_collectable c) \<in> S"

definition withdraw_inv :: "signature set \<Rightarrow> hash_code \<Rightarrow> tables \<Rightarrow> bool" where
  "withdraw_inv S h db \<longleftrightarrow> db_ok db \<and> (\<forall>r\<in>set (t_reserves_out db). ro_h_blind_ev r = h \<longrightarrow> ro_denom_sig r \<in> S)"

definition withdraw_of :: "WithdrawContext \<Rightarrow> TALER_EXCHANGEDB_CollectableBlindcoin \<Rightarrow> bool" where
  "withdraw_of wc cb \<longleftrightarrow> cb_denom_pub_hash cb = wc_denom_pub_hash wc \<and> cb_amount_with_fee cb = wc_amount_required wc
     \<and> cb_reserve_pub cb = wc_reserve_pub wc \<and> cb_h_coin_envelope cb = wc_h_coin_envelope wc
     \<and> cb_reserve_sig cb = wc_signature wc"

definition withdraw_post :: "WithdrawContext \<Rightarrow> WithdrawContext \<Rightarrow> tables \<Rightarrow> tables \<Rightarrow> bool" where
  "withdraw_post wc c db db' \<longleftrightarrow>
     db' = db \<and> (\<exists>r\<in>set (t_reserves_out db). ro_h_blind_ev r = wc_h_coin_envelope wc \<and> ro_denom_sig r = cb_sig (wc_collectable c))
     \<or> withdraw_of wc (wc_collectable c) \<and> withdraw_effect (wc_collectable c) db db'"

definition withdraw_refused :: "exchange_reply reply option \<Rightarrow> bool" where
  "withdraw_refused mhd_ret \<longleftrightarrow> (\<forall>x. mhd_ret \<noteq> Some (reply_ok MHD_HTTP_OK x))"

lemma get_withdraw_info_wp:
  assumes g: "gnunet_ok g" and s: "session_ok s" and pg: "pg_ok pg" and ok: "reserve_tables_ok (s_db s)"
  shows "wp (postgres_get_withdraw_info g pg h s) (\<lambda>(qs, cb) s'. unchanged s s' \<and>
     ((qs = GNUNET_DB_STATUS_SOFT_ERROR \<or> qs = GNUNET_DB_STATUS_HARD_ERROR) \<and> cb = None
      \<or> qs = GNUNET_DB_STATUS_SUCCESS_NO_RESULTS \<and> cb = None \<and> (\<forall>r\<in>set (t_reserves_out (s_db s)). ro_h_blind_ev r \<noteq> h)
      \<or> (\<exists>r x. qs = GNUNET_DB_STATUS_SUCCESS_ONE_RESULT \<and> cb = Some x \<and> r \<in> set (t_reserves_out (s_db s))
            \<and> ro_h_blind_ev r = h \<and> cb_sig x = ro_denom_sig r)))"
  unfolding postgres_get_withdraw_info_def
proof (rule wp_bindI [OF pq_singleton_select_wp [OF g s]], goal_cases)
  case (1 x s1)
  obtain qs row where x: "x = (qs, row)" by (cases x)
  show ?case
  proof (cases row)
    case None
    have "ro_h_blind_ev r \<noteq> h" if "sql_get_withdraw_info h (s_db s) = []" "r \<in> set (t_reserves_out (s_db s))" for r
    proof
      assume "ro_h_blind_ev r = h"
      moreover from ok that(2) obtain d where "d \<in> set (t_denominations (s_db s))" "dn_denom_pub_hash d = ro_denom_pub_hash r"
        by (auto simp: reserve_tables_ok_def denom_known_def)
      ultimately have "(r, d) \<in> set (sql_get_withdraw_info h (s_db s))"
        using that(2) by (auto simp: sql_get_withdraw_info_def)
      with that(1) show False by simp
    qed
    with 1 x None show ?thesis by auto
  next
    case (Some p)
    obtain r d where p: "p = (r, d)" by (cases p)
    with 1 x Some have r: "sql_get_withdraw_info h (s_db s) = [(r, d)]" "unchanged s s1" "qs = 1" by auto
    then have "(r, d) \<in> set (sql_get_withdraw_info h (s_db s))" by simp
    then have rd: "r \<in> set (t_reserves_out (s_db s))" "d \<in> set (t_denominations (s_db s))" "ro_h_blind_ev r = h"
      by (auto simp: sql_get_withdraw_info_def split: if_splits)
    have n: "sql_normal (ro_amount_with_fee r)" "sql_normal (dn_fee_withdraw d)"
      using ok rd by (simp_all add: reserve_tables_ok_def)
    obtain a where "TALER_PQ_result_spec_amount (pg_currency pg) (ro_amount_with_fee r) = Some a"
      using result_spec_amount [OF pg n(1)] by blast
    moreover obtain b where "TALER_PQ_result_spec_amount (pg_currency pg) (dn_fee_withdraw d) = Some b"
      using result_spec_amount [OF pg n(2)] by blast
    ultimately show ?thesis using x Some p r rd by auto
  qed
qed

lemma reply_withdraw_insufficient_total:
  assumes "\<forall>e\<in>set rh. rh_in (teh_currency teh) e" and "amount_in (teh_currency teh) b"
  obtains r where "reply_withdraw_insufficient_funds teh b rh = Some r" and "\<And>x. r \<noteq> reply_ok MHD_HTTP_OK x"
proof -
  obtain x where x: "TEH_RESPONSE_compile_reserve_history (teh_crypto teh) (teh_sign_keys teh) rh = Some x"
    "\<And>js balance. x = Some (js, balance) \<Longrightarrow> amount_in (teh_currency teh) balance"
    using compile_reserve_history_total [OF assms(1)] by metis
  then show ?thesis
    using that assms(2) by (cases x) (force simp: reply_withdraw_insufficient_funds_def)+
qed

lemma coin_tables_ok_withdraw:
  assumes "withdraw_effect cb db db'" and "coin_tables_ok db"
  shows "coin_tables_ok db'"
proof -
  obtain row e gc b where db': "db' = reserve_set e gc b (cb_reserve_pub cb) (db\<lparr>t_reserves_out := t_reserves_out db @ [row]\<rparr>)"
    and ok: "reserve_tables_ok db'"
    using assms(1) by (auto simp: withdraw_effect_def)
  show ?thesis
    using assms(2) ok unfolding db' coin_tables_ok_def by (simp add: coin_known_def denom_known_def)
qed

lemma withdraw_callback:
  assumes ok: "withdraw_context_ok teh c" and same: "withdraw_same S wc c" and s: "in_fresh_tx s"
    and inv: "withdraw_inv S (wc_h_coin_envelope wc) (s_db s)"
  shows "wp (withdraw_transaction teh c s)
     (callback_ok (withdraw_inv S (wc_h_coin_envelope wc)) (\<lambda>c. withdraw_same S wc c \<and> withdraw_context_ok teh c)
       (\<lambda>c db c' db'. withdraw_post wc c' db db') (\<lambda>db. withdraw_refused) c (s_db s))" (is "wp _ ?Q")
proof -
  note fresh = in_fresh_txD [OF s]
  have g: "gnunet_ok (teh_gnunet teh)" and pg: "pg_ok (teh_pg teh)"
    and a: "amount_in (teh_currency teh) (wc_amount_required c)"
    using ok by (auto simp: withdraw_context_ok_def teh_ok_def)
  have db: "reserves_ok (s_db s)" "reserve_tables_ok (s_db s)" "coin_tables_ok (s_db s)"
    using inv by (auto simp: withdraw_inv_def db_ok_def coin_tables_ok_reserve)
  obtain fee where fee: "teh_ntoh teh (dk_fee_withdraw (issue_properties (wc_dki c))) = Some fee"
    using ok by (auto simp: withdraw_context_ok_def)
  have soft: "?Q (- 1, None, c) s'" if "unchanged s s'" for s'
    using unchanged_fresh [OF s that] ok same by (simp add: callback_ok_def)
  have hard: "?Q (- 2, r, c) s'" if "unchanged s s'" "\<And>x. r \<noteq> Some (reply_ok MHD_HTTP_OK x)" for s' r
    using unchanged_fresh [OF s that(1)] that(2) ok same by (simp add: callback_ok_def withdraw_refused_def)
  let ?cb = "\<lparr>cb_sig = cb_sig (wc_collectable c), cb_denom_pub_hash = wc_denom_pub_hash c,
      cb_amount_with_fee = wc_amount_required c, cb_withdraw_fee = fee, cb_reserve_pub = wc_reserve_pub c,
      cb_h_coin_envelope = wc_h_coin_envelope c, cb_reserve_sig = wc_signature c\<rparr>"
  let ?c = "c\<lparr>wc_collectable := ?cb, wc_clock := \<lambda>i. wc_clock c (Suc i)\<rparr>"
  have c': "withdraw_same S wc ?c" "withdraw_context_ok teh ?c" "withdraw_of wc ?cb"
    using same ok by (auto simp: withdraw_same_def withdraw_context_ok_def withdraw_of_def)
  have insert: "wp (postgres_insert_withdraw_info (teh_gnunet teh) (teh_pg teh) t ?cb s2 \<bind> (\<lambda>(qs, s).
       Some ((qs, if qs = GNUNET_DB_STATUS_HARD_ERROR then Some (TALER_MHD_reply_with_error hc ec) else None, ?c), s))) ?Q"
    if u: "unchanged s s2" and new: "\<forall>r\<in>set (t_reserves_out (s_db s)). ro_h_blind_ev r \<noteq> wc_h_coin_envelope c" for s2 t hc ec
  proof -
    note f = unchanged_fresh [OF s u]
    show ?thesis
    proof (rule wp_bindI [OF insert_withdraw_info_wp [OF g f(1,4) pg, of ?cb t]], goal_cases)
      case (4 qs s')
      then consider db' where "qs = 1" "updated s2 db' s'" "withdraw_effect ?cb (s_db s) db'" | "op_failed s2 qs s'"
        using new f(2) by auto
      then show ?case
      proof cases
        case 1
        have "db_ok db'"
          using 1(3) coin_tables_ok_withdraw [OF 1(3) db(3)] by (auto simp: db_ok_def withdraw_effect_def)
        moreover have "\<forall>r\<in>set (t_reserves_out db'). ro_h_blind_ev r = wc_h_coin_envelope wc \<longrightarrow> ro_denom_sig r \<in> S"
          using 1(3) inv same by (auto simp: withdraw_effect_def withdraw_inv_def withdraw_same_def)
        moreover have "tx_outcome s' = db'" "s_committed s' = s_db s"
          using 1(2) f by (auto simp: tx_outcome_def updated_def)
        ultimately show ?thesis
          using 1 c' by (auto simp: callback_ok_def withdraw_inv_def withdraw_post_def)
      next
        case 2
        then show ?thesis
          using f c' by (auto simp: callback_ok_def op_failed_def tx_kept_def withdraw_refused_def)
      qed
    qed (use a db f in auto)
  qed
  show ?thesis
    unfolding withdraw_transaction_def Let_def
  proof (rule wp_bindI [OF get_withdraw_info_wp [OF g fresh(1) pg db(2)]], goal_cases)
    case (1 x s1)
    obtain qs cb where x: "x = (qs, cb)" by (cases x)
    have u: "unchanged s s1" using 1 x by simp
    note f = unchanged_fresh [OF s u]
    consider (serialization) "qs = - 1" | (error) "qs = - 2"
      | (old) r y where "qs = 1" "cb = Some y" "r \<in> set (t_reserves_out (s_db s))" "ro_h_blind_ev r = wc_h_coin_envelope c"
          "cb_sig y = ro_denom_sig r"
      | (new) "qs = 0" "cb = None" "\<forall>r\<in>set (t_reserves_out (s_db s)). ro_h_blind_ev r \<noteq> wc_h_coin_envelope c"
      using 1 x by auto
    then show ?case
    proof cases
      case old
      let ?c = "c\<lparr>wc_collectable := y\<rparr>"
      have "withdraw_same S wc ?c" "withdraw_context_ok teh ?c"
        using same ok inv old by (auto simp: withdraw_same_def withdraw_context_ok_def withdraw_inv_def)
      moreover have "withdraw_post wc ?c (s_db s) (s_db s)"
        using old same by (auto simp: withdraw_post_def withdraw_same_def)
      ultimately show ?thesis using old x f inv by (simp add: callback_ok_def)
    next
      case new
      have res: "wp (postgres_reserves_get (teh_gnunet teh) (teh_pg teh) (wc_reserve_pub c) s1) (\<lambda>(qs, r) s'. unchanged s s' \<and>
          ((qs = - 1 \<or> qs = - 2) \<and> r = None \<or> qs = 0 \<and> r = None
           \<or> (\<exists>b. qs = 1 \<and> r = Some b \<and> amount_in (teh_currency teh) (reserve_balance b))))"
        using f(2) db u by (intro wp_mono [OF reserves_get_wp [OF g f(1) pg]])
          (auto simp: reserves_ok_def intro: unchanged_trans)
      have hist: "wp (postgres_get_reserve_history (teh_gnunet teh) (teh_pg teh) p s2) (\<lambda>(qs, rh) s'. unchanged s s'
          \<and> (\<forall>e\<in>set rh. rh_in (teh_currency teh) e))" if u2: "unchanged s s2" for s2 p
        using unchanged_fresh [OF s u2] db u2
        by (intro wp_mono [OF get_reserve_history_wp [OF g _ pg]]) (auto intro: unchanged_trans)
      show ?thesis
        unfolding x new(1,2) prod.case option.case
      proof (simp, rule wp_bindI [OF res], goal_cases)
        case (1 y s2)
        obtain qs2 r where y: "y = (qs2, r)" by (cases y)
        have u2: "unchanged s s2" using 1 y by simp
        show ?case
        proof (cases r)
          case None
          with 1 y soft [OF u2] hard [OF u2] show ?thesis by auto
        next
          case (Some b)
          with 1 y have b: "amount_in (teh_currency teh) (reserve_balance b)" "qs2 = 1" by auto
          show ?thesis
          proof (cases "amt (reserve_balance b) < amt (wc_amount_required c)")
            case True
            have "wp (postgres_get_reserve_history (teh_gnunet teh) (teh_pg teh) (wc_reserve_pub c) s2 \<bind> (\<lambda>((qs, rh), s).
                if rh = []
                then Some ((- 2, if qs = - 2 then Some (TALER_MHD_reply_with_error hc ec) else None, c), s)
                else reply_withdraw_insufficient_funds teh (reserve_balance b) rh \<bind> (\<lambda>mhd_ret.
                   Some ((- 2, Some mhd_ret, c), s)))) ?Q" for hc ec
            proof (rule wp_bindI [OF hist [OF u2]], goal_cases)
              case (1 z s3)
              obtain qs3 rh where z: "z = (qs3, rh)" by (cases z)
              with 1 have u3: "unchanged s s3" and rh: "\<forall>e\<in>set rh. rh_in (teh_currency teh) e" by auto
              obtain rep where "reply_withdraw_insufficient_funds teh (reserve_balance b) rh = Some rep"
                "\<And>x. rep \<noteq> reply_ok MHD_HTTP_OK x"
                using reply_withdraw_insufficient_total [OF rh b(1)] by metis
              with z hard [OF u3] show ?case by auto
            qed
            with True Some y a b show ?thesis by simp
          next
            case False
            with Some y a b fee insert [OF u2 new(3)] show ?thesis by simp
          qed
        qed
      qed
    qed (use x soft [OF u] hard [OF u] in auto)
  qed
qed

interpretation withdraw: db_transaction "teh_gnunet teh" "withdraw_transaction teh"
    "withdraw_inv S (wc_h_coin_envelope wc)" "\<lambda>c. withdraw_same S wc c \<and> withdraw_context_ok teh c"
    "\<lambda>c db c' db'. withdraw_post wc c' db db'" "\<lambda>db. withdraw_refused" for teh S wc
proof unfold_locales
  fix c s assume "withdraw_same S wc c \<and> withdraw_context_ok teh c" "in_fresh_tx s"
    "withdraw_inv S (wc_h_coin_envelope wc) (s_db s)"
  then show "wp (withdraw_transaction teh c s)
     (callback_ok (withdraw_inv S (wc_h_coin_envelope wc)) (\<lambda>c. withdraw_same S wc c \<and> withdraw_context_ok teh c)
       (\<lambda>c db c' db'. withdraw_post wc c' db db') (\<lambda>db. withdraw_refused) c (s_db s))"
    by (elim conjE) (rule withdraw_callback)
qed (auto simp: withdraw_refused_def withdraw_context_ok_def teh_ok_def)

section \<open>The whole request\<close>

text \<open>A withdrawal is added and the balance of the reserve changed, and nothing else.\<close>

definition withdraw_added :: "pub_key \<Rightarrow> reserves_out_row \<Rightarrow> tables \<Rightarrow> tables \<Rightarrow> bool" where
  "withdraw_added pub row db db' \<longleftrightarrow>
     (\<exists>e gc b. db' = reserve_set e gc b pub (db\<lparr>t_reserves_out := t_reserves_out db @ [row]\<rparr>))"

text \<open>What a stored withdrawal means: the request was signed with the key of the reserve, for the value and
  the fee of a denomination that may be withdrawn; the coin was signed with the key of that denomination; and the reserve
  had the money, which is subtracted.\<close>

definition withdraw_stored :: "TEH \<Rightarrow> withdraw_request \<Rightarrow> tables \<Rightarrow> tables \<Rightarrow> bool" where
  "withdraw_stored teh req db db' \<longleftrightarrow> (\<exists>pub ks dki priv amount wsrd row.
     wr_reserve_pub req = Some pub \<and> teh_keys teh = Some ks
     \<and> teh_lookup teh ks (wr_denom_pub_hash req) TEH_KS_DKU_WITHDRAW = Inr dki \<and> denom_priv dki = Some priv
     \<and> withdraw_amounts teh pub req dki = Some (Some (amount, wsrd))
     \<and> GNUNET_CRYPTO_eddsa_verify (teh_crypto teh) wsrd (wr_reserve_sig req) pub
     \<and> GNUNET_CRYPTO_rsa_sign_blinded (teh_crypto teh) priv (wr_coin_ev req) = Some (ro_denom_sig row)
     \<and> withdraw_added pub row db db' \<and> ro_reserve_pub row = pub
     \<and> ro_h_blind_ev row = GNUNET_CRYPTO_hash_data (teh_crypto teh) (wr_coin_ev req)
     \<and> ro_h_blind_ev row \<notin> ro_h_blind_ev ` set (t_reserves_out db)
     \<and> ro_denom_pub_hash row = wr_denom_pub_hash req \<and> sqlamt (ro_amount_with_fee row) = amt amount
     \<and> (\<forall>p. reserve_net db' p = reserve_net db p - (if p = pub then amt amount else 0)))"

definition withdraw_answered ::
    "TEH \<Rightarrow> withdraw_request \<Rightarrow> tables \<Rightarrow> exchange_reply reply option \<Rightarrow> tables session \<Rightarrow> bool" where
  "withdraw_answered teh req db r s' \<longleftrightarrow> idle s' \<and> db_ok (s_committed s')
     \<and> (s_committed s' = db \<or> withdraw_stored teh req db (s_committed s'))
     \<and> (\<forall>sig. r = Some (reply_ok MHD_HTTP_OK (WITHDRAW_OK sig)) \<longrightarrow>
          (\<exists>row\<in>set (t_reserves_out (s_committed s')). ro_denom_sig row = sig
             \<and> ro_h_blind_ev row = GNUNET_CRYPTO_hash_data (teh_crypto teh) (wr_coin_ev req)))"

lemma withdraw_amounts_total:
  assumes "denomination_ok teh h dki"
  obtains "withdraw_amounts teh pub req dki = Some None"
  | amount wsrd where "withdraw_amounts teh pub req dki = Some (Some (amount, wsrd))" and "amount_in (teh_currency teh) amount"
proof -
  obtain a f where a: "teh_ntoh teh (dk_value (issue_properties dki)) = Some a" "amount_in (teh_currency teh) a"
    "teh_ntoh teh (dk_fee_withdraw (issue_properties dki)) = Some f" "amount_in (teh_currency teh) f"
    using denomination_okD(2,3) [OF assms] by blast
  obtain r b where b: "TALER_amount_add a f = Some (r, b)" "0 \<le> r \<Longrightarrow> amount_in (teh_currency teh) b"
    using amount_add_wp [OF a(2,4)] by (auto simp: wp_iff)
  show ?thesis
  proof (cases "0 \<le> r")
    case True
    then obtain n m where "teh_hton teh b = Some n" "teh_hton teh f = Some m"
      using hton_in [OF b(2), of "GNUNET_htonll (teh_crypto teh)"] hton_in [OF a(4), of "GNUNET_htonll (teh_crypto teh)"] by blast
    with True a b that(2) show ?thesis by (simp add: withdraw_amounts_def)
  next
    case False
    with a b that(1) show ?thesis by (simp add: withdraw_amounts_def)
  qed
qed

lemma withdraw_post_answered:
  assumes post: "withdraw_post wc c db db'" and same: "withdraw_same S wc c"
    and S: "S = insert sig (ro_denom_sig ` {r \<in> set (t_reserves_out db). ro_h_blind_ev r = wc_h_coin_envelope wc})"
    and ok: "reserve_tables_ok db"
  shows "(\<exists>r\<in>set (t_reserves_out db'). ro_h_blind_ev r = wc_h_coin_envelope wc \<and> ro_denom_sig r = cb_sig (wc_collectable c))
    \<and> (db' = db \<or> (\<exists>row. withdraw_added (wc_reserve_pub wc) row db db' \<and> ro_denom_sig row = sig
         \<and> ro_reserve_pub row = wc_reserve_pub wc \<and> ro_h_blind_ev row = wc_h_coin_envelope wc
         \<and> ro_h_blind_ev row \<notin> ro_h_blind_ev ` set (t_reserves_out db) \<and> ro_denom_pub_hash row = wc_denom_pub_hash wc
         \<and> sqlamt (ro_amount_with_fee row) = amt (wc_amount_required wc)
         \<and> (\<forall>p. reserve_net db' p = reserve_net db p - (if p = wc_reserve_pub wc then amt (wc_amount_required wc) else 0))))"
  using post unfolding withdraw_post_def
proof (elim disjE conjE)
  assume of: "withdraw_of wc (wc_collectable c)" and eff: "withdraw_effect (wc_collectable c) db db'"
  note cb = of [unfolded withdraw_of_def]
  have fresh: "\<forall>r\<in>set (t_reserves_out db). ro_h_blind_ev r \<noteq> wc_h_coin_envelope wc"
    using withdraw_effect_fresh(1) [OF eff] cb by simp
  then have "cb_sig (wc_collectable c) = sig" using same S by (auto simp: withdraw_same_def)
  moreover have "reserve_net db' p = reserve_net db p - (if p = wc_reserve_pub wc then amt (wc_amount_required wc) else 0)" for p
    using withdraw_effect_net [OF eff ok] fresh cb by simp
  moreover obtain row where row: "withdraw_added (wc_reserve_pub wc) row db db'" "ro_denom_sig row = cb_sig (wc_collectable c)"
    "ro_reserve_pub row = wc_reserve_pub wc" "ro_h_blind_ev row = wc_h_coin_envelope wc"
    "ro_denom_pub_hash row = wc_denom_pub_hash wc" "sqlamt (ro_amount_with_fee row) = amt (wc_amount_required wc)"
    using eff cb by (auto simp: withdraw_effect_def withdraw_added_def)
  moreover have "row \<in> set (t_reserves_out db')" using row(1) by (auto simp: withdraw_added_def)
  ultimately show ?thesis using fresh by auto
qed auto

lemma withdraw_handler_wp:
  assumes teh: "teh_ok teh" and s: "idle s" "db_ok (s_committed s)"
  shows "wp (TEH_handler_withdraw teh req uninit clock s) (withdraw_answered teh req (s_committed s))"
proof -
  let ?Q = "withdraw_answered teh req (s_committed s)"
  have err: "?Q (Some (TALER_MHD_reply_with_error hc ec)) s" for hc ec
    using s by (simp add: withdraw_answered_def)
  have run: "wp (TEH_DB_run_transaction (teh_gnunet teh) name (withdraw_transaction teh) wc s \<bind> (\<lambda>((ret, mhd_ret, wc), s).
      if ret \<noteq> GNUNET_OK then Some (mhd_ret, s)
      else Some (Some (reply_ok MHD_HTTP_OK (WITHDRAW_OK (cb_sig (wc_collectable wc)))), s))) ?Q"
    if ks: "wr_reserve_pub req = Some pub" "teh_keys teh = Some ks"
        "teh_lookup teh ks (wr_denom_pub_hash req) TEH_KS_DKU_WITHDRAW = Inr dki" "denom_priv dki = Some priv"
      and am: "withdraw_amounts teh pub req dki = Some (Some (amount, wsrd))" "amount_in (teh_currency teh) amount"
      and sig: "GNUNET_CRYPTO_eddsa_verify (teh_crypto teh) wsrd (wr_reserve_sig req) pub"
        "GNUNET_CRYPTO_rsa_sign_blinded (teh_crypto teh) priv (wr_coin_ev req) = Some sig"
      and wc: "wc = \<lparr>wc_reserve_pub = pub, wc_h_coin_envelope = GNUNET_CRYPTO_hash_data (teh_crypto teh) (wr_coin_ev req),
           wc_amount_required = amount, wc_denom_pub_hash = wr_denom_pub_hash req,
           wc_signature = wr_reserve_sig req, wc_dki = dki, wc_collectable = uninit\<lparr>cb_sig := sig\<rparr>, wc_clock = clock\<rparr>"
    for pub ks dki priv amount wsrd sig wc name
  proof -
    define S where "S = insert sig (ro_denom_sig ` {r \<in> set (t_reserves_out (s_committed s)). ro_h_blind_ev r = wc_h_coin_envelope wc})"
    have dk: "denomination_ok teh (wr_denom_pub_hash req) dki"
      using lookup_denomination_ok [OF teh_okD(3) [OF teh ks(2)] ks(3)] .
    have "withdraw_same S wc wc" "withdraw_context_ok teh wc" "withdraw_inv S (wc_h_coin_envelope wc) (s_committed s)"
      using teh am denomination_okD(3) [OF dk] s by (auto simp: withdraw_same_def withdraw_context_ok_def withdraw_inv_def S_def wc)
    note run = withdraw.run_transaction_wp [OF conjI [OF this(1,2)] s(1) this(3)]
    show ?thesis
    proof (rule wp_bindI [OF run], goal_cases)
      case (1 x s')
      then obtain ret mhd_ret c where x: "x = (ret, mhd_ret, c)" and c: "idle s'" "withdraw_same S wc c" "db_ok (s_committed s')"
        and cases: "ret = 1 \<and> withdraw_post wc c (s_committed s) (s_committed s')
          \<or> ret = - 1 \<and> withdraw_refused mhd_ret \<and> s_committed s' = s_committed s"
        by (auto simp: run_ok_def withdraw_inv_def split: prod.splits)
      from cases show ?case
      proof
        assume ret: "ret = 1 \<and> withdraw_post wc c (s_committed s) (s_committed s')"
        then have p: "withdraw_post wc c (s_committed s) (s_committed s')" by simp
        have ok: "reserve_tables_ok (s_committed s)" using s by (simp add: db_ok_def coin_tables_ok_reserve)
        from withdraw_post_answered [OF p c(2) S_def ok] have
          "s_committed s' = s_committed s \<or> withdraw_stored teh req (s_committed s) (s_committed s')"
          and "\<exists>r\<in>set (t_reserves_out (s_committed s')). ro_h_blind_ev r = wc_h_coin_envelope wc
            \<and> ro_denom_sig r = cb_sig (wc_collectable c)"
          using ks am(1) sig by (auto simp: withdraw_stored_def wc)
        with x ret c show ?thesis by (auto simp: withdraw_answered_def wc)
      next
        assume "ret = - 1 \<and> withdraw_refused mhd_ret \<and> s_committed s' = s_committed s"
        with x c show ?thesis by (auto simp: withdraw_answered_def withdraw_refused_def)
      qed
    qed
  qed
  show ?thesis
  proof (cases "wr_reserve_pub req")
    case (Some pub)
    note pub = this
    show ?thesis
    proof (cases "teh_keys teh")
      case (Some ks)
      note ks = this
      show ?thesis
      proof (cases "teh_lookup teh ks (wr_denom_pub_hash req) TEH_KS_DKU_WITHDRAW")
        case (Inl e)
        with pub ks err show ?thesis by (cases e) (simp add: TEH_handler_withdraw_def)
      next
        case (Inr dki)
        have dk: "denomination_ok teh (wr_denom_pub_hash req) dki"
          using lookup_denomination_ok [OF teh_okD(3) [OF teh ks] Inr] .
        obtain priv where priv: "denom_priv dki = Some priv" using lookup_InrD [OF Inr] by auto
        show ?thesis
        proof (cases rule: withdraw_amounts_total [OF dk, of pub req, case_names overflow amount])
          case overflow
          with pub ks Inr priv err show ?thesis by (simp add: TEH_handler_withdraw_def)
        next
          case (amount amount wsrd)
          show ?thesis
            unfolding TEH_handler_withdraw_def pub ks Inr option.case sum.case priv bind.bind_lunit amount(1) prod.case Let_def
            using run [OF pub ks Inr priv amount _ _ refl] err by (auto split: option.split)
        qed
      qed
    qed (use pub err in \<open>simp add: TEH_handler_withdraw_def\<close>)
  qed (use err in \<open>simp add: TEH_handler_withdraw_def\<close>)
qed

section \<open>Property\<close>

text \<open>C7. Whatever errors the database reports, a withdraw request does not abort, keeps the integrity of the
  database and changes nothing but at most one withdrawal and the balance of the reserve: for a request that is signed with the key of the reserve, of a
  denomination that may be withdrawn, with the blind signature of that denomination; the reserve has
  paid the value and the fee, all other reserves are untouched. The balance of the reserve was sufficient, since the balances remain
  what their histories add up to. A signature is only handed out if it is stored in the database for the envelope of the
  request, so repeating the request does not cost anything.\<close>

theorem withdraw_request_safe:
  assumes "teh_ok teh" and "idle s" and "db_ok (s_committed s)"
  shows "\<exists>reply s'. TEH_handler_withdraw teh req uninit clock s = Some (reply, s') \<and> idle s' \<and> db_ok (s_committed s')
     \<and> (s_committed s' = s_committed s \<or> withdraw_stored teh req (s_committed s) (s_committed s'))
     \<and> (\<forall>sig. reply = Some (reply_ok MHD_HTTP_OK (WITHDRAW_OK sig)) \<longrightarrow>
          (\<exists>row\<in>set (t_reserves_out (s_committed s')). ro_denom_sig row = sig
             \<and> ro_h_blind_ev row = GNUNET_CRYPTO_hash_data (teh_crypto teh) (wr_coin_ev req)))"
  using withdraw_handler_wp [OF assms] by (auto simp: wp_iff withdraw_answered_def)

definition sample_withdraw :: "string \<Rightarrow> withdraw_request" where
  "sample_withdraw ev = \<lparr>wr_reserve_pub = Some 3, wr_coin_ev = ev, wr_denom_pub_hash = 7, wr_reserve_sig = 3\<rparr>"

theorem withdraw_request_safe_witness:
  "\<exists>reply s'. TEH_handler_withdraw sample_teh (sample_withdraw ''envelope'') sample_cb (\<lambda>_. 150)
       (sample_idle sample_db [PQ_RUN, PQ_SOFT]) = Some (reply, s') \<and> idle s' \<and> db_ok (s_committed s')"
  using withdraw_request_safe [OF sample_teh_ok(1), of "sample_idle sample_db [PQ_RUN, PQ_SOFT]"
      "sample_withdraw ''envelope''" sample_cb "\<lambda>_. 150"]
  by (auto simp: db_ok_def sample_deposit_db_ok)

end
