(* ===== verification/Refund.thy ===== *)
theory Refund
  imports Undisturbed
begin

text \<open>
  \<^verbatim>\<open>src/exchange/taler-exchange-httpd_refund.c\<close>: a merchant refunds a deposit.
\<close>

section \<open>The request\<close>

definition reply_refund_success ::
    "TEH \<Rightarrow> pub_key \<Rightarrow> TALER_EXCHANGEDB_RefundListEntry \<Rightarrow> exchange_reply reply option" where
  "reply_refund_success teh pub refund = do {
     refund_amount \<leftarrow> teh_hton teh (rle_refund_amount refund);
     refund_fee \<leftarrow> teh_hton teh (rle_refund_fee refund);
     let rc = TALER_RefundConfirmationPS (rle_h_contract_terms refund) pub (rle_merchant_pub refund)
                (rle_rtransaction_id refund) refund_amount refund_fee;
     Some (case TEH_KS_sign (teh_crypto teh) (teh_sign_keys teh) rc of
             None \<Rightarrow> TALER_MHD_reply_with_error MHD_HTTP_INTERNAL_SERVER_ERROR TALER_EC_EXCHANGE_BAD_CONFIGURATION
           | Some (pub, sig) \<Rightarrow> reply_ok MHD_HTTP_OK (REFUND_OK sig pub))
   }"

text \<open>The loop over the history: the deposit (if it was found), whether a refund was found
  (\<^verbatim>\<open>GNUNET_SYSERR\<close> if it conflicts), and the refund that was found\<close>

fun scan_history ::
    "TALER_EXCHANGEDB_RefundListEntry \<Rightarrow> TALER_EXCHANGEDB_TransactionList list
       \<Rightarrow> TALER_EXCHANGEDB_DepositListEntry option \<times> int \<times> TALER_EXCHANGEDB_RefundListEntry option
       \<Rightarrow> TALER_EXCHANGEDB_DepositListEntry option \<times> int \<times> TALER_EXCHANGEDB_RefundListEntry option" where
  "scan_history details [] found = found"
| "scan_history details (tlp # txs) (dep, refund_found, ref) =
     (case tl_details tlp of
        TALER_EXCHANGEDB_TT_DEPOSIT d \<Rightarrow>
          if dep = None \<and> dle_merchant_pub d = rle_merchant_pub details
             \<and> dle_h_contract_terms d = rle_h_contract_terms details
          then scan_history details txs (Some d, refund_found, ref)
          else scan_history details txs (dep, refund_found, ref)
      | TALER_EXCHANGEDB_TT_REFUND r \<Rightarrow>
          if refund_found = GNUNET_NO \<and> rle_merchant_pub r = rle_merchant_pub details
             \<and> rle_h_contract_terms r = rle_h_contract_terms details
          then (if rle_rtransaction_id r = rle_rtransaction_id details
                then scan_history details txs (dep, GNUNET_YES, Some r)
                else scan_history details txs (dep, GNUNET_SYSERR, ref))
          else scan_history details txs (dep, refund_found, ref)
      | _ \<Rightarrow> scan_history details txs (dep, refund_found, ref))"

text \<open>What is checked once the deposit was found and there is no refund yet\<close>

definition refund_store ::
    "TEH \<Rightarrow> TALER_EXCHANGEDB_Refund \<Rightarrow> TALER_EXCHANGEDB_DepositListEntry \<Rightarrow> tables session
       \<Rightarrow> ((int \<times> exchange_reply reply option \<times> TALER_EXCHANGEDB_Refund) \<times> tables session) option" where
  "refund_store teh refund dep s =
     (if TALER_amount_cmp_currency (rle_refund_amount (ref_details refund)) (dle_amount_with_fee dep) \<noteq> GNUNET_YES
         \<or> TALER_amount_cmp_currency (rle_refund_fee (ref_details refund)) (dle_deposit_fee dep) \<noteq> GNUNET_YES
      then Some ((GNUNET_DB_STATUS_HARD_ERROR,
                  Some (TALER_MHD_reply_with_error MHD_HTTP_PRECONDITION_FAILED TALER_EC_REFUND_CURRENCY_MISMATCH), refund), s)
      else do {
        (qs, s) \<leftarrow> postgres_test_deposit_done (teh_gnunet teh) (coin_pub (ref_coin refund)) (dle_merchant_pub dep)
                    (dle_h_contract_terms dep) (dle_h_wire dep) s;
        if qs = GNUNET_DB_STATUS_HARD_ERROR
        then Some ((qs, Some (TALER_MHD_reply_with_error MHD_HTTP_INTERNAL_SERVER_ERROR TALER_EC_REFUND_DB_INCONSISTENT), refund), s)
        else if qs = GNUNET_DB_STATUS_SOFT_ERROR
        then Some ((qs, None, refund), s)
        else if qs = GNUNET_DB_STATUS_SUCCESS_ONE_RESULT
        then Some ((GNUNET_DB_STATUS_HARD_ERROR,
                    Some (TALER_MHD_reply_with_error MHD_HTTP_GONE TALER_EC_REFUND_MERCHANT_ALREADY_PAID), refund), s)
        else do {
          c \<leftarrow> TALER_amount_cmp (rle_refund_amount (ref_details refund)) (dle_amount_with_fee dep);
          if c = 1
          then Some ((GNUNET_DB_STATUS_HARD_ERROR,
                      Some (TALER_MHD_reply_with_error MHD_HTTP_PRECONDITION_FAILED TALER_EC_REFUND_INSUFFICIENT_FUNDS), refund), s)
          else do {
            (qs, s) \<leftarrow> postgres_insert_refund (teh_gnunet teh) refund s;
            Some ((qs, if qs = GNUNET_DB_STATUS_HARD_ERROR
                       then Some (TALER_MHD_reply_with_error MHD_HTTP_INTERNAL_SERVER_ERROR TALER_EC_REFUND_STORE_DB_ERROR)
                       else None, refund), s)
          }
        }
      })"

definition refund_transaction :: "TEH \<Rightarrow> (TALER_EXCHANGEDB_Refund, exchange_reply, tables) transaction" where
  "refund_transaction teh refund s = do {
     let pub = coin_pub (ref_coin refund);
     ((qs, tl), s) \<leftarrow> postgres_get_coin_transactions (teh_gnunet teh) (teh_pg teh) pub False s;
     if 0 > qs
     then Some ((qs, if qs = GNUNET_DB_STATUS_HARD_ERROR
                     then Some (TALER_MHD_reply_with_error MHD_HTTP_NOT_FOUND TALER_EC_REFUND_COIN_NOT_FOUND)
                     else None, refund), s)
     else case scan_history (ref_details refund) tl (None, GNUNET_NO, None) of
       (None, _, _) \<Rightarrow>
         Some ((GNUNET_DB_STATUS_HARD_ERROR,
                Some (TALER_MHD_reply_with_error MHD_HTTP_NOT_FOUND TALER_EC_REFUND_DEPOSIT_NOT_FOUND), refund), s)
     | (Some dep, refund_found, ref) \<Rightarrow>
         (if refund_found = GNUNET_SYSERR
          then do {
            history \<leftarrow> TEH_RESPONSE_compile_transaction_history (teh_crypto teh) (teh_sign_keys teh) pub tl;
            Some ((GNUNET_DB_STATUS_HARD_ERROR,
                   Some (reply_ok MHD_HTTP_CONFLICT (refund_conflict TALER_EC_REFUND_CONFLICT history)), refund), s)
          }
          else case ref of
            Some ref \<Rightarrow> do {
              mhd_ret \<leftarrow> reply_refund_success teh pub ref;
              Some ((GNUNET_DB_STATUS_HARD_ERROR, Some mhd_ret, refund), s)
            }
          | None \<Rightarrow> refund_store teh refund dep s)
   }"

definition refund_signed :: "TEH \<Rightarrow> TALER_EXCHANGEDB_Refund \<Rightarrow> bool option" where
  "refund_signed teh refund = do {
     let details = ref_details refund;
     refund_amount \<leftarrow> teh_hton teh (rle_refund_amount details);
     refund_fee \<leftarrow> teh_hton teh (rle_refund_fee details);
     let rr = TALER_RefundRequestPS (rle_h_contract_terms details) (coin_pub (ref_coin refund)) (rle_merchant_pub details)
                (rle_rtransaction_id details) refund_amount refund_fee;
     Some (GNUNET_CRYPTO_eddsa_verify (teh_crypto teh) rr (rle_merchant_sig details) (rle_merchant_pub details))
   }"

text \<open>If the coin is unknown, the hash of its denomination is not initialised; \<open>uninit\<close> is what is in it.\<close>

definition verify_and_execute_refund ::
    "TEH \<Rightarrow> TALER_EXCHANGEDB_Refund \<Rightarrow> hash_code \<Rightarrow> tables session
       \<Rightarrow> (exchange_reply reply option \<times> tables session) option" where
  "verify_and_execute_refund teh refund uninit s = do {
     ok \<leftarrow> refund_signed teh refund;
     if \<not> ok
     then Some (Some (TALER_MHD_reply_with_error MHD_HTTP_FORBIDDEN TALER_EC_REFUND_MERCHANT_SIGNATURE_INVALID), s)
     else do {
       ((qs, h), s) \<leftarrow> with_thread_session (postgres_get_coin_denomination (teh_gnunet teh) (coin_pub (ref_coin refund))) s;
       if 0 > qs
       then Some (Some (TALER_MHD_reply_with_error MHD_HTTP_NOT_FOUND TALER_EC_REFUND_COIN_NOT_FOUND), s)
       else do {
         let denom_hash = (case h of Some h \<Rightarrow> h | None \<Rightarrow> uninit);
         case teh_keys teh of
           None \<Rightarrow> Some (Some (TALER_MHD_reply_with_error MHD_HTTP_INTERNAL_SERVER_ERROR TALER_EC_EXCHANGE_BAD_CONFIGURATION), s)
         | Some key_state \<Rightarrow>
             (case teh_lookup teh key_state denom_hash TEH_KS_DKU_DEPOSIT of
                Inl (ec, hc) \<Rightarrow> Some (Some (TALER_MHD_reply_with_error hc ec), s)
              | Inr dki \<Rightarrow> do {
                  expect_fee \<leftarrow> teh_ntoh teh (dk_fee_refund (issue_properties dki));
                  if TALER_amount_cmp_currency expect_fee (rle_refund_fee (ref_details refund)) \<noteq> GNUNET_YES
                  then Some (Some (TALER_MHD_reply_with_error MHD_HTTP_BAD_REQUEST TALER_EC_REFUND_FEE_CURRENCY_MISMATCH), s)
                  else do {
                    fee_cmp \<leftarrow> TALER_amount_cmp (rle_refund_fee (ref_details refund)) expect_fee;
                    if fee_cmp = - 1
                    then Some (Some (TALER_MHD_reply_with_error MHD_HTTP_BAD_REQUEST TALER_EC_REFUND_FEE_TOO_LOW), s)
                    else do {
                      ((ret, mhd_ret, _), s) \<leftarrow> TEH_DB_run_transaction (teh_gnunet teh) ''run refund''
                         (refund_transaction teh) refund s;
                      if ret \<noteq> GNUNET_OK then Some (mhd_ret, s)
                      else do {
                        reply \<leftarrow> reply_refund_success teh (coin_pub (ref_coin refund)) (ref_details refund);
                        Some (Some reply, s)
                      }
                    }
                  }
                })
       }
     }
   }"

definition TEH_handler_refund ::
    "TEH \<Rightarrow> TALER_EXCHANGEDB_Refund \<Rightarrow> hash_code \<Rightarrow> tables session
       \<Rightarrow> (exchange_reply reply option \<times> tables session) option" where
  "TEH_handler_refund teh refund uninit s =
     (if TALER_amount_cmp_currency (rle_refund_amount (ref_details refund)) (rle_refund_fee (ref_details refund)) \<noteq> GNUNET_YES
      then Some (Some (TALER_MHD_reply_with_error MHD_HTTP_BAD_REQUEST TALER_EC_REFUND_FEE_CURRENCY_MISMATCH), s)
      else do {
        c \<leftarrow> TALER_amount_cmp (rle_refund_amount (ref_details refund)) (rle_refund_fee (ref_details refund));
        if c = - 1
        then Some (Some (TALER_MHD_reply_with_error MHD_HTTP_BAD_REQUEST TALER_EC_REFUND_FEE_ABOVE_AMOUNT), s)
        else verify_and_execute_refund teh refund uninit s
      })"

section \<open>The history\<close>

lemma scan_history_deposit:
  "fst (scan_history details txs (dep, f, r)) = Some d \<Longrightarrow>
     dep = Some d \<or> (\<exists>e\<in>set txs. tl_details e = TALER_EXCHANGEDB_TT_DEPOSIT d
       \<and> dle_merchant_pub d = rle_merchant_pub details \<and> dle_h_contract_terms d = rle_h_contract_terms details)"
  by (induction details txs "(dep, f, r)" arbitrary: dep f r rule: scan_history.induct)
    (auto split: TALER_EXCHANGEDB_TransactionDetails.splits if_splits)

text \<open>If no refund is found there is none with the key; if one is found it is in the list.\<close>

lemma scan_history_refund:
  assumes "scan_history details txs (dep, f, r) = (dep', f', r')" and "f = GNUNET_NO \<longrightarrow> r = None"
  shows "f \<noteq> GNUNET_NO \<and> f' = f \<and> r' = r
    \<or> f = GNUNET_NO \<and> f' = GNUNET_NO \<and> r' = None \<and> (\<forall>e\<in>set txs. \<forall>d. tl_details e = TALER_EXCHANGEDB_TT_REFUND d \<longrightarrow>
         \<not> (rle_merchant_pub d = rle_merchant_pub details \<and> rle_h_contract_terms d = rle_h_contract_terms details))
    \<or> f = GNUNET_NO \<and> f' = GNUNET_SYSERR
    \<or> f = GNUNET_NO \<and> f' = GNUNET_YES \<and> (\<exists>e\<in>set txs. \<exists>d. tl_details e = TALER_EXCHANGEDB_TT_REFUND d \<and> r' = Some d
         \<and> rle_merchant_pub d = rle_merchant_pub details \<and> rle_h_contract_terms d = rle_h_contract_terms details
         \<and> rle_rtransaction_id d = rle_rtransaction_id details)"
  using assms
proof (induction details txs "(dep, f, r)" arbitrary: dep f r rule: scan_history.induct)
  case (2 details e txs dep f r)
  show ?case
  proof (cases "tl_details e")
    case (TALER_EXCHANGEDB_TT_DEPOSIT d)
    with 2 show ?thesis by (cases "dep = None \<and> dle_merchant_pub d = rle_merchant_pub details
        \<and> dle_h_contract_terms d = rle_h_contract_terms details") auto
  next
    case (TALER_EXCHANGEDB_TT_REFUND d)
    with 2 show ?thesis
      by (cases "f = 0 \<and> rle_merchant_pub d = rle_merchant_pub details \<and> rle_h_contract_terms d = rle_h_contract_terms details";
          cases "rle_rtransaction_id d = rle_rtransaction_id details") auto
  qed (use 2 in auto)
qed auto

lemma coin_history_refund:
  assumes "coin_history g pg p False db = Some txs" and "e \<in> set txs" and "tl_details e = TALER_EXCHANGEDB_TT_REFUND d"
  shows "\<exists>r\<in>set (t_refunds db). refund_key r = (p, rle_merchant_pub d, rle_h_contract_terms d)
    \<and> rd_rtransaction_id r = rle_rtransaction_id d"
proof -
  have no: "add_coin_deposit g pg x1 \<noteq> Some e" "add_coin_melt pg x2 \<noteq> Some e" for x1 x2
    using assms(3) by (auto simp: add_coin_deposit_def add_coin_melt_def bind_eq_Some_conv split: prod.splits)
  from assms(1,2) no obtain x where "x \<in> set (sql_get_refunds_by_coin p db)" "add_coin_refund pg x = Some e"
    by (auto simp: coin_history_def bind_eq_Some_conv dest!: history_entries_mem [of _ _ _ e])
  with assms(3) show ?thesis
    by (auto simp: sql_get_refunds_by_coin_def add_coin_refund_def bind_eq_Some_conv refund_key_def split: if_splits) blast
qed

section \<open>The transaction\<close>

definition refund_key_of :: "TALER_EXCHANGEDB_Refund \<Rightarrow> pub_key \<times> pub_key \<times> hash_code" where
  "refund_key_of d = (coin_pub (ref_coin d), rle_merchant_pub (ref_details d), rle_h_contract_terms (ref_details d))"

text \<open>What the parser guarantees for a request; the first check of the handler then finds out whether the two amounts are in a
  currency.\<close>

definition refund_request_ok :: "TALER_EXCHANGEDB_Refund \<Rightarrow> bool" where
  "refund_request_ok d \<longleftrightarrow> request_amount (rle_refund_amount (ref_details d)) \<and> request_amount (rle_refund_fee (ref_details d))"

definition refund_context_ok :: "TEH \<Rightarrow> TALER_EXCHANGEDB_Refund \<Rightarrow> bool" where
  "refund_context_ok teh d \<longleftrightarrow> teh_ok teh \<and> refund_request_ok d
     \<and> TALER_amount_cmp_currency (rle_refund_amount (ref_details d)) (rle_refund_fee (ref_details d)) = GNUNET_YES"

lemma refund_context_amounts:
  assumes "refund_context_ok teh d"
  shows "request_amount (rle_refund_amount (ref_details d))" "request_amount (rle_refund_fee (ref_details d))"
    "amount_in (amt_currency (rle_refund_fee (ref_details d))) (rle_refund_amount (ref_details d))"
    "amount_in (amt_currency (rle_refund_fee (ref_details d))) (rle_refund_fee (ref_details d))"
proof -
  let ?a = "rle_refund_amount (ref_details d)" and ?f = "rle_refund_fee (ref_details d)"
  show a: "request_amount ?a" and f: "request_amount ?f" using assms by (simp_all add: refund_context_ok_def refund_request_ok_def)
  have c: "TALER_amount_cmp_currency ?a ?f = GNUNET_YES" using assms by (simp add: refund_context_ok_def)
  then have "TALER_amount_is_valid ?f" by (simp add: cmp_currency_YES_iff)
  then show ff: "amount_in (amt_currency ?f) ?f" by (rule request_amount_self [OF f])
  show "amount_in (amt_currency ?f) ?a" by (rule request_amount_in [OF a ff c])
qed

text \<open>A committed refund is the first one for a deposit that has not been paid out, and not more than the deposit.\<close>

definition refund_effect :: "TALER_EXCHANGEDB_Refund \<Rightarrow> tables \<Rightarrow> tables \<Rightarrow> bool" where
  "refund_effect d db db' \<longleftrightarrow> (\<exists>row dep. new_refund d db row \<and> db' = add_refund row db
     \<and> refund_key_of d \<notin> refund_key ` set (t_refunds db)
     \<and> dep \<in> set (t_deposits db) \<and> deposit_key dep = refund_key_of d \<and> \<not> dp_done dep
     \<and> amt (rle_refund_amount (ref_details d)) \<le> sqlamt (dp_amount_with_fee dep))"

definition refund_refused :: "TALER_EXCHANGEDB_Refund \<Rightarrow> tables \<Rightarrow> exchange_reply reply option \<Rightarrow> bool" where
  "refund_refused d db mhd_ret \<longleftrightarrow> mhd_ret \<noteq> None \<and>
     (\<forall>sig pub. mhd_ret = Some (reply_ok MHD_HTTP_OK (REFUND_OK sig pub)) \<longrightarrow>
        (\<exists>r\<in>set (t_refunds db). refund_key r = refund_key_of d \<and> rd_rtransaction_id r = rle_rtransaction_id (ref_details d)))"

lemma reply_refund_success_total:
  assumes "amount_in c (rle_refund_amount r)" and "amount_in c' (rle_refund_fee r)"
  obtains x where "reply_refund_success teh p r = Some x"
  using hton_in [OF assms(1), of "GNUNET_htonll (teh_crypto teh)"] hton_in [OF assms(2), of "GNUNET_htonll (teh_crypto teh)"]
  by (auto simp: reply_refund_success_def)

lemma new_refund_key: "new_refund d db row \<Longrightarrow> refund_key row = refund_key_of d"
  by (simp add: new_refund_def refund_key_def refund_key_of_def)

lemma db_ok_refund:
  assumes "db_ok db" and "new_refund d db row" and "refund_key_of d \<notin> refund_key ` set (t_refunds db)"
    and "refund_key_of d \<in> deposit_key ` set (t_deposits db)"
  shows "db_ok (add_refund row db)"
  using assms coin_tables_ok_refund [of db row] new_refund_key [OF assms(2)] by (auto simp: db_ok_def new_refund_def)

lemma refund_store_callback:
  assumes ok: "refund_context_ok teh d" and s: "in_fresh_tx s" and inv: "db_ok (s_db s)" and u: "unchanged s s1"
    and new: "refund_key_of d \<notin> refund_key ` set (t_refunds (s_db s))"
    and dep: "amount_in (teh_currency teh) (dle_amount_with_fee dep)" "amount_in (teh_currency teh) (dle_deposit_fee dep)"
      "dle_merchant_pub dep = rle_merchant_pub (ref_details d)" "dle_h_contract_terms dep = rle_h_contract_terms (ref_details d)"
    and r: "r \<in> set (t_deposits (s_db s))" "deposit_key r = refund_key_of d"
      "amt (dle_amount_with_fee dep) = sqlamt (dp_amount_with_fee r)"
  shows "wp (refund_store teh d dep s1)
     (callback_ok db_ok (\<lambda>c. c = d \<and> refund_context_ok teh d) (\<lambda>c db c' db'. refund_effect d db db') (refund_refused d) d (s_db s))"
    (is "wp _ ?Q")
proof -
  let ?a = "rle_refund_amount (ref_details d)" and ?f = "rle_refund_fee (ref_details d)"
  have g: "gnunet_ok (teh_gnunet teh)" using ok by (simp add: refund_context_ok_def teh_ok_def)
  have hard: "?Q (- 2, Some (TALER_MHD_reply_with_error hc ec), d) s'" and soft: "?Q (- 1, None, d) s'" if "unchanged s s'" for s' hc ec
    using unchanged_fresh [OF s that] ok by (simp_all add: callback_ok_def refund_refused_def)
  show ?thesis
  proof (cases "TALER_amount_cmp_currency ?a (dle_amount_with_fee dep) = GNUNET_YES
      \<and> TALER_amount_cmp_currency ?f (dle_deposit_fee dep) = GNUNET_YES")
    case False
    with hard [OF u] show ?thesis by (auto simp: refund_store_def)
  next
    case True
    then have a: "amount_in (teh_currency teh) ?a" "amount_in (teh_currency teh) ?f"
      using request_amount_in [OF _ dep(1)] request_amount_in [OF _ dep(2)] refund_context_amounts [OF ok] by simp_all
    have inj: "inj_on deposit_key (set (t_deposits (s_db s)))"
      using inv by (simp add: db_ok_def coin_tables_ok_def distinct_map)
    have uniq: "r' = r" if "r' \<in> set (t_deposits (s_db s))" "deposit_key r' = refund_key_of d" for r'
      using inj_onD [OF inj _ that(1) r(1)] that(2) r(2) by simp
    have img: "refund_key_of d \<in> deposit_key ` set (t_deposits (s_db s))"
      "\<forall>q\<in>set (t_refunds (s_db s)). refund_key q \<noteq> refund_key_of d"
      using r(1,2) new image_iff by fastforce+
    have insert: "wp (postgres_insert_refund (teh_gnunet teh) d s2 \<bind> (\<lambda>(qs, s).
       Some ((qs, if qs = GNUNET_DB_STATUS_HARD_ERROR then Some (TALER_MHD_reply_with_error hc ec) else None, d), s))) ?Q"
      if u2: "unchanged s s2" and nd: "\<not> dp_done r" and le: "amt ?a \<le> sqlamt (dp_amount_with_fee r)" for s2 hc ec
      using insert_refund_wp [OF g unchanged_fresh(1) [OF s u2] a] ok new inv r nd le img
      by (intro insert_callback [OF s u2, of _ add_refund "new_refund d"
            "\<lambda>db. \<exists>r\<in>set (t_refunds db). refund_key r = refund_key_of d \<and> rd_rtransaction_id r = rle_rtransaction_id (ref_details d)"])
        (auto simp: refund_key_of_def [symmetric] refund_effect_def refund_refused_def intro!: db_ok_refund)
    have "wp (postgres_test_deposit_done (teh_gnunet teh) (coin_pub (ref_coin d)) (dle_merchant_pub dep) (dle_h_contract_terms dep)
          (dle_h_wire dep) s1) (\<lambda>qs s'. unchanged s s' \<and> (qs = - 1 \<or> qs = - 2 \<or> qs = (if dp_done r then 1 else 0)))"
      using unchanged_fresh(2) [OF s u] uniq dep(3,4)
      by (intro wp_mono [OF test_deposit_done_wp [OF g unchanged_fresh(1) [OF s u]]])
        (fastforce simp: refund_key_of_def intro: unchanged_trans [OF u])
    then show ?thesis
      unfolding refund_store_def
      using True
    proof (simp, elim wp_bindI, goal_cases)
      case (1 qs s2)
      then have u2: "unchanged s s2" by simp
      from 1 consider "qs = - 1" | "qs = - 2" | "qs = 1" "dp_done r" | "qs = 0" "\<not> dp_done r" by (auto split: if_splits)
      then show ?case
        using hard [OF u2] soft [OF u2] insert [OF u2] a dep r by cases (auto simp: sgn_if)
    qed
  qed
qed

lemma refund_callback:
  assumes ok: "refund_context_ok teh d" and s: "in_fresh_tx s" and inv: "db_ok (s_db s)"
  shows "wp (refund_transaction teh d s)
     (callback_ok db_ok (\<lambda>c. c = d \<and> refund_context_ok teh d) (\<lambda>c db c' db'. refund_effect d db db') (refund_refused d) d (s_db s))"
    (is "wp _ ?Q")
proof -
  let ?p = "coin_pub (ref_coin d)"
  have g: "gnunet_ok (teh_gnunet teh)" and pg: "pg_ok (teh_pg teh)" using ok by (auto simp: refund_context_ok_def teh_ok_def)
  have ct: "coin_tables_ok (s_db s)" using inv by (simp add: db_ok_def)
  obtain txs where h: "coin_history (teh_gnunet teh) (teh_pg teh) ?p False (s_db s) = Some txs"
    and hok: "history_ok (teh_currency teh) False (s_db s) ?p txs"
    using coin_history_ok [OF pg ct] by blast
  have tin: "tl_in (teh_currency teh) txs" using hok by (simp add: history_ok_def)
  have hard: "?Q (- 2, Some r, d) s'" if "unchanged s s'" "\<And>x. r \<noteq> reply_ok MHD_HTTP_OK x" for s' r
    using unchanged_fresh [OF s that(1)] that(2) ok by (simp add: callback_ok_def refund_refused_def)
  have soft: "?Q (- 1, None, d) s'" if "unchanged s s'" for s'
    using unchanged_fresh [OF s that] ok by (simp add: callback_ok_def)
  obtain dep f ref where scan: "scan_history (ref_details d) txs (None, GNUNET_NO, None) = (dep, f, ref)"
    by (cases "scan_history (ref_details d) txs (None, GNUNET_NO, None)")
  obtain hist where hist: "TEH_RESPONSE_compile_transaction_history (teh_crypto teh) (teh_sign_keys teh) ?p txs = Some hist"
    using compile_transaction_history_total [OF tin] by blast
  show ?thesis
    unfolding refund_transaction_def Let_def
  proof (rule coin_transactions_bind [OF g in_fresh_txD(1) [OF s] _ h], goal_cases)
    case (4 qs s1)
    note u = 4(1)
    show ?case
    proof (cases dep)
      case None
      with scan 4 hard [OF u] show ?thesis by simp
    next
      case (Some x)
      with scan_history_deposit [of "ref_details d" txs None 0 None x] scan obtain e where
        e: "e \<in> set txs" "tl_details e = TALER_EXCHANGEDB_TT_DEPOSIT x"
          "dle_merchant_pub x = rle_merchant_pub (ref_details d)" "dle_h_contract_terms x = rle_h_contract_terms (ref_details d)"
        by auto
      from hok e obtain r where r: "r \<in> set (t_deposits (s_db s))" "deposit_key r = refund_key_of d"
        "amt (dle_amount_with_fee x) = sqlamt (dp_amount_with_fee r)"
        by (fastforce simp: history_ok_def deposit_key_def refund_key_of_def)
      have ax: "amount_in (teh_currency teh) (dle_amount_with_fee x)" "amount_in (teh_currency teh) (dle_deposit_fee x)"
        using tin e(1,2) by (auto simp: tl_in_def)
      from scan_history_refund [OF scan] consider
          (conflict) "f = - 1"
        | (same) y e' where "f = 1" "ref = Some y" "e' \<in> set txs" "tl_details e' = TALER_EXCHANGEDB_TT_REFUND y"
            "rle_merchant_pub y = rle_merchant_pub (ref_details d)" "rle_h_contract_terms y = rle_h_contract_terms (ref_details d)"
            "rle_rtransaction_id y = rle_rtransaction_id (ref_details d)"
        | (new) "f = 0" "ref = None" "\<forall>e\<in>set txs. \<forall>y. tl_details e = TALER_EXCHANGEDB_TT_REFUND y \<longrightarrow>
            \<not> (rle_merchant_pub y = rle_merchant_pub (ref_details d) \<and> rle_h_contract_terms y = rle_h_contract_terms (ref_details d))"
        by auto
      then show ?thesis
      proof cases
        case conflict
        with Some scan 4 hist hard [OF u] show ?thesis by simp
      next
        case same
        have "amount_in (teh_currency teh) (rle_refund_amount y)" "amount_in (teh_currency teh) (rle_refund_fee y)"
          using tin same(3,4) by (auto simp: tl_in_def)
        then obtain rep where rep: "reply_refund_success teh ?p y = Some rep" by (rule reply_refund_success_total)
        have "refund_refused d (s_db s) (Some rep)"
          using coin_history_refund [OF h same(3,4)] same(5-7) by (auto simp: refund_refused_def refund_key_of_def)
        with same Some scan 4 rep unchanged_fresh [OF s u] ok show ?thesis by (simp add: callback_ok_def)
      next
        case new
        have "refund_key_of d \<notin> refund_key ` set (t_refunds (s_db s))"
        proof
          assume "refund_key_of d \<in> refund_key ` set (t_refunds (s_db s))"
          then obtain q where "q \<in> set (t_refunds (s_db s))" "refund_key q = refund_key_of d" by auto
          with hok new(3) show False
            by (fastforce simp: history_ok_def refund_key_def refund_key_of_def)
        qed
        from refund_store_callback [OF ok s inv u this ax e(3,4) r] new Some scan 4 show ?thesis by simp
      qed
    qed
  qed (use hard soft in \<open>simp_all add: unchanged_def\<close>)
qed

interpretation refund: db_transaction_replying "teh_gnunet teh" "refund_transaction teh" db_ok
    "\<lambda>c. c = d \<and> refund_context_ok teh d" "\<lambda>c db c' db'. refund_effect d db db'" "refund_refused d" for teh d
proof unfold_locales
  fix c s assume "c = d \<and> refund_context_ok teh d" "in_fresh_tx s" "db_ok (s_db s)"
  then show "wp (refund_transaction teh c s) (callback_ok db_ok (\<lambda>c. c = d \<and> refund_context_ok teh d)
    (\<lambda>c db c' db'. refund_effect d db db') (refund_refused d) c (s_db s))"
    by (elim conjE) (hypsubst, rule refund_callback)
qed (simp_all add: refund_refused_def refund_context_ok_def teh_ok_def)

section \<open>The whole request\<close>

text \<open>The refund fee of the request covers the one of the coin's denomination.\<close>

definition refund_fee_covered :: "TEH \<Rightarrow> TALER_EXCHANGEDB_Refund \<Rightarrow> tables \<Rightarrow> bool" where
  "refund_fee_covered teh d db \<longleftrightarrow> (\<exists>k\<in>set (t_known_coins db). kc_coin_pub k = coin_pub (ref_coin d) \<and>
     (\<exists>ks dki fee. teh_keys teh = Some ks \<and> teh_lookup teh ks (kc_denom_pub_hash k) TEH_KS_DKU_DEPOSIT = Inr dki
       \<and> teh_ntoh teh (dk_fee_refund (issue_properties dki)) = Some fee
       \<and> amt fee \<le> amt (rle_refund_fee (ref_details d))))"

definition refund_stored :: "TEH \<Rightarrow> TALER_EXCHANGEDB_Refund \<Rightarrow> tables \<Rightarrow> tables \<Rightarrow> bool" where
  "refund_stored teh d db db' \<longleftrightarrow> refund_effect d db db' \<and> refund_signed teh d = Some True
     \<and> refund_fee_covered teh d db
     \<and> amt (rle_refund_fee (ref_details d)) \<le> amt (rle_refund_amount (ref_details d))"

definition refund_answered ::
    "TEH \<Rightarrow> TALER_EXCHANGEDB_Refund \<Rightarrow> tables \<Rightarrow> exchange_reply reply option \<Rightarrow> tables session \<Rightarrow> bool" where
  "refund_answered teh d db r s' \<longleftrightarrow> r \<noteq> None \<and> idle s' \<and> db_ok (s_committed s')
     \<and> (s_committed s' = db \<or> refund_stored teh d db (s_committed s'))
     \<and> (\<forall>sig pub. r = Some (reply_ok MHD_HTTP_OK (REFUND_OK sig pub)) \<longrightarrow>
          (\<exists>q\<in>set (t_refunds (s_committed s')). refund_key q = refund_key_of d
             \<and> rd_rtransaction_id q = rle_rtransaction_id (ref_details d)))"

lemma refund_signed_total: "refund_context_ok teh d \<Longrightarrow> \<exists>b. refund_signed teh d = Some b"
  using hton_in [OF refund_context_amounts(3), of teh d "GNUNET_htonll (teh_crypto teh)"]
    hton_in [OF refund_context_amounts(4), of teh d "GNUNET_htonll (teh_crypto teh)"]
  by (auto simp: refund_signed_def Let_def)

lemma refund_execute_wp:
  assumes ok: "refund_context_ok teh d" and sig: "refund_signed teh d = Some True"
    and fee: "coin_known (s_committed s) (coin_pub (ref_coin d)) \<longrightarrow> refund_fee_covered teh d (s_committed s)"
    and le: "amt (rle_refund_fee (ref_details d)) \<le> amt (rle_refund_amount (ref_details d))"
    and s: "idle s" "db_ok (s_committed s)"
  shows "wp (TEH_DB_run_transaction (teh_gnunet teh) name (refund_transaction teh) d s \<bind> (\<lambda>((ret, mhd_ret, _), s).
       if ret \<noteq> GNUNET_OK then Some (mhd_ret, s)
       else reply_refund_success teh (coin_pub (ref_coin d)) (ref_details d) \<bind> (\<lambda>reply. Some (Some reply, s))))
     (refund_answered teh d (s_committed s))"
proof (rule wp_bindI [OF refund.run_transaction_wp [OF conjI [OF refl ok] s]], goal_cases)
  case (1 x s')
  obtain ret mhd_ret c where x: "x = (ret, mhd_ret, c)" by (cases x)
  obtain r where r: "reply_refund_success teh (coin_pub (ref_coin d)) (ref_details d) = Some r"
    using reply_refund_success_total [OF refund_context_amounts(3,4) [OF ok]] .
  consider "ret = 1" "mhd_ret = None" "refund_effect d (s_committed s) (s_committed s')"
    | "ret = - 1" "refund_refused d (s_committed s) mhd_ret" "s_committed s' = s_committed s"
    using 1 x by (auto simp: run_ok_def)
  then show ?case
  proof cases
    case 1
    from 1(3) obtain row where "new_refund d (s_committed s) row" "s_committed s' = add_refund row (s_committed s)"
      by (auto simp: refund_effect_def)
    then have "row \<in> set (t_refunds (s_committed s'))" "refund_key row = refund_key_of d"
      "rd_rtransaction_id row = rle_rtransaction_id (ref_details d)" "coin_known (s_committed s) (coin_pub (ref_coin d))"
      by (auto simp: new_refund_def new_refund_key)
    with 1 \<open>run_ok _ _ _ _ _ x s'\<close> x r sig fee le show ?thesis
      by (auto simp: refund_answered_def run_ok_def refund_stored_def)
  next
    case 2
    with \<open>run_ok _ _ _ _ _ x s'\<close> x show ?thesis
      by (auto simp: refund_answered_def run_ok_def refund_refused_def)
  qed
qed

text \<open>The denomination of a coin\<close>

definition denomination_found :: "tables \<Rightarrow> pub_key \<Rightarrow> int \<times> hash_code option \<Rightarrow> bool" where
  "denomination_found db p x \<longleftrightarrow> 0 > fst x
     \<or> x = (GNUNET_DB_STATUS_SUCCESS_NO_RESULTS, None) \<and> \<not> coin_known db p
     \<or> (\<exists>k\<in>set (t_known_coins db). kc_coin_pub k = p \<and> x = (GNUNET_DB_STATUS_SUCCESS_ONE_RESULT, Some (kc_denom_pub_hash k)))"

lemma get_coin_denomination_wp:
  assumes "gnunet_ok g" and "idle s"
  shows "wp (postgres_get_coin_denomination g p s) (\<lambda>x s'. idle s' \<and> s_committed s' = s_committed s
     \<and> denomination_found (s_committed s) p x)"
  unfolding postgres_get_coin_denomination_def
proof (rule wp_mono [OF pq_singleton_select_wp [OF assms(1) idle_session_ok [OF assms(2)]]], goal_cases)
  case (1 x s')
  have db: "s_db s = s_committed s" using assms(2) by (simp add: idle_def)
  have one: "\<exists>k\<in>set (t_known_coins (s_db s)). kc_coin_pub k = p \<and> kc_denom_pub_hash k = h"
    if "sql_get_coin_denomination p (s_db s) = [h]" for h
  proof -
    have "h \<in> set (sql_get_coin_denomination p (s_db s))" using that by simp
    then show ?thesis by (auto simp: sql_get_coin_denomination_def sql_get_known_coin_def)
  qed
  have "\<not> coin_known (s_db s) p" if "sql_get_coin_denomination p (s_db s) = []"
    using that by (auto simp: sql_get_coin_denomination_def sql_get_known_coin_def coin_known_def filter_empty_conv)
  with 1 assms(2) unchanged_idle [of s s'] one show ?case
    by (cases x) (auto simp: denomination_found_def db)
qed

lemma refund_verified_wpa:
  assumes ok: "refund_context_ok teh d" and s: "idle s" "db_ok (s_committed s)"
    and le: "amt (rle_refund_fee (ref_details d)) \<le> amt (rle_refund_amount (ref_details d))"
  shows "wpa (\<not> connected s) (verify_and_execute_refund teh d uninit s) (refund_answered teh d (s_committed s))"
proof -
  let ?p = "coin_pub (ref_coin d)" and ?f = "rle_refund_fee (ref_details d)"
  have teh: "teh_ok teh" and g: "gnunet_ok (teh_gnunet teh)" and f: "request_amount ?f"
    using ok refund_context_amounts [OF ok] by (auto simp: refund_context_ok_def teh_ok_def)
  have err: "refund_answered teh d (s_committed s) (Some (TALER_MHD_reply_with_error hc ec)) s'"
    if "idle s'" "s_committed s' = s_committed s" for hc ec s'
    using that s by (simp add: refund_answered_def)
  obtain b where b: "refund_signed teh d = Some b" using refund_signed_total [OF ok] by blast
  show ?thesis
  proof (cases b)
    case True
    with b have sig: "refund_signed teh d = Some True" by simp
    have w: "wpa (\<not> connected s) (with_thread_session (postgres_get_coin_denomination (teh_gnunet teh) ?p) s)
        (\<lambda>x s'. idle s' \<and> s_committed s' = s_committed s \<and> denomination_found (s_committed s) ?p x)"
      by (rule with_thread_session_wpa [OF s(1) imp_refl])
        (use wpaI [OF wp_mono [OF get_coin_denomination_wp [OF g]]] in fastforce)
    show ?thesis
      unfolding verify_and_execute_refund_def sig bind.bind_lunit if_False not_True_eq_False bind_assoc
    proof (rule wpa_bindI [OF w], goal_cases)
      case (1 x s1)
      then have s1: "idle s1" "s_committed s1 = s_committed s" and found: "denomination_found (s_committed s) ?p x" by auto
      obtain qs h where x: "x = (qs, h)" by (cases x)
      show ?case
      proof (cases "0 > qs \<or> teh_keys teh = None")
        case True
        with x err [OF s1] show ?thesis by auto
      next
        case False
        then obtain ks where ks: "teh_keys teh = Some ks" by auto
        let ?h = "case h of Some h \<Rightarrow> h | None \<Rightarrow> uninit"
        show ?thesis
        proof (cases "teh_lookup teh ks ?h TEH_KS_DKU_DEPOSIT")
          case (Inl e)
          with x ks False err [OF s1] show ?thesis by (cases e) (simp add: Let_def)
        next
          case (Inr dki)
          from denomination_okD(6) [OF lookup_denomination_ok [OF teh_okD(3) [OF teh ks] Inr]] obtain fee
            where fee: "teh_ntoh teh (dk_fee_refund (issue_properties dki)) = Some fee" "amount_in (teh_currency teh) fee"
            by blast
          have cov: "refund_fee_covered teh d (s_committed s)"
            if "amt fee \<le> amt ?f" "coin_known (s_committed s) ?p"
            using that False found x ks Inr fee by (auto simp: refund_fee_covered_def denomination_found_def)
          have fin: "amount_in (teh_currency teh) ?f" if "TALER_amount_cmp_currency fee ?f = GNUNET_YES"
            using request_amount_in [OF f fee(2)] that by (auto simp: cmp_currency_YES_iff dest: strcasecmp_eq_sym)
          show ?thesis
          proof (cases "TALER_amount_cmp_currency fee ?f = GNUNET_YES \<and> amt fee \<le> amt ?f")
            case True
            with wpaI [OF refund_execute_wp [OF ok sig _ le s1(1)]] s1 s(2) cov fee fin x ks Inr False
            show ?thesis by (simp add: Let_def sgn_if)
          next
            case False
            with \<open>\<not> (0 > qs \<or> _)\<close> fee fin x ks Inr err [OF s1] show ?thesis
              by (cases "TALER_amount_cmp_currency fee ?f = GNUNET_YES") (auto simp: Let_def)
          qed
        qed
      qed
    qed
  qed (use b err [OF s(1)] in \<open>simp add: verify_and_execute_refund_def\<close>)
qed

lemma refund_handler_wpa:
  assumes teh: "teh_ok teh" and req: "refund_request_ok d" and s: "idle s" "db_ok (s_committed s)"
  shows "wpa (\<not> connected s) (TEH_handler_refund teh d uninit s) (refund_answered teh d (s_committed s))"
proof -
  let ?a = "rle_refund_amount (ref_details d)" and ?f = "rle_refund_fee (ref_details d)"
  have err: "refund_answered teh d (s_committed s) (Some (TALER_MHD_reply_with_error hc ec)) s" for hc ec
    using s by (simp add: refund_answered_def)
  show ?thesis
  proof (cases "TALER_amount_cmp_currency ?a ?f = GNUNET_YES")
    case True
    with teh req have ok: "refund_context_ok teh d" by (simp add: refund_context_ok_def)
    with True refund_context_amounts(3,4) [OF ok] err refund_verified_wpa [OF ok s] show ?thesis
      by (cases "amt ?f \<le> amt ?a") (auto simp: TEH_handler_refund_def)
  qed (simp add: TEH_handler_refund_def err)
qed

text \<open>The exception is real: without a connection, a refund request that is signed does not get any further.\<close>

lemma refund_unconnected_crashes:
  assumes "\<not> connected s" and "refund_context_ok teh d" and "refund_signed teh d = Some True"
    and "amt (rle_refund_fee (ref_details d)) \<le> amt (rle_refund_amount (ref_details d))"
  shows "TEH_handler_refund teh d uninit s = None"
  using assms(2-) refund_context_amounts(3,4) [OF assms(2)]
  by (simp add: TEH_handler_refund_def verify_and_execute_refund_def refund_context_ok_def sgn_if
      with_thread_session_unconnected [OF assms(1)])

section \<open>Property\<close>

text \<open>C10. Whatever the request and whatever errors the database reports, a refund request is answered, with one exception: if the thread
  cannot connect to the database, the denomination of the coin is looked up with a null session and the exchange may crash. It keeps the
  integrity of the database. Either the database stays as it is, or exactly one refund is stored: the first for a
  deposit of that coin to that merchant for that contract, not above the deposit, which was not paid out yet, signed by the merchant,
  with a refund fee that covers the one of the coin's denomination. If the refund is confirmed, it is in the database
  under the transaction id of the request. Nothing is assumed of the request but that its amounts are normalized, as the
  parser leaves them.\<close>

theorem refund_request_safe:
  assumes "teh_ok teh" and "refund_request_ok d" and "idle s" and "db_ok (s_committed s)"
  shows "case TEH_handler_refund teh d uninit s of
       None \<Rightarrow> \<not> connected s
     | Some (reply, s') \<Rightarrow> reply \<noteq> None \<and> idle s' \<and> db_ok (s_committed s')
         \<and> (s_committed s' = s_committed s \<or> refund_stored teh d (s_committed s) (s_committed s'))
         \<and> ((\<exists>sig pub. reply = Some (reply_ok MHD_HTTP_OK (REFUND_OK sig pub))) \<longrightarrow>
              (\<exists>q\<in>set (t_refunds (s_committed s')). refund_key q = refund_key_of d
                 \<and> rd_rtransaction_id q = rle_rtransaction_id (ref_details d)))"
  using refund_handler_wpa [OF assms, of uninit] by (auto simp: wpa_def refund_answered_def split: option.splits)

definition sample_refund_request :: TALER_EXCHANGEDB_Refund where
  "sample_refund_request = \<lparr>ref_coin = \<lparr>coin_pub = 20, coin_denom_pub_hash = 7, coin_denom_sig = 27\<rparr>,
     ref_details = \<lparr>rle_merchant_pub = 50, rle_merchant_sig = 50, rle_h_contract_terms = 51, rle_rtransaction_id = 1,
       rle_refund_amount = mk_amount ''EUR'' 3 0, rle_refund_fee = mk_amount ''EUR'' 1 0\<rparr>\<rparr>"

theorem refund_request_safe_witness:
  "\<exists>reply s'. TEH_handler_refund sample_teh sample_refund_request 0 (sample_idle sample_deposit_db [PQ_RUN, PQ_SOFT])
       = Some (Some reply, s') \<and> idle s' \<and> db_ok (s_committed s')"
proof -
  have "refund_request_ok sample_refund_request"
    using mk_amount_in_EUR [of 0 3] mk_amount_in_EUR [of 0 1]
    by (simp add: refund_request_ok_def sample_refund_request_def request_amount_def amount_in_def amount_wf_def)
  moreover have "connected (sample_idle sample_deposit_db [PQ_RUN, PQ_SOFT])"
    by (simp add: connected_def postgres_get_session_def next_outcome_def sample_idle_def)
  ultimately show ?thesis
    using refund_request_safe [OF sample_teh_ok(1), of sample_refund_request "sample_idle sample_deposit_db [PQ_RUN, PQ_SOFT]" 0]
    by (auto simp: db_ok_def sample_deposit_db_ok split: option.splits)
qed

end
