(* ===== verification/Recoup.thy ===== *)
theory Recoup
  imports Undisturbed
begin

text \<open>
  \<^verbatim>\<open>src/exchange/taler-exchange-httpd_recoup.c\<close>: what is left of a coin of a revoked denomination
  goes back to where the coin came from, the reserve it was withdrawn from or the old coin it was
  refreshed from.
\<close>

section \<open>The request\<close>

text \<open>The two members of the union \<^verbatim>\<open>target\<close> are both public keys. The context also has the times that
  the clock will show.\<close>

record RecoupContext =
  pc_h_blind :: hash_code
  pc_value :: TALER_Amount
  pc_coin :: TALER_CoinPublicInfo
  pc_coin_bks :: blinding_key
  pc_coin_sig :: signature
  pc_target :: pub_key
  pc_amount :: TALER_Amount
  pc_now :: abs_time
  pc_refreshed :: bool
  pc_clock :: "nat \<Rightarrow> abs_time"

fun is_recoup :: "TALER_EXCHANGEDB_TransactionDetails \<Rightarrow> bool" where
  "is_recoup (TALER_EXCHANGEDB_TT_RECOUP _) = True"
| "is_recoup (TALER_EXCHANGEDB_TT_RECOUP_REFRESH _) = True"
| "is_recoup _ = False"

text \<open>The last part of the transaction: the recoup is stored.\<close>

definition recoup_store :: "TEH \<Rightarrow> (RecoupContext, exchange_reply, tables) transaction" where
  "recoup_store teh pc s = do {
     let g = teh_gnunet teh;
     let pc = pc\<lparr>pc_now := GNUNET_TIME_round_abs g (pc_clock pc 0), pc_clock := \<lambda>i. pc_clock pc (Suc i)\<rparr>;
     (qs, s) \<leftarrow> (if pc_refreshed pc
                 then postgres_insert_recoup_refresh_request g (pc_coin pc) (pc_coin_sig pc) (pc_coin_bks pc) (pc_amount pc)
                        (pc_h_blind pc) (pc_now pc) s
                 else postgres_insert_recoup_request g (teh_pg teh) (pc_target pc) (pc_coin pc) (pc_coin_sig pc)
                        (pc_coin_bks pc) (pc_amount pc) (pc_h_blind pc) (pc_now pc) s);
     if 0 > qs
     then Some ((qs, if qs = GNUNET_DB_STATUS_HARD_ERROR
                     then Some (TALER_MHD_reply_with_error MHD_HTTP_INTERNAL_SERVER_ERROR TALER_EC_RECOUP_DB_PUT_FAILED)
                     else None, pc), s)
     else Some ((GNUNET_DB_STATUS_SUCCESS_ONE_RESULT, None, pc), s)
   }"

text \<open>The middle part: what is left of the coin, recoups included\<close>

definition recoup_balance :: "TEH \<Rightarrow> (RecoupContext, exchange_reply, tables) transaction" where
  "recoup_balance teh pc s = do {
     let pub = coin_pub (pc_coin pc);
     ((qs, tl), s) \<leftarrow> postgres_get_coin_transactions (teh_gnunet teh) (teh_pg teh) pub True s;
     if 0 > qs
     then Some ((qs, if qs = GNUNET_DB_STATUS_HARD_ERROR
                     then Some (TALER_MHD_reply_with_error MHD_HTTP_INTERNAL_SERVER_ERROR TALER_EC_RECOUP_DB_FETCH_FAILED)
                     else None, pc), s)
     else do {
       let (r, spent) = TALER_amount_get_zero (amt_currency (pc_value pc)) invalidate;
       GNUNET_assert (r = GNUNET_OK);
       (r, spent) \<leftarrow> TALER_EXCHANGEDB_calculate_transaction_list_totals tl spent spent;
       if r \<noteq> GNUNET_OK
       then Some ((GNUNET_DB_STATUS_HARD_ERROR,
                   Some (TALER_MHD_reply_with_error MHD_HTTP_INTERNAL_SERVER_ERROR TALER_EC_RECOUP_HISTORY_DB_ERROR), pc), s)
       else do {
         (r, amount) \<leftarrow> TALER_amount_subtract (pc_amount pc) (pc_value pc) spent;
         let pc = pc\<lparr>pc_amount := amount\<rparr>;
         if 0 > r
         then Some ((GNUNET_DB_STATUS_HARD_ERROR,
                     Some (TALER_MHD_reply_with_error MHD_HTTP_INTERNAL_SERVER_ERROR
                             TALER_EC_RECOUP_COIN_BALANCE_NEGATIVE), pc), s)
         else if amt_fraction amount = 0 \<and> amt_value amount = 0
         then do {
           let s = postgres_rollback s;
           if \<not> (\<exists>pos\<in>set tl. is_recoup (tl_details pos))
           then do {
             mhd_ret \<leftarrow> TEH_RESPONSE_reply_coin_insufficient_funds (teh_crypto teh) (teh_sign_keys teh)
                          TALER_EC_RECOUP_COIN_BALANCE_ZERO pub tl;
             Some ((GNUNET_DB_STATUS_HARD_ERROR, Some mhd_ret, pc), s)
           }
           else Some ((GNUNET_DB_STATUS_SUCCESS_NO_RESULTS, None, pc), s)
         }
         else recoup_store teh pc s
       }
     }
   }"

definition recoup_transaction :: "TEH \<Rightarrow> (RecoupContext, exchange_reply, tables) transaction" where
  "recoup_transaction teh pc s = do {
     ((qs, target), s) \<leftarrow> (if pc_refreshed pc
                            then postgres_get_old_coin_by_h_blind (teh_gnunet teh) (pc_h_blind pc) s
                            else postgres_get_reserve_by_h_blind (teh_gnunet teh) (pc_h_blind pc) s);
     let pc = (case target of None \<Rightarrow> pc | Some target \<Rightarrow> pc\<lparr>pc_target := target\<rparr>);
     if 0 > qs
     then Some ((qs, if qs = GNUNET_DB_STATUS_HARD_ERROR
                     then Some (TALER_MHD_reply_with_error MHD_HTTP_INTERNAL_SERVER_ERROR TALER_EC_RECOUP_DB_FETCH_FAILED)
                     else None, pc), s)
     else if qs = GNUNET_DB_STATUS_SUCCESS_NO_RESULTS
     then Some ((GNUNET_DB_STATUS_HARD_ERROR,
                 Some (TALER_MHD_reply_with_error MHD_HTTP_NOT_FOUND TALER_EC_RECOUP_WITHDRAW_NOT_FOUND), pc), s)
     else recoup_balance teh pc s
   }"

text \<open>A request\<close>

record recoup_request =
  rr_coin :: TALER_CoinPublicInfo
  rr_coin_bks :: blinding_key
  rr_coin_sig :: signature
  rr_refreshed :: bool

text \<open>The checks on the denomination and the signatures, which yield the value of the coin and the hash of its
  envelope\<close>

definition recoup_check :: "TEH \<Rightarrow> recoup_request \<Rightarrow> (exchange_reply reply + TALER_Amount \<times> hash_code) option" where
  "recoup_check teh req =
     (let cr = teh_crypto teh; coin = rr_coin req in
      case teh_keys teh of
        None \<Rightarrow> Some (Inl (TALER_MHD_reply_with_error MHD_HTTP_INTERNAL_SERVER_ERROR TALER_EC_EXCHANGE_BAD_CONFIGURATION))
      | Some key_state \<Rightarrow>
     (case teh_lookup teh key_state (coin_denom_pub_hash coin) TEH_KS_DKU_RECOUP of
        Inl (ec, hc) \<Rightarrow> Some (Inl (TALER_MHD_reply_with_error hc ec))
      | Inr dki \<Rightarrow> do {
          coin_value \<leftarrow> teh_ntoh teh (dk_value (issue_properties dki));
          valid \<leftarrow> TALER_test_coin_valid cr coin (denom_pub dki);
          if valid \<noteq> GNUNET_YES
          then Some (Inl (TALER_MHD_reply_with_error MHD_HTTP_FORBIDDEN TALER_EC_RECOUP_DENOMINATION_SIGNATURE_INVALID))
          else if \<not> GNUNET_CRYPTO_eddsa_verify cr (TALER_RecoupRequestPS (coin_pub coin) (dk_denom_hash (issue_properties dki))
                       (rr_coin_bks req)) (rr_coin_sig req) (coin_pub coin)
          then Some (Inl (TALER_MHD_reply_with_error MHD_HTTP_FORBIDDEN TALER_EC_RECOUP_SIGNATURE_INVALID))
          else case GNUNET_CRYPTO_rsa_blind cr (GNUNET_CRYPTO_hash_key cr (coin_pub coin)) (rr_coin_bks req) (denom_pub dki) of
            None \<Rightarrow> Some (Inl (TALER_MHD_reply_with_error MHD_HTTP_INTERNAL_SERVER_ERROR TALER_EC_RECOUP_BLINDING_FAILED))
          | Some coin_ev \<Rightarrow> Some (Inr (coin_value, GNUNET_CRYPTO_hash_data cr coin_ev))
        }))"

text \<open>The context starts with \<open>uninit\<close> in the fields that the transaction sets.\<close>

definition verify_and_execute_recoup ::
    "TEH \<Rightarrow> recoup_request \<Rightarrow> RecoupContext \<Rightarrow> tables session \<Rightarrow> (exchange_reply reply option \<times> tables session) option" where
  "verify_and_execute_recoup teh req uninit s = do {
     x \<leftarrow> recoup_check teh req;
     case x of
       Inl reply \<Rightarrow> Some (Some reply, s)
     | Inr (coin_value, h_blind) \<Rightarrow> do {
         ((ret, mhd_ret, _), s) \<leftarrow> TEH_DB_run_transaction (teh_gnunet teh) ''know coin for recoup''
            (TEH_DB_know_coin_transaction (teh_gnunet teh)) (rr_coin req) s;
         if ret \<noteq> GNUNET_OK then Some (mhd_ret, s)
         else do {
           let pc = uninit\<lparr>pc_h_blind := h_blind, pc_value := coin_value, pc_coin := rr_coin req, pc_coin_bks := rr_coin_bks req,
                           pc_coin_sig := rr_coin_sig req, pc_refreshed := rr_refreshed req\<rparr>;
           ((ret, mhd_ret, pc), s) \<leftarrow> TEH_DB_run_transaction (teh_gnunet teh) ''run recoup'' (recoup_transaction teh) pc s;
           if ret \<noteq> GNUNET_OK then Some (mhd_ret, s)
           else Some (Some (reply_ok MHD_HTTP_OK (RECOUP_OK (pc_target pc) (rr_refreshed req))), s)
         }
       }
   }"

text \<open>The handler parses the request and passes it on.\<close>

definition TEH_handler_recoup ::
    "TEH \<Rightarrow> recoup_request \<Rightarrow> RecoupContext \<Rightarrow> tables session \<Rightarrow> (exchange_reply reply option \<times> tables session) option" where
  "TEH_handler_recoup teh req uninit s = verify_and_execute_recoup teh req uninit s"

section \<open>The transaction\<close>

definition recoup_context_ok :: "TEH \<Rightarrow> RecoupContext \<Rightarrow> bool" where
  "recoup_context_ok teh pc \<longleftrightarrow> teh_ok teh \<and> amount_in (teh_currency teh) (pc_value pc)"

text \<open>The transaction changes the target, the amount and the time.\<close>

definition recoup_same :: "RecoupContext \<Rightarrow> RecoupContext \<Rightarrow> bool" where
  "recoup_same pc c \<longleftrightarrow> pc_h_blind c = pc_h_blind pc \<and> pc_value c = pc_value pc \<and> pc_coin c = pc_coin pc
     \<and> pc_refreshed c = pc_refreshed pc"

text \<open>Where a coin came from\<close>

definition envelope_of :: "bool \<Rightarrow> tables \<Rightarrow> pub_key \<Rightarrow> hash_code \<Rightarrow> bool" where
  "envelope_of refreshed db target h = (if refreshed then blind_of_old_coin db target h else blind_of_reserve db target h)"

definition recoup_added :: "RecoupContext \<Rightarrow> int \<Rightarrow> tables \<Rightarrow> tables \<Rightarrow> bool" where
  "recoup_added pc a db db' = (if pc_refreshed pc
     then \<exists>row. new_recoup_refresh (coin_pub (pc_coin pc)) a (pc_h_blind pc) db row \<and> db' = add_recoup_refresh row db
     else recoup_effect (pc_target pc) (coin_pub (pc_coin pc)) (pc_h_blind pc) a db db')"

text \<open>All that is left of the coin is paid back to where it came from.\<close>

definition recoup_done :: "RecoupContext \<Rightarrow> tables \<Rightarrow> tables \<Rightarrow> bool" where
  "recoup_done pc db db' \<longleftrightarrow> envelope_of (pc_refreshed pc) db (pc_target pc) (pc_h_blind pc)
     \<and> (let a = amt (pc_value pc) - coin_spent True db (coin_pub (pc_coin pc))
        in a = 0 \<and> db' = db \<or> 0 < a \<and> recoup_added pc a db db')"

definition recoup_refused :: "exchange_reply reply option \<Rightarrow> bool" where
  "recoup_refused mhd_ret \<longleftrightarrow> mhd_ret \<noteq> None \<and> (\<forall>x. mhd_ret \<noteq> Some (reply_ok MHD_HTTP_OK x))"

lemma recoup_added_ok:
  assumes "recoup_added pc a db db'" and "db_ok db"
  shows "db_ok db'"
proof (cases "pc_refreshed pc")
  case True
  then obtain row where "new_recoup_refresh (coin_pub (pc_coin pc)) a (pc_h_blind pc) db row" "db' = add_recoup_refresh row db"
    using assms(1) by (auto simp: recoup_added_def)
  then show ?thesis
    using assms(2) by (auto simp: db_ok_def new_recoup_refresh_def intro: coin_tables_ok_recoup_refresh)
next
  case False
  then obtain row e gc b where db': "db' = reserve_set e gc b (pc_target pc) (db\<lparr>t_recoup := t_recoup db @ [row]\<rparr>)"
    and ok: "reserve_tables_ok db'" "reserves_ok db'"
    using assms(1) by (auto simp: recoup_added_def recoup_effect_def)
  have "coin_tables_ok db'"
    using assms(2) ok(1) unfolding db' db_ok_def coin_tables_ok_def by (simp add: coin_known_def denom_known_def)
  with ok show ?thesis by (simp add: db_ok_def)
qed

lemma tx_kept_committed: "tx_kept s s' \<Longrightarrow> s_in_tx s \<Longrightarrow> s_committed s' = s_committed s"
  by (simp add: tx_kept_def)

lemma recoup_store_callback:
  assumes ok: "recoup_context_ok teh pc" and same: "recoup_same pc0 pc" and s: "in_fresh_tx s" and u: "unchanged s s1"
    and inv: "db_ok (s_db s)" and env: "envelope_of (pc_refreshed pc) (s_db s) (pc_target pc) (pc_h_blind pc)"
    and a: "amount_in (teh_currency teh) (pc_amount pc)" "0 < amt (pc_amount pc)"
      "amt (pc_amount pc) = amt (pc_value pc) - coin_spent True (s_db s) (coin_pub (pc_coin pc))"
  shows "wp (recoup_store teh pc s1)
     (callback_ok db_ok (\<lambda>c. recoup_same pc0 c \<and> recoup_context_ok teh c) (\<lambda>c db c' db'. recoup_done c' db db')
        (\<lambda>db. recoup_refused) c (s_db s))" (is "wp _ ?Q")
proof -
  have g: "gnunet_ok (teh_gnunet teh)" and pg: "pg_ok (teh_pg teh)" using ok by (auto simp: recoup_context_ok_def teh_ok_def)
  note f = unchanged_fresh [OF s u]
  define c' where "c' = pc\<lparr>pc_now := GNUNET_TIME_round_abs (teh_gnunet teh) (pc_clock pc 0),
     pc_clock := \<lambda>i. pc_clock pc (Suc i)\<rparr>"
  have c': "recoup_same pc0 c'" "recoup_context_ok teh c'" "pc_refreshed c' = pc_refreshed pc" "pc_target c' = pc_target pc"
    "pc_coin c' = pc_coin pc" "pc_h_blind c' = pc_h_blind pc" "pc_value c' = pc_value pc" "pc_amount c' = pc_amount pc"
    "GNUNET_TIME_round_abs (teh_gnunet teh) (pc_now c') = pc_now c'"
    using ok same round_round [OF g] by (simp_all add: c'_def recoup_same_def recoup_context_ok_def)
  have err: "?Q (- 1, None, c') s'" "?Q (- 2, Some (TALER_MHD_reply_with_error hc ec), c') s'"
    if "s_committed s' = s_db s" for s' hc ec
    using that c' by (simp_all add: callback_ok_def recoup_refused_def)
  have stored: "?Q (1, None, c') s'" if "updated s1 db s'" "recoup_added c' (amt (pc_amount pc)) (s_db s) db" for db s'
  proof -
    have "tx_outcome s' = db" "s_committed s' = s_db s" using that(1) f by (auto simp: tx_outcome_def updated_def)
    moreover have "recoup_done c' (s_db s) db" using that(2) env a by (simp add: recoup_done_def c' Let_def)
    ultimately show ?thesis using c' recoup_added_ok [OF that(2) inv] by (simp add: callback_ok_def)
  qed
  show ?thesis
  proof (cases "pc_refreshed pc")
    case True
    show ?thesis
      unfolding recoup_store_def Let_def c'_def [symmetric] c'(3) if_P [OF True]
    proof (rule wp_bindI [OF insert_recoup_refresh_wp [OF g f(1) a(1) [folded c'(8)] c'(9)]], goal_cases)
      case (1 qs s')
      then consider row where "qs = 1" "new_recoup_refresh (coin_pub (pc_coin c')) (amt (pc_amount c')) (pc_h_blind c') (s_db s) row"
          "updated s1 (add_recoup_refresh row (s_db s)) s'"
        | "qs = - 1 \<or> qs = - 2" "unchanged s1 s'"
        using f(2) by (auto simp: insert_ok_def)
      then show ?case
      proof cases
        case 1
        then have "recoup_added c' (amt (pc_amount pc)) (s_db s) (add_recoup_refresh row (s_db s))"
          using True by (auto simp: recoup_added_def c')
        with 1 stored show ?thesis by simp
      qed (use err f in \<open>auto simp: unchanged_def\<close>)
    qed
  next
    case False
    have b: "blind_of_reserve (s_db s1) (pc_target c') (pc_h_blind c')" using env False f(2) by (simp add: envelope_of_def c')
    have db: "reserves_ok (s_db s1)" "reserve_tables_ok (s_db s1)" using inv f(2) by (auto simp: db_ok_def coin_tables_ok_def)
    show ?thesis
      unfolding recoup_store_def Let_def c'_def [symmetric] c'(3) if_not_P [OF False]
    proof (rule wp_bindI [OF insert_recoup_request_wp [OF g f(1,4) pg db a(1) [folded c'(8)] c'(9) b]], goal_cases)
      case (1 qs s')
      then consider db where "qs = 1" "updated s1 db s'"
          "recoup_effect (pc_target c') (coin_pub (pc_coin c')) (pc_h_blind c') (amt (pc_amount c')) (s_db s) db"
        | "op_failed s1 qs s'"
        using f(2) by auto
      then show ?case
      proof cases
        case 1
        then have "recoup_added c' (amt (pc_amount pc)) (s_db s) db" using False by (simp add: recoup_added_def c')
        with 1 stored show ?thesis by simp
      qed (use err f in \<open>auto simp: op_failed_def dest: tx_kept_committed\<close>)
    qed
  qed
qed

lemma amount_zero_iff: "amt_fraction a = 0 \<and> amt_value a = 0 \<longleftrightarrow> amt a = 0"
  using amt_eq_0_iff [of a] by auto

lemma recoup_balance_callback:
  assumes ok: "recoup_context_ok teh pc" and same: "recoup_same pc0 pc" and s: "in_fresh_tx s" and u: "unchanged s s1"
    and inv: "db_ok (s_db s)" and env: "envelope_of (pc_refreshed pc) (s_db s) (pc_target pc) (pc_h_blind pc)"
  shows "wp (recoup_balance teh pc s1)
     (callback_ok db_ok (\<lambda>c. recoup_same pc0 c \<and> recoup_context_ok teh c) (\<lambda>c db c' db'. recoup_done c' db db')
        (\<lambda>db. recoup_refused) c (s_db s))" (is "wp _ ?Q")
proof -
  let ?p = "coin_pub (pc_coin pc)"
  have g: "gnunet_ok (teh_gnunet teh)" and pg: "pg_ok (teh_pg teh)" and v: "amount_in (teh_currency teh) (pc_value pc)"
    using ok by (auto simp: recoup_context_ok_def teh_ok_def)
  have ct: "coin_tables_ok (s_db s)" using inv by (simp add: db_ok_def)
  obtain txs where h: "coin_history (teh_gnunet teh) (teh_pg teh) ?p True (s_db s) = Some txs"
    and hok: "history_ok (teh_currency teh) True (s_db s) ?p txs"
    using coin_history_ok [OF pg ct] by blast
  have tin: "tl_in (teh_currency teh) txs" using hok by (simp add: history_ok_def)
  obtain z where z: "TALER_amount_get_zero (amt_currency (pc_value pc)) invalidate = (GNUNET_OK, z)"
    "amount_in (teh_currency teh) z" "amt z = 0"
    using get_zero_in [OF v] .
  have hard: "?Q (- 2, Some r, pc\<lparr>pc_amount := b\<rparr>) s'" "?Q (- 2, Some r, pc) s'"
    if "s_committed s' = s_db s" "\<And>x. r \<noteq> reply_ok MHD_HTTP_OK x" for s' r b
    using that ok same by (simp_all add: callback_ok_def recoup_refused_def recoup_same_def recoup_context_ok_def)
  show ?thesis
    unfolding recoup_balance_def Let_def
  proof (rule coin_transactions_bind [OF g in_fresh_txD(1) [OF s] u h], goal_cases)
    case (3 qs s2)
    note u2 = 3(1)
    have c2: "s_committed s2 = s_db s" using unchanged_fresh [OF s u2] by simp
    have c3: "s_committed (postgres_rollback s2) = s_db s" "\<not> s_in_tx (postgres_rollback s2)"
      using rollback_idle [of s2] c2 by (auto simp: idle_def)
    obtain rep where rep: "TEH_RESPONSE_reply_coin_insufficient_funds (teh_crypto teh) (teh_sign_keys teh)
        TALER_EC_RECOUP_COIN_BALANCE_ZERO ?p txs = Some rep" "\<And>x. rep \<noteq> reply_ok MHD_HTTP_OK x"
      using insufficient_no_success [OF tin] by metis
    have rest: "wp (TALER_amount_subtract (pc_amount pc) (pc_value pc) t \<bind> (\<lambda>(r, amount).
        if 0 > r then Some ((- 2, Some (TALER_MHD_reply_with_error hc ec), pc\<lparr>pc_amount := amount\<rparr>), s2)
        else if amt_fraction amount = 0 \<and> amt_value amount = 0
        then if \<not> (\<exists>pos\<in>set txs. is_recoup (tl_details pos))
             then TEH_RESPONSE_reply_coin_insufficient_funds (teh_crypto teh) (teh_sign_keys teh)
                    TALER_EC_RECOUP_COIN_BALANCE_ZERO ?p txs \<bind> (\<lambda>mhd_ret.
                    Some ((- 2, Some mhd_ret, pc\<lparr>pc_amount := amount\<rparr>), postgres_rollback s2))
             else Some ((0, None, pc\<lparr>pc_amount := amount\<rparr>), postgres_rollback s2)
        else recoup_store teh (pc\<lparr>pc_amount := amount\<rparr>) s2)) ?Q"
      if t: "amount_in (teh_currency teh) t" "amt t = coin_spent True (s_db s) ?p" for t hc ec
    proof (rule wp_bindI [OF amount_subtract_wp [OF v t(1)]], goal_cases)
      case (1 r b)
      consider "0 > r" | "0 \<le> r" "amt b = 0" | "0 \<le> r" "amt b \<noteq> 0" by linarith
      then show ?case
      proof cases
        case 1
        with hard [OF c2] show ?thesis by simp
      next
        case 2
        with 1 t have "coin_spent True (s_db s) ?p = amt (pc_value pc)" by auto
        then have "recoup_done (pc\<lparr>pc_amount := b\<rparr>) (s_db s) (s_db s)" using env by (simp add: recoup_done_def)
        moreover have "tx_outcome (postgres_rollback s2) = s_db s" using c3 by (simp add: tx_outcome_def)
        ultimately have "?Q (0, None, pc\<lparr>pc_amount := b\<rparr>) (postgres_rollback s2)"
          using c3 ok same inv by (simp add: callback_ok_def recoup_same_def recoup_context_ok_def)
        with 2 rep hard [OF c3(1) rep(2)] show ?thesis by (simp add: amount_zero_iff)
      next
        case 3
        have "wp (recoup_store teh (pc\<lparr>pc_amount := b\<rparr>) s2) ?Q"
          using ok same env 1 3 t amt_nonneg [of b]
          by (intro recoup_store_callback [OF _ _ s u2 inv]) (auto simp: recoup_context_ok_def recoup_same_def)
        with 3 show ?thesis by (simp add: amount_zero_iff)
      qed
    qed
    have qs: "\<not> 0 > qs" using 3 by simp
    show ?case
      unfolding prod.case if_not_P [OF qs] z(1) GNUNET_assert_bind simp_thms if_True
    proof (rule coin_totals_bind [OF hok z(2)], unfold prod.case, goal_cases)
      case (1 t)
      show ?case using hard(2) [OF c2] by simp
    next
      case (2 t)
      then have "amt t = coin_spent True (s_db s) ?p" using z(3) by simp
      from rest [OF 2(1) this] show ?case by simp
    qed
  next
    case (1 s2)
    with ok same unchanged_fresh(3) [OF s 1] show ?case by (simp add: callback_ok_def)
  next
    case (2 s2)
    with hard(2) [OF unchanged_fresh(3) [OF s 2]] show ?case by simp
  qed
qed

text \<open>The lookup of the target\<close>

lemma take_1_in: "take 1 xs = [x] \<Longrightarrow> x \<in> set xs"
  by (cases xs) auto

lemma reserve_by_h_blind_mem: "sql_reserve_by_h_blind h db = [t] \<Longrightarrow> blind_of_reserve db t h"
  unfolding sql_reserve_by_h_blind_def by (drule take_1_in) (auto simp: blind_of_reserve_def split: if_splits)

lemma old_coin_by_h_blind_mem: "sql_old_coin_by_h_blind h db = [t] \<Longrightarrow> blind_of_old_coin db t h"
  unfolding sql_old_coin_by_h_blind_def by (drule take_1_in) (auto simp: blind_of_old_coin_def split: if_splits)

lemma recoup_target_wp:
  assumes "gnunet_ok g" and "session_ok s"
  shows "wp (if refreshed then postgres_get_old_coin_by_h_blind g h s else postgres_get_reserve_by_h_blind g h s)
     (\<lambda>(qs, target) s'. unchanged s s' \<and> (qs = - 1 \<and> target = None \<or> qs = - 2 \<and> target = None \<or> qs = 0 \<and> target = None
        \<or> (\<exists>t. qs = 1 \<and> target = Some t \<and> envelope_of refreshed (s_db s) t h)))"
  unfolding postgres_get_old_coin_by_h_blind_def postgres_get_reserve_by_h_blind_def
  using pq_singleton_select_wp [OF assms, of "sql_old_coin_by_h_blind h"]
    pq_singleton_select_wp [OF assms, of "sql_reserve_by_h_blind h"]
  by (cases refreshed) (auto elim!: wp_mono simp: envelope_of_def intro: old_coin_by_h_blind_mem reserve_by_h_blind_mem)

lemma recoup_callback:
  assumes ok: "recoup_context_ok teh pc" and same: "recoup_same pc0 pc" and s: "in_fresh_tx s" and inv: "db_ok (s_db s)"
  shows "wp (recoup_transaction teh pc s)
     (callback_ok db_ok (\<lambda>c. recoup_same pc0 c \<and> recoup_context_ok teh c) (\<lambda>c db c' db'. recoup_done c' db db')
        (\<lambda>db. recoup_refused) pc (s_db s))" (is "wp _ ?Q")
proof -
  have g: "gnunet_ok (teh_gnunet teh)" using ok by (auto simp: recoup_context_ok_def teh_ok_def)
  have err: "?Q (- 2, Some (TALER_MHD_reply_with_error hc ec), pc) s'" "?Q (- 1, None, pc) s'" if "unchanged s s'" for s' hc ec
    using unchanged_fresh [OF s that] ok same by (simp_all add: callback_ok_def recoup_refused_def)
  show ?thesis
    unfolding recoup_transaction_def
  proof (rule wp_bindI [OF recoup_target_wp [OF g in_fresh_txD(1) [OF s]]], goal_cases)
    case (1 x s1)
    then obtain qs target where x: "x = (qs, target)" and u: "unchanged s s1"
      and cases: "qs = - 1 \<and> target = None \<or> qs = - 2 \<and> target = None \<or> qs = 0 \<and> target = None
        \<or> (\<exists>t. qs = 1 \<and> target = Some t \<and> envelope_of (pc_refreshed pc) (s_db s) t (pc_h_blind pc))"
      by auto
    have main: "wp (recoup_balance teh (pc\<lparr>pc_target := t\<rparr>) s1) ?Q"
      if "envelope_of (pc_refreshed pc) (s_db s) t (pc_h_blind pc)" for t
      using that ok same
      by (intro recoup_balance_callback [OF _ _ s u inv]) (auto simp: recoup_context_ok_def recoup_same_def)
    from cases show ?case
      using x err [OF u] main by (elim disjE exE conjE) simp_all
  qed
qed

interpretation recoup: db_transaction_replying "teh_gnunet teh" "recoup_transaction teh" db_ok
    "\<lambda>c. recoup_same pc c \<and> recoup_context_ok teh c" "\<lambda>c db c' db'. recoup_done c' db db'" "\<lambda>db. recoup_refused" for teh pc
proof unfold_locales
  fix c s assume "recoup_same pc c \<and> recoup_context_ok teh c" "in_fresh_tx s" "db_ok (s_db s)"
  then show "wp (recoup_transaction teh c s) (callback_ok db_ok (\<lambda>c. recoup_same pc c \<and> recoup_context_ok teh c)
    (\<lambda>c db c' db'. recoup_done c' db db') (\<lambda>db. recoup_refused) c (s_db s))"
    by (elim conjE) (rule recoup_callback)
qed (auto simp: recoup_refused_def recoup_context_ok_def teh_ok_def)

section \<open>The whole request\<close>

text \<open>A coin that passed the checks: it is signed by a revoked denomination key and has signed the
  request; \<open>val\<close> is its value and \<open>h\<close> the hash of its envelope.\<close>

definition recoup_checked :: "TEH \<Rightarrow> recoup_request \<Rightarrow> TALER_Amount \<Rightarrow> hash_code \<Rightarrow> bool" where
  "recoup_checked teh req val h \<longleftrightarrow> (\<exists>ks dki ev. teh_keys teh = Some ks
     \<and> revoked_map ks (coin_denom_pub_hash (rr_coin req)) = Some dki
     \<and> teh_ntoh teh (dk_value (issue_properties dki)) = Some val
     \<and> GNUNET_CRYPTO_rsa_verify (teh_crypto teh) (GNUNET_CRYPTO_hash_key (teh_crypto teh) (coin_pub (rr_coin req)))
         (coin_denom_sig (rr_coin req)) (denom_pub dki)
     \<and> GNUNET_CRYPTO_eddsa_verify (teh_crypto teh) (TALER_RecoupRequestPS (coin_pub (rr_coin req))
         (dk_denom_hash (issue_properties dki)) (rr_coin_bks req)) (rr_coin_sig req) (coin_pub (rr_coin req))
     \<and> GNUNET_CRYPTO_rsa_blind (teh_crypto teh) (GNUNET_CRYPTO_hash_key (teh_crypto teh) (coin_pub (rr_coin req)))
         (rr_coin_bks req) (denom_pub dki) = Some ev
     \<and> h = GNUNET_CRYPTO_hash_data (teh_crypto teh) ev)"

lemma recoup_check_ok:
  assumes "teh_ok teh"
  obtains hc ec where "recoup_check teh req = Some (Inl (TALER_MHD_reply_with_error hc ec))"
  | val h where "recoup_check teh req = Some (Inr (val, h))" "recoup_checked teh req val h" "amount_in (teh_currency teh) val"
proof (cases "teh_keys teh")
  case (Some ks)
  show ?thesis
  proof (cases "teh_lookup teh ks (coin_denom_pub_hash (rr_coin req)) TEH_KS_DKU_RECOUP")
    case (Inl e)
    with Some that(1) show ?thesis by (cases e) (simp add: recoup_check_def Let_def)
  next
    case (Inr dki)
    note dk = denomination_okD [OF lookup_denomination_ok [OF teh_okD(3) [OF assms Some] Inr]]
    from dk(2) obtain val where v: "teh_ntoh teh (dk_value (issue_properties dki)) = Some val"
      "amount_in (teh_currency teh) val" by blast
    have key: "revoked_map ks (coin_denom_pub_hash (rr_coin req)) = Some dki" using lookup_InrD [OF Inr] by simp
    let ?check = "recoup_check teh req"
    have "(\<exists>hc ec. ?check = Some (Inl (TALER_MHD_reply_with_error hc ec)))
        \<or> (\<exists>val h. ?check = Some (Inr (val, h)) \<and> recoup_checked teh req val h \<and> amount_in (teh_currency teh) val)"
      using Some Inr v key test_coin_valid_Some [OF dk(1)]
      by (auto simp: recoup_check_def recoup_checked_def Let_def split: option.split)
    with that show ?thesis by blast
  qed
qed (use that(1) in \<open>simp add: recoup_check_def Let_def\<close>)

text \<open>What a request may do to the database beyond making the coin known\<close>

definition recoup_stored :: "TEH \<Rightarrow> recoup_request \<Rightarrow> tables \<Rightarrow> tables \<Rightarrow> bool" where
  "recoup_stored teh req db db' \<longleftrightarrow> (\<exists>val h target row. recoup_checked teh req val h
     \<and> envelope_of (rr_refreshed req) db target h
     \<and> rp_coin_pub row = coin_pub (rr_coin req) \<and> rp_h_blind_ev row = h
     \<and> 0 < sqlamt (rp_amount row) \<and> sqlamt (rp_amount row) = amt val - coin_spent True db (coin_pub (rr_coin req))
     \<and> (if rr_refreshed req
        then db' = add_recoup_refresh row db
          \<and> (target \<noteq> coin_pub (rr_coin req) \<longrightarrow> coin_spent True db' (coin_pub (rr_coin req)) = amt val
               \<and> coin_spent True db' target = coin_spent True db target - sqlamt (rp_amount row))
        else (\<exists>e gc b. db' = reserve_set e gc b target (db\<lparr>t_recoup := t_recoup db @ [row]\<rparr>))
          \<and> coin_spent True db' (coin_pub (rr_coin req)) = amt val
          \<and> (\<forall>p. reserve_net db' p = reserve_net db p + (if p = target then sqlamt (rp_amount row) else 0))))"

lemma recoup_storedE:
  assumes "recoup_stored teh req db db'"
  obtains val target row where "recoup_checked teh req val (rp_h_blind_ev row)" "rp_coin_pub row = coin_pub (rr_coin req)"
    "sqlamt (rp_amount row) = amt val - coin_spent True db (coin_pub (rr_coin req))"
    "db' = add_recoup_refresh row db \<or> (\<exists>e gc b. db' = reserve_set e gc b target (db\<lparr>t_recoup := t_recoup db @ [row]\<rparr>))"
proof -
  from assms obtain val h target row where r: "recoup_checked teh req val h" "rp_coin_pub row = coin_pub (rr_coin req)"
    "rp_h_blind_ev row = h" "sqlamt (rp_amount row) = amt val - coin_spent True db (coin_pub (rr_coin req))"
    and db': "db' = add_recoup_refresh row db \<or> (\<exists>e gc b. db' = reserve_set e gc b target (db\<lparr>t_recoup := t_recoup db @ [row]\<rparr>))"
    unfolding recoup_stored_def by (cases "rr_refreshed req") (simp_all only: if_True if_False, blast+)
  from r show ?thesis by (intro that [OF _ _ _ db']) simp_all
qed

definition recoup_executed ::
    "TEH \<Rightarrow> recoup_request \<Rightarrow> tables \<Rightarrow> exchange_reply reply option \<Rightarrow> tables session \<Rightarrow> bool" where
  "recoup_executed teh req db r s' \<longleftrightarrow> r \<noteq> None \<and> idle s' \<and> db_ok (s_committed s')
     \<and> (s_committed s' = db \<or> recoup_stored teh req db (s_committed s'))
     \<and> (\<forall>target refreshed. r = Some (reply_ok MHD_HTTP_OK (RECOUP_OK target refreshed)) \<longrightarrow> refreshed = rr_refreshed req
          \<and> (\<exists>val h. recoup_checked teh req val h \<and> envelope_of refreshed (s_committed s') target h
               \<and> (refreshed \<and> target = coin_pub (rr_coin req)
                  \<or> coin_spent True (s_committed s') (coin_pub (rr_coin req)) = amt val)))"

definition recoup_answered ::
    "TEH \<Rightarrow> recoup_request \<Rightarrow> tables \<Rightarrow> exchange_reply reply option \<Rightarrow> tables session \<Rightarrow> bool" where
  "recoup_answered teh req db r s' \<longleftrightarrow> (\<exists>db1. made_known (rr_coin req) db db1 \<and> recoup_executed teh req db1 r s')"

lemma envelope_of_unique:
  assumes "coin_tables_ok db" and "blind_of_old_coin db p h"
  shows "blind_of_old_coin db q h \<longleftrightarrow> q = p"
  using assms
  by (auto simp: blind_of_old_coin_def coin_tables_ok_def distinct_map) (metis inj_onD)

lemma coin_spent_reserve_set [simp]: "coin_spent r (reserve_set e gc b t db) p = coin_spent r db p"
  by (simp add: reserve_set_def coin_total_defs blind_of_old_coin_def coin_fee_def coin_denoms_def cong: if_cong)

lemma recoup_done_stored:
  assumes d: "recoup_done pc db db'" and ok: "coin_tables_ok db" and chk: "recoup_checked teh req (pc_value pc) (pc_h_blind pc)"
    and pc: "pc_coin pc = rr_coin req" "pc_refreshed pc = rr_refreshed req"
  shows "(db' = db \<or> recoup_stored teh req db db') \<and> envelope_of (rr_refreshed req) db' (pc_target pc) (pc_h_blind pc)
     \<and> (rr_refreshed req \<and> pc_target pc = coin_pub (rr_coin req)
        \<or> coin_spent True db' (coin_pub (rr_coin req)) = amt (pc_value pc))"
proof -
  let ?p = "coin_pub (rr_coin req)"
  let ?a = "amt (pc_value pc) - coin_spent True db ?p"
  have env: "envelope_of (rr_refreshed req) db (pc_target pc) (pc_h_blind pc)" using d pc by (simp add: recoup_done_def)
  from d pc consider "?a = 0" "db' = db" | "0 < ?a" "recoup_added pc ?a db db'"
    by (auto simp: recoup_done_def Let_def)
  then show ?thesis
  proof cases
    case 2
    show ?thesis
    proof (cases "rr_refreshed req")
      case True
      with 2 pc obtain row where row: "rp_coin_pub row = ?p" "rp_h_blind_ev row = pc_h_blind pc" "sqlamt (rp_amount row) = ?a"
        and db': "db' = add_recoup_refresh row db"
        by (auto simp: recoup_added_def new_recoup_refresh_def)
      have b: "blind_of_old_coin db q (pc_h_blind pc) \<longleftrightarrow> q = pc_target pc" for q
        using envelope_of_unique [OF ok] env True by (simp add: envelope_of_def)
      have "recoup_stored teh req db db'"
        unfolding recoup_stored_def
        by (rule exI [of _ "pc_value pc"], rule exI [of _ "pc_h_blind pc"], rule exI [of _ "pc_target pc"], rule exI [of _ row])
          (use 2 True row chk env db' b in \<open>simp add: coin_spent_recoup_refresh\<close>)
      with True env db' row b show ?thesis
        by (auto simp: coin_spent_recoup_refresh envelope_of_def blind_of_old_coin_def)
    next
      case False
      with 2 pc obtain row e gc b where row: "rp_coin_pub row = ?p" "rp_h_blind_ev row = pc_h_blind pc" "sqlamt (rp_amount row) = ?a"
        and db': "db' = reserve_set e gc b (pc_target pc) (db\<lparr>t_recoup := t_recoup db @ [row]\<rparr>)"
        by (auto simp: recoup_added_def recoup_effect_def)
      have b: "blind_of_reserve db q (pc_h_blind pc) \<longleftrightarrow> q = pc_target pc" for q
        using blind_of_reserve_unique [OF coin_tables_ok_reserve [OF ok]] env False by (simp add: envelope_of_def)
      have "recoup_stored teh req db db'"
        unfolding recoup_stored_def
        by (rule exI [of _ "pc_value pc"], rule exI [of _ "pc_h_blind pc"], rule exI [of _ "pc_target pc"], rule exI [of _ row])
          (use 2 False row chk env db' b in \<open>auto simp: coin_spent_recoup\<close>)
      with False env db' row show ?thesis
        by (auto simp: coin_spent_recoup envelope_of_def blind_of_reserve_def)
    qed
  qed (use env in auto)
qed

lemma recoup_execute_wp:
  assumes teh: "teh_ok teh" and chk: "recoup_checked teh req val h" and val: "amount_in (teh_currency teh) val"
    and s: "idle s" "db_ok (s_committed s)"
    and pc: "pc_coin pc = rr_coin req" "pc_refreshed pc = rr_refreshed req" "pc_value pc = val" "pc_h_blind pc = h"
  shows "wp (TEH_DB_run_transaction (teh_gnunet teh) name (recoup_transaction teh) pc s \<bind> (\<lambda>((ret, mhd_ret, pc), s).
       if ret \<noteq> GNUNET_OK then Some (mhd_ret, s)
       else Some (Some (reply_ok MHD_HTTP_OK (RECOUP_OK (pc_target pc) (rr_refreshed req))), s)))
     (recoup_executed teh req (s_committed s))"
proof -
  have c: "recoup_same pc pc \<and> recoup_context_ok teh pc"
    using teh val pc by (simp add: recoup_same_def recoup_context_ok_def)
  show ?thesis
  proof (rule wp_bindI [OF recoup.run_transaction_wp [OF c s]], goal_cases)
    case (1 x s')
    obtain ret mhd_ret c where x: "x = (ret, mhd_ret, c)" by (cases x)
    have c: "pc_coin c = rr_coin req" "pc_refreshed c = rr_refreshed req" "pc_value c = val" "pc_h_blind c = h"
      and s': "idle s'" "db_ok (s_committed s')"
      using 1 x pc by (auto simp: run_ok_def recoup_same_def)
    consider "ret = 1" "mhd_ret = None" "recoup_done c (s_committed s) (s_committed s')"
      | "ret = - 1" "recoup_refused mhd_ret" "s_committed s' = s_committed s"
      using 1 x by (auto simp: run_ok_def)
    then show ?case
    proof cases
      case 1
      have "coin_tables_ok (s_committed s)" using s by (simp add: db_ok_def)
      from recoup_done_stored [OF 1(3) this, of teh req] chk c s' 1 x show ?thesis
        by (auto simp: recoup_executed_def)
    next
      case 2
      with x s' show ?thesis by (auto simp: recoup_executed_def recoup_refused_def)
    qed
  qed
qed

lemma recoup_handler_wp:
  assumes teh: "teh_ok teh" and s: "idle s" "db_ok (s_committed s)"
  shows "wp (TEH_handler_recoup teh req uninit s) (recoup_answered teh req (s_committed s))"
proof -
  have g: "gnunet_ok (teh_gnunet teh)" using teh by (simp add: teh_ok_def)
  show ?thesis
  proof (rule recoup_check_ok [OF teh, of req])
    fix hc ec assume "recoup_check teh req = Some (Inl (TALER_MHD_reply_with_error hc ec))"
    with s show ?thesis
      by (auto simp: TEH_handler_recoup_def verify_and_execute_recoup_def recoup_answered_def recoup_executed_def
          intro!: exI [of _ "s_committed s"])
  next
    fix val h assume chk: "recoup_check teh req = Some (Inr (val, h))" "recoup_checked teh req val h" "amount_in (teh_currency teh) val"
    show ?thesis
      unfolding TEH_handler_recoup_def verify_and_execute_recoup_def chk(1) bind.bind_lunit sum.case prod.case Let_def
    proof (rule wp_bindI [OF know_coin.run_transaction_wp [OF conjI [OF refl g] s]], goal_cases)
      case (1 x s1)
      obtain ret mhd_ret c where x: "x = (ret, mhd_ret, c)" by (cases x)
      show ?case
      proof (cases "ret = GNUNET_OK")
        case True
        with 1 x have k: "known_effect (rr_coin req) (s_committed s) (s_committed s1)" "idle s1" "db_ok (s_committed s1)"
          by (auto simp: run_ok_def)
        have mono: "recoup_answered teh req (s_committed s) r s'" if "recoup_executed teh req (s_committed s1) r s'" for r s'
          using that made_known_effect [OF k(1)] by (auto simp: recoup_answered_def)
        show ?thesis
          using True x by (simp, intro wp_mono [OF recoup_execute_wp [OF teh chk(2,3) k(2,3)] mono]) simp_all
      next
        case False
        with 1 x show ?thesis
          by (auto simp: run_ok_def recoup_answered_def recoup_executed_def error_replied_def intro!: exI [of _ "s_committed s"])
      qed
    qed
  qed
qed

section \<open>Property\<close>

text \<open>C11. Whatever the request and whatever errors the database reports, a recoup request is answered and keeps the
  integrity of the database. Apart from making the coin known, either nothing changes, or exactly one recoup is added (and
  the balance of the reserve adapted): of a coin that is signed by a
  revoked denomination key, with a request that is signed by the coin, for exactly what was left of the coin; it is credited to
  the reserve that the coin was withdrawn from, or the old coin that it was refreshed from, and the coin is
  spent completely afterwards. A confirmed recoup names that reserve or old coin, also if the request is
  repeated.\<close>

theorem recoup_request_safe:
  assumes "teh_ok teh" and "idle s" and "db_ok (s_committed s)"
  shows "\<exists>reply s'. TEH_handler_recoup teh req uninit s = Some (Some reply, s') \<and> idle s' \<and> db_ok (s_committed s')
     \<and> (\<exists>db1. made_known (rr_coin req) (s_committed s) db1
          \<and> (s_committed s' = db1 \<or> recoup_stored teh req db1 (s_committed s')))
     \<and> (\<forall>target refreshed. reply = reply_ok MHD_HTTP_OK (RECOUP_OK target refreshed) \<longrightarrow> refreshed = rr_refreshed req
          \<and> (\<exists>val h. recoup_checked teh req val h \<and> envelope_of refreshed (s_committed s') target h
               \<and> (refreshed \<and> target = coin_pub (rr_coin req)
                  \<or> coin_spent True (s_committed s') (coin_pub (rr_coin req)) = amt val)))"
  using recoup_handler_wp [OF assms, of req uninit] by (auto simp: wp_iff recoup_answered_def recoup_executed_def)

definition sample_revoked_teh :: TEH where
  "sample_revoked_teh = sample_teh\<lparr>teh_keys := Some (sample_keys\<lparr>denomkey_map := Map.empty,
     revoked_map := Map.empty(7 \<mapsto> sample_denomination)\<rparr>)\<rparr>"

lemma sample_revoked_teh_ok: "teh_ok sample_revoked_teh"
  using sample_teh_ok(3) sample_teh_ok(1)
  by (auto simp: teh_ok_def keys_ok_def denomination_ok_def sample_revoked_teh_def sample_keys_def split: if_splits)

definition sample_recoup :: recoup_request where
  "sample_recoup = \<lparr>rr_coin = \<lparr>coin_pub = 20, coin_denom_pub_hash = 7, coin_denom_sig = 27\<rparr>, rr_coin_bks = 0, rr_coin_sig = 20,
     rr_refreshed = False\<rparr>"

definition sample_recoup_context :: RecoupContext where
  "sample_recoup_context = \<lparr>pc_h_blind = 0, pc_value = zero_amount, pc_coin = rr_coin sample_recoup, pc_coin_bks = 0, pc_coin_sig = 0,
     pc_target = 0, pc_amount = zero_amount, pc_now = 0, pc_refreshed = False, pc_clock = \<lambda>_. 150\<rparr>"

theorem recoup_request_safe_witness:
  "\<exists>reply s'. TEH_handler_recoup sample_revoked_teh sample_recoup sample_recoup_context (sample_idle sample_deposit_db [PQ_RUN, PQ_SOFT])
       = Some (Some reply, s') \<and> idle s' \<and> db_ok (s_committed s')"
  using recoup_request_safe [OF sample_revoked_teh_ok, of "sample_idle sample_deposit_db [PQ_RUN, PQ_SOFT]" sample_recoup sample_recoup_context]
  by (auto simp: db_ok_def sample_deposit_db_ok)

end
