(* ===== verification/Request_Sequences.thy ===== *)
theory Request_Sequences
  imports Deposit Melt Withdraw Refund Recoup
begin

text \<open>
  The exchange as a state machine: the requests that change the database, in any order, with any
  database errors, each in a context (keys, clock, cryptography) of its own. What is proved of one
  request in the theories of the handlers becomes an invariant of all sequences of requests: the
  database keeps its integrity, and the net spending of a coin stays within its value, up to the deposit fee
  that the exchange gives back a second time after a refund.
\<close>

section \<open>Requests and steps\<close>

datatype exchange_request =
    DEPOSIT_REQUEST TALER_EXCHANGEDB_Deposit
  | MELT_REQUEST TALER_EXCHANGEDB_Refresh "nat \<Rightarrow> u32"
  | WITHDRAW_REQUEST withdraw_request TALER_EXCHANGEDB_CollectableBlindcoin "nat \<Rightarrow> abs_time"
  | REFUND_REQUEST TALER_EXCHANGEDB_Refund hash_code
  | RECOUP_REQUEST recoup_request RecoupContext

fun handle_request ::
    "TEH \<Rightarrow> exchange_request \<Rightarrow> tables session \<Rightarrow> (exchange_reply reply option \<times> tables session) option" where
  "handle_request teh (DEPOSIT_REQUEST d) s = TEH_handler_deposit teh d s"
| "handle_request teh (MELT_REQUEST d random) s = TEH_handler_melt teh d random s"
| "handle_request teh (WITHDRAW_REQUEST req uninit clock) s = TEH_handler_withdraw teh req uninit clock s"
| "handle_request teh (REFUND_REQUEST d uninit) s = TEH_handler_refund teh d uninit s"
| "handle_request teh (RECOUP_REQUEST req uninit) s = TEH_handler_recoup teh req uninit s"

text \<open>What the parser guarantees of a request: its amounts are normalized and its times are rounded. Nothing is
  said of the session.\<close>

fun request_ok :: "TEH \<Rightarrow> exchange_request \<Rightarrow> bool" where
  "request_ok teh (DEPOSIT_REQUEST d) \<longleftrightarrow> deposit_request_ok teh d"
| "request_ok teh (MELT_REQUEST d random) \<longleftrightarrow> melt_request_ok d random"
| "request_ok teh (WITHDRAW_REQUEST req uninit clock) \<longleftrightarrow> True"
| "request_ok teh (REFUND_REQUEST d uninit) \<longleftrightarrow> refund_request_ok d"
| "request_ok teh (RECOUP_REQUEST req uninit) \<longleftrightarrow> True"

text \<open>The three causes of an abort or crash: the wire details of a deposit cannot be hashed; a melt or refund finds no connection
  to the database; the coin of a melt was refunded more than it has spent.\<close>

fun may_abort :: "TEH \<Rightarrow> exchange_request \<Rightarrow> tables session \<Rightarrow> bool" where
  "may_abort teh (DEPOSIT_REQUEST d) s \<longleftrightarrow> wire_details_abort teh (dep_receiver_wire_account d)"
| "may_abort teh (MELT_REQUEST d random) s \<longleftrightarrow> \<not> connected s \<or> coin_spent True (s_committed s) (coin_pub (rf_coin d)) < 0"
| "may_abort teh (WITHDRAW_REQUEST req uninit clock) s \<longleftrightarrow> False"
| "may_abort teh (REFUND_REQUEST d uninit) s \<longleftrightarrow> \<not> connected s"
| "may_abort teh (RECOUP_REQUEST req uninit) s \<longleftrightarrow> False"

text \<open>The coin of a request, where the client names its denomination\<close>

fun request_coin :: "exchange_request \<Rightarrow> TALER_CoinPublicInfo option" where
  "request_coin (DEPOSIT_REQUEST d) = Some (dep_coin d)"
| "request_coin (MELT_REQUEST d random) = Some (rf_coin d)"
| "request_coin (RECOUP_REQUEST req uninit) = Some (rr_coin req)"
| "request_coin _ = None"

text \<open>A process that aborts in a request may have made the coin known; the open transaction is lost.\<close>

definition left_by_abort :: "exchange_request \<Rightarrow> tables \<Rightarrow> tables \<Rightarrow> bool" where
  "left_by_abort req db db' \<longleftrightarrow> db' = db \<or> (\<exists>coin. request_coin req = Some coin \<and> known_effect coin db db')"

text \<open>A step is a request, or a request that aborts the process, which is then started again, or the database will report other errors than
  before.\<close>

inductive exchange_step :: "tables session \<Rightarrow> tables session \<Rightarrow> bool" where
  request: "teh_ok teh \<Longrightarrow> request_ok teh req \<Longrightarrow> handle_request teh req s = Some (reply, s') \<Longrightarrow> exchange_step s s'"
| aborted: "request_ok teh req \<Longrightarrow> handle_request teh req s = None \<Longrightarrow> idle s' \<Longrightarrow>
     left_by_abort req (s_committed s) (s_committed s') \<Longrightarrow> exchange_step s s'"
| outcomes: "exchange_step s (s\<lparr>s_outcomes := xs\<rparr>)"

section \<open>Integrity\<close>

text \<open>What the handlers do\<close>

fun request_answered ::
    "TEH \<Rightarrow> exchange_request \<Rightarrow> tables \<Rightarrow> exchange_reply reply option \<Rightarrow> tables session \<Rightarrow> bool" where
  "request_answered teh (DEPOSIT_REQUEST d) = deposit_answered teh d"
| "request_answered teh (MELT_REQUEST d random) = melt_answered teh d"
| "request_answered teh (WITHDRAW_REQUEST req uninit clock) = withdraw_answered teh req"
| "request_answered teh (REFUND_REQUEST d uninit) = refund_answered teh d"
| "request_answered teh (RECOUP_REQUEST req uninit) = recoup_answered teh req"

lemma handle_request_wpa:
  assumes "teh_ok teh" and "request_ok teh req" and "idle s" and "db_ok (s_committed s)"
  shows "wpa (may_abort teh req s) (handle_request teh req s) (request_answered teh req (s_committed s))"
  using assms deposit_handler_wpa melt_handler_wpa withdraw_handler_wp refund_handler_wpa recoup_handler_wp
  by (cases req) (auto simp: melt_may_abort_def)

lemma left_by_abort_ok: "left_by_abort req db db' \<Longrightarrow> db_ok db \<Longrightarrow> db_ok db'"
  by (auto simp: left_by_abort_def intro: known_effect_ok)

lemma request_answered_ok:
  "request_answered teh req db r s' \<Longrightarrow> idle s' \<and> db_ok (s_committed s')"
  by (cases req) (auto simp: deposit_answered_def deposit_executed_def melt_answered_def melt_executed_def
      withdraw_answered_def refund_answered_def recoup_answered_def recoup_executed_def)

lemma exchange_step_ok:
  assumes "exchange_step s s'" and "idle s" and "db_ok (s_committed s)"
  shows "idle s' \<and> db_ok (s_committed s')"
  using assms
proof (induction rule: exchange_step.induct)
  case (request teh req s reply s')
  from wpaD [OF handle_request_wpa [OF request(1,2,4,5)] request(3)] show ?case by (rule request_answered_ok)
qed (auto simp: idle_def intro: left_by_abort_ok)

lemma exchange_steps_ok:
  assumes "exchange_step\<^sup>*\<^sup>* s s'" and "idle s" and "db_ok (s_committed s)"
  shows "idle s' \<and> db_ok (s_committed s')"
  using assms by (induction rule: rtranclp_induct) (auto dest: exchange_step_ok)

section \<open>Coins\<close>

text \<open>What is assumed of the contexts, for a coin \<open>p\<close> of denomination \<open>h\<close> with the value \<open>v\<close>: the coin is only used with this
  denomination, whose value is the same in all key states; once the denomination was revoked, it stays so
  and is not valid any more; and the denominations in the database have the refund fees of the keys.\<close>

definition coin_context ::
    "pub_key \<Rightarrow> hash_code \<Rightarrow> int \<Rightarrow> bool \<Rightarrow> TEH \<Rightarrow> exchange_request \<Rightarrow> tables \<Rightarrow> bool" where
  "coin_context p h v revoked teh req db \<longleftrightarrow>
     (\<forall>coin. request_coin req = Some coin \<longrightarrow> coin_pub coin = p \<longrightarrow> coin_denom_pub_hash coin = h)
     \<and> (\<forall>ks. teh_keys teh = Some ks \<longrightarrow>
          (\<forall>dki. denomkey_map ks h = Some dki \<or> revoked_map ks h = Some dki \<longrightarrow>
             (\<exists>a. teh_ntoh teh (dk_value (issue_properties dki)) = Some a \<and> amt a = v))
          \<and> (revoked \<or> revoked_map ks h \<noteq> None \<longrightarrow> denomkey_map ks h = None)
          \<and> (\<forall>d\<in>set (t_denominations db). \<forall>dki fee. denomkey_map ks (dn_denom_pub_hash d) = Some dki \<longrightarrow>
               teh_ntoh teh (dk_fee_refund (issue_properties dki)) = Some fee \<longrightarrow> sqlamt (dn_fee_refund d) = amt fee))"

definition revokes :: "TEH \<Rightarrow> hash_code \<Rightarrow> bool" where
  "revokes teh h \<longleftrightarrow> (\<exists>ks. teh_keys teh = Some ks \<and> revoked_map ks h \<noteq> None)"

text \<open>Steps that also keep track of whether the denomination has been revoked\<close>

inductive coin_step ::
    "pub_key \<Rightarrow> hash_code \<Rightarrow> int \<Rightarrow> bool \<times> tables session \<Rightarrow> bool \<times> tables session \<Rightarrow> bool" for p h v where
  request: "teh_ok teh \<Longrightarrow> request_ok teh req \<Longrightarrow> coin_context p h v revoked teh req (s_committed s) \<Longrightarrow>
     handle_request teh req s = Some (reply, s') \<Longrightarrow> coin_step p h v (revoked, s) (revoked \<or> revokes teh h, s')"
| aborted: "request_ok teh req \<Longrightarrow> handle_request teh req s = None \<Longrightarrow> idle s' \<Longrightarrow>
     left_by_abort req (s_committed s) (s_committed s') \<Longrightarrow> coin_step p h v (revoked, s) (revoked, s')"
| outcomes: "coin_step p h v (revoked, s) (revoked, s\<lparr>s_outcomes := xs\<rparr>)"

definition coin_bounded :: "pub_key \<Rightarrow> int \<Rightarrow> bool \<Rightarrow> tables \<Rightarrow> bool" where
  "coin_bounded p v revoked db \<longleftrightarrow> coin_spent True db p \<le> v
     \<and> (\<not> revoked \<longrightarrow> (\<forall>r\<in>set (t_recoup db) \<union> set (t_recoup_refresh db). rp_coin_pub r \<noteq> p))"

lemma coin_bounded_revoked: "coin_bounded p v revoked db \<Longrightarrow> coin_bounded p v (revoked \<or> x) db"
  by (simp add: coin_bounded_def)

lemma coin_bounded_known:
  assumes "made_known coin db db1" and "coin_tables_ok db" and "coin_bounded p v revoked db"
  shows "coin_bounded p v revoked db1"
  using assms by (simp add: coin_bounded_def made_known_sels made_known_spent)

lemma coin_bounded_aborted:
  assumes "left_by_abort req db db'" and "coin_tables_ok db" and "coin_bounded p v revoked db"
  shows "coin_bounded p v revoked db'"
  using assms(1) coin_bounded_known [OF made_known_effect assms(2,3)] assms(3) by (auto simp: left_by_abort_def)

lemma made_known_tables: "made_known coin db db1 \<Longrightarrow> coin_tables_ok db \<Longrightarrow> coin_tables_ok db1"
  by (auto simp: made_known_def known_effect_def intro: coin_tables_ok_known)

text \<open>Without recoups, the total with recoups is at most the one without.\<close>

lemma coin_spent_no_recoup:
  assumes "\<forall>r\<in>set (t_recoup db) \<union> set (t_recoup_refresh db). rp_coin_pub r \<noteq> p"
  shows "coin_spent True db p \<le> coin_spent False db p"
proof -
  have "filter (\<lambda>r. rp_coin_pub r = p) (t_recoup db) = []" "filter (\<lambda>r. rp_coin_pub r = p) (t_recoup_refresh db) = []"
    using assms by (auto simp: filter_empty_conv)
  moreover have "0 \<le> coin_old_recouped db p"
    by (auto simp: coin_old_recouped_def intro!: sum_list_nonneg)
  ultimately show ?thesis
    by (simp add: coin_spent_def coin_debits_def coin_credits_def coin_recouped_def coin_recoup_refreshed_def)
qed

lemma deposit_bounded:
  assumes st: "deposit_stored teh d db db'" and b: "coin_bounded p v revoked db"
    and ctx: "coin_context p h v revoked teh (DEPOSIT_REQUEST d) db0"
  shows "coin_bounded p v revoked db'"
proof -
  obtain dc row where chk: "deposit_checked teh d dc" and db': "db' = add_deposit row db" and row: "deposit_key row = deposit_key_of d"
    and le: "coin_spent False db' (coin_pub (dep_coin d)) \<le> amt (dc_value dc)"
    using st by (auto simp: deposit_stored_def)
  have rp: "dp_coin_pub row = coin_pub (dep_coin d)" using row by (simp add: deposit_key_def deposit_key_of_def)
  show ?thesis
  proof (cases "coin_pub (dep_coin d) = p")
    case True
    with chk ctx obtain ks dki where ks: "teh_keys teh = Some ks" "denomkey_map ks h = Some dki"
      "teh_ntoh teh (dk_value (issue_properties dki)) = Some (dc_value dc)"
      by (auto simp: deposit_checked_def coin_context_def)
    with ctx have "amt (dc_value dc) = v" "\<not> revoked" by (auto simp: coin_context_def)
    moreover have "coin_spent True db' p \<le> coin_spent False db' p"
      using b \<open>\<not> revoked\<close> by (intro coin_spent_no_recoup) (simp add: coin_bounded_def db')
    ultimately show ?thesis using b le True by (auto simp: coin_bounded_def db')
  next
    case False
    with b rp show ?thesis by (auto simp: coin_bounded_def db' coin_spent_deposit)
  qed
qed

lemma melt_bounded:
  assumes st: "melt_stored teh d db0 db db'" and b: "coin_bounded p v revoked db" and ok: "coin_tables_ok db"
    and ctx: "coin_context p h v revoked teh (MELT_REQUEST d random) db1"
  shows "coin_bounded p v revoked db'"
proof -
  obtain rmc row where chk: "melt_checked teh d db0 rmc" and z: "rmc_zombie_required rmc \<longrightarrow> coin_zombie db0 (coin_pub (rf_coin d))"
    and db': "db' = add_melt row db" and row: "rcm_old_coin_pub row = coin_pub (rf_coin d)" "rcm_rc row = rf_rc d"
    and new: "rf_rc d \<notin> rcm_rc ` set (t_refresh_commitments db)"
    and le: "coin_spent True db' (coin_pub (rf_coin d)) \<le> amt (rmc_coin_value rmc)"
    using st by (auto simp: melt_stored_def)
  show ?thesis
  proof (cases "coin_pub (rf_coin d) = p")
    case True
    obtain ks dki where ks: "teh_keys teh = Some ks" "melt_key ks db0 (rf_coin d) dki"
      "teh_ntoh teh (dk_value (issue_properties dki)) = Some (rmc_coin_value rmc)"
      using chk z by (auto simp: melt_checked_def)
    have "coin_denom_pub_hash (rf_coin d) = h" using ctx True by (auto simp: coin_context_def)
    then have "denomkey_map ks h = Some dki \<or> revoked_map ks h = Some dki"
      using ks(2) by (auto simp: melt_key_def dest: lookup_InrD)
    with ctx ks have "amt (rmc_coin_value rmc) = v" by (auto simp: coin_context_def)
    with b le True show ?thesis by (auto simp: coin_bounded_def db')
  next
    case False
    with b row new ok show ?thesis by (auto simp: coin_bounded_def db' coin_spent_melt)
  qed
qed

lemma withdraw_bounded:
  assumes "withdraw_stored teh req db db'" and "coin_bounded p v revoked db"
  shows "coin_bounded p v revoked db'"
proof -
  have "coin_spent True (db\<lparr>t_reserves_out := x\<rparr>) p = coin_spent True db p" for x
    by (simp add: coin_total_defs blind_of_old_coin_def coin_fee_def coin_denoms_def cong: if_cong)
  with assms show ?thesis by (auto simp: withdraw_stored_def withdraw_added_def coin_bounded_def)
qed

lemma coin_fee_nonneg: "0 \<le> coin_fee f db p"
  by (simp add: coin_fee_def split: list.split)

lemma refund_bounded:
  assumes st: "refund_stored teh d db db'" and b: "coin_bounded p v revoked db" and ok: "coin_tables_ok db"
    and ctx: "coin_context p h v revoked teh (REFUND_REQUEST d uninit) db"
  shows "coin_bounded p v revoked db'"
proof -
  obtain row where new: "new_refund d db row" and db': "db' = add_refund row db"
    using st by (auto simp: refund_stored_def refund_effect_def)
  have row: "rd_coin_pub row = coin_pub (ref_coin d)" "sqlamt (rd_amount_with_fee row) = amt (rle_refund_amount (ref_details d))"
    using new by (simp_all add: new_refund_def)
  have "coin_fee dn_fee_refund db (coin_pub (ref_coin d)) \<le> amt (rle_refund_amount (ref_details d))"
  proof (cases rule: coin_denoms_cases [OF ok, of "coin_pub (ref_coin d)", case_names unknown known])
    case (known k dn)
    from st obtain k' ks dki fee where k': "k' \<in> set (t_known_coins db)" "kc_coin_pub k' = coin_pub (ref_coin d)"
      and fee: "teh_keys teh = Some ks" "teh_lookup teh ks (kc_denom_pub_hash k') TEH_KS_DKU_DEPOSIT = Inr dki"
        "teh_ntoh teh (dk_fee_refund (issue_properties dki)) = Some fee" "amt fee \<le> amt (rle_refund_fee (ref_details d))"
        "amt (rle_refund_fee (ref_details d)) \<le> amt (rle_refund_amount (ref_details d))"
      by (auto simp: refund_stored_def refund_fee_covered_def)
    have "inj_on kc_coin_pub (set (t_known_coins db))"
      using ok by (simp add: coin_tables_ok_def reserve_tables_ok_def distinct_map)
    from inj_onD [OF this _ k'(1) known(1)] have "k' = k" using k'(2) known(2) by simp
    then have "denomkey_map ks (dn_denom_pub_hash dn) = Some dki" using lookup_InrD [OF fee(2)] known(4) by simp
    with ctx fee known(3) have "sqlamt (dn_fee_refund dn) = amt fee" by (auto simp: coin_context_def)
    with fee known show ?thesis by (simp add: coin_fee_def)
  qed (simp add: coin_fee_def)
  then have "coin_spent True db' p \<le> coin_spent True db p"
    using coin_fee_nonneg [of dn_fee_deposit db p] unfolding db' coin_spent_refund row by auto
  with b show ?thesis by (auto simp: coin_bounded_def db')
qed

lemma recoup_bounded:
  assumes st: "recoup_stored teh req db db'" and b: "coin_bounded p v revoked db"
    and ctx: "coin_context p h v revoked teh (RECOUP_REQUEST req uninit) db0"
  shows "coin_bounded p v (revoked \<or> revokes teh h) db'"
proof -
  let ?q = "coin_pub (rr_coin req)"
  obtain val target row where chk: "recoup_checked teh req val (rp_h_blind_ev row)" and row: "rp_coin_pub row = ?q"
    and a: "sqlamt (rp_amount row) = amt val - coin_spent True db ?q"
    and db': "db' = add_recoup_refresh row db \<or> (\<exists>e gc b. db' = reserve_set e gc b target (db\<lparr>t_recoup := t_recoup db @ [row]\<rparr>))"
    using recoup_storedE [OF st] by metis
  have val: "amt val = v \<and> revokes teh h" if "?q = p"
  proof -
    obtain ks dki where ks: "teh_keys teh = Some ks" "revoked_map ks (coin_denom_pub_hash (rr_coin req)) = Some dki"
      "teh_ntoh teh (dk_value (issue_properties dki)) = Some val"
      using chk by (auto simp: recoup_checked_def)
    with ctx that show ?thesis by (auto simp: coin_context_def revokes_def)
  qed
  have "coin_spent True db' p \<le> coin_spent True db p + (if ?q = p then sqlamt (rp_amount row) else 0)"
    using db' row by (auto simp: coin_spent_recoup_refresh coin_spent_recoup)
  with a val b have "coin_spent True db' p \<le> v" by (auto simp: coin_bounded_def split: if_splits)
  with b db' row val show ?thesis by (auto simp: coin_bounded_def)
qed

lemma request_bounded:
  assumes ans: "request_answered teh req db r s'" and ok: "coin_tables_ok db" and b: "coin_bounded p v revoked db"
    and ctx: "coin_context p h v revoked teh req db"
  shows "coin_bounded p v (revoked \<or> revokes teh h) (s_committed s')"
proof (cases req)
  case (DEPOSIT_REQUEST d)
  with ans obtain db1 where "made_known (dep_coin d) db db1" "s_committed s' = db1 \<or> deposit_stored teh d db1 (s_committed s')"
    by (auto simp: deposit_answered_def deposit_executed_def)
  with coin_bounded_known [OF _ ok b] deposit_bounded [of teh d] ctx show ?thesis
    by (auto simp: DEPOSIT_REQUEST intro: coin_bounded_revoked)
next
  case (MELT_REQUEST d random)
  with ans obtain db1 where "made_known (rf_coin d) db db1" "s_committed s' = db1 \<or> melt_stored teh d db db1 (s_committed s')"
    by (auto simp: melt_answered_def melt_executed_def)
  with coin_bounded_known [OF _ ok b] made_known_tables [OF _ ok] melt_bounded [of teh d] ctx show ?thesis
    by (auto simp: MELT_REQUEST intro: coin_bounded_revoked)
next
  case (WITHDRAW_REQUEST wr uninit clock)
  with ans b show ?thesis by (auto simp: withdraw_answered_def intro: coin_bounded_revoked withdraw_bounded)
next
  case (REFUND_REQUEST d uninit)
  with ans b ok ctx show ?thesis by (auto simp: refund_answered_def intro: coin_bounded_revoked refund_bounded)
next
  case (RECOUP_REQUEST rr uninit)
  with ans obtain db1 where "made_known (rr_coin rr) db db1" "s_committed s' = db1 \<or> recoup_stored teh rr db1 (s_committed s')"
    by (auto simp: recoup_answered_def recoup_executed_def)
  with coin_bounded_known [OF _ ok b] recoup_bounded [of teh rr] ctx show ?thesis
    by (auto simp: RECOUP_REQUEST intro: coin_bounded_revoked)
qed

lemma coin_step_ok:
  assumes "coin_step p h v x x'" and "idle (snd x)" and "db_ok (s_committed (snd x))"
    and "coin_bounded p v (fst x) (s_committed (snd x))"
  shows "idle (snd x') \<and> db_ok (s_committed (snd x')) \<and> coin_bounded p v (fst x') (s_committed (snd x'))"
  using assms
proof (induction rule: coin_step.induct)
  case (request teh req revoked s reply s')
  from wpaD [OF handle_request_wpa [OF request(1,2)] request(4)] request
  have "request_answered teh req (s_committed s) reply s'" by simp
  with request request_bounded [of teh req "s_committed s" reply s' p v revoked h] request_answered_ok [of teh req]
  show ?case by (auto simp: db_ok_def)
next
  case (aborted teh req s s' revoked)
  then have "coin_tables_ok (s_committed s)" by (simp add: db_ok_def)
  with aborted show ?case by (auto intro: left_by_abort_ok coin_bounded_aborted)
qed (simp add: idle_def)

lemma coin_steps_ok:
  assumes "(coin_step p h v)\<^sup>*\<^sup>* x x'" and "idle (snd x)" and "db_ok (s_committed (snd x))"
    and "coin_bounded p v (fst x) (s_committed (snd x))"
  shows "idle (snd x') \<and> db_ok (s_committed (snd x')) \<and> coin_bounded p v (fst x') (s_committed (snd x'))"
  using assms by (induction rule: rtranclp_induct) (auto dest: coin_step_ok)

section \<open>Net spending\<close>

text \<open>What a coin has spent, by the books: deposits, melts, refund fees and what was recouped, less the refunds and what came back
  to it from recouped fresh coins. The exchange takes the deposit fee off this total once there is a refund,
  although the refund already gives back the deposit with its fee.\<close>

definition coin_net :: "bool \<Rightarrow> tables \<Rightarrow> pub_key \<Rightarrow> int" where
  "coin_net recoup db p = coin_debits recoup db p - coin_credits recoup db p"

lemma coin_net_spent: "coin_net recoup db p = coin_spent recoup db p + coin_discount db p"
  by (simp add: coin_net_def coin_spent_def)

lemma coin_discount_nonneg: "0 \<le> coin_discount db p"
  by (simp add: coin_discount_def coin_fee_nonneg)

section \<open>Properties\<close>


text \<open>C1. No double spending beyond one fee: through every sequence of requests, database errors and aborts, the net spending of a coin
  (deposits, melts, recoups and refund fees, less refunds and what came back from recouped fresh coins) is at most the value of the
  coin as long as nothing was refunded to it, and exceeds it by at most the deposit fee of its denomination after a
  refund. This is for a coin that is used with one denomination, whose value is the same in all key states and whose revocation is final, where the refund
  fees in the database are those of the keys.\<close>

theorem coin_net_spending_bounded:
  assumes "(coin_step p h v)\<^sup>*\<^sup>* (False, s) (revoked, s')" and "idle s" and "db_ok (s_committed s)"
    and "coin_net True (s_committed s) p \<le> v"
    and "\<forall>r\<in>set (t_recoup (s_committed s)) \<union> set (t_recoup_refresh (s_committed s)). rp_coin_pub r \<noteq> p"
  shows "coin_net True (s_committed s') p \<le> v
     + (if coin_refunds (s_committed s') p = [] then 0 else coin_fee dn_fee_deposit (s_committed s') p)"
proof -
  have "coin_spent True (s_committed s) p \<le> v"
    using assms(4) coin_discount_nonneg [of "s_committed s" p] by (simp add: coin_net_spent)
  with coin_steps_ok [OF assms(1)] assms(2,3,5) have "coin_spent True (s_committed s') p \<le> v" by (simp add: coin_bounded_def)
  then show ?thesis by (simp add: coin_net_spent coin_discount_def)
qed

text \<open>C31. The bound is reached: if no errors come from the database, every valid deposit within what the exchange takes to be left of a coin is
  accepted, and if the deposit is for more than what is really left, the coin has then spent more than its value. This can only happen to a coin
  with a refund: the exchange subtracts the deposit fee from its history although the refund has given it back.\<close>

theorem refunded_coin_overspends:
  assumes "teh_ok teh" and "deposit_request_ok teh d" and "idle s" and "s_outcomes s = []" and "db_ok (s_committed s)"
    and "deposit_acceptable teh d dc" and "deposit_covered teh d dc (s_committed s)"
    and "amt (dc_value dc) < coin_net False (s_committed s) (coin_pub (dep_coin d)) + amt (dep_amount_with_fee d)"
  shows "coin_refunds (s_committed s) (coin_pub (dep_coin d)) \<noteq> []
     \<and> (\<exists>sig pub s'. TEH_handler_deposit teh d s = Some (Some (reply_ok MHD_HTTP_OK (DEPOSIT_OK sig pub)), s')
          \<and> amt (dc_value dc) < coin_net False (s_committed s') (coin_pub (dep_coin d))
          \<and> coin_net False (s_committed s') (coin_pub (dep_coin d)) \<le> amt (dc_value dc) + coin_fee dn_fee_deposit (s_committed s) (coin_pub (dep_coin d)))"
proof -
  let ?p = "coin_pub (dep_coin d)"
  have ct: "coin_tables_ok (s_committed s)" using assms(5) by (simp add: db_ok_def)
  have le: "coin_spent False (s_committed s) ?p + amt (dep_amount_with_fee d) \<le> amt (dc_value dc)"
    using assms(7) by (simp add: deposit_covered_def)
  have ref: "coin_refunds (s_committed s) ?p \<noteq> []"
  proof
    assume "coin_refunds (s_committed s) ?p = []"
    with assms(8) le show False by (simp add: coin_net_spent coin_discount_def)
  qed
  obtain sig pub s' db1 where h: "TEH_handler_deposit teh d s = Some (Some (reply_ok MHD_HTTP_OK (DEPOSIT_OK sig pub)), s')"
    and k: "made_known (dep_coin d) (s_committed s) db1" and st: "deposit_stored teh d db1 (s_committed s')"
    using deposit_is_accepted [OF assms(1-7)] by blast
  have d1: "coin_spent False db1 ?p = coin_spent False (s_committed s) ?p" "coin_discount db1 ?p = coin_discount (s_committed s) ?p"
    using made_known_spent [OF k ct] k coin_totals_known(3) [OF ct, of "known_row (dep_coin d)"] by (auto simp: made_known_def known_effect_def)
  from st obtain row where row: "s_committed s' = add_deposit row db1"
    "coin_spent False (s_committed s') ?p = coin_spent False db1 ?p + amt (dep_amount_with_fee d)"
    by (auto simp: deposit_stored_def)
  have "coin_discount (add_deposit row db1) ?p = coin_discount db1 ?p"
    by (simp add: coin_discount_def coin_refunds_def coin_fee_def coin_denoms_def)
  with row have "coin_net False (s_committed s') ?p = coin_net False (s_committed s) ?p + amt (dep_amount_with_fee d)"
    using d1 by (simp add: coin_net_spent)
  with assms(8) le ref h show ?thesis by (auto simp: coin_net_spent coin_discount_def)
qed

section \<open>A sample\<close>

text \<open>Depositing the rest of the coin that has spent 3 of 5, while the database reports a serialization failure\<close>

lemma sample_wire_details: "\<not> wire_details_abort sample_teh (dep_receiver_wire_account (sample_deposit coin amount))"
  unfolding wire_details_abort_def sample_deposit_hash by simp

lemma sample_request:
  "\<exists>reply s'. handle_request sample_teh (DEPOSIT_REQUEST (sample_deposit 20 3)) (sample_idle sample_deposit_db [PQ_RUN, PQ_SOFT])
     = Some (reply, s')"
  using handle_request_wpa [OF sample_teh_ok(1), of "DEPOSIT_REQUEST (sample_deposit 20 3)"
      "sample_idle sample_deposit_db [PQ_RUN, PQ_SOFT]"] sample_deposit_ok sample_wire_details
  by (auto simp: wpa_def db_ok_def sample_deposit_db_ok split: option.splits)


lemma sample_coin_context:
  "coin_context 20 7 500000000 False sample_teh (DEPOSIT_REQUEST (sample_deposit 20 3)) sample_deposit_db"
  by (auto simp: coin_context_def sample_deposit_def sample_keys_def sample_denomination_def sample_nbo sample_deposit_db_def
      sample_db_def sqlamt_def)

theorem coin_net_spending_bounded_witness:
  "\<exists>reply s'. handle_request sample_teh (DEPOSIT_REQUEST (sample_deposit 20 3)) (sample_idle sample_deposit_db [PQ_RUN, PQ_SOFT])
     = Some (reply, s') \<and> coin_net True (s_committed s') 20 \<le> 500000000
         + (if coin_refunds (s_committed s') 20 = [] then 0 else coin_fee dn_fee_deposit (s_committed s') 20)"
proof -
  obtain reply s' where h: "handle_request sample_teh (DEPOSIT_REQUEST (sample_deposit 20 3))
      (sample_idle sample_deposit_db [PQ_RUN, PQ_SOFT]) = Some (reply, s')"
    using sample_request by blast
  have "coin_step 20 7 500000000 (False, sample_idle sample_deposit_db [PQ_RUN, PQ_SOFT]) (False \<or> revokes sample_teh 7, s')"
    by (rule coin_step.request [OF sample_teh_ok(1) _ _ h]) (simp_all add: sample_deposit_ok sample_coin_context)
  from coin_net_spending_bounded [OF r_into_rtranclp [of "coin_step 20 7 500000000", OF this]] h show ?thesis
    by (auto simp: db_ok_def sample_deposit_db_ok coin_net_def sample_deposit_db_totals)
      (simp_all add: sample_deposit_db_def sample_db_def)
qed

text \<open>The coin of value 5 that had a deposit of 3 refunded is good for a deposit of 6.\<close>

definition sample_large_deposit :: TALER_EXCHANGEDB_Deposit where
  "sample_large_deposit = (sample_deposit 20 6)\<lparr>dep_h_contract_terms := 53\<rparr>"

definition sample_large_context :: DepositContext where
  "sample_large_context = \<lparr>dc_deposit = sample_large_deposit\<lparr>dep_deposit_fee := mk_amount ''EUR'' 1 0\<rparr>, dc_value = mk_amount ''EUR'' 5 0\<rparr>"

lemma sample_large_acceptable: "deposit_acceptable sample_teh sample_large_deposit sample_large_context"
proof -
  have "TALER_test_coin_valid sample_crypto \<lparr>coin_pub = 20, coin_denom_pub_hash = 7, coin_denom_sig = 27\<rparr> 7 = Some GNUNET_YES"
    by (simp add: TALER_test_coin_valid_def sample_crypto_def)
  moreover have "amount_in ''EUR'' (mk_amount ''EUR'' 1 0)" "amount_in ''EUR'' (mk_amount ''EUR'' 6 0)"
    "amt (mk_amount ''EUR'' 1 0) \<le> amt (mk_amount ''EUR'' 6 0)"
    by (simp_all add: mk_amount_in_EUR)
  moreover have "deposit_signed sample_teh (dc_deposit sample_large_context) = Some True"
    using hton_in [OF calculation(2), of id] hton_in [OF calculation(3), of id]
    by (auto simp: deposit_signed_def sample_large_context_def sample_large_deposit_def sample_deposit_def sample_crypto_def)
  moreover have "TALER_JSON_merchant_wire_signature_hash (teh_crypto sample_teh) (teh_json_string sample_teh)
     (dep_receiver_wire_account sample_large_deposit) = Some (Some 52)"
    using sample_deposit_hash [of 20 6] by (simp add: sample_large_deposit_def)
  ultimately show ?thesis
    by (simp add: deposit_acceptable_def sample_large_deposit_def sample_deposit_def check_timestamp_current_def
        deposit_check_denomination_def sample_lookup sample_nbo sample_denomination_def sample_large_context_def)
qed

theorem refunded_coin_overspends_witness:
  "\<exists>sig pub s'. TEH_handler_deposit sample_teh sample_large_deposit (sample_idle sample_refund_db [])
       = Some (Some (reply_ok MHD_HTTP_OK (DEPOSIT_OK sig pub)), s')
     \<and> amt (mk_amount ''EUR'' 5 0) < coin_net False (s_committed s') 20"
proof -
  have req: "deposit_request_ok sample_teh sample_large_deposit"
    unfolding deposit_request_ok_def
    using mk_amount_in_EUR [of 0 6]
    by (simp add: sample_large_deposit_def sample_deposit_def request_amount_def amount_in_def amount_wf_def sample_ok)
  have db: "db_ok sample_refund_db"
    using sample_refund_db_ok
    by (simp add: db_ok_def)
      (simp add: sample_refund_db_def sample_deposit_db_def sample_db_def reserves_ok_def reserve_total_defs sql_normal_def sqlamt_def
        AMT_LIMIT_def reserve_known_def)
  have cov: "deposit_covered sample_teh sample_large_deposit sample_large_context sample_refund_db"
    by (simp add: deposit_covered_def sample_large_deposit_def sample_deposit_def sample_large_context_def coin_spent_def
        sample_refund_db_totals deposit_key_of_def AMT_LIMIT_def)
      (simp add: sample_refund_db_def sample_deposit_db_def sample_db_def coin_known_def deposit_key_def)
  have "dep_coin sample_large_deposit = \<lparr>coin_pub = 20, coin_denom_pub_hash = 7, coin_denom_sig = 27\<rparr>"
    "dep_amount_with_fee sample_large_deposit = mk_amount ''EUR'' 6 0" "dc_value sample_large_context = mk_amount ''EUR'' 5 0"
    by (simp_all add: sample_large_deposit_def sample_deposit_def sample_large_context_def)
  with refunded_coin_overspends [OF sample_teh_ok(1) req _ _ _ sample_large_acceptable, of "sample_idle sample_refund_db []"] db cov
  show ?thesis by (auto simp: coin_net_def sample_refund_db_totals)
qed

end
