(* ===== verification/Routing.thy ===== *)
theory Routing
  imports Payto Replies
begin

text \<open>
  \<^verbatim>\<open>src/exchange/taler-exchange-httpd.c\<close>: which handler a request goes to and with which arguments. URLs are C strings
  without \<open>NUL\<close>. The result of parsing the uploaded data (\<^verbatim>\<open>TALER_MHD_parse_post_json\<close>) is an argument, a status and the JSON
  value if it is complete.
\<close>

section \<open>The table\<close>

datatype http_handler =
    TEH_handler_static_response | TEH_handler_agpl_redirect | TEH_handler_terms | TEH_handler_privacy | TEH_handler_keys
  | TEH_handler_wire | TEH_handler_reserves_get | HTTP_withdraw | HTTP_post_coins | TEH_handler_link | TEH_handler_reveal
  | TEH_handler_transfers_get | TEH_handler_deposits_get

text \<open>The member of the union \<^verbatim>\<open>handler\<close> that an entry sets\<close>

datatype handler_union = Handler_get http_handler | Handler_post http_handler

record TEH_RequestHandler =
  rh_url :: string
  rh_method :: string
  rh_handler :: handler_union
  rh_nargs :: nat
  rh_mime_type :: "string option"
  rh_data :: "string option"
  rh_data_size :: nat
  rh_response_code :: nat

abbreviation (input) MHD_HTTP_METHOD_GET :: string where "MHD_HTTP_METHOD_GET \<equiv> ''GET''"
abbreviation (input) MHD_HTTP_METHOD_POST :: string where "MHD_HTTP_METHOD_POST \<equiv> ''POST''"
abbreviation (input) MHD_HTTP_METHOD_HEAD :: string where "MHD_HTTP_METHOD_HEAD \<equiv> ''HEAD''"
abbreviation (input) MHD_HTTP_METHOD_OPTIONS :: string where "MHD_HTTP_METHOD_OPTIONS \<equiv> ''OPTIONS''"

definition get_handler :: "string \<Rightarrow> http_handler \<Rightarrow> nat \<Rightarrow> TEH_RequestHandler" where
  [simp]: "get_handler url h n = \<lparr>rh_url = url, rh_method = MHD_HTTP_METHOD_GET, rh_handler = Handler_get h, rh_nargs = n,
     rh_mime_type = None, rh_data = None, rh_data_size = 0, rh_response_code = 0\<rparr>"

definition post_handler :: "string \<Rightarrow> http_handler \<Rightarrow> nat \<Rightarrow> TEH_RequestHandler" where
  [simp]: "post_handler url h n = \<lparr>rh_url = url, rh_method = MHD_HTTP_METHOD_POST, rh_handler = Handler_post h, rh_nargs = n,
     rh_mime_type = None, rh_data = None, rh_data_size = 0, rh_response_code = 0\<rparr>"

definition static_handler :: "string \<Rightarrow> string \<Rightarrow> TEH_RequestHandler" where
  [simp]: "static_handler url text = (get_handler url TEH_handler_static_response 0)
     \<lparr>rh_mime_type := Some ''text/plain'', rh_data := Some text, rh_response_code := 200\<rparr>"

definition handlers :: "TEH_RequestHandler list" where
  "handlers =
    [static_handler ''robots.txt'' (''User-agent: *'' @ [CHR 0x0A] @ ''Disallow: /'' @ [CHR 0x0A]),
     static_handler '''' (''Hello, I'' @ [CHR 0x27] @ ''m the Taler exchange. This HTTP server is not for humans.'' @ [CHR 0x0A]),
     get_handler ''agpl'' TEH_handler_agpl_redirect 0,
     get_handler ''terms'' TEH_handler_terms 0,
     get_handler ''privacy'' TEH_handler_privacy 0,
     get_handler ''keys'' TEH_handler_keys 0,
     get_handler ''wire'' TEH_handler_wire 0,
     get_handler ''reserves'' TEH_handler_reserves_get 1,
     post_handler ''reserves'' HTTP_withdraw 2,
     post_handler ''coins'' HTTP_post_coins 2,
     get_handler ''coins'' TEH_handler_link 2,
     post_handler ''refreshes'' TEH_handler_reveal 2,
     get_handler ''transfers'' TEH_handler_transfers_get 1,
     get_handler ''deposits'' TEH_handler_deposits_get 4]"

section \<open>Parsing the URL\<close>

text \<open>\<^verbatim>\<open>strtok_r\<close> with the separator \<open>/\<close>: the next segment and what is left\<close>

definition strtok_r :: "string \<Rightarrow> (string \<times> string) option" where
  "strtok_r s = (let s = dropWhile (\<lambda>c. c = CHR ''/'') s
     in if s = [] then None
        else Some (takeWhile (\<lambda>c. c \<noteq> CHR ''/'') s, drop 1 (dropWhile (\<lambda>c. c \<noteq> CHR ''/'') s)))"

text \<open>The loop that fills \<^verbatim>\<open>args\<close>, and the check that there is nothing left\<close>

fun fill_args :: "nat \<Rightarrow> string \<Rightarrow> (string list \<times> string) option" where
  "fill_args 0 d = Some ([], d)"
| "fill_args (Suc n) d = (case strtok_r d of
       None \<Rightarrow> None
     | Some (arg, d) \<Rightarrow> map_option (\<lambda>(args, d). (arg # args, d)) (fill_args n d))"

definition parse_args :: "nat \<Rightarrow> string \<Rightarrow> string list option" where
  "parse_args nargs d = (case fill_args nargs d of
       None \<Rightarrow> None
     | Some (args, d) \<Rightarrow> if strtok_r d = None then Some args else None)"

text \<open>What becomes of a call of the HTTP server\<close>

datatype 'j dispatch =
    MHD_NO | MHD_YES
  | Reply_error nat TALER_ErrorCode
  | Reply_cors_preflight
  | Call_get http_handler "string list"
  | Call_post http_handler 'j "string list"
  | Wrong_union_member

definition call_post :: "handler_union \<Rightarrow> 'j \<Rightarrow> string list \<Rightarrow> 'j dispatch" where
  "call_post h root args = (case h of Handler_post h \<Rightarrow> Call_post h root args | Handler_get _ \<Rightarrow> Wrong_union_member)"

definition call_get :: "handler_union \<Rightarrow> string list \<Rightarrow> 'j dispatch" where
  "call_get h args = (case h of Handler_get h \<Rightarrow> Call_get h args | Handler_post _ \<Rightarrow> Wrong_union_member)"

definition proceed_with_handler ::
    "TEH_RequestHandler \<Rightarrow> string \<Rightarrow> int \<times> 'j option \<Rightarrow> 'j dispatch option" where
  "proceed_with_handler rh url upload =
     (if length url + 1 > 512
      then Some (Reply_error 414 11)
      else do {
        let post = strcasecmp_eq (rh_method rh) MHD_HTTP_METHOD_POST;
        let (res, root) = upload;
        if post \<and> res = GNUNET_SYSERR then do { GNUNET_assert (root = None); Some MHD_NO }
        else if post \<and> (res = GNUNET_NO \<or> root = None) then do { GNUNET_assert (root = None); Some MHD_YES }
        else case (if 0 < rh_nargs rh then parse_args (rh_nargs rh) url else Some []) of
            None \<Rightarrow> Some (Reply_error MHD_HTTP_NOT_FOUND 12)
          | Some args \<Rightarrow>
              (case (if post then root else None) of
                 Some root \<Rightarrow> Some (call_post (rh_handler rh) root args)
               | None \<Rightarrow> Some (call_get (rh_handler rh) args))
      })"

definition strncmp_eq :: "string \<Rightarrow> string \<Rightarrow> nat \<Rightarrow> bool" where
  "strncmp_eq a b n \<longleftrightarrow> take n (a @ [NUL]) = take n (b @ [NUL])"

text \<open>The loop over the table\<close>

datatype route = Route_cors | Route_handler TEH_RequestHandler | Route_none bool

fun find_route :: "string \<Rightarrow> nat \<Rightarrow> string \<Rightarrow> bool \<Rightarrow> TEH_RequestHandler list \<Rightarrow> route" where
  "find_route tok n meth found [] = Route_none found"
| "find_route tok n meth found (rh # rhs) =
     (if \<not> strncmp_eq tok (rh_url rh) n then find_route tok n meth found rhs
      else if strcasecmp_eq meth MHD_HTTP_METHOD_OPTIONS then Route_cors
      else if strcasecmp_eq meth (rh_method rh) then Route_handler rh
      else find_route tok n meth True rhs)"

text \<open>The length of the first segment\<close>

definition tok_size :: "string \<Rightarrow> nat" where
  "tok_size tok = (case strchr tok (CHR ''/'') of None \<Rightarrow> length tok | Some (front, _) \<Rightarrow> length front)"

text \<open>The handler that was found is kept for the next call for the same request.\<close>

definition handle_mhd_request ::
    "TEH_RequestHandler option \<Rightarrow> string \<Rightarrow> string \<Rightarrow> int \<times> 'j option \<Rightarrow> ('j dispatch \<times> TEH_RequestHandler option) option" where
  "handle_mhd_request cached url meth upload = do {
     let url = (if url = [] then ''/'' else url);
     case cached of
       Some rh \<Rightarrow> do {
         let start = (case strchr (tl url) (CHR ''/'') of None \<Rightarrow> [] | Some (_, rest) \<Rightarrow> CHR ''/'' # rest);
         r \<leftarrow> proceed_with_handler rh start upload;
         Some (r, cached)
       }
     | None \<Rightarrow> do {
         let meth = (if strcasecmp_eq meth MHD_HTTP_METHOD_HEAD then MHD_HTTP_METHOD_GET else meth);
         let tok = tl url;
         case find_route tok (tok_size tok) meth False handlers of
           Route_cors \<Rightarrow> Some (Reply_cors_preflight, None)
         | Route_handler rh \<Rightarrow> do {
             r \<leftarrow> proceed_with_handler rh (drop (tok_size tok + 1) url) upload;
             Some (r, Some rh)
           }
         | Route_none found \<Rightarrow> Some (if found then Reply_error 405 8 else Reply_error MHD_HTTP_NOT_FOUND 10, None)
       }
   }"

section \<open>Operations on coins\<close>

datatype coin_operation = TEH_coin_deposit | TEH_coin_melt | TEH_coin_recoup | TEH_coin_refund

datatype coin_dispatch = Coin_error nat TALER_ErrorCode | Coin_call coin_operation pub_key

definition coin_operations :: "(string \<times> coin_operation) list" where
  "coin_operations = [(''deposit'', TEH_coin_deposit), (''melt'', TEH_coin_melt), (''recoup'', TEH_coin_recoup), (''refund'', TEH_coin_refund)]"

text \<open>\<^verbatim>\<open>GNUNET_STRINGS_string_to_data\<close>, which decodes the key, is an argument.\<close>

definition handle_post_coins :: "(string \<Rightarrow> pub_key option) \<Rightarrow> string list \<Rightarrow> coin_dispatch" where
  "handle_post_coins string_to_data args = (case string_to_data (args ! 0) of
       None \<Rightarrow> Coin_error MHD_HTTP_BAD_REQUEST 1050
     | Some pub \<Rightarrow>
         (case map_of coin_operations (args ! 1) of
            Some handler \<Rightarrow> Coin_call handler pub
          | None \<Rightarrow> Coin_error MHD_HTTP_NOT_FOUND 9))"

section \<open>Segments\<close>

definition segment :: "string \<Rightarrow> bool" where
  "segment a \<longleftrightarrow> a \<noteq> [] \<and> CHR ''/'' \<notin> set a"

definition path_of :: "string list \<Rightarrow> string" where
  "path_of args = concat (map (\<lambda>a. CHR ''/'' # a) args)"

lemma path_of_simps [simp]: "path_of [] = []" "path_of (a # args) = CHR ''/'' # a @ path_of args"
  by (simp_all add: path_of_def)

lemma path_of_hd: "path_of args = [] \<or> hd (path_of args) = CHR ''/''"
  by (cases args) simp_all

lemma segment_dropWhile: "segment a \<Longrightarrow> dropWhile (\<lambda>c. c = CHR ''/'') (a @ s) = a @ s"
  by (cases a) (auto simp: segment_def)

lemma segment_takeWhile:
  assumes "segment a" and "s = [] \<or> hd s = CHR ''/''"
  shows "takeWhile (\<lambda>c. c \<noteq> CHR ''/'') (a @ s) = a" "dropWhile (\<lambda>c. c \<noteq> CHR ''/'') (a @ s) = s"
  using assms by (cases s; auto simp: segment_def takeWhile_append dropWhile_append)+

lemma strtok_path:
  assumes "segment a" and "s = [] \<or> hd s = CHR ''/''"
  shows "strtok_r (CHR ''/'' # a @ s) = Some (a, drop 1 s)" "strtok_r (a @ s) = Some (a, drop 1 s)"
  using assms by (auto simp: strtok_r_def segment_dropWhile segment_takeWhile Let_def segment_def)

text \<open>The separator in front of the next segment may have been consumed already.\<close>

lemma fill_args_path:
  assumes "\<forall>a\<in>set args. segment a" and "s = path_of args \<or> s = drop 1 (path_of args)"
  shows "\<exists>d. fill_args (length args) s = Some (args, d) \<and> strtok_r d = None"
  using assms
proof (induction args arbitrary: s)
  case Nil
  then show ?case by (auto simp: strtok_r_def)
next
  case (Cons a args)
  have "strtok_r s = Some (a, drop 1 (path_of args))"
    using Cons.prems strtok_path [of a "path_of args"] path_of_hd [of args] by auto
  with Cons.IH [of "drop 1 (path_of args)"] Cons.prems(1) show ?case by auto
qed

lemma parse_args_path: "\<forall>a\<in>set args. segment a \<Longrightarrow> parse_args (length args) (path_of args) = Some args"
  using fill_args_path [of args "path_of args"] by (auto simp: parse_args_def)

section \<open>The table\<close>

lemma strncmp_eq_full:
  assumes "NUL \<notin> set a"
  shows "strncmp_eq (a @ s) b (length a) \<longleftrightarrow> take (length a) b = a"
proof (cases "length b < length a")
  case True
  then have "NUL \<in> set (take (length a) (b @ [NUL]))" by (simp add: take_Cons')
  with assms True show ?thesis by (auto simp: strncmp_eq_def)
qed (auto simp: strncmp_eq_def)

lemma method_cases:
  assumes "strcasecmp_eq meth (rh_method rh)" and "rh \<in> set handlers"
  shows "rh_method rh = ''GET'' \<or> rh_method rh = ''POST''"
    "strcasecmp_eq meth x \<longleftrightarrow> strcasecmp_eq (rh_method rh) x"
  using assms by (auto simp: handlers_def strcasecmp_eq_def)

lemma strcasecmp_methods [simp]:
  "\<not> strcasecmp_eq ''GET'' ''POST''" "\<not> strcasecmp_eq ''POST'' ''GET''" "\<not> strcasecmp_eq ''GET'' ''OPTIONS''"
  "\<not> strcasecmp_eq ''POST'' ''OPTIONS''" "\<not> strcasecmp_eq ''GET'' ''HEAD''" "\<not> strcasecmp_eq ''POST'' ''HEAD''"
  by (simp_all add: strcasecmp_eq_def cstr_def tolower_def)

lemma find_route_find:
  "find_route tok n meth found rhs = Route_handler rh \<longleftrightarrow>
     find (\<lambda>r. strncmp_eq tok (rh_url r) n \<and> strcasecmp_eq meth (rh_method r)) rhs = Some rh
     \<and> \<not> strcasecmp_eq meth ''OPTIONS''"
  if "\<forall>r\<in>set rhs. \<not> strcasecmp_eq (rh_method r) ''OPTIONS''"
  using that
proof (induction tok n meth found rhs rule: find_route.induct)
  case (2 tok n meth found r rhs)
  have "strcasecmp_eq meth ''OPTIONS'' \<Longrightarrow> strcasecmp_eq meth (rh_method r) \<Longrightarrow> strcasecmp_eq (rh_method r) ''OPTIONS''"
    by (simp add: strcasecmp_eq_def)
  with 2 show ?case by auto
qed simp

lemma handlers_no_options: "\<forall>r\<in>set handlers. \<not> strcasecmp_eq (rh_method r) ''OPTIONS''"
  by (simp add: handlers_def)

lemmas handlers_find_route = find_route_find [OF handlers_no_options]

text \<open>No name in the table is a prefix of another one before it, unless the methods differ.\<close>

lemma handlers_find:
  "\<forall>rh\<in>set handlers. rh_url rh \<noteq> [] \<longrightarrow> NUL \<notin> set (rh_url rh) \<and> CHR ''/'' \<notin> set (rh_url rh) \<and>
     find (\<lambda>r. take (length (rh_url rh)) (rh_url r) = rh_url rh \<and> strcasecmp_eq (rh_method rh) (rh_method r)) handlers = Some rh"
  by code_simp

lemma find_route_exact:
  assumes "rh \<in> set handlers" and "rh_url rh \<noteq> []" and m: "\<And>x. strcasecmp_eq meth x \<longleftrightarrow> strcasecmp_eq (rh_method rh) x"
  shows "find_route (rh_url rh @ s) (length (rh_url rh)) meth False handlers = Route_handler rh"
proof -
  have nul: "NUL \<notin> set (rh_url rh)" using handlers_find assms by blast
  have "rh_method rh = ''GET'' \<or> rh_method rh = ''POST''" using assms(1) by (auto simp: handlers_def)
  then have "\<not> strcasecmp_eq (rh_method rh) ''OPTIONS''" by auto
  with handlers_find assms(1,2) show ?thesis
    unfolding handlers_find_route m strncmp_eq_full [OF nul] by simp
qed

lemma path_of_strchr:
  assumes "CHR ''/'' \<notin> set a"
  shows "tok_size (a @ path_of args) = length a"
proof (cases args)
  case Nil
  have "dropWhile (\<lambda>x. x \<noteq> CHR ''/'') a = []" using assms by auto
  then have "strchr a (CHR ''/'') = None" unfolding strchr_def by (simp only: list.case)
  with Nil show ?thesis by (simp add: tok_size_def)
next
  case (Cons b bs)
  have "dropWhile (\<lambda>x. x \<noteq> CHR ''/'') (a @ CHR ''/'' # t) = CHR ''/'' # t"
    "takeWhile (\<lambda>x. x \<noteq> CHR ''/'') (a @ CHR ''/'' # t) = a" for t
    using assms by (auto simp: dropWhile_append takeWhile_append)
  with Cons show ?thesis by (simp add: strchr_def tok_size_def)
qed

section \<open>Properties\<close>

text \<open>The call of the handler of an entry of the table\<close>

definition handler_call :: "TEH_RequestHandler \<Rightarrow> 'j \<Rightarrow> string list \<Rightarrow> 'j dispatch" where
  "handler_call rh root args = (case rh_handler rh of Handler_get h \<Rightarrow> Call_get h args | Handler_post h \<Rightarrow> Call_post h root args)"

text \<open>C39. The documented paths are routed to their handlers: a request with the name of an entry of the table (other than the
  empty one), followed by as many non-empty segments as the entry expects, for the method of the entry in any case of
  letters, calls the handler of the entry, through the right member of the union, with exactly these
  segments as arguments.\<close>

theorem handle_mhd_request_routes:
  assumes "rh \<in> set handlers" and "rh_url rh \<noteq> []" and "strcasecmp_eq meth (rh_method rh)"
    and "length args = rh_nargs rh" and "\<forall>a\<in>set args. segment a" and "length (path_of args) < 512"
  shows "handle_mhd_request None (CHR ''/'' # rh_url rh @ path_of args) meth (GNUNET_YES, Some root)
    = Some (handler_call rh root args, Some rh)"
proof -
  note m = method_cases(2) [OF assms(3,1)]
  have url: "CHR ''/'' \<notin> set (rh_url rh)" using handlers_find assms(1,2) by blast
  have "find_route (rh_url rh @ path_of args) (length (rh_url rh)) meth False handlers = Route_handler rh"
    by (rule find_route_exact [OF assms(1,2) m])
  moreover have "\<not> strcasecmp_eq meth ''HEAD''"
    using method_cases(1) [OF assms(3,1)] unfolding m by auto
  moreover have "(if 0 < rh_nargs rh then parse_args (rh_nargs rh) (path_of args) else Some []) = Some args"
    using parse_args_path [OF assms(5)] assms(4) by auto
  moreover have "rh_method rh = ''GET'' \<and> (\<exists>h. rh_handler rh = Handler_get h) \<or> rh_method rh = ''POST'' \<and> (\<exists>h. rh_handler rh = Handler_post h)"
    using assms(1) by (auto simp: handlers_def)
  ultimately show ?thesis
    using assms(6) path_of_strchr [OF url, of args]
    by (auto simp: handle_mhd_request_def proceed_with_handler_def handler_call_def call_get_def call_post_def Let_def)
qed

theorem handle_mhd_request_routes_witness:
  "handle_mhd_request None ''/coins/KEY/deposit'' ''post'' (GNUNET_YES, Some ''json'')
     = Some (Call_post HTTP_post_coins ''json'' [''KEY'', ''deposit''], Some (post_handler ''coins'' HTTP_post_coins 2))"
proof -
  have "strcasecmp_eq ''post'' ''POST''" by code_simp
  with handle_mhd_request_routes [of "post_handler ''coins'' HTTP_post_coins 2" "''post''" "[''KEY'', ''deposit'']" "''json''"]
  show ?thesis by (simp add: handlers_def handler_call_def segment_def)
qed

text \<open>Since only as many characters as the client sent are compared, a prefix of a name is as good as the name; in particular
  the empty path, which is meant for the landing page, goes to the first entry of the table. The entry of the
  landing page is unreachable.\<close>

lemma find_route_landing:
  assumes "NUL \<notin> set tok"
  shows "find_route tok (tok_size tok) meth False handlers \<noteq> Route_handler (handlers ! 1)"
proof
  assume "find_route tok (tok_size tok) meth False handlers = Route_handler (handlers ! 1)"
  then have f: "find (\<lambda>r. strncmp_eq tok (rh_url r) (tok_size tok) \<and> strcasecmp_eq meth (rh_method r)) handlers = Some (handlers ! 1)"
    by (simp add: handlers_find_route)
  then have l: "strncmp_eq tok [] (tok_size tok)" "strcasecmp_eq meth ''GET''"
    unfolding find_Some_iff by (auto simp: handlers_def)
  have "tok_size tok = 0"
  proof (rule ccontr)
    assume n: "tok_size tok \<noteq> 0"
    have "tok_size tok \<le> length tok"
      using length_takeWhile_le [of "\<lambda>x. x \<noteq> CHR ''/''" tok] by (auto simp: tok_size_def strchr_def split: list.splits)
    with n obtain c t where "tok = c # t" by (cases tok) auto
    with n assms l(1) show False by (cases "tok_size tok") (auto simp: strncmp_eq_def)
  qed
  with f l(2) show False by (simp add: handlers_def strncmp_eq_def)
qed

theorem landing_page_unreachable:
  assumes "NUL \<notin> set url" and "handle_mhd_request None url meth upload = Some (d, cached)"
  shows "cached \<noteq> Some (handlers ! 1)"
proof -
  define u where "u = (if url = [] then ''/'' else url)"
  have u: "u \<noteq> []" "NUL \<notin> set (tl u)" "handle_mhd_request None u meth upload = handle_mhd_request None url meth upload"
    using assms(1) by (cases url; simp add: u_def handle_mhd_request_def)+
  from find_route_landing [OF u(2)] assms(2) u(1,3) show ?thesis
    by (auto simp: handle_mhd_request_def Let_def bind_eq_Some_conv split: route.splits if_splits)
qed

theorem empty_path_is_robots:
  "handle_mhd_request None ''/'' ''GET'' upload
     = Some (Call_get TEH_handler_static_response [], Some (handlers ! 0))"
  by (simp add: handle_mhd_request_def tok_size_def strchr_def handlers_def strncmp_eq_def proceed_with_handler_def call_get_def Let_def
      split: prod.split)

end
