(* ===== verification/Exchangedb_Reveal.thy ===== *)
theory Exchangedb_Reveal
  imports Coin_Updates Keystate
begin

text \<open>
  The operations of \<^verbatim>\<open>plugin_exchangedb_postgres.c\<close> for the second half of a refresh: storing what the client
  revealed and the fresh coins, and looking it up again.
\<close>

section \<open>Operations\<close>

record TALER_EXCHANGEDB_RefreshRevealedCoin =
  rrco_denom_pub :: nat
  rrco_orig_coin_link_sig :: signature
  rrco_coin_ev :: string
  rrco_coin_sig :: signature

text \<open>The loop over the coins; the index is a 32-bit integer.\<close>

definition revealed_row ::
    "crypto \<Rightarrow> hash_code \<Rightarrow> u32 \<Rightarrow> TALER_EXCHANGEDB_RefreshRevealedCoin \<Rightarrow> refresh_revealed_coins_row" where
  "revealed_row cr rc i rrc = \<lparr>rrc_rc = rc, rrc_freshcoin_index = i, rrc_link_sig = rrco_orig_coin_link_sig rrc,
     rrc_denom_pub_hash = GNUNET_CRYPTO_rsa_public_key_hash cr (rrco_denom_pub rrc), rrc_coin_ev = rrco_coin_ev rrc,
     rrc_h_coin_ev = GNUNET_CRYPTO_hash_data cr (rrco_coin_ev rrc), rrc_ev_sig = rrco_coin_sig rrc\<rparr>"

fun insert_revealed_coins ::
    "gnunet \<Rightarrow> crypto \<Rightarrow> hash_code \<Rightarrow> u32 \<Rightarrow> TALER_EXCHANGEDB_RefreshRevealedCoin list \<Rightarrow> tables session
       \<Rightarrow> (int \<times> tables session) option" where
  "insert_revealed_coins g cr rc i [] s = Some (GNUNET_DB_STATUS_SUCCESS_ONE_RESULT, s)"
| "insert_revealed_coins g cr rc i (rrc # rrcs) s = do {
     (qs, s) \<leftarrow> pq_non_select g (sql_insert_refresh_revealed_coin (revealed_row cr rc i rrc)) s;
     if qs \<noteq> GNUNET_DB_STATUS_SUCCESS_ONE_RESULT then Some (qs, s)
     else insert_revealed_coins g cr rc (i + 1) rrcs s
   }"

definition postgres_insert_refresh_reveal ::
    "gnunet \<Rightarrow> crypto \<Rightarrow> hash_code \<Rightarrow> TALER_EXCHANGEDB_RefreshRevealedCoin list \<Rightarrow> nat list \<Rightarrow> pub_key \<Rightarrow> tables session
       \<Rightarrow> (int \<times> tables session) option" where
  "postgres_insert_refresh_reveal g cr rc rrcs tprivs tp s =
     (if 3 \<noteq> length tprivs + 1 then Some (GNUNET_DB_STATUS_HARD_ERROR, s)
      else do {
        (qs, s) \<leftarrow> insert_revealed_coins g cr rc 0 rrcs s;
        if qs \<noteq> GNUNET_DB_STATUS_SUCCESS_ONE_RESULT then Some (qs, s)
        else pq_non_select g (sql_insert_refresh_transfer_keys
               \<lparr>rtk_rc = rc, rtk_transfer_pub = tp, rtk_transfer_privs = tprivs\<rparr>) s
      })"

text \<open>\<open>None\<close> is an error in the closure, when the indices of the rows are not 0, 1, 2 and so on.\<close>

definition add_revealed_coins ::
    "(refresh_revealed_coins_row \<times> denominations_row) list \<Rightarrow> TALER_EXCHANGEDB_RefreshRevealedCoin list option" where
  "add_revealed_coins rows =
     (if map (\<lambda>(r, d). unat (rrc_freshcoin_index r)) rows \<noteq> [0..<length rows] then None
      else Some (map (\<lambda>(r, d). \<lparr>rrco_denom_pub = dn_denom_pub d, rrco_orig_coin_link_sig = rrc_link_sig r,
                               rrco_coin_ev = rrc_coin_ev r, rrco_coin_sig = rrc_ev_sig r\<rparr>) rows))"

text \<open>The callback is called once at most; its arguments are in the second component. Rows that cannot be extracted and
  indices out of order end the function with the number of rows, which is not an error.\<close>

definition postgres_get_refresh_reveal ::
    "gnunet \<Rightarrow> hash_code \<Rightarrow> tables session
       \<Rightarrow> ((int \<times> (TALER_EXCHANGEDB_RefreshRevealedCoin list \<times> nat list \<times> pub_key) option) \<times> tables session) option" where
  "postgres_get_refresh_reveal g rc s = do {
     ((qs, rows, bad), s) \<leftarrow> pq_multi_select g (sql_get_refresh_revealed_coins rc) s;
     if qs \<le> 0 then Some ((qs, None), s)
     else case (if bad then None else add_revealed_coins rows) of
       None \<Rightarrow> Some ((qs, None), s)
     | Some rrcs \<Rightarrow> do {
         ((qs, keys), s) \<leftarrow> pq_singleton_select g (sql_get_refresh_transfer_keys rc) s;
         case keys of
           None \<Rightarrow> Some ((qs, None), s)
         | Some k \<Rightarrow>
             (if 3 - 1 \<noteq> length (rtk_transfer_privs k) then Some ((GNUNET_DB_STATUS_HARD_ERROR, None), s)
              else Some ((qs, Some (rrcs, rtk_transfer_privs k, rtk_transfer_pub k)), s))
       }
   }"

section \<open>What they do\<close>

definition add_revealed :: "refresh_revealed_coins_row list \<Rightarrow> refresh_transfer_keys_row \<Rightarrow> tables \<Rightarrow> tables" where
  "add_revealed rows k db = db\<lparr>t_refresh_revealed_coins := t_refresh_revealed_coins db @ rows,
     t_refresh_transfer_keys := t_refresh_transfer_keys db @ [k]\<rparr>"

definition revealed_rows ::
    "crypto \<Rightarrow> hash_code \<Rightarrow> nat \<Rightarrow> TALER_EXCHANGEDB_RefreshRevealedCoin list \<Rightarrow> refresh_revealed_coins_row list" where
  "revealed_rows cr rc i rrcs = map (\<lambda>(j, rrc). revealed_row cr rc (of_nat j) rrc) (enumerate i rrcs)"

text \<open>A refresh operation whose fresh coins are in the database\<close>

definition revealed :: "tables \<Rightarrow> hash_code \<Rightarrow> bool" where
  "revealed db rc \<longleftrightarrow> (\<exists>r\<in>set (t_refresh_revealed_coins db). rrc_rc r = rc)"

text \<open>Fresh coins do not change what the old coins have spent, since nothing was recouped to them yet.\<close>

lemma revealed_coin_insert:
  assumes "sql_insert_refresh_revealed_coin row n db = Inr (k, db')" and "db_ok db"
  shows "k = 1" "db' = db\<lparr>t_refresh_revealed_coins := t_refresh_revealed_coins db @ [row]\<rparr>" "db_ok db'"
    "coin_spent r db' p = coin_spent r db p" "denom_known db (rrc_denom_pub_hash row)"
    "\<exists>m\<in>set (t_refresh_commitments db). rcm_rc m = rrc_rc row"
proof -
  show k: "k = 1" "denom_known db (rrc_denom_pub_hash row)" "\<exists>m\<in>set (t_refresh_commitments db). rcm_rc m = rrc_rc row"
    and db': "db' = db\<lparr>t_refresh_revealed_coins := t_refresh_revealed_coins db @ [row]\<rparr>"
    using assms(1) by (auto simp: sql_insert_refresh_revealed_coin_def split: if_splits)
  have new: "rrc_h_coin_ev row \<notin> rrc_h_coin_ev ` set (t_refresh_revealed_coins db)"
    using assms(1) by (auto simp: sql_insert_refresh_revealed_coin_def split: if_splits)
  have rc: "rrc_rc row \<in> rcm_rc ` set (t_refresh_commitments db)" using k(3) by (metis imageI)
  have same: "reserves_ok db' = reserves_ok db" "reserve_tables_ok db' = reserve_tables_ok db" "coin_known db' = coin_known db"
    "denom_known db' = denom_known db" "coin_denoms db' = coin_denoms db"
    by (simp_all add: db' reserves_ok_def reserve_known_def reserve_total_defs reserve_tables_ok_def coin_known_def denom_known_def
        coin_denoms_def fun_eq_iff cong: if_cong)
  from assms(2) new rc show "db_ok db'"
    by (auto simp: db_ok_def coin_tables_ok_def same) (auto simp: db')
  have "\<forall>q\<in>set (t_recoup_refresh db). rp_h_blind_ev q \<noteq> rrc_h_coin_ev row"
    using assms(2) new unfolding db_ok_def coin_tables_ok_def by metis
  then have "filter (\<lambda>q. blind_of_old_coin db' p (rp_h_blind_ev q)) (t_recoup_refresh db)
      = filter (\<lambda>q. blind_of_old_coin db p (rp_h_blind_ev q)) (t_recoup_refresh db)"
    by (intro filter_cong) (auto simp: db' blind_of_old_coin_def)
  then show "coin_spent r db' p = coin_spent r db p"
    by (simp add: coin_total_defs coin_fee_def same) (simp add: db')
qed

lemma transfer_keys_insert:
  assumes "sql_insert_refresh_transfer_keys row n db = Inr (k, db')" and "db_ok db"
  shows "k = 1" "db' = db\<lparr>t_refresh_transfer_keys := t_refresh_transfer_keys db @ [row]\<rparr>" "db_ok db'"
    "coin_spent r db' p = coin_spent r db p"
proof -
  show "k = 1" and db': "db' = db\<lparr>t_refresh_transfer_keys := t_refresh_transfer_keys db @ [row]\<rparr>"
    using assms(1) by (auto simp: sql_insert_refresh_transfer_keys_def split: if_splits)
  have same: "reserves_ok db' = reserves_ok db" "reserve_tables_ok db' = reserve_tables_ok db" "coin_known db' = coin_known db"
    "denom_known db' = denom_known db" "coin_denoms db' = coin_denoms db" "blind_of_old_coin db' = blind_of_old_coin db"
    by (simp_all add: db' reserves_ok_def reserve_known_def reserve_total_defs reserve_tables_ok_def coin_known_def denom_known_def
        coin_denoms_def blind_of_old_coin_def fun_eq_iff cong: if_cong)
  from assms(2) show "db_ok db'"
    by (auto simp: db_ok_def coin_tables_ok_def same) (auto simp: db')
  show "coin_spent r db' p = coin_spent r db p"
    by (simp add: coin_total_defs coin_fee_def same) (simp add: db')
qed

text \<open>The state of a transaction that has inserted rows: a unique violation leaves it in the failed state.\<close>

definition inserting :: "tables session \<Rightarrow> (tables \<Rightarrow> bool) \<Rightarrow> int \<Rightarrow> tables session \<Rightarrow> bool" where
  "inserting s Q qs s' \<longleftrightarrow> session_ok s' \<and> s_committed s' = s_committed s \<and> s_in_tx s' \<and>
     (qs = GNUNET_DB_STATUS_SUCCESS_ONE_RESULT \<and> \<not> s_failed s' \<and> db_ok (s_db s') \<and> Q (s_db s')
        \<and> (\<forall>r p. coin_spent r (s_db s') p = coin_spent r (s_db s) p)
      \<or> qs = GNUNET_DB_STATUS_SUCCESS_NO_RESULTS \<and> s_failed s' \<or> qs = GNUNET_DB_STATUS_SOFT_ERROR \<or> qs = GNUNET_DB_STATUS_HARD_ERROR)"

lemma insert_step_wp:
  assumes g: "gnunet_ok g" and s: "session_ok s" "s_in_tx s" "db_ok (s_db s)"
    and ins: "\<And>n k db'. stmt n (s_db s) = Inr (k, db') \<Longrightarrow>
      k = 1 \<and> db_ok db' \<and> (\<forall>r p. coin_spent r db' p = coin_spent r (s_db s) p) \<and> Q db'"
  shows "wp (pq_non_select g stmt s) (inserting s Q)"
proof (rule wp_mono [OF pq_non_select_wp [OF g s(1)]], goal_cases)
  case (1 qs s')
  then show ?case
  proof (elim disjE exE conjE, goal_cases)
    case (1 k n db)
    with ins [OF 1(2)] s session_ok_updated [OF s(1) 1(3)] show ?case by (auto simp: inserting_def updated_def)
  qed (use s session_ok_unchanged [OF s(1)] in \<open>auto simp: inserting_def unchanged_def\<close>)
qed

lemma insert_revealed_coins_wp:
  assumes "gnunet_ok g" and "session_ok s" "s_in_tx s" "\<not> s_failed s" "db_ok (s_db s)"
  shows "wp (insert_revealed_coins g cr rc (of_nat i) rrcs s) (inserting s (\<lambda>db'.
     db' = s_db s\<lparr>t_refresh_revealed_coins := t_refresh_revealed_coins (s_db s) @ revealed_rows cr rc i rrcs\<rparr>))"
  using assms(2-5)
proof (induction rrcs arbitrary: i s)
  case Nil
  then show ?case by (simp add: inserting_def revealed_rows_def)
next
  case (Cons rrc rrcs)
  let ?row = "revealed_row cr rc (of_nat i) rrc"
  have "wp (pq_non_select g (sql_insert_refresh_revealed_coin ?row) s) (inserting s (\<lambda>db'.
      db' = s_db s\<lparr>t_refresh_revealed_coins := t_refresh_revealed_coins (s_db s) @ [?row]\<rparr>))"
    using Cons.prems revealed_coin_insert [of ?row _ "s_db s"]
    by (intro insert_step_wp [OF assms(1)]) auto
  then show ?case
    unfolding insert_revealed_coins.simps
  proof (rule wp_bindI, goal_cases)
    case (1 qs s1)
    show ?case
    proof (cases "qs = GNUNET_DB_STATUS_SUCCESS_ONE_RESULT")
      case False
      with 1 show ?thesis by (auto simp: inserting_def)
    next
      case True
      with 1 have s1: "session_ok s1" "s_in_tx s1" "\<not> s_failed s1" "db_ok (s_db s1)" "s_committed s1 = s_committed s"
        "s_db s1 = s_db s\<lparr>t_refresh_revealed_coins := t_refresh_revealed_coins (s_db s) @ [?row]\<rparr>"
        "\<forall>r p. coin_spent r (s_db s1) p = coin_spent r (s_db s) p"
        by (auto simp: inserting_def)
      have "of_nat i + 1 = (of_nat (Suc i) :: u32)" by simp
      with True s1 show ?thesis
        using Cons.IH [OF s1(1-4), of "Suc i"]
        by (simp del: of_nat_Suc) (erule wp_mono, auto simp: inserting_def revealed_rows_def)
    qed
  qed
qed

lemma insert_refresh_reveal_wp:
  assumes "gnunet_ok g" and "session_ok s" "s_in_tx s" "\<not> s_failed s" "db_ok (s_db s)"
  shows "wp (postgres_insert_refresh_reveal g cr rc rrcs tprivs tp s) (inserting s (\<lambda>db'.
     db' = add_revealed (revealed_rows cr rc 0 rrcs) \<lparr>rtk_rc = rc, rtk_transfer_pub = tp, rtk_transfer_privs = tprivs\<rparr> (s_db s)))"
proof (cases "length tprivs = 2")
  case False
  with assms show ?thesis by (simp add: postgres_insert_refresh_reveal_def inserting_def)
next
  case True
  let ?k = "\<lparr>rtk_rc = rc, rtk_transfer_pub = tp, rtk_transfer_privs = tprivs\<rparr>"
  have coins: "wp (insert_revealed_coins g cr rc 0 rrcs s) (inserting s (\<lambda>db'.
     db' = s_db s\<lparr>t_refresh_revealed_coins := t_refresh_revealed_coins (s_db s) @ revealed_rows cr rc 0 rrcs\<rparr>))"
    using insert_revealed_coins_wp [OF assms, of cr rc 0 rrcs] by simp
  have "wp (insert_revealed_coins g cr rc 0 rrcs s \<bind> (\<lambda>(qs, s). if qs \<noteq> 1 then Some (qs, s)
      else pq_non_select g (sql_insert_refresh_transfer_keys ?k) s))
      (inserting s (\<lambda>db'. db' = add_revealed (revealed_rows cr rc 0 rrcs) ?k (s_db s)))"
  proof (rule wp_bindI [OF coins], goal_cases)
    case (1 qs s1)
    show ?case
    proof (cases "qs = 1")
      case False
      with 1 show ?thesis by (auto simp: inserting_def)
    next
      case True
      with 1 have s1: "session_ok s1" "s_in_tx s1" "db_ok (s_db s1)" "s_committed s1 = s_committed s"
        "s_db s1 = s_db s\<lparr>t_refresh_revealed_coins := t_refresh_revealed_coins (s_db s) @ revealed_rows cr rc 0 rrcs\<rparr>"
        "\<forall>r p. coin_spent r (s_db s1) p = coin_spent r (s_db s) p"
        by (auto simp: inserting_def)
      have "wp (pq_non_select g (sql_insert_refresh_transfer_keys ?k) s1) (inserting s1 (\<lambda>db'.
          db' = s_db s1\<lparr>t_refresh_transfer_keys := t_refresh_transfer_keys (s_db s1) @ [?k]\<rparr>))"
        using s1 transfer_keys_insert [of ?k _ "s_db s1"] by (intro insert_step_wp [OF assms(1)]) auto
      then show ?thesis
        unfolding True prod.case simp_thms if_False
        by (rule wp_mono) (use s1 in \<open>auto simp: inserting_def add_revealed_def\<close>)
    qed
  qed
  with True show ?thesis by (simp add: postgres_insert_refresh_reveal_def)
qed

text \<open>A lookup changes nothing; it finds something only if there are rows.\<close>

lemma get_refresh_reveal_wp:
  assumes "gnunet_ok g" and "session_ok s"
  shows "wp (postgres_get_refresh_reveal g rc s) (\<lambda>(qs, r) s'. unchanged s s'
     \<and> (qs < 0 \<longrightarrow> qs = GNUNET_DB_STATUS_SOFT_ERROR \<or> qs = GNUNET_DB_STATUS_HARD_ERROR)
     \<and> (r \<noteq> None \<longrightarrow> 0 < qs) \<and> (0 < qs \<longrightarrow> revealed (s_db s) rc))"
  unfolding postgres_get_refresh_reveal_def
proof (rule wp_bindI [OF pq_multi_select_wp [OF assms]], goal_cases)
  case (1 x s1)
  obtain qs rows bad where x: "x = (qs, rows, bad)" by (cases x)
  have u: "unchanged s s1" and r: "(qs = - 1 \<or> qs = - 2) \<or> qs = int (length rows) \<and> rows = sql_get_refresh_revealed_coins rc (s_db s)"
    using 1 x by auto
  have found: "revealed (s_db s) rc" if "0 < qs"
  proof -
    from that r have "rows \<noteq> []" "rows = sql_get_refresh_revealed_coins rc (s_db s)" by auto
    then have "hd rows \<in> set (sql_get_refresh_revealed_coins rc (s_db s))" by simp
    then show ?thesis by (auto simp: sql_get_refresh_revealed_coins_def revealed_def split: if_splits)
  qed
  have s1: "session_ok s1" by (rule session_ok_unchanged [OF assms(2) u])
  show ?case
  proof (cases "qs \<le> 0 \<or> (if bad then None else add_revealed_coins rows) = None")
    case True
    with u r found x show ?thesis by (cases "qs \<le> 0") auto
  next
    case False
    then obtain rrcs where a: "0 < qs" "(if bad then None else add_revealed_coins rows) = Some rrcs" by auto
    have "wp (pq_singleton_select g (sql_get_refresh_transfer_keys rc) s1 \<bind> (\<lambda>((qs, keys), s).
        case keys of None \<Rightarrow> Some ((qs, None), s)
        | Some k \<Rightarrow> if 3 - 1 \<noteq> length (rtk_transfer_privs k) then Some ((- 2, None), s)
            else Some ((qs, Some (rrcs, rtk_transfer_privs k, rtk_transfer_pub k)), s)))
       (\<lambda>(qs, r) s'. unchanged s s' \<and> (qs < 0 \<longrightarrow> qs = - 1 \<or> qs = - 2) \<and> (r \<noteq> None \<longrightarrow> 0 < qs) \<and> (0 < qs \<longrightarrow> revealed (s_db s) rc))"
      by (rule wp_bindI [OF pq_singleton_select_wp [OF assms(1) s1]])
        (use found [OF a(1)] unchanged_trans [OF u] in auto)
    with a x show ?thesis by (simp split del: if_split)
  qed
qed

end
