(* ===== verification/Refresh_Crypto.thy ===== *)
theory Refresh_Crypto
  imports Keystate
begin

text \<open>
  The part of \<^verbatim>\<open>src/util/crypto.c\<close> that wallets and the exchange use to create fresh coins: transfer secrets,
  planchets and the commitment of a refresh operation. What the asserts rely on (the Diffie-Hellman functions
  and the key derivation of GNUnet do not fail) is part of \<open>refresh_crypto_ok\<close>.
\<close>

section \<open>Transfer secrets and planchets\<close>

abbreviation (input) TALER_CNC_KAPPA :: nat where "TALER_CNC_KAPPA \<equiv> 3"

definition TALER_link_derive_transfer_secret :: "crypto \<Rightarrow> nat \<Rightarrow> nat \<Rightarrow> nat option" where
  "TALER_link_derive_transfer_secret cr coin_priv trans_priv =
     GNUNET_CRYPTO_ecdh_eddsa cr trans_priv (GNUNET_CRYPTO_eddsa_key_get_public cr coin_priv)"

definition TALER_link_reveal_transfer_secret :: "crypto \<Rightarrow> nat \<Rightarrow> pub_key \<Rightarrow> nat option" where
  "TALER_link_reveal_transfer_secret cr trans_priv pub = GNUNET_CRYPTO_ecdh_eddsa cr trans_priv pub"

definition TALER_link_recover_transfer_secret :: "crypto \<Rightarrow> pub_key \<Rightarrow> nat \<Rightarrow> nat option" where
  "TALER_link_recover_transfer_secret cr trans_pub coin_priv = GNUNET_CRYPTO_eddsa_ecdh cr coin_priv trans_pub"

record TALER_PlanchetSecretsP =
  ps_coin_priv :: nat
  ps_blinding_key :: blinding_key

definition TALER_planchet_setup_refresh :: "crypto \<Rightarrow> nat \<Rightarrow> u32 \<Rightarrow> TALER_PlanchetSecretsP option" where
  "TALER_planchet_setup_refresh cr secret_seed coin_num_salt = do {
     (priv, bks) \<leftarrow> GNUNET_CRYPTO_kdf_planchet cr (htonl coin_num_salt) secret_seed ''taler-coin-derivation'';
     Some \<lparr>ps_coin_priv = priv, ps_blinding_key = bks\<rparr>
   }"

record TALER_PlanchetDetail =
  pd_denom_pub_hash :: hash_code
  pd_coin_ev :: string

text \<open>The hash of the coin and the planchet; \<open>None\<close> is \<^verbatim>\<open>GNUNET_SYSERR\<close>.\<close>

definition TALER_planchet_prepare ::
    "crypto \<Rightarrow> nat \<Rightarrow> TALER_PlanchetSecretsP \<Rightarrow> (hash_code \<times> TALER_PlanchetDetail) option" where
  "TALER_planchet_prepare cr dk ps =
     (let c_hash = GNUNET_CRYPTO_hash_key cr (GNUNET_CRYPTO_eddsa_key_get_public cr (ps_coin_priv ps))
      in case GNUNET_CRYPTO_rsa_blind cr c_hash (ps_blinding_key ps) dk of
           None \<Rightarrow> None
         | Some coin_ev \<Rightarrow> Some (c_hash, \<lparr>pd_denom_pub_hash = GNUNET_CRYPTO_rsa_public_key_hash cr dk, pd_coin_ev = coin_ev\<rparr>))"

record TALER_FreshCoin =
  fc_sig :: signature
  fc_coin_priv :: nat

definition TALER_planchet_to_coin ::
    "crypto \<Rightarrow> nat \<Rightarrow> signature \<Rightarrow> TALER_PlanchetSecretsP \<Rightarrow> hash_code \<Rightarrow> TALER_FreshCoin option" where
  "TALER_planchet_to_coin cr dk blind_sig ps c_hash =
     (let sig = GNUNET_CRYPTO_rsa_unblind cr blind_sig (ps_blinding_key ps) dk
      in if \<not> GNUNET_CRYPTO_rsa_verify cr c_hash sig dk then None
         else Some \<lparr>fc_sig = sig, fc_coin_priv = ps_coin_priv ps\<rparr>)"

section \<open>The commitment\<close>

record TALER_RefreshCoinData =
  rcd_dk :: nat
  rcd_coin_ev :: string

record TALER_RefreshCommitmentEntry =
  rce_transfer_pub :: pub_key
  rce_new_coins :: "TALER_RefreshCoinData list"

text \<open>The loops read the first \<open>num_new_coins\<close> elements of the arrays.\<close>

definition TALER_refresh_get_commitment ::
    "crypto \<Rightarrow> nat \<Rightarrow> TALER_RefreshCommitmentEntry list \<Rightarrow> pub_key \<Rightarrow> TALER_Amount \<Rightarrow> hash_code option" where
  "TALER_refresh_get_commitment cr num_new_coins rcs pub amount_with_fee = do {
     GNUNET_assert (num_new_coins = 0 \<or> rcs \<noteq> []);
     melt_amountn \<leftarrow> TALER_amount_hton (GNUNET_htonll cr) amount_with_fee;
     Some (GNUNET_CRYPTO_hash_context cr
       (map (\<lambda>rce. Hash_transfer_pub (rce_transfer_pub rce)) rcs
        @ map (\<lambda>rcd. Hash_rsa_public_key (rcd_dk rcd)) (take num_new_coins (rce_new_coins (hd rcs)))
        @ [Hash_coin_pub pub, Hash_amount melt_amountn]
        @ concat (map (\<lambda>rce. map (\<lambda>rcd. Hash_data (rcd_coin_ev rcd)) (take num_new_coins (rce_new_coins rce))) rcs)))
   }"

section \<open>What holds of the cryptography\<close>

text \<open>Neither the Diffie-Hellman functions nor the key derivation fail, and planchets can be blinded with every
  key in \<open>D\<close>.\<close>

definition refresh_crypto_ok :: "crypto \<Rightarrow> nat set \<Rightarrow> bool" where
  "refresh_crypto_ok cr D \<longleftrightarrow> (\<forall>k p. GNUNET_CRYPTO_ecdh_eddsa cr k p \<noteq> None)
     \<and> (\<forall>i t c. GNUNET_CRYPTO_kdf_planchet cr i t c \<noteq> None)
     \<and> (\<forall>h b. \<forall>dk\<in>D. GNUNET_CRYPTO_rsa_blind cr h b dk \<noteq> None)"

lemma refresh_crypto_ok_mono: "refresh_crypto_ok cr D \<Longrightarrow> D' \<subseteq> D \<Longrightarrow> refresh_crypto_ok cr D'"
  unfolding refresh_crypto_ok_def by (auto dest: subsetD)

lemma planchet_setup_refresh_total:
  assumes "refresh_crypto_ok cr D"
  shows "\<exists>ps. TALER_planchet_setup_refresh cr t i = Some ps"
proof -
  obtain x where "GNUNET_CRYPTO_kdf_planchet cr (htonl i) t ''taler-coin-derivation'' = Some x"
    using assms unfolding refresh_crypto_ok_def by blast
  then show ?thesis by (cases x) (simp add: TALER_planchet_setup_refresh_def)
qed

lemma planchet_prepare_total:
  assumes "refresh_crypto_ok cr D" and "dk \<in> D"
  shows "\<exists>h pd. TALER_planchet_prepare cr dk ps = Some (h, pd)"
proof -
  obtain ev where "GNUNET_CRYPTO_rsa_blind cr (GNUNET_CRYPTO_hash_key cr (GNUNET_CRYPTO_eddsa_key_get_public cr (ps_coin_priv ps)))
      (ps_blinding_key ps) dk = Some ev"
    using assms unfolding refresh_crypto_ok_def by blast
  then show ?thesis by (simp add: TALER_planchet_prepare_def)
qed

end
