(* ===== verification/Reveal.thy ===== *)
theory Reveal
  imports Undisturbed Exchangedb_Reveal Refresh_Crypto
begin

text \<open>
  \<^verbatim>\<open>src/exchange/taler-exchange-httpd_refreshes_reveal.c\<close>: the second half of a refresh, in which the client reveals all but
  one of the transfer keys and receives the signatures on the fresh coins. A request can queue more than one
  reply; the result of the handler is the list of them, and the client receives the first.
\<close>

section \<open>The context and the transactions\<close>

abbreviation (input) MAX_FRESH_COINS :: nat where "MAX_FRESH_COINS \<equiv> 256"

abbreviation (input) MAX_REVEAL_RETRIES :: nat where "MAX_REVEAL_RETRIES \<equiv> 2"

text \<open>The number of fresh coins is the length of the lists.\<close>

record RevealContext =
  rv_rc :: hash_code
  rv_gamma_tp :: pub_key
  rv_transfer_privs :: "nat list"
  rv_dkis :: "TALER_EXCHANGEDB_DenominationKey list"
  rv_rcds :: "TALER_RefreshCoinData list"
  rv_link_sigs :: "signature list"
  rv_ev_sigs :: "signature list option"
  rv_preflight_ok :: int

definition reply_refreshes_reveal_success :: "signature list \<Rightarrow> exchange_reply reply" where
  "reply_refreshes_reveal_success sigs = reply_ok MHD_HTTP_OK (REVEAL_OK sigs)"

text \<open>Differences to the stored keys are only logged.\<close>

definition check_exists_cb ::
    "RevealContext \<Rightarrow> TALER_EXCHANGEDB_RefreshRevealedCoin list \<times> nat list \<times> pub_key \<Rightarrow> RevealContext" where
  "check_exists_cb rctx = (\<lambda>(rrcs, tprivs, tp).
     if rrcs = [] then rctx
     else if rv_ev_sigs rctx = None then rctx\<lparr>rv_ev_sigs := Some (map rrco_coin_sig rrcs)\<rparr>
     else rctx)"

definition refreshes_reveal_preflight :: "TEH \<Rightarrow> (RevealContext, exchange_reply, tables) transaction" where
  "refreshes_reveal_preflight teh rctx s = do {
     ((qs, found), s) \<leftarrow> postgres_get_refresh_reveal (teh_gnunet teh) (rv_rc rctx) s;
     let rctx = (case found of None \<Rightarrow> rctx | Some x \<Rightarrow> check_exists_cb rctx x);
     if qs = GNUNET_DB_STATUS_SUCCESS_NO_RESULTS then Some ((qs, None, rctx), s)
     else if qs = GNUNET_DB_STATUS_SOFT_ERROR then Some ((qs, None, rctx), s)
     else if qs = GNUNET_DB_STATUS_HARD_ERROR
     then Some ((GNUNET_DB_STATUS_HARD_ERROR,
                 Some (TALER_MHD_reply_with_error MHD_HTTP_INTERNAL_SERVER_ERROR TALER_EC_REVEAL_DB_FETCH_REVEAL_ERROR),
                 rctx\<lparr>rv_preflight_ok := GNUNET_SYSERR\<rparr>), s)
     else do {
       GNUNET_assert (rv_ev_sigs rctx \<noteq> None);
       Some ((qs, None, rctx\<lparr>rv_preflight_ok := GNUNET_YES\<rparr>), s)
     }
   }"

text \<open>The envelopes reconstructed from one of the transfer keys\<close>

definition reveal_coin :: "TEH \<Rightarrow> nat \<Rightarrow> nat \<times> TALER_EXCHANGEDB_DenominationKey \<Rightarrow> TALER_RefreshCoinData option" where
  "reveal_coin teh ts = (\<lambda>(j, dki). do {
     ps \<leftarrow> TALER_planchet_setup_refresh (teh_crypto teh) ts (of_nat j);
     (c_hash, pd) \<leftarrow> TALER_planchet_prepare (teh_crypto teh) (denom_pub dki) ps;
     Some \<lparr>rcd_dk = denom_pub dki, rcd_coin_ev = pd_coin_ev pd\<rparr>
   })"

definition reveal_entry ::
    "TEH \<Rightarrow> TALER_EXCHANGEDB_DenominationKey list \<Rightarrow> pub_key \<Rightarrow> nat \<Rightarrow> TALER_RefreshCommitmentEntry option" where
  "reveal_entry teh dkis old_coin_pub tpriv = do {
     ts \<leftarrow> TALER_link_reveal_transfer_secret (teh_crypto teh) tpriv old_coin_pub;
     new_coins \<leftarrow> those (map (reveal_coin teh ts) (enumerate 0 dkis));
     Some \<lparr>rce_transfer_pub = GNUNET_CRYPTO_ecdhe_key_get_public (teh_crypto teh) tpriv, rce_new_coins = new_coins\<rparr>
   }"

text \<open>The commitment that follows from what the client sent\<close>

definition reveal_commitment :: "TEH \<Rightarrow> RevealContext \<Rightarrow> TALER_EXCHANGEDB_Melt \<Rightarrow> hash_code option" where
  "reveal_commitment teh rctx melt = do {
     let session = melt_session melt;
     let gamma = unat (rf_noreveal_index session);
     rcs \<leftarrow> those (map (\<lambda>i.
        if i = gamma then Some \<lparr>rce_transfer_pub = rv_gamma_tp rctx, rce_new_coins = rv_rcds rctx\<rparr>
        else reveal_entry teh (rv_dkis rctx) (coin_pub (rf_coin session))
               (rv_transfer_privs rctx ! (i - (if gamma < i then 1 else 0)))) [0..<TALER_CNC_KAPPA]);
     TALER_refresh_get_commitment (teh_crypto teh) (length (rv_dkis rctx)) rcs (coin_pub (rf_coin session))
       (rf_amount_with_fee session)
   }"

text \<open>The loop that adds up the costs; the inner \<open>None\<close> is an overflow.\<close>

fun refresh_costs :: "TEH \<Rightarrow> TALER_Amount \<Rightarrow> TALER_EXCHANGEDB_DenominationKey list \<Rightarrow> TALER_Amount option option" where
  "refresh_costs teh refresh_cost [] = Some (Some refresh_cost)"
| "refresh_costs teh refresh_cost (dki # dkis) = do {
     fee_withdraw \<leftarrow> teh_ntoh teh (dk_fee_withdraw (issue_properties dki));
     value \<leftarrow> teh_ntoh teh (dk_value (issue_properties dki));
     (r, total) \<leftarrow> TALER_amount_add fee_withdraw value;
     if 0 > r then Some None
     else do {
       (r, refresh_cost) \<leftarrow> TALER_amount_add refresh_cost total;
       if 0 > r then Some None else refresh_costs teh refresh_cost dkis
     }
   }"

definition refreshes_reveal_transaction :: "TEH \<Rightarrow> (RevealContext, exchange_reply, tables) transaction" where
  "refreshes_reveal_transaction teh rctx s = do {
     ((qs, melt), s) \<leftarrow> postgres_get_melt (teh_gnunet teh) (teh_pg teh) (rv_rc rctx) s;
     let fail = (\<lambda>hc ec. Some ((GNUNET_DB_STATUS_HARD_ERROR, Some (TALER_MHD_reply_with_error hc ec), rctx), s));
     if qs = GNUNET_DB_STATUS_SUCCESS_NO_RESULTS then fail MHD_HTTP_NOT_FOUND TALER_EC_REVEAL_SESSION_UNKNOWN
     else if qs = GNUNET_DB_STATUS_SOFT_ERROR then Some ((qs, None, rctx), s)
     else case melt of
       None \<Rightarrow> fail MHD_HTTP_INTERNAL_SERVER_ERROR TALER_EC_REVEAL_DB_FETCH_SESSION_ERROR
     | Some melt \<Rightarrow>
         (if unat (rf_noreveal_index (melt_session melt)) \<ge> TALER_CNC_KAPPA
          then fail MHD_HTTP_INTERNAL_SERVER_ERROR TALER_EC_REVEAL_DB_FETCH_SESSION_ERROR
          else do {
            rc_expected \<leftarrow> reveal_commitment teh rctx melt;
            if rv_rc rctx \<noteq> rc_expected
            then Some ((GNUNET_DB_STATUS_HARD_ERROR,
                        Some (reply_ok MHD_HTTP_CONFLICT
                                (reveal_commitment_violation TALER_EC_REVEAL_COMMITMENT_VIOLATION rc_expected)), rctx), s)
            else do {
              cost \<leftarrow> refresh_costs teh (melt_melt_fee melt) (rv_dkis rctx);
              case cost of
                None \<Rightarrow> fail MHD_HTTP_INTERNAL_SERVER_ERROR TALER_EC_REVEAL_COST_CALCULATION_OVERFLOW
              | Some refresh_cost \<Rightarrow> do {
                  c \<leftarrow> TALER_amount_cmp refresh_cost (rf_amount_with_fee (melt_session melt));
                  if 0 < c then fail MHD_HTTP_INTERNAL_SERVER_ERROR TALER_EC_REVEAL_AMOUNT_INSUFFICIENT
                  else Some ((GNUNET_DB_STATUS_SUCCESS_NO_RESULTS, None, rctx), s)
                }
            }
          })
   }"

definition reveal_rrcs :: "RevealContext \<Rightarrow> TALER_EXCHANGEDB_RefreshRevealedCoin list option" where
  "reveal_rrcs rctx = do {
     ev_sigs \<leftarrow> rv_ev_sigs rctx;
     Some (map (\<lambda>i. \<lparr>rrco_denom_pub = denom_pub (rv_dkis rctx ! i), rrco_orig_coin_link_sig = rv_link_sigs rctx ! i,
                     rrco_coin_ev = rcd_coin_ev (rv_rcds rctx ! i), rrco_coin_sig = ev_sigs ! i\<rparr>) [0..<length (rv_dkis rctx)])
   }"

definition refreshes_reveal_persist :: "TEH \<Rightarrow> (RevealContext, exchange_reply, tables) transaction" where
  "refreshes_reveal_persist teh rctx s = do {
     rrcs \<leftarrow> reveal_rrcs rctx;
     (qs, s) \<leftarrow> postgres_insert_refresh_reveal (teh_gnunet teh) (teh_crypto teh) (rv_rc rctx) rrcs (rv_transfer_privs rctx)
                  (rv_gamma_tp rctx) s;
     Some ((qs, if qs = GNUNET_DB_STATUS_HARD_ERROR
                then Some (TALER_MHD_reply_with_error MHD_HTTP_INTERNAL_SERVER_ERROR TALER_EC_REVEAL_DB_COMMIT_ERROR)
                else None, rctx), s)
   }"

section \<open>Resolving the request\<close>

text \<open>The arrays of the request; an element that cannot be parsed is \<open>None\<close>, and the parser queues the error.\<close>

record reveal_request =
  rq_rc :: "hash_code option"
  rq_operation :: string
  rq_transfer_pub :: pub_key
  rq_transfer_privs :: "nat option list"
  rq_link_sigs :: "signature option list"
  rq_coin_evs :: "string option list"
  rq_new_denoms_h :: "hash_code option list"

definition array_error :: "exchange_reply reply" where
  "array_error = TALER_MHD_reply_with_error MHD_HTTP_BAD_REQUEST TALER_EC_JSON_INVALID_WITH_DETAILS"

fun reveal_denominations ::
    "TEH \<Rightarrow> TEH_KS_StateHandle \<Rightarrow> nat \<Rightarrow> hash_code option list
       \<Rightarrow> (exchange_reply reply + TALER_EXCHANGEDB_DenominationKey list) option" where
  "reveal_denominations teh ks i [] = Some (Inr [])"
| "reveal_denominations teh ks i (None # hs) = Some (Inl array_error)"
| "reveal_denominations teh ks i (Some h # hs) =
     (case TEH_KS_denomination_key_lookup_by_hash (teh_now teh (2 * i)) (teh_now teh (2 * i + 1)) ks h TEH_KS_DKU_WITHDRAW of
        Inl (ec, hc) \<Rightarrow> Some (Inl (TALER_MHD_reply_with_error hc ec))
      | Inr dki \<Rightarrow> do {
          GNUNET_assert (denom_priv dki \<noteq> None);
          r \<leftarrow> reveal_denominations teh ks (i + 1) hs;
          Some (map_sum id (\<lambda>dkis. dki # dkis) r)
        })"

fun reveal_envelopes ::
    "TALER_EXCHANGEDB_DenominationKey list \<Rightarrow> string option list \<Rightarrow> exchange_reply reply + TALER_RefreshCoinData list" where
  "reveal_envelopes (dki # dkis) (ev # evs) = (case ev of
       None \<Rightarrow> Inl array_error
     | Some ev \<Rightarrow> map_sum id (\<lambda>rcds. \<lparr>rcd_dk = denom_pub dki, rcd_coin_ev = ev\<rparr> # rcds) (reveal_envelopes dkis evs))"
| "reveal_envelopes _ _ = Inr []"

fun reveal_links ::
    "TEH \<Rightarrow> pub_key \<Rightarrow> pub_key \<Rightarrow> hash_code option list \<Rightarrow> TALER_RefreshCoinData list \<Rightarrow> signature option list
       \<Rightarrow> exchange_reply reply + signature list" where
  "reveal_links teh old_coin_pub gamma_tp (Some h # hs) (rcd # rcds) (sig # sigs) = (case sig of
       None \<Rightarrow> Inl array_error
     | Some sig \<Rightarrow>
         (if \<not> GNUNET_CRYPTO_eddsa_verify (teh_crypto teh)
                (TALER_LinkDataPS h old_coin_pub gamma_tp (GNUNET_CRYPTO_hash_data (teh_crypto teh) (rcd_coin_ev rcd)))
                sig old_coin_pub
          then Inl (TALER_MHD_reply_with_error MHD_HTTP_FORBIDDEN TALER_EC_REVEAL_LINK_SIGNATURE_INVALID)
          else map_sum id (\<lambda>sigs. sig # sigs) (reveal_links teh old_coin_pub gamma_tp hs rcds sigs)))"
| "reveal_links _ _ _ _ _ _ = Inr []"

text \<open>Signing before the transactions; the inner \<open>None\<close> is a failure to sign.\<close>

fun reveal_sign ::
    "TEH \<Rightarrow> TALER_EXCHANGEDB_DenominationKey list \<Rightarrow> TALER_RefreshCoinData list \<Rightarrow> signature list option option" where
  "reveal_sign teh (dki # dkis) (rcd # rcds) = do {
     priv \<leftarrow> denom_priv dki;
     case GNUNET_CRYPTO_rsa_sign_blinded (teh_crypto teh) priv (rcd_coin_ev rcd) of
       None \<Rightarrow> Some None
     | Some sig \<Rightarrow> do {
         sigs \<leftarrow> reveal_sign teh dkis rcds;
         Some (map_option (\<lambda>sigs. sig # sigs) sigs)
       }
   }"
| "reveal_sign teh _ _ = Some (Some [])"

text \<open>The loop over the attempts; the replies queued so far are an argument.\<close>

definition queued :: "'a option \<Rightarrow> 'a list" where
  "queued x = (case x of None \<Rightarrow> [] | Some y \<Rightarrow> [y])"

fun reveal_attempts ::
    "nat \<Rightarrow> TEH \<Rightarrow> RevealContext \<Rightarrow> exchange_reply reply list \<Rightarrow> tables session
       \<Rightarrow> (exchange_reply reply list \<times> tables session) option" where
  "reveal_attempts 0 teh rctx replies s = Some (replies, s)"
| "reveal_attempts (Suc n) teh rctx replies s = do {
     let rctx = rctx\<lparr>rv_preflight_ok := GNUNET_NO\<rparr>;
     ((ret, mhd_ret, rctx), s) \<leftarrow> TEH_DB_run_transaction (teh_gnunet teh) ''reveal pre-check''
                                    (refreshes_reveal_preflight teh) rctx s;
     let replies = replies @ queued mhd_ret;
     if ret = GNUNET_OK \<and> rv_preflight_ok rctx = GNUNET_YES
     then do {
       ev_sigs \<leftarrow> rv_ev_sigs rctx;
       Some (replies @ [reply_refreshes_reveal_success ev_sigs], s)
     }
     else if rv_preflight_ok rctx = GNUNET_SYSERR then Some (replies, s)
     else do {
       ((ret, mhd_ret, rctx), s) \<leftarrow> TEH_DB_run_transaction (teh_gnunet teh) ''run reveal''
                                      (refreshes_reveal_transaction teh) rctx s;
       let replies = replies @ queued mhd_ret;
       if ret \<noteq> GNUNET_OK then Some (replies, s)
       else do {
         ((ret, mhd_ret, rctx), s) \<leftarrow> TEH_DB_run_transaction (teh_gnunet teh) ''persist reveal''
                                        (refreshes_reveal_persist teh) rctx s;
         let replies = replies @ queued mhd_ret;
         if ret = GNUNET_OK
         then do {
           ev_sigs \<leftarrow> rv_ev_sigs rctx;
           Some (replies @ [reply_refreshes_reveal_success ev_sigs], s)
         }
         else reveal_attempts n teh rctx replies s
       }
     }
   }"

text \<open>Denominations, envelopes, the melt, the link signatures, the signatures and then the transactions\<close>

definition reveal_melt ::
    "TEH \<Rightarrow> hash_code \<Rightarrow> tables session \<Rightarrow> ((exchange_reply reply + TALER_EXCHANGEDB_Melt) \<times> tables session) option" where
  "reveal_melt teh rc s = do {
     ((qs, melt), s) \<leftarrow> with_thread_session (postgres_get_melt (teh_gnunet teh) (teh_pg teh) rc) s;
     Some (case melt of
             Some melt \<Rightarrow> Inr melt
           | None \<Rightarrow> Inl (
               if qs = GNUNET_DB_STATUS_SUCCESS_NO_RESULTS
               then TALER_MHD_reply_with_error MHD_HTTP_NOT_FOUND TALER_EC_REVEAL_SESSION_UNKNOWN
               else if qs = GNUNET_DB_STATUS_HARD_ERROR
               then TALER_MHD_reply_with_error MHD_HTTP_INTERNAL_SERVER_ERROR TALER_EC_REVEAL_DB_FETCH_SESSION_ERROR
               else TALER_MHD_reply_with_error MHD_HTTP_INTERNAL_SERVER_ERROR TALER_EC_INTERNAL_INVARIANT_FAILURE), s)
   }"

definition resolve_refreshes_reveal_denominations ::
    "TEH \<Rightarrow> TEH_KS_StateHandle \<Rightarrow> RevealContext \<Rightarrow> reveal_request \<Rightarrow> tables session
       \<Rightarrow> (exchange_reply reply list \<times> tables session) option" where
  "resolve_refreshes_reveal_denominations teh ks rctx req s = do {
     d \<leftarrow> reveal_denominations teh ks 0 (rq_new_denoms_h req);
     case d of
       Inl e \<Rightarrow> Some ([e], s)
     | Inr dkis \<Rightarrow>
         (case reveal_envelopes dkis (rq_coin_evs req) of
            Inl e \<Rightarrow> Some ([e], s)
          | Inr rcds \<Rightarrow> do {
              (m, s) \<leftarrow> reveal_melt teh (rv_rc rctx) s;
              case m of
                Inl e \<Rightarrow> Some ([e], s)
              | Inr melt \<Rightarrow>
                  (case reveal_links teh (coin_pub (rf_coin (melt_session melt))) (rv_gamma_tp rctx) (rq_new_denoms_h req) rcds
                          (rq_link_sigs req) of
                     Inl e \<Rightarrow> Some ([e], s)
                   | Inr link_sigs \<Rightarrow> do {
                       sigs \<leftarrow> reveal_sign teh dkis rcds;
                       case sigs of
                         None \<Rightarrow> Some ([TALER_MHD_reply_with_error MHD_HTTP_INTERNAL_SERVER_ERROR
                                         TALER_EC_REVEAL_SIGNING_ERROR], s)
                       | Some ev_sigs \<Rightarrow>
                           reveal_attempts MAX_REVEAL_RETRIES teh
                             (rctx\<lparr>rv_dkis := dkis, rv_rcds := rcds, rv_link_sigs := link_sigs, rv_ev_sigs := Some ev_sigs\<rparr>)
                             [] s
                     })
            })
   }"

definition handle_refreshes_reveal_json ::
    "TEH \<Rightarrow> RevealContext \<Rightarrow> reveal_request \<Rightarrow> tables session \<Rightarrow> (exchange_reply reply list \<times> tables session) option" where
  "handle_refreshes_reveal_json teh rctx req s = do {
     let num_fresh_coins = length (rq_new_denoms_h req);
     let fail = (\<lambda>hc ec. Some ([TALER_MHD_reply_with_error hc ec], s));
     GNUNET_assert (length (rq_transfer_privs req) = TALER_CNC_KAPPA - 1);
     if num_fresh_coins \<ge> MAX_FRESH_COINS \<or> num_fresh_coins = 0
     then fail MHD_HTTP_BAD_REQUEST TALER_EC_REVEAL_NEW_DENOMS_ARRAY_SIZE_EXCESSIVE
     else if num_fresh_coins \<noteq> length (rq_coin_evs req)
     then fail MHD_HTTP_BAD_REQUEST TALER_EC_REVEAL_NEW_DENOMS_ARRAY_SIZE_MISMATCH
     else if num_fresh_coins \<noteq> length (rq_link_sigs req)
     then fail MHD_HTTP_BAD_REQUEST TALER_EC_REVEAL_NEW_DENOMS_ARRAY_SIZE_MISMATCH
     else case those (rq_transfer_privs req) of
       None \<Rightarrow> Some ([array_error], s)
     | Some tprivs \<Rightarrow>
         (case teh_keys teh of
            None \<Rightarrow> fail MHD_HTTP_INTERNAL_SERVER_ERROR TALER_EC_REVEAL_KEYS_MISSING
          | Some ks \<Rightarrow> resolve_refreshes_reveal_denominations teh ks (rctx\<lparr>rv_transfer_privs := tprivs\<rparr>) req s)
   }"

definition TEH_handler_reveal ::
    "TEH \<Rightarrow> reveal_request \<Rightarrow> tables session \<Rightarrow> (exchange_reply reply list \<times> tables session) option" where
  "TEH_handler_reveal teh req s =
     (case rq_rc req of
        None \<Rightarrow> Some ([TALER_MHD_reply_with_error MHD_HTTP_BAD_REQUEST TALER_EC_REVEAL_INVALID_RCH], s)
      | Some rc \<Rightarrow>
          (if rq_operation req \<noteq> ''reveal''
           then Some ([TALER_MHD_reply_with_error MHD_HTTP_BAD_REQUEST TALER_EC_OPERATION_INVALID], s)
           else if TALER_CNC_KAPPA \<noteq> length (rq_transfer_privs req) + 1
           then Some ([TALER_MHD_reply_with_error MHD_HTTP_BAD_REQUEST TALER_EC_REVEAL_CNC_TRANSFER_ARRAY_SIZE_INVALID], s)
           else handle_refreshes_reveal_json teh
                  \<lparr>rv_rc = rc, rv_gamma_tp = rq_transfer_pub req, rv_transfer_privs = [], rv_dkis = [], rv_rcds = [],
                   rv_link_sigs = [], rv_ev_sigs = None, rv_preflight_ok = 0\<rparr> req s))"

section \<open>The melt\<close>

text \<open>What is known of a melt that was looked up\<close>

definition melt_row :: "TEH \<Rightarrow> tables \<Rightarrow> hash_code \<Rightarrow> TALER_EXCHANGEDB_Melt \<Rightarrow> bool" where
  "melt_row teh db rc melt \<longleftrightarrow> (\<exists>m\<in>set (t_refresh_commitments db). rcm_rc m = rc
     \<and> coin_pub (rf_coin (melt_session melt)) = rcm_old_coin_pub m \<and> rf_noreveal_index (melt_session melt) = rcm_noreveal_index m
     \<and> amount_in (teh_currency teh) (rf_amount_with_fee (melt_session melt))
     \<and> amt (rf_amount_with_fee (melt_session melt)) = sqlamt (rcm_amount_with_fee m)
     \<and> amount_in (teh_currency teh) (melt_melt_fee melt)
     \<and> amt (melt_melt_fee melt) = coin_fee dn_fee_refresh db (rcm_old_coin_pub m))"

lemma get_melt_wp:
  assumes teh: "teh_ok teh" and s: "session_ok s" and db: "db_ok (s_db s)"
  shows "wp (postgres_get_melt (teh_gnunet teh) (teh_pg teh) rc s) (\<lambda>(qs, r) s'. unchanged s s'
     \<and> ((qs = GNUNET_DB_STATUS_SOFT_ERROR \<or> qs = GNUNET_DB_STATUS_HARD_ERROR \<or> qs = GNUNET_DB_STATUS_SUCCESS_NO_RESULTS) \<and> r = None
        \<or> qs = GNUNET_DB_STATUS_SUCCESS_ONE_RESULT \<and> (\<exists>melt. r = Some melt \<and> melt_row teh (s_db s) rc melt)))"
  unfolding postgres_get_melt_def
proof (rule wp_bindI [OF pq_singleton_select_wp [OF teh_okD(1) [OF teh] s]], goal_cases)
  case (1 x s1)
  show ?case
  proof (cases "snd x")
    case None
    with 1 show ?thesis by (cases x) auto
  next
    case (Some y)
    obtain m k d where y: "y = (m, k, d)" by (cases y)
    have "y \<in> set (sql_get_melt rc (s_db s))" using 1 Some by (cases x) auto
    then have m: "m \<in> set (t_refresh_commitments (s_db s))" "rcm_rc m = rc" "k \<in> set (t_known_coins (s_db s))"
      "rcm_old_coin_pub m = kc_coin_pub k" "d \<in> set (t_denominations (s_db s))" "kc_denom_pub_hash k = dn_denom_pub_hash d"
      by (auto simp: y sql_get_melt_def split: if_splits)
    have ok: "coin_tables_ok (s_db s)" using db by (simp add: db_ok_def)
    have n: "sql_normal (dn_fee_refresh d)" "sql_normal (rcm_amount_with_fee m)"
      using m ok by (auto simp: coin_tables_ok_def)
    obtain fee where fee: "TALER_PQ_result_spec_amount (teh_currency teh) (dn_fee_refresh d) = Some fee"
      "amount_in (teh_currency teh) fee" "amt fee = sqlamt (dn_fee_refresh d)"
      using result_spec_amount [OF teh_okD(2) [OF teh] n(1)] by blast
    obtain a where a: "TALER_PQ_result_spec_amount (teh_currency teh) (rcm_amount_with_fee m) = Some a"
      "amount_in (teh_currency teh) a" "amt a = sqlamt (rcm_amount_with_fee m)"
      using result_spec_amount [OF teh_okD(2) [OF teh] n(2)] by blast
    have dm: "d \<in> set (coin_denoms (s_db s) (rcm_old_coin_pub m))"
      using m by (auto simp: coin_denoms_def intro!: bexI [of _ k])
    have "coin_fee dn_fee_refresh (s_db s) (rcm_old_coin_pub m) = sqlamt (dn_fee_refresh d)"
      by (rule coin_denoms_cases [OF ok, of "rcm_old_coin_pub m"]) (use dm in \<open>simp_all add: coin_fee_def\<close>)
    then have "melt_row teh (s_db s) rc \<lparr>melt_session = \<lparr>rf_coin = \<lparr>coin_pub = rcm_old_coin_pub m, coin_denom_pub_hash = kc_denom_pub_hash k,
        coin_denom_sig = 0\<rparr>, rf_coin_sig = rcm_old_coin_sig m, rf_rc = rc, rf_amount_with_fee = a,
        rf_noreveal_index = rcm_noreveal_index m\<rparr>, melt_melt_fee = fee\<rparr>"
      using m a fee by (auto simp: melt_row_def)
    with 1 Some y fee a show ?thesis by (cases x) auto
  qed
qed

section \<open>Costs and commitments\<close>

definition denomination_cost :: "TEH \<Rightarrow> TALER_EXCHANGEDB_DenominationKey \<Rightarrow> int" where
  "denomination_cost teh dki =
     (case (teh_ntoh teh (dk_value (issue_properties dki)), teh_ntoh teh (dk_fee_withdraw (issue_properties dki))) of
        (Some v, Some f) \<Rightarrow> amt v + amt f | _ \<Rightarrow> 0)"

definition reveal_context_ok :: "TEH \<Rightarrow> RevealContext \<Rightarrow> bool" where
  "reveal_context_ok teh rctx \<longleftrightarrow> teh_ok teh \<and> (\<forall>dki\<in>set (rv_dkis rctx). \<exists>h. denomination_ok teh h dki)
     \<and> refresh_crypto_ok (teh_crypto teh) (denom_pub ` set (rv_dkis rctx)) \<and> length (rv_transfer_privs rctx) = 2
     \<and> rv_ev_sigs rctx \<noteq> None"

lemma refresh_costs_total:
  assumes "amount_in (teh_currency teh) a" and "\<forall>dki\<in>set dkis. \<exists>h. denomination_ok teh h dki"
  shows "\<exists>r. refresh_costs teh a dkis = Some r \<and> (\<forall>x. r = Some x \<longrightarrow> amount_in (teh_currency teh) x
     \<and> amt x = amt a + (\<Sum>dki\<leftarrow>dkis. denomination_cost teh dki))"
  using assms
proof (induction dkis arbitrary: a)
  case (Cons dki dkis)
  from Cons.prems(2) obtain h where dk: "denomination_ok teh h dki" by auto
  obtain v f where v: "teh_ntoh teh (dk_value (issue_properties dki)) = Some v" "amount_in (teh_currency teh) v"
    "teh_ntoh teh (dk_fee_withdraw (issue_properties dki)) = Some f" "amount_in (teh_currency teh) f"
    using denomination_okD(2,3) [OF dk] by blast
  obtain r t where t: "TALER_amount_add f v = Some (r, t)" "0 \<le> r \<longrightarrow> amount_in (teh_currency teh) t \<and> amt t = amt f + amt v"
    using amount_add_wp [OF v(4,2)] by (auto simp: wp_iff)
  show ?case
  proof (cases "0 > r")
    case True
    with v t show ?thesis by simp
  next
    case False
    then have t': "amount_in (teh_currency teh) t" "amt t = amt f + amt v" using t by auto
    obtain r2 b where b: "TALER_amount_add a t = Some (r2, b)" "0 \<le> r2 \<longrightarrow> amount_in (teh_currency teh) b \<and> amt b = amt a + amt t"
      using amount_add_wp [OF Cons.prems(1) t'(1)] by (auto simp: wp_iff)
    show ?thesis
    proof (cases "0 > r2")
      case True
      with v t b False show ?thesis by simp
    next
      case f2: False
      with Cons.IH [of b] Cons.prems(2) b v t t' False show ?thesis
        by (auto simp: denomination_cost_def)
    qed
  qed
qed simp

lemma reveal_entry_total:
  assumes cr: "refresh_crypto_ok (teh_crypto teh) (denom_pub ` set dkis)"
  shows "\<exists>e. reveal_entry teh dkis p tpriv = Some e"
proof -
  obtain ts where ts: "TALER_link_reveal_transfer_secret (teh_crypto teh) tpriv p = Some ts"
    using cr unfolding refresh_crypto_ok_def TALER_link_reveal_transfer_secret_def by blast
  have "\<forall>x\<in>set (enumerate 0 dkis). reveal_coin teh ts x \<noteq> None"
  proof
    fix x assume "x \<in> set (enumerate 0 dkis)"
    then have "snd x \<in> set dkis" by (auto simp: in_set_enumerate_eq) (metis nth_mem)
    then obtain j dki where x: "x = (j, dki)" "dki \<in> set dkis" by (cases x) auto
    obtain ps where "TALER_planchet_setup_refresh (teh_crypto teh) ts (of_nat j) = Some ps"
      using planchet_setup_refresh_total [OF cr] by blast
    moreover obtain h pd where "TALER_planchet_prepare (teh_crypto teh) (denom_pub dki) ps = Some (h, pd)"
      using planchet_prepare_total [OF cr] x(2) by blast
    ultimately show "reveal_coin teh ts x \<noteq> None" by (simp add: reveal_coin_def x)
  qed
  from those_map_exists [OF this] ts show ?thesis by (auto simp: reveal_entry_def)
qed

lemma reveal_commitment_total:
  assumes "reveal_context_ok teh rctx" and "amount_in (teh_currency teh) (rf_amount_with_fee (melt_session melt))"
  shows "\<exists>rc. reveal_commitment teh rctx melt = Some rc"
proof -
  let ?f = "\<lambda>i. if i = unat (rf_noreveal_index (melt_session melt)) then Some \<lparr>rce_transfer_pub = rv_gamma_tp rctx, rce_new_coins = rv_rcds rctx\<rparr>
        else reveal_entry teh (rv_dkis rctx) (coin_pub (rf_coin (melt_session melt)))
               (rv_transfer_privs rctx ! (i - (if unat (rf_noreveal_index (melt_session melt)) < i then 1 else 0)))"
  have "\<forall>i\<in>set [0..<3]. ?f i \<noteq> None"
    using reveal_entry_total [of teh "rv_dkis rctx"] assms(1) by (auto simp: reveal_context_ok_def)
  from those_map_exists [OF this] obtain rcs where rcs: "those (map ?f [0..<3]) = Some rcs" by blast
  then have "rcs \<noteq> []" by (auto simp: those_map_Some)
  moreover obtain n where "TALER_amount_hton (GNUNET_htonll (teh_crypto teh)) (rf_amount_with_fee (melt_session melt)) = Some n"
    using hton_in [OF assms(2)] by blast
  ultimately show ?thesis
    using rcs by (simp add: reveal_commitment_def Let_def TALER_refresh_get_commitment_def)
qed

text \<open>What the transaction has checked: the commitment of the melt is to the envelopes and keys of the request, and
  what was melted covers the fee and the values and withdraw fees of all fresh coins.\<close>

definition reveal_checked :: "TEH \<Rightarrow> RevealContext \<Rightarrow> tables \<Rightarrow> bool" where
  "reveal_checked teh rctx db \<longleftrightarrow> (\<exists>melt. melt_row teh db (rv_rc rctx) melt
     \<and> unat (rf_noreveal_index (melt_session melt)) < 3 \<and> reveal_commitment teh rctx melt = Some (rv_rc rctx)
     \<and> amt (melt_melt_fee melt) + (\<Sum>dki\<leftarrow>rv_dkis rctx. denomination_cost teh dki) \<le> amt (rf_amount_with_fee (melt_session melt)))"

section \<open>The transactions\<close>

definition reveal_refused :: "exchange_reply reply option \<Rightarrow> bool" where
  "reveal_refused mhd_ret \<longleftrightarrow> (\<exists>r. mhd_ret = Some r \<and> (\<forall>sigs. r \<noteq> reply_ok MHD_HTTP_OK (REVEAL_OK sigs)))"

lemma reveal_refused_simps [simp]:
  "reveal_refused (Some (TALER_MHD_reply_with_error hc ec))" "\<not> reveal_refused None"
  "reveal_refused (Some (reply_ok hc' (reveal_commitment_violation ec rc)))"
  by (simp_all add: reveal_refused_def)

text \<open>The flag is only set when there are fresh coins in the database.\<close>

definition preflight_cls :: "TEH \<Rightarrow> RevealContext \<Rightarrow> tables \<Rightarrow> RevealContext \<Rightarrow> bool" where
  "preflight_cls teh rctx db c \<longleftrightarrow> teh_ok teh \<and> rv_ev_sigs rctx \<noteq> None
     \<and> (\<exists>p. c = rctx\<lparr>rv_preflight_ok := p\<rparr> \<and> (p = GNUNET_YES \<longrightarrow> revealed db (rv_rc rctx)))"

lemma reveal_preflight_callback:
  assumes "preflight_cls teh rctx db c" and "in_fresh_tx s" and "s_db s = db"
  shows "wp (refreshes_reveal_preflight teh c s)
     (callback_ok (\<lambda>d. d = db) (preflight_cls teh rctx db) (\<lambda>_ _ _ _. True) (\<lambda>_. reveal_refused) c (s_db s))"
  unfolding refreshes_reveal_preflight_def
proof (rule wp_bindI [OF get_refresh_reveal_wp [OF teh_okD(1) in_fresh_txD(1) [OF assms(2)]]], goal_cases)
  case 1
  then show ?case using assms(1) by (simp add: preflight_cls_def)
next
  case (2 x s1)
  obtain qs r where x: "x = (qs, r)" by (cases x)
  from assms(1) obtain p where c: "c = rctx\<lparr>rv_preflight_ok := p\<rparr>" "teh_ok teh" "rv_ev_sigs rctx \<noteq> None"
    "p = GNUNET_YES \<longrightarrow> revealed db (rv_rc rctx)" by (auto simp: preflight_cls_def)
  have cb: "(case r of None \<Rightarrow> c | Some y \<Rightarrow> check_exists_cb c y) = c"
    using c by (auto simp: check_exists_cb_def split: option.splits)
  from 2 x have u: "unchanged s s1" and qs: "qs < 0 \<longrightarrow> qs = - 1 \<or> qs = - 2" "0 < qs \<longrightarrow> revealed db (rv_rc rctx)"
    using assms(3) c by auto
  note f = unchanged_fresh [OF assms(2) u]
  consider "qs = 0" | "qs = - 1" | "qs = - 2" | "0 < qs" using qs(1) by linarith
  then show ?case
    unfolding x prod.case Let_def cb
    by cases (use f assms(3) c qs in \<open>auto simp: callback_ok_def preflight_cls_def\<close>)
qed

interpretation reveal_preflight: db_transaction_replying "teh_gnunet teh" "refreshes_reveal_preflight teh" "\<lambda>d. d = db"
    "preflight_cls teh rctx db" "\<lambda>_ _ _ _. True" "\<lambda>_. reveal_refused" for teh rctx db
proof unfold_locales
  show "preflight_cls teh rctx db c \<Longrightarrow> gnunet_ok (teh_gnunet teh)" for c
    by (simp add: preflight_cls_def teh_ok_def)
qed (auto intro: reveal_preflight_callback simp: reveal_refused_def)

definition reveal_cls :: "TEH \<Rightarrow> RevealContext \<Rightarrow> RevealContext \<Rightarrow> bool" where
  "reveal_cls teh rctx c \<longleftrightarrow> c = rctx \<and> reveal_context_ok teh rctx"

lemma reveal_transaction_callback:
  assumes ok: "reveal_context_ok teh rctx" and s: "in_fresh_tx s" and db: "db_ok (s_db s)" "s_db s = db0"
  shows "wp (refreshes_reveal_transaction teh rctx s)
     (callback_ok (\<lambda>d. d = db0 \<and> db_ok d) (reveal_cls teh rctx) (\<lambda>c db c' db'. reveal_checked teh rctx db) (\<lambda>_. reveal_refused)
       rctx (s_db s))"
proof -
  have teh: "teh_ok teh" using ok by (simp add: reveal_context_ok_def)
  show ?thesis
    unfolding refreshes_reveal_transaction_def
  proof (rule wp_bindI [OF get_melt_wp [OF teh in_fresh_txD(1) [OF s] db(1)]], goal_cases)
    case (1 x s1)
    obtain qs m where x: "x = (qs, m)" by (cases x)
    have u: "unchanged s s1" using 1 x by simp
    note f = unchanged_fresh [OF s u]
    have fail: "callback_ok (\<lambda>d. d = db0 \<and> db_ok d) (reveal_cls teh rctx) (\<lambda>c db c' db'. reveal_checked teh rctx db) (\<lambda>_. reveal_refused)
       rctx (s_db s) (- 2, Some r, rctx) s1" if "reveal_refused (Some r)" for r
      using that f ok by (simp add: callback_ok_def reveal_cls_def)
    show ?case
    proof (cases m)
      case None
      with 1 x f ok fail show ?thesis by (auto simp: callback_ok_def reveal_cls_def)
    next
      case (Some melt)
      with 1 x have qs: "qs = 1" and row: "melt_row teh (s_db s) (rv_rc rctx) melt" by auto
      then have a: "amount_in (teh_currency teh) (rf_amount_with_fee (melt_session melt))"
        "amount_in (teh_currency teh) (melt_melt_fee melt)" by (auto simp: melt_row_def)
      obtain rc where rc: "reveal_commitment teh rctx melt = Some rc"
        using reveal_commitment_total [OF ok a(1)] by blast
      have "\<forall>dki\<in>set (rv_dkis rctx). \<exists>h. denomination_ok teh h dki" using ok by (simp add: reveal_context_ok_def)
      from refresh_costs_total [OF a(2) this] obtain cost where cost: "refresh_costs teh (melt_melt_fee melt) (rv_dkis rctx) = Some cost"
        "\<And>x. cost = Some x \<Longrightarrow> amount_in (teh_currency teh) x
           \<and> amt x = amt (melt_melt_fee melt) + (\<Sum>dki\<leftarrow>rv_dkis rctx. denomination_cost teh dki)" by blast
      have passed: "callback_ok (\<lambda>d. d = db0 \<and> db_ok d) (reveal_cls teh rctx) (\<lambda>c db c' db'. reveal_checked teh rctx db) (\<lambda>_. reveal_refused)
       rctx (s_db s) (0, None, rctx) s1" if "reveal_checked teh rctx (s_db s)"
        using that f ok db by (simp add: callback_ok_def reveal_cls_def)
      show ?thesis
      proof (cases "unat (rf_noreveal_index (melt_session melt)) < 3 \<and> rc = rv_rc rctx \<and> cost \<noteq> None")
        case False
        with x Some qs rc cost(1) fail show ?thesis by (auto simp: Let_def)
      next
        case True
        then obtain k where k: "cost = Some k" by blast
        show ?thesis
        proof (cases "amt k \<le> amt (rf_amount_with_fee (melt_session melt))")
          case le: True
          have "reveal_checked teh rctx (s_db s)"
            unfolding reveal_checked_def
            using True le cost(2) [OF k] row rc by (intro exI [of _ melt]) auto
          with True le k x Some qs rc cost a passed show ?thesis by (auto simp: Let_def cmp_in)
        next
          case False
          with True k x Some qs rc cost a fail show ?thesis by (auto simp: Let_def cmp_in)
        qed
      qed
    qed
  qed
qed

interpretation reveal_transaction: db_transaction_replying "teh_gnunet teh" "refreshes_reveal_transaction teh"
    "\<lambda>d. d = db \<and> db_ok d" "reveal_cls teh rctx" "\<lambda>c db c' db'. reveal_checked teh rctx db" "\<lambda>_. reveal_refused" for teh rctx db
proof unfold_locales
  show "reveal_cls teh rctx c \<Longrightarrow> gnunet_ok (teh_gnunet teh)" for c
    by (simp add: reveal_cls_def reveal_context_ok_def teh_ok_def)
qed (auto simp: reveal_refused_def reveal_cls_def intro: reveal_transaction_callback)

text \<open>Either the rows are added, or a uniqueness constraint was violated; then nothing is stored, but the
  transaction succeeds.\<close>

definition reveal_rows :: "TEH \<Rightarrow> RevealContext \<Rightarrow> tables \<Rightarrow> tables" where
  "reveal_rows teh rctx = add_revealed (revealed_rows (teh_crypto teh) (rv_rc rctx) 0 (the (reveal_rrcs rctx)))
     \<lparr>rtk_rc = rv_rc rctx, rtk_transfer_pub = rv_gamma_tp rctx, rtk_transfer_privs = rv_transfer_privs rctx\<rparr>"

definition same_spent :: "tables \<Rightarrow> tables \<Rightarrow> bool" where
  "same_spent db db' \<longleftrightarrow> (\<forall>r p. coin_spent r db' p = coin_spent r db p)"

lemma reveal_persist_callback:
  assumes ok: "reveal_context_ok teh rctx" and s: "in_fresh_tx s" and db: "db_ok (s_db s)" "same_spent db0 (s_db s)"
  shows "wp (refreshes_reveal_persist teh rctx s)
     (callback_ok (\<lambda>d. db_ok d \<and> same_spent db0 d) (reveal_cls teh rctx) (\<lambda>c db c' db'. db' = db \<or> db' = reveal_rows teh rctx db)
       (\<lambda>_. reveal_refused) rctx (s_db s))"
proof -
  have g: "gnunet_ok (teh_gnunet teh)" using ok by (simp add: reveal_context_ok_def teh_ok_def)
  note f = in_fresh_txD [OF s]
  obtain rrcs where rrcs: "reveal_rrcs rctx = Some rrcs"
    using ok by (auto simp: reveal_context_ok_def reveal_rrcs_def)
  show ?thesis
    unfolding refreshes_reveal_persist_def rrcs bind.bind_lunit
  proof (rule wp_bindI [OF insert_refresh_reveal_wp [OF g f(1-3) db(1)]], goal_cases)
    case (1 qs s1)
    then have s1: "s_committed s1 = s_db s" "s_in_tx s1" using f by (auto simp: inserting_def)
    consider "qs = 1" "\<not> s_failed s1" "db_ok (s_db s1)" "s_db s1 = reveal_rows teh rctx (s_db s)" "same_spent (s_db s) (s_db s1)"
      | "qs = 0" "s_failed s1" | "qs = - 1 \<or> qs = - 2"
      using 1 by (auto simp: inserting_def reveal_rows_def rrcs same_spent_def)
    then show ?case
      by cases (use s1 db ok in \<open>auto simp: callback_ok_def reveal_cls_def tx_outcome_def same_spent_def\<close>)
  qed
qed

interpretation reveal_persist: db_transaction_replying "teh_gnunet teh" "refreshes_reveal_persist teh"
    "\<lambda>d. db_ok d \<and> same_spent db d" "reveal_cls teh rctx" "\<lambda>c db c' db'. db' = db \<or> db' = reveal_rows teh rctx db" "\<lambda>_. reveal_refused"
    for teh rctx db
proof unfold_locales
  show "reveal_cls teh rctx c \<Longrightarrow> gnunet_ok (teh_gnunet teh)" for c
    by (simp add: reveal_cls_def reveal_context_ok_def teh_ok_def)
qed (auto simp: reveal_refused_def reveal_cls_def intro: reveal_persist_callback)

section \<open>The attempts\<close>

lemma reveal_preflight_irrelevant [simp]:
  "reveal_checked teh (rctx\<lparr>rv_preflight_ok := p\<rparr>) = reveal_checked teh rctx"
  "reveal_rows teh (rctx\<lparr>rv_preflight_ok := p\<rparr>) = reveal_rows teh rctx"
  "reveal_context_ok teh (rctx\<lparr>rv_preflight_ok := p\<rparr>) = reveal_context_ok teh rctx"
  by (simp_all add: reveal_checked_def reveal_rows_def reveal_context_ok_def reveal_rrcs_def reveal_commitment_def fun_eq_iff cong: if_cong)

definition no_reveal_success :: "exchange_reply reply list \<Rightarrow> bool" where
  "no_reveal_success replies \<longleftrightarrow> (\<forall>sigs. reply_ok MHD_HTTP_OK (REVEAL_OK sigs) \<notin> set replies)"

definition reveal_done ::
    "TEH \<Rightarrow> RevealContext \<Rightarrow> tables \<Rightarrow> exchange_reply reply list \<Rightarrow> tables session \<Rightarrow> bool" where
  "reveal_done teh rctx db replies s' \<longleftrightarrow> idle s' \<and> db_ok (s_committed s') \<and> same_spent db (s_committed s') \<and> replies \<noteq> []
     \<and> (s_committed s' = db \<or> reveal_checked teh rctx db \<and> s_committed s' = reveal_rows teh rctx db)
     \<and> (\<forall>sigs. reply_ok MHD_HTTP_OK (REVEAL_OK sigs) \<in> set replies \<longrightarrow>
          rv_ev_sigs rctx = Some sigs \<and> (revealed db (rv_rc rctx) \<or> reveal_checked teh rctx db))"

lemma same_spent_refl [simp]: "same_spent db db"
  by (simp add: same_spent_def)

lemma queued_simps [simp]: "queued None = []" "queued (Some r) = [r]"
  by (simp_all add: queued_def)

lemma reveal_doneI:
  assumes "idle s'" "db_ok (s_committed s')" "same_spent db (s_committed s')" "no_reveal_success replies"
    and "s_committed s' = db \<or> reveal_checked teh rctx db \<and> s_committed s' = reveal_rows teh rctx db"
  shows "replies \<noteq> [] \<Longrightarrow> reveal_done teh rctx db replies s'"
    and "rv_ev_sigs rctx = Some sigs \<Longrightarrow> revealed db (rv_rc rctx) \<or> reveal_checked teh rctx db \<Longrightarrow>
      reveal_done teh rctx db (replies @ [reply_refreshes_reveal_success sigs]) s'"
  using assms by (auto simp: reveal_done_def no_reveal_success_def reply_refreshes_reveal_success_def)

lemma no_reveal_success_queued:
  "no_reveal_success replies \<Longrightarrow> mhd_ret = None \<or> reveal_refused mhd_ret \<Longrightarrow> no_reveal_success (replies @ queued mhd_ret)"
  by (auto simp: no_reveal_success_def reveal_refused_def)

text \<open>What every attempt that does not fail hard keeps of the context\<close>

lemma run_attempts_context:
  assumes step: "\<And>c s qs mhd_ret c' s'. C c \<Longrightarrow> cb c s = Some ((qs, mhd_ret, c'), s') \<Longrightarrow> qs \<noteq> GNUNET_DB_STATUS_HARD_ERROR \<Longrightarrow> C c'"
    and "C c" and "run_attempts n g name cb c s = Some ((GNUNET_OK, mhd_ret, c'), s')"
  shows "C c'"
  using assms(2,3)
proof (induction n arbitrary: c s)
  case (Suc n)
  obtain ok s1 where start: "postgres_start name s = Some (ok, s1)" "ok = GNUNET_OK"
    using Suc.prems(2) by (cases "postgres_start name s") (auto split: if_splits)
  obtain qs m c1 s2 where cb: "cb c s1 = Some ((qs, m, c1), s2)" "qs \<noteq> GNUNET_DB_STATUS_HARD_ERROR"
    using Suc.prems(2) start by (cases "cb c s1") (auto simp: Let_def split: if_splits)
  have c1: "C c1" by (rule step [OF Suc.prems(1) cb])
  show ?case
    using Suc.prems(2) start cb Suc.IH [OF c1] c1
    by (cases "0 \<le> qs") (auto simp: bind_eq_Some_conv Let_def split: if_splits)
qed simp

lemma preflight_no_syserr:
  assumes "TEH_DB_run_transaction g name (refreshes_reveal_preflight teh) c s = Some ((GNUNET_OK, mhd_ret, c'), s')"
    and "rv_preflight_ok c \<noteq> GNUNET_SYSERR"
  shows "rv_preflight_ok c' \<noteq> GNUNET_SYSERR"
proof -
  have step: "rv_preflight_ok c' \<noteq> - 1" if "rv_preflight_ok c \<noteq> - 1" "refreshes_reveal_preflight teh c s = Some ((qs, m, c'), s')" "qs \<noteq> - 2"
    for c s qs m c' s'
  proof -
    have "rv_preflight_ok (case x of None \<Rightarrow> c | Some y \<Rightarrow> check_exists_cb c y) = rv_preflight_ok c" for x
      by (simp add: check_exists_cb_def split: option.split prod.split)
    with that show ?thesis
      by (auto simp: refreshes_reveal_preflight_def bind_eq_Some_conv Let_def split: if_splits)
  qed
  from assms(1) obtain s1 where ra: "run_attempts 100 g name (refreshes_reveal_preflight teh) c s1 = Some ((1, mhd_ret, c'), s')"
    by (auto simp: TEH_DB_run_transaction_def split: prod.splits if_splits)
  show ?thesis
    by (rule run_attempts_context [where C = "\<lambda>c. rv_preflight_ok c \<noteq> - 1", OF _ assms(2) ra]) (rule step)
qed

lemma reveal_attempts_wp:
  assumes ok: "reveal_context_ok teh rctx" and s: "idle s" "db_ok (s_committed s)"
    and replies: "no_reveal_success replies" "n = 0 \<longrightarrow> replies \<noteq> []"
  shows "wp (reveal_attempts n teh rctx replies s) (reveal_done teh rctx (s_committed s))"
  using assms
proof (induction n arbitrary: rctx replies s)
  case 0
  then show ?case by (simp add: reveal_doneI(1))
next
  case (Suc n)
  let ?db = "s_committed s"
  let ?c0 = "rctx\<lparr>rv_preflight_ok := 0\<rparr>"
  have teh: "teh_ok teh" "rv_ev_sigs rctx \<noteq> None" using Suc.prems(1) by (auto simp: reveal_context_ok_def)
  then have cls: "preflight_cls teh rctx ?db ?c0" by (auto simp: preflight_cls_def intro!: exI [of _ 0])
  obtain sigs where sigs: "rv_ev_sigs rctx = Some sigs" using teh(2) by blast
  have "wp (TEH_DB_run_transaction (teh_gnunet teh) name (refreshes_reveal_preflight teh) ?c0 s)
      (\<lambda>(ret, mhd_ret, c) s'. ret = GNUNET_OK \<longrightarrow> rv_preflight_ok c \<noteq> GNUNET_SYSERR)" for name
    using reveal_preflight.run_transaction_wp [OF cls Suc.prems(2) refl, of name]
    by (auto simp: wp_iff dest!: preflight_no_syserr)
  note pre = this
  show ?case
    unfolding reveal_attempts.simps Let_def
  proof (rule wp_bindI [OF wp_conj [OF reveal_preflight.run_transaction_wp [OF cls Suc.prems(2) refl] pre]], goal_cases)
    case (1 x s1)
    obtain ret mhd_ret c where x: "x = (ret, mhd_ret, c)" by (cases x)
    with 1 have s1: "idle s1" "s_committed s1 = ?db" and c: "preflight_cls teh rctx ?db c"
      and r: "ret = GNUNET_OK \<and> mhd_ret = None \<or> ret = GNUNET_SYSERR \<and> reveal_refused mhd_ret"
      and np: "ret = GNUNET_OK \<longrightarrow> rv_preflight_ok c \<noteq> GNUNET_SYSERR"
      by (auto simp: run_ok_def)
    from c obtain p where p: "c = rctx\<lparr>rv_preflight_ok := p\<rparr>" "p = GNUNET_YES \<longrightarrow> revealed ?db (rv_rc rctx)"
      by (auto simp: preflight_cls_def)
    let ?r1 = "replies @ queued mhd_ret"
    have r1: "no_reveal_success ?r1" using no_reveal_success_queued Suc.prems(4) r by blast
    have db1: "db_ok (s_committed s1)" using s1 Suc.prems(3) by simp
    show ?case
    proof (cases "ret = GNUNET_OK \<and> p = GNUNET_YES \<or> p = GNUNET_SYSERR")
      case True
      note I = reveal_doneI [OF s1(1) db1, of ?db ?r1 teh rctx]
      from True show ?thesis
      proof
        assume "ret = GNUNET_OK \<and> p = GNUNET_YES"
        with x p sigs r1 s1 I(2) [of sigs] show ?thesis by simp
      next
        assume "p = GNUNET_SYSERR"
        with np p have "ret \<noteq> GNUNET_OK" by auto
        with r have "?r1 \<noteq> []" by (cases mhd_ret) auto
        with \<open>p = GNUNET_SYSERR\<close> x p r1 s1 I(1) show ?thesis by simp
      qed
    next
      case False
      have okc: "reveal_cls teh c c" using Suc.prems(1) p by (simp add: reveal_cls_def)
      have "wp (TEH_DB_run_transaction (teh_gnunet teh) ''run reveal'' (refreshes_reveal_transaction teh) c s1 \<bind>
         (\<lambda>((ret, mhd_ret, rctx), s).
            if ret \<noteq> 1 then Some (?r1 @ queued mhd_ret, s)
            else TEH_DB_run_transaction (teh_gnunet teh) ''persist reveal'' (refreshes_reveal_persist teh) rctx s \<bind>
              (\<lambda>((ret, mhd_ret', rctx), s).
                 if ret = 1 then rv_ev_sigs rctx \<bind> (\<lambda>ev_sigs.
                   Some (((?r1 @ queued mhd_ret) @ queued mhd_ret') @ [reply_refreshes_reveal_success ev_sigs], s))
                 else reveal_attempts n teh rctx ((?r1 @ queued mhd_ret) @ queued mhd_ret') s)))
         (reveal_done teh rctx ?db)"
      proof (rule wp_bindI [OF reveal_transaction.run_transaction_wp [OF okc s1(1), of ?db]], goal_cases)
        case 1
        then show ?case using s1 Suc.prems(3) by simp
      next
        case (2 y s2)
        obtain ret2 m2 c2 where y: "y = (ret2, m2, c2)" by (cases y)
        with 2 have s2: "idle s2" "s_committed s2 = ?db" "c2 = c"
          and r2: "ret2 = GNUNET_OK \<and> m2 = None \<and> reveal_checked teh c ?db \<or> ret2 = GNUNET_SYSERR \<and> reveal_refused m2"
          using s1(2) by (auto simp: run_ok_def reveal_cls_def)
        let ?r2 = "?r1 @ queued m2"
        have r2': "no_reveal_success ?r2" using no_reveal_success_queued [OF r1] r2 by blast
        show ?case
        proof (cases "ret2 = GNUNET_OK")
          case False
          with r2 have "?r2 \<noteq> []" by (cases m2) auto
          with False y r2' s2 Suc.prems(3) show ?thesis
            using reveal_doneI(1) [of s2 ?db ?r2 teh rctx] by simp
        next
          case True
          with r2 p have chk: "reveal_checked teh rctx ?db" by simp
          have "wp (TEH_DB_run_transaction (teh_gnunet teh) ''persist reveal'' (refreshes_reveal_persist teh) c s2 \<bind>
              (\<lambda>((ret, mhd_ret', rctx), s).
                 if ret = 1 then rv_ev_sigs rctx \<bind> (\<lambda>ev_sigs.
                   Some ((?r2 @ queued mhd_ret') @ [reply_refreshes_reveal_success ev_sigs], s))
                 else reveal_attempts n teh rctx (?r2 @ queued mhd_ret') s)) (reveal_done teh rctx ?db)"
          proof (rule wp_bindI [OF reveal_persist.run_transaction_wp [OF okc s2(1), of ?db]], goal_cases)
            case 1
            then show ?case using s2 Suc.prems(3) by simp
          next
            case (2 z s3)
            obtain ret3 m3 c3 where z: "z = (ret3, m3, c3)" by (cases z)
            with 2 have s3: "idle s3" "c3 = c" "db_ok (s_committed s3)" "same_spent ?db (s_committed s3)"
              and r3: "ret3 = GNUNET_OK \<and> m3 = None \<and> (s_committed s3 = ?db \<or> s_committed s3 = reveal_rows teh rctx ?db)
                 \<or> ret3 = GNUNET_SYSERR \<and> reveal_refused m3 \<and> s_committed s3 = ?db"
              using s2(2) p by (auto simp: run_ok_def reveal_cls_def)
            let ?r3 = "?r2 @ queued m3"
            have r3': "no_reveal_success ?r3" using no_reveal_success_queued [OF r2'] r3 by blast
            show ?case
            proof (cases "ret3 = GNUNET_OK")
              case True
              with r3 s3 r3' chk sigs z p show ?thesis
                using reveal_doneI(2) [of s3 ?db ?r3 teh rctx sigs] by auto
            next
              case False
              with r3 have "?r3 \<noteq> []" "s_committed s3 = ?db" by (cases m3; auto)+
              then have "wp (reveal_attempts n teh c ?r3 s3) (reveal_done teh c ?db)"
                using Suc.IH [of c s3 ?r3] Suc.prems(1,3) p s3 r3' by simp
              moreover have "reveal_done teh c ?db = reveal_done teh rctx ?db"
                by (simp add: p reveal_done_def fun_eq_iff)
              ultimately show ?thesis using False z s3 by simp
            qed
          qed
          with True y r2 s2(3) show ?thesis by auto
        qed
      qed
      with False x p show ?thesis by auto
    qed
  qed
qed

section \<open>What the parts of the request resolve to\<close>

definition reveal_key :: "TEH \<Rightarrow> hash_code option \<Rightarrow> TALER_EXCHANGEDB_DenominationKey \<Rightarrow> bool" where
  "reveal_key teh h dki \<longleftrightarrow> (\<exists>ks x. teh_keys teh = Some ks \<and> h = Some x \<and> denomkey_map ks x = Some dki \<and> denomination_ok teh x dki
     \<and> denom_priv dki \<noteq> None)"

lemma reveal_denominations_total:
  assumes "teh_keys teh = Some ks" and "keys_ok teh ks"
  shows "\<exists>r. reveal_denominations teh ks i hs = Some r \<and> (case r of
      Inl e \<Rightarrow> reveal_refused (Some e) | Inr dkis \<Rightarrow> list_all2 (reveal_key teh) hs dkis)"
proof (induction hs arbitrary: i)
  case (Cons h hs)
  show ?case
  proof (cases h)
    case (Some x)
    let ?l = "TEH_KS_denomination_key_lookup_by_hash (teh_now teh (2 * i)) (teh_now teh (2 * i + 1)) ks x TEH_KS_DKU_WITHDRAW"
    show ?thesis
    proof (cases ?l)
      case (Inl e)
      with Some show ?thesis by (cases e) auto
    next
      case (Inr dki)
      then have "reveal_key teh h dki"
        using lookup_InrD [OF Inr] lookup_denomination_ok [OF assms(2) Inr] Some assms(1) by (auto simp: reveal_key_def)
      moreover obtain r where "reveal_denominations teh ks (i + 1) hs = Some r"
        "case r of Inl e \<Rightarrow> reveal_refused (Some e) | Inr dkis \<Rightarrow> list_all2 (reveal_key teh) hs dkis"
        using Cons.IH by blast
      ultimately show ?thesis
        using Some Inr by (auto simp: reveal_key_def split: sum.splits)
    qed
  qed (simp add: array_error_def)
qed simp

lemma reveal_envelopes_cases:
  assumes "length evs = length dkis"
  shows "case reveal_envelopes dkis evs of Inl e \<Rightarrow> reveal_refused (Some e)
     | Inr rcds \<Rightarrow> map rcd_dk rcds = map denom_pub dkis \<and> map (\<lambda>r. Some (rcd_coin_ev r)) rcds = evs"
  using assms
proof (induction dkis evs rule: reveal_envelopes.induct)
  case (1 dki dkis ev evs)
  show ?case
  proof (cases ev)
    case (Some x)
    with 1 show ?thesis by (cases "reveal_envelopes dkis evs") auto
  qed (simp add: array_error_def)
qed auto

text \<open>The old coin has signed every envelope together with its denomination and the transfer key.\<close>

definition link_ok :: "TEH \<Rightarrow> pub_key \<Rightarrow> pub_key \<Rightarrow> hash_code option \<times> TALER_RefreshCoinData \<times> signature \<Rightarrow> bool" where
  "link_ok teh old_coin_pub gamma_tp = (\<lambda>(h, rcd, sig). \<exists>x. h = Some x \<and> GNUNET_CRYPTO_eddsa_verify (teh_crypto teh)
     (TALER_LinkDataPS x old_coin_pub gamma_tp (GNUNET_CRYPTO_hash_data (teh_crypto teh) (rcd_coin_ev rcd))) sig old_coin_pub)"

lemma reveal_links_cases:
  assumes "length hs = length rcds" and "length sigs = length rcds" and "None \<notin> set hs"
  shows "case reveal_links teh p tp hs rcds sigs of Inl e \<Rightarrow> reveal_refused (Some e)
     | Inr ls \<Rightarrow> map Some ls = sigs \<and> list_all (link_ok teh p tp) (zip hs (zip rcds ls))"
  using assms
proof (induction teh p tp hs rcds sigs rule: reveal_links.induct)
  case (1 teh p tp h hs rcd rcds sig sigs)
  show ?case
  proof (cases sig)
    case (Some x)
    with 1 show ?thesis by (cases "reveal_links teh p tp hs rcds sigs") (auto simp: link_ok_def)
  qed (simp add: array_error_def)
qed auto

definition fresh_signature :: "TEH \<Rightarrow> TALER_EXCHANGEDB_DenominationKey \<Rightarrow> TALER_RefreshCoinData \<Rightarrow> signature \<Rightarrow> bool" where
  "fresh_signature teh dki rcd sig \<longleftrightarrow>
     (\<exists>priv. denom_priv dki = Some priv \<and> GNUNET_CRYPTO_rsa_sign_blinded (teh_crypto teh) priv (rcd_coin_ev rcd) = Some sig)"

lemma reveal_sign_total:
  assumes "length dkis = length rcds" and "\<forall>dki\<in>set dkis. denom_priv dki \<noteq> None"
  shows "\<exists>r. reveal_sign teh dkis rcds = Some r \<and>
     (\<forall>sigs. r = Some sigs \<longrightarrow> length sigs = length dkis \<and> (\<forall>i<length dkis. fresh_signature teh (dkis ! i) (rcds ! i) (sigs ! i)))"
  using assms
proof (induction teh dkis rcds rule: reveal_sign.induct)
  case (1 teh dki dkis rcd rcds)
  then obtain priv where priv: "denom_priv dki = Some priv" by auto
  show ?case
  proof (cases "GNUNET_CRYPTO_rsa_sign_blinded (teh_crypto teh) priv (rcd_coin_ev rcd)")
    case (Some sig)
    from 1(2,3) have "length dkis = length rcds" "\<forall>dki\<in>set dkis. denom_priv dki \<noteq> None" by auto
    from 1(1) [OF priv Some this] obtain r where r: "reveal_sign teh dkis rcds = Some r"
      "\<And>sigs. r = Some sigs \<Longrightarrow> length sigs = length dkis \<and> (\<forall>i<length dkis. fresh_signature teh (dkis ! i) (rcds ! i) (sigs ! i))"
      by blast
    show ?thesis
      using priv Some r by (cases r) (auto simp: fresh_signature_def less_Suc_eq_0_disj)
  qed (use priv in auto)
qed auto

text \<open>The context that belongs to a request\<close>

definition reveal_resolved :: "TEH \<Rightarrow> reveal_request \<Rightarrow> tables \<Rightarrow> RevealContext \<Rightarrow> bool" where
  "reveal_resolved teh req db rctx \<longleftrightarrow> rq_rc req = Some (rv_rc rctx) \<and> rq_operation req = ''reveal''
     \<and> rv_gamma_tp rctx = rq_transfer_pub req \<and> map Some (rv_transfer_privs rctx) = rq_transfer_privs req
     \<and> 0 < length (rv_dkis rctx) \<and> length (rv_dkis rctx) < 256
     \<and> list_all2 (reveal_key teh) (rq_new_denoms_h req) (rv_dkis rctx)
     \<and> map rcd_dk (rv_rcds rctx) = map denom_pub (rv_dkis rctx)
     \<and> map (\<lambda>r. Some (rcd_coin_ev r)) (rv_rcds rctx) = rq_coin_evs req
     \<and> map Some (rv_link_sigs rctx) = rq_link_sigs req
     \<and> (\<exists>m\<in>set (t_refresh_commitments db). rcm_rc m = rv_rc rctx \<and>
          list_all (link_ok teh (rcm_old_coin_pub m) (rv_gamma_tp rctx))
            (zip (rq_new_denoms_h req) (zip (rv_rcds rctx) (rv_link_sigs rctx))))
     \<and> (\<exists>sigs. rv_ev_sigs rctx = Some sigs \<and> length sigs = length (rv_dkis rctx)
          \<and> (\<forall>i<length sigs. fresh_signature teh (rv_dkis rctx ! i) (rv_rcds rctx ! i) (sigs ! i)))"

definition reveal_answered ::
    "TEH \<Rightarrow> reveal_request \<Rightarrow> tables \<Rightarrow> exchange_reply reply list \<Rightarrow> tables session \<Rightarrow> bool" where
  "reveal_answered teh req db replies s' \<longleftrightarrow>
     idle s' \<and> s_committed s' = db \<and> db_ok db \<and> (\<exists>r. replies = [r] \<and> reveal_refused (Some r))
     \<or> (\<exists>rctx. reveal_resolved teh req db rctx \<and> reveal_done teh rctx db replies s')"

definition reveal_crypto_ok :: "TEH \<Rightarrow> bool" where
  "reveal_crypto_ok teh \<longleftrightarrow>
     refresh_crypto_ok (teh_crypto teh) {denom_pub dki |dki. \<exists>ks h. teh_keys teh = Some ks \<and> denomkey_map ks h = Some dki}"

lemma reveal_melt_wpa:
  assumes teh: "teh_ok teh" and s: "idle s" and db: "db_ok (s_committed s)"
  shows "wpa (\<not> connected s) (reveal_melt teh rc s) (\<lambda>m s'. idle s' \<and> s_committed s' = s_committed s \<and>
     (case m of Inl e \<Rightarrow> reveal_refused (Some e) | Inr melt \<Rightarrow> melt_row teh (s_committed s) rc melt))"
proof -
  have "wpa (\<not> connected s) (with_thread_session (postgres_get_melt (teh_gnunet teh) (teh_pg teh) rc) s) (\<lambda>(qs, r) s'. idle s' \<and> s_committed s' = s_committed s
     \<and> (\<forall>melt. r = Some melt \<longrightarrow> melt_row teh (s_committed s) rc melt))"
  proof (rule with_thread_session_wpa [OF s imp_refl])
    fix s1 assume s1: "idle s1" "s_committed s1 = s_committed s"
    then have d: "s_db s1 = s_committed s" by (simp add: idle_def)
    show "wpa (\<not> connected s) (postgres_get_melt (teh_gnunet teh) (teh_pg teh) rc s1) (\<lambda>(qs, r) s'. idle s' \<and> s_committed s' = s_committed s
       \<and> (\<forall>melt. r = Some melt \<longrightarrow> melt_row teh (s_committed s) rc melt))"
      by (rule wpaI, rule wp_mono [OF get_melt_wp [OF teh idle_session_ok [OF s1(1)]]])
        (use d db s1 in \<open>auto dest: unchanged_idle\<close>)
  qed
  then show ?thesis
    unfolding reveal_melt_def by (rule wpa_bindI) (auto split: option.split)
qed

lemma reveal_resolve_wpa:
  assumes teh: "teh_ok teh" "reveal_crypto_ok teh" "teh_keys teh = Some ks"
    and s: "idle s" "db_ok (s_committed s)"
    and rctx: "rq_rc req = Some (rv_rc rctx)" "rv_gamma_tp rctx = rq_transfer_pub req"
      "map Some (rv_transfer_privs rctx) = rq_transfer_privs req" "length (rq_transfer_privs req) = 2"
    and req: "0 < length (rq_new_denoms_h req)" "length (rq_new_denoms_h req) < 256" "rq_operation req = ''reveal''"
      "length (rq_coin_evs req) = length (rq_new_denoms_h req)" "length (rq_link_sigs req) = length (rq_new_denoms_h req)"
  shows "wpa (\<not> connected s) (resolve_refreshes_reveal_denominations teh ks rctx req s) (reveal_answered teh req (s_committed s))"
proof -
  let ?Q = "reveal_answered teh req (s_committed s)" and ?b = "\<not> connected s"
  have err: "?Q [e] s'" if "reveal_refused (Some e)" "idle s'" "s_committed s' = s_committed s" for e s'
    using that s(2) by (auto simp: reveal_answered_def)
  obtain d where d: "reveal_denominations teh ks 0 (rq_new_denoms_h req) = Some d"
    "case d of Inl e \<Rightarrow> reveal_refused (Some e) | Inr dkis \<Rightarrow> list_all2 (reveal_key teh) (rq_new_denoms_h req) dkis"
    using reveal_denominations_total [OF teh(3) teh_okD(3) [OF teh(1,3)]] by blast
  show ?thesis
  proof (cases d)
    case (Inl e)
    with d err s show ?thesis by (simp add: resolve_refreshes_reveal_denominations_def)
  next
    case (Inr dkis)
    then have dkis: "list_all2 (reveal_key teh) (rq_new_denoms_h req) dkis" using d(2) by simp
    then have len: "length dkis = length (rq_new_denoms_h req)" by (simp add: list_all2_lengthD)
    have keys: "\<forall>dki\<in>set dkis. \<exists>h. reveal_key teh h dki"
      using dkis by (auto simp: in_set_conv_nth list_all2_conv_all_nth) blast
    have hs: "None \<notin> set (rq_new_denoms_h req)"
      using dkis by (auto simp: in_set_conv_nth list_all2_conv_all_nth reveal_key_def)
    have ev: "case reveal_envelopes dkis (rq_coin_evs req) of Inl e \<Rightarrow> reveal_refused (Some e)
      | Inr rcds \<Rightarrow> map rcd_dk rcds = map denom_pub dkis \<and> map (\<lambda>r. Some (rcd_coin_ev r)) rcds = rq_coin_evs req"
      by (rule reveal_envelopes_cases) (simp add: req len)
    show ?thesis
    proof (cases "reveal_envelopes dkis (rq_coin_evs req)")
      case (Inl e)
      with d Inr err s ev show ?thesis by (simp add: resolve_refreshes_reveal_denominations_def)
    next
      case rcds: (Inr rcds)
      with ev have rc: "map rcd_dk rcds = map denom_pub dkis" "map (\<lambda>r. Some (rcd_coin_ev r)) rcds = rq_coin_evs req" by auto
      then have len2: "length rcds = length dkis" by (metis length_map)
      have "wpa ?b (reveal_melt teh (rv_rc rctx) s \<bind> (\<lambda>(m, s). case m of Inl e \<Rightarrow> Some ([e], s)
         | Inr melt \<Rightarrow> (case reveal_links teh (coin_pub (rf_coin (melt_session melt))) (rv_gamma_tp rctx) (rq_new_denoms_h req) rcds
                          (rq_link_sigs req) of
              Inl e \<Rightarrow> Some ([e], s)
            | Inr link_sigs \<Rightarrow> reveal_sign teh dkis rcds \<bind> (\<lambda>sigs. case sigs of
                None \<Rightarrow> Some ([TALER_MHD_reply_with_error 500 1371], s)
              | Some ev_sigs \<Rightarrow> reveal_attempts 2 teh (rctx\<lparr>rv_dkis := dkis, rv_rcds := rcds, rv_link_sigs := link_sigs,
                   rv_ev_sigs := Some ev_sigs\<rparr>) [] s)))) ?Q"
      proof (rule wpa_bindI [OF reveal_melt_wpa [OF teh(1) s]], goal_cases)
        case (1 m s1)
        show ?case
        proof (cases m)
          case (Inl e)
          with 1 err [of e s1] show ?thesis by simp
        next
          case melt: (Inr melt)
          let ?p = "coin_pub (rf_coin (melt_session melt))"
          from 1 melt have s1: "idle s1" "s_committed s1 = s_committed s" and row: "melt_row teh (s_committed s) (rv_rc rctx) melt" by auto
          obtain r where r: "reveal_sign teh dkis rcds = Some r" "\<And>sigs. r = Some sigs \<Longrightarrow> length sigs = length dkis
              \<and> (\<forall>i<length dkis. fresh_signature teh (dkis ! i) (rcds ! i) (sigs ! i))"
            using reveal_sign_total [of dkis rcds teh] keys len2 by (auto simp: reveal_key_def)
          have links: "case reveal_links teh ?p (rv_gamma_tp rctx) (rq_new_denoms_h req) rcds (rq_link_sigs req) of Inl e \<Rightarrow> reveal_refused (Some e)
             | Inr ls \<Rightarrow> map Some ls = rq_link_sigs req \<and> list_all (link_ok teh ?p (rv_gamma_tp rctx)) (zip (rq_new_denoms_h req) (zip rcds ls))"
            by (rule reveal_links_cases) (simp_all add: len len2 req hs)
          show ?thesis
          proof (cases "reveal_links teh ?p (rv_gamma_tp rctx) (rq_new_denoms_h req) rcds (rq_link_sigs req)")
            case (Inl e)
            with melt links err [of e s1] s1 show ?thesis by simp
          next
            case ls: (Inr ls)
            show ?thesis
            proof (cases r)
              case None
              with melt ls r err [of _ s1] s1 show ?thesis by simp
            next
              case (Some sigs)
              define c where "c = rctx\<lparr>rv_dkis := dkis, rv_rcds := rcds, rv_link_sigs := ls, rv_ev_sigs := Some sigs\<rparr>"
              have "\<exists>h. denomkey_map ks h = Some dki" if "dki \<in> set dkis" for dki
                using keys that teh(3) by (auto simp: reveal_key_def)
              then have "denom_pub ` set dkis \<subseteq> {denom_pub dki |dki. \<exists>ks h. teh_keys teh = Some ks \<and> denomkey_map ks h = Some dki}"
                using teh(3) by (auto intro!: exI [of _ ks])
              then have "refresh_crypto_ok (teh_crypto teh) (denom_pub ` set dkis)"
                by (rule refresh_crypto_ok_mono [OF teh(2) [unfolded reveal_crypto_ok_def]])
              moreover have "length (rv_transfer_privs rctx) = 2" using rctx(3,4) by (metis length_map)
              ultimately have c: "reveal_context_ok teh c"
                using teh(1) keys by (auto simp: reveal_context_ok_def c_def reveal_key_def)
              have "reveal_resolved teh req (s_committed s) c"
                using rctx req dkis len rc links ls r(2) [OF Some] row
                by (auto simp: reveal_resolved_def c_def melt_row_def)
              moreover have "wp (reveal_attempts 2 teh c [] s1) (reveal_done teh c (s_committed s))"
                using reveal_attempts_wp [OF c s1(1), of "[]" 2] s1(2) s(2) by (simp add: no_reveal_success_def)
              ultimately have "wp (reveal_attempts 2 teh c [] s1) ?Q"
                by (auto simp: reveal_answered_def elim!: wp_mono)
              then have "wpa ?b (reveal_attempts 2 teh c [] s1) ?Q" by (rule wpaI)
              with melt ls r Some show ?thesis by (simp add: c_def)
            qed
          qed
        qed
      qed
      with d Inr rcds show ?thesis
        by (simp add: resolve_refreshes_reveal_denominations_def)
    qed
  qed
qed

lemma reveal_handler_wpa:
  assumes teh: "teh_ok teh" "reveal_crypto_ok teh" and s: "idle s" "db_ok (s_committed s)"
  shows "wpa (\<not> connected s) (TEH_handler_reveal teh req s) (reveal_answered teh req (s_committed s))"
proof -
  have err: "reveal_answered teh req (s_committed s) [TALER_MHD_reply_with_error hc ec] s" for hc ec
    using s by (simp add: reveal_answered_def)
  show ?thesis
  proof (cases "rq_rc req = None \<or> rq_operation req \<noteq> ''reveal'' \<or> length (rq_transfer_privs req) \<noteq> 2
      \<or> length (rq_new_denoms_h req) \<ge> 256 \<or> rq_new_denoms_h req = [] \<or> length (rq_new_denoms_h req) \<noteq> length (rq_coin_evs req)
      \<or> length (rq_new_denoms_h req) \<noteq> length (rq_link_sigs req) \<or> those (rq_transfer_privs req) = None \<or> teh_keys teh = None")
    case True
    with err show ?thesis
      by (cases "rq_rc req") (auto simp: TEH_handler_reveal_def handle_refreshes_reveal_json_def Let_def array_error_def split: option.split)
  next
    case False
    then obtain rc tprivs ks where x: "rq_rc req = Some rc" "those (rq_transfer_privs req) = Some tprivs" "teh_keys teh = Some ks" by auto
    have t: "map Some tprivs = rq_transfer_privs req"
      using x(2) those_map_Some [of id "rq_transfer_privs req" tprivs] by (auto simp: list_all2_conv_all_nth intro: nth_equalityI)
    have "wpa (\<not> connected s) (resolve_refreshes_reveal_denominations teh ks
        \<lparr>rv_rc = rc, rv_gamma_tp = rq_transfer_pub req, rv_transfer_privs = tprivs, rv_dkis = [], rv_rcds = [],
                   rv_link_sigs = [], rv_ev_sigs = None, rv_preflight_ok = 0\<rparr> req s) (reveal_answered teh req (s_committed s))"
      by (rule reveal_resolve_wpa [OF teh x(3) s]) (use False x t in auto)
    moreover have "TEH_handler_reveal teh req s = resolve_refreshes_reveal_denominations teh ks
        \<lparr>rv_rc = rc, rv_gamma_tp = rq_transfer_pub req, rv_transfer_privs = tprivs, rv_dkis = [], rv_rcds = [],
                   rv_link_sigs = [], rv_ev_sigs = None, rv_preflight_ok = 0\<rparr> req s"
      using False x by (auto simp: TEH_handler_reveal_def handle_refreshes_reveal_json_def Let_def)
    ultimately show ?thesis by simp
  qed
qed

text \<open>A request whose parts can be resolved\<close>

definition resolved_context where
  "resolved_context req rc tprivs dkis rcds link_sigs sigs = \<lparr>rv_rc = rc, rv_gamma_tp = rq_transfer_pub req, rv_transfer_privs = tprivs,
     rv_dkis = dkis, rv_rcds = rcds, rv_link_sigs = link_sigs, rv_ev_sigs = Some sigs, rv_preflight_ok = 0\<rparr>"

lemma reveal_handler_resolved:
  assumes "undisturbed s"
    and "rq_rc req = Some rc" and "rq_operation req = ''reveal''" and "those (rq_transfer_privs req) = Some tprivs" and "length tprivs = 2"
    and "0 < length (rq_new_denoms_h req)" and "length (rq_new_denoms_h req) < 256"
    and "length (rq_coin_evs req) = length (rq_new_denoms_h req)" and "length (rq_link_sigs req) = length (rq_new_denoms_h req)"
    and "teh_keys teh = Some ks" and "reveal_denominations teh ks 0 (rq_new_denoms_h req) = Some (Inr dkis)"
    and "reveal_envelopes dkis (rq_coin_evs req) = Inr rcds"
    and "postgres_get_melt (teh_gnunet teh) (teh_pg teh) rc s = Some ((1, Some melt), s)"
    and "reveal_links teh (coin_pub (rf_coin (melt_session melt))) (rq_transfer_pub req) (rq_new_denoms_h req) rcds (rq_link_sigs req)
           = Inr link_sigs"
    and "reveal_sign teh dkis rcds = Some (Some sigs)"
  shows "TEH_handler_reveal teh req s = reveal_attempts 2 teh (resolved_context req rc tprivs dkis rcds link_sigs sigs) [] s"
proof -
  have tp: "length (rq_transfer_privs req) = 2"
    using assms(4,5) those_map_Some [of id "rq_transfer_privs req" tprivs] by (auto dest: list_all2_lengthD)
  have "reveal_melt teh rc s = Some (Inr melt, s)"
    using assms(1,13) by (simp add: reveal_melt_def with_thread_session_def postgres_get_session_def)
  moreover have "rq_new_denoms_h req \<noteq> []" "\<not> length (rq_new_denoms_h req) \<ge> 256" using assms(6,7) by auto
  ultimately show ?thesis
    using assms(2-15) tp
    by (auto simp: TEH_handler_reveal_def handle_refreshes_reveal_json_def resolve_refreshes_reveal_denominations_def Let_def resolved_context_def)
qed

section \<open>Properties\<close>

text \<open>C9. Whatever the request and whatever errors the database reports, a reveal request is answered, with one exception: if the thread
  cannot connect to the database, the melt is looked up with a null session and the exchange may crash. It keeps the integrity of the database and
  what every coin has spent. The database only changes by the fresh coins and the transfer keys of one refresh
  operation, in the order of the request and for keys that are valid for withdrawals, and only if the commitment of the
  melt is to exactly these envelopes and keys (as far as the cut-and-choose reveals them) and the amount melted covers the refresh
  fee and the values and withdraw fees of the fresh coins. Signatures are handed out only for envelopes the owner of the old coin has signed, and
  only if these checks were passed or the database already has fresh coins for the operation.\<close>

theorem reveal_request_safe:
  assumes "teh_ok teh" and "reveal_crypto_ok teh" and "idle s" and "db_ok (s_committed s)"
  shows "case TEH_handler_reveal teh req s of
       None \<Rightarrow> \<not> connected s
     | Some (replies, s') \<Rightarrow> replies \<noteq> [] \<and> idle s' \<and> db_ok (s_committed s')
         \<and> (\<forall>r p. coin_spent r (s_committed s') p = coin_spent r (s_committed s) p)
         \<and> (s_committed s' = s_committed s \<or> (\<exists>rctx. reveal_resolved teh req (s_committed s) rctx
              \<and> reveal_checked teh rctx (s_committed s) \<and> s_committed s' = reveal_rows teh rctx (s_committed s)))
         \<and> (\<forall>sigs. reply_ok MHD_HTTP_OK (REVEAL_OK sigs) \<in> set replies \<longrightarrow>
              (\<exists>rctx. reveal_resolved teh req (s_committed s) rctx \<and> rv_ev_sigs rctx = Some sigs
                 \<and> (reveal_checked teh rctx (s_committed s) \<or> revealed (s_committed s) (rv_rc rctx))))"
proof (cases "TEH_handler_reveal teh req s")
  case None
  with reveal_handler_wpa [OF assms, of req] show ?thesis by simp
next
  case (Some x)
  obtain replies s' where x: "x = (replies, s')" by (cases x)
  from wpaD [OF reveal_handler_wpa [OF assms] Some [unfolded x]] show ?thesis
    unfolding Some x option.case prod.case
    by (auto simp: reveal_answered_def reveal_done_def reveal_refused_def same_spent_def)
qed

text \<open>Nothing is checked in the second case.\<close>

lemma preflight_undisturbed:
  assumes "undisturbed s" and "rv_ev_sigs c = Some sigs"
    and rows: "sql_get_refresh_revealed_coins (rv_rc c) (s_db s) \<noteq> []"
      "sql_get_refresh_transfer_keys (rv_rc c) (s_db s) = [k]" "length (rtk_transfer_privs k) = 2"
  shows "\<exists>qs s2. refreshes_reveal_preflight teh c s = Some ((qs, None, c\<lparr>rv_preflight_ok := GNUNET_YES\<rparr>), s2)
     \<and> 0 \<le> qs \<and> undisturbed s2"
proof -
  obtain qs x where g: "postgres_get_refresh_reveal (teh_gnunet teh) (rv_rc c) s = Some ((qs, x), s)" and qs: "0 < qs"
    using assms(1) rows
    by (cases "add_revealed_coins (sql_get_refresh_revealed_coins (rv_rc c) (s_db s))")
      (auto simp: postgres_get_refresh_reveal_def pq_multi_select_def singleton_undisturbed Let_def)
  have "(case x of None \<Rightarrow> c | Some y \<Rightarrow> check_exists_cb c y) = c"
    using assms(2) by (auto simp: check_exists_cb_def split: option.split prod.split)
  with g qs assms(1,2) show ?thesis by (auto simp: refreshes_reveal_preflight_def Let_def)
qed

text \<open>C20. Once a refresh operation has been revealed, the exchange signs anything: a further request with the same
  commitment is answered with signatures on whatever envelopes, for whatever denominations, the owner of
  the old coin asks for. Neither the commitment nor the amount that was melted is looked at. (The signatures are made before the
  lookup that finds the earlier answer, and the lookup does not replace them by the ones of that answer.)\<close>

theorem repeated_reveal_unchecked:
  assumes "undisturbed s" and "idle s"
    and "rq_rc req = Some rc" and "rq_operation req = ''reveal''" and "those (rq_transfer_privs req) = Some tprivs" and "length tprivs = 2"
    and "0 < length (rq_new_denoms_h req)" and "length (rq_new_denoms_h req) < 256"
    and "length (rq_coin_evs req) = length (rq_new_denoms_h req)" and "length (rq_link_sigs req) = length (rq_new_denoms_h req)"
    and "teh_keys teh = Some ks" and "reveal_denominations teh ks 0 (rq_new_denoms_h req) = Some (Inr dkis)"
    and "reveal_envelopes dkis (rq_coin_evs req) = Inr rcds"
    and "postgres_get_melt (teh_gnunet teh) (teh_pg teh) rc s = Some ((1, Some melt), s)"
    and "reveal_links teh (coin_pub (rf_coin (melt_session melt))) (rq_transfer_pub req) (rq_new_denoms_h req) rcds (rq_link_sigs req)
           = Inr link_sigs"
    and "reveal_sign teh dkis rcds = Some (Some sigs)"
    and "sql_get_refresh_revealed_coins rc (s_committed s) \<noteq> []"
    and "sql_get_refresh_transfer_keys rc (s_committed s) = [k]" and "length (rtk_transfer_privs k) = 2"
  shows "\<exists>s'. TEH_handler_reveal teh req s = Some ([reply_ok MHD_HTTP_OK (REVEAL_OK sigs)], s')"
proof -
  let ?c = "resolved_context req rc tprivs dkis rcds link_sigs sigs"
  have c: "rv_rc ?c = rc" "rv_ev_sigs ?c = Some sigs" "?c\<lparr>rv_preflight_ok := 0\<rparr> = ?c" by (simp_all add: resolved_context_def)
  have "\<exists>c' s'. TEH_DB_run_transaction (teh_gnunet teh) ''reveal pre-check'' (refreshes_reveal_preflight teh) ?c s
      = Some ((GNUNET_OK, None, c'), s') \<and> undisturbed s' \<and> c' = ?c\<lparr>rv_preflight_ok := 1\<rparr>"
    by (rule run_transaction_undisturbed_context [OF assms(1,2)]) (use preflight_undisturbed [of _ ?c sigs k teh] c assms(17-19) in auto)
  then obtain s' where "reveal_attempts 2 teh ?c [] s = Some ([reply_ok MHD_HTTP_OK (REVEAL_OK sigs)], s')"
    by (auto simp: eval_nat_numeral c reply_refreshes_reveal_success_def)
  then show ?thesis
    using reveal_handler_resolved [OF assms(1,3-16)] by simp
qed

section \<open>A sample\<close>

text \<open>A coin of which 9 are melted, for one fresh coin\<close>

definition sample_melted_db :: tables where
  "sample_melted_db = sample_db\<lparr>t_refresh_commitments := [\<lparr>rcm_melt_serial_id = 8, rcm_rc = 9, rcm_old_coin_pub = 20,
     rcm_old_coin_sig = 20, rcm_amount_with_fee = (9, 0), rcm_noreveal_index = 1\<rparr>]\<rparr>"

definition sample_reveal :: "nat \<Rightarrow> reveal_request" where
  "sample_reveal n = \<lparr>rq_rc = Some 9, rq_operation = ''reveal'', rq_transfer_pub = 31, rq_transfer_privs = [Some 32, Some 33],
     rq_link_sigs = replicate n (Some 20), rq_coin_evs = replicate n (Some ''envelope''), rq_new_denoms_h = replicate n (Some 7)\<rparr>"

lemma sample_melted_db_ok: "db_ok sample_melted_db"
  using sample_db_ok
  by (simp add: db_ok_def sample_melted_db_def coin_tables_ok_def reserve_tables_ok_def)
    (simp add: sample_db_def sql_normal_def sqlamt_def AMT_LIMIT_def coin_known_def denom_known_def reserve_known_def)

lemma sample_reveal_crypto: "reveal_crypto_ok sample_teh"
  by (simp add: reveal_crypto_ok_def refresh_crypto_ok_def sample_crypto_def)

theorem reveal_request_safe_witness:
  "\<exists>replies s'. TEH_handler_reveal sample_teh (sample_reveal 1) (sample_idle sample_melted_db [PQ_RUN, PQ_SOFT]) = Some (replies, s')
     \<and> replies \<noteq> [] \<and> db_ok (s_committed s')"
proof -
  have "connected (sample_idle sample_melted_db [PQ_RUN, PQ_SOFT])"
    by (simp add: connected_def postgres_get_session_def next_outcome_def sample_idle_def)
  then show ?thesis
    using reveal_request_safe [OF sample_teh_ok(1) sample_reveal_crypto, of "sample_idle sample_melted_db [PQ_RUN, PQ_SOFT]" "sample_reveal 1"]
      sample_melted_db_ok by (auto split: option.splits)
qed

text \<open>After the fresh coin is stored, a request for three coins of value 5 is granted.\<close>

definition sample_revealed_db :: tables where
  "sample_revealed_db = sample_melted_db\<lparr>t_refresh_revealed_coins := [\<lparr>rrc_rc = 9, rrc_freshcoin_index = 0, rrc_link_sig = 20,
       rrc_denom_pub_hash = 7, rrc_coin_ev = ''fresh'', rrc_h_coin_ev = 5, rrc_ev_sig = 14\<rparr>],
     t_refresh_transfer_keys := [\<lparr>rtk_rc = 9, rtk_transfer_pub = 31, rtk_transfer_privs = [32, 33]\<rparr>]\<rparr>"

lemma sample_reveal_parts:
  "reveal_denominations sample_teh sample_keys 0 (rq_new_denoms_h (sample_reveal 3)) = Some (Inr (replicate 3 sample_denomination))"
  "reveal_envelopes (replicate 3 sample_denomination) (rq_coin_evs (sample_reveal 3))
     = Inr (replicate 3 \<lparr>rcd_dk = 7, rcd_coin_ev = ''envelope''\<rparr>)"
  "reveal_links sample_teh 20 31 (rq_new_denoms_h (sample_reveal 3)) (replicate 3 \<lparr>rcd_dk = 7, rcd_coin_ev = ''envelope''\<rparr>)
     (rq_link_sigs (sample_reveal 3)) = Inr (replicate 3 20)"
  "reveal_sign sample_teh (replicate 3 sample_denomination) (replicate 3 \<lparr>rcd_dk = 7, rcd_coin_ev = ''envelope''\<rparr>)
     = Some (Some (replicate 3 17))"
proof -
  have "denom_priv sample_denomination = Some 9" "denom_pub sample_denomination = 7" by (simp_all add: sample_denomination_def)
  then show "reveal_denominations sample_teh sample_keys 0 (rq_new_denoms_h (sample_reveal 3)) = Some (Inr (replicate 3 sample_denomination))"
    "reveal_envelopes (replicate 3 sample_denomination) (rq_coin_evs (sample_reveal 3))
       = Inr (replicate 3 \<lparr>rcd_dk = 7, rcd_coin_ev = ''envelope''\<rparr>)"
    "reveal_links sample_teh 20 31 (rq_new_denoms_h (sample_reveal 3)) (replicate 3 \<lparr>rcd_dk = 7, rcd_coin_ev = ''envelope''\<rparr>)
       (rq_link_sigs (sample_reveal 3)) = Inr (replicate 3 20)"
    "reveal_sign sample_teh (replicate 3 sample_denomination) (replicate 3 \<lparr>rcd_dk = 7, rcd_coin_ev = ''envelope''\<rparr>)
       = Some (Some (replicate 3 17))"
    by (simp_all add: sample_reveal_def numeral_3_eq_3 sample_lookup sample_crypto_def)
qed

lemma sample_result_amount: "TALER_PQ_result_spec_amount ''EUR'' (v, 0) = Some (mk_amount ''EUR'' v 0)"
  by (simp add: TALER_PQ_result_spec_amount_def TALER_CURRENCY_LEN_def mk_amount_def TALER_amount_is_valid_def cstr_def strlen_def
      Let_def eval_nat_numeral)

theorem repeated_reveal_unchecked_witness:
  "\<exists>s'. TEH_handler_reveal sample_teh (sample_reveal 3) (sample_idle sample_revealed_db [])
     = Some ([reply_ok MHD_HTTP_OK (REVEAL_OK [17, 17, 17])], s')"
proof -
  let ?melt = "\<lparr>melt_session = \<lparr>rf_coin = \<lparr>coin_pub = 20, coin_denom_pub_hash = 7, coin_denom_sig = 0\<rparr>, rf_coin_sig = 20, rf_rc = 9,
      rf_amount_with_fee = mk_amount ''EUR'' 9 0, rf_noreveal_index = 1\<rparr>, melt_melt_fee = mk_amount ''EUR'' 1 0\<rparr>"
  note am = sample_result_amount
  have melt: "postgres_get_melt sample_gnunet sample_pg 9 (sample_idle sample_revealed_db []) = Some ((1, Some ?melt), sample_idle sample_revealed_db [])"
    using sample_ok
    by (simp add: postgres_get_melt_def pq_singleton_select_def next_outcome_def pq_denied_def sql_get_melt_def sample_idle_def am)
      (simp add: sample_revealed_db_def sample_melted_db_def sample_db_def am)
  let ?k = "\<lparr>rtk_rc = 9, rtk_transfer_pub = 31, rtk_transfer_privs = [32, 33]\<rparr>"
  have rows: "sql_get_refresh_revealed_coins 9 (s_committed (sample_idle sample_revealed_db [])) \<noteq> []"
    "sql_get_refresh_transfer_keys 9 (s_committed (sample_idle sample_revealed_db [])) = [?k]"
    by (simp_all add: sql_get_refresh_revealed_coins_def sql_get_refresh_transfer_keys_def sample_revealed_db_def sample_melted_db_def sample_db_def)
  have links: "reveal_links sample_teh (coin_pub (rf_coin (melt_session ?melt))) (rq_transfer_pub (sample_reveal 3)) (rq_new_denoms_h (sample_reveal 3))
      (replicate 3 \<lparr>rcd_dk = 7, rcd_coin_ev = ''envelope''\<rparr>) (rq_link_sigs (sample_reveal 3)) = Inr (replicate 3 20)"
    using sample_reveal_parts(3) by (simp add: sample_reveal_def)
  have undisturbed: "undisturbed (sample_idle sample_revealed_db [])" by (simp add: undisturbed_def sample_idle_def)
  have melt': "postgres_get_melt (teh_gnunet sample_teh) (teh_pg sample_teh) 9 (sample_idle sample_revealed_db [])
      = Some ((1, Some ?melt), sample_idle sample_revealed_db [])"
    using melt by simp
  have "\<exists>s'. TEH_handler_reveal sample_teh (sample_reveal 3) (sample_idle sample_revealed_db [])
      = Some ([reply_ok MHD_HTTP_OK (REVEAL_OK (replicate 3 17))], s')"
    by (rule repeated_reveal_unchecked [where tprivs = "[32, 33]", OF undisturbed _ _ _ _ _ _ _ _ _ _ sample_reveal_parts(1,2) melt' links sample_reveal_parts(4) rows])
      (simp_all add: sample_reveal_def)
  then show ?thesis by (simp add: numeral_3_eq_3)
qed

end
