(* ===== verification/Wallet_Refresh.thy ===== *)
theory Wallet_Refresh
  imports Reveal
begin

text \<open>
  The wallet's side of a refresh, \<^verbatim>\<open>src/lib/exchange_api_refresh_common.c\<close> and \<^verbatim>\<open>src/lib/exchange_api_refreshes_reveal.c\<close>: preparing the
  melt data, the reveal request for the index the exchange has chosen, and the fresh coins from the answer. The
  serialization of the melt data between these steps is not modelled. The transfer keys are the random keys that
  \<^verbatim>\<open>GNUNET_CRYPTO_ecdhe_key_create\<close> delivers. The outer \<open>None\<close> of a result is a failed assertion, the inner
  one the null pointer or \<^verbatim>\<open>GNUNET_SYSERR\<close>.
\<close>

section \<open>Preparing the melt data\<close>

record TALER_EXCHANGE_DenomPublicKey =
  dpk_key :: nat
  dpk_h_key :: hash_code
  dpk_expire_deposit :: abs_time
  dpk_value :: TALER_Amount
  dpk_fee_withdraw :: TALER_Amount
  dpk_fee_deposit :: TALER_Amount
  dpk_fee_refresh :: TALER_Amount
  dpk_fee_refund :: TALER_Amount

record MeltedCoin =
  mc_coin_priv :: nat
  mc_melt_amount_with_fee :: TALER_Amount
  mc_fee_melt :: TALER_Amount
  mc_original_value :: TALER_Amount
  mc_transfer_priv :: "nat list"
  mc_expire_deposit :: abs_time
  mc_pub_key :: nat
  mc_sig :: signature

record MeltData =
  md_rc :: hash_code
  md_num_fresh_coins :: "16 word"
  md_melted_coin :: MeltedCoin
  md_fresh_pks :: "nat list"
  md_fresh_coins :: "TALER_PlanchetSecretsP list list"

text \<open>The sum of the values and withdraw fees\<close>

fun prepare_total :: "TALER_Amount \<Rightarrow> TALER_EXCHANGE_DenomPublicKey list \<Rightarrow> TALER_Amount option option" where
  "prepare_total total_cost [] = Some (Some total_cost)"
| "prepare_total total_cost (pk # pks) = do {
     (r, total_cost) \<leftarrow> TALER_amount_add total_cost (dpk_value pk);
     if 0 > r then Some None
     else do {
       (r, total_cost) \<leftarrow> TALER_amount_add total_cost (dpk_fee_withdraw pk);
       if 0 > r then Some None else prepare_total total_cost pks
     }
   }"

text \<open>The planchets of one transfer key, with their envelopes\<close>

fun prepare_coins ::
    "crypto \<Rightarrow> nat \<Rightarrow> nat \<Rightarrow> nat list \<Rightarrow> (TALER_PlanchetSecretsP list \<times> TALER_RefreshCoinData list) option option" where
  "prepare_coins cr trans_sec j [] = Some (Some ([], []))"
| "prepare_coins cr trans_sec j (pk # pks) = do {
     fc \<leftarrow> TALER_planchet_setup_refresh cr trans_sec (of_nat j);
     case TALER_planchet_prepare cr pk fc of
       None \<Rightarrow> Some None
     | Some (c_hash, pd) \<Rightarrow> do {
         r \<leftarrow> prepare_coins cr trans_sec (Suc j) pks;
         Some (map_option (\<lambda>(fcs, rcds). (fc # fcs, \<lparr>rcd_dk = pk, rcd_coin_ev = pd_coin_ev pd\<rparr> # rcds)) r)
       }
   }"

fun prepare_entries ::
    "crypto \<Rightarrow> nat \<Rightarrow> nat list \<Rightarrow> nat list \<Rightarrow> (TALER_PlanchetSecretsP list \<times> TALER_RefreshCommitmentEntry) list option option" where
  "prepare_entries cr melt_priv pks [] = Some (Some [])"
| "prepare_entries cr melt_priv pks (tpriv # tprivs) = do {
     trans_sec \<leftarrow> TALER_link_derive_transfer_secret cr melt_priv tpriv;
     c \<leftarrow> prepare_coins cr trans_sec 0 pks;
     case c of
       None \<Rightarrow> Some None
     | Some (fcs, rcds) \<Rightarrow> do {
         r \<leftarrow> prepare_entries cr melt_priv pks tprivs;
         Some (map_option (\<lambda>es. (fcs, \<lparr>rce_transfer_pub = GNUNET_CRYPTO_ecdhe_key_get_public cr tpriv, rce_new_coins = rcds\<rparr>) # es) r)
       }
   }"

definition TALER_EXCHANGE_refresh_prepare ::
    "crypto \<Rightarrow> nat list \<Rightarrow> nat \<Rightarrow> TALER_Amount \<Rightarrow> signature \<Rightarrow> TALER_EXCHANGE_DenomPublicKey \<Rightarrow> TALER_EXCHANGE_DenomPublicKey list
       \<Rightarrow> MeltData option option" where
  "TALER_EXCHANGE_refresh_prepare cr tprivs melt_priv melt_amount melt_sig melt_pk fresh_pks = do {
     let pub = GNUNET_CRYPTO_eddsa_key_get_public cr melt_priv;
     let (r, total_cost) = TALER_amount_get_zero (amt_currency melt_amount) zero_amount;
     GNUNET_assert (r = GNUNET_OK);
     t \<leftarrow> prepare_total total_cost fresh_pks;
     case t of
       None \<Rightarrow> Some None
     | Some total_cost \<Rightarrow> do {
         c \<leftarrow> TALER_amount_cmp total_cost melt_amount;
         if c = 1 then Some None
         else do {
           e \<leftarrow> prepare_entries cr melt_priv (map dpk_key fresh_pks) tprivs;
           case e of
             None \<Rightarrow> Some None
           | Some es \<Rightarrow> do {
               rc \<leftarrow> TALER_refresh_get_commitment cr (length fresh_pks) (map snd es) pub melt_amount;
               Some (Some \<lparr>md_rc = rc, md_num_fresh_coins = of_nat (length fresh_pks),
                 md_melted_coin = \<lparr>mc_coin_priv = melt_priv, mc_melt_amount_with_fee = melt_amount, mc_fee_melt = dpk_fee_refresh melt_pk,
                   mc_original_value = dpk_value melt_pk, mc_transfer_priv = tprivs, mc_expire_deposit = dpk_expire_deposit melt_pk,
                   mc_pub_key = dpk_key melt_pk, mc_sig = melt_sig\<rparr>,
                 md_fresh_pks = map dpk_key fresh_pks, md_fresh_coins = map fst es\<rparr>)
             }
         }
       }
   }"

section \<open>The reveal request\<close>

definition link_sig :: "crypto \<Rightarrow> MeltedCoin \<Rightarrow> pub_key \<Rightarrow> nat \<Rightarrow> string \<Rightarrow> signature" where
  "link_sig cr coin transfer_pub pk coin_ev =
     GNUNET_CRYPTO_eddsa_sign cr (mc_coin_priv coin)
       (TALER_LinkDataPS (GNUNET_CRYPTO_rsa_public_key_hash cr pk) (GNUNET_CRYPTO_eddsa_key_get_public cr (mc_coin_priv coin)) transfer_pub
          (GNUNET_CRYPTO_hash_data cr coin_ev))"

text \<open>Only the contents of the request are modelled, not its transport.\<close>

definition TALER_EXCHANGE_refreshes_reveal :: "crypto \<Rightarrow> MeltData \<Rightarrow> nat \<Rightarrow> reveal_request option" where
  "TALER_EXCHANGE_refreshes_reveal cr md noreveal_index =
     (if noreveal_index \<ge> TALER_CNC_KAPPA then None
      else do {
        let coin = md_melted_coin md;
        let transfer_pub = GNUNET_CRYPTO_ecdhe_key_get_public cr (mc_transfer_priv coin ! noreveal_index);
        let n = unat (md_num_fresh_coins md);
        evs \<leftarrow> those (map (\<lambda>i. map_option (\<lambda>(c_hash, pd). pd_coin_ev pd)
                 (TALER_planchet_prepare cr (md_fresh_pks md ! i) (md_fresh_coins md ! noreveal_index ! i))) [0..<n]);
        Some \<lparr>rq_rc = Some (md_rc md), rq_operation = ''reveal'', rq_transfer_pub = transfer_pub,
          rq_transfer_privs = map (\<lambda>j. Some (mc_transfer_priv coin ! j)) (filter (\<lambda>j. j \<noteq> noreveal_index) [0..<TALER_CNC_KAPPA]),
          rq_link_sigs = map (\<lambda>i. Some (link_sig cr coin transfer_pub (md_fresh_pks md ! i) (evs ! i))) [0..<n],
          rq_coin_evs = map Some evs,
          rq_new_denoms_h = map (\<lambda>i. Some (GNUNET_CRYPTO_rsa_public_key_hash cr (md_fresh_pks md ! i))) [0..<n]\<rparr>
      })"

section \<open>The answer\<close>

definition refresh_reveal_ok :: "crypto \<Rightarrow> MeltData \<Rightarrow> nat \<Rightarrow> signature list \<Rightarrow> signature list option" where
  "refresh_reveal_ok cr md noreveal_index ev_sigs =
     (if unat (md_num_fresh_coins md) \<noteq> length ev_sigs then None
      else those (map (\<lambda>i.
        let fc = md_fresh_coins md ! noreveal_index ! i;
            coin_hash = GNUNET_CRYPTO_hash_key cr (GNUNET_CRYPTO_eddsa_key_get_public cr (ps_coin_priv fc))
        in map_option fc_sig (TALER_planchet_to_coin cr (md_fresh_pks md ! i) (ev_sigs ! i) fc coin_hash)) [0..<length ev_sigs]))"

section \<open>What the exchange reconstructs\<close>

text \<open>The envelopes that the exchange computes from a transfer key are those of the wallet.\<close>

definition coins_match :: "TEH \<Rightarrow> nat list \<Rightarrow> TALER_PlanchetSecretsP list \<Rightarrow> TALER_RefreshCoinData list \<Rightarrow> bool" where
  "coins_match teh pks fcs rcds \<longleftrightarrow> length fcs = length pks \<and> map rcd_dk rcds = pks \<and>
     (\<forall>i<length pks. map_option (\<lambda>(c_hash, pd). pd_coin_ev pd) (TALER_planchet_prepare (teh_crypto teh) (pks ! i) (fcs ! i))
        = Some (rcd_coin_ev (rcds ! i)))"

lemma prepare_coins_reveal:
  assumes "prepare_coins (teh_crypto teh) ts j pks = Some (Some (fcs, rcds))" and "map denom_pub dkis = pks"
  shows "coins_match teh pks fcs rcds \<and> those (map (reveal_coin teh ts) (enumerate j dkis)) = Some rcds"
  using assms
proof (induction pks arbitrary: j fcs rcds dkis)
  case Nil
  then show ?case by (simp add: coins_match_def)
next
  case (Cons pk pks)
  from Cons.prems(2) obtain dki dkis' where d: "dkis = dki # dkis'" "denom_pub dki = pk" "map denom_pub dkis' = pks" by auto
  from Cons.prems(1) obtain fc h pd fcs' rcds' where e: "TALER_planchet_setup_refresh (teh_crypto teh) ts (of_nat j) = Some fc"
    "TALER_planchet_prepare (teh_crypto teh) pk fc = Some (h, pd)" "prepare_coins (teh_crypto teh) ts (Suc j) pks = Some (Some (fcs', rcds'))"
    "fcs = fc # fcs'" "rcds = \<lparr>rcd_dk = pk, rcd_coin_ev = pd_coin_ev pd\<rparr> # rcds'"
    by (auto simp: bind_eq_Some_conv split: option.splits)
  from Cons.IH [OF e(3) d(3)] e d show ?case
    by (auto simp: coins_match_def reveal_coin_def less_Suc_eq_0_disj)
qed

lemma prepare_entries_reveal:
  assumes "prepare_entries (teh_crypto teh) priv pks tprivs = Some (Some es)" and "map denom_pub dkis = pks"
  shows "list_all2 (\<lambda>t e. reveal_entry teh dkis (GNUNET_CRYPTO_eddsa_key_get_public (teh_crypto teh) priv) t = Some (snd e)
     \<and> rce_transfer_pub (snd e) = GNUNET_CRYPTO_ecdhe_key_get_public (teh_crypto teh) t
     \<and> coins_match teh pks (fst e) (rce_new_coins (snd e))) tprivs es"
  using assms(1)
proof (induction tprivs arbitrary: es)
  case (Cons t tprivs)
  then obtain ts fcs rcds es' where e: "TALER_link_derive_transfer_secret (teh_crypto teh) priv t = Some ts"
    "prepare_coins (teh_crypto teh) ts 0 pks = Some (Some (fcs, rcds))" "prepare_entries (teh_crypto teh) priv pks tprivs = Some (Some es')"
    "es = (fcs, \<lparr>rce_transfer_pub = GNUNET_CRYPTO_ecdhe_key_get_public (teh_crypto teh) t, rce_new_coins = rcds\<rparr>) # es'"
    by (auto simp: bind_eq_Some_conv split: option.splits)
  with Cons.IH [OF e(3)] prepare_coins_reveal [OF e(2) assms(2)] show ?case
    by (auto simp: reveal_entry_def TALER_link_derive_transfer_secret_def TALER_link_reveal_transfer_secret_def)
qed simp

section \<open>An honest wallet\<close>

lemma reveal_envelopes_match:
  "map rcd_dk rcds = map denom_pub dkis \<Longrightarrow> reveal_envelopes dkis (map (\<lambda>r. Some (rcd_coin_ev r)) rcds) = Inr rcds"
proof (induction dkis arbitrary: rcds)
  case (Cons dki dkis)
  then obtain r rcds' where "rcds = r # rcds'" "rcd_dk r = denom_pub dki" "map rcd_dk rcds' = map denom_pub dkis" by auto
  with Cons.IH [of rcds'] show ?case by simp
qed simp

lemma refresh_prepare_elim:
  assumes "TALER_EXCHANGE_refresh_prepare cr tprivs priv amount sig pk pks = Some (Some md)"
  obtains es where "prepare_entries cr priv (map dpk_key pks) tprivs = Some (Some es)"
    "TALER_refresh_get_commitment cr (length pks) (map snd es) (GNUNET_CRYPTO_eddsa_key_get_public cr priv) amount = Some (md_rc md)"
    "md_num_fresh_coins md = of_nat (length pks)" "md_fresh_pks md = map dpk_key pks" "md_fresh_coins md = map fst es"
    "mc_coin_priv (md_melted_coin md) = priv" "mc_transfer_priv (md_melted_coin md) = tprivs"
  using assms by (auto simp: TALER_EXCHANGE_refresh_prepare_def bind_eq_Some_conv Let_def split: option.splits if_splits prod.splits)

text \<open>The envelopes of the request are those of the chosen index.\<close>

lemma reveal_request_evs:
  assumes "coins_match teh pks fcs rcds" and "n = length pks"
  shows "those (map (\<lambda>i. map_option (\<lambda>(c_hash, pd). pd_coin_ev pd) (TALER_planchet_prepare (teh_crypto teh) (pks ! i) (fcs ! i))) [0..<n])
     = Some (map rcd_coin_ev rcds)"
proof -
  have "length rcds = length pks" using assms(1) unfolding coins_match_def by (metis length_map)
  with assms show ?thesis
    unfolding those_map_Some by (auto simp: coins_match_def list_all2_conv_all_nth)
qed

lemma refreshes_reveal_request:
  assumes prep: "TALER_EXCHANGE_refresh_prepare (teh_crypto teh) tprivs priv amount sig pk pks = Some (Some md)"
    and req: "TALER_EXCHANGE_refreshes_reveal (teh_crypto teh) md \<gamma> = Some req"
    and len: "length tprivs = 3" "length pks < 256" and dkis: "map denom_pub dkis = map dpk_key pks"
  obtains es where "\<gamma> < 3" "length es = 3"
    "TALER_refresh_get_commitment (teh_crypto teh) (length pks) (map snd es) (GNUNET_CRYPTO_eddsa_key_get_public (teh_crypto teh) priv) amount
       = Some (md_rc md)"
    "\<forall>i<3. reveal_entry teh dkis (GNUNET_CRYPTO_eddsa_key_get_public (teh_crypto teh) priv) (tprivs ! i) = Some (snd (es ! i))"
    "rce_transfer_pub (snd (es ! \<gamma>)) = rq_transfer_pub req" "coins_match teh (map dpk_key pks) (fst (es ! \<gamma>)) (rce_new_coins (snd (es ! \<gamma>)))"
    "rq_rc req = Some (md_rc md)" "rq_operation req = ''reveal''"
    "rq_transfer_privs req = map (\<lambda>j. Some (tprivs ! j)) (filter (\<lambda>j. j \<noteq> \<gamma>) [0..<3])"
    "rq_coin_evs req = map (\<lambda>r. Some (rcd_coin_ev r)) (rce_new_coins (snd (es ! \<gamma>)))"
    "rq_new_denoms_h req = map (\<lambda>pk. Some (GNUNET_CRYPTO_rsa_public_key_hash (teh_crypto teh) (dpk_key pk))) pks"
    "rq_link_sigs req = map (\<lambda>r. Some (link_sig (teh_crypto teh) (md_melted_coin md) (rq_transfer_pub req) (rcd_dk r) (rcd_coin_ev r)))
       (rce_new_coins (snd (es ! \<gamma>)))"
    "md_num_fresh_coins md = of_nat (length pks)" "md_fresh_pks md = map dpk_key pks" "md_fresh_coins md = map fst es"
    "mc_coin_priv (md_melted_coin md) = priv"
proof -
  obtain es where es: "prepare_entries (teh_crypto teh) priv (map dpk_key pks) tprivs = Some (Some es)"
    "TALER_refresh_get_commitment (teh_crypto teh) (length pks) (map snd es) (GNUNET_CRYPTO_eddsa_key_get_public (teh_crypto teh) priv) amount
       = Some (md_rc md)"
    and md: "md_num_fresh_coins md = of_nat (length pks)" "md_fresh_pks md = map dpk_key pks" "md_fresh_coins md = map fst es"
    "mc_coin_priv (md_melted_coin md) = priv" "mc_transfer_priv (md_melted_coin md) = tprivs"
    using refresh_prepare_elim [OF prep] by blast
  note e = prepare_entries_reveal [OF es(1) dkis]
  have \<gamma>: "\<gamma> < 3" using req by (auto simp: TALER_EXCHANGE_refreshes_reveal_def split: if_splits)
  have le: "length es = 3" using e len(1) by (auto dest: list_all2_lengthD)
  have e: "\<forall>i<3. reveal_entry teh dkis (GNUNET_CRYPTO_eddsa_key_get_public (teh_crypto teh) priv) (tprivs ! i) = Some (snd (es ! i))
     \<and> rce_transfer_pub (snd (es ! i)) = GNUNET_CRYPTO_ecdhe_key_get_public (teh_crypto teh) (tprivs ! i)
     \<and> coins_match teh (map dpk_key pks) (fst (es ! i)) (rce_new_coins (snd (es ! i)))"
    using e len(1) le by (auto simp: list_all2_conv_all_nth)
  let ?rcds = "rce_new_coins (snd (es ! \<gamma>))"
  have cm: "coins_match teh (map dpk_key pks) (fst (es ! \<gamma>)) ?rcds" using e \<gamma> by blast
  then have dk: "map rcd_dk ?rcds = map dpk_key pks" "length ?rcds = length pks"
    unfolding coins_match_def by (auto dest: arg_cong [where f = length])
  have n: "unat (of_nat (length pks) :: 16 word) = length pks"
    using len(2) by (simp add: unat_of_nat take_bit_nat_eq_self)
  have evs: "those (map (\<lambda>i. map_option (\<lambda>(c_hash, pd). pd_coin_ev pd) (TALER_planchet_prepare (teh_crypto teh) (map dpk_key pks ! i)
      (fst (es ! \<gamma>) ! i))) [0..<length pks]) = Some (map rcd_coin_ev ?rcds)"
    by (rule reveal_request_evs [OF cm]) simp
  have fc: "map fst es ! \<gamma> = fst (es ! \<gamma>)" using \<gamma> le by simp
  have r: "req = \<lparr>rq_rc = Some (md_rc md), rq_operation = ''reveal'',
      rq_transfer_pub = GNUNET_CRYPTO_ecdhe_key_get_public (teh_crypto teh) (tprivs ! \<gamma>),
      rq_transfer_privs = map (\<lambda>j. Some (tprivs ! j)) (filter (\<lambda>j. j \<noteq> \<gamma>) [0..<3]),
      rq_link_sigs = map (\<lambda>i. Some (link_sig (teh_crypto teh) (md_melted_coin md) (GNUNET_CRYPTO_ecdhe_key_get_public (teh_crypto teh) (tprivs ! \<gamma>))
         (map dpk_key pks ! i) (map rcd_coin_ev ?rcds ! i))) [0..<length pks],
      rq_coin_evs = map Some (map rcd_coin_ev ?rcds),
      rq_new_denoms_h = map (\<lambda>i. Some (GNUNET_CRYPTO_rsa_public_key_hash (teh_crypto teh) (map dpk_key pks ! i))) [0..<length pks]\<rparr>"
    using req \<gamma> by (simp add: TALER_EXCHANGE_refreshes_reveal_def Let_def md n evs fc)
  have nth: "map dpk_key pks ! i = rcd_dk (?rcds ! i)" if "i < length pks" for i
    using that dk(2) by (metis dk(1) nth_map)
  show ?thesis
    by (rule that [OF \<gamma> le es(2)])
      (use e \<gamma> cm md dk nth in \<open>auto simp: r intro: nth_equalityI\<close>)
qed

text \<open>Whatever index the exchange has chosen, it finds the commitment of the wallet.\<close>

lemma honest_commitment:
  assumes e: "\<gamma> < 3" "length es = 3"
    "TALER_refresh_get_commitment (teh_crypto teh) (length dkis) (map snd es) p (rf_amount_with_fee (melt_session melt)) = Some rc"
    "\<forall>i<3. reveal_entry teh dkis p (tprivs ! i) = Some (snd (es ! i))"
    and melt: "coin_pub (rf_coin (melt_session melt)) = p" "unat (rf_noreveal_index (melt_session melt)) = \<gamma>"
    and c: "rv_dkis rctx = dkis" "rv_gamma_tp rctx = rce_transfer_pub (snd (es ! \<gamma>))" "rv_rcds rctx = rce_new_coins (snd (es ! \<gamma>))"
      "rv_transfer_privs rctx = map (nth tprivs) (filter (\<lambda>j. j \<noteq> \<gamma>) [0..<3])"
  shows "reveal_commitment teh rctx melt = Some rc"
proof -
  obtain e0 e1 e2 where es: "es = [e0, e1, e2]" using e(2) by (auto simp: numeral_3_eq_3 length_Suc_conv)
  have r: "reveal_entry teh dkis p (tprivs ! 0) = Some (snd e0)" "reveal_entry teh dkis p (tprivs ! Suc 0) = Some (snd e1)"
    "reveal_entry teh dkis p (tprivs ! 2) = Some (snd e2)"
    using e(4) [rule_format, of 0] e(4) [rule_format, of 1] e(4) [rule_format, of 2] by (simp_all add: es)
  have upt: "[0..<3] = [0, Suc 0, 2]" by (simp add: upt_rec)
  have g: "\<lparr>rce_transfer_pub = rv_gamma_tp rctx, rce_new_coins = rv_rcds rctx\<rparr> = snd (es ! \<gamma>)"
    by (simp add: c)
  have "those (map (\<lambda>i. if i = \<gamma> then Some (snd (es ! \<gamma>))
      else reveal_entry teh dkis p (rv_transfer_privs rctx ! (i - (if \<gamma> < i then 1 else 0)))) [0..<3]) = Some (map snd es)"
    using e(1) r unfolding upt c(4)
    by (auto simp: es less_Suc_eq numeral_3_eq_3 numeral_2_eq_2)
  then show ?thesis
    unfolding reveal_commitment_def Let_def melt c(1) g using e(3) by simp
qed

text \<open>The link signatures are valid.\<close>

lemma honest_links:
  assumes sig: "\<forall>m. GNUNET_CRYPTO_eddsa_verify (teh_crypto teh) m (GNUNET_CRYPTO_eddsa_sign (teh_crypto teh) (mc_coin_priv coin) m) p"
    and p: "GNUNET_CRYPTO_eddsa_key_get_public (teh_crypto teh) (mc_coin_priv coin) = p"
  shows "reveal_links teh p tp (map (\<lambda>r. Some (GNUNET_CRYPTO_rsa_public_key_hash (teh_crypto teh) (rcd_dk r))) rcds) rcds
     (map (\<lambda>r. Some (link_sig (teh_crypto teh) coin tp (rcd_dk r) (rcd_coin_ev r))) rcds)
     = Inr (map (\<lambda>r. link_sig (teh_crypto teh) coin tp (rcd_dk r) (rcd_coin_ev r)) rcds)"
  by (induction rcds) (use sig in \<open>auto simp: link_sig_def p\<close>)

section \<open>The transactions without errors\<close>

lemma insert_revealed_coins_undisturbed:
  assumes "gnunet_ok g" and "undisturbed s" and "rc \<in> rcm_rc ` set (t_refresh_commitments (s_db s))"
    and "\<forall>rrc\<in>set rrcs. denom_known (s_db s) (GNUNET_CRYPTO_rsa_public_key_hash cr (rrco_denom_pub rrc))"
  shows "\<exists>qs s'. insert_revealed_coins g cr rc i rrcs s = Some (qs, s') \<and> 0 \<le> qs \<and> s_outcomes s' = []
     \<and> (qs = 1 \<longrightarrow> undisturbed s' \<and> t_refresh_commitments (s_db s') = t_refresh_commitments (s_db s))"
  using assms(2-4)
proof (induction rrcs arbitrary: i s)
  case (Cons rrc rrcs)
  let ?row = "revealed_row cr rc i rrc"
  have fk: "\<not> (\<not> denom_known (s_db s) (rrc_denom_pub_hash ?row) \<or> (\<forall>m\<in>set (t_refresh_commitments (s_db s)). rcm_rc m \<noteq> rrc_rc ?row))"
    using Cons.prems(2,3) by (auto simp: revealed_row_def)
  show ?case
  proof (cases "\<exists>r\<in>set (t_refresh_revealed_coins (s_db s)). rrc_coin_ev r = rrc_coin_ev ?row \<or> rrc_h_coin_ev r = rrc_h_coin_ev ?row
          \<or> rrc_rc r = rrc_rc ?row \<and> rrc_freshcoin_index r = rrc_freshcoin_index ?row")
    case True
    then have "sql_insert_refresh_revealed_coin ?row n (s_db s) = Inl PQ_UNIQUE_VIOLATION" for n
      by (simp add: sql_insert_refresh_revealed_coin_def)
    with assms(1) Cons.prems(1) show ?thesis
      by (simp add: pq_non_select_def gnunet_ok_def pq_fail_def) (simp add: undisturbed_def)
  next
    case False
    let ?db = "s_db s\<lparr>t_refresh_revealed_coins := t_refresh_revealed_coins (s_db s) @ [?row]\<rparr>"
    have "sql_insert_refresh_revealed_coin ?row n (s_db s) = Inr (1, ?db)" for n
      using False fk by (auto simp: sql_insert_refresh_revealed_coin_def)
    then obtain s1 where s1: "pq_non_select g (sql_insert_refresh_revealed_coin ?row) s = Some (1, s1)" "undisturbed s1" "s_db s1 = ?db"
      using Cons.prems(1) by (simp add: pq_non_select_def)
    have "\<forall>rrc\<in>set rrcs. denom_known (s_db s1) (GNUNET_CRYPTO_rsa_public_key_hash cr (rrco_denom_pub rrc))"
      using Cons.prems(3) by (simp add: s1(3) denom_known_def)
    with Cons.IH [OF s1(2), of "i + 1"] Cons.prems(2) s1 show ?thesis by simp
  qed
qed (simp add: undisturbed_def)

lemma reveal_persist_undisturbed:
  assumes "gnunet_ok (teh_gnunet teh)" and "undisturbed s" and "rv_rc c \<in> rcm_rc ` set (t_refresh_commitments (s_db s))"
    and "\<forall>dki\<in>set (rv_dkis c). denom_known (s_db s) (GNUNET_CRYPTO_rsa_public_key_hash (teh_crypto teh) (denom_pub dki))"
    and "rv_ev_sigs c = Some sigs" and "length (rv_transfer_privs c) = 2"
  shows "\<exists>qs s'. refreshes_reveal_persist teh c s = Some ((qs, None, c), s') \<and> 0 \<le> qs \<and> s_outcomes s' = []"
proof -
  obtain rrcs where rrcs: "reveal_rrcs c = Some rrcs" using assms(5) by (simp add: reveal_rrcs_def)
  have "\<forall>rrc\<in>set rrcs. denom_known (s_db s) (GNUNET_CRYPTO_rsa_public_key_hash (teh_crypto teh) (rrco_denom_pub rrc))"
    using rrcs assms(4) by (auto simp: reveal_rrcs_def bind_eq_Some_conv)
  from insert_revealed_coins_undisturbed [OF assms(1-3) this, of 0] obtain qs s1
    where i: "insert_revealed_coins (teh_gnunet teh) (teh_crypto teh) (rv_rc c) 0 rrcs s = Some (qs, s1)" "0 \<le> qs" "s_outcomes s1 = []"
      "qs = 1 \<longrightarrow> undisturbed s1 \<and> t_refresh_commitments (s_db s1) = t_refresh_commitments (s_db s)" by blast
  let ?k = "\<lparr>rtk_rc = rv_rc c, rtk_transfer_pub = rv_gamma_tp c, rtk_transfer_privs = rv_transfer_privs c\<rparr>"
  have "\<exists>qs s'. pq_non_select (teh_gnunet teh) (sql_insert_refresh_transfer_keys ?k) s1 = Some (qs, s') \<and> 0 \<le> qs \<and> s_outcomes s' = []"
    if q: "qs = 1"
  proof (cases "\<exists>r\<in>set (t_refresh_transfer_keys (s_db s1)). rtk_rc r = rv_rc c")
    case True
    then have "sql_insert_refresh_transfer_keys ?k n (s_db s1) = Inl PQ_UNIQUE_VIOLATION" for n
      by (simp add: sql_insert_refresh_transfer_keys_def)
    with assms(1) i(4) q show ?thesis
      by (simp add: pq_non_select_def gnunet_ok_def pq_fail_def) (simp add: undisturbed_def)
  next
    case False
    then have "\<exists>db. sql_insert_refresh_transfer_keys ?k n (s_db s1) = Inr (1, db)" for n
      using i(4) q assms(3) by (auto simp: sql_insert_refresh_transfer_keys_def)
    then obtain db where "sql_insert_refresh_transfer_keys ?k (s_serial s1) (s_db s1) = Inr (1, db)" by blast
    with i(3,4) q show ?thesis by (simp add: pq_non_select_def)
  qed
  with i rrcs assms(6) show ?thesis
    by (cases "qs = 1") (auto simp: refreshes_reveal_persist_def postgres_insert_refresh_reveal_def)
qed

lemma reveal_transaction_undisturbed:
  assumes "undisturbed s" and "postgres_get_melt (teh_gnunet teh) (teh_pg teh) (rv_rc c) s = Some ((1, Some melt), s)"
    and "unat (rf_noreveal_index (melt_session melt)) < 3" and "reveal_commitment teh c melt = Some (rv_rc c)"
    and "refresh_costs teh (melt_melt_fee melt) (rv_dkis c) = Some (Some cost)"
    and "amount_in cur cost" "amount_in cur (rf_amount_with_fee (melt_session melt))" "amt cost \<le> amt (rf_amount_with_fee (melt_session melt))"
  shows "refreshes_reveal_transaction teh c s = Some ((0, None, c), s)"
  using assms by (simp add: refreshes_reveal_transaction_def Let_def cmp_in)

lemma reveal_preflight_unrevealed:
  assumes "undisturbed s" and "sql_get_refresh_revealed_coins (rv_rc c) (s_db s) = []"
  shows "refreshes_reveal_preflight teh c s = Some ((0, None, c), s)"
  using assms by (simp add: refreshes_reveal_preflight_def postgres_get_refresh_reveal_def pq_multi_select_def Let_def)

text \<open>The melt that is stored in the tables\<close>

definition stored_melt :: "TEH \<Rightarrow> tables \<Rightarrow> hash_code \<Rightarrow> TALER_EXCHANGEDB_Melt \<Rightarrow> bool" where
  "stored_melt teh db rc melt \<longleftrightarrow> (\<exists>m k d. sql_get_melt rc db = [(m, k, d)]
     \<and> TALER_PQ_result_spec_amount (teh_currency teh) (dn_fee_refresh d) = Some (melt_melt_fee melt)
     \<and> TALER_PQ_result_spec_amount (teh_currency teh) (rcm_amount_with_fee m) = Some (rf_amount_with_fee (melt_session melt))
     \<and> melt_session melt = \<lparr>rf_coin = \<lparr>coin_pub = rcm_old_coin_pub m, coin_denom_pub_hash = kc_denom_pub_hash k, coin_denom_sig = 0\<rparr>,
          rf_coin_sig = rcm_old_coin_sig m, rf_rc = rc, rf_amount_with_fee = rf_amount_with_fee (melt_session melt),
          rf_noreveal_index = rcm_noreveal_index m\<rparr>)"

lemma get_melt_undisturbed:
  assumes "undisturbed s" and "stored_melt teh (s_db s) rc melt"
  shows "postgres_get_melt g (teh_pg teh) rc s = Some ((1, Some melt), s)"
proof -
  obtain m k d where m: "sql_get_melt rc (s_db s) = [(m, k, d)]"
    "TALER_PQ_result_spec_amount (teh_currency teh) (dn_fee_refresh d) = Some (melt_melt_fee melt)"
    "TALER_PQ_result_spec_amount (teh_currency teh) (rcm_amount_with_fee m) = Some (rf_amount_with_fee (melt_session melt))"
    "melt_session melt = \<lparr>rf_coin = \<lparr>coin_pub = rcm_old_coin_pub m, coin_denom_pub_hash = kc_denom_pub_hash k, coin_denom_sig = 0\<rparr>,
          rf_coin_sig = rcm_old_coin_sig m, rf_rc = rc, rf_amount_with_fee = rf_amount_with_fee (melt_session melt),
          rf_noreveal_index = rcm_noreveal_index m\<rparr>"
    using assms(2) unfolding stored_melt_def by blast
  have "melt = \<lparr>melt_session = melt_session melt, melt_melt_fee = melt_melt_fee melt\<rparr>" by simp
  then show ?thesis
    using m by (simp add: postgres_get_melt_def singleton_undisturbed [OF assms(1)])
qed

lemma reveal_attempts_honest:
  assumes ok: "reveal_context_ok teh c" "rv_preflight_ok c = 0" "rv_ev_sigs c = Some sigs"
    and s: "undisturbed s" "idle s" "db_ok (s_committed s)"
    and melt: "stored_melt teh (s_committed s) (rv_rc c) melt" "unat (rf_noreveal_index (melt_session melt)) < 3"
      "reveal_commitment teh c melt = Some (rv_rc c)"
    and cost: "refresh_costs teh (melt_melt_fee melt) (rv_dkis c) = Some (Some cost)" "amount_in cur cost"
      "amount_in cur (rf_amount_with_fee (melt_session melt))" "amt cost \<le> amt (rf_amount_with_fee (melt_session melt))"
    and new: "sql_get_refresh_revealed_coins (rv_rc c) (s_committed s) = []"
    and keys: "\<forall>dki\<in>set (rv_dkis c). denom_known (s_committed s) (GNUNET_CRYPTO_rsa_public_key_hash (teh_crypto teh) (denom_pub dki))"
  shows "\<exists>s'. reveal_attempts 2 teh c [] s = Some ([reply_ok MHD_HTTP_OK (REVEAL_OK sigs)], s')"
proof -
  have teh: "teh_ok teh" "length (rv_transfer_privs c) = 2" using ok(1) by (auto simp: reveal_context_ok_def)
  have rc: "rv_rc c \<in> rcm_rc ` set (t_refresh_commitments (s_committed s))"
  proof -
    obtain m k d where "(m, k, d) \<in> set (sql_get_melt (rv_rc c) (s_committed s))"
      using melt(1) unfolding stored_melt_def by (metis list.set_intros(1))
    then have "m \<in> set (t_refresh_commitments (s_committed s))" "rcm_rc m = rv_rc c"
      by (auto simp: sql_get_melt_def split: if_splits)
    then show ?thesis by (metis imageI)
  qed
  have c0: "c\<lparr>rv_preflight_ok := 0\<rparr> = c" using ok(2) by simp
  have cls: "preflight_cls teh c (s_committed s) c" "reveal_cls teh c c"
    using teh(1) ok c0 by (auto simp: preflight_cls_def reveal_cls_def intro!: exI [of _ 0])
  obtain s1 where s1: "TEH_DB_run_transaction (teh_gnunet teh) ''reveal pre-check'' (refreshes_reveal_preflight teh) c s
      = Some ((GNUNET_OK, None, c), s1)" "undisturbed s1"
    using run_transaction_undisturbed_context [OF s(1,2), of "refreshes_reveal_preflight teh" c "\<lambda>x. x = c"]
      reveal_preflight_unrevealed [of _ c teh] new by auto blast
  then have i1: "idle s1" "s_committed s1 = s_committed s"
    using reveal_preflight.run_transaction_wp [OF cls(1) s(2) refl, of "''reveal pre-check''"] by (auto simp: wp_iff run_ok_def)
  have t: "refreshes_reveal_transaction teh c s' = Some ((0, None, c), s')" if "undisturbed s'" "s_db s' = s_committed s" for s'
    by (rule reveal_transaction_undisturbed [OF that(1) get_melt_undisturbed [OF that(1)] melt(2,3) cost])
      (use melt(1) that(2) in simp)
  obtain s2 where s2: "TEH_DB_run_transaction (teh_gnunet teh) ''run reveal'' (refreshes_reveal_transaction teh) c s1
      = Some ((GNUNET_OK, None, c), s2)" "undisturbed s2"
    using run_transaction_undisturbed_context [OF s1(2) i1(1), of "refreshes_reveal_transaction teh" c "\<lambda>x. x = c"] t i1(2) by auto blast
  then have i2: "idle s2" "s_committed s2 = s_committed s"
    using reveal_transaction.run_transaction_wp [OF cls(2) i1(1), of "s_committed s" "''run reveal''"] i1(2) s(3)
    by (auto simp: wp_iff run_ok_def)
  obtain s3 where s3: "TEH_DB_run_transaction (teh_gnunet teh) ''persist reveal'' (refreshes_reveal_persist teh) c s2
      = Some ((GNUNET_OK, None, c), s3)"
    using run_transaction_undisturbed_outcomes [OF s2(2) i2(1), of "refreshes_reveal_persist teh" c "\<lambda>x. x = c"]
      reveal_persist_undisturbed [OF teh_okD(1) [OF teh(1)], of _ c sigs] rc keys ok(3) teh(2) i2(2) by auto blast
  show ?thesis
    using s1 s2 s3 ok(3) by (simp add: eval_nat_numeral c0 ok(2) reply_refreshes_reveal_success_def)
qed

section \<open>Properties\<close>

text \<open>What is assumed of the signatures: those of the coin can be verified, and the signature on a blinded coin can be
  unblinded to one on the coin.\<close>

definition signatures_ok :: "crypto \<Rightarrow> nat \<Rightarrow> TALER_EXCHANGEDB_DenominationKey list \<Rightarrow> bool" where
  "signatures_ok cr coin_priv dkis \<longleftrightarrow>
     (\<forall>m. GNUNET_CRYPTO_eddsa_verify cr m (GNUNET_CRYPTO_eddsa_sign cr coin_priv m) (GNUNET_CRYPTO_eddsa_key_get_public cr coin_priv))
     \<and> (\<forall>dki\<in>set dkis. \<forall>priv h b ev. denom_priv dki = Some priv \<longrightarrow> GNUNET_CRYPTO_rsa_blind cr h b (denom_pub dki) = Some ev \<longrightarrow>
          (\<exists>sig. GNUNET_CRYPTO_rsa_sign_blinded cr priv ev = Some sig
             \<and> GNUNET_CRYPTO_rsa_verify cr h (GNUNET_CRYPTO_rsa_unblind cr sig b (denom_pub dki)) (denom_pub dki)))"

lemma refresh_costs_enough:
  assumes "amount_in (teh_currency teh) a" and "\<forall>dki\<in>set dkis. \<exists>h. denomination_ok teh h dki"
    and "amt a + (\<Sum>dki\<leftarrow>dkis. denomination_cost teh dki) < AMT_LIMIT"
  shows "\<exists>x. refresh_costs teh a dkis = Some (Some x)"
  using assms
proof (induction dkis arbitrary: a)
  case (Cons dki dkis)
  from Cons.prems(2) obtain h where dk: "denomination_ok teh h dki" by auto
  obtain v f where v: "teh_ntoh teh (dk_value (issue_properties dki)) = Some v" "amount_in (teh_currency teh) v"
    "teh_ntoh teh (dk_fee_withdraw (issue_properties dki)) = Some f" "amount_in (teh_currency teh) f"
    using denomination_okD(2,3) [OF dk] by blast
  have pos: "0 \<le> (\<Sum>dki\<leftarrow>dkis. denomination_cost teh dki)"
    by (rule sum_list_int_nonneg) (auto simp: denomination_cost_def split: option.split)
  have sum: "amt a + (amt f + amt v) + (\<Sum>dki\<leftarrow>dkis. denomination_cost teh dki) < AMT_LIMIT"
    using Cons.prems(3) v by (simp add: denomination_cost_def)
  have nn: "0 \<le> amt a" "0 \<le> amt f" "0 \<le> amt v" by simp_all
  obtain r t where t: "TALER_amount_add f v = Some (r, t)" "0 \<le> r" "amount_in (teh_currency teh) t" "amt t = amt f + amt v"
    using amount_add_wp [OF v(4,2)] sum pos nn by (auto simp: wp_iff)
  obtain r2 b where b: "TALER_amount_add a t = Some (r2, b)" "0 \<le> r2" "amount_in (teh_currency teh) b" "amt b = amt a + amt t"
    using amount_add_wp [OF Cons.prems(1) t(3)] sum pos t(4) by (auto simp: wp_iff)
  from Cons.IH [OF b(3)] Cons.prems(2) sum b(4) t(4) obtain x where "refresh_costs teh b dkis = Some (Some x)" by auto
  with v t b show ?case by simp
qed simp

lemma stored_melt_amounts:
  assumes "teh_ok teh" and "db_ok db" and "stored_melt teh db rc melt"
  shows "amount_in (teh_currency teh) (melt_melt_fee melt)" "amount_in (teh_currency teh) (rf_amount_with_fee (melt_session melt))"
proof -
  obtain m k d where m: "sql_get_melt rc db = [(m, k, d)]"
    "TALER_PQ_result_spec_amount (teh_currency teh) (dn_fee_refresh d) = Some (melt_melt_fee melt)"
    "TALER_PQ_result_spec_amount (teh_currency teh) (rcm_amount_with_fee m) = Some (rf_amount_with_fee (melt_session melt))"
    using assms(3) unfolding stored_melt_def by blast
  have "(m, k, d) \<in> set (sql_get_melt rc db)" using m(1) by simp
  then have "m \<in> set (t_refresh_commitments db)" "d \<in> set (t_denominations db)" by (auto simp: sql_get_melt_def split: if_splits)
  then have "sql_normal (dn_fee_refresh d)" "sql_normal (rcm_amount_with_fee m)"
    using assms(2) by (auto simp: db_ok_def coin_tables_ok_def)
  with m(2,3) show "amount_in (teh_currency teh) (melt_melt_fee melt)" "amount_in (teh_currency teh) (rf_amount_with_fee (melt_session melt))"
    using result_spec_amount [OF teh_okD(2) [OF assms(1)]] by (metis option.inject)+
qed

text \<open>The coins that the wallet makes of the signatures are valid.\<close>

lemma fresh_coins_valid:
  assumes "coins_match teh pks fcs rcds" and "map denom_pub dkis = pks" and "signatures_ok (teh_crypto teh) priv dkis"
    and "\<forall>dki\<in>set dkis. denom_priv dki \<noteq> None" and "i < length pks" and sig: "fresh_signature teh (dkis ! i) (rcds ! i) sig"
  shows "\<exists>coin. TALER_planchet_to_coin (teh_crypto teh) (pks ! i) sig (fcs ! i)
       (GNUNET_CRYPTO_hash_key (teh_crypto teh) (GNUNET_CRYPTO_eddsa_key_get_public (teh_crypto teh) (ps_coin_priv (fcs ! i)))) = Some coin
     \<and> GNUNET_CRYPTO_rsa_verify (teh_crypto teh)
         (GNUNET_CRYPTO_hash_key (teh_crypto teh) (GNUNET_CRYPTO_eddsa_key_get_public (teh_crypto teh) (ps_coin_priv (fcs ! i)))) (fc_sig coin) (pks ! i)"
proof -
  let ?cr = "teh_crypto teh"
  let ?h = "GNUNET_CRYPTO_hash_key ?cr (GNUNET_CRYPTO_eddsa_key_get_public ?cr (ps_coin_priv (fcs ! i)))"
  have i: "dkis ! i \<in> set dkis" "denom_pub (dkis ! i) = pks ! i" using assms(2,5) by auto
  have "GNUNET_CRYPTO_rsa_blind ?cr ?h (ps_blinding_key (fcs ! i)) (pks ! i) = Some (rcd_coin_ev (rcds ! i))"
    using assms(1,5) by (auto simp: coins_match_def TALER_planchet_prepare_def Let_def split: option.splits)
  moreover obtain p where "denom_priv (dkis ! i) = Some p" "GNUNET_CRYPTO_rsa_sign_blinded ?cr p (rcd_coin_ev (rcds ! i)) = Some sig"
    using sig by (auto simp: fresh_signature_def)
  ultimately have "GNUNET_CRYPTO_rsa_verify ?cr ?h (GNUNET_CRYPTO_rsa_unblind ?cr sig (ps_blinding_key (fcs ! i)) (pks ! i)) (pks ! i)"
    using assms(3) i unfolding signatures_ok_def by fastforce
  then show ?thesis by (simp add: TALER_planchet_to_coin_def Let_def)
qed

lemma reveal_sign_complete:
  assumes "coins_match teh pks fcs rcds" and "map denom_pub dkis = pks" and "signatures_ok (teh_crypto teh) priv dkis"
    and "\<forall>dki\<in>set dkis. denom_priv dki \<noteq> None"
  shows "\<exists>sigs. reveal_sign teh dkis rcds = Some (Some sigs)"
  using assms
proof (induction dkis arbitrary: pks fcs rcds)
  case (Cons dki dkis)
  let ?cr = "teh_crypto teh"
  obtain p where p: "denom_priv dki = Some p" using Cons.prems(4) by auto
  obtain pks' where pks: "pks = denom_pub dki # pks'" "map denom_pub dkis = pks'" using Cons.prems(2) by auto
  obtain rcd rcds' where rcds: "rcds = rcd # rcds'" "rcd_dk rcd = denom_pub dki" "map rcd_dk rcds' = pks'"
    using Cons.prems(1) pks by (auto simp: coins_match_def)
  obtain fc fcs' where fcs: "fcs = fc # fcs'" "length fcs' = length pks'"
    using Cons.prems(1) pks by (cases fcs) (auto simp: coins_match_def)
  have m: "\<forall>i<Suc (length pks'). map_option (\<lambda>(c_hash, pd). pd_coin_ev pd) (TALER_planchet_prepare ?cr ((denom_pub dki # pks') ! i) ((fc # fcs') ! i))
      = Some (rcd_coin_ev ((rcd # rcds') ! i))"
    using Cons.prems(1) by (simp add: coins_match_def pks(1) fcs(1) rcds(1))
  from m [rule_format, of 0] have b: "GNUNET_CRYPTO_rsa_blind ?cr
      (GNUNET_CRYPTO_hash_key ?cr (GNUNET_CRYPTO_eddsa_key_get_public ?cr (ps_coin_priv fc))) (ps_blinding_key fc) (denom_pub dki) = Some (rcd_coin_ev rcd)"
    by (auto simp: TALER_planchet_prepare_def Let_def split: option.splits)
  have "\<exists>sig. GNUNET_CRYPTO_rsa_sign_blinded ?cr p (rcd_coin_ev rcd) = Some sig"
    using Cons.prems(3) p b unfolding signatures_ok_def by fastforce
  moreover have "\<forall>i<length pks'. map_option (\<lambda>(c_hash, pd). pd_coin_ev pd) (TALER_planchet_prepare ?cr (pks' ! i) (fcs' ! i))
      = Some (rcd_coin_ev (rcds' ! i))"
    using m by (metis nth_Cons_Suc not_less_eq)
  then have "coins_match teh pks' fcs' rcds'" using fcs rcds by (simp add: coins_match_def)
  moreover have "signatures_ok ?cr priv dkis" using Cons.prems(3) by (simp add: signatures_ok_def)
  ultimately show ?case
    using Cons.IH [OF _ pks(2)] Cons.prems(4) p rcds(1) by fastforce
qed simp

lemma fresh_coins_made:
  assumes "coins_match teh pks fcs rcds" and "map denom_pub dkis = pks" and "signatures_ok (teh_crypto teh) priv dkis"
    and "\<forall>dki\<in>set dkis. denom_priv dki \<noteq> None" and "length sigs = length pks"
    and "\<forall>i<length pks. fresh_signature teh (dkis ! i) (rcds ! i) (sigs ! i)"
    and md: "unat (md_num_fresh_coins md) = length pks" "md_fresh_coins md ! \<gamma> = fcs" "md_fresh_pks md = pks"
  shows "\<exists>coin_sigs. refresh_reveal_ok (teh_crypto teh) md \<gamma> sigs = Some coin_sigs \<and> length coin_sigs = length pks
     \<and> (\<forall>i<length pks. GNUNET_CRYPTO_rsa_verify (teh_crypto teh)
          (GNUNET_CRYPTO_hash_key (teh_crypto teh) (GNUNET_CRYPTO_eddsa_key_get_public (teh_crypto teh) (ps_coin_priv (fcs ! i)))) (coin_sigs ! i) (pks ! i))"
proof -
  let ?cr = "teh_crypto teh"
  let ?h = "\<lambda>i. GNUNET_CRYPTO_hash_key ?cr (GNUNET_CRYPTO_eddsa_key_get_public ?cr (ps_coin_priv (fcs ! i)))"
  have "\<forall>i<length pks. \<exists>coin. TALER_planchet_to_coin ?cr (pks ! i) (sigs ! i) (fcs ! i) (?h i) = Some coin
      \<and> GNUNET_CRYPTO_rsa_verify ?cr (?h i) (fc_sig coin) (pks ! i)"
    using fresh_coins_valid [OF assms(1-4)] assms(6) by blast
  then obtain coin where coin: "\<forall>i<length pks. TALER_planchet_to_coin ?cr (pks ! i) (sigs ! i) (fcs ! i) (?h i) = Some (coin i)
      \<and> GNUNET_CRYPTO_rsa_verify ?cr (?h i) (fc_sig (coin i)) (pks ! i)" by metis
  have "refresh_reveal_ok ?cr md \<gamma> sigs = Some (map (\<lambda>i. fc_sig (coin i)) [0..<length pks])"
    using coin assms(5) by (simp add: refresh_reveal_ok_def md Let_def those_map_Some list_all2_conv_all_nth)
  with coin show ?thesis by simp
qed

text \<open>C15. A wallet that follows the protocol gets its fresh coins: whichever index the exchange has chosen when it
  recorded the melt, the request that the wallet makes of its melt data is answered with one signature per coin, and the wallet
  makes of each of them a coin that the exchange accepts. Assumed are a database without errors, a melt of at least
  the refresh fee and the costs of the fresh coins, denominations that are known and in their withdraw period,
  and signature schemes whose signatures can be verified and unblinded.\<close>

theorem honest_refresh_granted:
  assumes teh: "teh_ok teh" "reveal_crypto_ok teh" "teh_keys teh = Some ks"
    and prep: "TALER_EXCHANGE_refresh_prepare (teh_crypto teh) tprivs priv amount sig pk pks = Some (Some md)"
    and req: "TALER_EXCHANGE_refreshes_reveal (teh_crypto teh) md \<gamma> = Some req"
    and len: "length tprivs = 3" "0 < length pks" "length pks < 256"
    and dkis: "reveal_denominations teh ks 0 (rq_new_denoms_h req) = Some (Inr dkis)" "map denom_pub dkis = map dpk_key pks"
    and sig: "signatures_ok (teh_crypto teh) priv dkis"
    and s: "undisturbed s" "idle s" "db_ok (s_committed s)"
    and melt: "stored_melt teh (s_committed s) (md_rc md) melt" "rf_amount_with_fee (melt_session melt) = amount"
      "coin_pub (rf_coin (melt_session melt)) = GNUNET_CRYPTO_eddsa_key_get_public (teh_crypto teh) priv"
      "unat (rf_noreveal_index (melt_session melt)) = \<gamma>"
    and cost: "amt (melt_melt_fee melt) + (\<Sum>dki\<leftarrow>dkis. denomination_cost teh dki) \<le> amt amount"
    and new: "sql_get_refresh_revealed_coins (md_rc md) (s_committed s) = []"
    and keys: "\<forall>pk\<in>set pks. denom_known (s_committed s) (GNUNET_CRYPTO_rsa_public_key_hash (teh_crypto teh) (dpk_key pk))"
  shows "\<exists>sigs coin_sigs s'. TEH_handler_reveal teh req s = Some ([reply_ok MHD_HTTP_OK (REVEAL_OK sigs)], s')
     \<and> refresh_reveal_ok (teh_crypto teh) md \<gamma> sigs = Some coin_sigs \<and> length coin_sigs = length pks
     \<and> (\<forall>i<length pks. TALER_test_coin_valid (teh_crypto teh)
          \<lparr>coin_pub = GNUNET_CRYPTO_eddsa_key_get_public (teh_crypto teh) (ps_coin_priv (md_fresh_coins md ! \<gamma> ! i)),
           coin_denom_pub_hash = GNUNET_CRYPTO_rsa_public_key_hash (teh_crypto teh) (dpk_key (pks ! i)), coin_denom_sig = coin_sigs ! i\<rparr>
          (dpk_key (pks ! i)) = Some GNUNET_YES)"
proof -
  let ?cr = "teh_crypto teh"
  let ?p = "GNUNET_CRYPTO_eddsa_key_get_public ?cr priv"
  obtain es where es: "\<gamma> < 3" "length es = 3" "TALER_refresh_get_commitment ?cr (length pks) (map snd es) ?p amount = Some (md_rc md)"
      "\<forall>i<3. reveal_entry teh dkis ?p (tprivs ! i) = Some (snd (es ! i))"
    and g: "rce_transfer_pub (snd (es ! \<gamma>)) = rq_transfer_pub req" "coins_match teh (map dpk_key pks) (fst (es ! \<gamma>)) (rce_new_coins (snd (es ! \<gamma>)))"
    and r: "rq_rc req = Some (md_rc md)" "rq_operation req = ''reveal''"
      "rq_transfer_privs req = map (\<lambda>j. Some (tprivs ! j)) (filter (\<lambda>j. j \<noteq> \<gamma>) [0..<3])"
      "rq_coin_evs req = map (\<lambda>r. Some (rcd_coin_ev r)) (rce_new_coins (snd (es ! \<gamma>)))"
      "rq_new_denoms_h req = map (\<lambda>pk. Some (GNUNET_CRYPTO_rsa_public_key_hash ?cr (dpk_key pk))) pks"
      "rq_link_sigs req = map (\<lambda>r. Some (link_sig ?cr (md_melted_coin md) (rq_transfer_pub req) (rcd_dk r) (rcd_coin_ev r)))
         (rce_new_coins (snd (es ! \<gamma>)))"
    and md: "md_num_fresh_coins md = of_nat (length pks)" "md_fresh_pks md = map dpk_key pks" "md_fresh_coins md = map fst es"
      "mc_coin_priv (md_melted_coin md) = priv"
    using refreshes_reveal_request [OF prep req len(1,3) dkis(2)] by blast
  let ?rcds = "rce_new_coins (snd (es ! \<gamma>))"
  let ?tp = "map (nth tprivs) (filter (\<lambda>j. j \<noteq> \<gamma>) [0..<3])"
  let ?ls = "map (\<lambda>r. link_sig ?cr (md_melted_coin md) (rq_transfer_pub req) (rcd_dk r) (rcd_coin_ev r)) ?rcds"
  have dk: "map rcd_dk ?rcds = map dpk_key pks" using g(2) by (simp add: coins_match_def)
  then have lr: "length ?rcds = length pks" "length dkis = length pks" using dkis(2) by (metis length_map)+
  have rk: "list_all2 (reveal_key teh) (rq_new_denoms_h req) dkis"
    using reveal_denominations_total [OF teh(3) teh_okD(3) [OF teh(1,3)], of 0 "rq_new_denoms_h req"] dkis(1) by auto
  then have keyed: "\<exists>h. reveal_key teh h dki" if "dki \<in> set dkis" for dki
    using that by (auto simp: in_set_conv_nth list_all2_conv_all_nth)
  then have priv: "\<forall>dki\<in>set dkis. denom_priv dki \<noteq> None" and dok: "\<forall>dki\<in>set dkis. \<exists>h. denomination_ok teh h dki"
    by (auto simp: reveal_key_def)
  have rcds: "reveal_envelopes dkis (rq_coin_evs req) = Inr ?rcds"
    using reveal_envelopes_match dk dkis(2) by (simp add: r(4))
  obtain sigs where sigs: "reveal_sign teh dkis ?rcds = Some (Some sigs)"
    using reveal_sign_complete [OF g(2) dkis(2) sig priv] by blast
  then have fresh: "length sigs = length dkis" "\<forall>i<length dkis. fresh_signature teh (dkis ! i) (?rcds ! i) (sigs ! i)"
    using reveal_sign_total [of dkis ?rcds teh] lr priv by auto
  let ?c = "resolved_context req (md_rc md) ?tp dkis ?rcds ?ls sigs"
  have hs: "map (\<lambda>pk. Some (GNUNET_CRYPTO_rsa_public_key_hash ?cr (dpk_key pk))) pks
      = map (\<lambda>r. Some (GNUNET_CRYPTO_rsa_public_key_hash ?cr (rcd_dk r))) ?rcds"
    using arg_cong [OF dk, of "map (\<lambda>k. Some (GNUNET_CRYPTO_rsa_public_key_hash ?cr k))"] by (simp add: comp_def)
  have links: "reveal_links teh (coin_pub (rf_coin (melt_session melt))) (rq_transfer_pub req) (rq_new_denoms_h req) ?rcds (rq_link_sigs req) = Inr ?ls"
    unfolding r(5,6) hs melt(3)
    by (rule honest_links) (use sig md in \<open>auto simp: signatures_ok_def\<close>)
  have tp: "length ?tp = 2" "those (rq_transfer_privs req) = Some ?tp"
    using es(1) by (auto simp: r(3) upt_rec those_map_Some list_all2_map2 list.rel_refl)
  have gm: "postgres_get_melt (teh_gnunet teh) (teh_pg teh) (md_rc md) s = Some ((1, Some melt), s)"
    by (rule get_melt_undisturbed [OF s(1)]) (use melt(1) s(2) in \<open>simp add: idle_def\<close>)
  have h: "TEH_handler_reveal teh req s = reveal_attempts 2 teh ?c [] s"
    by (rule reveal_handler_resolved [OF s(1) r(1,2) tp(2,1) _ _ _ _ teh(3) dkis(1) rcds gm links sigs]) (use len lr in \<open>simp_all add: r\<close>)
  note am = stored_melt_amounts [OF teh(1) s(3) melt(1)]
  have "amt amount < AMT_LIMIT" using amount_in_limit am(2) melt(2) by auto
  then obtain c where c: "refresh_costs teh (melt_melt_fee melt) dkis = Some (Some c)"
    using refresh_costs_enough [OF am(1) dok] cost by auto
  then have c': "amount_in (teh_currency teh) c" "amt c \<le> amt amount"
    using refresh_costs_total [OF am(1) dok] cost by auto
  have ok: "reveal_context_ok teh ?c"
    using teh dok tp keyed by (auto simp: reveal_context_ok_def resolved_context_def reveal_crypto_ok_def refresh_crypto_ok_def reveal_key_def) blast
  have rc: "reveal_commitment teh ?c melt = Some (md_rc md)"
    by (rule honest_commitment [OF es(1,2) _ es(4) melt(3,4)]) (use es(3) melt(2) g lr in \<open>simp_all add: resolved_context_def\<close>)
  have "\<forall>k\<in>set (map dpk_key pks). denom_known (s_committed s) (GNUNET_CRYPTO_rsa_public_key_hash ?cr k)" using keys by simp
  then have known: "\<forall>dki\<in>set dkis. denom_known (s_committed s) (GNUNET_CRYPTO_rsa_public_key_hash ?cr (denom_pub dki))"
    unfolding dkis(2) [symmetric] by simp
  have "\<exists>s'. reveal_attempts 2 teh ?c [] s = Some ([reply_ok MHD_HTTP_OK (REVEAL_OK sigs)], s')"
    by (rule reveal_attempts_honest [where melt = melt and cost = c, OF ok _ _ s _ _ _ _ c'(1)])
      (use melt es(1) c c' am new known rc in \<open>simp_all add: resolved_context_def\<close>)
  moreover obtain coin_sigs where "refresh_reveal_ok ?cr md \<gamma> sigs = Some coin_sigs" "length coin_sigs = length pks"
     "\<forall>i<length pks. GNUNET_CRYPTO_rsa_verify ?cr
          (GNUNET_CRYPTO_hash_key ?cr (GNUNET_CRYPTO_eddsa_key_get_public ?cr (ps_coin_priv (fst (es ! \<gamma>) ! i)))) (coin_sigs ! i) (map dpk_key pks ! i)"
    using fresh_coins_made [OF g(2) dkis(2) sig priv, of sigs md \<gamma>] fresh lr md es len(3) by (auto simp: unat_of_nat take_bit_nat_eq_self)
  ultimately show ?thesis
    using md es h by (auto simp: TALER_test_coin_valid_def)
qed

section \<open>A sample\<close>

text \<open>The melt of the sample database, for one coin of value 5\<close>

definition sample_dpk :: TALER_EXCHANGE_DenomPublicKey where
  "sample_dpk = \<lparr>dpk_key = 7, dpk_h_key = 7, dpk_expire_deposit = 600, dpk_value = mk_amount ''EUR'' 5 0,
     dpk_fee_withdraw = mk_amount ''EUR'' 1 0, dpk_fee_deposit = mk_amount ''EUR'' 1 0, dpk_fee_refresh = mk_amount ''EUR'' 1 0,
     dpk_fee_refund = mk_amount ''EUR'' 1 0\<rparr>"

lemma prepare_total_sum:
  assumes "amount_in c a" and "\<forall>pk\<in>set pks. amount_in c (dpk_value pk) \<and> amount_in c (dpk_fee_withdraw pk)"
    and "amt a + (\<Sum>pk\<leftarrow>pks. amt (dpk_value pk) + amt (dpk_fee_withdraw pk)) < AMT_LIMIT"
  shows "\<exists>t. prepare_total a pks = Some (Some t) \<and> amount_in c t \<and> amt t = amt a + (\<Sum>pk\<leftarrow>pks. amt (dpk_value pk) + amt (dpk_fee_withdraw pk))"
  using assms
proof (induction pks arbitrary: a)
  case (Cons pk pks)
  have pos: "0 \<le> (\<Sum>pk\<leftarrow>pks. amt (dpk_value pk) + amt (dpk_fee_withdraw pk))" "0 \<le> amt (dpk_fee_withdraw pk)"
    by (rule sum_list_int_nonneg) auto
  have l: "amt a + amt (dpk_value pk) + amt (dpk_fee_withdraw pk) < AMT_LIMIT" using Cons.prems(3) pos by simp
  obtain r b where b: "TALER_amount_add a (dpk_value pk) = Some (r, b)" "0 \<le> r" "amount_in c b" "amt b = amt a + amt (dpk_value pk)"
    using amount_add_wp [OF Cons.prems(1), of "dpk_value pk"] Cons.prems(2) l pos(2) by (auto simp: wp_iff)
  obtain r2 d where d: "TALER_amount_add b (dpk_fee_withdraw pk) = Some (r2, d)" "0 \<le> r2" "amount_in c d"
      "amt d = amt b + amt (dpk_fee_withdraw pk)"
    using amount_add_wp [OF b(3), of "dpk_fee_withdraw pk"] Cons.prems(2) l b(4) by (auto simp: wp_iff)
  with Cons.IH [OF d(3)] Cons.prems b show ?case by (auto simp: algebra_simps)
qed simp

lemma sample_prepare:
  "\<exists>md. TALER_EXCHANGE_refresh_prepare sample_crypto [32, 33, 34] 20 (mk_amount ''EUR'' 9 0) 20 sample_dpk [sample_dpk] = Some (Some md)
     \<and> md_rc md = 9 \<and> (\<exists>req. TALER_EXCHANGE_refreshes_reveal sample_crypto md 1 = Some req \<and> rq_new_denoms_h req = [Some 7])"
proof -
  have am: "amount_in ''EUR'' (mk_amount ''EUR'' v 0)" if "v < 1000" for v using that by (simp add: mk_amount_in_EUR)
  obtain z where z: "TALER_amount_get_zero (amt_currency (mk_amount ''EUR'' 9 0)) zero_amount = (GNUNET_OK, z)" "amount_in ''EUR'' z" "amt z = 0"
    using get_zero_in [OF am [of 9], of zero_amount] by auto
  obtain t where t: "prepare_total z [sample_dpk] = Some (Some t)" "amount_in ''EUR'' t" "amt t = 600000000"
    using prepare_total_sum [OF z(2), of "[sample_dpk]"] z(3) by (auto simp: sample_dpk_def am AMT_LIMIT_def)
  have c: "TALER_amount_cmp t (mk_amount ''EUR'' 9 0) = Some (- 1)" using t am [of 9] by simp
  have d: "TALER_amount_hton (GNUNET_htonll sample_crypto) (mk_amount ''EUR'' 9 0) \<noteq> None"
    using amount_in_wf [OF am [of 9]] amount_wf_valid by (simp add: TALER_amount_hton_def)
  obtain es where e: "prepare_entries sample_crypto 20 [7] [32, 33, 34] = Some (Some es)" "length es = 3" "\<forall>e\<in>set es. length (rce_new_coins (snd e)) = 1"
      "length (fst (es ! 1)) = 1"
    by (simp add: TALER_link_derive_transfer_secret_def TALER_planchet_setup_refresh_def TALER_planchet_prepare_def sample_crypto_def)
  have rc: "TALER_refresh_get_commitment sample_crypto 1 (map snd es) 20 (mk_amount ''EUR'' 9 0) = Some 9"
    using d e(2,3) by (auto simp: TALER_refresh_get_commitment_def numeral_3_eq_3 length_Suc_conv) (simp add: sample_crypto_def)
  have p: "TALER_planchet_prepare sample_crypto 7 fc \<noteq> None" for fc by (simp add: TALER_planchet_prepare_def sample_crypto_def Let_def)
  have cr: "GNUNET_CRYPTO_eddsa_key_get_public sample_crypto = id" "GNUNET_CRYPTO_rsa_public_key_hash sample_crypto = id" "dpk_key sample_dpk = 7"
    by (simp_all add: sample_crypto_def sample_dpk_def)
  have "TALER_EXCHANGE_refresh_prepare sample_crypto [32, 33, 34] 20 (mk_amount ''EUR'' 9 0) 20 sample_dpk [sample_dpk] = Some (Some
      \<lparr>md_rc = 9, md_num_fresh_coins = 1, md_melted_coin = \<lparr>mc_coin_priv = 20, mc_melt_amount_with_fee = mk_amount ''EUR'' 9 0,
         mc_fee_melt = dpk_fee_refresh sample_dpk, mc_original_value = dpk_value sample_dpk, mc_transfer_priv = [32, 33, 34],
         mc_expire_deposit = dpk_expire_deposit sample_dpk, mc_pub_key = 7, mc_sig = 20\<rparr>,
       md_fresh_pks = [7], md_fresh_coins = map fst es\<rparr>)" (is "_ = Some (Some ?md)")
    using rc by (simp add: TALER_EXCHANGE_refresh_prepare_def z t(1) c e(1) cr del: prepare_total.simps prepare_entries.simps)
  moreover obtain x where "TALER_planchet_prepare sample_crypto 7 (map fst es ! 1 ! 0) = Some x" using p by blast
  then have "\<exists>req. TALER_EXCHANGE_refreshes_reveal sample_crypto ?md 1 = Some req \<and> rq_new_denoms_h req = [Some 7]"
    by (simp add: TALER_EXCHANGE_refreshes_reveal_def Let_def cr)
  ultimately show ?thesis by auto
qed

lemma sample_signatures: "signatures_ok sample_crypto 20 [sample_denomination]"
  by (simp add: signatures_ok_def sample_crypto_def sample_denomination_def)

theorem honest_refresh_granted_witness:
  "\<exists>md req sigs coin_sigs s'.
     TALER_EXCHANGE_refresh_prepare sample_crypto [32, 33, 34] 20 (mk_amount ''EUR'' 9 0) 20 sample_dpk [sample_dpk] = Some (Some md)
     \<and> TALER_EXCHANGE_refreshes_reveal sample_crypto md 1 = Some req
     \<and> TEH_handler_reveal sample_teh req (sample_idle sample_melted_db []) = Some ([reply_ok MHD_HTTP_OK (REVEAL_OK sigs)], s')
     \<and> refresh_reveal_ok sample_crypto md 1 sigs = Some coin_sigs \<and> length coin_sigs = 1"
proof -
  obtain md req where md: "TALER_EXCHANGE_refresh_prepare sample_crypto [32, 33, 34] 20 (mk_amount ''EUR'' 9 0) 20 sample_dpk [sample_dpk] = Some (Some md)"
    "md_rc md = 9" "TALER_EXCHANGE_refreshes_reveal sample_crypto md 1 = Some req" "rq_new_denoms_h req = [Some 7]"
    using sample_prepare by blast
  let ?melt = "\<lparr>melt_session = \<lparr>rf_coin = \<lparr>coin_pub = 20, coin_denom_pub_hash = 7, coin_denom_sig = 0\<rparr>, rf_coin_sig = 20, rf_rc = 9,
      rf_amount_with_fee = mk_amount ''EUR'' 9 0, rf_noreveal_index = 1\<rparr>, melt_melt_fee = mk_amount ''EUR'' 1 0\<rparr>"
  have d: "reveal_denominations sample_teh sample_keys 0 (rq_new_denoms_h req) = Some (Inr [sample_denomination])"
    unfolding md(4) by (simp add: sample_lookup) (simp add: sample_denomination_def)
  have melt: "stored_melt sample_teh (s_committed (sample_idle sample_melted_db [])) (md_rc md) ?melt"
    using sample_teh_ok(2)
    by (simp add: stored_melt_def sql_get_melt_def sample_melted_db_def sample_db_def md(2) sample_result_amount)
  have cost: "(\<Sum>dki\<leftarrow>[sample_denomination]. denomination_cost sample_teh dki) = 600000000"
    by (simp add: denomination_cost_def sample_denomination_def sample_nbo)
  have new: "sql_get_refresh_revealed_coins (md_rc md) (s_committed (sample_idle sample_melted_db [])) = []"
    "\<forall>pk\<in>set [sample_dpk]. denom_known (s_committed (sample_idle sample_melted_db [])) (GNUNET_CRYPTO_rsa_public_key_hash (teh_crypto sample_teh) (dpk_key pk))"
    by (simp_all add: sql_get_refresh_revealed_coins_def sample_melted_db_def sample_db_def sample_dpk_def denom_known_def sample_crypto_def)
  have "dpk_key sample_dpk = 7" "denom_pub sample_denomination = 7" "GNUNET_CRYPTO_eddsa_key_get_public sample_crypto 20 = 20"
    "undisturbed (sample_idle sample_melted_db [])"
    by (simp_all add: sample_dpk_def sample_denomination_def sample_crypto_def undisturbed_def sample_idle_def)
  then show ?thesis
    using honest_refresh_granted [OF sample_teh_ok(1) sample_reveal_crypto _ _ _ _ _ _ d _ _ _ _ _ melt _ _ _ _ new, of "[32, 33, 34]" 20 "mk_amount ''EUR'' 9 0"
        20 sample_dpk 1] md sample_signatures sample_melted_db_ok cost by simp blast
qed

end
