(* ===== verification/Exchangedb_Wire.thy ===== *)
theory Exchangedb_Wire
  imports Coin_Updates
begin

text \<open>
  The operations of \<^verbatim>\<open>plugin_exchangedb_postgres.c\<close> for paying merchants: the deposits that are due, what was refunded of them,
  the tracking of aggregated deposits, wire fees, prepared and outgoing wire transfers. The iterators of the callers
  take the context and the session and may fail an assertion.
\<close>

section \<open>Statements\<close>

abbreviation (input) TALER_EXCHANGEDB_MATCHING_DEPOSITS_LIMIT :: nat where
  "TALER_EXCHANGEDB_MATCHING_DEPOSITS_LIMIT \<equiv> 10000"

text \<open>A deposit with its denomination\<close>

definition deposit_denoms :: "tables \<Rightarrow> (deposits_row \<times> denominations_row) list" where
  "deposit_denoms db =
     [(r, d). r \<leftarrow> t_deposits db, k \<leftarrow> t_known_coins db, kc_coin_pub k = dp_coin_pub r,
              d \<leftarrow> t_denominations db, dn_denom_pub_hash d = kc_denom_pub_hash k]"

definition sql_deposits_get_ready :: "abs_time \<Rightarrow> tables \<Rightarrow> (deposits_row \<times> denominations_row) list" where
  "sql_deposits_get_ready now db =
     take 1 (sort_key (\<lambda>(r, d). dp_wire_deadline r)
       (filter (\<lambda>(r, d). \<not> dp_tiny r \<and> \<not> dp_done r \<and> dp_wire_deadline r \<le> now \<and> dp_refund_deadline r < now)
          (deposit_denoms db)))"

definition sql_deposits_iterate_matching ::
    "pub_key \<Rightarrow> hash_code \<Rightarrow> tables \<Rightarrow> (deposits_row \<times> denominations_row) list" where
  "sql_deposits_iterate_matching merchant h_wire db =
     take TALER_EXCHANGEDB_MATCHING_DEPOSITS_LIMIT (sort_key (\<lambda>(r, d). dp_wire_deadline r)
       (filter (\<lambda>(r, d). dp_merchant_pub r = merchant \<and> dp_h_wire r = h_wire \<and> \<not> dp_done r) (deposit_denoms db)))"

text \<open>The reference to \<^verbatim>\<open>wire_out\<close> is deferred to the end of the transaction.\<close>

definition sql_insert_aggregation_tracking :: "(u64 \<Rightarrow> aggregation_tracking_row) \<Rightarrow> tables update" where
  "sql_insert_aggregation_tracking row n db =
     (if \<exists>r\<in>set (t_aggregation_tracking db). at_deposit_serial_id r = at_deposit_serial_id (row n)
      then Inl PQ_UNIQUE_VIOLATION
      else if \<forall>r\<in>set (t_deposits db). dp_deposit_serial_id r \<noteq> at_deposit_serial_id (row n)
      then Inl PQ_FOREIGN_KEY_VIOLATION
      else Inr (1, db\<lparr>t_aggregation_tracking := t_aggregation_tracking db @ [row n]\<rparr>))"

definition sql_get_wire_fee :: "string \<Rightarrow> abs_time \<Rightarrow> tables \<Rightarrow> wire_fee_row list" where
  "sql_get_wire_fee type date db =
     filter (\<lambda>r. wf_wire_method r = type \<and> wf_start_date r \<le> date \<and> wf_end_date r > date) (t_wire_fee db)"

definition sql_insert_wire_fee :: "wire_fee_row \<Rightarrow> tables update" where
  "sql_insert_wire_fee row n db =
     (if \<exists>r\<in>set (t_wire_fee db). wf_wire_method r = wf_wire_method row \<and> wf_start_date r = wf_start_date row
      then Inl PQ_UNIQUE_VIOLATION
      else Inr (1, db\<lparr>t_wire_fee := t_wire_fee db @ [row]\<rparr>))"

definition sql_insert_wire_out :: "(u64 \<Rightarrow> wire_out_row) \<Rightarrow> tables update" where
  "sql_insert_wire_out row n db =
     (if \<exists>r\<in>set (t_wire_out db). wo_wtid_raw r = wo_wtid_raw (row n) then Inl PQ_UNIQUE_VIOLATION
      else Inr (1, db\<lparr>t_wire_out := t_wire_out db @ [row n]\<rparr>))"

definition sql_wire_prepare_data_insert :: "(u64 \<Rightarrow> prewire_row) \<Rightarrow> tables update" where
  "sql_wire_prepare_data_insert row n db = Inr (1, db\<lparr>t_prewire := t_prewire db @ [row n]\<rparr>)"

definition sql_wire_prepare_data_mark_done :: "u64 \<Rightarrow> tables update" where
  "sql_wire_prepare_data_mark_done rowid n db =
     Inr (length (filter (\<lambda>r. pw_prewire_uuid r = rowid) (t_prewire db)),
          db\<lparr>t_prewire := map (\<lambda>r. if pw_prewire_uuid r = rowid then r\<lparr>pw_finished := True\<rparr> else r) (t_prewire db)\<rparr>)"

definition sql_wire_prepare_data_get :: "tables \<Rightarrow> prewire_row list" where
  "sql_wire_prepare_data_get db = take 1 (sort_key pw_prewire_uuid (filter (\<lambda>r. \<not> pw_finished r) (t_prewire db)))"

section \<open>Due deposits\<close>

record deposit_info =
  di_row_id :: u64
  di_merchant_pub :: pub_key
  di_coin_pub :: pub_key
  di_amount_with_fee :: TALER_Amount
  di_deposit_fee :: TALER_Amount
  di_h_contract_terms :: hash_code
  di_wire_deadline :: abs_time
  di_wire :: "string option"

type_synonym 'c deposit_iterator = "'c \<Rightarrow> deposit_info \<Rightarrow> tables session \<Rightarrow> ((int \<times> 'c) \<times> tables session) option"

definition extract_deposit ::
    "gnunet \<Rightarrow> PostgresClosure \<Rightarrow> string option \<Rightarrow> deposits_row \<Rightarrow> denominations_row \<Rightarrow> deposit_info option" where
  "extract_deposit g pg wire r d = do {
     amount_with_fee \<leftarrow> TALER_PQ_result_spec_amount (pg_currency pg) (dp_amount_with_fee r);
     deposit_fee \<leftarrow> TALER_PQ_result_spec_amount (pg_currency pg) (dn_fee_deposit d);
     Some \<lparr>di_row_id = dp_deposit_serial_id r, di_merchant_pub = dp_merchant_pub r, di_coin_pub = dp_coin_pub r,
       di_amount_with_fee = amount_with_fee, di_deposit_fee = deposit_fee, di_h_contract_terms = dp_h_contract_terms r,
       di_wire_deadline = TALER_PQ_result_spec_absolute_time g (dp_wire_deadline r), di_wire = wire\<rparr>
   }"

definition postgres_get_ready_deposit ::
    "gnunet \<Rightarrow> PostgresClosure \<Rightarrow> abs_time \<Rightarrow> 'c deposit_iterator \<Rightarrow> 'c \<Rightarrow> tables session
       \<Rightarrow> ((int \<times> 'c) \<times> tables session) option" where
  "postgres_get_ready_deposit g pg now deposit_cb c s = do {
     now \<leftarrow> TALER_PQ_query_param_absolute_time g (GNUNET_TIME_round_abs g now);
     ((qs, row), s) \<leftarrow> pq_singleton_select g (sql_deposits_get_ready now) s;
     case row of
       None \<Rightarrow> Some ((qs, c), s)
     | Some (r, d) \<Rightarrow> do {
         info \<leftarrow> extract_deposit g pg (Some (dp_wire r)) r d;
         deposit_cb c info s
       }
   }"

text \<open>How many rows the callback has processed; its own status is not passed on.\<close>

fun match_deposit_cb ::
    "gnunet \<Rightarrow> PostgresClosure \<Rightarrow> 'c deposit_iterator \<Rightarrow> (deposits_row \<times> denominations_row) list \<Rightarrow> nat \<Rightarrow> 'c
       \<Rightarrow> tables session \<Rightarrow> ((nat \<times> 'c) \<times> tables session) option" where
  "match_deposit_cb g pg deposit_cb [] i c s = Some ((i, c), s)"
| "match_deposit_cb g pg deposit_cb ((r, d) # rows) i c s = do {
     info \<leftarrow> extract_deposit g pg None r d;
     ((qs, c), s) \<leftarrow> deposit_cb c info s;
     if qs \<noteq> GNUNET_DB_STATUS_SUCCESS_ONE_RESULT then Some ((i, c), s)
     else match_deposit_cb g pg deposit_cb rows (i + 1) c s
   }"

definition postgres_iterate_matching_deposits ::
    "gnunet \<Rightarrow> PostgresClosure \<Rightarrow> hash_code \<Rightarrow> pub_key \<Rightarrow> 'c deposit_iterator \<Rightarrow> 'c \<Rightarrow> nat \<Rightarrow> tables session
       \<Rightarrow> ((int \<times> 'c) \<times> tables session) option" where
  "postgres_iterate_matching_deposits g pg h_wire merchant deposit_cb c limit s = do {
     ((qs, rows, bad), s) \<leftarrow> pq_multi_select g (sql_deposits_iterate_matching merchant h_wire) s;
     if bad then Some ((GNUNET_DB_STATUS_HARD_ERROR, c), s)
     else do {
       ((i, c), s) \<leftarrow> match_deposit_cb g pg deposit_cb (take limit rows) 0 c s;
       Some ((if qs \<ge> 0 then int i else qs, c), s)
     }
   }"

section \<open>Wire transfers\<close>

definition postgres_start_deferred_wire_out :: "tables session \<Rightarrow> (int \<times> tables session) option" where
  "postgres_start_deferred_wire_out s = do {
     (ok, s) \<leftarrow> postgres_start ''deferred wire out'' (postgres_preflight s);
     if ok \<noteq> GNUNET_OK then Some (GNUNET_SYSERR, s)
     else
       (let (x, s) = next_outcome s
        in if x = PQ_SOFT \<or> x = PQ_HARD then Some (GNUNET_SYSERR, postgres_rollback s)
           else Some (GNUNET_OK, s))
   }"

text \<open>\<^verbatim>\<open>COMMIT\<close> checks the deferred constraint.\<close>

definition wire_out_ref :: "tables \<Rightarrow> bool" where
  "wire_out_ref db \<longleftrightarrow> (\<forall>r\<in>set (t_aggregation_tracking db). at_wtid_raw r \<in> wo_wtid_raw ` set (t_wire_out db))"

definition commit_wire_out :: "gnunet \<Rightarrow> tables session \<Rightarrow> (int \<times> tables session) option" where
  "commit_wire_out g s =
     (if s_in_tx s \<and> \<not> s_failed s \<and> \<not> wire_out_ref (s_db s)
      then Some (pq_status g PQ_FOREIGN_KEY_VIOLATION, (end_transaction (snd (next_outcome s)))\<lparr>s_transaction_name := None\<rparr>)
      else postgres_commit g s)"

definition postgres_insert_aggregation_tracking ::
    "gnunet \<Rightarrow> nat \<Rightarrow> u64 \<Rightarrow> tables session \<Rightarrow> (int \<times> tables session) option" where
  "postgres_insert_aggregation_tracking g wtid deposit_serial_id s =
     pq_non_select g (sql_insert_aggregation_tracking (\<lambda>n.
       \<lparr>at_aggregation_serial_id = n, at_deposit_serial_id = deposit_serial_id, at_wtid_raw = wtid\<rparr>)) s"

definition postgres_wire_prepare_data_insert ::
    "gnunet \<Rightarrow> string \<Rightarrow> string \<Rightarrow> tables session \<Rightarrow> (int \<times> tables session) option" where
  "postgres_wire_prepare_data_insert g type buf s =
     pq_non_select g (sql_wire_prepare_data_insert (\<lambda>n.
       \<lparr>pw_prewire_uuid = n, pw_type = type, pw_finished = False, pw_buf = buf\<rparr>)) s"

definition postgres_wire_prepare_data_mark_finished ::
    "gnunet \<Rightarrow> u64 \<Rightarrow> tables session \<Rightarrow> (int \<times> tables session) option" where
  "postgres_wire_prepare_data_mark_finished g rowid s = pq_non_select g (sql_wire_prepare_data_mark_done rowid) s"

definition postgres_wire_prepare_data_get ::
    "gnunet \<Rightarrow> ('c \<Rightarrow> u64 \<Rightarrow> string \<Rightarrow> string \<Rightarrow> tables session \<Rightarrow> ('c \<times> tables session) option) \<Rightarrow> 'c \<Rightarrow> tables session
       \<Rightarrow> ((int \<times> 'c) \<times> tables session) option" where
  "postgres_wire_prepare_data_get g cb c s = do {
     ((qs, row), s) \<leftarrow> pq_singleton_select g sql_wire_prepare_data_get s;
     case row of
       None \<Rightarrow> Some ((qs, c), s)
     | Some r \<Rightarrow> do {
         (c, s) \<leftarrow> cb c (pw_prewire_uuid r) (pw_type r) (pw_buf r) s;
         Some ((qs, c), s)
       }
   }"

definition postgres_store_wire_transfer_out ::
    "gnunet \<Rightarrow> abs_time \<Rightarrow> nat \<Rightarrow> string \<Rightarrow> string \<Rightarrow> TALER_Amount \<Rightarrow> tables session \<Rightarrow> (int \<times> tables session) option" where
  "postgres_store_wire_transfer_out g date wtid wire_account exchange_account_section amount s = do {
     date \<leftarrow> TALER_PQ_query_param_absolute_time g date;
     amount \<leftarrow> TALER_PQ_query_param_amount amount;
     pq_non_select g (sql_insert_wire_out (\<lambda>n.
       \<lparr>wo_wireout_uuid = n, wo_execution_date = date, wo_wtid_raw = wtid, wo_wire_target = wire_account,
        wo_exchange_account_section = exchange_account_section, wo_amount = amount\<rparr>)) s
   }"

section \<open>Wire fees\<close>

record TALER_EXCHANGEDB_AggregateFees =
  af_wire_fee :: TALER_Amount
  af_closing_fee :: TALER_Amount
  af_start_date :: abs_time
  af_end_date :: abs_time
  af_master_sig :: signature

definition postgres_get_wire_fee ::
    "gnunet \<Rightarrow> PostgresClosure \<Rightarrow> string \<Rightarrow> abs_time \<Rightarrow> tables session
       \<Rightarrow> ((int \<times> TALER_EXCHANGEDB_AggregateFees option) \<times> tables session) option" where
  "postgres_get_wire_fee g pg type date s = do {
     date \<leftarrow> TALER_PQ_query_param_absolute_time g date;
     ((qs, row), s) \<leftarrow> pq_singleton_select g (sql_get_wire_fee type date) s;
     case row of
       None \<Rightarrow> Some ((qs, None), s)
     | Some r \<Rightarrow> do {
         wire_fee \<leftarrow> TALER_PQ_result_spec_amount (pg_currency pg) (wf_wire_fee r);
         closing_fee \<leftarrow> TALER_PQ_result_spec_amount (pg_currency pg) (wf_closing_fee r);
         Some ((qs, Some \<lparr>af_wire_fee = wire_fee, af_closing_fee = closing_fee,
           af_start_date = TALER_PQ_result_spec_absolute_time g (wf_start_date r),
           af_end_date = TALER_PQ_result_spec_absolute_time g (wf_end_date r), af_master_sig = wf_master_sig r\<rparr>), s)
       }
   }"

definition postgres_insert_wire_fee ::
    "gnunet \<Rightarrow> PostgresClosure \<Rightarrow> string \<Rightarrow> TALER_EXCHANGEDB_AggregateFees \<Rightarrow> tables session \<Rightarrow> (int \<times> tables session) option" where
  "postgres_insert_wire_fee g pg type af s = do {
     ((qs, old), s) \<leftarrow> postgres_get_wire_fee g pg type (af_start_date af) s;
     if qs < 0 then Some (qs, s)
     else case old of
       Some old \<Rightarrow>
         (if af_master_sig old \<noteq> af_master_sig af then Some (GNUNET_DB_STATUS_HARD_ERROR, s)
          else do {
            c \<leftarrow> TALER_amount_cmp (af_wire_fee af) (af_wire_fee old);
            if c \<noteq> 0 then Some (GNUNET_DB_STATUS_HARD_ERROR, s)
            else do {
              c \<leftarrow> TALER_amount_cmp (af_closing_fee af) (af_closing_fee old);
              if c \<noteq> 0 then Some (GNUNET_DB_STATUS_HARD_ERROR, s)
              else if af_start_date old \<noteq> af_start_date af \<or> af_end_date old \<noteq> af_end_date af
              then Some (GNUNET_DB_STATUS_HARD_ERROR, s)
              else Some (GNUNET_DB_STATUS_SUCCESS_NO_RESULTS, s)
            }
          })
     | None \<Rightarrow> do {
         start_date \<leftarrow> TALER_PQ_query_param_absolute_time g (af_start_date af);
         end_date \<leftarrow> TALER_PQ_query_param_absolute_time g (af_end_date af);
         wire_fee \<leftarrow> TALER_PQ_query_param_amount (af_wire_fee af);
         closing_fee \<leftarrow> TALER_PQ_query_param_amount (af_closing_fee af);
         pq_non_select g (sql_insert_wire_fee
           \<lparr>wf_wire_method = type, wf_start_date = start_date, wf_end_date = end_date, wf_wire_fee = wire_fee,
            wf_closing_fee = closing_fee, wf_master_sig = af_master_sig af\<rparr>) s
       }
   }"

end
