(* ===== verification/Wire_Fees.thy ===== *)
theory Wire_Fees
  imports Exchangedb_Wire Keystate Payto
begin

text \<open>
  \<^verbatim>\<open>src/exchangedb/exchangedb_fees.c\<close> and \<^verbatim>\<open>src/exchangedb/exchangedb_accounts.c\<close>: the wire fees of an account, as they are kept
  on the disk, in the database and in memory, and finding the account for a transfer. A file is the list of what
  \<^verbatim>\<open>GNUNET_DISK_file_read\<close> delivers until the end; the outer \<open>None\<close> of a result is a failed assertion, the
  inner one the result \<^verbatim>\<open>NULL\<close> or \<^verbatim>\<open>GNUNET_SYSERR\<close>.
\<close>

section \<open>Files\<close>

record TALER_MasterWireFeePS =
  mwf_h_wire_method :: hash_code
  mwf_start_date :: u64
  mwf_end_date :: u64
  mwf_wire_fee :: TALER_AmountNBO
  mwf_closing_fee :: TALER_AmountNBO

record TALER_WireFeeDiskP =
  wd_wf :: TALER_MasterWireFeePS
  wd_master_sig :: signature

datatype disk_read = Read_error | Read_short | Read_block TALER_WireFeeDiskP

definition wd2af :: "crypto \<Rightarrow> TALER_WireFeeDiskP \<Rightarrow> TALER_EXCHANGEDB_AggregateFees option" where
  "wd2af cr wd = do {
     wire_fee \<leftarrow> TALER_amount_ntoh (GNUNET_ntohll cr) (mwf_wire_fee (wd_wf wd));
     closing_fee \<leftarrow> TALER_amount_ntoh (GNUNET_ntohll cr) (mwf_closing_fee (wd_wf wd));
     Some \<lparr>af_wire_fee = wire_fee, af_closing_fee = closing_fee,
       af_start_date = GNUNET_ntohll cr (mwf_start_date (wd_wf wd)),
       af_end_date = GNUNET_ntohll cr (mwf_end_date (wd_wf wd)), af_master_sig = wd_master_sig wd\<rparr>
   }"

text \<open>The argument is the end of the list so far.\<close>

fun fees_read_blocks ::
    "crypto \<Rightarrow> TALER_EXCHANGEDB_AggregateFees option \<Rightarrow> disk_read list \<Rightarrow> TALER_EXCHANGEDB_AggregateFees list option option" where
  "fees_read_blocks cr endp [] = Some (Some [])"
| "fees_read_blocks cr endp (Read_error # _) = Some None"
| "fees_read_blocks cr endp (Read_short # _) = Some None"
| "fees_read_blocks cr endp (Read_block wd # blocks) = do {
     n \<leftarrow> wd2af cr wd;
     if (case endp of None \<Rightarrow> True | Some e \<Rightarrow> af_end_date e = af_start_date n) \<and> af_start_date n < af_end_date n
     then do {
       r \<leftarrow> fees_read_blocks cr (Some n) blocks;
       Some (map_option (\<lambda>afs. n # afs) r)
     }
     else Some None
   }"

text \<open>The files, by wire method; \<open>None\<close> if there is none (or no directory is configured). An empty list is \<^verbatim>\<open>NULL\<close>.\<close>

definition TALER_EXCHANGEDB_fees_read ::
    "crypto \<Rightarrow> (string \<Rightarrow> disk_read list option) \<Rightarrow> string \<Rightarrow> TALER_EXCHANGEDB_AggregateFees list option" where
  "TALER_EXCHANGEDB_fees_read cr files wireplugin =
     (case files wireplugin of
        None \<Rightarrow> Some []
      | Some blocks \<Rightarrow> do {
          r \<leftarrow> fees_read_blocks cr None blocks;
          Some (case r of None \<Rightarrow> [] | Some afs \<Rightarrow> afs)
        })"

definition TALER_EXCHANGEDB_fees_2_wf ::
    "gnunet \<Rightarrow> crypto \<Rightarrow> string \<Rightarrow> TALER_EXCHANGEDB_AggregateFees
       \<Rightarrow> (TALER_EXCHANGEDB_AggregateFees \<times> TALER_MasterWireFeePS) option" where
  "TALER_EXCHANGEDB_fees_2_wf g cr wiremethod af = do {
     let af = af\<lparr>af_start_date := GNUNET_TIME_round_abs g (af_start_date af),
                 af_end_date := GNUNET_TIME_round_abs g (af_end_date af)\<rparr>;
     wire_fee \<leftarrow> TALER_amount_hton (GNUNET_htonll cr) (af_wire_fee af);
     closing_fee \<leftarrow> TALER_amount_hton (GNUNET_htonll cr) (af_closing_fee af);
     Some (af, \<lparr>mwf_h_wire_method = GNUNET_CRYPTO_hash_data cr (wiremethod @ [NUL]),
       mwf_start_date = GNUNET_htonll cr (af_start_date af), mwf_end_date = GNUNET_htonll cr (af_end_date af),
       mwf_wire_fee = wire_fee, mwf_closing_fee = closing_fee\<rparr>)
   }"

text \<open>The blocks that are written. The caller's records are updated with the rounded times.\<close>

fun fees_write_blocks ::
    "gnunet \<Rightarrow> crypto \<Rightarrow> string \<Rightarrow> TALER_EXCHANGEDB_AggregateFees option \<Rightarrow> TALER_EXCHANGEDB_AggregateFees list
       \<Rightarrow> TALER_WireFeeDiskP list option option" where
  "fees_write_blocks g cr wireplugin prev [] = Some (Some [])"
| "fees_write_blocks g cr wireplugin prev (af # afs) =
     (if (case prev of None \<Rightarrow> False | Some l \<Rightarrow> af_end_date l \<noteq> af_start_date af) \<or> af_start_date af \<ge> af_end_date af
      then Some None
      else do {
        (af, mwf) \<leftarrow> TALER_EXCHANGEDB_fees_2_wf g cr wireplugin af;
        r \<leftarrow> fees_write_blocks g cr wireplugin (Some af) afs;
        Some (map_option (\<lambda>wds. \<lparr>wd_wf = mwf, wd_master_sig = af_master_sig af\<rparr> # wds) r)
      })"

definition TALER_EXCHANGEDB_fees_write ::
    "gnunet \<Rightarrow> crypto \<Rightarrow> string \<Rightarrow> TALER_EXCHANGEDB_AggregateFees list \<Rightarrow> TALER_WireFeeDiskP list option option" where
  "TALER_EXCHANGEDB_fees_write g cr wireplugin afs = fees_write_blocks g cr wireplugin None afs"

section \<open>Accounts\<close>

text \<open>The global list of accounts is an argument, and so is the bank's URL in place of the authentication data.\<close>

record TALER_EXCHANGEDB_WireAccount =
  wa_section_name :: string
  wa_method :: string
  wa_wire_gateway_url :: "string option"
  wa_af :: "TALER_EXCHANGEDB_AggregateFees list"

fun TALER_EXCHANGEDB_find_account_by_method ::
    "TALER_EXCHANGEDB_WireAccount list \<Rightarrow> string \<Rightarrow> TALER_EXCHANGEDB_WireAccount option" where
  "TALER_EXCHANGEDB_find_account_by_method [] method' = None"
| "TALER_EXCHANGEDB_find_account_by_method (wa # was) method' =
     (if method' = wa_method wa then Some wa else TALER_EXCHANGEDB_find_account_by_method was method')"

definition TALER_EXCHANGEDB_find_account_by_payto_uri ::
    "TALER_EXCHANGEDB_WireAccount list \<Rightarrow> string \<Rightarrow> TALER_EXCHANGEDB_WireAccount option" where
  "TALER_EXCHANGEDB_find_account_by_payto_uri was url =
     (case TALER_payto_get_method url of
        None \<Rightarrow> None
      | Some method' \<Rightarrow> TALER_EXCHANGEDB_find_account_by_method was method')"

text \<open>Changing the account that was found\<close>

fun update_account ::
    "TALER_EXCHANGEDB_WireAccount \<Rightarrow> TALER_EXCHANGEDB_WireAccount list \<Rightarrow> TALER_EXCHANGEDB_WireAccount list" where
  "update_account wa [] = []"
| "update_account wa (wa' # was) = (if wa_method wa = wa_method wa' then wa # was else wa' # update_account wa was)"

section \<open>Current fees\<close>

definition advance_fees ::
    "TALER_EXCHANGEDB_WireAccount \<Rightarrow> abs_time \<Rightarrow> TALER_EXCHANGEDB_AggregateFees option" where
  "advance_fees wa now =
     (case dropWhile (\<lambda>af. af_end_date af < now) (wa_af wa) of [] \<Rightarrow> None | af # _ \<Rightarrow> Some af)"

fun persist_fees ::
    "gnunet \<Rightarrow> PostgresClosure \<Rightarrow> string \<Rightarrow> TALER_EXCHANGEDB_AggregateFees list \<Rightarrow> tables session \<Rightarrow> (bool \<times> tables session) option" where
  "persist_fees g pg method' [] s = Some (True, s)"
| "persist_fees g pg method' (p # ps) s = do {
     (qs, s) \<leftarrow> postgres_insert_wire_fee g pg method' p s;
     if qs < 0 then Some (False, s) else persist_fees g pg method' ps s
   }"

definition TALER_EXCHANGEDB_update_fees ::
    "gnunet \<Rightarrow> PostgresClosure \<Rightarrow> crypto \<Rightarrow> (string \<Rightarrow> disk_read list option) \<Rightarrow> TALER_EXCHANGEDB_WireAccount \<Rightarrow> abs_time
       \<Rightarrow> tables session \<Rightarrow> ((TALER_EXCHANGEDB_AggregateFees option \<times> TALER_EXCHANGEDB_WireAccount) \<times> tables session) option" where
  "TALER_EXCHANGEDB_update_fees g pg cr files wa now s =
     (case advance_fees wa now of
        Some af \<Rightarrow> Some ((Some af, wa), s)
      | None \<Rightarrow> do {
          afs \<leftarrow> TALER_EXCHANGEDB_fees_read cr files (wa_method wa);
          (ok, s) \<leftarrow> persist_fees g pg (wa_method wa) afs s;
          if \<not> ok then Some ((None, wa\<lparr>wa_af := []\<rparr>), s)
          else
            (let wa = wa\<lparr>wa_af := afs\<rparr>
             in Some ((advance_fees wa now, wa), s))
        })"

section \<open>What is known of the fees\<close>

text \<open>Amounts in the currency of the exchange and rounded times\<close>

definition fee_ok :: "gnunet \<Rightarrow> PostgresClosure \<Rightarrow> TALER_EXCHANGEDB_AggregateFees \<Rightarrow> bool" where
  "fee_ok g pg af \<longleftrightarrow> amount_in (pg_currency pg) (af_wire_fee af) \<and> amount_in (pg_currency pg) (af_closing_fee af)
     \<and> GNUNET_TIME_round_abs g (af_start_date af) = af_start_date af \<and> GNUNET_TIME_round_abs g (af_end_date af) = af_end_date af"

definition fee_files_ok :: "gnunet \<Rightarrow> PostgresClosure \<Rightarrow> crypto \<Rightarrow> (string \<Rightarrow> disk_read list option) \<Rightarrow> bool" where
  "fee_files_ok g pg cr files \<longleftrightarrow>
     (\<forall>m blocks wd. files m = Some blocks \<longrightarrow> Read_block wd \<in> set blocks \<longrightarrow> (\<exists>af. wd2af cr wd = Some af \<and> fee_ok g pg af))"

text \<open>A file is accepted if each fee ends when the next one starts.\<close>

fun chronological :: "TALER_EXCHANGEDB_AggregateFees option \<Rightarrow> TALER_EXCHANGEDB_AggregateFees list \<Rightarrow> bool" where
  "chronological prev [] \<longleftrightarrow> True"
| "chronological prev (af # afs) \<longleftrightarrow> (case prev of None \<Rightarrow> True | Some p \<Rightarrow> af_end_date p = af_start_date af)
     \<and> af_start_date af < af_end_date af \<and> chronological (Some af) afs"

lemma fees_read_blocks_total:
  assumes "\<And>wd. Read_block wd \<in> set blocks \<Longrightarrow> \<exists>af. wd2af cr wd = Some af \<and> P af"
  shows "\<exists>r. fees_read_blocks cr endp blocks = Some r \<and> (\<forall>afs. r = Some afs \<longrightarrow> chronological endp afs \<and> (\<forall>af\<in>set afs. P af))"
  using assms
proof (induction blocks arbitrary: endp)
  case (Cons b blocks)
  show ?case
  proof (cases b)
    case (Read_block wd)
    with Cons.prems obtain af where af: "wd2af cr wd = Some af" "P af" by auto
    obtain r where r: "fees_read_blocks cr (Some af) blocks = Some r"
      "\<And>afs. r = Some afs \<Longrightarrow> chronological (Some af) afs \<and> (\<forall>af\<in>set afs. P af)"
      using Cons.IH [of "Some af"] Cons.prems by auto
    with Read_block af show ?thesis by (cases r) auto
  qed auto
qed simp

lemma fees_read_ok:
  assumes "fee_files_ok g pg cr files"
  shows "\<exists>afs. TALER_EXCHANGEDB_fees_read cr files m = Some afs \<and> chronological None afs \<and> (\<forall>af\<in>set afs. fee_ok g pg af)"
proof (cases "files m")
  case (Some blocks)
  with assms have "\<And>wd. Read_block wd \<in> set blocks \<Longrightarrow> \<exists>af. wd2af cr wd = Some af \<and> fee_ok g pg af"
    by (auto simp: fee_files_ok_def)
  from fees_read_blocks_total [of blocks cr "fee_ok g pg" None, OF this] Some show ?thesis
    by (auto simp: TALER_EXCHANGEDB_fees_read_def split: option.split)
qed (simp add: TALER_EXCHANGEDB_fees_read_def)

text \<open>What was written can be read again, if the times are rounded.\<close>

lemma hton_ntoh_Some:
  assumes "\<And>x. f' (f x) = x" and "TALER_amount_hton f a = Some n"
  shows "TALER_amount_ntoh f' n = Some a"
  using assms by (auto simp: TALER_amount_hton_def TALER_amount_ntoh_def TALER_amount_is_valid_def split: if_splits)

lemma wf_roundtrip:
  assumes "\<And>x. GNUNET_ntohll cr (GNUNET_htonll cr x) = x" and "TALER_EXCHANGEDB_fees_2_wf g cr m af = Some (af', mwf)"
  shows "wd2af cr \<lparr>wd_wf = mwf, wd_master_sig = af_master_sig af'\<rparr> = Some af'"
proof -
  obtain w c where "TALER_amount_hton (GNUNET_htonll cr) (af_wire_fee af) = Some w" "TALER_amount_hton (GNUNET_htonll cr) (af_closing_fee af) = Some c"
    "af' = af\<lparr>af_start_date := GNUNET_TIME_round_abs g (af_start_date af), af_end_date := GNUNET_TIME_round_abs g (af_end_date af)\<rparr>"
    "mwf = \<lparr>mwf_h_wire_method = GNUNET_CRYPTO_hash_data cr (m @ [NUL]), mwf_start_date = GNUNET_htonll cr (af_start_date af'),
      mwf_end_date = GNUNET_htonll cr (af_end_date af'), mwf_wire_fee = w, mwf_closing_fee = c\<rparr>"
    using assms(2) by (auto simp: TALER_EXCHANGEDB_fees_2_wf_def bind_eq_Some_conv Let_def)
  with hton_ntoh_Some [where f = "GNUNET_htonll cr" and f' = "GNUNET_ntohll cr", OF assms(1)] assms(1) show ?thesis by (simp add: wd2af_def)
qed

lemma rounded_fees_2_wf:
  assumes "GNUNET_TIME_round_abs g (af_start_date af) = af_start_date af" and "GNUNET_TIME_round_abs g (af_end_date af) = af_end_date af"
    and "TALER_EXCHANGEDB_fees_2_wf g cr m af = Some (af', mwf)"
  shows "af' = af"
  using assms by (auto simp: TALER_EXCHANGEDB_fees_2_wf_def bind_eq_Some_conv Let_def)

lemma fees_write_read_blocks:
  assumes "\<And>x. GNUNET_ntohll cr (GNUNET_htonll cr x) = x"
    and "\<forall>af\<in>set afs. GNUNET_TIME_round_abs g (af_start_date af) = af_start_date af \<and> GNUNET_TIME_round_abs g (af_end_date af) = af_end_date af"
    and "fees_write_blocks g cr m prev afs = Some (Some wds)"
  shows "fees_read_blocks cr prev (map Read_block wds) = Some (Some afs)"
  using assms(2,3)
proof (induction afs arbitrary: prev wds)
  case (Cons af afs)
  then obtain af' mwf wds' where c: "\<not> ((case prev of None \<Rightarrow> False | Some l \<Rightarrow> af_end_date l \<noteq> af_start_date af) \<or> af_start_date af \<ge> af_end_date af)"
    "TALER_EXCHANGEDB_fees_2_wf g cr m af = Some (af', mwf)" "fees_write_blocks g cr m (Some af') afs = Some (Some wds')"
    "wds = \<lparr>wd_wf = mwf, wd_master_sig = af_master_sig af'\<rparr> # wds'"
    by (auto simp: bind_eq_Some_conv split: if_splits)
  have af: "af' = af" using rounded_fees_2_wf [OF _ _ c(2)] Cons.prems(1) by simp
  have "fees_read_blocks cr (Some af) (map Read_block wds') = Some (Some afs)"
    using Cons.IH [of "Some af" wds'] Cons.prems(1) c(3) af by simp
  with wf_roundtrip [OF assms(1) c(2)] c(1,4) af show ?case by (auto split: option.splits)
qed simp

lemma advance_fees_mem:
  assumes "advance_fees wa now = Some af"
  shows "af \<in> set (wa_af wa)" "now \<le> af_end_date af"
proof -
  obtain afs where d: "dropWhile (\<lambda>af. af_end_date af < now) (wa_af wa) = af # afs"
    using assms by (auto simp: advance_fees_def split: list.splits)
  then show "af \<in> set (wa_af wa)" by (metis list.set_intros(1) set_dropWhileD)
  have "\<not> af_end_date af < now" using hd_dropWhile [of "\<lambda>af. af_end_date af < now" "wa_af wa"] d by simp
  then show "now \<le> af_end_date af" by simp
qed

text \<open>The end of a fee is its last moment here, and not exclusive.\<close>

lemma advance_fees_chronological:
  assumes "chronological prev (wa_af wa)" and "advance_fees wa now = Some af"
  shows "now \<le> af_end_date af \<and> (af_start_date af < now \<or> (\<exists>afs. wa_af wa = af # afs))"
  using assms
proof (induction "wa_af wa" arbitrary: wa prev)
  case (Cons x xs)
  show ?case
  proof (cases "af_end_date x < now")
    case True
    let ?wa = "wa\<lparr>wa_af := xs\<rparr>"
    have c: "chronological (Some x) xs" using Cons.prems(1) Cons.hyps(2) by (metis chronological.simps(2))
    have a: "advance_fees ?wa now = Some af"
      using Cons.prems(2) Cons.hyps(2) [symmetric] True by (simp add: advance_fees_def)
    from Cons.hyps(1) [of ?wa "Some x"] c a
    have "now \<le> af_end_date af" "af_start_date af < now \<or> (\<exists>afs. xs = af # afs)" by auto
    with c True show ?thesis by auto
  next
    case False
    with Cons.prems(2) Cons.hyps(2) [symmetric] show ?thesis by (simp add: advance_fees_def not_less)
  qed
qed (simp add: advance_fees_def)

end
