(* ===== verification/Bank_Transfer.thy ===== *)
theory Bank_Transfer
  imports Keystate Url
begin

text \<open>
  \<^verbatim>\<open>src/bank-lib/bank_api_transfer.c\<close>: the buffer in which a wire transfer is prepared, and the request for the bank that is made
  of it later. The buffer has the bytes of the packed struct as they are in memory, with the least significant byte first, and then the
  two strings. Hash codes and wire transfer identifiers are opaque and stand for their bytes. \<open>None\<close> is a failed
  assertion or a read outside of the buffer, the inner \<open>None\<close> the result \<^verbatim>\<open>NULL\<close>.
\<close>

section \<open>Bytes\<close>

fun nat_bytes :: "nat \<Rightarrow> nat \<Rightarrow> string" where
  "nat_bytes 0 n = []"
| "nat_bytes (Suc k) n = char_of n # nat_bytes k (n div 256)"

fun bytes_nat :: "string \<Rightarrow> nat" where
  "bytes_nat [] = 0"
| "bytes_nat (c # cs) = of_char c + 256 * bytes_nat cs"

lemma length_nat_bytes [simp]: "length (nat_bytes k n) = k"
  by (induction k n rule: nat_bytes.induct) simp_all

lemma bytes_nat_bytes [simp]: "n < 256 ^ k \<Longrightarrow> bytes_nat (nat_bytes k n) = n"
proof (induction k n rule: nat_bytes.induct)
  case (2 k n)
  then have "n div 256 < 256 ^ k" by (simp add: less_mult_imp_div_less mult.commute)
  with 2 show ?case by (simp add: of_char_of)
qed simp

text \<open>The bytes of an unsigned integer\<close>

definition u32_bytes :: "u32 \<Rightarrow> string" where
  "u32_bytes x = nat_bytes 4 (unat x)"

definition u64_bytes :: "u64 \<Rightarrow> string" where
  "u64_bytes x = nat_bytes 8 (unat x)"

lemma bytes_u32 [simp]: "of_nat (bytes_nat (u32_bytes x)) = x"
  using unat_u32_less [of x] by (simp add: u32_bytes_def)

lemma bytes_u64 [simp]: "of_nat (bytes_nat (u64_bytes x)) = x"
  using unat_u64_less [of x] by (simp add: u64_bytes_def)

lemma length_uint_bytes [simp]: "length (u32_bytes x) = 4" "length (u64_bytes y) = 8"
  by (simp_all add: u32_bytes_def u64_bytes_def)

section \<open>The packed struct\<close>

record WirePackP =
  wp_request_uid :: hash_code
  wp_amount :: TALER_AmountNBO
  wp_wtid :: nat
  wp_account_len :: u32
  wp_exchange_url_len :: u32

abbreviation (input) sizeof_WirePackP :: nat where "sizeof_WirePackP \<equiv> 128"

definition WirePackP_bytes :: "WirePackP \<Rightarrow> string" where
  "WirePackP_bytes w = nat_bytes 64 (wp_request_uid w)
     @ u64_bytes (nbo_value (wp_amount w)) @ u32_bytes (nbo_fraction (wp_amount w)) @ nbo_currency (wp_amount w)
     @ nat_bytes 32 (wp_wtid w) @ u32_bytes (wp_account_len w) @ u32_bytes (wp_exchange_url_len w)"

definition WirePackP_read :: "string \<Rightarrow> WirePackP" where
  "WirePackP_read buf =
     (let field = (\<lambda>offset len. take len (drop offset buf))
      in \<lparr>wp_request_uid = bytes_nat (field 0 64),
          wp_amount = \<lparr>nbo_value = of_nat (bytes_nat (field 64 8)), nbo_fraction = of_nat (bytes_nat (field 72 4)),
                       nbo_currency = field 76 12\<rparr>,
          wp_wtid = bytes_nat (field 88 32), wp_account_len = of_nat (bytes_nat (field 120 4)),
          wp_exchange_url_len = of_nat (bytes_nat (field 124 4))\<rparr>)"

section \<open>Preparing a transfer\<close>

text \<open>The number that \<^verbatim>\<open>GNUNET_CRYPTO_hash_create_random\<close> delivers and the limit \<^verbatim>\<open>GNUNET_MAX_MALLOC_CHECKED\<close> are
  arguments; the \<^verbatim>\<open>NULL\<close> buffer of size 0 is the empty string.\<close>

definition TALER_BANK_prepare_transfer ::
    "crypto \<Rightarrow> nat \<Rightarrow> hash_code \<Rightarrow> string \<Rightarrow> TALER_Amount \<Rightarrow> string \<Rightarrow> nat \<Rightarrow> string option" where
  "TALER_BANK_prepare_transfer cr max_malloc request_uid payto_uri amount exchange_base_url wtid =
     (let d_len = length payto_uri + 1; u_len = length exchange_base_url + 1
      in if d_len \<ge> max_malloc \<or> u_len \<ge> max_malloc \<or> d_len + u_len + sizeof_WirePackP \<ge> max_malloc then Some []
         else do {
           n \<leftarrow> TALER_amount_hton (GNUNET_htonll cr) amount;
           Some (WirePackP_bytes \<lparr>wp_request_uid = request_uid, wp_amount = n, wp_wtid = wtid,
                   wp_account_len = htonl (of_nat d_len), wp_exchange_url_len = htonl (of_nat u_len)\<rparr>
                 @ payto_uri @ [NUL] @ exchange_base_url @ [NUL])
         })"

section \<open>The request for the bank\<close>

record transfer_request =
  tr_url :: string
  tr_request_uid :: hash_code
  tr_amount :: TALER_Amount
  tr_exchange_base_url :: string
  tr_wtid :: nat
  tr_credit_account :: string

text \<open>Running out of memory and errors of libcurl are not modelled. Note that the lengths are 32-bit integers: for a length of 0 the
  last character is looked for almost 4 GB behind the string.\<close>

definition TALER_BANK_transfer ::
    "crypto \<Rightarrow> grow \<Rightarrow> string option \<Rightarrow> string \<Rightarrow> transfer_request option option" where
  "TALER_BANK_transfer cr grow wire_gateway_url buf =
     (if sizeof_WirePackP > length buf then Some None
      else do {
        let w = WirePackP_read buf;
        let d_len = ntohl (wp_account_len w);
        let u_len = ntohl (wp_exchange_url_len w);
        if sizeof_WirePackP + unat d_len + unat u_len \<noteq> length buf \<or> unat d_len > length buf \<or> unat u_len > length buf
           \<or> unat (d_len + u_len) > length buf
        then Some None
        else do {
          let destination_account_uri = drop sizeof_WirePackP buf;
          let exchange_base_url = drop (unat d_len) destination_account_uri;
          GNUNET_assert (unat (d_len - 1) < length destination_account_uri);
          if destination_account_uri ! unat (d_len - 1) \<noteq> NUL then Some None
          else do {
            GNUNET_assert (unat (u_len - 1) < length exchange_base_url);
            if exchange_base_url ! unat (u_len - 1) \<noteq> NUL then Some None
            else case wire_gateway_url of
              None \<Rightarrow> Some None
            | Some gateway \<Rightarrow> do {
                amount \<leftarrow> TALER_amount_ntoh (GNUNET_ntohll cr) (wp_amount w);
                url \<leftarrow> TALER_url_join grow gateway ''transfer'' [];
                Some (map_option (\<lambda>url. \<lparr>tr_url = url, tr_request_uid = wp_request_uid w, tr_amount = amount,
                  tr_exchange_base_url = cstr exchange_base_url, tr_wtid = wp_wtid w,
                  tr_credit_account = cstr destination_account_uri\<rparr>) url)
              }
          }
        }
      })"

section \<open>What is prepared is executed\<close>

lemma WirePackP_read_bytes:
  assumes "wp_request_uid w < 256 ^ 64" and "wp_wtid w < 256 ^ 32" and "length (nbo_currency (wp_amount w)) = 12"
  shows "WirePackP_read (WirePackP_bytes w @ rest) = w"
  using assms by (simp add: WirePackP_read_def WirePackP_bytes_def Let_def del: power_numeral)

lemma length_WirePackP_bytes: "length (nbo_currency (wp_amount w)) = 12 \<Longrightarrow> length (WirePackP_bytes w) = 128"
  by (simp add: WirePackP_bytes_def)

lemma prepared_request:
  assumes "length payto + length base_url + 130 < max_malloc" and "max_malloc \<le> 2 ^ 31"
    and "NUL \<notin> set payto" and "NUL \<notin> set base_url" and "amount_wf amount" and "length (amt_currency amount) = 12"
    and "uid < 256 ^ 64" and "wtid < 256 ^ 32" and "\<And>x. GNUNET_ntohll cr (GNUNET_htonll cr x) = x"
    and "grow_ok grow" and "gateway \<noteq> []" and "last gateway = CHR ''/''"
  shows "\<exists>buf. TALER_BANK_prepare_transfer cr max_malloc uid payto amount base_url wtid = Some buf
     \<and> TALER_BANK_transfer cr grow (Some gateway) buf = Some (Some
         \<lparr>tr_url = gateway @ ''transfer'', tr_request_uid = uid, tr_amount = amount, tr_exchange_base_url = base_url, tr_wtid = wtid,
          tr_credit_account = payto\<rparr>)"
proof -
  obtain n where n: "TALER_amount_hton (GNUNET_htonll cr) amount = Some n" "nbo_currency n = amt_currency amount"
    using assms(5) by (auto simp: TALER_amount_hton_def amount_wf_def)
  have a: "TALER_amount_ntoh (GNUNET_ntohll cr) n = Some amount"
    using TALER_amount_hton_ntoh [where GNUNET_ntohll = "GNUNET_ntohll cr" and GNUNET_htonll = "GNUNET_htonll cr", OF assms(9), of amount]
      n(1) assms(5) by (simp add: amount_wf_def)
  let ?w = "\<lparr>wp_request_uid = uid, wp_amount = n, wp_wtid = wtid, wp_account_len = htonl (of_nat (length payto + 1)),
    wp_exchange_url_len = htonl (of_nat (length base_url + 1))\<rparr>"
  define buf where "buf = WirePackP_bytes ?w @ payto @ [NUL] @ base_url @ [NUL]"
  have p: "TALER_BANK_prepare_transfer cr max_malloc uid payto amount base_url wtid = Some buf"
    using assms(1) n by (simp add: TALER_BANK_prepare_transfer_def buf_def Let_def)
  have u: "unat (of_nat (length payto + 1) :: u32) = length payto + 1" "unat (of_nat (length base_url + 1) :: u32) = length base_url + 1"
    "unat (of_nat (length payto) :: u32) = length payto" "unat (of_nat (length base_url) :: u32) = length base_url"
    "unat (of_nat (length payto + 1) + of_nat (length base_url + 1) :: u32) = length payto + length base_url + 2"
    using assms(1,2) by (simp_all add: unat_of_nat take_bit_nat_eq_self unat_word_ariths flip: of_nat_add of_nat_Suc)
  have "TALER_url_join grow gateway ''transfer'' [] = Some (Some (gateway @ ''transfer''))"
    using TALER_url_join_spec [OF assms(10), of "[]" gateway "''transfer''"] assms(11,12) by simp
  then have "TALER_BANK_transfer cr grow (Some gateway) buf = Some (Some
         \<lparr>tr_url = gateway @ ''transfer'', tr_request_uid = uid, tr_amount = amount, tr_exchange_base_url = base_url, tr_wtid = wtid,
          tr_credit_account = payto\<rparr>)"
    using assms(3,4,6,7,8) a u
    by (simp add: TALER_BANK_transfer_def Let_def buf_def WirePackP_read_bytes length_WirePackP_bytes n(2) nth_append cstr_append_NUL del: power_numeral)
  with p show ?thesis by blast
qed

text \<open>C40. A prepared transfer is executed as it was prepared: of the buffer that is stored, the request for the bank is made with the account, the
  amount, the identifiers and the URL of the exchange that were put in.\<close>

theorem prepared_transfer_executed:
  assumes "length payto + length base_url + 130 < max_malloc" and "max_malloc \<le> 2 ^ 31"
    and "NUL \<notin> set payto" and "NUL \<notin> set base_url" and "amount_wf amount" and "length (amt_currency amount) = 12"
    and "uid < 256 ^ 64" and "wtid < 256 ^ 32" and "\<And>x. GNUNET_ntohll cr (GNUNET_htonll cr x) = x"
    and "grow_ok grow" and "gateway \<noteq> []" and "last gateway = CHR ''/''"
  shows "\<exists>buf. TALER_BANK_prepare_transfer cr max_malloc uid payto amount base_url wtid = Some buf
     \<and> TALER_BANK_transfer cr grow (Some gateway) buf = Some (Some
         \<lparr>tr_url = gateway @ ''transfer'', tr_request_uid = uid, tr_amount = amount, tr_exchange_base_url = base_url, tr_wtid = wtid,
          tr_credit_account = payto\<rparr>)"
  by (rule prepared_request [OF assms])

theorem prepared_transfer_executed_witness:
  "\<exists>buf. TALER_BANK_prepare_transfer sample_crypto 1000 77 ''payto://x-taler-bank/h/42'' (mk_amount ''EUR'' 5 0) ''http://e/'' 8 = Some buf
     \<and> TALER_BANK_transfer sample_crypto (\<lambda>c n. n) (Some ''http://b/'') buf = Some (Some
         \<lparr>tr_url = ''http://b/transfer'', tr_request_uid = 77, tr_amount = mk_amount ''EUR'' 5 0, tr_exchange_base_url = ''http://e/'',
          tr_wtid = 8, tr_credit_account = ''payto://x-taler-bank/h/42''\<rparr>)"
proof -
  have "amount_wf (mk_amount ''EUR'' 5 0)" using mk_amount_in_EUR [of 0 5] by (simp add: amount_in_def)
  moreover have "length (amt_currency (mk_amount ''EUR'' 5 0)) = 12" by (simp add: mk_amount_def TALER_CURRENCY_LEN_def strlen_def cstr_def)
  moreover have "GNUNET_ntohll sample_crypto (GNUNET_htonll sample_crypto x) = x" for x by (simp add: sample_crypto_def)
  moreover have "grow_ok (\<lambda>c n. n)" by (simp add: grow_ok_def)
  ultimately show ?thesis
    using prepared_transfer_executed [of "''payto://x-taler-bank/h/42''" "''http://e/''" 1000 "mk_amount ''EUR'' 5 0" 77 8 sample_crypto
        "\<lambda>c n. n" "''http://b/''"] by simp
qed

end
