(* ===== verification/Aggregator.thy ===== *)
theory Aggregator
  imports Wire_Fees Bank_Transfer Json_Wire Handler_Context
begin

text \<open>
  \<^verbatim>\<open>src/exchange/taler-exchange-aggregator.c\<close>: the process that pays merchants. Each run takes a deposit that is due, adds the other unpaid
  deposits for the same account of the merchant, and commits to one wire transfer for all of them. The global variables that a
  run reads are the record \<open>aggregator\<close>; what the clock and the random number generator deliver in a run is the record
  \<open>aggregation_inputs\<close>. The list of accounts, whose fees are cached, is a part of the aggregation unit.
\<close>

section \<open>State\<close>

record aggregator =
  ag_gnunet :: gnunet
  ag_pg :: PostgresClosure
  ag_crypto :: crypto
  ag_json_string :: json_string
  ag_fee_files :: "string \<Rightarrow> disk_read list option"
  ag_currency_round_unit :: TALER_Amount
  ag_exchange_base_url :: string
  ag_max_malloc :: nat
  ag_test_mode :: bool

record aggregation_inputs =
  in_now :: abs_time
  in_execution_time :: abs_time
  in_wtid :: nat
  in_request_uid :: hash_code

record AggregationUnit =
  au_merchant_pub :: pub_key
  au_total_amount :: TALER_Amount
  au_final_amount :: TALER_Amount
  au_wire_fee :: TALER_Amount
  au_h_wire :: hash_code
  au_wtid :: nat
  au_row_id :: u64
  au_execution_time :: abs_time
  au_wire :: "string option"
  au_wa :: "TALER_EXCHANGEDB_WireAccount option"
  au_additional_rows :: "u64 list"
  au_failed :: bool
  au_have_refund :: bool
  au_accounts :: "TALER_EXCHANGEDB_WireAccount list"

definition zero_au :: "TALER_EXCHANGEDB_WireAccount list \<Rightarrow> AggregationUnit" where
  "zero_au accounts = \<lparr>au_merchant_pub = 0, au_total_amount = zero_amount, au_final_amount = zero_amount, au_wire_fee = zero_amount,
     au_h_wire = 0, au_wtid = 0, au_row_id = 0, au_execution_time = 0, au_wire = None, au_wa = None, au_additional_rows = [],
     au_failed = False, au_have_refund = False, au_accounts = accounts\<rparr>"

text \<open>What the process does next: run again at once or after a while, or shut down with an exit code\<close>

datatype next_task = Run_now | Run_delayed | Shutdown nat

abbreviation (input) GR_SUCCESS :: nat where "GR_SUCCESS \<equiv> 0"
abbreviation (input) GR_DATABASE_SESSION_FAIL :: nat where "GR_DATABASE_SESSION_FAIL \<equiv> 1"
abbreviation (input) GR_DATABASE_TRANSACTION_BEGIN_FAIL :: nat where "GR_DATABASE_TRANSACTION_BEGIN_FAIL \<equiv> 2"
abbreviation (input) GR_DATABASE_READY_DEPOSIT_HARD_FAIL :: nat where "GR_DATABASE_READY_DEPOSIT_HARD_FAIL \<equiv> 3"
abbreviation (input) GR_DATABASE_ITERATE_DEPOSIT_HARD_FAIL :: nat where "GR_DATABASE_ITERATE_DEPOSIT_HARD_FAIL \<equiv> 4"
abbreviation (input) GR_DATABASE_TINY_MARK_HARD_FAIL :: nat where "GR_DATABASE_TINY_MARK_HARD_FAIL \<equiv> 5"
abbreviation (input) GR_DATABASE_PREPARE_HARD_FAIL :: nat where "GR_DATABASE_PREPARE_HARD_FAIL \<equiv> 6"
abbreviation (input) GR_DATABASE_PREPARE_COMMIT_HARD_FAIL :: nat where "GR_DATABASE_PREPARE_COMMIT_HARD_FAIL \<equiv> 7"
abbreviation (input) GR_INVARIANT_FAILURE :: nat where "GR_INVARIANT_FAILURE \<equiv> 8"

section \<open>The callbacks\<close>

definition refund_by_coin_cb :: "TALER_Amount \<Rightarrow> AggregationUnit \<Rightarrow> (int \<times> AggregationUnit) option" where
  "refund_by_coin_cb amount_with_fee aux = do {
     (r, total_amount) \<leftarrow> TALER_amount_subtract (au_total_amount aux) (au_total_amount aux) amount_with_fee;
     let aux = aux\<lparr>au_have_refund := True, au_total_amount := total_amount\<rparr>;
     Some (if 0 > r then GNUNET_SYSERR else GNUNET_OK, aux)
   }"

text \<open>Taking the deposit fee off the amount \<open>from\<close>, unless there was a refund; \<open>currency\<close> is the one of the zero
  if the fee exceeds the amount.\<close>

definition subtract_deposit_fee :: "TALER_Amount \<Rightarrow> TALER_Amount \<Rightarrow> string \<Rightarrow> AggregationUnit \<Rightarrow> AggregationUnit option" where
  "subtract_deposit_fee amount deposit_fee currency au =
     (if au_have_refund au then Some au
      else do {
        (r, ntotal) \<leftarrow> TALER_amount_subtract invalidate amount deposit_fee;
        if 0 > r then do {
          let (r, zero) = TALER_amount_get_zero currency (au_total_amount au);
          GNUNET_assert (r = GNUNET_OK);
          Some (au\<lparr>au_total_amount := zero\<rparr>)
        }
        else Some (au\<lparr>au_total_amount := ntotal\<rparr>)
      })"

text \<open>The account that pays, and the fee of the transfer; the flag says whether there are both. The fees of the account are
  updated in any case.\<close>

definition deposit_account ::
    "aggregator \<Rightarrow> aggregation_inputs \<Rightarrow> string \<Rightarrow> AggregationUnit \<Rightarrow> tables session
       \<Rightarrow> ((bool \<times> AggregationUnit) \<times> tables session) option" where
  "deposit_account ag inp wire au s = do {
     url \<leftarrow> TALER_JSON_wire_to_payto (ag_json_string ag) wire;
     url \<leftarrow> url;
     case TALER_EXCHANGEDB_find_account_by_payto_uri (au_accounts au) url of
       None \<Rightarrow> Some ((False, au\<lparr>au_wa := None\<rparr>), s)
     | Some wa \<Rightarrow> do {
         let execution_time = GNUNET_TIME_round_abs (ag_gnunet ag) (in_execution_time inp);
         ((af, wa), s) \<leftarrow> TALER_EXCHANGEDB_update_fees (ag_gnunet ag) (ag_pg ag) (ag_crypto ag) (ag_fee_files ag) wa execution_time s;
         let au = au\<lparr>au_wa := Some wa, au_execution_time := execution_time, au_accounts := update_account wa (au_accounts au)\<rparr>;
         Some (case af of None \<Rightarrow> (False, au) | Some af \<Rightarrow> (True, au\<lparr>au_wire_fee := af_wire_fee af\<rparr>), s)
       }
   }"

text \<open>Tracking a deposit and marking it as paid\<close>

definition track_deposit :: "gnunet \<Rightarrow> nat \<Rightarrow> u64 \<Rightarrow> (int \<Rightarrow> bool) \<Rightarrow> tables session \<Rightarrow> (int \<times> tables session) option" where
  "track_deposit g wtid row_id tracked s = do {
     (qs, s) \<leftarrow> postgres_insert_aggregation_tracking g wtid row_id s;
     if \<not> tracked qs then Some (qs, s) else postgres_mark_deposit_done g row_id s
   }"

definition deposit_cb :: "aggregator \<Rightarrow> aggregation_inputs \<Rightarrow> AggregationUnit deposit_iterator" where
  "deposit_cb ag inp au info s = do {
     let au = au\<lparr>au_merchant_pub := di_merchant_pub info, au_row_id := di_row_id info, au_total_amount := di_amount_with_fee info,
                 au_have_refund := False\<rparr>;
     ((qs, au), s) \<leftarrow> postgres_select_refunds_by_coin (ag_gnunet ag) (ag_pg ag) (di_coin_pub info) (au_merchant_pub au)
                        (di_h_contract_terms info) refund_by_coin_cb au s;
     if 0 > qs then Some ((qs, au), s)
     else do {
       au \<leftarrow> subtract_deposit_fee (di_amount_with_fee info) (di_deposit_fee info) (amt_currency (au_total_amount au)) au;
       GNUNET_assert (au_wire au = None);
       case di_wire info of
         None \<Rightarrow> Some ((GNUNET_DB_STATUS_HARD_ERROR, au), s)
       | Some wire \<Rightarrow> do {
           h \<leftarrow> TALER_JSON_merchant_wire_signature_hash (ag_crypto ag) (ag_json_string ag) wire;
           case h of
             None \<Rightarrow> Some ((GNUNET_DB_STATUS_HARD_ERROR, au), s)
           | Some h_wire \<Rightarrow> do {
               let au = au\<lparr>au_wire := Some wire, au_h_wire := h_wire, au_wtid := in_wtid inp\<rparr>;
               ((ok, au), s) \<leftarrow> deposit_account ag inp wire au s;
               if \<not> ok then Some ((GNUNET_DB_STATUS_HARD_ERROR, au), s)
               else do {
                 (qs, s) \<leftarrow> track_deposit (ag_gnunet ag) (au_wtid au) (di_row_id info) (\<lambda>qs. \<not> qs \<le> 0) s;
                 Some ((qs, au), s)
               }
             }
         }
     }
   }"

definition aggregate_cb :: "aggregator \<Rightarrow> AggregationUnit deposit_iterator" where
  "aggregate_cb ag au info s =
     (if length (au_additional_rows au) \<ge> TALER_EXCHANGEDB_MATCHING_DEPOSITS_LIMIT
      then Some ((GNUNET_DB_STATUS_SUCCESS_ONE_RESULT, au), s)
      else do {
        let old = au_total_amount au;
        let au = au\<lparr>au_total_amount := di_amount_with_fee info, au_have_refund := False\<rparr>;
        ((qs, au), s) \<leftarrow> postgres_select_refunds_by_coin (ag_gnunet ag) (ag_pg ag) (di_coin_pub info) (au_merchant_pub au)
                           (di_h_contract_terms info) refund_by_coin_cb au s;
        if 0 > qs then Some ((qs, au), s)
        else do {
          au \<leftarrow> subtract_deposit_fee (au_total_amount au) (di_deposit_fee info) (amt_currency old) au;
          (r, tmp) \<leftarrow> TALER_amount_add (au_total_amount au) old;
          if 0 > r then Some ((GNUNET_DB_STATUS_SUCCESS_ONE_RESULT, au\<lparr>au_total_amount := old\<rparr>), s)
          else do {
            let au = au\<lparr>au_total_amount := tmp, au_additional_rows := au_additional_rows au @ [di_row_id info]\<rparr>;
            (qs, s) \<leftarrow> track_deposit (ag_gnunet ag) (au_wtid au) (di_row_id info) (\<lambda>qs. qs = GNUNET_DB_STATUS_SUCCESS_ONE_RESULT) s;
            Some ((qs, au), s)
          }
        }
      })"

section \<open>A run\<close>

definition commit_or_warn :: "gnunet \<Rightarrow> tables session \<Rightarrow> (int \<times> tables session) option" where
  "commit_or_warn g s = commit_wire_out g s"

text \<open>Is there something to transfer after the wire fee and rounding?\<close>

definition aggregate_final :: "aggregator \<Rightarrow> AggregationUnit \<Rightarrow> (bool \<times> AggregationUnit) option" where
  "aggregate_final ag au = do {
     (r, final) \<leftarrow> TALER_amount_subtract (au_final_amount au) (au_total_amount au) (au_wire_fee au);
     if 0 \<ge> r then Some (False, au\<lparr>au_final_amount := final\<rparr>)
     else
       (let (r, final) = TALER_amount_round_down final (ag_currency_round_unit ag)
        in Some (r \<noteq> GNUNET_SYSERR \<and> \<not> (amt_value final = 0 \<and> amt_fraction final = 0), au\<lparr>au_final_amount := final\<rparr>))
   }"

fun mark_rows_tiny :: "gnunet \<Rightarrow> u64 list \<Rightarrow> int \<Rightarrow> tables session \<Rightarrow> (int \<times> tables session) option" where
  "mark_rows_tiny g [] qs s = Some (qs, s)"
| "mark_rows_tiny g (r # rows) qs s = do {
     (qs, s) \<leftarrow> postgres_mark_deposit_tiny g r s;
     if 0 > qs then Some (qs, s) else mark_rows_tiny g rows qs s
   }"

definition aggregate_tiny :: "aggregator \<Rightarrow> AggregationUnit \<Rightarrow> tables session \<Rightarrow> (next_task \<times> tables session) option" where
  "aggregate_tiny ag au s = do {
     let s = postgres_rollback s;
     (ok, s) \<leftarrow> postgres_start ''aggregator mark tiny transactions'' s;
     if ok \<noteq> GNUNET_OK then Some (Shutdown GR_DATABASE_TRANSACTION_BEGIN_FAIL, s)
     else do {
       (qs, s) \<leftarrow> postgres_mark_deposit_tiny (ag_gnunet ag) (au_row_id au) s;
       (qs, s) \<leftarrow> (if 0 \<le> qs then mark_rows_tiny (ag_gnunet ag) (au_additional_rows au) qs s else Some (qs, s));
       if qs = GNUNET_DB_STATUS_SOFT_ERROR then Some (Run_now, postgres_rollback s)
       else if qs = GNUNET_DB_STATUS_HARD_ERROR then Some (Shutdown GR_DATABASE_TINY_MARK_HARD_FAIL, postgres_rollback s)
       else do {
         (qs, s) \<leftarrow> commit_or_warn (ag_gnunet ag) s;
         Some (Run_now, s)
       }
     }
   }"

definition aggregate_transfer ::
    "aggregator \<Rightarrow> aggregation_inputs \<Rightarrow> AggregationUnit \<Rightarrow> tables session \<Rightarrow> (next_task \<times> tables session) option" where
  "aggregate_transfer ag inp au s = do {
     wire \<leftarrow> au_wire au;
     wa \<leftarrow> au_wa au;
     url \<leftarrow> TALER_JSON_wire_to_payto (ag_json_string ag) wire;
     url \<leftarrow> url;
     buf \<leftarrow> TALER_BANK_prepare_transfer (ag_crypto ag) (ag_max_malloc ag) (in_request_uid inp) url (au_final_amount au)
              (ag_exchange_base_url ag) (au_wtid au);
     (qs, s) \<leftarrow> postgres_wire_prepare_data_insert (ag_gnunet ag) (wa_method wa) buf s;
     (qs, s) \<leftarrow> (if qs \<ge> 0
       then postgres_store_wire_transfer_out (ag_gnunet ag) (au_execution_time au) (au_wtid au) wire (wa_section_name wa) (au_final_amount au) s
       else Some (qs, s));
     if qs = GNUNET_DB_STATUS_SOFT_ERROR then Some (Run_now, postgres_rollback s)
     else if qs = GNUNET_DB_STATUS_HARD_ERROR then Some (Shutdown GR_DATABASE_PREPARE_HARD_FAIL, postgres_rollback s)
     else do {
       (qs, s) \<leftarrow> commit_or_warn (ag_gnunet ag) s;
       Some (if qs = GNUNET_DB_STATUS_SOFT_ERROR then Run_now
             else if qs = GNUNET_DB_STATUS_HARD_ERROR then Shutdown GR_DATABASE_PREPARE_COMMIT_HARD_FAIL
             else if qs = GNUNET_DB_STATUS_SUCCESS_NO_RESULTS then Run_now
             else Shutdown GR_INVARIANT_FAILURE, s)
     }
   }"

text \<open>After the iteration over the matching deposits, with its result \<open>qs\<close>\<close>

definition aggregate_matched ::
    "aggregator \<Rightarrow> aggregation_inputs \<Rightarrow> int \<Rightarrow> AggregationUnit \<Rightarrow> tables session
       \<Rightarrow> ((next_task \<times> TALER_EXCHANGEDB_WireAccount list) \<times> tables session) option" where
  "aggregate_matched ag inp qs au s =
     (if qs = GNUNET_DB_STATUS_HARD_ERROR \<or> au_failed au
      then Some ((Shutdown GR_DATABASE_ITERATE_DEPOSIT_HARD_FAIL, au_accounts au), postgres_rollback s)
      else if qs = GNUNET_DB_STATUS_SOFT_ERROR then Some ((Run_now, au_accounts au), postgres_rollback s)
      else do {
        (transfer, au) \<leftarrow> aggregate_final ag au;
        (task, s) \<leftarrow> (if transfer then aggregate_transfer ag inp au s else aggregate_tiny ag au s);
        Some ((task, au_accounts au), s)
      })"

definition aggregate_ready ::
    "aggregator \<Rightarrow> aggregation_inputs \<Rightarrow> TALER_EXCHANGEDB_WireAccount list \<Rightarrow> tables session
       \<Rightarrow> ((next_task \<times> TALER_EXCHANGEDB_WireAccount list) \<times> tables session) option" where
  "aggregate_ready ag inp accounts s = do {
     ((qs, au), s) \<leftarrow> postgres_get_ready_deposit (ag_gnunet ag) (ag_pg ag) (in_now inp) (deposit_cb ag inp) (zero_au accounts) s;
     if 0 \<ge> qs
     then Some ((if qs = GNUNET_DB_STATUS_HARD_ERROR then Shutdown GR_DATABASE_READY_DEPOSIT_HARD_FAIL
                 else if qs = GNUNET_DB_STATUS_SOFT_ERROR then Run_now
                 else if ag_test_mode ag then Shutdown GR_SUCCESS else Run_delayed, au_accounts au), postgres_rollback s)
     else do {
       ((qs, au), s) \<leftarrow> postgres_iterate_matching_deposits (ag_gnunet ag) (ag_pg ag) (au_h_wire au) (au_merchant_pub au)
                          (aggregate_cb ag) au TALER_EXCHANGEDB_MATCHING_DEPOSITS_LIMIT s;
       aggregate_matched ag inp qs au s
     }
   }"

definition run_aggregation ::
    "aggregator \<Rightarrow> aggregation_inputs \<Rightarrow> TALER_EXCHANGEDB_WireAccount list \<Rightarrow> tables session
       \<Rightarrow> ((next_task \<times> TALER_EXCHANGEDB_WireAccount list) \<times> tables session) option" where
  "run_aggregation ag inp accounts s =
     (let (ok, s) = postgres_get_session s
      in if \<not> ok then Some ((Shutdown GR_DATABASE_SESSION_FAIL, accounts), s)
         else do {
           (ok, s) \<leftarrow> postgres_start_deferred_wire_out s;
           if ok \<noteq> GNUNET_OK then Some ((Shutdown GR_DATABASE_TRANSACTION_BEGIN_FAIL, accounts), s)
           else aggregate_ready ag inp accounts s
         })"

end
