(* ===== verification/Payouts.thy ===== *)
theory Payouts
  imports Aggregator
begin

text \<open>
  What a run of the aggregator does to the database: nothing, or it marks unpaid deposits as tiny, or it commits to one wire
  transfer for a list of unpaid deposits, over the sum of what is owed for them.
\<close>

section \<open>Statements in a transaction\<close>

text \<open>In a transaction that started from \<open>c\<close>, when no row is reported that cannot be extracted\<close>

definition in_tx :: "tables \<Rightarrow> tables session \<Rightarrow> bool" where
  "in_tx c s \<longleftrightarrow> s_in_tx s \<and> s_committed s = c \<and> PQ_EXTRACT_FAIL \<notin> set (s_outcomes s)"

lemma next_outcome_tx:
  assumes "in_tx c s" and "next_outcome s = (x, s1)"
  shows "in_tx c s1 \<and> x \<noteq> PQ_EXTRACT_FAIL \<and> s_db s1 = s_db s \<and> s_failed s1 = s_failed s"
  using assms by (auto simp: next_outcome_def in_tx_def split: list.splits)

lemma in_tx_sels [simp]:
  "in_tx c (s\<lparr>s_serial := n\<rparr>) = in_tx c s" "in_tx c (s\<lparr>s_db := db\<rparr>) = in_tx c s" "in_tx c (pq_fail s) = in_tx c s"
  by (simp_all add: in_tx_def pq_fail_def)

lemma pq_status_le: "gnunet_ok g \<Longrightarrow> pq_status g e \<le> 0"
  by (cases e) (simp_all add: gnunet_ok_def)

lemma pq_denied_less:
  assumes "gnunet_ok g" and "pq_denied x s = Some e"
  shows "pq_status g e < 0"
  using pq_denied_status [OF assms] by auto

lemma pq_fail_failed: "in_tx c s \<Longrightarrow> s_failed (pq_fail s)"
  by (simp add: in_tx_def pq_fail_def)

text \<open>A statement fails and with it the transaction, or it does what it says.\<close>

lemma non_select_tx:
  assumes "gnunet_ok g" and "in_tx c s"
  shows "wp (pq_non_select g stmt s) (\<lambda>qs s'. in_tx c s' \<and>
     (s_failed s' \<and> qs \<le> 0 \<or> \<not> s_failed s \<and> \<not> s_failed s' \<and> (\<exists>n k. qs = int k \<and> stmt n (s_db s) = Inr (k, s_db s'))))"
proof -
  obtain x s1 where n: "next_outcome s = (x, s1)" by (cases "next_outcome s")
  note s1 = next_outcome_tx [OF assms(2) n]
  show ?thesis
  proof (cases "pq_denied x s1")
    case None
    then have nf: "\<not> s_failed s1" by (auto simp: pq_denied_def split: if_splits)
    have "s_in_tx s1" using s1 by (simp add: in_tx_def)
    with n None nf s1 pq_status_le [OF assms(1)] show ?thesis
      by (cases "stmt (s_serial s1) (s_db s1)") (auto simp: pq_non_select_def in_tx_def pq_fail_def)
  next
    case (Some e)
    with n s1 pq_denied_less [OF assms(1) Some] pq_fail_failed show ?thesis
      by (auto simp: pq_non_select_def)
  qed
qed

lemma multi_select_tx:
  assumes "gnunet_ok g" and "in_tx c s"
  shows "wp (pq_multi_select g query s) (\<lambda>(qs, rows, bad) s'. in_tx c s' \<and> \<not> bad \<and>
     (s_failed s' \<and> qs < 0 \<and> rows = []
      \<or> \<not> s_failed s \<and> \<not> s_failed s' \<and> s_db s' = s_db s \<and> rows = query (s_db s) \<and> qs = int (length rows)))"
proof -
  obtain x s1 where n: "next_outcome s = (x, s1)" by (cases "next_outcome s")
  note s1 = next_outcome_tx [OF assms(2) n]
  show ?thesis
  proof (cases "pq_denied x s1")
    case None
    then have "\<not> s_failed s1" by (auto simp: pq_denied_def split: if_splits)
    with n None s1 show ?thesis by (auto simp: pq_multi_select_def Let_def)
  next
    case (Some e)
    with n s1 pq_denied_less [OF assms(1) Some] pq_fail_failed show ?thesis by (auto simp: pq_multi_select_def)
  qed
qed

lemma singleton_select_tx:
  assumes "gnunet_ok g" and "in_tx c s"
  shows "wp (pq_singleton_select g query s) (\<lambda>(qs, r) s'. in_tx c s' \<and>
     (s_failed s' \<and> qs < 0 \<and> r = None
      \<or> \<not> s_failed s \<and> \<not> s_failed s' \<and> s_db s' = s_db s \<and> (qs \<le> 0 \<and> r = None \<or> qs = 1 \<and> (\<exists>x. r = Some x \<and> query (s_db s) = [x]))))"
proof -
  obtain x s1 where n: "next_outcome s = (x, s1)" by (cases "next_outcome s")
  note s1 = next_outcome_tx [OF assms(2) n]
  show ?thesis
  proof (cases "pq_denied x s1")
    case None
    then have "\<not> s_failed s1" by (auto simp: pq_denied_def split: if_splits)
    with n None s1 show ?thesis by (auto simp: pq_singleton_select_def split: list.splits)
  next
    case (Some e)
    with n s1 pq_denied_less [OF assms(1) Some] pq_fail_failed show ?thesis by (auto simp: pq_singleton_select_def)
  qed
qed

section \<open>What is owed for a deposit\<close>

text \<open>The amount without its refunds, or without the deposit fee if there are none\<close>

fun deposit_contribution :: "tables \<Rightarrow> deposits_row \<times> denominations_row \<Rightarrow> int" where
  "deposit_contribution db (r, d) =
     (let refunds = sql_get_refunds_by_coin_and_contract (dp_coin_pub r) (dp_merchant_pub r) (dp_h_contract_terms r) db
      in if refunds = [] then max 0 (sqlamt (dp_amount_with_fee r) - sqlamt (dn_fee_deposit d))
         else sqlamt (dp_amount_with_fee r) - (\<Sum>x\<leftarrow>refunds. sqlamt (rd_amount_with_fee x)))"

text \<open>A total is exact, or it is the invalid amount that all further operations pass on.\<close>

definition exact_or_invalid :: "PostgresClosure \<Rightarrow> int \<Rightarrow> TALER_Amount \<Rightarrow> bool" where
  "exact_or_invalid pg x t \<longleftrightarrow> amount_in (pg_currency pg) t \<and> amt t = x \<or> \<not> TALER_amount_is_valid t"

definition in_or_invalid :: "PostgresClosure \<Rightarrow> TALER_Amount \<Rightarrow> bool" where
  "in_or_invalid pg t \<longleftrightarrow> amount_in (pg_currency pg) t \<or> \<not> TALER_amount_is_valid t"

lemma exact_in [simp]: "exact_or_invalid pg x t \<Longrightarrow> in_or_invalid pg t"
  by (auto simp: exact_or_invalid_def in_or_invalid_def)

lemma subtract_exact:
  assumes "in_or_invalid pg a" and "amount_in (pg_currency pg) b"
  shows "wp (TALER_amount_subtract d a b) (\<lambda>r t.
     if r < 0 then t = invalidate \<and> (amount_in (pg_currency pg) a \<longrightarrow> amt a < amt b)
     else amount_in (pg_currency pg) a \<and> amount_in (pg_currency pg) t \<and> amt t = amt a - amt b \<and> (r = 0 \<longleftrightarrow> amt t = 0))"
proof (cases "amount_in (pg_currency pg) a")
  case True
  show ?thesis
  proof (cases "amt b \<le> amt a")
    case le: True
    obtain t where "TALER_amount_subtract d a b = Some (if amt a = amt b then 0 else 1, t)"
      "amount_in (pg_currency pg) t" "amt t = amt a - amt b"
      by (rule subtract_in [OF True assms(2) le])
    with True show ?thesis by simp
  qed (simp add: subtract_in_negative [OF True assms(2)] True)
next
  case False
  with assms show ?thesis by (simp add: TALER_amount_subtract_def cmp_currency_YES_iff in_or_invalid_def)
qed

text \<open>The unit after the refunds \<open>rows\<close> were taken off\<close>

definition refunds_taken :: "PostgresClosure \<Rightarrow> AggregationUnit \<Rightarrow> refunds_row list \<Rightarrow> AggregationUnit \<Rightarrow> bool" where
  "refunds_taken pg au rows au' \<longleftrightarrow> (\<exists>t. au' = au\<lparr>au_total_amount := t, au_have_refund := au_have_refund au \<or> rows \<noteq> []\<rparr>
     \<and> (rows = [] \<longrightarrow> t = au_total_amount au)
     \<and> exact_or_invalid pg (amt (au_total_amount au) - (\<Sum>x\<leftarrow>rows. sqlamt (rd_amount_with_fee x))) t)"

lemma refunds_total:
  assumes "pg_ok pg" and "\<forall>x\<in>set rows. sql_normal (rd_amount_with_fee x)" and "amount_in (pg_currency pg) (au_total_amount au)"
  shows "\<exists>au'. get_refunds_cb pg refund_by_coin_cb rows au = Some au' \<and> refunds_taken pg au rows au'"
  using assms(2,3)
proof (induction rows arbitrary: au)
  case Nil
  then show ?case by (simp add: exact_or_invalid_def refunds_taken_def)
next
  case (Cons x rows)
  obtain a where a: "TALER_PQ_result_spec_amount (pg_currency pg) (rd_amount_with_fee x) = Some a" "amount_in (pg_currency pg) a"
    "amt a = sqlamt (rd_amount_with_fee x)"
    using result_spec_amount [OF assms(1)] Cons.prems(1) by (metis list.set_intros(1))
  obtain r t where t: "TALER_amount_subtract (au_total_amount au) (au_total_amount au) a = Some (r, t)"
    "if r < 0 then t = invalidate else amount_in (pg_currency pg) t \<and> amt t = amt (au_total_amount au) - amt a"
    using subtract_exact [of pg "au_total_amount au" a "au_total_amount au"] a(2) Cons.prems(2)
    by (auto simp: wp_iff in_or_invalid_def split: if_splits)
  let ?au = "au\<lparr>au_have_refund := True, au_total_amount := t\<rparr>"
  show ?case
  proof (cases "r < 0")
    case True
    with t(1) have "refund_by_coin_cb a au = Some (GNUNET_SYSERR, ?au)" by (simp add: refund_by_coin_cb_def)
    with a(1) have "get_refunds_cb pg refund_by_coin_cb (x # rows) au = Some ?au" by simp
    moreover have "refunds_taken pg au (x # rows) ?au"
      using True t(2) unfolding refunds_taken_def by (intro exI [of _ t]) (simp add: exact_or_invalid_def)
    ultimately show ?thesis by blast
  next
    case False
    with t(1) have "refund_by_coin_cb a au = Some (GNUNET_OK, ?au)" by (simp add: refund_by_coin_cb_def)
    moreover from Cons.IH [of ?au] Cons.prems(1) False t(2) obtain au' where
      "get_refunds_cb pg refund_by_coin_cb rows ?au = Some au'" and au': "refunds_taken pg ?au rows au'" by auto
    ultimately have "get_refunds_cb pg refund_by_coin_cb (x # rows) au = Some au'" using a(1) by simp
    moreover from au' obtain t' where t': "au' = ?au\<lparr>au_total_amount := t', au_have_refund := True\<rparr>"
      "exact_or_invalid pg (amt t - (\<Sum>x\<leftarrow>rows. sqlamt (rd_amount_with_fee x))) t'"
      by (auto simp: refunds_taken_def)
    have "refunds_taken pg au (x # rows) au'"
      using t' t(2) False a(3) unfolding refunds_taken_def by (intro exI [of _ t']) (simp add: diff_diff_eq [symmetric])
    ultimately show ?thesis by blast
  qed
qed

definition refunds_normal :: "tables \<Rightarrow> bool" where
  "refunds_normal db \<longleftrightarrow> (\<forall>x\<in>set (t_refunds db). sql_normal (rd_amount_with_fee x))"

lemma select_refunds_tx:
  assumes "gnunet_ok g" and "pg_ok pg" and "in_tx c s" and "\<not> s_failed s \<longrightarrow> refunds_normal (s_db s)"
    and "amount_in (pg_currency pg) (au_total_amount au)"
  shows "wp (postgres_select_refunds_by_coin g pg coin merchant h_contract refund_by_coin_cb au s) (\<lambda>(qs, au') s'. in_tx c s'
     \<and> (s_failed s' \<and> qs < 0 \<and> au' = au
        \<or> \<not> s_failed s \<and> \<not> s_failed s' \<and> s_db s' = s_db s \<and> 0 \<le> qs
          \<and> refunds_taken pg au (sql_get_refunds_by_coin_and_contract coin merchant h_contract (s_db s)) au'))"
  unfolding postgres_select_refunds_by_coin_def
proof (rule wp_bindI [OF multi_select_tx [OF assms(1,3)]], clarsimp split del: if_split)
  fix qs rows s'
  assume s': "in_tx c s'" and r: "s_failed s' \<and> qs < 0 \<and> rows = [] \<or> \<not> s_failed s \<and> \<not> s_failed s' \<and> s_db s' = s_db s
    \<and> rows = sql_get_refunds_by_coin_and_contract coin merchant h_contract (s_db s) \<and> qs = int (length rows)"
  have "\<forall>x\<in>set rows. sql_normal (rd_amount_with_fee x)"
    using r assms(4) by (auto simp: sql_get_refunds_by_coin_and_contract_def refunds_normal_def)
  from refunds_total [OF assms(2) this assms(5)] obtain au' where au':
    "get_refunds_cb pg refund_by_coin_cb rows au = Some au'" "refunds_taken pg au rows au'" by blast
  show "wp (get_refunds_cb pg refund_by_coin_cb rows au \<bind> (\<lambda>c. Some ((qs, c), s'))) (\<lambda>(qs, au') s'. in_tx c s'
     \<and> (s_failed s' \<and> qs < 0 \<and> au' = au
        \<or> \<not> s_failed s \<and> \<not> s_failed s' \<and> s_db s' = s_db s \<and> 0 \<le> qs
          \<and> refunds_taken pg au (sql_get_refunds_by_coin_and_contract coin merchant h_contract (s_db s)) au'))"
    using r
  proof (elim disjE)
    assume *: "s_failed s' \<and> qs < 0 \<and> rows = []"
    with au' show ?thesis using s' by simp
  qed (use au' s' in simp)
qed

lemma get_zero_exact:
  assumes "in_or_invalid pg x"
  obtains z where "TALER_amount_get_zero (amt_currency x) a = (GNUNET_OK, z)" "exact_or_invalid pg 0 z"
proof -
  have l: "strlen (amt_currency x) < TALER_CURRENCY_LEN"
    using assms by (auto simp: in_or_invalid_def amount_in_def amount_wf_def valid_iff_cstr strlen_def TALER_CURRENCY_LEN_def)
  let ?z = "\<lparr>amt_value = 0, amt_fraction = 0, amt_currency = pad_currency (amt_currency x)\<rparr>"
  have z: "amt ?z = 0" by (simp add: amt_eq_0_iff)
  have "exact_or_invalid pg 0 ?z"
  proof (cases "TALER_amount_is_valid x")
    case True
    with assms have "amount_in (pg_currency pg) x" by (simp add: in_or_invalid_def)
    then have "amount_in (pg_currency pg) ?z"
      by (rule amount_in_cong) (simp_all add: amount_normal_def z AMT_LIMIT_def)
    with z show ?thesis by (simp add: exact_or_invalid_def)
  qed (simp add: exact_or_invalid_def valid_iff_cstr)
  with that [OF get_zero_terminated [OF l]] show ?thesis by blast
qed

lemma subtract_deposit_fee_exact:
  assumes "amount_in (pg_currency pg) amount" and "amount_in (pg_currency pg) fee" and "in_or_invalid pg x"
  shows "\<exists>t. subtract_deposit_fee amount fee (amt_currency x) au = Some (au\<lparr>au_total_amount := t\<rparr>)
     \<and> (if au_have_refund au then t = au_total_amount au else exact_or_invalid pg (max 0 (amt amount - amt fee)) t)"
proof (cases "au_have_refund au")
  case False
  obtain r t where t: "TALER_amount_subtract invalidate amount fee = Some (r, t)"
    "if r < 0 then amt amount < amt fee else amount_in (pg_currency pg) t \<and> amt t = amt amount - amt fee"
    using subtract_exact [of pg amount fee invalidate] assms(1,2)
    by (auto simp: wp_iff in_or_invalid_def split: if_splits)
  obtain z where z: "TALER_amount_get_zero (amt_currency x) (au_total_amount au) = (GNUNET_OK, z)" "exact_or_invalid pg 0 z"
    by (rule get_zero_exact [OF assms(3)])
  show ?thesis
  proof (cases "r < 0")
    case True
    with t(2) have "max 0 (amt amount - amt fee) = 0" by simp
    with True False t z show ?thesis by (auto simp: subtract_deposit_fee_def)
  next
    case r: False
    with t(2) have "max 0 (amt amount - amt fee) = amt t" using amt_nonneg [of t] by simp
    with r False t show ?thesis by (auto simp: subtract_deposit_fee_def exact_or_invalid_def)
  qed
qed (auto simp: subtract_deposit_fee_def)

section \<open>Wire fees\<close>

definition fee_rows_ok :: "wire_fee_row list \<Rightarrow> bool" where
  "fee_rows_ok rows \<longleftrightarrow> (\<forall>r\<in>set rows. sql_normal (wf_wire_fee r) \<and> sql_normal (wf_closing_fee r))"

definition account_ok :: "aggregator \<Rightarrow> TALER_EXCHANGEDB_WireAccount \<Rightarrow> bool" where
  "account_ok ag wa \<longleftrightarrow> (\<forall>af\<in>set (wa_af wa). fee_ok (ag_gnunet ag) (ag_pg ag) af)"

definition aggregator_ok :: "aggregator \<Rightarrow> bool" where
  "aggregator_ok ag \<longleftrightarrow> gnunet_ok (ag_gnunet ag) \<and> pg_ok (ag_pg ag)
     \<and> fee_files_ok (ag_gnunet ag) (ag_pg ag) (ag_crypto ag) (ag_fee_files ag)"

text \<open>Only wire fees are added.\<close>

definition fees_added :: "tables \<Rightarrow> tables \<Rightarrow> bool" where
  "fees_added db db' \<longleftrightarrow> (\<exists>fees. fee_rows_ok fees \<and> db' = db\<lparr>t_wire_fee := t_wire_fee db @ fees\<rparr>)"

lemma fees_added_refl [simp]: "fees_added db db"
  unfolding fees_added_def by (rule exI [of _ "[]"]) (simp add: fee_rows_ok_def)

lemma fees_added_trans: "fees_added db db1 \<Longrightarrow> fees_added db1 db2 \<Longrightarrow> fees_added db db2"
  unfolding fees_added_def fee_rows_ok_def
  by (elim exE, rename_tac f1 f2, rule_tac x = "f1 @ f2" in exI) auto

lemma fees_added_ok: "fees_added db db' \<Longrightarrow> fee_rows_ok (t_wire_fee db) \<Longrightarrow> fee_rows_ok (t_wire_fee db')"
  by (auto simp: fees_added_def fee_rows_ok_def)

text \<open>As long as the transaction has not failed, wire fees were added and nothing else.\<close>

definition only_fees :: "tables session \<Rightarrow> tables session \<Rightarrow> bool" where
  "only_fees s s' \<longleftrightarrow> (\<not> s_failed s' \<longrightarrow> \<not> s_failed s \<and> fees_added (s_db s) (s_db s'))"

lemma only_fees_refl [simp]: "only_fees s s"
  by (simp add: only_fees_def)

lemma only_fees_trans: "only_fees s s1 \<Longrightarrow> only_fees s1 s2 \<Longrightarrow> only_fees s s2"
  by (auto simp: only_fees_def intro: fees_added_trans)

lemma insert_wire_fee_tx:
  assumes "gnunet_ok g" and "pg_ok pg" and "in_tx c s" and "fee_ok g pg af" and ok: "\<not> s_failed s \<longrightarrow> fee_rows_ok (t_wire_fee (s_db s))"
  shows "wp (postgres_insert_wire_fee g pg m af s) (\<lambda>qs s'. in_tx c s' \<and> only_fees s s')"
  unfolding postgres_insert_wire_fee_def
proof (rule wp_bindI [where P = "\<lambda>(qs, old) s1. in_tx c s1
      \<and> (s_failed s1 \<and> qs < 0 \<and> old = None \<or> \<not> s_failed s \<and> \<not> s_failed s1 \<and> s_db s1 = s_db s)
      \<and> (\<forall>o'. old = Some o' \<longrightarrow> amount_in (pg_currency pg) (af_wire_fee o') \<and> amount_in (pg_currency pg) (af_closing_fee o'))"], goal_cases)
  case 1
  have t: "TALER_PQ_query_param_absolute_time g (af_start_date af) = Some (af_start_date af)"
    using assms(4) by (simp add: fee_ok_def query_param_time)
  show ?case
    unfolding postgres_get_wire_fee_def t Option.bind.simps
  proof (rule wp_bindI [OF singleton_select_tx [OF assms(1,3)]], clarsimp split: option.splits, intro conjI impI allI, goal_cases)
    case (2 qs s' s1 r)
    then have r: "sql_normal (wf_wire_fee r)" "sql_normal (wf_closing_fee r)"
      using ok by (auto simp: fee_rows_ok_def sql_get_wire_fee_def filter_eq_Cons_iff)
    obtain a where "TALER_PQ_result_spec_amount (pg_currency pg) (wf_wire_fee r) = Some a" "amount_in (pg_currency pg) a"
      using result_spec_amount [OF assms(2) r(1)] by metis
    moreover obtain b where "TALER_PQ_result_spec_amount (pg_currency pg) (wf_closing_fee r) = Some b" "amount_in (pg_currency pg) b"
      using result_spec_amount [OF assms(2) r(2)] by metis
    ultimately show ?case using 2 by auto
  qed auto
next
  case (2 x s1)
  obtain qs old where x: "x = (qs, old)" by (cases x)
  show ?case
  proof (cases old)
    case None
    obtain w where w: "TALER_PQ_query_param_amount (af_wire_fee af) = Some w" "sql_normal w"
      using query_param_amount assms(4) by (metis fee_ok_def)
    obtain cl where cl: "TALER_PQ_query_param_amount (af_closing_fee af) = Some cl" "sql_normal cl"
      using query_param_amount assms(4) by (metis fee_ok_def)
    let ?row = "\<lparr>wf_wire_method = m, wf_start_date = af_start_date af, wf_end_date = af_end_date af, wf_wire_fee = w,
      wf_closing_fee = cl, wf_master_sig = af_master_sig af\<rparr>"
    have r: "fee_rows_ok [?row]" using w cl by (simp add: fee_rows_ok_def)
    have tx: "in_tx c s1" using 2 x by simp
    have "wp (pq_non_select g (sql_insert_wire_fee ?row) s1) (\<lambda>qs s'. in_tx c s' \<and> only_fees s1 s')"
      by (rule wp_mono [OF non_select_tx [OF assms(1) tx]])
        (use r in \<open>auto simp: only_fees_def fees_added_def sql_insert_wire_fee_def split: if_splits\<close>)
    then have ins: "wp (pq_non_select g (sql_insert_wire_fee ?row) s1) (\<lambda>qs s'. in_tx c s' \<and> only_fees s s')"
      by (rule wp_mono) (use 2 x in \<open>auto simp: only_fees_def\<close>)
    show ?thesis
      using 2 x None assms(4) w cl ins by (auto simp: query_param_time fee_ok_def only_fees_def)
  next
    case (Some old)
    with 2 x have o: "amount_in (pg_currency pg) (af_wire_fee old)" "amount_in (pg_currency pg) (af_closing_fee old)" "only_fees s s1" "in_tx c s1"
      by (auto simp: only_fees_def)
    with assms(4) x Some show ?thesis by (auto simp: fee_ok_def)
  qed
qed

lemma persist_fees_tx:
  assumes "gnunet_ok g" and "pg_ok pg"
  shows "in_tx c s \<Longrightarrow> \<forall>af\<in>set afs. fee_ok g pg af \<Longrightarrow> \<not> s_failed s \<longrightarrow> fee_rows_ok (t_wire_fee (s_db s)) \<Longrightarrow>
     wp (persist_fees g pg m afs s) (\<lambda>ok s'. in_tx c s' \<and> only_fees s s')"
proof (induction afs arbitrary: s)
  case (Cons af afs)
  show ?case
    unfolding persist_fees.simps
  proof (rule wp_bindI [OF insert_wire_fee_tx [OF assms Cons.prems(1) _ Cons.prems(3), of af m]], goal_cases)
    case (2 qs s1)
    then have "\<not> s_failed s1 \<longrightarrow> fee_rows_ok (t_wire_fee (s_db s1))"
      using Cons.prems(3) by (auto simp: only_fees_def dest: fees_added_ok)
    with Cons.IH [of s1] 2 Cons.prems(2) have "wp (persist_fees g pg m afs s1) (\<lambda>ok s'. in_tx c s' \<and> only_fees s1 s')" by auto
    then have "wp (persist_fees g pg m afs s1) (\<lambda>ok s'. in_tx c s' \<and> only_fees s s')"
      by (rule wp_mono) (use 2 only_fees_trans in blast)
    with 2 show ?case by simp
  qed (use Cons.prems in auto)
qed auto

lemma update_fees_tx:
  assumes "aggregator_ok ag" and "in_tx c s" and "account_ok ag wa" and ok: "\<not> s_failed s \<longrightarrow> fee_rows_ok (t_wire_fee (s_db s))"
  shows "wp (TALER_EXCHANGEDB_update_fees (ag_gnunet ag) (ag_pg ag) (ag_crypto ag) (ag_fee_files ag) wa now s)
     (\<lambda>(af, wa') s'. in_tx c s' \<and> only_fees s s' \<and> account_ok ag wa' \<and> wa_method wa' = wa_method wa
        \<and> (\<forall>f. af = Some f \<longrightarrow> advance_fees wa' now = Some f))"
proof (cases "advance_fees wa now")
  case None
  note ag = assms(1) [unfolded aggregator_ok_def]
  obtain afs where r: "TALER_EXCHANGEDB_fees_read (ag_crypto ag) (ag_fee_files ag) (wa_method wa) = Some afs"
    "\<forall>af\<in>set afs. fee_ok (ag_gnunet ag) (ag_pg ag) af"
    using fees_read_ok ag by metis
  from persist_fees_tx [OF _ _ assms(2) r(2) ok] ag
  have "wp (persist_fees (ag_gnunet ag) (ag_pg ag) (wa_method wa) afs s) (\<lambda>ok s'. in_tx c s' \<and> only_fees s s')" by auto
  then show ?thesis
    using r by (auto simp: TALER_EXCHANGEDB_update_fees_def None wp_bind account_ok_def Let_def elim!: wp_mono)
qed (use assms in \<open>simp add: TALER_EXCHANGEDB_update_fees_def\<close>)

section \<open>The account of a deposit\<close>

lemma find_by_method:
  assumes "TALER_EXCHANGEDB_find_account_by_method was m = Some wa"
  shows "wa \<in> set was \<and> wa_method wa = m"
  using assms by (induction was) (auto split: if_splits)

lemma find_by_payto_uri: "TALER_EXCHANGEDB_find_account_by_payto_uri was url = Some wa \<Longrightarrow> wa \<in> set was"
  by (auto simp: TALER_EXCHANGEDB_find_account_by_payto_uri_def find_by_method split: option.splits)

lemma update_account_mem:
  assumes "wa' \<in> set was" and "wa_method wa' = wa_method wa"
  shows "wa \<in> set (update_account wa was)"
  using assms by (induction was) auto

lemma set_update_account: "set (update_account wa was) \<subseteq> insert wa (set was)"
  by (induction was) auto

lemma wire_hash_payto:
  assumes "TALER_JSON_merchant_wire_signature_hash cr js wire = Some (Some h)"
  obtains url where "TALER_JSON_wire_to_payto js wire = Some (Some url)"
  using assms
  by (auto simp: TALER_JSON_merchant_wire_signature_hash_def TALER_JSON_wire_to_payto_def bind_eq_Some_conv
      split: option.splits if_splits)

lemma deposit_account_tx:
  assumes "aggregator_ok ag" and "in_tx c s" and acc: "\<forall>wa\<in>set (au_accounts au). account_ok ag wa"
    and ok: "\<not> s_failed s \<longrightarrow> fee_rows_ok (t_wire_fee (s_db s))"
    and "TALER_JSON_wire_to_payto (ag_json_string ag) wire = Some (Some url)"
  shows "wp (deposit_account ag inp wire au s) (\<lambda>(ok, au') s'. in_tx c s' \<and> only_fees s s'
     \<and> (\<forall>wa\<in>set (au_accounts au'). account_ok ag wa)
     \<and> (ok \<longrightarrow> (\<exists>wa was af. let t = GNUNET_TIME_round_abs (ag_gnunet ag) (in_execution_time inp) in
          au' = au\<lparr>au_wa := Some wa, au_execution_time := t, au_accounts := was, au_wire_fee := af_wire_fee af\<rparr>
          \<and> wa \<in> set was \<and> account_ok ag wa \<and> advance_fees wa t = Some af)))"
proof (cases "TALER_EXCHANGEDB_find_account_by_payto_uri (au_accounts au) url")
  case None
  with assms show ?thesis by (simp add: deposit_account_def)
next
  case (Some wa)
  let ?t = "GNUNET_TIME_round_abs (ag_gnunet ag) (in_execution_time inp)"
  have wa: "wa \<in> set (au_accounts au)" using find_by_payto_uri [OF Some] .
  have "wp (TALER_EXCHANGEDB_update_fees (ag_gnunet ag) (ag_pg ag) (ag_crypto ag) (ag_fee_files ag) wa ?t s)
     (\<lambda>(af, wa') s'. in_tx c s' \<and> only_fees s s' \<and> account_ok ag wa' \<and> wa_method wa' = wa_method wa
        \<and> (\<forall>f. af = Some f \<longrightarrow> advance_fees wa' ?t = Some f))"
    using update_fees_tx [OF assms(1,2) _ ok] wa acc by blast
  then show ?thesis
  proof (simp add: deposit_account_def assms(5) Some wp_bind Let_def, elim wp_mono, clarsimp split: option.splits, goal_cases)
    case (1 af wa' s')
    then have "wa' \<in> set (update_account wa' (au_accounts au))" using update_account_mem [OF wa] by simp
    with 1 acc set_update_account [of wa' "au_accounts au"] show ?case by fastforce
  qed
qed

section \<open>Aggregated deposits\<close>

definition mark_done :: "u64 set \<Rightarrow> deposits_row list \<Rightarrow> deposits_row list" where
  "mark_done ids = map (\<lambda>r. if dp_deposit_serial_id r \<in> ids then r\<lparr>dp_done := True\<rparr> else r)"

lemma mark_done_mark_done: "mark_done ids (mark_done ids' rows) = mark_done (ids \<union> ids') rows"
  by (simp add: mark_done_def)

lemma mark_done_serials [simp]: "map dp_deposit_serial_id (mark_done ids rows) = map dp_deposit_serial_id rows"
  by (induction rows) (simp_all add: mark_done_def)

abbreviation row_ids :: "(deposits_row \<times> denominations_row) list \<Rightarrow> u64 list" where
  "row_ids rows \<equiv> map (\<lambda>x. dp_deposit_serial_id (fst x)) rows"

definition aggregated_db :: "u64 list \<Rightarrow> aggregation_tracking_row list \<Rightarrow> wire_fee_row list \<Rightarrow> tables \<Rightarrow> tables" where
  "aggregated_db ids trs fees db = db\<lparr>t_deposits := mark_done (set ids) (t_deposits db),
     t_aggregation_tracking := t_aggregation_tracking db @ trs, t_wire_fee := t_wire_fee db @ fees\<rparr>"

text \<open>The database of an exchange whose deposits can be paid: the integrity of the tables, the primary key of the deposits, and wire
  details that can be hashed\<close>

definition payable :: "aggregator \<Rightarrow> tables \<Rightarrow> bool" where
  "payable ag db \<longleftrightarrow> db_ok db \<and> distinct (map dp_deposit_serial_id (t_deposits db)) \<and> fee_rows_ok (t_wire_fee db)
     \<and> (\<forall>r\<in>set (t_deposits db). TALER_JSON_merchant_wire_signature_hash (ag_crypto ag) (ag_json_string ag) (dp_wire r) \<noteq> None)"

definition accounts_ok :: "aggregator \<Rightarrow> TALER_EXCHANGEDB_WireAccount list \<Rightarrow> bool" where
  "accounts_ok ag was \<longleftrightarrow> (\<forall>wa\<in>set was. account_ok ag wa)"

text \<open>The unit is about the deposits \<open>rows\<close>, found unpaid in \<open>c\<close>, and knows who pays and what it costs.\<close>

definition rows_ok :: "tables \<Rightarrow> pub_key \<Rightarrow> (deposits_row \<times> denominations_row) list \<Rightarrow> bool" where
  "rows_ok c merchant rows \<longleftrightarrow> rows \<noteq> [] \<and> set rows \<subseteq> set (deposit_denoms c) \<and> distinct (row_ids rows)
     \<and> (\<forall>x\<in>set rows. \<not> dp_done (fst x) \<and> dp_merchant_pub (fst x) = merchant)"

definition au_ok ::
    "aggregator \<Rightarrow> aggregation_inputs \<Rightarrow> tables \<Rightarrow> (deposits_row \<times> denominations_row) list \<Rightarrow> AggregationUnit \<Rightarrow> bool" where
  "au_ok ag inp c rows au \<longleftrightarrow> rows_ok c (au_merchant_pub au) rows \<and> au_row_id au # au_additional_rows au = row_ids rows
     \<and> in_or_invalid (ag_pg ag) (au_total_amount au) \<and> accounts_ok ag (au_accounts au)
     \<and> au_wtid au = in_wtid inp \<and> au_wire au = Some (dp_wire (fst (hd rows)))
     \<and> TALER_JSON_merchant_wire_signature_hash (ag_crypto ag) (ag_json_string ag) (dp_wire (fst (hd rows))) = Some (Some (au_h_wire au))
     \<and> (\<forall>x\<in>set (tl rows). dp_h_wire (fst x) = au_h_wire au)
     \<and> au_execution_time au = GNUNET_TIME_round_abs (ag_gnunet ag) (in_execution_time inp)
     \<and> (\<exists>wa\<in>set (au_accounts au). \<exists>af. au_wa au = Some wa \<and> advance_fees wa (au_execution_time au) = Some af
          \<and> au_wire_fee au = af_wire_fee af \<and> fee_ok (ag_gnunet ag) (ag_pg ag) af)"

text \<open>Unless the transaction has failed, the total is exact and the deposits are marked.\<close>

definition au_exact ::
    "aggregator \<Rightarrow> aggregation_inputs \<Rightarrow> tables \<Rightarrow> (deposits_row \<times> denominations_row) list \<Rightarrow> AggregationUnit \<Rightarrow> tables \<Rightarrow> bool" where
  "au_exact ag inp c rows au db \<longleftrightarrow>
     exact_or_invalid (ag_pg ag) (\<Sum>x\<leftarrow>rows. deposit_contribution c x) (au_total_amount au)
     \<and> (\<exists>trs fees. db = aggregated_db (row_ids rows) trs fees c \<and> fee_rows_ok fees \<and> map at_deposit_serial_id trs = row_ids rows
          \<and> (\<forall>t\<in>set trs. at_wtid_raw t = in_wtid inp))"

lemma deposit_denoms_coin:
  "deposit_denoms db = concat (map (\<lambda>r. map (\<lambda>d. (r, d)) (coin_denoms db (dp_coin_pub r))) (t_deposits db))"
  by (simp add: deposit_denoms_def coin_denoms_def map_concat comp_def if_distrib [of "map _"] cong: if_cong)

lemma deposits_of_denoms:
  assumes "coin_tables_ok db"
  shows "map fst (deposit_denoms db) = t_deposits db"
proof -
  have "map (\<lambda>d. r) (coin_denoms db (dp_coin_pub r)) = [r]" if "r \<in> set (t_deposits db)" for r
    by (rule coin_denoms_cases [OF assms, of "dp_coin_pub r"]) (use that assms in \<open>auto simp: coin_tables_ok_def\<close>)
  then have "concat (map (\<lambda>r. map (\<lambda>d. r) (coin_denoms db (dp_coin_pub r))) (t_deposits db)) = concat (map (\<lambda>r. [r]) (t_deposits db))"
    by (simp cong: map_cong)
  then show ?thesis by (simp add: deposit_denoms_coin map_concat comp_def)
qed

lemma deposit_denoms_normal:
  assumes "coin_tables_ok db" and "(r, d) \<in> set (deposit_denoms db)"
  shows "sql_normal (dp_amount_with_fee r)" "sql_normal (dn_fee_deposit d)" "r \<in> set (t_deposits db)"
  using assms by (auto simp: deposit_denoms_def coin_tables_ok_def split: if_splits)

lemma refunds_normal_ok: "coin_tables_ok db \<Longrightarrow> refunds_normal db"
  by (simp add: coin_tables_ok_def refunds_normal_def)

lemma extract_deposit_ok:
  assumes "pg_ok pg" and "coin_tables_ok db" and "(r, d) \<in> set (deposit_denoms db)"
  obtains a fee where "extract_deposit g pg wire r d = Some \<lparr>di_row_id = dp_deposit_serial_id r, di_merchant_pub = dp_merchant_pub r,
      di_coin_pub = dp_coin_pub r, di_amount_with_fee = a, di_deposit_fee = fee, di_h_contract_terms = dp_h_contract_terms r,
      di_wire_deadline = TALER_PQ_result_spec_absolute_time g (dp_wire_deadline r), di_wire = wire\<rparr>"
    and "amount_in (pg_currency pg) a" "amt a = sqlamt (dp_amount_with_fee r)"
    and "amount_in (pg_currency pg) fee" "amt fee = sqlamt (dn_fee_deposit d)"
proof -
  obtain a where a: "TALER_PQ_result_spec_amount (pg_currency pg) (dp_amount_with_fee r) = Some a"
    "amount_in (pg_currency pg) a" "amt a = sqlamt (dp_amount_with_fee r)"
    by (rule result_spec_amount [OF assms(1) deposit_denoms_normal(1) [OF assms(2,3)]])
  obtain fee where fee: "TALER_PQ_result_spec_amount (pg_currency pg) (dn_fee_deposit d) = Some fee"
    "amount_in (pg_currency pg) fee" "amt fee = sqlamt (dn_fee_deposit d)"
    by (rule result_spec_amount [OF assms(1) deposit_denoms_normal(2) [OF assms(2,3)]])
  show ?thesis by (rule that [OF _ a(2,3) fee(2,3)]) (simp add: extract_deposit_def a(1) fee(1))
qed

lemma insert_tracking_Inr:
  assumes "sql_insert_aggregation_tracking row n db = Inr (k, db')"
  shows "k = 1 \<and> db' = db\<lparr>t_aggregation_tracking := t_aggregation_tracking db @ [row n]\<rparr>"
  using assms by (auto simp: sql_insert_aggregation_tracking_def split: if_splits)

lemma track_deposit_tx:
  assumes "gnunet_ok g" and "in_tx c s" and "tracked 1" and "\<forall>q\<le>0. \<not> tracked q"
  shows "wp (track_deposit g wtid rowid tracked s) (\<lambda>qs s'. in_tx c s' \<and> (s_failed s' \<longrightarrow> qs \<le> 0)
     \<and> (\<not> s_failed s' \<longrightarrow> \<not> s_failed s \<and> (\<exists>tr. at_deposit_serial_id tr = rowid \<and> at_wtid_raw tr = wtid
          \<and> s_db s' = (s_db s)\<lparr>t_deposits := mark_done {rowid} (t_deposits (s_db s)),
              t_aggregation_tracking := t_aggregation_tracking (s_db s) @ [tr]\<rparr>)))"
  unfolding track_deposit_def postgres_insert_aggregation_tracking_def
proof (rule wp_bindI [OF non_select_tx [OF assms(1,2)]], goal_cases)
  case (1 qs s1)
  show ?case
  proof (cases "tracked qs")
    case True
    with 1 assms(4) have s1: "in_tx c s1" "\<not> s_failed s1" "\<not> s_failed s" by (auto simp: not_le)
    from 1 s1 obtain n k where i: "sql_insert_aggregation_tracking (\<lambda>n. \<lparr>at_aggregation_serial_id = n,
        at_deposit_serial_id = rowid, at_wtid_raw = wtid\<rparr>) n (s_db s) = Inr (k, s_db s1)"
      by auto
    define tr where "tr = \<lparr>at_aggregation_serial_id = n, at_deposit_serial_id = rowid, at_wtid_raw = wtid\<rparr>"
    have tr: "at_deposit_serial_id tr = rowid" "at_wtid_raw tr = wtid"
      "s_db s1 = (s_db s)\<lparr>t_aggregation_tracking := t_aggregation_tracking (s_db s) @ [tr]\<rparr>"
      using insert_tracking_Inr [OF i] by (simp_all add: tr_def)
    have "wp (postgres_mark_deposit_done g rowid s1) (\<lambda>qs s'. in_tx c s' \<and> (s_failed s' \<longrightarrow> qs \<le> 0)
       \<and> (\<not> s_failed s' \<longrightarrow> s_db s' = (s_db s1)\<lparr>t_deposits := mark_done {rowid} (t_deposits (s_db s1))\<rparr>))"
      unfolding postgres_mark_deposit_done_def
      by (rule wp_mono [OF non_select_tx [OF assms(1) s1(1)]]) (auto simp: sql_mark_deposit_done_def mark_done_def)
    then have "wp (postgres_mark_deposit_done g rowid s1) (\<lambda>qs s'. in_tx c s' \<and> (s_failed s' \<longrightarrow> qs \<le> 0)
       \<and> (\<not> s_failed s' \<longrightarrow> \<not> s_failed s \<and> (\<exists>tr. at_deposit_serial_id tr = rowid \<and> at_wtid_raw tr = wtid
          \<and> s_db s' = (s_db s)\<lparr>t_deposits := mark_done {rowid} (t_deposits (s_db s)),
              t_aggregation_tracking := t_aggregation_tracking (s_db s) @ [tr]\<rparr>)))"
      by (rule wp_mono) (use s1(3) tr in \<open>auto intro!: exI [of _ tr]\<close>)
    with True show ?thesis by simp
  next
    case False
    with 1 assms(3) show ?thesis by (auto dest!: insert_tracking_Inr)
  qed
qed

lemma refunds_taken_sels:
  assumes "refunds_taken pg au rows au'"
  shows "au_merchant_pub au' = au_merchant_pub au" "au_wire_fee au' = au_wire_fee au" "au_wtid au' = au_wtid au"
    "au_row_id au' = au_row_id au" "au_execution_time au' = au_execution_time au" "au_wire au' = au_wire au" "au_wa au' = au_wa au"
    "au_additional_rows au' = au_additional_rows au" "au_accounts au' = au_accounts au" "au_h_wire au' = au_h_wire au"
    "in_or_invalid pg (au_total_amount au')"
  using assms by (auto simp: refunds_taken_def)

lemma contribution_exact:
  assumes a: "au_total_amount au = a" "\<not> au_have_refund au" "amount_in (pg_currency pg) a" "amt a = sqlamt (dp_amount_with_fee r)"
    and fee: "amount_in (pg_currency pg) fee" "amt fee = sqlamt (dn_fee_deposit d)"
    and r: "refunds_taken pg au (sql_get_refunds_by_coin_and_contract (dp_coin_pub r) (dp_merchant_pub r) (dp_h_contract_terms r) db) au'"
    and amount: "amount = a \<or> amount = au_total_amount au'" and "in_or_invalid pg x"
  shows "\<exists>t. subtract_deposit_fee amount fee (amt_currency x) au' = Some (au'\<lparr>au_total_amount := t\<rparr>)
     \<and> exact_or_invalid pg (deposit_contribution db (r, d)) t"
proof (cases "au_have_refund au'")
  case True
  then have "subtract_deposit_fee amount fee (amt_currency x) au' = Some (au'\<lparr>au_total_amount := au_total_amount au'\<rparr>)"
    by (simp add: subtract_deposit_fee_def)
  moreover have "exact_or_invalid pg (deposit_contribution db (r, d)) (au_total_amount au')"
    using True r a by (auto simp: refunds_taken_def)
  ultimately show ?thesis by blast
next
  case False
  then have n: "sql_get_refunds_by_coin_and_contract (dp_coin_pub r) (dp_merchant_pub r) (dp_h_contract_terms r) db = []"
    and "amount = a" using r a(1) amount by (auto simp: refunds_taken_def)
  with False subtract_deposit_fee_exact [OF a(3) fee(1) assms(9), of au'] a(4) fee(2) show ?thesis by simp
qed

lemma mark_done_aggregated:
  "(aggregated_db ids trs fees c)\<lparr>t_deposits := mark_done {i} (t_deposits (aggregated_db ids trs fees c)),
     t_aggregation_tracking := t_aggregation_tracking (aggregated_db ids trs fees c) @ [tr]\<rparr>
   = aggregated_db (ids @ [i]) (trs @ [tr]) fees c"
  by (simp add: aggregated_db_def mark_done_mark_done)

lemma fees_added_aggregated: "fees_added c db \<Longrightarrow> \<exists>fees. fee_rows_ok fees \<and> db = aggregated_db [] [] fees c"
  by (auto simp: fees_added_def aggregated_db_def mark_done_def)

lemma aggregated_db_sels [simp]:
  "t_refunds (aggregated_db ids trs fees c) = t_refunds c" "t_known_coins (aggregated_db ids trs fees c) = t_known_coins c"
  "t_denominations (aggregated_db ids trs fees c) = t_denominations c"
  by (simp_all add: aggregated_db_def)

lemma payable_tables: "payable ag c \<Longrightarrow> coin_tables_ok c"
  by (simp add: payable_def db_ok_def)

lemma first_deposit_tx:
  assumes ag: "aggregator_ok ag" and c: "payable ag c" and s: "in_tx c s" "\<not> s_failed s" "s_db s = c"
    and r: "(r, d) \<in> set (deposit_denoms c)" "\<not> dp_done r"
    and h: "TALER_JSON_merchant_wire_signature_hash (ag_crypto ag) (ag_json_string ag) (dp_wire r) = Some (Some (au_h_wire au))"
    and au: "au_wire au = Some (dp_wire r)" "au_merchant_pub au = dp_merchant_pub r" "au_row_id au = dp_deposit_serial_id r"
      "au_additional_rows au = []" "accounts_ok ag (au_accounts au)" "au_wtid au = in_wtid inp"
      "exact_or_invalid (ag_pg ag) (deposit_contribution c (r, d)) (au_total_amount au)"
  shows "wp (do {
       ((ok, au), s) \<leftarrow> deposit_account ag inp (dp_wire r) au s;
       if \<not> ok then Some ((GNUNET_DB_STATUS_HARD_ERROR, au), s)
       else do {
         (qs, s) \<leftarrow> track_deposit (ag_gnunet ag) (au_wtid au) (dp_deposit_serial_id r) (\<lambda>qs. \<not> qs \<le> 0) s;
         Some ((qs, au), s)
       }
     }) (\<lambda>(qs, au') s'. in_tx c s' \<and> accounts_ok ag (au_accounts au')
       \<and> (0 < qs \<longrightarrow> \<not> s_failed s' \<and> au_ok ag inp c [(r, d)] au' \<and> au_exact ag inp c [(r, d)] au' (s_db s')))"
proof -
  let ?pg = "ag_pg ag" and ?g = "ag_gnunet ag"
  let ?t = "GNUNET_TIME_round_abs ?g (in_execution_time inp)"
  obtain url where url: "TALER_JSON_wire_to_payto (ag_json_string ag) (dp_wire r) = Some (Some url)"
    using wire_hash_payto h by metis
  have acc: "\<forall>wa\<in>set (au_accounts au). account_ok ag wa" using au(5) by (simp add: accounts_ok_def)
  have fr: "\<not> s_failed s \<longrightarrow> fee_rows_ok (t_wire_fee (s_db s))" using c s by (simp add: payable_def)
  show ?thesis
  proof (rule wp_bindI [OF deposit_account_tx [OF ag s(1) acc fr url, of inp]], goal_cases)
    case (1 y s2)
    obtain ok au5 where y: "y = (ok, au5)" by (cases y)
    show ?case
    proof (cases ok)
      case True
      with 1 y obtain wa was af where au5: "au5 = au\<lparr>au_wa := Some wa, au_execution_time := ?t, au_accounts := was,
          au_wire_fee := af_wire_fee af\<rparr>" "wa \<in> set was" "account_ok ag wa" "advance_fees wa ?t = Some af"
        and acc5: "accounts_ok ag was" and s2: "in_tx c s2" "only_fees s s2"
        by (auto simp: Let_def accounts_ok_def)
      have fee5: "fee_ok ?g ?pg af" using au5(3) advance_fees_mem(1) [OF au5(4)] by (simp add: account_ok_def)
      have ok5: "au_ok ag inp c [(r, d)] au5"
        using au5 acc5 fee5 au r h exact_in [OF au(7)] by (auto simp: au_ok_def rows_ok_def)
      have ex: "au_exact ag inp c [(r, d)] au5 db" if tr: "at_deposit_serial_id tr = dp_deposit_serial_id r" "at_wtid_raw tr = au_wtid au5"
        and db: "db = (s_db s2)\<lparr>t_deposits := mark_done {dp_deposit_serial_id r} (t_deposits (s_db s2)),
          t_aggregation_tracking := t_aggregation_tracking (s_db s2) @ [tr]\<rparr>" and nf: "\<not> s_failed s2" for db tr
      proof -
        obtain fees where f: "fee_rows_ok fees" "s_db s2 = aggregated_db [] [] fees c"
          using s2(2) nf s(3) fees_added_aggregated by (auto simp: only_fees_def)
        have "db = aggregated_db [dp_deposit_serial_id r] [tr] fees c"
          unfolding db f(2) mark_done_aggregated by simp
        then show ?thesis
          unfolding au_exact_def using f(1) tr au5(1) au by (auto intro!: exI [of _ "[tr]"] exI [of _ fees])
      qed
      have "wp (track_deposit ?g (au_wtid au5) (dp_deposit_serial_id r) (\<lambda>qs. \<not> qs \<le> 0) s2) (\<lambda>qs s'. in_tx c s'
         \<and> accounts_ok ag (au_accounts au5)
         \<and> (0 < qs \<longrightarrow> \<not> s_failed s' \<and> au_ok ag inp c [(r, d)] au5 \<and> au_exact ag inp c [(r, d)] au5 (s_db s')))"
        by (rule wp_mono [OF track_deposit_tx [OF _ s2(1)]]) (use ag acc5 au5(1) ok5 ex in \<open>auto simp: aggregator_ok_def\<close>)
      with True y show ?thesis by (simp add: wp_bind)
    qed (use 1 y in \<open>auto simp: accounts_ok_def\<close>)
  qed
qed

lemma deposit_cb_tx:
  assumes ag: "aggregator_ok ag" and c: "payable ag c" and s: "in_tx c s" "\<not> s_failed s" "s_db s = c"
    and r: "(r, d) \<in> set (deposit_denoms c)" "\<not> dp_done r"
    and info: "extract_deposit (ag_gnunet ag) (ag_pg ag) (Some (dp_wire r)) r d = Some info"
    and au: "au_wire au = None" "au_additional_rows au = []" "accounts_ok ag (au_accounts au)"
  shows "wp (deposit_cb ag inp au info s) (\<lambda>(qs, au') s'. in_tx c s' \<and> accounts_ok ag (au_accounts au')
     \<and> (0 < qs \<longrightarrow> \<not> s_failed s' \<and> au_ok ag inp c [(r, d)] au' \<and> au_exact ag inp c [(r, d)] au' (s_db s')))"
proof -
  let ?pg = "ag_pg ag" and ?g = "ag_gnunet ag"
  note ag' = ag [unfolded aggregator_ok_def]
  obtain a fee where i: "info = \<lparr>di_row_id = dp_deposit_serial_id r, di_merchant_pub = dp_merchant_pub r,
      di_coin_pub = dp_coin_pub r, di_amount_with_fee = a, di_deposit_fee = fee, di_h_contract_terms = dp_h_contract_terms r,
      di_wire_deadline = TALER_PQ_result_spec_absolute_time ?g (dp_wire_deadline r), di_wire = Some (dp_wire r)\<rparr>"
    and a: "amount_in (pg_currency ?pg) a" "amt a = sqlamt (dp_amount_with_fee r)"
    and fee: "amount_in (pg_currency ?pg) fee" "amt fee = sqlamt (dn_fee_deposit d)"
    using extract_deposit_ok [OF _ payable_tables [OF c] r(1), of ?pg ?g "Some (dp_wire r)"] ag' info by (metis option.inject)
  define au1 where "au1 = au\<lparr>au_merchant_pub := dp_merchant_pub r, au_row_id := dp_deposit_serial_id r, au_total_amount := a, au_have_refund := False\<rparr>"
  have au1: "au_total_amount au1 = a" "\<not> au_have_refund au1" "amount_in (pg_currency ?pg) (au_total_amount au1)"
    using a by (simp_all add: au1_def)
  have nr: "\<not> s_failed s \<longrightarrow> refunds_normal (s_db s)"
    using refunds_normal_ok [OF payable_tables [OF c]] s by simp
  have "wp (do {
       ((qs, au), s) \<leftarrow> postgres_select_refunds_by_coin ?g ?pg (dp_coin_pub r) (dp_merchant_pub r) (dp_h_contract_terms r) refund_by_coin_cb au1 s;
       if 0 > qs then Some ((qs, au), s)
       else do {
         au \<leftarrow> subtract_deposit_fee a fee (amt_currency (au_total_amount au)) au;
         GNUNET_assert (au_wire au = None);
         h \<leftarrow> TALER_JSON_merchant_wire_signature_hash (ag_crypto ag) (ag_json_string ag) (dp_wire r);
         case h of
           None \<Rightarrow> Some ((GNUNET_DB_STATUS_HARD_ERROR, au), s)
         | Some h_wire \<Rightarrow> do {
             let au = au\<lparr>au_wire := Some (dp_wire r), au_h_wire := h_wire, au_wtid := in_wtid inp\<rparr>;
             ((ok, au), s) \<leftarrow> deposit_account ag inp (dp_wire r) au s;
             if \<not> ok then Some ((GNUNET_DB_STATUS_HARD_ERROR, au), s)
             else do {
               (qs, s) \<leftarrow> track_deposit ?g (au_wtid au) (dp_deposit_serial_id r) (\<lambda>qs. \<not> qs \<le> 0) s;
               Some ((qs, au), s)
             }
           }
       }
     }) (\<lambda>(qs, au') s'. in_tx c s' \<and> accounts_ok ag (au_accounts au')
     \<and> (0 < qs \<longrightarrow> \<not> s_failed s' \<and> au_ok ag inp c [(r, d)] au' \<and> au_exact ag inp c [(r, d)] au' (s_db s')))"
  proof (rule wp_bindI [OF select_refunds_tx [OF _ _ s(1) nr au1(3)]], goal_cases)
    case (3 x s1)
    obtain qs au2 where x: "x = (qs, au2)" by (cases x)
    show ?case
    proof (cases "0 > qs")
      case True
      with 3 x au(3) show ?thesis by (auto simp: au1_def)
    next
      case False
      with 3 x s have s1: "in_tx c s1" "\<not> s_failed s1" "s_db s1 = c"
        and t: "refunds_taken ?pg au1 (sql_get_refunds_by_coin_and_contract (dp_coin_pub r) (dp_merchant_pub r) (dp_h_contract_terms r) c) au2"
        by auto
      obtain t2 where t2: "subtract_deposit_fee a fee (amt_currency (au_total_amount au2)) au2 = Some (au2\<lparr>au_total_amount := t2\<rparr>)"
        "exact_or_invalid ?pg (deposit_contribution c (r, d)) t2"
        using contribution_exact [OF au1(1,2) a fee t disjI1 [OF refl] refunds_taken_sels(11) [OF t]] by blast
      define au3 where "au3 = au2\<lparr>au_total_amount := t2\<rparr>"
      have au3: "au_wire au3 = None" "au_merchant_pub au3 = dp_merchant_pub r" "au_row_id au3 = dp_deposit_serial_id r"
        "au_additional_rows au3 = []" "au_accounts au3 = au_accounts au" "au_total_amount au3 = t2"
        using au refunds_taken_sels [OF t] by (simp_all add: au1_def au3_def)
      have "TALER_JSON_merchant_wire_signature_hash (ag_crypto ag) (ag_json_string ag) (dp_wire r) \<noteq> None"
        using c deposit_denoms_normal(3) [OF payable_tables [OF c] r(1)] by (simp add: payable_def)
      then obtain h where h: "TALER_JSON_merchant_wire_signature_hash (ag_crypto ag) (ag_json_string ag) (dp_wire r) = Some h" by blast
      show ?thesis
      proof (cases h)
        case None
        with False x t2(1) h au3 s1 au(3) show ?thesis by (simp add: au3_def [symmetric])
      next
        case (Some h_wire)
        define au4 where "au4 = au3\<lparr>au_wire := Some (dp_wire r), au_h_wire := h_wire, au_wtid := in_wtid inp\<rparr>"
        have "wp (do {
             ((ok, au), s) \<leftarrow> deposit_account ag inp (dp_wire r) au4 s1;
             if \<not> ok then Some ((GNUNET_DB_STATUS_HARD_ERROR, au), s)
             else do {
               (qs, s) \<leftarrow> track_deposit ?g (au_wtid au) (dp_deposit_serial_id r) (\<lambda>qs. \<not> qs \<le> 0) s;
               Some ((qs, au), s)
             }
           }) (\<lambda>(qs, au') s'. in_tx c s' \<and> accounts_ok ag (au_accounts au')
     \<and> (0 < qs \<longrightarrow> \<not> s_failed s' \<and> au_ok ag inp c [(r, d)] au' \<and> au_exact ag inp c [(r, d)] au' (s_db s')))"
          by (rule first_deposit_tx [OF ag c s1 r]) (use h Some au3 au(3) t2(2) in \<open>auto simp: au4_def\<close>)
        then show ?thesis using False x t2(1) h Some au3(1) by (simp add: au3_def [symmetric] au4_def)
      qed
    qed
  qed (use ag' in auto)
  then show ?thesis by (simp add: deposit_cb_def i au1_def cong: if_cong)
qed

section \<open>Further deposits\<close>

lemma add_exact:
  assumes "in_or_invalid pg a" and "in_or_invalid pg b"
  shows "wp (TALER_amount_add a b) (\<lambda>r t. 0 \<le> r \<longrightarrow> amount_in (pg_currency pg) a \<and> amount_in (pg_currency pg) b
     \<and> amount_in (pg_currency pg) t \<and> amt t = amt a + amt b)"
proof (cases "amount_in (pg_currency pg) a \<and> amount_in (pg_currency pg) b")
  case True
  then show ?thesis using amount_add_wp [of "pg_currency pg" a b] by (auto elim!: wp_mono)
next
  case False
  with assms show ?thesis by (auto simp: TALER_amount_add_def cmp_currency_YES_iff in_or_invalid_def)
qed

lemma au_ok_total:
  "au_ok ag inp c rows au \<Longrightarrow> in_or_invalid (ag_pg ag) t \<Longrightarrow> au_ok ag inp c rows (au\<lparr>au_total_amount := t, au_have_refund := h\<rparr>)"
  by (auto simp: au_ok_def)

lemma exact_amount: "exact_or_invalid pg x t \<Longrightarrow> amount_in (pg_currency pg) t \<Longrightarrow> amt t = x"
  by (auto simp: exact_or_invalid_def)

lemma au_ok_append:
  assumes "au_ok ag inp c rows au" and "(r, d) \<in> set (deposit_denoms c)" "\<not> dp_done r" "dp_merchant_pub r = au_merchant_pub au"
    "dp_h_wire r = au_h_wire au" "dp_deposit_serial_id r \<notin> set (row_ids rows)" and "in_or_invalid (ag_pg ag) t"
  shows "au_ok ag inp c (rows @ [(r, d)]) (au\<lparr>au_have_refund := h, au_total_amount := t,
     au_additional_rows := au_additional_rows au @ [dp_deposit_serial_id r]\<rparr>)"
  using assms by (cases rows) (auto simp: au_ok_def rows_ok_def)

lemma au_exact_append:
  assumes "au_exact ag inp c rows au db" and "amount_in (pg_currency (ag_pg ag)) (au_total_amount au)"
    and "amt t = deposit_contribution c (r, d) + amt (au_total_amount au)" "amount_in (pg_currency (ag_pg ag)) t"
    and "at_deposit_serial_id tr = dp_deposit_serial_id r" "at_wtid_raw tr = in_wtid inp"
    and db': "db' = db\<lparr>t_deposits := mark_done {dp_deposit_serial_id r} (t_deposits db),
          t_aggregation_tracking := t_aggregation_tracking db @ [tr]\<rparr>" and "au_total_amount au' = t"
  shows "au_exact ag inp c (rows @ [(r, d)]) au' db'"
proof -
  obtain trs fees where f: "db = aggregated_db (row_ids rows) trs fees c" "fee_rows_ok fees"
    "map at_deposit_serial_id trs = row_ids rows" "\<forall>t\<in>set trs. at_wtid_raw t = in_wtid inp"
    using assms(1) by (auto simp: au_exact_def)
  have "db' = aggregated_db (row_ids rows @ [dp_deposit_serial_id r]) (trs @ [tr]) fees c"
    unfolding db' f(1) mark_done_aggregated ..
  moreover have "amt (au_total_amount au) = (\<Sum>x\<leftarrow>rows. deposit_contribution c x)"
    using assms(1,2) exact_amount by (auto simp: au_exact_def)
  ultimately show ?thesis
    unfolding au_exact_def using assms(3-6,8) f(2-4)
    by (auto simp: exact_or_invalid_def simp del: deposit_contribution.simps intro!: exI [of _ "trs @ [tr]"] exI [of _ fees])
qed

text \<open>What the callback keeps: it adds the deposit or passes it over, and goes on only if the transaction has not failed.\<close>

definition cb_post ::
    "aggregator \<Rightarrow> aggregation_inputs \<Rightarrow> tables \<Rightarrow> (deposits_row \<times> denominations_row) list \<Rightarrow> deposits_row \<times> denominations_row
       \<Rightarrow> int \<times> AggregationUnit \<Rightarrow> tables session \<Rightarrow> bool" where
  "cb_post ag inp c rows x = (\<lambda>(qs, au') s'. in_tx c s' \<and> (\<exists>rows'. (rows' = rows \<or> rows' = rows @ [x]) \<and> au_ok ag inp c rows' au'
     \<and> (\<not> s_failed s' \<longrightarrow> au_exact ag inp c rows' au' (s_db s'))) \<and> (qs = 1 \<longrightarrow> \<not> s_failed s'))"

lemma cb_post_skip:
  assumes "in_tx c s" and "au_ok ag inp c rows au" and "\<not> s_failed s \<longrightarrow> au_exact ag inp c rows au (s_db s)" and "qs = 1 \<longrightarrow> \<not> s_failed s"
  shows "cb_post ag inp c rows x (qs, au) s"
  using assms by (auto simp: cb_post_def)

lemma aggregate_cb_tx:
  assumes ag: "aggregator_ok ag" and c: "payable ag c" and s: "in_tx c s" "\<not> s_failed s"
    and au: "au_ok ag inp c rows au" "au_exact ag inp c rows au (s_db s)"
    and r: "(r, d) \<in> set (deposit_denoms c)" "\<not> dp_done r" "dp_merchant_pub r = au_merchant_pub au"
      "dp_h_wire r = au_h_wire au" "dp_deposit_serial_id r \<notin> set (row_ids rows)"
    and info: "extract_deposit (ag_gnunet ag) (ag_pg ag) None r d = Some info"
  shows "wp (aggregate_cb ag au info s) (cb_post ag inp c rows (r, d))"
proof (cases "length (au_additional_rows au) \<ge> TALER_EXCHANGEDB_MATCHING_DEPOSITS_LIMIT")
  case True
  with s au show ?thesis by (auto simp: aggregate_cb_def intro!: cb_post_skip)
next
  case lim: False
  let ?pg = "ag_pg ag" and ?g = "ag_gnunet ag" and ?old = "au_total_amount au"
  note ag' = ag [unfolded aggregator_ok_def]
  obtain a fee where i: "info = \<lparr>di_row_id = dp_deposit_serial_id r, di_merchant_pub = dp_merchant_pub r,
      di_coin_pub = dp_coin_pub r, di_amount_with_fee = a, di_deposit_fee = fee, di_h_contract_terms = dp_h_contract_terms r,
      di_wire_deadline = TALER_PQ_result_spec_absolute_time ?g (dp_wire_deadline r), di_wire = None\<rparr>"
    and a: "amount_in (pg_currency ?pg) a" "amt a = sqlamt (dp_amount_with_fee r)"
    and fee: "amount_in (pg_currency ?pg) fee" "amt fee = sqlamt (dn_fee_deposit d)"
    using extract_deposit_ok [OF _ payable_tables [OF c] r(1), of ?pg ?g None] ag' info by (metis option.inject)
  define au1 where "au1 = au\<lparr>au_total_amount := a, au_have_refund := False\<rparr>"
  have au1: "au_total_amount au1 = a" "\<not> au_have_refund au1" "amount_in (pg_currency ?pg) (au_total_amount au1)"
    "au_ok ag inp c rows au1" "au_merchant_pub au1 = dp_merchant_pub r"
    using a r(3) au_ok_total [OF au(1)] by (simp_all add: au1_def in_or_invalid_def)
  have rf: "t_refunds (s_db s) = t_refunds c" using au(2) by (auto simp: au_exact_def)
  then have nr: "\<not> s_failed s \<longrightarrow> refunds_normal (s_db s)"
    using refunds_normal_ok [OF payable_tables [OF c]] by (simp add: refunds_normal_def)
  have old: "in_or_invalid ?pg ?old" using au(1) by (simp add: au_ok_def)
  have "wp (do {
        ((qs, au), s) \<leftarrow> postgres_select_refunds_by_coin ?g ?pg (dp_coin_pub r) (dp_merchant_pub r) (dp_h_contract_terms r) refund_by_coin_cb au1 s;
        if 0 > qs then Some ((qs, au), s)
        else do {
          au \<leftarrow> subtract_deposit_fee (au_total_amount au) fee (amt_currency ?old) au;
          (r', tmp) \<leftarrow> TALER_amount_add (au_total_amount au) ?old;
          if 0 > r' then Some ((GNUNET_DB_STATUS_SUCCESS_ONE_RESULT, au\<lparr>au_total_amount := ?old\<rparr>), s)
          else do {
            let au = au\<lparr>au_total_amount := tmp, au_additional_rows := au_additional_rows au @ [dp_deposit_serial_id r]\<rparr>;
            (qs, s) \<leftarrow> track_deposit ?g (au_wtid au) (dp_deposit_serial_id r) (\<lambda>qs. qs = GNUNET_DB_STATUS_SUCCESS_ONE_RESULT) s;
            Some ((qs, au), s)
          }
        }
      }) (cb_post ag inp c rows (r, d))"
  proof (rule wp_bindI [OF select_refunds_tx [OF _ _ s(1) nr au1(3)]], goal_cases)
    case (3 x s1)
    obtain qs au2 where x: "x = (qs, au2)" by (cases x)
    show ?case
    proof (cases "0 > qs")
      case True
      with 3 x au1(4) show ?thesis by (auto intro!: cb_post_skip)
    next
      case False
      have q: "sql_get_refunds_by_coin_and_contract x y z (s_db s) = sql_get_refunds_by_coin_and_contract x y z c" for x y z
        by (simp add: sql_get_refunds_by_coin_and_contract_def rf)
      from 3 x False have s1: "in_tx c s1" "\<not> s_failed s1" "s_db s1 = s_db s"
        and t: "refunds_taken ?pg au1 (sql_get_refunds_by_coin_and_contract (dp_coin_pub r) (dp_merchant_pub r) (dp_h_contract_terms r) c) au2"
        by (auto simp: q)
      obtain h where au2: "au2 = au\<lparr>au_total_amount := au_total_amount au2, au_have_refund := h\<rparr>"
        using t by (auto simp: refunds_taken_def au1_def)
      obtain t2 where t2: "subtract_deposit_fee (au_total_amount au2) fee (amt_currency ?old) au2 = Some (au2\<lparr>au_total_amount := t2\<rparr>)"
        "exact_or_invalid ?pg (deposit_contribution c (r, d)) t2"
        using contribution_exact [OF au1(1,2) a fee t disjI2 [OF refl] old] by blast
      define au3 where "au3 = au\<lparr>au_total_amount := t2, au_have_refund := h\<rparr>"
      have au3: "au2\<lparr>au_total_amount := t2\<rparr> = au3" by (subst au2) (simp add: au3_def)
      have "wp (do {
          (r', tmp) \<leftarrow> TALER_amount_add (au_total_amount au3) ?old;
          if 0 > r' then Some ((GNUNET_DB_STATUS_SUCCESS_ONE_RESULT, au3\<lparr>au_total_amount := ?old\<rparr>), s1)
          else do {
            let au = au3\<lparr>au_total_amount := tmp, au_additional_rows := au_additional_rows au3 @ [dp_deposit_serial_id r]\<rparr>;
            (qs, s) \<leftarrow> track_deposit ?g (au_wtid au) (dp_deposit_serial_id r) (\<lambda>qs. qs = GNUNET_DB_STATUS_SUCCESS_ONE_RESULT) s1;
            Some ((qs, au), s)
          }
        }) (cb_post ag inp c rows (r, d))"
      proof (rule wp_bindI [OF add_exact [of ?pg]], goal_cases)
        case 1
        show ?case using exact_in [OF t2(2)] by (simp add: au3_def)
      next
        case 2
        show ?case using old .
      next
        case (3 r' tmp)
        show ?case
        proof (cases "0 > r'")
          case True
          have "au_exact ag inp c rows (au3\<lparr>au_total_amount := ?old\<rparr>) (s_db s1)"
            using au(2) s1 by (simp add: au_exact_def au3_def)
          with True s1 au_ok_total [OF au(1) old, of h] show ?thesis by (auto simp: au3_def intro!: cb_post_skip)
        next
          case False
          define au4 where "au4 = au3\<lparr>au_total_amount := tmp, au_additional_rows := au_additional_rows au3 @ [dp_deposit_serial_id r]\<rparr>"
          from 3 False have tmp: "amount_in (pg_currency ?pg) ?old" "amount_in (pg_currency ?pg) tmp"
            "amt tmp = deposit_contribution c (r, d) + amt ?old"
            using exact_amount [OF t2(2)] by (auto simp: au3_def)
          have ok4: "au_ok ag inp c (rows @ [(r, d)]) au4"
            using au_ok_append [OF au(1) r, of tmp h] tmp(2) by (simp add: au4_def au3_def in_or_invalid_def)
          have w: "au_wtid au4 = in_wtid inp" using au(1) by (simp add: au4_def au3_def au_ok_def)
          have ex: "au_exact ag inp c (rows @ [(r, d)]) au4 db" if "at_deposit_serial_id tr = dp_deposit_serial_id r"
            "at_wtid_raw tr = in_wtid inp" "db = (s_db s1)\<lparr>t_deposits := mark_done {dp_deposit_serial_id r} (t_deposits (s_db s1)),
               t_aggregation_tracking := t_aggregation_tracking (s_db s1) @ [tr]\<rparr>" for db tr
            by (rule au_exact_append [OF au(2) tmp(1,3,2) that(1,2)]) (use that(3) s1(3) in \<open>simp_all add: au4_def\<close>)
          have "wp (track_deposit ?g (au_wtid au4) (dp_deposit_serial_id r) (\<lambda>qs. qs = 1) s1)
              (\<lambda>qs s'. cb_post ag inp c rows (r, d) (qs, au4) s')"
            by (rule wp_mono [OF track_deposit_tx [OF _ s1(1)]])
              (use ag' ok4 ex w in \<open>auto simp: cb_post_def intro!: exI [of _ "rows @ [(r, d)]"]\<close>)
          moreover have "au_wtid au3 = au_wtid au4" by (simp add: au4_def)
          ultimately show ?thesis using False by (simp add: au4_def [symmetric] wp_bind)
        qed
      qed
      with False x t2(1) au3 show ?thesis by simp
    qed
  qed (use ag' in auto)
  then show ?thesis using lim r(3) by (simp add: aggregate_cb_def i au1_def Let_def cong: if_cong)
qed

section \<open>The loop over the matching deposits\<close>

text \<open>The deposits that are still to be visited\<close>

definition pending_ok ::
    "tables \<Rightarrow> AggregationUnit \<Rightarrow> (deposits_row \<times> denominations_row) list \<Rightarrow> (deposits_row \<times> denominations_row) list \<Rightarrow> bool" where
  "pending_ok c au rows ls \<longleftrightarrow> set ls \<subseteq> set (deposit_denoms c) \<and> distinct (row_ids ls) \<and> set (row_ids ls) \<inter> set (row_ids rows) = {}
     \<and> (\<forall>x\<in>set ls. \<not> dp_done (fst x) \<and> dp_merchant_pub (fst x) = au_merchant_pub au \<and> dp_h_wire (fst x) = au_h_wire au)"

lemma au_ok_same:
  assumes "au_ok ag inp c rows au" and "au_ok ag inp c rows' au'" and "hd rows' = hd rows"
  shows "au_merchant_pub au' = au_merchant_pub au \<and> au_h_wire au' = au_h_wire au"
proof -
  have "hd rows \<in> set rows" "hd rows' \<in> set rows'" using assms(1,2) by (auto simp: au_ok_def rows_ok_def)
  with assms show ?thesis by (auto simp: au_ok_def rows_ok_def)
qed

lemma match_deposit_cb_tx:
  assumes ag: "aggregator_ok ag" and c: "payable ag c"
  shows "in_tx c s \<Longrightarrow> au_ok ag inp c rows au \<Longrightarrow> \<not> s_failed s \<longrightarrow> au_exact ag inp c rows au (s_db s) \<Longrightarrow>
     pending_ok c au rows ls \<Longrightarrow> ls \<noteq> [] \<longrightarrow> \<not> s_failed s \<Longrightarrow>
     wp (match_deposit_cb (ag_gnunet ag) (ag_pg ag) (aggregate_cb ag) ls i au s) (\<lambda>(n, au') s'. in_tx c s'
       \<and> (\<exists>rows'. hd rows' = hd rows \<and> au_ok ag inp c rows' au' \<and> (\<not> s_failed s' \<longrightarrow> au_exact ag inp c rows' au' (s_db s'))))"
proof (induction ls arbitrary: i au s rows)
  case Nil
  then show ?case by auto
next
  case (Cons x ls)
  obtain r d where x: "x = (r, d)" by (cases x)
  note p = Cons.prems(4) [unfolded pending_ok_def x]
  obtain info where info: "extract_deposit (ag_gnunet ag) (ag_pg ag) None r d = Some info"
    by (rule extract_deposit_ok [OF _ payable_tables [OF c]]) (use p ag in \<open>auto simp: aggregator_ok_def\<close>)
  have nf: "\<not> s_failed s" using Cons.prems(5) by simp
  have cb: "wp (aggregate_cb ag au info s) (cb_post ag inp c rows (r, d))"
    if "extract_deposit (ag_gnunet ag) (ag_pg ag) None r d = Some info" for info
    by (rule aggregate_cb_tx [OF ag c Cons.prems(1) nf Cons.prems(2)]) (use Cons.prems(3) nf p that in auto)
  show ?case
    unfolding x match_deposit_cb.simps info Option.bind.simps
  proof (rule wp_bindI [OF cb [OF info]], clarsimp)
    fix qs au1 s1
    assume post: "cb_post ag inp c rows (r, d) (qs, au1) s1"
    then obtain rows1 where r1: "in_tx c s1" "rows1 = rows \<or> rows1 = rows @ [(r, d)]" "au_ok ag inp c rows1 au1"
      "\<not> s_failed s1 \<longrightarrow> au_exact ag inp c rows1 au1 (s_db s1)" by (auto simp: cb_post_def)
    have h: "hd rows1 = hd rows" using r1(2) Cons.prems(2) by (auto simp: au_ok_def rows_ok_def)
    show "(qs \<noteq> 1 \<longrightarrow> in_tx c s1 \<and> (\<exists>rows'. hd rows' = hd rows \<and> au_ok ag inp c rows' au1 \<and> (\<not> s_failed s1 \<longrightarrow> au_exact ag inp c rows' au1 (s_db s1))))
      \<and> (qs = 1 \<longrightarrow> wp (match_deposit_cb (ag_gnunet ag) (ag_pg ag) (aggregate_cb ag) ls (Suc i) au1 s1) (\<lambda>(n, au') s'. in_tx c s'
       \<and> (\<exists>rows'. hd rows' = hd rows \<and> au_ok ag inp c rows' au' \<and> (\<not> s_failed s' \<longrightarrow> au_exact ag inp c rows' au' (s_db s')))))"
    proof (intro conjI impI)
      assume "qs = 1"
      then have nf1: "\<not> s_failed s1" using post by (simp add: cb_post_def)
      have "set (row_ids ls) \<inter> set (row_ids rows1) = {}"
        using p r1(2) by (elim disjE conjE) (simp_all add: Int_insert_right)
      then have "pending_ok c au1 rows1 ls"
        using p au_ok_same [OF Cons.prems(2) r1(3) h] by (simp add: pending_ok_def)
      from Cons.IH [OF r1(1,3,4) this, of "Suc i"] nf1
      show "wp (match_deposit_cb (ag_gnunet ag) (ag_pg ag) (aggregate_cb ag) ls (Suc i) au1 s1) (\<lambda>(n, au') s'. in_tx c s'
       \<and> (\<exists>rows'. hd rows' = hd rows \<and> au_ok ag inp c rows' au' \<and> (\<not> s_failed s' \<longrightarrow> au_exact ag inp c rows' au' (s_db s'))))"
        by (simp add: h)
    qed (use r1 h in auto)
  qed
qed

lemma distinct_sorted_rows:
  "distinct (map f xs) \<Longrightarrow> distinct (map f (take n (sort_key k (filter P xs))))"
proof -
  assume "distinct (map f xs)"
  then have "distinct (map f (filter P xs))" by (rule distinct_map_filter)
  then have "distinct (map f (sort_key k (filter P xs)))" by (simp add: distinct_map)
  then show ?thesis by (simp add: take_map [symmetric])
qed

lemma row_ids_denoms:
  assumes "payable ag c"
  shows "distinct (row_ids (deposit_denoms c))"
  using deposits_of_denoms [OF payable_tables [OF assms]] assms
  by (metis (no_types, lifting) map_map comp_def payable_def map_eq_conv)

lemma aggregated_denoms:
  "deposit_denoms (aggregated_db ids trs fees c)
   = map (\<lambda>(r, d). (if dp_deposit_serial_id r \<in> set ids then r\<lparr>dp_done := True\<rparr> else r, d)) (deposit_denoms c)"
  by (simp add: deposit_denoms_coin aggregated_db_def mark_done_def map_concat comp_def coin_denoms_def if_distrib cong: if_cong map_cong)

lemma matching_pending:
  assumes c: "payable ag c" and au: "au_ok ag inp c rows au" and db: "db = aggregated_db (row_ids rows) trs fees c"
  shows "pending_ok c au rows (take n (sql_deposits_iterate_matching (au_merchant_pub au) (au_h_wire au) db))"
proof -
  let ?ls = "sql_deposits_iterate_matching (au_merchant_pub au) (au_h_wire au) db"
  have mem: "x \<in> set (deposit_denoms c) \<and> \<not> dp_done (fst x) \<and> dp_merchant_pub (fst x) = au_merchant_pub au
      \<and> dp_h_wire (fst x) = au_h_wire au \<and> dp_deposit_serial_id (fst x) \<notin> set (row_ids rows)" if "x \<in> set (take n ?ls)" for x
  proof -
    have *: "x \<in> set (deposit_denoms db)" "\<not> dp_done (fst x)" "dp_merchant_pub (fst x) = au_merchant_pub au" "dp_h_wire (fst x) = au_h_wire au"
      using that by (auto simp: sql_deposits_iterate_matching_def dest!: in_set_takeD)
    from *(1) obtain r d where r: "(r, d) \<in> set (deposit_denoms c)"
      "x = (if dp_deposit_serial_id r \<in> set (row_ids rows) then r\<lparr>dp_done := True\<rparr> else r, d)"
      unfolding db aggregated_denoms by auto
    have "dp_deposit_serial_id r \<notin> set (row_ids rows)"
    proof
      assume "dp_deposit_serial_id r \<in> set (row_ids rows)"
      then have "x = (r\<lparr>dp_done := True\<rparr>, d)" using r(2) by (simp only: if_True)
      with * show False by simp
    qed
    with * r show ?thesis by (simp del: set_map)
  qed
  have "map (\<lambda>x. dp_deposit_serial_id (fst x)) (deposit_denoms db) = row_ids (deposit_denoms c)"
    by (auto simp: db aggregated_denoms)
  then have "distinct (row_ids (deposit_denoms db))" using row_ids_denoms [OF c] by metis
  then have "distinct (row_ids (take n ?ls))"
    unfolding sql_deposits_iterate_matching_def take_take by (rule distinct_sorted_rows)
  with mem show ?thesis unfolding pending_ok_def by auto
qed

lemma iterate_matching_tx:
  assumes ag: "aggregator_ok ag" and c: "payable ag c" and s: "in_tx c s" "\<not> s_failed s"
    and au: "au_ok ag inp c rows au" "au_exact ag inp c rows au (s_db s)"
  shows "wp (postgres_iterate_matching_deposits (ag_gnunet ag) (ag_pg ag) (au_h_wire au) (au_merchant_pub au) (aggregate_cb ag) au limit s)
     (\<lambda>(qs, au') s'. in_tx c s' \<and> (\<exists>rows'. hd rows' = hd rows \<and> au_ok ag inp c rows' au'
       \<and> (\<not> s_failed s' \<longrightarrow> au_exact ag inp c rows' au' (s_db s'))))"
  unfolding postgres_iterate_matching_deposits_def
proof (rule wp_bindI [OF multi_select_tx [OF _ s(1)]], goal_cases)
  case (2 x s1)
  obtain qs ls bad where x: "x = (qs, ls, bad)" by (cases x)
  from 2 x have s1: "in_tx c s1" "\<not> bad" "ls \<noteq> [] \<longrightarrow> \<not> s_failed s1"
    "s_failed s1 \<and> ls = [] \<or> s_db s1 = s_db s \<and> ls = sql_deposits_iterate_matching (au_merchant_pub au) (au_h_wire au) (s_db s)"
    by auto
  obtain trs fees where "s_db s = aggregated_db (row_ids rows) trs fees c" using au(2) by (auto simp: au_exact_def)
  then have "pending_ok c au rows (take limit (sql_deposits_iterate_matching (au_merchant_pub au) (au_h_wire au) (s_db s)))"
    by (rule matching_pending [OF c au(1)])
  then have p: "pending_ok c au rows (take limit ls)" using s1(4) by (auto simp: pending_ok_def)
  have "\<not> s_failed s1 \<longrightarrow> au_exact ag inp c rows au (s_db s1)" using s1(4) au(2) by auto
  from match_deposit_cb_tx [OF ag c s1(1) au(1) this p, of 0] s1(3)
  have "wp (match_deposit_cb (ag_gnunet ag) (ag_pg ag) (aggregate_cb ag) (take limit ls) 0 au s1) (\<lambda>(n, au') s'. in_tx c s'
       \<and> (\<exists>rows'. hd rows' = hd rows \<and> au_ok ag inp c rows' au' \<and> (\<not> s_failed s' \<longrightarrow> au_exact ag inp c rows' au' (s_db s'))))"
    by auto
  then show ?case using s1(2) x by (simp add: wp_bind) (auto elim!: wp_mono)
qed (use ag in \<open>simp add: aggregator_ok_def\<close>)

text \<open>A deposit that is due\<close>

definition due :: "abs_time \<Rightarrow> deposits_row \<Rightarrow> bool" where
  "due now r \<longleftrightarrow> \<not> dp_tiny r \<and> \<not> dp_done r \<and> dp_wire_deadline r \<le> now \<and> dp_refund_deadline r < now"

lemma get_ready_deposit_tx:
  assumes ag: "aggregator_ok ag" and c: "payable ag c" and s: "in_tx c s" "\<not> s_failed s" "s_db s = c" and acc: "accounts_ok ag was"
  shows "wp (postgres_get_ready_deposit (ag_gnunet ag) (ag_pg ag) now (deposit_cb ag inp) (zero_au was) s)
     (\<lambda>(qs, au') s'. in_tx c s' \<and> accounts_ok ag (au_accounts au')
       \<and> (0 < qs \<longrightarrow> \<not> s_failed s' \<and> (\<exists>x. due (GNUNET_TIME_round_abs (ag_gnunet ag) now) (fst x) \<and> au_ok ag inp c [x] au' \<and> au_exact ag inp c [x] au' (s_db s'))))"
proof -
  let ?now = "GNUNET_TIME_round_abs (ag_gnunet ag) now"
  have t: "TALER_PQ_query_param_absolute_time (ag_gnunet ag) ?now = Some ?now"
    using ag by (simp add: query_param_rounded aggregator_ok_def)
  show ?thesis
    unfolding postgres_get_ready_deposit_def t Option.bind.simps
  proof (rule wp_bindI [OF singleton_select_tx [OF _ s(1)]], goal_cases)
    case (2 y s1)
    obtain qs row where y: "y = (qs, row)" by (cases y)
    show ?case
    proof (cases row)
      case None
      with 2 y acc show ?thesis by (auto simp: zero_au_def)
    next
      case (Some x)
      obtain r d where x: "x = (r, d)" by (cases x)
      with 2 y Some s have s1: "in_tx c s1" "\<not> s_failed s1" "s_db s1 = c" and q: "sql_deposits_get_ready ?now c = [(r, d)]" by auto
      have "(r, d) \<in> set (sql_deposits_get_ready ?now c)" by (simp add: q)
      then have r: "(r, d) \<in> set (deposit_denoms c)" "due ?now r"
        by (auto simp: sql_deposits_get_ready_def due_def dest!: in_set_takeD)
      obtain info where info: "extract_deposit (ag_gnunet ag) (ag_pg ag) (Some (dp_wire r)) r d = Some info"
        by (rule extract_deposit_ok [OF _ payable_tables [OF c] r(1)]) (use ag in \<open>auto simp: aggregator_ok_def\<close>)
      have "wp (deposit_cb ag inp (zero_au was) info s1) (\<lambda>(qs, au') s'. in_tx c s' \<and> accounts_ok ag (au_accounts au')
         \<and> (0 < qs \<longrightarrow> \<not> s_failed s' \<and> au_ok ag inp c [(r, d)] au' \<and> au_exact ag inp c [(r, d)] au' (s_db s')))"
        by (rule deposit_cb_tx [OF ag c s1 r(1) _ info]) (use r(2) acc in \<open>auto simp: zero_au_def due_def\<close>)
      then have "wp (deposit_cb ag inp (zero_au was) info s1) (\<lambda>(qs, au') s'. in_tx c s' \<and> accounts_ok ag (au_accounts au')
       \<and> (0 < qs \<longrightarrow> \<not> s_failed s' \<and> (\<exists>x. due ?now (fst x) \<and> au_ok ag inp c [x] au' \<and> au_exact ag inp c [x] au' (s_db s'))))"
        by (rule wp_mono) (use r(2) in \<open>auto intro!: exI [of _ "(r, d)"]\<close>)
      then show ?thesis using Some x y info by simp
    qed
  qed (use ag in \<open>simp add: aggregator_ok_def\<close>)
qed

section \<open>The amount that is transferred\<close>

lemma round_down_in:
  assumes "amount_in c a"
  shows "amount_in c (snd (TALER_amount_round_down a u)) \<and> amt (snd (TALER_amount_round_down a u)) \<le> amt a"
proof -
  have less: "amount_in c (a\<lparr>amt_value := v, amt_fraction := f\<rparr>) \<and> amt (a\<lparr>amt_value := v, amt_fraction := f\<rparr>) \<le> amt a"
    if "v \<le> amt_value a" "f \<le> amt_fraction a" for v f
  proof -
    let ?b = "a\<lparr>amt_value := v, amt_fraction := f\<rparr>"
    have v: "unat v \<le> unat (amt_value a)" "unat f \<le> unat (amt_fraction a)" using that by (simp_all add: word_le_nat_alt)
    then have "amount_units ?b \<le> amount_units a" by (simp add: amount_units_def add_mono)
    then have le: "amt ?b \<le> amt a" by (simp add: amt_def)
    have "amount_normal ?b" using le v(2) assms by (auto simp: amount_in_def amount_normal_def)
    with le amount_in_cong [OF assms, of ?b] show ?thesis by simp
  qed
  have m: "x - x mod y \<le> x" "p - p mod q \<le> p" for x y :: u32 and p q :: u64
    by (simp_all add: word_le_nat_alt unat_mod unat_sub)
  note less1 = less [of "amt_value a" "amt_fraction a - amt_fraction a mod amt_fraction u", OF _ m(1)]
    and less2 = less [of "amt_value a - amt_value a mod amt_value u" 0, OF m(2)]
  show ?thesis
    using assms less1 less2
    by (simp add: TALER_amount_round_down_def Let_def)
qed

lemma aggregate_final_exact:
  assumes "aggregator_ok ag" and "au_ok ag inp c rows au"
  shows "\<exists>b f. aggregate_final ag au = Some (b, au\<lparr>au_final_amount := f\<rparr>)
     \<and> (b \<longrightarrow> amount_in (pg_currency (ag_pg ag)) (au_total_amount au) \<and> (\<exists>net. amount_in (pg_currency (ag_pg ag)) net
          \<and> amt net = amt (au_total_amount au) - amt (au_wire_fee au) \<and> f = snd (TALER_amount_round_down net (ag_currency_round_unit ag))
          \<and> amount_in (pg_currency (ag_pg ag)) f \<and> 0 < amt f \<and> amt f \<le> amt net))"
proof -
  have w: "in_or_invalid (ag_pg ag) (au_total_amount au)" "amount_in (pg_currency (ag_pg ag)) (au_wire_fee au)"
    using assms by (auto simp: au_ok_def fee_ok_def)
  obtain r net where n: "TALER_amount_subtract (au_final_amount au) (au_total_amount au) (au_wire_fee au) = Some (r, net)"
    "\<not> r < 0 \<longrightarrow> amount_in (pg_currency (ag_pg ag)) (au_total_amount au) \<and> amount_in (pg_currency (ag_pg ag)) net
       \<and> amt net = amt (au_total_amount au) - amt (au_wire_fee au)"
    using subtract_exact [OF w, of "au_final_amount au"] by (auto simp: wp_iff split: if_splits)
  show ?thesis
  proof (cases "0 \<ge> r")
    case True
    with n(1) show ?thesis by (auto simp: aggregate_final_def)
  next
    case False
    obtain r' f where f: "TALER_amount_round_down net (ag_currency_round_unit ag) = (r', f)" by fastforce
    have "aggregate_final ag au = Some (r' \<noteq> GNUNET_SYSERR \<and> \<not> (amt_value f = 0 \<and> amt_fraction f = 0), au\<lparr>au_final_amount := f\<rparr>)"
      using False n(1) f by (simp add: aggregate_final_def)
    moreover have "amt f \<noteq> 0 \<longrightarrow> 0 < amt f" using amt_nonneg [of f] by linarith
    ultimately show ?thesis
      using False n(2) f round_down_in [of "pg_currency (ag_pg ag)" net "ag_currency_round_unit ag"] amt_eq_0_iff [of f]
      by (intro exI [of _ "r' \<noteq> GNUNET_SYSERR \<and> \<not> (amt_value f = 0 \<and> amt_fraction f = 0)"] exI [of _ f])
        (auto intro!: exI [of _ net])
  qed
qed

end
