(* ===== verification/Payout_Safety.thy ===== *)
theory Payout_Safety
  imports Payouts Transaction_Runner
begin

text \<open>
  The end of a run of the aggregator, what a whole run does to the database, and that this keeps the integrity of
  the database: a deposit is paid at most once, and only with what is owed for it.
\<close>

section \<open>What a run may do\<close>

definition mark_tiny :: "u64 set \<Rightarrow> deposits_row list \<Rightarrow> deposits_row list" where
  "mark_tiny ids = map (\<lambda>r. if dp_deposit_serial_id r \<in> ids then r\<lparr>dp_tiny := True\<rparr> else r)"

lemma mark_tiny_mark_tiny: "mark_tiny ids (mark_tiny ids' rows) = mark_tiny (ids \<union> ids') rows"
  by (simp add: mark_tiny_def)

lemma mark_tiny_empty [simp]: "mark_tiny {} rows = rows"
  by (simp add: mark_tiny_def)

text \<open>Unpaid deposits at one merchant are marked as tiny.\<close>

definition marks_tiny :: "tables \<Rightarrow> tables \<Rightarrow> bool" where
  "marks_tiny db db' \<longleftrightarrow> (\<exists>merchant rows ids. rows_ok db merchant rows \<and> ids \<subseteq> set (row_ids rows)
     \<and> db' = db\<lparr>t_deposits := mark_tiny ids (t_deposits db)\<rparr>)"

text \<open>One wire transfer is prepared and recorded, for distinct unpaid deposits at one merchant, the first of which is due, all to be paid
  to the account of the first one. It is over the sum of what is owed for the deposits without the wire fee, rounded down.
  Exactly these deposits are marked as done and tracked with the identifier of the transfer.\<close>

definition pays_merchant ::
    "aggregator \<Rightarrow> aggregation_inputs \<Rightarrow> TALER_EXCHANGEDB_WireAccount list \<Rightarrow> tables \<Rightarrow> tables \<Rightarrow> bool" where
  "pays_merchant ag inp accounts db db' \<longleftrightarrow> (\<exists>merchant rows h url wa af net trs fees pw wo.
     rows_ok db merchant rows \<and> due (GNUNET_TIME_round_abs (ag_gnunet ag) (in_now inp)) (fst (hd rows))
     \<and> TALER_JSON_merchant_wire_signature_hash (ag_crypto ag) (ag_json_string ag) (dp_wire (fst (hd rows))) = Some (Some h)
     \<and> (\<forall>x\<in>set (tl rows). dp_h_wire (fst x) = h)
     \<and> TALER_JSON_wire_to_payto (ag_json_string ag) (dp_wire (fst (hd rows))) = Some (Some url)
     \<and> wa \<in> set accounts \<and> advance_fees wa (GNUNET_TIME_round_abs (ag_gnunet ag) (in_execution_time inp)) = Some af
     \<and> amount_in (pg_currency (ag_pg ag)) net
     \<and> amt net = (\<Sum>x\<leftarrow>rows. deposit_contribution db x) - amt (af_wire_fee af)
     \<and> (let final = snd (TALER_amount_round_down net (ag_currency_round_unit ag)) in
          0 < amt final \<and> amt final \<le> amt net \<and> sqlamt (wo_amount wo) = amt final
          \<and> TALER_BANK_prepare_transfer (ag_crypto ag) (ag_max_malloc ag) (in_request_uid inp) url final
              (ag_exchange_base_url ag) (in_wtid inp) = Some (pw_buf pw))
     \<and> pw_type pw = wa_method wa \<and> \<not> pw_finished pw
     \<and> wo_wtid_raw wo = in_wtid inp \<and> wo_wire_target wo = dp_wire (fst (hd rows)) \<and> wo_exchange_account_section wo = wa_section_name wa
     \<and> in_wtid inp \<notin> wo_wtid_raw ` set (t_wire_out db)
     \<and> fee_rows_ok fees \<and> map at_deposit_serial_id trs = row_ids rows \<and> (\<forall>t\<in>set trs. at_wtid_raw t = in_wtid inp)
     \<and> db' = (aggregated_db (row_ids rows) trs fees db)
          \<lparr>t_prewire := t_prewire db @ [pw], t_wire_out := t_wire_out db @ [wo]\<rparr>)"

section \<open>Ends of a transaction\<close>

lemma commit_wire_out_wp:
  assumes "gnunet_ok g" and "in_tx c s"
  shows "wp (commit_wire_out g s) (\<lambda>qs s'. idle s' \<and> (s_committed s' = c \<or> \<not> s_failed s \<and> s_committed s' = s_db s))"
proof (cases "s_in_tx s \<and> \<not> s_failed s \<and> \<not> wire_out_ref (s_db s)")
  case True
  then have "commit_wire_out g s = Some (pq_status g PQ_FOREIGN_KEY_VIOLATION, (exec_rollback s)\<lparr>s_transaction_name := None\<rparr>)"
    by (simp add: commit_wire_out_def exec_rollback_def)
  then show ?thesis using exec_rollback_idle [of s] assms(2) by (simp add: in_tx_def)
next
  case False
  then have "commit_wire_out g s = postgres_commit g s" by (auto simp: commit_wire_out_def)
  moreover have "wp (postgres_commit g s) (\<lambda>qs s'. idle s' \<and> (s_committed s' = c \<or> \<not> s_failed s \<and> s_committed s' = s_db s))"
    by (rule wp_mono [OF commit_wp [OF assms(1)]]) (use assms(2) in \<open>auto simp: tx_outcome_def in_tx_def split: if_splits\<close>)
  ultimately show ?thesis by simp
qed

lemma rollback_outcomes: "set (s_outcomes (postgres_rollback s)) \<subseteq> set (s_outcomes s)"
  by (auto simp: postgres_rollback_def exec_rollback_def end_transaction_def next_outcome_def split: list.splits)

lemma preflight_outcomes: "set (s_outcomes (postgres_preflight s)) \<subseteq> set (s_outcomes s)"
  by (auto simp: postgres_preflight_def exec_rollback_def end_transaction_def next_outcome_def split: list.splits)

text \<open>A transaction starts, or the session stays idle.\<close>

lemma start_tx:
  assumes "idle s" and "PQ_EXTRACT_FAIL \<notin> set (s_outcomes s)"
  shows "wp (postgres_start name s) (\<lambda>ok s'. if ok = GNUNET_OK then in_tx (s_committed s) s' \<and> \<not> s_failed s' \<and> s_db s' = s_committed s
     else idle s' \<and> s_committed s' = s_committed s)"
proof -
  obtain ok s1 where r: "postgres_start name s = Some (ok, s1)" "s_committed s1 = s_committed s"
    "ok = GNUNET_OK \<and> in_fresh_tx s1 \<or> ok \<noteq> GNUNET_OK \<and> idle s1"
    using start_wp [OF assms(1), of name] by (auto simp: wp_iff)
  have "set (s_outcomes s1) \<subseteq> set (s_outcomes s)"
    using r(1) preflight_outcomes [of s]
    by (auto simp: postgres_start_def next_outcome_def Let_def split: list.splits if_splits)
  then show ?thesis using r assms(2) by (auto simp: in_tx_def in_fresh_tx_def)
qed

lemma start_deferred_tx:
  assumes "idle s" and "PQ_EXTRACT_FAIL \<notin> set (s_outcomes s)"
  shows "wp (postgres_start_deferred_wire_out s) (\<lambda>ok s'. if ok = GNUNET_OK then in_tx (s_committed s) s' \<and> \<not> s_failed s' \<and> s_db s' = s_committed s
     else idle s' \<and> s_committed s' = s_committed s)"
proof -
  have p: "idle (postgres_preflight s)" "s_committed (postgres_preflight s) = s_committed s"
    "PQ_EXTRACT_FAIL \<notin> set (s_outcomes (postgres_preflight s))"
    using assms exec_rollback_idle [of s] preflight_outcomes [of s] by (auto simp: postgres_preflight_def)
  show ?thesis
    unfolding postgres_start_deferred_wire_out_def
  proof (rule wp_bindI [OF start_tx [OF p(1,3)]], goal_cases)
    case (1 ok s1)
    show ?case
    proof (cases "ok = GNUNET_OK")
      case True
      obtain x s2 where n: "next_outcome s1 = (x, s2)" by (cases "next_outcome s1")
      with next_outcome_tx [OF _ n] 1 p(2) rollback_idle [of s2] True show ?thesis by (auto simp: in_tx_def)
    qed (use 1 p(2) in auto)
  qed
qed

section \<open>Marking deposits as tiny\<close>

definition tiny_marked :: "tables \<Rightarrow> u64 set \<Rightarrow> tables session \<Rightarrow> bool" where
  "tiny_marked c all s \<longleftrightarrow> in_tx c s \<and> (\<not> s_failed s \<longrightarrow> (\<exists>ids\<subseteq>all. s_db s = c\<lparr>t_deposits := mark_tiny ids (t_deposits c)\<rparr>))"

lemma mark_deposit_tiny_tx:
  assumes "gnunet_ok g" and "tiny_marked c all s" and "i \<in> all"
  shows "wp (postgres_mark_deposit_tiny g i s) (\<lambda>qs s'. tiny_marked c all s')"
  unfolding postgres_mark_deposit_tiny_def
proof (rule wp_mono [OF non_select_tx [OF assms(1)]])
  show "in_tx c s" using assms(2) by (simp add: tiny_marked_def)
next
  fix qs s'
  assume "in_tx c s' \<and> (s_failed s' \<and> qs \<le> 0 \<or> \<not> s_failed s \<and> \<not> s_failed s'
    \<and> (\<exists>n k. qs = int k \<and> sql_mark_deposit_tiny i n (s_db s) = Inr (k, s_db s')))"
  then show "tiny_marked c all s'"
  proof (elim conjE disjE)
    assume s': "in_tx c s'" "\<not> s_failed s" "\<not> s_failed s'" "\<exists>n k. qs = int k \<and> sql_mark_deposit_tiny i n (s_db s) = Inr (k, s_db s')"
    obtain ids where "ids \<subseteq> all" "s_db s = c\<lparr>t_deposits := mark_tiny ids (t_deposits c)\<rparr>"
      using assms(2) s'(2) by (auto simp: tiny_marked_def)
    moreover have "s_db s' = (s_db s)\<lparr>t_deposits := mark_tiny {i} (t_deposits (s_db s))\<rparr>"
      using s'(4) by (auto simp: sql_mark_deposit_tiny_def mark_tiny_def)
    ultimately show ?thesis
      using s'(1) assms(3) by (auto simp: tiny_marked_def mark_tiny_mark_tiny intro!: exI [of _ "{i} \<union> ids"])
  qed (simp add: tiny_marked_def)
qed

lemma mark_rows_tiny_tx:
  assumes "gnunet_ok g"
  shows "tiny_marked c all s \<Longrightarrow> set rows \<subseteq> all \<Longrightarrow> wp (mark_rows_tiny g rows qs s) (\<lambda>qs s'. tiny_marked c all s')"
proof (induction rows arbitrary: qs s)
  case (Cons i rows)
  show ?case
    unfolding mark_rows_tiny.simps
    by (rule wp_bindI [OF mark_deposit_tiny_tx [OF assms Cons.prems(1)]]) (use Cons in auto)
qed simp

lemma aggregate_tiny_wp:
  assumes ag: "aggregator_ok ag" and s: "in_tx c s" and au: "rows_ok c (au_merchant_pub au) rows"
    "au_row_id au # au_additional_rows au = row_ids rows"
  shows "wp (aggregate_tiny ag au s) (\<lambda>task s'. idle s' \<and> (s_committed s' = c \<or> marks_tiny c (s_committed s')))"
proof -
  let ?all = "set (row_ids rows)" and ?g = "ag_gnunet ag"
  have g: "gnunet_ok ?g" using ag by (simp add: aggregator_ok_def)
  have r: "idle (postgres_rollback s)" "s_committed (postgres_rollback s) = c" "PQ_EXTRACT_FAIL \<notin> set (s_outcomes (postgres_rollback s))"
    using s rollback_idle [of s] rollback_outcomes [of s] by (auto simp: in_tx_def)
  have ids: "au_row_id au \<in> ?all" "set (au_additional_rows au) \<subseteq> ?all" using au(2) by (metis list.set_intros(1)) (metis au(2) set_subset_Cons)
  show ?thesis
    unfolding aggregate_tiny_def Let_def
  proof (rule wp_bindI [OF start_tx [OF r(1,3)]], goal_cases)
    case (1 ok s1)
    show ?case
    proof (cases "ok = GNUNET_OK")
      case True
      with 1 r(2) have t1: "tiny_marked c ?all s1" by (auto simp: tiny_marked_def intro!: exI [of _ "{}"])
      have "wp (do {
          (qs, s) \<leftarrow> postgres_mark_deposit_tiny ?g (au_row_id au) s1;
          if 0 \<le> qs then mark_rows_tiny ?g (au_additional_rows au) qs s else Some (qs, s) }) (\<lambda>qs s'. tiny_marked c ?all s')"
        by (rule wp_bindI [OF mark_deposit_tiny_tx [OF g t1 ids(1)]]) (use mark_rows_tiny_tx [OF g _ ids(2)] in auto)
      then have "wp (do {
          (qs, s) \<leftarrow> do {
            (qs, s) \<leftarrow> postgres_mark_deposit_tiny ?g (au_row_id au) s1;
            if 0 \<le> qs then mark_rows_tiny ?g (au_additional_rows au) qs s else Some (qs, s) };
          if qs = GNUNET_DB_STATUS_SOFT_ERROR then Some (Run_now, postgres_rollback s)
          else if qs = GNUNET_DB_STATUS_HARD_ERROR then Some (Shutdown GR_DATABASE_TINY_MARK_HARD_FAIL, postgres_rollback s)
          else do {
            (qs, s) \<leftarrow> commit_or_warn ?g s;
            Some (Run_now, s)
          } }) (\<lambda>task s'. idle s' \<and> (s_committed s' = c \<or> marks_tiny c (s_committed s')))"
      proof (rule wp_bindI, goal_cases)
        case (1 qs s3)
        then have t3: "in_tx c s3" "\<not> s_failed s3 \<longrightarrow> marks_tiny c (s_db s3)"
          using au(1) by (auto simp: tiny_marked_def marks_tiny_def)
        have "wp (commit_wire_out ?g s3) (\<lambda>qs s'. idle s' \<and> (s_committed s' = c \<or> marks_tiny c (s_committed s')))"
          by (rule wp_mono [OF commit_wire_out_wp [OF g t3(1)]]) (use t3(2) in auto)
        then show ?case using rollback_idle [of s3] t3(1) by (simp add: wp_bind commit_or_warn_def in_tx_def)
      qed
      with True show ?thesis by (simp add: wp_bind split_def)
    qed (use 1 r(2) in auto)
  qed
qed

section \<open>Committing to the transfer\<close>

lemma prepare_transfer_some:
  assumes "amount_in c a"
  obtains buf where "TALER_BANK_prepare_transfer cr max_malloc uid url a base wtid = Some buf"
proof -
  obtain n where "TALER_amount_hton (GNUNET_htonll cr) a = Some n"
    using assms by (auto simp: TALER_amount_hton_def amount_in_def amount_wf_def)
  then have "\<exists>buf. TALER_BANK_prepare_transfer cr max_malloc uid url a base wtid = Some buf"
    by (simp add: TALER_BANK_prepare_transfer_def Let_def)
  with that show ?thesis by blast
qed

lemma wire_prepare_data_insert_tx:
  assumes "gnunet_ok g" and "in_tx c s"
  shows "wp (postgres_wire_prepare_data_insert g type buf s) (\<lambda>qs s'. in_tx c s' \<and> (\<not> s_failed s' \<longrightarrow> \<not> s_failed s \<and> 0 \<le> qs
     \<and> (\<exists>pw. pw_type pw = type \<and> \<not> pw_finished pw \<and> pw_buf pw = buf
          \<and> s_db s' = (s_db s)\<lparr>t_prewire := t_prewire (s_db s) @ [pw]\<rparr>)))"
proof -
  let ?pw = "\<lambda>n. \<lparr>pw_prewire_uuid = n, pw_type = type, pw_finished = False, pw_buf = buf\<rparr>"
  show ?thesis
    unfolding postgres_wire_prepare_data_insert_def
  proof (rule wp_mono [OF non_select_tx [OF assms]], elim conjE disjE exE, goal_cases)
    case (2 qs s' n k)
    then have "s_db s' = (s_db s)\<lparr>t_prewire := t_prewire (s_db s) @ [?pw n]\<rparr>"
      by (simp add: sql_wire_prepare_data_insert_def)
    with 2 show ?case by (intro conjI impI exI [of _ "?pw n"]) simp_all
  qed simp
qed

lemma store_wire_transfer_out_tx:
  assumes "gnunet_ok g" and "in_tx c s" and "GNUNET_TIME_round_abs g date = date" and "amount_in cur a"
  shows "wp (postgres_store_wire_transfer_out g date wtid target section a s) (\<lambda>qs s'. in_tx c s' \<and> (\<not> s_failed s' \<longrightarrow> \<not> s_failed s
     \<and> wtid \<notin> wo_wtid_raw ` set (t_wire_out (s_db s))
     \<and> (\<exists>wo. wo_wtid_raw wo = wtid \<and> wo_wire_target wo = target \<and> wo_exchange_account_section wo = section \<and> sqlamt (wo_amount wo) = amt a
          \<and> s_db s' = (s_db s)\<lparr>t_wire_out := t_wire_out (s_db s) @ [wo]\<rparr>)))"
proof -
  obtain x where x: "TALER_PQ_query_param_amount a = Some x" "sqlamt x = amt a"
    using query_param_amount [OF assms(4)] by metis
  let ?wo = "\<lambda>n. \<lparr>wo_wireout_uuid = n, wo_execution_date = date, wo_wtid_raw = wtid, wo_wire_target = target,
    wo_exchange_account_section = section, wo_amount = x\<rparr>"
  have "wp (pq_non_select g (sql_insert_wire_out ?wo) s) (\<lambda>qs s'. in_tx c s' \<and> (\<not> s_failed s' \<longrightarrow> \<not> s_failed s
     \<and> wtid \<notin> wo_wtid_raw ` set (t_wire_out (s_db s))
     \<and> (\<exists>wo. wo_wtid_raw wo = wtid \<and> wo_wire_target wo = target \<and> wo_exchange_account_section wo = section \<and> sqlamt (wo_amount wo) = amt a
          \<and> s_db s' = (s_db s)\<lparr>t_wire_out := t_wire_out (s_db s) @ [wo]\<rparr>)))"
  proof (rule wp_mono [OF non_select_tx [OF assms(1,2)]], elim conjE disjE exE, goal_cases)
    case (2 qs s' n k)
    then have "s_db s' = (s_db s)\<lparr>t_wire_out := t_wire_out (s_db s) @ [?wo n]\<rparr>" "wtid \<notin> wo_wtid_raw ` set (t_wire_out (s_db s))"
      by (auto simp: sql_insert_wire_out_def split: if_splits)
    with 2 x(2) show ?case by (intro conjI impI exI [of _ "?wo n"]) simp_all
  qed simp
  then show ?thesis by (simp add: postgres_store_wire_transfer_out_def query_param_time [OF assms(3)] x(1))
qed

lemma pays_merchantI:
  assumes au: "au_ok ag inp c rows au" "au_exact ag inp c rows au db"
    and d: "due (GNUNET_TIME_round_abs (ag_gnunet ag) (in_now inp)) (fst (hd rows))"
    and total: "amount_in (pg_currency (ag_pg ag)) (au_total_amount au)"
    and url: "TALER_JSON_wire_to_payto (ag_json_string ag) (dp_wire (fst (hd rows))) = Some (Some url)"
    and wa: "wa \<in> set (au_accounts au)" "au_wa au = Some wa" "advance_fees wa (au_execution_time au) = Some af" "au_wire_fee au = af_wire_fee af"
    and net: "amount_in (pg_currency (ag_pg ag)) net" "amt net = amt (au_total_amount au) - amt (au_wire_fee au)"
    and f: "au_final_amount au = snd (TALER_amount_round_down net (ag_currency_round_unit ag))"
      "amount_in (pg_currency (ag_pg ag)) (au_final_amount au)" "0 < amt (au_final_amount au)" "amt (au_final_amount au) \<le> amt net"
    and buf: "TALER_BANK_prepare_transfer (ag_crypto ag) (ag_max_malloc ag) (in_request_uid inp) url (au_final_amount au)
      (ag_exchange_base_url ag) (au_wtid au) = Some (pw_buf pw)"
    and pw: "pw_type pw = wa_method wa" "\<not> pw_finished pw"
    and wo: "wo_wtid_raw wo = au_wtid au" "wo_wire_target wo = dp_wire (fst (hd rows))" "wo_exchange_account_section wo = wa_section_name wa"
      "sqlamt (wo_amount wo) = amt (au_final_amount au)" "au_wtid au \<notin> wo_wtid_raw ` set (t_wire_out db)"
  shows "pays_merchant ag inp (au_accounts au) c (db\<lparr>t_prewire := t_prewire db @ [pw], t_wire_out := t_wire_out db @ [wo]\<rparr>)"
proof -
  obtain trs fees where ex: "db = aggregated_db (row_ids rows) trs fees c" "fee_rows_ok fees"
    "map at_deposit_serial_id trs = row_ids rows" "\<forall>t\<in>set trs. at_wtid_raw t = in_wtid inp"
    and t: "amt (au_total_amount au) = (\<Sum>x\<leftarrow>rows. deposit_contribution c x)"
    using au(2) total exact_amount by (auto simp: au_exact_def)
  note a = au(1) [unfolded au_ok_def]
  from a have w: "au_wtid au = in_wtid inp" by simp
  have k: "t_prewire db = t_prewire c" "t_wire_out db = t_wire_out c" by (simp_all add: ex(1) aggregated_db_def)
  have 1: "rows_ok c (au_merchant_pub au) rows"
    "TALER_JSON_merchant_wire_signature_hash (ag_crypto ag) (ag_json_string ag) (dp_wire (fst (hd rows))) = Some (Some (au_h_wire au))"
    "\<forall>x\<in>set (tl rows). dp_h_wire (fst x) = au_h_wire au"
    "au_execution_time au = GNUNET_TIME_round_abs (ag_gnunet ag) (in_execution_time inp)"
    using a by simp_all
  have 2: "amt net = (\<Sum>x\<leftarrow>rows. deposit_contribution c x) - amt (af_wire_fee af)" using net(2) t wa(4) by simp
  have 3: "db\<lparr>t_prewire := t_prewire db @ [pw], t_wire_out := t_wire_out db @ [wo]\<rparr>
      = (aggregated_db (row_ids rows) trs fees c)\<lparr>t_prewire := t_prewire c @ [pw], t_wire_out := t_wire_out c @ [wo]\<rparr>"
    unfolding k by (simp only: ex(1))
  show ?thesis
    unfolding pays_merchant_def Let_def
    by (intro exI [of _ "au_merchant_pub au"] exI [of _ rows] exI [of _ "au_h_wire au"] exI [of _ url] exI [of _ wa] exI [of _ af]
        exI [of _ net] exI [of _ trs] exI [of _ fees] exI [of _ pw] exI [of _ wo] conjI 1(1-3) d url wa(1) wa(3) [unfolded 1(4)] net(1) 2
        f(3,4) [unfolded f(1)] wo(4) [unfolded f(1)] buf [unfolded f(1) w] pw wo(1) [unfolded w] wo(2,3) wo(5) [unfolded k w] ex(2-4) 3)
qed

lemma aggregate_transfer_wp:
  assumes ag: "aggregator_ok ag" and s: "in_tx c s" and au: "au_ok ag inp c rows au" "\<not> s_failed s \<longrightarrow> au_exact ag inp c rows au (s_db s)"
    and d: "due (GNUNET_TIME_round_abs (ag_gnunet ag) (in_now inp)) (fst (hd rows))"
    and total: "amount_in (pg_currency (ag_pg ag)) (au_total_amount au)"
    and net: "amount_in (pg_currency (ag_pg ag)) net" "amt net = amt (au_total_amount au) - amt (au_wire_fee au)"
    and f: "au_final_amount au = snd (TALER_amount_round_down net (ag_currency_round_unit ag))"
      "amount_in (pg_currency (ag_pg ag)) (au_final_amount au)" "0 < amt (au_final_amount au)" "amt (au_final_amount au) \<le> amt net"
  shows "wp (aggregate_transfer ag inp au s) (\<lambda>task s'. idle s' \<and> (s_committed s' = c \<or> pays_merchant ag inp (au_accounts au) c (s_committed s')))"
proof -
  let ?g = "ag_gnunet ag" and ?wire = "dp_wire (fst (hd rows))"
  have g: "gnunet_ok ?g" using ag by (simp add: aggregator_ok_def)
  have wire: "au_wire au = Some ?wire" using au(1) by (simp add: au_ok_def)
  obtain url where url: "TALER_JSON_wire_to_payto (ag_json_string ag) ?wire = Some (Some url)"
    using wire_hash_payto au(1) by (metis au_ok_def)
  obtain wa af where wa: "wa \<in> set (au_accounts au)" "au_wa au = Some wa" "advance_fees wa (au_execution_time au) = Some af"
    "au_wire_fee au = af_wire_fee af" using au(1) by (auto simp: au_ok_def)
  obtain buf where buf: "TALER_BANK_prepare_transfer (ag_crypto ag) (ag_max_malloc ag) (in_request_uid inp) url (au_final_amount au)
      (ag_exchange_base_url ag) (au_wtid au) = Some buf" by (rule prepare_transfer_some [OF f(2)])
  have rd: "GNUNET_TIME_round_abs ?g (au_execution_time au) = au_execution_time au" using au(1) g by (simp add: au_ok_def gnunet_ok_def)
  define paid where "paid db \<longleftrightarrow> pays_merchant ag inp (au_accounts au) c db" for db
  have pays: "paid ((s_db s)\<lparr>t_prewire := t_prewire (s_db s) @ [pw], t_wire_out := t_wire_out (s_db s) @ [wo]\<rparr>)"
    if nf: "\<not> s_failed s" and pw: "pw_type pw = wa_method wa" "\<not> pw_finished pw" "pw_buf pw = buf"
      and wo: "wo_wtid_raw wo = au_wtid au" "wo_wire_target wo = ?wire" "wo_exchange_account_section wo = wa_section_name wa"
        "sqlamt (wo_amount wo) = amt (au_final_amount au)" "au_wtid au \<notin> wo_wtid_raw ` set (t_wire_out (s_db s))" for pw wo
    unfolding paid_def by (rule pays_merchantI [OF au(1) mp [OF au(2) nf] d total url wa net f buf [folded pw(3)] pw(1,2) wo])
  have end_: "wp (do {
       (qs, s) \<leftarrow> postgres_wire_prepare_data_insert ?g (wa_method wa) buf s;
       if qs \<ge> 0
       then postgres_store_wire_transfer_out ?g (au_execution_time au) (au_wtid au) ?wire (wa_section_name wa) (au_final_amount au) s
       else Some (qs, s) }) (\<lambda>qs s'. in_tx c s' \<and> (\<not> s_failed s' \<longrightarrow> paid (s_db s')))"
  proof (rule wp_bindI [OF wire_prepare_data_insert_tx [OF g s]], goal_cases)
    case (1 qs s1)
    have "wp (postgres_store_wire_transfer_out ?g (au_execution_time au) (au_wtid au) ?wire (wa_section_name wa) (au_final_amount au) s1)
        (\<lambda>qs s'. in_tx c s' \<and> (\<not> s_failed s' \<longrightarrow> paid (s_db s')))"
    proof (rule wp_mono [OF store_wire_transfer_out_tx [OF g _ rd f(2)]])
      show "in_tx c s1" using 1 by simp
    next
      fix qs s'
      assume *: "in_tx c s' \<and> (\<not> s_failed s' \<longrightarrow> \<not> s_failed s1 \<and> au_wtid au \<notin> wo_wtid_raw ` set (t_wire_out (s_db s1))
       \<and> (\<exists>wo. wo_wtid_raw wo = au_wtid au \<and> wo_wire_target wo = ?wire \<and> wo_exchange_account_section wo = wa_section_name wa
            \<and> sqlamt (wo_amount wo) = amt (au_final_amount au) \<and> s_db s' = (s_db s1)\<lparr>t_wire_out := t_wire_out (s_db s1) @ [wo]\<rparr>))"
      show "in_tx c s' \<and> (\<not> s_failed s' \<longrightarrow> paid (s_db s'))"
      proof (intro conjI impI)
        assume "\<not> s_failed s'"
        with * have nf1: "\<not> s_failed s1" by blast
        from * \<open>\<not> s_failed s'\<close> obtain wo where wo: "au_wtid au \<notin> wo_wtid_raw ` set (t_wire_out (s_db s1))"
          "wo_wtid_raw wo = au_wtid au" "wo_wire_target wo = ?wire" "wo_exchange_account_section wo = wa_section_name wa"
          "sqlamt (wo_amount wo) = amt (au_final_amount au)" "s_db s' = (s_db s1)\<lparr>t_wire_out := t_wire_out (s_db s1) @ [wo]\<rparr>"
          by blast
        from 1 nf1 obtain pw where pw: "\<not> s_failed s" "pw_type pw = wa_method wa" "\<not> pw_finished pw" "pw_buf pw = buf"
          "s_db s1 = (s_db s)\<lparr>t_prewire := t_prewire (s_db s) @ [pw]\<rparr>"
          by blast
        from pays [OF pw(1-4) wo(2-5)] wo(1,6) pw(5) show "paid (s_db s')" by simp
      qed (use * in simp)
    qed
    with 1 show ?case by auto
  qed
  have "wp (do {
       (qs, s) \<leftarrow> do {
         (qs, s) \<leftarrow> postgres_wire_prepare_data_insert ?g (wa_method wa) buf s;
         if qs \<ge> 0
         then postgres_store_wire_transfer_out ?g (au_execution_time au) (au_wtid au) ?wire (wa_section_name wa) (au_final_amount au) s
         else Some (qs, s) };
       if qs = GNUNET_DB_STATUS_SOFT_ERROR then Some (Run_now, postgres_rollback s)
       else if qs = GNUNET_DB_STATUS_HARD_ERROR then Some (Shutdown GR_DATABASE_PREPARE_HARD_FAIL, postgres_rollback s)
       else do {
         (qs, s) \<leftarrow> commit_or_warn ?g s;
         Some (if qs = GNUNET_DB_STATUS_SOFT_ERROR then Run_now
               else if qs = GNUNET_DB_STATUS_HARD_ERROR then Shutdown GR_DATABASE_PREPARE_COMMIT_HARD_FAIL
               else if qs = GNUNET_DB_STATUS_SUCCESS_NO_RESULTS then Run_now
               else Shutdown GR_INVARIANT_FAILURE, s)
       } }) (\<lambda>task s'. idle s' \<and> (s_committed s' = c \<or> paid (s_committed s')))"
  proof (rule wp_bindI [OF end_], goal_cases)
    case (1 qs s3)
    have "wp (commit_wire_out ?g s3) (\<lambda>qs' s'. idle s' \<and> (s_committed s' = c \<or> paid (s_committed s')))"
      by (rule wp_mono [OF commit_wire_out_wp [OF g]]) (use 1 in auto)
    then show ?case using rollback_idle [of s3] 1 by (simp add: wp_bind commit_or_warn_def in_tx_def)
  qed
  then have "wp (aggregate_transfer ag inp au s) (\<lambda>task s'. idle s' \<and> (s_committed s' = c \<or> paid (s_committed s')))"
    by (simp only: aggregate_transfer_def wire wa(2) url buf Option.bind.simps bind_assoc split_def)
  then show ?thesis by (simp only: paid_def)
qed

section \<open>A run\<close>

text \<open>Nothing happened, deposits were marked as tiny, or a merchant is paid.\<close>

definition aggregation_ended ::
    "aggregator \<Rightarrow> aggregation_inputs \<Rightarrow> tables \<Rightarrow> next_task \<times> TALER_EXCHANGEDB_WireAccount list \<Rightarrow> tables session \<Rightarrow> bool" where
  "aggregation_ended ag inp db = (\<lambda>(task, accounts') s'. idle s' \<and> accounts_ok ag accounts'
     \<and> (s_committed s' = db \<or> marks_tiny db (s_committed s') \<or> pays_merchant ag inp accounts' db (s_committed s')))"

lemma aggregation_ended_rollback:
  "in_tx c s \<Longrightarrow> accounts_ok ag was \<Longrightarrow> aggregation_ended ag inp c (task, was) (postgres_rollback s)"
  using rollback_idle [of s] by (simp add: aggregation_ended_def in_tx_def)

lemma aggregate_matched_wp:
  assumes ag: "aggregator_ok ag" and s: "in_tx c s" and au: "au_ok ag inp c rows au" "\<not> s_failed s \<longrightarrow> au_exact ag inp c rows au (s_db s)"
    and d: "due (GNUNET_TIME_round_abs (ag_gnunet ag) (in_now inp)) (fst (hd rows))"
  shows "wp (aggregate_matched ag inp qs au s) (aggregation_ended ag inp c)"
proof -
  have acc: "accounts_ok ag (au_accounts au)" using au(1) by (simp add: au_ok_def)
  obtain b f where b: "aggregate_final ag au = Some (b, au\<lparr>au_final_amount := f\<rparr>)"
    "b \<longrightarrow> amount_in (pg_currency (ag_pg ag)) (au_total_amount au) \<and> (\<exists>net. amount_in (pg_currency (ag_pg ag)) net
        \<and> amt net = amt (au_total_amount au) - amt (au_wire_fee au) \<and> f = snd (TALER_amount_round_down net (ag_currency_round_unit ag))
        \<and> amount_in (pg_currency (ag_pg ag)) f \<and> 0 < amt f \<and> amt f \<le> amt net)"
    using aggregate_final_exact [OF ag au(1)] by blast
  let ?au = "au\<lparr>au_final_amount := f\<rparr>"
  have au': "au_ok ag inp c rows ?au" "\<not> s_failed s \<longrightarrow> au_exact ag inp c rows ?au (s_db s)"
    using au by (auto simp: au_ok_def au_exact_def)
  have "wp (if b then aggregate_transfer ag inp ?au s else aggregate_tiny ag ?au s)
    (\<lambda>task s'. aggregation_ended ag inp c (task, au_accounts au) s')"
  proof (cases b)
    case True
    with b(2) obtain net where n: "amount_in (pg_currency (ag_pg ag)) (au_total_amount au)" "amount_in (pg_currency (ag_pg ag)) net"
        "amt net = amt (au_total_amount au) - amt (au_wire_fee au)" "f = snd (TALER_amount_round_down net (ag_currency_round_unit ag))"
        "amount_in (pg_currency (ag_pg ag)) f" "0 < amt f" "amt f \<le> amt net" by blast
    have "wp (aggregate_transfer ag inp ?au s) (\<lambda>task s'. idle s' \<and> (s_committed s' = c \<or> pays_merchant ag inp (au_accounts au) c (s_committed s')))"
      using aggregate_transfer_wp [OF ag s au' d, of net] n by simp
    then show ?thesis unfolding if_P [OF True] by (rule wp_mono) (use acc in \<open>auto simp: aggregation_ended_def\<close>)
  next
    case False
    have "wp (aggregate_tiny ag ?au s) (\<lambda>task s'. idle s' \<and> (s_committed s' = c \<or> marks_tiny c (s_committed s')))"
      by (rule aggregate_tiny_wp [OF ag s]) (use au' in \<open>auto simp: au_ok_def\<close>)
    then show ?thesis unfolding if_not_P [OF False] by (rule wp_mono) (use acc in \<open>auto simp: aggregation_ended_def\<close>)
  qed
  then show ?thesis
    using aggregation_ended_rollback [OF s acc] b(1) by (simp add: aggregate_matched_def wp_bind)
qed

lemma aggregate_ready_wp:
  assumes ag: "aggregator_ok ag" and acc: "accounts_ok ag accounts" and c: "payable ag c"
    and s: "in_tx c s" "\<not> s_failed s" "s_db s = c"
  shows "wp (aggregate_ready ag inp accounts s) (aggregation_ended ag inp c)"
  unfolding aggregate_ready_def
proof (rule wp_bindI [OF get_ready_deposit_tx [OF ag c s acc]], goal_cases)
  case (1 y s2)
  obtain qs au where y: "y = (qs, au)" by (cases y)
  show ?case
  proof (cases "0 \<ge> qs")
    case True
    with 1 y aggregation_ended_rollback [of c s2 ag "au_accounts au" inp] show ?thesis by simp
  next
    case False
    with 1 y obtain x where s2: "in_tx c s2" "\<not> s_failed s2" "due (GNUNET_TIME_round_abs (ag_gnunet ag) (in_now inp)) (fst x)"
      "au_ok ag inp c [x] au" "au_exact ag inp c [x] au (s_db s2)" by auto
    have "wp (do {
         ((qs, au), s) \<leftarrow> postgres_iterate_matching_deposits (ag_gnunet ag) (ag_pg ag) (au_h_wire au) (au_merchant_pub au)
                            (aggregate_cb ag) au TALER_EXCHANGEDB_MATCHING_DEPOSITS_LIMIT s2;
         aggregate_matched ag inp qs au s }) (aggregation_ended ag inp c)"
    proof (rule wp_bindI [OF iterate_matching_tx [OF ag c s2(1,2,4,5)]], goal_cases)
      case (1 z s3)
      obtain qs' au' where z: "z = (qs', au')" by (cases z)
      with 1 obtain rows' where "in_tx c s3" "hd rows' = x" "au_ok ag inp c rows' au'" "\<not> s_failed s3 \<longrightarrow> au_exact ag inp c rows' au' (s_db s3)"
        by auto
      with aggregate_matched_wp [OF ag, of c s3 inp rows' au' qs'] s2(3) z show ?case by simp
    qed
    with y False show ?thesis by simp
  qed
qed

lemma run_aggregation_wp:
  assumes ag: "aggregator_ok ag" and acc: "accounts_ok ag accounts" and c: "payable ag (s_committed s)" and s: "idle s"
    and ex: "PQ_EXTRACT_FAIL \<notin> set (s_outcomes s)"
  shows "wp (run_aggregation ag inp accounts s) (aggregation_ended ag inp (s_committed s))"
proof -
  obtain ok s0 where s0: "postgres_get_session s = (ok, s0)" by fastforce
  then have "set (s_outcomes s0) \<subseteq> set (s_outcomes s)"
    by (auto simp: postgres_get_session_def next_outcome_def split: list.splits)
  with ex get_session_idle [OF s0 s] have i0: "idle s0" "s_committed s0 = s_committed s" "PQ_EXTRACT_FAIL \<notin> set (s_outcomes s0)" by auto
  have "wp (do {
       (ok, s) \<leftarrow> postgres_start_deferred_wire_out s0;
       if ok \<noteq> GNUNET_OK then Some ((Shutdown GR_DATABASE_TRANSACTION_BEGIN_FAIL, accounts), s)
       else aggregate_ready ag inp accounts s }) (aggregation_ended ag inp (s_committed s))"
  proof (rule wp_bindI [OF start_deferred_tx [OF i0(1,3)]], goal_cases)
    case (1 ok s1)
    with aggregate_ready_wp [OF ag acc c, of s1 inp] i0(2) acc show ?case
      by (cases "ok = GNUNET_OK") (auto simp: aggregation_ended_def)
  qed
  then show ?thesis using i0 acc by (auto simp: run_aggregation_def s0 aggregation_ended_def)
qed

text \<open>C12. A run of the aggregator never aborts the process, whatever serialization failures, hard errors and lost connections the
  database reports, and it ends outside of a transaction. It leaves the database as it was; or it marks unpaid deposits of one merchant
  as tiny; or it commits to exactly one wire transfer, over the rounded sum of what is owed for distinct deposits that
  were not paid before, and marks and tracks exactly these deposits. (Rows that cannot be extracted are excluded.)\<close>

theorem aggregation_run_safe:
  assumes "aggregator_ok ag" and "accounts_ok ag accounts" and "payable ag (s_committed s)" and "idle s"
    and "PQ_EXTRACT_FAIL \<notin> set (s_outcomes s)"
  shows "\<exists>task accounts' s'. run_aggregation ag inp accounts s = Some ((task, accounts'), s') \<and> idle s' \<and> accounts_ok ag accounts'
     \<and> (s_committed s' = s_committed s \<or> marks_tiny (s_committed s) (s_committed s')
        \<or> pays_merchant ag inp accounts' (s_committed s) (s_committed s'))"
  using run_aggregation_wp [OF assms, of inp] by (auto simp: wp_iff aggregation_ended_def)

text \<open>An aggregator that pays with an account whose wire fee is known\<close>

definition sample_aggregator :: aggregator where
  "sample_aggregator = \<lparr>ag_gnunet = sample_gnunet, ag_pg = sample_pg, ag_crypto = sample_crypto,
     ag_json_string = (\<lambda>w f. Some ''payto://x-taler-bank/h/42''), ag_fee_files = (\<lambda>m. None),
     ag_currency_round_unit = mk_amount ''EUR'' 0 1000000, ag_exchange_base_url = ''http://e/'', ag_max_malloc = 1000, ag_test_mode = False\<rparr>"

definition sample_fee :: TALER_EXCHANGEDB_AggregateFees where
  "sample_fee = \<lparr>af_wire_fee = mk_amount ''EUR'' 0 10000000, af_closing_fee = mk_amount ''EUR'' 0 0, af_start_date = 0, af_end_date = 2000,
     af_master_sig = 0\<rparr>"

definition sample_account :: TALER_EXCHANGEDB_WireAccount where
  "sample_account = \<lparr>wa_section_name = ''exchange-account-1'', wa_method = ''x-taler-bank'', wa_wire_gateway_url = Some ''http://b/'',
     wa_af = [sample_fee]\<rparr>"

definition sample_inputs :: aggregation_inputs where
  "sample_inputs = \<lparr>in_now = 1000, in_execution_time = 1000, in_wtid = 8, in_request_uid = 77\<rparr>"

lemma sample_wire_hash: "TALER_JSON_merchant_wire_signature_hash sample_crypto (\<lambda>w f. Some ''payto://x-taler-bank/h/42'') wire = Some (Some 52)"
  by (simp add: TALER_JSON_merchant_wire_signature_hash_def validate_payto_def validate_payto_iban_def
      has_prefix_nocase_def TALER_merchant_wire_signature_hash_def tolower_def) (simp add: sample_crypto_def)

lemma sample_aggregator_ok: "aggregator_ok sample_aggregator" "accounts_ok sample_aggregator [sample_account]"
  "payable sample_aggregator sample_deposit_db"
proof -
  show "aggregator_ok sample_aggregator" by (simp add: aggregator_ok_def sample_aggregator_def sample_ok fee_files_ok_def)
  show "accounts_ok sample_aggregator [sample_account]"
    using mk_amount_in_EUR [of 10000000 0] mk_amount_in_EUR [of 0 0]
    by (simp add: accounts_ok_def account_ok_def sample_account_def sample_fee_def fee_ok_def sample_aggregator_def sample_ok)
  show "payable sample_aggregator sample_deposit_db"
    by (simp add: payable_def db_ok_def sample_deposit_db_ok sample_wire_hash sample_aggregator_def)
      (simp add: sample_deposit_db_def sample_db_def fee_rows_ok_def)
qed

text \<open>Such a run with its deposit of 3, of which 1 is the deposit fee and 0.1 the wire fee\<close>

lemma sample_amounts:
  "TALER_PQ_result_spec_amount ''EUR'' (3, 0) = Some (mk_amount ''EUR'' 3 0)"
  "TALER_PQ_result_spec_amount ''EUR'' (1, 0) = Some (mk_amount ''EUR'' 1 0)"
  "TALER_amount_subtract x (mk_amount ''EUR'' 3 0) (mk_amount ''EUR'' 1 0) = Some (1, mk_amount ''EUR'' 2 0)"
  "TALER_amount_subtract x (mk_amount ''EUR'' 2 0) (mk_amount ''EUR'' 0 10000000) = Some (1, mk_amount ''EUR'' 1 90000000)"
  "TALER_amount_round_down (mk_amount ''EUR'' 1 90000000) (mk_amount ''EUR'' 0 1000000) = (0, mk_amount ''EUR'' 1 90000000)"
  by (simp_all add: TALER_PQ_result_spec_amount_def TALER_amount_subtract_def TALER_amount_round_down_def Let_def amount_sample_simps
      TALER_amount_normalize_def TALER_amount_get_zero_def TALER_AMOUNT_FRAC_BASE_def MAX_AMOUNT_VALUE_def)

lemma sample_ready:
  "sql_deposits_get_ready 1000 sample_deposit_db = [(hd (t_deposits sample_deposit_db), hd (t_denominations sample_deposit_db))]"
  by (simp add: sql_deposits_get_ready_def deposit_denoms_def sample_deposit_db_def sample_db_def)

lemma sample_payto:
  "TALER_JSON_wire_to_payto (\<lambda>w f. Some ''payto://x-taler-bank/h/42'') wire = Some (Some ''payto://x-taler-bank/h/42'')"
  "TALER_EXCHANGEDB_find_account_by_payto_uri [sample_account] ''payto://x-taler-bank/h/42'' = Some sample_account"
  by (simp_all add: TALER_JSON_wire_to_payto_def validate_payto_def validate_payto_iban_def has_prefix_nocase_def tolower_def
      TALER_EXCHANGEDB_find_account_by_payto_uri_def TALER_payto_get_method_def sample_account_def strchr_def)

lemma sample_run:
  "\<exists>accounts' s'. run_aggregation sample_aggregator sample_inputs [sample_account] (sample_idle sample_deposit_db []) = Some ((Run_now, accounts'), s')
     \<and> map (\<lambda>r. (wo_wtid_raw r, wo_amount r)) (t_wire_out (s_committed s')) = [(8, (1, 90000000))]"
  apply (simp add: run_aggregation_def postgres_get_session_def next_outcome_def sample_idle_def
      postgres_start_deferred_wire_out_def postgres_start_def postgres_preflight_def Let_def exec_rollback_def end_transaction_def)
  apply (simp add: aggregate_ready_def postgres_get_ready_deposit_def sample_aggregator_def sample_inputs_def
      pq_singleton_select_def pq_denied_def next_outcome_def)
  apply (simp add: sample_gnunet_def TALER_PQ_query_param_absolute_time_def sample_ready)
  apply (simp add: sample_deposit_db_def sample_db_def extract_deposit_def sample_pg_def sample_amounts)
  apply (simp add: deposit_cb_def postgres_select_refunds_by_coin_def Let_def pq_multi_select_def pq_denied_def next_outcome_def zero_au_def
      sql_get_refunds_by_coin_and_contract_def subtract_deposit_fee_def sample_amounts sample_wire_hash)
  apply (simp add: deposit_account_def sample_payto TALER_EXCHANGEDB_update_fees_def advance_fees_def)
  apply (simp add: sample_account_def sample_fee_def)
  apply (simp add: track_deposit_def postgres_insert_aggregation_tracking_def postgres_mark_deposit_done_def pq_non_select_def
      next_outcome_def pq_denied_def sql_insert_aggregation_tracking_def sql_mark_deposit_done_def)
  apply (simp add: postgres_iterate_matching_deposits_def pq_multi_select_def pq_denied_def next_outcome_def
      sql_deposits_iterate_matching_def deposit_denoms_def)
  apply (simp add: aggregate_matched_def aggregate_final_def sample_amounts aggregate_transfer_def sample_payto)
  apply (simp add: TALER_BANK_prepare_transfer_def TALER_amount_hton_def amount_sample_simps)
  apply (simp add: postgres_wire_prepare_data_insert_def pq_non_select_def next_outcome_def pq_denied_def sql_wire_prepare_data_insert_def
      postgres_store_wire_transfer_out_def TALER_PQ_query_param_absolute_time_def TALER_PQ_query_param_amount_def amount_sample_simps
      sql_insert_wire_out_def)
  apply (simp add: commit_or_warn_def commit_wire_out_def wire_out_ref_def postgres_commit_def next_outcome_def end_transaction_def
      sample_gnunet_def)
  done

theorem aggregation_run_safe_witness:
  "\<exists>accounts' s'. run_aggregation sample_aggregator sample_inputs [sample_account] (sample_idle sample_deposit_db []) = Some ((Run_now, accounts'), s')
     \<and> idle s' \<and> pays_merchant sample_aggregator sample_inputs accounts' sample_deposit_db (s_committed s')"
proof -
  obtain accounts' s' where r: "run_aggregation sample_aggregator sample_inputs [sample_account] (sample_idle sample_deposit_db []) = Some ((Run_now, accounts'), s')"
    "map (\<lambda>r. (wo_wtid_raw r, wo_amount r)) (t_wire_out (s_committed s')) = [(8, (1, 90000000))]"
    using sample_run by auto
  then have "s_committed s' \<noteq> sample_deposit_db" "\<not> marks_tiny sample_deposit_db (s_committed s')"
    by (auto simp: marks_tiny_def sample_deposit_db_def sample_db_def)
  with aggregation_run_safe [OF sample_aggregator_ok(1,2), of "sample_idle sample_deposit_db []" sample_inputs] sample_aggregator_ok(3) r(1)
  show ?thesis by auto
qed

end
