(* ===== verification/Payout_Sequences.thy ===== *)
theory Payout_Sequences
  imports Payout_Safety Request_Sequences
begin

text \<open>
  The exchange and the aggregator together: requests of customers and merchants and runs of the aggregator, in any order and with
  failing statements, serialization failures and lost connections of the database, but without rows that the aggregator fails to extract. What merchants are paid stays covered by what is owed for their deposits: every deposit belongs to at most one
  transfer, no transfer exceeds the worth of its deposits, and no refund comes after a deposit was paid.
\<close>

section \<open>What is owed\<close>

definition owed :: "tables \<Rightarrow> deposits_row \<Rightarrow> int" where
  "owed db r = (\<Sum>d\<leftarrow>coin_denoms db (dp_coin_pub r). deposit_contribution db (r, d))"

definition deposit_owed :: "tables \<Rightarrow> u64 \<Rightarrow> int" where
  "deposit_owed db i = (\<Sum>r\<leftarrow>filter (\<lambda>r. dp_deposit_serial_id r = i) (t_deposits db). owed db r)"

text \<open>What is owed for the deposits of a transfer\<close>

definition transfer_owed :: "tables \<Rightarrow> nat \<Rightarrow> int" where
  "transfer_owed db w = (\<Sum>t\<leftarrow>filter (\<lambda>t. at_wtid_raw t = w) (t_aggregation_tracking db). deposit_owed db (at_deposit_serial_id t))"

definition serials_ok :: "tables \<Rightarrow> bool" where
  "serials_ok db \<longleftrightarrow> distinct (map dp_deposit_serial_id (t_deposits db))"

definition payouts_ok :: "tables \<Rightarrow> bool" where
  "payouts_ok db \<longleftrightarrow> distinct (map at_deposit_serial_id (t_aggregation_tracking db))
     \<and> distinct (map wo_wtid_raw (t_wire_out db)) \<and> wire_out_ref db
     \<and> (\<forall>t\<in>set (t_aggregation_tracking db). \<exists>r\<in>set (t_deposits db). dp_deposit_serial_id r = at_deposit_serial_id t \<and> dp_done r)
     \<and> (\<forall>w\<in>set (t_wire_out db). sqlamt (wo_amount w) \<le> transfer_owed db (wo_wtid_raw w))"

lemma owed_denoms:
  assumes "coin_tables_ok db" and "(r, d) \<in> set (deposit_denoms db)"
  shows "owed db r = deposit_contribution db (r, d)"
proof -
  have "d \<in> set (coin_denoms db (dp_coin_pub r))" using assms(2) by (auto simp: deposit_denoms_coin)
  then have "coin_denoms db (dp_coin_pub r) = [d]"
    by (cases rule: coin_denoms_cases [OF assms(1), of "dp_coin_pub r", case_names unknown known]) auto
  then show ?thesis by (simp add: owed_def)
qed

lemma filter_unique_key:
  assumes "distinct (map f xs)" and "x \<in> set xs"
  shows "filter (\<lambda>y. f y = f x) xs = [x]"
  using filter_key_unique [OF assms] .

lemma deposit_owed_row:
  assumes "serials_ok db" and "r \<in> set (t_deposits db)"
  shows "deposit_owed db (dp_deposit_serial_id r) = owed db r"
  using filter_unique_key [of dp_deposit_serial_id "t_deposits db" r] assms by (simp add: deposit_owed_def serials_ok_def)

section \<open>Requests\<close>

text \<open>Requests only add coins, deposits and refunds of deposits that are not paid yet.\<close>

definition grows :: "tables \<Rightarrow> tables \<Rightarrow> bool" where
  "grows db db' \<longleftrightarrow> t_denominations db' = t_denominations db \<and> t_aggregation_tracking db' = t_aggregation_tracking db
     \<and> t_wire_out db' = t_wire_out db \<and> t_wire_fee db' = t_wire_fee db
     \<and> (\<exists>ks. t_known_coins db' = t_known_coins db @ ks) \<and> (\<exists>ds. t_deposits db' = t_deposits db @ ds)
     \<and> (\<exists>rs. t_refunds db' = t_refunds db @ rs
          \<and> (\<forall>q\<in>set rs. \<exists>dep\<in>set (t_deposits db). \<not> dp_done dep \<and> deposit_key dep = refund_key q))"

lemma grows_refl [simp]: "grows db db"
  by (simp add: grows_def)

lemma grows_known: "made_known coin db db1 \<Longrightarrow> grows db db1 \<and> t_deposits db1 = t_deposits db \<and> t_refunds db1 = t_refunds db"
  by (auto simp: made_known_def known_effect_def grows_def)

lemma grows_known_then:
  assumes "made_known coin db db1" and "grows db1 db'"
  shows "grows db db'"
  using grows_known [OF assms(1)] assms(2) by (auto simp: grows_def)

lemma grows_handled:
  assumes "made_known coin db db1" and "db' = db1 \<or> grows db1 db'"
  shows "grows db db'"
  using assms(2) grows_known [OF assms(1)] grows_known_then [OF assms(1)] by blast

lemma deposit_grows: "deposit_stored teh d db db' \<Longrightarrow> grows db db'"
  by (auto simp: deposit_stored_def grows_def)

lemma melt_grows: "melt_stored teh d db0 db db' \<Longrightarrow> grows db db'"
  by (auto simp: melt_stored_def grows_def)

lemma withdraw_grows: "withdraw_stored teh req db db' \<Longrightarrow> grows db db'"
  by (auto simp: withdraw_stored_def withdraw_added_def reserve_set_def grows_def)

lemma refund_grows: "refund_stored teh d db db' \<Longrightarrow> grows db db'"
  by (auto simp: refund_stored_def refund_effect_def grows_def refund_key_def refund_key_of_def new_refund_def)

lemma recoup_grows:
  assumes "recoup_stored teh req db db'"
  shows "grows db db'"
proof -
  obtain target row where "db' = add_recoup_refresh row db \<or> (\<exists>e gc b. db' = reserve_set e gc b target (db\<lparr>t_recoup := t_recoup db @ [row]\<rparr>))"
    using recoup_storedE [OF assms] by metis
  then show ?thesis by (auto simp: grows_def reserve_set_def)
qed

lemma request_grows:
  assumes "request_answered teh req db reply s'"
  shows "grows db (s_committed s')"
proof (cases req)
  case (DEPOSIT_REQUEST d)
  with assms obtain db1 where "made_known (dep_coin d) db db1" "s_committed s' = db1 \<or> deposit_stored teh d db1 (s_committed s')"
    by (auto simp: deposit_answered_def deposit_executed_def)
  with grows_handled deposit_grows show ?thesis by blast
next
  case (MELT_REQUEST d random)
  with assms obtain db1 where "made_known (rf_coin d) db db1" "s_committed s' = db1 \<or> melt_stored teh d db db1 (s_committed s')"
    by (auto simp: melt_answered_def melt_executed_def)
  with grows_handled melt_grows show ?thesis by blast
next
  case (WITHDRAW_REQUEST req' uninit clock)
  with assms have "s_committed s' = db \<or> withdraw_stored teh req' db (s_committed s')" by (simp add: withdraw_answered_def)
  then show ?thesis using withdraw_grows by auto
next
  case (REFUND_REQUEST d uninit)
  with assms have "s_committed s' = db \<or> refund_stored teh d db (s_committed s')" by (simp add: refund_answered_def)
  then show ?thesis using refund_grows by auto
next
  case (RECOUP_REQUEST req' uninit)
  with assms obtain db1 where "made_known (rr_coin req') db db1" "s_committed s' = db1 \<or> recoup_stored teh req' db1 (s_committed s')"
    by (auto simp: recoup_answered_def recoup_executed_def)
  with grows_handled recoup_grows show ?thesis by blast
qed

lemma grows_coin_denoms:
  assumes "grows db db'" and "coin_tables_ok db'" and "coin_known db p"
  shows "coin_denoms db' p = coin_denoms db p"
proof -
  obtain ks where ks: "t_known_coins db' = t_known_coins db @ ks" "t_denominations db' = t_denominations db"
    using assms(1) by (auto simp: grows_def)
  moreover have "\<forall>k\<in>set ks. kc_coin_pub k \<noteq> p"
    using assms(2,3) ks(1) by (auto simp: coin_tables_ok_def reserve_tables_ok_def coin_known_def)
  then have "concat (map (\<lambda>k. if kc_coin_pub k = p then xs k else []) ks) = []" for xs :: "known_coins_row \<Rightarrow> denominations_row list"
    by simp
  ultimately show ?thesis by (simp add: coin_denoms_def cong: if_cong)
qed

text \<open>What is owed for a paid deposit stays.\<close>

lemma grows_owed:
  assumes "grows db db'" and "coin_tables_ok db" and "coin_tables_ok db'" and r: "r \<in> set (t_deposits db)" "dp_done r"
  shows "owed db' r = owed db r"
proof -
  obtain rs where rs: "t_refunds db' = t_refunds db @ rs" "\<forall>q\<in>set rs. \<exists>dep\<in>set (t_deposits db). \<not> dp_done dep \<and> deposit_key dep = refund_key q"
    using assms(1) by (auto simp: grows_def)
  have inj: "inj_on deposit_key (set (t_deposits db))" using assms(2) by (simp add: coin_tables_ok_def distinct_map)
  have "refund_key q \<noteq> deposit_key r" if "q \<in> set rs" for q
    using rs(2) that inj_onD [OF inj _ r(1)] r(2) by metis
  then have "sql_get_refunds_by_coin_and_contract (dp_coin_pub r) (dp_merchant_pub r) (dp_h_contract_terms r) db'
      = sql_get_refunds_by_coin_and_contract (dp_coin_pub r) (dp_merchant_pub r) (dp_h_contract_terms r) db"
    by (auto simp: sql_get_refunds_by_coin_and_contract_def rs(1) filter_empty_conv refund_key_def deposit_key_def)
  moreover have "coin_denoms db' (dp_coin_pub r) = coin_denoms db (dp_coin_pub r)"
    by (rule grows_coin_denoms [OF assms(1,3)]) (use assms(2) r(1) in \<open>simp add: coin_tables_ok_def\<close>)
  ultimately show ?thesis by (simp add: owed_def)
qed

lemma grows_transfer_owed:
  assumes g: "grows db db'" and ok: "coin_tables_ok db" "coin_tables_ok db'" and ser: "serials_ok db'"
    and t: "\<forall>t\<in>set (t_aggregation_tracking db). \<exists>r\<in>set (t_deposits db). dp_deposit_serial_id r = at_deposit_serial_id t \<and> dp_done r"
  shows "transfer_owed db' w = transfer_owed db w"
proof -
  obtain ds where ds: "t_deposits db' = t_deposits db @ ds" using g by (auto simp: grows_def)
  then have ser': "serials_ok db" using ser by (simp add: serials_ok_def)
  have same: "t_aggregation_tracking db' = t_aggregation_tracking db" using g by (simp add: grows_def)
  have "deposit_owed db' (at_deposit_serial_id t) = deposit_owed db (at_deposit_serial_id t)" if "t \<in> set (t_aggregation_tracking db)" for t
  proof -
    obtain r where r: "r \<in> set (t_deposits db)" "dp_deposit_serial_id r = at_deposit_serial_id t" "dp_done r"
      using t \<open>t \<in> _\<close> by blast
    with deposit_owed_row [OF ser, of r] deposit_owed_row [OF ser' r(1)] grows_owed [OF g ok r(1,3)] show ?thesis by (simp add: ds)
  qed
  then show ?thesis unfolding transfer_owed_def same by (intro arg_cong [where f = sum_list] map_cong) auto
qed

lemma grows_payouts_ok:
  assumes g: "grows db db'" and ok: "coin_tables_ok db" "coin_tables_ok db'" and ser: "serials_ok db'" and p: "payouts_ok db"
  shows "payouts_ok db'"
proof -
  obtain ds where ds: "t_deposits db' = t_deposits db @ ds" using g by (auto simp: grows_def)
  have same: "t_aggregation_tracking db' = t_aggregation_tracking db" "t_wire_out db' = t_wire_out db" using g by (simp_all add: grows_def)
  note t = grows_transfer_owed [OF g ok ser] 
  show ?thesis using p t unfolding payouts_ok_def wire_out_ref_def same ds by auto
qed

section \<open>Runs of the aggregator\<close>

text \<open>Only the marks of deposits, and the tables of transfers and fees change.\<close>

definition relabels :: "(deposits_row \<Rightarrow> deposits_row) \<Rightarrow> bool" where
  "relabels f \<longleftrightarrow> (\<forall>r. \<exists>t d. f r = r\<lparr>dp_tiny := t, dp_done := d\<rparr>)"

definition settles :: "(deposits_row \<Rightarrow> deposits_row) \<Rightarrow> tables \<Rightarrow> tables \<Rightarrow> bool" where
  "settles f db db' \<longleftrightarrow> relabels f \<and> (\<exists>trs wos pws fees. db' = db\<lparr>t_deposits := map f (t_deposits db),
     t_aggregation_tracking := trs, t_wire_out := wos, t_prewire := pws, t_wire_fee := fees\<rparr>)"

lemma relabels_sels:
  assumes "relabels f"
  shows "dp_deposit_serial_id (f r) = dp_deposit_serial_id r" "dp_coin_pub (f r) = dp_coin_pub r" "dp_wire (f r) = dp_wire r"
    "dp_amount_with_fee (f r) = dp_amount_with_fee r" "dp_merchant_pub (f r) = dp_merchant_pub r"
    "dp_h_contract_terms (f r) = dp_h_contract_terms r" "deposit_key (f r) = deposit_key r"
proof -
  obtain t d where "f r = r\<lparr>dp_tiny := t, dp_done := d\<rparr>" using assms unfolding relabels_def by blast
  then show "dp_deposit_serial_id (f r) = dp_deposit_serial_id r" "dp_coin_pub (f r) = dp_coin_pub r" "dp_wire (f r) = dp_wire r"
    "dp_amount_with_fee (f r) = dp_amount_with_fee r" "dp_merchant_pub (f r) = dp_merchant_pub r"
    "dp_h_contract_terms (f r) = dp_h_contract_terms r" "deposit_key (f r) = deposit_key r"
    by (simp_all add: deposit_key_def)
qed

lemma settles_owed:
  assumes "settles f db db'"
  shows "owed db' (f r) = owed db r" and "deposit_owed db' i = deposit_owed db i"
proof -
  have f: "relabels f" using assms by (simp add: settles_def)
  have c: "coin_denoms db' p = coin_denoms db p" "t_refunds db' = t_refunds db" "t_deposits db' = map f (t_deposits db)" for p
    using assms by (auto simp: settles_def coin_denoms_def cong: if_cong)
  show o: "owed db' (f r) = owed db r" for r
    by (simp add: owed_def c relabels_sels [OF f] sql_get_refunds_by_coin_and_contract_def Let_def cong: if_cong)
  show "deposit_owed db' i = deposit_owed db i"
    by (simp add: deposit_owed_def c filter_map comp_def relabels_sels [OF f] o)
qed

lemma settles_ok:
  assumes "settles f db db'" and "db_ok db"
  shows "db_ok db'"
proof -
  have f: "relabels f" using assms(1) by (simp add: settles_def)
  have key: "deposit_key \<circ> f = deposit_key" "(\<lambda>x. deposit_key (f x)) = deposit_key" by (auto simp: relabels_sels [OF f])
  obtain trs wos pws fees where db': "db' = db\<lparr>t_deposits := map f (t_deposits db),
     t_aggregation_tracking := trs, t_wire_out := wos, t_prewire := pws, t_wire_fee := fees\<rparr>"
    using assms(1) by (auto simp: settles_def)
  have "reserves_ok db'" using assms(2) by (simp add: db_ok_def db' reserves_ok_def reserve_total_defs reserve_known_def)
  moreover have "reserve_tables_ok db'"
    using assms(2) by (simp add: db_ok_def db' coin_tables_ok_def reserve_tables_ok_def denom_known_def coin_known_def)
  then have "coin_tables_ok db'"
    using assms(2) unfolding db_ok_def coin_tables_ok_def
    by (simp add: db' denom_known_def coin_known_def key image_image relabels_sels [OF f])
  ultimately show ?thesis by (simp add: db_ok_def)
qed

lemma settles_serials: "settles f db db' \<Longrightarrow> serials_ok db \<Longrightarrow> serials_ok db'"
  by (auto simp: settles_def serials_ok_def relabels_sels comp_def)

lemma tiny_settles:
  assumes "marks_tiny db db'"
  obtains f where "settles f db db'" "\<forall>r. dp_done (f r) = dp_done r" "t_aggregation_tracking db' = t_aggregation_tracking db"
    "t_wire_out db' = t_wire_out db" "t_wire_fee db' = t_wire_fee db"
proof -
  obtain ids where db': "db' = db\<lparr>t_deposits := mark_tiny ids (t_deposits db)\<rparr>" using assms by (auto simp: marks_tiny_def)
  let ?f = "\<lambda>r. if dp_deposit_serial_id r \<in> ids then r\<lparr>dp_tiny := True\<rparr> else r"
  have "\<exists>t d. ?f r = r\<lparr>dp_tiny := t, dp_done := d\<rparr>" for r
    by (intro exI [of _ "dp_tiny (?f r)"] exI [of _ "dp_done r"]) simp
  then have "relabels ?f" unfolding relabels_def by blast
  moreover have "\<exists>trs wos pws fees. db' = db\<lparr>t_deposits := map ?f (t_deposits db),
     t_aggregation_tracking := trs, t_wire_out := wos, t_prewire := pws, t_wire_fee := fees\<rparr>"
    by (intro exI [of _ "t_aggregation_tracking db"] exI [of _ "t_wire_out db"] exI [of _ "t_prewire db"] exI [of _ "t_wire_fee db"])
      (simp add: db' mark_tiny_def)
  ultimately have "settles ?f db db'" by (simp add: settles_def)
  then show ?thesis by (rule that) (simp_all add: db')
qed

lemma aggregated_settles:
  assumes "db' = (aggregated_db ids trs fees db)\<lparr>t_prewire := pws, t_wire_out := wos\<rparr>"
  shows "settles (\<lambda>r. if dp_deposit_serial_id r \<in> set ids then r\<lparr>dp_done := True\<rparr> else r) db db'"
proof -
  let ?f = "\<lambda>r. if dp_deposit_serial_id r \<in> set ids then r\<lparr>dp_done := True\<rparr> else r"
  have "\<exists>t d. ?f r = r\<lparr>dp_tiny := t, dp_done := d\<rparr>" for r
    by (intro exI [of _ "dp_tiny r"] exI [of _ "dp_done (?f r)"]) simp
  then have "relabels ?f" unfolding relabels_def by blast
  moreover have "\<exists>trs wos pws fees. db' = db\<lparr>t_deposits := map ?f (t_deposits db),
     t_aggregation_tracking := trs, t_wire_out := wos, t_prewire := pws, t_wire_fee := fees\<rparr>"
    by (intro exI [of _ "t_aggregation_tracking db @ trs"] exI [of _ wos] exI [of _ pws] exI [of _ "t_wire_fee db @ fees"])
      (simp add: assms aggregated_db_def mark_done_def)
  ultimately show ?thesis by (simp add: settles_def)
qed

lemma tiny_payouts_ok:
  assumes "marks_tiny db db'" and "payouts_ok db"
  shows "payouts_ok db'"
proof -
  obtain f where f: "settles f db db'" "\<forall>r. dp_done (f r) = dp_done r" "t_aggregation_tracking db' = t_aggregation_tracking db"
    "t_wire_out db' = t_wire_out db"
    using tiny_settles [OF assms(1)] by metis
  have t: "transfer_owed db' w = transfer_owed db w" for w
    by (simp add: transfer_owed_def f(3) settles_owed(2) [OF f(1)])
  have d: "t_deposits db' = map f (t_deposits db)" "relabels f" using f(1) by (auto simp: settles_def)
  show ?thesis
    using assms(2) f(2) unfolding payouts_ok_def wire_out_ref_def f(3,4) t d(1)
    by (simp add: relabels_sels [OF d(2)])
qed

text \<open>The deposits of a new transfer were not tracked before.\<close>

lemma rows_not_tracked:
  assumes "rows_ok db merchant rows" and "coin_tables_ok db" and "serials_ok db" and "payouts_ok db"
    and "t \<in> set (t_aggregation_tracking db)"
  shows "at_deposit_serial_id t \<notin> set (row_ids rows)"
proof
  assume "at_deposit_serial_id t \<in> set (row_ids rows)"
  then obtain x where x: "x \<in> set rows" "dp_deposit_serial_id (fst x) = at_deposit_serial_id t" by auto
  then have "x \<in> set (deposit_denoms db)" "\<not> dp_done (fst x)" using assms(1) by (auto simp: rows_ok_def)
  then have "fst x \<in> set (t_deposits db)" using deposits_of_denoms [OF assms(2)] by (metis imageI set_map)
  moreover obtain r where "r \<in> set (t_deposits db)" "dp_deposit_serial_id r = at_deposit_serial_id t" "dp_done r"
    using assms(4,5) unfolding payouts_ok_def by blast
  moreover have "inj_on dp_deposit_serial_id (set (t_deposits db))" using assms(3) by (simp add: serials_ok_def distinct_map)
  ultimately show False using x(2) \<open>\<not> dp_done (fst x)\<close> by (metis inj_onD)
qed

lemma rows_owed:
  assumes "rows_ok db merchant rows" and "coin_tables_ok db" and "serials_ok db"
  shows "(\<Sum>i\<leftarrow>row_ids rows. deposit_owed db i) = (\<Sum>x\<leftarrow>rows. deposit_contribution db x)"
proof -
  have "deposit_owed db (dp_deposit_serial_id (fst x)) = deposit_contribution db x" if "x \<in> set rows" for x
  proof -
    obtain r d where x: "x = (r, d)" by (cases x)
    with assms(1) that have m: "(r, d) \<in> set (deposit_denoms db)" by (auto simp: rows_ok_def)
    from deposit_owed_row [OF assms(3) deposit_denoms_normal(3) [OF assms(2) m]] owed_denoms [OF assms(2) m] show ?thesis
      by (simp add: x)
  qed
  then have "map (\<lambda>x. deposit_owed db (dp_deposit_serial_id (fst x))) rows = map (deposit_contribution db) rows" by simp
  then show ?thesis unfolding map_map comp_def by (rule arg_cong)
qed

lemma pays_merchantE:
  assumes "pays_merchant ag inp accs db db'"
  obtains merchant rows net trs fees pw wo and af :: TALER_EXCHANGEDB_AggregateFees where "rows_ok db merchant rows"
    "amt net = (\<Sum>x\<leftarrow>rows. deposit_contribution db x) - amt (af_wire_fee af)" "sqlamt (wo_amount wo) \<le> amt net"
    "wo_wtid_raw wo = in_wtid inp" "in_wtid inp \<notin> wo_wtid_raw ` set (t_wire_out db)"
    "map at_deposit_serial_id trs = row_ids rows" "\<forall>t\<in>set trs. at_wtid_raw t = in_wtid inp" "fee_rows_ok fees"
    "db' = (aggregated_db (row_ids rows) trs fees db)\<lparr>t_prewire := t_prewire db @ [pw], t_wire_out := t_wire_out db @ [wo]\<rparr>"
  using assms unfolding pays_merchant_def Let_def
proof (elim exE conjE, goal_cases)
  case (1 merchant rows h url wa af net trs fees pw wo)
  show ?case by (rule that [of merchant rows net af wo trs fees pw]) (use 1 in \<open>(assumption | simp only:)+\<close>)
qed

lemma pays_payouts_ok:
  assumes "pays_merchant ag inp accs db db'" and c: "coin_tables_ok db" "serials_ok db" and p: "payouts_ok db"
  shows "payouts_ok db'"
proof -
  from assms(1) obtain merchant rows net trs fees pw wo and af :: TALER_EXCHANGEDB_AggregateFees where r: "rows_ok db merchant rows"
    "amt net = (\<Sum>x\<leftarrow>rows. deposit_contribution db x) - amt (af_wire_fee af)" "sqlamt (wo_amount wo) \<le> amt net"
    "wo_wtid_raw wo = in_wtid inp" "in_wtid inp \<notin> wo_wtid_raw ` set (t_wire_out db)"
    "map at_deposit_serial_id trs = row_ids rows" "\<forall>t\<in>set trs. at_wtid_raw t = in_wtid inp"
    "db' = (aggregated_db (row_ids rows) trs fees db)\<lparr>t_prewire := t_prewire db @ [pw], t_wire_out := t_wire_out db @ [wo]\<rparr>"
    by (elim pays_merchantE) (rule that)
  let ?f = "\<lambda>r. if dp_deposit_serial_id r \<in> set (row_ids rows) then r\<lparr>dp_done := True\<rparr> else r"
  have f: "settles ?f db db'" by (rule aggregated_settles [OF r(8)])
  have tabs: "t_aggregation_tracking db' = t_aggregation_tracking db @ trs" "t_wire_out db' = t_wire_out db @ [wo]"
    "t_deposits db' = map ?f (t_deposits db)"
    by (simp_all add: r(8) aggregated_db_def mark_done_def)
  have mem: "?f q \<in> set (t_deposits db')" if "q \<in> set (t_deposits db)" for q
    unfolding tabs(3) by (subst set_map) (rule imageI [OF that])
  note p' = p [unfolded payouts_ok_def]
  note new = rows_not_tracked [OF r(1) c p]
  have old: "at_wtid_raw t \<noteq> in_wtid inp" if "t \<in> set (t_aggregation_tracking db)" for t
    using p' r(5) that unfolding wire_out_ref_def by metis
  have owed: "transfer_owed db' w = transfer_owed db w + (if w = in_wtid inp then \<Sum>t\<leftarrow>trs. deposit_owed db (at_deposit_serial_id t) else 0)" for w
    using r(7) by (simp add: transfer_owed_def tabs settles_owed(2) [OF f])
  have "(\<Sum>t\<leftarrow>trs. deposit_owed db (at_deposit_serial_id t)) = (\<Sum>i\<leftarrow>map at_deposit_serial_id trs. deposit_owed db i)" by (simp add: comp_def)
  also have "\<dots> = (\<Sum>x\<leftarrow>rows. deposit_contribution db x)" unfolding r(6) by (rule rows_owed [OF r(1) c])
  finally have sum: "(\<Sum>t\<leftarrow>trs. deposit_owed db (at_deposit_serial_id t)) = (\<Sum>x\<leftarrow>rows. deposit_contribution db x)" .
  have none: "transfer_owed db (in_wtid inp) = 0" using old by (simp add: transfer_owed_def filter_False)
  have ids: "set (map at_deposit_serial_id trs) = set (row_ids rows)" using r(6) by (rule arg_cong)
  show ?thesis
    unfolding payouts_ok_def
  proof (intro conjI ballI)
    have "distinct (map at_deposit_serial_id trs)" using r(1) unfolding r(6) by (simp add: rows_ok_def)
    moreover have "set (map at_deposit_serial_id (t_aggregation_tracking db)) \<inter> set (map at_deposit_serial_id trs) = {}"
      unfolding ids using new by auto
    ultimately show "distinct (map at_deposit_serial_id (t_aggregation_tracking db'))"
      using p' unfolding tabs map_append distinct_append by blast
    show "distinct (map wo_wtid_raw (t_wire_out db'))" using p' r(4,5) by (simp add: tabs)
    show "wire_out_ref db'" using p' r(4,7) by (auto simp: wire_out_ref_def tabs)
  next
    fix t
    assume "t \<in> set (t_aggregation_tracking db')"
    then consider "t \<in> set (t_aggregation_tracking db)" | "at_deposit_serial_id t \<in> set (row_ids rows)"
      unfolding tabs set_append using ids by auto
    then show "\<exists>r\<in>set (t_deposits db'). dp_deposit_serial_id r = at_deposit_serial_id t \<and> dp_done r"
    proof cases
      case 1
      then obtain q where "q \<in> set (t_deposits db)" "dp_deposit_serial_id q = at_deposit_serial_id t" "dp_done q" using p' by blast
      then show ?thesis by (intro bexI [OF _ mem [of q]]) simp_all
    next
      case 2
      then obtain x where x: "x \<in> set rows" "dp_deposit_serial_id (fst x) = at_deposit_serial_id t" by auto
      then have "fst x \<in> set (t_deposits db)" using r(1) deposits_of_denoms [OF c(1)] unfolding rows_ok_def by (metis image_eqI set_map subsetD)
      from mem [OF this] show ?thesis using 2 x(2) by (intro bexI [of _ "?f (fst x)"]) simp_all
    qed
  next
    fix w
    assume "w \<in> set (t_wire_out db')"
    then consider "w \<in> set (t_wire_out db)" | "w = wo" by (auto simp: tabs)
    then show "sqlamt (wo_amount w) \<le> transfer_owed db' (wo_wtid_raw w)"
    proof cases
      case 1
      then have "wo_wtid_raw w \<noteq> in_wtid inp" using r(5) by (metis imageI)
      with 1 p' show ?thesis unfolding owed by simp
    next
      case 2
      moreover have "sqlamt (wo_amount wo) \<le> (\<Sum>x\<leftarrow>rows. deposit_contribution db x)"
        using r(2,3) amt_nonneg [of "af_wire_fee af"] by linarith
      ultimately show ?thesis unfolding owed sum by (simp add: r(4) none)
    qed
  qed
qed

section \<open>Sequences\<close>

text \<open>A step is a request, other errors of the database, or a run of the aggregator. That the serial numbers of the deposits are distinct is
  what \<^verbatim>\<open>BIGSERIAL PRIMARY KEY\<close> provides; the wire details of the deposits can be hashed, as the exchange has hashed
  them when it accepted the deposits. In a run of the aggregator no row may fail to be extracted from the result of a query.\<close>

definition wires_hash :: "aggregator \<Rightarrow> tables \<Rightarrow> bool" where
  "wires_hash ag db \<longleftrightarrow> (\<forall>r\<in>set (t_deposits db).
     TALER_JSON_merchant_wire_signature_hash (ag_crypto ag) (ag_json_string ag) (dp_wire r) \<noteq> None)"

definition extracts_rows :: "tables session \<Rightarrow> bool" where
  "extracts_rows s \<longleftrightarrow> PQ_EXTRACT_FAIL \<notin> set (s_outcomes s)"

inductive payout_step :: "tables session \<Rightarrow> tables session \<Rightarrow> bool" where
  exchange: "exchange_step s s' \<Longrightarrow> serials_ok (s_committed s') \<Longrightarrow> payout_step s s'"
| aggregate: "aggregator_ok ag \<Longrightarrow> accounts_ok ag accounts \<Longrightarrow> wires_hash ag (s_committed s) \<Longrightarrow> extracts_rows s \<Longrightarrow>
     run_aggregation ag inp accounts s = Some (result, s') \<Longrightarrow> payout_step s s'"

definition payout_state :: "tables session \<Rightarrow> bool" where
  "payout_state s \<longleftrightarrow> idle s \<and> db_ok (s_committed s) \<and> serials_ok (s_committed s) \<and> fee_rows_ok (t_wire_fee (s_committed s))
     \<and> payouts_ok (s_committed s)"

lemma exchange_payout_state:
  assumes "exchange_step s s'" and "serials_ok (s_committed s')" and "payout_state s"
  shows "payout_state s'"
  using assms
proof (induction rule: exchange_step.induct)
  case (request teh req s reply s')
  then have s: "idle s" "db_ok (s_committed s)" "payouts_ok (s_committed s)" "fee_rows_ok (t_wire_fee (s_committed s))"
    by (simp_all add: payout_state_def)
  from wpaD [OF handle_request_wpa [OF request(1,2) s(1,2)] request(3)]
  have ans: "request_answered teh req (s_committed s) reply s'" .
  note ok = request_answered_ok [OF ans] and g = request_grows [OF ans]
  have "payouts_ok (s_committed s')"
    by (rule grows_payouts_ok [OF g _ _ request(4) s(3)]) (use s(2) ok in \<open>simp_all add: db_ok_def\<close>)
  moreover have "t_wire_fee (s_committed s') = t_wire_fee (s_committed s)" using g by (simp add: grows_def)
  ultimately show ?case using ok s(4) request(4) by (simp add: payout_state_def)
next
  case (aborted teh req s s')
  then have s: "db_ok (s_committed s)" "payouts_ok (s_committed s)" "fee_rows_ok (t_wire_fee (s_committed s))"
    by (simp_all add: payout_state_def)
  have g: "grows (s_committed s) (s_committed s')"
    using aborted(4) grows_known [OF made_known_effect] by (auto simp: left_by_abort_def)
  have ok: "db_ok (s_committed s')" by (rule left_by_abort_ok [OF aborted(4) s(1)])
  have "payouts_ok (s_committed s')"
    by (rule grows_payouts_ok [OF g _ _ aborted(5) s(2)]) (use s(1) ok in \<open>simp_all add: db_ok_def\<close>)
  moreover have "t_wire_fee (s_committed s') = t_wire_fee (s_committed s)" using g by (simp add: grows_def)
  ultimately show ?case using aborted(3,5) ok s(3) by (simp add: payout_state_def)
qed (simp add: payout_state_def idle_def)

lemma pays_state:
  assumes "pays_merchant ag inp accs db db'"
  shows "\<exists>f fees. settles f db db' \<and> t_wire_fee db' = t_wire_fee db @ fees \<and> fee_rows_ok fees"
proof -
  obtain ids trs fees pws wos where db': "db' = (aggregated_db ids trs fees db)\<lparr>t_prewire := pws, t_wire_out := wos\<rparr>" "fee_rows_ok fees"
    using assms by (elim pays_merchantE) (rule that)
  from aggregated_settles [OF db'(1)] db'(2) show ?thesis
    by (intro exI [of _ "\<lambda>r. if dp_deposit_serial_id r \<in> set ids then r\<lparr>dp_done := True\<rparr> else r"] exI [of _ fees])
      (simp add: db'(1) aggregated_db_def)
qed

lemma aggregate_payout_state:
  assumes "aggregator_ok ag" and "accounts_ok ag accounts" and "wires_hash ag (s_committed s)" and ex: "extracts_rows s"
    and run: "run_aggregation ag inp accounts s = Some (result, s')" and st: "payout_state s"
  shows "payout_state s'"
proof -
  let ?db = "s_committed s" and ?db' = "s_committed s'"
  note s = st [unfolded payout_state_def]
  then have c: "coin_tables_ok ?db" "serials_ok ?db" by (simp_all add: db_ok_def)
  have "payable ag ?db" using s assms(3) by (simp add: payable_def serials_ok_def wires_hash_def)
  from wpD [OF run_aggregation_wp [OF assms(1,2) this _ ex [unfolded extracts_rows_def]] run] s
  obtain accs where "idle s'" "?db' = ?db \<or> marks_tiny ?db ?db' \<or> pays_merchant ag inp accs ?db ?db'"
    by (cases result) (auto simp: aggregation_ended_def)
  then consider "?db' = ?db" | "marks_tiny ?db ?db'" | "pays_merchant ag inp accs ?db ?db'" by blast
  then have "db_ok ?db' \<and> serials_ok ?db' \<and> fee_rows_ok (t_wire_fee ?db') \<and> payouts_ok ?db'"
  proof cases
    case 2
    then obtain f where "settles f ?db ?db'" "t_wire_fee ?db' = t_wire_fee ?db" by (rule tiny_settles)
    with settles_ok settles_serials s tiny_payouts_ok [OF 2] show ?thesis by metis
  next
    case 3
    from pays_state [OF 3] obtain f fees where f: "settles f ?db ?db'" "t_wire_fee ?db' = t_wire_fee ?db @ fees" "fee_rows_ok fees" by blast
    have "payouts_ok ?db'" by (rule pays_payouts_ok [OF 3 c]) (use s in simp)
    moreover have "fee_rows_ok (t_wire_fee ?db')" using s f(2,3) by (auto simp: fee_rows_ok_def)
    ultimately show ?thesis using settles_ok [OF f(1)] settles_serials [OF f(1)] s by blast
  qed (use s in simp)
  with \<open>idle s'\<close> show ?thesis by (simp add: payout_state_def)
qed

lemma payout_steps_state:
  assumes "payout_step\<^sup>*\<^sup>* s s'" and "payout_state s"
  shows "payout_state s'"
  using assms
proof (induction rule: rtranclp_induct)
  case (step s1 s2)
  from step(2) step(3) [OF step(4)] show ?case
    by (cases rule: payout_step.cases) (auto intro: exchange_payout_state aggregate_payout_state)
qed simp

section \<open>Totals\<close>

lemma sum_list_select:
  assumes "distinct ws" and "a \<in> set ws"
  shows "(\<Sum>w\<leftarrow>ws. if a = w then c else 0) = (c :: int)"
  using assms by (simp add: sum_list_distinct_conv_sum_set)

lemma sum_list_grouped:
  assumes "distinct ws" and "\<forall>t\<in>set ts. f t \<in> set ws"
  shows "(\<Sum>w\<leftarrow>ws. \<Sum>t\<leftarrow>filter (\<lambda>t. f t = w) ts. x t) = (\<Sum>t\<leftarrow>ts. x t :: int)"
  using assms(2)
proof (induction ts)
  case (Cons t ts)
  have "(\<Sum>w\<leftarrow>ws. \<Sum>u\<leftarrow>filter (\<lambda>t. f t = w) (t # ts). x u)
      = (\<Sum>w\<leftarrow>ws. (if f t = w then x t else 0) + (\<Sum>u\<leftarrow>filter (\<lambda>t. f t = w) ts. x u))"
    by (intro arg_cong [where f = sum_list] map_cong) auto
  with Cons sum_list_select [OF assms(1), of "f t" "x t"] show ?case by (simp add: sum_list_addf)
qed simp

text \<open>What was paid in all, and what is owed for the tracked deposits\<close>

definition total_paid :: "tables \<Rightarrow> int" where
  "total_paid db = (\<Sum>w\<leftarrow>t_wire_out db. sqlamt (wo_amount w))"

definition tracked_owed :: "tables \<Rightarrow> int" where
  "tracked_owed db = (\<Sum>r\<leftarrow>filter (\<lambda>r. dp_deposit_serial_id r \<in> at_deposit_serial_id ` set (t_aggregation_tracking db)) (t_deposits db). owed db r)"

lemma tracked_owed_sum:
  assumes "serials_ok db" and "payouts_ok db"
  shows "(\<Sum>t\<leftarrow>t_aggregation_tracking db. deposit_owed db (at_deposit_serial_id t)) = tracked_owed db"
proof -
  let ?ids = "at_deposit_serial_id ` set (t_aggregation_tracking db)"
  let ?rows = "filter (\<lambda>r. dp_deposit_serial_id r \<in> ?ids) (t_deposits db)"
  note p = assms(2) [unfolded payouts_ok_def]
  have d: "distinct (map dp_deposit_serial_id ?rows)" using assms(1) by (auto simp: serials_ok_def intro: distinct_map_filter)
  have "set (map dp_deposit_serial_id ?rows) = ?ids" using p by (fastforce simp: image_iff)
  moreover have "(\<Sum>t\<leftarrow>t_aggregation_tracking db. deposit_owed db (at_deposit_serial_id t))
      = (\<Sum>i\<leftarrow>map at_deposit_serial_id (t_aggregation_tracking db). deposit_owed db i)" by (simp add: comp_def)
  ultimately have "(\<Sum>t\<leftarrow>t_aggregation_tracking db. deposit_owed db (at_deposit_serial_id t))
      = (\<Sum>i\<leftarrow>map dp_deposit_serial_id ?rows. deposit_owed db i)"
    using p d by (simp only: sum_list_distinct_conv_sum_set set_map)
  also have "\<dots> = (\<Sum>r\<leftarrow>?rows. owed db r)"
    unfolding map_map comp_def
    by (intro arg_cong [where f = sum_list] map_cong) (auto simp: deposit_owed_row [OF assms(1)])
  finally show ?thesis by (simp add: tracked_owed_def)
qed

lemma total_paid_le:
  assumes "serials_ok db" and "payouts_ok db"
  shows "total_paid db \<le> tracked_owed db"
proof -
  note p = assms(2) [unfolded payouts_ok_def]
  have "total_paid db \<le> (\<Sum>w\<leftarrow>t_wire_out db. transfer_owed db (wo_wtid_raw w))"
    unfolding total_paid_def by (rule sum_list_mono) (use p in blast)
  also have "\<dots> = (\<Sum>w\<leftarrow>map wo_wtid_raw (t_wire_out db). transfer_owed db w)" by (simp add: comp_def)
  also have "\<dots> = (\<Sum>t\<leftarrow>t_aggregation_tracking db. deposit_owed db (at_deposit_serial_id t))"
    unfolding transfer_owed_def by (rule sum_list_grouped) (use p in \<open>auto simp: wire_out_ref_def\<close>)
  finally show ?thesis by (simp add: tracked_owed_sum [OF assms])
qed

section \<open>Properties\<close>

text \<open>C2. Through every sequence of requests, runs of the aggregator and errors of the database, as long as the aggregator can extract the rows of its
  queries, merchants are never paid more than they are
  owed: a deposit belongs to at most one wire transfer and was marked as done with it, no transfer exceeds what is owed for its
  deposits after fees and refunds, and so the transfers together do not either. All outcomes of statements are allowed for the requests; for the
  aggregator serialization failures, hard errors and lost connections are, but not a row that cannot be extracted: the iteration over the
  matching deposits ignores such an error of its callback, and the theorem \<open>extraction_failure_overpays\<close> below shows a transfer that is too
  large then. The serial numbers of deposits are distinct, and the wire details of deposits can be hashed.\<close>

theorem merchants_never_overpaid:
  assumes "payout_step\<^sup>*\<^sup>* s s'" and "idle s" and "db_ok (s_committed s)" and "serials_ok (s_committed s)"
    and "fee_rows_ok (t_wire_fee (s_committed s))" and "payouts_ok (s_committed s)"
  shows "payouts_ok (s_committed s') \<and> total_paid (s_committed s') \<le> tracked_owed (s_committed s')"
  using payout_steps_state [OF assms(1)] total_paid_le assms(2-) by (auto simp: payout_state_def)

text \<open>Why rows that cannot be extracted are excluded. Two deposits of one coin for one merchant: one of 2, of which 1 is the deposit
  fee, and one of 3 that was refunded in full. If the row of the refund cannot be extracted, the callback for the second deposit fails, after it has put the
  amount of the deposit in place of the total; the iteration over the matching deposits does not pass on the failure, and the
  aggregator commits a transfer of 2.90 (3 less the wire fee), which covers only the first deposit, for which 1 is owed.\<close>

definition sample_two_deposits :: tables where
  "sample_two_deposits = sample_db\<lparr>t_denominations := [\<lparr>dn_denom_pub_hash = 7, dn_denom_pub = 7, dn_expire_withdraw = 500,
        dn_expire_deposit = 600, dn_expire_legal = 700, dn_coin = (5, 0), dn_fee_withdraw = (1, 0), dn_fee_deposit = (1, 0),
        dn_fee_refresh = (1, 0), dn_fee_refund = (0, 0)\<rparr>],
     t_deposits := [\<lparr>dp_deposit_serial_id = 3, dp_coin_pub = 20,
      dp_amount_with_fee = (2, 0), dp_timestamp = 130, dp_refund_deadline = 140, dp_wire_deadline = 150,
      dp_merchant_pub = 50, dp_h_contract_terms = 51, dp_h_wire = 52, dp_coin_sig = 20, dp_wire = ''payto'',
      dp_tiny = False, dp_done = False\<rparr>, \<lparr>dp_deposit_serial_id = 4, dp_coin_pub = 20,
      dp_amount_with_fee = (3, 0), dp_timestamp = 130, dp_refund_deadline = 140, dp_wire_deadline = 150,
      dp_merchant_pub = 50, dp_h_contract_terms = 53, dp_h_wire = 52, dp_coin_sig = 20, dp_wire = ''payto'',
      dp_tiny = False, dp_done = False\<rparr>],
     t_refunds := [\<lparr>rd_refund_serial_id = 5, rd_coin_pub = 20, rd_merchant_pub = 50, rd_merchant_sig = 0,
        rd_h_contract_terms = 53, rd_rtransaction_id = 1, rd_amount_with_fee = (3, 0)\<rparr>]\<rparr>"

lemma sample_two_deposits_ok: "db_ok sample_two_deposits" "serials_ok sample_two_deposits" "payouts_ok sample_two_deposits"
proof -
  show "db_ok sample_two_deposits"
    by (simp add: db_ok_def coin_tables_ok_def reserves_ok_def reserve_tables_ok_def sample_two_deposits_def sample_db_def deposit_key_def refund_key_def
        reserve_total_defs sql_normal_def sqlamt_def AMT_LIMIT_def reserve_known_def denom_known_def coin_known_def)
  show "serials_ok sample_two_deposits" by (simp add: serials_ok_def sample_two_deposits_def)
  show "payouts_ok sample_two_deposits" by (simp add: payouts_ok_def wire_out_ref_def sample_two_deposits_def sample_db_def)
qed

lemma sample_two_amounts:
  "TALER_PQ_result_spec_amount ''EUR'' (2, 0) = Some (mk_amount ''EUR'' 2 0)"
  "TALER_amount_subtract x (mk_amount ''EUR'' 2 0) (mk_amount ''EUR'' 1 0) = Some (1, mk_amount ''EUR'' 1 0)"
  "TALER_amount_subtract x (mk_amount ''EUR'' 3 0) (mk_amount ''EUR'' 0 10000000) = Some (1, mk_amount ''EUR'' 2 90000000)"
  "TALER_amount_round_down (mk_amount ''EUR'' 2 90000000) (mk_amount ''EUR'' 0 1000000) = (0, mk_amount ''EUR'' 2 90000000)"
  by (simp_all add: TALER_PQ_result_spec_amount_def TALER_amount_subtract_def TALER_amount_round_down_def Let_def amount_sample_simps
      TALER_amount_normalize_def TALER_amount_get_zero_def TALER_AMOUNT_FRAC_BASE_def MAX_AMOUNT_VALUE_def)

lemma sample_two_ready:
  "sql_deposits_get_ready 1000 sample_two_deposits = [(hd (t_deposits sample_two_deposits), hd (t_denominations sample_two_deposits))]"
  by (simp add: sql_deposits_get_ready_def deposit_denoms_def sample_two_deposits_def sample_db_def)

lemma extraction_failure_overpays:
  "\<exists>accounts' s'. run_aggregation sample_aggregator sample_inputs [sample_account]
       (sample_idle sample_two_deposits [PQ_RUN, PQ_RUN, PQ_RUN, PQ_RUN, PQ_RUN, PQ_RUN, PQ_RUN, PQ_RUN, PQ_EXTRACT_FAIL])
         = Some ((Run_now, accounts'), s')
     \<and> total_paid (s_committed s') = 290000000 \<and> tracked_owed (s_committed s') = 100000000"
  apply (simp add: run_aggregation_def postgres_get_session_def next_outcome_def sample_idle_def
      postgres_start_deferred_wire_out_def postgres_start_def postgres_preflight_def Let_def exec_rollback_def end_transaction_def)
  apply (simp add: aggregate_ready_def postgres_get_ready_deposit_def sample_aggregator_def sample_inputs_def
      pq_singleton_select_def pq_denied_def next_outcome_def)
  apply (simp add: sample_gnunet_def TALER_PQ_query_param_absolute_time_def sample_two_ready)
  apply (simp add: sample_two_deposits_def sample_db_def extract_deposit_def sample_pg_def sample_amounts sample_two_amounts)
  apply (simp add: deposit_cb_def postgres_select_refunds_by_coin_def Let_def pq_multi_select_def pq_denied_def next_outcome_def zero_au_def
      sql_get_refunds_by_coin_and_contract_def subtract_deposit_fee_def sample_amounts sample_two_amounts sample_wire_hash)
  apply (simp add: deposit_account_def sample_payto TALER_EXCHANGEDB_update_fees_def advance_fees_def)
  apply (simp add: sample_account_def sample_fee_def)
  apply (simp add: track_deposit_def postgres_insert_aggregation_tracking_def postgres_mark_deposit_done_def pq_non_select_def
      next_outcome_def pq_denied_def sql_insert_aggregation_tracking_def sql_mark_deposit_done_def)
  apply (simp add: postgres_iterate_matching_deposits_def pq_multi_select_def pq_denied_def next_outcome_def
      sql_deposits_iterate_matching_def deposit_denoms_def)
  apply (simp add: extract_deposit_def sample_pg_def sample_amounts)
  apply (simp add: aggregate_cb_def postgres_select_refunds_by_coin_def Let_def pq_multi_select_def pq_denied_def next_outcome_def
      sql_get_refunds_by_coin_and_contract_def)
  apply (simp add: aggregate_matched_def aggregate_final_def sample_pg_def sample_amounts sample_two_amounts aggregate_transfer_def sample_payto)
  apply (simp add: TALER_BANK_prepare_transfer_def TALER_amount_hton_def amount_sample_simps)
  apply (simp add: postgres_wire_prepare_data_insert_def pq_non_select_def next_outcome_def pq_denied_def sql_wire_prepare_data_insert_def
      postgres_store_wire_transfer_out_def TALER_PQ_query_param_absolute_time_def TALER_PQ_query_param_amount_def amount_sample_simps
      sql_insert_wire_out_def)
  apply (simp add: commit_or_warn_def commit_wire_out_def wire_out_ref_def postgres_commit_def next_outcome_def end_transaction_def
      sample_gnunet_def)
  apply (simp add: total_paid_def tracked_owed_def owed_def coin_denoms_def sql_get_refunds_by_coin_and_contract_def sqlamt_def Let_def)
  done

text \<open>The aggregator pays the deposit of the sample.\<close>

theorem merchants_never_overpaid_witness:
  "\<exists>accounts' s'. run_aggregation sample_aggregator sample_inputs [sample_account] (sample_idle sample_deposit_db []) = Some ((Run_now, accounts'), s')
     \<and> payouts_ok (s_committed s') \<and> total_paid (s_committed s') = 190000000 \<and> 190000000 \<le> tracked_owed (s_committed s')"
proof -
  obtain accounts' s' where r: "run_aggregation sample_aggregator sample_inputs [sample_account] (sample_idle sample_deposit_db []) = Some ((Run_now, accounts'), s')"
    "map (\<lambda>r. (wo_wtid_raw r, wo_amount r)) (t_wire_out (s_committed s')) = [(8, (1, 90000000))]"
    using sample_run by auto
  note ok = sample_aggregator_ok(3) [unfolded payable_def]
  have "payout_step (sample_idle sample_deposit_db []) s'"
    by (rule payout_step.aggregate [OF sample_aggregator_ok(1,2) _ _ r(1)]) (use ok in \<open>simp_all add: wires_hash_def extracts_rows_def sample_idle_def\<close>)
  from merchants_never_overpaid [OF r_into_rtranclp [of payout_step, OF this]] ok
  have "payouts_ok (s_committed s') \<and> total_paid (s_committed s') \<le> tracked_owed (s_committed s')"
    by (simp add: serials_ok_def payouts_ok_def wire_out_ref_def) (simp add: sample_deposit_db_def sample_db_def)
  moreover have "total_paid (s_committed s') = (\<Sum>x\<leftarrow>map (\<lambda>r. (wo_wtid_raw r, wo_amount r)) (t_wire_out (s_committed s')). sqlamt (snd x))"
    by (simp add: total_paid_def comp_def)
  then have "total_paid (s_committed s') = 190000000" unfolding r(2) by (simp add: sqlamt_def)
  ultimately show ?thesis using r(1) by auto
qed

end
