(* ===== verification/Fakebank.thy ===== *)
theory Fakebank
  imports Bank_Transfer Payto Pq
begin

text \<open>
  \<^verbatim>\<open>src/bank-lib/fakebank.c\<close>: the bank with which the exchange is tested. It is the only bank in the repository, and it shows what
  the exchange relies on: a request for a transfer has an identifier and is executed at most once, and the histories
  of an account deliver its transactions in their order. The bank is the record \<open>TALER_FAKEBANK_Handle\<close>, its list
  of transactions is in the order of the doubly linked list. \<open>None\<close> is the end of the process by a failed assertion or a
  string function that is given \<^verbatim>\<open>NULL\<close>; a reply of \<open>None\<close> is the result \<^verbatim>\<open>MHD_NO\<close>, which closes the connection.
\<close>

section \<open>The state of the bank\<close>

datatype transaction_subject = T_CREDIT pub_key | T_DEBIT nat string

record Transaction =
  tx_amount :: TALER_Amount
  tx_debit_account :: string
  tx_credit_account :: string
  tx_request_uid :: hash_code
  tx_subject :: transaction_subject
  tx_date :: abs_time
  tx_row_id :: u64
  tx_checked :: bool

record TALER_FAKEBANK_Handle =
  fb_transactions :: "Transaction list"
  fb_serial_counter :: u64
  fb_currency :: string
  fb_my_baseurl :: string

definition is_debit :: "Transaction \<Rightarrow> bool" where
  "is_debit t = (case tx_subject t of T_DEBIT wtid url \<Rightarrow> True | T_CREDIT pub \<Rightarrow> False)"

section \<open>Transfers\<close>

text \<open>Does the transaction, which has the same identifier, have the details of the request?\<close>

definition same_transfer :: "string \<Rightarrow> string \<Rightarrow> TALER_Amount \<Rightarrow> nat \<Rightarrow> Transaction \<Rightarrow> bool option" where
  "same_transfer debit_account credit_account amount subject t =
     (if \<not> strcasecmp_eq debit_account (tx_debit_account t) \<or> \<not> strcasecmp_eq credit_account (tx_credit_account t) then Some False
      else do {
        c \<leftarrow> TALER_amount_cmp amount (tx_amount t);
        Some (c = 0 \<and> (case tx_subject t of T_DEBIT wtid url \<Rightarrow> wtid = subject | T_CREDIT pub \<Rightarrow> False))
      })"

text \<open>The identifier is given by the caller or, for tests, drawn at random (\<open>random_uid\<close>). The result is the row, or nothing if the
  identifier was used for another transfer.\<close>

definition add_transaction ::
    "gnunet \<Rightarrow> abs_time \<Rightarrow> string \<Rightarrow> string \<Rightarrow> TALER_Amount \<Rightarrow> transaction_subject \<Rightarrow> hash_code \<Rightarrow> TALER_FAKEBANK_Handle
       \<Rightarrow> u64 \<times> TALER_FAKEBANK_Handle" where
  "add_transaction g now debit_account credit_account amount subject uid h =
     (let row_id = fb_serial_counter h + 1;
          t = \<lparr>tx_amount = amount, tx_debit_account = debit_account, tx_credit_account = credit_account, tx_request_uid = uid,
               tx_subject = subject, tx_date = GNUNET_TIME_round_abs g now, tx_row_id = row_id, tx_checked = False\<rparr>
      in (row_id, h\<lparr>fb_serial_counter := row_id, fb_transactions := fb_transactions h @ [t]\<rparr>))"

definition TALER_FAKEBANK_make_transfer ::
    "gnunet \<Rightarrow> abs_time \<Rightarrow> hash_code \<Rightarrow> string \<Rightarrow> string \<Rightarrow> TALER_Amount \<Rightarrow> nat \<Rightarrow> string \<Rightarrow> hash_code option
       \<Rightarrow> TALER_FAKEBANK_Handle \<Rightarrow> (u64 option \<times> TALER_FAKEBANK_Handle) option" where
  "TALER_FAKEBANK_make_transfer g now random_uid debit_account credit_account amount subject exchange_base_url request_uid h = do {
     GNUNET_assert (strcasecmp_eq (amt_currency amount) (fb_currency h));
     case Option.bind request_uid (\<lambda>uid. find (\<lambda>t. tx_request_uid t = uid) (fb_transactions h)) of
       Some t \<Rightarrow> do {
         same \<leftarrow> same_transfer debit_account credit_account amount subject t;
         Some (if same then Some (tx_row_id t) else None, h)
       }
     | None \<Rightarrow>
         (let uid = (case request_uid of Some uid \<Rightarrow> uid | None \<Rightarrow> random_uid);
              (row_id, h) = add_transaction g now debit_account credit_account amount (T_DEBIT subject exchange_base_url) uid h
          in Some (Some row_id, h))
   }"

definition TALER_FAKEBANK_make_admin_transfer ::
    "gnunet \<Rightarrow> abs_time \<Rightarrow> string option \<Rightarrow> string option \<Rightarrow> TALER_Amount \<Rightarrow> pub_key \<Rightarrow> TALER_FAKEBANK_Handle
       \<Rightarrow> (u64 \<times> TALER_FAKEBANK_Handle) option" where
  "TALER_FAKEBANK_make_admin_transfer g now debit_account credit_account amount pub h = do {
     GNUNET_assert (strcasecmp_eq (amt_currency amount) (fb_currency h));
     debit \<leftarrow> debit_account;
     credit \<leftarrow> credit_account;
     Some (add_transaction g now debit credit amount (T_CREDIT pub) 0 h)
   }"

section \<open>Checks of the tests\<close>

text \<open>The first transaction that satisfies a condition is marked as checked.\<close>

fun check_first :: "(Transaction \<Rightarrow> bool option) \<Rightarrow> Transaction list \<Rightarrow> (Transaction option \<times> Transaction list) option" where
  "check_first p [] = Some (None, [])"
| "check_first p (t # ts) = do {
     b \<leftarrow> p t;
     if b then Some (Some t, t\<lparr>tx_checked := True\<rparr> # ts)
     else do {
       (found, ts) \<leftarrow> check_first p ts;
       Some (found, t # ts)
     }
   }"

definition amount_matches :: "string \<Rightarrow> string \<Rightarrow> TALER_Amount \<Rightarrow> Transaction \<Rightarrow> bool option" where
  "amount_matches want_debit want_credit want_amount t =
     (if \<not> strcasecmp_eq want_debit (tx_debit_account t) \<or> \<not> strcasecmp_eq want_credit (tx_credit_account t) then Some False
      else do {
        c \<leftarrow> TALER_amount_cmp want_amount (tx_amount t);
        Some (c = 0)
      })"

definition TALER_FAKEBANK_check_debit ::
    "TALER_Amount \<Rightarrow> string \<Rightarrow> string \<Rightarrow> string \<Rightarrow> TALER_FAKEBANK_Handle \<Rightarrow> (nat option \<times> TALER_FAKEBANK_Handle) option" where
  "TALER_FAKEBANK_check_debit want_amount want_debit want_credit exchange_base_url h = do {
     GNUNET_assert (strcasecmp_eq (amt_currency want_amount) (fb_currency h));
     (found, ts) \<leftarrow> check_first (\<lambda>t. do {
         m \<leftarrow> amount_matches want_debit want_credit want_amount t;
         Some (m \<and> \<not> tx_checked t \<and> (case tx_subject t of T_DEBIT wtid url \<Rightarrow> strcasecmp_eq exchange_base_url url | _ \<Rightarrow> False))
       }) (fb_transactions h);
     Some (Option.bind found (\<lambda>t. case tx_subject t of T_DEBIT wtid url \<Rightarrow> Some wtid | _ \<Rightarrow> None), h\<lparr>fb_transactions := ts\<rparr>)
   }"

definition TALER_FAKEBANK_check_credit ::
    "TALER_Amount \<Rightarrow> string \<Rightarrow> string \<Rightarrow> pub_key \<Rightarrow> TALER_FAKEBANK_Handle \<Rightarrow> (bool \<times> TALER_FAKEBANK_Handle) option" where
  "TALER_FAKEBANK_check_credit want_amount want_debit want_credit pub h = do {
     GNUNET_assert (strcasecmp_eq (amt_currency want_amount) (fb_currency h));
     (found, ts) \<leftarrow> check_first (\<lambda>t. do {
         m \<leftarrow> amount_matches want_debit want_credit want_amount t;
         Some (m \<and> \<not> tx_checked t \<and> tx_subject t = T_CREDIT pub)
       }) (fb_transactions h);
     Some (found \<noteq> None, h\<lparr>fb_transactions := ts\<rparr>)
   }"

definition TALER_FAKEBANK_check_empty :: "TALER_FAKEBANK_Handle \<Rightarrow> bool" where
  "TALER_FAKEBANK_check_empty h \<longleftrightarrow> dropWhile tx_checked (fb_transactions h) = []"

section \<open>Histories\<close>

record HistoryArgs =
  ha_have_start :: bool
  ha_start_idx :: u64
  ha_delta :: int

text \<open>\<^verbatim>\<open>sscanf\<close> with \<^verbatim>\<open>%lld\<close> and \<^verbatim>\<open>%llu\<close>: white space, a sign and digits, and what follows is ignored\<close>

definition digit_value :: "char \<Rightarrow> int" where
  "digit_value c = int (of_char c) - 48"

definition scan_int :: "string \<Rightarrow> int option" where
  "scan_int s =
     (let s = dropWhile (\<lambda>c. (of_char c :: nat) \<in> {9, 10, 11, 12, 13, 32}) s;
          (sgn, s) = (case s of CHR ''-'' # r \<Rightarrow> (- 1, r) | CHR ''+'' # r \<Rightarrow> (1, r) | _ \<Rightarrow> (1, s));
          ds = takeWhile isdigit s
      in if ds = [] then None else Some (sgn * foldl (\<lambda>n c. 10 * n + digit_value c) 0 ds))"

text \<open>The timeout for long polling must be a number too; it is not used.\<close>

definition parse_history_common_args :: "string option \<Rightarrow> string option \<Rightarrow> string option \<Rightarrow> HistoryArgs option" where
  "parse_history_common_args start delta long_poll_ms = do {
     delta \<leftarrow> delta;
     d \<leftarrow> scan_int delta;
     GNUNET_assert (case long_poll_ms of None \<Rightarrow> True | Some s \<Rightarrow> scan_int s \<noteq> None);
     start_idx \<leftarrow> (case start of None \<Rightarrow> Some (if d > 0 then 0 else - 1) | Some s \<Rightarrow> map_option of_int (scan_int s));
     if d = 0 then None
     else Some \<lparr>ha_have_start = (start \<noteq> None), ha_start_idx = start_idx, ha_delta = d\<rparr>
   }"

text \<open>The transactions from the position on at which the loop starts, in the direction in which it goes\<close>

definition history_start :: "HistoryArgs \<Rightarrow> Transaction list \<Rightarrow> Transaction list option" where
  "history_start ha ts =
     (if \<not> ha_have_start ha then Some (if 0 > ha_delta ha then rev ts else ts)
      else if ts \<noteq> []
      then (case dropWhile (\<lambda>t. tx_row_id t \<noteq> ha_start_idx ha) ts of
              [] \<Rightarrow> None
            | pos # after \<Rightarrow> Some (if 0 > ha_delta ha then rev (takeWhile (\<lambda>t. tx_row_id t \<noteq> ha_start_idx ha) ts) else after))
      else Some [])"

fun history_loop :: "(Transaction \<Rightarrow> bool) \<Rightarrow> int \<Rightarrow> Transaction list \<Rightarrow> Transaction list" where
  "history_loop p delta [] = []"
| "history_loop p delta (pos # rest) =
     (if delta = 0 then []
      else if p pos then pos # history_loop p (if delta > 0 then delta - 1 else delta + 1) rest
      else history_loop p delta rest)"

record bank_transaction =
  bt_row_id :: int
  bt_date :: abs_time
  bt_amount :: TALER_Amount
  bt_credit_account :: string
  bt_debit_account :: string
  bt_subject :: transaction_subject

definition json_transaction :: "Transaction \<Rightarrow> bank_transaction" where
  "json_transaction t = \<lparr>bt_row_id = sint (tx_row_id t), bt_date = tx_date t, bt_amount = tx_amount t,
     bt_credit_account = ''payto://x-taler-bank/localhost/'' @ tx_credit_account t,
     bt_debit_account = ''payto://x-taler-bank/localhost/'' @ tx_debit_account t, bt_subject = tx_subject t\<rparr>"

definition handle_debit_history :: "HistoryArgs option \<Rightarrow> string \<Rightarrow> TALER_FAKEBANK_Handle \<Rightarrow> bank_transaction list option" where
  "handle_debit_history args account h = do {
     ha \<leftarrow> args;
     pos \<leftarrow> history_start ha (fb_transactions h);
     Some (map json_transaction
       (history_loop (\<lambda>t. strcasecmp_eq (tx_debit_account t) account \<and> is_debit t) (ha_delta ha) pos))
   }"

definition handle_credit_history :: "HistoryArgs option \<Rightarrow> string \<Rightarrow> TALER_FAKEBANK_Handle \<Rightarrow> bank_transaction list option" where
  "handle_credit_history args account h = do {
     ha \<leftarrow> args;
     pos \<leftarrow> history_start ha (fb_transactions h);
     Some (map json_transaction
       (history_loop (\<lambda>t. strcasecmp_eq (tx_credit_account t) account \<and> \<not> is_debit t) (ha_delta ha) pos))
   }"

section \<open>Requests\<close>

record add_incoming_request =
  air_reserve_pub :: pub_key
  air_debit_account :: string
  air_amount :: TALER_Amount

datatype bank_reply =
    BANK_HOME
  | BANK_TRANSFERRED int abs_time
  | BANK_UID_REUSED
  | BANK_OUTGOING "bank_transaction list"
  | BANK_INCOMING "bank_transaction list"

text \<open>The bodies are what the parser makes of the upload, \<open>None\<close> if it is not what is expected.\<close>

definition handle_admin_add_incoming ::
    "gnunet \<Rightarrow> abs_time \<Rightarrow> string option \<Rightarrow> add_incoming_request option \<Rightarrow> TALER_FAKEBANK_Handle
       \<Rightarrow> (bank_reply option \<times> TALER_FAKEBANK_Handle) option" where
  "handle_admin_add_incoming g now account body h =
     (case body of
        None \<Rightarrow> Some (None, h)
      | Some r \<Rightarrow> do {
          (row_id, h) \<leftarrow> TALER_FAKEBANK_make_admin_transfer g now (TALER_xtalerbank_account_from_payto (air_debit_account r)) account
                           (air_amount r) (air_reserve_pub r) h;
          Some (Some (BANK_TRANSFERRED (sint row_id) (tx_date (last (fb_transactions h)))), h)
        })"

definition handle_transfer ::
    "gnunet \<Rightarrow> abs_time \<Rightarrow> string \<Rightarrow> transfer_request option \<Rightarrow> TALER_FAKEBANK_Handle
       \<Rightarrow> (bank_reply option \<times> TALER_FAKEBANK_Handle) option" where
  "handle_transfer g now account body h =
     (case body of
        None \<Rightarrow> Some (None, h)
      | Some r \<Rightarrow> do {
          credit \<leftarrow> TALER_xtalerbank_account_from_payto (tr_credit_account r);
          (ret, h) \<leftarrow> TALER_FAKEBANK_make_transfer g now 0 account credit (tr_amount r) (tr_wtid r) (tr_exchange_base_url r)
                        (Some (tr_request_uid r)) h;
          Some (Some (case ret of None \<Rightarrow> BANK_UID_REUSED | Some row_id \<Rightarrow> BANK_TRANSFERRED (sint row_id) 0), h)
        })"

record bank_upload =
  up_incoming :: "add_incoming_request option"
  up_transfer :: "transfer_request option"
  up_start :: "string option"
  up_delta :: "string option"
  up_long_poll_ms :: "string option"

definition upload_history :: "bank_upload \<Rightarrow> HistoryArgs option" where
  "upload_history up = parse_history_common_args (up_start up) (up_delta up) (up_long_poll_ms up)"

definition serve ::
    "gnunet \<Rightarrow> abs_time \<Rightarrow> string option \<Rightarrow> string \<Rightarrow> string \<Rightarrow> bank_upload \<Rightarrow> TALER_FAKEBANK_Handle
       \<Rightarrow> (bank_reply option \<times> TALER_FAKEBANK_Handle) option" where
  "serve g now account url http_method up h =
     (if url = ''/'' \<and> strcasecmp_eq http_method ''GET'' then Some (Some BANK_HOME, h)
      else if url = ''/admin/add-incoming'' \<and> strcasecmp_eq http_method ''POST''
      then handle_admin_add_incoming g now account (up_incoming up) h
      else case account of
        None \<Rightarrow> Some (None, h)
      | Some account \<Rightarrow>
          if url = ''/transfer'' \<and> strcasecmp_eq http_method ''POST'' then handle_transfer g now account (up_transfer up) h
          else if url = ''/history/incoming'' \<and> strcasecmp_eq http_method ''GET''
          then Some (map_option BANK_INCOMING (handle_credit_history (upload_history up) account h), h)
          else if url = ''/history/outgoing'' \<and> strcasecmp_eq http_method ''GET''
          then Some (map_option BANK_OUTGOING (handle_debit_history (upload_history up) account h), h)
          else Some (None, h))"

text \<open>The account is the first component of the path.\<close>

definition fakebank_handle_mhd_request ::
    "gnunet \<Rightarrow> abs_time \<Rightarrow> string \<Rightarrow> string \<Rightarrow> bank_upload \<Rightarrow> TALER_FAKEBANK_Handle
       \<Rightarrow> (bank_reply option \<times> TALER_FAKEBANK_Handle) option" where
  "fakebank_handle_mhd_request g now url http_method up h =
     (case (if length url > 1 then strchr (drop 1 url) CHR ''/'' else None) of
        Some (account, rest) \<Rightarrow> serve g now (Some account) (CHR ''/'' # rest) http_method up h
      | None \<Rightarrow> serve g now None url http_method up h)"

section \<open>The bank keeps its books\<close>

text \<open>Rows are numbered in their order, amounts are in the currency of the bank, and the identifiers of outgoing transfers are distinct from each
  other and from those of incoming ones (which are 0).\<close>

definition fakebank_ok :: "TALER_FAKEBANK_Handle \<Rightarrow> bool" where
  "fakebank_ok h \<longleftrightarrow> sorted_wrt (\<lambda>t u. tx_row_id t < tx_row_id u) (fb_transactions h)
     \<and> (\<forall>t\<in>set (fb_transactions h). tx_row_id t \<le> fb_serial_counter h \<and> amount_in (fb_currency h) (tx_amount t)
          \<and> (tx_request_uid t = 0 \<longleftrightarrow> \<not> is_debit t))
     \<and> distinct (map tx_request_uid (filter is_debit (fb_transactions h)))"

text \<open>The transaction with the identifier\<close>

definition transfer_made :: "TALER_FAKEBANK_Handle \<Rightarrow> hash_code \<Rightarrow> Transaction \<Rightarrow> bool" where
  "transfer_made h uid t \<longleftrightarrow> t \<in> set (fb_transactions h) \<and> tx_request_uid t = uid \<and> is_debit t"

definition transfer_matches :: "string \<Rightarrow> string \<Rightarrow> TALER_Amount \<Rightarrow> nat \<Rightarrow> Transaction \<Rightarrow> bool" where
  "transfer_matches debit_account credit_account amount subject t \<longleftrightarrow>
     strcasecmp_eq debit_account (tx_debit_account t) \<and> strcasecmp_eq credit_account (tx_credit_account t)
     \<and> amt amount = amt (tx_amount t) \<and> (\<exists>url. tx_subject t = T_DEBIT subject url)"

lemma same_transfer_iff:
  assumes "amount_in c amount" and "amount_in c (tx_amount t)"
  shows "same_transfer debit credit amount subject t = Some (transfer_matches debit credit amount subject t)"
  using assms by (auto simp: same_transfer_def transfer_matches_def sgn_if split: transaction_subject.splits)

lemma is_debit_new [simp]:
  "is_debit \<lparr>tx_amount = a, tx_debit_account = d, tx_credit_account = c, tx_request_uid = u, tx_subject = x, tx_date = t, tx_row_id = r,
     tx_checked = k\<rparr> = (case x of T_DEBIT wtid url \<Rightarrow> True | T_CREDIT pub \<Rightarrow> False)"
  by (simp add: is_debit_def)

lemma fakebank_ok_add:
  assumes "fakebank_ok h" and "fb_serial_counter h \<noteq> - 1" and "amount_in (fb_currency h) amount"
    and "uid = 0 \<longleftrightarrow> (\<exists>pub. subject = T_CREDIT pub)" and "uid \<noteq> 0 \<longrightarrow> (\<forall>t. \<not> transfer_made h uid t)"
  shows "fakebank_ok (snd (add_transaction g now debit credit amount subject uid h))"
proof -
  have "1 + fb_serial_counter h \<noteq> 0" using assms(2) by (metis add.commute max_word_wrap)
  then have less: "fb_serial_counter h < fb_serial_counter h + 1" using unatSuc [of "fb_serial_counter h"] by (simp add: word_less_nat_alt add.commute)
  then have "\<forall>t\<in>set (fb_transactions h). tx_row_id t < fb_serial_counter h + 1" using assms(1) by (auto simp: fakebank_ok_def)
  then show ?thesis
    using assms(1,3-5) by (cases subject) (auto simp: fakebank_ok_def add_transaction_def Let_def sorted_wrt_append transfer_made_def)
qed

text \<open>A request with an identifier is executed once.\<close>

lemma transfer_made_unique:
  assumes "fakebank_ok h" and "transfer_made h uid t" and "transfer_made h uid u"
  shows "t = u"
  using assms by (auto simp: fakebank_ok_def transfer_made_def distinct_map inj_on_def)

lemma make_transfer_wp:
  assumes ok: "fakebank_ok h" and "fb_serial_counter h \<noteq> - 1" and a: "amount_in (fb_currency h) amount" and "uid \<noteq> 0"
  shows "wp (TALER_FAKEBANK_make_transfer g now random_uid debit credit amount subject url (Some uid) h) (\<lambda>ret h'.
     fakebank_ok h' \<and> fb_currency h' = fb_currency h \<and> fb_my_baseurl h' = fb_my_baseurl h
     \<and> (h' = h \<and> ret = None \<and> (\<exists>t. transfer_made h uid t \<and> \<not> transfer_matches debit credit amount subject t)
        \<or> (\<exists>t. h' = h \<and> ret = Some (tx_row_id t) \<and> transfer_made h uid t \<and> transfer_matches debit credit amount subject t)
        \<or> (\<exists>t. ret = Some (tx_row_id t) \<and> (\<forall>u. \<not> transfer_made h uid u) \<and> tx_request_uid t = uid \<and> is_debit t
             \<and> transfer_matches debit credit amount subject t \<and> fb_transactions h' = fb_transactions h @ [t])))"
proof -
  have c: "strcasecmp_eq (amt_currency amount) (fb_currency h)" using a strcasecmp_eq_sym by (auto simp: amount_in_def)
  show ?thesis
  proof (cases "find (\<lambda>t. tx_request_uid t = uid) (fb_transactions h)")
    case None
    then have new: "\<forall>t. \<not> transfer_made h uid t" by (auto simp: transfer_made_def find_None_iff)
    obtain row h' where h': "add_transaction g now debit credit amount (T_DEBIT subject url) uid h = (row, h')" by fastforce
    with fakebank_ok_add [OF ok assms(2) a, of uid "T_DEBIT subject url" g now debit credit] assms(4) new
    have "fakebank_ok h'" by simp
    moreover have "\<exists>t. row = tx_row_id t \<and> tx_request_uid t = uid \<and> is_debit t \<and> transfer_matches debit credit amount subject t
        \<and> fb_transactions h' = fb_transactions h @ [t]" and "fb_currency h' = fb_currency h" "fb_my_baseurl h' = fb_my_baseurl h"
      using h' by (auto simp: add_transaction_def Let_def transfer_matches_def)
    ultimately show ?thesis using None c h' new by (auto simp: TALER_FAKEBANK_make_transfer_def)
  next
    case (Some t)
    then have t: "t \<in> set (fb_transactions h)" "tx_request_uid t = uid" by (auto simp: find_Some_iff in_set_conv_nth)
    then have "is_debit t" "amount_in (fb_currency h) (tx_amount t)" using ok assms(4) by (auto simp: fakebank_ok_def)
    moreover from this have "transfer_made h uid t" using t by (simp add: transfer_made_def)
    ultimately show ?thesis
      using Some c ok same_transfer_iff [OF a, of t debit credit subject] by (auto simp: TALER_FAKEBANK_make_transfer_def)
  qed
qed

lemma admin_transfer_wp:
  assumes "fakebank_ok h" and "fb_serial_counter h \<noteq> - 1" and a: "amount_in (fb_currency h) amount"
  shows "wp (TALER_FAKEBANK_make_admin_transfer g now (Some debit) (Some credit) amount pub h) (\<lambda>row h'.
     fakebank_ok h' \<and> fb_currency h' = fb_currency h \<and> fb_my_baseurl h' = fb_my_baseurl h \<and>
     (\<exists>t. tx_row_id t = row \<and> tx_subject t = T_CREDIT pub \<and> tx_amount t = amount \<and> tx_credit_account t = credit \<and> tx_debit_account t = debit
        \<and> fb_transactions h' = fb_transactions h @ [t]))"
proof -
  have c: "strcasecmp_eq (amt_currency amount) (fb_currency h)" using a strcasecmp_eq_sym by (auto simp: amount_in_def)
  obtain row h' where h': "add_transaction g now debit credit amount (T_CREDIT pub) 0 h = (row, h')" by fastforce
  with fakebank_ok_add [OF assms(1,2) a, of 0 "T_CREDIT pub" g now debit credit] have "fakebank_ok h'" by simp
  moreover have "\<exists>t. tx_row_id t = row \<and> tx_subject t = T_CREDIT pub \<and> tx_amount t = amount \<and> tx_credit_account t = credit \<and> tx_debit_account t = debit
        \<and> fb_transactions h' = fb_transactions h @ [t]" and "fb_currency h' = fb_currency h" "fb_my_baseurl h' = fb_my_baseurl h"
    using h' by (auto simp: add_transaction_def Let_def)
  ultimately show ?thesis using c h' by (simp add: TALER_FAKEBANK_make_admin_transfer_def)
qed

section \<open>What histories deliver\<close>

lemma history_loop_take: "history_loop p delta ts = take (nat \<bar>delta\<bar>) (filter p ts)"
proof (induction p delta ts rule: history_loop.induct)
  case (2 p delta pos rest)
  show ?case
  proof (cases "delta = 0 \<or> \<not> p pos")
    case False
    then have "nat \<bar>delta\<bar> = Suc (nat \<bar>if delta > 0 then delta - 1 else delta + 1\<bar>)" by auto
    with 2 False show ?thesis by simp
  qed (use 2 in auto)
qed simp

lemma history_split:
  assumes "sorted_wrt (\<lambda>t u. tx_row_id t < tx_row_id u) ts" and "t \<in> set ts"
  shows "dropWhile (\<lambda>u. tx_row_id u \<noteq> tx_row_id t) ts = t # filter (\<lambda>u. tx_row_id u > tx_row_id t) ts"
    and "takeWhile (\<lambda>u. tx_row_id u \<noteq> tx_row_id t) ts = filter (\<lambda>u. tx_row_id u < tx_row_id t) ts"
proof -
  from assms(2) obtain xs ys where ts: "ts = xs @ t # ys" by (meson split_list)
  have xs: "\<forall>u\<in>set xs. tx_row_id u < tx_row_id t" and ys: "\<forall>u\<in>set ys. tx_row_id t < tx_row_id u"
    using assms(1) by (auto simp: ts sorted_wrt_append)
  then have f: "filter (\<lambda>u. tx_row_id u > tx_row_id t) xs = []" "filter (\<lambda>u. tx_row_id u > tx_row_id t) ys = ys"
    "filter (\<lambda>u. tx_row_id u < tx_row_id t) xs = xs" "filter (\<lambda>u. tx_row_id u < tx_row_id t) ys = []"
    by (auto simp: filter_empty_conv filter_id_conv)
  have "dropWhile (\<lambda>u. tx_row_id u \<noteq> tx_row_id t) xs = []" "takeWhile (\<lambda>u. tx_row_id u \<noteq> tx_row_id t) xs = xs"
    using xs by (auto simp: dropWhile_eq_Nil_conv takeWhile_eq_all_conv)
  then show "dropWhile (\<lambda>u. tx_row_id u \<noteq> tx_row_id t) ts = t # filter (\<lambda>u. tx_row_id u > tx_row_id t) ts"
    and "takeWhile (\<lambda>u. tx_row_id u \<noteq> tx_row_id t) ts = filter (\<lambda>u. tx_row_id u < tx_row_id t) ts"
    using f xs by (auto simp: ts dropWhile_append3 takeWhile_append2 dropWhile_append2 takeWhile_append)
qed

definition incoming_to :: "string \<Rightarrow> Transaction \<Rightarrow> bool" where
  "incoming_to account t \<longleftrightarrow> strcasecmp_eq (tx_credit_account t) account \<and> \<not> is_debit t"

definition outgoing_from :: "string \<Rightarrow> Transaction \<Rightarrow> bool" where
  "outgoing_from account t \<longleftrightarrow> strcasecmp_eq (tx_debit_account t) account \<and> is_debit t"

lemma history_pages:
  assumes "fakebank_ok h" and "t \<in> set (fb_transactions h)" and "d \<noteq> 0"
  shows "handle_credit_history (Some \<lparr>ha_have_start = True, ha_start_idx = tx_row_id t, ha_delta = d\<rparr>) account h
      = Some (map json_transaction (take (nat \<bar>d\<bar>) (filter (incoming_to account)
          (if d > 0 then filter (\<lambda>u. tx_row_id u > tx_row_id t) (fb_transactions h)
           else rev (filter (\<lambda>u. tx_row_id u < tx_row_id t) (fb_transactions h))))))"
    and "handle_debit_history (Some \<lparr>ha_have_start = True, ha_start_idx = tx_row_id t, ha_delta = d\<rparr>) account h
      = Some (map json_transaction (take (nat \<bar>d\<bar>) (filter (outgoing_from account)
          (if d > 0 then filter (\<lambda>u. tx_row_id u > tx_row_id t) (fb_transactions h)
           else rev (filter (\<lambda>u. tx_row_id u < tx_row_id t) (fb_transactions h))))))"
  using assms history_split [of "fb_transactions h" t]
  by (auto simp: handle_credit_history_def handle_debit_history_def history_start_def history_loop_take fakebank_ok_def
      incoming_to_def [abs_def] outgoing_from_def [abs_def])

text \<open>Without a start, the history begins with the first transaction.\<close>

lemma history_first:
  assumes "d > 0"
  shows "handle_credit_history (Some \<lparr>ha_have_start = False, ha_start_idx = i, ha_delta = d\<rparr>) account h
      = Some (map json_transaction (take (nat d) (filter (incoming_to account) (fb_transactions h))))"
  using assms by (simp add: handle_credit_history_def history_start_def history_loop_take incoming_to_def [abs_def])

end
