(* ===== verification/Wirewatch.thy ===== *)
theory Wirewatch
  imports Fakebank Amount_Text Reserve_History Transaction_Runner
begin

text \<open>
  \<^verbatim>\<open>src/exchange/taler-exchange-wirewatch.c\<close>: the process that credits incoming wire transfers to reserves. It asks the bank for what came
  in after the last transfer that it knows, stores what the bank reports in one transaction, and waits. The part of
  \<^verbatim>\<open>src/bank-lib/bank_api_credit.c\<close> that makes the request and goes through the reply is here too. The global variables that do not change
  are the record \<open>wirewatch\<close>; the list of accounts with the position \<^verbatim>\<open>wa_pos\<close> is the record \<open>wirewatch_state\<close>.
\<close>

section \<open>Requests for the history\<close>

text \<open>\<^verbatim>\<open>%lld\<close>\<close>

definition print_lld :: "int \<Rightarrow> string" where
  "print_lld d = (if d < 0 then CHR ''-'' # print_llu (nat (- d)) else print_llu (nat d))"

text \<open>The arguments \<^verbatim>\<open>delta\<close> and \<^verbatim>\<open>start\<close>\<close>

definition history_arguments :: "u64 \<Rightarrow> int \<Rightarrow> string \<times> string option" where
  "history_arguments start_row num_results =
     (print_lld num_results,
      if start_row = - 1 \<and> 0 > num_results \<or> start_row = 0 \<and> 0 < num_results then None
      else Some (print_llu (unat start_row)))"

definition TALER_BANK_credit_history :: "grow \<Rightarrow> string option \<Rightarrow> u64 \<Rightarrow> int \<Rightarrow> string option option" where
  "TALER_BANK_credit_history grow wire_gateway_url start_row num_results =
     (if num_results = 0 then Some None
      else
        (let (delta, start) = history_arguments start_row num_results;
             url = ''history/incoming?delta='' @ delta @ (case start of None \<Rightarrow> [] | Some x \<Rightarrow> ''&start='' @ x)
         in case wire_gateway_url of
              None \<Rightarrow> None
            | Some gateway \<Rightarrow> TALER_url_join grow gateway url []))"

section \<open>State\<close>

record CreditDetails =
  cd_amount :: TALER_Amount
  cd_execution_date :: abs_time
  cd_reserve_pub :: pub_key
  cd_debit_account_url :: string

record wirewatch =
  wwc_gnunet :: gnunet
  wwc_pg :: PostgresClosure
  wwc_grow :: grow
  wwc_idle_until :: abs_time
  wwc_test_mode :: bool

record WireAccount =
  ww_section_name :: string
  ww_wire_gateway_url :: "string option"
  ww_delayed_until :: abs_time
  ww_last_row_off :: u64
  ww_latest_row_off :: u64
  ww_batch_size :: u32
  ww_current_batch_size :: u32
  ww_reset_mode :: bool
  ww_delay :: bool

record wirewatch_state =
  ws_accounts :: "WireAccount list"
  ws_pos :: nat

abbreviation (input) INITIAL_BATCH_SIZE :: u32 where "INITIAL_BATCH_SIZE \<equiv> 1024"

text \<open>An account for which crediting is enabled\<close>

definition add_account_cb :: "bool \<Rightarrow> string \<Rightarrow> string option \<Rightarrow> wirewatch_state \<Rightarrow> wirewatch_state" where
  "add_account_cb reset section_name wire_gateway_url ws =
     ws\<lparr>ws_accounts := \<lparr>ww_section_name = section_name, ww_wire_gateway_url = wire_gateway_url, ww_delayed_until = 0, ww_last_row_off = 0,
          ww_latest_row_off = 0, ww_batch_size = INITIAL_BATCH_SIZE, ww_current_batch_size = 0, ww_reset_mode = reset,
          ww_delay = False\<rparr> # ws_accounts ws\<rparr>"

text \<open>What happens next: the reply of the bank is awaited, or a task is scheduled, or the process shuts down.\<close>

datatype watch_task = Await_history string | Watch_now | Watch_at abs_time | Watch_shutdown nat

abbreviation (input) WW_DATABASE_SESSION_FAIL :: nat where "WW_DATABASE_SESSION_FAIL \<equiv> 1"
abbreviation (input) WW_DATABASE_TRANSACTION_BEGIN_FAIL :: nat where "WW_DATABASE_TRANSACTION_BEGIN_FAIL \<equiv> 2"
abbreviation (input) WW_DATABASE_SELECT_LATEST_HARD_FAIL :: nat where "WW_DATABASE_SELECT_LATEST_HARD_FAIL \<equiv> 3"
abbreviation (input) WW_BANK_REQUEST_HISTORY_FAIL :: nat where "WW_BANK_REQUEST_HISTORY_FAIL \<equiv> 4"

section \<open>Asking for transfers\<close>

definition sql_reserves_in_get_latest_wire_reference :: "string \<Rightarrow> tables \<Rightarrow> u64 list" where
  "sql_reserves_in_get_latest_wire_reference exchange_account db =
     map ri_wire_reference (take 1 (rev (sort_key ri_serial_id
       (filter (\<lambda>r. ri_exchange_account_section r = exchange_account) (t_reserves_in db)))))"

definition postgres_get_latest_reserve_in_reference ::
    "gnunet \<Rightarrow> string \<Rightarrow> tables session \<Rightarrow> ((int \<times> u64 option) \<times> tables session) option" where
  "postgres_get_latest_reserve_in_reference g exchange_account_name s =
     pq_singleton_select g (sql_reserves_in_get_latest_wire_reference exchange_account_name) s"

text \<open>The request for the history of the current account\<close>

definition request_history :: "wirewatch \<Rightarrow> wirewatch_state \<Rightarrow> WireAccount \<Rightarrow> tables session
    \<Rightarrow> ((watch_task \<times> wirewatch_state) \<times> tables session) option" where
  "request_history ww ws wa s = do {
     let wa = wa\<lparr>ww_delay := True, ww_current_batch_size := 0\<rparr>;
     let ws = ws\<lparr>ws_accounts := (ws_accounts ws)[ws_pos ws := wa]\<rparr>;
     hh \<leftarrow> TALER_BANK_credit_history (wwc_grow ww) (ww_wire_gateway_url wa) (ww_last_row_off wa) (uint (ww_batch_size wa));
     Some (case hh of
         None \<Rightarrow> ((Watch_shutdown WW_BANK_REQUEST_HISTORY_FAIL, ws), postgres_rollback s)
       | Some url \<Rightarrow> ((Await_history url, ws), s))
   }"

definition find_transfers ::
    "wirewatch \<Rightarrow> wirewatch_state \<Rightarrow> tables session \<Rightarrow> ((watch_task \<times> wirewatch_state) \<times> tables session) option" where
  "find_transfers ww ws s =
     (let (ok, s) = postgres_get_session s
      in if \<not> ok then Some ((Watch_shutdown WW_DATABASE_SESSION_FAIL, ws), s)
         else do {
           (ok, s) \<leftarrow> postgres_start ''wirewatch check for incoming wire transfers'' (postgres_preflight s);
           if ok \<noteq> GNUNET_OK then Some ((Watch_shutdown WW_DATABASE_TRANSACTION_BEGIN_FAIL, ws), s)
           else do {
             let wa = ws_accounts ws ! ws_pos ws;
             if \<not> ww_reset_mode wa
             then do {
               ((qs, last_row_off), s) \<leftarrow> postgres_get_latest_reserve_in_reference (wwc_gnunet ww) (ww_section_name wa) s;
               if qs = GNUNET_DB_STATUS_HARD_ERROR
               then Some ((Watch_shutdown WW_DATABASE_SELECT_LATEST_HARD_FAIL, ws), postgres_rollback s)
               else if qs = GNUNET_DB_STATUS_SOFT_ERROR then Some ((Watch_now, ws), postgres_rollback s)
               else
                 (let wa = (case last_row_off of None \<Rightarrow> wa | Some off \<Rightarrow> wa\<lparr>ww_last_row_off := off\<rparr>)
                  in request_history ww ws (wa\<lparr>ww_reset_mode := False\<rparr>) s)
             }
             else request_history ww ws wa s
           }
         })"

section \<open>Storing what the bank reports\<close>

text \<open>The first result says whether to go on.\<close>

definition history_cb_entry ::
    "wirewatch \<Rightarrow> WireAccount \<Rightarrow> u64 \<Rightarrow> CreditDetails \<Rightarrow> tables session \<Rightarrow> ((watch_task option \<times> WireAccount) \<times> tables session) option" where
  "history_cb_entry ww wa serial_id details s = do {
     let wa = (if ww_current_batch_size wa < - 1 then wa\<lparr>ww_current_batch_size := ww_current_batch_size wa + 1\<rparr> else wa);
     (qs, s) \<leftarrow> postgres_reserves_in_insert (wwc_gnunet ww) (wwc_pg ww) (cd_reserve_pub details) (cd_amount details)
                  (cd_execution_date details) (cd_debit_account_url details) (ww_section_name wa) serial_id s;
     if qs = GNUNET_DB_STATUS_HARD_ERROR then Some ((Some (Watch_shutdown 0), wa), postgres_rollback s)
     else if qs = GNUNET_DB_STATUS_SOFT_ERROR then Some ((Some Watch_now, wa), postgres_rollback s)
     else Some ((None, wa\<lparr>ww_delay := False, ww_latest_row_off := serial_id\<rparr>), s)
   }"

text \<open>The end of the list, also when the bank has reported an error\<close>

definition history_cb_end ::
    "wirewatch \<Rightarrow> wirewatch_state \<Rightarrow> tables session \<Rightarrow> ((watch_task \<times> wirewatch_state) \<times> tables session) option" where
  "history_cb_end ww ws s = do {
     (qs, s) \<leftarrow> postgres_commit (wwc_gnunet ww) s;
     let wa = ws_accounts ws ! ws_pos ws;
     if qs = GNUNET_DB_STATUS_SOFT_ERROR
     then
       (let wa = (if 2 > ww_current_batch_size wa then wa\<lparr>ww_current_batch_size := ww_current_batch_size wa div 2\<rparr> else wa)
        in Some ((Watch_now, ws\<lparr>ws_accounts := (ws_accounts ws)[ws_pos ws := wa]\<rparr>), s))
     else
       (let wa = (if 0 < qs
                  then
                    (let wa = wa\<lparr>ww_last_row_off := ww_latest_row_off wa, ww_latest_row_off := 0\<rparr>
                     in if ww_current_batch_size wa = ww_batch_size wa \<and> - 1 > ww_batch_size wa
                        then wa\<lparr>ww_batch_size := ww_batch_size wa + 1\<rparr> else wa)
                  else wa);
            stop = ww_delay wa \<and> wwc_test_mode ww \<and> Suc (ws_pos ws) = length (ws_accounts ws);
            pos = (if ww_delay wa \<and> \<not> stop
                   then (if Suc (ws_pos ws) = length (ws_accounts ws) then 0 else Suc (ws_pos ws)) else ws_pos ws);
            wa = (if ww_delay wa \<and> \<not> stop then wa\<lparr>ww_delayed_until := wwc_idle_until ww\<rparr> else wa);
            ws = ws\<lparr>ws_accounts := (ws_accounts ws)[ws_pos ws := wa], ws_pos := pos\<rparr>
        in Some ((if stop then Watch_shutdown 0 else Watch_at (ww_delayed_until (ws_accounts ws ! pos)), ws), s))
   }"

text \<open>The entries of the reply, \<open>None\<close> for one that is malformed. The results are whether the reply was well-formed, and what the callback has
  scheduled if it has ended the iteration.\<close>

fun parse_account_history ::
    "wirewatch \<Rightarrow> (u64 \<times> CreditDetails) option list \<Rightarrow> WireAccount \<Rightarrow> tables session
       \<Rightarrow> ((bool \<times> watch_task option \<times> WireAccount) \<times> tables session) option" where
  "parse_account_history ww [] wa s = Some ((True, None, wa), s)"
| "parse_account_history ww (None # es) wa s = Some ((False, None, wa), s)"
| "parse_account_history ww (Some (row_id, td) # es) wa s = do {
     ((stop, wa), s) \<leftarrow> history_cb_entry ww wa row_id td s;
     case stop of
       Some task \<Rightarrow> Some ((True, Some task, wa), s)
     | None \<Rightarrow> parse_account_history ww es wa s
   }"

text \<open>The reply with its status; it has no list if \<^verbatim>\<open>incoming_transactions\<close> is not an array.\<close>

definition handle_credit_history_finished ::
    "wirewatch \<Rightarrow> wirewatch_state \<Rightarrow> nat \<Rightarrow> (u64 \<times> CreditDetails) option list option \<Rightarrow> tables session
       \<Rightarrow> ((watch_task \<times> wirewatch_state) \<times> tables session) option" where
  "handle_credit_history_finished ww ws response_code entries s =
     (case (if response_code = MHD_HTTP_OK then entries else None) of
        None \<Rightarrow> history_cb_end ww ws s
      | Some es \<Rightarrow> do {
          ((ok, stop, wa), s) \<leftarrow> parse_account_history ww es (ws_accounts ws ! ws_pos ws) s;
          let ws = ws\<lparr>ws_accounts := (ws_accounts ws)[ws_pos ws := wa]\<rparr>;
          case stop of
            Some task \<Rightarrow> Some ((task, ws), s)
          | None \<Rightarrow> history_cb_end ww ws s
        })"

end
