(* ===== verification/Wire_Transfer.thy ===== *)
theory Wire_Transfer
  imports Fakebank Aggregator Transaction_Runner
begin

text \<open>
  \<^verbatim>\<open>src/exchange/taler-exchange-transfer.c\<close>: the process that executes the wire transfers that were prepared. A run takes the
  oldest transfer that is not finished, in a transaction that stays open while the bank is asked to execute it, and marks
  the transfer as finished when the bank has confirmed it. The part of \<^verbatim>\<open>bank_api_transfer.c\<close> that handles the reply of the
  bank is here too. The global variables that a run reads are the record \<open>transferer\<close>; the variable \<^verbatim>\<open>wpd\<close>, for the
  transfer that is being executed, is in the result of a run and in the state of the process.
\<close>

section \<open>State\<close>

record transferer =
  tf_gnunet :: gnunet
  tf_crypto :: crypto
  tf_grow :: grow
  tf_accounts :: "TALER_EXCHANGEDB_WireAccount list"
  tf_test_mode :: bool

record WirePrepareData =
  wpd_row_id :: u64
  wpd_wa :: TALER_EXCHANGEDB_WireAccount

text \<open>The codes of this process are other numbers than those of the aggregator.\<close>

abbreviation (input) TF_WIRE_TRANSFER_FAILED :: nat where "TF_WIRE_TRANSFER_FAILED \<equiv> 1"
abbreviation (input) TF_DATABASE_COMMIT_HARD_FAIL :: nat where "TF_DATABASE_COMMIT_HARD_FAIL \<equiv> 2"
abbreviation (input) TF_INVARIANT_FAILURE :: nat where "TF_INVARIANT_FAILURE \<equiv> 3"
abbreviation (input) TF_WIRE_ACCOUNT_NOT_CONFIGURED :: nat where "TF_WIRE_ACCOUNT_NOT_CONFIGURED \<equiv> 4"
abbreviation (input) TF_WIRE_TRANSFER_BEGIN_FAIL :: nat where "TF_WIRE_TRANSFER_BEGIN_FAIL \<equiv> 5"
abbreviation (input) TF_DATABASE_TRANSACTION_BEGIN_FAIL :: nat where "TF_DATABASE_TRANSACTION_BEGIN_FAIL \<equiv> 6"
abbreviation (input) TF_DATABASE_SESSION_START_FAIL :: nat where "TF_DATABASE_SESSION_START_FAIL \<equiv> 7"
abbreviation (input) TF_DATABASE_FETCH_FAILURE :: nat where "TF_DATABASE_FETCH_FAILURE \<equiv> 11"

text \<open>After a run the process waits for the bank, or it goes on.\<close>

datatype transfer_task = Await WirePrepareData transfer_request | Continue next_task

section \<open>Starting a transfer\<close>

text \<open>An empty buffer is delivered as \<^verbatim>\<open>NULL\<close>.\<close>

definition wire_prepare_cb ::
    "transferer \<Rightarrow> transfer_task \<Rightarrow> u64 \<Rightarrow> string \<Rightarrow> string \<Rightarrow> tables session \<Rightarrow> (transfer_task \<times> tables session) option" where
  "wire_prepare_cb tf c rowid wire_method buf s =
     (if buf = [] then Some (Continue (Shutdown TF_DATABASE_FETCH_FAILURE), postgres_rollback s)
      else case TALER_EXCHANGEDB_find_account_by_method (tf_accounts tf) wire_method of
        None \<Rightarrow> Some (Continue (Shutdown TF_WIRE_ACCOUNT_NOT_CONFIGURED), postgres_rollback s)
      | Some wa \<Rightarrow> do {
          eh \<leftarrow> TALER_BANK_transfer (tf_crypto tf) (tf_grow tf) (wa_wire_gateway_url wa) buf;
          case eh of
            None \<Rightarrow> Some (Continue (Shutdown TF_WIRE_TRANSFER_BEGIN_FAIL), postgres_rollback s)
          | Some r \<Rightarrow> Some (Await \<lparr>wpd_row_id = rowid, wpd_wa = wa\<rparr> r, s)
        })"

definition run_transfers :: "transferer \<Rightarrow> tables session \<Rightarrow> (transfer_task \<times> tables session) option" where
  "run_transfers tf s =
     (let (ok, s) = postgres_get_session s
      in if \<not> ok then Some (Continue (Shutdown TF_DATABASE_SESSION_START_FAIL), s)
         else do {
           (ok, s) \<leftarrow> postgres_start ''aggregator run transfer'' s;
           if ok \<noteq> GNUNET_OK then Some (Continue (Shutdown TF_DATABASE_TRANSACTION_BEGIN_FAIL), s)
           else do {
             ((qs, task), s) \<leftarrow> postgres_wire_prepare_data_get (tf_gnunet tf) (wire_prepare_cb tf) (Continue Run_now) s;
             if qs = GNUNET_DB_STATUS_SUCCESS_ONE_RESULT then Some (task, s)
             else
               (let s = postgres_rollback s
                in if qs = GNUNET_DB_STATUS_HARD_ERROR then Some (Continue (Shutdown TF_DATABASE_COMMIT_HARD_FAIL), s)
                   else if qs = GNUNET_DB_STATUS_SOFT_ERROR then Some (Continue Run_now, s)
                   else Some (Continue (if tf_test_mode tf then Shutdown 0 else Run_delayed), s))
           }
         })"

section \<open>The reply of the bank\<close>

text \<open>The status, the row and the time that the callback gets: of a reply with the status 200 the row and the time are parsed. The
  error code is only logged.\<close>

definition handle_transfer_finished :: "nat \<Rightarrow> (u64 \<times> abs_time) option \<Rightarrow> nat \<times> u64 \<times> abs_time" where
  "handle_transfer_finished response_code parsed =
     (if response_code = MHD_HTTP_OK
      then (case parsed of None \<Rightarrow> (0, - 1, - 1) | Some (row_id, timestamp) \<Rightarrow> (response_code, row_id, timestamp))
      else (response_code, - 1, - 1))"

definition wire_confirm_cb ::
    "transferer \<Rightarrow> WirePrepareData \<Rightarrow> nat \<Rightarrow> tables session \<Rightarrow> (next_task \<times> tables session) option" where
  "wire_confirm_cb tf wpd http_status_code s =
     (if http_status_code \<noteq> MHD_HTTP_OK then Some (Shutdown TF_WIRE_TRANSFER_FAILED, postgres_rollback s)
      else do {
        (qs, s) \<leftarrow> postgres_wire_prepare_data_mark_finished (tf_gnunet tf) (wpd_row_id wpd) s;
        if 0 \<ge> qs
        then Some (if qs = GNUNET_DB_STATUS_SOFT_ERROR then Run_now else Shutdown TF_DATABASE_COMMIT_HARD_FAIL, postgres_rollback s)
        else do {
          (qs, s) \<leftarrow> postgres_commit (tf_gnunet tf) s;
          Some (if qs = GNUNET_DB_STATUS_SOFT_ERROR then Run_now
                else if qs = GNUNET_DB_STATUS_HARD_ERROR then Shutdown TF_DATABASE_COMMIT_HARD_FAIL
                else if qs = GNUNET_DB_STATUS_SUCCESS_NO_RESULTS then Run_now
                else Shutdown TF_INVARIANT_FAILURE, s)
        }
      })"

text \<open>The end of the process while the bank is working\<close>

definition shutdown_task :: "tables session \<Rightarrow> tables session" where
  "shutdown_task s = postgres_rollback s"

end
