(* ===== verification/Transfer_Sequences.thy ===== *)
theory Transfer_Sequences
  imports Wire_Transfer
begin

text \<open>
  The process that executes transfers together with the bank: replies get lost, the process is stopped, the database fails, and new transfers
  are prepared meanwhile. Every prepared transfer is executed at most once, one that is marked as finished exactly once, and
  the bank executes nothing else.
\<close>

section \<open>Requests and their transactions\<close>

text \<open>The request that is made of a prepared transfer\<close>

definition prewire_request :: "transferer \<Rightarrow> prewire_row \<Rightarrow> transfer_request option" where
  "prewire_request tf pw =
     (if pw_buf pw = [] then None
      else case TALER_EXCHANGEDB_find_account_by_method (tf_accounts tf) (pw_type pw) of
        None \<Rightarrow> None
      | Some wa \<Rightarrow>
          (case TALER_BANK_transfer (tf_crypto tf) (tf_grow tf) (wa_wire_gateway_url wa) (pw_buf pw) of
             Some (Some r) \<Rightarrow> Some r
           | _ \<Rightarrow> None))"

text \<open>The bank gets the request at the path that follows its base URL, where the account is the first component.\<close>

definition url_path :: "TALER_FAKEBANK_Handle \<Rightarrow> string \<Rightarrow> string" where
  "url_path h url = CHR ''/'' # drop (length (fb_my_baseurl h)) url"

definition request_at :: "TALER_FAKEBANK_Handle \<Rightarrow> string \<Rightarrow> string \<Rightarrow> transfer_request \<Rightarrow> bool" where
  "request_at h account credit r \<longleftrightarrow> tr_url r = fb_my_baseurl h @ account @ ''/transfer'' \<and> account \<noteq> [] \<and> CHR ''/'' \<notin> set account
     \<and> TALER_xtalerbank_account_from_payto (tr_credit_account r) = Some credit
     \<and> amount_in (fb_currency h) (tr_amount r) \<and> tr_request_uid r \<noteq> 0"

definition bank_handles ::
    "gnunet \<Rightarrow> abs_time \<Rightarrow> bank_upload \<Rightarrow> transfer_request \<Rightarrow> TALER_FAKEBANK_Handle \<Rightarrow> (bank_reply option \<times> TALER_FAKEBANK_Handle) option" where
  "bank_handles g now up r h = fakebank_handle_mhd_request g now (url_path h (tr_url r)) ''POST'' (up\<lparr>up_transfer := Some r\<rparr>) h"

text \<open>The transaction of a prepared transfer\<close>

definition executed :: "transferer \<Rightarrow> TALER_FAKEBANK_Handle \<Rightarrow> prewire_row \<Rightarrow> Transaction \<Rightarrow> bool" where
  "executed tf h pw t \<longleftrightarrow> (\<exists>r account credit. prewire_request tf pw = Some r \<and> request_at h account credit r
     \<and> transfer_made h (tr_request_uid r) t \<and> transfer_matches account credit (tr_amount r) (tr_wtid r) t)"

text \<open>Prepared transfers that can be executed: the buffers are what the aggregator makes, rows and identifiers are distinct.\<close>

definition prewire_uid :: "transferer \<Rightarrow> prewire_row \<Rightarrow> hash_code option" where
  "prewire_uid tf pw = map_option tr_request_uid (prewire_request tf pw)"

definition prewire_ok :: "transferer \<Rightarrow> TALER_FAKEBANK_Handle \<Rightarrow> prewire_row list \<Rightarrow> bool" where
  "prewire_ok tf h rows \<longleftrightarrow> distinct (map pw_prewire_uuid rows) \<and> distinct (map (prewire_uid tf) rows)
     \<and> (\<forall>pw\<in>set rows. \<exists>r account credit. prewire_request tf pw = Some r \<and> request_at h account credit r)"

section \<open>Steps\<close>

record transfer_system =
  sy_session :: "tables session"
  sy_bank :: TALER_FAKEBANK_Handle
  sy_wpd :: "(WirePrepareData \<times> transfer_request) option"

fun task_wpd :: "transfer_task \<Rightarrow> (WirePrepareData \<times> transfer_request) option" where
  "task_wpd (Await w r) = Some (w, r)"
| "task_wpd (Continue t) = None"

text \<open>The status that the callback gets for a reply of the bank\<close>

fun reply_status :: "bank_reply option \<Rightarrow> nat" where
  "reply_status (Some (BANK_TRANSFERRED row_id timestamp)) = fst (handle_transfer_finished MHD_HTTP_OK (Some (of_int row_id, timestamp)))"
| "reply_status (Some BANK_UID_REUSED) = fst (handle_transfer_finished MHD_HTTP_CONFLICT None)"
| "reply_status (Some r) = fst (handle_transfer_finished MHD_HTTP_OK None)"
| "reply_status None = fst (handle_transfer_finished 0 None)"

text \<open>A request that was sent reaches the bank or not.\<close>

definition bank_may_handle :: "gnunet \<Rightarrow> transfer_request \<Rightarrow> TALER_FAKEBANK_Handle \<Rightarrow> TALER_FAKEBANK_Handle \<Rightarrow> bool" where
  "bank_may_handle g r h h' \<longleftrightarrow> h' = h \<or> (\<exists>now up reply. bank_handles g now up r h = Some (reply, h'))"

inductive transfer_step :: "transferer \<Rightarrow> gnunet \<Rightarrow> transfer_system \<Rightarrow> transfer_system \<Rightarrow> bool" for tf g where
  run: "sy_wpd y = None \<Longrightarrow> run_transfers tf (sy_session y) = Some (task, s) \<Longrightarrow>
     transfer_step tf g y (y\<lparr>sy_session := s, sy_wpd := task_wpd task\<rparr>)"
| answered: "sy_wpd y = Some (w, r) \<Longrightarrow> fb_serial_counter (sy_bank y) \<noteq> - 1 \<Longrightarrow>
     bank_handles g now up r (sy_bank y) = Some (reply, h) \<Longrightarrow>
     wire_confirm_cb tf w (reply_status reply) (sy_session y) = Some (task, s) \<Longrightarrow>
     transfer_step tf g y (y\<lparr>sy_session := s, sy_bank := h, sy_wpd := None\<rparr>)"
| unanswered: "sy_wpd y = Some (w, r) \<Longrightarrow> fb_serial_counter (sy_bank y) \<noteq> - 1 \<Longrightarrow> bank_may_handle g r (sy_bank y) h \<Longrightarrow>
     code \<noteq> MHD_HTTP_OK \<Longrightarrow> wire_confirm_cb tf w code (sy_session y) = Some (task, s) \<Longrightarrow>
     transfer_step tf g y (y\<lparr>sy_session := s, sy_bank := h, sy_wpd := None\<rparr>)"
| stopped: "sy_wpd y = Some (w, r) \<Longrightarrow> fb_serial_counter (sy_bank y) \<noteq> - 1 \<Longrightarrow> bank_may_handle g r (sy_bank y) h \<Longrightarrow>
     transfer_step tf g y (y\<lparr>sy_session := shutdown_task (sy_session y), sy_bank := h, sy_wpd := None\<rparr>)"
| incoming: "fb_serial_counter (sy_bank y) \<noteq> - 1 \<Longrightarrow> amount_in (fb_currency (sy_bank y)) amount \<Longrightarrow>
     TALER_FAKEBANK_make_admin_transfer g now (Some debit) (Some credit) amount pub (sy_bank y) = Some (row, h) \<Longrightarrow>
     transfer_step tf g y (y\<lparr>sy_bank := h\<rparr>)"
| prepared: "sy_wpd y = None \<Longrightarrow> t_prewire db = t_prewire (s_committed (sy_session y)) @ pws \<Longrightarrow> \<forall>pw\<in>set pws. \<not> pw_finished pw \<Longrightarrow>
     prewire_ok tf (sy_bank y) (t_prewire db) \<Longrightarrow>
     transfer_step tf g y (y\<lparr>sy_session := (sy_session y)\<lparr>s_db := db, s_committed := db\<rparr>\<rparr>)"
| outcomes: "transfer_step tf g y (y\<lparr>sy_session := (sy_session y)\<lparr>s_outcomes := xs\<rparr>\<rparr>)"

section \<open>The invariant\<close>

definition transfers_ok :: "transferer \<Rightarrow> transfer_system \<Rightarrow> bool" where
  "transfers_ok tf y \<longleftrightarrow> (let s = sy_session y; h = sy_bank y; rows = t_prewire (s_committed s) in
     fakebank_ok h \<and> prewire_ok tf h rows
     \<and> (\<forall>t\<in>set (fb_transactions h). is_debit t \<longrightarrow> (\<exists>pw\<in>set rows. executed tf h pw t))
     \<and> (\<forall>pw\<in>set rows. pw_finished pw \<longrightarrow> (\<exists>t. executed tf h pw t))
     \<and> (case sy_wpd y of
          None \<Rightarrow> idle s
        | Some (w, r) \<Rightarrow> in_fresh_tx s \<and> (\<exists>pw\<in>set rows. pw_prewire_uuid pw = wpd_row_id w \<and> prewire_request tf pw = Some r)))"

text \<open>The bank goes on.\<close>

definition bank_extends :: "TALER_FAKEBANK_Handle \<Rightarrow> TALER_FAKEBANK_Handle \<Rightarrow> bool" where
  "bank_extends h h' \<longleftrightarrow> fb_currency h' = fb_currency h \<and> fb_my_baseurl h' = fb_my_baseurl h
     \<and> set (fb_transactions h) \<subseteq> set (fb_transactions h')"

lemma bank_extends_request: "bank_extends h h' \<Longrightarrow> request_at h' = request_at h"
  by (simp add: bank_extends_def request_at_def [abs_def])

lemma bank_extends_executed:
  assumes "bank_extends h h'" and "executed tf h pw t"
  shows "executed tf h' pw t"
proof -
  have "transfer_made h uid t \<Longrightarrow> transfer_made h' uid t" for uid using assms(1) by (auto simp: transfer_made_def bank_extends_def)
  then show ?thesis using assms(2) unfolding executed_def bank_extends_request [OF assms(1)] by blast
qed

lemma bank_extends_prewire: "bank_extends h h' \<Longrightarrow> prewire_ok tf h' rows = prewire_ok tf h rows"
  by (simp add: prewire_ok_def bank_extends_request)

lemma prewire_request_finished [simp]: "prewire_request tf (pw\<lparr>pw_finished := b\<rparr>) = prewire_request tf pw"
  by (simp add: prewire_request_def cong: option.case_cong)

lemma executed_finished [simp]: "executed tf h (pw\<lparr>pw_finished := b\<rparr>) t = executed tf h pw t"
  by (simp add: executed_def)

text \<open>The bank executes a request that reaches it, or has executed it before.\<close>

lemma strchr_append: "c \<notin> set xs \<Longrightarrow> strchr (xs @ c # ys) c = Some (xs, ys)"
  by (induction xs) (auto simp: strchr_def split: list.splits)

lemma bank_handles_transfer:
  assumes "request_at h account credit r"
  shows "bank_handles g now up r h = handle_transfer g now account (Some r) h"
proof -
  have "strchr (account @ ''/transfer'') CHR ''/'' = Some (account, ''transfer'')"
    using strchr_append [of "CHR ''/''" account "''transfer''"] assms by (simp add: request_at_def)
  moreover have "length (CHR ''/'' # account @ ''/transfer'') > 1" by simp
  ultimately show ?thesis
    using assms by (simp add: bank_handles_def url_path_def fakebank_handle_mhd_request_def request_at_def serve_def)
qed

text \<open>A reply of 200 means that the transfer was made.\<close>

lemma bank_handles_wp:
  assumes ok: "fakebank_ok h" "fb_serial_counter h \<noteq> - 1" and r: "request_at h account credit r"
  shows "wp (bank_handles g now up r h) (\<lambda>reply h'. fakebank_ok h' \<and> bank_extends h h'
     \<and> (\<forall>t\<in>set (fb_transactions h') - set (fb_transactions h). is_debit t \<longrightarrow> transfer_made h' (tr_request_uid r) t
          \<and> transfer_matches account credit (tr_amount r) (tr_wtid r) t)
     \<and> (reply_status reply = MHD_HTTP_OK \<longrightarrow>
          (\<exists>t. transfer_made h' (tr_request_uid r) t \<and> transfer_matches account credit (tr_amount r) (tr_wtid r) t)))"
proof -
  have r': "amount_in (fb_currency h) (tr_amount r)" "tr_request_uid r \<noteq> 0" "TALER_xtalerbank_account_from_payto (tr_credit_account r) = Some credit"
    using r by (auto simp: request_at_def)
  have "wp (handle_transfer g now account (Some r) h) (\<lambda>reply h'. fakebank_ok h' \<and> bank_extends h h'
     \<and> (\<forall>t\<in>set (fb_transactions h') - set (fb_transactions h). is_debit t \<longrightarrow> transfer_made h' (tr_request_uid r) t
          \<and> transfer_matches account credit (tr_amount r) (tr_wtid r) t)
     \<and> (reply_status reply = MHD_HTTP_OK \<longrightarrow>
          (\<exists>t. transfer_made h' (tr_request_uid r) t \<and> transfer_matches account credit (tr_amount r) (tr_wtid r) t)))"
    unfolding handle_transfer_def option.case r'(3) Option.bind.simps
  proof (rule wp_bindI [OF make_transfer_wp [OF ok r'(1,2)]], clarsimp, elim disjE exE conjE, goal_cases)
    case (1 ret h' t)
    then show ?case by (simp add: bank_extends_def handle_transfer_finished_def)
  next
    case (2 ret h' t)
    then show ?case by (auto simp: bank_extends_def)
  next
    case (3 ret h' t)
    then have "transfer_made h' (tr_request_uid r) t" by (simp add: transfer_made_def)
    with 3 show ?case by (auto simp: bank_extends_def)
  qed
  then show ?thesis by (simp only: bank_handles_transfer [OF r])
qed

section \<open>What the process does to the database\<close>

lemma prewire_get_rows: "sql_wire_prepare_data_get db = [pw] \<Longrightarrow> pw \<in> set (t_prewire db) \<and> \<not> pw_finished pw"
proof -
  assume "sql_wire_prepare_data_get db = [pw]"
  then have "pw \<in> set (take 1 (sort_key pw_prewire_uuid (filter (\<lambda>r. \<not> pw_finished r) (t_prewire db))))"
    by (simp add: sql_wire_prepare_data_get_def)
  then show ?thesis by (auto dest!: in_set_takeD)
qed

definition transfer_started :: "transferer \<Rightarrow> tables \<Rightarrow> transfer_task \<Rightarrow> tables session \<Rightarrow> bool" where
  "transfer_started tf db task s' \<longleftrightarrow> s_committed s' = db
     \<and> (case task_wpd task of
          None \<Rightarrow> idle s'
        | Some (w, r) \<Rightarrow> in_fresh_tx s' \<and> (\<exists>pw\<in>set (t_prewire db). pw_prewire_uuid pw = wpd_row_id w \<and> prewire_request tf pw = Some r))"

lemma transfer_not_started: "s_committed s = db \<Longrightarrow> transfer_started tf db (Continue t) (postgres_rollback s)"
  using rollback_idle [of s] by (simp add: transfer_started_def)

lemma wire_prepare_cb_wp:
  assumes "in_fresh_tx s" and "s_committed s = db" and "pw \<in> set (t_prewire db)" and "prewire_request tf pw \<noteq> None"
  shows "wp (wire_prepare_cb tf c (pw_prewire_uuid pw) (pw_type pw) (pw_buf pw) s) (transfer_started tf db)"
proof -
  obtain r where r: "prewire_request tf pw = Some r" using assms(4) by blast
  then obtain wa where "pw_buf pw \<noteq> []" "TALER_EXCHANGEDB_find_account_by_method (tf_accounts tf) (pw_type pw) = Some wa"
    "TALER_BANK_transfer (tf_crypto tf) (tf_grow tf) (wa_wire_gateway_url wa) (pw_buf pw) = Some (Some r)"
    by (auto simp: prewire_request_def split: if_splits option.splits)
  then show ?thesis using assms r by (auto simp: wire_prepare_cb_def transfer_started_def)
qed

lemma run_transfers_wp:
  assumes g: "gnunet_ok (tf_gnunet tf)" and "idle s" and rows: "prewire_ok tf h (t_prewire (s_committed s))"
  shows "wp (run_transfers tf s) (transfer_started tf (s_committed s))"
proof -
  let ?db = "s_committed s"
  obtain ok s0 where s0: "postgres_get_session s = (ok, s0)" by fastforce
  note i0 = get_session_idle [OF s0 assms(2)]
  have "wp (do {
       (ok, s) \<leftarrow> postgres_start ''aggregator run transfer'' s0;
       if ok \<noteq> GNUNET_OK then Some (Continue (Shutdown TF_DATABASE_TRANSACTION_BEGIN_FAIL), s)
       else do {
         ((qs, task), s) \<leftarrow> postgres_wire_prepare_data_get (tf_gnunet tf) (wire_prepare_cb tf) (Continue Run_now) s;
         if qs = GNUNET_DB_STATUS_SUCCESS_ONE_RESULT then Some (task, s)
         else
           (let s = postgres_rollback s
            in if qs = GNUNET_DB_STATUS_HARD_ERROR then Some (Continue (Shutdown TF_DATABASE_COMMIT_HARD_FAIL), s)
               else if qs = GNUNET_DB_STATUS_SOFT_ERROR then Some (Continue Run_now, s)
               else Some (Continue (if tf_test_mode tf then Shutdown 0 else Run_delayed), s))
       } }) (transfer_started tf ?db)"
  proof (rule wp_bindI [OF start_wp], goal_cases)
    case (2 ok s1)
    show ?case
    proof (cases "ok = GNUNET_OK")
      case True
      with 2 i0 have s1: "in_fresh_tx s1" "s_committed s1 = ?db" by auto
      then have "session_ok s1" by (simp add: in_fresh_tx_def)
      have "wp (postgres_wire_prepare_data_get (tf_gnunet tf) (wire_prepare_cb tf) (Continue Run_now) s1) (\<lambda>(qs, task) s'.
          if qs = GNUNET_DB_STATUS_SUCCESS_ONE_RESULT then transfer_started tf ?db task s' else s_committed s' = ?db)"
        unfolding postgres_wire_prepare_data_get_def
      proof (rule wp_bindI [OF pq_singleton_select_wp [OF g \<open>session_ok s1\<close>]], goal_cases)
        case (1 y s2)
        obtain qs row where y: "y = (qs, row)" by (cases y)
        show ?case
        proof (cases row)
          case None
          with 1 y s1 show ?thesis by (auto simp: unchanged_def)
        next
          case (Some pw)
          with 1 y have s2: "unchanged s1 s2" "\<not> s_failed s2" "qs = 1" "sql_wire_prepare_data_get (s_db s1) = [pw]" by auto
          then have f: "in_fresh_tx s2" "s_committed s2 = ?db" using s1 session_ok_unchanged [of s1 s2]
            by (auto simp: in_fresh_tx_def unchanged_def)
          have pw: "pw \<in> set (t_prewire ?db)" using prewire_get_rows [OF s2(4)] s1 by (simp add: in_fresh_tx_def)
          then have "prewire_request tf pw \<noteq> None" using rows by (auto simp: prewire_ok_def)
          from wire_prepare_cb_wp [OF f pw this, of "Continue Run_now"] y Some s2(3) show ?thesis by (simp add: wp_bind)
        qed
      qed
      then have "wp (do {
         ((qs, task), s) \<leftarrow> postgres_wire_prepare_data_get (tf_gnunet tf) (wire_prepare_cb tf) (Continue Run_now) s1;
         if qs = GNUNET_DB_STATUS_SUCCESS_ONE_RESULT then Some (task, s)
         else
           (let s = postgres_rollback s
            in if qs = GNUNET_DB_STATUS_HARD_ERROR then Some (Continue (Shutdown TF_DATABASE_COMMIT_HARD_FAIL), s)
               else if qs = GNUNET_DB_STATUS_SOFT_ERROR then Some (Continue Run_now, s)
               else Some (Continue (if tf_test_mode tf then Shutdown 0 else Run_delayed), s))
       }) (transfer_started tf ?db)"
        by (rule wp_bindI) (use transfer_not_started in \<open>auto simp: Let_def split: if_splits\<close>)
      with True show ?thesis by simp
    qed (use 2 i0 in \<open>auto simp: transfer_started_def\<close>)
  qed (use i0 in simp)
  then show ?thesis using i0 by (auto simp: run_transfers_def s0 transfer_started_def)
qed

definition finish_prewire :: "u64 \<Rightarrow> tables \<Rightarrow> tables" where
  "finish_prewire i db = db\<lparr>t_prewire := map (\<lambda>r. if pw_prewire_uuid r = i then r\<lparr>pw_finished := True\<rparr> else r) (t_prewire db)\<rparr>"

lemma wire_confirm_wp:
  assumes g: "gnunet_ok (tf_gnunet tf)" and s: "in_fresh_tx s" "s_committed s = db"
  shows "wp (wire_confirm_cb tf w code s) (\<lambda>task s'. idle s'
     \<and> (s_committed s' = db \<or> code = MHD_HTTP_OK \<and> s_committed s' = finish_prewire (wpd_row_id w) db))"
proof (cases "code = MHD_HTTP_OK")
  case True
  have "session_ok s" using s by (simp add: in_fresh_tx_def)
  have "wp (do {
        (qs, s) \<leftarrow> postgres_wire_prepare_data_mark_finished (tf_gnunet tf) (wpd_row_id w) s;
        if 0 \<ge> qs
        then Some (if qs = GNUNET_DB_STATUS_SOFT_ERROR then Run_now else Shutdown TF_DATABASE_COMMIT_HARD_FAIL, postgres_rollback s)
        else do {
          (qs, s) \<leftarrow> postgres_commit (tf_gnunet tf) s;
          Some (if qs = GNUNET_DB_STATUS_SOFT_ERROR then Run_now
                else if qs = GNUNET_DB_STATUS_HARD_ERROR then Shutdown TF_DATABASE_COMMIT_HARD_FAIL
                else if qs = GNUNET_DB_STATUS_SUCCESS_NO_RESULTS then Run_now
                else Shutdown TF_INVARIANT_FAILURE, s)
        } }) (\<lambda>task s'. idle s' \<and> (s_committed s' = db \<or> s_committed s' = finish_prewire (wpd_row_id w) db))"
    unfolding postgres_wire_prepare_data_mark_finished_def
  proof (rule wp_bindI [OF pq_non_select_wp [OF g \<open>session_ok s\<close>]], goal_cases)
    case (1 qs s1)
    show ?case
    proof (cases "0 \<ge> qs")
      case True
      have "s_committed s1 = db" using 1 s by (auto simp: unchanged_def updated_def in_fresh_tx_def)
      with True rollback_idle [of s1] show ?thesis by simp
    next
      case False
      with 1 obtain db1 where "updated s db1 s1" "db1 = finish_prewire (wpd_row_id w) (s_db s)"
        by (auto simp: sql_wire_prepare_data_mark_done_def finish_prewire_def)
      then have s1: "s_committed s1 = db" "tx_outcome s1 = finish_prewire (wpd_row_id w) db" using s
        by (auto simp: updated_def in_fresh_tx_def tx_outcome_def)
      have "wp (postgres_commit (tf_gnunet tf) s1) (\<lambda>qs s'. idle s' \<and> (s_committed s' = db \<or> s_committed s' = finish_prewire (wpd_row_id w) db))"
        by (rule wp_mono [OF commit_wp [OF g]]) (use s1 in auto)
      with False show ?thesis by (simp add: wp_bind)
    qed
  qed
  then show ?thesis using True by (simp add: wire_confirm_cb_def)
qed (use s rollback_idle [of s] in \<open>simp add: wire_confirm_cb_def\<close>)

section \<open>The invariant is kept\<close>

text \<open>The books of the bank agree with the prepared transfers.\<close>

definition books_ok :: "transferer \<Rightarrow> prewire_row list \<Rightarrow> TALER_FAKEBANK_Handle \<Rightarrow> bool" where
  "books_ok tf rows h \<longleftrightarrow> fakebank_ok h \<and> prewire_ok tf h rows
     \<and> (\<forall>t\<in>set (fb_transactions h). is_debit t \<longrightarrow> (\<exists>pw\<in>set rows. executed tf h pw t))
     \<and> (\<forall>pw\<in>set rows. pw_finished pw \<longrightarrow> (\<exists>t. executed tf h pw t))"

definition wpd_ok :: "transferer \<Rightarrow> prewire_row list \<Rightarrow> tables session \<Rightarrow> (WirePrepareData \<times> transfer_request) option \<Rightarrow> bool" where
  "wpd_ok tf rows s wpd \<longleftrightarrow> (case wpd of
       None \<Rightarrow> idle s
     | Some (w, r) \<Rightarrow> in_fresh_tx s \<and> (\<exists>pw\<in>set rows. pw_prewire_uuid pw = wpd_row_id w \<and> prewire_request tf pw = Some r))"

lemma transfers_ok_iff:
  "transfers_ok tf y \<longleftrightarrow> books_ok tf (t_prewire (s_committed (sy_session y))) (sy_bank y)
     \<and> wpd_ok tf (t_prewire (s_committed (sy_session y))) (sy_session y) (sy_wpd y)"
  by (simp add: transfers_ok_def books_ok_def wpd_ok_def Let_def)

lemma books_ok_bank:
  assumes b: "books_ok tf rows h" and "bank_extends h h'" and "fakebank_ok h'"
    and new: "\<forall>t\<in>set (fb_transactions h') - set (fb_transactions h). is_debit t \<longrightarrow> (\<exists>pw\<in>set rows. executed tf h' pw t)"
  shows "books_ok tf rows h'"
proof -
  note e = bank_extends_executed [OF assms(2)] and b' = b [unfolded books_ok_def]
  have "\<exists>pw\<in>set rows. executed tf h' pw t" if "t \<in> set (fb_transactions h')" "is_debit t" for t
    using new b' e that by (cases "t \<in> set (fb_transactions h)") blast+
  moreover have "\<exists>t. executed tf h' pw t" if "pw \<in> set rows" "pw_finished pw" for pw
    using b' e that by blast
  ultimately show ?thesis using assms(3) b' bank_extends_prewire [OF assms(2)] by (simp add: books_ok_def)
qed

lemma finish_prewire_rows:
  obtains f where "t_prewire (finish_prewire i db) = map f (t_prewire db)"
    "\<And>q. prewire_request tf (f q) = prewire_request tf q" "\<And>q. pw_prewire_uuid (f q) = pw_prewire_uuid q"
    "\<And>q. pw_finished (f q) \<Longrightarrow> pw_finished q \<or> pw_prewire_uuid q = i"
  by (rule that [of "\<lambda>r. if pw_prewire_uuid r = i then r\<lparr>pw_finished := True\<rparr> else r"])
    (auto simp: finish_prewire_def split: if_splits)

lemma books_ok_finish:
  assumes b: "books_ok tf (t_prewire db) h" and pw: "pw \<in> set (t_prewire db)" "pw_prewire_uuid pw = i" "executed tf h pw t"
  shows "books_ok tf (t_prewire (finish_prewire i db)) h"
proof -
  obtain f where f: "t_prewire (finish_prewire i db) = map f (t_prewire db)"
    "\<And>q. prewire_request tf (f q) = prewire_request tf q" "\<And>q. pw_prewire_uuid (f q) = pw_prewire_uuid q"
    "\<And>q. pw_finished (f q) \<Longrightarrow> pw_finished q \<or> pw_prewire_uuid q = i"
    by (rule finish_prewire_rows [of i db tf]) (rule that)
  have e: "executed tf h (f q) = executed tf h q" for q by (simp add: executed_def [abs_def] f(2))
  have "prewire_uid tf \<circ> f = prewire_uid tf" "pw_prewire_uuid \<circ> f = pw_prewire_uuid" by (auto simp: prewire_uid_def f)
  then have p: "prewire_ok tf h (t_prewire (finish_prewire i db))" using b by (simp add: books_ok_def prewire_ok_def f)
  have inj: "inj_on pw_prewire_uuid (set (t_prewire db))" using b by (simp add: books_ok_def prewire_ok_def distinct_map)
  have "\<exists>u. executed tf h q u" if "q \<in> set (t_prewire db)" "pw_finished (f q)" for q
  proof (cases "pw_prewire_uuid q = i")
    case True
    with inj_onD [OF inj _ that(1) pw(1)] pw(2,3) show ?thesis by auto
  next
    case False
    with f(4) that b show ?thesis by (auto simp: books_ok_def)
  qed
  then show ?thesis using b p by (auto simp: books_ok_def f(1) e)
qed

text \<open>The bank gets the request that the process waits for.\<close>

lemma wpd_request:
  assumes "wpd_ok tf rows s (Some (w, r))" and "prewire_ok tf h rows"
  obtains pw account credit where "pw \<in> set rows" "pw_prewire_uuid pw = wpd_row_id w" "prewire_request tf pw = Some r"
    "request_at h account credit r"
  using assms by (fastforce simp: wpd_ok_def prewire_ok_def)

lemma bank_handles_books:
  assumes b: "books_ok tf rows h" and w: "wpd_ok tf rows s (Some (w, r))" and "fb_serial_counter h \<noteq> - 1"
    and h': "bank_handles g now up r h = Some (reply, h')"
  shows "books_ok tf rows h' \<and> (reply_status reply = MHD_HTTP_OK \<longrightarrow>
     (\<exists>pw t. pw \<in> set rows \<and> pw_prewire_uuid pw = wpd_row_id w \<and> executed tf h' pw t))"
proof -
  note b' = b [unfolded books_ok_def]
  obtain pw account credit where pw: "pw \<in> set rows" "pw_prewire_uuid pw = wpd_row_id w" "prewire_request tf pw = Some r"
    "request_at h account credit r"
    using wpd_request [OF w] b' by blast
  from wpD [OF bank_handles_wp [OF _ assms(3) pw(4)] h'] b'
  have h: "fakebank_ok h'" "bank_extends h h'"
    "\<forall>t\<in>set (fb_transactions h') - set (fb_transactions h). is_debit t \<longrightarrow> transfer_made h' (tr_request_uid r) t
          \<and> transfer_matches account credit (tr_amount r) (tr_wtid r) t"
    "reply_status reply = MHD_HTTP_OK \<longrightarrow>
          (\<exists>t. transfer_made h' (tr_request_uid r) t \<and> transfer_matches account credit (tr_amount r) (tr_wtid r) t)"
    by blast+
  have at: "request_at h' account credit r" using pw(4) bank_extends_request [OF h(2)] by simp
  then have ex: "executed tf h' pw t" if "transfer_made h' (tr_request_uid r) t" "transfer_matches account credit (tr_amount r) (tr_wtid r) t" for t
    using pw(3) that unfolding executed_def by blast
  have "books_ok tf rows h'" by (rule books_ok_bank [OF b h(2,1)]) (use h(3) ex pw(1) in blast)
  with h(4) ex pw(1,2) show ?thesis by blast
qed

lemma bank_may_handle_books:
  assumes "books_ok tf rows h" and "wpd_ok tf rows s (Some (w, r))" and "fb_serial_counter h \<noteq> - 1" and "bank_may_handle g r h h'"
  shows "books_ok tf rows h'"
  using assms(4) bank_handles_books [OF assms(1-3)] assms(1) unfolding bank_may_handle_def by blast

lemma transfer_step_ok:
  assumes g: "gnunet_ok (tf_gnunet tf)" and step: "transfer_step tf g y y'" and ok: "transfers_ok tf y"
  shows "transfers_ok tf y'"
proof -
  note b = ok [unfolded transfers_ok_iff, THEN conjunct1] and w = ok [unfolded transfers_ok_iff, THEN conjunct2]
  from step show ?thesis
  proof (cases rule: transfer_step.cases)
    case (run task s)
    have "idle (sy_session y)" using w run(2) by (simp add: wpd_ok_def)
    moreover have "prewire_ok tf (sy_bank y) (t_prewire (s_committed (sy_session y)))" using b by (simp add: books_ok_def)
    ultimately have "transfer_started tf (s_committed (sy_session y)) task s"
      using wpD [OF run_transfers_wp [OF g] run(3)] by blast
    then have "s_committed s = s_committed (sy_session y)" "wpd_ok tf (t_prewire (s_committed s)) s (task_wpd task)"
      by (auto simp: transfer_started_def wpd_ok_def split: option.splits)
    with run(1) b show ?thesis by (simp add: transfers_ok_iff)
  next
    case (answered w' r now up reply h task s)
    let ?db = "s_committed (sy_session y)"
    have w': "wpd_ok tf (t_prewire ?db) (sy_session y) (Some (w', r))" using w answered(2) by simp
    have f: "in_fresh_tx (sy_session y)" using w' by (simp add: wpd_ok_def)
    have c: "idle s \<and> (s_committed s = ?db \<or> reply_status reply = MHD_HTTP_OK \<and> s_committed s = finish_prewire (wpd_row_id w') ?db)"
      using wpD [OF wire_confirm_wp [OF g f refl] answered(5)] .
    note bh = bank_handles_books [OF b w' answered(3,4)]
    have "books_ok tf (t_prewire (s_committed s)) h" using c bh books_ok_finish by metis
    with c answered(1) show ?thesis by (simp add: transfers_ok_iff wpd_ok_def)
  next
    case (unanswered w' r h code task s)
    let ?db = "s_committed (sy_session y)"
    have w': "wpd_ok tf (t_prewire ?db) (sy_session y) (Some (w', r))" using w unanswered(2) by simp
    have f: "in_fresh_tx (sy_session y)" using w' by (simp add: wpd_ok_def)
    have "idle s \<and> s_committed s = ?db" using wpD [OF wire_confirm_wp [OF g f refl] unanswered(6)] unanswered(5) by auto
    with bank_may_handle_books [OF b w' unanswered(3,4)] unanswered(1) show ?thesis by (simp add: transfers_ok_iff wpd_ok_def)
  next
    case (stopped w' r h)
    have w': "wpd_ok tf (t_prewire (s_committed (sy_session y))) (sy_session y) (Some (w', r))" using w stopped(2) by simp
    from bank_may_handle_books [OF b w' stopped(3,4)] stopped(1) rollback_idle [of "sy_session y"] show ?thesis
      by (simp add: transfers_ok_iff wpd_ok_def shutdown_task_def)
  next
    case (incoming amount now debit credit pub row h)
    from wpD [OF admin_transfer_wp [OF _ incoming(2,3)] incoming(4)] b
    obtain t where h: "fakebank_ok h" "bank_extends (sy_bank y) h" "fb_transactions h = fb_transactions (sy_bank y) @ [t]" "tx_subject t = T_CREDIT pub"
      by (auto simp: books_ok_def bank_extends_def)
    have "books_ok tf (t_prewire (s_committed (sy_session y))) h"
      by (rule books_ok_bank [OF b h(2,1)]) (use h(3,4) in \<open>auto simp: is_debit_def\<close>)
    with w incoming(1) show ?thesis by (simp add: transfers_ok_iff)
  next
    case (prepared db pws)
    have "books_ok tf (t_prewire db) (sy_bank y)" using b prepared(3-5) by (auto simp: books_ok_def)
    moreover have "idle ((sy_session y)\<lparr>s_db := db, s_committed := db\<rparr>)" using w prepared(2) by (simp add: wpd_ok_def idle_def)
    ultimately show ?thesis using prepared(1,2) by (simp add: transfers_ok_iff wpd_ok_def)
  next
    case (outcomes xs)
    with b w show ?thesis by (auto simp: transfers_ok_iff wpd_ok_def idle_def in_fresh_tx_def session_ok_def split: option.splits)
  qed
qed

lemma transfer_steps_ok:
  assumes "(transfer_step tf g)\<^sup>*\<^sup>* y y'" and "gnunet_ok (tf_gnunet tf)" and "transfers_ok tf y"
  shows "transfers_ok tf y'"
  using assms by (induction rule: rtranclp_induct) (auto intro: transfer_step_ok)

section \<open>Properties\<close>

text \<open>C3. However replies of the bank get lost, the process is stopped and the database fails: the bank executes every prepared transfer
  at most once, to the account, over the amount and with the identifier for which it was prepared. A transfer that is marked as finished was executed,
  and the bank debits the exchange for nothing else. (The bank is the one of the repository.)\<close>

theorem transfers_exactly_once:
  assumes "(transfer_step tf g)\<^sup>*\<^sup>* y y'" and "gnunet_ok (tf_gnunet tf)" and "transfers_ok tf y"
  shows "(\<forall>pw\<in>set (t_prewire (s_committed (sy_session y'))).
        (\<forall>t u. executed tf (sy_bank y') pw t \<longrightarrow> executed tf (sy_bank y') pw u \<longrightarrow> t = u)
        \<and> (pw_finished pw \<longrightarrow> (\<exists>!t. executed tf (sy_bank y') pw t)))
     \<and> (\<forall>t\<in>set (fb_transactions (sy_bank y')). is_debit t \<longrightarrow>
        (\<exists>!pw. pw \<in> set (t_prewire (s_committed (sy_session y'))) \<and> executed tf (sy_bank y') pw t))"
proof -
  let ?h = "sy_bank y'" and ?rows = "t_prewire (s_committed (sy_session y'))"
  have b: "books_ok tf ?rows ?h" using transfer_steps_ok [OF assms] by (simp add: transfers_ok_iff)
  then have h: "fakebank_ok ?h" and d: "inj_on (prewire_uid tf) (set ?rows)" by (auto simp: books_ok_def prewire_ok_def distinct_map)
  have one: "t = u" if "executed tf ?h pw t" "executed tf ?h pw u" for pw t u
    using that transfer_made_unique [OF h] by (auto simp: executed_def)
  have row: "pw = q" if "pw \<in> set ?rows" "q \<in> set ?rows" "executed tf ?h pw t" "executed tf ?h q t" for pw q t
    using inj_onD [OF d _ that(1,2)] that(3,4) by (auto simp: executed_def prewire_uid_def transfer_made_def)
  show ?thesis using b one row unfolding books_ok_def by blast
qed

text \<open>The exchange \<open>ex\<close> at a new bank, and one transfer that was prepared\<close>

definition sample_transferer :: transferer where
  "sample_transferer = \<lparr>tf_gnunet = sample_gnunet, tf_crypto = sample_crypto, tf_grow = (\<lambda>c n. n),
     tf_accounts = [\<lparr>wa_section_name = ''exchange-account-1'', wa_method = ''x-taler-bank'', wa_wire_gateway_url = Some ''http://b/ex/'', wa_af = []\<rparr>],
     tf_test_mode = False\<rparr>"

definition sample_bank :: TALER_FAKEBANK_Handle where
  "sample_bank = \<lparr>fb_transactions = [], fb_serial_counter = 0, fb_currency = ''EUR'', fb_my_baseurl = ''http://b/''\<rparr>"

definition sample_prewire :: prewire_row where
  "sample_prewire = \<lparr>pw_prewire_uuid = 1, pw_type = ''x-taler-bank'', pw_finished = False,
     pw_buf = the (TALER_BANK_prepare_transfer sample_crypto 1000 77 ''payto://x-taler-bank/h/42'' (mk_amount ''EUR'' 5 0) ''http://e/'' 8)\<rparr>"

definition sample_transfer :: transfer_request where
  "sample_transfer = \<lparr>tr_url = ''http://b/ex/transfer'', tr_request_uid = 77, tr_amount = mk_amount ''EUR'' 5 0,
     tr_exchange_base_url = ''http://e/'', tr_wtid = 8, tr_credit_account = ''payto://x-taler-bank/h/42''\<rparr>"

definition sample_system :: transfer_system where
  "sample_system = \<lparr>sy_session = sample_idle (sample_db\<lparr>t_prewire := [sample_prewire]\<rparr>) [], sy_bank = sample_bank, sy_wpd = None\<rparr>"

lemma sample_prewire_request:
  "TALER_BANK_transfer sample_crypto (\<lambda>c n. n) (Some ''http://b/ex/'') (pw_buf sample_prewire) = Some (Some sample_transfer)"
  "pw_buf sample_prewire \<noteq> []" "prewire_request sample_transferer sample_prewire = Some sample_transfer"
proof -
  have "amount_wf (mk_amount ''EUR'' 5 0)" using mk_amount_in_EUR [of 0 5] by (simp add: amount_in_def)
  moreover have "length (amt_currency (mk_amount ''EUR'' 5 0)) = 12" by (simp add: mk_amount_def TALER_CURRENCY_LEN_def strlen_def cstr_def)
  moreover have "GNUNET_ntohll sample_crypto (GNUNET_htonll sample_crypto x) = x" for x by (simp add: sample_crypto_def)
  moreover have "grow_ok (\<lambda>c n. n)" by (simp add: grow_ok_def)
  ultimately show r: "TALER_BANK_transfer sample_crypto (\<lambda>c n. n) (Some ''http://b/ex/'') (pw_buf sample_prewire) = Some (Some sample_transfer)"
    using prepared_request [of "''payto://x-taler-bank/h/42''" "''http://e/''" 1000 "mk_amount ''EUR'' 5 0" 77 8 sample_crypto
        "\<lambda>c n. n" "''http://b/ex/''"] by (auto simp: sample_prewire_def sample_transfer_def)
  then show "pw_buf sample_prewire \<noteq> []" by (auto simp: TALER_BANK_transfer_def)
  with r show "prewire_request sample_transferer sample_prewire = Some sample_transfer"
    by (simp add: prewire_request_def sample_transferer_def) (simp add: sample_prewire_def)
qed

lemma sample_request_at: "request_at sample_bank ''ex'' ''42'' sample_transfer"
  using mk_amount_in_EUR [of 0 5]
  by (simp add: request_at_def sample_bank_def sample_transfer_def TALER_xtalerbank_account_from_payto_def has_prefix_nocase_def tolower_def strchr_def)

lemma sample_system_ok: "transfers_ok sample_transferer sample_system"
  using sample_request_at sample_prewire_request(3)
  by (auto simp: transfers_ok_def sample_system_def prewire_ok_def fakebank_ok_def) (auto simp: sample_bank_def sample_prewire_def)

lemma sample_system_run:
  "\<exists>y'. (transfer_step sample_transferer sample_gnunet)\<^sup>*\<^sup>* sample_system y'
     \<and> t_prewire (s_committed (sy_session y')) = [sample_prewire\<lparr>pw_finished := True\<rparr>]"
proof -
  let ?db = "sample_db\<lparr>t_prewire := [sample_prewire]\<rparr>"
  let ?wpd = "\<lparr>wpd_row_id = 1, wpd_wa = \<lparr>wa_section_name = ''exchange-account-1'', wa_method = ''x-taler-bank'',
    wa_wire_gateway_url = Some ''http://b/ex/'', wa_af = []\<rparr>\<rparr>"
  define s1 where "s1 = (sample_idle ?db [])\<lparr>s_in_tx := True, s_transaction_name := Some ''aggregator run transfer''\<rparr>"
  have "sql_wire_prepare_data_get ?db = [sample_prewire]" by (simp add: sql_wire_prepare_data_get_def sample_prewire_def)
  moreover have "pw_type sample_prewire = ''x-taler-bank''" "pw_prewire_uuid sample_prewire = 1" by (simp_all add: sample_prewire_def)
  ultimately have run: "run_transfers sample_transferer (sample_idle ?db []) = Some (Await ?wpd sample_transfer, s1)"
    using sample_prewire_request(1,2)
    by (simp add: run_transfers_def postgres_get_session_def next_outcome_def sample_idle_def postgres_start_def postgres_preflight_def Let_def
        postgres_wire_prepare_data_get_def pq_singleton_select_def pq_denied_def wire_prepare_cb_def sample_transferer_def s1_def)
  define y1 where "y1 = sample_system\<lparr>sy_session := s1, sy_wpd := Some (?wpd, sample_transfer)\<rparr>"
  have step1: "transfer_step sample_transferer sample_gnunet sample_system y1"
    using transfer_step.run [of sample_system sample_transferer "Await ?wpd sample_transfer" s1 sample_gnunet] run
    by (simp add: y1_def sample_system_def)
  obtain h where bank: "bank_handles sample_gnunet 0 up sample_transfer sample_bank = Some (Some (BANK_TRANSFERRED 1 0), h)" for up
  proof -
    have "\<exists>h. \<forall>up. bank_handles sample_gnunet 0 up sample_transfer sample_bank = Some (Some (BANK_TRANSFERRED 1 0), h)"
      by (simp add: bank_handles_transfer [OF sample_request_at] handle_transfer_def)
        (simp add: sample_transfer_def sample_bank_def TALER_xtalerbank_account_from_payto_def has_prefix_nocase_def tolower_def strchr_def
          TALER_FAKEBANK_make_transfer_def add_transaction_def Let_def mk_amount_def strcasecmp_eq_def cstr_def)
    then show ?thesis using that by blast
  qed
  have confirm: "\<exists>s2. wire_confirm_cb sample_transferer ?wpd MHD_HTTP_OK s1 = Some (Run_now, s2)
      \<and> t_prewire (s_committed s2) = [sample_prewire\<lparr>pw_finished := True\<rparr>]"
    by (simp add: wire_confirm_cb_def postgres_wire_prepare_data_mark_finished_def pq_non_select_def next_outcome_def pq_denied_def s1_def
        sample_idle_def sql_wire_prepare_data_mark_done_def postgres_commit_def end_transaction_def)
      (simp add: sample_prewire_def)
  then obtain s2 where s2: "wire_confirm_cb sample_transferer ?wpd MHD_HTTP_OK s1 = Some (Run_now, s2)"
    "t_prewire (s_committed s2) = [sample_prewire\<lparr>pw_finished := True\<rparr>]" by blast
  have "transfer_step sample_transferer sample_gnunet y1 (y1\<lparr>sy_session := s2, sy_bank := h, sy_wpd := None\<rparr>)"
    by (rule transfer_step.answered [where w = ?wpd and r = sample_transfer and now = 0 and reply = "Some (BANK_TRANSFERRED 1 0)", OF _ _ _ _])
      (use bank s2 in \<open>simp_all add: y1_def sample_system_def sample_bank_def handle_transfer_finished_def\<close>)
  with step1 s2(2) show ?thesis
    by (intro exI [of _ "y1\<lparr>sy_session := s2, sy_bank := h, sy_wpd := None\<rparr>"]) auto
qed

theorem transfers_exactly_once_witness:
  "\<exists>y'. (transfer_step sample_transferer sample_gnunet)\<^sup>*\<^sup>* sample_system y'
     \<and> (\<exists>!t. executed sample_transferer (sy_bank y') (sample_prewire\<lparr>pw_finished := True\<rparr>) t)"
proof -
  obtain y' where y: "(transfer_step sample_transferer sample_gnunet)\<^sup>*\<^sup>* sample_system y'"
    "t_prewire (s_committed (sy_session y')) = [sample_prewire\<lparr>pw_finished := True\<rparr>]"
    using sample_system_run by blast
  have "gnunet_ok (tf_gnunet sample_transferer)" by (simp add: sample_transferer_def sample_ok)
  from transfers_exactly_once [OF y(1) this sample_system_ok] y show ?thesis by auto
qed

end
