(* ===== verification/Watch_Sequences.thy ===== *)
theory Watch_Sequences
  imports Wirewatch Transfer_Sequences "HOL-Library.Sublist"
begin

text \<open>
  The process that watches for incoming transfers together with the bank: transfers arrive, replies get lost, the process is stopped, the database
  fails, and other requests are served meanwhile. What was credited is always a prefix of what the bank has received, in the order of the bank.
  In the mode that is meant to start again from the first transfer, the process never gets past the first page.
\<close>

section \<open>Requests\<close>

text \<open>What the HTTP library makes of a URL: the path, and the arguments behind the question mark\<close>

fun split_fields :: "char \<Rightarrow> string \<Rightarrow> string list" where
  "split_fields c [] = [[]]"
| "split_fields c (x # s) = (if x = c then [] # split_fields c s else (case split_fields c s of [] \<Rightarrow> [[x]] | f # fs \<Rightarrow> (x # f) # fs))"

definition query_argument :: "string \<Rightarrow> string \<Rightarrow> string option" where
  "query_argument name query = map_of (List.map_filter (\<lambda>f. strchr f CHR ''='') (split_fields CHR ''&'' query)) name"

definition url_request :: "string \<Rightarrow> string \<times> bank_upload" where
  "url_request url = (case strchr url CHR ''?'' of
       None \<Rightarrow> (url, \<lparr>up_incoming = None, up_transfer = None, up_start = None, up_delta = None, up_long_poll_ms = None\<rparr>)
     | Some (path, query) \<Rightarrow> (path, \<lparr>up_incoming = None, up_transfer = None, up_start = query_argument ''start'' query,
          up_delta = query_argument ''delta'' query, up_long_poll_ms = query_argument ''long_poll_ms'' query\<rparr>))"

definition bank_reads ::
    "gnunet \<Rightarrow> abs_time \<Rightarrow> string \<Rightarrow> TALER_FAKEBANK_Handle \<Rightarrow> (bank_reply option \<times> TALER_FAKEBANK_Handle) option" where
  "bank_reads g now url h =
     (let (path, up) = url_request (url_path h url) in fakebank_handle_mhd_request g now path ''GET'' up h)"

text \<open>A reply as the client gets it: the number of the row must not be negative.\<close>

definition credit_entry :: "bank_transaction \<Rightarrow> (u64 \<times> CreditDetails) option" where
  "credit_entry bt =
     (case bt_subject bt of
        T_DEBIT wtid url \<Rightarrow> None
      | T_CREDIT pub \<Rightarrow>
          if bt_row_id bt < 0 then None
          else Some (of_int (bt_row_id bt), \<lparr>cd_amount = bt_amount bt, cd_execution_date = bt_date bt, cd_reserve_pub = pub,
                       cd_debit_account_url = bt_debit_account bt\<rparr>))"

fun reply_entries :: "bank_reply option \<Rightarrow> nat \<times> (u64 \<times> CreditDetails) option list option" where
  "reply_entries (Some (BANK_INCOMING bts)) = (MHD_HTTP_OK, Some (map credit_entry bts))"
| "reply_entries (Some r) = (MHD_HTTP_OK, None)"
| "reply_entries None = (0, None)"

section \<open>Steps\<close>

record watch_system =
  wy_session :: "tables session"
  wy_bank :: TALER_FAKEBANK_Handle
  wy_watch :: wirewatch_state
  wy_url :: "string option"

fun awaited :: "watch_task \<Rightarrow> string option" where
  "awaited (Await_history url) = Some url"
| "awaited t = None"

text \<open>The process is started with the accounts of the configuration.\<close>

definition watch_started :: "bool \<Rightarrow> (string \<times> string option) list \<Rightarrow> wirewatch_state" where
  "watch_started reset accounts = fold (\<lambda>(section_name, url). add_account_cb reset section_name url) accounts \<lparr>ws_accounts = [], ws_pos = 0\<rparr>"

text \<open>The rows of incoming transfers are numbered in their order as long as the sequence does not wrap.\<close>

definition numbered :: "tables \<Rightarrow> bool" where
  "numbered db \<longleftrightarrow> sorted (map ri_serial_id (t_reserves_in db))"

inductive watch_step :: "wirewatch \<Rightarrow> gnunet \<Rightarrow> bool \<Rightarrow> (string \<times> string option) list \<Rightarrow> watch_system \<Rightarrow> watch_system \<Rightarrow> bool"
  for ww g reset accounts where
  find: "wy_url y = None \<Longrightarrow> find_transfers ww (wy_watch y) (wy_session y) = Some ((task, ws), s) \<Longrightarrow>
     watch_step ww g reset accounts y (y\<lparr>wy_session := s, wy_watch := ws, wy_url := awaited task\<rparr>)"
| answered: "wy_url y = Some url \<Longrightarrow> bank_reads g now url (wy_bank y) = Some (reply, h) \<Longrightarrow> reply_entries reply = (code, entries) \<Longrightarrow>
     handle_credit_history_finished ww (wy_watch y) code entries (wy_session y) = Some ((task, ws), s) \<Longrightarrow> numbered (s_committed s) \<Longrightarrow>
     watch_step ww g reset accounts y (y\<lparr>wy_session := s, wy_bank := h, wy_watch := ws, wy_url := None\<rparr>)"
| unanswered: "wy_url y = Some url \<Longrightarrow> code \<noteq> MHD_HTTP_OK \<Longrightarrow>
     handle_credit_history_finished ww (wy_watch y) code entries (wy_session y) = Some ((task, ws), s) \<Longrightarrow>
     watch_step ww g reset accounts y (y\<lparr>wy_session := s, wy_watch := ws, wy_url := None\<rparr>)"
| restarted: "watch_step ww g reset accounts y
     (y\<lparr>wy_session := postgres_rollback (wy_session y), wy_watch := watch_started reset accounts, wy_url := None\<rparr>)"
| incoming: "fb_serial_counter (wy_bank y) \<noteq> - 1 \<Longrightarrow> amount_in (fb_currency (wy_bank y)) amount \<Longrightarrow>
     TALER_FAKEBANK_make_admin_transfer g now (Some debit) (Some credit) amount pub (wy_bank y) = Some (row, h) \<Longrightarrow>
     watch_step ww g reset accounts y (y\<lparr>wy_bank := h\<rparr>)"
| served: "wy_url y = None \<Longrightarrow> t_reserves_in db = t_reserves_in (s_committed (wy_session y)) \<Longrightarrow> reserves_ok db \<Longrightarrow> reserve_tables_ok db \<Longrightarrow>
     watch_step ww g reset accounts y (y\<lparr>wy_session := (wy_session y)\<lparr>s_db := db, s_committed := db\<rparr>\<rparr>)"
| outcomes: "watch_step ww g reset accounts y (y\<lparr>wy_session := (wy_session y)\<lparr>s_outcomes := xs\<rparr>\<rparr>)"

section \<open>What the process does to its accounts\<close>

text \<open>Where the account stands\<close>

definition same_position :: "WireAccount \<Rightarrow> WireAccount \<Rightarrow> bool" where
  "same_position wa wa' \<longleftrightarrow> ww_section_name wa' = ww_section_name wa \<and> ww_wire_gateway_url wa' = ww_wire_gateway_url wa
     \<and> ww_last_row_off wa' = ww_last_row_off wa \<and> ww_reset_mode wa' = ww_reset_mode wa \<and> ww_batch_size wa' = ww_batch_size wa"

lemma same_position_refl [simp]: "same_position wa wa"
  by (simp add: same_position_def)

lemma same_position_trans: "same_position a b \<Longrightarrow> same_position b c \<Longrightarrow> same_position a c"
  by (simp add: same_position_def)

lemma history_cb_entry_position:
  assumes "history_cb_entry ww wa i d s = Some ((stop, wa'), s')"
  shows "same_position wa wa' \<and> (case stop of Some task \<Rightarrow> awaited task = None | None \<Rightarrow> True)"
  using assms by (auto simp: history_cb_entry_def same_position_def Let_def bind_eq_Some_conv split: if_splits)

lemma parse_account_history_position:
  "parse_account_history ww es wa s = Some ((ok, stop, wa'), s') \<Longrightarrow>
     same_position wa wa' \<and> (case stop of Some task \<Rightarrow> awaited task = None | None \<Rightarrow> True)"
proof (induction ww es wa s rule: parse_account_history.induct)
  case (3 ww i d es wa s)
  from 3(2) obtain stop1 wa1 s1 where e: "history_cb_entry ww wa i d s = Some ((stop1, wa1), s1)"
    and r: "(case stop1 of Some task \<Rightarrow> Some ((True, Some task, wa1), s1) | None \<Rightarrow> parse_account_history ww es wa1 s1) = Some ((ok, stop, wa'), s')"
    by (auto simp: bind_eq_Some_conv)
  note p = history_cb_entry_position [OF e]
  show ?case
  proof (cases stop1)
    case None
    with r 3(1) [OF e] have "same_position wa1 wa' \<and> (case stop of Some task \<Rightarrow> awaited task = None | None \<Rightarrow> True)" by simp
    with p show ?thesis by (auto intro: same_position_trans)
  qed (use p r in auto)
qed auto

definition same_accounts :: "wirewatch_state \<Rightarrow> wirewatch_state \<Rightarrow> bool" where
  "same_accounts ws ws' \<longleftrightarrow> list_all2 same_position (ws_accounts ws) (ws_accounts ws')"

lemma same_accounts_update:
  "same_position (ws_accounts ws ! i) wa \<Longrightarrow> list_all2 same_position (ws_accounts ws) ((ws_accounts ws)[i := wa])"
  by (auto simp: list_all2_conv_all_nth nth_list_update) (metis nth_list_update_eq nth_list_update_neq same_position_refl)

lemma same_accounts_refl [simp]: "list_all2 same_position as as"
  by (rule list.rel_refl) simp

lemma history_cb_end_position:
  assumes "gnunet_ok (wwc_gnunet ww)" and "history_cb_end ww ws s = Some ((task, ws'), s')" and "ws_pos ws < length (ws_accounts ws)"
  shows "same_accounts ws ws' \<and> ws_pos ws' < length (ws_accounts ws') \<and> awaited task = None"
proof -
  obtain qs s1 where c: "postgres_commit (wwc_gnunet ww) s = Some (qs, s1)" using assms(2) by (auto simp: history_cb_end_def bind_eq_Some_conv)
  from wpD [OF commit_wp [OF assms(1)] c] have qs: "qs \<le> 0" by auto
  show ?thesis
  proof (cases "qs = GNUNET_DB_STATUS_SOFT_ERROR")
    case True
    define wa where "wa = ws_accounts ws ! ws_pos ws"
    define wa' where "wa' = (if 2 > ww_current_batch_size wa then wa\<lparr>ww_current_batch_size := ww_current_batch_size wa div 2\<rparr> else wa)"
    have ws': "ws' = ws\<lparr>ws_accounts := (ws_accounts ws)[ws_pos ws := wa']\<rparr>" and "awaited task = None"
      using assms(2) c True by (auto simp: history_cb_end_def Let_def wa_def wa'_def)
    moreover have "same_position wa wa'" by (simp add: wa'_def same_position_def)
    ultimately show ?thesis using assms(3) by (simp add: same_accounts_def wa_def same_accounts_update)
  next
    case False
    define wa where "wa = ws_accounts ws ! ws_pos ws"
    define stop where "stop = (ww_delay wa \<and> wwc_test_mode ww \<and> Suc (ws_pos ws) = length (ws_accounts ws))"
    define wa' where "wa' = (if ww_delay wa \<and> \<not> stop then wa\<lparr>ww_delayed_until := wwc_idle_until ww\<rparr> else wa)"
    define pos where "pos = (if ww_delay wa \<and> \<not> stop
                   then (if Suc (ws_pos ws) = length (ws_accounts ws) then 0 else Suc (ws_pos ws)) else ws_pos ws)"
    have ws': "ws' = ws\<lparr>ws_accounts := (ws_accounts ws)[ws_pos ws := wa'], ws_pos := pos\<rparr>" and "awaited task = None"
      using assms(2) c False qs by (auto simp: history_cb_end_def Let_def wa_def stop_def wa'_def pos_def)
    have "same_position wa wa'" by (simp add: wa'_def same_position_def)
    then have "same_accounts ws ws'" unfolding same_accounts_def ws' wa_def by (simp add: same_accounts_update)
    moreover have "pos < length (ws_accounts ws)" using assms(3) by (auto simp: pos_def)
    ultimately show ?thesis using \<open>awaited task = None\<close> by (simp add: ws')
  qed
qed

lemma handle_credit_history_position:
  assumes g: "gnunet_ok (wwc_gnunet ww)" and "ws_pos ws < length (ws_accounts ws)"
    and h: "handle_credit_history_finished ww ws code entries s = Some ((task, ws'), s')"
  shows "same_accounts ws ws' \<and> ws_pos ws' < length (ws_accounts ws') \<and> awaited task = None"
proof (cases "if code = MHD_HTTP_OK then entries else None")
  case None
  with history_cb_end_position [OF g _ assms(2)] h show ?thesis unfolding handle_credit_history_finished_def by simp
next
  case (Some es)
  with h obtain ok stop wa s1 where p: "parse_account_history ww es (ws_accounts ws ! ws_pos ws) s = Some ((ok, stop, wa), s1)"
    and r: "(case stop of Some task \<Rightarrow> Some ((task, ws\<lparr>ws_accounts := (ws_accounts ws)[ws_pos ws := wa]\<rparr>), s1)
              | None \<Rightarrow> history_cb_end ww (ws\<lparr>ws_accounts := (ws_accounts ws)[ws_pos ws := wa]\<rparr>) s1) = Some ((task, ws'), s')"
    by (auto simp: handle_credit_history_finished_def Let_def bind_eq_Some_conv)
  note pos = parse_account_history_position [OF p]
  let ?ws = "ws\<lparr>ws_accounts := (ws_accounts ws)[ws_pos ws := wa]\<rparr>"
  have same: "same_accounts ws ?ws" using pos by (simp add: same_accounts_def same_accounts_update)
  show ?thesis
  proof (cases stop)
    case None
    with history_cb_end_position [OF g, of ?ws s1 task ws' s'] r assms(2)
    have "same_accounts ?ws ws' \<and> ws_pos ws' < length (ws_accounts ws') \<and> awaited task = None" by simp
    moreover have "same_accounts a b \<Longrightarrow> same_accounts b c \<Longrightarrow> same_accounts a c" for a b c
      unfolding same_accounts_def by (rule list_all2_trans [OF same_position_trans])
    ultimately show ?thesis using same by blast
  qed (use r same pos assms(2) in auto)
qed

section \<open>What is requested\<close>

lemma url_join_plain:
  assumes "grow_ok grow" and "path \<noteq> []" and "hd path \<noteq> CHR ''/''"
  shows "TALER_url_join grow base_url path [] = Some (if base_url = [] \<or> last base_url \<noteq> CHR ''/'' then None else Some (base_url @ path))"
proof -
  have "buf_mem (GNUNET_buffer_write_str grow buf a) = buf_mem buf @ a" for buf a by (simp add: GNUNET_buffer_write_str_def Let_def)
  with assms show ?thesis by (simp add: TALER_url_join_def)
qed

definition history_url :: "string \<Rightarrow> u64 \<Rightarrow> int \<Rightarrow> string" where
  "history_url gateway start_row num_results =
     (let (delta, start) = history_arguments start_row num_results
      in gateway @ ''history/incoming?delta='' @ delta @ (case start of None \<Rightarrow> [] | Some x \<Rightarrow> ''&start='' @ x))"

lemma credit_history_url:
  assumes "grow_ok grow" and "TALER_BANK_credit_history grow gateway start_row num_results = Some (Some url)"
  obtains base where "gateway = Some base" and "url = history_url base start_row num_results"
  using assms(2) by (auto simp: TALER_BANK_credit_history_def url_join_plain [OF assms(1)] history_url_def Let_def
      split: if_splits option.splits prod.splits)

lemma request_history_position:
  assumes "grow_ok (wwc_grow ww)" and "request_history ww ws wa s = Some ((task, ws'), s')" and "ws_pos ws < length (ws_accounts ws)"
  obtains wa' where "same_position wa wa'" "ws' = ws\<lparr>ws_accounts := (ws_accounts ws)[ws_pos ws := wa']\<rparr>"
    "awaited task = None \<and> s' = postgres_rollback s \<or> (\<exists>base. ww_wire_gateway_url wa = Some base
       \<and> awaited task = Some (history_url base (ww_last_row_off wa) (uint (ww_batch_size wa))) \<and> s' = s)"
proof (rule that [of "wa\<lparr>ww_delay := True, ww_current_batch_size := 0\<rparr>"])
  obtain hh where hh: "TALER_BANK_credit_history (wwc_grow ww) (ww_wire_gateway_url wa) (ww_last_row_off wa) (uint (ww_batch_size wa)) = Some hh"
    using assms(2) by (auto simp: request_history_def Let_def bind_eq_Some_conv)
  show "ws' = ws\<lparr>ws_accounts := (ws_accounts ws)[ws_pos ws := wa\<lparr>ww_delay := True, ww_current_batch_size := 0\<rparr>]\<rparr>"
    using assms(2) hh by (auto simp: request_history_def Let_def split: option.splits)
  show "awaited task = None \<and> s' = postgres_rollback s \<or> (\<exists>base. ww_wire_gateway_url wa = Some base
       \<and> awaited task = Some (history_url base (ww_last_row_off wa) (uint (ww_batch_size wa))) \<and> s' = s)"
  proof (cases hh)
    case (Some url)
    with hh obtain base where "ww_wire_gateway_url wa = Some base" "url = history_url base (ww_last_row_off wa) (uint (ww_batch_size wa))"
      using credit_history_url [OF assms(1)] by metis
    with assms(2) hh Some show ?thesis by (auto simp: request_history_def Let_def)
  qed (use assms(2) hh in \<open>auto simp: request_history_def Let_def\<close>)
qed (simp add: same_position_def)

section \<open>The reset mode\<close>

definition starts_over :: "WireAccount \<Rightarrow> bool" where
  "starts_over wa \<longleftrightarrow> ww_reset_mode wa \<and> ww_last_row_off wa = 0 \<and> ww_batch_size wa = INITIAL_BATCH_SIZE"

lemma starts_over_position: "same_position wa wa' \<Longrightarrow> starts_over wa' = starts_over wa"
  by (simp add: starts_over_def same_position_def)

definition configured :: "(string \<times> string option) list \<Rightarrow> wirewatch_state \<Rightarrow> bool" where
  "configured accounts ws \<longleftrightarrow> map (\<lambda>wa. (ww_section_name wa, ww_wire_gateway_url wa)) (ws_accounts ws) = rev accounts
     \<and> ws_pos ws < length (ws_accounts ws)"

lemma configured_position:
  assumes "same_accounts ws ws'" and "ws_pos ws' < length (ws_accounts ws')" and "configured accounts ws"
  shows "configured accounts ws'"
proof -
  have "map (\<lambda>wa. (ww_section_name wa, ww_wire_gateway_url wa)) (ws_accounts ws') = map (\<lambda>wa. (ww_section_name wa, ww_wire_gateway_url wa)) (ws_accounts ws)"
    using assms(1) by (intro nth_equalityI) (auto simp: same_accounts_def list_all2_conv_all_nth same_position_def)
  with assms show ?thesis by (simp add: configured_def)
qed

lemma watch_started_accounts:
  "ws_accounts (watch_started reset accounts) = rev (map (\<lambda>(section_name, url). \<lparr>ww_section_name = section_name, ww_wire_gateway_url = url,
     ww_delayed_until = 0, ww_last_row_off = 0, ww_latest_row_off = 0, ww_batch_size = INITIAL_BATCH_SIZE, ww_current_batch_size = 0,
     ww_reset_mode = reset, ww_delay = False\<rparr>) accounts)"
  "ws_pos (watch_started reset accounts) = 0"
proof -
  let ?wa = "\<lambda>(section_name, url). \<lparr>ww_section_name = section_name, ww_wire_gateway_url = url,
     ww_delayed_until = 0, ww_last_row_off = 0, ww_latest_row_off = 0, ww_batch_size = INITIAL_BATCH_SIZE, ww_current_batch_size = 0,
     ww_reset_mode = reset, ww_delay = False\<rparr>"
  have "ws_accounts (fold (\<lambda>(section_name, url). add_account_cb reset section_name url) as ws) = rev (map ?wa as) @ ws_accounts ws
      \<and> ws_pos (fold (\<lambda>(section_name, url). add_account_cb reset section_name url) as ws) = ws_pos ws" for as ws
    by (induction as arbitrary: ws) (auto simp: add_account_cb_def)
  from this [of accounts "\<lparr>ws_accounts = [], ws_pos = 0\<rparr>"]
  show "ws_accounts (watch_started reset accounts) = rev (map ?wa accounts)" "ws_pos (watch_started reset accounts) = 0"
    by (simp_all add: watch_started_def)
qed

lemma configured_started: "accounts \<noteq> [] \<Longrightarrow> configured accounts (watch_started reset accounts)"
  by (simp add: configured_def watch_started_accounts rev_map split_def o_def)

lemma starts_over_started: "wa \<in> set (ws_accounts (watch_started True accounts)) \<Longrightarrow> starts_over wa"
  by (auto simp: watch_started_accounts starts_over_def)

definition first_page :: "(string \<times> string option) list \<Rightarrow> string \<Rightarrow> bool" where
  "first_page accounts url \<longleftrightarrow> (\<exists>(section_name, gateway)\<in>set accounts. \<exists>base. gateway = Some base
     \<and> url = base @ ''history/incoming?delta=1024'')"

lemma print_llu_1024: "print_llu 1024 = ''1024''"
  by (simp add: print_llu.simps [of 1024] print_llu.simps [of 102] print_llu.simps [of 10] print_llu.simps [of "Suc 0"] digit_char_def char_of_def bit_iff_odd)

lemma find_transfers_reset:
  assumes "grow_ok (wwc_grow ww)" and "configured accounts ws" and r: "\<forall>wa\<in>set (ws_accounts ws). starts_over wa"
    and f: "find_transfers ww ws s = Some ((task, ws'), s')"
  shows "configured accounts ws' \<and> (\<forall>wa\<in>set (ws_accounts ws'). starts_over wa) \<and> (\<forall>url. awaited task = Some url \<longrightarrow> first_page accounts url)"
proof -
  let ?wa = "ws_accounts ws ! ws_pos ws"
  have pos: "ws_pos ws < length (ws_accounts ws)" using assms(2) by (simp add: configured_def)
  then have wa: "starts_over ?wa" using r by simp
  then have reset: "ww_reset_mode ?wa" by (simp add: starts_over_def)
  from f consider "task = Watch_shutdown WW_DATABASE_SESSION_FAIL" "ws' = ws"
    | "task = Watch_shutdown WW_DATABASE_TRANSACTION_BEGIN_FAIL" "ws' = ws"
    | s1 where "request_history ww ws ?wa s1 = Some ((task, ws'), s')"
    using reset by (auto simp: find_transfers_def Let_def bind_eq_Some_conv split: if_splits prod.splits)
  then show ?thesis
  proof cases
    case 3
    obtain wa' where wa': "same_position ?wa wa'" "ws' = ws\<lparr>ws_accounts := (ws_accounts ws)[ws_pos ws := wa']\<rparr>"
      "awaited task = None \<and> s' = postgres_rollback s1 \<or> (\<exists>base. ww_wire_gateway_url ?wa = Some base
         \<and> awaited task = Some (history_url base (ww_last_row_off ?wa) (uint (ww_batch_size ?wa))) \<and> s' = s1)"
      by (rule request_history_position [OF assms(1) 3 pos]) (rule that)
    have "same_accounts ws ws'" using wa' by (simp add: same_accounts_def same_accounts_update)
    moreover have "starts_over w" if "w \<in> set (ws_accounts ws')" for w
      using that r wa starts_over_position [OF wa'(1)] wa'(2) set_update_subset_insert [of "ws_accounts ws" "ws_pos ws" wa'] by auto
    moreover have "first_page accounts url" if "awaited task = Some url" for url
    proof -
      have "(ww_section_name ?wa, ww_wire_gateway_url ?wa) \<in> set (map (\<lambda>wa. (ww_section_name wa, ww_wire_gateway_url wa)) (ws_accounts ws))"
        using pos by simp
      then have "(ww_section_name ?wa, ww_wire_gateway_url ?wa) \<in> set accounts"
        by (simp only: assms(2) [unfolded configured_def, THEN conjunct1] set_rev)
      moreover have "history_url base 0 1024 = base @ ''history/incoming?delta=1024''" for base
        by (simp add: history_url_def history_arguments_def print_lld_def print_llu_1024)
      ultimately show ?thesis using wa'(3) that wa unfolding first_page_def starts_over_def by force
    qed
    ultimately show ?thesis using configured_position [OF _ _ assms(2)] wa'(2) pos by simp
  qed (use assms(2) r in auto)
qed

lemma reset_step:
  assumes "watch_step ww g True accounts y y'" and "gnunet_ok (wwc_gnunet ww)" and "grow_ok (wwc_grow ww)" and "accounts \<noteq> []"
    and "configured accounts (wy_watch y)" and "\<forall>wa\<in>set (ws_accounts (wy_watch y)). starts_over wa" and "\<forall>url. wy_url y = Some url \<longrightarrow> first_page accounts url"
  shows "configured accounts (wy_watch y') \<and> (\<forall>wa\<in>set (ws_accounts (wy_watch y')). starts_over wa) \<and> (\<forall>url. wy_url y' = Some url \<longrightarrow> first_page accounts url)"
proof -
  have pos: "ws_pos (wy_watch y) < length (ws_accounts (wy_watch y))" using assms(5) by (simp add: configured_def)
  have handle: "configured accounts ws \<and> (\<forall>wa\<in>set (ws_accounts ws). starts_over wa)"
    if h: "handle_credit_history_finished ww (wy_watch y) code entries s = Some ((task, ws), s')" for code entries s task ws s'
  proof -
    from handle_credit_history_position [OF assms(2) pos h] have p: "same_accounts (wy_watch y) ws" "ws_pos ws < length (ws_accounts ws)" by auto
    then have "starts_over wa" if "wa \<in> set (ws_accounts ws)" for wa
      using that assms(6) starts_over_position unfolding same_accounts_def list_all2_conv_all_nth by (metis in_set_conv_nth)
    with configured_position [OF p assms(5)] show ?thesis by blast
  qed
  from assms(1) show ?thesis
  proof (cases rule: watch_step.cases)
    case (find task ws s)
    with find_transfers_reset [OF assms(3,5,6) find(3)] show ?thesis by simp
  next
    case restarted
    with configured_started [OF assms(4)] starts_over_started show ?thesis by simp
  qed (use assms(5-7) handle in auto)
qed

text \<open>C19. A process that is started in the mode that is meant to process all transactions again never gets past the first
  1024 of them: whatever the bank replies and however often the process asks, each of its requests is for the first page of one
  of the accounts.\<close>

theorem reset_never_proceeds:
  assumes "(watch_step ww g True accounts)\<^sup>*\<^sup>* y y'" and "gnunet_ok (wwc_gnunet ww)" and "grow_ok (wwc_grow ww)" and "accounts \<noteq> []"
    and "wy_watch y = watch_started True accounts" and "wy_url y = None" and "wy_url y' = Some url"
  shows "first_page accounts url"
proof -
  from assms(1) have "configured accounts (wy_watch y') \<and> (\<forall>wa\<in>set (ws_accounts (wy_watch y')). starts_over wa)
      \<and> (\<forall>url. wy_url y' = Some url \<longrightarrow> first_page accounts url)"
  proof (induction rule: rtranclp_induct)
    case base
    with configured_started [OF assms(4)] starts_over_started assms(5,6) show ?case by simp
  next
    case (step y1 y2)
    with reset_step [OF step(2) assms(2-4)] show ?case by blast
  qed
  with assms(7) show ?thesis by blast
qed

section \<open>What was credited\<close>

text \<open>The account at the bank that belongs to an account of the exchange\<close>

definition account_at :: "TALER_FAKEBANK_Handle \<Rightarrow> string option \<Rightarrow> string \<Rightarrow> bool" where
  "account_at h gateway account \<longleftrightarrow> gateway = Some (fb_my_baseurl h @ account @ ''/'') \<and> account \<noteq> []
     \<and> CHR ''/'' \<notin> set account \<and> CHR ''?'' \<notin> set account"

text \<open>Transfers as the bank knows them, and as the tables do\<close>

definition tx_key :: "Transaction \<Rightarrow> u64 \<times> transaction_subject \<times> int" where
  "tx_key t = (tx_row_id t, tx_subject t, amt (tx_amount t))"

definition row_key :: "reserves_in_row \<Rightarrow> u64 \<times> transaction_subject \<times> int" where
  "row_key r = (ri_wire_reference r, T_CREDIT (ri_reserve_pub r), sqlamt (ri_credit r))"

definition received :: "TALER_FAKEBANK_Handle \<Rightarrow> string \<Rightarrow> (u64 \<times> transaction_subject \<times> int) list" where
  "received h account = map tx_key (filter (incoming_to account) (fb_transactions h))"

definition rows_of :: "string \<Rightarrow> tables \<Rightarrow> reserves_in_row list" where
  "rows_of section_name db = filter (\<lambda>r. ri_exchange_account_section r = section_name) (t_reserves_in db)"

definition credited :: "string \<Rightarrow> tables \<Rightarrow> (u64 \<times> transaction_subject \<times> int) list" where
  "credited section_name db = map row_key (rows_of section_name db)"

section \<open>The bank understands the requests\<close>

lemma fields_one: "c \<notin> set a \<Longrightarrow> split_fields c a = [a]"
  by (induction a) auto

lemma fields_append: "c \<notin> set a \<Longrightarrow> split_fields c (a @ c # b) = a # split_fields c b"
  by (induction a) auto

lemma digits_no: "c \<in> set (print_llu n) \<Longrightarrow> c \<noteq> CHR ''&'' \<and> c \<noteq> CHR ''='' \<and> c \<noteq> CHR ''?'' \<and> c \<noteq> CHR ''-'' \<and> c \<noteq> CHR ''+''"
  using print_llu_digits [of c n] by (auto simp: Amount_Text.isdigit_def)

lemma scan_print:
  "scan_int (print_llu n) = Some (int n)"
proof -
  have d: "\<forall>c\<in>set (print_llu n). Payto.isdigit c" using print_llu_digits by (auto simp: Payto.isdigit_def Amount_Text.isdigit_def)
  have val: "foldl (\<lambda>n c. 10 * n + digit_value c) (int v) ds = int (decimal v ds)" if "\<forall>c\<in>set ds. Payto.isdigit c" for v ds
    using that
  proof (induction ds arbitrary: v)
    case (Cons c ds)
    then have "10 * int v + digit_value c = int (v * 10 + digit_val c)"
      by (auto simp: digit_value_def digit_val_def Payto.isdigit_def)
    with Cons.IH [of "v * 10 + digit_val c"] Cons.prems show ?case by (simp add: mult.commute)
  qed simp
  obtain c cs where p: "print_llu n = c # cs" using print_llu_ne [of n] by (cases "print_llu n") auto
  then have c: "Payto.isdigit c" "c \<noteq> CHR ''-''" "c \<noteq> CHR ''+''" using d digits_no [of c n] by auto
  have sp: "\<not> (of_char c :: nat) \<in> {9, 10, 11, 12, 13, 32}" using c(1) by (auto simp: Payto.isdigit_def)
  have "dropWhile (\<lambda>c. (of_char c :: nat) \<in> {9, 10, 11, 12, 13, 32}) (print_llu n) = print_llu n"
    unfolding p using sp by simp
  moreover have "(case print_llu n of CHR ''-'' # r \<Rightarrow> (- 1, r) | CHR ''+'' # r \<Rightarrow> (1, r) | _ \<Rightarrow> (1, print_llu n)) = (1 :: int, print_llu n)"
    unfolding p using c by (auto split: char.splits bool.splits)
  moreover have tw: "takeWhile Payto.isdigit (print_llu n) = print_llu n" using d by (simp add: takeWhile_eq_all_conv)
  ultimately show ?thesis using val [OF d, of 0] unfolding scan_int_def Let_def by (simp only: prod.case tw) simp
qed

lemma query_arguments:
  assumes "CHR ''&'' \<notin> set d" and "CHR ''&'' \<notin> set x"
  shows "query_argument ''delta'' (''delta='' @ d) = Some d" "query_argument ''start'' (''delta='' @ d) = None"
    "query_argument ''long_poll_ms'' (''delta='' @ d) = None"
    "query_argument ''delta'' (''delta='' @ d @ ''&start='' @ x) = Some d" "query_argument ''start'' (''delta='' @ d @ ''&start='' @ x) = Some x"
    "query_argument ''long_poll_ms'' (''delta='' @ d @ ''&start='' @ x) = None"
proof -
  have s: "strchr (''delta='' @ d) CHR ''='' = Some (''delta'', d)" "strchr (''start='' @ x) CHR ''='' = Some (''start'', x)"
    by (simp_all add: strchr_def)
  have f: "split_fields CHR ''&'' (''delta='' @ d) = [''delta='' @ d]"
    by (rule fields_one) (use assms in auto)
  have "split_fields CHR ''&'' ((''delta='' @ d) @ CHR ''&'' # (''start='' @ x)) = (''delta='' @ d) # split_fields CHR ''&'' (''start='' @ x)"
    by (rule fields_append) (use assms in auto)
  also have "split_fields CHR ''&'' (''start='' @ x) = [''start='' @ x]" by (rule fields_one) (use assms in auto)
  finally have f2: "split_fields CHR ''&'' (''delta='' @ d @ ''&start='' @ x) = [''delta='' @ d, ''start='' @ x]" by simp
  show "query_argument ''delta'' (''delta='' @ d) = Some d" "query_argument ''start'' (''delta='' @ d) = None"
    "query_argument ''long_poll_ms'' (''delta='' @ d) = None"
    unfolding query_argument_def f by (simp_all add: map_filter_simps s del: append_Cons append.append_Cons)
  show "query_argument ''delta'' (''delta='' @ d @ ''&start='' @ x) = Some d" "query_argument ''start'' (''delta='' @ d @ ''&start='' @ x) = Some x"
    "query_argument ''long_poll_ms'' (''delta='' @ d @ ''&start='' @ x) = None"
    unfolding query_argument_def f2 by (simp_all add: map_filter_simps s del: append_Cons append.append_Cons)
qed

definition history_args :: "u64 \<Rightarrow> HistoryArgs" where
  "history_args start = \<lparr>ha_have_start = (start \<noteq> 0), ha_start_idx = start, ha_delta = 1024\<rparr>"

definition history_query :: "string \<Rightarrow> string option \<Rightarrow> string" where
  "history_query d start = ''delta='' @ d @ (case start of None \<Rightarrow> [] | Some x \<Rightarrow> ''&start='' @ x)"

lemma history_query_arguments:
  assumes "CHR ''&'' \<notin> set d" and "\<forall>x. start = Some x \<longrightarrow> CHR ''&'' \<notin> set x"
  shows "query_argument ''delta'' (history_query d start) = Some d" "query_argument ''start'' (history_query d start) = start"
    "query_argument ''long_poll_ms'' (history_query d start) = None"
  unfolding history_query_def using query_arguments [OF assms(1)] assms
  by (cases start; simp del: append_Cons append.append_Cons)+

lemma history_url_path:
  assumes "account_at h (Some base) account"
  shows "url_path h (history_url base start n) =
     (CHR ''/'' # account @ ''/history/incoming'') @ CHR ''?'' # history_query (fst (history_arguments start n)) (snd (history_arguments start n))"
proof -
  obtain d x where a: "history_arguments start n = (d, x)" by fastforce
  have "base = fb_my_baseurl h @ account @ ''/''" using assms by (simp add: account_at_def)
  then have "drop (length (fb_my_baseurl h)) (history_url base start n) = account @ ''/history/incoming?'' @ history_query d x"
    by (simp add: history_url_def history_query_def a)
  then show ?thesis by (simp add: url_path_def a)
qed

lemma url_request_history:
  assumes at: "account_at h (Some base) account"
  shows "\<exists>up. url_request (url_path h (history_url base start 1024)) = (CHR ''/'' # account @ ''/history/incoming'', up)
     \<and> upload_history up = Some (history_args start)"
proof -
  let ?d = "print_llu 1024" and ?s = "if start = 0 then None else Some (print_llu (unat start))"
  let ?q = "history_query ?d ?s"
  have args: "history_arguments start 1024 = (?d, ?s)" by (simp add: history_arguments_def print_lld_def)
  have "CHR ''?'' \<notin> set (CHR ''/'' # account @ ''/history/incoming'')" using at by (simp add: account_at_def)
  from strchr_append [OF this] have path: "strchr (url_path h (history_url base start 1024)) CHR ''?''
      = Some (CHR ''/'' # account @ ''/history/incoming'', ?q)"
    unfolding history_url_path [OF at] args fst_conv snd_conv .
  have amp: "CHR ''&'' \<notin> set (print_llu n)" for n using digits_no by blast
  then have q: "query_argument ''delta'' ?q = Some ?d" "query_argument ''start'' ?q = ?s" "query_argument ''long_poll_ms'' ?q = None"
    using history_query_arguments [of ?d ?s] by simp_all
  have scan: "scan_int ?d = Some 1024" "scan_int (print_llu (unat start)) = Some (uint start)" using scan_print [of 1024] scan_print [of "unat start"] by simp_all
  let ?up = "\<lparr>up_incoming = None, up_transfer = None, up_start = ?s, up_delta = Some ?d, up_long_poll_ms = None\<rparr>"
  have "url_request (url_path h (history_url base start 1024)) = (CHR ''/'' # account @ ''/history/incoming'', ?up)"
    unfolding url_request_def path option.case prod.case q ..
  moreover have "upload_history ?up = Some (history_args start)"
    using scan by (simp add: upload_history_def parse_history_common_args_def history_args_def)
  ultimately show ?thesis by blast
qed

lemma bank_reads_history:
  assumes "account_at h (Some base) account"
  shows "bank_reads g now (history_url base start 1024) h = Some (map_option BANK_INCOMING (handle_credit_history (Some (history_args start)) account h), h)"
proof -
  obtain up where up: "url_request (url_path h (history_url base start 1024)) = (CHR ''/'' # account @ ''/history/incoming'', up)"
    "upload_history up = Some (history_args start)" using url_request_history [OF assms] by blast
  have "strchr (account @ ''/history/incoming'') CHR ''/'' = Some (account, ''history/incoming'')"
    using strchr_append [of "CHR ''/''" account "''history/incoming''"] assms by (simp add: account_at_def)
  moreover have "length (CHR ''/'' # account @ ''/history/incoming'') > 1" by simp
  ultimately show ?thesis by (simp add: bank_reads_def up fakebank_handle_mhd_request_def serve_def)
qed

section \<open>The page that is fetched\<close>

lemma filter_less_drop:
  assumes "sorted_wrt (\<lambda>t u. tx_row_id t < tx_row_id u) ts" and "n < length ts"
  shows "filter (\<lambda>u. tx_row_id u > tx_row_id (ts ! n)) ts = drop (Suc n) ts"
proof -
  let ?p = "\<lambda>u. tx_row_id u > tx_row_id (ts ! n)"
  note o = sorted_wrt_iff_nth_less [THEN iffD1, OF assms(1), rule_format]
  have "\<not> ?p u" if "u \<in> set (take (Suc n) ts)" for u
  proof -
    from that obtain i where "i < Suc n" "u = ts ! i" by (auto simp: in_set_conv_nth)
    with o [of i n] assms(2) show ?thesis by (cases "i = n") auto
  qed
  then have "filter ?p (take (Suc n) ts) = []" by (simp add: filter_empty_conv)
  moreover have "?p u" if "u \<in> set (drop (Suc n) ts)" for u
  proof -
    from that obtain i where "u = ts ! (Suc n + i)" "Suc n + i < length ts" by (auto simp: in_set_conv_nth)
    with o [of n "Suc n + i"] show ?thesis by auto
  qed
  then have "filter ?p (drop (Suc n) ts) = drop (Suc n) ts" by (simp add: filter_id_conv)
  ultimately show ?thesis using filter_append [of ?p "take (Suc n) ts" "drop (Suc n) ts"] by simp
qed

definition last_reference :: "(u64 \<times> transaction_subject \<times> int) list \<Rightarrow> u64" where
  "last_reference ks = (if ks = [] then 0 else fst (last ks))"

lemma page_after_prefix:
  assumes ok: "fakebank_ok h" and "\<forall>t\<in>set (fb_transactions h). tx_row_id t \<noteq> 0" and p: "prefix ks (received h account)"
  shows "handle_credit_history (Some (history_args (last_reference ks))) account h
     = Some (map json_transaction (take 1024 (drop (length ks) (filter (incoming_to account) (fb_transactions h)))))"
proof (cases "ks = []")
  case True
  then show ?thesis by (simp add: last_reference_def history_args_def history_first)
next
  case False
  let ?in = "filter (incoming_to account) (fb_transactions h)" and ?n = "length ks - 1"
  let ?t = "?in ! ?n"
  have len: "length ks \<le> length ?in" using prefix_length_le [OF p] by (simp add: received_def)
  have n: "?n < length ?in" "?n < length ks" using len False by (cases ks; simp)+
  have "ks ! ?n = received h account ! ?n" using p n(2) by (auto simp: prefix_def nth_append)
  then have t: "last_reference ks = tx_row_id ?t" "?t \<in> set (fb_transactions h)"
    using False n(1) nth_mem [OF n(1)] by (simp_all add: last_reference_def last_conv_nth received_def tx_key_def)
  have "sorted_wrt (\<lambda>t u. tx_row_id t < tx_row_id u) ?in" using ok by (auto simp: fakebank_ok_def sorted_wrt_filter)
  from filter_less_drop [OF this n(1)] False have d: "filter (\<lambda>u. tx_row_id u > tx_row_id ?t) ?in = drop (length ks) ?in" by simp
  have "history_args (last_reference ks) = \<lparr>ha_have_start = True, ha_start_idx = tx_row_id ?t, ha_delta = 1024\<rparr>"
    using t assms(2) by (auto simp: history_args_def)
  moreover have "filter (incoming_to account) (filter (\<lambda>u. tx_row_id ?t < tx_row_id u) (fb_transactions h)) = drop (length ks) ?in"
    unfolding d [symmetric] by (simp add: conj_commute)
  ultimately show ?thesis using history_pages(1) [OF ok t(2), of 1024 account] by simp
qed

section \<open>Storing a page\<close>

definition db_fine :: "tables \<Rightarrow> bool" where
  "db_fine db \<longleftrightarrow> reserves_ok db \<and> reserve_tables_ok db"

text \<open>What the bank reports of an account: transfers to it whose amounts and times are as the exchange expects\<close>

definition storable :: "wirewatch \<Rightarrow> Transaction \<Rightarrow> bool" where
  "storable ww t \<longleftrightarrow> \<not> is_debit t \<and> amount_in (pg_currency (wwc_pg ww)) (tx_amount t)
     \<and> GNUNET_TIME_round_abs (wwc_gnunet ww) (tx_date t) = tx_date t"

definition tables_added :: "string \<Rightarrow> (u64 \<times> transaction_subject \<times> int) list \<Rightarrow> tables \<Rightarrow> tables \<Rightarrow> bool" where
  "tables_added section_name ks db db' \<longleftrightarrow> db_fine db' \<and> (\<exists>rows. t_reserves_in db' = t_reserves_in db @ rows
     \<and> map row_key rows = ks \<and> (\<forall>r\<in>set rows. ri_exchange_account_section r = section_name))"

lemma tables_added_refl: "db_fine db \<Longrightarrow> tables_added x [] db db"
  by (simp add: tables_added_def)

lemma tables_added_trans: "tables_added x ks db db' \<Longrightarrow> tables_added x ks' db' db'' \<Longrightarrow> tables_added x (ks @ ks') db db''"
  by (auto simp: tables_added_def)

lemma credit_entry_Some:
  assumes "storable ww t" and "credit_entry (json_transaction t) = Some (i, d)"
  obtains pub where "tx_subject t = T_CREDIT pub" "i = tx_row_id t" "cd_reserve_pub d = pub" "cd_amount d = tx_amount t" "cd_execution_date d = tx_date t"
proof -
  from assms(2) have "i = tx_row_id t \<and> tx_subject t = T_CREDIT (cd_reserve_pub d) \<and> cd_amount d = tx_amount t \<and> cd_execution_date d = tx_date t"
    by (auto simp: credit_entry_def json_transaction_def split: transaction_subject.splits if_splits)
  with that show ?thesis by blast
qed

lemma history_cb_entry_wp:
  assumes g: "gnunet_ok (wwc_gnunet ww)" and pg: "pg_ok (wwc_pg ww)" and s: "session_ok s" "s_in_tx s" and db: "db_fine (s_db s)"
    and t: "storable ww t" "credit_entry (json_transaction t) = Some (i, d)"
    and new: "\<forall>r\<in>set (t_reserves_in (s_db s)). ri_wire_reference r \<noteq> tx_row_id t"
  shows "wp (history_cb_entry ww wa i d s) (\<lambda>(stop, wa') s'. same_position wa wa' \<and> s_committed s' = s_committed s \<and>
     (case stop of
        Some task \<Rightarrow> awaited task = None \<and> idle s'
      | None \<Rightarrow> session_ok s' \<and> s_in_tx s' \<and> tables_added (ww_section_name wa) [tx_key t] (s_db s) (s_db s')))"
proof -
  obtain pub where p: "tx_subject t = T_CREDIT pub" "i = tx_row_id t" "cd_reserve_pub d = pub" "cd_amount d = tx_amount t" "cd_execution_date d = tx_date t"
    by (rule credit_entry_Some [OF t]) (rule that)
  let ?wa = "if ww_current_batch_size wa < - 1 then wa\<lparr>ww_current_batch_size := ww_current_batch_size wa + 1\<rparr> else wa"
  have wa: "same_position wa ?wa" "ww_section_name ?wa = ww_section_name wa" by (simp_all add: same_position_def)
  have "wp (postgres_reserves_in_insert (wwc_gnunet ww) (wwc_pg ww) (cd_reserve_pub d) (cd_amount d) (cd_execution_date d)
          (cd_debit_account_url d) (ww_section_name wa) i s) (\<lambda>qs s'.
     qs = 1 \<and> (\<exists>db. updated s db s' \<and> credit_effect pub (ww_section_name wa) (tx_row_id t) (amt (tx_amount t)) (s_db s) db)
     \<or> qs = 0 \<and> transfer_known (s_db s) pub (tx_row_id t) \<and> updated s (s_db s) s' \<or> op_failed s qs s')"
    unfolding p(2-5) using t(1) db by (intro reserves_in_insert_wp [OF g s pg]) (auto simp: storable_def db_fine_def)
  then show ?thesis
    unfolding history_cb_entry_def Let_def wa(2)
  proof (rule wp_bindI, elim disjE conjE exE, goal_cases)
    case (1 qs s' db)
    obtain row where row: "db = (s_db s)\<lparr>t_reserves_in := t_reserves_in (s_db s) @ [row], t_reserves := t_reserves db\<rparr>"
      "ri_reserve_pub row = pub" "ri_exchange_account_section row = ww_section_name wa" "ri_wire_reference row = tx_row_id t"
      "sqlamt (ri_credit row) = amt (tx_amount t)" "db_fine db"
      using \<open>credit_effect _ _ _ _ _ _\<close> by (auto simp: credit_effect_def db_fine_def)
    have "t_reserves_in db = t_reserves_in (s_db s) @ [row]" by (subst row(1)) simp
    with row(2-6) p(1) have "tables_added (ww_section_name wa) [tx_key t] (s_db s) db"
      by (simp add: tables_added_def row_key_def tx_key_def)
    with 1 wa session_ok_updated [OF s(1) \<open>updated s db s'\<close>] updated_sels [OF \<open>updated s db s'\<close>] s(2) show ?case
      by (auto simp: updated_def same_position_def)
  next
    case (2 qs s')
    with new show ?case by (auto simp: transfer_known_def)
  next
    case (3 qs s')
    have "s_committed s' = s_committed s" using 3 s(2) by (auto simp: op_failed_def tx_kept_def)
    with 3 wa rollback_idle [of s'] show ?case by (auto simp: op_failed_def)
  qed
qed

definition page_stored ::
    "(u64 \<times> transaction_subject \<times> int) list \<Rightarrow> WireAccount \<Rightarrow> tables session \<Rightarrow> watch_task option \<Rightarrow> WireAccount \<Rightarrow> tables session \<Rightarrow> bool" where
  "page_stored keys wa s stop wa' s' \<longleftrightarrow> same_position wa wa' \<and> s_committed s' = s_committed s \<and>
     (case stop of
        Some task \<Rightarrow> awaited task = None \<and> idle s'
      | None \<Rightarrow> session_ok s' \<and> s_in_tx s' \<and> (\<exists>ks. prefix ks keys \<and> tables_added (ww_section_name wa) ks (s_db s) (s_db s')))"

lemma page_stored_Nil:
  assumes "session_ok s" and "s_in_tx s" and "db_fine (s_db s)"
  shows "page_stored keys wa s None wa s"
proof -
  have "\<exists>ks. prefix ks keys \<and> tables_added (ww_section_name wa) ks (s_db s) (s_db s)"
    using tables_added_refl [OF assms(3)] by (intro exI [of _ "[]"]) simp
  with assms show ?thesis by (simp add: page_stored_def)
qed

lemma page_stored_Cons:
  assumes "same_position wa wa1" and "s_committed s1 = s_committed s" and "tables_added (ww_section_name wa) [k] (s_db s) (s_db s1)"
    and "page_stored keys wa1 s1 stop wa2 s2"
  shows "page_stored (k # keys) wa s stop wa2 s2"
proof -
  have sec: "ww_section_name wa1 = ww_section_name wa" using assms(1) by (simp add: same_position_def)
  have "\<exists>ks. prefix ks (k # keys) \<and> tables_added (ww_section_name wa) ks (s_db s) (s_db s2)"
    if "prefix ks keys" "tables_added (ww_section_name wa1) ks (s_db s1) (s_db s2)" for ks
    using that tables_added_trans [OF assms(3), of ks] sec by (intro exI [of _ "k # ks"]) simp
  with assms(1,2,4) same_position_trans [OF assms(1)] show ?thesis
    unfolding page_stored_def by (cases stop) auto
qed

lemma parse_account_history_wp:
  assumes g: "gnunet_ok (wwc_gnunet ww)" and pg: "pg_ok (wwc_pg ww)"
    and "session_ok s" "s_in_tx s" "db_fine (s_db s)" "\<forall>t\<in>set ts. storable ww t" "distinct (map tx_row_id ts)"
    and "\<forall>t\<in>set ts. \<forall>r\<in>set (t_reserves_in (s_db s)). ri_wire_reference r \<noteq> tx_row_id t"
  shows "wp (parse_account_history ww (map (\<lambda>t. credit_entry (json_transaction t)) ts) wa s) (\<lambda>(ok, stop, wa') s'.
     page_stored (map tx_key ts) wa s stop wa' s')"
  using assms(3-)
proof (induction ts arbitrary: wa s)
  case Nil
  then show ?case using page_stored_Nil [of s "[]" wa] by simp
next
  case (Cons t ts)
  show ?case
  proof (cases "credit_entry (json_transaction t)")
    case None
    with page_stored_Nil [OF Cons.prems(1-3)] show ?thesis by simp
  next
    case (Some e)
    obtain i d where e: "credit_entry (json_transaction t) = Some (i, d)" using Some by (cases e) simp
    have t: "storable ww t" "\<forall>r\<in>set (t_reserves_in (s_db s)). ri_wire_reference r \<noteq> tx_row_id t"
      and ts: "\<forall>t\<in>set ts. storable ww t" "distinct (map tx_row_id ts)" "tx_row_id t \<notin> set (map tx_row_id ts)"
      "\<forall>u\<in>set ts. \<forall>r\<in>set (t_reserves_in (s_db s)). ri_wire_reference r \<noteq> tx_row_id u"
      using Cons.prems(4-6) by simp_all
    obtain stop wa1 s1 where h: "history_cb_entry ww wa i d s = Some ((stop, wa1), s1)"
      and h1: "same_position wa wa1" "s_committed s1 = s_committed s"
        "case stop of Some task \<Rightarrow> awaited task = None \<and> idle s1
         | None \<Rightarrow> session_ok s1 \<and> s_in_tx s1 \<and> tables_added (ww_section_name wa) [tx_key t] (s_db s) (s_db s1)"
      using history_cb_entry_wp [OF g pg Cons.prems(1-3) t(1) e t(2), of wa] unfolding wp_iff by blast
    show ?thesis
    proof (cases stop)
      case None
      with h1 have s1: "session_ok s1" "s_in_tx s1" "tables_added (ww_section_name wa) [tx_key t] (s_db s) (s_db s1)" by simp_all
      then obtain row where row: "t_reserves_in (s_db s1) = t_reserves_in (s_db s) @ [row]" "ri_wire_reference row = tx_row_id t" "db_fine (s_db s1)"
        by (auto simp: tables_added_def row_key_def tx_key_def)
      have "\<forall>u\<in>set ts. \<forall>r\<in>set (t_reserves_in (s_db s1)). ri_wire_reference r \<noteq> tx_row_id u"
        using ts(3,4) row(2) by (simp add: row(1)) (metis image_eqI)
      from Cons.IH [OF s1(1,2) row(3) ts(1,2) this, of wa1]
      obtain ok stop2 wa2 s2 where p: "parse_account_history ww (map (\<lambda>t. credit_entry (json_transaction t)) ts) wa1 s1 = Some ((ok, stop2, wa2), s2)"
        "page_stored (map tx_key ts) wa1 s1 stop2 wa2 s2"
        unfolding wp_iff by blast
      from page_stored_Cons [OF h1(1,2) s1(3) p(2)] p(1) show ?thesis by (simp add: e h None)
    next
      case (Some task)
      with h1 have "page_stored (map tx_key (t # ts)) wa s (Some task) wa1 s1" by (simp add: page_stored_def)
      with Some show ?thesis by (simp add: e h)
    qed
  qed
qed

section \<open>The invariant\<close>

text \<open>What was credited is a prefix of what the bank has received. The accounts of the exchange are different accounts of the bank, and the sections of
  the configuration have different names.\<close>

definition accounts_ok :: "(string \<times> string option) list \<Rightarrow> TALER_FAKEBANK_Handle \<Rightarrow> bool" where
  "accounts_ok accounts h \<longleftrightarrow> (\<forall>(x, gw)\<in>set accounts. \<exists>a. account_at h gw a)
     \<and> (\<forall>(x, gw)\<in>set accounts. \<forall>(x', gw')\<in>set accounts. \<forall>a a'. account_at h gw a \<longrightarrow> account_at h gw' a' \<longrightarrow>
          (x = x' \<longleftrightarrow> strcasecmp_eq a a'))"

definition credits_ok :: "wirewatch \<Rightarrow> (string \<times> string option) list \<Rightarrow> TALER_FAKEBANK_Handle \<Rightarrow> tables \<Rightarrow> bool" where
  "credits_ok ww accounts h db \<longleftrightarrow> accounts_ok accounts h \<and> fakebank_ok h
     \<and> (\<forall>t\<in>set (fb_transactions h). tx_row_id t \<noteq> 0 \<and> (\<not> is_debit t \<longrightarrow> storable ww t))
     \<and> db_fine db \<and> numbered db \<and> (\<forall>r\<in>set (t_reserves_in db). ri_exchange_account_section r \<in> set (map fst accounts))
     \<and> (\<forall>(x, gw)\<in>set accounts. \<forall>a. account_at h gw a \<longrightarrow> prefix (credited x db) (received h a))"

definition account_ready :: "tables \<Rightarrow> WireAccount \<Rightarrow> bool" where
  "account_ready db wa \<longleftrightarrow> \<not> ww_reset_mode wa \<and> ww_batch_size wa = INITIAL_BATCH_SIZE
     \<and> (credited (ww_section_name wa) db = [] \<longrightarrow> ww_last_row_off wa = 0)"

definition watching :: "tables session \<Rightarrow> wirewatch_state \<Rightarrow> string option \<Rightarrow> bool" where
  "watching s ws url \<longleftrightarrow> (\<forall>wa\<in>set (ws_accounts ws). account_ready (s_committed s) wa)
     \<and> (case url of
          None \<Rightarrow> idle s
        | Some url \<Rightarrow> in_fresh_tx s \<and> (let wa = ws_accounts ws ! ws_pos ws in \<exists>base. ww_wire_gateway_url wa = Some base
            \<and> url = history_url base (last_reference (credited (ww_section_name wa) (s_committed s))) 1024))"

definition watch_ok :: "wirewatch \<Rightarrow> (string \<times> string option) list \<Rightarrow> watch_system \<Rightarrow> bool" where
  "watch_ok ww accounts y \<longleftrightarrow> configured accounts (wy_watch y)
     \<and> credits_ok ww accounts (wy_bank y) (s_committed (wy_session y)) \<and> watching (wy_session y) (wy_watch y) (wy_url y)"

section \<open>A page keeps the books\<close>

lemma accounts_same:
  "accounts_ok accounts h \<Longrightarrow> (x, gw) \<in> set accounts \<Longrightarrow> (x', gw') \<in> set accounts \<Longrightarrow> account_at h gw a \<Longrightarrow> account_at h gw' a' \<Longrightarrow>
     x = x' \<longleftrightarrow> strcasecmp_eq a a'"
  unfolding accounts_ok_def by fastforce

lemma credits_okD:
  assumes "credits_ok ww accounts h db"
  shows "accounts_ok accounts h" "fakebank_ok h" "\<forall>t\<in>set (fb_transactions h). tx_row_id t \<noteq> 0 \<and> (\<not> is_debit t \<longrightarrow> storable ww t)"
    "db_fine db" "numbered db" "\<And>r. r \<in> set (t_reserves_in db) \<Longrightarrow> ri_exchange_account_section r \<in> set (map fst accounts)"
    "\<And>x gw a. (x, gw) \<in> set accounts \<Longrightarrow> account_at h gw a \<Longrightarrow> prefix (credited x db) (received h a)"
  using assms unfolding credits_ok_def by auto

lemma received_same: "strcasecmp_eq a a' \<Longrightarrow> filter (incoming_to a') ts = filter (incoming_to a) ts"
  by (rule filter_cong) (auto simp: incoming_to_def intro: strcasecmp_eq_trans strcasecmp_eq_sym)

lemma credits_fresh:
  assumes ok: "credits_ok ww accounts h db" and x: "(x, gw) \<in> set accounts" "account_at h gw a"
    and t: "t \<in> set (drop (length (credited x db)) (filter (incoming_to a) (fb_transactions h)))" and r: "r \<in> set (t_reserves_in db)"
  shows "ri_wire_reference r \<noteq> tx_row_id t"
proof
  assume eq: "ri_wire_reference r = tx_row_id t"
  let ?in = "\<lambda>a. filter (incoming_to a) (fb_transactions h)"
  let ?x' = "ri_exchange_account_section r"
  let ?n' = "length (credited ?x' db)"
  obtain gw' a' where x': "(?x', gw') \<in> set accounts" "account_at h gw' a'"
    using credits_okD(6) [OF ok r] credits_okD(1) [OF ok] unfolding accounts_ok_def by fastforce
  have "prefix (credited ?x' db) (received h a')" by (rule credits_okD(7) [OF ok x'])
  then obtain zs where "map tx_key (?in a') = credited ?x' db @ zs" unfolding prefix_def received_def by blast
  then have "map tx_key (take ?n' (?in a')) = credited ?x' db" by (simp flip: take_map)
  moreover have "row_key r \<in> set (credited ?x' db)" using r by (simp add: credited_def rows_of_def)
  ultimately have "row_key r \<in> tx_key ` set (take ?n' (?in a'))" by (metis set_map)
  then obtain u where u: "u \<in> set (take ?n' (?in a'))" "row_key r = tx_key u" by blast
  have ut: "u \<in> set (fb_transactions h)" "incoming_to a' u" "t \<in> set (fb_transactions h)" "incoming_to a t"
    using in_set_takeD [OF u(1)] in_set_dropD [OF t] by auto
  have "sorted_wrt (\<lambda>t u. tx_row_id t < tx_row_id u) (fb_transactions h)" using credits_okD(2) [OF ok] by (simp add: fakebank_ok_def)
  then have "sorted_wrt (<) (map tx_row_id (fb_transactions h))" by (simp add: sorted_wrt_map)
  then have d: "distinct (map tx_row_id (fb_transactions h))" by (simp add: strict_sorted_iff)
  have "tx_row_id u = tx_row_id t" using u(2) eq by (simp add: row_key_def tx_key_def)
  then have "u = t" using d ut by (auto simp: distinct_map dest: inj_onD)
  then have same: "strcasecmp_eq a a'" using ut by (auto simp: incoming_to_def intro: strcasecmp_eq_sym strcasecmp_eq_trans)
  then have sx: "?x' = x" using accounts_same [OF credits_okD(1) [OF ok] x(1) x'(1) x(2) x'(2)] by simp
  have "?in a' = ?in a" by (rule received_same [OF same])
  with u(1) t \<open>u = t\<close> sx have "t \<in> set (take (length (credited x db)) (?in a)) \<inter> set (drop (length (credited x db)) (?in a))" by simp
  moreover have "distinct (?in a)" using d by (simp add: distinct_map)
  ultimately show False using set_take_disj_set_drop_if_distinct [of "?in a" "length (credited x db)" "length (credited x db)"] by blast
qed

lemma credited_added:
  assumes "tables_added x ks db db'"
  shows "credited z db' = credited z db @ (if z = x then ks else [])"
proof -
  obtain rows where r: "t_reserves_in db' = t_reserves_in db @ rows" "map row_key rows = ks" "\<forall>r\<in>set rows. ri_exchange_account_section r = x"
    using assms by (auto simp: tables_added_def)
  then have "filter (\<lambda>r. ri_exchange_account_section r = z) rows = (if z = x then rows else [])"
    by (auto simp: filter_id_conv filter_empty_conv)
  with r show ?thesis by (simp add: credited_def rows_of_def)
qed

lemma credits_added:
  assumes ok: "credits_ok ww accounts h db" and x: "(x, gw) \<in> set accounts" "account_at h gw a"
    and ks: "prefix ks (map tx_key (take n (drop (length (credited x db)) (filter (incoming_to a) (fb_transactions h)))))"
    and db': "tables_added x ks db db'" "numbered db'"
  shows "credits_ok ww accounts h db'"
proof -
  note ok' = credits_okD [OF ok]
  let ?in = "filter (incoming_to a) (fb_transactions h)"
  have x_prefix: "prefix (credited x db @ ks) (received h a)"
  proof -
    obtain zs where z: "map tx_key ?in = credited x db @ zs" using ok'(7) [OF x] unfolding prefix_def received_def by blast
    then have "map tx_key (drop (length (credited x db)) ?in) = zs" by (simp flip: drop_map)
    then have "map tx_key (take n (drop (length (credited x db)) ?in)) = take n zs" by (simp flip: take_map)
    with ks have "prefix ks (take n zs)" by simp
    then have "prefix ks zs" using take_is_prefix by (rule prefix_order.trans)
    then show ?thesis by (simp add: received_def z)
  qed
  have p: "prefix (credited z db') (received h a')" if z: "(z, gw') \<in> set accounts" "account_at h gw' a'" for z gw' a'
  proof (cases "z = x")
    case True
    then have "strcasecmp_eq a a'" using accounts_same [OF ok'(1) x(1) z(1) x(2) z(2)] by simp
    then have "received h a' = received h a" by (simp add: received_def received_same)
    with True x_prefix show ?thesis by (simp add: credited_added [OF db'(1)])
  next
    case False
    with ok'(7) [OF z] show ?thesis by (simp add: credited_added [OF db'(1)])
  qed
  have r: "ri_exchange_account_section r \<in> set (map fst accounts)" if r: "r \<in> set (t_reserves_in db')" for r
  proof -
    obtain rows where rows: "t_reserves_in db' = t_reserves_in db @ rows" "\<forall>r\<in>set rows. ri_exchange_account_section r = x"
      using db'(1) by (auto simp: tables_added_def)
    from r have "r \<in> set (t_reserves_in db) \<or> r \<in> set rows" by (simp add: rows(1))
    then show ?thesis using ok'(6) rows(2) x(1) by (metis fst_conv image_eqI set_map)
  qed
  have "db_fine db'" using db'(1) by (simp add: tables_added_def)
  then show ?thesis unfolding credits_ok_def using ok'(1-3) db'(2) p r by auto
qed

section \<open>What the process does\<close>

lemma sort_key_sorted: "sorted (map f xs) \<Longrightarrow> sort_key f xs = xs"
  by (induction xs) (auto simp: insort_is_Cons)

lemma latest_reference:
  assumes "numbered db"
  shows "sql_reserves_in_get_latest_wire_reference x db = (if credited x db = [] then [] else [last_reference (credited x db)])"
proof -
  have "sorted (map ri_serial_id (rows_of x db))" using assms by (simp add: numbered_def rows_of_def sorted_filter)
  then have "sql_reserves_in_get_latest_wire_reference x db = map ri_wire_reference (take 1 (rev (rows_of x db)))"
    by (simp add: sql_reserves_in_get_latest_wire_reference_def rows_of_def sort_key_sorted)
  also have "\<dots> = (if rows_of x db = [] then [] else [ri_wire_reference (last (rows_of x db))])"
    by (cases "rows_of x db" rule: rev_cases) simp_all
  finally show ?thesis by (simp add: credited_def last_reference_def last_map row_key_def)
qed

lemma configured_account:
  assumes "configured accounts ws"
  shows "(ww_section_name (ws_accounts ws ! ws_pos ws), ww_wire_gateway_url (ws_accounts ws ! ws_pos ws)) \<in> set accounts"
    and "ws_accounts ws ! ws_pos ws \<in> set (ws_accounts ws)"
proof -
  have pos: "ws_pos ws < length (ws_accounts ws)" and m: "map (\<lambda>wa. (ww_section_name wa, ww_wire_gateway_url wa)) (ws_accounts ws) = rev accounts"
    using assms by (simp_all add: configured_def)
  show in_set: "ws_accounts ws ! ws_pos ws \<in> set (ws_accounts ws)" using pos by simp
  then have "(ww_section_name (ws_accounts ws ! ws_pos ws), ww_wire_gateway_url (ws_accounts ws ! ws_pos ws))
      \<in> set (map (\<lambda>wa. (ww_section_name wa, ww_wire_gateway_url wa)) (ws_accounts ws))" by simp
  then show "(ww_section_name (ws_accounts ws ! ws_pos ws), ww_wire_gateway_url (ws_accounts ws ! ws_pos ws)) \<in> set accounts"
    by (simp only: m set_rev)
qed

lemma configured_update:
  assumes "configured accounts ws" and "ww_section_name wa = ww_section_name (ws_accounts ws ! ws_pos ws)"
    and "ww_wire_gateway_url wa = ww_wire_gateway_url (ws_accounts ws ! ws_pos ws)"
  shows "configured accounts (ws\<lparr>ws_accounts := (ws_accounts ws)[ws_pos ws := wa]\<rparr>)"
proof -
  have pos: "ws_pos ws < length (ws_accounts ws)" using assms(1) by (simp add: configured_def)
  have "map (\<lambda>wa. (ww_section_name wa, ww_wire_gateway_url wa)) ((ws_accounts ws)[ws_pos ws := wa])
      = map (\<lambda>wa. (ww_section_name wa, ww_wire_gateway_url wa)) (ws_accounts ws)"
    using assms(2,3) by (intro nth_equalityI) (auto simp: nth_list_update pos)
  with assms(1) show ?thesis by (simp add: configured_def)
qed

lemma requested_ok:
  assumes grow: "grow_ok (wwc_grow ww)" and r: "request_history ww ws wa s = Some ((task, ws'), s')"
    and ws: "configured accounts ws" "\<forall>wa\<in>set (ws_accounts ws). account_ready (s_committed s) wa" and s: "in_fresh_tx s"
    and wa: "ww_section_name wa = ww_section_name (ws_accounts ws ! ws_pos ws)" "ww_wire_gateway_url wa = ww_wire_gateway_url (ws_accounts ws ! ws_pos ws)"
      "\<not> ww_reset_mode wa" "ww_batch_size wa = INITIAL_BATCH_SIZE" "ww_last_row_off wa = last_reference (credited (ww_section_name wa) (s_committed s))"
  shows "configured accounts ws' \<and> s_committed s' = s_committed s \<and> watching s' ws' (awaited task)"
proof -
  have pos: "ws_pos ws < length (ws_accounts ws)" using ws(1) by (simp add: configured_def)
  obtain wa' where wa': "same_position wa wa'" "ws' = ws\<lparr>ws_accounts := (ws_accounts ws)[ws_pos ws := wa']\<rparr>"
    "awaited task = None \<and> s' = postgres_rollback s \<or> (\<exists>base. ww_wire_gateway_url wa = Some base
       \<and> awaited task = Some (history_url base (ww_last_row_off wa) (uint (ww_batch_size wa))) \<and> s' = s)"
    by (rule request_history_position [OF grow r pos]) (rule that)
  have f: "ww_section_name wa' = ww_section_name wa" "ww_wire_gateway_url wa' = ww_wire_gateway_url wa" "\<not> ww_reset_mode wa'"
    "ww_batch_size wa' = INITIAL_BATCH_SIZE" "ww_last_row_off wa' = last_reference (credited (ww_section_name wa) (s_committed s))"
    using wa'(1) wa(3-5) by (simp_all add: same_position_def)
  have c: "configured accounts ws'" unfolding wa'(2) by (rule configured_update [OF ws(1)]) (use f wa in simp_all)
  have com: "s_committed s' = s_committed s" using wa'(3) rollback_idle [of s] by auto
  have "account_ready (s_committed s) wa'" using f by (simp add: account_ready_def last_reference_def)
  then have "\<forall>w\<in>set (ws_accounts ws'). account_ready (s_committed s') w"
    using ws(2) com set_update_subset_insert [of "ws_accounts ws" "ws_pos ws" wa'] unfolding wa'(2) by auto
  moreover have "ws_accounts ws' ! ws_pos ws' = wa'" using pos by (simp add: wa'(2))
  ultimately have "watching s' ws' (awaited task)"
    using wa'(3) f wa(4,5) rollback_idle [of s] s com by (auto simp: watching_def Let_def)
  with c com show ?thesis by blast
qed

lemma idle_watching: "watching s ws None \<Longrightarrow> idle s' \<Longrightarrow> s_committed s' = s_committed s \<Longrightarrow> watching s' ws None"
  by (simp add: watching_def)

lemma find_transfers_ok:
  assumes g: "gnunet_ok (wwc_gnunet ww)" and grow: "grow_ok (wwc_grow ww)" and n: "numbered (s_committed s)"
    and ws: "configured accounts ws" and w: "watching s ws None" and f: "find_transfers ww ws s = Some ((task, ws'), s')"
  shows "configured accounts ws' \<and> s_committed s' = s_committed s \<and> watching s' ws' (awaited task)"
proof -
  let ?wa = "ws_accounts ws ! ws_pos ws" and ?db = "s_committed s"
  obtain ok s0 where s0: "postgres_get_session s = (ok, s0)" by fastforce
  have "idle s" using w by (simp add: watching_def)
  note i0 = get_session_idle [OF s0 this]
  have ready: "account_ready ?db ?wa" using w configured_account(2) [OF ws] by (simp add: watching_def)
  then have wa: "\<not> ww_reset_mode ?wa" "ww_batch_size ?wa = INITIAL_BATCH_SIZE" "credited (ww_section_name ?wa) ?db = [] \<Longrightarrow> ww_last_row_off ?wa = 0"
    by (auto simp: account_ready_def)
  show ?thesis
  proof (cases ok)
    case False
    with f s0 i0 ws idle_watching [OF w] show ?thesis by (auto simp: find_transfers_def)
  next
    case True
    then obtain ok1 s1 where st: "postgres_start ''wirewatch check for incoming wire transfers'' (postgres_preflight s0) = Some (ok1, s1)"
      using f s0 by (auto simp: find_transfers_def bind_eq_Some_conv)
    have "idle (postgres_preflight s0)" "s_committed (postgres_preflight s0) = ?db"
      using i0 exec_rollback_idle [of s0] by (simp_all add: postgres_preflight_def)
    from wpD [OF start_wp [OF this(1)] st] this(2)
    have s1: "s_committed s1 = ?db" "ok1 = GNUNET_OK \<and> in_fresh_tx s1 \<or> ok1 \<noteq> GNUNET_OK \<and> idle s1" by auto
    show ?thesis
    proof (cases "ok1 = GNUNET_OK")
      case False
      with f s0 True st s1 ws idle_watching [OF w, of s1] show ?thesis by (auto simp: find_transfers_def)
    next
      case ok1: True
      with s1 have f1: "in_fresh_tx s1" by auto
      obtain qs off s2 where q: "pq_singleton_select (wwc_gnunet ww) (sql_reserves_in_get_latest_wire_reference (ww_section_name ?wa)) s1 = Some ((qs, off), s2)"
        using f s0 True st ok1 wa(1) by (auto simp: find_transfers_def postgres_get_latest_reserve_in_reference_def Let_def bind_eq_Some_conv)
      let ?wa' = "(case off of None \<Rightarrow> ?wa | Some off \<Rightarrow> ?wa\<lparr>ww_last_row_off := off\<rparr>)\<lparr>ww_reset_mode := False\<rparr>"
      have r: "(if qs = GNUNET_DB_STATUS_HARD_ERROR then Some ((Watch_shutdown WW_DATABASE_SELECT_LATEST_HARD_FAIL, ws), postgres_rollback s2)
            else if qs = GNUNET_DB_STATUS_SOFT_ERROR then Some ((Watch_now, ws), postgres_rollback s2)
            else request_history ww ws ?wa' s2) = Some ((task, ws'), s')"
        using f s0 True st ok1 wa(1) q by (simp add: find_transfers_def postgres_get_latest_reserve_in_reference_def Let_def cong: if_cong)
      have "s_db s1 = ?db" "session_ok s1" using f1 s1(1) by (simp_all add: in_fresh_tx_def)
      have query: "sql_reserves_in_get_latest_wire_reference (ww_section_name ?wa) (s_db s1)
          = (if credited (ww_section_name ?wa) ?db = [] then [] else [last_reference (credited (ww_section_name ?wa) ?db)])"
        unfolding \<open>s_db s1 = ?db\<close> by (rule latest_reference [OF n])
      have u: "unchanged s1 s2" and q': "(qs = - 1 \<or> qs = - 2) \<and> off = None
          \<or> qs = 0 \<and> off = None \<and> credited (ww_section_name ?wa) ?db = [] \<and> \<not> s_failed s2
          \<or> qs = 1 \<and> off = Some (last_reference (credited (ww_section_name ?wa) ?db)) \<and> \<not> s_failed s2"
        using wpD [OF pq_singleton_select_wp [OF g \<open>session_ok s1\<close>] q] unfolding query by (auto split: if_splits)
      consider (error) "qs = - 1 \<or> qs = - 2" "unchanged s1 s2"
        | (found) "qs \<noteq> - 1" "qs \<noteq> - 2" "unchanged s1 s2" "\<not> s_failed s2" "ww_last_row_off ?wa' = last_reference (credited (ww_section_name ?wa) ?db)"
        using q' u wa(3) by (elim disjE conjE) (simp_all add: last_reference_def)
      then show ?thesis
      proof cases
        case error
        have "s_committed s2 = ?db" using error(2) s1(1) by (simp add: unchanged_def)
        with r error(1) ws rollback_idle [of s2] idle_watching [OF w, of "postgres_rollback s2"] show ?thesis by auto
      next
        case found
        have s2: "in_fresh_tx s2" "s_committed s2 = ?db"
          using found(3,4) f1 s1(1) session_ok_unchanged [of s1 s2] by (auto simp: in_fresh_tx_def unchanged_def)
        have "request_history ww ws ?wa' s2 = Some ((task, ws'), s')" using r found(1,2) by simp
        moreover have "\<forall>wa\<in>set (ws_accounts ws). account_ready (s_committed s2) wa" using w s2(2) by (simp add: watching_def)
        moreover have "ww_section_name ?wa' = ww_section_name ?wa" "ww_wire_gateway_url ?wa' = ww_wire_gateway_url ?wa" "\<not> ww_reset_mode ?wa'"
          "ww_batch_size ?wa' = INITIAL_BATCH_SIZE" using wa(2) by (simp_all split: option.split)
        ultimately show ?thesis
          using requested_ok [OF grow _ ws _ s2(1), of ?wa' task ws' s'] found(5) s2(2) by (simp del: option.case)
      qed
    qed
  qed
qed

text \<open>The reply\<close>

lemma history_cb_end_ok:
  assumes "gnunet_ok (wwc_gnunet ww)" and "history_cb_end ww ws s = Some ((task, ws'), s')"
  shows "idle s' \<and> (s_committed s' = s_committed s \<or> s_committed s' = tx_outcome s)"
proof -
  obtain qs s1 where c: "postgres_commit (wwc_gnunet ww) s = Some (qs, s1)" using assms(2) by (auto simp: history_cb_end_def bind_eq_Some_conv)
  have "s' = s1" using assms(2) c by (simp add: history_cb_end_def Let_def split: if_splits)
  with wpD [OF commit_wp [OF assms(1)] c] show ?thesis by auto
qed

lemma handle_page_ok:
  assumes g: "gnunet_ok (wwc_gnunet ww)" and pg: "pg_ok (wwc_pg ww)" and s: "in_fresh_tx s" and db: "db_fine (s_committed s)"
    and ts: "\<forall>t\<in>set ts. storable ww t" "distinct (map tx_row_id ts)"
      "\<forall>t\<in>set ts. \<forall>r\<in>set (t_reserves_in (s_committed s)). ri_wire_reference r \<noteq> tx_row_id t"
    and h: "handle_credit_history_finished ww ws MHD_HTTP_OK (Some (map (\<lambda>t. credit_entry (json_transaction t)) ts)) s = Some ((task, ws'), s')"
  shows "idle s' \<and> (s_committed s' = s_committed s \<or> (\<exists>ks. prefix ks (map tx_key ts)
     \<and> tables_added (ww_section_name (ws_accounts ws ! ws_pos ws)) ks (s_committed s) (s_committed s')))"
proof -
  let ?wa = "ws_accounts ws ! ws_pos ws"
  have s': "session_ok s" "s_in_tx s" "s_db s = s_committed s" using s by (simp_all add: in_fresh_tx_def)
  obtain ok stop wa s1 where p: "parse_account_history ww (map (\<lambda>t. credit_entry (json_transaction t)) ts) ?wa s = Some ((ok, stop, wa), s1)"
    "page_stored (map tx_key ts) ?wa s stop wa s1"
    using parse_account_history_wp [OF g pg s'(1,2) _ ts(1,2), of ?wa] db ts(3) unfolding wp_iff s'(3) by blast
  let ?ws = "ws\<lparr>ws_accounts := (ws_accounts ws)[ws_pos ws := wa]\<rparr>"
  have r: "(case stop of Some task \<Rightarrow> Some ((task, ?ws), s1) | None \<Rightarrow> history_cb_end ww ?ws s1) = Some ((task, ws'), s')"
    using h p(1) by (simp add: handle_credit_history_finished_def Let_def)
  show ?thesis
  proof (cases stop)
    case None
    with p(2) obtain ks where c: "s_committed s1 = s_committed s" "s_in_tx s1" and
      ks: "prefix ks (map tx_key ts)" "tables_added (ww_section_name ?wa) ks (s_committed s) (s_db s1)"
      by (auto simp: page_stored_def s'(3))
    have "idle s' \<and> (s_committed s' = s_committed s1 \<or> s_committed s' = tx_outcome s1)"
      using history_cb_end_ok [OF g, of ?ws s1 task ws' s'] r None by simp
    moreover have "tx_outcome s1 = s_db s1 \<or> tx_outcome s1 = s_committed s1" by (simp add: tx_outcome_def)
    ultimately show ?thesis using c ks by metis
  next
    case (Some t)
    with p(2) r show ?thesis by (auto simp: page_stored_def)
  qed
qed

lemma bank_page:
  assumes ok: "credits_ok ww accounts h db" and x: "(x, Some base) \<in> set accounts" "account_at h (Some base) a"
  shows "bank_reads g now (history_url base (last_reference (credited x db)) 1024) h
     = Some (Some (BANK_INCOMING (map json_transaction (take 1024 (drop (length (credited x db)) (filter (incoming_to a) (fb_transactions h)))))), h)"
  using page_after_prefix [OF credits_okD(2) [OF ok] _ credits_okD(7) [OF ok x]] credits_okD(3) [OF ok] by (simp add: bank_reads_history [OF x(2)])

lemma page_storable:
  assumes ok: "credits_ok ww accounts h db" and x: "(x, gw) \<in> set accounts" "account_at h gw a"
    and ts: "ts = take n (drop (length (credited x db)) (filter (incoming_to a) (fb_transactions h)))"
  shows "\<forall>t\<in>set ts. storable ww t" "distinct (map tx_row_id ts)" "\<forall>t\<in>set ts. \<forall>r\<in>set (t_reserves_in db). ri_wire_reference r \<noteq> tx_row_id t"
proof -
  have sub: "t \<in> set (drop (length (credited x db)) (filter (incoming_to a) (fb_transactions h)))" if "t \<in> set ts" for t
    using that in_set_takeD unfolding ts by metis
  then show "\<forall>t\<in>set ts. \<forall>r\<in>set (t_reserves_in db). ri_wire_reference r \<noteq> tx_row_id t" using credits_fresh [OF ok x] by blast
  have "t \<in> set (fb_transactions h) \<and> \<not> is_debit t" if "t \<in> set ts" for t
    using in_set_dropD [OF sub [OF that]] by (simp add: incoming_to_def)
  then show "\<forall>t\<in>set ts. storable ww t" using credits_okD(3) [OF ok] by blast
  have "sorted_wrt (\<lambda>t u. tx_row_id t < tx_row_id u) (fb_transactions h)" using credits_okD(2) [OF ok] by (simp add: fakebank_ok_def)
  then have "sorted_wrt (\<lambda>t u. tx_row_id t < tx_row_id u) ts" unfolding ts by (intro sorted_wrt_take sorted_wrt_drop sorted_wrt_filter)
  then have "sorted_wrt (<) (map tx_row_id ts)" by (simp add: sorted_wrt_map)
  then show "distinct (map tx_row_id ts)" by (simp add: strict_sorted_iff)
qed

lemma ready_later:
  assumes "same_accounts ws ws'" and "\<forall>wa\<in>set (ws_accounts ws). account_ready db wa" and "\<And>x. credited x db' = [] \<Longrightarrow> credited x db = []"
  shows "\<forall>wa\<in>set (ws_accounts ws'). account_ready db' wa"
proof
  fix wa assume "wa \<in> set (ws_accounts ws')"
  then obtain i where "i < length (ws_accounts ws')" "wa = ws_accounts ws' ! i" by (auto simp: in_set_conv_nth)
  with assms(1) have "same_position (ws_accounts ws ! i) wa" "ws_accounts ws ! i \<in> set (ws_accounts ws)"
    by (auto simp: same_accounts_def list_all2_conv_all_nth)
  with assms(2,3) show "account_ready db' wa" by (auto simp: account_ready_def same_position_def)
qed

lemma credits_ok_bank:
  assumes ok: "credits_ok ww accounts h db" and h: "fakebank_ok h'" "fb_my_baseurl h' = fb_my_baseurl h" "fb_transactions h' = fb_transactions h @ [t]"
    and t: "tx_row_id t \<noteq> 0" "\<not> is_debit t \<longrightarrow> storable ww t"
  shows "credits_ok ww accounts h' db"
proof -
  note ok' = credits_okD [OF ok]
  have at: "account_at h' = account_at h" using h(2) by (simp add: account_at_def [abs_def])
  have "prefix (credited x db) (received h' a)" if "(x, gw) \<in> set accounts" "account_at h gw a" for x gw a
    using ok'(7) [OF that] by (auto simp: received_def h(3) prefix_def)
  moreover have "accounts_ok accounts h'" using ok'(1) unfolding accounts_ok_def at .
  moreover have "\<forall>t\<in>set (fb_transactions h'). tx_row_id t \<noteq> 0 \<and> (\<not> is_debit t \<longrightarrow> storable ww t)" using ok'(3) t h(3) by auto
  ultimately show ?thesis using ok'(4,5,6) h(1) unfolding credits_ok_def at by auto
qed

lemma credits_ok_db:
  assumes ok: "credits_ok ww accounts h db" and "t_reserves_in db' = t_reserves_in db" and "db_fine db'"
  shows "credits_ok ww accounts h db'"
proof -
  have c: "credited x db' = credited x db" for x using assms(2) by (simp add: credited_def rows_of_def)
  show ?thesis using ok assms(2,3) unfolding credits_ok_def c numbered_def by simp
qed

section \<open>The invariant is kept\<close>

lemma watch_step_ok:
  assumes g: "gnunet_ok (wwc_gnunet ww)" "wwc_gnunet ww = g" and grow: "grow_ok (wwc_grow ww)" and pg: "pg_ok (wwc_pg ww)"
    and acc: "accounts \<noteq> []" and step: "watch_step ww g False accounts y y'" and ok: "watch_ok ww accounts y"
    and cur: "fb_currency (wy_bank y) = pg_currency (wwc_pg ww)"
  shows "watch_ok ww accounts y'"
proof -
  let ?s = "wy_session y" and ?h = "wy_bank y" and ?ws = "wy_watch y"
  let ?db = "s_committed ?s" and ?wa = "ws_accounts ?ws ! ws_pos ?ws"
  have c: "configured accounts ?ws" and b: "credits_ok ww accounts ?h ?db" and w: "watching ?s ?ws (wy_url y)"
    using ok by (simp_all add: watch_ok_def)
  have pos: "ws_pos ?ws < length (ws_accounts ?ws)" using c by (simp add: configured_def)
  have ready: "\<forall>wa\<in>set (ws_accounts ?ws). account_ready ?db wa" using w by (simp add: watching_def)
  from step show ?thesis
  proof (cases rule: watch_step.cases)
    case (find task ws s)
    with find_transfers_ok [OF g(1) grow credits_okD(5) [OF b] c _ find(3)] w b show ?thesis by (simp add: watch_ok_def)
  next
    case (answered url now reply h code entries task ws s)
    obtain base where base: "ww_wire_gateway_url ?wa = Some base" and url: "url = history_url base (last_reference (credited (ww_section_name ?wa) ?db)) 1024"
      and f: "in_fresh_tx ?s" using w answered(2) by (auto simp: watching_def Let_def)
    have x: "(ww_section_name ?wa, Some base) \<in> set accounts" using configured_account(1) [OF c] base by simp
    then obtain a where a: "account_at ?h (Some base) a" using credits_okD(1) [OF b] unfolding accounts_ok_def by fastforce
    define ts where "ts = take 1024 (drop (length (credited (ww_section_name ?wa) ?db)) (filter (incoming_to a) (fb_transactions ?h)))"
    have "reply = Some (BANK_INCOMING (map json_transaction ts))" "h = ?h"
      using bank_page [OF b x a, of g now] answered(3) unfolding url ts_def by simp_all
    then have e: "code = MHD_HTTP_OK" "entries = Some (map (\<lambda>t. credit_entry (json_transaction t)) ts)"
      using answered(4) by (auto simp: o_def)
    note h = answered(5) [unfolded e]
    note p = handle_credit_history_position [OF g(1) pos h]
    have i: "idle s" and cases: "s_committed s = ?db \<or> (\<exists>ks. prefix ks (map tx_key ts) \<and> tables_added (ww_section_name ?wa) ks ?db (s_committed s))"
      using handle_page_ok [OF g(1) pg f credits_okD(4) [OF b] page_storable [OF b x a ts_def] h] by auto
    have "credits_ok ww accounts ?h (s_committed s)"
      using cases b credits_added [OF b x a _ _ answered(6)] unfolding ts_def by metis
    moreover have "credited z ?db = []" if "credited z (s_committed s) = []" for z
      using cases that credited_added by fastforce
    ultimately show ?thesis
      using answered(1) \<open>h = ?h\<close> configured_position [OF _ _ c] p i ready_later [OF _ ready, of ws "s_committed s"]
      by (simp add: watch_ok_def watching_def)
  next
    case (unanswered url code entries task ws s)
    have f: "in_fresh_tx ?s" using w unanswered(2) by (simp add: watching_def)
    have "history_cb_end ww ?ws ?s = Some ((task, ws), s)"
      using unanswered(3,4) by (simp add: handle_credit_history_finished_def)
    from history_cb_end_ok [OF g(1) this] f have i: "idle s" "s_committed s = ?db" by (auto simp: in_fresh_tx_def tx_outcome_def)
    note p = handle_credit_history_position [OF g(1) pos unanswered(4)]
    with unanswered(1) i b configured_position [OF _ _ c] ready_later [OF _ ready, of ws ?db] show ?thesis by (simp add: watch_ok_def watching_def)
  next
    case restarted
    have "account_ready ?db wa" if "wa \<in> set (ws_accounts (watch_started False accounts))" for wa
      using that by (auto simp: watch_started_accounts account_ready_def)
    with restarted b configured_started [OF acc] rollback_idle [of ?s] show ?thesis by (simp add: watch_ok_def watching_def)
  next
    case (incoming amount now debit credit pub row h)
    note inc = incoming(4)
    obtain t where t: "fakebank_ok h" "fb_my_baseurl h = fb_my_baseurl ?h" "fb_transactions h = fb_transactions ?h @ [t]" "tx_amount t = amount"
      using wpD [OF admin_transfer_wp [OF credits_okD(2) [OF b] incoming(2,3)] inc] by auto
    have "t = last (fb_transactions h)" by (simp add: t(3))
    then have t2: "tx_row_id t = fb_serial_counter ?h + 1" "tx_date t = GNUNET_TIME_round_abs g now"
      using inc by (auto simp: TALER_FAKEBANK_make_admin_transfer_def add_transaction_def Let_def GNUNET_assert_def split: if_splits)
    have "tx_row_id t \<noteq> 0" using incoming(2) unfolding t2 by (metis add.commute max_word_wrap)
    moreover have "storable ww t" if "\<not> is_debit t"
      using that t(4) incoming(3) t2(2) g by (simp add: storable_def cur round_round)
    ultimately have "credits_ok ww accounts h ?db" using credits_ok_bank [OF b t(1-3)] by blast
    with incoming(1) c w show ?thesis by (simp add: watch_ok_def)
  next
    case (served db)
    have "credits_ok ww accounts ?h db" using credits_ok_db [OF b served(3)] served(4,5) by (simp add: db_fine_def)
    moreover have "account_ready db wa = account_ready ?db wa" for wa
      using served(3) by (simp add: account_ready_def credited_def rows_of_def)
    ultimately show ?thesis using served(1,2) c w by (simp add: watch_ok_def watching_def idle_def)
  next
    case (outcomes xs)
    with c b w show ?thesis
      by (auto simp: watch_ok_def watching_def idle_def in_fresh_tx_def session_ok_def Let_def split: option.splits)
  qed
qed

lemma watch_step_currency:
  assumes "watch_step ww g reset accounts y y'" and "watch_ok ww accounts y"
  shows "fb_currency (wy_bank y') = fb_currency (wy_bank y)"
  using assms(1)
proof (cases rule: watch_step.cases)
  case (answered url now reply h code entries task ws s)
  have c: "configured accounts (wy_watch y)" and b: "credits_ok ww accounts (wy_bank y) (s_committed (wy_session y))"
    and w: "watching (wy_session y) (wy_watch y) (wy_url y)" using assms(2) by (simp_all add: watch_ok_def)
  let ?wa = "ws_accounts (wy_watch y) ! ws_pos (wy_watch y)"
  obtain base where base: "ww_wire_gateway_url ?wa = Some base"
    and url: "url = history_url base (last_reference (credited (ww_section_name ?wa) (s_committed (wy_session y)))) 1024"
    using w answered(2) by (auto simp: watching_def Let_def)
  have x: "(ww_section_name ?wa, Some base) \<in> set accounts" using configured_account(1) [OF c] base by simp
  then obtain a where a: "account_at (wy_bank y) (Some base) a" using credits_okD(1) [OF b] unfolding accounts_ok_def by fastforce
  have "h = wy_bank y" using bank_page [OF b x a, of g now] answered(3) unfolding url by simp
  with answered(1) show ?thesis by simp
next
  case (incoming amount now debit credit pub row h)
  with assms(2) wpD [OF admin_transfer_wp [OF _ incoming(2,3)] incoming(4)] show ?thesis by (auto simp: watch_ok_def credits_ok_def)
qed auto

lemma watch_steps_ok:
  assumes "(watch_step ww g False accounts)\<^sup>*\<^sup>* y y'" and "gnunet_ok (wwc_gnunet ww)" and "wwc_gnunet ww = g" and "grow_ok (wwc_grow ww)"
    and "pg_ok (wwc_pg ww)" and "accounts \<noteq> []" and "watch_ok ww accounts y" and "fb_currency (wy_bank y) = pg_currency (wwc_pg ww)"
  shows "watch_ok ww accounts y' \<and> fb_currency (wy_bank y') = pg_currency (wwc_pg ww)"
  using assms(1)
proof (induction rule: rtranclp_induct)
  case (step y1 y2)
  then have ok: "watch_ok ww accounts y1" "fb_currency (wy_bank y1) = pg_currency (wwc_pg ww)" by auto
  from watch_step_ok [OF assms(2-6) step(2) ok] watch_step_currency [OF step(2) ok(1)] ok(2) show ?case by simp
qed (use assms(7,8) in simp)

section \<open>Properties\<close>

text \<open>C4. However replies of the bank get lost, the process is stopped, the database fails, and whatever else the exchange serves meanwhile: for every account
  the transfers that were credited to reserves are a prefix of those that the bank has received for it. Every transfer is credited once, to the reserve and over
  the amount that the bank reports, in the order of the bank, and none is left out. The balances of the reserves agree with it.\<close>

theorem incoming_credited_in_order:
  assumes "(watch_step ww g False accounts)\<^sup>*\<^sup>* y y'" and "gnunet_ok (wwc_gnunet ww)" and "wwc_gnunet ww = g" and "grow_ok (wwc_grow ww)"
    and "pg_ok (wwc_pg ww)" and "accounts \<noteq> []" and "watch_ok ww accounts y" and "fb_currency (wy_bank y) = pg_currency (wwc_pg ww)"
    and "(section_name, gateway) \<in> set accounts" and "account_at (wy_bank y') gateway account"
  shows "prefix (credited section_name (s_committed (wy_session y'))) (received (wy_bank y') account)
     \<and> reserves_ok (s_committed (wy_session y'))"
proof -
  have b: "credits_ok ww accounts (wy_bank y') (s_committed (wy_session y'))" using watch_steps_ok [OF assms(1-8)] by (simp add: watch_ok_def)
  from credits_okD(7) [OF b assms(9,10)] credits_okD(4) [OF b] show ?thesis by (simp add: db_fine_def)
qed

text \<open>The account \<open>ex\<close> at a bank where two transfers have arrived, of which the first was credited\<close>

definition sample_watch :: wirewatch where
  "sample_watch = \<lparr>wwc_gnunet = sample_gnunet, wwc_pg = sample_pg, wwc_grow = (\<lambda>c n. n), wwc_idle_until = 500, wwc_test_mode = False\<rparr>"

definition sample_incoming :: "u64 \<Rightarrow> pub_key \<Rightarrow> u64 \<Rightarrow> Transaction" where
  "sample_incoming row pub v = \<lparr>tx_amount = mk_amount ''EUR'' v 0, tx_debit_account = ''42'', tx_credit_account = ''ex'', tx_request_uid = 0,
     tx_subject = T_CREDIT pub, tx_date = 100, tx_row_id = row, tx_checked = False\<rparr>"

definition sample_incoming_bank :: TALER_FAKEBANK_Handle where
  "sample_incoming_bank = \<lparr>fb_transactions = [sample_incoming 5 3 10, sample_incoming 6 9 2], fb_serial_counter = 6, fb_currency = ''EUR'',
     fb_my_baseurl = ''http://b/''\<rparr>"

abbreviation (input) sample_accounts :: "(string \<times> string option) list" where
  "sample_accounts \<equiv> [(''acct'', Some ''http://b/ex/'')]"

definition sample_watching :: "bool \<Rightarrow> watch_system" where
  "sample_watching reset = \<lparr>wy_session = sample_idle sample_db [], wy_bank = sample_incoming_bank,
     wy_watch = watch_started reset sample_accounts, wy_url = None\<rparr>"

lemma sample_account_at: "account_at sample_incoming_bank (Some ''http://b/ex/'') = (\<lambda>a. a = ''ex'')"
  by (rule ext) (auto simp: account_at_def sample_incoming_bank_def)

lemma sample_incoming_sels [simp]:
  "incoming_to ''ex'' (sample_incoming row pub v)" "\<not> is_debit (sample_incoming row pub v)" "tx_row_id (sample_incoming row pub v) = row"
  "tx_key (sample_incoming row pub v) = (row, T_CREDIT pub, amt (mk_amount ''EUR'' v 0))" "tx_amount (sample_incoming row pub v) = mk_amount ''EUR'' v 0"
  "tx_date (sample_incoming row pub v) = 100" "tx_request_uid (sample_incoming row pub v) = 0"
  by (simp_all add: incoming_to_def is_debit_def sample_incoming_def tx_key_def)

lemma sample_credited: "credited ''acct'' sample_db = [(5, T_CREDIT 3, 1000000000)]"
  by (simp add: credited_def rows_of_def sample_db_def row_key_def sqlamt_def)

lemma sample_received: "received sample_incoming_bank ''ex'' = [(5, T_CREDIT 3, 1000000000), (6, T_CREDIT 9, 200000000)]"
  using mk_amount_in_EUR [of 0 10] mk_amount_in_EUR [of 0 2] by (simp add: received_def sample_incoming_bank_def)

lemma sample_watching_ok: "watch_ok sample_watch sample_accounts (sample_watching False)"
proof -
  have "numbered sample_db" "db_fine sample_db" using sample_db_ok by (simp_all add: numbered_def db_fine_def sample_db_def)
  moreover have "fakebank_ok sample_incoming_bank" using mk_amount_in_EUR [of 0 10] mk_amount_in_EUR [of 0 2]
    by (simp add: fakebank_ok_def sample_incoming_bank_def)
  moreover have "\<forall>t\<in>set (fb_transactions sample_incoming_bank). tx_row_id t \<noteq> 0 \<and> (\<not> is_debit t \<longrightarrow> storable sample_watch t)"
    using mk_amount_in_EUR [of 0 10] mk_amount_in_EUR [of 0 2] sample_ok(5,6)
    by (simp add: sample_incoming_bank_def storable_def sample_watch_def)
  moreover have "\<forall>r\<in>set (t_reserves_in sample_db). ri_exchange_account_section r = ''acct''" by (simp add: sample_db_def)
  ultimately have "credits_ok sample_watch sample_accounts sample_incoming_bank sample_db"
    by (simp add: credits_ok_def accounts_ok_def sample_account_at sample_credited sample_received)
  then show ?thesis
    by (simp add: watch_ok_def sample_watching_def configured_started watching_def watch_started_accounts account_ready_def)
qed

abbreviation (input) sample_url :: "u64 \<Rightarrow> string" where
  "sample_url start \<equiv> history_url ''http://b/ex/'' start 1024"

lemma sample_history: "TALER_BANK_credit_history (\<lambda>c n. n) (Some ''http://b/ex/'') start 1024 = Some (Some (sample_url start))"
proof -
  have "TALER_url_join (\<lambda>c n. n) ''http://b/ex/'' (''history/incoming?delta='' @ x) [] = Some (Some (''http://b/ex/'' @ ''history/incoming?delta='' @ x))" for x
    using url_join_plain [of "\<lambda>c n. n" "''history/incoming?delta='' @ x" "''http://b/ex/''"] by (simp add: grow_ok_def)
  then show ?thesis
    by (simp add: TALER_BANK_credit_history_def history_url_def split: prod.split del: append_Cons append.append_Cons)
qed

definition sample_in_tx :: "tables session" where
  "sample_in_tx = (sample_idle sample_db [])\<lparr>s_in_tx := True, s_transaction_name := Some ''wirewatch check for incoming wire transfers''\<rparr>"

definition sample_asked :: "bool \<Rightarrow> u64 \<Rightarrow> wirewatch_state" where
  "sample_asked reset off = \<lparr>ws_accounts = [\<lparr>ww_section_name = ''acct'', ww_wire_gateway_url = Some ''http://b/ex/'', ww_delayed_until = 0,
     ww_last_row_off = off, ww_latest_row_off = 0, ww_batch_size = 1024, ww_current_batch_size = 0, ww_reset_mode = reset, ww_delay = True\<rparr>],
     ws_pos = 0\<rparr>"

lemma sample_find: "find_transfers sample_watch (watch_started reset sample_accounts) (sample_idle sample_db [])
     = Some ((Await_history (sample_url (if reset then 0 else 5)), sample_asked reset (if reset then 0 else 5)), sample_in_tx)"
proof -
  have "sql_reserves_in_get_latest_wire_reference ''acct'' sample_db = [5]"
    by (simp add: sql_reserves_in_get_latest_wire_reference_def sample_db_def)
  then show ?thesis
    by (simp add: find_transfers_def postgres_get_session_def next_outcome_def sample_idle_def postgres_start_def postgres_preflight_def Let_def
        watch_started_def add_account_cb_def postgres_get_latest_reserve_in_reference_def pq_singleton_select_def pq_denied_def request_history_def
        sample_watch_def sample_history sample_asked_def sample_in_tx_def)
qed

lemma sample_insert:
  "\<exists>s. postgres_reserves_in_insert sample_gnunet sample_pg 9 (mk_amount ''EUR'' 2 0) 100 payto ''acct'' 6 sample_in_tx = Some (1, s)
     \<and> \<not> s_failed s \<and> s_in_tx s \<and> s_outcomes s = []
     \<and> numbered (s_db s) \<and> credited ''acct'' (s_db s) = [(5, T_CREDIT 3, 1000000000), (6, T_CREDIT 9, 200000000)]"
proof -
  obtain a where a: "TALER_PQ_query_param_amount (mk_amount ''EUR'' 2 0) = Some a" "sqlamt a = amt (mk_amount ''EUR'' 2 0)"
    by (rule query_param_amount [OF mk_amount_in_EUR [of 0 2]]) (use that in \<open>simp_all\<close>)
  have "amt (mk_amount ''EUR'' 2 0) = 200000000" using sample_received by (simp add: received_def sample_incoming_bank_def)
  with a show ?thesis
    by (simp add: postgres_reserves_in_insert_def postgres_reserves_get_def pq_singleton_select_def next_outcome_def pq_denied_def sample_in_tx_def
      sample_idle_def Let_def reserves_in_store_def pq_non_select_def sql_reserves_in_add_transaction_def
      TALER_PQ_query_param_absolute_time_def sample_gnunet_def sql_reserves_get_def sample_db_def sql_reserve_create_def reserve_known_def
      numbered_def credited_def rows_of_def row_key_def sample_pg_def) (simp add: sqlamt_def)
qed

lemma sample_stored:
  "\<exists>task ws s. handle_credit_history_finished sample_watch (sample_asked False 5) MHD_HTTP_OK
       (Some [credit_entry (json_transaction (sample_incoming 6 9 2))]) sample_in_tx = Some ((task, ws), s)
     \<and> numbered (s_committed s) \<and> credited ''acct'' (s_committed s) = [(5, T_CREDIT 3, 1000000000), (6, T_CREDIT 9, 200000000)]"
proof -
  have e: "credit_entry (json_transaction (sample_incoming 6 9 2)) = Some (6, \<lparr>cd_amount = mk_amount ''EUR'' 2 0, cd_execution_date = 100,
      cd_reserve_pub = 9, cd_debit_account_url = ''payto://x-taler-bank/localhost/42''\<rparr>)"
    by (simp add: credit_entry_def json_transaction_def sample_incoming_def)
  obtain s where s: "postgres_reserves_in_insert sample_gnunet sample_pg 9 (mk_amount ''EUR'' 2 0) 100 ''payto://x-taler-bank/localhost/42'' ''acct'' 6 sample_in_tx
      = Some (1, s)" "\<not> s_failed s" "s_in_tx s" "s_outcomes s = []" "numbered (s_db s)"
    "credited ''acct'' (s_db s) = [(5, T_CREDIT 3, 1000000000), (6, T_CREDIT 9, 200000000)]"
    using sample_insert [of "''payto://x-taler-bank/localhost/42''"] by blast
  let ?s' = "s\<lparr>s_committed := s_db s, s_in_tx := False, s_transaction_name := None\<rparr>"
  have c: "postgres_commit sample_gnunet s = Some (0, ?s')"
    using s(2-4) by (simp add: postgres_commit_def next_outcome_def end_transaction_def)
  have "\<exists>task ws. handle_credit_history_finished sample_watch (sample_asked False 5) MHD_HTTP_OK
       (Some [credit_entry (json_transaction (sample_incoming 6 9 2))]) sample_in_tx = Some ((task, ws), ?s')"
    unfolding e
    by (simp add: handle_credit_history_finished_def sample_asked_def history_cb_entry_def sample_watch_def s(1) Let_def history_cb_end_def c)
  then show ?thesis using s(5,6) by force
qed

lemma sample_watch_run:
  "\<exists>y'. (watch_step sample_watch sample_gnunet False sample_accounts)\<^sup>*\<^sup>* (sample_watching False) y' \<and> wy_bank y' = sample_incoming_bank
     \<and> credited ''acct'' (s_committed (wy_session y')) = [(5, T_CREDIT 3, 1000000000), (6, T_CREDIT 9, 200000000)]"
proof -
  define y1 where "y1 = (sample_watching False)\<lparr>wy_session := sample_in_tx, wy_watch := sample_asked False 5, wy_url := Some (sample_url 5)\<rparr>"
  have step1: "watch_step sample_watch sample_gnunet False sample_accounts (sample_watching False) y1"
    using watch_step.find [of "sample_watching False" sample_watch "Await_history (sample_url 5)" "sample_asked False 5" sample_in_tx]
      sample_find [of False] by (simp add: y1_def sample_watching_def)
  obtain task ws s where h: "handle_credit_history_finished sample_watch (sample_asked False 5) MHD_HTTP_OK
       (Some [credit_entry (json_transaction (sample_incoming 6 9 2))]) sample_in_tx = Some ((task, ws), s)"
     "numbered (s_committed s)" "credited ''acct'' (s_committed s) = [(5, T_CREDIT 3, 1000000000), (6, T_CREDIT 9, 200000000)]"
    using sample_stored by blast
  have "credits_ok sample_watch sample_accounts sample_incoming_bank sample_db"
    using sample_watching_ok by (simp add: watch_ok_def sample_watching_def)
  from bank_page [OF this, of "''acct''" "''http://b/ex/''" "''ex''" sample_gnunet 0]
  have "bank_reads sample_gnunet 0 (sample_url 5) sample_incoming_bank
      = Some (Some (BANK_INCOMING [json_transaction (sample_incoming 6 9 2)]), sample_incoming_bank)"
    by (simp add: sample_account_at sample_credited last_reference_def) (simp add: sample_incoming_bank_def)
  moreover have "wy_url y1 = Some (sample_url 5)" "wy_bank y1 = sample_incoming_bank" "wy_watch y1 = sample_asked False 5" "wy_session y1 = sample_in_tx"
    by (simp_all add: y1_def sample_watching_def)
  ultimately have "watch_step sample_watch sample_gnunet False sample_accounts y1
      (y1\<lparr>wy_session := s, wy_bank := sample_incoming_bank, wy_watch := ws, wy_url := None\<rparr>)"
    using watch_step.answered [of y1 "sample_url 5" sample_gnunet 0 "Some (BANK_INCOMING [json_transaction (sample_incoming 6 9 2)])"
        sample_incoming_bank MHD_HTTP_OK "Some [credit_entry (json_transaction (sample_incoming 6 9 2))]" sample_watch task ws s False sample_accounts]
      h by simp
  with step1 h(3) show ?thesis
    by (intro exI [of _ "y1\<lparr>wy_session := s, wy_bank := sample_incoming_bank, wy_watch := ws, wy_url := None\<rparr>"]) auto
qed

theorem incoming_credited_in_order_witness:
  "\<exists>y'. (watch_step sample_watch sample_gnunet False sample_accounts)\<^sup>*\<^sup>* (sample_watching False) y'
     \<and> credited ''acct'' (s_committed (wy_session y')) = [(5, T_CREDIT 3, 1000000000), (6, T_CREDIT 9, 200000000)]
     \<and> prefix (credited ''acct'' (s_committed (wy_session y'))) (received (wy_bank y') ''ex'')"
proof -
  obtain y' where y: "(watch_step sample_watch sample_gnunet False sample_accounts)\<^sup>*\<^sup>* (sample_watching False) y'" "wy_bank y' = sample_incoming_bank"
    "credited ''acct'' (s_committed (wy_session y')) = [(5, T_CREDIT 3, 1000000000), (6, T_CREDIT 9, 200000000)]"
    using sample_watch_run by blast
  have "wwc_gnunet sample_watch = sample_gnunet" "gnunet_ok (wwc_gnunet sample_watch)" "grow_ok (wwc_grow sample_watch)" "pg_ok (wwc_pg sample_watch)"
    "fb_currency (wy_bank (sample_watching False)) = pg_currency (wwc_pg sample_watch)"
    by (simp_all add: sample_watch_def sample_ok grow_ok_def sample_watching_def sample_incoming_bank_def)
  from incoming_credited_in_order [OF y(1) this(2,1,3,4) _ sample_watching_ok this(5), of "''acct''" "Some ''http://b/ex/''" "''ex''"] y
  show ?thesis by (auto simp: sample_account_at)
qed

theorem reset_never_proceeds_witness:
  "\<exists>y'. (watch_step sample_watch sample_gnunet True sample_accounts)\<^sup>*\<^sup>* (sample_watching True) y' \<and> wy_url y' \<noteq> None
     \<and> (\<forall>url. wy_url y' = Some url \<longrightarrow> first_page sample_accounts url)"
proof -
  define y1 where "y1 = (sample_watching True)\<lparr>wy_session := sample_in_tx, wy_watch := sample_asked True 0, wy_url := Some (sample_url 0)\<rparr>"
  have step1: "watch_step sample_watch sample_gnunet True sample_accounts (sample_watching True) y1"
    using watch_step.find [of "sample_watching True" sample_watch "Await_history (sample_url 0)" "sample_asked True 0" sample_in_tx]
      sample_find [of True] by (simp add: y1_def sample_watching_def)
  have "gnunet_ok (wwc_gnunet sample_watch)" "grow_ok (wwc_grow sample_watch)" by (simp_all add: sample_watch_def sample_ok grow_ok_def)
  from reset_never_proceeds [OF r_into_rtranclp [of "watch_step sample_watch sample_gnunet True sample_accounts", OF step1] this]
  have "first_page sample_accounts (sample_url 0)" by (simp add: y1_def sample_watching_def)
  with step1 show ?thesis by (intro exI [of _ y1]) (auto simp: y1_def)
qed

end
