(* ===== verification/Closer.thy ===== *)
theory Closer
  imports Payout_Safety
begin

text \<open>
  \<^verbatim>\<open>src/exchange/taler-exchange-closer.c\<close>: the process that closes reserves which have expired and sends what is left in them back to the account
  from which it came. The global variables that do not change are the record \<open>closer\<close>; the accounts, whose fees are cached, and
  the exit code are the record \<open>closer_state\<close>; what the clock and the random number generator deliver in a run is the record \<open>closer_inputs\<close>.
\<close>

section \<open>State\<close>

record closer =
  cl_gnunet :: gnunet
  cl_pg :: PostgresClosure
  cl_crypto :: crypto
  cl_fee_files :: "string \<Rightarrow> disk_read list option"
  cl_currency_round_unit :: TALER_Amount
  cl_exchange_base_url :: string
  cl_max_malloc :: nat
  cl_test_mode :: bool

record closer_state =
  cs_accounts :: "TALER_EXCHANGEDB_WireAccount list"
  cs_global_ret :: nat

record closer_inputs =
  ci_now :: abs_time
  ci_closing_time :: abs_time
  ci_request_uid :: hash_code

abbreviation (input) CL_WIRE_ACCOUNT_NOT_CONFIGURED :: nat where "CL_WIRE_ACCOUNT_NOT_CONFIGURED \<equiv> 1"
abbreviation (input) CL_WIRE_TRANSFER_FEES_NOT_CONFIGURED :: nat where "CL_WIRE_TRANSFER_FEES_NOT_CONFIGURED \<equiv> 2"
abbreviation (input) CL_FAILURE_TO_ROUND_AMOUNT :: nat where "CL_FAILURE_TO_ROUND_AMOUNT \<equiv> 3"
abbreviation (input) CL_DATABASE_INSERT_HARD_FAIL :: nat where "CL_DATABASE_INSERT_HARD_FAIL \<equiv> 4"
abbreviation (input) CL_DATABASE_SELECT_HARD_FAIL :: nat where "CL_DATABASE_SELECT_HARD_FAIL \<equiv> 5"
abbreviation (input) CL_DATABASE_SESSION_START_FAIL :: nat where "CL_DATABASE_SESSION_START_FAIL \<equiv> 7"
abbreviation (input) CL_DATABASE_TRANSACTION_BEGIN_FAIL :: nat where "CL_DATABASE_TRANSACTION_BEGIN_FAIL \<equiv> 8"

section \<open>Expired reserves\<close>

definition sql_get_expired_reserves :: "abs_time \<Rightarrow> tables \<Rightarrow> reserves_row list" where
  "sql_get_expired_reserves now db =
     take 1 (sort_key rv_expiration_date
       (filter (\<lambda>r. rv_expiration_date r \<le> now \<and> (fst (rv_current_balance r) \<noteq> 0 \<or> snd (rv_current_balance r) \<noteq> 0)) (t_reserves db)))"

type_synonym 'c reserve_callback =
  "'c \<Rightarrow> pub_key \<Rightarrow> TALER_Amount \<Rightarrow> string \<Rightarrow> abs_time \<Rightarrow> tables session \<Rightarrow> ((int \<times> 'c) \<times> tables session) option"

text \<open>The loop over the rows. Note that the status of the callback is compared with \<^verbatim>\<open>GNUNET_OK\<close>.\<close>

fun reserve_expired_cb ::
    "gnunet \<Rightarrow> PostgresClosure \<Rightarrow> 'c reserve_callback \<Rightarrow> reserves_row list \<Rightarrow> 'c \<Rightarrow> tables session \<Rightarrow> ((int \<times> 'c) \<times> tables session) option" where
  "reserve_expired_cb g pg rec [] c s = Some ((GNUNET_OK, c), s)"
| "reserve_expired_cb g pg rec (r # rows) c s = do {
     remaining_balance \<leftarrow> TALER_PQ_result_spec_amount (pg_currency pg) (rv_current_balance r);
     ((ret, c), s) \<leftarrow> rec c (rv_reserve_pub r) remaining_balance (rv_account_details r)
                        (TALER_PQ_result_spec_absolute_time g (rv_expiration_date r)) s;
     if ret \<noteq> GNUNET_OK then Some ((ret, c), s) else reserve_expired_cb g pg rec rows c s
   }"

definition postgres_get_expired_reserves ::
    "gnunet \<Rightarrow> PostgresClosure \<Rightarrow> abs_time \<Rightarrow> 'c reserve_callback \<Rightarrow> 'c \<Rightarrow> tables session \<Rightarrow> ((int \<times> 'c) \<times> tables session) option" where
  "postgres_get_expired_reserves g pg now rec c s = do {
     now \<leftarrow> TALER_PQ_query_param_absolute_time g now;
     ((qs, rows, bad), s) \<leftarrow> pq_multi_select g (sql_get_expired_reserves now) s;
     ((status, c), s) \<leftarrow> (if bad then Some ((GNUNET_SYSERR, c), s) else reserve_expired_cb g pg rec rows c s);
     Some ((if status \<noteq> GNUNET_OK then GNUNET_DB_STATUS_HARD_ERROR else qs, c), s)
   }"

section \<open>Closing a reserve\<close>

definition commit_or_warn_closer :: "gnunet \<Rightarrow> tables session \<Rightarrow> (int \<times> tables session) option" where
  "commit_or_warn_closer g s = postgres_commit g s"

text \<open>What is transferred and what is the fee: the status, the two amounts. The memory that the subtraction overwrites is arbitrary, so is not an argument.\<close>

definition closing_amounts :: "TALER_Amount \<Rightarrow> TALER_Amount \<Rightarrow> (int \<times> TALER_Amount \<times> TALER_Amount) option" where
  "closing_amounts left closing_fee = do {
     (ret, amount_without_fee) \<leftarrow> TALER_amount_subtract zero_amount left closing_fee;
     if ret = GNUNET_SYSERR \<or> ret = GNUNET_NO
     then
       (let (r, amount_without_fee) = TALER_amount_get_zero (amt_currency left) amount_without_fee
        in do {
          GNUNET_assert (r = GNUNET_OK);
          Some (ret, amount_without_fee, left)
        })
     else Some (ret, amount_without_fee, closing_fee)
   }"

text \<open>The transfer is prepared.\<close>

definition closing_transfer ::
    "closer \<Rightarrow> closer_inputs \<Rightarrow> string \<Rightarrow> string \<Rightarrow> TALER_Amount \<Rightarrow> nat \<Rightarrow> closer_state \<Rightarrow> tables session
       \<Rightarrow> ((int \<times> closer_state) \<times> tables session) option" where
  "closing_transfer cl ci account_payto_uri method' amount_without_fee wtid cs s = do {
     buf \<leftarrow> TALER_BANK_prepare_transfer (cl_crypto cl) (cl_max_malloc cl) (ci_request_uid ci) account_payto_uri amount_without_fee
              (cl_exchange_base_url cl) wtid;
     (qs, s) \<leftarrow> postgres_wire_prepare_data_insert (cl_gnunet cl) method' buf s;
     if qs = GNUNET_DB_STATUS_HARD_ERROR
     then Some ((GNUNET_DB_STATUS_HARD_ERROR, cs\<lparr>cs_global_ret := CL_DATABASE_INSERT_HARD_FAIL\<rparr>), s)
     else if qs = GNUNET_DB_STATUS_SOFT_ERROR then Some ((GNUNET_DB_STATUS_SUCCESS_NO_RESULTS, cs), s)
     else Some ((GNUNET_DB_STATUS_SUCCESS_ONE_RESULT, cs), s)
   }"

definition expired_reserve_cb :: "closer \<Rightarrow> closer_inputs \<Rightarrow> closer_state reserve_callback" where
  "expired_reserve_cb cl ci cs pub left account_payto_uri expiration_date s =
     (let now = GNUNET_TIME_round_abs (cl_gnunet cl) (ci_closing_time ci)
      in case TALER_EXCHANGEDB_find_account_by_payto_uri (cs_accounts cs) account_payto_uri of
           None \<Rightarrow> Some ((GNUNET_DB_STATUS_HARD_ERROR, cs\<lparr>cs_global_ret := CL_WIRE_ACCOUNT_NOT_CONFIGURED\<rparr>), s)
         | Some wa \<Rightarrow> do {
             ((af, wa), s) \<leftarrow> TALER_EXCHANGEDB_update_fees (cl_gnunet cl) (cl_pg cl) (cl_crypto cl) (cl_fee_files cl) wa expiration_date s;
             let cs = cs\<lparr>cs_accounts := update_account wa (cs_accounts cs)\<rparr>;
             case af of
               None \<Rightarrow> Some ((GNUNET_DB_STATUS_HARD_ERROR, cs\<lparr>cs_global_ret := CL_WIRE_TRANSFER_FEES_NOT_CONFIGURED\<rparr>), s)
             | Some af \<Rightarrow> do {
                 (ret, amount_without_fee, closing_fee) \<leftarrow> closing_amounts left (af_closing_fee af);
                 let (r, amount_without_fee) = TALER_amount_round_down amount_without_fee (cl_currency_round_unit cl);
                 if r = GNUNET_SYSERR
                 then Some ((GNUNET_DB_STATUS_HARD_ERROR, cs\<lparr>cs_global_ret := CL_FAILURE_TO_ROUND_AMOUNT\<rparr>), s)
                 else do {
                   let ret = (if amt_value amount_without_fee = 0 \<and> amt_fraction amount_without_fee = 0 then GNUNET_NO else ret);
                   let wtid = pub;
                   (qs, s) \<leftarrow> (if ret \<noteq> GNUNET_SYSERR
                     then postgres_insert_reserve_closed (cl_gnunet cl) (cl_pg cl) pub now account_payto_uri wtid left closing_fee s
                     else Some (GNUNET_DB_STATUS_HARD_ERROR, s));
                   if ret = GNUNET_SYSERR \<or> qs = GNUNET_DB_STATUS_HARD_ERROR
                   then Some ((GNUNET_DB_STATUS_HARD_ERROR, cs\<lparr>cs_global_ret := CL_DATABASE_INSERT_HARD_FAIL\<rparr>), s)
                   else if ret \<noteq> GNUNET_OK \<or> qs \<noteq> GNUNET_DB_STATUS_SUCCESS_ONE_RESULT
                   then do {
                     (_, s) \<leftarrow> commit_or_warn_closer (cl_gnunet cl) s;
                     Some ((qs, cs), s)
                   }
                   else closing_transfer cl ci account_payto_uri (wa_method wa) amount_without_fee wtid cs s
                 }
               }
           })"

section \<open>A run\<close>

definition run_reserve_closures ::
    "closer \<Rightarrow> closer_inputs \<Rightarrow> closer_state \<Rightarrow> tables session \<Rightarrow> ((next_task \<times> closer_state) \<times> tables session) option" where
  "run_reserve_closures cl ci cs s =
     (let (ok, s) = postgres_get_session s;
          shutdown = (\<lambda>code cs. (Shutdown code, cs\<lparr>cs_global_ret := code\<rparr>))
      in if \<not> ok then Some (shutdown CL_DATABASE_SESSION_START_FAIL cs, s)
         else do {
           (ok, s) \<leftarrow> postgres_start ''aggregator reserve closures'' s;
           if ok \<noteq> GNUNET_OK then Some (shutdown CL_DATABASE_TRANSACTION_BEGIN_FAIL cs, s)
           else do {
             let now = GNUNET_TIME_round_abs (cl_gnunet cl) (ci_now ci);
             ((qs, cs), s) \<leftarrow> postgres_get_expired_reserves (cl_gnunet cl) (cl_pg cl) now (expired_reserve_cb cl ci) cs s;
             GNUNET_assert (1 \<ge> qs);
             if qs = GNUNET_DB_STATUS_HARD_ERROR then Some (shutdown CL_DATABASE_SELECT_HARD_FAIL cs, postgres_rollback s)
             else if qs = GNUNET_DB_STATUS_SOFT_ERROR then Some ((Run_now, cs), postgres_rollback s)
             else if qs = GNUNET_DB_STATUS_SUCCESS_NO_RESULTS
             then Some ((if cl_test_mode cl then Shutdown (cs_global_ret cs) else Run_delayed, cs), postgres_rollback s)
             else do {
               (_, s) \<leftarrow> commit_or_warn_closer (cl_gnunet cl) s;
               Some ((Run_now, cs), s)
             }
           }
         })"

section \<open>What a run may do\<close>

text \<open>The functions on fees take their parameters from the record of the aggregator.\<close>

definition closer_aggregator :: "closer \<Rightarrow> aggregator" where
  "closer_aggregator cl = \<lparr>ag_gnunet = cl_gnunet cl, ag_pg = cl_pg cl, ag_crypto = cl_crypto cl, ag_json_string = (\<lambda>_ _. None),
     ag_fee_files = cl_fee_files cl, ag_currency_round_unit = cl_currency_round_unit cl, ag_exchange_base_url = cl_exchange_base_url cl,
     ag_max_malloc = cl_max_malloc cl, ag_test_mode = cl_test_mode cl\<rparr>"

definition closer_ok :: "closer \<Rightarrow> bool" where
  "closer_ok cl \<longleftrightarrow> gnunet_ok (cl_gnunet cl) \<and> pg_ok (cl_pg cl) \<and> fee_files_ok (cl_gnunet cl) (cl_pg cl) (cl_crypto cl) (cl_fee_files cl)"

definition closer_accounts_ok :: "closer \<Rightarrow> closer_state \<Rightarrow> bool" where
  "closer_accounts_ok cl cs \<longleftrightarrow> accounts_ok (closer_aggregator cl) (cs_accounts cs)"

text \<open>A database on which the process can run\<close>

definition closable :: "tables \<Rightarrow> bool" where
  "closable db \<longleftrightarrow> reserves_ok db \<and> reserve_tables_ok db \<and> fee_rows_ok (t_wire_fee db)"

text \<open>The reserve of row \<open>r\<close> is closed: all that is left in it is taken out, and nothing changes for other reserves. What is sent to the account from which it came
  is what is left without the closing fee, rounded down, and if that is nothing, no transfer is prepared.\<close>

definition closes_reserve ::
    "closer \<Rightarrow> closer_inputs \<Rightarrow> TALER_EXCHANGEDB_WireAccount list \<Rightarrow> reserves_row \<Rightarrow> tables \<Rightarrow> tables \<Rightarrow> bool" where
  "closes_reserve cl ci accounts r db db' \<longleftrightarrow> (\<exists>wa af net fees row e gc b pws.
     r \<in> set (t_reserves db) \<and> rv_expiration_date r \<le> GNUNET_TIME_round_abs (cl_gnunet cl) (ci_now ci)
     \<and> 0 < sqlamt (rv_current_balance r)
     \<and> wa \<in> set accounts \<and> advance_fees wa (GNUNET_TIME_round_abs (cl_gnunet cl) (rv_expiration_date r)) = Some af
     \<and> amount_in (pg_currency (cl_pg cl)) net \<and> amt net = max 0 (sqlamt (rv_current_balance r) - amt (af_closing_fee af))
     \<and> rcl_reserve_pub row = rv_reserve_pub r \<and> rcl_receiver_account row = rv_account_details r
     \<and> sqlamt (rcl_amount row) = sqlamt (rv_current_balance r)
     \<and> (let final = snd (TALER_amount_round_down net (cl_currency_round_unit cl)) in
          if amt final = 0 then pws = []
          else amt final \<le> amt net \<and> (\<exists>pw. pws = [pw] \<and> pw_type pw = wa_method wa \<and> \<not> pw_finished pw
            \<and> TALER_BANK_prepare_transfer (cl_crypto cl) (cl_max_malloc cl) (ci_request_uid ci) (rv_account_details r) final
                (cl_exchange_base_url cl) (rv_reserve_pub r) = Some (pw_buf pw)))
     \<and> fee_rows_ok fees
     \<and> db' = (reserve_set e gc b (rv_reserve_pub r) db)\<lparr>t_wire_fee := t_wire_fee db @ fees, t_reserves_close := t_reserves_close db @ [row],
                t_prewire := t_prewire db @ pws\<rparr>
     \<and> (\<forall>p. reserve_net db' p = (if p = rv_reserve_pub r then 0 else reserve_net db p))
     \<and> closable db')"

section \<open>Statements\<close>

text \<open>A status of -1 comes with a failed transaction.\<close>

lemma non_select_soft:
  assumes "gnunet_ok g" and "pq_non_select g stmt s = Some (- 1, s')" and "s_in_tx s"
  shows "s_failed s' \<and> s_in_tx s'"
proof -
  obtain x s1 where n: "next_outcome s = (x, s1)" by (cases "next_outcome s")
  have "s_in_tx s1" using next_outcome_unchanged [OF n] assms(3) by (simp add: unchanged_def)
  with n assms(2) show ?thesis by (auto simp: pq_non_select_def pq_fail_def split: option.splits sum.splits)
qed

lemma singleton_select_soft:
  assumes "gnunet_ok g" and "pq_singleton_select g query s = Some ((- 1, r), s')" and "s_in_tx s"
  shows "s_failed s' \<and> s_in_tx s'"
proof -
  obtain x s1 where n: "next_outcome s = (x, s1)" by (cases "next_outcome s")
  have "s_in_tx s1" using next_outcome_unchanged [OF n] assms(3) by (simp add: unchanged_def)
  with n assms(2) show ?thesis by (auto simp: pq_singleton_select_def pq_fail_def split: option.splits list.splits if_splits)
qed

lemma non_select_in_tx: "pq_non_select g stmt s = Some (qs, s') \<Longrightarrow> s_in_tx s \<Longrightarrow> s_in_tx s'"
  using next_outcome_unchanged [of s]
  by (cases "next_outcome s") (auto simp: pq_non_select_def pq_fail_def unchanged_def split: option.splits sum.splits)

lemma singleton_select_in_tx: "pq_singleton_select g query s = Some (x, s') \<Longrightarrow> s_in_tx s \<Longrightarrow> s_in_tx s'"
  using next_outcome_unchanged [of s]
  by (cases "next_outcome s") (auto simp: pq_singleton_select_def pq_fail_def unchanged_def split: option.splits list.splits if_splits)

lemma insert_reserve_closed_soft:
  assumes g: "gnunet_ok g" and h: "postgres_insert_reserve_closed g pg pub date receiver wtid amount fee s = Some (- 1, s')" and "s_in_tx s"
  shows "s_failed s'"
proof -
  obtain stmt qs s1 where i: "pq_non_select g stmt s = Some (qs, s1)"
    and r: "(if qs \<noteq> GNUNET_DB_STATUS_SUCCESS_ONE_RESULT then Some (qs, s1)
     else do {
       ((qs, reserve), s) \<leftarrow> postgres_reserves_get g pg pub s1;
       case reserve of
         None \<Rightarrow> Some (if qs = GNUNET_DB_STATUS_SUCCESS_NO_RESULTS
                       then GNUNET_DB_STATUS_HARD_ERROR else qs, s)
       | Some reserve \<Rightarrow> do {
           (r, diff) \<leftarrow> TALER_amount_subtract (reserve_balance reserve) (reserve_balance reserve) amount;
           if r < 0 then Some (GNUNET_DB_STATUS_HARD_ERROR, s)
           else reserves_update g (reserve\<lparr>reserve_balance := diff\<rparr>) s
         }
     }) = Some (- 1, s')"
    using h unfolding postgres_insert_reserve_closed_def by (auto simp: bind_eq_Some_conv)
  note s1 = non_select_in_tx [OF i assms(3)]
  show ?thesis
  proof (cases "qs = 1")
    case False
    with r i non_select_soft [OF g _ assms(3)] show ?thesis by auto
  next
    case True
    with r obtain qs2 reserve s2 where get: "postgres_reserves_get g pg pub s1 = Some ((qs2, reserve), s2)"
      and r2: "(case reserve of
         None \<Rightarrow> Some (if qs2 = GNUNET_DB_STATUS_SUCCESS_NO_RESULTS
                       then GNUNET_DB_STATUS_HARD_ERROR else qs2, s2)
       | Some reserve \<Rightarrow> do {
           (r, diff) \<leftarrow> TALER_amount_subtract (reserve_balance reserve) (reserve_balance reserve) amount;
           if r < 0 then Some (GNUNET_DB_STATUS_HARD_ERROR, s2)
           else reserves_update g (reserve\<lparr>reserve_balance := diff\<rparr>) s2
         }) = Some (- 1, s')"
      by (auto simp: bind_eq_Some_conv)
    from get obtain row where q: "pq_singleton_select g (sql_reserves_get pub) s1 = Some ((qs2, row), s2)" "row = None \<longleftrightarrow> reserve = None"
      by (auto simp: postgres_reserves_get_def bind_eq_Some_conv split: option.splits)
    show ?thesis
    proof (cases reserve)
      case None
      with r2 q singleton_select_soft [OF g _ s1] show ?thesis by (auto split: if_splits)
    next
      case (Some x)
      with r2 obtain stmt where "pq_non_select g stmt s2 = Some (- 1, s')"
        by (auto simp: bind_eq_Some_conv reserves_update_def split: if_splits)
      from non_select_soft [OF g this singleton_select_in_tx [OF q(1) s1]] show ?thesis by simp
    qed
  qed
qed

text \<open>Nothing can be stored in a failed transaction.\<close>

lemma insert_reserve_closed_failed:
  assumes g: "gnunet_ok g" and s: "in_tx c s" "s_failed s"
    and date: "TALER_PQ_query_param_absolute_time g date = Some d" and a: "TALER_PQ_query_param_amount amount = Some x" "TALER_PQ_query_param_amount fee = Some y"
  shows "\<exists>qs s'. postgres_insert_reserve_closed g pg pub date receiver wtid amount fee s = Some (qs, s') \<and> qs < 0 \<and> s_failed s' \<and> s_in_tx s' \<and> s_committed s' = c"
proof -
  obtain z s1 where n: "next_outcome s = (z, s1)" by (cases "next_outcome s")
  have s1: "s_in_tx s1" "s_failed s1" "s_committed s1 = c" using next_outcome_unchanged [OF n] s by (auto simp: in_tx_def unchanged_def)
  then have "pq_denied z s1 \<noteq> None" by (simp add: pq_denied_def)
  then obtain e where e: "pq_denied z s1 = Some e" by blast
  have "pq_status g e < 0" using pq_denied_less [OF g e] .
  with n e s1 show ?thesis
    by (simp add: postgres_insert_reserve_closed_def date a pq_non_select_def pq_fail_def)
qed

section \<open>Amounts\<close>

lemma closing_amounts_ok:
  assumes "amount_in c left" and "amount_in c fee"
  shows "\<exists>ret net fee'. closing_amounts left fee = Some (ret, net, fee') \<and> amount_in c net \<and> amt net = max 0 (amt left - amt fee)
     \<and> amount_in c fee' \<and> (amt net \<noteq> 0 \<longrightarrow> ret = 1)"
proof -
  let ?z = "\<lparr>amt_value = 0, amt_fraction = 0, amt_currency = pad_currency (amt_currency left)\<rparr>"
  have len: "strlen (amt_currency left) < TALER_CURRENCY_LEN"
    using assms(1) by (auto simp: amount_in_def amount_wf_def valid_iff_cstr strlen_def TALER_CURRENCY_LEN_def)
  have z: "amt ?z = 0" "amount_in c ?z"
  proof -
    show z: "amt ?z = 0" by (simp add: amt_eq_0_iff)
    show "amount_in c ?z" by (rule amount_in_cong [OF assms(1)]) (simp_all add: amount_normal_def z AMT_LIMIT_def)
  qed
  have zero: "closing_amounts left fee = Some (ret, ?z, left)" if "TALER_amount_subtract zero_amount left fee = Some (ret, x)" "ret = - 1 \<or> ret = 0" for ret x
    using that get_zero_terminated [OF len, of x] by (auto simp: closing_amounts_def)
  consider "amt left < amt fee" | "amt left = amt fee" | "amt fee < amt left" by linarith
  then show ?thesis
  proof cases
    case 1
    with zero [of "- 1"] z assms show ?thesis by simp
  next
    case 2
    show ?thesis
    proof (rule subtract_in [OF assms])
      show "amt fee \<le> amt left" using 2 by simp
      fix x assume "TALER_amount_subtract zero_amount left fee = Some (if amt left = amt fee then 0 else 1, x)"
      with 2 zero [of 0 x] have "closing_amounts left fee = Some (0, ?z, left)" by simp
      with z 2 assms(1) show ?thesis by auto
    qed
  next
    case 3
    show ?thesis
    proof (rule subtract_in [OF assms])
      show "amt fee \<le> amt left" using 3 by simp
      fix x assume x: "TALER_amount_subtract zero_amount left fee = Some (if amt left = amt fee then 0 else 1, x)"
        "amount_in c x" "amt x = amt left - amt fee"
      with 3 have "closing_amounts left fee = Some (1, x, fee)" by (simp add: closing_amounts_def)
      with x 3 assms(2) show ?thesis by auto
    qed
  qed
qed

section \<open>A closed reserve\<close>

lemma reserve_net_other [simp]:
  "reserve_net (db\<lparr>t_wire_fee := x\<rparr>) p = reserve_net db p" "reserve_net (db\<lparr>t_prewire := y\<rparr>) p = reserve_net db p"
  by (simp_all add: reserve_total_defs blind_of_reserve_def)

lemma closable_other:
  "closable (db\<lparr>t_prewire := y\<rparr>) = closable db"
  "fee_rows_ok fees \<Longrightarrow> closable db \<Longrightarrow> closable (db\<lparr>t_wire_fee := t_wire_fee db @ fees\<rparr>)"
  by (auto simp: closable_def reserves_ok_def reserve_known_def reserve_tables_ok_def denom_known_def coin_known_def fee_rows_ok_def)

lemma close_effect_net:
  assumes "close_effect pub receiver a db db'"
  shows "reserve_net db' p = reserve_net db p - (if p = pub then a else 0)"
proof -
  obtain row e gc b where "db' = reserve_set e gc b pub (db\<lparr>t_reserves_close := t_reserves_close db @ [row]\<rparr>)"
    "rcl_reserve_pub row = pub" "sqlamt (rcl_amount row) = a" using assms by (auto simp: close_effect_def)
  then show ?thesis by simp
qed

lemma one_reserve:
  assumes "closable c" and "r \<in> set (t_reserves c)"
  shows "sqlamt (rv_current_balance r) = reserve_net c (rv_reserve_pub r)"
  using assms by (auto simp: closable_def reserves_ok_def)

lemma closes_reserveI:
  assumes c: "closable c" and r: "r \<in> set (t_reserves c)" "rv_expiration_date r \<le> GNUNET_TIME_round_abs (cl_gnunet cl) (ci_now ci)"
      "0 < sqlamt (rv_current_balance r)"
    and wa: "wa \<in> set accounts" "advance_fees wa (GNUNET_TIME_round_abs (cl_gnunet cl) (rv_expiration_date r)) = Some af"
    and net: "amount_in (pg_currency (cl_pg cl)) net" "amt net = max 0 (sqlamt (rv_current_balance r) - amt (af_closing_fee af))"
    and f: "fees_added c db1" and e: "close_effect (rv_reserve_pub r) (rv_account_details r) (sqlamt (rv_current_balance r)) db1 db2"
    and final: "let final = snd (TALER_amount_round_down net (cl_currency_round_unit cl)) in
          if amt final = 0 then pws = []
          else amt final \<le> amt net \<and> (\<exists>pw. pws = [pw] \<and> pw_type pw = wa_method wa \<and> \<not> pw_finished pw
            \<and> TALER_BANK_prepare_transfer (cl_crypto cl) (cl_max_malloc cl) (ci_request_uid ci) (rv_account_details r) final
                (cl_exchange_base_url cl) (rv_reserve_pub r) = Some (pw_buf pw))"
  shows "closes_reserve cl ci accounts r c (db2\<lparr>t_prewire := t_prewire db2 @ pws\<rparr>)"
proof -
  obtain fees where fees: "fee_rows_ok fees" "db1 = c\<lparr>t_wire_fee := t_wire_fee c @ fees\<rparr>" using f by (auto simp: fees_added_def)
  obtain row ex gc b where row: "db2 = reserve_set ex gc b (rv_reserve_pub r) (db1\<lparr>t_reserves_close := t_reserves_close db1 @ [row]\<rparr>)"
    "rcl_reserve_pub row = rv_reserve_pub r" "rcl_receiver_account row = rv_account_details r" "sqlamt (rcl_amount row) = sqlamt (rv_current_balance r)"
    "reserves_ok db2" "reserve_tables_ok db2" using e by (auto simp: close_effect_def)
  have n: "reserve_net db2 p = (if p = rv_reserve_pub r then 0 else reserve_net c p)" for p
    using close_effect_net [OF e, of p] one_reserve [OF c r(1)] by (simp add: fees(2))
  have "t_wire_fee db2 = t_wire_fee c @ fees" using row(1) by (simp add: reserve_set_def fees(2))
  then have ok: "closable db2" using row(5,6) c fees(1) by (auto simp: closable_def fee_rows_ok_def)
  obtain db' where db': "db' = db2\<lparr>t_prewire := t_prewire db2 @ pws\<rparr>" by blast
  have db: "db' = (reserve_set ex gc b (rv_reserve_pub r) c)\<lparr>t_wire_fee := t_wire_fee c @ fees,
      t_reserves_close := t_reserves_close c @ [row], t_prewire := t_prewire c @ pws\<rparr>"
    unfolding db' row(1) fees(2) by (simp add: reserve_set_def)
  have "\<forall>p. reserve_net db' p = (if p = rv_reserve_pub r then 0 else reserve_net c p)" "closable db'"
    using n ok by (simp_all add: db' closable_other)
  then have "closes_reserve cl ci accounts r c db'"
    unfolding closes_reserve_def
    by (intro exI [of _ wa] exI [of _ af] exI [of _ net] exI [of _ fees] exI [of _ row] exI [of _ ex] exI [of _ gc] exI [of _ b] exI [of _ pws] conjI
        r wa net row(2-4) final fees(1) db)
  then show ?thesis by (simp only: db')
qed

section \<open>Closing\<close>

lemma closer_aggregator_sels [simp]:
  "ag_gnunet (closer_aggregator cl) = cl_gnunet cl" "ag_pg (closer_aggregator cl) = cl_pg cl"
  "ag_crypto (closer_aggregator cl) = cl_crypto cl" "ag_fee_files (closer_aggregator cl) = cl_fee_files cl"
  by (simp_all add: closer_aggregator_def)

lemma closer_aggregator_ok: "closer_ok cl \<Longrightarrow> aggregator_ok (closer_aggregator cl)"
  by (simp add: closer_ok_def aggregator_ok_def)

lemma non_select_outcomes: "pq_non_select g stmt s = Some (qs, s') \<Longrightarrow> set (s_outcomes s') \<subseteq> set (s_outcomes s)"
  by (auto simp: pq_non_select_def pq_fail_def next_outcome_def split: list.splits option.splits sum.splits if_splits)

lemma singleton_select_outcomes: "pq_singleton_select g query s = Some (x, s') \<Longrightarrow> set (s_outcomes s') \<subseteq> set (s_outcomes s)"
  by (auto simp: pq_singleton_select_def pq_fail_def next_outcome_def split: list.splits option.splits if_splits)

lemma insert_reserve_closed_outcomes:
  assumes "postgres_insert_reserve_closed g pg pub date receiver wtid amount fee s = Some (qs, s')"
  shows "set (s_outcomes s') \<subseteq> set (s_outcomes s)"
  using assms
  by (auto simp: postgres_insert_reserve_closed_def postgres_reserves_get_def reserves_update_def bind_eq_Some_conv
      dest!: non_select_outcomes singleton_select_outcomes split: if_splits option.splits) blast+

lemma insert_reserve_closed_tx:
  assumes cl: "closer_ok cl" and c: "closable c" and s: "in_tx c s" "\<not> s_failed s \<longrightarrow> fees_added c (s_db s)"
    and a: "amount_in (pg_currency (cl_pg cl)) left" "amount_in (pg_currency (cl_pg cl)) fee"
    and t: "GNUNET_TIME_round_abs (cl_gnunet cl) date = date"
  shows "wp (postgres_insert_reserve_closed (cl_gnunet cl) (cl_pg cl) pub date receiver wtid left fee s) (\<lambda>qs s'. in_tx c s'
     \<and> (if qs = 1 then \<not> s_failed s \<and> close_effect pub receiver (amt left) (s_db s) (s_db s') else qs = - 2 \<or> s_failed s'))"
proof (cases "s_failed s")
  case True
  obtain x where x: "TALER_PQ_query_param_amount left = Some x" using query_param_amount [OF a(1)] by metis
  obtain y where y: "TALER_PQ_query_param_amount fee = Some y" using query_param_amount [OF a(2)] by metis
  have g: "gnunet_ok (cl_gnunet cl)" using cl by (simp add: closer_ok_def)
  obtain qs s' where r: "postgres_insert_reserve_closed (cl_gnunet cl) (cl_pg cl) pub date receiver wtid left fee s = Some (qs, s')"
    "qs < 0" "s_failed s'" "s_in_tx s'" "s_committed s' = c"
    using insert_reserve_closed_failed [OF g s(1) True query_param_time [OF t] x y] by blast
  with insert_reserve_closed_outcomes [OF r(1)] s(1) show ?thesis by (auto simp: in_tx_def)
next
  case False
  have g: "gnunet_ok (cl_gnunet cl)" "pg_ok (cl_pg cl)" using cl by (simp_all add: closer_ok_def)
  have i: "session_ok s" "s_in_tx s" using s(1) by (simp_all add: in_tx_def session_ok_def)
  obtain fees where fees: "fee_rows_ok fees" "s_db s = c\<lparr>t_wire_fee := t_wire_fee c @ fees\<rparr>"
    using s(2) False by (auto simp: fees_added_def)
  then have "closable (s_db s)" using c closable_other(2) by simp
  then have ok: "reserves_ok (s_db s)" "reserve_tables_ok (s_db s)" by (simp_all add: closable_def)
  from insert_reserve_closed_wp [OF g(1) i g(2) ok a t, of pub receiver wtid]
  obtain qs s' where r: "postgres_insert_reserve_closed (cl_gnunet cl) (cl_pg cl) pub date receiver wtid left fee s = Some (qs, s')"
    "qs = 1 \<and> (\<exists>db. updated s db s' \<and> close_effect pub receiver (amt left) (s_db s) db) \<or> op_failed s qs s'"
    by (auto simp: wp_iff)
  have tx: "in_tx c s'" using r insert_reserve_closed_outcomes [OF r(1)] s(1) i(2) by (auto simp: in_tx_def updated_def op_failed_def tx_kept_def)
  show ?thesis
    using r tx False insert_reserve_closed_soft [OF g(1), of "cl_pg cl" pub date receiver wtid left fee s s'] i(2)
    by (auto simp: updated_def op_failed_def)
qed

text \<open>Where the callback leaves the session: in the transaction, or after a commit of its own\<close>

definition closing_step ::
    "closer \<Rightarrow> closer_inputs \<Rightarrow> reserves_row \<Rightarrow> tables \<Rightarrow> int \<times> closer_state \<Rightarrow> tables session \<Rightarrow> bool" where
  "closing_step cl ci r c = (\<lambda>(qs, cs') s'. closer_accounts_ok cl cs'
     \<and> (in_tx c s' \<and> (qs = 1 \<and> \<not> s_failed s' \<longrightarrow> closes_reserve cl ci (cs_accounts cs') r c (s_db s'))
        \<or> idle s' \<and> (s_committed s' = c \<or> closes_reserve cl ci (cs_accounts cs') r c (s_committed s'))))"

lemma closer_accounts_ret [simp]: "closer_accounts_ok cl (cs\<lparr>cs_global_ret := n\<rparr>) = closer_accounts_ok cl cs"
  by (simp add: closer_accounts_ok_def)

lemma closing_step_hard [simp]:
  "in_tx c s \<Longrightarrow> closer_accounts_ok cl cs \<Longrightarrow> closing_step cl ci r c (- 2, cs\<lparr>cs_global_ret := n\<rparr>) s"
  by (simp add: closing_step_def)

lemma commit_in_tx_wp:
  assumes "gnunet_ok g" and "in_tx c s"
  shows "wp (postgres_commit g s) (\<lambda>qs s'. idle s' \<and> (s_committed s' = c \<or> \<not> s_failed s \<and> s_committed s' = s_db s))"
  by (rule wp_mono [OF commit_wp [OF assms(1)]]) (use assms(2) in \<open>auto simp: tx_outcome_def in_tx_def split: if_splits\<close>)

lemma closing_transfer_wp:
  assumes cl: "closer_ok cl" and s: "in_tx c s" and cs: "closer_accounts_ok cl cs" and a: "amount_in (pg_currency (cl_pg cl)) final"
    and prepared: "\<And>pw. \<not> s_failed s \<Longrightarrow> pw_type pw = m \<Longrightarrow> \<not> pw_finished pw
      \<Longrightarrow> TALER_BANK_prepare_transfer (cl_crypto cl) (cl_max_malloc cl) (ci_request_uid ci) url final (cl_exchange_base_url cl) wtid = Some (pw_buf pw)
      \<Longrightarrow> closes_reserve cl ci (cs_accounts cs) r c ((s_db s)\<lparr>t_prewire := t_prewire (s_db s) @ [pw]\<rparr>)"
  shows "wp (closing_transfer cl ci url m final wtid cs s) (closing_step cl ci r c)"
proof -
  obtain buf where buf: "TALER_BANK_prepare_transfer (cl_crypto cl) (cl_max_malloc cl) (ci_request_uid ci) url final (cl_exchange_base_url cl) wtid = Some buf"
    by (rule prepare_transfer_some [OF a])
  show ?thesis
    unfolding closing_transfer_def buf Option.bind.simps
    by (rule wp_bindI [OF wire_prepare_data_insert_tx [OF _ s]])
      (use cl cs prepared buf in \<open>auto simp: closer_ok_def closing_step_def\<close>)
qed

text \<open>The callback, after the fees\<close>

lemma closing_tail_wp:
  assumes cl: "closer_ok cl" and c: "closable c" and s: "in_tx c s" "\<not> s_failed s \<longrightarrow> fees_added c (s_db s)"
    and cs: "closer_accounts_ok cl cs"
    and r: "r \<in> set (t_reserves c)" "rv_expiration_date r \<le> GNUNET_TIME_round_abs (cl_gnunet cl) (ci_now ci)" "0 < sqlamt (rv_current_balance r)"
    and left: "amount_in (pg_currency (cl_pg cl)) left" "amt left = sqlamt (rv_current_balance r)"
    and wa: "wa \<in> set (cs_accounts cs)" "advance_fees wa (GNUNET_TIME_round_abs (cl_gnunet cl) (rv_expiration_date r)) = Some af"
    and net: "amount_in (pg_currency (cl_pg cl)) net" "amt net = max 0 (amt left - amt (af_closing_fee af))"
    and fee: "amount_in (pg_currency (cl_pg cl)) fee" and t: "GNUNET_TIME_round_abs (cl_gnunet cl) date = date"
    and f: "f = snd (TALER_amount_round_down net (cl_currency_round_unit cl))" and ret: "ret = 1 \<longleftrightarrow> amt f \<noteq> 0" "ret \<noteq> - 1"
  shows "wp (do {
       (qs, s) \<leftarrow> (if ret \<noteq> GNUNET_SYSERR
         then postgres_insert_reserve_closed (cl_gnunet cl) (cl_pg cl) (rv_reserve_pub r) date (rv_account_details r) (rv_reserve_pub r) left fee s
         else Some (GNUNET_DB_STATUS_HARD_ERROR, s));
       if ret = GNUNET_SYSERR \<or> qs = GNUNET_DB_STATUS_HARD_ERROR
       then Some ((GNUNET_DB_STATUS_HARD_ERROR, cs\<lparr>cs_global_ret := CL_DATABASE_INSERT_HARD_FAIL\<rparr>), s)
       else if ret \<noteq> GNUNET_OK \<or> qs \<noteq> GNUNET_DB_STATUS_SUCCESS_ONE_RESULT
       then do {
         (_, s) \<leftarrow> commit_or_warn_closer (cl_gnunet cl) s;
         Some ((qs, cs), s)
       }
       else closing_transfer cl ci (rv_account_details r) (wa_method wa) f (rv_reserve_pub r) cs s }) (closing_step cl ci r c)"
proof -
  have g: "gnunet_ok (cl_gnunet cl)" using cl by (simp add: closer_ok_def)
  have fin: "amount_in (pg_currency (cl_pg cl)) f" "amt f \<le> amt net" using round_down_in [OF net(1)] by (simp_all add: f)
  have closes: "closes_reserve cl ci (cs_accounts cs) r c (db2\<lparr>t_prewire := t_prewire db2 @ pws\<rparr>)"
    if nf: "\<not> s_failed s" and e: "close_effect (rv_reserve_pub r) (rv_account_details r) (amt left) (s_db s) db2"
      and pws: "if amt f = 0 then pws = []
          else amt f \<le> amt net \<and> (\<exists>pw. pws = [pw] \<and> pw_type pw = wa_method wa \<and> \<not> pw_finished pw
            \<and> TALER_BANK_prepare_transfer (cl_crypto cl) (cl_max_malloc cl) (ci_request_uid ci) (rv_account_details r) f
                (cl_exchange_base_url cl) (rv_reserve_pub r) = Some (pw_buf pw))" for db2 pws
  proof (rule closes_reserveI [OF c r wa net(1) net(2) [unfolded left(2)] mp [OF s(2) nf] e [unfolded left(2)]])
    show "let final = snd (TALER_amount_round_down net (cl_currency_round_unit cl)) in
          if amt final = 0 then pws = []
          else amt final \<le> amt net \<and> (\<exists>pw. pws = [pw] \<and> pw_type pw = wa_method wa \<and> \<not> pw_finished pw
            \<and> TALER_BANK_prepare_transfer (cl_crypto cl) (cl_max_malloc cl) (ci_request_uid ci) (rv_account_details r) final
                (cl_exchange_base_url cl) (rv_reserve_pub r) = Some (pw_buf pw))"
      using pws unfolding Let_def f [symmetric] .
  qed
  show ?thesis
  proof (rule wp_bindI [where P = "\<lambda>qs s'. in_tx c s' \<and> (if qs = 1 then \<not> s_failed s
       \<and> close_effect (rv_reserve_pub r) (rv_account_details r) (amt left) (s_db s) (s_db s') else qs = - 2 \<or> s_failed s')"], goal_cases)
    case 1
    show ?case using insert_reserve_closed_tx [OF cl c s left(1) fee t] ret(2) by simp
  next
    case (2 qs s1)
    then have s1: "in_tx c s1" by simp
    consider "qs = - 2" | "qs \<noteq> - 2" "ret \<noteq> 1 \<or> qs \<noteq> 1" | "qs = 1" "ret = 1" by auto
    then show ?case
    proof cases
      case 1
      with s1 cs show ?thesis by simp
    next
      case stop: 2
      have "wp (commit_or_warn_closer (cl_gnunet cl) s1) (\<lambda>x s'. closing_step cl ci r c (qs, cs) s')"
        unfolding commit_or_warn_closer_def
      proof (rule wp_mono [OF commit_in_tx_wp [OF g s1]], goal_cases)
        case (1 x s')
        have "closes_reserve cl ci (cs_accounts cs) r c (s_db s1)" if "\<not> s_failed s1"
          using that 2 stop closes [of "s_db s1" "[]"] ret(1) by (auto split: if_splits)
        with 1 cs show ?case by (auto simp: closing_step_def)
      qed
      with stop ret(2) show ?thesis by (auto simp: wp_bind)
    next
      case 3
      have "wp (closing_transfer cl ci (rv_account_details r) (wa_method wa) f (rv_reserve_pub r) cs s1) (closing_step cl ci r c)"
        using 3 2 ret(1) fin closes by (intro closing_transfer_wp [OF cl s1 cs fin(1)]) auto
      with 3 show ?thesis by simp
    qed
  qed
qed

lemma expired_reserve_cb_wp:
  assumes cl: "closer_ok cl" and c: "closable c" and s: "in_tx c s" "\<not> s_failed s" "s_db s = c"
    and cs: "closer_accounts_ok cl cs"
    and r: "r \<in> set (t_reserves c)" "rv_expiration_date r \<le> GNUNET_TIME_round_abs (cl_gnunet cl) (ci_now ci)" "0 < sqlamt (rv_current_balance r)"
    and left: "amount_in (pg_currency (cl_pg cl)) left" "amt left = sqlamt (rv_current_balance r)"
  shows "wp (expired_reserve_cb cl ci cs (rv_reserve_pub r) left (rv_account_details r) (GNUNET_TIME_round_abs (cl_gnunet cl) (rv_expiration_date r)) s)
     (closing_step cl ci r c)"
proof (cases "TALER_EXCHANGEDB_find_account_by_payto_uri (cs_accounts cs) (rv_account_details r)")
  case None
  with s(1) cs show ?thesis by (simp add: expired_reserve_cb_def)
next
  case (Some wa)
  let ?e = "GNUNET_TIME_round_abs (cl_gnunet cl) (rv_expiration_date r)"
  have wa: "wa \<in> set (cs_accounts cs)" "account_ok (closer_aggregator cl) wa"
    using find_by_payto_uri [OF Some] cs by (auto simp: closer_accounts_ok_def accounts_ok_def)
  have fees: "\<not> s_failed s \<longrightarrow> fee_rows_ok (t_wire_fee (s_db s))" using s(3) c by (simp add: closable_def)
  have t: "GNUNET_TIME_round_abs (cl_gnunet cl) (GNUNET_TIME_round_abs (cl_gnunet cl) x) = GNUNET_TIME_round_abs (cl_gnunet cl) x" for x
    using cl by (simp add: closer_ok_def gnunet_ok_def)
  show ?thesis
    unfolding expired_reserve_cb_def Some Let_def option.case
  proof (rule wp_bindI [OF update_fees_tx [OF closer_aggregator_ok [OF cl] s(1) wa(2) fees, of ?e, simplified]], goal_cases)
    case (1 x s1)
    obtain af' wa' where x: "x = (af', wa')" by (cases x)
    have s1: "in_tx c s1" "\<not> s_failed s1 \<longrightarrow> fees_added c (s_db s1)" using 1 x s(3) by (auto simp: only_fees_def)
    let ?cs = "cs\<lparr>cs_accounts := update_account wa' (cs_accounts cs)\<rparr>"
    have cs': "closer_accounts_ok cl ?cs" using 1 x cs set_update_account [of wa' "cs_accounts cs"]
      by (auto simp: closer_accounts_ok_def accounts_ok_def)
    show ?case
    proof (cases af')
      case None
      with x s1(1) cs' show ?thesis by simp
    next
      case af: (Some af)
      have wa': "wa' \<in> set (cs_accounts ?cs)" "advance_fees wa' ?e = Some af"
        using 1 x af update_account_mem [OF wa(1), of wa'] by auto
      have "fee_ok (cl_gnunet cl) (cl_pg cl) af"
        using advance_fees_mem [OF wa'(2)] 1 x by (auto simp: account_ok_def)
      then have a: "amount_in (pg_currency (cl_pg cl)) (af_closing_fee af)" by (simp add: fee_ok_def)
      obtain ret net fee where n: "closing_amounts left (af_closing_fee af) = Some (ret, net, fee)"
        "amount_in (pg_currency (cl_pg cl)) net" "amt net = max 0 (amt left - amt (af_closing_fee af))"
        "amount_in (pg_currency (cl_pg cl)) fee" "amt net \<noteq> 0 \<longrightarrow> ret = 1"
        using closing_amounts_ok [OF left(1) a] by blast
      obtain q f where f: "TALER_amount_round_down net (cl_currency_round_unit cl) = (q, f)" by fastforce
      have z: "amt_value f = 0 \<and> amt_fraction f = 0 \<longleftrightarrow> amt f = 0" by (simp add: amt_eq_0_iff)
      have le: "0 \<le> amt f" "amt f \<le> amt net" using round_down_in [OF n(2), of "cl_currency_round_unit cl"] f by simp_all
      show ?thesis
      proof (cases "q = - 1")
        case True
        with x af n(1) f s1(1) cs' show ?thesis by simp
      next
        case False
        obtain ret' where ret': "ret' = (if amt f = 0 then GNUNET_NO else ret)" by blast
        have "ret' = 1 \<longleftrightarrow> amt f \<noteq> 0" "ret' \<noteq> - 1"
          using n(5) le by (cases "amt f = 0"; cases "amt net = 0"; auto simp: ret')+
        note tail = closing_tail_wp [OF cl c s1 cs' r left wa' n(2,3,4) t [of "ci_closing_time ci"] _ this]
        show ?thesis using tail f False n(1) x af by (simp add: z ret' [symmetric] cong: if_cong)
      qed
    qed
  qed
qed

section \<open>A run\<close>

text \<open>Nothing happened, or the expired reserve that is due first is closed.\<close>

definition closure_ended ::
    "closer \<Rightarrow> closer_inputs \<Rightarrow> tables \<Rightarrow> next_task \<times> closer_state \<Rightarrow> tables session \<Rightarrow> bool" where
  "closure_ended cl ci db = (\<lambda>(task, cs') s'. idle s' \<and> closer_accounts_ok cl cs'
     \<and> (s_committed s' = db
        \<or> (\<exists>r. sql_get_expired_reserves (GNUNET_TIME_round_abs (cl_gnunet cl) (ci_now ci)) db = [r]
               \<and> closes_reserve cl ci (cs_accounts cs') r db (s_committed s'))))"

lemma sqlamt_pos: "0 < sqlamt x \<longleftrightarrow> fst x \<noteq> 0 \<or> snd x \<noteq> 0"
proof -
  have "0 \<le> sqlamt x" by (simp add: sqlamt_def)
  moreover have "sqlamt x = 0 \<longleftrightarrow> fst x = 0 \<and> snd x = 0"
    by (simp add: sqlamt_def add_nonneg_eq_0_iff uint_0_iff)
  ultimately show ?thesis by linarith
qed

lemma expired_reserves_cases:
  assumes "closable c"
  obtains "sql_get_expired_reserves now c = []"
  | r where "sql_get_expired_reserves now c = [r]" and "r \<in> set (t_reserves c)" and "rv_expiration_date r \<le> now"
    and "0 < sqlamt (rv_current_balance r)" and "sql_normal (rv_current_balance r)"
proof (cases "sql_get_expired_reserves now c")
  case (Cons r rows)
  then have r: "r \<in> set (sql_get_expired_reserves now c)" by simp
  from Cons have "length (r # rows) \<le> 1" unfolding Cons [symmetric] by (simp add: sql_get_expired_reserves_def)
  then have rows: "rows = []" by simp
  from r have "r \<in> set (t_reserves c)" "rv_expiration_date r \<le> now" "fst (rv_current_balance r) \<noteq> 0 \<or> snd (rv_current_balance r) \<noteq> 0"
    by (auto simp: sql_get_expired_reserves_def dest!: in_set_takeD)
  moreover from this assms have "sql_normal (rv_current_balance r)" by (auto simp: closable_def reserves_ok_def)
  moreover from calculation have "0 < sqlamt (rv_current_balance r)" using sqlamt_pos by blast
  ultimately show ?thesis using that(2) Cons rows by blast
qed (use that(1) in blast)

text \<open>The search for an expired reserve leaves the session in the transaction, or the callback has committed.\<close>

lemma get_expired_reserves_wp:
  assumes cl: "closer_ok cl" and c: "closable c" and s: "in_tx c s" "\<not> s_failed s" "s_db s = c" and cs: "closer_accounts_ok cl cs"
    and now: "now = GNUNET_TIME_round_abs (cl_gnunet cl) (ci_now ci)"
  shows "wp (postgres_get_expired_reserves (cl_gnunet cl) (cl_pg cl) now (expired_reserve_cb cl ci) cs s)
     (\<lambda>(qs, cs') s'. qs \<le> 1 \<and> closer_accounts_ok cl cs'
        \<and> (in_tx c s' \<and> (qs \<notin> {- 2, - 1, 0} \<and> \<not> s_failed s' \<longrightarrow> (\<exists>r. sql_get_expired_reserves now c = [r] \<and> closes_reserve cl ci (cs_accounts cs') r c (s_db s')))
           \<or> idle s' \<and> (s_committed s' = c
               \<or> (\<exists>r. sql_get_expired_reserves now c = [r] \<and> closes_reserve cl ci (cs_accounts cs') r c (s_committed s')))))"
proof -
  have g: "gnunet_ok (cl_gnunet cl)" "pg_ok (cl_pg cl)" using cl by (simp_all add: closer_ok_def)
  have t: "TALER_PQ_query_param_absolute_time (cl_gnunet cl) now = Some now"
    using g(1) by (simp add: now gnunet_ok_def query_param_time)
  show ?thesis
    unfolding postgres_get_expired_reserves_def t Option.bind.simps
  proof (rule wp_bindI [OF multi_select_tx [OF g(1) s(1)]], goal_cases)
    case (1 x s1)
    obtain qs rows bad where x: "x = (qs, rows, bad)" by (cases x)
    with 1 have s1: "in_tx c s1" "\<not> bad" "s_failed s1 \<and> qs < 0 \<and> rows = []
      \<or> \<not> s_failed s1 \<and> s_db s1 = c \<and> rows = sql_get_expired_reserves now c \<and> qs = int (length rows)" using s(3) by auto
    show ?case
    proof (rule expired_reserves_cases [OF c, of now])
      assume "sql_get_expired_reserves now c = []"
      with x s1 cs show ?thesis by auto
    next
      fix r assume r: "sql_get_expired_reserves now c = [r]" "r \<in> set (t_reserves c)" "rv_expiration_date r \<le> now"
        "0 < sqlamt (rv_current_balance r)" "sql_normal (rv_current_balance r)"
      obtain left where left: "TALER_PQ_result_spec_amount (pg_currency (cl_pg cl)) (rv_current_balance r) = Some left"
        "amount_in (pg_currency (cl_pg cl)) left" "amt left = sqlamt (rv_current_balance r)"
        using result_spec_amount [OF g(2) r(5)] by metis
      show ?thesis
      proof (cases "s_failed s1")
        case True
        with x s1 cs show ?thesis by auto
      next
        case False
        with s1 r(1) have s1': "s_db s1 = c" "rows = [r]" "qs = 1" by auto
        note cb = expired_reserve_cb_wp [OF cl c s1(1) False s1'(1) cs r(2) r(3) [unfolded now] r(4) left(2,3)]
        then obtain st cs' s2 where st: "expired_reserve_cb cl ci cs (rv_reserve_pub r) left (rv_account_details r)
            (GNUNET_TIME_round_abs (cl_gnunet cl) (rv_expiration_date r)) s1 = Some ((st, cs'), s2)" "closing_step cl ci r c (st, cs') s2"
          by (auto simp: wp_iff)
        have "reserve_expired_cb (cl_gnunet cl) (cl_pg cl) (expired_reserve_cb cl ci) [r] cs s1 = Some ((st, cs'), s2)"
          using st(1) by (cases "st = 1") (simp_all add: left(1) TALER_PQ_result_spec_absolute_time_def)
        with st(2) x s1(2) s1'(2,3) r(1) show ?thesis
          by (cases "st = 1") (auto simp: closing_step_def simp del: reserve_expired_cb.simps)
      qed
    qed
  qed
qed

lemma run_reserve_closures_wp:
  assumes cl: "closer_ok cl" and cs: "closer_accounts_ok cl cs" and c: "closable (s_committed s)" and s: "idle s"
    and ex: "PQ_EXTRACT_FAIL \<notin> set (s_outcomes s)"
  shows "wp (run_reserve_closures cl ci cs s) (closure_ended cl ci (s_committed s))"
proof -
  let ?c = "s_committed s"
  have g: "gnunet_ok (cl_gnunet cl)" using cl by (simp add: closer_ok_def)
  obtain ok s0 where s0: "postgres_get_session s = (ok, s0)" by fastforce
  then have "set (s_outcomes s0) \<subseteq> set (s_outcomes s)"
    by (auto simp: postgres_get_session_def next_outcome_def split: list.splits)
  with ex get_session_idle [OF s0 s] have i0: "idle s0" "s_committed s0 = ?c" "PQ_EXTRACT_FAIL \<notin> set (s_outcomes s0)" by auto
  have "wp (do {
         (ok, s) \<leftarrow> postgres_start ''aggregator reserve closures'' s0;
         if ok \<noteq> GNUNET_OK then Some ((Shutdown CL_DATABASE_TRANSACTION_BEGIN_FAIL, cs\<lparr>cs_global_ret := CL_DATABASE_TRANSACTION_BEGIN_FAIL\<rparr>), s)
         else do {
           let now = GNUNET_TIME_round_abs (cl_gnunet cl) (ci_now ci);
           ((qs, cs), s) \<leftarrow> postgres_get_expired_reserves (cl_gnunet cl) (cl_pg cl) now (expired_reserve_cb cl ci) cs s;
           GNUNET_assert (1 \<ge> qs);
           if qs = GNUNET_DB_STATUS_HARD_ERROR then Some ((Shutdown CL_DATABASE_SELECT_HARD_FAIL, cs\<lparr>cs_global_ret := CL_DATABASE_SELECT_HARD_FAIL\<rparr>), postgres_rollback s)
           else if qs = GNUNET_DB_STATUS_SOFT_ERROR then Some ((Run_now, cs), postgres_rollback s)
           else if qs = GNUNET_DB_STATUS_SUCCESS_NO_RESULTS
           then Some ((if cl_test_mode cl then Shutdown (cs_global_ret cs) else Run_delayed, cs), postgres_rollback s)
           else do {
             (_, s) \<leftarrow> commit_or_warn_closer (cl_gnunet cl) s;
             Some ((Run_now, cs), s)
           }
         } }) (closure_ended cl ci ?c)"
    unfolding Let_def
  proof (rule wp_bindI [OF start_tx [OF i0(1,3)]], goal_cases)
    case (1 ok s1)
    show ?case
    proof (cases "ok = GNUNET_OK")
      case False
      with 1 i0(2) cs show ?thesis by (simp add: closure_ended_def)
    next
      case True
      with 1 i0(2) have s1: "in_tx ?c s1" "\<not> s_failed s1" "s_db s1 = ?c" by auto
      show ?thesis
        unfolding True simp_thms if_False prod.case
      proof (rule wp_bindI [OF get_expired_reserves_wp [OF cl c s1 cs refl]], goal_cases)
        case (1 y s2)
        obtain qs cs' where y: "y = (qs, cs')" by (cases y)
        have co: "s_committed s2 = ?c \<or> idle s2" using 1 y by (auto simp: in_tx_def)
        have roll: "closure_ended cl ci ?c (task, cs'') (postgres_rollback s2)"
          if "cs'' = cs' \<or> cs'' = cs'\<lparr>cs_global_ret := n\<rparr>" for task cs'' n
          using that 1 y rollback_idle [of s2] by (auto simp: closure_ended_def in_tx_def)
        have "wp (commit_or_warn_closer (cl_gnunet cl) s2) (\<lambda>q s'. closure_ended cl ci ?c (Run_now, cs') s')" if "qs \<notin> {- 2, - 1, 0}"
          unfolding commit_or_warn_closer_def
          by (rule wp_mono [OF commit_wp [OF g]])
            (use 1 y that in \<open>auto simp: closure_ended_def tx_outcome_def in_tx_def idle_def split: if_splits\<close>)
        then show ?case using 1 y roll by (auto simp: wp_bind)
      qed
    qed
  qed
  then show ?thesis using i0 cs by (auto simp: run_reserve_closures_def s0 closure_ended_def Let_def)
qed

text \<open>C13. A run of the process that closes reserves never aborts, whatever serialization failures, hard errors and lost connections the
  database reports, and it ends outside of a transaction. It leaves the database as it was, or it closes the one reserve that has
  money left and expired first: all that is left is taken out of it and nothing else changes for any reserve, and what is sent back to
  the account from which it came, in one transfer, is what is left without the closing fee, rounded down, or nothing if there is
  nothing left to send. (Rows that cannot be extracted are excluded.)\<close>

theorem closure_run_safe:
  assumes "closer_ok cl" and "closer_accounts_ok cl cs" and "closable (s_committed s)" and "idle s"
    and "PQ_EXTRACT_FAIL \<notin> set (s_outcomes s)"
  shows "\<exists>task cs' s'. run_reserve_closures cl ci cs s = Some ((task, cs'), s') \<and> idle s' \<and> closer_accounts_ok cl cs'
     \<and> (s_committed s' = s_committed s
        \<or> (\<exists>r. sql_get_expired_reserves (GNUNET_TIME_round_abs (cl_gnunet cl) (ci_now ci)) (s_committed s) = [r]
               \<and> closes_reserve cl ci (cs_accounts cs') r (s_committed s) (s_committed s')))"
  using run_reserve_closures_wp [OF assms, of ci] by (auto simp: wp_iff closure_ended_def)

text \<open>A reserve with 4 left, and a closing fee of 1\<close>

definition sample_closer :: closer where
  "sample_closer = \<lparr>cl_gnunet = sample_gnunet, cl_pg = sample_pg, cl_crypto = sample_crypto, cl_fee_files = (\<lambda>m. None),
     cl_currency_round_unit = mk_amount ''EUR'' 0 1000000, cl_exchange_base_url = ''http://e/'', cl_max_malloc = 1000, cl_test_mode = True\<rparr>"

definition sample_closer_state :: closer_state where
  "sample_closer_state = \<lparr>cs_accounts = [sample_account\<lparr>wa_af := [sample_fee\<lparr>af_closing_fee := mk_amount ''EUR'' 1 0\<rparr>]\<rparr>],
     cs_global_ret = 0\<rparr>"

definition sample_closer_inputs :: closer_inputs where
  "sample_closer_inputs = \<lparr>ci_now = 1000, ci_closing_time = 1000, ci_request_uid = 77\<rparr>"

definition sample_expired_db :: tables where
  "sample_expired_db = sample_db\<lparr>t_reserves := [\<lparr>rv_reserve_pub = 3, rv_account_details = ''payto://x-taler-bank/h/42'',
     rv_current_balance = (4, 0), rv_expiration_date = 200, rv_gc_date = 200\<rparr>]\<rparr>"

lemma sample_closer_ok: "closer_ok sample_closer" "closer_accounts_ok sample_closer sample_closer_state" "closable sample_expired_db"
proof -
  show "closer_ok sample_closer" by (simp add: closer_ok_def sample_closer_def sample_ok fee_files_ok_def)
  show "closer_accounts_ok sample_closer sample_closer_state"
    using mk_amount_in_EUR [of 10000000 0] mk_amount_in_EUR [of 0 1]
    by (simp add: closer_accounts_ok_def accounts_ok_def account_ok_def sample_account_def sample_fee_def fee_ok_def sample_closer_def
        sample_closer_state_def sample_ok)
  show "closable sample_expired_db"
    by (simp add: closable_def reserves_ok_def reserve_tables_ok_def sample_expired_db_def sample_db_def reserve_total_defs sql_normal_def
      sqlamt_def AMT_LIMIT_def reserve_known_def denom_known_def coin_known_def fee_rows_ok_def)
qed

lemma sample_closing_amounts:
  "TALER_PQ_result_spec_amount ''EUR'' (4, 0) = Some (mk_amount ''EUR'' 4 0)"
  "closing_amounts (mk_amount ''EUR'' 4 0) (mk_amount ''EUR'' 1 0) = Some (1, mk_amount ''EUR'' 3 0, mk_amount ''EUR'' 1 0)"
  "TALER_amount_round_down (mk_amount ''EUR'' 3 0) (mk_amount ''EUR'' 0 1000000) = (0, mk_amount ''EUR'' 3 0)"
  "TALER_amount_subtract x (mk_amount ''EUR'' 4 0) (mk_amount ''EUR'' 4 0) = Some (0, mk_amount ''EUR'' 0 0)"
  "TALER_PQ_query_param_amount (mk_amount ''EUR'' 4 0) = Some (4, 0)" "TALER_PQ_query_param_amount (mk_amount ''EUR'' 1 0) = Some (1, 0)"
  "TALER_PQ_query_param_amount (mk_amount ''EUR'' 0 0) = Some (0, 0)" "amt_value (mk_amount ''EUR'' 3 0) = 3" "amt_fraction (mk_amount ''EUR'' 3 0) = 0"
  by (simp_all add: closing_amounts_def TALER_PQ_query_param_amount_def TALER_PQ_result_spec_amount_def TALER_amount_subtract_def TALER_amount_round_down_def Let_def
      amount_sample_simps TALER_amount_normalize_def TALER_amount_get_zero_def TALER_AMOUNT_FRAC_BASE_def MAX_AMOUNT_VALUE_def)

lemma sample_closing_run:
  "\<exists>cs' s'. run_reserve_closures sample_closer sample_closer_inputs sample_closer_state (sample_idle sample_expired_db []) = Some ((Run_now, cs'), s')
     \<and> map rcl_amount (t_reserves_close (s_committed s')) = [(4, 0)] \<and> length (t_prewire (s_committed s')) = 1"
  apply (simp add: run_reserve_closures_def postgres_get_session_def next_outcome_def sample_idle_def
      postgres_start_def postgres_preflight_def Let_def exec_rollback_def end_transaction_def)
  apply (simp add: postgres_get_expired_reserves_def sample_closer_def sample_closer_inputs_def pq_multi_select_def pq_denied_def next_outcome_def
      sample_gnunet_def TALER_PQ_query_param_absolute_time_def Let_def)
  apply (simp add: sql_get_expired_reserves_def sample_expired_db_def sample_pg_def sample_closing_amounts)
  apply (simp add: expired_reserve_cb_def sample_closer_state_def TALER_EXCHANGEDB_find_account_by_payto_uri_def TALER_payto_get_method_def
      has_prefix_nocase_def tolower_def sample_account_def strchr_def)
  apply (simp add: TALER_EXCHANGEDB_update_fees_def advance_fees_def sample_fee_def TALER_PQ_result_spec_absolute_time_def Let_def)
  apply (simp add: sample_closing_amounts)
  apply (simp add: postgres_insert_reserve_closed_def TALER_PQ_query_param_absolute_time_def sample_closing_amounts
      pq_non_select_def pq_denied_def next_outcome_def sql_reserves_close_insert_def reserve_known_def Let_def)
  apply (simp add: postgres_reserves_get_def pq_singleton_select_def pq_denied_def next_outcome_def sql_reserves_get_def sample_closing_amounts
      TALER_PQ_result_spec_absolute_time_def)
  apply (simp add: reserves_update_def TALER_PQ_query_param_absolute_time_def sample_closing_amounts pq_non_select_def pq_denied_def
      next_outcome_def sql_reserve_update_def)
  apply (simp add: closing_transfer_def TALER_BANK_prepare_transfer_def TALER_amount_hton_def amount_sample_simps)
  apply (simp add: postgres_wire_prepare_data_insert_def pq_non_select_def next_outcome_def pq_denied_def sql_wire_prepare_data_insert_def)
  apply (simp add: commit_or_warn_closer_def postgres_commit_def next_outcome_def end_transaction_def sample_db_def)
  apply (simp add: sql_get_expired_reserves_def sample_expired_db_def)
  done

theorem closure_run_safe_witness:
  "\<exists>cs' s' r. run_reserve_closures sample_closer sample_closer_inputs sample_closer_state (sample_idle sample_expired_db []) = Some ((Run_now, cs'), s')
     \<and> idle s' \<and> rv_reserve_pub r = 3 \<and> closes_reserve sample_closer sample_closer_inputs (cs_accounts cs') r sample_expired_db (s_committed s')"
proof -
  obtain cs' s' where r: "run_reserve_closures sample_closer sample_closer_inputs sample_closer_state (sample_idle sample_expired_db [])
      = Some ((Run_now, cs'), s')" "map rcl_amount (t_reserves_close (s_committed s')) = [(4, 0)]"
    using sample_closing_run by auto
  then have "s_committed s' \<noteq> sample_expired_db" by (auto simp: sample_expired_db_def sample_db_def)
  with closure_run_safe [OF sample_closer_ok(1,2), of "sample_idle sample_expired_db []" sample_closer_inputs] sample_closer_ok(3) r(1)
  obtain x where "closes_reserve sample_closer sample_closer_inputs (cs_accounts cs') x sample_expired_db (s_committed s')" "idle s'" by auto
  moreover from this(1) have "rv_reserve_pub x = 3" by (simp add: closes_reserve_def sample_expired_db_def)
  ultimately show ?thesis using r(1) by blast
qed

end
