(* ===== verification/Closing_Runs.thy ===== *)
theory Closing_Runs
  imports Closer
begin

text \<open>
  The process that closes reserves gets through: as long as nothing fails, every run closes a reserve, until none is left that has expired
  and is not empty.
\<close>

section \<open>Statements that do not fail\<close>

text \<open>No failure is to come, and none has happened.\<close>

definition clean :: "tables session \<Rightarrow> bool" where
  "clean s \<longleftrightarrow> s_outcomes s = [] \<and> \<not> s_failed s"

lemma clean_outcome: "clean s \<Longrightarrow> next_outcome s = (PQ_RUN, s)"
  by (simp add: clean_def next_outcome_def)

lemma clean_non_select:
  assumes "clean s" and "stmt (s_serial s) (s_db s) = Inr (n, db)"
  shows "\<exists>s'. pq_non_select g stmt s = Some (int n, s') \<and> clean s' \<and> s_db s' = db \<and> s_in_tx s' = s_in_tx s"
  using assms by (auto simp: pq_non_select_def clean_outcome pq_denied_def clean_def)

lemma clean_singleton_select:
  assumes "clean s" and "query (s_db s) = [r]"
  shows "pq_singleton_select g query s = Some ((1, Some r), s)"
  using assms by (simp add: pq_singleton_select_def clean_outcome pq_denied_def clean_def)

lemma clean_multi_select:
  assumes "clean s"
  shows "pq_multi_select g query s = Some ((int (length (query (s_db s))), query (s_db s), False), s)"
  using assms by (simp add: pq_multi_select_def clean_outcome pq_denied_def clean_def Let_def)

lemma clean_commit:
  assumes "clean s"
  shows "\<exists>s'. postgres_commit g s = Some (0, s') \<and> clean s' \<and> s_committed s' = tx_outcome s \<and> \<not> s_in_tx s'"
  using assms by (auto simp: postgres_commit_def clean_outcome end_transaction_def tx_outcome_def clean_def)

lemma clean_rollback: "s_outcomes s = [] \<Longrightarrow> clean (postgres_rollback s)"
  by (simp add: postgres_rollback_def exec_rollback_def next_outcome_def end_transaction_def clean_def)

lemma clean_start:
  assumes "clean s" and "idle s"
  shows "\<exists>s'. postgres_start name s = Some (GNUNET_OK, s') \<and> clean s'"
proof -
  have "clean (postgres_preflight s)"
    using assms(1) by (auto simp: postgres_preflight_def exec_rollback_def clean_outcome end_transaction_def clean_def)
  then show ?thesis by (auto simp: postgres_start_def clean_outcome clean_def)
qed

section \<open>Closing a reserve\<close>

lemma filter_pub_unique:
  assumes "distinct (map rv_reserve_pub rows)" and "r \<in> set rows"
  shows "filter (\<lambda>x. rv_reserve_pub x = rv_reserve_pub r) rows = [r]"
  using assms by (induction rows) (auto simp: filter_empty_conv image_iff)

lemma insert_reserve_closed_clean:
  assumes g: "gnunet_ok g" "pg_ok pg" and s: "clean s"
    and r: "distinct (map rv_reserve_pub (t_reserves (s_db s)))" "r \<in> set (t_reserves (s_db s))" "sql_normal (rv_current_balance r)"
    and a: "amount_in (pg_currency pg) left" "amt left = sqlamt (rv_current_balance r)" "amount_in (pg_currency pg) fee"
    and t: "GNUNET_TIME_round_abs g date = date"
  shows "\<exists>s'. postgres_insert_reserve_closed g pg (rv_reserve_pub r) date receiver wtid left fee s = Some (1, s') \<and> clean s'"
proof -
  obtain x where x: "TALER_PQ_query_param_amount left = Some x" using query_param_amount [OF a(1)] by metis
  obtain y where y: "TALER_PQ_query_param_amount fee = Some y" using query_param_amount [OF a(3)] by metis
  note d = query_param_time [OF t]
  let ?row = "\<lambda>n. \<lparr>rcl_close_uuid = n, rcl_reserve_pub = rv_reserve_pub r, rcl_execution_date = date, rcl_wtid = wtid,
     rcl_receiver_account = receiver, rcl_amount = x, rcl_closing_fee = y\<rparr>"
  have "sql_reserves_close_insert ?row (s_serial s) (s_db s)
      = Inr (1, (s_db s)\<lparr>t_reserves_close := t_reserves_close (s_db s) @ [?row (s_serial s)]\<rparr>)"
    using r(2) by (auto simp: sql_reserves_close_insert_def reserve_known_def)
  with clean_non_select [where stmt = "sql_reserves_close_insert ?row", OF s, of 1 _ g]
  have "\<exists>s1. pq_non_select g (sql_reserves_close_insert ?row) s = Some (1, s1) \<and> clean s1 \<and> t_reserves (s_db s1) = t_reserves (s_db s)" by fastforce
  then obtain s1 where s1: "pq_non_select g (sql_reserves_close_insert ?row) s = Some (1, s1)" "clean s1"
    "t_reserves (s_db s1) = t_reserves (s_db s)" by blast
  have f: "filter (\<lambda>x. rv_reserve_pub x = rv_reserve_pub r) (t_reserves (s_db s)) = [r]" using filter_pub_unique [OF r(1,2)] .
  then have "sql_reserves_get (rv_reserve_pub r) (s_db s1) = [r]" by (simp add: sql_reserves_get_def s1(3))
  note q = clean_singleton_select [where query = "sql_reserves_get (rv_reserve_pub r)", OF s1(2) this, of g]
  obtain b where b: "TALER_PQ_result_spec_amount (pg_currency pg) (rv_current_balance r) = Some b" "amount_in (pg_currency pg) b"
    "amt b = sqlamt (rv_current_balance r)" using result_spec_amount [OF g(2) r(3)] by metis
  obtain z where z: "TALER_amount_subtract b b left = Some (0, z)" "amount_in (pg_currency pg) z"
    using subtract_in [OF b(2) a(1), of b] b(3) a(2) by (metis order_refl)
  obtain w where w: "TALER_PQ_query_param_amount z = Some w" using query_param_amount [OF z(2)] by metis
  have tt: "TALER_PQ_query_param_absolute_time g (GNUNET_TIME_round_abs g u) = Some (GNUNET_TIME_round_abs g u)" for u
    using g(1) by (simp add: gnunet_ok_def query_param_time)
  have u: "\<exists>s2. pq_non_select g (sql_reserve_update e gc w (rv_reserve_pub r)) s1 = Some (1, s2) \<and> clean s2" for e gc
    using clean_non_select [where stmt = "sql_reserve_update e gc w (rv_reserve_pub r)", OF s1(2) sql_reserve_update_Inr, of g] f s1(3) by auto
  from s1(1) q b(1) z(1) w tt u show ?thesis
    by (simp add: postgres_insert_reserve_closed_def d x y postgres_reserves_get_def reserves_update_def TALER_PQ_result_spec_absolute_time_def)
qed

lemma round_down_succeeds:
  assumes "amount_in c a" and "amount_in c u" and "amt_value u = 0 \<or> amt_fraction u = 0"
  shows "fst (TALER_amount_round_down a u) \<noteq> - 1"
proof -
  have "TALER_amount_cmp_currency a u = 1" using assms(1,2) by auto
  then show ?thesis using assms(3) by (auto simp: TALER_amount_round_down_def Let_def)
qed

lemma update_account_found:
  "TALER_EXCHANGEDB_find_account_by_method was m = Some wa \<Longrightarrow> update_account wa was = was"
  by (induction was) (auto split: if_splits dest: find_by_method)

lemma close_effect_longer: "close_effect pub receiver a db db' \<Longrightarrow> length (t_reserves_close db') = Suc (length (t_reserves_close db))"
  by (auto simp: close_effect_def)

text \<open>What has to be configured: the account to pay with, its fees, which are known, and the unit of transfers\<close>

definition refundable :: "closer \<Rightarrow> closer_state \<Rightarrow> reserves_row \<Rightarrow> bool" where
  "refundable cl cs r \<longleftrightarrow> (\<exists>wa. TALER_EXCHANGEDB_find_account_by_payto_uri (cs_accounts cs) (rv_account_details r) = Some wa
     \<and> advance_fees wa (GNUNET_TIME_round_abs (cl_gnunet cl) (rv_expiration_date r)) \<noteq> None)"

definition unit_ok :: "closer \<Rightarrow> bool" where
  "unit_ok cl \<longleftrightarrow> amount_in (pg_currency (cl_pg cl)) (cl_currency_round_unit cl)
     \<and> (amt_value (cl_currency_round_unit cl) = 0 \<or> amt_fraction (cl_currency_round_unit cl) = 0)"

abbreviation closed_count :: "tables \<Rightarrow> nat" where
  "closed_count db \<equiv> length (t_reserves_close db)"

lemma closing_transfer_clean:
  assumes s: "clean s" and a: "amount_in c a"
  shows "\<exists>s'. closing_transfer cl ci url m a wtid cs s = Some ((1, cs), s') \<and> clean s' \<and> s_in_tx s' = s_in_tx s
     \<and> closed_count (s_db s') = closed_count (s_db s)"
proof -
  obtain buf where buf: "TALER_BANK_prepare_transfer (cl_crypto cl) (cl_max_malloc cl) (ci_request_uid ci) url a (cl_exchange_base_url cl) wtid = Some buf"
    by (rule prepare_transfer_some [OF a])
  have "\<exists>s1. postgres_wire_prepare_data_insert (cl_gnunet cl) m buf s = Some (1, s1) \<and> clean s1 \<and> s_in_tx s1 = s_in_tx s
     \<and> closed_count (s_db s1) = closed_count (s_db s)"
    using s by (simp add: postgres_wire_prepare_data_insert_def pq_non_select_def clean_outcome pq_denied_def sql_wire_prepare_data_insert_def)
      (simp add: clean_def)
  then show ?thesis by (auto simp: closing_transfer_def buf)
qed

lemma expired_reserve_cb_clean:
  assumes cl: "closer_ok cl" "unit_ok cl" and c: "closable c" and s: "clean s" "in_tx c s" "s_db s = c" and cs: "closer_accounts_ok cl cs"
    and r: "r \<in> set (t_reserves c)" "refundable cl cs r"
    and left: "amount_in (pg_currency (cl_pg cl)) left" "amt left = sqlamt (rv_current_balance r)"
  shows "\<exists>s'. expired_reserve_cb cl ci cs (rv_reserve_pub r) left (rv_account_details r) (GNUNET_TIME_round_abs (cl_gnunet cl) (rv_expiration_date r)) s
      = Some ((1, cs), s') \<and> clean s' \<and> closed_count (tx_outcome s') = Suc (closed_count c)"
proof -
  let ?e = "GNUNET_TIME_round_abs (cl_gnunet cl) (rv_expiration_date r)" and ?now = "GNUNET_TIME_round_abs (cl_gnunet cl) (ci_closing_time ci)"
    and ?cur = "pg_currency (cl_pg cl)"
  have g: "gnunet_ok (cl_gnunet cl)" "pg_ok (cl_pg cl)" using cl(1) by (simp_all add: closer_ok_def)
  have t: "GNUNET_TIME_round_abs (cl_gnunet cl) ?now = ?now" using g(1) by (simp add: gnunet_ok_def)
  obtain wa af where wa: "TALER_EXCHANGEDB_find_account_by_payto_uri (cs_accounts cs) (rv_account_details r) = Some wa" "advance_fees wa ?e = Some af"
    using r(2) by (auto simp: refundable_def)
  have "update_account wa (cs_accounts cs) = cs_accounts cs"
    using wa(1) by (auto simp: TALER_EXCHANGEDB_find_account_by_payto_uri_def update_account_found split: option.splits)
  then have upd: "cs\<lparr>cs_accounts := update_account wa (cs_accounts cs)\<rparr> = cs" by simp
  have "fee_ok (cl_gnunet cl) (cl_pg cl) af"
    using find_by_payto_uri [OF wa(1)] cs advance_fees_mem(1) [OF wa(2)] by (auto simp: closer_accounts_ok_def accounts_ok_def account_ok_def)
  then have "amount_in ?cur (af_closing_fee af)" by (simp add: fee_ok_def)
  then obtain ret net fee where n: "closing_amounts left (af_closing_fee af) = Some (ret, net, fee)" "amount_in ?cur net"
      "amount_in ?cur fee" "amt net \<noteq> 0 \<longrightarrow> ret = 1" using closing_amounts_ok [OF left(1)] by blast
  obtain q f where f: "TALER_amount_round_down net (cl_currency_round_unit cl) = (q, f)" by fastforce
  have q: "q \<noteq> - 1" using round_down_succeeds [OF n(2)] cl(2) f by (fastforce simp: unit_ok_def)
  have fin: "amount_in ?cur f" "amt f \<le> amt net" using round_down_in [OF n(2), of "cl_currency_round_unit cl"] f by simp_all
  have z: "amt_value f = 0 \<and> amt_fraction f = 0 \<longleftrightarrow> amt f = 0" by (simp add: amt_eq_0_iff)
  have d: "distinct (map rv_reserve_pub (t_reserves (s_db s)))" "sql_normal (rv_current_balance r)" "r \<in> set (t_reserves (s_db s))"
    using c r(1) s(3) by (auto simp: closable_def reserves_ok_def)
  obtain s1 where s1: "postgres_insert_reserve_closed (cl_gnunet cl) (cl_pg cl) (rv_reserve_pub r) ?now (rv_account_details r)
      (rv_reserve_pub r) left fee s = Some (1, s1)" "clean s1"
    using insert_reserve_closed_clean [OF g s(1) d(1,3,2) left n(3) t] by blast
  have fa: "\<not> s_failed s \<longrightarrow> fees_added c (s_db s)" by (simp add: s(3))
  have "in_tx c s1 \<and> close_effect (rv_reserve_pub r) (rv_account_details r) (amt left) c (s_db s1)"
    using insert_reserve_closed_tx [OF cl(1) c s(2) fa left(1) n(3) t, of "rv_reserve_pub r" "rv_account_details r" "rv_reserve_pub r"] s1(1) s(3)
    by (simp add: wp_iff)
  then have tx: "s_in_tx s1" "closed_count (s_db s1) = Suc (closed_count c)" by (auto simp: in_tx_def close_effect_longer)
  then have tx1: "closed_count (tx_outcome s1) = Suc (closed_count c)" using s1(2) by (simp add: tx_outcome_def clean_def)
  show ?thesis
  proof (cases "amt f = 0")
    case True
    obtain s2 where "postgres_commit (cl_gnunet cl) s1 = Some (0, s2)" "clean s2" "s_committed s2 = tx_outcome s1" "\<not> s_in_tx s2"
      using clean_commit [OF s1(2)] by metis
    then show ?thesis
      using True s1(1) n(1) f q tx1
      by (simp add: expired_reserve_cb_def wa TALER_EXCHANGEDB_update_fees_def Let_def upd z commit_or_warn_closer_def)
        (simp add: tx_outcome_def)
  next
    case False
    then have "amt net \<noteq> 0" using fin(2) amt_nonneg [of f] by linarith
    then have "ret = 1" using n(4) by simp
    moreover obtain s2 where "closing_transfer cl ci (rv_account_details r) (wa_method wa) f (rv_reserve_pub r) cs s1 = Some ((1, cs), s2)"
      "clean s2" "s_in_tx s2" "closed_count (s_db s2) = Suc (closed_count c)"
      using closing_transfer_clean [OF s1(2) fin(1)] tx by metis
    ultimately show ?thesis
      using False s1(1) n(1) f q
      by (simp add: expired_reserve_cb_def wa TALER_EXCHANGEDB_update_fees_def Let_def upd z)
        (simp add: tx_outcome_def clean_def)
  qed
qed

section \<open>A run\<close>

lemma clean_get_session: "clean s \<Longrightarrow> \<exists>s0. postgres_get_session s = (True, s0) \<and> clean s0"
  by (auto simp: postgres_get_session_def clean_outcome clean_def)

text \<open>The beginning of a run\<close>

lemma run_begins:
  assumes "clean s" and "idle s"
  obtains s0 s1 where "postgres_get_session s = (True, s0)" and "postgres_start ''aggregator reserve closures'' s0 = Some (GNUNET_OK, s1)"
    and "clean s1" and "in_tx (s_committed s) s1" and "s_db s1 = s_committed s"
proof -
  obtain s0 where s0: "postgres_get_session s = (True, s0)" "clean s0" using clean_get_session [OF assms(1)] by blast
  note i = get_session_idle [OF s0(1) assms(2)]
  obtain s1 where s1: "postgres_start ''aggregator reserve closures'' s0 = Some (GNUNET_OK, s1)" "clean s1"
    using clean_start [OF s0(2)] i by blast
  from start_tx [of s0 "''aggregator reserve closures''"] i s0(2) s1(1)
  have "in_tx (s_committed s) s1" "s_db s1 = s_committed s" by (simp_all add: wp_iff clean_def)
  with that s0(1) s1 show ?thesis by blast
qed

lemma run_closes:
  assumes cl: "closer_ok cl" "unit_ok cl" and cs: "closer_accounts_ok cl cs" and c: "closable (s_committed s)" and s: "idle s" "clean s"
    and r: "sql_get_expired_reserves (GNUNET_TIME_round_abs (cl_gnunet cl) (ci_now ci)) (s_committed s) = [r]" "refundable cl cs r"
  shows "\<exists>s'. run_reserve_closures cl ci cs s = Some ((Run_now, cs), s') \<and> clean s' \<and> closed_count (s_committed s') = Suc (closed_count (s_committed s))"
proof -
  let ?g = "cl_gnunet cl" and ?now = "GNUNET_TIME_round_abs (cl_gnunet cl) (ci_now ci)"
  have g: "gnunet_ok ?g" "pg_ok (cl_pg cl)" using cl(1) by (simp_all add: closer_ok_def)
  obtain s0 s1 where s1: "postgres_get_session s = (True, s0)" "postgres_start ''aggregator reserve closures'' s0 = Some (GNUNET_OK, s1)"
    "clean s1" "in_tx (s_committed s) s1" "s_db s1 = s_committed s" by (rule run_begins [OF s(2,1)])
  have rr: "r \<in> set (t_reserves (s_committed s))" "sql_normal (rv_current_balance r)"
    using r(1) by (rule_tac [1-2] expired_reserves_cases [OF c, of ?now]) auto
  obtain left where left: "TALER_PQ_result_spec_amount (pg_currency (cl_pg cl)) (rv_current_balance r) = Some left"
    "amount_in (pg_currency (cl_pg cl)) left" "amt left = sqlamt (rv_current_balance r)"
    using result_spec_amount [OF g(2) rr(2)] by metis
  obtain s2 where s2: "expired_reserve_cb cl ci cs (rv_reserve_pub r) left (rv_account_details r) (GNUNET_TIME_round_abs ?g (rv_expiration_date r)) s1
      = Some ((1, cs), s2)" "clean s2" "closed_count (tx_outcome s2) = Suc (closed_count (s_committed s))"
    using expired_reserve_cb_clean [OF cl c s1(3,4,5) cs rr(1) r(2) left(2,3)] by blast
  have t: "TALER_PQ_query_param_absolute_time ?g ?now = Some ?now" using g(1) by (simp add: gnunet_ok_def query_param_time)
  have "postgres_get_expired_reserves ?g (cl_pg cl) ?now (expired_reserve_cb cl ci) cs s1 = Some ((1, cs), s2)"
    using s2(1) r(1) s1(5) by (simp add: postgres_get_expired_reserves_def t clean_multi_select [OF s1(3)] left(1)
        TALER_PQ_result_spec_absolute_time_def)
  moreover obtain s3 where "postgres_commit ?g s2 = Some (0, s3)" "clean s3" "s_committed s3 = tx_outcome s2"
    using clean_commit [OF s2(2)] by blast
  ultimately show ?thesis
    using s1(1,2) s2(3) by (simp add: run_reserve_closures_def commit_or_warn_closer_def)
qed

lemma run_rests:
  assumes cl: "closer_ok cl" and s: "idle s" "clean s"
    and r: "sql_get_expired_reserves (GNUNET_TIME_round_abs (cl_gnunet cl) (ci_now ci)) (s_committed s) = []"
  shows "\<exists>task s'. run_reserve_closures cl ci cs s = Some ((task, cs), s') \<and> clean s' \<and> idle s' \<and> s_committed s' = s_committed s"
proof -
  let ?g = "cl_gnunet cl" and ?now = "GNUNET_TIME_round_abs (cl_gnunet cl) (ci_now ci)"
  obtain s0 s1 where s1: "postgres_get_session s = (True, s0)" "postgres_start ''aggregator reserve closures'' s0 = Some (GNUNET_OK, s1)"
    "clean s1" "in_tx (s_committed s) s1" "s_db s1 = s_committed s" by (rule run_begins [OF s(2,1)])
  have t: "TALER_PQ_query_param_absolute_time ?g ?now = Some ?now" using cl by (simp add: closer_ok_def gnunet_ok_def query_param_time)
  have "postgres_get_expired_reserves ?g (cl_pg cl) ?now (expired_reserve_cb cl ci) cs s1 = Some ((0, cs), s1)"
    using r s1(5) by (simp add: postgres_get_expired_reserves_def t clean_multi_select [OF s1(3)])
  then show ?thesis
    using s1(1-4) rollback_idle [of s1] clean_rollback [of s1] by (simp add: run_reserve_closures_def in_tx_def clean_def)
qed

section \<open>Expired reserves\<close>

definition expired_reserves :: "abs_time \<Rightarrow> tables \<Rightarrow> reserves_row list" where
  "expired_reserves now db = filter (\<lambda>r. rv_expiration_date r \<le> now \<and> (fst (rv_current_balance r) \<noteq> 0 \<or> snd (rv_current_balance r) \<noteq> 0)) (t_reserves db)"

lemma get_expired_reserves: "sql_get_expired_reserves now db = take 1 (sort_key rv_expiration_date (expired_reserves now db))"
  by (simp add: sql_get_expired_reserves_def expired_reserves_def)

lemma get_expired_Nil [simp]: "sql_get_expired_reserves now db = [] \<longleftrightarrow> expired_reserves now db = []"
  by (simp add: get_expired_reserves) (metis length_0_conv length_sort)

lemma get_expired_mem: "sql_get_expired_reserves now db = [r] \<Longrightarrow> r \<in> set (expired_reserves now db)"
  by (metis get_expired_reserves in_set_takeD list.set_intros(1) set_sort)

lemma filter_map_id: "(\<And>x. x \<in> set xs \<Longrightarrow> P (f x) \<longleftrightarrow> Q x) \<Longrightarrow> (\<And>x. Q x \<Longrightarrow> f x = x) \<Longrightarrow> filter P (map f xs) = filter Q xs"
  by (induction xs) auto

lemma closed_not_expired:
  assumes "closes_reserve cl ci accounts r db db'"
  shows "expired_reserves now db' = filter (\<lambda>x. rv_reserve_pub x \<noteq> rv_reserve_pub r) (expired_reserves now db)"
proof -
  obtain e gc b fees closed pws where db': "db' = (reserve_set e gc b (rv_reserve_pub r) db)\<lparr>t_wire_fee := fees, t_reserves_close := closed, t_prewire := pws\<rparr>"
    and r: "r \<in> set (t_reserves db)" and ok: "closable db'" and net: "\<forall>p. reserve_net db' p = (if p = rv_reserve_pub r then 0 else reserve_net db p)"
    using assms unfolding closes_reserve_def by blast
  have t: "t_reserves db' = map (\<lambda>x. if rv_reserve_pub x = rv_reserve_pub r
      then x\<lparr>rv_expiration_date := e, rv_gc_date := gc, rv_current_balance := b\<rparr> else x) (t_reserves db)"
    by (simp add: db' reserve_set_def)
  have z: "reserve_net db' (rv_reserve_pub r) = 0" using net by simp
  have "r\<lparr>rv_expiration_date := e, rv_gc_date := gc, rv_current_balance := b\<rparr> \<in> set (t_reserves db')" using r by (auto simp: t)
  from one_reserve [OF ok this] z have "sqlamt b = 0" by simp
  then have "fst b = 0 \<and> snd b = 0" using sqlamt_pos [of b] by auto
  then show ?thesis
    unfolding expired_reserves_def t filter_filter by (intro filter_map_id) auto
qed

lemma closed_count_expired:
  assumes "closes_reserve cl ci accounts r db db'" and "closable db" and "r \<in> set (expired_reserves now db)"
  shows "length (expired_reserves now db) = Suc (length (expired_reserves now db'))"
    and "set (expired_reserves now db') \<subseteq> set (expired_reserves now db)"
    and "rv_reserve_pub ` set (expired_reserves now db) = insert (rv_reserve_pub r) (rv_reserve_pub ` set (expired_reserves now db'))"
proof -
  have "distinct (map rv_reserve_pub (expired_reserves now db))"
    using assms(2) by (auto simp: closable_def reserves_ok_def expired_reserves_def distinct_map_filter)
  then have "length (filter (\<lambda>x. rv_reserve_pub x = rv_reserve_pub r) (expired_reserves now db)) = 1"
    using filter_pub_unique [OF _ assms(3)] by simp
  then show "length (expired_reserves now db) = Suc (length (expired_reserves now db'))"
    using sum_length_filter_compl [of "\<lambda>x. rv_reserve_pub x = rv_reserve_pub r" "expired_reserves now db"]
    by (simp add: closed_not_expired [OF assms(1)])
qed (use assms(3) closed_not_expired [OF assms(1), of now] in auto)

section \<open>The process\<close>

text \<open>The runs as the scheduler starts them, until the process shuts down\<close>

fun closer_process :: "closer \<Rightarrow> closer_inputs list \<Rightarrow> closer_state \<Rightarrow> tables session \<Rightarrow> (closer_state \<times> tables session) option" where
  "closer_process cl [] cs s = Some (cs, s)"
| "closer_process cl (ci # cis) cs s = do {
     ((task, cs), s) \<leftarrow> run_reserve_closures cl ci cs s;
     case task of Shutdown _ \<Rightarrow> Some (cs, s) | _ \<Rightarrow> closer_process cl cis cs s
   }"

text \<open>What is reached: the expired reserves are closed, each once, and the others are as they were.\<close>

definition all_closed :: "abs_time \<Rightarrow> tables \<Rightarrow> tables \<Rightarrow> bool" where
  "all_closed now db db' \<longleftrightarrow> expired_reserves now db' = []
     \<and> closed_count db' = closed_count db + length (expired_reserves now db)
     \<and> (\<forall>p. reserve_net db' p = (if p \<in> rv_reserve_pub ` set (expired_reserves now db) then 0 else reserve_net db p))"

lemma all_closed_refl: "expired_reserves now db = [] \<Longrightarrow> all_closed now db db"
  by (simp add: all_closed_def)

lemma all_closed_step:
  assumes r: "closes_reserve cl ci accounts r db db1" "closable db" "r \<in> set (expired_reserves now db)"
    and n: "closed_count db1 = Suc (closed_count db)" and "all_closed now db1 db'"
  shows "all_closed now db db'"
proof -
  have "\<forall>p. reserve_net db1 p = (if p = rv_reserve_pub r then 0 else reserve_net db p)"
    using r(1) unfolding closes_reserve_def by blast
  then show ?thesis using assms(5) closed_count_expired [OF r] n by (auto simp: all_closed_def)
qed

lemma closer_process_completes:
  assumes cl: "closer_ok cl" "unit_ok cl" and cs: "closer_accounts_ok cl cs"
  shows "closable (s_committed s) \<Longrightarrow> idle s \<Longrightarrow> clean s \<Longrightarrow> \<forall>ci\<in>set cis. GNUNET_TIME_round_abs (cl_gnunet cl) (ci_now ci) = now \<Longrightarrow>
     \<forall>r\<in>set (expired_reserves now (s_committed s)). refundable cl cs r \<Longrightarrow> length (expired_reserves now (s_committed s)) \<le> length cis \<Longrightarrow>
     \<exists>s'. closer_process cl cis cs s = Some (cs, s') \<and> idle s' \<and> all_closed now (s_committed s) (s_committed s')"
proof (induction cis arbitrary: s)
  case (Cons ci cis)
  have now: "GNUNET_TIME_round_abs (cl_gnunet cl) (ci_now ci) = now" using Cons.prems(4) by simp
  show ?case
  proof (rule expired_reserves_cases [OF Cons.prems(1), of now])
    assume "sql_get_expired_reserves now (s_committed s) = []"
    then obtain task s1 where s1: "run_reserve_closures cl ci cs s = Some ((task, cs), s1)" "clean s1" "idle s1" "s_committed s1 = s_committed s"
      using run_rests [OF cl(1) Cons.prems(2,3), of ci cs] now by auto
    then show ?thesis
      using Cons.IH [of s1] Cons.prems \<open>sql_get_expired_reserves now (s_committed s) = []\<close> all_closed_refl [of now "s_committed s"]
      by (cases task) auto
  next
    fix r assume r: "sql_get_expired_reserves now (s_committed s) = [r]"
    have mem: "r \<in> set (expired_reserves now (s_committed s))" using get_expired_mem [OF r] .
    obtain s1 where s1: "run_reserve_closures cl ci cs s = Some ((Run_now, cs), s1)" "clean s1"
      "closed_count (s_committed s1) = Suc (closed_count (s_committed s))"
      using run_closes [OF cl cs Cons.prems(1-3), of ci r] now r mem Cons.prems(5) by auto
    have "PQ_EXTRACT_FAIL \<notin> set (s_outcomes s)" using Cons.prems(3) by (simp add: clean_def)
    from run_reserve_closures_wp [OF cl(1) cs Cons.prems(1,2) this, of ci] s1(1,3) now r
    have e: "idle s1" "closes_reserve cl ci (cs_accounts cs) r (s_committed s) (s_committed s1)"
      by (auto simp: closure_ended_def)
    then have ok: "closable (s_committed s1)" unfolding closes_reserve_def by blast
    note n = closed_count_expired [OF e(2) Cons.prems(1) mem]
    obtain s' where "closer_process cl cis cs s1 = Some (cs, s')" "idle s'" "all_closed now (s_committed s1) (s_committed s')"
      using Cons.IH [OF ok e(1) s1(2)] Cons.prems(4-6) n by fastforce
    with all_closed_step [OF e(2) Cons.prems(1) mem s1(3)] s1(1) show ?thesis by simp
  qed
qed (simp add: all_closed_refl)

text \<open>C14. The process that closes reserves gets through: if nothing fails, and for every expired reserve that is not empty the account
  to pay with and its fees are configured, then after as many runs as there are such reserves all of them are closed, each
  exactly once, and what is in the other reserves has not changed.\<close>

theorem closer_completes:
  assumes "closer_ok cl" and "unit_ok cl" and "closer_accounts_ok cl cs" and "closable (s_committed s)" and "idle s" and "s_outcomes s = []"
    and "\<forall>ci\<in>set cis. GNUNET_TIME_round_abs (cl_gnunet cl) (ci_now ci) = now"
    and "\<forall>r\<in>set (expired_reserves now (s_committed s)). refundable cl cs r"
    and "length (expired_reserves now (s_committed s)) \<le> length cis"
  shows "\<exists>s'. closer_process cl cis cs s = Some (cs, s') \<and> idle s' \<and> all_closed now (s_committed s) (s_committed s')"
proof -
  have "clean s" using assms(5,6) by (simp add: clean_def idle_def)
  with closer_process_completes [OF assms(1-5)] assms(7-9) show ?thesis by blast
qed

lemma sample_expired: "expired_reserves 1000 sample_expired_db = t_reserves sample_expired_db"
  by (simp add: expired_reserves_def sample_expired_db_def)

theorem closer_completes_witness:
  "\<exists>s'. closer_process sample_closer [sample_closer_inputs, sample_closer_inputs] sample_closer_state (sample_idle sample_expired_db [])
       = Some (sample_closer_state, s')
     \<and> expired_reserves 1000 (s_committed s') = [] \<and> closed_count (s_committed s') = 1 \<and> reserve_net (s_committed s') 3 = 0"
proof -
  have "unit_ok sample_closer" using mk_amount_in_EUR [of 1000000 0]
    by (simp add: unit_ok_def sample_closer_def sample_ok)
  moreover have "refundable sample_closer sample_closer_state r" if "r \<in> set (t_reserves sample_expired_db)" for r
    using that by (simp add: refundable_def sample_closer_state_def sample_expired_db_def TALER_EXCHANGEDB_find_account_by_payto_uri_def
        TALER_payto_get_method_def has_prefix_nocase_def tolower_def sample_account_def strchr_def advance_fees_def sample_fee_def
        sample_closer_def sample_gnunet_def)
  moreover have "GNUNET_TIME_round_abs (cl_gnunet sample_closer) (ci_now sample_closer_inputs) = 1000"
    by (simp add: sample_closer_def sample_closer_inputs_def sample_gnunet_def)
  moreover have "length (t_reserves sample_expired_db) = 1" by (simp add: sample_expired_db_def)
  ultimately obtain s' where s': "closer_process sample_closer [sample_closer_inputs, sample_closer_inputs] sample_closer_state
      (sample_idle sample_expired_db []) = Some (sample_closer_state, s')" "all_closed 1000 sample_expired_db (s_committed s')"
    using closer_completes [OF sample_closer_ok(1) _ sample_closer_ok(2), of "sample_idle sample_expired_db []"
        "[sample_closer_inputs, sample_closer_inputs]" 1000] sample_closer_ok(3)
    by (auto simp: sample_expired)
  have "rv_reserve_pub ` set (t_reserves sample_expired_db) = {3}" "closed_count sample_expired_db = 0" "length (t_reserves sample_expired_db) = 1"
    by (simp_all add: sample_expired_db_def sample_db_def)
  with s' show ?thesis by (simp add: all_closed_def sample_expired)
qed

end
