(* ===== verification/Client_History.thy ===== *)
theory Client_History
  imports Responses Amount_Text Wallet_Refresh
begin

text \<open>
  \<^verbatim>\<open>src/lib/exchange_api_common.c\<close>: how a client checks the histories of coins and reserves that the exchange sends when funds are
  insufficient. The objects are those that \<^verbatim>\<open>json_pack\<close> makes in \<^verbatim>\<open>taler-exchange-httpd_responses.c\<close>, with their keys; the encoding of
  fixed-size data and of times as text is a matter of the GNUnet library, so they are values of their own.
\<close>

section \<open>Objects\<close>

datatype json = J_string string | J_time abs_time | J_data nat | J_integer u64

type_synonym json_object = "(string \<times> json) list"

definition TALER_JSON_from_amount :: "TALER_Amount \<Rightarrow> json option" where
  "TALER_JSON_from_amount amount = do {
     amount_str \<leftarrow> TALER_amount_to_string amount;
     Some (J_string amount_str)
   }"

fun pack_coin_entry :: "coin_json \<Rightarrow> json_object option" where
  "pack_coin_entry (J_DEPOSIT amount_with_fee deposit_fee timestamp refund_deadline merchant_pub h_contract_terms h_wire csig) = do {
     amount \<leftarrow> TALER_JSON_from_amount amount_with_fee;
     fee \<leftarrow> TALER_JSON_from_amount deposit_fee;
     Some [(''type'', J_string ''DEPOSIT''), (''amount'', amount), (''deposit_fee'', fee), (''timestamp'', J_time timestamp),
           (''refund_deadline'', J_time refund_deadline), (''merchant_pub'', J_data merchant_pub),
           (''h_contract_terms'', J_data h_contract_terms), (''h_wire'', J_data h_wire), (''coin_sig'', J_data csig)]
   }"
| "pack_coin_entry (J_MELT amount_with_fee melt_fee rc coin_sig) = do {
     amount \<leftarrow> TALER_JSON_from_amount amount_with_fee;
     fee \<leftarrow> TALER_JSON_from_amount melt_fee;
     Some [(''type'', J_string ''MELT''), (''amount'', amount), (''melt_fee'', fee), (''rc'', J_data rc), (''coin_sig'', J_data coin_sig)]
   }"
| "pack_coin_entry (J_REFUND value refund_fee h_contract_terms merchant_pub rtransaction_id merchant_sig) = do {
     amount \<leftarrow> TALER_JSON_from_amount value;
     fee \<leftarrow> TALER_JSON_from_amount refund_fee;
     Some [(''type'', J_string ''REFUND''), (''amount'', amount), (''refund_fee'', fee), (''h_contract_terms'', J_data h_contract_terms),
           (''merchant_pub'', J_data merchant_pub), (''rtransaction_id'', J_integer rtransaction_id), (''merchant_sig'', J_data merchant_sig)]
   }"
| "pack_coin_entry (J_OLD_COIN_RECOUP value esig epub coin timestamp) = do {
     amount \<leftarrow> TALER_JSON_from_amount value;
     Some [(''type'', J_string ''OLD-COIN-RECOUP''), (''amount'', amount), (''exchange_sig'', J_data esig), (''exchange_pub'', J_data epub),
           (''coin_pub'', J_data coin), (''timestamp'', J_time timestamp)]
   }"
| "pack_coin_entry (J_COIN_RECOUP value esig epub reserve timestamp) = do {
     amount \<leftarrow> TALER_JSON_from_amount value;
     Some [(''type'', J_string ''RECOUP''), (''amount'', amount), (''exchange_sig'', J_data esig), (''exchange_pub'', J_data epub),
           (''reserve_pub'', J_data reserve), (''timestamp'', J_time timestamp)]
   }"
| "pack_coin_entry (J_RECOUP_REFRESH value esig epub old_coin_pub timestamp) = do {
     amount \<leftarrow> TALER_JSON_from_amount value;
     Some [(''type'', J_string ''RECOUP-REFRESH''), (''amount'', amount), (''exchange_sig'', J_data esig), (''exchange_pub'', J_data epub),
           (''old_coin_pub'', J_data old_coin_pub), (''timestamp'', J_time timestamp)]
   }"

fun pack_reserve_entry :: "reserve_json \<Rightarrow> json_object option" where
  "pack_reserve_entry (J_CREDIT execution_date sender_account_details wire_reference value) = do {
     amount \<leftarrow> TALER_JSON_from_amount value;
     Some [(''type'', J_string ''CREDIT''), (''timestamp'', J_time execution_date), (''sender_account_url'', J_string sender_account_details),
           (''wire_reference'', J_data (unat wire_reference)), (''amount'', amount)]
   }"
| "pack_reserve_entry (J_WITHDRAW reserve_sig h_coin_envelope denom_pub_hash withdraw_fee value) = do {
     fee \<leftarrow> TALER_JSON_from_amount withdraw_fee;
     amount \<leftarrow> TALER_JSON_from_amount value;
     Some [(''type'', J_string ''WITHDRAW''), (''reserve_sig'', J_data reserve_sig), (''h_coin_envelope'', J_data h_coin_envelope),
           (''h_denom_pub'', J_data denom_pub_hash), (''withdraw_fee'', fee), (''amount'', amount)]
   }"
| "pack_reserve_entry (J_RESERVE_RECOUP exchange_pub exchange_sig timestamp value coin) = do {
     amount \<leftarrow> TALER_JSON_from_amount value;
     Some [(''type'', J_string ''RECOUP''), (''exchange_pub'', J_data exchange_pub), (''exchange_sig'', J_data exchange_sig),
           (''timestamp'', J_time timestamp), (''amount'', amount), (''coin_pub'', J_data coin)]
   }"
| "pack_reserve_entry (J_CLOSING receiver_account_details wtid exchange_pub exchange_sig execution_date value closing_fee) = do {
     amount \<leftarrow> TALER_JSON_from_amount value;
     fee \<leftarrow> TALER_JSON_from_amount closing_fee;
     Some [(''type'', J_string ''CLOSING''), (''receiver_account_details'', J_string receiver_account_details), (''wtid'', J_data wtid),
           (''exchange_pub'', J_data exchange_pub), (''exchange_sig'', J_data exchange_sig), (''timestamp'', J_time execution_date),
           (''amount'', amount), (''closing_fee'', fee)]
   }"

text \<open>The array. (The objects are packed one by one while the history is compiled; if one cannot be, the process aborts or the reply
  is an error, without any other effect.)\<close>

fun pack_all :: "('a \<Rightarrow> json_object option) \<Rightarrow> 'a list \<Rightarrow> json_object list option" where
  "pack_all f [] = Some []"
| "pack_all f (x # xs) = do {
     y \<leftarrow> f x;
     ys \<leftarrow> pack_all f xs;
     Some (y # ys)
   }"

section \<open>Parsing\<close>

text \<open>What \<^verbatim>\<open>GNUNET_JSON_parse\<close> finds for the field of a specification, and of what type it has to be\<close>

definition spec_string :: "json_object \<Rightarrow> string \<Rightarrow> string option" where
  "spec_string transaction name = (case map_of transaction name of Some (J_string s) \<Rightarrow> Some s | _ \<Rightarrow> None)"

definition spec_data :: "json_object \<Rightarrow> string \<Rightarrow> nat option" where
  "spec_data transaction name = (case map_of transaction name of Some (J_data d) \<Rightarrow> Some d | _ \<Rightarrow> None)"

definition spec_time :: "json_object \<Rightarrow> string \<Rightarrow> abs_time option" where
  "spec_time transaction name = (case map_of transaction name of Some (J_time t) \<Rightarrow> Some t | _ \<Rightarrow> None)"

definition spec_uint64 :: "json_object \<Rightarrow> string \<Rightarrow> u64 option" where
  "spec_uint64 transaction name = (case map_of transaction name of Some (J_integer i) \<Rightarrow> Some i | _ \<Rightarrow> None)"

definition parse_amount :: "json_object \<Rightarrow> string \<Rightarrow> TALER_Amount option" where
  "parse_amount transaction name = (case spec_string transaction name of
      None \<Rightarrow> None
    | Some s \<Rightarrow> (let (r, amount) = TALER_string_to_amount s in if r \<noteq> GNUNET_OK then None else Some amount))"

definition parse_amount_nbo :: "crypto \<Rightarrow> json_object \<Rightarrow> string \<Rightarrow> TALER_AmountNBO option option" where
  "parse_amount_nbo cr transaction name = (case spec_string transaction name of
      None \<Rightarrow> Some None
    | Some s \<Rightarrow> do {
        (r, amount) \<leftarrow> TALER_string_to_amount_nbo (GNUNET_htonll cr) s \<lparr>nbo_value = 0, nbo_fraction = 0, nbo_currency = []\<rparr>;
        Some (if r \<noteq> GNUNET_OK then None else Some amount)
      })"

text \<open>The outer option of a result is the abort of the process, the inner one \<^verbatim>\<open>GNUNET_SYSERR\<close>.\<close>

definition or_syserr :: "'a option \<Rightarrow> ('a \<Rightarrow> 'b option option) \<Rightarrow> 'b option option" where
  "or_syserr x f = (case x of None \<Rightarrow> Some None | Some y \<Rightarrow> f y)"

lemma or_syserr_simps [simp]: "or_syserr None f = Some None" "or_syserr (Some x) f = f x"
  by (simp_all add: or_syserr_def)

section \<open>Keys of the exchange\<close>

record TALER_EXCHANGE_SigningPublicKey =
  spk_key :: pub_key
  spk_valid_from :: abs_time
  spk_valid_until :: abs_time

record TALER_EXCHANGE_Keys =
  ek_sign_keys :: "TALER_EXCHANGE_SigningPublicKey list"
  ek_denom_keys :: "TALER_EXCHANGE_DenomPublicKey list"

text \<open>With a tolerance of one hour; the differences are unsigned.\<close>

definition TALER_EXCHANGE_test_signing_key :: "abs_time \<Rightarrow> TALER_EXCHANGE_Keys \<Rightarrow> pub_key \<Rightarrow> int" where
  "TALER_EXCHANGE_test_signing_key now keys pub =
     (if \<exists>k\<in>set (ek_sign_keys keys). spk_valid_from k \<le> now + 3600000000 \<and> spk_valid_until k > now - 3600000000 \<and> pub = spk_key k
      then GNUNET_OK else GNUNET_SYSERR)"

definition TALER_EXCHANGE_get_denomination_key_by_hash :: "TALER_EXCHANGE_Keys \<Rightarrow> hash_code \<Rightarrow> TALER_EXCHANGE_DenomPublicKey option" where
  "TALER_EXCHANGE_get_denomination_key_by_hash keys hc = find (\<lambda>k. hc = dpk_h_key k) (ek_denom_keys keys)"

text \<open>Is the fee the one expected?\<close>

definition fee_expected :: "crypto \<Rightarrow> TALER_AmountNBO \<Rightarrow> TALER_Amount \<Rightarrow> (bool \<times> TALER_Amount) option" where
  "fee_expected cr fee_nbo expected = do {
     fee \<leftarrow> TALER_amount_ntoh (GNUNET_ntohll cr) fee_nbo;
     if TALER_amount_cmp_currency fee expected \<noteq> GNUNET_YES then Some (False, fee)
     else do {
       c \<leftarrow> TALER_amount_cmp fee expected;
       Some (c = 0, fee)
     }
   }"

definition check_fee :: "crypto \<Rightarrow> TALER_AmountNBO \<Rightarrow> TALER_Amount option \<Rightarrow> int \<Rightarrow> int option option" where
  "check_fee cr fee_nbo expected add = (case expected of
      None \<Rightarrow> Some (Some add)
    | Some expected \<Rightarrow> do {
        (ok, _) \<leftarrow> fee_expected cr fee_nbo expected;
        Some (if ok then Some add else None)
      })"

section \<open>The history of a coin\<close>

text \<open>The branches of the loop yield \<^verbatim>\<open>add\<close>: whether the amount is added to or subtracted from the total.\<close>

definition verify_deposit :: "crypto \<Rightarrow> TALER_EXCHANGE_DenomPublicKey option \<Rightarrow> pub_key \<Rightarrow> json_object \<Rightarrow> TALER_Amount \<Rightarrow> int option option" where
  "verify_deposit cr dk coin transaction amount =
     or_syserr (spec_data transaction ''coin_sig'') (\<lambda>sig.
     or_syserr (spec_data transaction ''h_contract_terms'') (\<lambda>h_contract_terms.
     or_syserr (spec_data transaction ''h_wire'') (\<lambda>h_wire.
     or_syserr (spec_time transaction ''timestamp'') (\<lambda>timestamp.
     or_syserr (spec_time transaction ''refund_deadline'') (\<lambda>refund_deadline. do {
       fee \<leftarrow> parse_amount_nbo cr transaction ''deposit_fee'';
       or_syserr fee (\<lambda>deposit_fee.
       or_syserr (spec_data transaction ''merchant_pub'') (\<lambda>merchant. do {
         amount_with_fee \<leftarrow> TALER_amount_hton (GNUNET_htonll cr) amount;
         let dr = TALER_DepositRequestPS h_contract_terms h_wire timestamp refund_deadline amount_with_fee deposit_fee merchant coin;
         if \<not> GNUNET_CRYPTO_eddsa_verify cr dr sig coin then Some None
         else check_fee cr deposit_fee (map_option dpk_fee_deposit dk) GNUNET_YES
       }))
     })))))"

definition verify_melt :: "crypto \<Rightarrow> TALER_EXCHANGE_DenomPublicKey option \<Rightarrow> pub_key \<Rightarrow> json_object \<Rightarrow> TALER_Amount \<Rightarrow> int option option" where
  "verify_melt cr dk coin transaction amount =
     or_syserr (spec_data transaction ''coin_sig'') (\<lambda>sig.
     or_syserr (spec_data transaction ''rc'') (\<lambda>rc. do {
       fee \<leftarrow> parse_amount_nbo cr transaction ''melt_fee'';
       or_syserr fee (\<lambda>melt_fee. do {
         amount_with_fee \<leftarrow> TALER_amount_hton (GNUNET_htonll cr) amount;
         let rm = TALER_RefreshMeltCoinAffirmationPS rc amount_with_fee melt_fee coin;
         if \<not> GNUNET_CRYPTO_eddsa_verify cr rm sig coin then Some None
         else check_fee cr melt_fee (map_option dpk_fee_refresh dk) GNUNET_YES
       })
     }))"

text \<open>The number of the refund transaction is parsed in host byte order into a field that is in network byte order. The messages here have
  numbers in host byte order, so the number that is checked is the one with its bytes swapped.\<close>

definition verify_refund :: "crypto \<Rightarrow> TALER_EXCHANGE_DenomPublicKey option \<Rightarrow> pub_key \<Rightarrow> json_object \<Rightarrow> TALER_Amount \<Rightarrow> int option option" where
  "verify_refund cr dk coin transaction amount =
     or_syserr (spec_data transaction ''merchant_sig'') (\<lambda>sig.
     or_syserr (spec_data transaction ''h_contract_terms'') (\<lambda>h_contract_terms.
     or_syserr (spec_data transaction ''merchant_pub'') (\<lambda>merchant.
     or_syserr (spec_uint64 transaction ''rtransaction_id'') (\<lambda>rtransaction_id. do {
       fee \<leftarrow> parse_amount_nbo cr transaction ''refund_fee'';
       or_syserr fee (\<lambda>refund_fee. do {
         refund_amount \<leftarrow> TALER_amount_hton (GNUNET_htonll cr) amount;
         let rr = TALER_RefundRequestPS h_contract_terms coin merchant (GNUNET_ntohll cr rtransaction_id) refund_amount refund_fee;
         if \<not> GNUNET_CRYPTO_eddsa_verify cr rr sig merchant then Some None
         else check_fee cr refund_fee (map_option dpk_fee_refund dk) GNUNET_NO
       })
     }))))"

definition verify_recoup :: "crypto \<Rightarrow> pub_key \<Rightarrow> json_object \<Rightarrow> TALER_Amount \<Rightarrow> int option option" where
  "verify_recoup cr coin transaction amount =
     or_syserr (spec_data transaction ''exchange_sig'') (\<lambda>exchange_sig.
     or_syserr (spec_data transaction ''exchange_pub'') (\<lambda>exchange_pub.
     or_syserr (spec_data transaction ''reserve_pub'') (\<lambda>reserve.
     or_syserr (spec_time transaction ''timestamp'') (\<lambda>timestamp. do {
       recoup_amount \<leftarrow> TALER_amount_hton (GNUNET_htonll cr) amount;
       let pc = TALER_RecoupConfirmationPS timestamp recoup_amount coin reserve;
       Some (if \<not> GNUNET_CRYPTO_eddsa_verify cr pc exchange_sig exchange_pub then None else Some GNUNET_YES)
     }))))"

definition verify_coin_entry ::
    "crypto \<Rightarrow> TALER_EXCHANGE_DenomPublicKey option \<Rightarrow> pub_key \<Rightarrow> json_object \<Rightarrow> TALER_Amount \<times> TALER_Amount
       \<Rightarrow> (TALER_Amount \<times> TALER_Amount) option option" where
  "verify_coin_entry cr dk coin transaction = (\<lambda>(total, rtotal).
     or_syserr (parse_amount transaction ''amount'') (\<lambda>amount.
     or_syserr (spec_string transaction ''type'') (\<lambda>type.
       if TALER_amount_cmp_currency amount rtotal \<noteq> GNUNET_YES then Some None
       else do {
         add \<leftarrow> (if strcasecmp_eq type ''DEPOSIT'' then verify_deposit cr dk coin transaction amount
                 else if strcasecmp_eq type ''MELT'' then verify_melt cr dk coin transaction amount
                 else if strcasecmp_eq type ''REFUND'' then verify_refund cr dk coin transaction amount
                 else if strcasecmp_eq type ''RECOUP'' then verify_recoup cr coin transaction amount
                 else Some None);
         or_syserr add (\<lambda>add.
           if add = GNUNET_YES
           then do {
             (r, total) \<leftarrow> TALER_amount_add total amount;
             Some (if 0 > r then None else Some (total, rtotal))
           }
           else do {
             (r, rtotal) \<leftarrow> TALER_amount_add rtotal amount;
             Some (if 0 > r then None else Some (total, rtotal))
           })
       })))"

fun verify_coin_loop ::
    "crypto \<Rightarrow> TALER_EXCHANGE_DenomPublicKey option \<Rightarrow> pub_key \<Rightarrow> json_object list \<Rightarrow> TALER_Amount \<times> TALER_Amount
       \<Rightarrow> (TALER_Amount \<times> TALER_Amount) option option" where
  "verify_coin_loop cr dk coin [] t = Some (Some t)"
| "verify_coin_loop cr dk coin (transaction # history) t = do {
     t \<leftarrow> verify_coin_entry cr dk coin transaction t;
     or_syserr t (verify_coin_loop cr dk coin history)
   }"

definition TALER_EXCHANGE_verify_coin_history ::
    "crypto \<Rightarrow> TALER_EXCHANGE_DenomPublicKey option \<Rightarrow> string \<Rightarrow> pub_key \<Rightarrow> json_object list option \<Rightarrow> TALER_Amount option option" where
  "TALER_EXCHANGE_verify_coin_history cr dk currency coin history =
     or_syserr history (\<lambda>history.
       if history = [] then Some None
       else do {
         let (r, total) = TALER_amount_get_zero currency invalidate;
         GNUNET_assert (r = GNUNET_OK);
         let (r, rtotal) = TALER_amount_get_zero currency invalidate;
         GNUNET_assert (r = GNUNET_OK);
         t \<leftarrow> verify_coin_loop cr dk coin history (total, rtotal);
         or_syserr t (\<lambda>(total, rtotal). do {
           (r, total) \<leftarrow> TALER_amount_subtract total total rtotal;
           Some (if 0 > r then None else Some total)
         })
       })"

section \<open>The history of a reserve\<close>

datatype TALER_EXCHANGE_ReserveHistory =
    TALER_EXCHANGE_RTT_CREDIT TALER_Amount string nat abs_time
  | TALER_EXCHANGE_RTT_WITHDRAWAL TALER_Amount TALER_Amount "json option"
  | TALER_EXCHANGE_RTT_RECOUP TALER_Amount pub_key signature pub_key abs_time
  | TALER_EXCHANGE_RTT_CLOSE TALER_Amount string nat signature pub_key TALER_Amount abs_time

record reserve_parse =
  rp_total_in :: TALER_Amount
  rp_total_out :: TALER_Amount
  rp_uuid :: "hash_code list"

definition add_to_in :: "reserve_parse \<Rightarrow> TALER_Amount \<Rightarrow> TALER_EXCHANGE_ReserveHistory \<Rightarrow> (TALER_EXCHANGE_ReserveHistory \<times> reserve_parse) option option" where
  "add_to_in p amount rh = do {
     (r, total_in) \<leftarrow> TALER_amount_add (rp_total_in p) amount;
     Some (if 0 > r then None else Some (rh, p\<lparr>rp_total_in := total_in\<rparr>))
   }"

definition add_to_out :: "reserve_parse \<Rightarrow> TALER_Amount \<Rightarrow> TALER_EXCHANGE_ReserveHistory \<Rightarrow> (TALER_EXCHANGE_ReserveHistory \<times> reserve_parse) option option" where
  "add_to_out p amount rh = do {
     (r, total_out) \<leftarrow> TALER_amount_add (rp_total_out p) amount;
     Some (if 0 > r then None else Some (rh, p\<lparr>rp_total_out := total_out\<rparr>))
   }"

text \<open>The amount is added before the object is parsed further.\<close>

definition parse_credit ::
    "json_object \<Rightarrow> TALER_Amount \<Rightarrow> reserve_parse \<Rightarrow> (TALER_EXCHANGE_ReserveHistory \<times> reserve_parse) option option" where
  "parse_credit transaction amount p = do {
     (r, total_in) \<leftarrow> TALER_amount_add (rp_total_in p) amount;
     if 0 > r then Some None
     else
       or_syserr (spec_data transaction ''wire_reference'') (\<lambda>wire_reference.
       or_syserr (spec_time transaction ''timestamp'') (\<lambda>timestamp.
       or_syserr (spec_string transaction ''sender_account_url'') (\<lambda>wire_url.
         Some (Some (TALER_EXCHANGE_RTT_CREDIT amount wire_url wire_reference timestamp, p\<lparr>rp_total_in := total_in\<rparr>)))))
   }"

text \<open>The key of the denomination is used without a test that it was found: an unknown denomination is the abort of the process here.
  What is kept as the signature is looked up under a key that the exchange does not use.\<close>

definition parse_withdraw ::
    "crypto \<Rightarrow> (signed_message \<Rightarrow> hash_code) \<Rightarrow> TALER_EXCHANGE_Keys \<Rightarrow> pub_key \<Rightarrow> json_object \<Rightarrow> TALER_Amount \<Rightarrow> reserve_parse
       \<Rightarrow> (TALER_EXCHANGE_ReserveHistory \<times> reserve_parse) option option" where
  "parse_withdraw cr GNUNET_CRYPTO_hash key_state reserve transaction amount p =
     or_syserr (spec_data transaction ''reserve_sig'') (\<lambda>sig. do {
       fee \<leftarrow> parse_amount_nbo cr transaction ''withdraw_fee'';
       or_syserr fee (\<lambda>withdraw_fee.
       or_syserr (spec_data transaction ''h_denom_pub'') (\<lambda>h_denomination_pub.
       or_syserr (spec_data transaction ''h_coin_envelope'') (\<lambda>h_coin_envelope. do {
         amount_with_fee \<leftarrow> TALER_amount_hton (GNUNET_htonll cr) amount;
         let withdraw_purpose = TALER_WithdrawRequestPS reserve amount_with_fee withdraw_fee h_denomination_pub h_coin_envelope;
         if \<not> GNUNET_CRYPTO_eddsa_verify cr withdraw_purpose sig reserve then Some None
         else do {
           dki \<leftarrow> TALER_EXCHANGE_get_denomination_key_by_hash key_state h_denomination_pub;
           (ok, fee) \<leftarrow> fee_expected cr withdraw_fee (dpk_fee_withdraw dki);
           if \<not> ok then Some None
           else do {
             let uuid = GNUNET_CRYPTO_hash withdraw_purpose;
             if uuid \<in> set (rp_uuid p) then Some None
             else add_to_out (p\<lparr>rp_uuid := rp_uuid p @ [uuid]\<rparr>) amount
                    (TALER_EXCHANGE_RTT_WITHDRAWAL amount fee (map_of transaction ''signature''))
           }
         }
       })))
     })"

definition parse_recoup ::
    "crypto \<Rightarrow> abs_time \<Rightarrow> TALER_EXCHANGE_Keys \<Rightarrow> pub_key \<Rightarrow> json_object \<Rightarrow> TALER_Amount \<Rightarrow> reserve_parse
       \<Rightarrow> (TALER_EXCHANGE_ReserveHistory \<times> reserve_parse) option option" where
  "parse_recoup cr now key_state reserve transaction amount p =
     or_syserr (spec_data transaction ''coin_pub'') (\<lambda>coin.
     or_syserr (spec_data transaction ''exchange_sig'') (\<lambda>exchange_sig.
     or_syserr (spec_data transaction ''exchange_pub'') (\<lambda>exchange_pub.
     or_syserr (spec_time transaction ''timestamp'') (\<lambda>timestamp. do {
       recoup_amount \<leftarrow> TALER_amount_hton (GNUNET_htonll cr) amount;
       let pc = TALER_RecoupConfirmationPS timestamp recoup_amount coin reserve;
       if TALER_EXCHANGE_test_signing_key now key_state exchange_pub \<noteq> GNUNET_OK then Some None
       else if \<not> GNUNET_CRYPTO_eddsa_verify cr pc exchange_sig exchange_pub then Some None
       else add_to_in p amount (TALER_EXCHANGE_RTT_RECOUP amount coin exchange_sig exchange_pub timestamp)
     }))))"

definition parse_closing ::
    "crypto \<Rightarrow> abs_time \<Rightarrow> TALER_EXCHANGE_Keys \<Rightarrow> pub_key \<Rightarrow> json_object \<Rightarrow> TALER_Amount \<Rightarrow> reserve_parse
       \<Rightarrow> (TALER_EXCHANGE_ReserveHistory \<times> reserve_parse) option option" where
  "parse_closing cr now key_state reserve transaction amount p =
     or_syserr (spec_string transaction ''receiver_account_details'') (\<lambda>receiver_account_details.
     or_syserr (spec_data transaction ''wtid'') (\<lambda>wtid.
     or_syserr (spec_data transaction ''exchange_sig'') (\<lambda>exchange_sig.
     or_syserr (spec_data transaction ''exchange_pub'') (\<lambda>exchange_pub. do {
       fee \<leftarrow> parse_amount_nbo cr transaction ''closing_fee'';
       or_syserr fee (\<lambda>closing_fee.
       or_syserr (spec_time transaction ''timestamp'') (\<lambda>timestamp. do {
         closing_amount \<leftarrow> TALER_amount_hton (GNUNET_htonll cr) amount;
         let rcc = TALER_ReserveCloseConfirmationPS timestamp closing_amount closing_fee reserve
                     (GNUNET_CRYPTO_hash_data cr (receiver_account_details @ [NUL])) wtid;
         fee \<leftarrow> TALER_amount_ntoh (GNUNET_ntohll cr) closing_fee;
         if TALER_EXCHANGE_test_signing_key now key_state exchange_pub \<noteq> GNUNET_OK then Some None
         else if \<not> GNUNET_CRYPTO_eddsa_verify cr rcc exchange_sig exchange_pub then Some None
         else add_to_out p amount (TALER_EXCHANGE_RTT_CLOSE amount receiver_account_details wtid exchange_sig exchange_pub fee timestamp)
       }))
     }))))"

definition parse_reserve_entry ::
    "crypto \<Rightarrow> (signed_message \<Rightarrow> hash_code) \<Rightarrow> abs_time \<Rightarrow> TALER_EXCHANGE_Keys \<Rightarrow> pub_key \<Rightarrow> json_object \<Rightarrow> reserve_parse
       \<Rightarrow> (TALER_EXCHANGE_ReserveHistory \<times> reserve_parse) option option" where
  "parse_reserve_entry cr GNUNET_CRYPTO_hash now keys reserve transaction p =
     or_syserr (spec_string transaction ''type'') (\<lambda>type.
     or_syserr (parse_amount transaction ''amount'') (\<lambda>amount.
       if TALER_amount_cmp_currency amount (rp_total_in p) \<noteq> GNUNET_YES then Some None
       else if strcasecmp_eq type ''CREDIT'' then parse_credit transaction amount p
       else if strcasecmp_eq type ''WITHDRAW'' then parse_withdraw cr GNUNET_CRYPTO_hash keys reserve transaction amount p
       else if strcasecmp_eq type ''RECOUP'' then parse_recoup cr now keys reserve transaction amount p
       else if strcasecmp_eq type ''CLOSING'' then parse_closing cr now keys reserve transaction amount p
       else Some None))"

fun parse_reserve_loop ::
    "crypto \<Rightarrow> (signed_message \<Rightarrow> hash_code) \<Rightarrow> abs_time \<Rightarrow> TALER_EXCHANGE_Keys \<Rightarrow> pub_key \<Rightarrow> json_object list \<Rightarrow> reserve_parse
       \<Rightarrow> (TALER_EXCHANGE_ReserveHistory list \<times> reserve_parse) option option" where
  "parse_reserve_loop cr GNUNET_CRYPTO_hash now keys reserve [] p = Some (Some ([], p))"
| "parse_reserve_loop cr GNUNET_CRYPTO_hash now keys reserve (transaction # history) p = do {
     e \<leftarrow> parse_reserve_entry cr GNUNET_CRYPTO_hash now keys reserve transaction p;
     or_syserr e (\<lambda>(rh, p). do {
       rest \<leftarrow> parse_reserve_loop cr GNUNET_CRYPTO_hash now keys reserve history p;
       Some (map_option (\<lambda>(rhs, p). (rh # rhs, p)) rest)
     })
   }"

definition TALER_EXCHANGE_parse_reserve_history ::
    "crypto \<Rightarrow> (signed_message \<Rightarrow> hash_code) \<Rightarrow> abs_time \<Rightarrow> TALER_EXCHANGE_Keys \<Rightarrow> json_object list \<Rightarrow> pub_key \<Rightarrow> string
       \<Rightarrow> (TALER_Amount \<times> TALER_EXCHANGE_ReserveHistory list) option option" where
  "TALER_EXCHANGE_parse_reserve_history cr GNUNET_CRYPTO_hash now keys history reserve currency = do {
     let (r, total_in) = TALER_amount_get_zero currency invalidate;
     GNUNET_assert (r = GNUNET_OK);
     let (r, total_out) = TALER_amount_get_zero currency invalidate;
     GNUNET_assert (r = GNUNET_OK);
     rest \<leftarrow> parse_reserve_loop cr GNUNET_CRYPTO_hash now keys reserve history
              \<lparr>rp_total_in = total_in, rp_total_out = total_out, rp_uuid = []\<rparr>;
     or_syserr rest (\<lambda>(rhistory, p). do {
       (r, balance) \<leftarrow> TALER_amount_subtract invalidate (rp_total_in p) (rp_total_out p);
       Some (if 0 > r then None else Some (balance, rhistory))
     })
   }"

section \<open>Amounts on the wire\<close>

text \<open>An amount in currency \<open>c\<close> as the exchange has it: normalized, and the name of the currency is padded with zeros.\<close>

definition canonical :: "string \<Rightarrow> TALER_Amount \<Rightarrow> bool" where
  "canonical c a \<longleftrightarrow> amount_in c a \<and> amt_currency a = pad_currency c"

lemma canonical_in: "canonical c a \<Longrightarrow> amount_in c a"
  by (simp add: canonical_def)

lemma amount_text_parsed:
  assumes "currency_ok c" and "amount_in x a" and "cstr (amt_currency a) = c"
  obtains t where "TALER_amount_to_string a = Some t" and "TALER_string_to_amount t = (GNUNET_OK, mk_amount c (amt_value a) (amt_fraction a))"
proof -
  have n: "amount_normal a" "TALER_amount_is_valid a" using assms(2) by (simp_all add: amount_in_def amount_wf_def)
  have fr: "unat (amt_fraction a) < 100000000" using n(1) by (rule amount_normalD)
  let ?t = "amount_text c (print_llu (unat (amt_value a))) (amount_to_tail a)"
  have t: "TALER_amount_to_string a = Some ?t" using amount_to_string_normal [OF n(2) fr] assms(3) by simp
  have "TALER_string_to_amount ([] @ ?t) = (GNUNET_OK, mk_amount c (amt_value a) (amt_fraction a))"
    using string_to_amount_text [OF currency_ok_text [OF assms(1)], of "[]" "print_llu (unat (amt_value a))" "amount_to_tail a"]
      amount_to_tail [OF fr] amount_normal_value [OF n(1)] by simp
  with that t show ?thesis by simp
qed

lemma currency_cstr: "currency_ok c \<Longrightarrow> cstr c = c"
  by (auto simp: currency_ok_def cstr_def takeWhile_eq_all_conv)

lemma canonical_cstr: "currency_ok c \<Longrightarrow> canonical c a \<Longrightarrow> cstr (amt_currency a) = c"
  using currency_cstr by (simp add: canonical_def)

lemma canonical_text:
  assumes "currency_ok c" and "canonical c a"
  obtains t where "TALER_amount_to_string a = Some t" and "TALER_string_to_amount t = (GNUNET_OK, a)"
proof -
  have "mk_amount c (amt_value a) (amt_fraction a) = a"
    using assms(2) by (simp add: mk_amount_def canonical_def pad_currency_def)
  then show ?thesis
    using that amount_text_parsed [OF assms(1) canonical_in [OF assms(2)] canonical_cstr [OF assms]] by metis
qed

lemma canonical_json:
  assumes "currency_ok c" and "canonical c a"
  shows "TALER_JSON_from_amount a = Some (J_string (the (TALER_amount_to_string a)))"
    and "TALER_string_to_amount (the (TALER_amount_to_string a)) = (GNUNET_OK, a)"
  by (rule canonical_text [OF assms]; simp add: TALER_JSON_from_amount_def)+

text \<open>Cryptography as the client and the exchange rely on it\<close>

definition crypto_ok :: "crypto \<Rightarrow> bool" where
  "crypto_ok cr \<longleftrightarrow> (\<forall>x. GNUNET_ntohll cr (GNUNET_htonll cr x) = x)"

definition signs :: "crypto \<Rightarrow> TEH_KS_StateHandle \<Rightarrow> bool" where
  "signs cr ks \<longleftrightarrow> (\<forall>m. GNUNET_CRYPTO_eddsa_verify cr m (GNUNET_CRYPTO_eddsa_sign cr (signkey_priv ks) m) (signkey_pub ks))"

definition nbo :: "crypto \<Rightarrow> TALER_Amount \<Rightarrow> TALER_AmountNBO" where
  "nbo cr a = \<lparr>nbo_value = GNUNET_htonll cr (amt_value a), nbo_fraction = htonl (amt_fraction a), nbo_currency = amt_currency a\<rparr>"

lemma canonical_hton: "canonical c a \<Longrightarrow> TALER_amount_hton (GNUNET_htonll cr) a = Some (nbo cr a)"
  by (simp add: TALER_amount_hton_def nbo_def canonical_def amount_in_def amount_wf_def)

lemma canonical_ntoh:
  assumes "crypto_ok cr" and "canonical c a"
  shows "TALER_amount_ntoh (GNUNET_ntohll cr) (nbo cr a) = Some a"
proof -
  have "amt_currency a \<noteq> [] \<and> hd (amt_currency a) \<noteq> NUL"
    using canonical_in [OF assms(2)] by (simp add: amount_in_def amount_wf_def TALER_amount_is_valid_def)
  then show ?thesis
    using assms(1) by (simp add: TALER_amount_ntoh_def nbo_def crypto_ok_def TALER_amount_is_valid_def Let_def)
qed

lemma parse_amount_canonical:
  assumes "currency_ok c" and "canonical c a" and "map_of obj name = Some (J_string (the (TALER_amount_to_string a)))"
  shows "parse_amount obj name = Some a" "parse_amount_nbo cr obj name = Some (Some (nbo cr a))"
  using assms canonical_json(2) [OF assms(1,2)] canonical_hton [OF assms(2), of cr]
  by (simp_all add: parse_amount_def parse_amount_nbo_def spec_string_def TALER_string_to_amount_nbo_def)

lemma fee_expected_ok:
  assumes "crypto_ok cr" and "canonical c a" and "amount_in c b" and "amt a = amt b"
  shows "fee_expected cr (nbo cr a) b = Some (True, a)"
proof -
  have "TALER_amount_cmp_currency a b = GNUNET_YES" using canonical_in [OF assms(2)] assms(3) by simp
  moreover have "TALER_amount_cmp a b = Some 0" using canonical_in [OF assms(2)] assms(3,4) by simp
  ultimately show ?thesis
    using canonical_ntoh [OF assms(1,2)] by (simp add: fee_expected_def)
qed

lemma strcasecmp_types [simp]:
  "strcasecmp_eq ''DEPOSIT'' ''DEPOSIT''" "strcasecmp_eq ''MELT'' ''MELT''" "strcasecmp_eq ''REFUND'' ''REFUND''" "strcasecmp_eq ''RECOUP'' ''RECOUP''"
  "\<not> strcasecmp_eq ''MELT'' ''DEPOSIT''" "\<not> strcasecmp_eq ''REFUND'' ''DEPOSIT''" "\<not> strcasecmp_eq ''REFUND'' ''MELT''"
  "\<not> strcasecmp_eq ''RECOUP'' ''DEPOSIT''" "\<not> strcasecmp_eq ''RECOUP'' ''MELT''" "\<not> strcasecmp_eq ''RECOUP'' ''REFUND''"
  "\<not> strcasecmp_eq ''OLD-COIN-RECOUP'' ''DEPOSIT''" "\<not> strcasecmp_eq ''OLD-COIN-RECOUP'' ''MELT''"
  "\<not> strcasecmp_eq ''OLD-COIN-RECOUP'' ''REFUND''" "\<not> strcasecmp_eq ''OLD-COIN-RECOUP'' ''RECOUP''"
  "\<not> strcasecmp_eq ''RECOUP-REFRESH'' ''DEPOSIT''" "\<not> strcasecmp_eq ''RECOUP-REFRESH'' ''MELT''"
  "\<not> strcasecmp_eq ''RECOUP-REFRESH'' ''REFUND''" "\<not> strcasecmp_eq ''RECOUP-REFRESH'' ''RECOUP''"
  by (simp_all add: strcasecmp_eq_def cstr_def tolower_def)

section \<open>The history of a coin is accepted\<close>

fun tl_canonical :: "string \<Rightarrow> TALER_EXCHANGEDB_TransactionDetails \<Rightarrow> bool" where
  "tl_canonical c (TALER_EXCHANGEDB_TT_DEPOSIT d) \<longleftrightarrow> canonical c (dle_amount_with_fee d) \<and> canonical c (dle_deposit_fee d)"
| "tl_canonical c (TALER_EXCHANGEDB_TT_MELT m) \<longleftrightarrow> canonical c (mle_amount_with_fee m) \<and> canonical c (mle_melt_fee m)"
| "tl_canonical c (TALER_EXCHANGEDB_TT_REFUND d) \<longleftrightarrow> canonical c (rle_refund_amount d) \<and> canonical c (rle_refund_fee d)"
| "tl_canonical c (TALER_EXCHANGEDB_TT_OLD_COIN_RECOUP d) \<longleftrightarrow> canonical c (rrl_value d)"
| "tl_canonical c (TALER_EXCHANGEDB_TT_RECOUP d) \<longleftrightarrow> canonical c (recl_value d)"
| "tl_canonical c (TALER_EXCHANGEDB_TT_RECOUP_REFRESH d) \<longleftrightarrow> canonical c (rrl_value d)"

text \<open>What the client understands, with the fees that it expects\<close>

fun understood :: "string \<Rightarrow> TALER_EXCHANGE_DenomPublicKey option \<Rightarrow> TALER_EXCHANGEDB_TransactionDetails \<Rightarrow> bool" where
  "understood c dk (TALER_EXCHANGEDB_TT_DEPOSIT d) \<longleftrightarrow>
     (\<forall>k. dk = Some k \<longrightarrow> amount_in c (dpk_fee_deposit k) \<and> amt (dle_deposit_fee d) = amt (dpk_fee_deposit k))"
| "understood c dk (TALER_EXCHANGEDB_TT_MELT m) \<longleftrightarrow>
     (\<forall>k. dk = Some k \<longrightarrow> amount_in c (dpk_fee_refresh k) \<and> amt (mle_melt_fee m) = amt (dpk_fee_refresh k))"
| "understood c dk (TALER_EXCHANGEDB_TT_RECOUP d) \<longleftrightarrow> True"
| "understood c dk _ \<longleftrightarrow> False"

lemma check_fee_ok:
  assumes "crypto_ok cr" and "canonical c a" and "\<forall>b. x = Some b \<longrightarrow> amount_in c b \<and> amt a = amt b"
  shows "check_fee cr (nbo cr a) x add = Some (Some add)"
  using fee_expected_ok [OF assms(1,2)] assms(3) by (cases x) (auto simp: check_fee_def)

text \<open>The branches\<close>

lemma verify_branch:
  assumes cr: "crypto_ok cr" "signs cr ks" and c: "currency_ok c"
    and e: "tl_canonical c e" "understood c dk e" and j: "compile_coin_entry cr (Some ks) coin e = Some (Some j)"
  shows "\<exists>amount type obj. pack_coin_entry j = Some obj \<and> canonical c amount \<and> amt amount = tl_debit e \<and> parse_amount obj ''amount'' = Some amount
     \<and> spec_string obj ''type'' = Some type
     \<and> (if strcasecmp_eq type ''DEPOSIT'' then verify_deposit cr dk coin obj amount
        else if strcasecmp_eq type ''MELT'' then verify_melt cr dk coin obj amount
        else if strcasecmp_eq type ''REFUND'' then verify_refund cr dk coin obj amount
        else if strcasecmp_eq type ''RECOUP'' then verify_recoup cr coin obj amount
        else Some None) = Some (Some GNUNET_YES)"
proof (cases e)
  case (TALER_EXCHANGEDB_TT_DEPOSIT d)
  with e have a: "canonical c (dle_amount_with_fee d)" "canonical c (dle_deposit_fee d)" by simp_all
  from TALER_EXCHANGEDB_TT_DEPOSIT j canonical_hton [OF a(1), of cr] canonical_hton [OF a(2), of cr]
  have v: "GNUNET_CRYPTO_eddsa_verify cr (TALER_DepositRequestPS (dle_h_contract_terms d) (dle_h_wire d) (dle_timestamp d)
        (dle_refund_deadline d) (nbo cr (dle_amount_with_fee d)) (nbo cr (dle_deposit_fee d)) (dle_merchant_pub d) coin) (dle_csig d) coin"
    "j = J_DEPOSIT (dle_amount_with_fee d) (dle_deposit_fee d) (dle_timestamp d) (dle_refund_deadline d) (dle_merchant_pub d)
        (dle_h_contract_terms d) (dle_h_wire d) (dle_csig d)"
    by (auto simp: Let_def split: if_splits)
  have "check_fee cr (nbo cr (dle_deposit_fee d)) (map_option dpk_fee_deposit dk) 1 = Some (Some 1)"
    using TALER_EXCHANGEDB_TT_DEPOSIT e(2) by (intro check_fee_ok [OF cr(1) a(2)]) auto
  with v canonical_json [OF c a(1)] canonical_json [OF c a(2)] a canonical_hton [OF a(1), of cr]
    TALER_EXCHANGEDB_TT_DEPOSIT parse_amount_canonical [OF c a(1)] parse_amount_canonical [OF c a(2)]
  show ?thesis
    by (intro exI [of _ "dle_amount_with_fee d"] exI [of _ "''DEPOSIT''"] exI [of _ "the (pack_coin_entry j)"]) (simp add: verify_deposit_def spec_data_def spec_time_def spec_string_def)
next
  case (TALER_EXCHANGEDB_TT_MELT d)
  with e have a: "canonical c (mle_amount_with_fee d)" "canonical c (mle_melt_fee d)" by simp_all
  from TALER_EXCHANGEDB_TT_MELT j canonical_hton [OF a(1), of cr] canonical_hton [OF a(2), of cr]
  have v: "GNUNET_CRYPTO_eddsa_verify cr (TALER_RefreshMeltCoinAffirmationPS (mle_rc d) (nbo cr (mle_amount_with_fee d)) (nbo cr (mle_melt_fee d)) coin)
      (mle_coin_sig d) coin"
    "j = J_MELT (mle_amount_with_fee d) (mle_melt_fee d) (mle_rc d) (mle_coin_sig d)"
    by (auto simp: Let_def split: if_splits)
  have "check_fee cr (nbo cr (mle_melt_fee d)) (map_option dpk_fee_refresh dk) 1 = Some (Some 1)"
    using TALER_EXCHANGEDB_TT_MELT e(2) by (intro check_fee_ok [OF cr(1) a(2)]) auto
  with v canonical_json [OF c a(1)] canonical_json [OF c a(2)] a canonical_hton [OF a(1), of cr]
    TALER_EXCHANGEDB_TT_MELT parse_amount_canonical [OF c a(1)] parse_amount_canonical [OF c a(2)]
  show ?thesis
    by (intro exI [of _ "mle_amount_with_fee d"] exI [of _ "''MELT''"] exI [of _ "the (pack_coin_entry j)"]) (simp add: verify_melt_def spec_data_def spec_string_def)
next
  case (TALER_EXCHANGEDB_TT_RECOUP d)
  with e have a: "canonical c (recl_value d)" by simp
  let ?sig = "GNUNET_CRYPTO_eddsa_sign cr (signkey_priv ks) (TALER_RecoupConfirmationPS (recl_timestamp d) (nbo cr (recl_value d)) coin (recl_reserve_pub d))"
  from TALER_EXCHANGEDB_TT_RECOUP j canonical_hton [OF a, of cr]
  have "j = J_COIN_RECOUP (recl_value d) ?sig (signkey_pub ks) (recl_reserve_pub d) (recl_timestamp d)"
    by (simp add: TEH_KS_sign_def Let_def)
  with canonical_json [OF c a] a canonical_hton [OF a, of cr] TALER_EXCHANGEDB_TT_RECOUP parse_amount_canonical [OF c a] cr(2)
  show ?thesis
    by (intro exI [of _ "recl_value d"] exI [of _ "''RECOUP''"] exI [of _ "the (pack_coin_entry j)"])
      (simp add: verify_recoup_def spec_data_def spec_time_def spec_string_def signs_def)
qed (use e in auto)

lemma canonical_amounts_in: "tl_canonical c e \<Longrightarrow> tl_amounts_in c e"
  by (cases e) (auto dest: canonical_in)

lemma verify_coin_entry_ok:
  assumes cr: "crypto_ok cr" "signs cr ks" and c: "currency_ok c"
    and e: "tl_canonical c e" "understood c dk e" and j: "compile_coin_entry cr (Some ks) coin e = Some (Some j)"
    and t: "amount_in c spent" "amount_in c rtotal" and less: "amt spent + tl_debit e < AMT_LIMIT"
  obtains obj spent' where "pack_coin_entry j = Some obj" and "verify_coin_entry cr dk coin obj (spent, rtotal) = Some (Some (spent', rtotal))"
    and "amount_in c spent'" and "amt spent' = amt spent + tl_debit e"
proof -
  obtain amount type obj where b: "pack_coin_entry j = Some obj" "canonical c amount" "amt amount = tl_debit e" "parse_amount obj ''amount'' = Some amount"
     "spec_string obj ''type'' = Some type"
     "(if strcasecmp_eq type ''DEPOSIT'' then verify_deposit cr dk coin obj amount
        else if strcasecmp_eq type ''MELT'' then verify_melt cr dk coin obj amount
        else if strcasecmp_eq type ''REFUND'' then verify_refund cr dk coin obj amount
        else if strcasecmp_eq type ''RECOUP'' then verify_recoup cr coin obj amount
        else Some None) = Some (Some GNUNET_YES)"
    using verify_branch [OF cr c e j] by blast
  note a = canonical_in [OF b(2)]
  obtain r spent' where "TALER_amount_add spent amount = Some (r, spent')" "\<not> 0 > r" "amount_in c spent'" "amt spent' = amt spent + tl_debit e"
    using amount_add_wp [OF t(1) a] b(3) less by (auto simp: wp_iff)
  with that [OF b(1)] show ?thesis
    using b(4,5) amount_in_cmp_currency [OF a t(2)] by (simp add: verify_coin_entry_def b(6))
qed

lemma verify_coin_loop_ok:
  assumes cr: "crypto_ok cr" "signs cr ks" and c: "currency_ok c" and r: "amount_in c rtotal"
  shows "\<forall>e\<in>set txs. tl_canonical c (tl_details e) \<and> understood c dk (tl_details e) \<Longrightarrow>
     TEH_RESPONSE_compile_transaction_history cr (Some ks) coin txs = Some (Some js) \<Longrightarrow> amount_in c spent \<Longrightarrow> amt spent + tl_debits txs < AMT_LIMIT \<Longrightarrow>
     \<exists>objs spent'. pack_all pack_coin_entry js = Some objs \<and> length objs = length txs
       \<and> verify_coin_loop cr dk coin objs (spent, rtotal) = Some (Some (spent', rtotal))
       \<and> amount_in c spent' \<and> amt spent' = amt spent + tl_debits txs"
proof (induction txs arbitrary: js spent)
  case (Cons e txs)
  then obtain j js' where j: "compile_coin_entry cr (Some ks) coin (tl_details e) = Some (Some j)" "js = j # js'"
    "TEH_RESPONSE_compile_transaction_history cr (Some ks) coin txs = Some (Some js')"
    by (auto simp: bind_eq_Some_conv split: option.splits)
  have "amt spent + tl_debit (tl_details e) < AMT_LIMIT" using Cons.prems(4) tl_debits_nonneg [of txs] unfolding tl_debits_simps by linarith
  then obtain obj spent1 where o: "pack_coin_entry j = Some obj" "verify_coin_entry cr dk coin obj (spent, rtotal) = Some (Some (spent1, rtotal))"
    "amount_in c spent1" "amt spent1 = amt spent + tl_debit (tl_details e)"
    using verify_coin_entry_ok [OF cr c _ _ j(1) Cons.prems(3) r, of dk] Cons.prems(1) by auto
  from Cons.IH [OF _ j(3) o(3)] Cons.prems(1,4) o(4) obtain objs spent' where
    "pack_all pack_coin_entry js' = Some objs" "length objs = length txs" "verify_coin_loop cr dk coin objs (spent1, rtotal) = Some (Some (spent', rtotal))"
    "amount_in c spent'" "amt spent' = amt spent + tl_debits (e # txs)" by (auto simp: add.assoc)
  with o j(2) show ?case by auto
qed simp

lemma client_zero:
  assumes "currency_ok c"
  obtains z where "TALER_amount_get_zero c invalidate = (GNUNET_OK, z)" and "amount_in c z" and "amt z = 0"
proof -
  have "cstr c = c" using assms by (auto simp: currency_ok_def cstr_def takeWhile_eq_all_conv)
  then have c: "cstr c = c" "strlen c < TALER_CURRENCY_LEN" "c \<noteq> []" "length c < TALER_CURRENCY_LEN"
    using assms by (simp_all add: currency_ok_def strlen_def)
  let ?z = "\<lparr>amt_value = 0, amt_fraction = 0, amt_currency = pad_currency c\<rparr>"
  have z: "amt ?z = 0" by (simp add: amt_eq_0_iff)
  moreover have "amount_in c ?z"
    using c z by (simp add: amount_in_def amount_wf_iff amount_normal_def AMT_LIMIT_def strcasecmp_eq_def)
  ultimately show ?thesis using that get_zero_terminated [OF c(2), of invalidate] by simp
qed

text \<open>C16. A client accepts the history of a coin that the exchange sends as a proof that funds are insufficient, if it consists of deposits, melts and
  recoups with the fees that the client knows, and it computes the same total as the exchange: every object is packed under the keys
  that are parsed, amounts survive their conversion to text, and the signatures are those that are verified.\<close>

theorem coin_history_accepted:
  assumes "crypto_ok cr" and "signs cr ks" and "currency_ok c" and "txs \<noteq> []"
    and "\<forall>e\<in>set txs. tl_canonical c (tl_details e) \<and> understood c dk (tl_details e)"
    and "TEH_RESPONSE_compile_transaction_history cr (Some ks) coin txs = Some (Some js)" and "tl_debits txs < AMT_LIMIT"
    and "amount_in c off" and "amt off = 0"
  shows "\<exists>objs spent t. pack_all pack_coin_entry js = Some objs \<and> TALER_EXCHANGE_verify_coin_history cr dk c coin (Some objs) = Some (Some spent)
     \<and> TALER_EXCHANGEDB_calculate_transaction_list_totals txs off ret = Some (GNUNET_OK, t)
     \<and> amt spent = tl_debits txs \<and> amt t = amt spent"
proof -
  obtain z where z: "TALER_amount_get_zero c invalidate = (GNUNET_OK, z)" "amount_in c z" "amt z = 0" by (rule client_zero [OF assms(3)])
  obtain objs spent where o: "pack_all pack_coin_entry js = Some objs" "length objs = length txs"
    "verify_coin_loop cr dk coin objs (z, z) = Some (Some (spent, z))" "amount_in c spent" "amt spent = tl_debits txs"
    using verify_coin_loop_ok [OF assms(1-3) z(2) assms(5,6) z(2)] assms(7) z(3) by auto
  obtain r spent' where "TALER_amount_subtract spent spent z = Some (r, spent')" "\<not> 0 > r" "amt spent' = amt spent"
    using subtract_in [OF o(4) z(2), of spent] z(3) by (metis amt_nonneg diff_zero less_irrefl not_less_iff_gr_or_eq zero_less_one)
  with o z(1) assms(4) have "TALER_EXCHANGE_verify_coin_history cr dk c coin (Some objs) = Some (Some spent')" "amt spent' = tl_debits txs"
    by (auto simp: TALER_EXCHANGE_verify_coin_history_def)
  moreover have simple: "tl_in c txs" "\<not> tl_refunds txs" "tl_credits txs = 0"
  proof -
    show "tl_in c txs" using assms(5) canonical_amounts_in by (auto simp: tl_in_def)
    have "\<not> tl_is_refund (tl_details e) \<and> tl_credit (tl_details e) = 0" if "e \<in> set txs" for e
      using that assms(5) by (cases "tl_details e") force+
    then show "\<not> tl_refunds txs" "tl_credits txs = 0"
      unfolding tl_refunds_def tl_credits_def by (auto cong: map_cong)
  qed
  moreover have "\<exists>t. TALER_EXCHANGEDB_calculate_transaction_list_totals txs off ret = Some (GNUNET_OK, t) \<and> amt t = tl_debits txs"
    using calculate_totals_wp [OF assms(8) simple(1), of ret] simple(2,3) assms(7,9) by (auto simp: wp_iff tl_fee_discount_def AMT_LIMIT_def)
  ultimately show ?thesis using o(1) by auto
qed

text \<open>A deposit of 3 and a melt of 1\<close>

definition sample_coin_history :: "TALER_EXCHANGEDB_TransactionList list" where
  "sample_coin_history = [
     \<lparr>tl_serial_id = 2, tl_details = TALER_EXCHANGEDB_TT_MELT \<lparr>mle_coin_sig = 20, mle_rc = 60, mle_amount_with_fee = mk_amount ''EUR'' 1 0,
        mle_melt_fee = mk_amount ''EUR'' 0 5, mle_noreveal_index = 0\<rparr>\<rparr>,
     \<lparr>tl_serial_id = 1, tl_details = TALER_EXCHANGEDB_TT_DEPOSIT \<lparr>dle_csig = 20, dle_merchant_pub = 50, dle_h_contract_terms = 51, dle_h_wire = 52,
        dle_receiver_wire_account = ''payto'', dle_timestamp = 130, dle_refund_deadline = 140, dle_wire_deadline = 150,
        dle_amount_with_fee = mk_amount ''EUR'' 3 0, dle_deposit_fee = mk_amount ''EUR'' 1 0\<rparr>\<rparr>]"

definition sample_dk :: TALER_EXCHANGE_DenomPublicKey where
  "sample_dk = \<lparr>dpk_key = 7, dpk_h_key = 7, dpk_expire_deposit = 600, dpk_value = mk_amount ''EUR'' 5 0,
     dpk_fee_withdraw = mk_amount ''EUR'' 1 0, dpk_fee_deposit = mk_amount ''EUR'' 1 0, dpk_fee_refresh = mk_amount ''EUR'' 0 5, dpk_fee_refund = mk_amount ''EUR'' 1 0\<rparr>"

lemma mk_amount_canonical: "f < 100000000 \<Longrightarrow> v < 1000 \<Longrightarrow> canonical ''EUR'' (mk_amount ''EUR'' v f)"
  using mk_amount_in_EUR by (simp add: canonical_def mk_amount_def pad_currency_def)

lemma sample_client: "crypto_ok sample_crypto" "signs sample_crypto sample_keys" "currency_ok ''EUR''"
  by (simp_all add: crypto_ok_def sample_crypto_def signs_def sample_keys_def currency_ok_def TALER_CURRENCY_LEN_def isspace_def)

theorem coin_history_accepted_witness:
  "\<exists>js objs x. TEH_RESPONSE_compile_transaction_history sample_crypto (Some sample_keys) 20 sample_coin_history = Some (Some js)
     \<and> pack_all pack_coin_entry js = Some objs \<and> TALER_EXCHANGE_verify_coin_history sample_crypto (Some sample_dk) ''EUR'' 20 (Some objs) = Some (Some x)
     \<and> amt x = 400000000"
proof -
  note a = mk_amount_canonical [of 0 1] mk_amount_canonical [of 0 3] mk_amount_canonical [of 5 0] mk_amount_in_EUR [of 0 1] mk_amount_in_EUR [of 5 0]
  have "\<exists>js. TEH_RESPONSE_compile_transaction_history sample_crypto (Some sample_keys) 20 sample_coin_history = Some (Some js)"
    using canonical_hton [OF a(1), of sample_crypto] canonical_hton [OF a(2), of sample_crypto] canonical_hton [OF a(3), of sample_crypto]
    by (simp add: sample_coin_history_def) (simp add: sample_crypto_def)
  then obtain js where js: "TEH_RESPONSE_compile_transaction_history sample_crypto (Some sample_keys) 20 sample_coin_history = Some (Some js)" by blast
  have "\<forall>e\<in>set sample_coin_history. tl_canonical ''EUR'' (tl_details e) \<and> understood ''EUR'' (Some sample_dk) (tl_details e)"
    using a by (simp add: sample_coin_history_def sample_dk_def)
  moreover have "tl_debits sample_coin_history = 400000000" by (simp add: sample_coin_history_def amount_sample_simps)
  moreover have "amt (mk_amount ''EUR'' 0 0) = 0" "sample_coin_history \<noteq> []" "400000000 < AMT_LIMIT"
    by (simp_all add: amt_eq_0_iff sample_coin_history_def AMT_LIMIT_def)
  moreover have "amount_in ''EUR'' (mk_amount ''EUR'' 0 0)" by (simp add: mk_amount_in_EUR)
  ultimately show ?thesis
    using coin_history_accepted [OF sample_client, of sample_coin_history "Some sample_dk" 20 js "mk_amount ''EUR'' 0 0" invalidate] js by auto
qed

section \<open>The history of a coin is rejected\<close>

text \<open>What the client does not understand: refunds with a fee, and recoups of refreshed coins\<close>

fun not_understood :: "TALER_EXCHANGEDB_TransactionDetails \<Rightarrow> bool" where
  "not_understood (TALER_EXCHANGEDB_TT_REFUND d) \<longleftrightarrow> 0 < amt (rle_refund_fee d)"
| "not_understood (TALER_EXCHANGEDB_TT_OLD_COIN_RECOUP d) \<longleftrightarrow> True"
| "not_understood (TALER_EXCHANGEDB_TT_RECOUP_REFRESH d) \<longleftrightarrow> True"
| "not_understood _ \<longleftrightarrow> False"

text \<open>A signature is one of a single message.\<close>

definition signatures_unique :: "crypto \<Rightarrow> bool" where
  "signatures_unique cr \<longleftrightarrow> (\<forall>m m' sig pub. GNUNET_CRYPTO_eddsa_verify cr m sig pub \<longrightarrow> GNUNET_CRYPTO_eddsa_verify cr m' sig pub \<longrightarrow> m = m')"

definition entry_rejected :: "crypto \<Rightarrow> TALER_EXCHANGE_DenomPublicKey option \<Rightarrow> pub_key \<Rightarrow> json_object \<Rightarrow> bool" where
  "entry_rejected cr dk coin obj \<longleftrightarrow> (\<forall>t t'. verify_coin_entry cr dk coin obj t \<noteq> Some (Some t'))"

lemma verify_coin_loop_rejects:
  "obj \<in> set objs \<Longrightarrow> entry_rejected cr dk coin obj \<Longrightarrow> verify_coin_loop cr dk coin objs t \<noteq> Some (Some t')"
proof (induction objs arbitrary: t)
  case (Cons o' objs)
  show ?case
  proof (cases "verify_coin_entry cr dk coin o' t")
    case (Some x)
    then show ?thesis using Cons by (cases x) (auto simp: entry_rejected_def)
  qed simp
qed simp

lemma from_amount_total: "TALER_amount_is_valid a \<Longrightarrow> \<exists>x. TALER_JSON_from_amount a = Some x"
  by (simp add: TALER_JSON_from_amount_def TALER_amount_to_string_def Let_def)

lemma canonical_valid: "canonical c a \<Longrightarrow> TALER_amount_is_valid a"
  by (simp add: canonical_def amount_in_def amount_wf_def)

text \<open>A refund is packed with the amount without the fee.\<close>

lemma compile_refund_cases:
  assumes cr: "crypto_ok cr" and a: "canonical c (rle_refund_amount d)" "canonical c (rle_refund_fee d)"
    and j: "compile_coin_refund cr coin d = Some (Some j)"
  obtains v where "j = J_REFUND v (rle_refund_fee d) (rle_h_contract_terms d) (rle_merchant_pub d) (rle_rtransaction_id d) (rle_merchant_sig d)"
    and "amount_in c v" and "amt v = amt (rle_refund_amount d) - amt (rle_refund_fee d)" and "cstr (amt_currency v) = cstr (amt_currency (rle_refund_amount d))"
    and "GNUNET_CRYPTO_eddsa_verify cr (TALER_RefundRequestPS (rle_h_contract_terms d) coin (rle_merchant_pub d) (rle_rtransaction_id d)
           (nbo cr (rle_refund_amount d)) (nbo cr (rle_refund_fee d))) (rle_merchant_sig d) (rle_merchant_pub d)"
proof -
  note i = canonical_in [OF a(1)] canonical_in [OF a(2)]
  have le: "amt (rle_refund_fee d) \<le> amt (rle_refund_amount d)"
    using j canonical_hton [OF a(1), of cr] canonical_hton [OF a(2), of cr] subtract_in_negative [OF i]
    by (fastforce simp: Let_def split: if_splits)
  have n: "amount_wf (rle_refund_amount d)" "unat (amt_fraction (rle_refund_amount d)) < 100000000" "unat (amt_fraction (rle_refund_fee d)) < 100000000"
    using i by (auto simp: amount_in_def dest: amount_normalD)
  obtain v where v: "TALER_amount_subtract invalidate (rle_refund_amount d) (rle_refund_fee d)
      = Some (if amt (rle_refund_amount d) = amt (rle_refund_fee d) then 0 else 1, v)"
    "amt v = amt (rle_refund_amount d) - amt (rle_refund_fee d)" "cstr (amt_currency v) = cstr (amt_currency (rle_refund_amount d))"
    by (rule subtract_normal [OF amount_in_cmp_currency [OF i] n le, of invalidate])
  moreover obtain w where "TALER_amount_subtract invalidate (rle_refund_amount d) (rle_refund_fee d)
      = Some (if amt (rle_refund_amount d) = amt (rle_refund_fee d) then 0 else 1, w)" "amount_in c w"
    by (rule subtract_in [OF i le, of invalidate])
  ultimately have "amount_in c v" by simp
  with v that j canonical_hton [OF a(1), of cr] canonical_hton [OF a(2), of cr] show ?thesis
    by (auto simp: Let_def split: if_splits)
qed

lemma nbo_inject_amt:
  assumes "crypto_ok cr" and "nbo cr a = nbo cr b"
  shows "amt a = amt b"
proof -
  have "amt_value a = amt_value b" using assms by (metis TALER_AmountNBO.ext_inject crypto_ok_def nbo_def)
  moreover have "amt_fraction a = amt_fraction b" using assms(2) by (metis TALER_AmountNBO.ext_inject htonl_htonl nbo_def)
  ultimately show ?thesis by (simp add: amt_def amount_units_def)
qed

lemma refund_rejected:
  assumes cr: "crypto_ok cr" "signatures_unique cr" and c: "currency_ok c"
    and a: "canonical c (rle_refund_amount d)" "canonical c (rle_refund_fee d)" "0 < amt (rle_refund_fee d)"
    and j: "compile_coin_refund cr coin d = Some (Some j)" and obj: "pack_coin_entry j = Some obj"
  shows "entry_rejected cr dk coin obj"
proof -
  obtain v where v: "j = J_REFUND v (rle_refund_fee d) (rle_h_contract_terms d) (rle_merchant_pub d) (rle_rtransaction_id d) (rle_merchant_sig d)"
    "amount_in c v" "amt v = amt (rle_refund_amount d) - amt (rle_refund_fee d)" "cstr (amt_currency v) = cstr (amt_currency (rle_refund_amount d))"
    "GNUNET_CRYPTO_eddsa_verify cr (TALER_RefundRequestPS (rle_h_contract_terms d) coin (rle_merchant_pub d) (rle_rtransaction_id d)
           (nbo cr (rle_refund_amount d)) (nbo cr (rle_refund_fee d))) (rle_merchant_sig d) (rle_merchant_pub d)"
    by (rule compile_refund_cases [OF cr(1) a(1,2) j])
  let ?v = "mk_amount c (amt_value v) (amt_fraction v)"
  obtain t where t: "TALER_amount_to_string v = Some t" "TALER_string_to_amount t = (GNUNET_OK, ?v)"
    using amount_text_parsed [OF c v(2)] v(4) canonical_cstr [OF c a(1)] by metis
  have "amt ?v = amt v" by (simp add: amt_def amount_units_def)
  then have ne: "nbo cr ?v \<noteq> nbo cr (rle_refund_amount d)" using nbo_inject_amt [OF cr(1), of ?v "rle_refund_amount d"] v(3) a(3) by auto
  have "\<not> GNUNET_CRYPTO_eddsa_verify cr (TALER_RefundRequestPS h coin' m x (nbo cr ?v) y) (rle_merchant_sig d) (rle_merchant_pub d)" for h coin' m x y
    using cr(2) v(5) ne unfolding signatures_unique_def by (metis signed_message.inject(7))
  moreover have "TALER_amount_hton (GNUNET_htonll cr) ?v = Some n \<Longrightarrow> n = nbo cr ?v" for n
    by (auto simp: TALER_amount_hton_def nbo_def split: if_splits)
  ultimately have r: "verify_refund cr dk coin obj ?v \<noteq> Some (Some x)" for x
    using obj v(1) t(1) canonical_json [OF c a(2)] canonical_valid [OF a(2)]
    by (auto simp: verify_refund_def spec_data_def spec_uint64_def TALER_JSON_from_amount_def parse_amount_nbo_def spec_string_def
        bind_eq_Some_conv or_syserr_def split: option.splits if_splits)
  show ?thesis
    using r obj v(1) t canonical_json [OF c a(2)]
    by (auto simp: entry_rejected_def verify_coin_entry_def parse_amount_def spec_string_def TALER_JSON_from_amount_def bind_eq_Some_conv or_syserr_def
        split: option.splits if_splits) blast+
qed

lemma compile_packs:
  assumes c: "currency_ok c" "crypto_ok cr" and e: "tl_canonical c e" and j: "compile_coin_entry cr (Some ks) coin e = Some (Some j)"
  shows "\<exists>obj. pack_coin_entry j = Some obj"
proof (cases e)
  case (TALER_EXCHANGEDB_TT_REFUND d)
  with e have a: "canonical c (rle_refund_amount d)" "canonical c (rle_refund_fee d)" by simp_all
  have "compile_coin_refund cr coin d = Some (Some j)" using j TALER_EXCHANGEDB_TT_REFUND by simp
  from compile_refund_cases [OF c(2) a this] obtain v where v: "amount_in c v"
    "j = J_REFUND v (rle_refund_fee d) (rle_h_contract_terms d) (rle_merchant_pub d) (rle_rtransaction_id d) (rle_merchant_sig d)" by metis
  then have "TALER_amount_is_valid v" by (simp add: amount_in_def amount_wf_def)
  obtain x where "TALER_JSON_from_amount v = Some x" using from_amount_total [OF \<open>TALER_amount_is_valid v\<close>] by blast
  moreover obtain y where "TALER_JSON_from_amount (rle_refund_fee d) = Some y" using from_amount_total [OF canonical_valid [OF a(2)]] by blast
  ultimately show ?thesis using v(2) by simp
qed (use e j in \<open>auto simp: Let_def TEH_KS_sign_def canonical_hton bind_eq_Some_conv split: if_splits
  dest!: canonical_valid [THEN from_amount_total]\<close>)

lemma compile_history_entry:
  "e \<in> set txs \<Longrightarrow> TEH_RESPONSE_compile_transaction_history cr ks coin txs = Some (Some js) \<Longrightarrow>
     \<exists>j\<in>set js. compile_coin_entry cr ks coin (tl_details e) = Some (Some j)"
  by (induction txs arbitrary: js) (force simp: bind_eq_Some_conv split: option.splits)+

lemma compile_history_packs:
  "currency_ok c \<Longrightarrow> crypto_ok cr \<Longrightarrow> \<forall>e\<in>set txs. tl_canonical c (tl_details e) \<Longrightarrow>
     TEH_RESPONSE_compile_transaction_history cr (Some ks) coin txs = Some (Some js) \<Longrightarrow> \<exists>objs. pack_all pack_coin_entry js = Some objs"
proof (induction txs arbitrary: js)
  case (Cons e txs)
  then obtain j js' where j: "compile_coin_entry cr (Some ks) coin (tl_details e) = Some (Some j)" "js = j # js'"
    "TEH_RESPONSE_compile_transaction_history cr (Some ks) coin txs = Some (Some js')"
    by (auto simp: bind_eq_Some_conv split: option.splits)
  with Cons.IH [OF Cons.prems(1,2) _ j(3)] Cons.prems(3) compile_packs [OF Cons.prems(1,2) _ j(1)] show ?case by auto
qed simp

lemma pack_all_mem: "x \<in> set xs \<Longrightarrow> pack_all f xs = Some ys \<Longrightarrow> \<exists>y\<in>set ys. f x = Some y"
  by (induction xs arbitrary: ys) (force simp: bind_eq_Some_conv)+

text \<open>C18. But a client rejects every history with a refund that has a fee or with a recoup of a refreshed coin, although it is the exchange's
  own, correctly signed: the exchange sends the refund without its fee as the amount, while the merchant has signed the whole refund, and
  the types of the entries for recoups of refreshed coins are unknown to the client. (A signature is assumed to be valid for one message only.)\<close>

theorem coin_history_rejected:
  assumes "crypto_ok cr" and "signatures_unique cr" and "currency_ok c" and "\<forall>e\<in>set txs. tl_canonical c (tl_details e)"
    and "TEH_RESPONSE_compile_transaction_history cr (Some ks) coin txs = Some (Some js)"
    and "e \<in> set txs" and "not_understood (tl_details e)"
  shows "\<exists>objs. pack_all pack_coin_entry js = Some objs \<and> (\<forall>x. TALER_EXCHANGE_verify_coin_history cr dk c coin (Some objs) \<noteq> Some (Some x))"
proof -
  obtain objs where objs: "pack_all pack_coin_entry js = Some objs" using compile_history_packs [OF assms(3,1,4,5)] by blast
  obtain j where j: "j \<in> set js" "compile_coin_entry cr (Some ks) coin (tl_details e) = Some (Some j)"
    using compile_history_entry [OF assms(6,5)] by blast
  obtain obj where obj: "obj \<in> set objs" "pack_coin_entry j = Some obj" using pack_all_mem [OF j(1) objs] by blast
  have "entry_rejected cr dk coin obj"
  proof (cases "tl_details e")
    case (TALER_EXCHANGEDB_TT_REFUND d)
    with refund_rejected [OF assms(1-3) _ _ _ _ obj(2), of d coin dk] assms(4,6,7) j(2) show ?thesis by fastforce
  qed (use assms(7) j(2) obj(2) in \<open>auto simp: entry_rejected_def verify_coin_entry_def TEH_KS_sign_def Let_def spec_string_def bind_eq_Some_conv
      or_syserr_def split: option.splits if_splits\<close>)
  then have "verify_coin_loop cr dk coin objs t \<noteq> Some (Some t')" for t t' using verify_coin_loop_rejects [OF obj(1)] by simp
  then have "TALER_EXCHANGE_verify_coin_history cr dk c coin (Some objs) \<noteq> Some (Some x)" for x
    by (auto simp: TALER_EXCHANGE_verify_coin_history_def or_syserr_def bind_eq_Some_conv Let_def split: option.splits if_splits prod.splits)
  with objs show ?thesis by blast
qed

definition sample_refund_entry :: TALER_EXCHANGEDB_RefundListEntry where
  "sample_refund_entry = \<lparr>rle_merchant_pub = 50, rle_merchant_sig = 9, rle_h_contract_terms = 51, rle_rtransaction_id = 1,
     rle_refund_amount = mk_amount ''EUR'' 3 0, rle_refund_fee = mk_amount ''EUR'' 1 0\<rparr>"

text \<open>Only the refund is signed.\<close>

definition sample_refund_crypto :: crypto where
  "sample_refund_crypto = sample_crypto\<lparr>GNUNET_CRYPTO_eddsa_verify := (\<lambda>m sig pub.
     m = TALER_RefundRequestPS 51 20 50 1 (nbo sample_crypto (mk_amount ''EUR'' 3 0)) (nbo sample_crypto (mk_amount ''EUR'' 1 0)))\<rparr>"

theorem coin_history_rejected_witness:
  "\<exists>js objs. TEH_RESPONSE_compile_transaction_history sample_refund_crypto (Some sample_keys) 20
        [\<lparr>tl_serial_id = 1, tl_details = TALER_EXCHANGEDB_TT_REFUND sample_refund_entry\<rparr>] = Some (Some js)
     \<and> pack_all pack_coin_entry js = Some objs
     \<and> (\<forall>x. TALER_EXCHANGE_verify_coin_history sample_refund_crypto (Some sample_dk) ''EUR'' 20 (Some objs) \<noteq> Some (Some x))"
proof -
  let ?cr = sample_refund_crypto and ?e = "\<lparr>tl_serial_id = 1, tl_details = TALER_EXCHANGEDB_TT_REFUND sample_refund_entry\<rparr>"
  note a = mk_amount_canonical [of 0 3] mk_amount_canonical [of 0 1]
  have cr: "crypto_ok ?cr" "signatures_unique ?cr" "GNUNET_htonll ?cr = GNUNET_htonll sample_crypto"
    by (simp_all add: crypto_ok_def signatures_unique_def sample_refund_crypto_def sample_crypto_def)
  have "nbo ?cr x = nbo sample_crypto x" for x by (simp add: nbo_def cr(3))
  moreover obtain v where "TALER_amount_subtract invalidate (mk_amount ''EUR'' 3 0) (mk_amount ''EUR'' 1 0) = Some (1, v)"
    by (rule subtract_in [OF canonical_in [OF a(1)] canonical_in [OF a(2)], of invalidate]; simp add: amount_sample_simps)
  ultimately have "\<exists>js. TEH_RESPONSE_compile_transaction_history ?cr (Some sample_keys) 20 [?e] = Some (Some js)"
    using canonical_hton [OF a(1), of ?cr] canonical_hton [OF a(2), of ?cr]
    by (simp add: sample_refund_entry_def) (simp add: sample_refund_crypto_def)
  then obtain js where js: "TEH_RESPONSE_compile_transaction_history ?cr (Some sample_keys) 20 [?e] = Some (Some js)" by blast
  have "0 < amt (mk_amount ''EUR'' 1 0)" by (simp add: amount_sample_simps)
  then show ?thesis
    using coin_history_rejected [OF cr(1,2) sample_client(3), of "[?e]" sample_keys 20 js ?e "Some sample_dk"] js a
    by (auto simp: sample_refund_entry_def)
qed

end
