(* ===== verification/Client_Reserve.thy ===== *)
theory Client_Reserve
  imports Client_History
begin

text \<open>
  The history of a reserve, as the exchange sends it, is accepted by \<^verbatim>\<open>TALER_EXCHANGE_parse_reserve_history\<close> of
  \<^verbatim>\<open>src/lib/exchange_api_common.c\<close>, with the same balance.
\<close>

section \<open>What the client relies on\<close>

fun rh_canonical :: "string \<Rightarrow> TALER_EXCHANGEDB_ReserveHistory \<Rightarrow> bool" where
  "rh_canonical c (TALER_EXCHANGEDB_RO_BANK_TO_EXCHANGE b) \<longleftrightarrow> canonical c (bt_amount b)"
| "rh_canonical c (TALER_EXCHANGEDB_RO_WITHDRAW_COIN w) \<longleftrightarrow> canonical c (cb_amount_with_fee w) \<and> canonical c (cb_withdraw_fee w)"
| "rh_canonical c (TALER_EXCHANGEDB_RO_RECOUP_COIN p) \<longleftrightarrow> canonical c (rec_value p)"
| "rh_canonical c (TALER_EXCHANGEDB_RO_EXCHANGE_TO_BANK t) \<longleftrightarrow> canonical c (ct_amount t) \<and> canonical c (ct_closing_fee t)"

definition withdraw_purpose :: "crypto \<Rightarrow> pub_key \<Rightarrow> TALER_EXCHANGEDB_CollectableBlindcoin \<Rightarrow> signed_message" where
  "withdraw_purpose cr pub w = TALER_WithdrawRequestPS pub (nbo cr (cb_amount_with_fee w)) (nbo cr (cb_withdraw_fee w))
     (cb_denom_pub_hash w) (cb_h_coin_envelope w)"

text \<open>Withdrawals with different envelopes have different hashes.\<close>

definition envelope_hashes :: "(signed_message \<Rightarrow> hash_code) \<Rightarrow> bool" where
  "envelope_hashes h \<longleftrightarrow> (\<forall>p a f d e p' a' f' d' e'.
     h (TALER_WithdrawRequestPS p a f d e) = h (TALER_WithdrawRequestPS p' a' f' d' e') \<longrightarrow> e = e')"

text \<open>Entries of the reserve \<open>pub\<close>: withdrawals are signed with its key, and the client knows the denomination with the fee.\<close>

fun rh_of_reserve :: "crypto \<Rightarrow> string \<Rightarrow> TALER_EXCHANGE_Keys \<Rightarrow> pub_key \<Rightarrow> TALER_EXCHANGEDB_ReserveHistory \<Rightarrow> bool" where
  "rh_of_reserve cr c keys pub (TALER_EXCHANGEDB_RO_BANK_TO_EXCHANGE b) \<longleftrightarrow> True"
| "rh_of_reserve cr c keys pub (TALER_EXCHANGEDB_RO_WITHDRAW_COIN w) \<longleftrightarrow>
     GNUNET_CRYPTO_eddsa_verify cr (withdraw_purpose cr pub w) (cb_reserve_sig w) pub
     \<and> (\<exists>k. TALER_EXCHANGE_get_denomination_key_by_hash keys (cb_denom_pub_hash w) = Some k
           \<and> amount_in c (dpk_fee_withdraw k) \<and> amt (cb_withdraw_fee w) = amt (dpk_fee_withdraw k))"
| "rh_of_reserve cr c keys pub (TALER_EXCHANGEDB_RO_RECOUP_COIN p) \<longleftrightarrow> rec_reserve_pub p = pub"
| "rh_of_reserve cr c keys pub (TALER_EXCHANGEDB_RO_EXCHANGE_TO_BANK t) \<longleftrightarrow> ct_reserve_pub t = pub"

fun rh_envelope :: "TALER_EXCHANGEDB_ReserveHistory \<Rightarrow> hash_code list" where
  "rh_envelope (TALER_EXCHANGEDB_RO_WITHDRAW_COIN w) = [cb_h_coin_envelope w]"
| "rh_envelope _ = []"

definition envelopes :: "TALER_EXCHANGEDB_ReserveHistory list \<Rightarrow> hash_code list" where
  "envelopes rh = concat (map rh_envelope rh)"

lemma envelopes_simps [simp]: "envelopes [] = []" "envelopes (e # rh) = rh_envelope e @ envelopes rh"
  by (simp_all add: envelopes_def)

section \<open>One entry\<close>

lemma strcasecmp_reserve_types [simp]:
  "strcasecmp_eq ''CREDIT'' ''CREDIT''" "strcasecmp_eq ''WITHDRAW'' ''WITHDRAW''" "strcasecmp_eq ''CLOSING'' ''CLOSING''"
  "\<not> strcasecmp_eq ''WITHDRAW'' ''CREDIT''" "\<not> strcasecmp_eq ''RECOUP'' ''CREDIT''" "\<not> strcasecmp_eq ''RECOUP'' ''WITHDRAW''"
  "\<not> strcasecmp_eq ''CLOSING'' ''CREDIT''" "\<not> strcasecmp_eq ''CLOSING'' ''WITHDRAW''" "\<not> strcasecmp_eq ''CLOSING'' ''RECOUP''"
  by (simp_all add: strcasecmp_eq_def cstr_def tolower_def)

text \<open>The state of the parser: the totals, and the hashes of withdrawals with the envelopes \<open>seen\<close>\<close>

definition parse_state :: "(signed_message \<Rightarrow> hash_code) \<Rightarrow> string \<Rightarrow> int \<Rightarrow> int \<Rightarrow> hash_code set \<Rightarrow> reserve_parse \<Rightarrow> bool" where
  "parse_state h c x y seen p \<longleftrightarrow> amount_in c (rp_total_in p) \<and> amount_in c (rp_total_out p) \<and> amt (rp_total_in p) = x \<and> amt (rp_total_out p) = y
     \<and> (\<forall>u\<in>set (rp_uuid p). \<exists>pub a f d e. u = h (TALER_WithdrawRequestPS pub a f d e) \<and> e \<in> seen)"

lemma add_in_ok:
  assumes "parse_state h c x y seen p" and "amount_in c a" and "x + amt a < AMT_LIMIT"
  shows "\<exists>p'. add_to_in p a rhx = Some (Some (rhx, p')) \<and> parse_state h c (x + amt a) y seen p'"
proof -
  from assms have p: "amount_in c (rp_total_in p)" "amt (rp_total_in p) = x" by (simp_all add: parse_state_def)
  from amount_add_wp [OF p(1) assms(2)] assms(3) p(2) obtain r b where
    "TALER_amount_add (rp_total_in p) a = Some (r, b)" "\<not> 0 > r" "amount_in c b" "amt b = x + amt a" by (auto simp: wp_iff)
  with assms(1) show ?thesis by (simp add: add_to_in_def parse_state_def)
qed

lemma add_out_ok:
  assumes "parse_state h c x y seen p" and "amount_in c a" and "y + amt a < AMT_LIMIT"
  shows "\<exists>p'. add_to_out p a rhx = Some (Some (rhx, p')) \<and> parse_state h c x (y + amt a) seen p'"
proof -
  from assms have p: "amount_in c (rp_total_out p)" "amt (rp_total_out p) = y" by (simp_all add: parse_state_def)
  from amount_add_wp [OF p(1) assms(2)] assms(3) p(2) obtain r b where
    "TALER_amount_add (rp_total_out p) a = Some (r, b)" "\<not> 0 > r" "amount_in c b" "amt b = y + amt a" by (auto simp: wp_iff)
  with assms(1) show ?thesis by (simp add: add_to_out_def parse_state_def)
qed

lemma parse_entry_amount:
  assumes "parse_amount obj ''amount'' = Some a" and "canonical c a" and "parse_state h c x y seen p" and "spec_string obj ''type'' = Some type"
  shows "parse_reserve_entry cr h now keys pub obj p =
     (if strcasecmp_eq type ''CREDIT'' then parse_credit obj a p
       else if strcasecmp_eq type ''WITHDRAW'' then parse_withdraw cr h keys pub obj a p
       else if strcasecmp_eq type ''RECOUP'' then parse_recoup cr now keys pub obj a p
       else if strcasecmp_eq type ''CLOSING'' then parse_closing cr now keys pub obj a p
       else Some None)"
  using assms amount_in_cmp_currency [of c a "rp_total_in p"] canonical_in [OF assms(2)]
  by (simp add: parse_reserve_entry_def parse_state_def)

lemma parse_withdraw_ok:
  assumes cr: "crypto_ok cr" and c: "currency_ok c" and h: "envelope_hashes h" and a: "canonical c (cb_amount_with_fee w)" "canonical c (cb_withdraw_fee w)"
    and e: "rh_of_reserve cr c keys pub (TALER_EXCHANGEDB_RO_WITHDRAW_COIN w)"
    and p: "parse_state h c x y seen p" and seen: "cb_h_coin_envelope w \<notin> seen" and less: "y + amt (cb_amount_with_fee w) < AMT_LIMIT"
    and obj: "spec_data obj ''reserve_sig'' = Some (cb_reserve_sig w)" "parse_amount_nbo cr obj ''withdraw_fee'' = Some (Some (nbo cr (cb_withdraw_fee w)))"
      "spec_data obj ''h_denom_pub'' = Some (cb_denom_pub_hash w)" "spec_data obj ''h_coin_envelope'' = Some (cb_h_coin_envelope w)"
  shows "\<exists>rhx p'. parse_withdraw cr h keys pub obj (cb_amount_with_fee w) p = Some (Some (rhx, p'))
     \<and> parse_state h c x (y + amt (cb_amount_with_fee w)) (insert (cb_h_coin_envelope w) seen) p'"
proof -
  obtain k where k: "TALER_EXCHANGE_get_denomination_key_by_hash keys (cb_denom_pub_hash w) = Some k" "amount_in c (dpk_fee_withdraw k)"
    "amt (cb_withdraw_fee w) = amt (dpk_fee_withdraw k)" using e by auto
  let ?m = "withdraw_purpose cr pub w"
  let ?p = "p\<lparr>rp_uuid := rp_uuid p @ [h ?m]\<rparr>"
  have "h ?m \<notin> set (rp_uuid p)"
    using p seen h unfolding parse_state_def withdraw_purpose_def envelope_hashes_def by blast
  moreover have "parse_state h c x y (insert (cb_h_coin_envelope w) seen) ?p"
    using p by (auto simp: parse_state_def withdraw_purpose_def) blast+
  from add_out_ok [OF this canonical_in [OF a(1)] less] obtain p' where
    "add_to_out ?p (cb_amount_with_fee w) rhx = Some (Some (rhx, p' rhx)) \<and> parse_state h c x (y + amt (cb_amount_with_fee w)) (insert (cb_h_coin_envelope w) seen) (p' rhx)" for rhx
    by metis
  ultimately show ?thesis
    using obj e k(1) fee_expected_ok [OF cr a(2) k(2,3)] canonical_hton [OF a(1), of cr]
    by (simp add: parse_withdraw_def withdraw_purpose_def)
qed

lemma parse_reserve_entry_ok:
  assumes cr: "crypto_ok cr" "signs cr ks" and c: "currency_ok c" and h: "envelope_hashes h"
    and key: "TALER_EXCHANGE_test_signing_key now keys (signkey_pub ks) = GNUNET_OK"
    and e: "rh_canonical c e" "rh_of_reserve cr c keys pub e" and j: "compile_reserve_entry cr (Some ks) e (t, w) = Some (Some (j, t', w'))"
    and p: "parse_state h c x y seen p" and seen: "set (rh_envelope e) \<inter> seen = {}"
    and less: "x + tot (rh_credit e) < AMT_LIMIT" "y + tot (rh_debit e) < AMT_LIMIT"
  shows "\<exists>obj rhx p'. pack_reserve_entry j = Some obj \<and> parse_reserve_entry cr h now keys pub obj p = Some (Some (rhx, p'))
     \<and> parse_state h c (x + tot (rh_credit e)) (y + tot (rh_debit e)) (set (rh_envelope e) \<union> seen) p'"
proof (cases e)
  case (TALER_EXCHANGEDB_RO_BANK_TO_EXCHANGE b)
  with e have a: "canonical c (bt_amount b)" by simp
  from j TALER_EXCHANGEDB_RO_BANK_TO_EXCHANGE have "j = J_CREDIT (bt_execution_date b) (bt_sender_account_details b) (bt_wire_reference b) (bt_amount b)"
    by (auto simp: bind_eq_Some_conv split: if_splits)
  then obtain obj where obj: "pack_reserve_entry j = Some obj" "map_of obj ''amount'' = Some (J_string (the (TALER_amount_to_string (bt_amount b))))"
    "spec_string obj ''type'' = Some ''CREDIT''" "spec_data obj ''wire_reference'' = Some (unat (bt_wire_reference b))"
    "spec_time obj ''timestamp'' = Some (bt_execution_date b)" "spec_string obj ''sender_account_url'' = Some (bt_sender_account_details b)"
    using canonical_json [OF c a] by (simp add: spec_string_def spec_data_def spec_time_def)
  from add_in_ok [OF p canonical_in [OF a], of undefined] less TALER_EXCHANGEDB_RO_BANK_TO_EXCHANGE obtain r b' where
    "TALER_amount_add (rp_total_in p) (bt_amount b) = Some (r, b')" "\<not> 0 > r" "parse_state h c (x + amt (bt_amount b)) y seen (p\<lparr>rp_total_in := b'\<rparr>)"
    by (auto simp: add_to_in_def bind_eq_Some_conv tot_def split: if_splits)
  with obj parse_entry_amount [OF parse_amount_canonical(1) [OF c a obj(2)] a p obj(3)] TALER_EXCHANGEDB_RO_BANK_TO_EXCHANGE show ?thesis
    by (simp add: parse_credit_def tot_def)
next
  case (TALER_EXCHANGEDB_RO_WITHDRAW_COIN b)
  with e have a: "canonical c (cb_amount_with_fee b)" "canonical c (cb_withdraw_fee b)" by simp_all
  from j TALER_EXCHANGEDB_RO_WITHDRAW_COIN have "j = J_WITHDRAW (cb_reserve_sig b) (cb_h_coin_envelope b) (cb_denom_pub_hash b) (cb_withdraw_fee b) (cb_amount_with_fee b)"
    by (auto simp: bind_eq_Some_conv split: if_splits)
  then obtain obj where obj: "pack_reserve_entry j = Some obj" "map_of obj ''amount'' = Some (J_string (the (TALER_amount_to_string (cb_amount_with_fee b))))"
    "spec_string obj ''type'' = Some ''WITHDRAW''" "spec_data obj ''reserve_sig'' = Some (cb_reserve_sig b)"
    "map_of obj ''withdraw_fee'' = Some (J_string (the (TALER_amount_to_string (cb_withdraw_fee b))))"
    "spec_data obj ''h_denom_pub'' = Some (cb_denom_pub_hash b)" "spec_data obj ''h_coin_envelope'' = Some (cb_h_coin_envelope b)"
    using canonical_json [OF c a(1)] canonical_json [OF c a(2)] by (simp add: spec_string_def spec_data_def)
  have "cb_h_coin_envelope b \<notin> seen" "y + amt (cb_amount_with_fee b) < AMT_LIMIT" "rh_of_reserve cr c keys pub (TALER_EXCHANGEDB_RO_WITHDRAW_COIN b)"
    using seen less(2) e(2) TALER_EXCHANGEDB_RO_WITHDRAW_COIN by (simp_all add: tot_def)
  from parse_withdraw_ok [OF cr(1) c h a this(3) p this(1,2) obj(4) parse_amount_canonical(2) [OF c a(2) obj(5)] obj(6,7)]
    parse_entry_amount [OF parse_amount_canonical(1) [OF c a(1) obj(2)] a(1) p obj(3)] TALER_EXCHANGEDB_RO_WITHDRAW_COIN obj(1)
  show ?thesis by (simp add: tot_def)
next
  case (TALER_EXCHANGEDB_RO_RECOUP_COIN b)
  with e have a: "canonical c (rec_value b)" by simp
  let ?m = "TALER_RecoupConfirmationPS (rec_timestamp b) (nbo cr (rec_value b)) (coin_pub (rec_coin b)) pub"
  have "rec_reserve_pub b = pub" using e(2) TALER_EXCHANGEDB_RO_RECOUP_COIN by simp
  with j TALER_EXCHANGEDB_RO_RECOUP_COIN have "j = J_RESERVE_RECOUP (signkey_pub ks) (GNUNET_CRYPTO_eddsa_sign cr (signkey_priv ks) ?m) (rec_timestamp b)
      (rec_value b) (coin_pub (rec_coin b))"
    by (auto simp: bind_eq_Some_conv TEH_KS_sign_def canonical_hton [OF a] Let_def split: if_splits)
  then obtain obj where obj: "pack_reserve_entry j = Some obj" "map_of obj ''amount'' = Some (J_string (the (TALER_amount_to_string (rec_value b))))"
    "spec_string obj ''type'' = Some ''RECOUP''" "spec_data obj ''coin_pub'' = Some (coin_pub (rec_coin b))"
    "spec_data obj ''exchange_sig'' = Some (GNUNET_CRYPTO_eddsa_sign cr (signkey_priv ks) ?m)" "spec_data obj ''exchange_pub'' = Some (signkey_pub ks)"
    "spec_time obj ''timestamp'' = Some (rec_timestamp b)"
    using canonical_json [OF c a] by (simp add: spec_string_def spec_data_def spec_time_def)
  have "x + amt (rec_value b) < AMT_LIMIT" using less(1) TALER_EXCHANGEDB_RO_RECOUP_COIN by (simp add: tot_def)
  from add_in_ok [OF p canonical_in [OF a] this] obj(1,4-7) parse_entry_amount [OF parse_amount_canonical(1) [OF c a obj(2)] a p obj(3)]
    TALER_EXCHANGEDB_RO_RECOUP_COIN canonical_hton [OF a, of cr] key cr(2)
  show ?thesis by (simp add: parse_recoup_def tot_def signs_def Let_def) blast
next
  case (TALER_EXCHANGEDB_RO_EXCHANGE_TO_BANK b)
  with e have a: "canonical c (ct_amount b)" "canonical c (ct_closing_fee b)" by simp_all
  let ?m = "TALER_ReserveCloseConfirmationPS (ct_execution_date b) (nbo cr (ct_amount b)) (nbo cr (ct_closing_fee b)) pub
     (GNUNET_CRYPTO_hash_data cr (ct_receiver_account_details b @ [NUL])) (ct_wtid b)"
  have "ct_reserve_pub b = pub" using e(2) TALER_EXCHANGEDB_RO_EXCHANGE_TO_BANK by simp
  with j TALER_EXCHANGEDB_RO_EXCHANGE_TO_BANK have "j = J_CLOSING (ct_receiver_account_details b) (ct_wtid b) (signkey_pub ks)
      (GNUNET_CRYPTO_eddsa_sign cr (signkey_priv ks) ?m) (ct_execution_date b) (ct_amount b) (ct_closing_fee b)"
    by (auto simp: bind_eq_Some_conv TEH_KS_sign_def canonical_hton [OF a(1)] canonical_hton [OF a(2)] Let_def split: if_splits)
  then obtain obj where obj: "pack_reserve_entry j = Some obj" "map_of obj ''amount'' = Some (J_string (the (TALER_amount_to_string (ct_amount b))))"
    "spec_string obj ''type'' = Some ''CLOSING''" "spec_string obj ''receiver_account_details'' = Some (ct_receiver_account_details b)"
    "spec_data obj ''wtid'' = Some (ct_wtid b)"
    "spec_data obj ''exchange_sig'' = Some (GNUNET_CRYPTO_eddsa_sign cr (signkey_priv ks) ?m)" "spec_data obj ''exchange_pub'' = Some (signkey_pub ks)"
    "map_of obj ''closing_fee'' = Some (J_string (the (TALER_amount_to_string (ct_closing_fee b))))"
    "spec_time obj ''timestamp'' = Some (ct_execution_date b)"
    using canonical_json [OF c a(1)] canonical_json [OF c a(2)] by (simp add: spec_string_def spec_data_def spec_time_def)
  have "y + amt (ct_amount b) < AMT_LIMIT" using less(2) TALER_EXCHANGEDB_RO_EXCHANGE_TO_BANK by (simp add: tot_def)
  from add_out_ok [OF p canonical_in [OF a(1)] this] obj(1,4-7,9) parse_amount_canonical(2) [OF c a(2) obj(8)]
    parse_entry_amount [OF parse_amount_canonical(1) [OF c a(1) obj(2)] a(1) p obj(3)]
    TALER_EXCHANGEDB_RO_EXCHANGE_TO_BANK canonical_hton [OF a(1), of cr] canonical_ntoh [OF cr(1) a(2)] key cr(2)
  show ?thesis by (simp add: parse_closing_def tot_def signs_def Let_def) blast
qed

section \<open>The history\<close>

lemma compile_reserve_loop_Cons:
  assumes "compile_reserve_loop cr ks (e # rh) t = Some (Some (js, t'))"
  obtains j t1 js' where "compile_reserve_entry cr ks e t = Some (Some (j, t1))" and "js = j # js'"
    and "compile_reserve_loop cr ks rh t1 = Some (Some (js', t'))"
  using assms by (auto simp: bind_eq_Some_conv split: option.splits)

lemma parse_reserve_loop_ok:
  assumes cr: "crypto_ok cr" "signs cr ks" and c: "currency_ok c" and h: "envelope_hashes h"
    and key: "TALER_EXCHANGE_test_signing_key now keys (signkey_pub ks) = GNUNET_OK"
  shows "\<forall>e\<in>set rh. rh_canonical c e \<and> rh_of_reserve cr c keys pub e \<Longrightarrow> compile_reserve_loop cr (Some ks) rh (t, w) = Some (Some (js, t'))
     \<Longrightarrow> parse_state h c x y seen p \<Longrightarrow> distinct (envelopes rh) \<Longrightarrow> set (envelopes rh) \<inter> seen = {}
     \<Longrightarrow> x + total_of rh_credit rh < AMT_LIMIT \<Longrightarrow> y + total_of rh_debit rh < AMT_LIMIT
     \<Longrightarrow> \<exists>objs rhs p'. pack_all pack_reserve_entry js = Some objs \<and> parse_reserve_loop cr h now keys pub objs p = Some (Some (rhs, p'))
       \<and> length rhs = length rh \<and> parse_state h c (x + total_of rh_credit rh) (y + total_of rh_debit rh) (set (envelopes rh) \<union> seen) p'"
proof (induction rh arbitrary: t w js x y seen p)
  case (Cons e rh)
  obtain j t1 js' where j: "compile_reserve_entry cr (Some ks) e (t, w) = Some (Some (j, t1))" "js = j # js'"
    "compile_reserve_loop cr (Some ks) rh t1 = Some (Some (js', t'))" using compile_reserve_loop_Cons [OF Cons.prems(2)] by blast
  obtain tt ww where t1: "t1 = (tt, ww)" by (cases t1)
  note nonneg = total_of_nonneg [of rh_credit rh] total_of_nonneg [of rh_debit rh]
  have less: "x + tot (rh_credit e) < AMT_LIMIT" "y + tot (rh_debit e) < AMT_LIMIT"
    "x + tot (rh_credit e) + total_of rh_credit rh < AMT_LIMIT" "y + tot (rh_debit e) + total_of rh_debit rh < AMT_LIMIT"
    using Cons.prems(6,7) nonneg unfolding total_of_simps by linarith+
  obtain obj rhx p1 where o: "pack_reserve_entry j = Some obj" "parse_reserve_entry cr h now keys pub obj p = Some (Some (rhx, p1))"
    "parse_state h c (x + tot (rh_credit e)) (y + tot (rh_debit e)) (set (rh_envelope e) \<union> seen) p1"
    using parse_reserve_entry_ok [OF cr c h key _ _ j(1) [unfolded t1] Cons.prems(3) _ less(1,2), of pub] Cons.prems(1,5) by auto
  have "set (envelopes rh) \<inter> (set (rh_envelope e) \<union> seen) = {}" using Cons.prems(4,5) by auto
  from Cons.IH [OF _ j(3) [unfolded t1] o(3) _ this less(3,4)] Cons.prems(1,4) obtain objs rhs p' where
    "pack_all pack_reserve_entry js' = Some objs" "parse_reserve_loop cr h now keys pub objs p1 = Some (Some (rhs, p'))" "length rhs = length rh"
    "parse_state h c (x + tot (rh_credit e) + total_of rh_credit rh) (y + tot (rh_debit e) + total_of rh_debit rh)
       (set (envelopes rh) \<union> (set (rh_envelope e) \<union> seen)) p'" by auto
  with o(1,2) j(2) show ?case by (auto simp: add.assoc Un_assoc Un_left_commute)
qed simp

text \<open>C17. A client accepts the history of a reserve that the exchange sends, with an entry for every operation and the same balance, provided
  that withdrawals are signed by the owner of the reserve for different envelopes, and that the client knows the denominations with their fees and the
  signing key of the exchange. (The hash function is assumed to have no collisions
  between withdrawals for different envelopes.)\<close>

theorem reserve_history_accepted:
  assumes "crypto_ok cr" and "signs cr ks" and "currency_ok c" and "envelope_hashes h"
    and "TALER_EXCHANGE_test_signing_key now keys (signkey_pub ks) = GNUNET_OK"
    and "\<forall>e\<in>set rh. rh_canonical c e \<and> rh_of_reserve cr c keys pub e" and "distinct (envelopes rh)"
    and "TEH_RESPONSE_compile_reserve_history cr (Some ks) rh = Some (Some (js, balance))"
  shows "\<exists>objs balance' rhs. pack_all pack_reserve_entry js = Some objs
     \<and> TALER_EXCHANGE_parse_reserve_history cr h now keys objs pub c = Some (Some (balance', rhs))
     \<and> amt balance' = amt balance \<and> length rhs = length rh"
proof -
  have i: "\<forall>e\<in>set rh. rh_in c e"
  proof
    fix e assume "e \<in> set rh"
    with assms(6) have "rh_canonical c e" by blast
    then show "rh_in c e" by (cases e) (auto dest: canonical_in)
  qed
  have b: "total_of rh_credit rh < AMT_LIMIT" "total_of rh_debit rh \<le> total_of rh_credit rh"
    "amt balance = total_of rh_credit rh - total_of rh_debit rh"
    using compile_reserve_history_in [OF i, of cr ks] assms(8) by (auto simp: sum_rh_value split: if_splits)
  obtain t where l: "compile_reserve_loop cr (Some ks) rh (None, None) = Some (Some (js, t))"
    using assms(8) by (auto simp: TEH_RESPONSE_compile_reserve_history_def bind_eq_Some_conv split: option.splits if_splits)
  obtain z where z: "TALER_amount_get_zero c invalidate = (GNUNET_OK, z)" "amount_in c z" "amt z = 0" by (rule client_zero [OF assms(3)])
  let ?p = "\<lparr>rp_total_in = z, rp_total_out = z, rp_uuid = []\<rparr>"
  have "parse_state h c 0 0 {} ?p" using z by (simp add: parse_state_def)
  from parse_reserve_loop_ok [OF assms(1-5,6) l this assms(7)] b obtain objs rhs p' where
    o: "pack_all pack_reserve_entry js = Some objs" "parse_reserve_loop cr h now keys pub objs ?p = Some (Some (rhs, p'))" "length rhs = length rh"
    "parse_state h c (total_of rh_credit rh) (total_of rh_debit rh) (set (envelopes rh)) p'" by auto
  then have p': "amount_in c (rp_total_in p')" "amount_in c (rp_total_out p')" "amt (rp_total_out p') \<le> amt (rp_total_in p')"
    "amt (rp_total_in p') - amt (rp_total_out p') = amt balance" using b by (simp_all add: parse_state_def)
  obtain v where "TALER_amount_subtract invalidate (rp_total_in p') (rp_total_out p')
      = Some (if amt (rp_total_in p') = amt (rp_total_out p') then 0 else 1, v)" "amt v = amt balance"
    by (rule subtract_in [OF p'(1-3), of invalidate]) (use p'(4) in auto)
  then show ?thesis
    using o z(1) by (auto simp: TALER_EXCHANGE_parse_reserve_history_def)
qed

text \<open>The reserve 20: 5 arrived, a coin of 1 was withdrawn, a coin was recouped for 2, and the reserve was closed.\<close>

definition sample_reserve_history :: "TALER_EXCHANGEDB_ReserveHistory list" where
  "sample_reserve_history = [
     TALER_EXCHANGEDB_RO_BANK_TO_EXCHANGE \<lparr>bt_reserve_pub = 20, bt_amount = mk_amount ''EUR'' 5 0, bt_execution_date = 100,
       bt_sender_account_details = ''payto'', bt_wire_reference = 1\<rparr>,
     TALER_EXCHANGEDB_RO_WITHDRAW_COIN \<lparr>cb_sig = 1, cb_denom_pub_hash = 7, cb_amount_with_fee = mk_amount ''EUR'' 3 0,
       cb_withdraw_fee = mk_amount ''EUR'' 1 0, cb_reserve_pub = 20, cb_h_coin_envelope = 70, cb_reserve_sig = 20\<rparr>,
     TALER_EXCHANGEDB_RO_RECOUP_COIN \<lparr>rec_coin = \<lparr>coin_pub = 30, coin_denom_pub_hash = 7, coin_denom_sig = 1\<rparr>, rec_coin_blind = 2, rec_coin_sig = 30,
       rec_reserve_pub = 20, rec_value = mk_amount ''EUR'' 2 0, rec_timestamp = 130\<rparr>,
     TALER_EXCHANGEDB_RO_EXCHANGE_TO_BANK \<lparr>ct_reserve_pub = 20, ct_amount = mk_amount ''EUR'' 4 0, ct_closing_fee = mk_amount ''EUR'' 1 0,
       ct_execution_date = 140, ct_receiver_account_details = ''payto'', ct_wtid = 9\<rparr>]"

definition sample_exchange_keys :: TALER_EXCHANGE_Keys where
  "sample_exchange_keys = \<lparr>ek_sign_keys = [\<lparr>spk_key = 4, spk_valid_from = 0, spk_valid_until = 9000000000\<rparr>], ek_denom_keys = [sample_dk]\<rparr>"

definition sample_hash :: "signed_message \<Rightarrow> hash_code" where
  "sample_hash m = (case m of TALER_WithdrawRequestPS pub a f d e \<Rightarrow> e | _ \<Rightarrow> 0)"

theorem reserve_history_accepted_witness:
  "\<exists>js balance objs balance' rhs.
     TEH_RESPONSE_compile_reserve_history sample_crypto (Some sample_keys) sample_reserve_history = Some (Some (js, balance))
     \<and> pack_all pack_reserve_entry js = Some objs
     \<and> TALER_EXCHANGE_parse_reserve_history sample_crypto sample_hash 5000000000 sample_exchange_keys objs 20 ''EUR'' = Some (Some (balance', rhs))
     \<and> amt balance' = 0 \<and> length rhs = 4"
proof -
  note a = mk_amount_canonical [of 0 5] mk_amount_canonical [of 0 3] mk_amount_canonical [of 0 1] mk_amount_canonical [of 0 2] mk_amount_canonical [of 0 4]
  have e: "\<forall>e\<in>set sample_reserve_history. rh_canonical ''EUR'' e \<and> rh_of_reserve sample_crypto ''EUR'' sample_exchange_keys 20 e"
    using a canonical_in [OF a(3)]
    by (simp add: sample_reserve_history_def sample_exchange_keys_def sample_dk_def TALER_EXCHANGE_get_denomination_key_by_hash_def sample_crypto_def)
  have "\<forall>e\<in>set sample_reserve_history. rh_in ''EUR'' e" using a canonical_in by (simp add: sample_reserve_history_def)
  moreover have "total_of rh_credit sample_reserve_history = 700000000" "total_of rh_debit sample_reserve_history = 700000000"
    "(\<Sum>e\<leftarrow>sample_reserve_history. rh_value e) = 0" "\<exists>e\<in>set sample_reserve_history. rh_credit e \<noteq> None"
    by (simp_all add: sample_reserve_history_def tot_def amount_sample_simps)
  ultimately obtain js balance where
    js: "TEH_RESPONSE_compile_reserve_history sample_crypto (Some sample_keys) sample_reserve_history = Some (Some (js, balance))" "amt balance = 0"
    using compile_reserve_history_in [of sample_reserve_history "''EUR''" sample_crypto sample_keys] by (auto simp: AMT_LIMIT_def)
  have "envelope_hashes sample_hash" "TALER_EXCHANGE_test_signing_key 5000000000 sample_exchange_keys (signkey_pub sample_keys) = GNUNET_OK"
    "distinct (envelopes sample_reserve_history)" "length sample_reserve_history = 4"
    by (simp_all add: envelope_hashes_def sample_hash_def TALER_EXCHANGE_test_signing_key_def sample_exchange_keys_def sample_keys_def sample_reserve_history_def)
  with js show ?thesis
    using reserve_history_accepted [OF sample_client, of sample_hash 5000000000 sample_exchange_keys sample_reserve_history 20 js balance] e by auto
qed

end
