(* ===== verification/Spec2Isabelle.thy ===== *)
theory Spec2Isabelle
  imports Amount_Text Reserve_History Transaction_Runner Responses Url Json_Wire Request_Sequences Routing Wallet_Refresh Payout_Sequences Watch_Sequences Closing_Runs Client_Reserve
begin

text \<open>
  A verification of the core of the GNU Taler exchange, a payment service: customers wire money to a \<^emph>\<open>reserve\<close>,
  \<^emph>\<open>withdraw\<close> blindly signed coins from it, \<^emph>\<open>deposit\<close> coins at merchants, \<^emph>\<open>melt\<close> what is left of a coin and \<^emph>\<open>reveal\<close>
  the keys for fresh coins, and get \<^emph>\<open>refunds\<close> or, if a denomination is revoked, a \<^emph>\<open>recoup\<close>. The exchange keeps its
  state in a Postgres database. What must never happen is that money is spent twice, gets lost or is created, whatever
  requests come in and whatever errors the database reports. All sources named here are under \<^verbatim>\<open>src/\<close> of the repository.

  \<^bold>\<open>Conventions.\<close> A C integer is a word of its width, a struct a record, a tagged union a datatype. A function with output
  parameters returns them together with its result. A \<^verbatim>\<open>GNUNET_assert\<close> that fails aborts the process: such a function is
  into \<open>option\<close>, and \<open>None\<close> is the abort. Functions on the database take and return a \<open>session\<close>. \<open>wp m Q\<close> says that
  \<open>m\<close> does not abort and that its result satisfies \<open>Q\<close>; so every statement of this form includes that the code does not abort. \<open>wpa b m Q\<close> is the same except that \<open>m\<close> may abort if \<open>b\<close>, and
  a property of such code is a case distinction on \<open>None\<close> and \<open>Some\<close>. Using a session that could not be connected is an abort, too.
  Definitions have the names of the C functions; a part of a function that has a definition of its own has a name of its
  own, and its text says what it is. Memory management, logging and the counters of statistics are left out.

  \<^bold>\<open>The theories and what they model.\<close>
  \<^item> \<open>Prelude\<close>: C integers, return codes, C strings in arrays, and the \<open>wp\<close> calculus.
  \<^item> \<open>Amount\<close>, \<open>Amount_Text\<close>: \<^verbatim>\<open>util/amount.c\<close>, amounts with a 64-bit value, a fraction in units of \<open>10^-8\<close> and a currency.
    The lemmas relate each operation to integer arithmetic on \<open>amt\<close>, overflow included, and printing to parsing.
  \<^item> \<open>Exchangedb_Types\<close>, \<open>Coin_History\<close>: the structures of \<^verbatim>\<open>taler_exchangedb_plugin.h\<close> and \<^verbatim>\<open>exchangedb_transactions.c\<close>, the total
    of a coin's history; it is shown to be exact, with the cases in which it fails.
  \<^item> \<open>Pq\<close>: the database session: committed state, state of the running transaction, and a list of outcomes that the
    environment still has in store. Each statement takes the next outcome (it runs, a serialization failure, a hard error,
    rows that cannot be extracted), so a theorem for all lists of outcomes covers every pattern of failures. Transactions are
    serializable, as the plugin requests it: what other clients do happens before or after a transaction.
  \<^item> \<open>Exchangedb_Tables\<close>: the tables of \<^verbatim>\<open>exchange-0001.sql\<close> as lists of rows, with their keys, uniqueness and foreign key
    constraints, the prepared statements, and the conversion of amounts and times of \<^verbatim>\<open>src/pq\<close>.
  \<^item> \<open>Exchangedb_Reserves\<close>, \<open>Reserve_History\<close>, \<open>Exchangedb_Coins\<close>, \<open>Exchangedb_Reveal\<close>: the operations of \<^verbatim>\<open>plugin_exchangedb_postgres.c\<close>
    on reserves, coins and revealed refresh operations. \<open>Coin_Ledger\<close> and \<open>Coin_Updates\<close> state how the exchange accounts for a coin on the
    tables (\<open>coin_spent\<close>, which gives back the deposit fee once more after a refund, as the code does) and the integrity of the tables (\<open>db_ok\<close>),
    show that the history and its total implement it, and how every operation changes it.
  \<^item> \<open>Replies\<close>, \<open>Responses\<close>: what a handler sends; the histories of \<^verbatim>\<open>taler-exchange-httpd_responses.c\<close>.
  \<^item> \<open>Transaction_Runner\<close>: \<^verbatim>\<open>taler-exchange-httpd_db.c\<close>. What is demanded of a callback is the locale \<open>db_transaction_aborting\<close>,
    where a callback may abort on some tables (that of melts does). \<open>db_transaction\<close> is the case without aborts, as a sublocale, and its extension
    \<open>db_transaction_replying\<close> adds that a hard error comes with a reply; the guarantees of the runner are proved in the
    locales, and every callback of the handlers interprets one of them.
  \<^item> \<open>Keystate\<close>, \<open>Handler_Context\<close>, \<open>Undisturbed\<close>: the lookup of denomination keys (\<^verbatim>\<open>taler-exchange-httpd_keystate.c\<close>), the
    cryptography as a record of parameters, what a request finds, and the database without errors.
  \<^item> \<open>Withdraw\<close>, \<open>Deposit\<close>, \<open>Melt\<close>, \<open>Reveal\<close>, \<open>Refund\<close>, \<open>Recoup\<close>: the handlers \<^verbatim>\<open>taler-exchange-httpd_*.c\<close>. Each theory has the
    transaction callback, the handler and the theorem on whole requests: under every pattern of errors the request is
    answered, the database keeps its integrity, and it changes only by what the request may do. Of a request no more is assumed than what
    the parser checks (normalized amounts, rounded times). The causes of an abort or crash are in the statements: wire details that cannot be hashed
    (deposits), no connection to the database (melts, reveals, refunds), a coin that was refunded more than it has spent (melts).
  \<^item> \<open>Request_Sequences\<close>: the exchange as a transition system, with the requests that change what coins and reserves
    hold as steps, and aborts. The integrity of the database is an invariant of all runs, and so is that the net spending of a coin is at most its
    value, or one deposit fee more after a refund; that a coin can reach this excess is a theorem as well.
  \<^item> \<open>Refresh_Crypto\<close>, \<open>Wallet_Refresh\<close>: \<^verbatim>\<open>util/crypto.c\<close> and the wallet's side of a refresh (\<^verbatim>\<open>lib/exchange_api_refresh_common.c\<close>,
    \<^verbatim>\<open>lib/exchange_api_refreshes_reveal.c\<close>), composed with the handler of the exchange.
  \<^item> \<open>Payto\<close>, \<open>Json_Wire\<close>, \<open>Url\<close>, \<open>Routing\<close>: \<^verbatim>\<open>util/payto.c\<close>, \<^verbatim>\<open>json/json_wire.c\<close>, \<^verbatim>\<open>util/crypto_wire.c\<close>, \<^verbatim>\<open>util/url.c\<close> and the
    dispatcher of \<^verbatim>\<open>taler-exchange-httpd.c\<close>.
  \<^item> \<open>Exchangedb_Wire\<close>, \<open>Wire_Fees\<close>, \<open>Bank_Transfer\<close>, \<open>Aggregator\<close>: paying merchants. The operations of the plugin on due deposits,
    wire fees, prepared and outgoing transfers; \<^verbatim>\<open>exchangedb_fees.c\<close> and \<^verbatim>\<open>exchangedb_accounts.c\<close>; \<^verbatim>\<open>bank_api_transfer.c\<close>, with the
    theorem that what is prepared is what is requested of the bank; and a run of \<^verbatim>\<open>taler-exchange-aggregator.c\<close>.
  \<^item> \<open>Payouts\<close>, \<open>Payout_Safety\<close>, \<open>Payout_Sequences\<close>: what a run of the aggregator does to the database, under every pattern of failing
    statements, serialization failures and lost connections (but without rows that cannot be extracted): the total is exactly what is owed for the deposits after fees and refunds, and the deposits of a transfer are marked in the
    transaction that commits to it. With the requests of \<open>Request_Sequences\<close> as further steps this gives the invariant that
    merchants are never paid more than they are owed; a run in which a row cannot be extracted shows why this case is excluded.
  \<^item> \<open>Wire_Transfer\<close>, \<open>Fakebank\<close>, \<open>Transfer_Sequences\<close>: \<^verbatim>\<open>taler-exchange-transfer.c\<close>, which has the bank execute what was prepared, the bank
    of the repository (\<^verbatim>\<open>bank-lib/fakebank.c\<close>), and both together as a transition system in which replies get lost and
    processes are stopped: a prepared transfer is executed at most once, a finished one exactly once.
  \<^item> \<open>Wirewatch\<close>, \<open>Watch_Sequences\<close>: \<^verbatim>\<open>taler-exchange-wirewatch.c\<close> with the requests of \<^verbatim>\<open>bank_api_credit.c\<close>, which credits incoming
    transfers to reserves, and its transition system together with the bank: what was credited is always a prefix of what the bank
    has received. In reset mode the process never gets past its first page.
  \<^item> \<open>Closer\<close>, \<open>Closing_Runs\<close>: \<^verbatim>\<open>taler-exchange-closer.c\<close>, which closes expired reserves and sends back what is left. A run closes the
    reserve that is due first or nothing, whatever fails; and if nothing fails, as many runs as there are expired reserves close
    all of them.
  \<^item> \<open>Client_History\<close>, \<open>Client_Reserve\<close>: the histories that the exchange sends, as objects under keys, and \<^verbatim>\<open>exchange_api_common.c\<close>,
    the client's check of them. The history of a reserve is always accepted, with the same balance, and that of a coin if it
    consists of deposits, melts and recoups; but a coin's history with a refund that has a fee is always rejected.
  \<^bold>\<open>Bounds and fuel.\<close> Loops over lists are structural recursions. The retry loop of the runner has the bound of the
  source (100 attempts), the loop of the reveal handler too (2 attempts), so both are recursions on a number and no fuel is
  added. The security parameter \<open>TALER_CNC_KAPPA\<close> is 3 and a refresh has fewer than 256 fresh coins, as in the source.

  \<^bold>\<open>Parameters and what is assumed of them.\<close> The functions of libgnunetutil, libjansson and libpq are not part of the
  repository. They are fields of the records \<open>gnunet\<close> and \<open>crypto\<close> and arguments of the definitions that use them;
  \<open>gnunet_ok\<close>, \<open>refresh_crypto_ok\<close> and \<open>teh_ok\<close> state their documented behaviour. Keys, hashes and signatures are
  opaque numbers. No theorem about the exchange assumes that a signature cannot be forged: what is shown is
  what was verified. Only \<open>coin_history_rejected\<close>, about the client, assumes that a signature is valid for one message only.

  \<^bold>\<open>Not modelled.\<close> The HTTP server itself, the parsing of JSON and of the configuration, the keys on disk and the reply to
  \<^verbatim>\<open>/keys\<close> are input and output around libraries the sources only call. The status requests (\<^verbatim>\<open>/link\<close>, \<^verbatim>\<open>/reserves\<close>, \<^verbatim>\<open>/deposits\<close>,
  \<^verbatim>\<open>/transfers\<close>) only read. The auditor with its database and the client library apart
  from the refresh and the check of histories are not modelled yet. The testing library, benchmarks and command line tools are drivers without logic of the exchange.
\<close>

end
